(* ===== verification/JS_Prelude.thy ===== *)
theory JS_Prelude
  imports Complex_Main "HOL-Library.Char_ord"
begin

text \<open>
  The shared base of the development: the JavaScript values the modelled code computes with.
  Numbers that the code keeps integral are \<open>int\<close>; an exception the code throws is the
  \<open>Inl\<close> side of a sum; strings are \<open>char list\<close>, one \<open>char\<close> per code unit, so the model
  covers the first 256 code units. The operations below are the parts of the language's own
  library that several components use (\<open>String.prototype.toLowerCase\<close>, \<open>parseInt\<close>, the
  conversion of an integer to its decimal text, \<open>Array.prototype.indexOf\<close>, \<open>Math.round\<close>).
\<close>

named_theorems js_simps "unfolding rules of the small JavaScript operations"

text \<open>What ends a computation without a value: a thrown string, or a loop that never ends.\<close>

datatype js_exn = Throw string | Diverge

type_synonym 'a js = "js_exn + 'a"

section \<open>Sequencing of operations that may throw\<close>

definition js_bind :: "'a js \<Rightarrow> ('a \<Rightarrow> 'b js) \<Rightarrow> 'b js" where
  "js_bind r k = (case r of Inl e \<Rightarrow> Inl e | Inr x \<Rightarrow> k x)"

lemma js_bind_Inr [simp]: "js_bind (Inr x) k = k x"
  by (simp add: js_bind_def)

lemma js_bind_Inl [simp]: "js_bind (Inl e) k = Inl e"
  by (simp add: js_bind_def)

lemma js_bind_eq_Inr:
  "js_bind r k = Inr y \<longleftrightarrow> (\<exists>x. r = Inr x \<and> k x = Inr y)"
  by (cases r) auto

lemma js_bind_eq_Inl:
  "js_bind r k = Inl e \<longleftrightarrow> r = Inl e \<or> (\<exists>x. r = Inr x \<and> k x = Inl e)"
  by (cases r) auto

text \<open>\<open>try { r } catch (e) { h }\<close>: a thrown value reaches the handler, an endless loop does not.\<close>

definition js_catch :: "'a js \<Rightarrow> 'a js \<Rightarrow> 'a js" where
  "js_catch r h = (case r of Inl (Throw e) \<Rightarrow> h | _ \<Rightarrow> r)"

lemma js_catch_simps [simp]:
  "js_catch (Inr x) h = Inr x" "js_catch (Inl (Throw e)) h = h"
  "js_catch (Inl Diverge) h = Inl Diverge"
  by (simp_all add: js_catch_def)

section \<open>Lists\<close>

lemma filter_upt_single: "a < n \<Longrightarrow> [i \<leftarrow> [0..<n]. i = a] = [a]"
  by (induction n) (auto simp: less_Suc_eq)

section \<open>Characters and strings\<close>

definition is_digit :: "char \<Rightarrow> bool" where
  "is_digit c \<longleftrightarrow> 48 \<le> (of_char c :: int) \<and> (of_char c :: int) \<le> 57"

definition digit_val :: "char \<Rightarrow> int" where
  "digit_val c = of_char c - 48"

definition digit_char :: "int \<Rightarrow> char" where
  "digit_char n = char_of (48 + n)"

definition is_space :: "char \<Rightarrow> bool" where
  "is_space c \<longleftrightarrow> (of_char c :: int) \<in> {9, 10, 11, 12, 13, 32, 160}"

definition lower_char :: "char \<Rightarrow> char" where
  "lower_char c =
     (let n = (of_char c :: int)
      in if 65 \<le> n \<and> n \<le> 90 \<or> 192 \<le> n \<and> n \<le> 222 \<and> n \<noteq> 215 then char_of (n + 32) else c)"

definition to_lower :: "string \<Rightarrow> string" where
  "to_lower = map lower_char"

lemma length_to_lower [simp]: "length (to_lower s) = length s"
  by (simp add: to_lower_def)

lemma of_char_digit_char: "0 \<le> n \<Longrightarrow> n < 10 \<Longrightarrow> (of_char (digit_char n) :: int) = 48 + n"
  by (simp add: digit_char_def of_char_of)

lemma is_digit_digit_char [simp]: "0 \<le> n \<Longrightarrow> n < 10 \<Longrightarrow> is_digit (digit_char n)"
  by (simp add: is_digit_def of_char_digit_char)

lemma digit_val_digit_char [simp]: "0 \<le> n \<Longrightarrow> n < 10 \<Longrightarrow> digit_val (digit_char n) = n"
  by (simp add: digit_val_def of_char_digit_char)

section \<open>Decimal numbers\<close>

text \<open>The decimal text of a natural number, as an \<open>int\<close>.\<close>

function show_nat :: "int \<Rightarrow> string" where
  "show_nat n = (if n < 10 then [digit_char n] else show_nat (n div 10) @ [digit_char (n mod 10)])"
  by pat_completeness auto
termination
  by (relation "measure nat") auto

declare show_nat.simps [simp del]

definition show_int :: "int \<Rightarrow> string" where
  "show_int i = (if i < 0 then CHR ''-'' # show_nat (- i) else show_nat i)"

definition digits_val :: "string \<Rightarrow> int" where
  "digits_val s = foldl (\<lambda>a c. 10 * a + digit_val c) 0 s"

lemma digits_val_Nil [simp]: "digits_val [] = 0"
  by (simp add: digits_val_def)

lemma digits_val_snoc [simp]: "digits_val (s @ [c]) = 10 * digits_val s + digit_val c"
  by (simp add: digits_val_def)

lemma show_nat_nonempty [simp]: "show_nat n \<noteq> []"
  by (subst show_nat.simps) simp

lemma show_nat_digits: "0 \<le> n \<Longrightarrow> list_all is_digit (show_nat n)"
proof (induction n rule: show_nat.induct)
  case (1 n)
  then show ?case by (subst show_nat.simps) auto
qed

lemma digits_val_show_nat: "0 \<le> n \<Longrightarrow> digits_val (show_nat n) = n"
proof (induction n rule: show_nat.induct)
  case (1 n)
  show ?case
  proof (cases "n < 10")
    case True
    then show ?thesis
      using 1 digits_val_snoc [of "[]" "digit_char n"] by (subst show_nat.simps) simp
  next
    case False
    then show ?thesis using 1 by (subst show_nat.simps) simp
  qed
qed

lemma length_show_nat_le: "0 < k \<Longrightarrow> n < 10 ^ k \<Longrightarrow> length (show_nat n) \<le> k"
proof (induction n arbitrary: k rule: show_nat.induct)
  case (1 n)
  show ?case
  proof (cases "n < 10")
    case True
    with 1(2) show ?thesis by (subst show_nat.simps) simp
  next
    case False
    with 1(2,3) obtain j where j: "k = Suc j" "0 < j"
      by (cases k; cases "k - 1") auto
    with 1(3) have "n div 10 < 10 ^ j" by simp
    with 1(1) False j show ?thesis by (subst show_nat.simps) simp
  qed
qed

lemma length_show_nat_ge: "10 ^ k \<le> n \<Longrightarrow> k < length (show_nat n)"
proof (induction k arbitrary: n)
  case 0
  then show ?case by simp
next
  case (Suc k)
  have "1 \<le> (10::int) ^ k" by simp
  then have "\<not> n < 10" using Suc.prems by (simp only: power_Suc)
  moreover have "10 ^ k \<le> n div 10" using zdiv_mono1 [OF Suc.prems, of 10] by simp
  ultimately show ?case using Suc.IH by (subst show_nat.simps) simp
qed

lemma digits_val_replicate_zero: "digits_val (replicate k (CHR ''0'') @ s) = digits_val s"
proof (induction s rule: rev_induct)
  case Nil
  have "digits_val (replicate k (CHR ''0'')) = 0"
    by (induction k) (simp_all add: digit_val_def digits_val_def)
  then show ?case by simp
next
  case (snoc c s)
  then show ?case using digits_val_snoc [of "replicate k (CHR ''0'') @ s" c] by simp
qed

text \<open>\<open>parseInt(s, 10)\<close>: leading white space, one sign, the longest run of digits; \<open>None\<close> is NaN.\<close>

definition js_parse_int :: "string \<Rightarrow> int option" where
  "js_parse_int s =
     (let t = dropWhile is_space s;
          neg = (t \<noteq> [] \<and> hd t = CHR ''-'');
          u = (if t \<noteq> [] \<and> (hd t = CHR ''-'' \<or> hd t = CHR ''+'') then tl t else t);
          ds = takeWhile is_digit u
      in if ds = [] then None else Some (if neg then - digits_val ds else digits_val ds))"

lemma takeWhile_is_digit_show_nat [simp]: "0 \<le> n \<Longrightarrow> takeWhile is_digit (show_nat n) = show_nat n"
  using show_nat_digits [of n] by (simp add: list_all_iff takeWhile_eq_all_conv)

lemma is_digit_not_space: "is_digit c \<Longrightarrow> \<not> is_space c"
  by (auto simp: is_digit_def is_space_def)

lemma js_parse_int_show_nat: "0 \<le> n \<Longrightarrow> js_parse_int (show_nat n) = Some n"
proof -
  assume n: "0 \<le> n"
  obtain c s where cs: "show_nat n = c # s" by (cases "show_nat n") auto
  then have d: "is_digit c" using show_nat_digits [OF n] by simp
  then have "c \<noteq> CHR ''-''" "c \<noteq> CHR ''+''" by (auto simp: is_digit_def)
  with cs d have "js_parse_int (show_nat n) = Some (digits_val (takeWhile is_digit (show_nat n)))"
    by (simp add: js_parse_int_def is_digit_not_space)
  then show ?thesis using n by (simp only: takeWhile_is_digit_show_nat digits_val_show_nat)
qed

section \<open>Integer arithmetic of the language\<close>

definition trunc_div :: "int \<Rightarrow> int \<Rightarrow> int" where
  "trunc_div a b = (if b = 0 then 0 else sgn a * sgn b * (\<bar>a\<bar> div \<bar>b\<bar>))"

definition js_mod :: "int \<Rightarrow> int \<Rightarrow> int" where
  "js_mod a b = a - b * trunc_div a b"

lemma js_mod_nonneg: "0 \<le> a \<Longrightarrow> 0 < b \<Longrightarrow> js_mod a b = a mod b"
  by (cases "a = 0") (simp_all add: js_mod_def trunc_div_def minus_mult_div_eq_mod)

text \<open>\<open>Math.round (a / b)\<close> for integers: ties go up.\<close>

definition round_div :: "int \<Rightarrow> int \<Rightarrow> int" where
  "round_div a b = (2 * a + b) div (2 * b)"

lemma round_div_near:
  assumes "0 < b" "2 * \<bar>a - k * b\<bar> < b"
  shows "round_div a b = k"
proof -
  define x where "x = a - k * b"
  have "2 * x < b" and "- b < 2 * x"
    using assms(2) unfolding x_def [symmetric] by linarith+
  then have 1: "2 * b * k \<le> 2 * a + b" and 2: "2 * a + b < 2 * b * (k + 1)"
    by (simp_all add: x_def algebra_simps)
  from 1 2 assms(1) show ?thesis
    unfolding round_div_def by (intro int_div_pos_eq [where r = "2 * a + b - 2 * b * k"])
      (auto simp: algebra_simps)
qed

end
