(* ===== verification/JS_Date.thy ===== *)
theory JS_Date
  imports JS_Prelude
begin

text \<open>
  The part of JavaScript's \<open>Date\<close> that the date picker uses, after the language standard: a
  date is its time value, the milliseconds since 1970-01-01 UTC (\<open>int\<close>); the local fields are
  those of the proleptic Gregorian calendar at the local time. The host's time zone is a
  parameter, a record of the two conversions the standard calls \<open>LocalTime\<close> and \<open>UTC\<close>.
  The locale \<open>zone_laws\<close> states what the date arithmetic of the code relies on: local midnight
  exists on every day, and the offset varies by less than twelve hours (daylight saving).
\<close>

section \<open>The proleptic Gregorian calendar\<close>

definition ms_day :: int where
  "ms_day = 86400000"

definition leap :: "int \<Rightarrow> bool" where
  "leap y \<longleftrightarrow> y mod 4 = 0 \<and> (y mod 100 \<noteq> 0 \<or> y mod 400 = 0)"

definition day_from_year :: "int \<Rightarrow> int" where
  "day_from_year y =
     365 * (y - 1970) + (y - 1969) div 4 - (y - 1901) div 100 + (y - 1601) div 400"

definition year_length :: "int \<Rightarrow> int" where
  "year_length y = (if leap y then 366 else 365)"

definition year_from_day :: "int \<Rightarrow> int" where
  "year_from_day d =
     (let y = 1970 + (400 * d) div 146097
      in if d < day_from_year y then y - 1
         else if day_from_year (y + 1) \<le> d then y + 1 else y)"

definition month_start :: "bool \<Rightarrow> int \<Rightarrow> int" where
  "month_start l m =
     (if m = 0 then 0 else if m = 1 then 31
      else (if l then 1 else 0) +
        (if m = 2 then 59 else if m = 3 then 90 else if m = 4 then 120 else if m = 5 then 151
         else if m = 6 then 181 else if m = 7 then 212 else if m = 8 then 243
         else if m = 9 then 273 else if m = 10 then 304 else if m = 11 then 334 else 365))"

definition month_length :: "int \<Rightarrow> int \<Rightarrow> int" where
  "month_length y m = month_start (leap y) (m + 1) - month_start (leap y) m"

definition month_of_yday :: "bool \<Rightarrow> int \<Rightarrow> int" where
  "month_of_yday l n =
     (if n < month_start l 1 then 0 else if n < month_start l 2 then 1
      else if n < month_start l 3 then 2 else if n < month_start l 4 then 3
      else if n < month_start l 5 then 4 else if n < month_start l 6 then 5
      else if n < month_start l 7 then 6 else if n < month_start l 8 then 7
      else if n < month_start l 9 then 8 else if n < month_start l 10 then 9
      else if n < month_start l 11 then 10 else 11)"

lemma div_step:
  fixes x N :: int
  assumes "0 < N"
  shows "(x + 1) div N = x div N + (if (x + 1) mod N = 0 then 1 else 0)"
proof -
  define q r where "q = x div N" and "r = x mod N"
  have x: "x = N * q + r" and r: "0 \<le> r" "r < N"
    using assms by (simp_all add: q_def r_def)
  show ?thesis
  proof (cases "r + 1 = N")
    case True
    then have "x + 1 = N * (q + 1)" by (simp add: x algebra_simps)
    then have "(x + 1) div N = q + 1" "(x + 1) mod N = 0" using assms by auto
    then show ?thesis by (simp add: q_def)
  next
    case False
    then have "(x + 1) div N = q" "(x + 1) mod N = r + 1"
      using r by (auto intro: int_div_pos_eq [where r = "r + 1"]
          int_mod_pos_eq [where q = q] simp: x)
    then show ?thesis using r by (simp add: q_def)
  qed
qed

lemma leap_step:
  "(y - 1968) div 4 = (y - 1969) div 4 + (if y mod 4 = 0 then 1 else (0::int))"
  "(y - 1900) div 100 = (y - 1901) div 100 + (if y mod 100 = 0 then 1 else (0::int))"
  "(y - 1600) div 400 = (y - 1601) div 400 + (if y mod 400 = 0 then 1 else (0::int))"
proof -
  have m: "(y - 1968) mod 4 = y mod 4" "(y - 1900) mod 100 = y mod 100" "(y - 1600) mod 400 = y mod 400"
    using mod_mult_self1 [of y "- 492" 4] mod_mult_self1 [of y "- 19" 100]
      mod_mult_self1 [of y "- 4" 400] by simp_all
  show "(y - 1968) div 4 = (y - 1969) div 4 + (if y mod 4 = 0 then 1 else (0::int))"
    using div_step [of 4 "y - 1969"] m(1) by simp
  show "(y - 1900) div 100 = (y - 1901) div 100 + (if y mod 100 = 0 then 1 else (0::int))"
    using div_step [of 100 "y - 1901"] m(2) by simp
  show "(y - 1600) div 400 = (y - 1601) div 400 + (if y mod 400 = 0 then 1 else (0::int))"
    using div_step [of 400 "y - 1601"] m(3) by simp
qed

lemma day_from_year_Suc: "day_from_year (y + 1) = day_from_year y + year_length y"
proof -
  have r: "y mod 400 = 0 \<Longrightarrow> y mod 100 = 0" and q: "y mod 100 = 0 \<Longrightarrow> y mod 4 = 0"
    unfolding mod_eq_0_iff_dvd by (erule dvd_trans [rotated], simp)+
  have "day_from_year (y + 1) = 365 * (y - 1969) + (y - 1968) div 4 - (y - 1900) div 100
      + (y - 1600) div 400"
    unfolding day_from_year_def by (simp only: diff_diff_eq [symmetric] add_diff_eq [symmetric]) simp
  also have "\<dots> = day_from_year y + 365 + (if y mod 4 = 0 then 1 else 0)
      - (if y mod 100 = 0 then 1 else 0) + (if y mod 400 = 0 then 1 else 0)"
    unfolding leap_step day_from_year_def by algebra
  also have "\<dots> = day_from_year y + year_length y"
    unfolding year_length_def leap_def
    by (cases "y mod 4 = 0"; cases "y mod 100 = 0"; cases "y mod 400 = 0")
      (use r q in \<open>simp_all only: if_True if_False simp_thms\<close>)
  finally show ?thesis .
qed

lemma year_length_pos: "365 \<le> year_length y"
  by (simp add: year_length_def)

lemma day_from_year_mono_Suc: "day_from_year y + 365 \<le> day_from_year (y + 1)"
  using year_length_pos [of y] by (simp add: day_from_year_Suc)

lemma day_from_year_add: "day_from_year y + 365 * int n \<le> day_from_year (y + int n)"
proof (induction n)
  case 0
  then show ?case by simp
next
  case (Suc n)
  then show ?case using day_from_year_mono_Suc [of "y + int n"] by (simp add: algebra_simps)
qed

lemma day_from_year_mono: "x \<le> y \<Longrightarrow> day_from_year x \<le> day_from_year y"
  using day_from_year_add [of x "nat (y - x)"] by simp

lemma day_from_year_strict: "x < y \<Longrightarrow> day_from_year x + 365 \<le> day_from_year y"
  using day_from_year_add [of x "nat (y - x)"] by simp

text \<open>The linear estimate of the year is off by at most one.\<close>

lemma day_from_year_bounds:
  "400 * day_from_year y \<le> 146097 * (y - 1970) + 600"
  "146097 * (y - 1970) - 700 \<le> 400 * day_from_year y"
proof -
  have d: "N * (x div N) \<le> x" "x < N * (x div N) + N" if "0 < N" for x N :: int
    using that pos_mod_sign [of N x] pos_mod_bound [of N x] mult_div_mod_eq [of N x] by linarith+
  show "400 * day_from_year y \<le> 146097 * (y - 1970) + 600"
    "146097 * (y - 1970) - 700 \<le> 400 * day_from_year y"
    using d [of 4 "y - 1969"] d [of 100 "y - 1901"] d [of 400 "y - 1601"]
    by (simp_all add: day_from_year_def)
qed

lemma year_from_day_bounds:
  "day_from_year (year_from_day d) \<le> d" "d < day_from_year (year_from_day d + 1)"
proof -
  define y where "y = 1970 + (400 * d) div 146097"
  have e: "146097 * (y - 1970) \<le> 400 * d" "400 * d < 146097 * (y - 1970) + 146097"
    using pos_mod_sign [of 146097 "400 * d"] pos_mod_bound [of 146097 "400 * d"]
      mult_div_mod_eq [of 146097 "400 * d"] by (simp_all add: y_def)
  have lo: "day_from_year (y - 1) \<le> d"
    using day_from_year_bounds(1) [of "y - 1"] e by (simp add: algebra_simps)
  have hi: "d < day_from_year (y + 2)"
    using day_from_year_bounds(2) [of "y + 2"] e by (simp add: algebra_simps)
  have "year_from_day d = (if d < day_from_year y then y - 1
         else if day_from_year (y + 1) \<le> d then y + 1 else y)"
    by (simp add: year_from_day_def y_def Let_def)
  then show "day_from_year (year_from_day d) \<le> d" "d < day_from_year (year_from_day d + 1)"
    using lo hi by (auto simp: add.assoc)
qed

lemma year_from_day_unique:
  assumes "day_from_year y \<le> d" "d < day_from_year (y + 1)"
  shows "year_from_day d = y"
proof (rule antisym)
  show "year_from_day d \<le> y"
  proof (rule ccontr)
    assume "\<not> year_from_day d \<le> y"
    then have "day_from_year (y + 1) \<le> day_from_year (year_from_day d)"
      by (intro day_from_year_mono) simp
    with year_from_day_bounds(1) [of d] assms(2) show False by simp
  qed
  show "y \<le> year_from_day d"
  proof (rule ccontr)
    assume "\<not> y \<le> year_from_day d"
    then have "day_from_year (year_from_day d + 1) \<le> day_from_year y"
      by (intro day_from_year_mono) simp
    with year_from_day_bounds(2) [of d] assms(1) show False by simp
  qed
qed

section \<open>Days and civil dates\<close>

definition year_day :: "int \<Rightarrow> int" where
  "year_day d = d - day_from_year (year_from_day d)"

definition month_from_day :: "int \<Rightarrow> int" where
  "month_from_day d = month_of_yday (leap (year_from_day d)) (year_day d)"

definition date_from_day :: "int \<Rightarrow> int" where
  "date_from_day d =
     year_day d - month_start (leap (year_from_day d)) (month_from_day d) + 1"

definition make_day :: "int \<Rightarrow> int \<Rightarrow> int \<Rightarrow> int" where
  "make_day y m dt =
     (let ym = y + m div 12; mn = m mod 12
      in day_from_year ym + month_start (leap ym) mn + dt - 1)"

lemma year_day_bounds: "0 \<le> year_day d" "year_day d < year_length (year_from_day d)"
  using year_from_day_bounds [of d] by (simp_all add: year_day_def day_from_year_Suc)

lemma month_cases:
  assumes "0 \<le> m" "m \<le> (11::int)"
  obtains "m = 0" | "m = 1" | "m = 2" | "m = 3" | "m = 4" | "m = 5" | "m = 6" | "m = 7"
    | "m = 8" | "m = 9" | "m = 10" | "m = 11"
proof -
  have "m = 0 \<or> m = 1 \<or> m = 2 \<or> m = 3 \<or> m = 4 \<or> m = 5 \<or> m = 6 \<or> m = 7 \<or> m = 8 \<or> m = 9
      \<or> m = 10 \<or> m = 11"
    using assms by presburger
  then show ?thesis using that by blast
qed

lemma month_of_yday_unique:
  assumes "0 \<le> m" "m \<le> 11" "month_start l m \<le> n" "n < month_start l (m + 1)"
  shows "month_of_yday l n = m"
  using assms(1,2)
  by (cases m rule: month_cases)
    (use assms(3,4) in \<open>cases l; simp add: month_of_yday_def month_start_def\<close>)+

lemma month_of_yday_bounds:
  assumes "0 \<le> n" "n < (if l then 366 else 365)"
  shows "0 \<le> month_of_yday l n" "month_of_yday l n \<le> 11"
    "month_start l (month_of_yday l n) \<le> n" "n < month_start l (month_of_yday l n + 1)"
proof -
  obtain m where m: "0 \<le> m" "m \<le> 11" "month_start l m \<le> n" "n < month_start l (m + 1)"
  proof -
    have "\<exists>m \<in> {0, 1, 2, 3, 4, 5, 6, 7, 8, 9, 10, 11}.
        month_start l m \<le> n \<and> n < month_start l (m + 1)"
      by (cases l) (use assms in \<open>simp_all add: month_start_def, linarith+\<close>)
    then obtain m where "m \<in> {0, 1, 2, 3, 4, 5, 6, 7, 8, 9, 10, 11}"
        "month_start l m \<le> n" "n < month_start l (m + 1)" by blast
    then show ?thesis using that [of m] by auto
  qed
  from month_of_yday_unique [OF this] m
  show "0 \<le> month_of_yday l n" "month_of_yday l n \<le> 11"
    "month_start l (month_of_yday l n) \<le> n" "n < month_start l (month_of_yday l n + 1)"
    by simp_all
qed

lemma month_start_mono: "0 \<le> m \<Longrightarrow> m \<le> 11 \<Longrightarrow> 0 \<le> month_start l m \<and>
  month_start l (m + 1) \<le> (if l then 366 else 365)"
  by (cases m rule: month_cases) (auto simp: month_start_def)

lemma month_length_bounds: "0 \<le> m \<Longrightarrow> m \<le> 11 \<Longrightarrow> 28 \<le> month_length y m \<and> month_length y m \<le> 31"
  by (cases m rule: month_cases) (auto simp: month_length_def month_start_def)

lemma month_from_day_range [simp]: "0 \<le> month_from_day d" "month_from_day d \<le> 11"
  using month_of_yday_bounds(1,2) [OF year_day_bounds(1) year_day_bounds(2)
      [unfolded year_length_def]] by (simp_all add: month_from_day_def)

lemma date_from_day_range:
  "1 \<le> date_from_day d" "date_from_day d \<le> month_length (year_from_day d) (month_from_day d)"
  using month_of_yday_bounds(3,4) [OF year_day_bounds(1) year_day_bounds(2)
      [unfolded year_length_def], of d]
  by (simp_all add: date_from_day_def month_length_def month_from_day_def)

lemma make_day_from_day:
  "make_day (year_from_day d) (month_from_day d) (date_from_day d) = d"
proof -
  have "month_from_day d div 12 = 0" "month_from_day d mod 12 = month_from_day d"
    using month_from_day_range [of d] by (simp_all only: div_pos_pos_trivial mod_pos_pos_trivial)
  then show ?thesis by (simp add: make_day_def date_from_day_def year_day_def Let_def)
qed

lemma civil_of_make_day:
  assumes "0 \<le> m" "m \<le> 11" "1 \<le> dt" "dt \<le> month_length y m"
  shows "year_from_day (make_day y m dt) = y" "month_from_day (make_day y m dt) = m"
    "date_from_day (make_day y m dt) = dt"
proof -
  have md: "make_day y m dt = day_from_year y + month_start (leap y) m + dt - 1"
    using assms(1,2) by (simp add: make_day_def Let_def)
  have b: "0 \<le> month_start (leap y) m" "month_start (leap y) (m + 1) \<le> year_length y"
    using month_start_mono [OF assms(1,2), of "leap y"] by (simp_all add: year_length_def)
  show y: "year_from_day (make_day y m dt) = y"
    by (rule year_from_day_unique)
      (use b assms(3,4) in \<open>simp_all add: md day_from_year_Suc month_length_def\<close>)
  then have yd: "year_day (make_day y m dt) = month_start (leap y) m + dt - 1"
    by (simp add: year_day_def md)
  show mo: "month_from_day (make_day y m dt) = m"
    unfolding month_from_day_def yd y
    by (rule month_of_yday_unique) (use assms in \<open>simp_all add: month_length_def\<close>)
  show "date_from_day (make_day y m dt) = dt"
    by (simp add: date_from_day_def mo yd y)
qed

lemma make_day_shift: "make_day y m (dt + k) = make_day y m dt + k"
  by (simp add: make_day_def Let_def)

lemma make_day_month_shift: "make_day y (m + 12 * k) dt = make_day (y + k) m dt"
proof -
  have "(m + 12 * k) div 12 = m div 12 + k" "(m + 12 * k) mod 12 = m mod 12" by (simp_all add: add.commute)
  then show ?thesis by (simp add: make_day_def add_ac)
qed

lemma make_day_normal: "make_day y m dt = make_day (y + m div 12) (m mod 12) dt"
  by (simp add: make_day_def)

section \<open>Time zones and dates\<close>

record zone =
  lt :: "int \<Rightarrow> int"
  ut :: "int \<Rightarrow> int"

locale zone_laws =
  fixes z :: zone
  assumes midnight: "lt z (ut z (d * ms_day)) = d * ms_day"
    and drift: "2 * \<bar>(ut z (c * ms_day) - c * ms_day) - (ut z (d * ms_day) - d * ms_day)\<bar> < ms_day"

definition local_day :: "zone \<Rightarrow> int \<Rightarrow> int" where
  "local_day z t = lt z t div ms_day"

definition get_full_year :: "zone \<Rightarrow> int \<Rightarrow> int" where
  "get_full_year z t = year_from_day (local_day z t)"

definition get_month :: "zone \<Rightarrow> int \<Rightarrow> int" where
  "get_month z t = month_from_day (local_day z t)"

definition get_date :: "zone \<Rightarrow> int \<Rightarrow> int" where
  "get_date z t = date_from_day (local_day z t)"

definition get_day :: "zone \<Rightarrow> int \<Rightarrow> int" where
  "get_day z t = (local_day z t + 4) mod 7"

definition get_hours :: "zone \<Rightarrow> int \<Rightarrow> int" where
  "get_hours z t = (lt z t mod ms_day) div 3600000"

definition full_year :: "int \<Rightarrow> int" where
  "full_year y = (if 0 \<le> y \<and> y \<le> 99 then 1900 + y else y)"

definition new_date :: "zone \<Rightarrow> int \<Rightarrow> int \<Rightarrow> int \<Rightarrow> int" where
  "new_date z y m d = ut z (make_day (full_year y) m d * ms_day)"

definition set_date :: "zone \<Rightarrow> int \<Rightarrow> int \<Rightarrow> int" where
  "set_date z t d = ut z (make_day (get_full_year z t) (get_month z t) d * ms_day + lt z t mod ms_day)"

definition set_month :: "zone \<Rightarrow> int \<Rightarrow> int \<Rightarrow> int" where
  "set_month z t m = ut z (make_day (get_full_year z t) m (get_date z t) * ms_day + lt z t mod ms_day)"

definition set_hours :: "zone \<Rightarrow> int \<Rightarrow> int \<Rightarrow> int" where
  "set_hours z t h = ut z (local_day z t * ms_day + h * 3600000 + lt z t mod 3600000)"

text \<open>The four calls \<open>setHours(0)\<close>, \<open>setMinutes(0)\<close>, \<open>setSeconds(0)\<close>, \<open>setMilliseconds(0)\<close> in a row
  leave the local midnight of the same day.\<close>

definition clear_time :: "zone \<Rightarrow> int \<Rightarrow> int" where
  "clear_time z t = ut z (local_day z t * ms_day)"

definition midnight_of :: "zone \<Rightarrow> int \<Rightarrow> int" where
  "midnight_of z d = ut z (d * ms_day)"

lemmas date_fields = get_full_year_def get_month_def get_date_def get_day_def

lemma get_month_range [simp]: "0 \<le> get_month z t" "get_month z t \<le> 11"
  by (simp_all add: get_month_def)

lemma get_date_range: "1 \<le> get_date z t" "get_date z t \<le> month_length (get_full_year z t) (get_month z t)"
  using date_from_day_range by (simp_all add: date_fields)

lemma get_day_range: "0 \<le> get_day z t" "get_day z t \<le> 6"
  by (simp_all add: get_day_def)

lemma new_date_midnight: "new_date z y m d = midnight_of z (make_day (full_year y) m d)"
  by (simp add: new_date_def midnight_of_def)

context zone_laws
begin

lemma lt_midnight_of [simp]: "lt z (midnight_of z d) = d * ms_day"
  by (simp add: midnight_of_def midnight)

lemma local_day_midnight [simp]: "local_day z (midnight_of z d) = d"
  by (simp add: local_day_def ms_day_def)

lemma get_hours_midnight [simp]: "get_hours z (midnight_of z d) = 0"
  by (simp add: get_hours_def)

lemma set_hours_midnight [simp]: "set_hours z (midnight_of z d) 0 = midnight_of z d"
proof -
  have "d * ms_day mod 3600000 = 0" by (simp add: ms_day_def mod_eq_0_iff_dvd dvd_mult)
  then show ?thesis by (simp add: set_hours_def midnight_of_def [symmetric])
qed

lemma set_date_midnight:
  "set_date z (midnight_of z d) k = midnight_of z (make_day (year_from_day d) (month_from_day d) k)"
  by (simp add: set_date_def date_fields midnight_of_def [symmetric])

lemma set_month_midnight:
  "set_month z (midnight_of z d) m = midnight_of z (make_day (year_from_day d) m (date_from_day d))"
  by (simp add: set_month_def date_fields midnight_of_def [symmetric])

lemma clear_time_midnight [simp]: "clear_time z (midnight_of z d) = midnight_of z d"
  by (simp add: clear_time_def midnight_of_def [symmetric])

lemma clear_time_is_midnight: "clear_time z t = midnight_of z (local_day z t)"
  by (simp add: clear_time_def midnight_of_def)

text \<open>Midnights a whole number of days apart: the rounded quotient of the code is that number.\<close>

lemma round_midnights: "round_div (midnight_of z c - midnight_of z d) ms_day = c - d"
proof (rule round_div_near)
  show "0 < ms_day" by (simp add: ms_day_def)
  show "2 * \<bar>midnight_of z c - midnight_of z d - (c - d) * ms_day\<bar> < ms_day"
    using drift [of c d] by (simp add: midnight_of_def algebra_simps)
qed

lemma midnight_less: "c < d \<Longrightarrow> midnight_of z c < midnight_of z d"
proof -
  assume "c < d"
  then have "(c + 1) * ms_day \<le> d * ms_day"
    by (intro mult_right_mono) (simp_all add: ms_day_def)
  then have "c * ms_day + ms_day \<le> d * ms_day" by (simp add: algebra_simps)
  moreover define p q where pq: "p = midnight_of z c" "q = midnight_of z d"
  moreover have "2 * \<bar>(p - c * ms_day) - (q - d * ms_day)\<bar> < ms_day"
    using drift [of c d] by (simp add: pq midnight_of_def)
  moreover define x where "x = (p - c * ms_day) - (q - d * ms_day)"
  ultimately have "2 * \<bar>x\<bar> < ms_day" by simp
  then have "x < ms_day" by linarith
  then have "p < q" using \<open>c * ms_day + ms_day \<le> d * ms_day\<close> by (simp add: x_def)
  then show "midnight_of z c < midnight_of z d" by (simp add: pq)
qed

lemma midnight_less_iff [simp]: "midnight_of z c < midnight_of z d \<longleftrightarrow> c < d"
  using midnight_less [of c d] midnight_less [of d c]
  by (metis less_asym less_irrefl linorder_neqE_linordered_idom)

lemma midnight_le_iff [simp]: "midnight_of z c \<le> midnight_of z d \<longleftrightarrow> c \<le> d"
  by (metis midnight_less_iff not_le)

lemma midnight_eq_iff [simp]: "midnight_of z c = midnight_of z d \<longleftrightarrow> c = d"
  by (metis local_day_midnight)

lemma date_fields_midnight [simp]:
  "get_full_year z (midnight_of z d) = year_from_day d"
  "get_month z (midnight_of z d) = month_from_day d"
  "get_date z (midnight_of z d) = date_from_day d"
  "get_day z (midnight_of z d) = (d + 4) mod 7"
  by (simp_all add: date_fields)

end

section \<open>Zones\<close>

text \<open>A zone of constant offset, and a zone whose clock is one hour ahead between two instants
  (one summer time): the local time skips or repeats an hour, but no midnight.\<close>

definition fixed_zone :: "int \<Rightarrow> zone" where
  "fixed_zone k = \<lparr>lt = (\<lambda>t. t + k), ut = (\<lambda>l. l - k)\<rparr>"

definition summer_zone :: "int \<Rightarrow> int \<Rightarrow> int \<Rightarrow> zone" where
  "summer_zone k a b =
     \<lparr>lt = (\<lambda>t. if a \<le> t \<and> t < b then t + k + 3600000 else t + k),
      ut = (\<lambda>l. if a + k + 3600000 \<le> l \<and> l < b + k + 3600000 then l - k - 3600000 else l - k)\<rparr>"

interpretation fixed_offset: zone_laws "fixed_zone k"
  by unfold_locales (simp_all add: fixed_zone_def ms_day_def)

text \<open>Central European time in 2015: offset one hour, summer time from 2015-03-29 01:00 UTC to
  2015-10-25 01:00 UTC.\<close>

definition cet_2015 :: zone where
  "cet_2015 = summer_zone 3600000 1427590800000 1445734800000"

lemma cet_2015_midnight: "lt cet_2015 (ut cet_2015 (d * ms_day)) = d * ms_day"
  by (simp add: cet_2015_def summer_zone_def ms_day_def, presburger)

interpretation cet: zone_laws cet_2015
  by unfold_locales (simp add: cet_2015_midnight, simp add: cet_2015_def summer_zone_def ms_day_def)

end
