(* ===== verification/DP_Format.thy ===== *)
theory DP_Format
  imports JS_Date
begin

text \<open>
  The date texts of the date picker (jquery-ui.js): \<open>parseDate\<close>, \<open>formatDate\<close>,
  \<open>_possibleChars\<close>, \<open>iso8601Week\<close>, \<open>_getDaysInMonth\<close> and \<open>_daylightSavingAdjust\<close>. The loop
  index \<open>iFormat\<close> is the rest of the format, \<open>iValue\<close> stays an index into the value, and the
  three date fields are \<open>None\<close> where the code holds NaN.
\<close>

section \<open>Settings\<close>

datatype cutoff = CutNum int | CutStr string

record format_names =
  shortYearCutoff :: cutoff
  dayNamesShort :: "string list"
  dayNames :: "string list"
  monthNamesShort :: "string list"
  monthNames :: "string list"

record format_settings =
  set_shortYearCutoff :: "cutoff option"
  set_dayNamesShort :: "string list option"
  set_dayNames :: "string list option"
  set_monthNamesShort :: "string list option"
  set_monthNames :: "string list option"

definition cutoff_truthy :: "cutoff \<Rightarrow> bool" where
  "cutoff_truthy c = (case c of CutNum n \<Rightarrow> n \<noteq> 0 | CutStr s \<Rightarrow> s \<noteq> [])"

definition or_default :: "'a option \<Rightarrow> 'a \<Rightarrow> 'a" where
  "or_default s d = (case s of None \<Rightarrow> d | Some v \<Rightarrow> v)"

definition format_config :: "format_settings option \<Rightarrow> format_names \<Rightarrow> format_names" where
  "format_config settings d =
     (case settings of None \<Rightarrow> d
      | Some s \<Rightarrow>
         \<lparr>shortYearCutoff = (case set_shortYearCutoff s of
             None \<Rightarrow> shortYearCutoff d
           | Some c \<Rightarrow> if cutoff_truthy c then c else shortYearCutoff d),
          dayNamesShort = or_default (set_dayNamesShort s) (dayNamesShort d),
          dayNames = or_default (set_dayNames s) (dayNames d),
          monthNamesShort = or_default (set_monthNamesShort s) (monthNamesShort d),
          monthNames = or_default (set_monthNames s) (monthNames d)\<rparr>)"

definition regional_names :: format_names where
  "regional_names =
     \<lparr>shortYearCutoff = CutStr ''+10'',
      dayNamesShort = [''Sun'', ''Mon'', ''Tue'', ''Wed'', ''Thu'', ''Fri'', ''Sat''],
      dayNames = [''Sunday'', ''Monday'', ''Tuesday'', ''Wednesday'', ''Thursday'', ''Friday'',
        ''Saturday''],
      monthNamesShort = [''Jan'', ''Feb'', ''Mar'', ''Apr'', ''May'', ''Jun'', ''Jul'', ''Aug'',
        ''Sep'', ''Oct'', ''Nov'', ''Dec''],
      monthNames = [''January'', ''February'', ''March'', ''April'', ''May'', ''June'', ''July'',
        ''August'', ''September'', ''October'', ''November'', ''December'']\<rparr>"

definition cutoff_year :: "zone \<Rightarrow> int \<Rightarrow> cutoff \<Rightarrow> int option" where
  "cutoff_year z now c =
     (case c of CutNum n \<Rightarrow> Some n
      | CutStr s \<Rightarrow> map_option (\<lambda>n. js_mod (get_full_year z now) 100 + n) (js_parse_int s))"

section \<open>Calendar helpers\<close>

definition daylightSavingAdjust :: "zone \<Rightarrow> int \<Rightarrow> int" where
  "daylightSavingAdjust z t =
     set_hours z t (if get_hours z t > 12 then get_hours z t + 2 else 0)"

definition getDaysInMonth :: "zone \<Rightarrow> int \<Rightarrow> int \<Rightarrow> int" where
  "getDaysInMonth z year month = 32 - get_date z (daylightSavingAdjust z (new_date z year month 32))"

definition getFirstDayOfMonth :: "zone \<Rightarrow> int \<Rightarrow> int \<Rightarrow> int" where
  "getFirstDayOfMonth z year month = get_day z (new_date z year month 1)"

definition noWeekends :: "zone \<Rightarrow> int \<Rightarrow> bool \<times> string" where
  "noWeekends z date = (let day = get_day z date in (day > 0 \<and> day < 6, ''''))"

definition iso8601Week :: "zone \<Rightarrow> int \<Rightarrow> int" where
  "iso8601Week z date =
     (let wd = get_day z date;
          checkDate = set_date z date (get_date z date + 4 - (if wd = 0 then 7 else wd));
          time = checkDate;
          checkDate' = set_date z (set_month z checkDate 0) 1
      in round_div (time - checkDate') 86400000 div 7 + 1)"

section \<open>Parsing\<close>

text \<open>\<open>look_ahead m f\<close>: whether the format's next character doubles \<open>m\<close>, and the rest of the format
  with a doubled character taken off (the code's \<open>iFormat++\<close>).\<close>

definition look_ahead :: "char \<Rightarrow> string \<Rightarrow> bool \<times> string" where
  "look_ahead m f =
     (case f of [] \<Rightarrow> (False, []) | c # f' \<Rightarrow> if c = m then (True, f') else (False, f))"

definition number_size :: "char \<Rightarrow> bool \<Rightarrow> nat" where
  "number_size m isDoubled =
     (if m = CHR ''@'' then 14 else if m = CHR ''!'' then 20
      else if m = CHR ''y'' \<and> isDoubled then 4 else if m = CHR ''o'' then 3 else 2)"

definition getNumber :: "string \<Rightarrow> char \<Rightarrow> bool \<Rightarrow> nat \<Rightarrow> (int \<times> nat) js" where
  "getNumber v m isDoubled iValue =
     (let size = number_size m isDoubled;
          minSize = (if m = CHR ''y'' then size else 1);
          num = take size (takeWhile is_digit (drop iValue v))
      in if length num < minSize
         then Inl (Throw (''Missing number at position '' @ show_int (int iValue)))
         else Inr (digits_val num, iValue + length num))"

definition names_by_length :: "string list \<Rightarrow> (nat \<times> string) list" where
  "names_by_length names = sort_key (\<lambda>(k, v). - int (length v)) (enumerate 0 names)"

definition name_matches :: "string \<Rightarrow> nat \<Rightarrow> string \<Rightarrow> bool" where
  "name_matches v iValue name \<longleftrightarrow>
     to_lower (take (length name) (drop iValue v)) = to_lower name"

definition getName :: "string \<Rightarrow> string list \<Rightarrow> nat \<Rightarrow> (int \<times> nat) js" where
  "getName v names iValue =
     (case find (\<lambda>(k, name). name_matches v iValue name) (names_by_length names) of
        Some (k, name) \<Rightarrow> Inr (int k + 1, iValue + length name)
      | None \<Rightarrow> Inl (Throw (''Unknown name at position '' @ show_int (int iValue))))"

definition checkLiteral :: "string \<Rightarrow> char \<Rightarrow> nat \<Rightarrow> nat js" where
  "checkLiteral v c iValue =
     (if iValue < length v \<and> v ! iValue = c then Inr (iValue + 1)
      else Inl (Throw (''Unexpected literal at position '' @ show_int (int iValue))))"

record pstate =
  p_iValue :: nat
  p_year :: "int option"
  p_month :: "int option"
  p_day :: "int option"
  p_doy :: int

definition ticksTo1970 :: int where
  "ticksTo1970 = ((1970 - 1) * 365 + 1970 div 4 - 1970 div 100 + 1970 div 400)
     * 24 * 60 * 60 * 10000000"

text \<open>The largest time value a date can hold; beyond it the date is invalid and its fields NaN.\<close>

definition max_time :: int where
  "max_time = 8640000000000000"

definition set_from_time :: "zone \<Rightarrow> int \<Rightarrow> pstate \<Rightarrow> pstate" where
  "set_from_time z t s =
     (if \<bar>t\<bar> \<le> max_time
      then s\<lparr>p_year := Some (get_full_year z t), p_month := Some (get_month z t + 1),
             p_day := Some (get_date z t)\<rparr>
      else s\<lparr>p_year := None, p_month := None, p_day := None\<rparr>)"

definition is_field :: "char \<Rightarrow> bool" where
  "is_field c \<longleftrightarrow> c \<in> {CHR ''d'', CHR ''D'', CHR ''o'', CHR ''m'', CHR ''M'', CHR ''y'',
     CHR ''@'', CHR ''!''}"

definition parse_number :: "string \<Rightarrow> char \<Rightarrow> bool \<Rightarrow> pstate \<Rightarrow> (int \<Rightarrow> pstate \<Rightarrow> pstate) \<Rightarrow> pstate js" where
  "parse_number v m dbl s upd =
     js_bind (getNumber v m dbl (p_iValue s)) (\<lambda>(n, i). Inr (upd n (s\<lparr>p_iValue := i\<rparr>)))"

definition parse_name :: "string \<Rightarrow> string list \<Rightarrow> pstate \<Rightarrow> (int \<Rightarrow> pstate \<Rightarrow> pstate) \<Rightarrow> pstate js" where
  "parse_name v names s upd =
     js_bind (getName v names (p_iValue s)) (\<lambda>(n, i). Inr (upd n (s\<lparr>p_iValue := i\<rparr>)))"

text \<open>One field of the format: the cases of the switch that read a number or a name.\<close>

definition parse_field :: "zone \<Rightarrow> format_names \<Rightarrow> string \<Rightarrow> char \<Rightarrow> bool \<Rightarrow> pstate \<Rightarrow> pstate js" where
  "parse_field z cfg v f dbl s =
     (if f = CHR ''d'' then parse_number v f dbl s (\<lambda>n s. s\<lparr>p_day := Some n\<rparr>)
      else if f = CHR ''D'' then
        parse_name v (if dbl then dayNames cfg else dayNamesShort cfg) s (\<lambda>n s. s)
      else if f = CHR ''o'' then parse_number v f dbl s (\<lambda>n s. s\<lparr>p_doy := n\<rparr>)
      else if f = CHR ''m'' then parse_number v f dbl s (\<lambda>n s. s\<lparr>p_month := Some n\<rparr>)
      else if f = CHR ''M'' then
        parse_name v (if dbl then monthNames cfg else monthNamesShort cfg) s
          (\<lambda>n s. s\<lparr>p_month := Some n\<rparr>)
      else if f = CHR ''y'' then parse_number v f dbl s (\<lambda>n s. s\<lparr>p_year := Some n\<rparr>)
      else if f = CHR ''@'' then parse_number v f dbl s (set_from_time z)
      else parse_number v f dbl s (\<lambda>n. set_from_time z (trunc_div (n - ticksTo1970) 10000)))"

lemma length_look_ahead: "length (snd (look_ahead m f)) \<le> length f"
  by (auto simp: look_ahead_def split: list.splits)

function parse_loop :: "zone \<Rightarrow> format_names \<Rightarrow> string \<Rightarrow> string \<Rightarrow> bool \<Rightarrow> pstate \<Rightarrow> pstate js" where
  "parse_loop z cfg v [] literal s = Inr s"
| "parse_loop z cfg v (f # fs) literal s =
     (if literal then
        if f = CHR 39 \<and> \<not> fst (look_ahead (CHR 39) fs) then parse_loop z cfg v fs False s
        else js_bind (checkLiteral v f (p_iValue s))
          (\<lambda>i. parse_loop z cfg v (if f = CHR 39 then snd (look_ahead (CHR 39) fs) else fs) True
                 (s\<lparr>p_iValue := i\<rparr>))
      else if is_field f then
        js_bind (parse_field z cfg v f (fst (look_ahead f fs)) s)
          (\<lambda>s'. parse_loop z cfg v (snd (look_ahead f fs)) False s')
      else if f = CHR 39 \<and> \<not> fst (look_ahead (CHR 39) fs) then parse_loop z cfg v fs True s
      else js_bind (checkLiteral v f (p_iValue s))
        (\<lambda>i. parse_loop z cfg v (if f = CHR 39 then snd (look_ahead (CHR 39) fs) else fs) False
               (s\<lparr>p_iValue := i\<rparr>)))"
  by pat_completeness auto
termination
  by (relation "measure (\<lambda>(z, cfg, v, f, literal, s). length f)")
    (auto simp: less_Suc_eq_le length_look_ahead)

declare parse_loop.simps(2) [simp del]

text \<open>The loop that turns a day of the year into a month and a day.\<close>

lemma get_date_le_31: "get_date z t \<le> 31"
  using get_date_range(2) [of z t] month_length_bounds [of "get_month z t" "get_full_year z t"]
  by simp

lemma getDaysInMonth_range: "1 \<le> getDaysInMonth z y m" "getDaysInMonth z y m \<le> 31"
  using get_date_le_31 get_date_range(1) by (simp_all add: getDaysInMonth_def)

function doy_loop :: "zone \<Rightarrow> int \<Rightarrow> int \<Rightarrow> int \<Rightarrow> int \<times> int" where
  "doy_loop z year month day =
     (let dim = getDaysInMonth z year (month - 1)
      in if day \<le> dim then (month, day) else doy_loop z year (month + 1) (day - dim))"
  by pat_completeness auto
termination
proof (relation "measure (\<lambda>(z, y, m, d). nat d)", simp)
  fix z year month day dim
  assume d: "dim = getDaysInMonth z year (month - 1)" "\<not> day \<le> dim"
  then show "((z, year, month + 1, day - dim), (z, year, month, day)) \<in> measure (\<lambda>(z, y, m, d). nat d)"
    using getDaysInMonth_range(1) [of z year "month - 1"] by simp
qed

declare doy_loop.simps [simp del]

definition parse_year :: "zone \<Rightarrow> int \<Rightarrow> int option \<Rightarrow> int \<Rightarrow> int" where
  "parse_year z now cutoff year =
     (let cur = get_full_year z now
      in if year = -1 then cur
         else if year < 100 then
           year + cur - js_mod cur 100 + (case cutoff of Some c \<Rightarrow> if year \<le> c then 0 else -100 | None \<Rightarrow> -100)
         else year)"

definition checked_date :: "zone \<Rightarrow> int option \<Rightarrow> int option \<Rightarrow> int option \<Rightarrow> int js" where
  "checked_date z year month day =
     (case (year, month, day) of
        (Some y, Some m, Some d) \<Rightarrow>
          (let date = daylightSavingAdjust z (new_date z y (m - 1) d)
           in if get_full_year z date \<noteq> y \<or> get_month z date + 1 \<noteq> m \<or> get_date z date \<noteq> d
              then Inl (Throw ''Invalid date'') else Inr date)
      | _ \<Rightarrow> Inl (Throw ''Invalid date''))"

definition finish_parse :: "zone \<Rightarrow> int \<Rightarrow> format_names \<Rightarrow> string \<Rightarrow> pstate \<Rightarrow> int js" where
  "finish_parse z now cfg v s =
     (let extra = drop (p_iValue s) v;
          year = map_option (parse_year z now (cutoff_year z now (shortYearCutoff cfg))) (p_year s)
      in if p_iValue s < length v \<and> \<not> is_space (hd extra)
         then Inl (Throw (''Extra/unparsed characters found in date: '' @ extra))
         else if p_doy s > -1 then
           (case year of None \<Rightarrow> Inl Diverge
            | Some y \<Rightarrow> (let (m, d) = doy_loop z y 1 (p_doy s) in checked_date z year (Some m) (Some d)))
         else checked_date z year (p_month s) (p_day s))"

definition parse_init :: pstate where
  "parse_init = \<lparr>p_iValue = 0, p_year = Some (-1), p_month = Some (-1), p_day = Some (-1), p_doy = -1\<rparr>"

definition parseDate :: "zone \<Rightarrow> int \<Rightarrow> format_names \<Rightarrow> string option \<Rightarrow> string option
    \<Rightarrow> format_settings option \<Rightarrow> int option js" where
  "parseDate z now defaults format value settings =
     (case (format, value) of
        (Some f, Some v) \<Rightarrow>
          if v = [] then Inr None
          else (let cfg = format_config settings defaults
                in js_bind (parse_loop z cfg v f False parse_init)
                     (\<lambda>s. js_bind (finish_parse z now cfg v s) (\<lambda>date. Inr (Some date))))
      | _ \<Rightarrow> Inl (Throw ''Invalid arguments''))"

section \<open>Formatting\<close>

definition formatNumber :: "bool \<Rightarrow> int \<Rightarrow> nat \<Rightarrow> string" where
  "formatNumber dbl value len =
     (let num = show_int value
      in if dbl then replicate (len - length num) (CHR ''0'') @ num else num)"

definition name_at :: "string list \<Rightarrow> int \<Rightarrow> string" where
  "name_at names i = (if 0 \<le> i \<and> nat i < length names then names ! nat i else ''undefined'')"

definition day_of_year :: "zone \<Rightarrow> int \<Rightarrow> int" where
  "day_of_year z date =
     round_div (new_date z (get_full_year z date) (get_month z date) (get_date z date)
       - new_date z (get_full_year z date) 0 0) 86400000"

definition format_field :: "zone \<Rightarrow> format_names \<Rightarrow> int \<Rightarrow> char \<Rightarrow> bool \<Rightarrow> string" where
  "format_field z cfg date f dbl =
     (if f = CHR ''d'' then formatNumber dbl (get_date z date) 2
      else if f = CHR ''D'' then
        name_at (if dbl then dayNames cfg else dayNamesShort cfg) (get_day z date)
      else if f = CHR ''o'' then formatNumber dbl (day_of_year z date) 3
      else if f = CHR ''m'' then formatNumber dbl (get_month z date + 1) 2
      else if f = CHR ''M'' then
        name_at (if dbl then monthNames cfg else monthNamesShort cfg) (get_month z date)
      else if f = CHR ''y'' then
        (if dbl then show_int (get_full_year z date)
         else (let yy = js_mod (get_full_year z date - 1900) 100
               in (if yy < 10 then ''0'' else '''') @ show_int yy))
      else if f = CHR ''@'' then show_int date
      else show_int (date * 10000 + ticksTo1970))"

text \<open>\<open>@\<close> and \<open>!\<close> are formatted without looking ahead for a doubled character.\<close>

definition doubles_in_format :: "char \<Rightarrow> bool" where
  "doubles_in_format f \<longleftrightarrow> is_field f \<and> f \<noteq> CHR ''@'' \<and> f \<noteq> CHR ''!''"

function format_loop :: "zone \<Rightarrow> format_names \<Rightarrow> int \<Rightarrow> string \<Rightarrow> bool \<Rightarrow> string" where
  "format_loop z cfg date [] literal = []"
| "format_loop z cfg date (f # fs) literal =
     (if literal then
        if f = CHR 39 \<and> \<not> fst (look_ahead (CHR 39) fs) then format_loop z cfg date fs False
        else f # format_loop z cfg date (if f = CHR 39 then snd (look_ahead (CHR 39) fs) else fs) True
      else if doubles_in_format f then
        format_field z cfg date f (fst (look_ahead f fs))
          @ format_loop z cfg date (snd (look_ahead f fs)) False
      else if is_field f then format_field z cfg date f False @ format_loop z cfg date fs False
      else if f = CHR 39 \<and> \<not> fst (look_ahead (CHR 39) fs) then format_loop z cfg date fs True
      else f # format_loop z cfg date (if f = CHR 39 then snd (look_ahead (CHR 39) fs) else fs) False)"
  by pat_completeness auto
termination
  by (relation "measure (\<lambda>(z, cfg, date, f, literal). length f)")
    (auto simp: less_Suc_eq_le length_look_ahead)

declare format_loop.simps(2) [simp del]

definition formatDate :: "zone \<Rightarrow> format_names \<Rightarrow> string \<Rightarrow> int option \<Rightarrow> format_settings option \<Rightarrow> string" where
  "formatDate z defaults format date settings =
     (case date of None \<Rightarrow> [] | Some t \<Rightarrow> format_loop z (format_config settings defaults) t format False)"

section \<open>The characters a format lets the user type\<close>

function possible_loop :: "string \<Rightarrow> bool \<Rightarrow> string \<Rightarrow> string option" where
  "possible_loop [] literal chars = Some chars"
| "possible_loop (f # fs) literal chars =
     (if literal then
        if f = CHR 39 \<and> \<not> fst (look_ahead (CHR 39) fs) then possible_loop fs False chars
        else possible_loop (if f = CHR 39 then snd (look_ahead (CHR 39) fs) else fs) True (chars @ [f])
      else if f \<in> {CHR ''d'', CHR ''m'', CHR ''y'', CHR ''@''}
        then possible_loop fs False (chars @ ''0123456789'')
      else if f = CHR ''D'' \<or> f = CHR ''M'' then None
      else if f = CHR 39 \<and> \<not> fst (look_ahead (CHR 39) fs) then possible_loop fs True chars
      else possible_loop (if f = CHR 39 then snd (look_ahead (CHR 39) fs) else fs) False (chars @ [f]))"
  by pat_completeness auto
termination
  by (relation "measure (\<lambda>(f, literal, chars). length f)")
    (auto simp: less_Suc_eq_le length_look_ahead)

declare possible_loop.simps(2) [simp del]

definition possibleChars :: "string \<Rightarrow> string option" where
  "possibleChars format = possible_loop format False []"

end
