(* ===== verification/DP_Calendar.thy ===== *)
theory DP_Calendar
  imports DP_Format
begin

text \<open>
  The calendar facts behind the date picker: the length of a month, the ISO 8601 week, the loop
  from a day of the year to a month and a day, and which fields \<open>parseDate\<close> accepts.
\<close>

section \<open>Months\<close>

lemma month_start_last: "month_start (leap y) 12 = year_length y"
  by (simp add: month_start_def year_length_def)

lemma make_day_next_month:
  assumes "0 \<le> m" "m \<le> 11"
  shows "make_day y m (month_length y m + k) = make_day y (m + 1) k"
proof (cases "m = 11")
  case True
  have "month_start (leap (y + 1)) 0 = 0" by (simp add: month_start_def)
  with True show ?thesis
    using month_start_last [of y]
    by (simp add: make_day_def month_length_def day_from_year_Suc)
next
  case False
  with assms have "(m + 1) div 12 = 0" "(m + 1) mod 12 = m + 1" "m div 12 = 0" "m mod 12 = m"
    by (simp_all add: div_pos_pos_trivial mod_pos_pos_trivial)
  then show ?thesis by (simp add: make_day_def month_length_def Let_def)
qed

lemma date_of_make_day_32:
  "date_from_day (make_day y m 32) = 32 - month_length (y + m div 12) (m mod 12)"
proof -
  define Y M where YM: "Y = y + m div 12" "M = m mod 12"
  have M: "0 \<le> M" "M \<le> 11" using pos_mod_bound [of 12 m] by (simp_all add: YM)
  have len: "28 \<le> month_length Y M" "month_length Y M \<le> 31"
    using month_length_bounds [OF M] by auto
  have "make_day y m 32 = make_day Y M 32" unfolding YM by (rule make_day_normal)
  also have "\<dots> = make_day Y (M + 1) (32 - month_length Y M)"
    using make_day_next_month [OF M, of Y "32 - month_length Y M"] by simp
  finally have eq: "make_day y m 32 = make_day Y (M + 1) (32 - month_length Y M)" .
  show ?thesis
  proof (cases "M = 11")
    case True
    then have "make_day y m 32 = make_day (Y + 1) 0 (32 - month_length Y M)"
      using eq make_day_month_shift [of Y 0 1 "32 - month_length Y M"] by simp
    then show ?thesis
      using civil_of_make_day(3) [of 0 "32 - month_length Y M" "Y + 1"] len
        month_length_bounds [of 0 "Y + 1"] by (simp add: YM [symmetric])
  next
    case False
    then show ?thesis
      using eq civil_of_make_day(3) [of "M + 1" "32 - month_length Y M" Y] len M
        month_length_bounds [of "M + 1" Y] by (simp add: YM [symmetric])
  qed
qed

section \<open>Weeks\<close>

text \<open>The Thursday of the week (Monday to Sunday) of a day, and the ISO week of that day: the
  number of the week of its Thursday among the Thursdays of the year. Day 0 is a Thursday.\<close>

definition iso_thursday :: "int \<Rightarrow> int" where
  "iso_thursday d = d - (d + 3) mod 7 + 3"

definition iso_week :: "int \<Rightarrow> int" where
  "iso_week d = year_day (iso_thursday d) div 7 + 1"

lemma iso_week_range: "1 \<le> iso_week d" "iso_week d \<le> 53"
proof -
  have "year_day (iso_thursday d) \<le> 365"
    using year_day_bounds(2) [of "iso_thursday d"] by (simp add: year_length_def split: if_splits)
  then have "year_day (iso_thursday d) div 7 \<le> 365 div 7" by (rule zdiv_mono1) simp
  then show "1 \<le> iso_week d" "iso_week d \<le> 53"
    using year_day_bounds(1) [of "iso_thursday d"]
    by (simp_all add: iso_week_def pos_imp_zdiv_nonneg_iff)
qed

lemma thursday_of_weekday:
  "(let wd = (d + 4) mod 7 in d + 4 - (if wd = 0 then 7 else wd)) = iso_thursday d"
proof -
  define q r where qr: "q = (d + 3) div 7" "r = (d + 3) mod 7"
  have d: "d + 4 = 7 * q + (r + 1)" and r: "0 \<le> r" "r < 7"
    by (simp_all add: qr)
  show ?thesis
  proof (cases "r = 6")
    case True
    with d have "d + 4 = 7 * (q + 1)" by simp
    then have "(d + 4) mod 7 = 0" by (simp only: mod_mult_self1_is_0)
    with True show ?thesis by (simp add: iso_thursday_def qr [symmetric])
  next
    case False
    with d r have "(d + 4) mod 7 = r + 1" by (intro int_mod_pos_eq [of _ _ q]) simp_all
    with r show ?thesis by (simp add: iso_thursday_def qr [symmetric])
  qed
qed

context zone_laws
begin

lemma dsa_midnight [simp]: "daylightSavingAdjust z (midnight_of z d) = midnight_of z d"
  by (simp add: daylightSavingAdjust_def)

lemma days_in_month: "getDaysInMonth z y m = month_length (full_year y + m div 12) (m mod 12)"
  by (simp add: getDaysInMonth_def new_date_midnight date_of_make_day_32)

lemma iso8601Week_midnight: "iso8601Week z (midnight_of z d) = iso_week d"
proof -
  define th where "th = iso_thursday d"
  define wd where "wd = (d + 4) mod 7"
  have "make_day (year_from_day d) (month_from_day d)
      (date_from_day d + (4 - (if wd = 0 then 7 else wd))) = d + (4 - (if wd = 0 then 7 else wd))"
    by (simp only: make_day_shift make_day_from_day)
  also have "\<dots> = th"
    using thursday_of_weekday [of d] by (simp only: th_def wd_def Let_def add_diff_eq)
  finally have th: "set_date z (midnight_of z d)
      (date_from_day d + 4 - (if wd = 0 then 7 else wd)) = midnight_of z th"
    by (simp add: set_date_midnight algebra_simps)
  have jan: "date_from_day th \<le> month_length (year_from_day th) 0"
    using get_date_le_31 [of z "midnight_of z th"] by (simp add: month_length_def month_start_def)
  have "year_from_day (make_day (year_from_day th) 0 (date_from_day th)) = year_from_day th"
    "month_from_day (make_day (year_from_day th) 0 (date_from_day th)) = 0"
    using civil_of_make_day [of 0 "date_from_day th" "year_from_day th"] jan date_from_day_range(1)
    by auto
  then have first: "set_date z (set_month z (midnight_of z th) 0) 1
      = midnight_of z (day_from_year (year_from_day th))"
    by (simp add: set_month_midnight set_date_midnight make_day_def month_start_def)
  have "round_div (midnight_of z th - midnight_of z (day_from_year (year_from_day th))) 86400000
      = year_day th"
    using round_midnights [of th "day_from_year (year_from_day th)"]
    by (simp add: ms_day_def year_day_def)
  then show ?thesis
    using th first by (simp add: iso8601Week_def iso_week_def Let_def wd_def [symmetric] th_def)
qed

lemma day_of_year_midnight: "0 \<le> d \<or> 100 \<le> year_from_day d \<Longrightarrow>
  day_of_year z (midnight_of z d) = year_day d + 1"
proof -
  assume d: "0 \<le> d \<or> 100 \<le> year_from_day d"
  have "100 \<le> year_from_day d"
  proof (cases "0 \<le> d")
    case True
    have "day_from_year 101 \<le> d" using True by (simp add: day_from_year_def)
    then show ?thesis
      using year_from_day_bounds(2) [of d] day_from_year_mono [of "year_from_day d + 1" 101]
      by (cases "100 \<le> year_from_day d") auto
  qed (use d in simp)
  then have fy: "full_year (year_from_day d) = year_from_day d" by (simp add: full_year_def)
  have "make_day (year_from_day d) 0 0 = day_from_year (year_from_day d) - 1"
    by (simp add: make_day_def month_start_def)
  then show ?thesis
    using round_midnights [of d "day_from_year (year_from_day d) - 1"]
    by (simp add: day_of_year_def new_date_midnight fy make_day_from_day ms_day_def year_day_def)
qed

end

section \<open>Which fields are a date\<close>

definition civil :: "int \<Rightarrow> int \<Rightarrow> int \<Rightarrow> bool" where
  "civil y m d \<longleftrightarrow> 1 \<le> m \<and> m \<le> 12 \<and> 1 \<le> d \<and> d \<le> month_length y (m - 1)"

lemma civil_fields:
  assumes "civil y m d"
  shows "year_from_day (make_day y (m - 1) d) = y" "month_from_day (make_day y (m - 1) d) = m - 1"
    "date_from_day (make_day y (m - 1) d) = d"
  using assms civil_of_make_day [of "m - 1" d y] by (simp_all add: civil_def)

lemma civil_from_day: "civil (year_from_day d) (month_from_day d + 1) (date_from_day d)"
  using date_from_day_range month_from_day_range(2) [of d] by (simp add: civil_def)

lemma year_from_day_ge: "day_from_year y \<le> d \<Longrightarrow> y \<le> year_from_day d"
  using year_from_day_bounds(2) [of d] day_from_year_mono [of "year_from_day d + 1" y]
  by (cases "y \<le> year_from_day d") auto

context zone_laws
begin

lemma checked_date_Inr:
  "checked_date z (Some y) (Some m) (Some d) = Inr t \<longleftrightarrow>
     civil y m d \<and> (y < 0 \<or> 99 < y) \<and> t = midnight_of z (make_day y (m - 1) d)"
proof -
  define n where "n = make_day (full_year y) (m - 1) d"
  have "checked_date z (Some y) (Some m) (Some d) = Inr t \<longleftrightarrow>
      year_from_day n = y \<and> month_from_day n + 1 = m \<and> date_from_day n = d \<and> t = midnight_of z n"
    by (auto simp: checked_date_def new_date_midnight n_def [symmetric] Let_def)
  also have "\<dots> \<longleftrightarrow> civil y m d \<and> (y < 0 \<or> 99 < y) \<and> t = midnight_of z n"
  proof (cases "y < 0 \<or> 99 < y")
    case True
    then have "full_year y = y" by (auto simp: full_year_def)
    then show ?thesis
      using True civil_from_day [of n] civil_fields [of y m d] by (auto simp: n_def)
  next
    case False
    have "year_from_day n \<noteq> y" if "month_from_day n + 1 = m" "date_from_day n = d"
    proof -
      have "0 \<le> m - 1" "m - 1 \<le> 11" "1 \<le> d"
        using that month_from_day_range [of n] date_from_day_range(1) [of n] by auto
      then have "day_from_year (1900 + y) \<le> n"
        using False month_start_mono [of "m - 1" "leap (1900 + y)"]
        by (simp add: n_def full_year_def make_day_def div_pos_pos_trivial mod_pos_pos_trivial Let_def)
      then have "1900 + y \<le> year_from_day n" by (rule year_from_day_ge)
      then show ?thesis by simp
    qed
    with False show ?thesis by blast
  qed
  finally show ?thesis by (auto simp: n_def full_year_def)
qed

text \<open>The loop over the months of \<open>parseDate\<close> ends in the civil date of a day of the year, and in
  fields that are no date when the day is not in the year.\<close>

lemma month_length_in_year:
  "0 \<le> m \<Longrightarrow> m \<le> 11 \<Longrightarrow> full_year y = y \<Longrightarrow> getDaysInMonth z y m = month_length y m"
  by (simp add: days_in_month div_pos_pos_trivial mod_pos_pos_trivial)

lemma doy_loop_in_year:
  assumes "full_year y = y" "1 \<le> k" "k \<le> 12" "1 \<le> d"
    "month_start (leap y) (k - 1) + d \<le> year_length y" "doy_loop z y k d = (m', d')"
  shows "civil y m' d' \<and> make_day y (m' - 1) d' = make_day y (k - 1) d"
  using assms(2-)
proof (induction "nat d" arbitrary: k d rule: less_induct)
  case less
  have dim: "getDaysInMonth z y (k - 1) = month_length y (k - 1)"
    using less.prems assms(1) by (simp add: month_length_in_year)
  show ?case
  proof (cases "d \<le> month_length y (k - 1)")
    case True
    with less.prems dim show ?thesis by (auto simp: doy_loop.simps [of z y k d] civil_def)
  next
    case False
    have "k \<noteq> 12"
      using False less.prems(4) month_start_last [of y] by (auto simp: month_length_def)
    have len: "28 \<le> month_length y (k - 1)"
      using month_length_bounds [of "k - 1" y] less.prems by simp
    have "make_day y (k - 1) d = make_day y k (d - month_length y (k - 1))"
      using make_day_next_month [of "k - 1" y "d - month_length y (k - 1)"] less.prems by simp
    moreover have "doy_loop z y (k + 1) (d - month_length y (k - 1)) = (m', d')"
      using less.prems(5) False dim by (simp add: doy_loop.simps [of z y k d] Let_def)
    ultimately show ?thesis
      using less.hyps [of "d - month_length y (k - 1)" "k + 1"] False len \<open>k \<noteq> 12\<close> less.prems
      by (simp add: month_length_def)
  qed
qed

lemma doy_loop_ge: "doy_loop z y k d = (m', d') \<Longrightarrow> k \<le> m'"
proof (induction "nat d" arbitrary: k d rule: less_induct)
  case less
  then show ?case
    using getDaysInMonth_range(1) [of z y "k - 1"] less.hyps [of "d - getDaysInMonth z y (k - 1)" "k + 1"]
    by (auto simp: doy_loop.simps [of z y k d] Let_def split: if_splits)
qed

lemma doy_loop_past_year:
  assumes "full_year y = y" "1 \<le> k" "k \<le> 13"
    "year_length y < month_start (leap y) (k - 1) + d" "doy_loop z y k d = (m', d')"
  shows "12 < m'"
  using assms(2-)
proof (induction "nat d" arbitrary: k d rule: less_induct)
  case less
  show ?case
  proof (cases "k = 13")
    case True
    then show ?thesis using doy_loop_ge [OF less.prems(4)] by simp
  next
    case False
    then have dim: "getDaysInMonth z y (k - 1) = month_length y (k - 1)"
      using less.prems assms(1) by (simp add: month_length_in_year)
    have len: "28 \<le> month_length y (k - 1)"
      using month_length_bounds [of "k - 1" y] less.prems False by simp
    have "month_start (leap y) (k - 1 + 1) \<le> year_length y"
      using month_start_mono [of "k - 1" "leap y"] less.prems False by (simp add: year_length_def)
    then have gt: "\<not> d \<le> month_length y (k - 1)"
      using less.prems(3) by (simp add: month_length_def)
    then have "doy_loop z y (k + 1) (d - month_length y (k - 1)) = (m', d')"
      using less.prems(4) dim by (simp add: doy_loop.simps [of z y k d] Let_def)
    then show ?thesis
      using less.hyps [of "d - month_length y (k - 1)" "k + 1"] gt len False less.prems
      by (simp add: month_length_def)
  qed
qed

lemma doy_date:
  assumes "full_year y = y" "doy_loop z y 1 d = (m', d')"
  shows "checked_date z (Some y) (Some m') (Some d') =
    (if 1 \<le> d \<and> d \<le> year_length y then Inr (midnight_of z (day_from_year y + d - 1))
     else Inl (Throw ''Invalid date''))"
proof -
  have y: "y < 0 \<or> 99 < y" using assms(1) by (auto simp: full_year_def split: if_splits)
  have start: "make_day y 0 d = day_from_year y + d - 1"
    by (simp add: make_day_def month_start_def)
  have no: "checked_date z (Some y) (Some m') (Some d') = Inl (Throw ''Invalid date'')"
    if "\<not> civil y m' d'"
  proof (cases "checked_date z (Some y) (Some m') (Some d')")
    case (Inl e)
    then show ?thesis by (auto simp: checked_date_def Let_def split: if_splits)
  next
    case (Inr t)
    then show ?thesis using that checked_date_Inr [of y m' d' t] by blast
  qed
  consider "d < 1" | "1 \<le> d" "d \<le> year_length y" | "year_length y < d" by linarith
  then show ?thesis
  proof cases
    case 1
    then have "d' = d" "m' = 1"
      using assms(2) getDaysInMonth_range(1) [of z y 0] by (simp_all add: doy_loop.simps [of z y 1 d])
    with 1 have "\<not> civil y m' d'" by (simp add: civil_def)
    with 1 show ?thesis using no by simp
  next
    case 2
    have "civil y m' d' \<and> make_day y (m' - 1) d' = make_day y 0 d"
      using doy_loop_in_year [OF assms(1) _ _ 2(1) _ assms(2)] 2 by (simp add: month_start_def)
    with 2 y start show ?thesis using checked_date_Inr [of y m' d'] by auto
  next
    case 3
    then have "12 < m'"
      using doy_loop_past_year [OF assms(1) _ _ _ assms(2)] by (simp add: month_start_def)
    then have "\<not> civil y m' d'" by (simp add: civil_def)
    with 3 show ?thesis using no by simp
  qed
qed

end

end
