(* ===== verification/DP_Roundtrip.thy ===== *)
theory DP_Roundtrip
  imports DP_Calendar
begin

text \<open>
  Parsing what was formatted gives the date back. A format is described by its tokens: a field
  letter, single or doubled, a literal character, a quoted text, an escaped quote. \<open>toks_ok\<close>
  says where the text is unambiguous (a number of variable width is not followed by a digit, a
  single field letter is not followed by itself), \<open>complete\<close> that the fields determine a date.
\<close>

datatype tok = Field char bool | Lit char | Quote string | Apos

fun fmt_tok :: "tok \<Rightarrow> string" where
  "fmt_tok (Field c b) = (if b then [c, c] else [c])"
| "fmt_tok (Lit c) = [c]"
| "fmt_tok (Quote s) = CHR 39 # s @ [CHR 39]"
| "fmt_tok Apos = [CHR 39, CHR 39]"

definition fmt_of :: "tok list \<Rightarrow> string" where
  "fmt_of toks = concat (map fmt_tok toks)"

fun out_tok :: "zone \<Rightarrow> format_names \<Rightarrow> int \<Rightarrow> tok \<Rightarrow> string" where
  "out_tok z cfg t (Field c b) = format_field z cfg t c b"
| "out_tok z cfg t (Lit c) = [c]"
| "out_tok z cfg t (Quote s) = s"
| "out_tok z cfg t Apos = [CHR 39]"

definition out_of :: "zone \<Rightarrow> format_names \<Rightarrow> int \<Rightarrow> tok list \<Rightarrow> string" where
  "out_of z cfg t toks = concat (map (out_tok z cfg t) toks)"

definition is_name :: "char \<Rightarrow> bool" where
  "is_name c \<longleftrightarrow> c = CHR ''D'' \<or> c = CHR ''M''"

definition fixed_width :: "char \<Rightarrow> bool \<Rightarrow> bool" where
  "fixed_width c b \<longleftrightarrow> c = CHR ''y'' \<or> b"

definition no_digit_start :: "tok list \<Rightarrow> bool" where
  "no_digit_start toks \<longleftrightarrow>
     (case toks of [] \<Rightarrow> True
      | Field c b # _ \<Rightarrow> is_name c
      | Lit c # _ \<Rightarrow> \<not> is_digit c
      | Quote s # _ \<Rightarrow> s \<noteq> [] \<and> \<not> is_digit (hd s)
      | Apos # _ \<Rightarrow> True)"

definition starts_with :: "char \<Rightarrow> string \<Rightarrow> bool" where
  "starts_with c s \<longleftrightarrow> s \<noteq> [] \<and> hd s = c"

fun toks_ok :: "tok list \<Rightarrow> bool" where
  "toks_ok [] = True"
| "toks_ok (Field c b # toks) =
     (is_field c \<and> (b \<longrightarrow> doubles_in_format c) \<and>
      (\<not> b \<longrightarrow> \<not> starts_with c (fmt_of toks)) \<and>
      (\<not> is_name c \<longrightarrow> fixed_width c b \<or> no_digit_start toks) \<and> toks_ok toks)"
| "toks_ok (Lit c # toks) = (\<not> is_field c \<and> c \<noteq> CHR 39 \<and> toks_ok toks)"
| "toks_ok (Quote s # toks) =
     (s \<noteq> [] \<and> CHR 39 \<notin> set s \<and> \<not> starts_with (CHR 39) (fmt_of toks) \<and> toks_ok toks)"
| "toks_ok (Apos # toks) = toks_ok toks"

text \<open>No name of the list is a prefix of another, in lower case; none is empty or starts with a digit.\<close>

fun starts :: "string \<Rightarrow> string \<Rightarrow> bool" where
  "starts [] t = True"
| "starts (a # s) [] = False"
| "starts (a # s) (b # t) = (a = b \<and> starts s t)"

fun prefix_free :: "string list \<Rightarrow> bool" where
  "prefix_free [] = True"
| "prefix_free (s # ss) = (list_all (\<lambda>t. \<not> starts s t \<and> \<not> starts t s) ss \<and> prefix_free ss)"

definition names_ok :: "nat \<Rightarrow> string list \<Rightarrow> bool" where
  "names_ok n names \<longleftrightarrow> length names = n \<and>
     list_all (\<lambda>s. s \<noteq> [] \<and> \<not> is_digit (hd s)) names \<and> prefix_free (map to_lower names)"

lemma starts_take: "starts s t \<longleftrightarrow> take (length s) t = s"
  by (induction s t rule: starts.induct) auto

lemma prefix_free_nth:
  "prefix_free ss \<Longrightarrow> i < length ss \<Longrightarrow> j < length ss \<Longrightarrow> starts (ss ! i) (ss ! j) \<Longrightarrow> i = j"
proof (induction ss arbitrary: i j)
  case Nil
  then show ?case by simp
next
  case (Cons s ss)
  then show ?case by (cases i; cases j) (auto simp: list_all_iff)
qed

definition config_ok :: "format_names \<Rightarrow> bool" where
  "config_ok cfg \<longleftrightarrow> names_ok 7 (dayNames cfg) \<and> names_ok 7 (dayNamesShort cfg) \<and>
     names_ok 12 (monthNames cfg) \<and> names_ok 12 (monthNamesShort cfg)"

lemma regional_names_ok: "config_ok regional_names"
  by code_simp

definition has :: "char \<Rightarrow> tok list \<Rightarrow> bool" where
  "has c toks \<longleftrightarrow> Field c True \<in> set toks \<or> Field c False \<in> set toks"

definition complete :: "tok list \<Rightarrow> bool" where
  "complete toks \<longleftrightarrow> has (CHR ''@'') toks \<or> has (CHR ''!'') toks \<or>
     has (CHR ''y'') toks \<and>
       (has (CHR ''o'') toks \<or> has (CHR ''d'') toks \<and> (has (CHR ''m'') toks \<or> has (CHR ''M'') toks))"

text \<open>The date is in the range a field can carry: four digits for \<open>yy\<close>, the hundred years that the
  cutoff selects for \<open>y\<close>, a time value of the digits that are read back for \<open>@\<close> and \<open>!\<close>.\<close>

definition field_fits :: "zone \<Rightarrow> int \<Rightarrow> int option \<Rightarrow> int \<Rightarrow> char \<Rightarrow> bool \<Rightarrow> bool" where
  "field_fits z now co t c b \<longleftrightarrow>
     (let y = get_full_year z t
      in (c = CHR ''y'' \<longrightarrow> (if b then 1000 \<le> y \<and> y \<le> 9999
            else 1900 \<le> y \<and> parse_year z now co (y mod 100) = y)) \<and>
         (c = CHR ''@'' \<longrightarrow> 0 \<le> t \<and> t < 10 ^ 14) \<and>
         (c = CHR ''!'' \<longrightarrow> 0 \<le> t * 10000 + ticksTo1970 \<and> t * 10000 + ticksTo1970 < 10 ^ 20 \<and>
            \<bar>t\<bar> \<le> max_time))"

definition tok_fits :: "zone \<Rightarrow> int \<Rightarrow> int option \<Rightarrow> int \<Rightarrow> tok \<Rightarrow> bool" where
  "tok_fits z now co t tk = (case tk of Field c b \<Rightarrow> field_fits z now co t c b | _ \<Rightarrow> True)"

section \<open>Formatting, token by token\<close>

lemma fmt_of_Nil [simp]: "fmt_of [] = []"
  by (simp add: fmt_of_def)

lemma fmt_of_Cons [simp]: "fmt_of (t # ts) = fmt_tok t @ fmt_of ts"
  by (simp add: fmt_of_def)

lemma out_of_Nil [simp]: "out_of z cfg t [] = []"
  by (simp add: out_of_def)

lemma out_of_Cons [simp]: "out_of z cfg t (k # ks) = out_tok z cfg t k @ out_of z cfg t ks"
  by (simp add: out_of_def)

lemma look_ahead_same [simp]: "look_ahead c (c # f) = (True, f)"
  by (simp add: look_ahead_def)

lemma look_ahead_other [simp]: "\<not> starts_with c f \<Longrightarrow> look_ahead c f = (False, f)"
  by (cases f) (simp_all add: look_ahead_def starts_with_def)

lemma is_field_quote [simp]: "\<not> is_field (CHR 39)"
  by (simp add: is_field_def)

lemma doubles_is_field: "doubles_in_format c \<Longrightarrow> is_field c"
  by (simp add: doubles_in_format_def)

lemma format_quoted:
  assumes "CHR 39 \<notin> set s" "\<not> starts_with (CHR 39) f"
  shows "format_loop z cfg t (s @ CHR 39 # f) True = s @ format_loop z cfg t f False"
  using assms by (induction s) (auto simp: format_loop.simps(2))

lemma format_tokens: "toks_ok toks \<Longrightarrow> format_loop z cfg t (fmt_of toks) False = out_of z cfg t toks"
proof (induction toks rule: toks_ok.induct)
  case 1
  then show ?case by simp
next
  case (2 c b toks)
  then show ?case
    by (auto simp: format_loop.simps(2) doubles_is_field)
next
  case (3 c toks)
  then show ?case by (simp add: format_loop.simps(2) doubles_in_format_def)
next
  case (4 s toks)
  then have "\<not> starts_with (CHR 39) (s @ CHR 39 # fmt_of toks)"
    by (cases s) (auto simp: starts_with_def)
  with 4 show ?case
    by (simp add: format_loop.simps(2) doubles_in_format_def format_quoted)
next
  case (5 toks)
  then show ?case by (simp add: format_loop.simps(2) doubles_in_format_def)
qed

section \<open>Reading a field back\<close>

lemma getNumber_ok:
  assumes "drop iv v = ds @ rest" "list_all is_digit ds" "length ds \<le> number_size c b"
    "(if c = CHR ''y'' then number_size c b else 1) \<le> length ds"
    "length ds = number_size c b \<or> rest = [] \<or> \<not> is_digit (hd rest)"
  shows "getNumber v c b iv = Inr (digits_val ds, iv + length ds)"
proof -
  have "takeWhile is_digit (ds @ rest) = ds @ takeWhile is_digit rest"
    using assms(2) by (simp add: takeWhile_append2 list_all_iff)
  moreover have "length ds = number_size c b \<or> takeWhile is_digit rest = []"
    using assms(5) by (cases rest) auto
  ultimately have "take (number_size c b) (takeWhile is_digit (drop iv v)) = ds"
    using assms(1,3) by auto
  with assms(4) show ?thesis by (simp add: getNumber_def Let_def del: length_take)
qed

lemma checkLiteral_ok:
  assumes "drop iv v = c # rest"
  shows "checkLiteral v c iv = Inr (iv + 1)"
proof -
  have "iv < length v" using assms by (metis drop_eq_Nil leI list.discI)
  moreover have "v ! iv = c" using assms calculation by (metis hd_drop_conv_nth list.sel(1))
  ultimately show ?thesis by (simp add: checkLiteral_def)
qed

lemma find_unique:
  assumes "x \<in> set xs" "P x" "\<And>y. y \<in> set xs \<Longrightarrow> P y \<Longrightarrow> y = x"
  shows "find P xs = Some x"
proof (cases "find P xs")
  case None
  then have "\<not> P x" using assms(1) unfolding find_None_iff by blast
  then show ?thesis using assms(2) by contradiction
next
  case (Some y)
  then have "P y" "y \<in> set xs" unfolding find_Some_iff by auto
  with assms(3) Some show ?thesis by blast
qed

lemma set_names_by_length: "set (names_by_length names) = {(k, s). k < length names \<and> s = names ! k}"
  by (auto simp: names_by_length_def set_eq_iff in_set_enumerate_eq)

lemma take_to_lower: "take n (to_lower s) = to_lower (take n s)"
  by (simp add: to_lower_def take_map)

lemma getName_ok:
  assumes names: "names_ok n names" and i: "i < n" and v: "drop iv v = names ! i @ rest"
  shows "getName v names iv = Inr (int i + 1, iv + length (names ! i))"
proof -
  have len: "length names = n" using names by (simp add: names_ok_def)
  have "find (\<lambda>(k, name). name_matches v iv name) (names_by_length names) = Some (i, names ! i)"
  proof (rule find_unique)
    show "(i, names ! i) \<in> set (names_by_length names)"
      using i len by (simp add: set_names_by_length)
    show "case (i, names ! i) of (k, name) \<Rightarrow> name_matches v iv name"
      using v by (simp add: name_matches_def)
  next
    fix y assume y: "y \<in> set (names_by_length names)" "case y of (k, name) \<Rightarrow> name_matches v iv name"
    obtain j where j: "y = (j, names ! j)" "j < n"
      using y(1) len by (auto simp: set_names_by_length)
    have m: "to_lower (take (length (names ! j)) (names ! i @ rest)) = to_lower (names ! j)"
      using y(2) j v by (simp add: name_matches_def)
    have pre: "k = l" if "k < n" "l < n" "take (length (names ! k)) (to_lower (names ! l)) = to_lower (names ! k)" for k l
      using prefix_free_nth [of "map to_lower names" k l] names that len
      by (simp add: names_ok_def starts_take)
    have "j = i"
    proof (cases "length (names ! j) \<le> length (names ! i)")
      case True
      with m have "take (length (names ! j)) (to_lower (names ! i)) = to_lower (names ! j)"
        by (simp add: take_to_lower)
      with pre j(2) i show ?thesis by blast
    next
      case False
      then have "take (length (names ! i)) (to_lower (take (length (names ! j)) (names ! i @ rest)))
          = to_lower (names ! i)"
        by (simp add: take_to_lower)
      with m have "take (length (names ! i)) (to_lower (names ! j)) = to_lower (names ! i)" by simp
      with pre j(2) i show ?thesis by blast
    qed
    with j show "y = (i, names ! i)" by simp
  qed
  then show ?thesis by (simp add: getName_def)
qed

lemma formatNumber_digits:
  assumes "0 \<le> n" "n < 10 ^ k" "0 < k"
  shows "list_all is_digit (formatNumber b n k)" "digits_val (formatNumber b n k) = n"
    "length (formatNumber b n k) \<le> k" "0 < length (formatNumber b n k)"
    "b \<Longrightarrow> length (formatNumber b n k) = k"
proof -
  have l: "length (show_nat n) \<le> k" by (rule length_show_nat_le [OF assms(3,2)])
  have z: "is_digit (CHR ''0'')" by (simp add: is_digit_def)
  show "list_all is_digit (formatNumber b n k)"
    using assms(1) z show_nat_digits [OF assms(1)]
    by (auto simp: formatNumber_def show_int_def list_all_iff Let_def)
  show "digits_val (formatNumber b n k) = n" "length (formatNumber b n k) \<le> k"
    "0 < length (formatNumber b n k)" "b \<Longrightarrow> length (formatNumber b n k) = k"
    using assms(1) l
    by (simp_all add: formatNumber_def show_int_def digits_val_replicate_zero digits_val_show_nat Let_def)
qed

section \<open>The text of a field is read back as the value it was made from\<close>

definition field_effect :: "zone \<Rightarrow> int \<Rightarrow> char \<Rightarrow> bool \<Rightarrow> pstate \<Rightarrow> pstate" where
  "field_effect z d c b s =
     (if c = CHR ''d'' then s\<lparr>p_day := Some (date_from_day d)\<rparr>
      else if c = CHR ''D'' then s
      else if c = CHR ''o'' then s\<lparr>p_doy := year_day d + 1\<rparr>
      else if c = CHR ''m'' \<or> c = CHR ''M'' then s\<lparr>p_month := Some (month_from_day d + 1)\<rparr>
      else if c = CHR ''y'' then
        s\<lparr>p_year := Some (if b then year_from_day d else year_from_day d mod 100)\<rparr>
      else s\<lparr>p_year := Some (year_from_day d), p_month := Some (month_from_day d + 1),
             p_day := Some (date_from_day d)\<rparr>)"

fun tok_effect :: "zone \<Rightarrow> int \<Rightarrow> pstate \<Rightarrow> tok \<Rightarrow> pstate" where
  "tok_effect z d s (Field c b) = field_effect z d c b s"
| "tok_effect z d s (Lit c) = s"
| "tok_effect z d s (Quote q) = s"
| "tok_effect z d s Apos = s"

text \<open>The digits a numeric field prints, and the bounds on their number.\<close>

definition digits_of :: "char \<Rightarrow> bool \<Rightarrow> int \<Rightarrow> string \<Rightarrow> bool" where
  "digits_of c b n ds \<longleftrightarrow> list_all is_digit ds \<and> digits_val ds = n \<and>
     length ds \<le> number_size c b \<and> 0 < length ds \<and>
     (fixed_width c b \<longrightarrow> length ds = number_size c b)"

lemma digits_of_format:
  assumes "0 \<le> n" "n < 10 ^ number_size c b" "c \<noteq> CHR ''y''"
  shows "digits_of c b n (formatNumber b n (number_size c b))"
  using formatNumber_digits [OF assms(1,2), of b] assms(3)
  by (auto simp: digits_of_def fixed_width_def number_size_def)

lemma digits_of_show:
  assumes "0 \<le> n" "n < 10 ^ number_size c b" "fixed_width c b \<Longrightarrow> 10 ^ (number_size c b - 1) \<le> n"
  shows "digits_of c b n (show_int n)"
proof -
  have "0 < number_size c b" by (simp add: number_size_def)
  then have "length (show_nat n) \<le> number_size c b" by (rule length_show_nat_le [OF _ assms(2)])
  moreover have "fixed_width c b \<Longrightarrow> number_size c b - 1 < length (show_nat n)"
    by (rule length_show_nat_ge [OF assms(3)])
  ultimately show ?thesis
    using assms(1) show_nat_digits [OF assms(1)] digits_val_show_nat [OF assms(1)]
    by (auto simp: digits_of_def show_int_def)
qed

lemma two_digits:
  assumes "0 \<le> yy" "yy < 100"
  shows "(if yy < 10 then ''0'' else '''') @ show_int yy = formatNumber True yy 2"
proof (cases "yy < 10")
  case True
  then show ?thesis
    using assms by (simp add: formatNumber_def show_int_def Let_def show_nat.simps [of yy] numeral_2_eq_2)
next
  case False
  then have "length (show_nat yy) = 2"
    using length_show_nat_ge [of 1 yy] length_show_nat_le [of 2 yy] assms by simp
  with False assms show ?thesis by (simp add: formatNumber_def show_int_def Let_def)
qed

definition field_value :: "zone \<Rightarrow> int \<Rightarrow> char \<Rightarrow> bool \<Rightarrow> int" where
  "field_value z d c b =
     (if c = CHR ''d'' then date_from_day d else if c = CHR ''o'' then year_day d + 1
      else if c = CHR ''m'' then month_from_day d + 1
      else if c = CHR ''y'' then (if b then year_from_day d else year_from_day d mod 100)
      else if c = CHR ''@'' then midnight_of z d
      else midnight_of z d * 10000 + ticksTo1970)"

lemma field_effect_iValue:
  "field_effect z d c b (s\<lparr>p_iValue := k\<rparr>) = (field_effect z d c b s)\<lparr>p_iValue := k\<rparr>"
  by (simp add: field_effect_def)

lemma effect_iValue:
  "foldl (tok_effect z d) (s\<lparr>p_iValue := k\<rparr>) toks = (foldl (tok_effect z d) s toks)\<lparr>p_iValue := k\<rparr>"
proof (induction toks arbitrary: s)
  case Nil
  then show ?case by simp
next
  case (Cons t toks)
  then show ?case by (cases t) (simp_all add: field_effect_iValue)
qed

context zone_laws
begin

lemma year_range_of_day: "100 \<le> year_from_day d \<Longrightarrow> day_of_year z (midnight_of z d) = year_day d + 1"
  by (rule day_of_year_midnight) simp

lemma date_le_31: "date_from_day d \<le> 31"
  using get_date_le_31 [of z "midnight_of z d"] by simp

lemma format_field_digits:
  assumes "is_field c" "\<not> is_name c" "100 \<le> year_from_day d" "field_fits z now co (midnight_of z d) c b"
    "b \<longrightarrow> doubles_in_format c"
  shows "digits_of c b (field_value z d c b) (format_field z cfg (midnight_of z d) c b)"
proof -
  define t where "t = midnight_of z d"
  have yd: "year_day d + 1 < 10 ^ 3" "0 \<le> year_day d"
    using year_day_bounds [of d] by (simp_all add: year_length_def split: if_splits)
  consider "c = CHR ''d''" | "c = CHR ''o''" | "c = CHR ''m''" | "c = CHR ''y''" "b"
    | "c = CHR ''y''" "\<not> b" | "c = CHR ''@''" | "c = CHR ''!''"
    using assms(1,2) by (auto simp: is_field_def is_name_def)
  then show ?thesis
  proof cases
    case 1
    then show ?thesis
      using digits_of_format [of "date_from_day d" c b] date_from_day_range(1) [of d] date_le_31 [of d]
      by (simp add: format_field_def number_size_def field_value_def)
  next
    case 2
    then show ?thesis
      using digits_of_format [of "year_day d + 1" c b] yd
      by (simp add: format_field_def number_size_def field_value_def year_range_of_day [OF assms(3)])
  next
    case 3
    then show ?thesis
      using digits_of_format [of "month_from_day d + 1" c b] month_from_day_range [of d]
      by (simp add: format_field_def number_size_def field_value_def)
  next
    case 4
    then show ?thesis
      using digits_of_show [of "year_from_day d" c b] assms(4)
      by (simp add: format_field_def number_size_def field_fits_def field_value_def Let_def)
  next
    case 5
    define yy where "yy = year_from_day d mod 100"
    have "1900 \<le> year_from_day d" using assms(4) 5 by (simp add: field_fits_def Let_def)
    then have "js_mod (year_from_day d - 1900) 100 = (year_from_day d - 1900) mod 100"
      by (intro js_mod_nonneg) simp_all
    also have "\<dots> = yy" using mod_mult_self1 [of "year_from_day d" "- 19" 100] by (simp add: yy_def)
    finally have "js_mod (year_from_day d - 1900) 100 = yy" .
    moreover have yy: "0 \<le> yy" "yy < 100" by (simp_all add: yy_def)
    ultimately have f: "format_field z cfg (midnight_of z d) c b = formatNumber True yy 2"
      using 5 two_digits [OF yy] by (simp add: format_field_def)
    then show ?thesis
      using 5 f formatNumber_digits [of yy 2 True] yy
      by (simp add: digits_of_def number_size_def field_value_def yy_def [symmetric])
  next
    case 6
    then show ?thesis
      using digits_of_show [of t c b] assms(4,5)
      by (simp add: format_field_def number_size_def field_fits_def t_def fixed_width_def
          doubles_in_format_def field_value_def)
  next
    case 7
    then show ?thesis
      using digits_of_show [of "t * 10000 + ticksTo1970" c b] assms(4,5)
      by (simp add: format_field_def number_size_def field_fits_def t_def fixed_width_def
          doubles_in_format_def field_value_def)
  qed
qed

lemma set_from_midnight:
  "\<bar>midnight_of z d\<bar> \<le> max_time \<Longrightarrow> set_from_time z (midnight_of z d) s =
     s\<lparr>p_year := Some (year_from_day d), p_month := Some (month_from_day d + 1),
       p_day := Some (date_from_day d)\<rparr>"
  by (simp add: set_from_time_def)

lemma ticks_back: "trunc_div (t * 10000) 10000 = t"
  by (cases t "0::int" rule: linorder_cases) (simp_all add: trunc_div_def abs_mult sgn_mult)

lemma parse_field_number:
  assumes "is_field c" "\<not> is_name c" "100 \<le> year_from_day d" "field_fits z now co (midnight_of z d) c b"
    "b \<longrightarrow> doubles_in_format c"
    "drop (p_iValue s) v = format_field z cfg (midnight_of z d) c b @ rest"
    "fixed_width c b \<or> rest = [] \<or> \<not> is_digit (hd rest)"
  shows "parse_field z cfg v c b s = Inr (field_effect z d c b
    (s\<lparr>p_iValue := p_iValue s + length (format_field z cfg (midnight_of z d) c b)\<rparr>))"
proof -
  let ?ds = "format_field z cfg (midnight_of z d) c b"
  have dig: "digits_of c b (field_value z d c b) ?ds"
    by (rule format_field_digits [OF assms(1-5)])
  have g: "getNumber v c b (p_iValue s) = Inr (field_value z d c b, p_iValue s + length ?ds)"
  proof -
    have "getNumber v c b (p_iValue s) = Inr (digits_val ?ds, p_iValue s + length ?ds)"
      by (rule getNumber_ok [OF assms(6)])
        (use dig assms(7) in \<open>auto simp: digits_of_def fixed_width_def Suc_leI\<close>)
    then show ?thesis using dig by (simp add: digits_of_def)
  qed
  have mt: "\<bar>midnight_of z d\<bar> \<le> max_time" if "c = CHR ''@'' \<or> c = CHR ''!''"
    using assms(4) that by (auto simp: field_fits_def max_time_def Let_def)
  consider "c = CHR ''d''" | "c = CHR ''o''" | "c = CHR ''m''" | "c = CHR ''y''"
    | "c = CHR ''@''" | "c = CHR ''!''"
    using assms(1,2) by (auto simp: is_field_def is_name_def)
  then show ?thesis
    by cases (use g mt in \<open>simp_all add: parse_field_def parse_number_def field_effect_def
        field_value_def set_from_midnight ticks_back\<close>)
qed

lemma name_field_text:
  assumes "is_name c" "config_ok cfg"
  shows "\<exists>names n i. names_ok n names \<and> i < n \<and> format_field z cfg (midnight_of z d) c b = names ! i \<and>
    (\<forall>v s. parse_field z cfg v c b s = parse_name v names s
       (\<lambda>k s. if c = CHR ''D'' then s else s\<lparr>p_month := Some k\<rparr>)) \<and>
    (c = CHR ''M'' \<longrightarrow> int i = month_from_day d)"
proof -
  define i where "i = nat (if c = CHR ''D'' then (d + 4) mod 7 else month_from_day d)"
  define n :: nat where "n = (if c = CHR ''D'' then 7 else 12)"
  define names where "names = (if c = CHR ''D'' then if b then dayNames cfg else dayNamesShort cfg
    else if b then monthNames cfg else monthNamesShort cfg)"
  have ok: "names_ok n names" using assms(2) by (auto simp: config_ok_def names_def n_def)
  have "month_from_day d < 12" using month_from_day_range(2) [of d] by linarith
  then have i: "i < n" by (simp add: i_def n_def nat_less_iff)
  have len: "length names = n" using ok by (simp add: names_ok_def)
  then have at: "name_at names (int i) = names ! i" using i by (simp add: name_at_def)
  from assms(1) consider "c = CHR ''D''" | "c = CHR ''M''" by (auto simp: is_name_def)
  then have "format_field z cfg (midnight_of z d) c b = name_at names (int i) \<and>
    (\<forall>v s. parse_field z cfg v c b s = parse_name v names s
       (\<lambda>k s. if c = CHR ''D'' then s else s\<lparr>p_month := Some k\<rparr>)) \<and>
    (c = CHR ''M'' \<longrightarrow> int i = month_from_day d)"
    by cases (simp_all add: format_field_def parse_field_def names_def i_def)
  with at ok i show ?thesis by auto
qed

lemma parse_field_name:
  assumes "is_name c" "config_ok cfg"
    "drop (p_iValue s) v = format_field z cfg (midnight_of z d) c b @ rest"
  shows "parse_field z cfg v c b s = Inr (field_effect z d c b
    (s\<lparr>p_iValue := p_iValue s + length (format_field z cfg (midnight_of z d) c b)\<rparr>))"
proof -
  obtain names n i where ok: "names_ok n names" "i < n"
    and f: "format_field z cfg (midnight_of z d) c b = names ! i"
    and p: "parse_field z cfg v c b s = parse_name v names s
       (\<lambda>k s. if c = CHR ''D'' then s else s\<lparr>p_month := Some k\<rparr>)"
    and m: "c = CHR ''M'' \<longrightarrow> int i = month_from_day d"
    using name_field_text [OF assms(1,2)] by blast
  have "getName v names (p_iValue s) = Inr (int i + 1, p_iValue s + length (names ! i))"
    using getName_ok [OF ok] assms(3) f by simp
  with assms(1) f p m show ?thesis
    by (auto simp: parse_name_def field_effect_def is_name_def)
qed

lemma no_digit_start_out:
  assumes "no_digit_start toks" "config_ok cfg"
  shows "out_of z cfg (midnight_of z d) toks = [] \<or> \<not> is_digit (hd (out_of z cfg (midnight_of z d) toks))"
proof (cases toks)
  case Nil
  then show ?thesis by simp
next
  case (Cons t ts)
  show ?thesis
  proof (cases t)
    case (Field c b)
    with assms Cons have "is_name c" by (simp add: no_digit_start_def)
    from name_field_text [OF this assms(2)] obtain names n i where
      ok: "names_ok n names" "i < n" and f: "format_field z cfg (midnight_of z d) c b = names ! i"
      by blast
    then have "names ! i \<noteq> [] \<and> \<not> is_digit (hd (names ! i))"
      by (auto simp: names_ok_def list_all_length)
    with Cons Field f show ?thesis by simp
  qed (use assms Cons in \<open>auto simp: no_digit_start_def is_digit_def\<close>)
qed

lemma parse_quoted:
  assumes "CHR 39 \<notin> set q" "\<not> starts_with (CHR 39) f" "drop (p_iValue s) v = q @ rest"
  shows "parse_loop z cfg v (q @ CHR 39 # f) True s
    = parse_loop z cfg v f False (s\<lparr>p_iValue := p_iValue s + length q\<rparr>)"
  using assms
proof (induction q arbitrary: s)
  case Nil
  then show ?case by (simp add: parse_loop.simps(2))
next
  case (Cons c q)
  have "checkLiteral v c (p_iValue s) = Inr (p_iValue s + 1)"
    using Cons.prems(3) by (intro checkLiteral_ok) simp
  moreover have "drop (p_iValue s + 1) v = q @ rest"
    using Cons.prems(3) by (metis append_Cons drop_drop list.sel(3) tl_drop drop_Suc Suc_eq_plus1 plus_1_eq_Suc)
  ultimately show ?case
    using Cons.prems Cons.IH [of "s\<lparr>p_iValue := p_iValue s + 1\<rparr>"]
    by (simp add: parse_loop.simps(2) eq_commute [of "CHR 39"])
qed

lemma drop_after: "drop i v = a @ b \<Longrightarrow> drop (i + length a) v = b"
  by (metis add.commute append_eq_conv_conj drop_drop)

lemma parse_tokens:
  assumes cfg: "config_ok cfg" and y: "100 \<le> year_from_day d"
  shows "toks_ok toks \<Longrightarrow> list_all (tok_fits z now co (midnight_of z d)) toks \<Longrightarrow>
    drop (p_iValue s) v = out_of z cfg (midnight_of z d) toks \<Longrightarrow>
    p_iValue s + length (out_of z cfg (midnight_of z d) toks) = length v \<Longrightarrow>
    parse_loop z cfg v (fmt_of toks) False s =
      Inr ((foldl (tok_effect z d) s toks)\<lparr>p_iValue := length v\<rparr>)"
proof (induction toks arbitrary: s rule: toks_ok.induct)
  case 1
  then show ?case by simp
next
  case (2 c b toks)
  let ?txt = "format_field z cfg (midnight_of z d) c b"
  let ?s = "s\<lparr>p_iValue := p_iValue s + length ?txt\<rparr>"
  have d: "drop (p_iValue s) v = ?txt @ out_of z cfg (midnight_of z d) toks" using 2 by simp
  have pf: "parse_field z cfg v c b s = Inr (field_effect z d c b ?s)"
  proof (cases "is_name c")
    case True
    then show ?thesis by (rule parse_field_name [OF _ cfg d])
  next
    case False
    show ?thesis
      by (rule parse_field_number [OF _ False y _ _ d, where now = now and co = co])
        (use 2 False no_digit_start_out [OF _ cfg] in \<open>auto simp: tok_fits_def\<close>)
  qed
  have rest: "drop (p_iValue s + length ?txt) v = out_of z cfg (midnight_of z d) toks"
    by (rule drop_after [OF d])
  have "parse_loop z cfg v (fmt_of (Field c b # toks)) False s =
      parse_loop z cfg v (fmt_of toks) False (field_effect z d c b ?s)"
    using 2 pf by (cases b) (simp_all add: parse_loop.simps(2))
  then show ?case
    using 2 rest by (simp add: effect_iValue field_effect_iValue add_ac)
next
  case (3 c toks)
  have d: "drop (p_iValue s) v = c # out_of z cfg (midnight_of z d) toks" using 3 by simp
  then have "checkLiteral v c (p_iValue s) = Inr (p_iValue s + 1)" by (rule checkLiteral_ok)
  moreover have "drop (p_iValue s + 1) v = out_of z cfg (midnight_of z d) toks"
    using drop_after [of "p_iValue s" v "[c]"] d by simp
  ultimately show ?case
    using 3 by (simp add: parse_loop.simps(2) effect_iValue)
next
  case (4 q toks)
  then have ns: "\<not> starts_with (CHR 39) (q @ CHR 39 # fmt_of toks)"
    by (cases q) (auto simp: starts_with_def)
  have d: "drop (p_iValue s) v = q @ out_of z cfg (midnight_of z d) toks" using 4 by simp
  have "parse_loop z cfg v (fmt_of (Quote q # toks)) False s
      = parse_loop z cfg v (fmt_of toks) False (s\<lparr>p_iValue := p_iValue s + length q\<rparr>)"
    using 4 ns parse_quoted [OF _ _ d] by (simp add: parse_loop.simps(2))
  then show ?case
    using 4 drop_after [OF d] by (simp add: effect_iValue)
next
  case (5 toks)
  have d: "drop (p_iValue s) v = CHR 39 # out_of z cfg (midnight_of z d) toks" using 5 by simp
  then have "checkLiteral v (CHR 39) (p_iValue s) = Inr (p_iValue s + 1)" by (rule checkLiteral_ok)
  moreover have "drop (p_iValue s + 1) v = out_of z cfg (midnight_of z d) toks"
    using drop_after [of "p_iValue s" v "[CHR 39]"] d by simp
  ultimately show ?case
    using 5 by (simp add: parse_loop.simps(2) effect_iValue)
qed

end

section \<open>The fields after a whole format\<close>

lemma has_simps [simp]:
  "has c [] = False" "has c (Lit l # ts) = has c ts" "has c (Quote q # ts) = has c ts"
  "has c (Apos # ts) = has c ts" "has c (Field k b # ts) = (k = c \<or> has c ts)"
  by (auto simp: has_def)

lemma effect_day:
  "toks_ok toks \<Longrightarrow> p_day (foldl (tok_effect z d) s toks) =
     (if has (CHR ''d'') toks \<or> has (CHR ''@'') toks \<or> has (CHR ''!'') toks
      then Some (date_from_day d) else p_day s)"
  by (induction toks arbitrary: s rule: toks_ok.induct)
    (auto simp: field_effect_def is_field_def split: if_splits)

lemma effect_month:
  "toks_ok toks \<Longrightarrow> p_month (foldl (tok_effect z d) s toks) =
     (if has (CHR ''m'') toks \<or> has (CHR ''M'') toks \<or> has (CHR ''@'') toks \<or> has (CHR ''!'') toks
      then Some (month_from_day d + 1) else p_month s)"
  by (induction toks arbitrary: s rule: toks_ok.induct)
    (auto simp: field_effect_def is_field_def split: if_splits)

lemma effect_doy:
  "toks_ok toks \<Longrightarrow> p_doy (foldl (tok_effect z d) s toks) =
     (if has (CHR ''o'') toks then year_day d + 1 else p_doy s)"
  by (induction toks arbitrary: s rule: toks_ok.induct)
    (auto simp: field_effect_def is_field_def split: if_splits)

lemma effect_year:
  "toks_ok toks \<Longrightarrow> p_year (foldl (tok_effect z d) s toks) = Some (year_from_day d) \<or>
     p_year (foldl (tok_effect z d) s toks) = Some (year_from_day d mod 100) \<and>
       Field (CHR ''y'') False \<in> set toks \<or>
     p_year (foldl (tok_effect z d) s toks) = p_year s \<and>
       \<not> (has (CHR ''y'') toks \<or> has (CHR ''@'') toks \<or> has (CHR ''!'') toks)"
proof (induction toks arbitrary: s rule: toks_ok.induct)
  case (2 c b toks)
  then have IH: "\<And>s. p_year (foldl (tok_effect z d) s toks) = Some (year_from_day d) \<or>
     p_year (foldl (tok_effect z d) s toks) = Some (year_from_day d mod 100) \<and>
       Field (CHR ''y'') False \<in> set toks \<or>
     p_year (foldl (tok_effect z d) s toks) = p_year s \<and>
       \<not> (has (CHR ''y'') toks \<or> has (CHR ''@'') toks \<or> has (CHR ''!'') toks)"
    and c: "is_field c" by auto
  define s' where "s' = field_effect z d c b s"
  have fold: "foldl (tok_effect z d) s (Field c b # toks) = foldl (tok_effect z d) s' toks"
    by (simp add: s'_def)
  show ?case
  proof (cases "c = CHR ''y'' \<or> c = CHR ''@'' \<or> c = CHR ''!''")
    case True
    then have "p_year s' = Some (year_from_day d) \<or>
        p_year s' = Some (year_from_day d mod 100) \<and> Field c b = Field (CHR ''y'') False"
      by (auto simp: s'_def field_effect_def)
    then show ?thesis
      unfolding fold using IH [of s'] by (metis list.set_intros(1) list.set_intros(2))
  next
    case False
    then have "p_year s' = p_year s" using c by (auto simp: s'_def field_effect_def is_field_def)
    with False show ?thesis
      unfolding fold has_simps using IH [of s'] by (metis list.set_intros(2))
  qed
qed simp_all

lemma out_nonempty:
  assumes "complete toks" "toks_ok toks"
  shows "fmt_of toks \<noteq> []"
  using assms by (cases toks rule: toks_ok.cases) (auto simp: complete_def)

context zone_laws
begin

lemma format_field_nonempty:
  assumes "is_field c" "100 \<le> year_from_day d" "field_fits z now co (midnight_of z d) c b"
    "b \<longrightarrow> doubles_in_format c" "config_ok cfg"
  shows "format_field z cfg (midnight_of z d) c b \<noteq> []"
proof (cases "is_name c")
  case True
  then show ?thesis
    using name_field_text [OF True assms(5), of d b] by (auto simp: names_ok_def list_all_length)
next
  case False
  then show ?thesis
    using format_field_digits [OF assms(1) False assms(2-4), of cfg] by (auto simp: digits_of_def)
qed

theorem parse_of_format:
  assumes cfg: "config_ok (format_config settings defaults)"
    and toks: "toks_ok toks" "complete toks"
    and fits: "list_all (tok_fits z now
      (cutoff_year z now (shortYearCutoff (format_config settings defaults))) (midnight_of z d)) toks"
    and y: "100 \<le> year_from_day d"
  shows "parseDate z now defaults (Some (fmt_of toks))
      (Some (formatDate z defaults (fmt_of toks) (Some (midnight_of z d)) settings)) settings
    = Inr (Some (midnight_of z d))"
proof -
  define c where "c = format_config settings defaults"
  define co where "co = cutoff_year z now (shortYearCutoff c)"
  define v where "v = out_of z c (midnight_of z d) toks"
  define s where "s = (foldl (tok_effect z d) parse_init toks)\<lparr>p_iValue := length v\<rparr>"
  have v: "formatDate z defaults (fmt_of toks) (Some (midnight_of z d)) settings = v"
    by (simp add: formatDate_def format_tokens [OF toks(1)] v_def c_def)
  have loop: "parse_loop z c v (fmt_of toks) False parse_init = Inr s"
    unfolding s_def
    by (rule parse_tokens [OF cfg [folded c_def] y toks(1) fits [folded c_def, folded co_def]])
      (simp_all add: v_def parse_init_def)
  have short: "parse_year z now co (year_from_day d mod 100) = year_from_day d"
    if "Field (CHR ''y'') False \<in> set toks"
    using fits that by (auto simp: list_all_iff tok_fits_def field_fits_def Let_def co_def c_def)
  have long: "parse_year z now co (year_from_day d) = year_from_day d"
    using y by (simp add: parse_year_def Let_def)
  have year: "map_option (parse_year z now co) (p_year s) = Some (year_from_day d)"
    using effect_year [OF toks(1), of z d parse_init] toks(2) short long
    by (auto simp: s_def complete_def)
  have fy: "full_year (year_from_day d) = year_from_day d" using y by (simp add: full_year_def)
  have fp: "finish_parse z now c v s =
      (if p_doy s > -1 then
         (let (m, d') = doy_loop z (year_from_day d) 1 (p_doy s)
          in checked_date z (Some (year_from_day d)) (Some m) (Some d'))
       else checked_date z (Some (year_from_day d)) (p_month s) (p_day s))"
    unfolding finish_parse_def Let_def co_def [symmetric] year by (simp add: s_def)
  have fin: "finish_parse z now c v s = Inr (midnight_of z d)"
  proof (cases "has (CHR ''o'') toks")
    case True
    obtain m' d' where md: "doy_loop z (year_from_day d) 1 (year_day d + 1) = (m', d')"
      by (cases "doy_loop z (year_from_day d) 1 (year_day d + 1)")
    have "checked_date z (Some (year_from_day d)) (Some m') (Some d') = Inr (midnight_of z d)"
      using doy_date [OF fy md] year_day_bounds [of d] by (simp add: year_day_def)
    moreover have "p_doy s = year_day d + 1"
      using True effect_doy [OF toks(1), of z d parse_init] by (simp add: s_def)
    ultimately show ?thesis
      using md year_day_bounds(1) [of d] by (simp add: fp)
  next
    case False
    then have "p_day s = Some (date_from_day d)" "p_month s = Some (month_from_day d + 1)"
      "p_doy s = -1"
      using effect_day [OF toks(1), of z d parse_init] effect_month [OF toks(1), of z d parse_init]
        effect_doy [OF toks(1), of z d parse_init] toks(2)
      by (auto simp: s_def complete_def parse_init_def)
    moreover have "checked_date z (Some (year_from_day d)) (Some (month_from_day d + 1))
        (Some (date_from_day d)) = Inr (midnight_of z d)"
      using y civil_from_day [of d] by (simp add: checked_date_Inr make_day_from_day)
    ultimately show ?thesis by (simp add: fp)
  qed
  have "v \<noteq> []"
  proof -
    obtain k b where kb: "Field k b \<in> set toks"
      using toks(2) by (auto simp: complete_def has_def)
    then have "is_field k \<and> (b \<longrightarrow> doubles_in_format k)"
      using toks(1) by (induction toks rule: toks_ok.induct) auto
    moreover have "field_fits z now co (midnight_of z d) k b"
      using fits kb by (auto simp: list_all_iff tok_fits_def co_def c_def)
    ultimately have "format_field z c (midnight_of z d) k b \<noteq> []"
      using format_field_nonempty y cfg [folded c_def] by blast
    then have "out_tok z c (midnight_of z d) (Field k b) \<noteq> []" by simp
    with kb show ?thesis unfolding v_def out_of_def by (metis concat_eq_Nil_conv image_eqI set_map)
  qed
  with v loop fin show ?thesis
    by (simp add: parseDate_def c_def [symmetric])
qed

end

section \<open>The predefined formats\<close>

definition ATOM :: string where "ATOM = ''yy-mm-dd''"
definition COOKIE :: string where "COOKIE = ''D, dd M yy''"
definition ISO_8601 :: string where "ISO_8601 = ''yy-mm-dd''"
definition RFC_822 :: string where "RFC_822 = ''D, d M y''"
definition RFC_850 :: string where "RFC_850 = ''DD, dd-M-y''"
definition RFC_1036 :: string where "RFC_1036 = ''D, d M y''"
definition RFC_1123 :: string where "RFC_1123 = ''D, d M yy''"
definition RFC_2822 :: string where "RFC_2822 = ''D, d M yy''"
definition RSS :: string where "RSS = ''D, d M y''"
definition TICKS :: string where "TICKS = ''!''"
definition TIMESTAMP :: string where "TIMESTAMP = ''@''"
definition W3C :: string where "W3C = ''yy-mm-dd''"

lemmas predefined_defs = ATOM_def COOKIE_def ISO_8601_def RFC_822_def RFC_850_def RFC_1036_def
  RFC_1123_def RFC_2822_def RSS_def TICKS_def TIMESTAMP_def W3C_def

text \<open>The tokens of a text of field letters and other characters without quotes.\<close>

fun tokens_of :: "string \<Rightarrow> tok list" where
  "tokens_of [] = []"
| "tokens_of [c] = [if is_field c then Field c False else Lit c]"
| "tokens_of (c # k # cs) =
     (if is_field c then if k = c \<and> doubles_in_format c then Field c True # tokens_of cs
        else Field c False # tokens_of (k # cs)
      else Lit c # tokens_of (k # cs))"

definition plain_format :: "string \<Rightarrow> bool" where
  "plain_format f \<longleftrightarrow> toks_ok (tokens_of f) \<and> complete (tokens_of f)"

lemma fmt_of_tokens_of: "fmt_of (tokens_of f) = f"
  by (induction f rule: tokens_of.induct) auto

lemma predefined_plain:
  "list_all plain_format [ATOM, COOKIE, ISO_8601, RFC_822, RFC_850, RFC_1036, RFC_1123, RFC_2822,
     RSS, TICKS, TIMESTAMP, W3C, ''mm/dd/yy'']"
  unfolding predefined_defs by code_simp

end
