(* ===== verification/DP_Inst.thy ===== *)
theory DP_Inst
  imports DP_Roundtrip
begin

text \<open>
  One date picker instance (jquery-ui.js): its settings, the date it has selected, the month it
  draws and the text of its field. Settings are looked up by name as in the code, in the instance
  and then in the defaults, and hold a value of the type \<open>jsv\<close>; the callbacks the settings name
  are recorded as events of the instance. The instant \<open>new Date()\<close> yields is a field of the
  environment, the same during one operation; the callbacks that compute a value for the calendar,
  given by the page, are functions of the environment.
\<close>

section \<open>Settings\<close>

datatype jsv = JUndef | JNull | JBool bool | JNum int | JNaN | JStr string | JDate int
  | JStrs "string list" | JNums int int | JFun string | JObj

definition truthy :: "jsv \<Rightarrow> bool" where
  "truthy v = (case v of JUndef \<Rightarrow> False | JNull \<Rightarrow> False | JBool b \<Rightarrow> b | JNum n \<Rightarrow> n \<noteq> 0
     | JNaN \<Rightarrow> False | JStr s \<Rightarrow> s \<noteq> [] | _ \<Rightarrow> True)"

definition nullish :: "jsv \<Rightarrow> bool" where
  "nullish v \<longleftrightarrow> v = JUndef \<or> v = JNull"

type_synonym settings = "string \<rightharpoonup> jsv"

definition prop_of :: "settings \<Rightarrow> string \<Rightarrow> jsv" where
  "prop_of s n = (case s n of None \<Rightarrow> JUndef | Some v \<Rightarrow> v)"

text \<open>The defaults of the constructor, with the regional settings \<open>regional[""]\<close> copied in.\<close>

definition regional_list :: "(string \<times> jsv) list" where
  "regional_list =
     [(''closeText'', JStr ''Done''), (''prevText'', JStr ''Prev''), (''nextText'', JStr ''Next''),
      (''currentText'', JStr ''Today''),
      (''monthNames'', JStrs (monthNames regional_names)),
      (''monthNamesShort'', JStrs (monthNamesShort regional_names)),
      (''dayNames'', JStrs (dayNames regional_names)),
      (''dayNamesShort'', JStrs (dayNamesShort regional_names)),
      (''dayNamesMin'', JStrs [''Su'', ''Mo'', ''Tu'', ''We'', ''Th'', ''Fr'', ''Sa'']),
      (''weekHeader'', JStr ''Wk''), (''dateFormat'', JStr ''mm/dd/yy''), (''firstDay'', JNum 0),
      (''isRTL'', JBool False), (''showMonthAfterYear'', JBool False), (''yearSuffix'', JStr '''')]"

definition defaults_list :: "(string \<times> jsv) list" where
  "defaults_list =
     [(''showOn'', JStr ''focus''), (''showAnim'', JStr ''fadeIn''), (''showOptions'', JObj),
      (''defaultDate'', JNull), (''appendText'', JStr ''''), (''buttonText'', JStr ''...''),
      (''buttonImage'', JStr ''''), (''buttonImageOnly'', JBool False),
      (''hideIfNoPrevNext'', JBool False), (''navigationAsDateFormat'', JBool False),
      (''gotoCurrent'', JBool False), (''changeMonth'', JBool False), (''changeYear'', JBool False),
      (''yearRange'', JStr ''c-10:c+10''), (''showOtherMonths'', JBool False),
      (''selectOtherMonths'', JBool False), (''showWeek'', JBool False),
      (''calculateWeek'', JFun ''iso8601Week''), (''shortYearCutoff'', JStr ''+10''),
      (''minDate'', JNull), (''maxDate'', JNull), (''duration'', JStr ''fast''),
      (''beforeShowDay'', JNull), (''beforeShow'', JNull), (''onSelect'', JNull),
      (''onChangeMonthYear'', JNull), (''onClose'', JNull), (''numberOfMonths'', JNum 1),
      (''showCurrentAtPos'', JNum 0), (''stepMonths'', JNum 1), (''stepBigMonths'', JNum 12),
      (''altField'', JStr ''''), (''altFormat'', JStr ''''), (''constrainInput'', JBool True),
      (''showButtonPanel'', JBool False), (''autoSize'', JBool False), (''disabled'', JBool False)]"

definition dp_defaults :: settings where
  "dp_defaults = map_of (regional_list @ defaults_list)"

text \<open>\<open>$.extend(target, props)\<close> skips the properties that are undefined; \<open>datepicker_extendRemove\<close>
  then copies the null and undefined ones too.\<close>

definition jq_extend :: "settings \<Rightarrow> settings \<Rightarrow> settings" where
  "jq_extend target props =
     (\<lambda>n. case props n of None \<Rightarrow> target n | Some JUndef \<Rightarrow> target n | Some v \<Rightarrow> Some v)"

definition extendRemove :: "settings \<Rightarrow> settings \<Rightarrow> settings" where
  "extendRemove target props =
     (let t = jq_extend target props
      in (\<lambda>n. case props n of None \<Rightarrow> t n | Some v \<Rightarrow> if nullish v then Some v else t n))"

lemma extendRemove_apply:
  "extendRemove t p n = (case p n of None \<Rightarrow> t n | Some v \<Rightarrow> Some v)"
  by (auto simp: extendRemove_def jq_extend_def nullish_def split: option.splits jsv.splits)

section \<open>The instance\<close>

datatype dp_event =
    ChangeMonthYear int int
  | Selected string
  | InputChange
  | Closed string
  | AltField string

record inst =
  i_id :: string
  inline :: bool
  settings :: settings
  selectedDay :: int
  selectedMonth :: int
  selectedYear :: int
  drawMonth :: int
  drawYear :: int
  currentDay :: int
  currentMonth :: int
  currentYear :: int
  fieldVal :: string
  lastVal :: "string option"
  keyEvent :: bool
  yearshtml :: string
  events :: "dp_event list"

record dp_env =
  e_zone :: zone
  e_now :: int
  e_defaults :: settings
  e_beforeShowDay :: "string \<Rightarrow> int \<Rightarrow> bool \<times> string \<times> string"
  e_calculateWeek :: "string \<Rightarrow> int \<Rightarrow> string"
  e_beforeShow :: "string \<Rightarrow> settings option"

text \<open>The properties \<open>current\<close>* are absent until a date has been set; the code only tests them for
  truth before that, so 0 stands for the absent value.\<close>

definition newInst :: "string \<Rightarrow> bool \<Rightarrow> string \<Rightarrow> settings \<Rightarrow> inst" where
  "newInst ident inl v st =
     \<lparr>i_id = ident, inline = inl, settings = st, selectedDay = 0, selectedMonth = 0, selectedYear = 0,
      drawMonth = 0, drawYear = 0, currentDay = 0, currentMonth = 0, currentYear = 0,
      fieldVal = v, lastVal = None, keyEvent = False, yearshtml = [], events = []\<rparr>"

definition dp_get :: "dp_env \<Rightarrow> inst \<Rightarrow> string \<Rightarrow> jsv" where
  "dp_get e i n =
     (if prop_of (settings i) n \<noteq> JUndef then prop_of (settings i) n else prop_of (e_defaults e) n)"

definition str_opt :: "jsv \<Rightarrow> string option" where
  "str_opt v = (case v of JStr s \<Rightarrow> Some s | _ \<Rightarrow> None)"

definition strs_opt :: "jsv \<Rightarrow> string list option" where
  "strs_opt v = (case v of JStrs l \<Rightarrow> Some l | _ \<Rightarrow> None)"

definition cutoff_of :: "jsv \<Rightarrow> cutoff" where
  "cutoff_of v = (case v of JStr s \<Rightarrow> CutStr s | JNum n \<Rightarrow> CutNum n | JNull \<Rightarrow> CutNum 0 | _ \<Rightarrow> CutStr [])"

definition default_names :: "settings \<Rightarrow> format_names" where
  "default_names d =
     \<lparr>shortYearCutoff = cutoff_of (prop_of d ''shortYearCutoff''),
      dayNamesShort = or_default (strs_opt (prop_of d ''dayNamesShort'')) [],
      dayNames = or_default (strs_opt (prop_of d ''dayNames'')) [],
      monthNamesShort = or_default (strs_opt (prop_of d ''monthNamesShort'')) [],
      monthNames = or_default (strs_opt (prop_of d ''monthNames'')) []\<rparr>"

definition getFormatConfig :: "dp_env \<Rightarrow> inst \<Rightarrow> format_settings" where
  "getFormatConfig e i =
     \<lparr>set_shortYearCutoff = (case dp_get e i ''shortYearCutoff'' of
         JStr s \<Rightarrow> map_option (\<lambda>n. CutNum (js_mod (get_full_year (e_zone e) (e_now e)) 100 + n))
                     (js_parse_int s)
       | JNum n \<Rightarrow> Some (CutNum n)
       | _ \<Rightarrow> None),
      set_dayNamesShort = strs_opt (dp_get e i ''dayNamesShort''),
      set_dayNames = strs_opt (dp_get e i ''dayNames''),
      set_monthNamesShort = strs_opt (dp_get e i ''monthNamesShort''),
      set_monthNames = strs_opt (dp_get e i ''monthNames'')\<rparr>"

definition inst_parse :: "dp_env \<Rightarrow> inst \<Rightarrow> string \<Rightarrow> int option js" where
  "inst_parse e i v =
     parseDate (e_zone e) (e_now e) (default_names (e_defaults e))
       (str_opt (dp_get e i ''dateFormat'')) (Some v) (Some (getFormatConfig e i))"

text \<open>\<open>formatDate\<close> reads \<open>format.length\<close> once it has a date, which throws when the format is null.\<close>

definition inst_format :: "dp_env \<Rightarrow> inst \<Rightarrow> jsv \<Rightarrow> int option \<Rightarrow> string js" where
  "inst_format e i f date =
     (case (date, str_opt f) of
        (None, _) \<Rightarrow> Inr []
      | (Some t, Some s) \<Rightarrow>
          Inr (formatDate (e_zone e) (default_names (e_defaults e)) s (Some t) (Some (getFormatConfig e i)))
      | (Some t, None) \<Rightarrow> Inl (Throw ''TypeError''))"

section \<open>Exact and relative dates\<close>

definition getDate :: "dp_env \<Rightarrow> inst \<Rightarrow> int option" where
  "getDate e i =
     (if currentYear i = 0 \<or> fieldVal i = [] then None
      else Some (daylightSavingAdjust (e_zone e)
             (new_date (e_zone e) (currentYear i) (currentMonth i) (currentDay i))))"

text \<open>The matches of the pattern \<open>/([+\-]?[0-9]+)\s*(d|D|w|W|m|M|y|Y)?/g\<close>, each with its unit.\<close>

definition offset_units :: string where
  "offset_units = ''dDwWmMyY''"

lemma length_dropWhile_less: "takeWhile P xs \<noteq> [] \<Longrightarrow> length (dropWhile P xs) < length xs"
  by (cases xs) (auto simp: less_Suc_eq_le length_dropWhile_le split: if_splits)

lemma scan_rest_shorter:
  assumes "takeWhile is_digit body \<noteq> []" "length body \<le> Suc n"
  shows "length (dropWhile is_space (dropWhile is_digit body)) \<le> n"
  using length_dropWhile_le [of is_space "dropWhile is_digit body"] length_dropWhile_less [OF assms(1)] assms(2)
  by linarith

function scan_offsets :: "string \<Rightarrow> (int \<times> char) list" where
  "scan_offsets [] = []"
| "scan_offsets (c # cs) =
     (let signed = (c = CHR ''+'' \<or> c = CHR ''-'');
          body = (if signed then cs else c # cs);
          ds = takeWhile is_digit body;
          n = (if c = CHR ''-'' then - digits_val ds else digits_val ds);
          rest = dropWhile is_space (dropWhile is_digit body)
      in if ds = [] then scan_offsets cs
         else if rest \<noteq> [] \<and> hd rest \<in> set offset_units then (n, hd rest) # scan_offsets (tl rest)
         else (n, CHR ''d'') # scan_offsets rest)"
  by pat_completeness auto

termination
proof (relation "measure length", goal_cases)
  case (3 c cs signed body ds n rest)
  then have "length rest \<le> length cs"
    using scan_rest_shorter [of body "length cs"] by simp
  then show ?case by (simp add: less_Suc_eq_le le_trans [OF diff_le_self])
next
  case (4 c cs signed body ds n rest)
  then have "length rest \<le> length cs"
    using scan_rest_shorter [of body "length cs"] by simp
  then show ?case by (simp add: less_Suc_eq_le)
qed auto

declare scan_offsets.simps(2) [simp del]

definition apply_offset :: "zone \<Rightarrow> int \<times> char \<Rightarrow> int \<times> int \<times> int \<Rightarrow> int \<times> int \<times> int" where
  "apply_offset z m s =
     (case (m, s) of ((n, u), (y, mo, d)) \<Rightarrow>
        if u = CHR ''d'' \<or> u = CHR ''D'' then (y, mo, d + n)
        else if u = CHR ''w'' \<or> u = CHR ''W'' then (y, mo, d + n * 7)
        else if u = CHR ''m'' \<or> u = CHR ''M'' then (y, mo + n, min d (getDaysInMonth z y (mo + n)))
        else (y + n, mo, min d (getDaysInMonth z (y + n) mo)))"

definition offset_base :: "dp_env \<Rightarrow> inst \<Rightarrow> string \<Rightarrow> int" where
  "offset_base e i s =
     (if s \<noteq> [] \<and> lower_char (hd s) = CHR ''c''
      then (case getDate e i of Some t \<Rightarrow> t | None \<Rightarrow> e_now e) else e_now e)"

definition relative_date :: "dp_env \<Rightarrow> inst \<Rightarrow> string \<Rightarrow> int" where
  "relative_date e i s =
     (let z = e_zone e; date = offset_base e i s;
          (y, m, d) = foldl (\<lambda>st x. apply_offset z x st)
             (get_full_year z date, get_month z date, get_date z date) (scan_offsets s)
      in new_date z y m d)"

definition offsetString :: "dp_env \<Rightarrow> inst \<Rightarrow> string \<Rightarrow> int option js" where
  "offsetString e i s = js_catch (inst_parse e i s) (Inr (Some (relative_date e i s)))"

definition offsetNumeric :: "dp_env \<Rightarrow> int \<Rightarrow> int" where
  "offsetNumeric e n = set_date (e_zone e) (e_now e) (get_date (e_zone e) (e_now e) + n)"

definition valid_time :: "int \<Rightarrow> bool" where
  "valid_time t \<longleftrightarrow> \<bar>t\<bar> \<le> max_time"

definition raw_date :: "dp_env \<Rightarrow> inst \<Rightarrow> jsv \<Rightarrow> int option \<Rightarrow> int option js" where
  "raw_date e i date dflt =
     (case date of
        JStr s \<Rightarrow> if s = [] then Inr dflt else offsetString e i s
      | JNum n \<Rightarrow> Inr (Some (offsetNumeric e n))
      | JDate t \<Rightarrow> Inr (Some t)
      | JNaN \<Rightarrow> Inr dflt | JNull \<Rightarrow> Inr dflt | JUndef \<Rightarrow> Inr dflt
      | _ \<Rightarrow> Inl (Throw ''TypeError''))"

definition determineDate :: "dp_env \<Rightarrow> inst \<Rightarrow> jsv \<Rightarrow> int option \<Rightarrow> int option js" where
  "determineDate e i date dflt =
     js_bind (raw_date e i date dflt) (\<lambda>nd.
       let nd' = (case nd of Some t \<Rightarrow> if valid_time t then Some t else dflt | None \<Rightarrow> None)
       in Inr (map_option (\<lambda>t. daylightSavingAdjust (e_zone e) (clear_time (e_zone e) t)) nd'))"

section \<open>The bounds\<close>

definition getMinMaxDate :: "dp_env \<Rightarrow> inst \<Rightarrow> string \<Rightarrow> int option js" where
  "getMinMaxDate e i minMax = determineDate e i (dp_get e i (minMax @ ''Date'')) None"

definition clamp :: "int option \<Rightarrow> int option \<Rightarrow> int \<Rightarrow> int" where
  "clamp mn mx date =
     (let nd = (case mn of Some a \<Rightarrow> if date < a then a else date | None \<Rightarrow> date)
      in case mx of Some b \<Rightarrow> if nd > b then b else nd | None \<Rightarrow> nd)"

definition restrictMinMax :: "dp_env \<Rightarrow> inst \<Rightarrow> int \<Rightarrow> int js" where
  "restrictMinMax e i date =
     js_bind (getMinMaxDate e i ''min'') (\<lambda>mn.
     js_bind (getMinMaxDate e i ''max'') (\<lambda>mx. Inr (clamp mn mx date)))"

text \<open>The default of a date the instance needs: never null, as \<open>new Date()\<close> backs it.\<close>

definition needed :: "int option js \<Rightarrow> int js" where
  "needed r = js_bind r (\<lambda>d. case d of Some t \<Rightarrow> Inr t | None \<Rightarrow> Inl (Throw ''TypeError''))"

definition getDefaultDate :: "dp_env \<Rightarrow> inst \<Rightarrow> int js" where
  "getDefaultDate e i =
     js_bind (needed (determineDate e i (dp_get e i ''defaultDate'') (Some (e_now e))))
       (restrictMinMax e i)"

section \<open>Changing the selected date\<close>

datatype period = PDay | PMonth | PYear | PNone

definition notifyChange :: "dp_env \<Rightarrow> inst \<Rightarrow> inst" where
  "notifyChange e i =
     (if truthy (dp_get e i ''onChangeMonthYear'')
      then i\<lparr>events := events i @ [ChangeMonthYear (selectedYear i) (selectedMonth i + 1)]\<rparr> else i)"

text \<open>The four assignments that move the selection and the drawn month to a date.\<close>

definition select_date :: "zone \<Rightarrow> int \<Rightarrow> inst \<Rightarrow> inst" where
  "select_date z date i =
     i\<lparr>selectedDay := get_date z date, drawMonth := get_month z date, selectedMonth := get_month z date,
       drawYear := get_full_year z date, selectedYear := get_full_year z date\<rparr>"

definition adjustInstDate :: "dp_env \<Rightarrow> inst \<Rightarrow> int \<Rightarrow> period \<Rightarrow> inst js" where
  "adjustInstDate e i offset period =
     (let z = e_zone e;
          year = drawYear i + (if period = PYear then offset else 0);
          month = drawMonth i + (if period = PMonth then offset else 0);
          day = min (selectedDay i) (getDaysInMonth z year month) + (if period = PDay then offset else 0)
      in js_bind (restrictMinMax e i (daylightSavingAdjust z (new_date z year month day))) (\<lambda>date.
           let i' = select_date z date i
           in Inr (if period = PMonth \<or> period = PYear then notifyChange e i' else i')))"

definition inst_formatDate :: "dp_env \<Rightarrow> inst \<Rightarrow> (inst \<times> string) js" where
  "inst_formatDate e i =
     (let z = e_zone e;
          i' = i\<lparr>currentDay := selectedDay i, currentMonth := selectedMonth i,
                 currentYear := selectedYear i\<rparr>;
          date = daylightSavingAdjust z (new_date z (currentYear i') (currentMonth i') (currentDay i'))
      in js_bind (inst_format e i' (dp_get e i' ''dateFormat'') (Some date)) (\<lambda>s. Inr (i', s)))"

definition inst_formatDay :: "dp_env \<Rightarrow> inst \<Rightarrow> int \<Rightarrow> int \<Rightarrow> int \<Rightarrow> (inst \<times> string) js" where
  "inst_formatDay e i day month year =
     (if day = 0 then inst_formatDate e i
      else js_bind (inst_format e i (dp_get e i ''dateFormat'')
             (Some (daylightSavingAdjust (e_zone e) (new_date (e_zone e) year month day))))
             (\<lambda>s. Inr (i, s)))"

definition place_date :: "zone \<Rightarrow> int \<Rightarrow> inst \<Rightarrow> inst" where
  "place_date z date i =
     (select_date z date i)\<lparr>currentDay := get_date z date, currentMonth := get_month z date,
       currentYear := get_full_year z date\<rparr>"

text \<open>The change of month or year against the former selection is announced unless \<open>noChange\<close>.\<close>

definition announce :: "dp_env \<Rightarrow> inst \<Rightarrow> bool \<Rightarrow> inst \<Rightarrow> inst" where
  "announce e old noChange i =
     (if (selectedMonth old \<noteq> selectedMonth i \<or> selectedYear old \<noteq> selectedYear i) \<and> \<not> noChange
      then notifyChange e i else i)"

definition setDate :: "dp_env \<Rightarrow> inst \<Rightarrow> jsv \<Rightarrow> bool \<Rightarrow> inst js" where
  "setDate e i date noChange =
     js_bind (needed (determineDate e i date (Some (e_now e)))) (\<lambda>nd.
     js_bind (restrictMinMax e i nd) (\<lambda>newDate.
     js_bind (adjustInstDate e (announce e i noChange (place_date (e_zone e) newDate i)) 0 PNone) (\<lambda>i1.
       if \<not> truthy date then Inr (i1\<lparr>fieldVal := []\<rparr>)
       else js_bind (inst_formatDate e i1) (\<lambda>(i2, s). Inr (i2\<lparr>fieldVal := s\<rparr>)))))"

text \<open>Reading the field: a text that cannot be parsed leaves the default date selected, and counts
  as an empty field when the caller wants no default.\<close>

definition field_date :: "dp_env \<Rightarrow> inst \<Rightarrow> bool \<Rightarrow> int \<Rightarrow> (int \<times> string) js" where
  "field_date e i noDefault dflt =
     (case inst_parse e i (fieldVal i) of
        Inr (Some t) \<Rightarrow> Inr (t, fieldVal i)
      | Inr None \<Rightarrow> Inr (dflt, fieldVal i)
      | Inl (Throw _) \<Rightarrow> Inr (dflt, if noDefault then [] else fieldVal i)
      | Inl Diverge \<Rightarrow> Inl Diverge)"

definition setDateFromField :: "dp_env \<Rightarrow> inst \<Rightarrow> bool \<Rightarrow> inst js" where
  "setDateFromField e i noDefault =
     (if lastVal i = Some (fieldVal i) then Inr i
      else let i0 = i\<lparr>lastVal := Some (fieldVal i)\<rparr>; z = e_zone e
           in js_bind (getDefaultDate e i0) (\<lambda>dflt.
              js_bind (field_date e i0 noDefault dflt) (\<lambda>(date, dates).
                adjustInstDate e
                  ((select_date z date i0)
                     \<lparr>currentDay := (if dates \<noteq> [] then get_date z date else 0),
                      currentMonth := (if dates \<noteq> [] then get_month z date else 0),
                      currentYear := (if dates \<noteq> [] then get_full_year z date else 0)\<rparr>)
                  0 PNone)))"

text \<open>The alternate field is written on each change; its text is recorded as an event.\<close>

definition updateAlternate :: "dp_env \<Rightarrow> inst \<Rightarrow> inst js" where
  "updateAlternate e i =
     (if truthy (dp_get e i ''altField'') then
        js_bind (inst_format e i
            (if truthy (dp_get e i ''altFormat'') then dp_get e i ''altFormat'' else dp_get e i ''dateFormat'')
            (getDate e i))
          (\<lambda>s. Inr (i\<lparr>events := events i @ [AltField s]\<rparr>))
      else Inr i)"

definition getDateDatepicker :: "dp_env \<Rightarrow> inst \<Rightarrow> bool \<Rightarrow> (inst \<times> int option) js" where
  "getDateDatepicker e i noDefault =
     js_bind (if inline i then Inr i else setDateFromField e i noDefault) (\<lambda>i'. Inr (i', getDate e i'))"

section \<open>Which months can be shown\<close>

definition getNumberOfMonths :: "dp_env \<Rightarrow> inst \<Rightarrow> int \<times> int" where
  "getNumberOfMonths e i =
     (case dp_get e i ''numberOfMonths'' of JNum n \<Rightarrow> (1, n) | JNums r c \<Rightarrow> (r, c) | _ \<Rightarrow> (1, 1))"

definition split_colon :: "string \<Rightarrow> string \<times> string option" where
  "split_colon s =
     (let a = takeWhile (\<lambda>c. c \<noteq> CHR '':'') s; r = dropWhile (\<lambda>c. c \<noteq> CHR '':'') s
      in (a, if r = [] then None else Some (takeWhile (\<lambda>c. c \<noteq> CHR '':'') (tl r))))"

definition has_sign :: "string \<Rightarrow> bool" where
  "has_sign s \<longleftrightarrow> (\<exists>c \<in> set s. c = CHR ''+'' \<or> c = CHR ''-'')"

definition range_year :: "int \<Rightarrow> string \<Rightarrow> int option" where
  "range_year cur s =
     map_option (\<lambda>n. if has_sign s then n + cur else n) (js_parse_int s)"

definition year_bound :: "int option \<Rightarrow> (int \<Rightarrow> bool) \<Rightarrow> bool" where
  "year_bound y ok = (case y of None \<Rightarrow> True | Some n \<Rightarrow> n = 0 \<or> ok n)"

definition isInRange :: "dp_env \<Rightarrow> inst \<Rightarrow> int \<Rightarrow> bool js" where
  "isInRange e i date =
     js_bind (getMinMaxDate e i ''min'') (\<lambda>mn. js_bind (getMinMaxDate e i ''max'') (\<lambda>mx.
       let z = e_zone e; cur = get_full_year z (e_now e); years = dp_get e i ''yearRange'';
           in_dates = ((case mn of None \<Rightarrow> True | Some a \<Rightarrow> date \<ge> a) \<and>
                       (case mx of None \<Rightarrow> True | Some b \<Rightarrow> date \<le> b))
       in if \<not> truthy years then Inr in_dates
          else case years of
            JStr s \<Rightarrow> (case split_colon s of
               (_, None) \<Rightarrow> Inl (Throw ''TypeError'')
             | (a, Some b) \<Rightarrow> Inr (in_dates \<and>
                 year_bound (range_year cur a) (\<lambda>n. get_full_year z date \<ge> n) \<and>
                 year_bound (range_year cur b) (\<lambda>n. get_full_year z date \<le> n)))
          | _ \<Rightarrow> Inl (Throw ''TypeError'')))"

definition canAdjustMonth :: "dp_env \<Rightarrow> inst \<Rightarrow> int \<Rightarrow> int \<Rightarrow> int \<Rightarrow> bool js" where
  "canAdjustMonth e i offset curYear curMonth =
     (let z = e_zone e; (r, c) = getNumberOfMonths e i;
          date = daylightSavingAdjust z (new_date z curYear
                   (curMonth + (if offset < 0 then offset else r * c)) 1);
          date' = (if offset < 0
                   then set_date z date (getDaysInMonth z (get_full_year z date) (get_month z date))
                   else date)
      in isInRange e i date')"

end
