(* ===== verification/DP_Html.thy ===== *)
theory DP_Html
  imports DP_Inst
begin

text \<open>
  The HTML of the calendar: \<open>_generateHTML\<close> and \<open>_generateMonthYearHeader\<close> (jquery-ui.js). The
  strings are built as in the code; a cell of the grid is computed first as a record (its date,
  whether it belongs to another month, whether it can be selected) and then written out, so that
  the grid can be reasoned about apart from its markup.
\<close>

section \<open>Markup\<close>

definition attr :: "string \<Rightarrow> string \<Rightarrow> string" where
  "attr n v = '' '' @ n @ ''='' @ [CHR 39] @ v @ [CHR 39]"

definition open_tag :: "string \<Rightarrow> string list \<Rightarrow> string" where
  "open_tag t attrs = ''<'' @ t @ concat attrs @ ''>''"

definition elem :: "string \<Rightarrow> string list \<Rightarrow> string \<Rightarrow> string" where
  "elem t attrs body = open_tag t attrs @ body @ ''</'' @ t @ ''>''"

definition to_str :: "jsv \<Rightarrow> string" where
  "to_str v = (case v of JUndef \<Rightarrow> ''undefined'' | JNull \<Rightarrow> ''null'' | JBool b \<Rightarrow> if b then ''true'' else ''false''
     | JNum n \<Rightarrow> show_int n | JNaN \<Rightarrow> ''NaN'' | JStr s \<Rightarrow> s | _ \<Rightarrow> ''[object Object]'')"

definition names_of :: "jsv \<Rightarrow> string list" where
  "names_of v = or_default (strs_opt v) []"

definition num_of :: "jsv \<Rightarrow> int" where
  "num_of v = (case v of JNum n \<Rightarrow> n | _ \<Rightarrow> 0)"

definition nbsp :: string where
  "nbsp = ''&#xa0;''"

section \<open>The header of a month\<close>

definition month_options :: "zone \<Rightarrow> int \<Rightarrow> int \<Rightarrow> int option \<Rightarrow> int option \<Rightarrow> int list" where
  "month_options z drawM drawY minDate maxDate =
     [month \<leftarrow> [0..11].
        (case minDate of Some a \<Rightarrow> get_full_year z a = drawY \<longrightarrow> get_month z a \<le> month | None \<Rightarrow> True) \<and>
        (case maxDate of Some b \<Rightarrow> get_full_year z b = drawY \<longrightarrow> month \<le> get_month z b | None \<Rightarrow> True)]"

definition option_html :: "int \<Rightarrow> bool \<Rightarrow> string \<Rightarrow> string" where
  "option_html v sel label =
     elem ''option'' [attr ''value'' (show_int v), if sel then attr ''selected'' ''selected'' else []] label"

definition month_html :: "dp_env \<Rightarrow> inst \<Rightarrow> int \<Rightarrow> int \<Rightarrow> int option \<Rightarrow> int option \<Rightarrow> bool \<Rightarrow> string" where
  "month_html e i drawM drawY minDate maxDate secondary =
     (if secondary \<or> \<not> truthy (dp_get e i ''changeMonth'')
      then elem ''span'' [attr ''class'' ''ui-datepicker-month'']
             (name_at (names_of (dp_get e i ''monthNames'')) drawM)
      else elem ''select'' [attr ''class'' ''ui-datepicker-month'', attr ''data-handler'' ''selectMonth'',
               attr ''data-event'' ''change'']
             (concat (map (\<lambda>m. option_html m (m = drawM)
                (name_at (names_of (dp_get e i ''monthNamesShort'')) m))
              (month_options (e_zone e) drawM drawY minDate maxDate))))"

text \<open>The pattern \<open>/c[+\-].*/\<close> anywhere in the text.\<close>

fun has_c_sign :: "string \<Rightarrow> bool" where
  "has_c_sign (a # b # s) = (a = CHR ''c'' \<and> (b = CHR ''+'' \<or> b = CHR ''-'') \<or> has_c_sign (b # s))"
| "has_c_sign s = False"

definition determineYear :: "int \<Rightarrow> int \<Rightarrow> string \<Rightarrow> int" where
  "determineYear thisYear drawY v =
     (case (if has_c_sign v then map_option (\<lambda>n. drawY + n) (js_parse_int (tl v))
            else if has_sign v then map_option (\<lambda>n. thisYear + n) (js_parse_int v)
            else js_parse_int v) of
        None \<Rightarrow> thisYear | Some y \<Rightarrow> y)"

definition year_limits :: "dp_env \<Rightarrow> string \<Rightarrow> int \<Rightarrow> int option \<Rightarrow> int option \<Rightarrow> int \<times> int" where
  "year_limits e years drawY minDate maxDate =
     (let z = e_zone e; this = get_full_year z (e_now e); (a, b) = split_colon years;
          year = determineYear this drawY a;
          endYear = max year (determineYear this drawY (case b of None \<Rightarrow> [] | Some s \<Rightarrow> s))
      in (case minDate of Some t \<Rightarrow> max year (get_full_year z t) | None \<Rightarrow> year,
          case maxDate of Some t \<Rightarrow> min endYear (get_full_year z t) | None \<Rightarrow> endYear))"

definition year_html :: "dp_env \<Rightarrow> inst \<Rightarrow> int \<Rightarrow> int option \<Rightarrow> int option \<Rightarrow> bool \<Rightarrow> string js" where
  "year_html e i drawY minDate maxDate secondary =
     (if yearshtml i \<noteq> [] then Inr []
      else if secondary \<or> \<not> truthy (dp_get e i ''changeYear'')
      then Inr (elem ''span'' [attr ''class'' ''ui-datepicker-year''] (show_int drawY))
      else case dp_get e i ''yearRange'' of
        JStr years \<Rightarrow>
          (let (year, endYear) = year_limits e years drawY minDate maxDate
           in Inr (elem ''select'' [attr ''class'' ''ui-datepicker-year'', attr ''data-handler'' ''selectYear'',
                attr ''data-event'' ''change'']
                (concat (map (\<lambda>y. option_html y (y = drawY) (show_int y)) [year..endYear]))))
      | _ \<Rightarrow> Inl (Throw ''TypeError''))"

text \<open>The header leaves \<open>yearshtml\<close> empty: the select is written out at once and the field reset to null.\<close>

definition generateMonthYearHeader :: "dp_env \<Rightarrow> inst \<Rightarrow> int \<Rightarrow> int \<Rightarrow> int option \<Rightarrow> int option \<Rightarrow> bool
    \<Rightarrow> (inst \<times> string) js" where
  "generateMonthYearHeader e i drawM drawY minDate maxDate secondary =
     (let after = truthy (dp_get e i ''showMonthAfterYear'');
          monthHtml = month_html e i drawM drawY minDate maxDate secondary;
          gap = (if secondary \<or> \<not> (truthy (dp_get e i ''changeMonth'') \<and> truthy (dp_get e i ''changeYear''))
                 then nbsp else [])
      in js_bind (year_html e i drawY minDate maxDate secondary) (\<lambda>y.
           Inr (if yearshtml i \<noteq> [] then i else i\<lparr>yearshtml := []\<rparr>,
                elem ''div'' [attr ''class'' ''ui-datepicker-title'']
                  ((if after then [] else monthHtml @ gap) @ y @ to_str (dp_get e i ''yearSuffix'')
                   @ (if after then gap @ monthHtml else [])))))"

section \<open>The cells of the grid\<close>

record grid =
  g_firstDay :: int
  g_drawMonth :: int
  g_min :: "int option"
  g_max :: "int option"
  g_selectedDate :: int
  g_currentDate :: int
  g_today :: int
  g_defaultDate :: int

record cell =
  c_date :: int
  c_dow :: int
  c_other :: bool
  c_unselectable :: bool
  c_class :: string
  c_title :: string

definition day_settings :: "dp_env \<Rightarrow> inst \<Rightarrow> int \<Rightarrow> bool \<times> string \<times> string" where
  "day_settings e i t =
     (case dp_get e i ''beforeShowDay'' of
        JFun f \<Rightarrow> (if f = ''noWeekends'' then (fst (noWeekends (e_zone e) t), snd (noWeekends (e_zone e) t), [])
                   else e_beforeShowDay e f t)
      | _ \<Rightarrow> (True, [], []))"

definition day_cell :: "dp_env \<Rightarrow> inst \<Rightarrow> grid \<Rightarrow> int \<Rightarrow> int \<Rightarrow> cell" where
  "day_cell e i g dow printDate =
     (let (ok, cls, title) = day_settings e i printDate;
          otherMonth = (get_month (e_zone e) printDate \<noteq> g_drawMonth g)
      in \<lparr>c_date = printDate, c_dow = dow, c_other = otherMonth,
          c_unselectable = (otherMonth \<and> \<not> truthy (dp_get e i ''selectOtherMonths'') \<or> \<not> ok \<or>
            (case g_min g of Some a \<Rightarrow> printDate < a | None \<Rightarrow> False) \<or>
            (case g_max g of Some b \<Rightarrow> printDate > b | None \<Rightarrow> False)),
          c_class = cls, c_title = title\<rparr>)"

definition next_print :: "zone \<Rightarrow> int \<Rightarrow> int" where
  "next_print z t = daylightSavingAdjust z (set_date z t (get_date z t + 1))"

fun week_cells :: "dp_env \<Rightarrow> inst \<Rightarrow> grid \<Rightarrow> nat \<Rightarrow> int \<Rightarrow> int \<Rightarrow> cell list" where
  "week_cells e i g 0 dow t = []"
| "week_cells e i g (Suc n) dow t =
     day_cell e i g dow t # week_cells e i g n (dow + 1) (next_print (e_zone e) t)"

fun after_days :: "zone \<Rightarrow> nat \<Rightarrow> int \<Rightarrow> int" where
  "after_days z 0 t = t"
| "after_days z (Suc n) t = after_days z n (next_print z t)"

fun grid_weeks :: "dp_env \<Rightarrow> inst \<Rightarrow> grid \<Rightarrow> nat \<Rightarrow> int \<Rightarrow> (int \<times> cell list) list" where
  "grid_weeks e i g 0 t = []"
| "grid_weeks e i g (Suc n) t =
     (t, week_cells e i g 7 0 t) # grid_weeks e i g n (after_days (e_zone e) 7 t)"

definition lead_days :: "zone \<Rightarrow> int \<Rightarrow> int \<Rightarrow> int \<Rightarrow> int" where
  "lead_days z firstDay drawY drawM = js_mod (getFirstDayOfMonth z drawY drawM - firstDay + 7) 7"

text \<open>\<open>Math.ceil (n / 7)\<close>.\<close>

definition ceil_div7 :: "int \<Rightarrow> int" where
  "ceil_div7 n = - ((- n) div 7)"

definition cur_rows :: "zone \<Rightarrow> int \<Rightarrow> int \<Rightarrow> int \<Rightarrow> int" where
  "cur_rows z firstDay drawY drawM = ceil_div7 (lead_days z firstDay drawY drawM + getDaysInMonth z drawY drawM)"

definition first_print :: "zone \<Rightarrow> int \<Rightarrow> int \<Rightarrow> int \<Rightarrow> int" where
  "first_print z firstDay drawY drawM =
     daylightSavingAdjust z (new_date z drawY drawM (1 - lead_days z firstDay drawY drawM))"

section \<open>Writing the grid\<close>

definition is_weekend :: "int \<Rightarrow> int \<Rightarrow> bool" where
  "is_weekend firstDay dow \<longleftrightarrow> js_mod (dow + firstDay + 6) 7 \<ge> 5"

definition escape_quotes :: "string \<Rightarrow> string" where
  "escape_quotes s = concat (map (\<lambda>c. if c = CHR 39 then ''&#39;'' else [c]) s)"

definition day_over :: "inst \<Rightarrow> grid \<Rightarrow> int \<Rightarrow> bool" where
  "day_over i g t \<longleftrightarrow>
     (t = g_selectedDate g \<and> g_drawMonth g = selectedMonth i \<and> keyEvent i) \<or>
     (g_defaultDate g = t \<and> g_defaultDate g = g_selectedDate g)"

definition cell_class :: "dp_env \<Rightarrow> inst \<Rightarrow> grid \<Rightarrow> cell \<Rightarrow> string" where
  "cell_class e i g c =
     (if is_weekend (g_firstDay g) (c_dow c) then '' ui-datepicker-week-end'' else []) @
     (if c_other c then '' ui-datepicker-other-month'' else []) @
     (if day_over i g (c_date c) then '' ui-datepicker-days-cell-over'' else []) @
     (if c_unselectable c then '' ui-datepicker-unselectable ui-state-disabled'' else []) @
     (if c_other c \<and> \<not> truthy (dp_get e i ''showOtherMonths'') then []
      else '' '' @ c_class c @
        (if c_date c = g_currentDate g then '' ui-datepicker-current-day'' else []) @
        (if c_date c = g_today g then '' ui-datepicker-today'' else []))"

definition cell_html :: "dp_env \<Rightarrow> inst \<Rightarrow> grid \<Rightarrow> cell \<Rightarrow> string" where
  "cell_html e i g c =
     (let z = e_zone e; t = c_date c; showOther = truthy (dp_get e i ''showOtherMonths'')
      in elem ''td''
        [attr ''class'' (cell_class e i g c),
         if (\<not> c_other c \<or> showOther) \<and> c_title c \<noteq> [] then attr ''title'' (escape_quotes (c_title c)) else [],
         if c_unselectable c then []
         else attr ''data-handler'' ''selectDay'' @ attr ''data-event'' ''click'' @
              attr ''data-month'' (show_int (get_month z t)) @ attr ''data-year'' (show_int (get_full_year z t))]
        (if c_other c \<and> \<not> showOther then nbsp
         else if c_unselectable c then elem ''span'' [attr ''class'' ''ui-state-default''] (show_int (get_date z t))
         else elem ''a'' [attr ''class'' (''ui-state-default'' @
                  (if t = g_today g then '' ui-state-highlight'' else []) @
                  (if t = g_currentDate g then '' ui-state-active'' else []) @
                  (if c_other c then '' ui-priority-secondary'' else [])), attr ''href'' ''#'']
                (show_int (get_date z t))))"

definition week_text :: "dp_env \<Rightarrow> inst \<Rightarrow> int \<Rightarrow> string" where
  "week_text e i t =
     (case dp_get e i ''calculateWeek'' of
        JFun f \<Rightarrow> if f = ''iso8601Week'' then show_int (iso8601Week (e_zone e) t) else e_calculateWeek e f t
      | _ \<Rightarrow> [])"

definition week_html :: "dp_env \<Rightarrow> inst \<Rightarrow> grid \<Rightarrow> int \<times> cell list \<Rightarrow> string" where
  "week_html e i g w =
     elem ''tr'' []
       ((if truthy (dp_get e i ''showWeek'')
         then elem ''td'' [attr ''class'' ''ui-datepicker-week-col''] (week_text e i (fst w)) else [])
        @ concat (map (cell_html e i g) (snd w)))"

definition thead_html :: "dp_env \<Rightarrow> inst \<Rightarrow> int \<Rightarrow> string" where
  "thead_html e i firstDay =
     (if truthy (dp_get e i ''showWeek'')
      then elem ''th'' [attr ''class'' ''ui-datepicker-week-col''] (to_str (dp_get e i ''weekHeader'')) else [])
     @ concat (map (\<lambda>dow. let day = js_mod (dow + firstDay) 7 in
         elem ''th'' [attr ''scope'' ''col'',
             if is_weekend firstDay dow then attr ''class'' ''ui-datepicker-week-end'' else []]
           (elem ''span'' [attr ''title'' (name_at (names_of (dp_get e i ''dayNames'')) day)]
             (name_at (names_of (dp_get e i ''dayNamesMin'')) day))) [0..6])"

section \<open>The months of the calendar\<close>

text \<open>The loop that moves the drawn month back until its first day is not after the last month that
  can be shown.\<close>

definition prev_month :: "int \<times> int \<Rightarrow> int \<times> int" where
  "prev_month ym = (case ym of (y, m) \<Rightarrow> if m - 1 < 0 then (y - 1, 11) else (y, m - 1))"

definition next_month :: "int \<times> int \<Rightarrow> int \<times> int" where
  "next_month ym = (case ym of (y, m) \<Rightarrow> if m + 1 > 11 then (y + 1, 0) else (y, m + 1))"

partial_function (option) back_to :: "zone \<Rightarrow> int \<Rightarrow> int \<times> int \<Rightarrow> (int \<times> int) option" where
  [code]: "back_to z maxDraw ym =
     (if daylightSavingAdjust z (new_date z (fst ym) (snd ym) 1) > maxDraw
      then back_to z maxDraw (prev_month ym) else Some ym)"

definition max_draw :: "zone \<Rightarrow> int \<times> int \<Rightarrow> int option \<Rightarrow> int \<Rightarrow> int" where
  "max_draw z nm minDate b =
     (let m = daylightSavingAdjust z (new_date z (get_full_year z b)
                (get_month z b - fst nm * snd nm + 1) (get_date z b))
      in case minDate of Some a \<Rightarrow> if m < a then a else m | None \<Rightarrow> m)"

definition draw_start :: "dp_env \<Rightarrow> inst \<Rightarrow> int option \<Rightarrow> int option \<Rightarrow> (int \<times> int) js" where
  "draw_start e i minDate maxDate =
     (let z = e_zone e;
          m = drawMonth i - num_of (dp_get e i ''showCurrentAtPos'');
          ym = (if m < 0 then (drawYear i - 1, m + 12) else (drawYear i, m))
      in case maxDate of None \<Rightarrow> Inr ym
         | Some b \<Rightarrow> (case back_to z (max_draw z (getNumberOfMonths e i) minDate b) ym of
             None \<Rightarrow> Inl Diverge | Some ym' \<Rightarrow> Inr ym'))"

record draw =
  d_inst :: inst
  d_ym :: "int \<times> int"
  d_maxRows :: int

definition corner_class :: "bool \<Rightarrow> int \<times> int \<Rightarrow> int \<Rightarrow> string" where
  "corner_class rtl nm col =
     (if nm \<noteq> (1, 1) \<and> snd nm > 1 then
        if col = 0 then (if rtl then '' ui-corner-right'' else '' ui-corner-left'')
        else if col = snd nm - 1 then (if rtl then '' ui-corner-left'' else '' ui-corner-right'')
        else []
      else '' ui-corner-all'')"

definition group_class :: "int \<times> int \<Rightarrow> int \<Rightarrow> string" where
  "group_class nm col =
     (if snd nm > 1 then
        if col = 0 then '' ui-datepicker-group-first''
        else if col = snd nm - 1 then '' ui-datepicker-group-last'' else '' ui-datepicker-group-middle''
      else [])"

record nav =
  n_prev :: string
  n_next :: string

text \<open>The tests \<open>/all|left/\<close> and \<open>/all|right/\<close> on the corner class.\<close>

definition header_links :: "bool \<Rightarrow> nav \<Rightarrow> string \<Rightarrow> int \<Rightarrow> string" where
  "header_links rtl n corner row =
     (if row = 0 \<and> (corner = '' ui-corner-all'' \<or> corner = '' ui-corner-left'')
      then (if rtl then n_next n else n_prev n) else []) @
     (if row = 0 \<and> (corner = '' ui-corner-all'' \<or> corner = '' ui-corner-right'')
      then (if rtl then n_prev n else n_next n) else [])"

definition month_grid :: "dp_env \<Rightarrow> inst \<Rightarrow> int option \<Rightarrow> int option \<Rightarrow> int \<Rightarrow> int \<Rightarrow> int \<Rightarrow> int \<Rightarrow> int
    \<Rightarrow> grid" where
  "month_grid e i minDate maxDate firstDay drawM selectedDate today dflt =
     (let z = e_zone e in
      \<lparr>g_firstDay = firstDay, g_drawMonth = drawM, g_min = minDate, g_max = maxDate,
       g_selectedDate = selectedDate,
       g_currentDate = daylightSavingAdjust z (if currentDay i = 0 then new_date z 9999 9 9
          else new_date z (currentYear i) (currentMonth i) (currentDay i)),
       g_today = today, g_defaultDate = dflt\<rparr>)"

definition num_rows :: "bool \<Rightarrow> int \<Rightarrow> int \<Rightarrow> int" where
  "num_rows multi maxRows cur = (if multi then (if maxRows > cur then maxRows else cur) else cur)"

text \<open>One month: its group, header, table and, at the end of a row of months, the row break.\<close>

definition draw_month :: "dp_env \<Rightarrow> int option \<Rightarrow> int option \<Rightarrow> int \<Rightarrow> int \<Rightarrow> int \<Rightarrow> nav \<Rightarrow> int \<Rightarrow> int \<Rightarrow> draw
    \<Rightarrow> (draw \<times> string) js" where
  "draw_month e minDate maxDate firstDay today dflt n row col d =
     (let z = e_zone e; i = d_inst d; (drawY, drawM) = d_ym d; nm = getNumberOfMonths e i;
          multi = (nm \<noteq> (1, 1)); rtl = truthy (dp_get e i ''isRTL'');
          selectedDate = daylightSavingAdjust z (new_date z drawY drawM (selectedDay i));
          corner = corner_class rtl nm col
      in js_bind (generateMonthYearHeader e i drawM drawY minDate maxDate (row > 0 \<or> col > 0))
         (\<lambda>(i1, header).
           let dim = getDaysInMonth z drawY drawM;
               i2 = (if drawY = selectedYear i1 \<and> drawM = selectedMonth i1
                     then i1\<lparr>selectedDay := min (selectedDay i1) dim\<rparr> else i1);
               rows = num_rows multi (d_maxRows d) (cur_rows z firstDay drawY drawM);
               g = month_grid e i2 minDate maxDate firstDay drawM selectedDate today dflt;
               weeks = grid_weeks e i2 g (nat rows) (first_print z firstDay drawY drawM)
           in Inr (\<lparr>d_inst = i2, d_ym = next_month (drawY, drawM), d_maxRows = rows\<rparr>,
             (if multi then open_tag ''div'' [attr ''class'' (''ui-datepicker-group'' @ group_class nm col)] else [])
             @ elem ''div'' [attr ''class'' (''ui-datepicker-header ui-widget-header ui-helper-clearfix'' @ corner)]
                 (header_links rtl n corner row @ header)
             @ elem ''table'' [attr ''class'' ''ui-datepicker-calendar'']
                 (elem ''thead'' [] (elem ''tr'' [] (thead_html e i2 firstDay))
                  @ elem ''tbody'' [] (concat (map (week_html e i2 g) weeks)))
             @ (if multi then ''</div>'' @
                  (if fst nm > 0 \<and> col = snd nm - 1
                   then elem ''div'' [attr ''class'' ''ui-datepicker-row-break''] [] else [])
                else []))))"

fun draw_all :: "(int \<Rightarrow> int \<Rightarrow> draw \<Rightarrow> (draw \<times> string) js) \<Rightarrow> (int \<times> int) list \<Rightarrow> draw \<Rightarrow> (draw \<times> string) js" where
  "draw_all f [] d = Inr (d, [])"
| "draw_all f ((row, col) # ps) d =
     js_bind (f row col (if col = 0 then d\<lparr>d_maxRows := 4\<rparr> else d)) (\<lambda>(d1, s).
       js_bind (draw_all f ps d1) (\<lambda>(d2, t). Inr (d2, s @ t)))"

definition positions :: "int \<times> int \<Rightarrow> (int \<times> int) list" where
  "positions nm = concat (map (\<lambda>row. map (\<lambda>col. (row, col)) [0..snd nm - 1]) [0..fst nm - 1])"

section \<open>Links and buttons\<close>

definition nav_text :: "dp_env \<Rightarrow> inst \<Rightarrow> jsv \<Rightarrow> int \<Rightarrow> string js" where
  "nav_text e i v date =
     (if truthy (dp_get e i ''navigationAsDateFormat'') then inst_format e i v (Some date)
      else Inr (to_str v))"

definition nav_link :: "dp_env \<Rightarrow> inst \<Rightarrow> bool \<Rightarrow> string \<Rightarrow> string \<Rightarrow> string \<Rightarrow> string" where
  "nav_link e i can which icon txt =
     (let body = elem ''span'' [attr ''class'' (''ui-icon ui-icon-circle-triangle-'' @ icon)] txt
      in if can then
           elem ''a'' [attr ''class'' (''ui-datepicker-'' @ which @ '' ui-corner-all''),
             attr ''data-handler'' which, attr ''data-event'' ''click'', attr ''title'' txt] body
         else if truthy (dp_get e i ''hideIfNoPrevNext'') then []
         else elem ''a'' [attr ''class'' (''ui-datepicker-'' @ which @ '' ui-corner-all ui-state-disabled''),
             attr ''title'' txt] body)"

definition nav_links :: "dp_env \<Rightarrow> inst \<Rightarrow> int \<times> int \<Rightarrow> nav js" where
  "nav_links e i ym =
     (let z = e_zone e; (y, m) = ym; step = num_of (dp_get e i ''stepMonths'');
          rtl = truthy (dp_get e i ''isRTL'')
      in js_bind (nav_text e i (dp_get e i ''prevText'')
                   (daylightSavingAdjust z (new_date z y (m - step) 1))) (\<lambda>pt.
         js_bind (canAdjustMonth e i (-1) y m) (\<lambda>cp.
         js_bind (nav_text e i (dp_get e i ''nextText'')
                   (daylightSavingAdjust z (new_date z y (m + step) 1))) (\<lambda>nt.
         js_bind (canAdjustMonth e i 1 y m) (\<lambda>cn.
           Inr \<lparr>n_prev = nav_link e i cp ''prev'' (if rtl then ''e'' else ''w'') pt,
                n_next = nav_link e i cn ''next'' (if rtl then ''w'' else ''e'') nt\<rparr>)))))"

definition button_panel :: "dp_env \<Rightarrow> inst \<Rightarrow> int \<Rightarrow> int \<Rightarrow> string js" where
  "button_panel e i currentDate today =
     (let rtl = truthy (dp_get e i ''isRTL'');
          gotoDate = (if truthy (dp_get e i ''gotoCurrent'') \<and> currentDay i \<noteq> 0 then currentDate else today);
          controls = (if inline i then [] else elem ''button'' [attr ''type'' ''button'',
             attr ''class'' ''ui-datepicker-close ui-state-default ui-priority-primary ui-corner-all'',
             attr ''data-handler'' ''hide'', attr ''data-event'' ''click''] (to_str (dp_get e i ''closeText'')))
      in js_bind (nav_text e i (dp_get e i ''currentText'') gotoDate) (\<lambda>currentText.
         if truthy (dp_get e i ''showButtonPanel'') then
           js_bind (isInRange e i gotoDate) (\<lambda>ok.
             Inr (elem ''div'' [attr ''class'' ''ui-datepicker-buttonpane ui-widget-content'']
               ((if rtl then controls else []) @
                (if ok then elem ''button'' [attr ''type'' ''button'',
                   attr ''class'' ''ui-datepicker-current ui-state-default ui-priority-secondary ui-corner-all'',
                   attr ''data-handler'' ''today'', attr ''data-event'' ''click''] currentText else []) @
                (if rtl then [] else controls))))
         else Inr []))"

definition first_day :: "dp_env \<Rightarrow> inst \<Rightarrow> int" where
  "first_day e i =
     (case dp_get e i ''firstDay'' of
        JNum n \<Rightarrow> n
      | JStr s \<Rightarrow> (case js_parse_int s of Some n \<Rightarrow> n | None \<Rightarrow> 0)
      | _ \<Rightarrow> 0)"

definition generateHTML :: "dp_env \<Rightarrow> inst \<Rightarrow> (inst \<times> string) js" where
  "generateHTML e i =
     (let z = e_zone e; now = e_now e;
          today = daylightSavingAdjust z (new_date z (get_full_year z now) (get_month z now) (get_date z now));
          currentDate = daylightSavingAdjust z (if currentDay i = 0 then new_date z 9999 9 9
            else new_date z (currentYear i) (currentMonth i) (currentDay i))
      in js_bind (getMinMaxDate e i ''min'') (\<lambda>minDate.
         js_bind (getMinMaxDate e i ''max'') (\<lambda>maxDate.
         js_bind (draw_start e i minDate maxDate) (\<lambda>ym.
           let i1 = i\<lparr>drawMonth := snd ym, drawYear := fst ym\<rparr>
           in js_bind (nav_links e i1 ym) (\<lambda>n.
              js_bind (button_panel e i1 currentDate today) (\<lambda>panel.
              js_bind (getDefaultDate e i1) (\<lambda>dflt.
              js_bind (draw_all (draw_month e minDate maxDate (first_day e i1) today dflt n)
                         (positions (getNumberOfMonths e i1)) \<lparr>d_inst = i1, d_ym = ym, d_maxRows = 4\<rparr>)
                (\<lambda>(d, html). Inr ((d_inst d)\<lparr>keyEvent := False\<rparr>, html @ panel)))))))))"

end
