(* ===== verification/DP_Manager.thy ===== *)
theory DP_Manager
  imports DP_Html
begin

text \<open>
  The date picker manager (jquery-ui.js, the singleton \<open>$.datepicker\<close>): which instance is open,
  which inputs are disabled, and the handlers of the keyboard and of the calendar. Elements are
  named by their id. The manager keeps the instances (\<open>$.data\<close>), what it has attached to each
  element, and the presentation divisions: one shared by all popups, one for each inline calendar.
  A missing instance is the TypeError the code runs into; an exception ends the operation, and the
  state it leaves behind is modelled only where the code catches it (\<open>_doKeyUp\<close>). The page's callbacks are recorded in the
  instance's events.
\<close>

section \<open>State\<close>

datatype trigger = TrigImg jsv jsv | TrigButton jsv | TrigButtonImg jsv jsv

record elem_st =
  el_node :: string
  el_marker :: bool
  el_disabled :: bool
  el_keys :: bool
  el_focus :: bool
  el_before :: bool
  el_append :: "string option"
  el_trigger :: "trigger option"
  el_trig_disabled :: bool
  el_inline_disabled :: bool
  el_size :: "int option"

record div_st =
  dv_html :: string
  dv_cols :: int
  dv_multi :: bool
  dv_rtl :: bool
  dv_dialog :: bool
  dv_left :: int
  dv_top :: int

record mgr =
  insts :: "string \<rightharpoonup> inst"
  elems :: "string \<rightharpoonup> elem_st"
  divs :: "string \<Rightarrow> div_st"
  curInst :: "string option"
  lastInput :: "string option"
  showing :: bool
  inDialog :: bool
  disabledInputs :: "string list"

definition throw_type :: "'a js" where
  "throw_type = Inl (Throw ''TypeError'')"

definition with_inst :: "mgr \<Rightarrow> string \<Rightarrow> (inst \<Rightarrow> 'a js) \<Rightarrow> 'a js" where
  "with_inst M x k = (case insts M x of None \<Rightarrow> throw_type | Some i \<Rightarrow> k i)"

definition put_inst :: "string \<Rightarrow> inst \<Rightarrow> mgr \<Rightarrow> mgr" where
  "put_inst x i M = M\<lparr>insts := (insts M)(x \<mapsto> i)\<rparr>"

definition put_elem :: "string \<Rightarrow> elem_st \<Rightarrow> mgr \<Rightarrow> mgr" where
  "put_elem x el M = M\<lparr>elems := (elems M)(x \<mapsto> el)\<rparr>"

definition has_marker :: "mgr \<Rightarrow> string \<Rightarrow> bool" where
  "has_marker M x = (case elems M x of None \<Rightarrow> False | Some el \<Rightarrow> el_marker el)"

definition mainDivId :: string where
  "mainDivId = ''ui-datepicker-div''"

definition div_key :: "string \<Rightarrow> inst \<Rightarrow> string" where
  "div_key x i = (if inline i then x else mainDivId)"

section \<open>Disabled inputs\<close>

definition isDisabledDatepicker :: "mgr \<Rightarrow> string \<Rightarrow> bool" where
  "isDisabledDatepicker M x \<longleftrightarrow> x \<in> set (disabledInputs M)"

definition without :: "string \<Rightarrow> string list \<Rightarrow> string list" where
  "without x xs = [v \<leftarrow> xs. v \<noteq> x]"

definition set_disabled :: "bool \<Rightarrow> elem_st \<Rightarrow> elem_st" where
  "set_disabled b el =
     (if to_lower (el_node el) = ''input''
      then el\<lparr>el_disabled := b, el_trig_disabled := (el_trigger el \<noteq> None \<and> b)\<rparr>
      else if to_lower (el_node el) = ''div'' \<or> to_lower (el_node el) = ''span''
      then el\<lparr>el_inline_disabled := b\<rparr> else el)"

definition enableDatepicker :: "string \<Rightarrow> mgr \<Rightarrow> mgr" where
  "enableDatepicker x M =
     (if \<not> has_marker M x then M
      else M\<lparr>elems := (elems M)(x \<mapsto> set_disabled False (the (elems M x))),
             disabledInputs := without x (disabledInputs M)\<rparr>)"

definition disableDatepicker :: "string \<Rightarrow> mgr \<Rightarrow> mgr" where
  "disableDatepicker x M =
     (if \<not> has_marker M x then M
      else M\<lparr>elems := (elems M)(x \<mapsto> set_disabled True (the (elems M x))),
             disabledInputs := without x (disabledInputs M) @ [x]\<rparr>)"

section \<open>Drawing and hiding\<close>

definition draw_div :: "dp_env \<Rightarrow> inst \<Rightarrow> string \<Rightarrow> div_st \<Rightarrow> div_st" where
  "draw_div e i html d =
     (let nm = getNumberOfMonths e i
      in d\<lparr>dv_html := html, dv_cols := (if snd nm > 1 then snd nm else 1),
           dv_multi := (fst nm \<noteq> 1 \<or> snd nm \<noteq> 1), dv_rtl := truthy (dp_get e i ''isRTL'')\<rparr>)"

definition updateDatepicker :: "dp_env \<Rightarrow> string \<Rightarrow> inst \<Rightarrow> mgr \<Rightarrow> mgr js" where
  "updateDatepicker e x i M =
     js_bind (generateHTML e i) (\<lambda>(i', html).
       Inr (put_inst x i' M\<lparr>divs := (divs M)(div_key x i' := draw_div e i' html (divs M (div_key x i')))\<rparr>))"

definition refreshDatepicker :: "dp_env \<Rightarrow> string \<Rightarrow> mgr \<Rightarrow> mgr js" where
  "refreshDatepicker e x M = (case insts M x of None \<Rightarrow> Inr M | Some i \<Rightarrow> updateDatepicker e x i M)"

definition tidyDialog :: "string \<Rightarrow> mgr \<Rightarrow> mgr" where
  "tidyDialog k M = M\<lparr>divs := (divs M)(k := (divs M k)\<lparr>dv_dialog := False\<rparr>)\<rparr>"

text \<open>Hiding: the animation's callback \<open>_tidyDialog\<close> is taken as run when the hide has been requested.\<close>

definition hideDatepicker :: "dp_env \<Rightarrow> string option \<Rightarrow> mgr \<Rightarrow> mgr" where
  "hideDatepicker e inp M =
     (case curInst M of None \<Rightarrow> M
      | Some c \<Rightarrow>
         (case insts M c of None \<Rightarrow> M
          | Some i \<Rightarrow>
             if (case inp of None \<Rightarrow> False | Some y \<Rightarrow> y \<noteq> c \<or> y = []) \<or> \<not> showing M then M
             else
               (let i' = (if truthy (dp_get e i ''onClose'') then i\<lparr>events := events i @ [Closed (fieldVal i)]\<rparr> else i)
                in (put_inst c i' (tidyDialog (div_key c i) M))\<lparr>showing := False, lastInput := None, inDialog := False\<rparr>)))"

section \<open>The handlers of the calendar\<close>

definition adjustDate :: "dp_env \<Rightarrow> string \<Rightarrow> int \<Rightarrow> period \<Rightarrow> mgr \<Rightarrow> mgr js" where
  "adjustDate e x offset period M =
     (if isDisabledDatepicker M x then Inr M
      else with_inst M x (\<lambda>i.
        js_bind (adjustInstDate e i
            (offset + (if period = PMonth then num_of (dp_get e i ''showCurrentAtPos'') else 0)) period)
          (\<lambda>i'. updateDatepicker e x i' M)))"

definition gotoToday :: "dp_env \<Rightarrow> string \<Rightarrow> mgr \<Rightarrow> mgr js" where
  "gotoToday e x M =
     with_inst M x (\<lambda>i.
       let i' = (if truthy (dp_get e i ''gotoCurrent'') \<and> currentDay i \<noteq> 0
           then i\<lparr>selectedDay := currentDay i, drawMonth := currentMonth i, selectedMonth := currentMonth i,
                  drawYear := currentYear i, selectedYear := currentYear i\<rparr>
           else select_date (e_zone e) (e_now e) i)
       in adjustDate e x 0 PNone (put_inst x (notifyChange e i') M))"

definition selectMonthYear :: "dp_env \<Rightarrow> string \<Rightarrow> int \<Rightarrow> period \<Rightarrow> mgr \<Rightarrow> mgr js" where
  "selectMonthYear e x v period M =
     with_inst M x (\<lambda>i.
       let i' = (if period = PMonth then i\<lparr>selectedMonth := v, drawMonth := v\<rparr>
                 else i\<lparr>selectedYear := v, drawYear := v\<rparr>)
       in adjustDate e x 0 PNone (put_inst x (notifyChange e i') M))"

definition selectDate :: "dp_env \<Rightarrow> string \<Rightarrow> string option \<Rightarrow> mgr \<Rightarrow> mgr js" where
  "selectDate e x dateStr M =
     with_inst M x (\<lambda>i.
       js_bind (case dateStr of Some s \<Rightarrow> Inr (i, s) | None \<Rightarrow> inst_formatDate e i) (\<lambda>(i0, s).
       js_bind (updateAlternate e (i0\<lparr>fieldVal := s\<rparr>)) (\<lambda>i1.
         let i2 = i1\<lparr>events := events i1 @
                     [if truthy (dp_get e i1 ''onSelect'') then Selected s else InputChange]\<rparr>
         in if inline i2 then updateDatepicker e x i2 M
            else Inr ((hideDatepicker e None (put_inst x i2 M))\<lparr>lastInput := None\<rparr>))))"

definition clearDate :: "dp_env \<Rightarrow> string \<Rightarrow> mgr \<Rightarrow> mgr js" where
  "clearDate e x M = selectDate e x (Some []) M"

text \<open>The cell that is clicked, or chosen by the return key: the day it shows, and whether it has the
  class of the unselectable cells.\<close>

record td =
  td_unselectable :: bool
  td_day :: int

definition selectDay :: "dp_env \<Rightarrow> string \<Rightarrow> int \<Rightarrow> int \<Rightarrow> td \<Rightarrow> mgr \<Rightarrow> mgr js" where
  "selectDay e x month year c M =
     (if td_unselectable c \<or> isDisabledDatepicker M x then Inr M
      else with_inst M x (\<lambda>i.
        let i' = i\<lparr>selectedDay := td_day c, currentDay := td_day c, selectedMonth := month,
                   currentMonth := month, selectedYear := year, currentYear := year\<rparr>
        in js_bind (inst_formatDay e i' (td_day c) month year) (\<lambda>(i'', s).
             selectDate e x (Some s) (put_inst x i'' M))))"

definition setDateDatepicker :: "dp_env \<Rightarrow> string \<Rightarrow> jsv \<Rightarrow> mgr \<Rightarrow> mgr js" where
  "setDateDatepicker e x date M =
     (case insts M x of None \<Rightarrow> Inr M
      | Some i \<Rightarrow>
          js_bind (setDate e i date False) (\<lambda>i1.
          js_bind (updateDatepicker e x i1 M) (\<lambda>M1.
          with_inst M1 x (\<lambda>i2. js_bind (updateAlternate e i2) (\<lambda>i3. Inr (put_inst x i3 M1))))))"

section \<open>Attaching\<close>

text \<open>\<open>id.replace(/([^A-Za-z0-9_\-])/g, "\\\\$1")\<close>: two backslashes before each other character.\<close>

definition id_char :: "char \<Rightarrow> bool" where
  "id_char c \<longleftrightarrow> (let n = (of_char c :: int) in 65 \<le> n \<and> n \<le> 90 \<or> 97 \<le> n \<and> n \<le> 122 \<or> is_digit c
     \<or> c = CHR ''_'' \<or> c = CHR ''-'')"

definition escape_id :: "string \<Rightarrow> string" where
  "escape_id s = concat (map (\<lambda>c. if id_char c then [c] else [CHR 92, CHR 92, c]) s)"

definition attachments :: "dp_env \<Rightarrow> inst \<Rightarrow> elem_st \<Rightarrow> elem_st" where
  "attachments e i el =
     (let showOn = dp_get e i ''showOn''; rtl = truthy (dp_get e i ''isRTL'');
          btn = dp_get e i ''buttonText''; img = dp_get e i ''buttonImage''
      in el\<lparr>el_before := rtl,
            el_append := (if truthy (dp_get e i ''appendText'') then Some (to_str (dp_get e i ''appendText''))
                          else None),
            el_focus := (showOn = JStr ''focus'' \<or> showOn = JStr ''both''),
            el_trig_disabled := False,
            el_trigger := (if showOn = JStr ''button'' \<or> showOn = JStr ''both'' then
                 Some (if truthy (dp_get e i ''buttonImageOnly'') then TrigImg img btn
                       else if \<not> truthy img then TrigButton btn else TrigButtonImg img btn)
               else None)\<rparr>)"

text \<open>The field's size: the length of a date with the longest names.\<close>

fun find_max :: "string list \<Rightarrow> nat \<Rightarrow> int \<Rightarrow> int \<Rightarrow> int" where
  "find_max [] mx maxI k = maxI"
| "find_max (s # ss) mx maxI k =
     (if length s > mx then find_max ss (length s) k (k + 1) else find_max ss mx maxI (k + 1))"

definition findMax :: "string list \<Rightarrow> int" where
  "findMax names = find_max names 0 0 0"

fun has_double :: "char \<Rightarrow> string \<Rightarrow> bool" where
  "has_double c (a # b # s) = (a = c \<and> b = c \<or> has_double c (b # s))"
| "has_double c s = False"

definition size_date :: "dp_env \<Rightarrow> inst \<Rightarrow> string \<Rightarrow> int" where
  "size_date e i f =
     (let z = e_zone e; date = new_date z 2009 11 20
      in if CHR ''D'' \<in> set f \<or> CHR ''M'' \<in> set f then
           (let d1 = set_month z date (findMax (names_of (dp_get e i
                  (if has_double (CHR ''M'') f then ''monthNames'' else ''monthNamesShort''))))
            in set_date z d1 (findMax (names_of (dp_get e i
                  (if has_double (CHR ''D'') f then ''dayNames'' else ''dayNamesShort''))) + 20 - get_day z d1))
         else date)"

definition autoSize :: "dp_env \<Rightarrow> inst \<Rightarrow> elem_st \<Rightarrow> elem_st js" where
  "autoSize e i el =
     (if truthy (dp_get e i ''autoSize'') \<and> \<not> inline i then
        (case dp_get e i ''dateFormat'' of
           JStr f \<Rightarrow> js_bind (inst_format e i (JStr f) (Some (size_date e i f)))
             (\<lambda>s. Inr (el\<lparr>el_size := Some (int (length s))\<rparr>))
         | _ \<Rightarrow> throw_type)
      else Inr el)"

definition connectDatepicker :: "dp_env \<Rightarrow> string \<Rightarrow> inst \<Rightarrow> mgr \<Rightarrow> mgr js" where
  "connectDatepicker e x i M =
     (case elems M x of None \<Rightarrow> throw_type
      | Some el \<Rightarrow>
          if el_marker el then Inr M
          else js_bind (autoSize e i ((attachments e i el)\<lparr>el_marker := True, el_keys := True\<rparr>)) (\<lambda>el'.
            let M' = put_inst x i (put_elem x el' M)
            in Inr (if truthy (prop_of (settings i) ''disabled'') then disableDatepicker x M' else M')))"

definition inlineDatepicker :: "dp_env \<Rightarrow> string \<Rightarrow> inst \<Rightarrow> mgr \<Rightarrow> mgr js" where
  "inlineDatepicker e x i M =
     (case elems M x of None \<Rightarrow> throw_type
      | Some el \<Rightarrow>
          if el_marker el then Inr M
          else js_bind (getDefaultDate e i) (\<lambda>d.
            js_bind (setDate e i (JDate d) True) (\<lambda>i1.
            js_bind (updateDatepicker e x i1 (put_elem x (el\<lparr>el_marker := True\<rparr>) M)) (\<lambda>M1.
            with_inst M1 x (\<lambda>i2. js_bind (updateAlternate e i2) (\<lambda>i3.
              let M2 = put_inst x i3 M1
              in Inr (if truthy (prop_of (settings i3) ''disabled'') then disableDatepicker x M2 else M2)))))))"

definition attachDatepicker :: "dp_env \<Rightarrow> string \<Rightarrow> string \<Rightarrow> settings \<Rightarrow> mgr \<Rightarrow> mgr js" where
  "attachDatepicker e x v st M =
     (case elems M x of None \<Rightarrow> throw_type
      | Some el \<Rightarrow>
          (let node = to_lower (el_node el); inl = (node = ''div'' \<or> node = ''span'');
               i = newInst (escape_id x) inl v (jq_extend Map.empty st)
           in if node = ''input'' then connectDatepicker e x i M
              else if inl then inlineDatepicker e x i M else Inr M))"

text \<open>\<open>_curInst\<close> still refers to the instance of a destroyed picker; it is kept under the empty id,
  which no element has.\<close>

definition destroyDatepicker :: "string \<Rightarrow> mgr \<Rightarrow> mgr" where
  "destroyDatepicker x M =
     (if \<not> has_marker M x then M
      else
        (let el = the (elems M x); node = to_lower (el_node el);
             M' = (if curInst M = Some x
                   then M\<lparr>insts := (insts M)(x := None, [] := insts M x), curInst := Some []\<rparr>
                   else M\<lparr>insts := (insts M)(x := None)\<rparr>)
         in if node = ''input'' then
              put_elem x (el\<lparr>el_append := None, el_trigger := None, el_marker := False,
                el_focus := False, el_keys := False\<rparr>) M'
            else if node = ''div'' \<or> node = ''span'' then
              put_elem x (el\<lparr>el_marker := False\<rparr>) M'
            else M'))"

section \<open>Changing the options\<close>

text \<open>A bound in force is written in the new format when the format changes and no new bound is given.\<close>

definition reformat_bound :: "dp_env \<Rightarrow> settings \<Rightarrow> string \<Rightarrow> int option \<Rightarrow> inst \<Rightarrow> inst js" where
  "reformat_bound e st name b i =
     (if b \<noteq> None \<and> prop_of st ''dateFormat'' \<noteq> JUndef \<and> prop_of st name = JUndef
      then js_bind (inst_format e i (dp_get e i ''dateFormat'') b)
             (\<lambda>s. Inr (i\<lparr>settings := (settings i)(name \<mapsto> JStr s)\<rparr>))
      else Inr i)"

definition toggle_disabled :: "settings \<Rightarrow> string \<Rightarrow> mgr \<Rightarrow> mgr" where
  "toggle_disabled st x M =
     (case st ''disabled'' of None \<Rightarrow> M
      | Some v \<Rightarrow> if truthy v then disableDatepicker x M else enableDatepicker x M)"

definition optionDatepicker :: "dp_env \<Rightarrow> string \<Rightarrow> settings \<Rightarrow> mgr \<Rightarrow> mgr js" where
  "optionDatepicker e x st M =
     (if insts M x = None then Inr M
      else
        (let M0 = (if curInst M = Some x then hideDatepicker e None M else M)
         in with_inst M0 x (\<lambda>i0.
            js_bind (getDateDatepicker e i0 True) (\<lambda>(i1, date).
            js_bind (getMinMaxDate e i1 ''min'') (\<lambda>minDate.
            js_bind (getMinMaxDate e i1 ''max'') (\<lambda>maxDate.
            js_bind (reformat_bound e st ''minDate'' minDate
                (i1\<lparr>settings := extendRemove (settings i1) st\<rparr>)) (\<lambda>i2.
            js_bind (reformat_bound e st ''maxDate'' maxDate i2) (\<lambda>i3.
              let M1 = toggle_disabled st x (put_inst x i3 M0)
              in case elems M1 x of None \<Rightarrow> throw_type
                 | Some el \<Rightarrow>
                     js_bind (autoSize e i3 (attachments e i3 el)) (\<lambda>el'.
                     js_bind (setDate e i3 (case date of None \<Rightarrow> JNull | Some t \<Rightarrow> JDate t) False) (\<lambda>i4.
                     js_bind (updateAlternate e i4) (\<lambda>i5.
                       updateDatepicker e x i5 (put_elem x el' M1))))))))))))"

section \<open>Showing\<close>

record geometry =
  dpWidth :: int
  dpHeight :: int
  inputWidth :: int
  inputHeight :: int
  clientWidth :: int
  clientHeight :: int
  scrollLeft :: int
  scrollTop :: int
  inputLeft :: int
  inputTop :: int

definition checkOffset :: "bool \<Rightarrow> geometry \<Rightarrow> int \<times> int \<Rightarrow> bool \<Rightarrow> int \<times> int" where
  "checkOffset rtl g offset isFixed =
     (let viewWidth = clientWidth g + (if isFixed then 0 else scrollLeft g);
          viewHeight = clientHeight g + (if isFixed then 0 else scrollTop g);
          left0 = fst offset - (if rtl then dpWidth g - inputWidth g else 0);
          left1 = left0 - (if isFixed \<and> left0 = inputLeft g then scrollLeft g else 0);
          top1 = snd offset - (if isFixed \<and> snd offset = inputTop g + inputHeight g then scrollTop g else 0);
          left2 = left1 - min left1 (if left1 + dpWidth g > viewWidth \<and> viewWidth > dpWidth g
                    then \<bar>left1 + dpWidth g - viewWidth\<bar> else 0);
          top2 = top1 - min top1 (if top1 + dpHeight g > viewHeight \<and> viewHeight > dpHeight g
                    then \<bar>dpHeight g + inputHeight g\<bar> else 0)
      in (left2, top2))"

text \<open>Showing: \<open>pos\<close> is the place the code finds below the input, \<open>g\<close> the geometry it measures.\<close>

definition showDatepicker :: "dp_env \<Rightarrow> geometry \<Rightarrow> int \<times> int \<Rightarrow> bool \<Rightarrow> string \<Rightarrow> mgr \<Rightarrow> mgr js" where
  "showDatepicker e g pos isFixed x M =
     (if isDisabledDatepicker M x \<or> lastInput M = Some x then Inr M
      else
        (let M0 = (if curInst M \<noteq> None \<and> curInst M \<noteq> Some x \<and> insts M x \<noteq> None \<and> showing M
                   then hideDatepicker e (curInst M) M else M)
         in with_inst M0 x (\<lambda>i.
              case (case dp_get e i ''beforeShow'' of JFun f \<Rightarrow> e_beforeShow e f | _ \<Rightarrow> Some Map.empty) of
                None \<Rightarrow> Inr M0
              | Some st \<Rightarrow>
                  js_bind (setDateFromField e (i\<lparr>settings := extendRemove (settings i) st, lastVal := None\<rparr>) False)
                    (\<lambda>i1.
                    let i2 = (if inDialog M0 then i1\<lparr>fieldVal := []\<rparr> else i1)
                    in js_bind (updateDatepicker e x i2 (M0\<lparr>lastInput := Some x\<rparr>)) (\<lambda>M1.
                       let d = divs M1 (div_key x i2);
                           off = checkOffset (truthy (dp_get e i2 ''isRTL'')) g pos isFixed;
                           M2 = M1\<lparr>divs := (divs M1)(div_key x i2 := d\<lparr>dv_left := fst off, dv_top := snd off\<rparr>)\<rparr>
                       in Inr (if inline i2 then M2 else M2\<lparr>showing := True, curInst := Some x\<rparr>))))))"

text \<open>A mouse press: \<open>inside\<close> tells that the target is the calendar or in it, \<open>on_trigger\<close> that it
  is in a trigger.\<close>

definition checkExternalClick :: "dp_env \<Rightarrow> string \<Rightarrow> bool \<Rightarrow> bool \<Rightarrow> mgr \<Rightarrow> mgr" where
  "checkExternalClick e target inside on_trigger M =
     (if curInst M = None then M
      else if \<not> inside \<and> \<not> has_marker M target \<and> \<not> on_trigger \<and> showing M
           \<or> has_marker M target \<and> curInst M \<noteq> Some target
      then hideDatepicker e None M else M)"

section \<open>Keys\<close>

record key_event =
  keyCode :: int
  ctrlKey :: bool
  metaKey :: bool
  altKey :: bool
  over :: "td option"

datatype key_result = Handled | Passed | Cancelled

definition step_months :: "dp_env \<Rightarrow> inst \<Rightarrow> key_event \<Rightarrow> int" where
  "step_months e i k =
     num_of (dp_get e i (if ctrlKey k then ''stepBigMonths'' else ''stepMonths''))"

definition when_ctrl :: "key_event \<Rightarrow> (mgr \<Rightarrow> mgr js) \<Rightarrow> mgr \<Rightarrow> (mgr \<times> key_result) js" where
  "when_ctrl k act M =
     (if ctrlKey k \<or> metaKey k then js_bind (act M) (\<lambda>M'. Inr (M', Handled)) else Inr (M, Passed))"

definition and_alt :: "key_event \<Rightarrow> (mgr \<Rightarrow> mgr js) \<Rightarrow> mgr \<times> key_result \<Rightarrow> (mgr \<times> key_result) js" where
  "and_alt k act r = (if altKey k then js_bind (act (fst r)) (\<lambda>M. Inr (M, snd r)) else Inr r)"

definition handled :: "mgr js \<Rightarrow> (mgr \<times> key_result) js" where
  "handled r = js_bind r (\<lambda>M. Inr (M, Handled))"

definition enter_key :: "dp_env \<Rightarrow> key_event \<Rightarrow> string \<Rightarrow> inst \<Rightarrow> mgr \<Rightarrow> (mgr \<times> key_result) js" where
  "enter_key e k x i M =
     js_bind (case over k of None \<Rightarrow> Inr M
              | Some c \<Rightarrow> selectDay e x (selectedMonth i) (selectedYear i) c M) (\<lambda>M1.
       if truthy (dp_get e i ''onSelect'') then
         with_inst M1 x (\<lambda>i1. js_bind (inst_formatDate e i1) (\<lambda>(i2, s).
           Inr (put_inst x (i2\<lparr>events := events i2 @ [Selected s]\<rparr>) M1, Cancelled)))
       else Inr (hideDatepicker e None M1, Cancelled))"

definition open_key :: "dp_env \<Rightarrow> key_event \<Rightarrow> string \<Rightarrow> inst \<Rightarrow> bool \<Rightarrow> mgr \<Rightarrow> (mgr \<times> key_result) js" where
  "open_key e k x i rtl M =
     (let code = keyCode k; n = step_months e i k
      in if code = 9 then Inr (hideDatepicker e None M, Passed)
         else if code = 13 then enter_key e k x i M
         else if code = 27 then Inr (hideDatepicker e None M, Handled)
         else if code = 33 then handled (adjustDate e x (- n) PMonth M)
         else if code = 34 then handled (adjustDate e x n PMonth M)
         else if code = 35 then when_ctrl k (clearDate e x) M
         else if code = 36 then when_ctrl k (gotoToday e x) M
         else if code = 37 then
           js_bind (when_ctrl k (adjustDate e x (if rtl then 1 else -1) PDay) M)
             (and_alt k (adjustDate e x (- n) PMonth))
         else if code = 38 then when_ctrl k (adjustDate e x (-7) PDay) M
         else if code = 39 then
           js_bind (when_ctrl k (adjustDate e x (if rtl then -1 else 1) PDay) M)
             (and_alt k (adjustDate e x n PMonth))
         else if code = 40 then when_ctrl k (adjustDate e x 7 PDay) M
         else Inr (M, Passed))"

definition doKeyDown :: "dp_env \<Rightarrow> geometry \<Rightarrow> int \<times> int \<Rightarrow> bool \<Rightarrow> key_event \<Rightarrow> string \<Rightarrow> mgr
    \<Rightarrow> (mgr \<times> key_result) js" where
  "doKeyDown e g pos isFixed k x M =
     with_inst M x (\<lambda>i0.
       let i = i0\<lparr>keyEvent := True\<rparr>; M0 = put_inst x i M
       in if showing M0 then open_key e k x i (dv_rtl (divs M0 (div_key x i))) M0
          else if keyCode k = 36 \<and> ctrlKey k then handled (showDatepicker e g pos isFixed x M0)
          else Inr (M0, Passed))"

definition doKeyPress :: "dp_env \<Rightarrow> inst \<Rightarrow> bool \<Rightarrow> char \<Rightarrow> bool" where
  "doKeyPress e i ctrl_or_meta chr =
     (truthy (dp_get e i ''constrainInput'') \<longrightarrow>
        ctrl_or_meta \<or> (of_char chr :: int) < 32 \<or>
        (case possibleChars (to_str (dp_get e i ''dateFormat'')) of
           None \<Rightarrow> True | Some chars \<Rightarrow> chars = [] \<or> chr \<in> set chars))"

text \<open>Typed text is taken over once it parses; an exception on the way is swallowed, with what has been
  assigned before it.\<close>

definition doKeyUp :: "dp_env \<Rightarrow> string \<Rightarrow> mgr \<Rightarrow> mgr js" where
  "doKeyUp e x M =
     with_inst M x (\<lambda>i.
       if lastVal i = Some (fieldVal i) then Inr M
       else js_bind (js_catch (inst_parse e i (fieldVal i)) (Inr None)) (\<lambda>date.
         if date = None then Inr M
         else js_catch
           (js_bind (setDateFromField e i False) (\<lambda>i1.
             js_catch (js_bind (updateAlternate e i1) (\<lambda>i2. updateDatepicker e x i2 M))
               (Inr (put_inst x i1 M))))
           (Inr (put_inst x (i\<lparr>lastVal := Some (fieldVal i)\<rparr>) M))))"

section \<open>Links, triggers and the reading of options\<close>

text \<open>What the elements of the calendar with a \<open>data-handler\<close> do when they are clicked or changed.\<close>

datatype link = LPrev | LNext | LHide | LToday | LDay int int td | LMonth int | LYear int

definition follow_link :: "dp_env \<Rightarrow> string \<Rightarrow> link \<Rightarrow> mgr \<Rightarrow> mgr js" where
  "follow_link e x l M =
     (let step = (case insts M x of None \<Rightarrow> 0 | Some i \<Rightarrow> num_of (dp_get e i ''stepMonths''))
      in case l of
           LPrev \<Rightarrow> adjustDate e x (- step) PMonth M
         | LNext \<Rightarrow> adjustDate e x step PMonth M
         | LHide \<Rightarrow> Inr (hideDatepicker e None M)
         | LToday \<Rightarrow> gotoToday e x M
         | LDay m y c \<Rightarrow> selectDay e x m y c M
         | LMonth v \<Rightarrow> selectMonthYear e x v PMonth M
         | LYear v \<Rightarrow> selectMonthYear e x v PYear M)"

definition trigger_click :: "dp_env \<Rightarrow> geometry \<Rightarrow> int \<times> int \<Rightarrow> bool \<Rightarrow> string \<Rightarrow> mgr \<Rightarrow> mgr js" where
  "trigger_click e g pos isFixed x M =
     (if showing M \<and> lastInput M = Some x then Inr (hideDatepicker e None M)
      else if showing M then showDatepicker e g pos isFixed x (hideDatepicker e None M)
      else showDatepicker e g pos isFixed x M)"

datatype option_value = OptNull | OptValue jsv | OptSettings settings

definition getOption :: "dp_env \<Rightarrow> string \<Rightarrow> string \<Rightarrow> mgr \<Rightarrow> option_value" where
  "getOption e x name M =
     (if name = ''defaults'' then OptSettings (jq_extend Map.empty (e_defaults e))
      else case insts M x of None \<Rightarrow> OptNull
        | Some i \<Rightarrow> if name = ''all'' then OptSettings (jq_extend Map.empty (settings i))
                    else OptValue (dp_get e i name))"

definition setDefaults :: "settings \<Rightarrow> dp_env \<Rightarrow> dp_env" where
  "setDefaults st e = e\<lparr>e_defaults := extendRemove (e_defaults e) st\<rparr>"

end
