(* ===== verification/DP_Select.thy ===== *)
theory DP_Select
  imports DP_Manager
begin

text \<open>
  What the operations of an instance do to its selection, in terms of day numbers: the bounds are
  days, moving the selection is a clamped addition, and setting a date is read back from the
  instance and from the text of its field. The host's clock and zone are the locale \<open>dp_host\<close>.
\<close>

named_theorems dp_simps "the state changes of an instance"

section \<open>The host\<close>

locale dp_host =
  fixes e :: dp_env
  assumes zone: "zone_laws (e_zone e)"

sublocale dp_host \<subseteq> zone_laws "e_zone e"
  by (rule zone)

text \<open>An instance without a bound has \<open>None\<close>; otherwise the day of the bound.\<close>

definition bounds :: "dp_env \<Rightarrow> inst \<Rightarrow> int option \<Rightarrow> int option \<Rightarrow> bool" where
  "bounds e i lo hi \<longleftrightarrow>
     getMinMaxDate e i ''min'' = Inr (map_option (midnight_of (e_zone e)) lo) \<and>
     getMinMaxDate e i ''max'' = Inr (map_option (midnight_of (e_zone e)) hi)"

text \<open>Bounds that do not depend on the current date of the instance.\<close>

definition bounds_fixed :: "dp_env \<Rightarrow> settings \<Rightarrow> int option \<Rightarrow> int option \<Rightarrow> bool" where
  "bounds_fixed e st lo hi \<longleftrightarrow> (\<forall>i. settings i = st \<longrightarrow> bounds e i lo hi)"

definition in_bounds :: "int option \<Rightarrow> int option \<Rightarrow> int \<Rightarrow> bool" where
  "in_bounds lo hi d \<longleftrightarrow> (case lo of None \<Rightarrow> True | Some a \<Rightarrow> a \<le> d) \<and> (case hi of None \<Rightarrow> True | Some b \<Rightarrow> d \<le> b)"

definition nonempty_range :: "int option \<Rightarrow> int option \<Rightarrow> bool" where
  "nonempty_range lo hi \<longleftrightarrow> (case (lo, hi) of (Some a, Some b) \<Rightarrow> a \<le> b | _ \<Rightarrow> True)"

text \<open>The selection and the drawn month stand on day \<open>d\<close>; so do the fields of the current date.\<close>

definition on_day :: "int \<Rightarrow> inst \<Rightarrow> bool" where
  "on_day d i \<longleftrightarrow> selectedYear i = year_from_day d \<and> selectedMonth i = month_from_day d \<and>
     selectedDay i = date_from_day d \<and> drawYear i = year_from_day d \<and> drawMonth i = month_from_day d"

definition current_on :: "int \<Rightarrow> inst \<Rightarrow> bool" where
  "current_on d i \<longleftrightarrow> currentYear i = year_from_day d \<and> currentMonth i = month_from_day d \<and>
     currentDay i = date_from_day d"

text \<open>The years the constructor of \<open>Date\<close> takes as they are: 0 to 99 stand for 1900 to 1999.\<close>

definition plain_year :: "int \<Rightarrow> bool" where
  "plain_year y \<longleftrightarrow> y < 0 \<or> 99 < y"

lemma full_year_plain [simp]: "plain_year y \<Longrightarrow> full_year y = y"
  by (auto simp: plain_year_def full_year_def)

lemma clamp_in_bounds: "nonempty_range lo hi \<Longrightarrow> in_bounds lo hi (clamp lo hi d)"
  by (auto simp: nonempty_range_def in_bounds_def clamp_def split: option.splits)

lemma clamp_id: "in_bounds lo hi d \<Longrightarrow> clamp lo hi d = d"
  by (auto simp: in_bounds_def clamp_def split: option.splits)

lemma clamp_idem [simp]: "clamp lo hi (clamp lo hi d) = clamp lo hi d"
  by (auto simp: clamp_def Let_def split: option.splits)

lemma settings_notify [simp]: "settings (notifyChange e i) = settings i"
  by (simp add: notifyChange_def)

lemma notify_fields [simp]:
  "selectedDay (notifyChange e i) = selectedDay i" "selectedMonth (notifyChange e i) = selectedMonth i"
  "selectedYear (notifyChange e i) = selectedYear i" "drawMonth (notifyChange e i) = drawMonth i"
  "drawYear (notifyChange e i) = drawYear i" "currentDay (notifyChange e i) = currentDay i"
  "currentMonth (notifyChange e i) = currentMonth i" "currentYear (notifyChange e i) = currentYear i"
  "fieldVal (notifyChange e i) = fieldVal i" "lastVal (notifyChange e i) = lastVal i"
  "inline (notifyChange e i) = inline i"
  by (simp_all add: notifyChange_def)

lemma select_date_fields [simp]:
  "settings (select_date z t i) = settings i" "currentDay (select_date z t i) = currentDay i"
  "currentMonth (select_date z t i) = currentMonth i" "currentYear (select_date z t i) = currentYear i"
  "fieldVal (select_date z t i) = fieldVal i" "lastVal (select_date z t i) = lastVal i"
  "inline (select_date z t i) = inline i" "events (select_date z t i) = events i"
  by (simp_all add: select_date_def)

lemma on_day_notify [simp]: "on_day d (notifyChange e i) = on_day d i"
  by (simp add: on_day_def)

lemma current_on_notify [simp]: "current_on d (notifyChange e i) = current_on d i"
  by (simp add: current_on_def)

lemma dp_get_settings: "settings i = settings j \<Longrightarrow> dp_get e i n = dp_get e j n"
  by (simp add: dp_get_def)

lemma getFormatConfig_settings: "settings i = settings j \<Longrightarrow> getFormatConfig e i = getFormatConfig e j"
  by (simp add: getFormatConfig_def dp_get_def)

lemma inst_format_settings: "settings i = settings j \<Longrightarrow> inst_format e i f d = inst_format e j f d"
  using getFormatConfig_settings [of i j e] by (simp add: inst_format_def split: option.split)

lemma inst_parse_settings: "settings i = settings j \<Longrightarrow> inst_parse e i v = inst_parse e j v"
  using getFormatConfig_settings [of i j e] dp_get_settings [of i j e] by (simp add: inst_parse_def)

section \<open>Bounds\<close>

context dp_host
begin

lemma select_midnight [simp]: "on_day d (select_date (e_zone e) (midnight_of (e_zone e) d) i)"
  by (simp add: on_day_def select_date_def)

lemma determineDate_midnight:
  "determineDate e i v dflt = Inr (Some t) \<Longrightarrow> \<exists>d. t = midnight_of (e_zone e) d"
  by (auto simp: determineDate_def js_bind_eq_Inr clear_time_is_midnight split: option.splits if_splits)

lemma getMinMaxDate_days:
  assumes "getMinMaxDate e i which = Inr b"
  shows "\<exists>d. b = map_option (midnight_of (e_zone e)) d"
proof (cases b)
  case (Some t)
  with assms obtain d where "t = midnight_of (e_zone e) d"
    using determineDate_midnight unfolding getMinMaxDate_def by blast
  with Some have "b = map_option (midnight_of (e_zone e)) (Some d)" by simp
  then show ?thesis by blast
qed (simp add: exI [of _ None])

lemma bounds_exist:
  "getMinMaxDate e i ''min'' = Inr mn \<Longrightarrow> getMinMaxDate e i ''max'' = Inr mx \<Longrightarrow> \<exists>lo hi. bounds e i lo hi"
  using getMinMaxDate_days [of i "''min''" mn] getMinMaxDate_days [of i "''max''" mx]
  by (auto simp: bounds_def)

lemma clamp_midnight:
  "clamp (map_option (midnight_of (e_zone e)) lo) (map_option (midnight_of (e_zone e)) hi)
     (midnight_of (e_zone e) d) = midnight_of (e_zone e) (clamp lo hi d)"
  by (auto simp: clamp_def Let_def split: option.splits)

lemma restrict_day:
  "bounds e i lo hi \<Longrightarrow> restrictMinMax e i (midnight_of (e_zone e) d) = Inr (midnight_of (e_zone e) (clamp lo hi d))"
  by (simp add: restrictMinMax_def bounds_def clamp_midnight)

section \<open>Moving the selection\<close>

end

text \<open>The day \<open>_adjustInstDate\<close> aims at: the day of the month is clipped to the length of the month.\<close>

definition target_day :: "inst \<Rightarrow> int \<Rightarrow> period \<Rightarrow> int" where
  "target_day i offset period =
     (let year = full_year (drawYear i + (if period = PYear then offset else 0));
          month = drawMonth i + (if period = PMonth then offset else 0)
      in make_day year month
           (min (selectedDay i) (month_length (year + month div 12) (month mod 12))
            + (if period = PDay then offset else 0)))"

definition notified :: "dp_env \<Rightarrow> period \<Rightarrow> inst \<Rightarrow> inst" where
  "notified e p i = (if p = PMonth \<or> p = PYear then notifyChange e i else i)"

context dp_host
begin

lemma adjust_inst:
  "bounds e i lo hi \<Longrightarrow>
   adjustInstDate e i offset p = Inr (notified e p
     (select_date (e_zone e) (midnight_of (e_zone e) (clamp lo hi (target_day i offset p))) i))"
  by (simp add: adjustInstDate_def restrict_day new_date_midnight days_in_month target_day_def
      notified_def Let_def)

lemma target_day_here:
  assumes "on_day d i" "plain_year (year_from_day d)"
  shows "target_day i k PNone = d" "target_day i k PDay = d + k"
proof -
  have "date_from_day d \<le> month_length (year_from_day d) (month_from_day d)"
    by (rule date_from_day_range)
  then have m: "min (date_from_day d) (month_length (year_from_day d) (month_from_day d)) = date_from_day d"
    by simp
  have "month_from_day d div 12 = 0" "month_from_day d mod 12 = month_from_day d"
    by (simp_all add: div_pos_pos_trivial mod_pos_pos_trivial order.strict_trans1 [OF month_from_day_range(2)])
  then show "target_day i k PNone = d" "target_day i k PDay = d + k"
    using assms m by (simp_all add: target_day_def on_day_def Let_def make_day_shift make_day_from_day)
qed

lemma adjust_in_place:
  assumes "bounds e i lo hi" "on_day d i" "plain_year (year_from_day d)" "clamp lo hi d = d"
  shows "adjustInstDate e i k PNone = Inr (select_date (e_zone e) (midnight_of (e_zone e) d) i)"
  using adjust_inst [OF assms(1), of k PNone] target_day_here [OF assms(2,3)] assms(4)
  by (simp add: notified_def)

end

lemma notified_simps [simp]:
  "on_day d (notified e p i) = on_day d i" "settings (notified e p i) = settings i"
  "current_on d (notified e p i) = current_on d i" "fieldVal (notified e p i) = fieldVal i"
  by (simp_all add: notified_def)

text \<open>Moving by months: the month counted from year 0 moves by the offset, the day is clipped.\<close>

definition month_index :: "int \<Rightarrow> int \<Rightarrow> int" where
  "month_index y m = 12 * y + m"

lemma target_month:
  fixes k :: int
  assumes "on_day d i" "plain_year (year_from_day d)"
  defines "idx \<equiv> month_index (year_from_day d) (month_from_day d) + k"
  shows "year_from_day (target_day i k PMonth) = idx div 12"
    "month_from_day (target_day i k PMonth) = idx mod 12"
    "date_from_day (target_day i k PMonth) = min (date_from_day d) (month_length (idx div 12) (idx mod 12))"
proof -
  define y m where ym: "y = idx div 12" "m = idx mod 12"
  have m: "0 \<le> m" "m \<le> 11" using pos_mod_bound [of 12 idx] by (simp_all add: ym)
  define mm where "mm = month_from_day d + k"
  have "idx = mm + year_from_day d * 12" by (simp add: idx_def month_index_def mm_def)
  then have y': "y = year_from_day d + mm div 12" "m = mm mod 12"
    by (simp_all add: ym div_mult_self1 mod_mult_self1)
  define dd where "dd = min (date_from_day d) (month_length y m)"
  have "target_day i k PMonth = make_day (year_from_day d) mm dd"
    using assms(1,2) by (simp add: target_day_def on_day_def Let_def mm_def dd_def y')
  also have "\<dots> = make_day y m dd" unfolding y' by (rule make_day_normal)
  finally have t: "target_day i k PMonth = make_day y m dd" .
  have "1 \<le> dd" "dd \<le> month_length y m"
    using date_from_day_range(1) [of d] month_length_bounds [OF m, of y] by (auto simp: dd_def)
  then have "civil y (m + 1) dd" using m by (simp add: civil_def)
  from civil_fields [OF this] show "year_from_day (target_day i k PMonth) = idx div 12"
    "month_from_day (target_day i k PMonth) = idx mod 12"
    "date_from_day (target_day i k PMonth) = min (date_from_day d) (month_length (idx div 12) (idx mod 12))"
    by (simp_all add: t ym [symmetric] dd_def)
qed

section \<open>Setting a date\<close>

definition text_of_day :: "dp_env \<Rightarrow> inst \<Rightarrow> string \<Rightarrow> int \<Rightarrow> string" where
  "text_of_day e i f d =
     formatDate (e_zone e) (default_names (e_defaults e)) f (Some (midnight_of (e_zone e) d))
       (Some (getFormatConfig e i))"

context dp_host
begin

lemma place_date_simps [simp]:
  "settings (place_date y t i) = settings i" "fieldVal (place_date y t i) = fieldVal i"
  "inline (place_date y t i) = inline i" "lastVal (place_date y t i) = lastVal i"
  "on_day d (place_date (e_zone e) (midnight_of (e_zone e) d) i)"
  "current_on d (place_date (e_zone e) (midnight_of (e_zone e) d) i)"
  by (simp_all add: place_date_def on_day_def current_on_def select_date_def)

lemma announce_simps [simp]:
  "settings (announce e' j nc i) = settings i" "fieldVal (announce e' j nc i) = fieldVal i"
  "inline (announce e' j nc i) = inline i" "lastVal (announce e' j nc i) = lastVal i"
  "on_day d (announce e' j nc i) = on_day d i" "current_on d (announce e' j nc i) = current_on d i"
  by (simp_all add: announce_def)

lemma inst_formatDate_on_day:
  assumes "on_day d i" "plain_year (year_from_day d)" "dp_get e i ''dateFormat'' = JStr f"
  shows "inst_formatDate e i =
    Inr (i\<lparr>currentDay := date_from_day d, currentMonth := month_from_day d, currentYear := year_from_day d\<rparr>,
         text_of_day e i f d)"
proof -
  define i' where "i' = i\<lparr>currentDay := date_from_day d, currentMonth := month_from_day d,
    currentYear := year_from_day d\<rparr>"
  have st: "settings i' = settings i" by (simp add: i'_def)
  have "inst_format e i' (JStr f) (Some (midnight_of (e_zone e) d)) = Inr (text_of_day e i f d)"
    by (simp add: getFormatConfig_settings [OF st] inst_format_def str_opt_def text_of_day_def)
  moreover have "inst_formatDate e i =
      js_bind (inst_format e i' (dp_get e i' ''dateFormat'') (Some (midnight_of (e_zone e) d))) (\<lambda>s. Inr (i', s))"
    using assms(1,2)
    by (simp add: inst_formatDate_def on_day_def new_date_midnight make_day_from_day Let_def i'_def)
  ultimately have "inst_formatDate e i = Inr (i', text_of_day e i f d)"
    using assms(3) by (simp add: dp_get_settings [OF st])
  then show ?thesis by (simp add: i'_def)
qed

lemma setDate_result:
  assumes "bounds_fixed e (settings i) lo hi"
    and "determineDate e i v (Some (e_now e)) = Inr (Some (midnight_of (e_zone e) d))"
    and "dp_get e i ''dateFormat'' = JStr f" "plain_year (year_from_day (clamp lo hi d))"
  shows "\<exists>i'. setDate e i v nc = Inr i' \<and> on_day (clamp lo hi d) i' \<and> current_on (clamp lo hi d) i' \<and>
     settings i' = settings i \<and> inline i' = inline i \<and> lastVal i' = lastVal i \<and>
     fieldVal i' = (if truthy v then text_of_day e i f (clamp lo hi d) else [])"
proof -
  define c where "c = clamp lo hi d"
  define i2 where "i2 = announce e i nc (place_date (e_zone e) (midnight_of (e_zone e) c) i)"
  have i2: "on_day c i2" "current_on c i2" "settings i2 = settings i" "inline i2 = inline i" "lastVal i2 = lastVal i"
    by (simp_all add: i2_def)
  define i3 where "i3 = select_date (e_zone e) (midnight_of (e_zone e) c) i2"
  have i3: "on_day c i3" "current_on c i3" "settings i3 = settings i" "inline i3 = inline i" "lastVal i3 = lastVal i"
    using i2 by (simp_all add: i3_def current_on_def)
  have b: "bounds e i lo hi" "bounds e i2 lo hi"
    using assms(1) i2(3) by (auto simp: bounds_fixed_def)
  have adj: "adjustInstDate e i2 0 PNone = Inr i3"
    using adjust_in_place [OF b(2) i2(1), of 0] assms(4) by (simp add: i3_def c_def)
  have fm: "inst_formatDate e i3 = Inr (i3\<lparr>currentDay := date_from_day c, currentMonth := month_from_day c,
      currentYear := year_from_day c\<rparr>, text_of_day e i f c)"
    using inst_formatDate_on_day [OF i3(1), of f] assms(3,4)
    by (simp add: c_def dp_get_settings [OF i3(3)] text_of_day_def getFormatConfig_settings [OF i3(3)])
  have "setDate e i v nc =
    (if \<not> truthy v then Inr (i3\<lparr>fieldVal := []\<rparr>)
     else js_bind (inst_formatDate e i3) (\<lambda>(i4, s). Inr (i4\<lparr>fieldVal := s\<rparr>)))"
    using assms(2) restrict_day [OF b(1), of d] adj
    by (simp add: setDate_def needed_def c_def [symmetric] i2_def [symmetric])
  then show ?thesis
    using i3 fm unfolding c_def [symmetric]
    by (auto simp: on_day_def current_on_def)
qed

lemma getDate_current:
  "current_on d i \<Longrightarrow> plain_year (year_from_day d) \<Longrightarrow> fieldVal i \<noteq> [] \<Longrightarrow>
     getDate e i = Some (midnight_of (e_zone e) d)"
  by (auto simp: getDate_def current_on_def new_date_midnight make_day_from_day plain_year_def)

section \<open>Reading the field\<close>

lemma field_result:
  assumes "bounds_fixed e (settings i) lo hi" "lastVal i \<noteq> Some (fieldVal i)"
    and "getDefaultDate e (i\<lparr>lastVal := Some (fieldVal i)\<rparr>) = Inr dflt"
    and "inst_parse e i (fieldVal i) = Inr (Some (midnight_of (e_zone e) d))" "fieldVal i \<noteq> []"
    and "plain_year (year_from_day d)"
  shows "\<exists>i'. setDateFromField e i noDefault = Inr i' \<and> on_day (clamp lo hi d) i' \<and> current_on d i' \<and>
     settings i' = settings i \<and> fieldVal i' = fieldVal i"
proof -
  define i1 where "i1 = (select_date (e_zone e) (midnight_of (e_zone e) d) (i\<lparr>lastVal := Some (fieldVal i)\<rparr>))
     \<lparr>currentDay := date_from_day d, currentMonth := month_from_day d, currentYear := year_from_day d\<rparr>"
  have i1: "on_day d i1" "current_on d i1" "settings i1 = settings i" "fieldVal i1 = fieldVal i"
    by (auto simp: i1_def on_day_def current_on_def select_date_def)
  have "bounds e i1 lo hi" using assms(1) i1(3) by (simp add: bounds_fixed_def)
  then have adj: "adjustInstDate e i1 0 PNone =
      Inr (select_date (e_zone e) (midnight_of (e_zone e) (clamp lo hi d)) i1)"
    using adjust_inst [of i1 lo hi 0 PNone] target_day_here [OF i1(1) assms(6)]
    by (simp add: notified_def)
  have "inst_parse e (i\<lparr>lastVal := Some (fieldVal i)\<rparr>) (fieldVal i) = inst_parse e i (fieldVal i)"
    by (rule inst_parse_settings) simp
  then have "setDateFromField e i noDefault = adjustInstDate e i1 0 PNone"
    using assms(2-5)
    by (simp add: setDateFromField_def field_date_def Let_def i1_def)
  then show ?thesis using adj i1 by (simp add: current_on_def)
qed

end

end
