(* ===== verification/DP_Props.thy ===== *)
theory DP_Props
  imports DP_Roundtrip
begin

text \<open>
  The properties of the date picker's calendar and of its date texts, over the definitions of
  DP\_Format, with a witness for each that has a hypothesis. The zones of the witnesses are
  central European time in 2015, with its summer time, and zones of constant offset.
\<close>

definition cet_day :: int where
  "cet_day = 16523"

lemma zone_laws_cet: "zone_laws cet_2015"
  by (rule cet.zone_laws_axioms)

lemma cet_day_fields:
  "year_from_day cet_day = 2015" "midnight_of cet_2015 cet_day = 1427583600000"
  by code_simp+

text \<open>C1: Parsing a formatted date with the same format and settings gives the same date, for the local midnight of
  a day from the year 100 on and every format whose fields determine a date and whose text is unambiguous (\<open>toks_ok\<close>: literals, quoted
  texts, day, month and day-of-year numbers, day and month names, two- and four-digit years, timestamps and ticks; no number
  without a fixed width directly before a digit), if each field can carry the date (\<open>tok_fits\<close>: a two-digit year is from 1900 on and in the century the cutoff
  picks, a four-digit one has four digits, timestamps and ticks have the digits that are read back and are not negative, which would be written with a sign
  that is not read) and of the names in the
  settings none is a prefix of another (\<open>config_ok\<close>).\<close>

theorem parseDate_formatDate:
  assumes "zone_laws z" "config_ok (format_config settings defaults)" "toks_ok toks" "complete toks"
    and "list_all (tok_fits z now
      (cutoff_year z now (shortYearCutoff (format_config settings defaults))) (midnight_of z d)) toks"
    and "100 \<le> year_from_day d"
  shows "parseDate z now defaults (Some (fmt_of toks))
      (Some (formatDate z defaults (fmt_of toks) (Some (midnight_of z d)) settings)) settings
    = Inr (Some (midnight_of z d))"
  using assms by (rule zone_laws.parse_of_format)

definition sample_tokens :: "tok list" where
  "sample_tokens = [Field (CHR ''D'') True, Lit (CHR '',''), Lit (CHR '' ''), Quote ''day '',
     Field (CHR ''d'') False, Lit (CHR '' ''), Field (CHR ''M'') False, Apos, Field (CHR ''y'') False]"

theorem parseDate_formatDate_witness:
  "fmt_of sample_tokens = ''DD, '' @ [CHR 39] @ ''day '' @ [CHR 39] @ ''d M'' @ [CHR 39, CHR 39] @ ''y'' \<and>
   parseDate cet_2015 1427590800000 regional_names (Some (fmt_of sample_tokens))
     (Some (formatDate cet_2015 regional_names (fmt_of sample_tokens) (Some 1427583600000) None)) None
   = Inr (Some 1427583600000)"
proof
  show "fmt_of sample_tokens = ''DD, '' @ [CHR 39] @ ''day '' @ [CHR 39] @ ''d M'' @ [CHR 39, CHR 39] @ ''y''"
    by (simp add: sample_tokens_def)
  have "config_ok (format_config None regional_names)"
    using regional_names_ok by (simp add: format_config_def)
  moreover have "toks_ok sample_tokens" "complete sample_tokens"
    by code_simp+
  moreover have "list_all (tok_fits cet_2015 1427590800000
      (cutoff_year cet_2015 1427590800000 (shortYearCutoff (format_config None regional_names)))
      1427583600000) sample_tokens"
    by code_simp
  ultimately show "parseDate cet_2015 1427590800000 regional_names (Some (fmt_of sample_tokens))
     (Some (formatDate cet_2015 regional_names (fmt_of sample_tokens) (Some 1427583600000) None)) None
   = Inr (Some 1427583600000)"
    using parseDate_formatDate [OF zone_laws_cet, of None regional_names sample_tokens 1427590800000 cet_day]
    by (simp add: cet_day_fields)
qed

fun four_digit_tok :: "tok \<Rightarrow> bool" where
  "four_digit_tok (Field c b) = (c \<noteq> CHR ''@'' \<and> c \<noteq> CHR ''!'' \<and> (c = CHR ''y'' \<longrightarrow> b))"
| "four_digit_tok t = True"

definition four_digit :: "string \<Rightarrow> bool" where
  "four_digit f \<longleftrightarrow> list_all four_digit_tok (tokens_of f)"

lemma predefined_four_digit:
  "list_all four_digit [ATOM, COOKIE, ISO_8601, RFC_1123, RFC_2822, W3C, ''mm/dd/yy'']"
  unfolding predefined_defs by code_simp

lemma four_digit_fits:
  "four_digit f \<Longrightarrow> 1000 \<le> get_full_year z t \<Longrightarrow> get_full_year z t \<le> 9999 \<Longrightarrow>
     list_all (tok_fits z now co t) (tokens_of f)"
proof -
  assume f: "four_digit f" and y: "1000 \<le> get_full_year z t" "get_full_year z t \<le> 9999"
  have "four_digit_tok k \<Longrightarrow> tok_fits z now co t k" for k
    using y by (cases k) (auto simp: tok_fits_def field_fits_def Let_def)
  with f show ?thesis unfolding four_digit_def by (simp add: list_all_iff)
qed

text \<open> Every predefined format with a four-digit year, and the default format, reads back what it
  writes for every date of the years 1000 to 9999, in every zone.\<close>

theorem parseDate_predefined:
  assumes "zone_laws z" "f \<in> {ATOM, COOKIE, ISO_8601, RFC_1123, RFC_2822, W3C, ''mm/dd/yy''}"
    and "1000 \<le> year_from_day d" "year_from_day d \<le> 9999"
  shows "parseDate z now regional_names (Some f)
      (Some (formatDate z regional_names f (Some (midnight_of z d)) None)) None
    = Inr (Some (midnight_of z d))"
proof -
  have "config_ok (format_config None regional_names)"
    using regional_names_ok by (simp add: format_config_def)
  moreover have f: "plain_format f" "four_digit f"
    using predefined_plain predefined_four_digit assms(2) by (auto simp: list_all_iff)
  moreover have "get_full_year z (midnight_of z d) = year_from_day d"
    by (rule zone_laws.date_fields_midnight(1) [OF assms(1)])
  then have "list_all (tok_fits z now
      (cutoff_year z now (shortYearCutoff (format_config None regional_names))) (midnight_of z d))
      (tokens_of f)"
    using four_digit_fits [OF f(2)] assms(3,4) by simp
  ultimately show ?thesis
    using zone_laws.parse_of_format [OF assms(1), of None regional_names "tokens_of f" now d] assms(3)
    by (simp add: plain_format_def fmt_of_tokens_of)
qed

theorem parseDate_predefined_witness:
  "parseDate cet_2015 0 regional_names (Some RFC_1123)
      (Some (formatDate cet_2015 regional_names RFC_1123 (Some 1427583600000) None)) None
    = Inr (Some 1427583600000)"
  using parseDate_predefined [OF zone_laws_cet, of RFC_1123 cet_day 0]
  by (simp add: cet_day_fields)

text \<open>C2: A date that \<open>parseDate\<close> returns has exactly the year, month and day that were read, at
  local midnight: a day past the end of its month is refused, never carried into the next month.\<close>

theorem parseDate_no_rollover:
  assumes "zone_laws z"
    and "parseDate z now defaults (Some f) (Some v) settings = Inr (Some t)"
    and "parse_loop z (format_config settings defaults) v f False parse_init = Inr s" "p_doy s = -1"
  shows "\<exists>y y' m d. p_year s = Some y' \<and> p_month s = Some m \<and> p_day s = Some d \<and>
    y = parse_year z now (cutoff_year z now (shortYearCutoff (format_config settings defaults))) y' \<and>
    civil y m d \<and> get_full_year z t = y \<and> get_month z t = m - 1 \<and> get_date z t = d \<and> get_hours z t = 0"
proof -
  define cfg where "cfg = format_config settings defaults"
  have "finish_parse z now cfg v s = Inr t"
    using assms(2,3) by (auto simp: parseDate_def cfg_def [symmetric] js_bind_eq_Inr split: if_splits)
  then have "checked_date z (map_option (parse_year z now (cutoff_year z now (shortYearCutoff cfg)))
      (p_year s)) (p_month s) (p_day s) = Inr t"
    using assms(4) by (auto simp: finish_parse_def Let_def split: if_splits)
  then obtain y' m d where f: "p_year s = Some y'" "p_month s = Some m" "p_day s = Some d"
    and c: "checked_date z (Some (parse_year z now (cutoff_year z now (shortYearCutoff cfg)) y'))
      (Some m) (Some d) = Inr t"
    by (cases "p_year s"; cases "p_month s"; cases "p_day s") (auto simp: checked_date_def)
  define y where "y = parse_year z now (cutoff_year z now (shortYearCutoff cfg)) y'"
  have "civil y m d" "t = midnight_of z (make_day y (m - 1) d)"
    using c zone_laws.checked_date_Inr [OF assms(1)] by (auto simp: y_def)
  then show ?thesis
    using f civil_fields [of y m d] zone_laws.date_fields_midnight [OF assms(1)]
      zone_laws.get_hours_midnight [OF assms(1)]
    by (auto simp: y_def cfg_def)
qed

theorem parseDate_no_rollover_witness:
  "parseDate cet_2015 0 regional_names (Some ''d.m.yy'') (Some ''29.2.2016'') None = Inr (Some 1456700400000) \<and>
   get_date cet_2015 1456700400000 = 29"
proof -
  define s where "s = \<lparr>p_iValue = 9, p_year = Some 2016, p_month = Some 2, p_day = Some 29, p_doy = -1\<rparr>"
  have p: "parseDate cet_2015 0 regional_names (Some ''d.m.yy'') (Some ''29.2.2016'') None = Inr (Some 1456700400000)"
    by code_simp
  have l: "parse_loop cet_2015 (format_config None regional_names) ''29.2.2016'' ''d.m.yy'' False parse_init = Inr s"
    unfolding s_def by code_simp
  have "get_date cet_2015 1456700400000 = 29"
    using parseDate_no_rollover [OF zone_laws_cet p l] by (simp add: s_def)
  with p show ?thesis by simp
qed

text \<open> With a day of the year in the format, the loop over the months ends, and the date is the day of
  that number in the year; a number outside the year is refused.\<close>

theorem parse_day_of_year:
  assumes "zone_laws z" "p_year s = Some y'" "length v \<le> p_iValue s" "-1 < p_doy s"
    and "y = parse_year z now (cutoff_year z now (shortYearCutoff cfg)) y'" "100 \<le> y"
  shows "finish_parse z now cfg v s =
    (if 1 \<le> p_doy s \<and> p_doy s \<le> year_length y
     then Inr (midnight_of z (day_from_year y + p_doy s - 1)) else Inl (Throw ''Invalid date''))"
proof -
  obtain m d where md: "doy_loop z y 1 (p_doy s) = (m, d)" by (cases "doy_loop z y 1 (p_doy s)")
  have "full_year y = y" using assms(6) by (simp add: full_year_def)
  from zone_laws.doy_date [OF assms(1) this md] show ?thesis
    using assms(2-6) md by (simp add: finish_parse_def Let_def)
qed

theorem parse_day_of_year_witness:
  "finish_parse cet_2015 0 regional_names ''2015-88''
     \<lparr>p_iValue = 7, p_year = Some 2015, p_month = Some (-1), p_day = Some (-1), p_doy = 88\<rparr>
   = Inr 1427583600000"
proof -
  have "midnight_of cet_2015 (day_from_year 2015 + 88 - 1) = 1427583600000" by code_simp
  moreover have "year_length 2015 = 365" by code_simp
  ultimately show ?thesis
    using parse_day_of_year [OF zone_laws_cet, of "\<lparr>p_iValue = 7, p_year = Some 2015,
      p_month = Some (-1), p_day = Some (-1), p_doy = 88\<rparr>" 2015 "''2015-88''" 2015 0 regional_names]
    by (simp add: parse_year_def Let_def)
qed

text \<open>C3: The week number of a day is the number of its week's Thursday among the Thursdays of the
  Thursday's year, a number from 1 to 53, and it is the same from Monday to Sunday; daylight saving
  between the day and the first of January does not change it.\<close>

theorem iso8601Week_correct:
  assumes "zone_laws z" "0 \<le> k" "k < 7" "(d + 3) mod 7 = 0"
  shows "iso8601Week z (midnight_of z (d + k)) = year_day (d + 3) div 7 + 1 \<and>
    1 \<le> iso8601Week z (midnight_of z (d + k)) \<and> iso8601Week z (midnight_of z (d + k)) \<le> 53"
proof -
  have "d + k + 3 = d + 3 + k" by simp
  then have "(d + k + 3) mod 7 = ((d + 3) mod 7 + k) mod 7" by (simp only: mod_add_left_eq)
  also have "\<dots> = k" using assms(2-4) by simp
  finally have "iso_thursday (d + k) = d + 3" by (simp add: iso_thursday_def)
  then have "iso_week (d + k) = year_day (d + 3) div 7 + 1" by (simp add: iso_week_def)
  then show ?thesis
    using zone_laws.iso8601Week_midnight [OF assms(1), of "d + k"] iso_week_range [of "d + k"] by simp
qed

theorem iso8601Week_correct_witness:
  "iso8601Week cet_2015 (midnight_of cet_2015 (16517 + 6)) = 13"
proof -
  have "year_day (16517 + 3) div 7 + 1 = 13" by code_simp
  then show ?thesis using iso8601Week_correct [OF zone_laws_cet, of 6 16517] by simp
qed

text \<open> The length of a month is that of the Gregorian calendar, for months counted past the ends of
  the year too.\<close>

theorem getDaysInMonth_correct:
  assumes "zone_laws z" "100 \<le> y"
  shows "getDaysInMonth z y m = month_length (y + m div 12) (m mod 12) \<and>
    month_length y 1 = (if y mod 4 = 0 \<and> (y mod 100 \<noteq> 0 \<or> y mod 400 = 0) then 29 else 28)"
  using zone_laws.days_in_month [OF assms(1), of y m] assms(2)
  by (simp add: full_year_def month_length_def month_start_def leap_def)

theorem getDaysInMonth_correct_witness: "getDaysInMonth cet_2015 2015 13 = 29"
proof -
  have "month_length (2015 + 13 div 12) (13 mod 12) = 29" by code_simp
  then show ?thesis using getDaysInMonth_correct [OF zone_laws_cet, of 2015 13] by simp
qed

section \<open>The key filter\<close>

lemma possible_loop_mono: "possible_loop f lit acc = Some cs \<Longrightarrow> set acc \<subseteq> set cs"
proof (induction f lit acc rule: possible_loop.induct)
  case (2 f fs lit acc)
  then show ?case by (auto simp: possible_loop.simps(2) split: if_splits)
qed simp

lemma show_int_digits: "0 \<le> n \<Longrightarrow> set (show_int n) \<subseteq> {c. is_digit c}"
  using show_nat_digits [of n] by (auto simp: show_int_def list_all_iff)

lemma is_digit_cases: "is_digit c \<Longrightarrow> c \<in> set ''0123456789''"
proof -
  assume c: "is_digit c"
  define n :: int where "n = of_char c"
  have all: "list_all (\<lambda>k. char_of k \<in> set ''0123456789'') [48, 49, 50, 51, 52, 53, 54, 55, 56, 57 :: int]"
    by code_simp
  have "n = 48 \<or> n = 49 \<or> n = 50 \<or> n = 51 \<or> n = 52 \<or> n = 53 \<or> n = 54 \<or> n = 55 \<or> n = 56 \<or> n = 57"
    using c unfolding n_def is_digit_def by presburger
  then have "n \<in> set [48, 49, 50, 51, 52, 53, 54, 55, 56, 57]" by simp
  with all have "char_of n \<in> set ''0123456789''" unfolding list_all_iff by blast
  then show ?thesis by (simp add: n_def)
qed

lemma format_number_digits: "0 \<le> n \<Longrightarrow> set (formatNumber b n k) \<subseteq> set ''0123456789''"
proof -
  assume n: "0 \<le> n"
  have "set (formatNumber b n k) \<subseteq> {CHR ''0''} \<union> set (show_int n)"
    by (auto simp: formatNumber_def Let_def)
  also have "\<dots> \<subseteq> set ''0123456789''"
    using show_int_digits [OF n] is_digit_cases by auto
  finally show ?thesis .
qed

lemma possible_digits:
  assumes "f \<in> {CHR ''d'', CHR ''m'', CHR ''y'', CHR ''@''}" "possible_loop (f # fs) False acc = Some cs"
  shows "set ''0123456789'' \<subseteq> set cs \<and> possible_loop fs False (acc @ ''0123456789'') = Some cs"
proof -
  have p: "possible_loop fs False (acc @ ''0123456789'') = Some cs"
    using assms by (auto simp: possible_loop.simps(2))
  from possible_loop_mono [OF this] p show ?thesis by auto
qed

text \<open>The date has no negative number to print in the fields of the format.\<close>

definition printable :: "zone \<Rightarrow> int \<Rightarrow> bool" where
  "printable z t \<longleftrightarrow> 0 \<le> t \<and> 1900 \<le> get_full_year z t"

lemma format_field_chars:
  assumes "printable z t" "f \<in> {CHR ''d'', CHR ''m'', CHR ''y'', CHR ''@''}"
  shows "set (format_field z cfg t f b) \<subseteq> set ''0123456789''"
proof -
  have show_ok: "set (show_int n) \<subseteq> set ''0123456789''" if "0 \<le> n" for n
    using show_int_digits [OF that] is_digit_cases by auto
  have yy: "0 \<le> js_mod (get_full_year z t - 1900) 100"
    using assms(1) by (simp add: js_mod_nonneg printable_def)
  have "0 \<le> get_date z t" using get_date_range(1) [of z t] by simp
  moreover have "0 \<le> get_month z t + 1" using get_month_range(1) [of z t] by linarith
  ultimately show ?thesis
    using assms format_number_digits show_ok yy
    by (auto simp: format_field_def printable_def Let_def)
qed

lemma possible_chars_cover:
  assumes "printable z t"
  shows "CHR ''o'' \<notin> set f \<Longrightarrow> CHR ''!'' \<notin> set f \<Longrightarrow> possible_loop f lit acc = Some cs \<Longrightarrow>
    set (format_loop z cfg t f lit) \<subseteq> set cs"
proof (induction "length f" arbitrary: f lit acc rule: less_induct)
  case less
  show ?case
  proof (cases f)
    case Nil
    then show ?thesis by simp
  next
    case (Cons c fs)
    define rest where "rest = (if c = CHR 39 then snd (look_ahead (CHR 39) fs) else fs)"
    have len: "length rest < length f" "set rest \<subseteq> set fs"
      using length_look_ahead [of "CHR 39" fs]
      by (auto simp: rest_def Cons less_Suc_eq_le look_ahead_def split: list.splits if_splits)
    have fs: "CHR ''o'' \<notin> set fs" "CHR ''!'' \<notin> set fs" using less.prems Cons by auto
    have IH: "set (format_loop z cfg t g l) \<subseteq> set cs"
      if "length g < length f" "set g \<subseteq> set fs" "possible_loop g l a = Some cs" for g l a
      using less.hyps [OF that(1) _ _ that(3)] fs that(2) by blast
    have char: "c \<in> set cs" if "possible_loop rest l (acc @ [c]) = Some cs" for l
      using possible_loop_mono [OF that] by simp
    consider (num) "\<not> lit" "c \<in> {CHR ''d'', CHR ''m'', CHR ''y'', CHR ''@''}"
      | (name) "\<not> lit" "c = CHR ''D'' \<or> c = CHR ''M''"
      | (quote) "c = CHR 39" "\<not> fst (look_ahead (CHR 39) fs)"
      | (other) "c = CHR 39 \<longrightarrow> fst (look_ahead (CHR 39) fs)" "lit \<or> \<not> is_field c"
      using less.prems Cons by (auto simp: is_field_def)
    then show ?thesis
    proof cases
      case num
      have p: "set ''0123456789'' \<subseteq> set cs" "possible_loop fs False (acc @ ''0123456789'') = Some cs"
        using possible_digits [OF num(2)] less.prems(3) num(1) Cons by auto
      have chars_ok: "set (format_field z cfg t c b) \<subseteq> set cs" for b
        using format_field_chars [OF assms num(2)] p(1) by blast
      have after: "set (format_loop z cfg t (snd (look_ahead c fs)) False) \<subseteq> set cs"
      proof (cases "starts_with c fs")
        case True
        then obtain gs where gs: "fs = c # gs" by (cases fs) (auto simp: starts_with_def)
        have "possible_loop gs False ((acc @ ''0123456789'') @ ''0123456789'') = Some cs"
          using possible_digits [OF num(2)] p(2) gs by blast
        then show ?thesis using IH [of gs] gs Cons by auto
      next
        case False
        then show ?thesis using IH [OF _ _ p(2)] Cons by simp
      qed
      have "set (format_loop z cfg t fs False) \<subseteq> set cs" using IH [OF _ _ p(2)] Cons by simp
      with chars_ok after num show ?thesis
        by (auto simp: Cons format_loop.simps(2) is_field_def)
    next
      case name
      then show ?thesis using less.prems(3) Cons by (auto simp: possible_loop.simps(2))
    next
      case quote
      then have "possible_loop fs (\<not> lit) acc = Some cs"
        using less.prems(3) Cons by (cases lit) (auto simp: possible_loop.simps(2))
      then show ?thesis using IH [of fs "\<not> lit"] quote Cons
        by (cases lit) (auto simp: format_loop.simps(2) doubles_in_format_def is_field_def)
    next
      case other
      then have p: "possible_loop rest lit (acc @ [c]) = Some cs"
        using less.prems(3) Cons
        by (cases lit) (auto simp: possible_loop.simps(2) rest_def is_field_def split: if_splits)
      have "format_loop z cfg t f lit = c # format_loop z cfg t rest lit"
        using other Cons by (cases lit)
          (auto simp: format_loop.simps(2) rest_def doubles_in_format_def split: if_splits)
      then show ?thesis using IH [OF len p] char [OF p] by simp
    qed
  qed
qed

text \<open> The key filter lets the user type every formatted date: whenever \<open>_possibleChars\<close> restricts
  the characters and the format has no \<open>o\<close> and no \<open>!\<close>, each character of a date text is allowed.\<close>

theorem possibleChars_cover:
  assumes "possibleChars f = Some chars" "CHR ''o'' \<notin> set f" "CHR ''!'' \<notin> set f"
    and "printable z t"
  shows "set (formatDate z defaults f (Some t) settings) \<subseteq> set chars"
  using possible_chars_cover [OF assms(4,2,3)] assms(1)
  by (simp add: possibleChars_def formatDate_def)

theorem possibleChars_cover_witness:
  "set (formatDate cet_2015 regional_names ''mm/dd/yy'' (Some 1427583600000) None)
     \<subseteq> set ''01234567890123456789/01234567890123456789/01234567890123456789''"
proof (rule possibleChars_cover)
  show "possibleChars ''mm/dd/yy''
      = Some ''01234567890123456789/01234567890123456789/01234567890123456789''" by code_simp
  show "printable cet_2015 1427583600000" unfolding printable_def by code_simp
qed simp_all

text \<open>The restriction on \<open>o\<close> and \<open>!\<close> is needed: for these two numeric fields the filter allows the
  letter of the format and no digit, so a day of the year cannot be typed.\<close>

lemma possibleChars_day_of_year:
  "possibleChars ''o'' = Some ''o'' \<and> formatDate cet_2015 regional_names ''o'' (Some 1427583600000) None = ''88''"
  by code_simp

lemma possibleChars_ticks: "possibleChars ''!'' = Some ''!''"
  by code_simp

text \<open>A tick count beyond the range of dates followed by a day of the year: the loop over the months
  compares with NaN and never ends.\<close>

lemma parseDate_endless:
  "parseDate cet_2015 0 regional_names (Some ''!o'') (Some ''999999999999999999991'') None = Inl Diverge"
  by code_simp

text \<open>Before 1970 the timestamp field prints a sign that parsing does not read, and before 1900 the
  two-digit year prints a zero and a sign.\<close>

lemma negative_timestamp_unreadable:
  "formatDate (fixed_zone 0) regional_names ''@'' (Some (- 86400000)) None = ''-86400000'' \<and>
   parseDate (fixed_zone 0) 0 regional_names (Some ''@'') (Some ''-86400000'') None
     = Inl (Throw ''Missing number at position 0'')"
  by code_simp

lemma short_year_before_1900:
  "formatDate (fixed_zone 0) regional_names ''y'' (Some (new_date (fixed_zone 0) 1895 0 1)) None = ''0-5''"
  by code_simp

end
