(* ===== verification/DP_SelectProps.thy ===== *)
theory DP_SelectProps
  imports DP_Select DP_Props
begin

text \<open>
  The properties of an instance's selection, with their witnesses: bounds are kept, months are
  moved with the day clipped, a date that is set is read back, and relative dates are scanned and
  applied as written.
\<close>

section \<open>A host for the witnesses\<close>

definition cet_env :: dp_env where
  "cet_env = \<lparr>e_zone = cet_2015, e_now = 1427630000000, e_defaults = dp_defaults,
     e_beforeShowDay = (\<lambda>f t. (True, [], [])), e_calculateWeek = (\<lambda>f t. []),
     e_beforeShow = (\<lambda>f. Some Map.empty)\<rparr>"

interpretation cet_host: dp_host cet_env
  by (rule dp_host.intro) (simp add: cet_env_def cet.zone_laws_axioms)

definition inst_on :: "int \<Rightarrow> settings \<Rightarrow> inst" where
  "inst_on d st = place_date cet_2015 (midnight_of cet_2015 d) (newInst ''a'' False [] st)"

lemma inst_on_simps [simp]: "on_day d (inst_on d st)" "settings (inst_on d st) = st"
proof -
  have [simp]: "e_zone cet_env = cet_2015" by (simp add: cet_env_def)
  show "on_day d (inst_on d st)" "settings (inst_on d st) = st"
    using cet_host.place_date_simps(5) [of d "newInst ''a'' False [] st"]
    by (simp_all add: inst_on_def newInst_def)
qed

text \<open>A bound given as null, as a date or as a number of days does not depend on the current date.\<close>

fun literal :: "jsv \<Rightarrow> bool" where
  "literal JNull = True"
| "literal (JDate t) = valid_time t"
| "literal (JNum n) = True"
| "literal v = False"

lemma determineDate_literal:
  "literal v \<Longrightarrow> determineDate e i v d = determineDate e j v d"
  by (cases v) (simp_all add: determineDate_def raw_date_def)

lemma literal_bounds:
  assumes "bounds e i lo hi" "literal (dp_get e i ''minDate'')" "literal (dp_get e i ''maxDate'')"
  shows "bounds_fixed e (settings i) lo hi"
  unfolding bounds_fixed_def
proof (intro allI impI)
  fix j :: inst assume j: "settings j = settings i"
  have "getMinMaxDate e j w = getMinMaxDate e i w" if "w = ''min'' \<or> w = ''max''" for w
    using that assms(2,3) determineDate_literal [of _ e j None i]
    by (auto simp: getMinMaxDate_def dp_get_settings [OF j])
  then show "bounds e j lo hi" using assms(1) by (simp add: bounds_def)
qed

section \<open>Moving\<close>

text \<open>C4: Whatever the offset and the period, moving the selection ends on a real date between the
  minimum and the maximum, and the month drawn is the month of that date.\<close>

theorem adjustInstDate_in_bounds:
  assumes "zone_laws (e_zone e)"
    and "getMinMaxDate e i ''min'' = Inr mn" "getMinMaxDate e i ''max'' = Inr mx"
    and "\<forall>a b. mn = Some a \<longrightarrow> mx = Some b \<longrightarrow> a \<le> b"
  shows "\<exists>i' t. adjustInstDate e i offset p = Inr i' \<and>
    selectedYear i' = get_full_year (e_zone e) t \<and> selectedMonth i' = get_month (e_zone e) t \<and>
    selectedDay i' = get_date (e_zone e) t \<and> drawYear i' = selectedYear i' \<and> drawMonth i' = selectedMonth i' \<and>
    (\<forall>a. mn = Some a \<longrightarrow> a \<le> t) \<and> (\<forall>b. mx = Some b \<longrightarrow> t \<le> b)"
proof -
  have host: "dp_host e" by (rule dp_host.intro) (rule assms)
  obtain lo hi where b: "bounds e i lo hi"
    using dp_host.bounds_exist [OF host assms(2,3)] by blast
  then have mn: "mn = map_option (midnight_of (e_zone e)) lo" "mx = map_option (midnight_of (e_zone e)) hi"
    using assms(2,3) by (simp_all add: bounds_def)
  have ne: "nonempty_range lo hi"
    using assms(4) zone_laws.midnight_le_iff [OF assms(1)]
    by (auto simp: mn nonempty_range_def split: option.splits)
  define t where "t = midnight_of (e_zone e) (clamp lo hi (target_day i offset p))"
  have "in_bounds lo hi (clamp lo hi (target_day i offset p))" by (rule clamp_in_bounds [OF ne])
  then have "(\<forall>a. mn = Some a \<longrightarrow> a \<le> t) \<and> (\<forall>b. mx = Some b \<longrightarrow> t \<le> b)"
    using zone_laws.midnight_le_iff [OF assms(1)]
    by (auto simp: t_def mn in_bounds_def)
  moreover have "adjustInstDate e i offset p = Inr (notified e p (select_date (e_zone e) t i))"
    unfolding t_def by (rule dp_host.adjust_inst [OF host b])
  ultimately show ?thesis
    by (intro exI conjI) (auto simp: notified_def select_date_def)
qed

definition bounded_settings :: settings where
  "bounded_settings = [''minDate'' \<mapsto> JDate 1425250800000, ''maxDate'' \<mapsto> JNum 3, ''onChangeMonthYear'' \<mapsto> JFun ''f'']"

theorem adjustInstDate_in_bounds_witness:
  "\<exists>i' t. adjustInstDate cet_env (inst_on 16523 bounded_settings) 5 PMonth = Inr i' \<and>
    selectedYear i' = get_full_year cet_2015 t \<and> selectedMonth i' = get_month cet_2015 t \<and>
    selectedDay i' = get_date cet_2015 t \<and> drawYear i' = selectedYear i' \<and> drawMonth i' = selectedMonth i' \<and>
    1425250800000 \<le> t \<and> t \<le> 1427839200000"
proof -
  have "getMinMaxDate cet_env (inst_on 16523 bounded_settings) ''min'' = Inr (Some 1425250800000)"
    "getMinMaxDate cet_env (inst_on 16523 bounded_settings) ''max'' = Inr (Some 1427839200000)"
    by code_simp+
  from adjustInstDate_in_bounds [OF _ this, of 5 PMonth] show ?thesis
    by (simp add: cet_env_def cet.zone_laws_axioms)
qed

text \<open> Moving by \<open>k\<close> months without bounds shows the month \<open>k\<close> months away, with the day clipped to its
  length and no other change, and announces the new month exactly when the page asked for it.\<close>

theorem adjustInstDate_month:
  assumes "zone_laws (e_zone e)"
    and "getMinMaxDate e i ''min'' = Inr None" "getMinMaxDate e i ''max'' = Inr None"
    and "on_day d i" "plain_year (year_from_day d)"
    and "idx = 12 * selectedYear i + selectedMonth i + k"
  shows "\<exists>i'. adjustInstDate e i k PMonth = Inr i' \<and>
    selectedYear i' = idx div 12 \<and> selectedMonth i' = idx mod 12 \<and>
    selectedDay i' = min (selectedDay i) (month_length (idx div 12) (idx mod 12)) \<and>
    drawYear i' = selectedYear i' \<and> drawMonth i' = selectedMonth i' \<and>
    events i' = events i @ (if truthy (dp_get e i ''onChangeMonthYear'')
      then [ChangeMonthYear (selectedYear i') (selectedMonth i' + 1)] else [])"
proof -
  have host: "dp_host e" by (rule dp_host.intro) (rule assms)
  have b: "bounds e i None None" using assms(2,3) by (simp add: bounds_def)
  define i' where "i' = notified e PMonth
     (select_date (e_zone e) (midnight_of (e_zone e) (target_day i k PMonth)) i)"
  have "adjustInstDate e i k PMonth = Inr i'"
    using dp_host.adjust_inst [OF host b, of k PMonth] by (simp add: i'_def clamp_def)
  moreover have "on_day (target_day i k PMonth) i'"
    unfolding i'_def using dp_host.select_midnight [OF host] by simp
  moreover have "events i' = events i @ (if truthy (dp_get e i ''onChangeMonthYear'')
      then [ChangeMonthYear (selectedYear i') (selectedMonth i' + 1)] else [])"
    by (simp add: i'_def notified_def notifyChange_def dp_get_def)
  ultimately show ?thesis
    using target_month [OF assms(4,5), of k] assms(4,6)
    by (auto simp: on_day_def month_index_def)
qed

theorem adjustInstDate_month_witness:
  "\<exists>i'. adjustInstDate cet_env (inst_on 16465 Map.empty) 1 PMonth = Inr i' \<and>
    selectedYear i' = 2015 \<and> selectedMonth i' = 1 \<and> selectedDay i' = 28 \<and>
    drawYear i' = selectedYear i' \<and> drawMonth i' = selectedMonth i' \<and> events i' = []"
proof -
  have "getMinMaxDate cet_env (inst_on 16465 Map.empty) ''min'' = Inr None"
    "getMinMaxDate cet_env (inst_on 16465 Map.empty) ''max'' = Inr None"
    "plain_year (year_from_day 16465)" "selectedYear (inst_on 16465 Map.empty) = 2015"
    "selectedMonth (inst_on 16465 Map.empty) = 0" "selectedDay (inst_on 16465 Map.empty) = 30"
    "truthy (dp_get cet_env (inst_on 16465 Map.empty) ''onChangeMonthYear'') = False"
    "events (inst_on 16465 Map.empty) = []" "month_length 2015 1 = 28"
    by code_simp+
  with adjustInstDate_month [OF _ this(1,2) inst_on_simps(1) this(3), of "12 * 2015 + 0 + 1" 1]
  show ?thesis by (simp add: cet_env_def cet.zone_laws_axioms)
qed

section \<open>Setting\<close>

text \<open>C5: Setting a date moves it into the bounds; it can then be read back, the calendar stands on
  it, and the field shows its text.\<close>

theorem setDate_getDate:
  assumes "zone_laws (e_zone e)" "bounds_fixed e (settings i) lo hi" "valid_time t"
    and "dp_get e i ''dateFormat'' = JStr f"
    and "c = clamp lo hi (local_day (e_zone e) t)" "plain_year (year_from_day c)" "text_of_day e i f c \<noteq> []"
  shows "\<exists>i'. setDate e i (JDate t) False = Inr i' \<and> getDate e i' = Some (midnight_of (e_zone e) c) \<and>
    on_day c i' \<and> fieldVal i' = text_of_day e i f c"
proof -
  have host: "dp_host e" by (rule dp_host.intro) (rule assms)
  have "determineDate e i (JDate t) (Some (e_now e)) = Inr (Some (midnight_of (e_zone e) (local_day (e_zone e) t)))"
    using assms(3) zone_laws.clear_time_is_midnight [OF assms(1)] zone_laws.dsa_midnight [OF assms(1)]
    by (simp add: determineDate_def raw_date_def)
  from dp_host.setDate_result [OF host assms(2) this assms(4)] assms(5,6)
  obtain i' where i': "setDate e i (JDate t) False = Inr i'" "on_day c i'" "current_on c i'"
    "fieldVal i' = text_of_day e i f c"
    by (auto simp: truthy_def)
  moreover have "getDate e i' = Some (midnight_of (e_zone e) c)"
    by (rule dp_host.getDate_current [OF host i'(3) assms(6)]) (simp add: i'(4) assms(7))
  ultimately show ?thesis by blast
qed

theorem setDate_getDate_witness:
  "\<exists>i'. setDate cet_env (inst_on 16465 bounded_settings) (JDate 1430000000000) False = Inr i' \<and>
    getDate cet_env i' = Some 1427839200000 \<and> on_day 16526 i' \<and> fieldVal i' = ''04/01/2015''"
proof -
  have b: "bounds cet_env (inst_on 16465 bounded_settings) (Some 16496) (Some 16526)"
    by code_simp
  have "literal (dp_get cet_env (inst_on 16465 bounded_settings) ''minDate'')"
    "literal (dp_get cet_env (inst_on 16465 bounded_settings) ''maxDate'')"
    "dp_get cet_env (inst_on 16465 bounded_settings) ''dateFormat'' = JStr ''mm/dd/yy''"
    "clamp (Some 16496) (Some 16526) (local_day (e_zone cet_env) 1430000000000) = 16526"
    "plain_year (year_from_day 16526)" "midnight_of (e_zone cet_env) 16526 = 1427839200000"
    "text_of_day cet_env (inst_on 16465 bounded_settings) ''mm/dd/yy'' 16526 = ''04/01/2015''"
    "valid_time 1430000000000" "zone_laws (e_zone cet_env)"
    by (rule cet_host.zone | code_simp)+
  with setDate_getDate [OF this(9) literal_bounds [OF b this(1,2)] this(8,3)] show ?thesis by auto
qed

section \<open>Reopening a picker on its own text\<close>

definition inst_config :: "dp_env \<Rightarrow> inst \<Rightarrow> format_names" where
  "inst_config e i = format_config (Some (getFormatConfig e i)) (default_names (e_defaults e))"

lemma inst_parse_text:
  assumes "zone_laws (e_zone e)" "dp_get e i ''dateFormat'' = JStr f" "plain_format f" "four_digit f"
    and "config_ok (inst_config e i)" "1000 \<le> year_from_day c" "year_from_day c \<le> 9999"
  shows "inst_parse e i (text_of_day e i f c) = Inr (Some (midnight_of (e_zone e) c))"
proof -
  have "get_full_year (e_zone e) (midnight_of (e_zone e) c) = year_from_day c"
    by (rule zone_laws.date_fields_midnight(1) [OF assms(1)])
  then have "list_all (tok_fits (e_zone e) (e_now e) (cutoff_year (e_zone e) (e_now e)
      (shortYearCutoff (inst_config e i))) (midnight_of (e_zone e) c)) (tokens_of f)"
    using four_digit_fits [OF assms(4)] assms(6,7) by simp
  then show ?thesis
    using zone_laws.parse_of_format [OF assms(1), of "Some (getFormatConfig e i)"
        "default_names (e_defaults e)" "tokens_of f" "e_now e" c] assms(2,3,5,6)
    by (simp add: inst_parse_def inst_config_def str_opt_def plain_format_def fmt_of_tokens_of text_of_day_def)
qed

lemma inst_parse_empty: "inst_parse e i [] \<noteq> Inr (Some t)"
  by (simp add: inst_parse_def parseDate_def split: option.split)

context dp_host
begin

lemma literal_default:
  "literal v \<Longrightarrow> \<exists>d. determineDate e i v (Some (e_now e)) = Inr (Some (midnight_of (e_zone e) d))"
  by (cases v) (auto simp: determineDate_def raw_date_def clear_time_is_midnight)

lemma getDefaultDate_literal:
  assumes "bounds e i lo hi" "literal (dp_get e i ''defaultDate'')"
  shows "\<exists>d. getDefaultDate e i = Inr d"
  using literal_default [OF assms(2), of i] restrict_day [OF assms(1)]
  by (auto simp: getDefaultDate_def needed_def)

end

text \<open> A picker reopened on the text it wrote for a date stands on that date again, for every unambiguous
  format with a four-digit year.\<close>

theorem setDate_reopen:
  assumes "zone_laws (e_zone e)" "bounds_fixed e (settings i) lo hi" "valid_time t"
    and "dp_get e i ''dateFormat'' = JStr f" "plain_format f" "four_digit f" "config_ok (inst_config e i)"
    and "literal (dp_get e i ''defaultDate'')"
    and "c = clamp lo hi (local_day (e_zone e) t)" "1000 \<le> year_from_day c" "year_from_day c \<le> 9999"
  shows "\<exists>i1 i2. setDate e i (JDate t) False = Inr i1 \<and>
    setDateFromField e (i1\<lparr>lastVal := None\<rparr>) False = Inr i2 \<and> on_day c i2 \<and>
    getDate e i2 = Some (midnight_of (e_zone e) c) \<and> fieldVal i2 = text_of_day e i f c"
proof -
  have host: "dp_host e" by (rule dp_host.intro) (rule assms)
  have y: "plain_year (year_from_day c)" using assms(10) by (simp add: plain_year_def)
  have det: "determineDate e i (JDate t) (Some (e_now e)) = Inr (Some (midnight_of (e_zone e) (local_day (e_zone e) t)))"
    using assms(3) zone_laws.clear_time_is_midnight [OF assms(1)] zone_laws.dsa_midnight [OF assms(1)]
    by (simp add: determineDate_def raw_date_def)
  have parse: "inst_parse e i (text_of_day e i f c) = Inr (Some (midnight_of (e_zone e) c))"
    by (rule inst_parse_text [OF assms(1,4-7,10,11)])
  then have ne: "text_of_day e i f c \<noteq> []" using inst_parse_empty by metis
  obtain i1 where i1: "setDate e i (JDate t) False = Inr i1" "settings i1 = settings i"
    "fieldVal i1 = text_of_day e i f c"
    using dp_host.setDate_result [OF host assms(2) det assms(4)] y assms(9) by (auto simp: truthy_def)
  define j where "j = i1\<lparr>lastVal := None\<rparr>"
  have j: "settings j = settings i" "fieldVal j = text_of_day e i f c" "lastVal j = None"
    by (simp_all add: j_def i1)
  have sj: "settings (j\<lparr>lastVal := Some (fieldVal j)\<rparr>) = settings i" by (simp add: j)
  obtain dflt where "getDefaultDate e (j\<lparr>lastVal := Some (fieldVal j)\<rparr>) = Inr dflt"
    using dp_host.getDefaultDate_literal [OF host, of "j\<lparr>lastVal := Some (fieldVal j)\<rparr>" lo hi]
      assms(2,8) sj dp_get_settings [OF sj] by (auto simp: bounds_fixed_def)
  from dp_host.field_result [OF host _ _ this, of lo hi c False] obtain i2 where
    i2: "setDateFromField e j False = Inr i2" "on_day (clamp lo hi c) i2" "current_on c i2"
      "fieldVal i2 = fieldVal j"
    using assms(2) j y parse ne inst_parse_settings [OF j(1)] by auto
  have "getDate e i2 = Some (midnight_of (e_zone e) c)"
    by (rule dp_host.getDate_current [OF host i2(3) y]) (simp add: i2(4) j ne)
  moreover have "clamp lo hi c = c" by (simp add: assms(9))
  ultimately show ?thesis using i1 i2 j by (auto simp: j_def)
qed

theorem setDate_reopen_witness:
  "\<exists>i1 i2. setDate cet_env (inst_on 16465 bounded_settings) (JDate 1430000000000) False = Inr i1 \<and>
    setDateFromField cet_env (i1\<lparr>lastVal := None\<rparr>) False = Inr i2 \<and> on_day 16526 i2 \<and>
    getDate cet_env i2 = Some 1427839200000 \<and> fieldVal i2 = ''04/01/2015''"
proof -
  have b: "bounds cet_env (inst_on 16465 bounded_settings) (Some 16496) (Some 16526)"
    by code_simp
  have f: "literal (dp_get cet_env (inst_on 16465 bounded_settings) ''minDate'')"
    "literal (dp_get cet_env (inst_on 16465 bounded_settings) ''maxDate'')"
    "literal (dp_get cet_env (inst_on 16465 bounded_settings) ''defaultDate'')"
    "dp_get cet_env (inst_on 16465 bounded_settings) ''dateFormat'' = JStr ''mm/dd/yy''"
    "clamp (Some 16496) (Some 16526) (local_day (e_zone cet_env) 1430000000000) = 16526"
    "midnight_of (e_zone cet_env) 16526 = 1427839200000"
    "1000 \<le> year_from_day 16526" "year_from_day 16526 \<le> 9999"
    "text_of_day cet_env (inst_on 16465 bounded_settings) ''mm/dd/yy'' 16526 = ''04/01/2015''"
    "valid_time 1430000000000" "plain_format ''mm/dd/yy''" "four_digit ''mm/dd/yy''"
    by code_simp+
  have "inst_config cet_env (inst_on 16465 bounded_settings) = regional_names\<lparr>shortYearCutoff := CutNum 25\<rparr>"
    by code_simp
  then have "config_ok (inst_config cet_env (inst_on 16465 bounded_settings))"
    using regional_names_ok by (simp add: config_ok_def)
  from setDate_reopen [OF cet_host.zone literal_bounds [OF b f(1,2)] f(10,4,11,12) this f(3)] f
  show ?thesis by auto
qed

section \<open>Relative dates\<close>

text \<open>A relative date as it is documented: a signed number and a unit, any number of them.\<close>

definition offset_text :: "int \<times> char \<Rightarrow> string" where
  "offset_text m = (if fst m < 0 then CHR ''-'' else CHR ''+'') # show_nat \<bar>fst m\<bar> @ [snd m]"

lemma unit_char: "u \<in> set offset_units \<Longrightarrow> \<not> is_digit u \<and> \<not> is_space u"
  by (auto simp: offset_units_def is_digit_def is_space_def)

lemma scan_one:
  assumes "snd m \<in> set offset_units"
  shows "scan_offsets (offset_text m @ rest) = m # scan_offsets rest"
proof -
  have d: "list_all is_digit (show_nat \<bar>fst m\<bar>)" by (rule show_nat_digits) simp
  have u: "\<not> is_digit (snd m)" "\<not> is_space (snd m)" using unit_char [OF assms] by auto
  have "takeWhile is_digit (show_nat \<bar>fst m\<bar> @ snd m # rest) = show_nat \<bar>fst m\<bar>"
    "dropWhile is_digit (show_nat \<bar>fst m\<bar> @ snd m # rest) = snd m # rest"
    using d u(1) by (simp_all add: takeWhile_append2 dropWhile_append2 list_all_iff)
  then show ?thesis
    using assms u(2) by (cases m) (simp add: offset_text_def scan_offsets.simps(2) digits_val_show_nat)
qed

text \<open> The scanner of relative dates reads back any sequence of signed numbers with units.\<close>

theorem scan_offsets_text:
  assumes "\<forall>m \<in> set l. snd m \<in> set offset_units"
  shows "scan_offsets (concat (map offset_text l)) = l"
  using assms by (induction l) (simp_all add: scan_one)

theorem scan_offsets_text_witness:
  "concat (map offset_text [(1, CHR ''m''), (- 7, CHR ''D'')]) = ''+1m-7D'' \<and>
   scan_offsets ''+1m-7D'' = [(1, CHR ''m''), (- 7, CHR ''D'')]"
proof -
  have t: "concat (map offset_text [(1, CHR ''m''), (- 7, CHR ''D'')]) = ''+1m-7D''" by code_simp
  with scan_offsets_text [of "[(1, CHR ''m''), (- 7, CHR ''D'')]"] show ?thesis
    by (simp add: offset_units_def)
qed

end
