(* ===== verification/DP_GridProps.thy ===== *)
theory DP_GridProps
  imports DP_SelectProps
begin

text \<open>
  The properties of what the calendar shows: the grid of a month, the month the drawing starts
  with, the links to the neighbouring months, and the place of the popup.
\<close>

section \<open>Weeks and cells\<close>

context zone_laws
begin

lemma next_print_midnight [simp]: "next_print z (midnight_of z d) = midnight_of z (d + 1)"
  by (simp add: next_print_def set_date_midnight make_day_shift make_day_from_day)

lemma after_days_midnight [simp]: "after_days z n (midnight_of z d) = midnight_of z (d + int n)"
  by (induction n arbitrary: d) (simp_all add: add.commute add.left_commute)

lemma lead_days_eq:
  assumes "0 \<le> fd" "fd \<le> 6"
  shows "lead_days z fd y m = (make_day (full_year y) m 1 + 4 - fd) mod 7"
proof -
  have "0 \<le> (make_day (full_year y) m 1 + 4) mod 7 - fd + 7" using assms by (simp add: add_nonneg_nonneg)
  then have "lead_days z fd y m = ((make_day (full_year y) m 1 + 4) mod 7 - fd + 7) mod 7"
    by (simp add: lead_days_def getFirstDayOfMonth_def new_date_midnight js_mod_nonneg)
  moreover have "(x mod 7 - fd + 7) mod 7 = (x - fd) mod 7" for x :: int
    by (simp add: mod_diff_left_eq)
  ultimately show ?thesis by (simp only:)
qed

lemma first_print_midnight:
  "first_print z fd y m = midnight_of z (make_day (full_year y) m 1 - lead_days z fd y m)"
  using make_day_shift [of "full_year y" m 1 "- lead_days z fd y m"]
  by (simp add: first_print_def new_date_midnight)

end

lemma week_cells_map:
  assumes "zone_laws (e_zone e)"
  shows "week_cells e i g n dow (midnight_of (e_zone e) d) =
    map (\<lambda>k. day_cell e i g (dow + int k) (midnight_of (e_zone e) (d + int k))) [0..<n]"
proof (induction n arbitrary: dow d)
  case (Suc n)
  have "map (\<lambda>k. day_cell e i g (dow + int k) (midnight_of (e_zone e) (d + int k))) [0..<Suc n] =
    day_cell e i g dow (midnight_of (e_zone e) d) #
    map (\<lambda>k. day_cell e i g (dow + 1 + int k) (midnight_of (e_zone e) (d + 1 + int k))) [0..<n]"
    by (simp add: upt_conv_Cons map_Suc_upt [symmetric] algebra_simps del: upt_Suc)
  then show ?case
    using Suc [of "dow + 1" "d + 1"] zone_laws.next_print_midnight [OF assms] by simp
qed simp

lemma grid_weeks_map:
  assumes "zone_laws (e_zone e)"
  shows "grid_weeks e i g n (midnight_of (e_zone e) d) =
    map (\<lambda>r. (midnight_of (e_zone e) (d + 7 * int r),
              week_cells e i g 7 0 (midnight_of (e_zone e) (d + 7 * int r)))) [0..<n]"
proof (induction n arbitrary: d)
  case (Suc n)
  have "map (\<lambda>r. (midnight_of (e_zone e) (d + 7 * int r),
              week_cells e i g 7 0 (midnight_of (e_zone e) (d + 7 * int r)))) [0..<Suc n] =
    (midnight_of (e_zone e) d, week_cells e i g 7 0 (midnight_of (e_zone e) d)) #
    map (\<lambda>r. (midnight_of (e_zone e) (d + 7 + 7 * int r),
              week_cells e i g 7 0 (midnight_of (e_zone e) (d + 7 + 7 * int r)))) [0..<n]"
    by (simp add: upt_conv_Cons map_Suc_upt [symmetric] algebra_simps del: upt_Suc week_cells.simps)
  then show ?case
    using Suc [of "d + 7"] zone_laws.after_days_midnight [OF assms, of 7 d] by simp
qed simp

lemma concat_blocks:
  "concat (map (\<lambda>r. map (\<lambda>k. f (m * r + k)) [0..<m]) [0..<n]) = map f [0..<m * n]"
proof (induction n)
  case (Suc n)
  have "map (\<lambda>k. f (m * n + k)) [0..<m] = map f [m * n..<m * n + m]"
    by (rule nth_equalityI) simp_all
  moreover have "[0..<m * Suc n] = [0..<m * n] @ [m * n..<m * n + m]"
    using upt_add_eq_append [of 0 "m * n" m] by (simp add: add.commute)
  ultimately show ?case using Suc by simp
qed simp

text \<open>All the dates of the grid in order: consecutive days.\<close>

lemma grid_dates:
  assumes "zone_laws (e_zone e)"
  shows "concat (map snd (grid_weeks e i g n (midnight_of (e_zone e) d))) =
    map (\<lambda>k. day_cell e i g (int (k mod 7)) (midnight_of (e_zone e) (d + int k))) [0..<7 * n]"
proof -
  define f where "f = (\<lambda>k. day_cell e i g (int (k mod 7)) (midnight_of (e_zone e) (d + int k)))"
  have "map snd (grid_weeks e i g n (midnight_of (e_zone e) d)) = map (\<lambda>r. map (\<lambda>k. f (7 * r + k)) [0..<7]) [0..<n]"
    by (auto simp: grid_weeks_map [OF assms] week_cells_map [OF assms] f_def algebra_simps
        simp del: week_cells.simps upt_Suc)
  then have "concat (map snd (grid_weeks e i g n (midnight_of (e_zone e) d))) = map f [0..<7 * n]"
    by (simp only: concat_blocks)
  then show ?thesis by (simp only: f_def)
qed

section \<open>The days of a month in the grid\<close>

text \<open>Days shortly before and after a month lie in the neighbouring months.\<close>

lemma month_of_offset:
  assumes "0 \<le> m" "m \<le> 11" "- 27 \<le> k" "k < month_length y m + 28"
  shows "month_from_day (make_day y m 1 + k) = m \<longleftrightarrow> 0 \<le> k \<and> k < month_length y m"
proof -
  have ym: "make_day y m 1 + k = make_day y m (k + 1)" by (simp add: make_day_shift add.commute)
  consider "k < 0" | "0 \<le> k" "k < month_length y m" | "month_length y m \<le> k" by linarith
  then show ?thesis
  proof cases
    case 2
    then have "civil y (m + 1) (k + 1)" using assms by (simp add: civil_def)
    with civil_fields(2) [OF this] 2 show ?thesis by (simp add: ym)
  next
    case 3
    define m' y' where "m' = (m + 1) mod 12" and "y' = y + (m + 1) div 12"
    have m': "0 \<le> m'" "m' \<le> 11" using pos_mod_bound [of 12 "m + 1"] by (simp_all add: m'_def)
    have "m' \<noteq> m" using assms(1,2) by (cases "m = 11") (simp_all add: m'_def)
    have "make_day y m (k + 1) = make_day y (m + 1) (k + 1 - month_length y m)"
      using make_day_next_month [OF assms(1,2), of y "k + 1 - month_length y m"] by simp
    also have "\<dots> = make_day y' m' (k + 1 - month_length y m)"
      unfolding y'_def m'_def by (rule make_day_normal)
    finally have e: "make_day y m (k + 1) = make_day y' m' (k + 1 - month_length y m)" .
    have "civil y' (m' + 1) (k + 1 - month_length y m)"
      using 3 assms(4) m' month_length_bounds [OF m', of y'] by (simp add: civil_def)
    from civil_fields(2) [OF this] \<open>m' \<noteq> m\<close> 3 show ?thesis by (simp add: ym e)
  next
    case 1
    define m' y' where "m' = (m - 1) mod 12" and "y' = y + (m - 1) div 12"
    have m': "0 \<le> m'" "m' \<le> 11" using pos_mod_bound [of 12 "m - 1"] by (simp_all add: m'_def)
    have "m' \<noteq> m" using assms(1,2) by (cases "m = 0") (simp_all add: m'_def)
    have n: "(m' + 1) mod 12 = m mod 12" "y' + (m' + 1) div 12 = y + m div 12"
      using assms(1,2) by (cases "m = 0"; simp add: m'_def y'_def)+
    have "make_day y m (k + 1) = make_day y' (m' + 1) (k + 1)"
      using make_day_normal [of y m "k + 1"] make_day_normal [of y' "m' + 1" "k + 1"] n by simp
    also have "\<dots> = make_day y' m' (month_length y' m' + (k + 1))"
      using make_day_next_month [OF m', of y' "k + 1"] by simp
    finally have e: "make_day y m (k + 1) = make_day y' m' (month_length y' m' + (k + 1))" .
    have "civil y' (m' + 1) (month_length y' m' + (k + 1))"
      using 1 assms(3) m' month_length_bounds [OF m', of y'] by (simp add: civil_def)
    from civil_fields(2) [OF this] \<open>m' \<noteq> m\<close> 1 show ?thesis by (simp add: ym e)
  qed
qed

lemma filter_segment:
  assumes "\<And>k. k < n \<Longrightarrow> P k \<longleftrightarrow> a \<le> k \<and> k < a + b" "a + b \<le> n"
  shows "filter P [0..<n] = [a..<a + b]"
proof -
  have s: "[0..<n] = [0..<a] @ [a..<a + b] @ [a + b..<n]"
    using assms(2) upt_add_eq_append [of 0 a "n - a"] upt_add_eq_append [of a "a + b" "n - (a + b)"]
    by simp
  have "filter P [0..<a] = []" "filter P [a + b..<n] = []" "filter P [a..<a + b] = [a..<a + b]"
    using assms by (auto simp: filter_empty_conv filter_id_conv)
  with s show ?thesis by simp
qed

lemma ceil_div7_bounds: "7 * ceil_div7 n \<ge> n" "7 * ceil_div7 n < n + 7"
  using div_mult_mod_eq [of "- n" 7] pos_mod_bound [of 7 "- n"] pos_mod_sign [of 7 "- n"]
  by (simp_all add: ceil_div7_def)

lemma day_cell_date: "c_date (day_cell e i g dow t) = t" "c_dow (day_cell e i g dow t) = dow"
  by (simp_all add: day_cell_def Let_def split: prod.split)

lemma lead_dow:
  "lead = (d + 4 - fd) mod 7 \<Longrightarrow> (d - lead + int k + 4) mod 7 = (int (k mod 7) + fd) mod (7::int)"
  by (simp add: zmod_int mod_simps algebra_simps)

lemma cell_in_month:
  assumes "zone_laws (e_zone e)" "0 \<le> m" "m \<le> 11" "g_drawMonth g = m" "0 \<le> lead" "lead < 7" "k < 42"
  shows "\<not> c_other (day_cell e i g dow (midnight_of (e_zone e) (make_day y m 1 - lead + int k))) \<longleftrightarrow>
    nat lead \<le> k \<and> k < nat lead + nat (month_length y m)"
proof -
  have "get_month (e_zone e) (midnight_of (e_zone e) (make_day y m 1 - lead + int k)) =
      month_from_day (make_day y m 1 + (int k - lead))"
    using zone_laws.date_fields_midnight(2) [OF assms(1)] by (simp add: algebra_simps)
  moreover have "28 \<le> month_length y m" "month_length y m \<le> 31"
    using month_length_bounds [OF assms(2,3)] by auto
  ultimately show ?thesis
    using month_of_offset [OF assms(2,3), of "int k - lead" y] assms(4-7)
    by (auto simp: day_cell_def Let_def split: prod.splits)
qed

text \<open>The rows of the grid hold the whole month.\<close>

lemma rows_hold_month:
  assumes "zone_laws z" "plain_year y" "0 \<le> m" "m \<le> 11" "cur_rows z fd y m \<le> int n"
  shows "lead_days z fd y m + month_length y m \<le> 7 * int n"
proof -
  have "full_year y + m div 12 = y" "m mod 12 = m" using assms(2-4) by simp_all
  then have "getDaysInMonth z y m = month_length y m"
    using zone_laws.days_in_month [OF assms(1), of y m] by simp
  then show ?thesis
    using ceil_div7_bounds(1) [of "lead_days z fd y m + month_length y m"] assms(5)
    by (simp add: cur_rows_def)
qed

text \<open>C6: The grid of a month shows each of its days exactly once, in order, with the days of the week in
  their columns; the other cells belong to other months. This holds for the number of rows the month
  needs and for a larger one, up to six, taken from a longer month of the same row.\<close>

theorem grid_shows_month:
  assumes "zone_laws (e_zone e)" "plain_year y" "0 \<le> m" "m \<le> 11" "0 \<le> fd" "fd \<le> 6" "g_drawMonth g = m"
    and "cur_rows (e_zone e) fd y m \<le> int n" "n \<le> 6"
    and "cells = concat (map snd (grid_weeks e i g n (first_print (e_zone e) fd y m)))"
  shows "map c_date (filter (\<lambda>c. \<not> c_other c) cells) =
      map (\<lambda>k. midnight_of (e_zone e) (make_day y m (1 + int k))) [0..<nat (month_length y m)] \<and>
    (\<forall>c \<in> set cells. get_day (e_zone e) (c_date c) = (c_dow c + fd) mod 7)"
proof -
  define z where "z = e_zone e"
  define d where "d = make_day y m 1"
  define lead where "lead = lead_days z fd y m"
  define D where "D k = midnight_of z (d - lead + int k)" for k
  have z: "zone_laws z" using assms(1) by (simp add: z_def)
  have lead: "lead = (d + 4 - fd) mod 7"
    using zone_laws.lead_days_eq [OF z assms(5,6), of y m] assms(2) by (simp add: lead_def d_def)
  then have l: "0 \<le> lead" "lead < 7" by simp_all
  have cells: "cells = map (\<lambda>k. day_cell e i g (int (k mod 7)) (D k)) [0..<7 * n]"
    using grid_dates [OF assms(1), of i g n "d - lead"] zone_laws.first_print_midnight [OF z, of fd y m]
      assms(2,10) by (simp add: z_def [symmetric] lead_def d_def D_def)
  have other: "\<not> c_other (day_cell e i g dow (D k)) \<longleftrightarrow> nat lead \<le> k \<and> k < nat lead + nat (month_length y m)"
    if "k < 7 * n" for k dow
    using cell_in_month [OF assms(1,3,4,7) l, of k i dow y] that assms(9) by (simp add: D_def d_def z_def)
  have "filter (\<lambda>c. \<not> c_other c) cells = map (\<lambda>k. day_cell e i g (int (k mod 7)) (D k))
      (filter (\<lambda>k. nat lead \<le> k \<and> k < nat lead + nat (month_length y m)) [0..<7 * n])"
    unfolding cells filter_map by (rule arg_cong [where f = "map _"]) (rule filter_cong, auto simp: other)
  also have "\<dots> = map (\<lambda>k. day_cell e i g (int (k mod 7)) (D k)) [nat lead..<nat lead + nat (month_length y m)]"
    using rows_hold_month [OF z assms(2-4), of fd n] assms(8) l month_length_bounds [OF assms(3,4), of y]
    by (subst filter_segment [of _ _ "nat lead" "nat (month_length y m)"]) (auto simp: z_def lead_def)
  finally have "map c_date (filter (\<lambda>c. \<not> c_other c) cells) =
      map (\<lambda>k. midnight_of z (make_day y m (1 + int k))) [0..<nat (month_length y m)]"
    using map_add_upt [of "nat lead" "nat (month_length y m)", symmetric] l
    by (simp add: day_cell_date o_def D_def d_def make_day_shift add.commute)
  moreover have "get_day z (c_date c) = (c_dow c + fd) mod 7" if "c \<in> set cells" for c
    using that zone_laws.date_fields_midnight(4) [OF z] lead_dow [OF lead]
    by (auto simp: cells D_def day_cell_date)
  ultimately show ?thesis by (simp add: z_def)
qed

theorem grid_shows_month_witness:
  "map c_date (filter (\<lambda>c. \<not> c_other c) (concat (map snd
     (grid_weeks cet_env (inst_on 16465 Map.empty)
        (month_grid cet_env (inst_on 16465 Map.empty) None None 1 2 0 0 0) 6 (first_print cet_2015 1 2015 2))))) =
   map (\<lambda>k. midnight_of cet_2015 (make_day 2015 2 (1 + int k))) [0..<31]"
proof -
  have z: "e_zone cet_env = cet_2015" by (simp add: cet_env_def)
  have "cur_rows cet_2015 1 2015 2 \<le> int 6" "month_length 2015 2 = 31"
    "g_drawMonth (month_grid cet_env (inst_on 16465 Map.empty) None None 1 2 0 0 0) = 2"
    by code_simp+
  then show ?thesis
    using grid_shows_month [OF cet_host.zone, of 2015 2 1
        "month_grid cet_env (inst_on 16465 Map.empty) None None 1 2 0 0 0" 6 _ "inst_on 16465 Map.empty"]
    by (simp add: z plain_year_def)
qed

section \<open>The month the drawing starts with\<close>

lemma back_to_step:
  "back_to z mx ym = (if daylightSavingAdjust z (new_date z (fst ym) (snd ym) 1) > mx
     then back_to z mx (prev_month ym) else Some ym)"
  by (rule back_to.simps)

definition first_of :: "int \<times> int \<Rightarrow> int" where
  "first_of ym = make_day (full_year (fst ym)) (snd ym) 1"

lemma prev_month_index:
  "0 \<le> m \<Longrightarrow> month_index (fst (prev_month (y, m))) (snd (prev_month (y, m))) = month_index y m - 1"
  by (auto simp: prev_month_def month_index_def)

lemma prev_month_range:
  "0 \<le> m \<Longrightarrow> m \<le> 11 \<Longrightarrow> 0 \<le> snd (prev_month (y, m)) \<and> snd (prev_month (y, m)) \<le> 11"
  by (auto simp: prev_month_def)

lemma month_start_step: "0 \<le> m \<Longrightarrow> m \<le> 11 \<Longrightarrow> month_start l m \<le> month_start l (m + 1)"
  by (cases m rule: month_cases) (auto simp: month_start_def)

lemma month_start_le:
  assumes "0 \<le> i" "i \<le> j" "j \<le> 11"
  shows "month_start l i \<le> month_start l j"
  using assms(2,3)
proof (induction j rule: int_ge_induct)
  case (step j)
  then show ?case using month_start_step [of j l] assms(1) by simp
qed simp

lemma month_from_day_12 [simp]:
  "month_from_day d div 12 = 0" "month_from_day d mod 12 = month_from_day d"
  by (simp_all add: div_pos_pos_trivial mod_pos_pos_trivial order.strict_trans1 [OF month_from_day_range(2)])

lemma month_starts_early:
  assumes "y < 0" "y \<le> year_from_day h" "0 \<le> m" "m \<le> 11" "y < year_from_day h \<or> m \<le> month_from_day h"
  shows "first_of (y, m) \<le> h"
proof -
  have y: "full_year y = y" using assms(1) by (simp add: full_year_def)
  show ?thesis
  proof (cases "y = year_from_day h")
    case True
    have "month_start (leap y) m \<le> month_start (leap y) (month_from_day h)"
      using assms True by (intro month_start_le) auto
    then have "make_day y m 1 \<le> make_day y (month_from_day h) 1"
      using assms(3,4) by (simp add: make_day_def Let_def)
    also have "\<dots> \<le> make_day y (month_from_day h) (date_from_day h)"
      using date_from_day_range(1) [of h] by (simp add: make_day_def Let_def)
    finally show ?thesis using True y by (simp add: first_of_def make_day_from_day)
  next
    case False
    have "first_of (y, m) = day_from_year y + month_start (leap y) m"
      using y assms(3,4) by (simp add: first_of_def make_day_def)
    also have "\<dots> < day_from_year (y + 1)"
      using month_start_le [OF assms(3,4), of "leap y"]
      by (cases "leap y") (simp_all add: day_from_year_Suc year_length_def month_start_def [of _ 11])
    also have "\<dots> \<le> day_from_year (year_from_day h)"
      using False assms(2) by (intro day_from_year_mono) simp
    also have "\<dots> \<le> h" by (rule year_from_day_bounds(1))
    finally show ?thesis by simp
  qed
qed

text \<open>The loop reaches a month that starts early enough: below year 0 each step moves a month back.\<close>

lemma back_to_index:
  assumes "zone_laws z" "0 \<le> m" "m \<le> 11"
  shows "\<exists>ym. back_to z (midnight_of z h) (y, m) = Some ym \<and> first_of ym \<le> h \<and> 0 \<le> snd ym \<and> snd ym \<le> 11 \<and>
    month_index (fst ym) (snd ym) \<le> month_index y m \<and>
    (\<forall>y' m'. 0 \<le> m' \<longrightarrow> m' \<le> 11 \<longrightarrow> month_index (fst ym) (snd ym) < month_index y' m' \<longrightarrow>
       month_index y' m' \<le> month_index y m \<longrightarrow> h < first_of (y', m'))"
  using assms(2,3)
proof (induction "nat (month_index y m - month_index (min (-1) (year_from_day h) - 1) 11)"
    arbitrary: y m rule: less_induct)
  case less
  have cond: "(daylightSavingAdjust z (new_date z y m 1) > midnight_of z h) \<longleftrightarrow> h < first_of (y, m)"
    using zone_laws.dsa_midnight [OF assms(1)] zone_laws.midnight_less_iff [OF assms(1)]
    by (simp add: new_date_midnight first_of_def)
  have self: "y' = y \<and> m' = m" if "0 \<le> m'" "m' \<le> 11" "month_index y' m' = month_index y m" for y' m'
    using that less.prems unfolding month_index_def by presburger
  show ?case
  proof (cases "h < first_of (y, m)")
    case False
    then show ?thesis
      using less.prems by (subst back_to_step) (auto simp: cond)
  next
    case True
    define Y M where p: "Y = fst (prev_month (y, m))" "M = snd (prev_month (y, m))"
    have M: "0 \<le> M" "M \<le> 11" "month_index Y M = month_index y m - 1"
      using prev_month_range [OF less.prems, of y] prev_month_index [OF less.prems(1), of y] by (auto simp: p)
    have "\<not> (y < min (-1) (year_from_day h) \<or> y < 0 \<and> y \<le> year_from_day h \<and> m = 0)"
      using month_starts_early [of y h m] True less.prems by (auto simp: not_le)
    then have "month_index (min (-1) (year_from_day h) - 1) 11 < month_index y m"
      using less.prems by (auto simp: month_index_def)
    then have "nat (month_index Y M - month_index (min (-1) (year_from_day h) - 1) 11)
        < nat (month_index y m - month_index (min (-1) (year_from_day h) - 1) 11)"
      using M by simp
    from less.hyps [OF this M(1,2)] obtain ym where
      ym: "back_to z (midnight_of z h) (Y, M) = Some ym" "first_of ym \<le> h" "0 \<le> snd ym" "snd ym \<le> 11"
        "month_index (fst ym) (snd ym) \<le> month_index Y M"
        "\<forall>y' m'. 0 \<le> m' \<longrightarrow> m' \<le> 11 \<longrightarrow> month_index (fst ym) (snd ym) < month_index y' m' \<longrightarrow>
           month_index y' m' \<le> month_index Y M \<longrightarrow> h < first_of (y', m')"
      by blast
    have "back_to z (midnight_of z h) (y, m) = Some ym"
      using ym(1) True by (subst back_to_step) (simp add: cond p)
    moreover have "h < first_of (y', m')"
      if "0 \<le> m'" "m' \<le> 11" "month_index (fst ym) (snd ym) < month_index y' m'"
        "month_index y' m' \<le> month_index y m" for y' m'
      using ym(6) that self [OF that(1,2)] True M(3)
      by (cases "month_index y' m' = month_index y m") auto
    ultimately show ?thesis using ym M by (intro exI [of _ ym]) auto
  qed
qed

text \<open> With an upper bound, the loop that looks for the month to draw ends, on the latest month not
  after the requested one whose first day is not after the last date that may be drawn.\<close>

theorem draw_start_returns:
  assumes "zone_laws z" "0 \<le> m" "m \<le> 11"
  shows "\<exists>y' m'. back_to z (midnight_of z h) (y, m) = Some (y', m') \<and> 0 \<le> m' \<and> m' \<le> 11 \<and>
    new_date z y' m' 1 \<le> midnight_of z h \<and> 12 * y' + m' \<le> 12 * y + m \<and>
    (\<forall>Y M. 0 \<le> M \<longrightarrow> M \<le> 11 \<longrightarrow> 12 * y' + m' < 12 * Y + M \<longrightarrow> 12 * Y + M \<le> 12 * y + m \<longrightarrow>
       midnight_of z h < new_date z Y M 1)"
  using back_to_index [OF assms, of h y] zone_laws.midnight_less_iff [OF assms(1)]
    zone_laws.midnight_le_iff [OF assms(1)]
  by (auto simp: month_index_def first_of_def new_date_midnight)

theorem draw_start_returns_witness:
  "\<exists>y' m'. back_to cet_2015 (midnight_of cet_2015 16526) (2016, 5) = Some (y', m') \<and>
    new_date cet_2015 y' m' 1 \<le> midnight_of cet_2015 16526 \<and> 12 * y' + m' \<le> 12 * 2016 + 5"
  using draw_start_returns [OF zone_laws_cet, of 5 16526 2016] by auto

end
