(* ===== verification/DP_UseProps.thy ===== *)
theory DP_UseProps
  imports DP_GridProps
begin

text \<open>
  The properties of the picker in use: the links to the neighbouring months, picking a day,
  disabled pickers, changing the format under bounds, relative dates in months, the popup's place.
\<close>

section \<open>The links to the neighbouring months\<close>

text \<open>The default year range \<open>c-10:c+10\<close> has no number at its start, so it restricts nothing.\<close>

definition free_years :: "dp_env \<Rightarrow> inst \<Rightarrow> bool" where
  "free_years e i \<longleftrightarrow> dp_get e i ''yearRange'' = JStr '''' \<or> dp_get e i ''yearRange'' = JStr ''c-10:c+10''"

lemma default_range_free:
  "split_colon ''c-10:c+10'' = (''c-10'', Some ''c+10'')"
  "range_year y ''c-10'' = None" "range_year y ''c+10'' = None"
  by (simp_all add: split_colon_def range_year_def js_parse_int_def is_space_def is_digit_def)

context dp_host
begin

lemma isInRange_free:
  assumes "bounds e i lo hi" "free_years e i"
  shows "isInRange e i (midnight_of (e_zone e) d) = Inr (in_bounds lo hi d)"
  using assms by (auto simp: isInRange_def bounds_def free_years_def truthy_def default_range_free
      year_bound_def in_bounds_def Let_def split: option.split)

lemma canAdjust_free:
  assumes "bounds e i lo hi" "free_years e i" "plain_year y" "getNumberOfMonths e i = (r, c)"
    and "plain_year (year_from_day (make_day y m 1 - 1))" "0 \<le> m" "m \<le> 11"
  shows "canAdjustMonth e i (-1) y m = Inr (in_bounds lo hi (make_day y m 1 - 1))"
    "canAdjustMonth e i 1 y m = Inr (in_bounds lo hi (make_day y (m + r * c) 1))"
proof -
  define p where "p = make_day y (m - 1) 1"
  define Y M where YM: "Y = y + (m - 1) div 12" "M = (m - 1) mod 12"
  have M: "0 \<le> M" "M \<le> 11" using pos_mod_bound [of 12 "m - 1"] by (simp_all add: YM)
  have pYM: "p = make_day Y M 1" unfolding p_def YM by (rule make_day_normal)
  have "civil Y (M + 1) 1" using M month_length_bounds [OF M, of Y] by (simp add: civil_def)
  from civil_fields [OF this] have f: "year_from_day p = Y" "month_from_day p = M" by (simp_all add: pYM)
  have "make_day Y M (month_length Y M) = make_day Y (M + 1) 0"
    using make_day_next_month [OF M, of Y 0] by simp
  also have "\<dots> = make_day y m 0"
  proof -
    have "(M + 1) mod 12 = m mod 12" "Y + (M + 1) div 12 = y + m div 12"
      using assms(6,7) by (cases "m = 0"; simp add: YM)+
    then show ?thesis using make_day_normal [of Y "M + 1" 0] make_day_normal [of y m 0] by simp
  qed
  finally have last: "make_day Y M (month_length Y M) = make_day y m 1 - 1"
    using make_day_shift [of y m 1 "-1"] by simp
  have "civil Y (M + 1) (month_length Y M)" using M month_length_bounds [OF M, of Y] by (simp add: civil_def)
  from civil_fields(1) [OF this] have "plain_year Y" using assms(5) last by simp
  then have "getDaysInMonth (e_zone e) Y M = month_length Y M"
    using M by (simp add: days_in_month)
  then have "set_date (e_zone e) (midnight_of (e_zone e) p)
      (getDaysInMonth (e_zone e) (year_from_day p) (month_from_day p)) = midnight_of (e_zone e) (make_day y m 1 - 1)"
    by (simp add: set_date_midnight f last)
  then show "canAdjustMonth e i (-1) y m = Inr (in_bounds lo hi (make_day y m 1 - 1))"
    using assms(3,4) isInRange_free [OF assms(1,2)]
    by (simp add: canAdjustMonth_def new_date_midnight p_def [symmetric])
  show "canAdjustMonth e i 1 y m = Inr (in_bounds lo hi (make_day y (m + r * c) 1))"
    using assms(3,4) isInRange_free [OF assms(1,2)]
    by (simp add: canAdjustMonth_def new_date_midnight)
qed

end

text \<open> While the drawn months touch the allowed dates, the link back is enabled exactly when an
  allowed date lies before them, and the link forward exactly when one lies after.\<close>

theorem canAdjustMonth_correct:
  assumes "zone_laws (e_zone e)" "bounds e i lo hi" "free_years e i"
    and "plain_year y" "plain_year (year_from_day (make_day y m 1 - 1))" "0 \<le> m" "m \<le> 11"
    and "getNumberOfMonths e i = (r, c)" "first = make_day y m 1" "after = make_day y (m + r * c) 1"
    and "\<forall>b. hi = Some b \<longrightarrow> first \<le> b" "\<forall>a. lo = Some a \<longrightarrow> a < after"
  shows "canAdjustMonth e i (-1) y m = Inr (\<exists>d. in_bounds lo hi d \<and> d < first) \<and>
    canAdjustMonth e i 1 y m = Inr (\<exists>d. in_bounds lo hi d \<and> after \<le> d)"
proof -
  have host: "dp_host e" by (rule dp_host.intro) (rule assms)
  note can = dp_host.canAdjust_free [OF host assms(2,3,4,8,5,6,7)]
  have "in_bounds lo hi (first - 1) \<longleftrightarrow> (\<exists>d. in_bounds lo hi d \<and> d < first)"
  proof
    assume "\<exists>d. in_bounds lo hi d \<and> d < first"
    then show "in_bounds lo hi (first - 1)"
      using assms(11) by (force simp: in_bounds_def split: option.splits)
  qed (intro exI [of _ "first - 1"], simp)
  moreover have "in_bounds lo hi after \<longleftrightarrow> (\<exists>d. in_bounds lo hi d \<and> after \<le> d)"
    using assms(12) by (force simp: in_bounds_def split: option.splits)
  ultimately show ?thesis using can assms(9,10) by simp
qed

theorem canAdjustMonth_correct_witness:
  "canAdjustMonth cet_env (inst_on 16523 bounded_settings) (-1) 2015 2 = Inr False \<and>
   canAdjustMonth cet_env (inst_on 16523 bounded_settings) 1 2015 2 = Inr True"
proof -
  have f: "bounds cet_env (inst_on 16523 bounded_settings) (Some 16496) (Some 16526)"
    "free_years cet_env (inst_on 16523 bounded_settings)"
    "getNumberOfMonths cet_env (inst_on 16523 bounded_settings) = (1, 1)"
    "make_day 2015 2 1 = 16495" "make_day 2015 3 1 = 16526"
    "plain_year (year_from_day 16494)" "plain_year 2015"
    by code_simp+
  have "canAdjustMonth cet_env (inst_on 16523 bounded_settings) (-1) 2015 2 =
      Inr (\<exists>d. in_bounds (Some 16496) (Some 16526) d \<and> d < 16495) \<and>
    canAdjustMonth cet_env (inst_on 16523 bounded_settings) 1 2015 2 =
      Inr (\<exists>d. in_bounds (Some 16496) (Some 16526) d \<and> 16526 \<le> d)"
    by (rule canAdjustMonth_correct [OF cet_host.zone f(1,2,7) _ _ _ f(3)]) (simp_all add: f(4-7))
  moreover have "(\<exists>d. in_bounds (Some 16496) (Some 16526) d \<and> d < 16495) = False"
    by (auto simp: in_bounds_def)
  moreover have "(\<exists>d. in_bounds (Some 16496) (Some 16526) d \<and> 16526 \<le> d) = True"
    using exI [of "\<lambda>d. in_bounds (Some 16496) (Some 16526) d \<and> 16526 \<le> d" 16526] by (simp add: in_bounds_def)
  ultimately show ?thesis by (simp only: simp_thms)
qed

section \<open>Relative months\<close>

text \<open> The relative date \<open>+km\<close> (or \<open>-km\<close>) is \<open>k\<close> months from today, on the same day of the month or on the
  last day of a shorter month.\<close>

theorem relative_month:
  assumes "zone_laws (e_zone e)" "today = local_day (e_zone e) (e_now e)" "snd k = CHR ''m''"
    and "idx = 12 * year_from_day today + month_from_day today + fst k"
    and "plain_year (year_from_day today)" 
  shows "relative_date e i (offset_text k) = midnight_of (e_zone e)
    (make_day (idx div 12) (idx mod 12) (min (date_from_day today) (month_length (idx div 12) (idx mod 12))))"
proof -
  have scan: "scan_offsets (offset_text k) = [k]"
    using scan_one [of k "[]"] assms(3) by (simp add: offset_units_def)
  have "lower_char (hd (offset_text k)) \<noteq> CHR ''c''"
    by (auto simp: offset_text_def lower_char_def)
  then have base: "offset_base e i (offset_text k) = e_now e" by (simp add: offset_base_def)
  define mm where "mm = month_from_day today + fst k"
  have i: "idx = mm + year_from_day today * 12" by (simp add: assms(4) mm_def)
  have f: "get_full_year (e_zone e) (e_now e) = year_from_day today" "get_month (e_zone e) (e_now e) = month_from_day today"
    "get_date (e_zone e) (e_now e) = date_from_day today"
    by (simp_all add: date_fields assms(2))
  have n: "make_day (idx div 12) (idx mod 12) x = make_day (year_from_day today) mm x" for x
    using make_day_normal [of "year_from_day today" mm x] by (simp add: i add.commute)
  have "idx div 12 = year_from_day today + mm div 12" "idx mod 12 = mm mod 12" by (simp_all add: i)
  moreover have "apply_offset (e_zone e) k (Y, M, D) =
      (Y, M + fst k, min D (getDaysInMonth (e_zone e) Y (M + fst k)))" for Y M D
    using assms(3) by (cases k) (simp add: apply_offset_def)
  ultimately show ?thesis
    using assms(5) zone_laws.days_in_month [OF assms(1)] unfolding n
    by (simp add: relative_date_def Let_def base scan f new_date_midnight mm_def)
qed

theorem relative_month_witness:
  "relative_date cet_env (inst_on 16523 Map.empty) ''-1m'' = midnight_of cet_2015 16494"
proof -
  have f: "local_day (e_zone cet_env) (e_now cet_env) = 16523" "year_from_day 16523 = 2015" "month_from_day 16523 = 2"
    "date_from_day 16523 = 29" "month_length 2015 1 = 28" "make_day 2015 1 28 = 16494"
    "offset_text (-1, CHR ''m'') = ''-1m''"
    by code_simp+
  show ?thesis
    using relative_month [OF cet_host.zone refl, of "(-1, CHR ''m'')" _ "inst_on 16523 Map.empty"] f
    by (simp add: plain_year_def) (simp add: cet_env_def)
qed

section \<open>Picking a day\<close>

text \<open> Picking the cell the calendar drew for a date selects that date: the field gets its text, reading the
  date back gives it, and the popup of the picker is closed.\<close>

theorem selectDay_picks:
  assumes "zone_laws (e_zone e)" "insts M x = Some i" "\<not> isDisabledDatepicker M x" "\<not> inline i"
    and "c = day_cell e i g dow (midnight_of (e_zone e) d)" "plain_year (year_from_day d)"
    and "dp_get e i ''dateFormat'' = JStr f" "text_of_day e i f d \<noteq> []" "\<not> truthy (dp_get e i ''altField'')"
    and "t = c_date c"
  shows "\<exists>M' i'. selectDay e x (get_month (e_zone e) t) (get_full_year (e_zone e) t)
      \<lparr>td_unselectable = False, td_day = get_date (e_zone e) t\<rparr> M = Inr M' \<and>
    insts M' x = Some i' \<and> getDate e i' = Some t \<and> fieldVal i' = text_of_day e i f d \<and>
    selectedDay i' = get_date (e_zone e) t \<and> (curInst M = Some x \<longrightarrow> \<not> showing M')"
proof -
  have host: "dp_host e" by (rule dp_host.intro) (rule assms)
  note fields = zone_laws.date_fields_midnight [OF assms(1)]
  have t: "t = midnight_of (e_zone e) d" by (simp add: assms(5,10) day_cell_def Let_def split: prod.split)
  define i1 where "i1 = i\<lparr>selectedDay := date_from_day d, currentDay := date_from_day d,
    selectedMonth := month_from_day d, currentMonth := month_from_day d,
    selectedYear := year_from_day d, currentYear := year_from_day d\<rparr>"
  have s1: "settings i1 = settings i" by (simp add: i1_def)
  have d0: "date_from_day d \<noteq> 0" using date_from_day_range(1) [of d] by simp
  have form: "inst_formatDay e i1 (date_from_day d) (month_from_day d) (year_from_day d) = Inr (i1, text_of_day e i f d)"
    using assms(6,7) d0 zone_laws.dsa_midnight [OF assms(1)]
    by (simp add: inst_formatDay_def new_date_midnight make_day_from_day inst_format_def str_opt_def
        dp_get_settings [OF s1] getFormatConfig_settings [OF s1] text_of_day_def)
  define i2 where "i2 = (i1\<lparr>fieldVal := text_of_day e i f d\<rparr>)
    \<lparr>events := events i1 @ [if truthy (dp_get e i ''onSelect'') then Selected (text_of_day e i f d) else InputChange]\<rparr>"
  have alt: "updateAlternate e (i1\<lparr>fieldVal := text_of_day e i f d\<rparr>) = Inr (i1\<lparr>fieldVal := text_of_day e i f d\<rparr>)"
    using assms(9) dp_get_settings [of "i1\<lparr>fieldVal := text_of_day e i f d\<rparr>" i e "''altField''"] s1
    by (simp add: updateAlternate_def)
  have i2: "current_on d i2" "fieldVal i2 = text_of_day e i f d" "selectedDay i2 = date_from_day d" "\<not> inline i2"
    using assms(4) by (simp_all add: i2_def i1_def current_on_def)
  define M1 where "M1 = put_inst x i2 (put_inst x i1 M)"
  have sel: "selectDay e x (month_from_day d) (year_from_day d)
      \<lparr>td_unselectable = False, td_day = date_from_day d\<rparr> M =
    Inr ((hideDatepicker e None M1)\<lparr>lastInput := None\<rparr>)"
    using assms(2,3) i2(4) form alt
    by (simp add: selectDay_def with_inst_def selectDate_def put_inst_def M1_def i2_def i1_def dp_get_def Let_def)
  have "\<exists>i'. insts (hideDatepicker e None M1) x = Some i' \<and> current_on d i' \<and> fieldVal i' = text_of_day e i f d \<and>
      selectedDay i' = date_from_day d \<and> (curInst M = Some x \<longrightarrow> \<not> showing (hideDatepicker e None M1))"
    using i2 by (auto simp: hideDatepicker_def M1_def put_inst_def tidyDialog_def Let_def current_on_def
        split: option.split)
  then obtain i' where i': "insts (hideDatepicker e None M1) x = Some i'" "current_on d i'"
    "fieldVal i' = text_of_day e i f d" "selectedDay i' = date_from_day d"
    "curInst M = Some x \<longrightarrow> \<not> showing (hideDatepicker e None M1)" by blast
  have "getDate e i' = Some t"
    unfolding t by (rule dp_host.getDate_current [OF host i'(2) assms(6)]) (simp add: i'(3) assms(8))
  with i' sel show ?thesis by (auto simp: t fields)
qed

definition shown_mgr :: mgr where
  "shown_mgr =
     \<lparr>insts = [''a'' \<mapsto> inst_on 16465 [''onClose'' \<mapsto> JFun ''f'']], elems = Map.empty,
      divs = (\<lambda>k. \<lparr>dv_html = [], dv_cols = 1, dv_multi = False, dv_rtl = False, dv_dialog = False,
        dv_left = 0, dv_top = 0\<rparr>),
      curInst = Some ''a'', lastInput = Some ''a'', showing = True, inDialog = False, disabledInputs = [''b'']\<rparr>"

theorem selectDay_picks_witness:
  "\<exists>M' i'. selectDay cet_env ''a'' 2 2015 \<lparr>td_unselectable = False, td_day = 29\<rparr> shown_mgr = Inr M' \<and>
    insts M' ''a'' = Some i' \<and> getDate cet_env i' = Some 1427583600000 \<and> fieldVal i' = ''03/29/2015'' \<and>
    selectedDay i' = 29 \<and> \<not> showing M'"
proof -
  define i where "i = inst_on 16465 [''onClose'' \<mapsto> JFun ''f'']"
  define c where "c = day_cell cet_env i (month_grid cet_env i None None 0 2 0 0 0) 0 (midnight_of (e_zone cet_env) 16523)"
  have f: "plain_year (year_from_day 16523)" "dp_get cet_env i ''dateFormat'' = JStr ''mm/dd/yy''"
    "text_of_day cet_env i ''mm/dd/yy'' 16523 = ''03/29/2015''" "\<not> truthy (dp_get cet_env i ''altField'')"
    "\<not> isDisabledDatepicker shown_mgr ''a''" "\<not> inline i"
    "curInst shown_mgr = Some ''a''" "c_date c = 1427583600000"
    "get_month (e_zone cet_env) 1427583600000 = 2" "get_full_year (e_zone cet_env) 1427583600000 = 2015"
    "get_date (e_zone cet_env) 1427583600000 = 29"
    unfolding c_def i_def by code_simp+
  have i: "insts shown_mgr ''a'' = Some i" by (simp add: shown_mgr_def i_def)
  show ?thesis
    using selectDay_picks [OF cet_host.zone i f(5,6) c_def f(1,2) _ f(4) refl] f by auto
qed

section \<open>Disabled pickers\<close>

text \<open> A disabled picker ignores the keys and links that move its date, the cells and the attempt to open
  it; other pickers are as before; enabling it takes the mark away again.\<close>

theorem disabled_inert:
  assumes "has_marker M x" "M' = disableDatepicker x M"
  shows "isDisabledDatepicker M' x \<and> (\<forall>y. y \<noteq> x \<longrightarrow> isDisabledDatepicker M' y = isDisabledDatepicker M y) \<and>
    adjustDate e x k p M' = Inr M' \<and> selectDay e x mo y c M' = Inr M' \<and>
    showDatepicker e g pos fx x M' = Inr M' \<and> insts M' = insts M \<and>
    disabledInputs (enableDatepicker x M') = without x (disabledInputs M) \<and>
    disabledInputs (disableDatepicker x M') = disabledInputs M'"
proof -
  have d: "disabledInputs M' = without x (disabledInputs M) @ [x]" "insts M' = insts M"
    using assms by (simp_all add: disableDatepicker_def)
  have "has_marker M' x"
    using assms by (auto simp: has_marker_def disableDatepicker_def set_disabled_def split: option.splits)
  then have "disabledInputs (enableDatepicker x M') = without x (disabledInputs M)"
    "disabledInputs (disableDatepicker x M') = disabledInputs M'"
    using d by (simp_all add: enableDatepicker_def disableDatepicker_def without_def)
  moreover have "isDisabledDatepicker M' x" "\<forall>y. y \<noteq> x \<longrightarrow> isDisabledDatepicker M' y = isDisabledDatepicker M y"
    using d by (auto simp: isDisabledDatepicker_def without_def)
  ultimately show ?thesis
    using d by (simp add: adjustDate_def selectDay_def showDatepicker_def)
qed

definition attached_mgr :: mgr where
  "attached_mgr = put_elem ''a'' \<lparr>el_node = ''INPUT'', el_marker = True, el_disabled = False, el_keys = True,
     el_focus = True, el_before = False, el_append = None, el_trigger = None, el_trig_disabled = False,
     el_inline_disabled = False, el_size = None\<rparr> shown_mgr"

theorem disabled_inert_witness:
  "isDisabledDatepicker (disableDatepicker ''a'' attached_mgr) ''a'' \<and>
   adjustDate cet_env ''a'' 1 PMonth (disableDatepicker ''a'' attached_mgr) = Inr (disableDatepicker ''a'' attached_mgr)"
proof -
  have "has_marker attached_mgr ''a''" by code_simp
  from disabled_inert [OF this refl, of cet_env 1 PMonth] show ?thesis by blast
qed

text \<open>A destroyed picker stays in the list of the disabled inputs, and so does one attached again.\<close>

lemma destroy_keeps_disabled:
  "disabledInputs (destroyDatepicker x M) = disabledInputs M"
  by (simp add: destroyDatepicker_def put_elem_def Let_def)

text \<open>Setting the option \<open>disabled\<close> leaves a trigger button enabled: the trigger is made anew afterwards.\<close>

lemma attachments_enable_trigger: "\<not> el_trig_disabled (attachments e i el)"
  by (simp add: attachments_def Let_def)

text \<open>Setting the date 0, today as a number of days, empties the field.\<close>

lemma setDate_zero_clears: "setDate e i (JNum 0) nc = Inr i' \<Longrightarrow> fieldVal i' = []"
  by (auto simp: setDate_def js_bind_eq_Inr truthy_def)

text \<open>A year range without a colon is accepted by the header but makes the range check throw.\<close>

lemma single_year_range_throws:
  assumes "bounds e i lo hi" "dp_get e i ''yearRange'' = JStr ''2010''"
  shows "isInRange e i t = Inl (Throw ''TypeError'')" "fst (year_limits e ''2010'' 2015 None None) = 2010"
proof -
  have "split_colon ''2010'' = (''2010'', None)" by code_simp
  then show "isInRange e i t = Inl (Throw ''TypeError'')"
    using assms by (simp add: isInRange_def bounds_def truthy_def Let_def)
  have "determineYear y 2015 ''2010'' = 2010" for y
    by (simp add: determineYear_def has_sign_def js_parse_int_def is_space_def is_digit_def digits_val_def digit_val_def)
  with \<open>split_colon ''2010'' = (''2010'', None)\<close> show "fst (year_limits e ''2010'' 2015 None None) = 2010"
    by (simp add: year_limits_def Let_def)
qed

section \<open>Changing the format\<close>

text \<open> When the date format changes, a minimum date in force is rewritten in the new format and stays
  the same date, whatever form it was given in.\<close>

theorem reformat_keeps_bound:
  assumes "zone_laws (e_zone e)" "st ''dateFormat'' = Some (JStr f)" "st ''minDate'' = None"
    and "plain_format f" "four_digit f" "1000 \<le> year_from_day d" "year_from_day d \<le> 9999"
    and "i1 = i\<lparr>settings := extendRemove (settings i) st\<rparr>" "config_ok (inst_config e i1)"
    and "valid_time (midnight_of (e_zone e) d)"
  shows "\<exists>i2. reformat_bound e st ''minDate'' (Some (midnight_of (e_zone e) d)) i1 = Inr i2 \<and>
    dp_get e i2 ''dateFormat'' = JStr f \<and> getMinMaxDate e i2 ''min'' = Inr (Some (midnight_of (e_zone e) d))"
proof -
  have f: "dp_get e i1 ''dateFormat'' = JStr f"
    using assms(2,8) by (simp add: dp_get_def prop_of_def extendRemove_apply)
  define i2 where "i2 = i1\<lparr>settings := (settings i1)(''minDate'' \<mapsto> JStr (text_of_day e i1 f d))\<rparr>"
  have g: "dp_get e i2 n = dp_get e i1 n" if "n \<noteq> ''minDate''" for n
    using that by (simp add: i2_def dp_get_def prop_of_def)
  have cfg: "getFormatConfig e i2 = getFormatConfig e i1"
    by (simp add: getFormatConfig_def g)
  have fm: "reformat_bound e st ''minDate'' (Some (midnight_of (e_zone e) d)) i1 = Inr i2"
    using assms(2,3) f by (simp add: reformat_bound_def prop_of_def inst_format_def str_opt_def text_of_day_def i2_def)
  have parse: "inst_parse e i1 (text_of_day e i1 f d) = Inr (Some (midnight_of (e_zone e) d))"
    by (rule inst_parse_text [OF assms(1) f assms(4,5,9,6,7)])
  then have "inst_parse e i2 (text_of_day e i1 f d) = Inr (Some (midnight_of (e_zone e) d))"
    by (simp add: inst_parse_def cfg g)
  moreover have "text_of_day e i1 f d \<noteq> []" using parse inst_parse_empty by metis
  moreover have "dp_get e i2 ''minDate'' = JStr (text_of_day e i1 f d)" by (simp add: i2_def dp_get_def prop_of_def)
  ultimately have "getMinMaxDate e i2 ''min'' = Inr (Some (midnight_of (e_zone e) d))"
    using assms(10) zone_laws.clear_time_midnight [OF assms(1)] zone_laws.dsa_midnight [OF assms(1)]
    by (simp add: getMinMaxDate_def determineDate_def raw_date_def offsetString_def)
  then show ?thesis using fm g f by auto
qed

theorem reformat_keeps_bound_witness:
  "\<exists>i2. reformat_bound cet_env [''dateFormat'' \<mapsto> JStr ''D, d M yy''] ''minDate'' (Some 1427583600000)
      (inst_on 16465 [''minDate'' \<mapsto> JNum 0, ''dateFormat'' \<mapsto> JStr ''D, d M yy'']) = Inr i2 \<and>
    getMinMaxDate cet_env i2 ''min'' = Inr (Some 1427583600000)"
proof -
  define i1 where "i1 = inst_on 16465 [''minDate'' \<mapsto> JNum 0, ''dateFormat'' \<mapsto> JStr ''D, d M yy'']"
  have s: "extendRemove [''minDate'' \<mapsto> JNum 0] [''dateFormat'' \<mapsto> JStr ''D, d M yy''] =
      [''minDate'' \<mapsto> JNum 0, ''dateFormat'' \<mapsto> JStr ''D, d M yy'']"
    by (rule ext) (simp add: extendRemove_apply)
  have i1: "i1 = (inst_on 16465 [''minDate'' \<mapsto> JNum 0])
      \<lparr>settings := extendRemove (settings (inst_on 16465 [''minDate'' \<mapsto> JNum 0])) [''dateFormat'' \<mapsto> JStr ''D, d M yy'']\<rparr>"
    by (simp add: i1_def s) (simp add: inst_on_def place_date_def select_date_def newInst_def)
  have f: "plain_format ''D, d M yy''" "four_digit ''D, d M yy''" "1000 \<le> year_from_day 16523"
    "year_from_day 16523 \<le> 9999" "midnight_of (e_zone cet_env) 16523 = 1427583600000"
    "valid_time (midnight_of (e_zone cet_env) 16523)"
    by code_simp+
  have "inst_config cet_env i1 = regional_names\<lparr>shortYearCutoff := CutNum 25\<rparr>"
    unfolding i1_def by code_simp
  then have "config_ok (inst_config cet_env i1)" using regional_names_ok by (simp add: config_ok_def)
  from reformat_keeps_bound [OF cet_host.zone _ _ f(1-4) i1 this f(6)] f(5) show ?thesis
    by (auto simp: i1_def)
qed

section \<open>The place of the popup\<close>

text \<open> A popup smaller than the view, placed below an input that begins within the view's height,
  ends up entirely inside the view, from its left edge to its right and from its top to its bottom.\<close>

theorem checkOffset_on_screen:
  assumes "dpWidth g < clientWidth g + scrollLeft g" "dpHeight g < clientHeight g + scrollTop g"
    and "0 \<le> dpHeight g" "0 \<le> inputHeight g" "0 \<le> tp" "tp - inputHeight g \<le> clientHeight g + scrollTop g"
    and "checkOffset rtl g (lf, tp) False = (l, t)"
  shows "0 \<le> l \<and> l + dpWidth g \<le> clientWidth g + scrollLeft g \<and> 0 \<le> t \<and> t + dpHeight g \<le> clientHeight g + scrollTop g"
  using assms by (auto simp: checkOffset_def Let_def min_def split: if_splits)

theorem checkOffset_on_screen_witness:
  "checkOffset True \<lparr>dpWidth = 200, dpHeight = 250, inputWidth = 80, inputHeight = 20, clientWidth = 800,
     clientHeight = 600, scrollLeft = 0, scrollTop = 100, inputLeft = 30, inputTop = 560\<rparr> (30, 580) False = (0, 310) \<and>
   (0::int) \<le> 0 \<and> 0 + 200 \<le> (800::int) \<and> 0 \<le> (310::int) \<and> 310 + 250 \<le> (700::int)"
proof -
  define g where "g = \<lparr>dpWidth = 200, dpHeight = 250, inputWidth = 80, inputHeight = 20, clientWidth = 800,
     clientHeight = 600, scrollLeft = 0, scrollTop = 100, inputLeft = 30, inputTop = 560\<rparr>"
  have "checkOffset True g (30, 580) False = (0, 310)"
    unfolding g_def by code_simp
  with checkOffset_on_screen [of g 580 True 30 0 310] show ?thesis by (simp add: g_def)
qed

end
