(* ===== verification/JS_Num.thy ===== *)
theory JS_Num
  imports JS_Prelude
begin

text \<open>
  Numbers with a fraction. The code computes with doubles; the model takes exact rational numbers,
  which agree with them as long as the numbers have few digits, and keeps the roundings the code
  itself makes (\<open>toFixed\<close>, \<open>Math.round\<close>, \<open>Math.floor\<close>). NaN is \<open>None\<close> where a quotient or
  remainder by zero can produce it.
\<close>

definition trunc_rat :: "rat \<Rightarrow> int" where
  "trunc_rat x = (if 0 \<le> x then \<lfloor>x\<rfloor> else \<lceil>x\<rceil>)"

text \<open>The remainder \<open>a % b\<close>: its sign is the sign of \<open>a\<close>; NaN for \<open>b = 0\<close>.\<close>

definition rem_rat :: "rat \<Rightarrow> rat \<Rightarrow> rat" where
  "rem_rat a b = a - b * of_int (trunc_rat (a / b))"

definition js_rem :: "rat \<Rightarrow> rat \<Rightarrow> rat option" where
  "js_rem a b = (if b = 0 then None else Some (rem_rat a b))"

definition js_div :: "rat \<Rightarrow> rat \<Rightarrow> rat option" where
  "js_div a b = (if b = 0 then None else Some (a / b))"

text \<open>\<open>Math.round\<close>: ties go up.\<close>

definition js_round :: "rat \<Rightarrow> int" where
  "js_round x = \<lfloor>x + 1 / 2\<rfloor>"

text \<open>\<open>parseFloat (x.toFixed (n))\<close>: the nearest decimal with \<open>n\<close> digits, ties away from 0.\<close>

definition to_fixed :: "nat \<Rightarrow> rat \<Rightarrow> rat" where
  "to_fixed n x = sgn x * of_int \<lfloor>\<bar>x\<bar> * 10 ^ n + 1 / 2\<rfloor> / 10 ^ n"

text \<open>The double nearest to a number that is not negative, ties to the even one: 53 bits, and none below
  the bit of \<open>2 ^ - 1074\<close>.\<close>

function bit_count :: "int \<Rightarrow> int" where
  "bit_count n = (if n \<le> 0 then 0 else 1 + bit_count (n div 2))"
  by pat_completeness auto
termination by (relation "measure nat") auto

declare bit_count.simps [simp del]

definition pow2 :: "int \<Rightarrow> rat" where
  "pow2 k = (if 0 \<le> k then 2 ^ nat k else 1 / 2 ^ nat (- k))"

definition round_even :: "rat \<Rightarrow> int" where
  "round_even y = (let f = \<lfloor>y\<rfloor>; r = y - of_int f in if r < 1 / 2 \<or> r = 1 / 2 \<and> even f then f else f + 1)"

definition double_round :: "rat \<Rightarrow> rat" where
  "double_round x =
     (if x = 0 then 0
      else let e = (if 1 \<le> x then bit_count \<lfloor>x\<rfloor> else bit_count \<lfloor>x * 2 ^ 1074\<rfloor> - 1074);
               q = pow2 (max (e - 53) (- 1074))
           in q * of_int (round_even (x / q)))"

text \<open>The numbers with at most \<open>n\<close> decimal digits.\<close>

definition decimal :: "nat \<Rightarrow> rat \<Rightarrow> bool" where
  "decimal n x \<longleftrightarrow> of_int \<lfloor>x * 10 ^ n\<rfloor> = x * 10 ^ n"

lemma decimal_iff: "decimal n x \<longleftrightarrow> (\<exists>k. x = of_int k / 10 ^ n)"
proof
  assume "decimal n x"
  then have "x = of_int \<lfloor>x * 10 ^ n\<rfloor> / 10 ^ n" by (simp only: decimal_def) simp
  then show "\<exists>k. x = of_int k / 10 ^ n" by blast
next
  assume "\<exists>k. x = of_int k / 10 ^ n"
  then obtain k where "x * 10 ^ n = of_int k" by (auto simp: field_simps)
  then show "decimal n x" by (simp add: decimal_def)
qed

lemma decimal_add: "decimal n x \<Longrightarrow> decimal n y \<Longrightarrow> decimal n (x + y)"
  unfolding decimal_iff by (metis add_divide_distrib of_int_add)

lemma decimal_minus: "decimal n x \<Longrightarrow> decimal n (- x)"
  unfolding decimal_iff by (metis minus_divide_left of_int_minus)

lemma decimal_diff: "decimal n x \<Longrightarrow> decimal n y \<Longrightarrow> decimal n (x - y)"
  using decimal_add [of n x "- y"] decimal_minus [of n y] by simp

lemma decimal_mult_int: "decimal n x \<Longrightarrow> decimal n (x * of_int k)"
  unfolding decimal_iff by (metis of_int_mult times_divide_eq_left)

lemma to_fixed_decimal: "decimal n x \<Longrightarrow> to_fixed n x = x"
proof -
  assume "decimal n x"
  then obtain k where k: "x = of_int k / 10 ^ n" by (auto simp: decimal_iff)
  have "\<bar>x\<bar> * 10 ^ n = of_int \<bar>k\<bar>" by (simp add: k abs_divide)
  moreover have "\<lfloor>of_int \<bar>k\<bar> + 1 / 2 :: rat\<rfloor> = \<bar>k\<bar>" by (rule floor_unique) simp_all
  ultimately have "\<lfloor>\<bar>x\<bar> * 10 ^ n + 1 / 2\<rfloor> = \<bar>k\<bar>" by (simp only:)
  then have "to_fixed n x = sgn x * (of_int \<bar>k\<bar> / 10 ^ n)" by (simp add: to_fixed_def)
  also have "of_int \<bar>k\<bar> / 10 ^ n = \<bar>x\<bar>" by (simp add: k abs_divide)
  finally show ?thesis by (simp add: sgn_mult_abs)
qed

lemma rem_rat_nonneg:
  assumes "0 \<le> a" "0 < b"
  shows "0 \<le> rem_rat a b" "rem_rat a b < b" "\<exists>k::int. 0 \<le> k \<and> a = b * of_int k + rem_rat a b"
proof -
  define k where "k = \<lfloor>a / b\<rfloor>"
  have q: "0 \<le> a / b" using assms by simp
  have r: "rem_rat a b = a - b * of_int k" using q by (simp add: rem_rat_def trunc_rat_def k_def)
  have "of_int k \<le> a / b" "a / b < of_int k + 1"
    using floor_correct [of "a / b"] by (simp_all add: k_def)
  then have "b * of_int k \<le> a" "a < b * of_int k + b" using assms(2) by (simp_all add: field_simps)
  then show "0 \<le> rem_rat a b" "rem_rat a b < b" by (simp_all add: r)
  show "\<exists>k::int. 0 \<le> k \<and> a = b * of_int k + rem_rat a b"
    using q by (intro exI [of _ k]) (simp add: r k_def)
qed

lemma rem_rat_multiple: "b \<noteq> 0 \<Longrightarrow> rem_rat (b * of_int k) b = 0"
  by (auto simp: rem_rat_def trunc_rat_def)

end
