(* ===== verification/UI_Slider.thy ===== *)
theory UI_Slider
  imports JS_Num
begin

text \<open>
  The slider (jquery-ui.js): its values, the alignment of a value to the steps, the sliding of a
  handle by mouse and keyboard, and the positions drawn. The page's callbacks are recorded as
  events; whether a \<open>start\<close> or \<open>slide\<close> callback refuses is a parameter. A number is rational,
  NaN is \<open>None\<close>.
\<close>

section \<open>State\<close>

datatype range_opt = NoRange | BothRange | MinRange | MaxRange

datatype slide_event =
    SStart nat "rat option" "rat list"
  | SSlide nat rat "rat list"
  | SStop "nat option" "rat option" "rat list"
  | SChange nat "rat option" "rat list"

record slider =
  o_min :: rat
  o_max :: rat
  o_step :: rat
  o_value :: rat
  o_values :: "rat list option"
  o_range :: range_opt
  o_vertical :: bool
  o_disabled :: bool
  orientation_vertical :: bool
  max_value :: "rat option"
  handles :: nat
  range_shown :: bool
  keySliding :: bool
  mouseSliding :: bool
  animateOff :: bool
  handleIndex :: "nat option"
  clickOffset :: "(rat \<times> rat) option"
  lastChangedValue :: "nat option"
  percents :: "rat option list"
  range_at :: "rat option"
  range_size :: "rat option"
  s_events :: "slide_event list"

section \<open>Values\<close>

definition below_or_at :: "rat \<Rightarrow> rat option \<Rightarrow> bool" where
  "below_or_at v mx = (case mx of None \<Rightarrow> False | Some m \<Rightarrow> m \<le> v)"

text \<open>\<open>_trimAlignValue\<close>: the maximum is NaN when the step is 0, and then bounds nothing.\<close>

definition trimAlignValue :: "slider \<Rightarrow> rat \<Rightarrow> rat" where
  "trimAlignValue s v =
     (if v \<le> o_min s then o_min s
      else if below_or_at v (max_value s) then the (max_value s)
      else
        (let step = (if o_step s > 0 then o_step s else 1);
             valModStep = rem_rat (v - o_min s) step;
             alignValue = v - valModStep
         in to_fixed 5 (if \<bar>valModStep\<bar> * 2 \<ge> step
              then alignValue + (if valModStep > 0 then step else - step) else alignValue)))"

definition calculateNewMax :: "slider \<Rightarrow> slider" where
  "calculateNewMax s =
     s\<lparr>max_value := map_option (\<lambda>r. o_max s - r) (js_rem (o_max s - o_min s) (o_step s))\<rparr>"

definition value_of :: "slider \<Rightarrow> rat" where
  "value_of s = trimAlignValue s (o_value s)"

definition has_values :: "slider \<Rightarrow> bool" where
  "has_values s = (case o_values s of None \<Rightarrow> False | Some vs \<Rightarrow> vs \<noteq> [])"

definition all_values :: "slider \<Rightarrow> rat list" where
  "all_values s = (case o_values s of None \<Rightarrow> [] | Some vs \<Rightarrow> map (trimAlignValue s) vs)"

text \<open>\<open>values (i)\<close>: an index outside the array reads undefined, which the alignment turns into NaN.\<close>

definition values_at :: "slider \<Rightarrow> nat \<Rightarrow> rat option" where
  "values_at s i =
     (if has_values s then (if i < length (all_values s) then Some (all_values s ! i) else None)
      else Some (value_of s))"

section \<open>Drawing\<close>

definition percent_of :: "slider \<Rightarrow> rat \<Rightarrow> rat option" where
  "percent_of s v =
     (case max_value s of None \<Rightarrow> None
      | Some m \<Rightarrow> map_option (\<lambda>q. q * 100) (js_div (v - o_min s) (m - o_min s)))"

definition opt_diff :: "rat option \<Rightarrow> rat option \<Rightarrow> rat option" where
  "opt_diff a b = (case (a, b) of (Some x, Some y) \<Rightarrow> Some (x - y) | _ \<Rightarrow> None)"

text \<open>The single handle: 0 percent when the range of values is empty. Several handles have no such
  guard.\<close>

definition single_percent :: "slider \<Rightarrow> rat option" where
  "single_percent s =
     (case max_value s of None \<Rightarrow> None
      | Some m \<Rightarrow> if m = o_min s then Some 0 else percent_of s (value_of s))"

definition refreshValue :: "slider \<Rightarrow> slider" where
  "refreshValue s =
     (if has_values s then
        (let ps = map (\<lambda>i. case values_at s i of None \<Rightarrow> None | Some v \<Rightarrow> percent_of s v) [0..<handles s]
         in if o_range s = BothRange
            then s\<lparr>percents := ps,
                   range_at := (if ps \<noteq> [] then ps ! 0 else range_at s),
                   range_size := (if length ps > 1 then opt_diff (ps ! 1) (ps ! 0) else range_size s)\<rparr>
            else s\<lparr>percents := ps\<rparr>)
      else
        (let p = single_percent s
         in s\<lparr>percents := [p],
              range_size := (case o_range s of MinRange \<Rightarrow> p | MaxRange \<Rightarrow> opt_diff (Some 100) p
                             | _ \<Rightarrow> range_size s)\<rparr>))"

section \<open>Events\<close>

definition hash_value :: "slider \<Rightarrow> nat \<Rightarrow> rat option" where
  "hash_value s i = (if has_values s then values_at s i else Some (value_of s))"

text \<open>\<open>_start\<close>: the answer is False when a callback refuses.\<close>

definition start_slide :: "(slide_event \<Rightarrow> bool) \<Rightarrow> nat \<Rightarrow> slider \<Rightarrow> slider \<times> bool" where
  "start_slide allow i s =
     (let ev = SStart i (hash_value s i) (all_values s)
      in (s\<lparr>s_events := s_events s @ [ev]\<rparr>, allow ev))"

definition stop_slide :: "nat option \<Rightarrow> slider \<Rightarrow> slider" where
  "stop_slide i s =
     s\<lparr>s_events := s_events s @
        [SStop i (case i of Some k \<Rightarrow> hash_value s k
                      | None \<Rightarrow> if has_values s then None else Some (value_of s)) (all_values s)]\<rparr>"

definition change :: "nat \<Rightarrow> slider \<Rightarrow> slider" where
  "change i s =
     (if keySliding s \<or> mouseSliding s then s
      else s\<lparr>lastChangedValue := Some i,
             s_events := s_events s @ [SChange i (hash_value s i) (all_values s)]\<rparr>)"

definition setValue :: "rat \<Rightarrow> slider \<Rightarrow> slider" where
  "setValue v s = change 0 (refreshValue (s\<lparr>o_value := trimAlignValue s v\<rparr>))"

definition setValues_at :: "nat \<Rightarrow> rat \<Rightarrow> slider \<Rightarrow> slider" where
  "setValues_at i v s =
     change i (refreshValue (s\<lparr>o_values := map_option (\<lambda>vs. vs[i := trimAlignValue s v]) (o_values s)\<rparr>))"

fun setValues_from :: "rat list \<Rightarrow> nat \<Rightarrow> nat \<Rightarrow> slider \<Rightarrow> slider" where
  "setValues_from new i 0 s = s"
| "setValues_from new i (Suc n) s =
     setValues_from new (i + 1) n
       (change i (s\<lparr>o_values := map_option (\<lambda>vs. vs[i := trimAlignValue s (new ! i)]) (o_values s)\<rparr>))"

text \<open>\<open>values (array)\<close>: the array holds a new value for each old one.\<close>

definition setValues :: "rat list \<Rightarrow> slider \<Rightarrow> slider" where
  "setValues new s =
     (case o_values s of None \<Rightarrow> s
      | Some vs \<Rightarrow> refreshValue (setValues_from new 0 (min (length vs) (length new)) s))"

definition other_index :: "nat \<Rightarrow> nat" where
  "other_index i = (if i = 0 then 1 else 0)"

definition limit_to_other :: "slider \<Rightarrow> nat \<Rightarrow> rat \<Rightarrow> rat" where
  "limit_to_other s i newVal =
     (case (o_values s, values_at s (other_index i)) of
        (Some vs, Some otherVal) \<Rightarrow>
          if length vs = 2 \<and> o_range s = BothRange \<and>
             (i = 0 \<and> newVal > otherVal \<or> i = 1 \<and> newVal < otherVal)
          then otherVal else newVal
      | _ \<Rightarrow> newVal)"

definition slide :: "(slide_event \<Rightarrow> bool) \<Rightarrow> nat \<Rightarrow> rat \<Rightarrow> slider \<Rightarrow> slider" where
  "slide allow i newVal s =
     (if has_values s then
        (let v = limit_to_other s i newVal
         in if values_at s i = Some v then s
            else
              (let ev = SSlide i v ((all_values s)[i := v]); s' = s\<lparr>s_events := s_events s @ [ev]\<rparr>
               in if allow ev then setValues_at i v s' else s'))
      else if newVal = value_of s then s
      else
        (let ev = SSlide i newVal []; s' = s\<lparr>s_events := s_events s @ [ev]\<rparr>
         in if allow ev then setValue newVal s' else s'))"

section \<open>The mouse\<close>

record slide_mouse =
  pageX :: rat
  pageY :: rat
  elementWidth :: rat
  elementHeight :: rat
  elementLeft :: rat
  elementTop :: rat

text \<open>NaN for a point at the start of an element of no extent; 0 or 1 for the other points then.\<close>

definition percent_mouse :: "rat \<Rightarrow> rat \<Rightarrow> rat option" where
  "percent_mouse pixel extent =
     (if extent = 0 then (if pixel = 0 then None else Some (if pixel > 0 then 1 else 0))
      else let p = pixel / extent in Some (if p > 1 then 1 else if p < 0 then 0 else p))"

definition normValueFromMouse :: "slide_mouse \<Rightarrow> slider \<Rightarrow> rat option" where
  "normValueFromMouse m s =
     (let off = (case clickOffset s of None \<Rightarrow> (0, 0) | Some p \<Rightarrow> p);
          p = (if orientation_vertical s
               then percent_mouse (pageY m - elementTop m - snd off) (elementHeight m)
               else percent_mouse (pageX m - elementLeft m - fst off) (elementWidth m));
          q = (if orientation_vertical s then map_option (\<lambda>x. 1 - x) p else p)
      in case (q, max_value s) of
           (Some x, Some mx) \<Rightarrow> Some (trimAlignValue s (o_min s + x * (mx - o_min s)))
         | _ \<Rightarrow> None)"

text \<open>The loop over the handles: the nearest one, and among equally near ones the handle changed
  last or one that stands on the minimum.\<close>

fun closest :: "slider \<Rightarrow> rat \<Rightarrow> nat \<Rightarrow> nat \<Rightarrow> rat \<Rightarrow> nat option \<Rightarrow> nat option" where
  "closest s v i 0 nearest best = best"
| "closest s v i (Suc n) nearest best =
     (case values_at s i of
        None \<Rightarrow> closest s v (i + 1) n nearest best
      | Some w \<Rightarrow>
          (let this = \<bar>v - w\<bar>
           in if nearest > this \<or> nearest = this \<and> (lastChangedValue s = Some i \<or> w = o_min s)
              then closest s v (i + 1) n this (Some i)
              else closest s v (i + 1) n nearest best))"

definition closest_handle :: "slider \<Rightarrow> rat \<Rightarrow> nat option" where
  "closest_handle s v =
     (case max_value s of None \<Rightarrow> None | Some mx \<Rightarrow> closest s v 0 (handles s) (mx - o_min s + 1) None)"

text \<open>\<open>_mouseCapture\<close>: \<open>grab\<close> is the distance of the mouse from the middle of the handle, when it is
  pressed on a handle; \<open>hover\<close> tells that some handle is hovered. Without a nearest handle the code
  fails on the missing element.\<close>

definition mouseCapture :: "(slide_event \<Rightarrow> bool) \<Rightarrow> slide_mouse \<Rightarrow> (rat \<times> rat) option \<Rightarrow> bool \<Rightarrow> slider
    \<Rightarrow> (slider \<times> bool) js" where
  "mouseCapture allow m grab hover s =
     (if o_disabled s then Inr (s, False)
      else case normValueFromMouse m s of
        None \<Rightarrow> Inl (Throw ''TypeError'')
      | Some v \<Rightarrow>
         (case closest_handle s v of
            None \<Rightarrow> Inl (Throw ''TypeError'')
          | Some i \<Rightarrow>
              (let (s1, ok) = start_slide allow i s
               in if \<not> ok then Inr (s1, False)
                  else
                    (let s2 = s1\<lparr>mouseSliding := True, handleIndex := Some i,
                           clickOffset := Some (case grab of None \<Rightarrow> (0, 0) | Some p \<Rightarrow> p)\<rparr>;
                         s3 = (if hover then s2 else slide allow i v s2)
                     in Inr (s3\<lparr>animateOff := True\<rparr>, True)))))"

definition mouseDrag :: "(slide_event \<Rightarrow> bool) \<Rightarrow> slide_mouse \<Rightarrow> slider \<Rightarrow> slider" where
  "mouseDrag allow m s =
     (case (handleIndex s, normValueFromMouse m s) of
        (Some i, Some v) \<Rightarrow> slide allow i v s
      | _ \<Rightarrow> s)"

definition mouseStop :: "slider \<Rightarrow> slider" where
  "mouseStop s =
     (let s1 = stop_slide (handleIndex s) (s\<lparr>mouseSliding := False\<rparr>);
          s2 = (case handleIndex s of None \<Rightarrow> s1 | Some i \<Rightarrow> change i s1)
      in s2\<lparr>handleIndex := None, clickOffset := None, animateOff := False\<rparr>)"

section \<open>The keyboard\<close>

definition num_pages :: rat where
  "num_pages = 5"

definition slider_key :: "int \<Rightarrow> bool" where
  "slider_key c \<longleftrightarrow> c \<in> {36, 35, 33, 34, 38, 39, 40, 37}"

definition cur_val :: "slider \<Rightarrow> nat \<Rightarrow> rat option" where
  "cur_val s i = (if has_values s then values_at s i else Some (value_of s))"

text \<open>The new value of a key, None where the handler returns without sliding. With the maximum NaN (a step
  of 0) the keys that go to it or by pages have no value.\<close>

definition key_value :: "slider \<Rightarrow> int \<Rightarrow> rat \<Rightarrow> rat option" where
  "key_value s c v =
     (case max_value s of
        None \<Rightarrow> (if c = 36 then Some (o_min s)
                 else if c = 38 \<or> c = 39 then Some (trimAlignValue s (v + o_step s))
                 else if c = 40 \<or> c = 37 then
                   (if v = o_min s then None else Some (trimAlignValue s (v - o_step s)))
                 else if c = 35 \<or> c = 33 \<or> c = 34 then None else Some v)
      | Some mx \<Rightarrow>
          if c = 36 then Some (o_min s)
          else if c = 35 then Some mx
          else if c = 33 then Some (trimAlignValue s (v + (mx - o_min s) / num_pages))
          else if c = 34 then Some (trimAlignValue s (v - (mx - o_min s) / num_pages))
          else if c = 38 \<or> c = 39 then (if v = mx then None else Some (trimAlignValue s (v + o_step s)))
          else if c = 40 \<or> c = 37 then (if v = o_min s then None else Some (trimAlignValue s (v - o_step s)))
          else Some v)"

definition keydown :: "(slide_event \<Rightarrow> bool) \<Rightarrow> int \<Rightarrow> nat \<Rightarrow> slider \<Rightarrow> slider" where
  "keydown allow c i s =
     (let (s1, ok) = (if slider_key c \<and> \<not> keySliding s
                      then start_slide allow i (s\<lparr>keySliding := True\<rparr>) else (s, True))
      in if \<not> ok then s1
         else case cur_val s1 i of
           None \<Rightarrow> s1
         | Some v \<Rightarrow> (case key_value s1 c v of None \<Rightarrow> s1 | Some w \<Rightarrow> slide allow i w s1))"

definition keyup :: "nat \<Rightarrow> slider \<Rightarrow> slider" where
  "keyup i s =
     (if keySliding s then change i (stop_slide (Some i) (s\<lparr>keySliding := False\<rparr>)) else s)"

section \<open>Options\<close>

datatype slider_option =
    SetRange range_opt | SetDisabled bool | SetVertical bool | SetValue rat
  | SetValues "rat list option" | SetStep rat | SetMin rat | SetMax rat

definition createRange :: "slider \<Rightarrow> slider" where
  "createRange s =
     (if o_range s = NoRange then s\<lparr>range_shown := False, range_at := None, range_size := None\<rparr>
      else
        (let vs = (if o_range s = BothRange then
                     (case o_values s of
                        None \<Rightarrow> Some [o_min s, o_min s]
                      | Some vs \<Rightarrow> if vs \<noteq> [] \<and> length vs \<noteq> 2 then Some [vs ! 0, vs ! 0] else Some vs)
                   else o_values s)
         in s\<lparr>o_values := vs, range_shown := True, range_at := (if range_shown s then None else range_at s)\<rparr>))"

definition createHandles :: "slider \<Rightarrow> slider" where
  "createHandles s =
     s\<lparr>handles := (case o_values s of Some vs \<Rightarrow> if vs = [] then 1 else length vs | None \<Rightarrow> 1)\<rparr>"

definition refresh :: "slider \<Rightarrow> slider" where
  "refresh s = refreshValue (createHandles (createRange s))"

definition leave_both :: "range_opt \<Rightarrow> slider \<Rightarrow> slider" where
  "leave_both r s =
     (if o_range s = BothRange \<and> (r = MinRange \<or> r = MaxRange) then
        (case o_values s of
           None \<Rightarrow> s
         | Some vs \<Rightarrow>
             if vs = [] then s\<lparr>o_values := None\<rparr>
             else s\<lparr>o_value := trimAlignValue s (if r = MinRange then vs ! 0 else last vs), o_values := None\<rparr>)
      else s)"

fun change_all :: "nat \<Rightarrow> nat \<Rightarrow> slider \<Rightarrow> slider" where
  "change_all i 0 s = s"
| "change_all i (Suc n) s = change_all (i + 1) n (change i s)"

definition quietly :: "(slider \<Rightarrow> slider) \<Rightarrow> slider \<Rightarrow> slider" where
  "quietly f s = (f (s\<lparr>animateOff := True\<rparr>))\<lparr>animateOff := False\<rparr>"

definition setOption :: "slider_option \<Rightarrow> slider \<Rightarrow> slider" where
  "setOption opt s =
     (case opt of
        SetRange r \<Rightarrow> quietly refresh ((leave_both r s)\<lparr>o_range := r\<rparr>)
      | SetDisabled b \<Rightarrow> s\<lparr>o_disabled := b\<rparr>
      | SetVertical b \<Rightarrow> refreshValue (s\<lparr>o_vertical := b, orientation_vertical := b\<rparr>)
      | SetValue v \<Rightarrow> quietly (\<lambda>s. change 0 (refreshValue s)) (s\<lparr>o_value := v\<rparr>)
      | SetValues vs \<Rightarrow>
          quietly (\<lambda>s'. change_all 0 (case o_values s of None \<Rightarrow> 0 | Some old \<Rightarrow> length old) (refreshValue s'))
            (s\<lparr>o_values := vs\<rparr>)
      | SetStep x \<Rightarrow> quietly (\<lambda>s. refreshValue (calculateNewMax s)) (s\<lparr>o_step := x\<rparr>)
      | SetMin x \<Rightarrow> quietly (\<lambda>s. refreshValue (calculateNewMax s)) (s\<lparr>o_min := x\<rparr>)
      | SetMax x \<Rightarrow> quietly (\<lambda>s. refreshValue (calculateNewMax s)) (s\<lparr>o_max := x\<rparr>))"

definition create :: "slider \<Rightarrow> slider" where
  "create s =
     (refresh (calculateNewMax (s\<lparr>keySliding := False, mouseSliding := False, animateOff := True,
        handleIndex := None, orientation_vertical := o_vertical s\<rparr>)))\<lparr>animateOff := False\<rparr>"

text \<open>The options of the widget.\<close>

definition slider_defaults :: slider where
  "slider_defaults =
     \<lparr>o_min = 0, o_max = 100, o_step = 1, o_value = 0, o_values = None, o_range = NoRange,
      o_vertical = False, o_disabled = False, orientation_vertical = False, max_value = None,
      handles = 0, range_shown = False, keySliding = False, mouseSliding = False, animateOff = False,
      handleIndex = None, clickOffset = None, lastChangedValue = None, percents = [],
      range_at = None, range_size = None, s_events = []\<rparr>"

end
