(* ===== verification/UI_SliderProps.thy ===== *)
theory UI_SliderProps
  imports UI_Slider
begin

text \<open>
  The properties of the slider: values are the nearest steps, two range handles never cross, the
  mouse finds the value and the handle under it, and a drag announces one change.
\<close>

section \<open>Rounding to a range\<close>

text \<open>What the clients of a value's alignment rely on: the result is in the range, and the order is kept.\<close>

locale range_rounding =
  fixes align :: "rat \<Rightarrow> rat" and lo hi :: rat
  assumes in_range: "lo \<le> align v" "align v \<le> hi"
    and mono: "v \<le> w \<Longrightarrow> align v \<le> align w"
    and idem: "align (align v) = align v"

context range_rounding
begin

lemma sorted_align: "sorted vs \<Longrightarrow> sorted (map align vs)"
  by (simp add: sorted_iff_nth_mono mono)

lemma fixed_points: "align v = v \<Longrightarrow> lo \<le> v \<and> v \<le> hi"
  using in_range [of v] by simp

lemma align_mono_fixed: "align w = w \<Longrightarrow> v \<le> w \<Longrightarrow> align v \<le> w"
  using mono [of v w] by simp

lemma align_fixed_mono: "align w = w \<Longrightarrow> w \<le> v \<Longrightarrow> w \<le> align v"
  using mono [of w v] by simp

end

section \<open>Steps\<close>

definition slider_ok :: "slider \<Rightarrow> rat \<Rightarrow> bool" where
  "slider_ok s mx \<longleftrightarrow> 0 < o_step s \<and> decimal 5 (o_min s) \<and> decimal 5 (o_step s) \<and> o_min s \<le> o_max s \<and>
     max_value s = Some mx \<and> mx = o_max s - rem_rat (o_max s - o_min s) (o_step s)"

text \<open>The values of the slider: whole steps from the minimum, up to the largest one not over the maximum.\<close>

definition on_step :: "slider \<Rightarrow> rat \<Rightarrow> rat \<Rightarrow> bool" where
  "on_step s mx v \<longleftrightarrow> (\<exists>k::int. 0 \<le> k \<and> v = o_min s + o_step s * of_int k) \<and> v \<le> mx"

lemma new_max_ok:
  assumes "0 < o_step s" "decimal 5 (o_min s)" "decimal 5 (o_step s)" "o_min s \<le> o_max s"
  shows "slider_ok (calculateNewMax s) (o_max s - rem_rat (o_max s - o_min s) (o_step s))"
  using assms by (simp add: slider_ok_def calculateNewMax_def js_rem_def)

lemma slider_max_step:
  assumes "slider_ok s mx"
  shows "on_step s mx mx" "mx \<le> o_max s" "o_max s < mx + o_step s" "o_min s \<le> mx"
proof -
  have s: "0 < o_step s" "0 \<le> o_max s - o_min s" using assms by (auto simp: slider_ok_def)
  obtain k :: int where k: "0 \<le> k" "o_max s - o_min s = o_step s * of_int k + rem_rat (o_max s - o_min s) (o_step s)"
    using rem_rat_nonneg(3) [OF s(2,1)] by blast
  have mx: "mx = o_min s + o_step s * of_int k"
    using k(2) assms by (simp add: slider_ok_def algebra_simps)
  then show "on_step s mx mx" using k(1) by (auto simp: on_step_def)
  show "mx \<le> o_max s" "o_max s < mx + o_step s"
    using rem_rat_nonneg(1,2) [OF s(2,1)] assms by (simp_all add: slider_ok_def)
  show "o_min s \<le> mx" using k(1) s(1) by (simp add: mx)
qed

lemma trim_cases:
  assumes "slider_ok s mx"
  obtains (lo) "v \<le> o_min s" "trimAlignValue s v = o_min s"
  | (hi) "o_min s < v" "mx \<le> v" "trimAlignValue s v = mx"
  | (mid) k :: int and r where "o_min s < v" "v < mx" "0 \<le> k" "v = o_min s + o_step s * of_int k + r"
      "0 \<le> r" "r < o_step s" "o_step s * (of_int k + 1) \<le> mx - o_min s"
      "trimAlignValue s v = o_min s + o_step s * of_int (if 2 * r < o_step s then k else k + 1)"
proof -
  have s: "0 < o_step s" "decimal 5 (o_min s)" "decimal 5 (o_step s)" "max_value s = Some mx"
    using assms by (auto simp: slider_ok_def)
  consider "v \<le> o_min s" | "o_min s < v" "mx \<le> v" | "o_min s < v" "v < mx" by linarith
  then show ?thesis
  proof cases
    case 1
    then show ?thesis by (intro lo) (simp_all add: trimAlignValue_def)
  next
    case 2
    then show ?thesis by (intro hi) (simp_all add: trimAlignValue_def s below_or_at_def)
  next
    case 3
    define r where "r = rem_rat (v - o_min s) (o_step s)"
    have v: "0 \<le> v - o_min s" using 3 by simp
    obtain k :: int where k: "0 \<le> k" "v - o_min s = o_step s * of_int k + r"
      using rem_rat_nonneg(3) [OF v s(1)] by (auto simp: r_def)
    have r: "0 \<le> r" "r < o_step s" using rem_rat_nonneg(1,2) [OF v s(1)] by (simp_all add: r_def)
    obtain K :: int where K: "mx = o_min s + o_step s * of_int K"
      using slider_max_step(1) [OF assms] by (auto simp: on_step_def)
    have "o_step s * of_int k < o_step s * of_int K" using 3(2) K k(2) r(1) by simp
    then have "k + 1 \<le> K" using s(1) by simp
    then have "of_int k + 1 \<le> (of_int K :: rat)" by (metis of_int_1 of_int_add of_int_le_iff)
    then have up: "o_step s * (of_int k + 1) \<le> mx - o_min s"
      using s(1) by (simp add: K mult_left_mono del: distrib_left)
    define j where "j = (if 2 * r < o_step s then k else k + 1)"
    have "\<not> below_or_at v (max_value s)" "\<not> v \<le> o_min s" using 3 by (simp_all add: s below_or_at_def)
    then have "trimAlignValue s v = to_fixed 5 (if \<bar>r\<bar> * 2 \<ge> o_step s
        then v - r + (if r > 0 then o_step s else - o_step s) else v - r)"
      using s(1) by (simp add: trimAlignValue_def r_def Let_def)
    also have "(if \<bar>r\<bar> * 2 \<ge> o_step s
        then v - r + (if r > 0 then o_step s else - o_step s) else v - r) = o_min s + o_step s * of_int j"
      using k(2) r s(1) by (auto simp: j_def algebra_simps)
    also have "to_fixed 5 (o_min s + o_step s * of_int j) = o_min s + o_step s * of_int j"
      by (intro to_fixed_decimal decimal_add decimal_mult_int s)
    finally show ?thesis
      using k r up 3 by (intro mid [of k r]) (simp_all add: j_def algebra_simps)
  qed
qed

lemma trim_on_step:
  assumes "slider_ok s mx"
  shows "on_step s mx (trimAlignValue s v)"
proof (cases rule: trim_cases [OF assms, of v, case_names lo hi mid])
  case lo
  then show ?thesis using slider_max_step(4) [OF assms] by (auto simp: on_step_def intro!: exI [of _ "0::int"])
next
  case hi
  then show ?thesis using slider_max_step(1) [OF assms] by simp
next
  case (mid k r)
  have "0 < o_step s" using assms by (simp add: slider_ok_def)
  with mid show ?thesis
    unfolding on_step_def mid(8)
    by (intro conjI exI [of _ "if 2 * r < o_step s then k else k + 1"])
      (auto simp: algebra_simps)
qed

lemma on_step_fixed:
  assumes "slider_ok s mx" "on_step s mx v"
  shows "trimAlignValue s v = v"
proof (cases rule: trim_cases [OF assms(1), of v, case_names lo hi mid])
  case lo
  obtain k :: int where "0 \<le> k" "v = o_min s + o_step s * of_int k" using assms(2) by (auto simp: on_step_def)
  moreover have "0 < o_step s" using assms(1) by (simp add: slider_ok_def)
  ultimately have "o_min s \<le> v" by simp
  with lo show ?thesis by simp
next
  case hi
  then show ?thesis using assms(2) by (simp add: on_step_def)
next
  case (mid k r)
  have p: "0 < o_step s" using assms(1) by (simp add: slider_ok_def)
  obtain j :: int where j: "v = o_min s + o_step s * of_int j" using assms(2) by (auto simp: on_step_def)
  then have e: "o_step s * of_int (j - k) = r" using mid(4) by (simp add: algebra_simps)
  have "j - k = 0"
  proof -
    have "0 \<le> o_step s * of_int (j - k)" "o_step s * of_int (j - k) < o_step s * 1"
      using e mid(5,6) by simp_all
    then have "0 \<le> (of_int (j - k) :: rat)" "(of_int (j - k) :: rat) < 1"
      using p by (simp_all only: zero_le_mult_iff mult_less_cancel_left_pos) auto
    then show ?thesis by simp
  qed
  then have "r = 0" using e by simp
  with mid p show ?thesis by simp
qed

lemma on_step_trans:
  assumes "slider_ok s mx"
  shows "o_min s \<le> trimAlignValue s v" "trimAlignValue s v \<le> mx" "trimAlignValue s (trimAlignValue s v) = trimAlignValue s v"
proof -
  have st: "on_step s mx (trimAlignValue s v)" by (rule trim_on_step [OF assms])
  then show "trimAlignValue s v \<le> mx" by (simp add: on_step_def)
  from st assms show "o_min s \<le> trimAlignValue s v" by (auto simp: on_step_def slider_ok_def)
  show "trimAlignValue s (trimAlignValue s v) = trimAlignValue s v" by (rule on_step_fixed [OF assms st])
qed

lemma trim_nearest_step:
  assumes "slider_ok s mx" "on_step s mx w"
  shows "\<bar>trimAlignValue s v - v\<bar> \<le> \<bar>w - v\<bar>"
proof (cases rule: trim_cases [OF assms(1), of v, case_names lo hi mid])
  case lo
  obtain k :: int where "0 \<le> k" "w = o_min s + o_step s * of_int k" using assms(2) by (auto simp: on_step_def)
  moreover have "0 < o_step s" using assms(1) by (simp add: slider_ok_def)
  ultimately have "o_min s \<le> w" by simp
  with lo show ?thesis by simp
next
  case hi
  then show ?thesis using assms(2) by (simp add: on_step_def)
next
  case (mid k r)
  have p: "0 < o_step s" using assms(1) by (simp add: slider_ok_def)
  obtain j :: int where j: "w = o_min s + o_step s * of_int j" using assms(2) by (auto simp: on_step_def)
  have "\<bar>w - v\<bar> \<ge> (if 2 * r < o_step s then r else o_step s - r)"
  proof (cases "j \<le> k")
    case True
    then have "o_step s * of_int j \<le> o_step s * of_int k" using p by simp
    then have "w \<le> v - r" using mid(4) j by simp
    then show ?thesis using mid(5,6) by (auto split: if_splits)
  next
    case False
    then have "of_int k + 1 \<le> (of_int j :: rat)" by (metis of_int_1 of_int_add of_int_le_iff zless_imp_add1_zle not_le)
    then have "o_step s * (of_int k + 1) \<le> o_step s * of_int j" using p by (simp only: mult_le_cancel_left_pos)
    then have "v - r + o_step s \<le> w" using mid(4) j by (simp add: algebra_simps)
    then show ?thesis using mid(5,6) by (auto split: if_splits)
  qed
  then show ?thesis using mid(4-6) unfolding mid(8) by (auto simp: algebra_simps split: if_splits)
qed

lemma trim_mono:
  assumes "slider_ok s mx" "v \<le> w"
  shows "trimAlignValue s v \<le> trimAlignValue s w"
proof (rule ccontr)
  assume "\<not> ?thesis"
  then have lt: "trimAlignValue s w < trimAlignValue s v" by simp
  note near = trim_nearest_step [OF assms(1) trim_on_step [OF assms(1)]]
  have "\<bar>trimAlignValue s v - v\<bar> \<le> \<bar>trimAlignValue s w - v\<bar>" "\<bar>trimAlignValue s w - w\<bar> \<le> \<bar>trimAlignValue s v - w\<bar>"
    by (rule near)+
  with lt assms(2) have "v = w" by linarith
  with lt show False by simp
qed

text \<open>A slider whose minimum and step have at most five decimals rounds to its range.\<close>

locale stepped_slider =
  fixes s :: slider and mx :: rat
  assumes ok: "slider_ok s mx"

sublocale stepped_slider \<subseteq> range_rounding "trimAlignValue s" "o_min s" mx
  by unfold_locales (rule on_step_trans(1,2) [OF ok] trim_mono [OF ok] on_step_trans(3) [OF ok], assumption?)+

text \<open>The slider of the widget's default options.\<close>

definition default_slider :: slider where
  "default_slider = create slider_defaults"

lemma default_slider_ok: "slider_ok default_slider 100"
  by code_simp

interpretation default_slider: stepped_slider default_slider 100
  by (rule stepped_slider.intro) (rule default_slider_ok)

text \<open> For a step and a minimum of at most five decimals, the aligned value is a whole number of steps
  from the minimum, between the minimum and the maximum, and no such value is nearer.\<close>

theorem trimAlignValue_nearest:
  assumes "0 < o_step s" "decimal 5 (o_min s)" "decimal 5 (o_step s)" "o_min s \<le> o_max s"
    and "s' = calculateNewMax s"
  shows "\<exists>mx k. max_value s' = Some mx \<and> mx \<le> o_max s \<and> o_max s < mx + o_step s \<and>
    trimAlignValue s' v = o_min s + o_step s * of_int k \<and> 0 \<le> k \<and> trimAlignValue s' v \<le> mx \<and>
    (\<forall>w. on_step s' mx w \<longrightarrow> \<bar>trimAlignValue s' v - v\<bar> \<le> \<bar>w - v\<bar>)"
proof -
  define mx where "mx = o_max s - rem_rat (o_max s - o_min s) (o_step s)"
  have o: "o_min s' = o_min s" "o_step s' = o_step s" "o_max s' = o_max s"
    by (simp_all add: assms(5) calculateNewMax_def)
  have ok: "slider_ok s' mx" unfolding assms(5) mx_def by (rule new_max_ok [OF assms(1-4)])
  then have "max_value s' = Some mx" by (simp add: slider_ok_def)
  then show ?thesis
    using trim_on_step [OF ok, of v] trim_nearest_step [OF ok, of _ v] slider_max_step [OF ok] o
    by (fastforce simp: on_step_def)
qed

theorem trimAlignValue_nearest_witness:
  "\<exists>mx k. max_value (calculateNewMax (slider_defaults\<lparr>o_step := 7 / 2\<rparr>)) = Some mx \<and> mx \<le> 100 \<and> 100 < mx + 7 / 2 \<and>
    trimAlignValue (calculateNewMax (slider_defaults\<lparr>o_step := 7 / 2\<rparr>)) 20 = 7 / 2 * of_int k \<and> 0 \<le> k"
proof -
  have "0 < o_step (slider_defaults\<lparr>o_step := 7 / 2\<rparr>)" "decimal 5 (o_min (slider_defaults\<lparr>o_step := 7 / 2\<rparr>))"
    "decimal 5 (o_step (slider_defaults\<lparr>o_step := 7 / 2\<rparr>))"
    "o_min (slider_defaults\<lparr>o_step := 7 / 2\<rparr>) \<le> o_max (slider_defaults\<lparr>o_step := 7 / 2\<rparr>)"
    by code_simp+
  from trimAlignValue_nearest [OF this refl, of 20] show ?thesis
    by (auto simp: slider_defaults_def)
qed

section \<open>Two handles\<close>

lemma refresh_keeps [simp]:
  "o_values (refreshValue s) = o_values s" "o_min (refreshValue s) = o_min s" "o_step (refreshValue s) = o_step s"
  "max_value (refreshValue s) = max_value s" "o_value (refreshValue s) = o_value s"
  "s_events (refreshValue s) = s_events s" "keySliding (refreshValue s) = keySliding s"
  "mouseSliding (refreshValue s) = mouseSliding s" "handleIndex (refreshValue s) = handleIndex s"
  "clickOffset (refreshValue s) = clickOffset s" "o_range (refreshValue s) = o_range s"
  by (simp_all add: refreshValue_def Let_def)

lemma change_keeps [simp]:
  "o_values (change i s) = o_values s" "o_min (change i s) = o_min s" "o_step (change i s) = o_step s"
  "max_value (change i s) = max_value s" "o_value (change i s) = o_value s"
  "keySliding (change i s) = keySliding s" "mouseSliding (change i s) = mouseSliding s"
  "handleIndex (change i s) = handleIndex s" "clickOffset (change i s) = clickOffset s"
  "o_range (change i s) = o_range s"
  by (simp_all add: change_def)

lemma trim_same:
  "o_min s = o_min t \<Longrightarrow> o_step s = o_step t \<Longrightarrow> max_value s = max_value t \<Longrightarrow> trimAlignValue s = trimAlignValue t"
  by (rule ext) (simp add: trimAlignValue_def)

lemma setValues_at_values:
  "o_values s = Some vs \<Longrightarrow> all_values (setValues_at i v s) = map (trimAlignValue s) (vs[i := trimAlignValue s v])"
  using trim_same [of "setValues_at i v s" s] by (simp add: setValues_at_def all_values_def)

text \<open>C7: With a range between two handles, sliding either one to any value, whatever the callbacks answer,
  keeps the lower handle at or below the upper one.\<close>

theorem slide_keeps_order:
  assumes "slider_ok s mx" "o_values s = Some [a, b]" "o_range s = BothRange" "i < 2"
    and "trimAlignValue s a \<le> trimAlignValue s b" "trimAlignValue s v = v"
  shows "\<exists>a' b'. all_values (slide allow i v s) = [a', b'] \<and> o_min s \<le> a' \<and> a' \<le> b' \<and> b' \<le> mx"
proof -
  note ok = assms(1)
  define t where "t = trimAlignValue s"
  have vals: "all_values s = [t a, t b]" "has_values s"
    using assms(2) by (simp_all add: all_values_def has_values_def t_def)
  have in_range: "o_min s \<le> t x" "t x \<le> mx" "t (t x) = t x" for x
    using on_step_trans [OF ok, of x] by (simp_all add: t_def)
  define w where "w = limit_to_other s i v"
  have tv: "t v = v" using assms(6) by (simp add: t_def)
  have w: "w = (if i = 0 then min v (t b) else max v (t a))" "t w = w"
    using assms(2-4) vals in_range(3) tv
    by (auto simp: w_def limit_to_other_def values_at_def other_index_def min_def max_def split: if_splits)
  define s1 where "s1 = s\<lparr>s_events := s_events s @ [SSlide i w ((all_values s)[i := w])]\<rparr>"
  have s1: "o_values s1 = Some [a, b]" "trimAlignValue s1 = t" "all_values s1 = [t a, t b]"
    using assms(2) trim_same [of s1 s] by (simp_all add: s1_def all_values_def t_def)
  have set: "all_values (setValues_at i w s1) = [if i = 0 then w else t a, if i = 0 then t b else w]"
    using setValues_at_values [OF s1(1), of i w] assms(4) w(2) s1(2) in_range(3)
    by (cases i) (auto simp: less_Suc_eq)
  have "slide allow i v s \<in> {s, s1, setValues_at i w s1}"
    by (simp add: slide_def vals(2) Let_def s1_def w_def)
  then have cases: "all_values (slide allow i v s) = [t a, t b] \<or>
      all_values (slide allow i v s) = [if i = 0 then w else t a, if i = 0 then t b else w]"
    using vals(1) s1(3) set by auto
  have bounds: "o_min s \<le> w" "w \<le> mx" using in_range(1,2) [of w] w(2) by simp_all
  show ?thesis
  proof (rule disjE [OF cases])
    assume "all_values (slide allow i v s) = [t a, t b]"
    with in_range assms(5) show ?thesis by (auto simp: t_def)
  next
    assume e: "all_values (slide allow i v s) = [if i = 0 then w else t a, if i = 0 then t b else w]"
    have "(if i = 0 then w else t a) \<le> (if i = 0 then t b else w)" by (simp add: w(1))
    with e bounds in_range show ?thesis by auto
  qed
qed

definition range_slider :: slider where
  "range_slider = create (slider_defaults\<lparr>o_range := BothRange, o_values := Some [20, 70], o_step := 5\<rparr>)"

theorem slide_keeps_order_witness:
  "\<exists>a' b'. all_values (slide (\<lambda>ev. True) 0 90 range_slider) = [a', b'] \<and> 0 \<le> a' \<and> a' \<le> b' \<and> b' \<le> 100"
proof -
  have f: "slider_ok range_slider 100" "o_values range_slider = Some [20, 70]" "o_range range_slider = BothRange"
    "trimAlignValue range_slider 20 \<le> trimAlignValue range_slider 70" "trimAlignValue range_slider 90 = 90"
    "o_min range_slider = 0"
    by code_simp+
  from slide_keeps_order [OF f(1-3) _ f(4,5), of 0] f(6) show ?thesis by simp
qed

section \<open>The mouse\<close>

text \<open> Pressing the mouse where a value of the slider is drawn yields that value, in both
  orientations.\<close>

theorem mouse_finds_value:
  assumes "slider_ok s mx" "on_step s mx v" "o_min s < mx" "clickOffset s = None"
    and "percent_of s v = Some p"
    and "0 < elementWidth m" "\<not> orientation_vertical s \<longrightarrow> pageX m = elementLeft m + elementWidth m * (p / 100)"
    and "0 < elementHeight m" "orientation_vertical s \<longrightarrow> pageY m = elementTop m + elementHeight m * (1 - p / 100)"
  shows "normValueFromMouse m s = Some v"
proof -
  have mx: "max_value s = Some mx" using assms(1) by (simp add: slider_ok_def)
  have d: "0 < mx - o_min s" using assms(3) by simp
  have p: "p / 100 = (v - o_min s) / (mx - o_min s)"
    using assms(5) d by (simp add: percent_of_def mx js_div_def)
  have "0 \<le> v - o_min s" "v - o_min s \<le> mx - o_min s"
    using assms(1,2) by (auto simp: on_step_def slider_ok_def)
  then have r: "0 \<le> p / 100" "p / 100 \<le> 1" using d by (simp_all add: p)
  have restored: "o_min s + p / 100 * (mx - o_min s) = v" using d by (simp add: p)
  have h: "percent_mouse (pageX m - elementLeft m) (elementWidth m) = Some (p / 100)" if "\<not> orientation_vertical s"
    using that assms(6,7) r by (simp add: percent_mouse_def Let_def)
  have v: "percent_mouse (pageY m - elementTop m) (elementHeight m) = Some (1 - p / 100)" if "orientation_vertical s"
    using that assms(8,9) r by (simp add: percent_mouse_def Let_def)
  show ?thesis
    using h v restored on_step_fixed [OF assms(1,2)]
    by (cases "orientation_vertical s") (simp_all add: normValueFromMouse_def assms(4) mx)
qed

theorem mouse_finds_value_witness:
  "normValueFromMouse \<lparr>pageX = 130, pageY = 0, elementWidth = 200, elementHeight = 10, elementLeft = 20, elementTop = 0\<rparr>
     range_slider = Some 55"
proof -
  have f: "slider_ok range_slider 100" "clickOffset range_slider = None" "percent_of range_slider 55 = Some 55"
    "\<not> orientation_vertical range_slider" "o_min range_slider < 100" "o_min range_slider = 0" "o_step range_slider = 5"
    by code_simp+
  have "on_step range_slider 100 55"
    unfolding on_step_def f(6,7) by (intro conjI exI [of _ "11::int"]) simp_all
  from mouse_finds_value [OF f(1) this f(5,2,3)] f(4) show ?thesis by simp
qed

text \<open>The loop over the handles keeps the nearest one seen.\<close>

lemma closest_nearest:
  assumes "closest s v i n d best = r"
    and "\<forall>k. i \<le> k \<and> k < i + n \<longrightarrow> (\<exists>w. values_at s k = Some w)"
  shows "(\<exists>k w. r = Some k \<and> i \<le> k \<and> k < i + n \<and> values_at s k = Some w \<and> \<bar>v - w\<bar> \<le> d \<and>
      (\<forall>j x. i \<le> j \<longrightarrow> j < i + n \<longrightarrow> values_at s j = Some x \<longrightarrow> \<bar>v - w\<bar> \<le> \<bar>v - x\<bar>)) \<or>
    (r = best \<and> (\<forall>j x. i \<le> j \<longrightarrow> j < i + n \<longrightarrow> values_at s j = Some x \<longrightarrow> d \<le> \<bar>v - x\<bar>))"
  using assms
proof (induction n arbitrary: i d best)
  case (Suc n)
  obtain w where w: "values_at s i = Some w" using Suc.prems(2) by force
  have ind: "\<forall>k. i + 1 \<le> k \<and> k < i + 1 + n \<longrightarrow> (\<exists>w. values_at s k = Some w)" using Suc.prems(2) by simp
  define take where "take \<longleftrightarrow> d > \<bar>v - w\<bar> \<or> d = \<bar>v - w\<bar> \<and> (lastChangedValue s = Some i \<or> w = o_min s)"
  have step: "closest s v (i + 1) n (if take then \<bar>v - w\<bar> else d) (if take then Some i else best) = r"
  proof -
    have "closest s v i (Suc n) d best = (if take then closest s v (i + 1) n \<bar>v - w\<bar> (Some i) else closest s v (i + 1) n d best)"
      by (simp add: w Let_def take_def)
    with Suc.prems(1) show ?thesis by simp
  qed
  have le: "take \<Longrightarrow> \<bar>v - w\<bar> \<le> d" "\<not> take \<Longrightarrow> d \<le> \<bar>v - w\<bar>" by (auto simp: take_def)
  have at_i: "j = i \<or> i + 1 \<le> j" if "i \<le> j" for j using that by auto
  from Suc.IH [OF step ind] show ?case
  proof (elim disjE exE conjE)
    fix k x
    assume k: "r = Some k" "i + 1 \<le> k" "k < i + 1 + n" "values_at s k = Some x"
      "\<bar>v - x\<bar> \<le> (if take then \<bar>v - w\<bar> else d)"
      "\<forall>j y. i + 1 \<le> j \<longrightarrow> j < i + 1 + n \<longrightarrow> values_at s j = Some y \<longrightarrow> \<bar>v - x\<bar> \<le> \<bar>v - y\<bar>"
    have "\<bar>v - x\<bar> \<le> d \<and> \<bar>v - x\<bar> \<le> \<bar>v - w\<bar>" using k(5) le by (cases take) auto
    then show ?thesis
      using k w at_i by (intro disjI1 exI [of _ k] exI [of _ x]) (auto dest: at_i)
  next
    assume r: "r = (if take then Some i else best)"
      "\<forall>j y. i + 1 \<le> j \<longrightarrow> j < i + 1 + n \<longrightarrow> values_at s j = Some y \<longrightarrow> (if take then \<bar>v - w\<bar> else d) \<le> \<bar>v - y\<bar>"
    show ?thesis
    proof (cases take)
      case True
      then show ?thesis
        using r w le by (intro disjI1 exI [of _ i] exI [of _ w]) (auto dest: at_i)
    next
      case False
      then show ?thesis using r w le by (intro disjI2) (auto dest: at_i)
    qed
  qed
qed simp

text \<open> The handle the mouse takes is one of those nearest to the value under it, and there always is
  one for a value in the range.\<close>

theorem closest_handle_nearest:
  assumes "slider_ok s mx" "o_values s = Some vs" "vs \<noteq> []" "handles s = length vs" "o_min s \<le> v" "v \<le> mx"
  shows "\<exists>i. closest_handle s v = Some i \<and> i < length vs \<and>
    (\<forall>j < length vs. \<bar>v - trimAlignValue s (vs ! i)\<bar> \<le> \<bar>v - trimAlignValue s (vs ! j)\<bar>)"
proof -
  have hv: "has_values s" using assms(2,3) by (simp add: has_values_def)
  have at: "values_at s k = (if k < length vs then Some (trimAlignValue s (vs ! k)) else None)" for k
    using hv assms(2) by (simp add: values_at_def all_values_def)
  have near: "\<bar>v - trimAlignValue s (vs ! k)\<bar> < mx - o_min s + 1" for k
    using on_step_trans(1,2) [OF assms(1), of "vs ! k"] assms(5,6) by linarith
  have c: "closest_handle s v = closest s v 0 (length vs) (mx - o_min s + 1) None"
    using assms(1,4) by (simp add: closest_handle_def slider_ok_def)
  have "\<forall>k. 0 \<le> k \<and> k < 0 + length vs \<longrightarrow> (\<exists>w. values_at s k = Some w)" by (simp add: at)
  from closest_nearest [OF c [symmetric] this] show ?thesis
  proof
    assume "closest_handle s v = None \<and> (\<forall>j x. 0 \<le> j \<longrightarrow> j < 0 + length vs \<longrightarrow> values_at s j = Some x \<longrightarrow>
      mx - o_min s + 1 \<le> \<bar>v - x\<bar>)"
    then have "mx - o_min s + 1 \<le> \<bar>v - trimAlignValue s (vs ! 0)\<bar>" using assms(3) by (simp add: at)
    with near [of 0] show ?thesis by simp
  qed (auto simp: at)
qed

theorem closest_handle_nearest_witness:
  "\<exists>i. closest_handle range_slider 60 = Some i \<and> i < 2 \<and>
    (\<forall>j < 2. \<bar>60 - trimAlignValue range_slider ([20, 70] ! i)\<bar> \<le> \<bar>60 - trimAlignValue range_slider ([20, 70] ! j)\<bar>)"
proof -
  have f: "slider_ok range_slider 100" "o_values range_slider = Some [20, 70]" "handles range_slider = 2"
    "o_min range_slider = 0"
    by code_simp+
  from closest_handle_nearest [OF f(1,2), of 60] f(3,4) show ?thesis by (simp add: numeral_2_eq_2)
qed

section \<open>Drags\<close>

definition is_change :: "slide_event \<Rightarrow> bool" where
  "is_change ev = (case ev of SChange _ _ _ \<Rightarrow> True | _ \<Rightarrow> False)"

definition changes :: "slider \<Rightarrow> nat" where
  "changes s = length (filter is_change (s_events s))"

lemma slide_drag:
  assumes "mouseSliding s"
  shows "changes (slide allow i v s) = changes s" "mouseSliding (slide allow i v s)"
    "handleIndex (slide allow i v s) = handleIndex s" "keySliding (slide allow i v s) = keySliding s"
  using assms
  by (simp_all add: slide_def setValues_at_def setValue_def changes_def change_def is_change_def Let_def)

text \<open> From the press to the release of the mouse, however often it moves and whatever the callbacks answer,
  exactly one change is announced, at the release, for the handle that was dragged.\<close>

theorem drag_one_change:
  assumes "mouseCapture allow m0 grab hover s = Inr (s0, True)" "\<not> keySliding s"
    and "s1 = foldl (\<lambda>s m. mouseDrag allow m s) s0 ms" "s2 = mouseStop s1"
  shows "changes s1 = changes s \<and> changes s2 = changes s + 1 \<and> \<not> mouseSliding s2 \<and> handleIndex s2 = None \<and>
    lastChangedValue s2 = handleIndex s0"
proof -
  obtain v i where i: "normValueFromMouse m0 s = Some v" "closest_handle s v = Some i" "\<not> o_disabled s"
    using assms(1) by (auto simp: mouseCapture_def split: if_splits option.splits)
  define a where "a = fst (start_slide allow i s)"
  have a: "changes a = changes s" "keySliding a = keySliding s"
    by (simp_all add: a_def start_slide_def changes_def is_change_def Let_def)
  define b where "b = a\<lparr>mouseSliding := True, handleIndex := Some i,
     clickOffset := Some (case grab of None \<Rightarrow> (0, 0) | Some p \<Rightarrow> p)\<rparr>"
  have b: "changes b = changes s" "mouseSliding b" "handleIndex b = Some i" "\<not> keySliding b"
    using a assms(2) by (simp_all add: b_def changes_def)
  have "s0 = (if hover then b else slide allow i v b)\<lparr>animateOff := True\<rparr>"
    using assms(1) i by (auto simp: mouseCapture_def b_def a_def Let_def split: prod.splits if_splits)
  then have s0: "changes s0 = changes s" "mouseSliding s0" "handleIndex s0 = Some i" "\<not> keySliding s0"
    using b slide_drag [OF b(2), of allow i v] by (simp_all add: changes_def)
  have "changes t = changes s \<and> mouseSliding t \<and> handleIndex t = Some i \<and> \<not> keySliding t"
    if "t = foldl (\<lambda>s m. mouseDrag allow m s) s0 ms" for t
    using that
  proof (induction ms arbitrary: t rule: rev_induct)
    case (snoc m ms)
    then show ?case
      using slide_drag [of "foldl (\<lambda>s m. mouseDrag allow m s) s0 ms" allow i]
      by (auto simp: mouseDrag_def split: option.splits)
  qed (simp add: s0)
  from this [OF assms(3)] show ?thesis
    by (simp add: assms(4) mouseStop_def stop_slide_def change_def changes_def is_change_def Let_def s0(3))
qed

theorem drag_one_change_witness:
  "\<exists>s0 s2. mouseCapture (\<lambda>ev. True)
      \<lparr>pageX = 130, pageY = 0, elementWidth = 200, elementHeight = 10, elementLeft = 20, elementTop = 0\<rparr> None False
      range_slider = Inr (s0, True) \<and>
    s2 = mouseStop (mouseDrag (\<lambda>ev. True)
      \<lparr>pageX = 150, pageY = 0, elementWidth = 200, elementHeight = 10, elementLeft = 20, elementTop = 0\<rparr> s0) \<and>
    changes s2 = changes range_slider + 1 \<and> \<not> mouseSliding s2"
proof -
  define m where "m = \<lparr>pageX = 130, pageY = 0, elementWidth = 200, elementHeight = 10, elementLeft = 20, elementTop = 0\<rparr>"
  define m' where "m' = m\<lparr>pageX := 150\<rparr>"
  obtain s0 where s0: "mouseCapture (\<lambda>ev. True) m None False range_slider = Inr (s0, True)"
  proof -
    have "case mouseCapture (\<lambda>ev. True) m None False range_slider of Inl e \<Rightarrow> False | Inr (s0, b) \<Rightarrow> b"
      unfolding m_def by code_simp
    then show ?thesis using that by (auto split: sum.splits prod.splits)
  qed
  have nk: "\<not> keySliding range_slider" by code_simp
  have "changes s2 = changes range_slider + 1 \<and> \<not> mouseSliding s2" if "s2 = mouseStop (mouseDrag (\<lambda>ev. True) m' s0)" for s2
    using drag_one_change [OF s0 nk, of "mouseDrag (\<lambda>ev. True) m' s0" "[m']" s2] that by (simp only: foldl.simps simp_thms)
  moreover have "m' = \<lparr>pageX = 150, pageY = 0, elementWidth = 200, elementHeight = 10, elementLeft = 20, elementTop = 0\<rparr>"
    by (simp add: m'_def m_def)
  ultimately show ?thesis using s0 unfolding m_def by blast
qed

text \<open>With several handles on an empty range of values the positions are NaN; the single handle is
  guarded against it.\<close>

lemma empty_range_positions:
  assumes "max_value s = Some (o_min s)"
  shows "percent_of s v = None" "single_percent s = Some 0"
  using assms by (simp_all add: percent_of_def js_div_def single_percent_def)

end
