(* ===== verification/JS_Text.thy ===== *)
theory JS_Text
  imports JS_Num
begin

text \<open>
  The texts of numbers and the matching of expressions: what several components read and write.
  Numbers that are very small or very large are written with an exponent, and exponents and
  hexadecimal texts are read; the infinite numbers (\<open>Infinity\<close>) are not modelled.
\<close>

section \<open>Expressions\<close>

text \<open>The expressions are tried at every position; each part of them can match in one way only.\<close>

fun search :: "(string \<Rightarrow> 'a option) \<Rightarrow> string \<Rightarrow> 'a option" where
  "search f [] = f []"
| "search f (c # cs) = (case f (c # cs) of Some r \<Rightarrow> Some r | None \<Rightarrow> search f cs)"

fun lit :: "string \<Rightarrow> string \<Rightarrow> string option" where
  "lit [] s = Some s"
| "lit (c # cs) [] = None"
| "lit (c # cs) (d # ds) = (if c = d then lit cs ds else None)"

definition skip_spaces :: "string \<Rightarrow> string" where
  "skip_spaces s = dropWhile is_space s"

definition fraction_text :: "string \<Rightarrow> string \<times> string" where
  "fraction_text s =
     (if s \<noteq> [] \<and> hd s = CHR ''.'' \<and> takeWhile is_digit (tl s) \<noteq> []
      then (CHR ''.'' # takeWhile is_digit (tl s), dropWhile is_digit (tl s)) else ([], s))"

lemma search_none: "(\<And>a b. s = a @ b \<Longrightarrow> f b = None) \<Longrightarrow> search f s = None"
proof (induction s)
  case (Cons c cs)
  have "f (c # cs) = None" using Cons.prems [of "[]"] by simp
  moreover have "search f cs = None" by (rule Cons.IH) (use Cons.prems [of "c # _"] in simp)
  ultimately show ?case by simp
qed simp

lemma lit_app [simp]: "lit v (v @ s) = Some s"
  by (induction v) auto

section \<open>Numbers and their texts\<close>

text \<open>\<open>digits[.digits]\<close>, or only the fraction: the value and the rest.\<close>

definition decimal_prefix :: "string \<Rightarrow> (rat \<times> string) option" where
  "decimal_prefix s =
     (let ds = takeWhile is_digit s; r = dropWhile is_digit s;
          fs = (if r \<noteq> [] \<and> hd r = CHR ''.'' then takeWhile is_digit (tl r) else []) in
      if ds = [] \<and> fs = [] then None
      else Some (of_int (digits_val ds) + of_int (digits_val fs) / 10 ^ length fs,
                 if r \<noteq> [] \<and> hd r = CHR ''.'' then dropWhile is_digit (tl r) else r))"

text \<open>An exponent, \<open>e\<close> with a sign or none and digits: its value and the rest. Where there is none nothing is taken.\<close>

definition exponent_part :: "string \<Rightarrow> int \<times> string" where
  "exponent_part s =
     (if s \<noteq> [] \<and> (hd s = CHR ''e'' \<or> hd s = CHR ''E'') then
        let sign = (tl s \<noteq> [] \<and> (hd (tl s) = CHR ''-'' \<or> hd (tl s) = CHR ''+''));
            r = (if sign then tl (tl s) else tl s); ds = takeWhile is_digit r in
        if ds = [] then (0, s)
        else (if sign \<and> hd (tl s) = CHR ''-'' then - digits_val ds else digits_val ds, dropWhile is_digit r)
      else (0, s))"

definition times_ten :: "rat \<Rightarrow> int \<Rightarrow> rat" where
  "times_ten x e = (if 0 \<le> e then x * 10 ^ nat e else x / 10 ^ nat (- e))"

definition unsigned_prefix :: "string \<Rightarrow> (rat \<times> string) option" where
  "unsigned_prefix s = map_option (\<lambda>(v, r). case exponent_part r of (e, r1) \<Rightarrow> (times_ten v e, r1)) (decimal_prefix s)"

definition signed_prefix :: "string \<Rightarrow> (rat \<times> string) option" where
  "signed_prefix s =
     (if s \<noteq> [] \<and> hd s = CHR ''-'' then map_option (\<lambda>(v, r). (- v, r)) (unsigned_prefix (tl s))
      else if s \<noteq> [] \<and> hd s = CHR ''+'' then unsigned_prefix (tl s)
      else unsigned_prefix s)"

text \<open>A hexadecimal number, with blanks after it.\<close>

definition hex_digit :: "char \<Rightarrow> int option" where
  "hex_digit c = (if is_digit c then Some (digit_val c)
     else if 97 \<le> (of_char c :: int) \<and> (of_char c :: int) \<le> 102 then Some (of_char c - 87)
     else if 65 \<le> (of_char c :: int) \<and> (of_char c :: int) \<le> 70 then Some (of_char c - 55) else None)"

definition hex_number :: "string \<Rightarrow> int option" where
  "hex_number s =
     (case s of c # d # r \<Rightarrow>
        let hs = takeWhile (\<lambda>c. hex_digit c \<noteq> None) r in
        if c = CHR ''0'' \<and> (d = CHR ''x'' \<or> d = CHR ''X'') \<and> hs \<noteq> [] \<and> list_all is_space (dropWhile (\<lambda>c. hex_digit c \<noteq> None) r)
        then Some (foldl (\<lambda>a c. 16 * a + the (hex_digit c)) 0 hs) else None
      | _ \<Rightarrow> None)"

text \<open>The conversion of a text to a number, which takes all of it, and \<open>parseFloat\<close>, which takes
  what it can.\<close>

definition number_of :: "string \<Rightarrow> rat option" where
  "number_of s =
     (let t = dropWhile is_space s in
      if t = [] then Some 0
      else if hex_number t \<noteq> None then map_option of_int (hex_number t)
      else case signed_prefix t of None \<Rightarrow> None | Some (v, r) \<Rightarrow> if list_all is_space r then Some v else None)"

definition parse_float :: "string \<Rightarrow> rat option" where
  "parse_float s = map_option fst (signed_prefix (dropWhile is_space s))"

text \<open>The text of a number that is not negative, with at most twenty digits in its fraction: without an
  exponent from a millionth up to a thousand trillion million, and otherwise one digit, the rest as its
  fraction, and the exponent.\<close>

primrec frac_digits :: "nat \<Rightarrow> rat \<Rightarrow> string" where
  "frac_digits 0 r = []"
| "frac_digits (Suc n) r = (if r = 0 then [] else digit_char \<lfloor>10 * r\<rfloor> # frac_digits n (10 * r - of_int \<lfloor>10 * r\<rfloor>))"

definition plain_text :: "rat \<Rightarrow> string" where
  "plain_text x =
     (let r = x - of_int \<lfloor>x\<rfloor> in show_nat \<lfloor>x\<rfloor> @ (if r = 0 then [] else CHR ''.'' # frac_digits 20 r))"

function places_up :: "rat \<Rightarrow> nat" where
  "places_up x = (if x \<le> 0 \<or> 1 \<le> x then 0 else Suc (places_up (10 * x)))"
  by pat_completeness auto
termination
proof (relation "measure (\<lambda>x. nat \<lfloor>1 / x\<rfloor>)")
  fix x :: rat
  assume "\<not> (x \<le> 0 \<or> 1 \<le> x)"
  then have x: "0 < x" "x < 1" by simp_all
  have "1 / x > 1" using x by simp
  then have "1 \<le> \<lfloor>1 / x\<rfloor>" by linarith
  moreover have "1 / (10 * x) = (1 / x) / 10" by simp
  ultimately have "1 / (10 * x) < of_int \<lfloor>1 / x\<rfloor>" by linarith
  then have "\<lfloor>1 / (10 * x)\<rfloor> < \<lfloor>1 / x\<rfloor>" by (simp add: floor_less_iff)
  moreover have "0 \<le> \<lfloor>1 / (10 * x)\<rfloor>" using x by simp
  ultimately have "nat \<lfloor>1 / (10 * x)\<rfloor> < nat \<lfloor>1 / x\<rfloor>" by linarith
  then show "(10 * x, x) \<in> measure (\<lambda>x. nat \<lfloor>1 / x\<rfloor>)" by (simp only: in_measure)
qed simp

function places_down :: "rat \<Rightarrow> nat" where
  "places_down x = (if x < 10 then 0 else Suc (places_down (x / 10)))"
  by pat_completeness auto
termination by (relation "measure (\<lambda>x. nat \<lfloor>x\<rfloor>)") (simp_all, linarith)

declare places_up.simps [simp del] places_down.simps [simp del]

definition num_text :: "rat \<Rightarrow> string" where
  "num_text x =
     (if x = 0 \<or> 1 / 10 ^ 6 \<le> x \<and> x < 10 ^ 21 then plain_text x
      else if x < 1 then let e = places_up x in plain_text (x * 10 ^ e) @ ''e-'' @ show_nat (int e)
      else let e = places_down x in plain_text (x / 10 ^ e) @ ''e+'' @ show_nat (int e))"

text \<open>\<open>String (x)\<close>, with its sign.\<close>

definition num_str :: "rat \<Rightarrow> string" where
  "num_str x = (if x < 0 then CHR ''-'' # num_text (- x) else num_text x)"

text \<open>Numbers written are read back.\<close>

lemma digits_val_from: "foldl (\<lambda>a c. 10 * a + digit_val c) x s = x * 10 ^ length s + digits_val s"
proof (induction s arbitrary: x)
  case (Cons c s)
  have "digits_val (c # s) = digit_val c * 10 ^ length s + digits_val s" using Cons [of "digit_val c"] by (simp add: digits_val_def)
  then show ?case using Cons by (simp add: algebra_simps)
qed simp

lemma digits_val_Cons: "digits_val (c # s) = digit_val c * 10 ^ length s + digits_val s"
  using digits_val_from [of "digit_val c" s] by (simp add: digits_val_def)

lemma frac_digits_back:
  "0 \<le> r \<Longrightarrow> r < 1 \<Longrightarrow> decimal n r \<Longrightarrow>
    list_all is_digit (frac_digits n r) \<and> of_int (digits_val (frac_digits n r)) / 10 ^ length (frac_digits n r) = r"
proof (induction n arbitrary: r)
  case 0
  then have "of_int \<lfloor>r\<rfloor> = r" "\<lfloor>r\<rfloor> = 0" by (simp_all add: decimal_def floor_eq_iff)
  then show ?case by simp
next
  case (Suc n)
  show ?case
  proof (cases "r = 0")
    case False
    define d where "d = \<lfloor>10 * r\<rfloor>"
    have d: "0 \<le> d" "d < 10" "0 \<le> 10 * r - of_int d" "10 * r - of_int d < 1"
      using Suc.prems(1,2) unfolding d_def by linarith+
    obtain k where "r = of_int k / 10 ^ Suc n" using Suc.prems(3) decimal_iff by blast
    then have "10 * r - of_int d = of_int (k - d * 10 ^ n) / 10 ^ n" by (simp add: field_simps)
    then have dec: "decimal n (10 * r - of_int d)" using decimal_iff by blast
    define fs where "fs = frac_digits n (10 * r - of_int d)"
    have fs: "list_all is_digit fs" "of_int (digits_val fs) / 10 ^ length fs = 10 * r - of_int d"
      using Suc.IH [OF d(3,4) dec] unfolding fs_def by blast+
    have "frac_digits (Suc n) r = digit_char d # fs" using False by (simp add: d_def fs_def)
    moreover have "of_int (digits_val (digit_char d # fs)) / 10 ^ length (digit_char d # fs) = r"
    proof -
      have "of_int (digits_val fs) = (10 * r - of_int d) * 10 ^ length fs" using fs(2) by (simp add: divide_eq_eq)
      then have "of_int (digits_val (digit_char d # fs)) = r * (10 * 10 ^ length fs)"
        using d by (simp add: digits_val_Cons algebra_simps)
      then show ?thesis by simp
    qed
    ultimately show ?thesis using fs(1) d by simp
  qed simp
qed

text \<open>A text of digits with what follows it.\<close>

lemma digits_split:
  assumes "list_all is_digit ds" "e = [] \<or> \<not> is_digit (hd e)"
  shows "takeWhile is_digit (ds @ e) = ds" "dropWhile is_digit (ds @ e) = e"
  using assms by (cases e; simp add: takeWhile_append dropWhile_append list_all_iff takeWhile_eq_all_conv)+

lemma digits_all: "list_all is_digit ds \<Longrightarrow> takeWhile is_digit ds = ds \<and> dropWhile is_digit ds = []"
  by (simp add: list_all_iff takeWhile_eq_all_conv)

lemma decimal_prefix_digits: "list_all is_digit ds \<Longrightarrow> ds \<noteq> [] \<Longrightarrow> decimal_prefix ds = Some (of_int (digits_val ds), [])"
  using digits_all [of ds] by (simp add: decimal_prefix_def Let_def del: dropWhile_eq_Nil_conv takeWhile_eq_all_conv)

lemma digit_zero: "digit_char 0 = CHR ''0''"
  by code_simp

lemma not_digit: "\<not> is_digit CHR '',''" "\<not> is_digit CHR '')''" "\<not> is_digit CHR ''.''"
    "\<not> is_space CHR '',''" "\<not> is_space CHR '')''"
  by (simp_all add: is_digit_def is_space_def)

lemma show_nat_head: "0 \<le> n \<Longrightarrow> \<exists>c cs. show_nat n = c # cs \<and> is_digit c \<and> \<not> is_space c"
  using show_nat_digits [of n] show_nat_nonempty [of n] by (cases "show_nat n") (auto simp: is_digit_not_space)

lemma skip_show_nat: "0 \<le> n \<Longrightarrow> skip_spaces (show_nat n @ e) = show_nat n @ e"
  using show_nat_head [of n] by (auto simp: skip_spaces_def)


lemma hex_number_none: "length s < 2 \<or> s ! 1 \<noteq> CHR ''x'' \<and> s ! 1 \<noteq> CHR ''X'' \<Longrightarrow> hex_number s = None"
  by (cases s; cases "tl s") (auto simp: hex_number_def Let_def)

lemma digits_not_x: "list_all is_digit s \<Longrightarrow> CHR ''x'' \<notin> set s \<and> CHR ''X'' \<notin> set s"
  by (auto simp: list_all_iff is_digit_def)

lemma no_x_no_hex: "CHR ''x'' \<notin> set s \<Longrightarrow> CHR ''X'' \<notin> set s \<Longrightarrow> hex_number s = None"
  by (rule hex_number_none) (cases s; cases "tl s"; auto)

text \<open>A text without an exponent after its decimal part is read as that.\<close>

lemma exponent_part_none: "s = [] \<or> hd s \<noteq> CHR ''e'' \<and> hd s \<noteq> CHR ''E'' \<Longrightarrow> exponent_part s = (0, s)"
  by (auto simp: exponent_part_def)

lemma times_ten_0 [simp]: "times_ten x 0 = x"
  by (simp add: times_ten_def)

lemma unsigned_plain:
  "decimal_prefix s = Some (v, r) \<Longrightarrow> r = [] \<or> hd r \<noteq> CHR ''e'' \<and> hd r \<noteq> CHR ''E'' \<Longrightarrow> unsigned_prefix s = Some (v, r)"
  by (simp add: unsigned_prefix_def exponent_part_none)

lemma number_of_show: "0 \<le> n \<Longrightarrow> number_of (show_nat n) = Some (of_int n)"
proof -
  assume n: "0 \<le> n"
  obtain c cs where c: "show_nat n = c # cs" "is_digit c" "\<not> is_space c" using show_nat_head [OF n] by blast
  then have "c \<noteq> CHR ''-''" "c \<noteq> CHR ''+''" by (auto simp: is_digit_def)
  moreover have "hex_number (show_nat n) = None"
    using digits_not_x [OF show_nat_digits [OF n]] no_x_no_hex by blast
  moreover have "unsigned_prefix (show_nat n) = Some (of_int n, [])"
    using decimal_prefix_digits [OF show_nat_digits [OF n]] digits_val_show_nat [OF n] by (simp add: unsigned_plain)
  ultimately show ?thesis using c by (simp add: number_of_def signed_prefix_def)
qed

text \<open>A number with at most twenty digits in its fraction is read as it was written.\<close>

lemma decimal_prefix_plain:
  assumes "0 \<le> x" "decimal 20 x" "t = [] \<or> \<not> is_digit (hd t) \<and> hd t \<noteq> CHR ''.''"
  shows "decimal_prefix (plain_text x @ t) = Some (x, t)"
proof -
  define r where "r = x - of_int \<lfloor>x\<rfloor>"
  have r: "0 \<le> r" "r < 1" unfolding r_def by linarith+
  have n: "0 \<le> \<lfloor>x\<rfloor>" using assms(1) by simp
  have "decimal 20 r"
  proof -
    have "of_int (- \<lfloor>x\<rfloor>) = of_int (- \<lfloor>x\<rfloor> * 10 ^ 20) / (10 ^ 20 :: rat)" by simp
    then have "decimal 20 (of_int (- \<lfloor>x\<rfloor>))" unfolding decimal_iff by blast
    then show ?thesis using decimal_add [OF assms(2)] by (fastforce simp: r_def)
  qed
  note fs = frac_digits_back [OF r this]
  note ds = show_nat_digits [OF n]
  show ?thesis
  proof (cases "r = 0")
    case True
    have s: "takeWhile is_digit (show_nat \<lfloor>x\<rfloor> @ t) = show_nat \<lfloor>x\<rfloor>" "dropWhile is_digit (show_nat \<lfloor>x\<rfloor> @ t) = t"
      using digits_split [OF ds, of t] assms(3) by blast+
    have "plain_text x = show_nat \<lfloor>x\<rfloor>" "of_int \<lfloor>x\<rfloor> = x" using True by (simp_all add: plain_text_def r_def)
    then show ?thesis
      unfolding decimal_prefix_def Let_def using s digits_val_show_nat [OF n] show_nat_nonempty [of "\<lfloor>x\<rfloor>"] assms(3)
      by (auto simp: digits_val_def simp del: takeWhile_eq_all_conv dropWhile_eq_Nil_conv)
  next
    case False
    let ?e = "CHR ''.'' # frac_digits 20 r @ t"
    have t: "plain_text x @ t = show_nat \<lfloor>x\<rfloor> @ ?e" using False by (simp add: plain_text_def r_def)
    have s: "takeWhile is_digit (show_nat \<lfloor>x\<rfloor> @ ?e) = show_nat \<lfloor>x\<rfloor>" "dropWhile is_digit (show_nat \<lfloor>x\<rfloor> @ ?e) = ?e"
      using digits_split [OF ds, of ?e] not_digit(3) by simp_all
    have a: "takeWhile is_digit (frac_digits 20 r @ t) = frac_digits 20 r" "dropWhile is_digit (frac_digits 20 r @ t) = t"
      using digits_split [OF conjunct1 [OF fs], of t] assms(3) by blast+
    have "of_int \<lfloor>x\<rfloor> + of_int (digits_val (frac_digits 20 r)) / 10 ^ length (frac_digits 20 r) = x" using fs by (simp add: r_def)
    then show ?thesis
      unfolding t decimal_prefix_def Let_def s using a show_nat_nonempty [of "\<lfloor>x\<rfloor>"] digits_val_show_nat [OF n]
      by (simp del: takeWhile_eq_all_conv dropWhile_eq_Nil_conv)
  qed
qed

lemma decimal_times: "decimal n x \<Longrightarrow> decimal n (x * 10 ^ e)"
  using decimal_mult_int [of n x "10 ^ e"] by simp

lemma exponent_read:
  assumes "0 \<le> n"
  shows "exponent_part (CHR ''e'' # CHR ''-'' # show_nat n) = (- n, [])"
  using digits_all [OF show_nat_digits [OF assms]] show_nat_nonempty [of n] digits_val_show_nat [OF assms]
  by (simp add: exponent_part_def Let_def del: takeWhile_eq_all_conv dropWhile_eq_Nil_conv)

lemma unsigned_num_text:
  assumes "0 \<le> x" "decimal 20 x" "x < 10 ^ 21"
  shows "unsigned_prefix (num_text x) = Some (x, [])"
proof (cases "x = 0 \<or> 1 / 10 ^ 6 \<le> x \<and> x < 10 ^ 21")
  case True
  then show ?thesis using decimal_prefix_plain [OF assms(1,2), of "[]"] by (simp add: num_text_def unsigned_plain)
next
  case False
  let ?e = "places_up x"
  have one: "x < 1" using False assms(1,3) by simp
  have t: "num_text x = plain_text (x * 10 ^ ?e) @ ''e-'' @ show_nat (int ?e)" using False one by (simp add: num_text_def Let_def)
  have "decimal_prefix (num_text x) = Some (x * 10 ^ ?e, ''e-'' @ show_nat (int ?e))"
    unfolding t using assms(1) by (intro decimal_prefix_plain decimal_times [OF assms(2)]) (simp_all add: is_digit_def)
  moreover have "times_ten (x * 10 ^ ?e) (- int ?e) = x" by (simp add: times_ten_def)
  ultimately show ?thesis by (simp add: unsigned_prefix_def exponent_read)
qed

lemma plain_text_head: "0 \<le> x \<Longrightarrow> \<exists>c cs. plain_text x = c # cs \<and> is_digit c \<and> \<not> is_space c"
  using show_nat_head [of "\<lfloor>x\<rfloor>"] by (auto simp: plain_text_def Let_def)

lemma num_text_head: "0 \<le> x \<Longrightarrow> \<exists>c cs. num_text x = c # cs \<and> is_digit c \<and> \<not> is_space c"
  using plain_text_head [of x] plain_text_head [of "x * 10 ^ places_up x"] plain_text_head [of "x / 10 ^ places_down x"]
  by (auto simp: num_text_def Let_def)

text \<open>No text of a number is taken for a hexadecimal one.\<close>

lemma frac_digits_digits: "0 \<le> r \<Longrightarrow> r < 1 \<Longrightarrow> list_all is_digit (frac_digits n r)"
proof (induction n arbitrary: r)
  case (Suc n)
  have "0 \<le> \<lfloor>10 * r\<rfloor>" "\<lfloor>10 * r\<rfloor> < 10" "0 \<le> 10 * r - of_int \<lfloor>10 * r\<rfloor>" "10 * r - of_int \<lfloor>10 * r\<rfloor> < 1"
    using Suc.prems by linarith+
  then show ?case using Suc.IH by simp
qed simp

lemma plain_text_no_x: "0 \<le> x \<Longrightarrow> CHR ''x'' \<notin> set (plain_text x) \<and> CHR ''X'' \<notin> set (plain_text x)"
proof -
  assume x: "0 \<le> x"
  have "0 \<le> x - of_int \<lfloor>x\<rfloor>" "x - of_int \<lfloor>x\<rfloor> < 1" by linarith+
  then show ?thesis
    using digits_not_x [OF show_nat_digits, of "\<lfloor>x\<rfloor>"] digits_not_x [OF frac_digits_digits, of "x - of_int \<lfloor>x\<rfloor>" 20] x
    by (simp add: plain_text_def Let_def)
qed

lemma num_text_no_hex: "0 \<le> x \<Longrightarrow> hex_number (num_text x) = None \<and> hex_number (CHR ''-'' # num_text x) = None"
proof -
  assume x: "0 \<le> x"
  have "CHR ''x'' \<notin> set (num_text x) \<and> CHR ''X'' \<notin> set (num_text x)"
    using plain_text_no_x [of x] plain_text_no_x [of "x * 10 ^ places_up x"] plain_text_no_x [of "x / 10 ^ places_down x"]
      digits_not_x [OF show_nat_digits, of "int _"] x
    by (simp add: num_text_def Let_def)
  then show ?thesis using no_x_no_hex by simp
qed

lemma number_of_num_str:
  assumes "decimal 20 x" "\<bar>x\<bar> < 10 ^ 21"
  shows "number_of (num_str x) = Some x"
proof (cases "x < 0")
  case True
  have "\<not> is_space CHR ''-''" by (simp add: is_space_def)
  then show ?thesis using True unsigned_num_text [of "- x"] num_text_no_hex [of "- x"] decimal_minus [OF assms(1)] assms(2)
    by (simp add: num_str_def number_of_def signed_prefix_def)
next
  case False
  obtain c cs where c: "num_text x = c # cs" "is_digit c" "\<not> is_space c" using num_text_head [of x] False by auto
  then have "c \<noteq> CHR ''-''" "c \<noteq> CHR ''+''" by (auto simp: is_digit_def)
  then show ?thesis using False c unsigned_num_text [OF _ assms(1)] num_text_no_hex [of x] assms(2)
    by (simp add: num_str_def number_of_def signed_prefix_def)
qed

text \<open>Small and large numbers, and what is read of exponents and hexadecimal digits.\<close>

lemma exponent_texts:
  "num_str (1 / 10 ^ 7) = ''1e-7''" "num_str (- 123 / 10 ^ 9) = ''-1.23e-7''" "num_str (1 / 10 ^ 6) = ''0.000001''"
  "num_str (15 * 10 ^ 20) = ''1.5e+21''" "number_of ''1e3'' = Some 1000" "number_of ''1e'' = None" "parse_float ''1e'' = Some 1"
  "number_of ''0x1F'' = Some 31"
  by code_simp+

end
