(* ===== verification/UI_Color.thy ===== *)
theory UI_Color
  imports JS_Text
begin

text \<open>
  The colors of the effects (\<open>jQuery.Color\<close>, jquery-ui.js): their channels in two spaces, the texts
  they are parsed from and written as, the conversion between the spaces, transitions and blending.
  A channel is \<open>None\<close> where the code has null. Numbers are exact rationals, except for percentages
  of a byte, whose product with 2.55 is rounded as the language does, because the next step takes its
  integer part.
\<close>

text \<open>\<open>~~x\<close>: the integer part, wrapped to 32 bits; 0 for NaN.\<close>

definition to_int32 :: "rat option \<Rightarrow> int" where
  "to_int32 x = (case x of None \<Rightarrow> 0 | Some v \<Rightarrow> (trunc_rat v + 2 ^ 31) mod 2 ^ 32 - 2 ^ 31)"

section \<open>Spaces and their properties\<close>

datatype space = Rgba | Hsla

datatype prop_type = Byte | Percent | Degrees

record channel_prop =
  p_key :: string
  p_idx :: nat
  p_type :: prop_type
  p_def :: "rat option"

definition alpha_prop :: channel_prop where
  "alpha_prop = \<lparr>p_key = ''alpha'', p_idx = 3, p_type = Percent, p_def = Some 1\<rparr>"

primrec props :: "space \<Rightarrow> channel_prop list" where
  "props Rgba =
     [\<lparr>p_key = ''red'', p_idx = 0, p_type = Byte, p_def = None\<rparr>,
      \<lparr>p_key = ''green'', p_idx = 1, p_type = Byte, p_def = None\<rparr>,
      \<lparr>p_key = ''blue'', p_idx = 2, p_type = Byte, p_def = None\<rparr>, alpha_prop]"
| "props Hsla =
     [\<lparr>p_key = ''hue'', p_idx = 0, p_type = Degrees, p_def = None\<rparr>,
      \<lparr>p_key = ''saturation'', p_idx = 1, p_type = Percent, p_def = None\<rparr>,
      \<lparr>p_key = ''lightness'', p_idx = 2, p_type = Percent, p_def = None\<rparr>, alpha_prop]"

primrec floors :: "prop_type \<Rightarrow> bool" where
  "floors Byte = True" | "floors Percent = False" | "floors Degrees = True"

primrec type_max :: "prop_type \<Rightarrow> rat" where
  "type_max Byte = 255" | "type_max Percent = 1" | "type_max Degrees = 0"

text \<open>What a channel is given: nothing, a number or a text.\<close>

datatype cval = CNull | CNum rat | CText string

primrec cval_float :: "cval \<Rightarrow> rat option" where
  "cval_float CNull = None" | "cval_float (CNum x) = Some x" | "cval_float (CText s) = parse_float s"

primrec cval_number :: "cval \<Rightarrow> rat option" where
  "cval_number CNull = Some 0" | "cval_number (CNum x) = Some x" | "cval_number (CText s) = number_of s"

definition clamp_num :: "rat \<Rightarrow> channel_prop \<Rightarrow> rat" where
  "clamp_num x p =
     (if p_type p = Degrees then rem_rat (x + 360) 360
      else if 0 > x then 0 else if type_max (p_type p) < x then type_max (p_type p) else x)"

definition clamp :: "cval \<Rightarrow> channel_prop \<Rightarrow> bool \<Rightarrow> rat option" where
  "clamp v p allowEmpty =
     (if v = CNull then if allowEmpty \<or> p_def p = None then None else p_def p
      else
        let x = (if floors (p_type p) then Some (of_int (to_int32 (cval_number v))) else cval_float v) in
        (case x of None \<Rightarrow> p_def p | Some y \<Rightarrow> Some (clamp_num y p)))"

type_synonym channels = "rat option list"

record color =
  c_rgba :: channels
  c_hsla :: "channels option"

definition cval_of :: "rat option \<Rightarrow> cval" where
  "cval_of x = (case x of None \<Rightarrow> CNull | Some v \<Rightarrow> CNum v)"

section \<open>Conversion between the spaces\<close>

definition hue2rgb :: "rat \<Rightarrow> rat \<Rightarrow> rat \<Rightarrow> rat" where
  "hue2rgb p q h0 =
     (let h = rem_rat (h0 + 1) 1 in
      if h * 6 < 1 then p + (q - p) * h * 6
      else if h * 2 < 1 then q
      else if h * 3 < 2 then p + (q - p) * (2 / 3 - h) * 6
      else p)"

definition rgb_hue :: "rat \<Rightarrow> rat \<Rightarrow> rat \<Rightarrow> rat" where
  "rgb_hue r g b =
     (let mx = max r (max g b); mn = min r (min g b); diff = mx - mn in
      if mn = mx then 0
      else if r = mx then 60 * (g - b) / diff + 360
      else if g = mx then 60 * (b - r) / diff + 120
      else 60 * (r - g) / diff + 240)"

definition rgb_saturation :: "rat \<Rightarrow> rat \<Rightarrow> rat \<Rightarrow> rat" where
  "rgb_saturation r g b =
     (let mx = max r (max g b); mn = min r (min g b); diff = mx - mn; add = mx + mn; l = add / 2 in
      if diff = 0 then 0 else if l \<le> 1 / 2 then diff / add else diff / (2 - add))"

fun hsla_to :: "channels \<Rightarrow> channels" where
  "hsla_to [Some r0, Some g0, Some b0, a] =
     (let r = r0 / 255; g = g0 / 255; b = b0 / 255; l = (max r (max g b) + min r (min g b)) / 2 in
      [Some (rem_rat (of_int (js_round (rgb_hue r g b))) 360), Some (rgb_saturation r g b), Some l,
       Some (case a of None \<Rightarrow> 1 | Some x \<Rightarrow> x)])"
| "hsla_to c = [None, None, None, c ! 3]"

fun hsla_from :: "channels \<Rightarrow> channels" where
  "hsla_from [Some h0, Some s, Some l, a] =
     (let h = h0 / 360; q = (if l \<le> 1 / 2 then l * (1 + s) else l + s - l * s); p = 2 * l - q in
      [Some (of_int (js_round (hue2rgb p q (h + 1 / 3) * 255))), Some (of_int (js_round (hue2rgb p q h * 255))),
       Some (of_int (js_round (hue2rgb p q (h - 1 / 3) * 255))), a])"
| "hsla_from c = [None, None, None, c ! 3]"

section \<open>Colors from arrays, and the methods \<open>rgba\<close> and \<open>hsla\<close>\<close>

definition color_none :: color where
  "color_none = \<lparr>c_rgba = [None, None, None, None], c_hsla = None\<rparr>"

definition nth_val :: "cval list \<Rightarrow> nat \<Rightarrow> cval" where
  "nth_val vs i = (if i < length vs then vs ! i else CNull)"

definition color_array :: "cval list \<Rightarrow> color" where
  "color_array vs = \<lparr>c_rgba = map (\<lambda>p. clamp (nth_val vs (p_idx p)) p False) (props Rgba), c_hsla = None\<rparr>"

definition color_channels :: "channels \<Rightarrow> color" where
  "color_channels cs = color_array (map cval_of cs)"

text \<open>Reading a space makes its cache.\<close>

primrec cached :: "space \<Rightarrow> color \<Rightarrow> channels" where
  "cached Rgba c = c_rgba c"
| "cached Hsla c = (case c_hsla c of None \<Rightarrow> hsla_to (c_rgba c) | Some h \<Rightarrow> h)"

primrec with_cache :: "space \<Rightarrow> color \<Rightarrow> color" where
  "with_cache Rgba c = c"
| "with_cache Hsla c = c\<lparr>c_hsla := Some (cached Hsla c)\<rparr>"

datatype space_arg = ArrayArg "cval list" | ObjectArg "string \<Rightarrow> cval"

primrec arg_val :: "space_arg \<Rightarrow> channel_prop \<Rightarrow> cval" where
  "arg_val (ArrayArg vs) p = nth_val vs (p_idx p)"
| "arg_val (ObjectArg f) p = f (p_key p)"

definition set_space :: "space \<Rightarrow> space_arg \<Rightarrow> color \<Rightarrow> color" where
  "set_space sp arg c =
     (let local = map (\<lambda>p. clamp (if arg_val arg p = CNull then cval_of (cached sp c ! p_idx p) else arg_val arg p) p False) (props sp)
      in case sp of Rgba \<Rightarrow> color_channels local
         | Hsla \<Rightarrow> (color_channels (hsla_from local))\<lparr>c_hsla := Some local\<rparr>)"

section \<open>Parsing texts\<close>

text \<open>The expressions are tried at every position; each part of them can match in one way only.\<close>

definition open_of :: "string \<Rightarrow> string \<Rightarrow> string option" where
  "open_of name s =
     (case lit name s of None \<Rightarrow> None
      | Some r \<Rightarrow> map_option skip_spaces (lit ''('' (case r of c # cs \<Rightarrow> if c = CHR ''a'' then cs else r | [] \<Rightarrow> [])))"

definition byte_text :: "string \<Rightarrow> (string \<times> string) option" where
  "byte_text s = (let ds = takeWhile is_digit s in
     if 1 \<le> length ds \<and> length ds \<le> 3 then Some (ds, dropWhile is_digit s) else None)"

definition number_text :: "string \<Rightarrow> (string \<times> string) option" where
  "number_text s = (let ds = takeWhile is_digit s; (fs, r) = fraction_text (dropWhile is_digit s) in
     if ds = [] then None else Some (ds @ fs, r))"

definition percent_text :: "string \<Rightarrow> (string \<times> string) option" where
  "percent_text s = (case number_text s of None \<Rightarrow> None
     | Some (t, r) \<Rightarrow> map_option (Pair t) (lit ''%'' r))"

definition alpha_text :: "string \<Rightarrow> string \<times> string" where
  "alpha_text s = (let (ds, r) = (if s \<noteq> [] \<and> is_digit (hd s) then ([hd s], tl s) else ([], s)); (fs, r1) = fraction_text r
     in (ds @ fs, r1))"

text \<open>A part, blanks, a comma and blanks; and the end with or without an alpha.\<close>

definition part_comma :: "(string \<Rightarrow> (string \<times> string) option) \<Rightarrow> string \<Rightarrow> (string \<times> string) option" where
  "part_comma f s = (case f s of None \<Rightarrow> None
     | Some (t, r) \<Rightarrow> map_option (\<lambda>r1. (t, skip_spaces r1)) (lit '','' (skip_spaces r)))"

definition alpha_end :: "string \<Rightarrow> cval option" where
  "alpha_end s =
     (if s \<noteq> [] \<and> hd s = CHR '','' then
        let (t, r) = alpha_text (skip_spaces (tl s)) in
        (case lit '')'' (skip_spaces r) of None \<Rightarrow> None | Some _ \<Rightarrow> Some (CText t))
      else case lit '')'' s of None \<Rightarrow> None | Some _ \<Rightarrow> Some CNull)"

definition four_parts :: "(string \<Rightarrow> (string \<times> string) option) \<Rightarrow> (string \<Rightarrow> (string \<times> string) option) \<Rightarrow>
    string \<Rightarrow> (string \<times> string \<times> string \<times> cval) option" where
  "four_parts f g s =
     (case part_comma f s of None \<Rightarrow> None
      | Some (t1, r1) \<Rightarrow> (case part_comma g r1 of None \<Rightarrow> None
        | Some (t2, r2) \<Rightarrow> (case g r2 of None \<Rightarrow> None
          | Some (t3, r3) \<Rightarrow> map_option (\<lambda>a. (t1, t2, t3, a)) (alpha_end (skip_spaces r3)))))"

text \<open>The double nearest to 2.55.\<close>

definition percent_factor :: rat where
  "percent_factor = 5742089524897382 / 2 ^ 51"

definition text_num :: "string \<Rightarrow> rat" where
  "text_num t = (case number_of t of None \<Rightarrow> 0 | Some v \<Rightarrow> v)"

text \<open>A percentage as a byte, with the roundings of the text and of the product.\<close>

definition percent_byte :: "string \<Rightarrow> rat" where
  "percent_byte t = double_round (double_round (text_num t) * percent_factor)"

definition hex_val :: "char \<Rightarrow> int option" where
  "hex_val c = (if is_digit c then Some (digit_val c)
     else if 97 \<le> (of_char c :: int) \<and> (of_char c :: int) \<le> 102 then Some (of_char c - 87) else None)"

fun hex_vals :: "string \<Rightarrow> int list option" where
  "hex_vals [] = Some []"
| "hex_vals (c # cs) = (case hex_val c of None \<Rightarrow> None | Some v \<Rightarrow> map_option ((#) v) (hex_vals cs))"

datatype parser = RgbBytes | RgbPercents | HexLong | HexShort | HslParser

fun hex_at :: "nat \<Rightarrow> string \<Rightarrow> int list option" where
  "hex_at n s = (case lit ''#'' s of None \<Rightarrow> None
     | Some r \<Rightarrow> if length r < n then None else hex_vals (take n r))"

fun parser_at :: "parser \<Rightarrow> string \<Rightarrow> cval list option" where
  "parser_at RgbBytes s = (case open_of ''rgb'' s of None \<Rightarrow> None
     | Some r \<Rightarrow> map_option (\<lambda>(t1, t2, t3, a). [CText t1, CText t2, CText t3, a]) (four_parts byte_text byte_text r))"
| "parser_at RgbPercents s = (case open_of ''rgb'' s of None \<Rightarrow> None
     | Some r \<Rightarrow> map_option (\<lambda>(t1, t2, t3, a). [CNum (percent_byte t1), CNum (percent_byte t2), CNum (percent_byte t3), a]) (four_parts percent_text percent_text r))"
| "parser_at HexLong s = (case hex_at 6 s of Some [a, b, c, d, e, f] \<Rightarrow>
       Some [CNum (of_int (16 * a + b)), CNum (of_int (16 * c + d)), CNum (of_int (16 * e + f))]
     | _ \<Rightarrow> None)"
| "parser_at HexShort s = (case hex_at 3 s of Some [a, b, c] \<Rightarrow>
       Some [CNum (of_int (17 * a)), CNum (of_int (17 * b)), CNum (of_int (17 * c))]
     | _ \<Rightarrow> None)"
| "parser_at HslParser s = (case open_of ''hsl'' s of None \<Rightarrow> None
     | Some r \<Rightarrow> map_option (\<lambda>(t1, t2, t3, a). [CText t1, CNum (text_num t2 / 100), CNum (text_num t3 / 100), a])
         (four_parts number_text percent_text r))"

primrec parser_space :: "parser \<Rightarrow> space" where
  "parser_space RgbBytes = Rgba" | "parser_space RgbPercents = Rgba" | "parser_space HexLong = Rgba"
| "parser_space HexShort = Rgba" | "parser_space HslParser = Hsla"

definition parser_color :: "parser \<Rightarrow> string \<Rightarrow> color option" where
  "parser_color p s = map_option (\<lambda>vs. set_space (parser_space p) (ArrayArg vs) color_none) (search (parser_at p) s)"

fun first_color :: "parser list \<Rightarrow> string \<Rightarrow> color option" where
  "first_color [] s = None"
| "first_color (p # ps) s = (case parser_color p s of Some c \<Rightarrow> Some c | None \<Rightarrow> first_color ps s)"

text \<open>The names, \<open>_default\<close> included; \<open>transparent\<close> is the array of its channels.\<close>

definition color_names :: "(string \<times> string) list" where
  "color_names = [(''aqua'', ''#00ffff''), (''black'', ''#000000''), (''blue'', ''#0000ff''), (''fuchsia'', ''#ff00ff''),
     (''gray'', ''#808080''), (''green'', ''#008000''), (''lime'', ''#00ff00''), (''maroon'', ''#800000''),
     (''navy'', ''#000080''), (''olive'', ''#808000''), (''purple'', ''#800080''), (''red'', ''#ff0000''),
     (''silver'', ''#c0c0c0''), (''teal'', ''#008080''), (''white'', ''#ffffff''), (''yellow'', ''#ffff00''),
     (''_default'', ''#ffffff'')]"

definition transparent :: channels where
  "transparent = [None, None, None, Some 0]"

text \<open>What \<open>stringParse\<close> returns: a color, a text among the names, the array of \<open>transparent\<close>, or nothing.\<close>

datatype parsed = PColor color | PText string | PTransparent | PNothing

definition stringParse :: "string \<Rightarrow> parsed" where
  "stringParse s0 =
     (let s = to_lower s0 in
      case first_color [RgbBytes, RgbPercents, HexLong, HexShort, HslParser] s of
        Some c \<Rightarrow> PColor (if c_rgba c = [Some 0, Some 0, Some 0, Some 0] then c\<lparr>c_rgba := transparent\<rparr> else c)
      | None \<Rightarrow> if s = ''transparent'' then PTransparent
                else (case map_of color_names s of Some t \<Rightarrow> PText t | None \<Rightarrow> PNothing))"

text \<open>\<open>parse\<close> of what \<open>stringParse\<close> returned; the texts among the names are parsed once more.\<close>

definition color_default :: color where
  "color_default = color_array [CNum 255, CNum 255, CNum 255]"

primrec color_parsed :: "parsed \<Rightarrow> color" where
  "color_parsed (PColor c) = c"
| "color_parsed (PText t) = (case stringParse t of PColor c \<Rightarrow> c | _ \<Rightarrow> color_default)"
| "color_parsed PTransparent = color_channels transparent"
| "color_parsed PNothing = color_default"

definition color_text :: "string \<Rightarrow> color" where
  "color_text s = color_parsed (stringParse s)"

section \<open>Colors from objects\<close>

text \<open>An object gives channels by name; a space is taken when one of its own names is given.\<close>

definition object_rgba :: "(string \<Rightarrow> cval) \<Rightarrow> channels" where
  "object_rgba f =
     (let cs = map (\<lambda>p. clamp (f (p_key p)) p True) (props Rgba)
      in if None \<in> set (take 3 cs) then cs else cs[3 := Some 1])"

fun object_hsla :: "(string \<Rightarrow> cval) \<Rightarrow> channels \<Rightarrow> channel_prop list \<Rightarrow> channels option \<Rightarrow> channels option" where
  "object_hsla f rgba [] cache = cache"
| "object_hsla f rgba (p # ps) cache =
     (case cache of
        None \<Rightarrow> if p_key p = ''alpha'' \<or> f (p_key p) = CNull then object_hsla f rgba ps None
                else object_hsla f rgba ps (Some ((hsla_to rgba)[p_idx p := clamp (f (p_key p)) p True]))
      | Some h \<Rightarrow> object_hsla f rgba ps (Some (h[p_idx p := clamp (f (p_key p)) p True])))"

definition color_object :: "(string \<Rightarrow> cval) \<Rightarrow> color" where
  "color_object f =
     (let rgba = object_rgba f in
      case object_hsla f rgba (props Hsla) None of
        None \<Rightarrow> \<lparr>c_rgba = rgba, c_hsla = None\<rparr>
      | Some h \<Rightarrow> if None \<in> set (take 3 h) then \<lparr>c_rgba = rgba, c_hsla = Some h\<rparr>
                   else \<lparr>c_rgba = hsla_from (h[3 := Some 1]), c_hsla = Some (h[3 := Some 1])\<rparr>)"

section \<open>The methods\<close>

definition same_channels :: "channels \<Rightarrow> channels \<Rightarrow> channel_prop list \<Rightarrow> bool" where
  "same_channels is local ps = list_all (\<lambda>p. is ! p_idx p = None \<or> is ! p_idx p = local ! p_idx p) ps"

definition color_is :: "color \<Rightarrow> color \<Rightarrow> bool" where
  "color_is c compare \<longleftrightarrow>
     same_channels (c_rgba compare) (c_rgba c) (props Rgba) \<and>
     (case c_hsla compare of None \<Rightarrow> True | Some h \<Rightarrow> same_channels h (cached Hsla c) (props Hsla))"

definition space_of :: "color \<Rightarrow> space" where
  "space_of c = (if c_hsla c = None then Rgba else Hsla)"

text \<open>\<open>red()\<close>, \<open>hue()\<close>, \<open>alpha()\<close> and the others: the space they work in, the value, and the color set.\<close>

definition key_space :: "space \<Rightarrow> channel_prop \<Rightarrow> color \<Rightarrow> space" where
  "key_space sp p c = (if p_key p = ''alpha'' then space_of c else sp)"

definition get_key :: "space \<Rightarrow> channel_prop \<Rightarrow> color \<Rightarrow> rat option" where
  "get_key sp p c = cached (key_space sp p c) c ! p_idx p"

text \<open>\<open>rplusequals\<close>: the sign and the number.\<close>

definition plus_equals :: "string \<Rightarrow> rat option" where
  "plus_equals s =
     (case s of
        c # d # r \<Rightarrow>
          if (c = CHR ''+'' \<or> c = CHR ''-'') \<and> d = CHR ''='' \<and> takeWhile is_digit (skip_spaces r) \<noteq> []
          then map_option (\<lambda>(v, _). if c = CHR ''+'' then v else - v) (decimal_prefix (skip_spaces r)) else None
      | _ \<Rightarrow> None)"

definition channel_value :: "rat option \<Rightarrow> cval \<Rightarrow> cval" where
  "channel_value cur v =
     (case v of CText s \<Rightarrow> (case plus_equals s of None \<Rightarrow> v
         | Some d \<Rightarrow> CNum ((case cur of None \<Rightarrow> 0 | Some x \<Rightarrow> x) + d))
      | _ \<Rightarrow> v)"

datatype key_arg = KeyValue cval | KeyFn "rat option \<Rightarrow> cval"

definition set_key :: "space \<Rightarrow> channel_prop \<Rightarrow> key_arg \<Rightarrow> color \<Rightarrow> color" where
  "set_key sp p arg c =
     (let k = key_space sp p c; local = cached k c; cur = local ! p_idx p;
          v = channel_value cur (case arg of KeyValue v \<Rightarrow> v | KeyFn f \<Rightarrow> f cur)
      in set_space k (ArrayArg ((map cval_of local)[p_idx p := v])) (with_cache k c))"

definition transition_value :: "channel_prop \<Rightarrow> rat \<Rightarrow> rat option \<Rightarrow> rat option \<Rightarrow> rat option" where
  "transition_value p distance start end' =
     (case end' of None \<Rightarrow> start
      | Some e \<Rightarrow> (case start of None \<Rightarrow> end'
        | Some s0 \<Rightarrow>
          let s = (if p_type p = Degrees then if e - s0 > 180 then s0 + 360 else if s0 - e > 180 then s0 - 360 else s0 else s0)
          in clamp (CNum ((e - s) * distance + s)) p False))"

definition color_transition :: "color \<Rightarrow> color \<Rightarrow> rat \<Rightarrow> color" where
  "color_transition c other distance =
     (let sp = space_of other;
          start_color = (if get_key Rgba alpha_prop c = Some 0 then color_channels transparent else c);
          start = cached sp start_color; end' = cached sp other;
          result = map (\<lambda>p. transition_value p distance (start ! p_idx p) (end' ! p_idx p)) (props sp)
      in set_space sp (ArrayArg (map cval_of result)) c)"

text \<open>A missing channel counts as 0 in arithmetic.\<close>

definition chan_num :: "rat option \<Rightarrow> rat" where
  "chan_num x = (case x of None \<Rightarrow> 0 | Some v \<Rightarrow> v)"

definition color_blend :: "color \<Rightarrow> color \<Rightarrow> color" where
  "color_blend c opaque =
     (if c_rgba c ! 3 = Some 1 then c
      else let a = chan_num (c_rgba c ! 3) in
        color_array (map (\<lambda>i. CNum ((1 - a) * chan_num (c_rgba opaque ! i) + a * chan_num (c_rgba c ! i))) [0, 1, 2]))"

definition channel_or :: "nat \<Rightarrow> rat option \<Rightarrow> rat" where
  "channel_or i v = (case v of None \<Rightarrow> if i > 2 then 1 else 0 | Some x \<Rightarrow> x)"

fun join_comma :: "string list \<Rightarrow> string" where
  "join_comma [] = []"
| "join_comma [v] = v"
| "join_comma (v # vs) = v @ '','' @ join_comma vs"

definition toRgbaString :: "color \<Rightarrow> string" where
  "toRgbaString c =
     (let vs = map (\<lambda>i. channel_or i (c_rgba c ! i)) [0, 1, 2, 3] in
      if vs ! 3 = 1 then ''rgb('' @ join_comma (map num_text (take 3 vs)) @ '')''
      else ''rgba('' @ join_comma (map num_text vs) @ '')'')"

definition toHslaString :: "color \<Rightarrow> string" where
  "toHslaString c =
     (let vs = map (\<lambda>i. channel_or i (cached Hsla c ! i)) [0, 1, 2, 3];
          ts = [num_text (vs ! 0), show_nat (js_round (vs ! 1 * 100)) @ ''%'', show_nat (js_round (vs ! 2 * 100)) @ ''%'']
      in if vs ! 3 = 1 then ''hsl('' @ join_comma ts @ '')''
         else ''hsla('' @ join_comma (ts @ [num_text (vs ! 3)]) @ '')'')"

definition hex_char :: "int \<Rightarrow> char" where
  "hex_char n = (if n < 10 then digit_char n else char_of (87 + n))"

text \<open>\<open>v.toString (16)\<close> of an integer from 0 to 255, padded to two digits.\<close>

definition hex_byte :: "rat option \<Rightarrow> string" where
  "hex_byte v = (let n = \<lfloor>chan_num v\<rfloor> in [hex_char (n div 16), hex_char (n mod 16)])"

definition toHexString :: "bool \<Rightarrow> color \<Rightarrow> string" where
  "toHexString includeAlpha c =
     ''#'' @ concat (map (\<lambda>i. hex_byte (c_rgba c ! i)) [0, 1, 2]) @
     (if includeAlpha then hex_byte (Some (of_int (to_int32 (Some (chan_num (c_rgba c ! 3) * 255))))) else [])"

definition color_string :: "color \<Rightarrow> string" where
  "color_string c = (if c_rgba c ! 3 = Some 0 then ''transparent'' else toRgbaString c)"

section \<open>The hooks of the style properties\<close>

text \<open>The background behind an element, where the browser has no alpha: the styles of the ancestors,
  from the first on; an ancestor whose style throws is asked again for ever.\<close>

fun background_of :: "string \<Rightarrow> string option list \<Rightarrow> string js" where
  "background_of bg [] = Inr bg"
| "background_of bg (b # bs) =
     (if bg = [] \<or> bg = ''transparent'' then
        (case b of None \<Rightarrow> Inl Diverge | Some t \<Rightarrow> background_of t bs)
      else Inr bg)"

datatype hook_value = HookText string | HookColor color

definition hook_color :: "bool \<Rightarrow> string option list \<Rightarrow> color \<Rightarrow> string js" where
  "hook_color support_rgba chain c =
     (if \<not> support_rgba \<and> c_rgba c ! 3 \<noteq> Some 1 then
        js_bind (background_of [] chain) (\<lambda>bg.
          Inr (toRgbaString (color_blend c (color_text (if bg \<noteq> [] \<and> bg \<noteq> ''transparent'' then bg else ''_default'')))))
      else Inr (toRgbaString c))"

primrec hook_set :: "bool \<Rightarrow> string option list \<Rightarrow> hook_value \<Rightarrow> string js" where
  "hook_set support_rgba chain (HookColor c) = hook_color support_rgba chain c"
| "hook_set support_rgba chain (HookText t) =
     (if t = ''transparent'' \<or> stringParse t = PNothing then Inr t
      else hook_color support_rgba chain (color_parsed (stringParse t)))"

text \<open>One step of an animation from a style to a color, at a position.\<close>

definition hook_step :: "bool \<Rightarrow> string option list \<Rightarrow> color \<Rightarrow> color \<Rightarrow> rat \<Rightarrow> string js" where
  "hook_step support_rgba chain start end' pos = hook_set support_rgba chain (HookColor (color_transition start end' pos))"

definition expand_border :: "'a \<Rightarrow> (string \<times> 'a) list" where
  "expand_border v = map (\<lambda>part. (''border'' @ part @ ''Color'', v)) [''Top'', ''Right'', ''Bottom'', ''Left'']"

end
