(* ===== verification/UI_ColorProps.thy ===== *)
theory UI_ColorProps
  imports UI_Color
begin

text \<open>
  What the colors guarantee: channels stay in their ranges, the texts written are read back, the way
  through the other space moves no channel by more than two, transitions lead from one color to the
  other and stay between them, and a blend is opaque and lies between the two colors.
\<close>

section \<open>The wheel of hues\<close>

text \<open>The share of the chroma a channel has at a position of the wheel, one turn being 1.\<close>

definition ramp :: "rat \<Rightarrow> rat" where
  "ramp t = max 0 (min 1 (2 - \<bar>6 * t - 2\<bar>))"

definition wheel :: "rat \<Rightarrow> rat" where
  "wheel u = ramp (frac u)"

lemma rem_rat_one: "0 \<le> u \<Longrightarrow> rem_rat u 1 = frac u"
  by (simp add: rem_rat_def trunc_rat_def frac_def)

lemma hue2rgb_wheel:
  assumes "- 1 \<le> u"
  shows "hue2rgb p q u = p + (q - p) * wheel u"
proof -
  have f: "rem_rat (u + 1) 1 = frac u" using rem_rat_one [of "u + 1"] assms by (simp add: frac_1_eq)
  have b: "0 \<le> frac u" "frac u < 1" by (simp_all add: frac_lt_1)
  consider "frac u * 6 < 1" | "1 \<le> frac u * 6" "frac u * 2 < 1" | "1 \<le> frac u * 2" "frac u * 3 < 2" | "2 \<le> frac u * 3"
    by linarith
  then show ?thesis
  proof cases
    case 1
    then have "ramp (frac u) = 6 * frac u" using b by (simp add: ramp_def abs_if)
    then show ?thesis using 1 by (simp add: hue2rgb_def f wheel_def Let_def)
  next
    case 2
    then have "ramp (frac u) = 1" using b by (auto simp: ramp_def abs_if)
    then show ?thesis using 2 by (simp add: hue2rgb_def f wheel_def Let_def)
  next
    case 3
    then have "ramp (frac u) = (2 / 3 - frac u) * 6" by (auto simp: ramp_def abs_if)
    then show ?thesis using 3 by (simp add: hue2rgb_def f wheel_def Let_def)
  next
    case 4
    then have "ramp (frac u) = 0" by (auto simp: ramp_def abs_if)
    then show ?thesis using 4 by (simp add: hue2rgb_def f wheel_def Let_def)
  qed
qed

lemma wheel_turn: "wheel (u + of_int k) = wheel u"
  by (simp add: wheel_def frac_def)

lemma wheel_range: "0 \<le> wheel u" "wheel u \<le> 1"
  by (simp_all add: wheel_def ramp_def)

lemma ramp_lipschitz: "\<bar>ramp s - ramp t\<bar> \<le> 6 * \<bar>s - t\<bar>"
  by (auto simp: ramp_def abs_if max_def min_def)

lemma ramp_ends: "2 / 3 \<le> t \<Longrightarrow> ramp t = 0" "ramp 0 = 0"
  by (auto simp: ramp_def abs_if max_def min_def)

lemma wheel_close_up:
  assumes "u \<le> v" "v - u \<le> 1 / 3"
  shows "\<bar>wheel u - wheel v\<bar> \<le> 6 * (v - u)"
proof (cases "\<lfloor>u\<rfloor> = \<lfloor>v\<rfloor>")
  case True
  then show ?thesis using ramp_lipschitz [of "frac u" "frac v"] assms by (simp add: wheel_def frac_def)
next
  case False
  then have fl: "\<lfloor>v\<rfloor> = \<lfloor>u\<rfloor> + 1" using assms by linarith
  then have "2 / 3 \<le> frac u" "frac v \<le> v - u" "0 \<le> frac v" using assms unfolding frac_def by linarith+
  then show ?thesis
    using ramp_ends(1) [of "frac u"] ramp_ends(2) ramp_lipschitz [of 0 "frac v"] by (simp add: wheel_def)
qed

lemma wheel_close: "\<bar>u - v\<bar> \<le> 1 / 3 \<Longrightarrow> \<bar>wheel u - wheel v\<bar> \<le> 6 * \<bar>u - v\<bar>"
  using wheel_close_up [of u v] wheel_close_up [of v u] by (cases "u \<le> v") (simp_all add: abs_minus_commute)

text \<open>The three channels around the hue of the largest: it has all the chroma, and the others what the
  position tells.\<close>

lemma wheel_third:
  assumes "- 1 \<le> t" "t \<le> 1"
  shows "wheel (1 / 3 + t / 6) = 1" "wheel (t / 6) = max 0 t" "wheel (2 / 3 + t / 6) = max 0 (- t)"
proof -
  have "frac (1 / 3 + t / 6) = 1 / 3 + t / 6" using assms by (simp add: frac_eq)
  then show "wheel (1 / 3 + t / 6) = 1" using assms by (auto simp: wheel_def ramp_def abs_if)
  have "frac (2 / 3 + t / 6) = 2 / 3 + t / 6" using assms by (simp add: frac_eq)
  then show "wheel (2 / 3 + t / 6) = max 0 (- t)" using assms by (auto simp: wheel_def ramp_def abs_if)
  show "wheel (t / 6) = max 0 t"
  proof (cases "0 \<le> t")
    case True
    then have "frac (t / 6) = t / 6" using assms by (simp add: frac_eq)
    then show ?thesis using assms True by (auto simp: wheel_def ramp_def abs_if)
  next
    case False
    then have "wheel (t / 6) = wheel (1 + t / 6)" using wheel_turn [of "t / 6" 1] by (simp add: add.commute)
    moreover have "frac (1 + t / 6) = 1 + t / 6" using assms False by (simp add: frac_eq)
    ultimately show ?thesis using assms False by (auto simp: wheel_def ramp_def abs_if)
  qed
qed

section \<open>To the other space and back\<close>

text \<open>The exact hue, as a turn, gives back the channels.\<close>

lemma min_plus_max: "min x y + max 0 (x - y) = x" "min x y + max 0 (- (x - y)) = y" for x y :: rat
  by (simp_all add: min_def max_def)

lemma hue_exact:
  fixes r g b :: rat
  defines "mx \<equiv> max r (max g b)" and "mn \<equiv> min r (min g b)"
  assumes "mn < mx"
  shows "mn + (mx - mn) * wheel (rgb_hue r g b / 360 + 1 / 3) = r"
    "mn + (mx - mn) * wheel (rgb_hue r g b / 360) = g"
    "mn + (mx - mn) * wheel (rgb_hue r g b / 360 - 1 / 3) = b"
proof -
  define D where "D = mx - mn"
  have d: "0 < D" using assms by (simp add: D_def)
  have hue: "rgb_hue r g b = (if mn = mx then 0 else if r = mx then 60 * (g - b) / D + 360
      else if g = mx then 60 * (b - r) / D + 120 else 60 * (r - g) / D + 240)"
    unfolding rgb_hue_def Let_def mx_def mn_def D_def ..
  have tr: "- 1 \<le> x / D \<and> x / D \<le> 1" if "\<bar>x\<bar> \<le> D" for x using that d by (auto simp: field_simps abs_le_iff)
  have mult: "D * max 0 (x / D) = max 0 x" "D * max 0 (- (x / D)) = max 0 (- x)" for x
    using d by (auto simp: max_def field_simps zero_le_divide_iff divide_le_0_iff)
  have all: "mn + D * wheel (rgb_hue r g b / 360 + 1 / 3) = r \<and> mn + D * wheel (rgb_hue r g b / 360) = g \<and>
      mn + D * wheel (rgb_hue r g b / 360 - 1 / 3) = b"
  proof (cases "r = mx")
    case True
    define t where "t = (g - b) / D"
    have b: "\<bar>g - b\<bar> \<le> D" by (auto simp: D_def mx_def mn_def)
    note w = wheel_third [OF conjunct1 [OF tr [OF b]] conjunct2 [OF tr [OF b]], folded t_def]
    have h: "rgb_hue r g b / 360 = t / 6 + 1"
      unfolding hue t_def using True assms(3) d by (simp add: field_simps)
    have "wheel (t / 6 + 1 + 1 / 3) = wheel (1 / 3 + t / 6)" "wheel (t / 6 + 1) = wheel (t / 6)"
      "t / 6 + 1 - 1 / 3 = 2 / 3 + t / 6"
      using wheel_turn [of "1 / 3 + t / 6" 1] wheel_turn [of "t / 6" 1] by (simp_all add: algebra_simps)
    moreover have "mn = min g b" "mn + D = r" using True by (auto simp: mn_def mx_def D_def)
    ultimately show ?thesis using w mult [of "g - b", folded t_def] min_plus_max [of g b] unfolding h by simp
  next
    case r: False
    show ?thesis
    proof (cases "g = mx")
      case True
      define t where "t = (b - r) / D"
      have b: "\<bar>b - r\<bar> \<le> D" by (auto simp: D_def mx_def mn_def)
      note w = wheel_third [OF conjunct1 [OF tr [OF b]] conjunct2 [OF tr [OF b]], folded t_def]
      have h: "rgb_hue r g b / 360 = t / 6 + 1 / 3"
        unfolding hue t_def using True r assms(3) d by (simp add: field_simps)
      have "t / 6 + 1 / 3 + 1 / 3 = 2 / 3 + t / 6" "wheel (t / 6 + 1 / 3) = wheel (1 / 3 + t / 6)" "t / 6 + 1 / 3 - 1 / 3 = t / 6"
        by (simp_all add: add.commute)
      moreover have "mn = min b r" "mn + D = g" using True by (auto simp: mn_def mx_def D_def)
      ultimately show ?thesis using w mult [of "b - r", folded t_def] min_plus_max [of b r] unfolding h by simp
    next
      case g: False
      then have bm: "b = mx" using r by (auto simp: mx_def max_def split: if_splits)
      define t where "t = (r - g) / D"
      have b: "\<bar>r - g\<bar> \<le> D" by (auto simp: D_def mx_def mn_def)
      note w = wheel_third [OF conjunct1 [OF tr [OF b]] conjunct2 [OF tr [OF b]], folded t_def]
      have h: "rgb_hue r g b / 360 = t / 6 + 2 / 3"
        unfolding hue t_def using r g assms(3) d by (simp add: field_simps)
      have "wheel (t / 6 + 2 / 3 + 1 / 3) = wheel (t / 6)" "wheel (t / 6 + 2 / 3) = wheel (2 / 3 + t / 6)" "t / 6 + 2 / 3 - 1 / 3 = 1 / 3 + t / 6"
        using wheel_turn [of "t / 6" 1] by (simp_all add: algebra_simps)
      moreover have "mn = min r g" "mn + D = b" using bm by (auto simp: mn_def mx_def D_def)
      ultimately show ?thesis using w mult [of "r - g", folded t_def] min_plus_max [of r g] unfolding h by simp
    qed
  qed
  then show "mn + (mx - mn) * wheel (rgb_hue r g b / 360 + 1 / 3) = r" "mn + (mx - mn) * wheel (rgb_hue r g b / 360) = g"
    "mn + (mx - mn) * wheel (rgb_hue r g b / 360 - 1 / 3) = b" by (simp_all add: D_def)
qed

text \<open>Channels in their ranges are left as they are.\<close>

lemma to_int32_int: "0 \<le> k \<Longrightarrow> k < 2 ^ 31 \<Longrightarrow> to_int32 (Some (of_int k)) = k"
  by (simp add: to_int32_def trunc_rat_def)

lemma clamp_byte: "p_type p = Byte \<Longrightarrow> 0 \<le> k \<Longrightarrow> k \<le> 255 \<Longrightarrow> clamp (CNum (of_int k)) p ae = Some (of_int k)"
  by (simp add: clamp_def clamp_num_def to_int32_int Let_def)

lemma clamp_percent: "p_type p = Percent \<Longrightarrow> 0 \<le> x \<Longrightarrow> x \<le> 1 \<Longrightarrow> clamp (CNum x) p ae = Some x"
  by (simp add: clamp_def clamp_num_def Let_def)

lemma rem_rat_int:
  assumes "0 \<le> k" "0 < m"
  shows "rem_rat (of_int k) (of_int m) = of_int (k mod m)"
proof -
  have "0 \<le> (of_int k :: rat) / of_int m" using assms by simp
  then have "trunc_rat (of_int k / of_int m) = k div m" by (simp add: trunc_rat_def floor_divide_of_int_eq)
  then show ?thesis by (simp add: rem_rat_def flip: of_int_mult of_int_diff) (simp add: minus_mult_div_eq_mod)
qed

lemma clamp_degrees:
  assumes "p_type p = Degrees" "0 \<le> k" "k < 360"
  shows "clamp (CNum (of_int k)) p ae = Some (of_int k)"
proof -
  have "rem_rat (of_int (k + 360)) (of_int 360) = of_int ((k + 360) mod 360)" by (rule rem_rat_int) (use assms in auto)
  then show ?thesis using assms by (simp add: clamp_def clamp_num_def to_int32_int Let_def)
qed

lemma js_round_close:
  assumes "\<bar>x - of_int k\<bar> \<le> 17 / 8"
  shows "\<bar>js_round x - k\<bar> \<le> 2"
  using assms unfolding js_round_def abs_le_iff by (intro conjI) linarith+

lemma js_round_byte: "0 \<le> x \<Longrightarrow> x \<le> 255 \<Longrightarrow> 0 \<le> js_round x \<and> js_round x \<le> 255"
  unfolding js_round_def by linarith

lemma rgb_hue_bounds: "0 \<le> rgb_hue r g b" "rgb_hue r g b \<le> 420"
proof -
  define mx mn where "mx = max r (max g b)" and "mn = min r (min g b)"
  have b: "\<bar>x / (mx - mn)\<bar> \<le> 1" if "\<bar>x\<bar> \<le> mx - mn" for x
    using that by (cases "mx - mn = 0") (simp_all add: abs_divide)
  define t u v where "t = (g - b) / (mx - mn)" and "u = (b - r) / (mx - mn)" and "v = (r - g) / (mx - mn)"
  have "\<bar>g - b\<bar> \<le> mx - mn" "\<bar>b - r\<bar> \<le> mx - mn" "\<bar>r - g\<bar> \<le> mx - mn"
    by (auto simp: mx_def mn_def)
  then have "\<bar>t\<bar> \<le> 1" "\<bar>u\<bar> \<le> 1" "\<bar>v\<bar> \<le> 1" unfolding t_def u_def v_def using b by blast+
  moreover have "rgb_hue r g b = (if mn = mx then 0 else if r = mx then 60 * t + 360 else if g = mx then 60 * u + 120 else 60 * v + 240)"
    unfolding rgb_hue_def Let_def mx_def mn_def t_def u_def v_def times_divide_eq_right ..
  ultimately show "0 \<le> rgb_hue r g b" "rgb_hue r g b \<le> 420" by (auto simp: abs_le_iff)
qed

text \<open>Saturation and lightness give back the largest and the smallest channel.\<close>

lemma chroma_back:
  fixes r g b :: rat
  defines "mx \<equiv> max r (max g b)" and "mn \<equiv> min r (min g b)"
  defines "l \<equiv> (mx + mn) / 2" and "s \<equiv> rgb_saturation r g b"
  assumes "0 \<le> mn" "mx \<le> 1"
  shows "(if l \<le> 1 / 2 then l * (1 + s) else l + s - l * s) = mx" "2 * l - mx = mn" "0 \<le> s" "s \<le> 1" "0 \<le> l" "l \<le> 1"
proof -
  have le: "mn \<le> mx" by (auto simp: mx_def mn_def)
  have s: "s = (if mx - mn = 0 then 0 else if l \<le> 1 / 2 then (mx - mn) / (mx + mn) else (mx - mn) / (2 - (mx + mn)))"
    unfolding s_def rgb_saturation_def Let_def l_def mx_def mn_def by simp
  show "2 * l - mx = mn" by (simp add: l_def field_simps)
  show "0 \<le> l" "l \<le> 1" using assms(5,6) le by (simp_all add: l_def)
  show "0 \<le> s" "s \<le> 1" unfolding s using assms(5,6) le by (auto simp: field_simps l_def)
  show "(if l \<le> 1 / 2 then l * (1 + s) else l + s - l * s) = mx"
  proof (cases "mx = mn")
    case True
    then show ?thesis by (simp add: s l_def)
  next
    case False
    define w where "w = 2 - (mx + mn)"
    have w: "mx + mn \<noteq> 0" "w \<noteq> 0" using False le assms(5,6) unfolding w_def by linarith+
    show ?thesis
    proof (cases "l \<le> 1 / 2")
      case True
      define v where "v = mx + mn"
      have v: "l = v / 2" "s = (mx - mn) / v" "v \<noteq> 0" using w(1) True False by (simp_all add: s l_def v_def)
      have "l * s = v / 2 * ((mx - mn) / v)" by (simp only: v(1,2))
      also have "\<dots> = (mx - mn) / 2" using v(3) by simp
      finally have "l * s = (mx - mn) / 2" .
      then show ?thesis using True by (simp add: distrib_left l_def field_simps)
    next
      case big: False
      have v: "1 - l = w / 2" "s = (mx - mn) / w" using big False by (simp_all add: s l_def w_def field_simps)
      have "(1 - l) * s = w / 2 * ((mx - mn) / w)" by (simp only: v)
      also have "\<dots> = (mx - mn) / 2" using w(2) by simp
      finally have "(1 - l) * s = (mx - mn) / 2" .
      then have "l + s - l * s = mx" unfolding l_def by (simp add: algebra_simps add_divide_distrib diff_divide_distrib)
      then show ?thesis using big by simp
    qed
  qed
qed

text \<open>The hue is rounded to a degree; the channels move by two at most.\<close>

definition near :: "int \<Rightarrow> rat \<Rightarrow> bool" where
  "near k x \<longleftrightarrow> (\<exists>j. x = of_int j \<and> \<bar>j - k\<bar> \<le> 2 \<and> 0 \<le> j \<and> j \<le> 255)"

lemma hue_rounded:
  assumes "0 \<le> H" "h = rem_rat (of_int (js_round H)) 360"
  shows "\<exists>k. h = of_int k \<and> 0 \<le> k \<and> k < 360" "\<bar>wheel (h / 360 + c) - wheel (H / 360 + c)\<bar> \<le> 1 / 120"
proof -
  have "0 \<le> js_round H" using assms(1) by (simp add: js_round_def)
  then have h: "h = of_int (js_round H mod 360)" using rem_rat_int [of "js_round H" 360] assms(2) by simp
  then show "\<exists>k. h = of_int k \<and> 0 \<le> k \<and> k < 360" by auto
  have "js_round H mod 360 = js_round H + 360 * (- (js_round H div 360))" by (simp add: minus_mult_div_eq_mod [symmetric])
  then have "h / 360 + c = of_int (js_round H) / 360 + c + of_int (- (js_round H div 360))" unfolding h by simp
  then have "wheel (h / 360 + c) = wheel (of_int (js_round H) / 360 + c)" using wheel_turn by metis
  moreover have "\<bar>of_int (js_round H) - H\<bar> \<le> 1 / 2" unfolding js_round_def by linarith
  then have "\<bar>(of_int (js_round H) / 360 + c) - (H / 360 + c)\<bar> \<le> 1 / 720"
    by (simp add: diff_divide_distrib [symmetric] abs_divide)
  ultimately show "\<bar>wheel (h / 360 + c) - wheel (H / 360 + c)\<bar> \<le> 1 / 120"
    using wheel_close [of "of_int (js_round H) / 360 + c" "H / 360 + c"] by simp
qed

lemma channel_near:
  assumes "0 \<le> mn" "mn \<le> mx" "mx \<le> 1" "\<bar>v - w\<bar> \<le> 1 / 120" "mn + (mx - mn) * w = of_int k / 255" "0 \<le> v" "v \<le> 1"
  shows "near k (of_int (js_round ((mn + (mx - mn) * v) * 255)))"
proof -
  have "\<bar>(mx - mn) * (v - w)\<bar> \<le> 1 * (1 / 120)"
    unfolding abs_mult by (rule mult_mono) (use assms in auto)
  moreover have "(mn + (mx - mn) * v) * 255 - of_int k = 255 * ((mx - mn) * (v - w))"
    using assms(5) by (simp add: field_simps)
  ultimately have "\<bar>(mn + (mx - mn) * v) * 255 - of_int k\<bar> \<le> 17 / 8" by (simp add: abs_mult)
  then have "\<bar>js_round ((mn + (mx - mn) * v) * 255) - k\<bar> \<le> 2" by (rule js_round_close)
  moreover have "0 \<le> (mx - mn) * v" "(mx - mn) * v \<le> (mx - mn) * 1"
    using assms mult_left_mono [of v 1 "mx - mn"] by simp_all
  then have "0 \<le> js_round ((mn + (mx - mn) * v) * 255) \<and> js_round ((mn + (mx - mn) * v) * 255) \<le> 255"
    using assms by (intro js_round_byte) simp_all
  ultimately show ?thesis unfolding near_def by blast
qed

lemma hsla_back:
  fixes r g b :: int and a :: rat
  assumes "0 \<le> r" "r \<le> 255" "0 \<le> g" "g \<le> 255" "0 \<le> b" "b \<le> 255"
  defines "cs \<equiv> [Some (of_int r), Some (of_int g), Some (of_int b), Some a]"
  shows "\<exists>x y z h s l. hsla_to cs = [Some (of_int h), Some s, Some l, Some a] \<and> 0 \<le> h \<and> h < 360 \<and> 0 \<le> s \<and> s \<le> 1 \<and> 0 \<le> l \<and> l \<le> 1 \<and>
    hsla_from (hsla_to cs) = [Some x, Some y, Some z, Some a] \<and> near r x \<and> near g y \<and> near b z"
proof -
  define r' g' b' :: rat where "r' = of_int r / 255" and "g' = of_int g / 255" and "b' = of_int b / 255"
  define mx mn where "mx = max r' (max g' b')" and "mn = min r' (min g' b')"
  define l s H where "l = (mx + mn) / 2" and "s = rgb_saturation r' g' b'" and "H = rgb_hue r' g' b'"
  define h where "h = rem_rat (of_int (js_round H)) 360"
  have bounds: "0 \<le> mn" "mn \<le> mx" "mx \<le> 1"
    using assms(1-6) by (simp_all add: mx_def mn_def r'_def g'_def b'_def)
  have H: "0 \<le> H" using rgb_hue_bounds by (simp add: H_def)
  note ch = chroma_back [of r' g' b', folded mx_def mn_def, folded l_def s_def, OF bounds(1,3)]
  obtain k where k: "h = of_int k" "0 \<le> k" "k < 360" using hue_rounded(1) [OF H h_def] by blast
  have to: "hsla_to cs = [Some h, Some s, Some l, Some a]"
    unfolding cs_def hsla_to.simps Let_def
    by (simp add: r'_def [symmetric] g'_def [symmetric] b'_def [symmetric] mx_def [symmetric] mn_def [symmetric] l_def [symmetric]
        s_def [symmetric] H_def [symmetric] h_def [symmetric])
  have ex: "mn < mx \<Longrightarrow> mn + (mx - mn) * wheel (H / 360 + 1 / 3) = r'" "mn < mx \<Longrightarrow> mn + (mx - mn) * wheel (H / 360) = g'"
    "mn < mx \<Longrightarrow> mn + (mx - mn) * wheel (H / 360 - 1 / 3) = b'"
    using hue_exact [of r' g' b'] unfolding mx_def mn_def H_def by blast+
  have nr: "near v (of_int (js_round ((mn + (mx - mn) * wheel (h / 360 + c)) * 255)))"
    if "mn < mx \<Longrightarrow> mn + (mx - mn) * wheel (H / 360 + c) = of_int v / 255" "of_int v / 255 \<in> {r', g', b'}" for c v
  proof (cases "mn = mx")
    case True
    then have "of_int v / 255 = mn" using that(2) by (auto simp: mx_def mn_def)
    then show ?thesis using channel_near [of mn mx "wheel (h / 360 + c)" "wheel (h / 360 + c)" v] bounds True wheel_range by simp
  next
    case False
    then show ?thesis
      using channel_near [of mn mx "wheel (h / 360 + c)" "wheel (H / 360 + c)" v] bounds that(1) hue_rounded(2) [OF H h_def] wheel_range
      by simp
  qed
  have "hsla_from (hsla_to cs) =
      [Some (of_int (js_round ((mn + (mx - mn) * wheel (h / 360 + 1 / 3)) * 255))),
       Some (of_int (js_round ((mn + (mx - mn) * wheel (h / 360 + 0)) * 255))),
       Some (of_int (js_round ((mn + (mx - mn) * wheel (h / 360 + - (1 / 3))) * 255))), Some a]"
    unfolding to hsla_from.simps Let_def ch(1,2) using k hue2rgb_wheel by simp
  moreover have "near r (of_int (js_round ((mn + (mx - mn) * wheel (h / 360 + 1 / 3)) * 255)))"
    by (rule nr) (use ex(1) in \<open>simp_all add: r'_def\<close>)
  moreover have "near g (of_int (js_round ((mn + (mx - mn) * wheel (h / 360 + 0)) * 255)))"
    by (rule nr) (use ex(2) in \<open>simp_all add: g'_def\<close>)
  moreover have "near b (of_int (js_round ((mn + (mx - mn) * wheel (h / 360 + - (1 / 3))) * 255)))"
    by (rule nr) (use ex(3) in \<open>simp_all add: b'_def\<close>)
  ultimately show ?thesis using to k ch by blast
qed

text \<open>The colors with all their channels: three bytes and an alpha.\<close>

definition byte_color :: "int \<Rightarrow> int \<Rightarrow> int \<Rightarrow> rat \<Rightarrow> channels \<Rightarrow> bool" where
  "byte_color r g b a cs \<longleftrightarrow> cs = [Some (of_int r), Some (of_int g), Some (of_int b), Some a] \<and>
     0 \<le> r \<and> r \<le> 255 \<and> 0 \<le> g \<and> g \<le> 255 \<and> 0 \<le> b \<and> b \<le> 255 \<and> 0 \<le> a \<and> a \<le> 1"

text \<open>Arrays of such channels are taken as they are.\<close>

lemma color_array_bytes:
  assumes "byte_color r g b a cs"
  shows "color_array (map cval_of cs) = \<lparr>c_rgba = cs, c_hsla = None\<rparr>"
  using assms by (simp add: byte_color_def color_array_def nth_val_def cval_of_def alpha_prop_def clamp_byte clamp_percent)

lemma near_byte: "near k x \<Longrightarrow> \<exists>j. x = of_int j \<and> 0 \<le> j \<and> j \<le> 255"
  by (auto simp: near_def)

text \<open>C8: Reading a color in the space of hue, saturation and lightness and setting that again moves none
  of the bytes by more than two (the hue is kept in whole degrees) and leaves alpha as it is.\<close>

theorem through_hsla:
  assumes "byte_color r g b a (c_rgba c)" "c_hsla c = None"
  shows "\<exists>x y z. c_rgba (set_space Hsla (ArrayArg (map cval_of (cached Hsla c))) color_none) = [Some x, Some y, Some z, Some a] \<and>
    near r x \<and> near g y \<and> near b z"
proof -
  have rg: "0 \<le> r" "r \<le> 255" "0 \<le> g" "g \<le> 255" "0 \<le> b" "b \<le> 255" "0 \<le> a" "a \<le> 1"
    and cs: "c_rgba c = [Some (of_int r), Some (of_int g), Some (of_int b), Some a]"
    using assms(1) by (simp_all add: byte_color_def)
  obtain x y z h s l where hs: "hsla_to (c_rgba c) = [Some (of_int h), Some s, Some l, Some a]"
    "0 \<le> h" "h < 360" "0 \<le> s" "s \<le> 1" "0 \<le> l" "l \<le> 1"
    "hsla_from (hsla_to (c_rgba c)) = [Some x, Some y, Some z, Some a]" "near r x" "near g y" "near b z"
    using hsla_back [OF rg(1-6), of a] unfolding cs [symmetric] by blast
  have local: "map (\<lambda>p. clamp (if arg_val (ArrayArg (map cval_of (hsla_to (c_rgba c)))) p = CNull
      then cval_of (cached Hsla color_none ! p_idx p) else arg_val (ArrayArg (map cval_of (hsla_to (c_rgba c)))) p) p False) (props Hsla) =
    hsla_to (c_rgba c)"
    using hs(1-7) rg(7,8) by (simp add: nth_val_def cval_of_def alpha_prop_def clamp_degrees clamp_percent)
  obtain i j k where "x = of_int i" "y = of_int j" "z = of_int k" "byte_color i j k a [Some x, Some y, Some z, Some a]"
    using near_byte [OF hs(9)] near_byte [OF hs(10)] near_byte [OF hs(11)] rg(7,8) unfolding byte_color_def by blast
  then have "color_channels [Some x, Some y, Some z, Some a] = \<lparr>c_rgba = [Some x, Some y, Some z, Some a], c_hsla = None\<rparr>"
    unfolding color_channels_def using color_array_bytes by blast
  moreover have "cached Hsla c = hsla_to (c_rgba c)" using assms(2) by simp
  ultimately show ?thesis
    unfolding set_space_def Let_def local using hs(8-11) by (simp only: local space.case) simp
qed

text \<open>A brown moves: 87 becomes 88 and 38 becomes 37.\<close>

definition brown :: color where
  "brown = \<lparr>c_rgba = [Some 151, Some 87, Some 38, Some 1], c_hsla = None\<rparr>"

theorem through_hsla_witness:
  "\<exists>x y z. c_rgba (set_space Hsla (ArrayArg (map cval_of (cached Hsla brown))) color_none) = [Some x, Some y, Some z, Some 1] \<and>
    near 151 x \<and> near 87 y \<and> near 38 z"
  by (rule through_hsla) (simp_all add: brown_def byte_color_def)

section \<open>Texts\<close>

lemma lit_head: "c \<notin> set s \<Longrightarrow> lit (c # cs) s = None"
  by (cases s) auto

lemma no_rgb:
  assumes "CHR ''r'' \<notin> set s"
  shows "search (parser_at RgbBytes) s = None" "search (parser_at RgbPercents) s = None"
  by (rule search_none; use assms in \<open>simp add: open_of_def lit_head\<close>)+

lemma hex_val_char: "0 \<le> n \<Longrightarrow> n < 16 \<Longrightarrow> hex_val (hex_char n) = Some n"
  using of_char_digit_char [of n] by (auto simp: hex_val_def hex_char_def is_digit_def digit_val_def of_char_of)

lemma hex_char_facts: "0 \<le> n \<Longrightarrow> n < 16 \<Longrightarrow> lower_char (hex_char n) = hex_char n \<and> hex_char n \<noteq> CHR ''r''"
proof (cases "n < 10")
  case True
  assume "0 \<le> n"
  then show ?thesis using True of_char_digit_char [of n] by (auto simp: hex_char_def lower_char_def)
next
  case False
  assume n: "n < 16"
  have "of_char (hex_char n) = 87 + n" using False n by (simp add: hex_char_def of_char_of)
  then show ?thesis using False n by (auto simp: lower_char_def)
qed

lemma hex_text:
  assumes "\<forall>k \<in> set ns. 0 \<le> k \<and> k < 16"
  shows "to_lower (map hex_char ns) = map hex_char ns" "hex_vals (map hex_char ns) = Some ns"
    "CHR ''r'' \<notin> set (map hex_char ns)"
  using assms by (induction ns) (auto simp: to_lower_def hex_val_char hex_char_facts dest: hex_char_facts)

lemma byte_halves: "0 \<le> k \<Longrightarrow> k \<le> 255 \<Longrightarrow> 0 \<le> k div 16 \<and> k div 16 < (16 :: int) \<and> 0 \<le> k mod 16 \<and> k mod 16 < 16"
  by auto

text \<open> The hexadecimal text of a color is read back as the same bytes, with alpha 1.\<close>

theorem hex_roundtrip:
  assumes "byte_color r g b a (c_rgba c)"
  shows "color_text (toHexString False c) = \<lparr>c_rgba = [Some (of_int r), Some (of_int g), Some (of_int b), Some 1], c_hsla = None\<rparr>"
proof -
  have rg: "0 \<le> r" "r \<le> 255" "0 \<le> g" "g \<le> 255" "0 \<le> b" "b \<le> 255" using assms by (simp_all add: byte_color_def)
  let ?n = "[r div 16, r mod 16, g div 16, g mod 16, b div 16, b mod 16]"
  have n: "0 \<le> k \<and> k < 16" if "k \<in> set ?n" for k
    using byte_halves [OF rg(1,2)] byte_halves [OF rg(3,4)] byte_halves [OF rg(5,6)] that
    by (simp only: list.set insert_iff empty_iff) blast
  have s: "toHexString False c = CHR ''#'' # map hex_char ?n"
    using assms by (simp add: toHexString_def hex_byte_def chan_num_def byte_color_def Let_def)
  have all: "\<forall>k \<in> set ?n. 0 \<le> k \<and> k < 16" using n by blast
  note ht = hex_text [OF all]
  have lower: "to_lower (CHR ''#'' # map hex_char ?n) = CHR ''#'' # map hex_char ?n"
    using ht(1) by (simp only: to_lower_def list.map(2)) (simp add: lower_char_def)
  have "hex_at 6 (CHR ''#'' # map hex_char ?n) = Some ?n"
    using ht(2) by (simp only: hex_at.simps lit.simps option.case length_map) simp
  then have "parser_at HexLong (CHR ''#'' # map hex_char ?n) = Some [CNum (of_int r), CNum (of_int g), CNum (of_int b)]"
    by (simp add: mult_div_mod_eq del: hex_at.simps of_int_add of_int_mult)
  then have long: "search (parser_at HexLong) (CHR ''#'' # map hex_char ?n) = Some [CNum (of_int r), CNum (of_int g), CNum (of_int b)]"
    by (simp only: search.simps option.case)
  have "CHR ''r'' \<notin> set (CHR ''#'' # map hex_char ?n)" using ht(3) by (simp only: list.set insert_iff) simp
  note nr = no_rgb [OF this]
  have "first_color [RgbBytes, RgbPercents, HexLong, HexShort, HslParser] (CHR ''#'' # map hex_char ?n) =
      Some (set_space Rgba (ArrayArg [CNum (of_int r), CNum (of_int g), CNum (of_int b)]) color_none)"
    unfolding first_color.simps parser_color_def nr long by simp
  moreover have "set_space Rgba (ArrayArg [CNum (of_int r), CNum (of_int g), CNum (of_int b)]) color_none =
      \<lparr>c_rgba = [Some (of_int r), Some (of_int g), Some (of_int b), Some 1], c_hsla = None\<rparr>"
  proof -
    have "byte_color r g b 1 [Some (of_int r), Some (of_int g), Some (of_int b), Some 1]" using rg by (simp add: byte_color_def)
    from color_array_bytes [OF this] show ?thesis
      using rg by (simp add: set_space_def color_none_def nth_val_def cval_of_def alpha_prop_def clamp_byte color_channels_def)
        (simp add: clamp_def)
  qed
  ultimately show ?thesis unfolding s color_text_def stringParse_def lower Let_def by simp
qed

theorem hex_roundtrip_witness:
  "color_text (toHexString False brown) = \<lparr>c_rgba = [Some 151, Some 87, Some 38, Some 1], c_hsla = None\<rparr>"
  using hex_roundtrip [of 151 87 38 1 brown] by (simp add: brown_def byte_color_def)

lemma digit_lower: "is_digit c \<Longrightarrow> lower_char c = c"
  by (simp add: is_digit_def lower_char_def Let_def)

lemma lower_digits: "list_all is_digit s \<Longrightarrow> to_lower s = s"
  by (induction s) (simp_all add: to_lower_def digit_lower)

lemma byte_text_show:
  assumes "0 \<le> n" "n \<le> 255" "e = [] \<or> \<not> is_digit (hd e)"
  shows "byte_text (show_nat n @ e) = Some (show_nat n, e)"
  using digits_split [OF show_nat_digits [OF assms(1)] assms(3)] length_show_nat_le [of 3 n] assms(2) show_nat_nonempty [of n]
  by (cases "show_nat n") (simp_all add: byte_text_def Let_def)

lemma part_comma_show:
  assumes "0 \<le> n" "n \<le> 255" "0 \<le> m"
  shows "part_comma byte_text (show_nat n @ CHR '','' # show_nat m @ e) = Some (show_nat n, show_nat m @ e)"
  using byte_text_show [OF assms(1,2), of "CHR '','' # show_nat m @ e"] skip_show_nat [OF assms(3)] not_digit
  by (simp add: part_comma_def) (simp add: skip_spaces_def)

lemma four_bytes:
  assumes "0 \<le> r" "r \<le> 255" "0 \<le> g" "g \<le> 255" "0 \<le> b" "b \<le> 255" "e \<noteq> []" "\<not> is_digit (hd e)" "\<not> is_space (hd e)"
  shows "four_parts byte_text byte_text (show_nat r @ CHR '','' # show_nat g @ CHR '','' # show_nat b @ e) =
    map_option (\<lambda>a. (show_nat r, show_nat g, show_nat b, a)) (alpha_end e)"
proof -
  have "skip_spaces e = e" using assms(7,9) by (cases e) (simp_all add: skip_spaces_def)
  then show ?thesis
    using part_comma_show [OF assms(1,2,3), of "CHR '','' # show_nat b @ e"] part_comma_show [OF assms(3,4,5), of e]
      byte_text_show [OF assms(5,6), of e] assms(8) by (simp add: four_parts_def)
qed

text \<open>The text of an alpha between 0 and 1.\<close>

lemma alpha_text_shape:
  assumes "1 / 10 ^ 6 \<le> a" "a < 1" "decimal 20 a"
  shows "\<exists>fs. num_text a = CHR ''0'' # CHR ''.'' # fs \<and> fs \<noteq> [] \<and> list_all is_digit fs \<and> of_int (digits_val fs) / 10 ^ length fs = a"
proof -
  have pos: "0 < a" using assms(1) by (rule less_le_trans [rotated]) simp
  then have fl: "\<lfloor>a\<rfloor> = 0" using assms by (simp add: floor_eq_iff)
  have z: "show_nat 0 = ''0''" by (subst show_nat.simps) (simp add: digit_zero)
  have "a < 10 ^ 21" by (rule less_trans [OF assms(2)]) simp
  then have t: "num_text a = plain_text a" using assms(1) unfolding num_text_def by (subst if_P) blast+
  have "frac_digits 20 a \<noteq> []" using pos by (simp add: numeral_eq_Suc)
  then show ?thesis using frac_digits_back [of a 20] assms(2,3) pos fl z unfolding t by (simp add: plain_text_def)
qed

lemma parse_float_fraction:
  assumes "list_all is_digit fs"
  shows "parse_float (CHR ''0'' # CHR ''.'' # fs) = Some (of_int (digits_val fs) / 10 ^ length fs)"
proof -
  have d: "is_digit CHR ''0''" "\<not> is_space CHR ''0''" "digit_val CHR ''0'' = 0" by (simp_all add: is_digit_def is_space_def digit_val_def)
  then have "takeWhile is_digit (CHR ''0'' # CHR ''.'' # fs) = ''0''" "dropWhile is_digit (CHR ''0'' # CHR ''.'' # fs) = CHR ''.'' # fs"
    using not_digit(3) by simp_all
  then have "decimal_prefix (CHR ''0'' # CHR ''.'' # fs) = Some (of_int (digits_val fs) / 10 ^ length fs, [])"
    using d digits_all [OF assms]
    by (simp add: decimal_prefix_def Let_def del: dropWhile_eq_Nil_conv takeWhile_eq_all_conv) (simp add: digits_val_def)
  then show ?thesis using d unsigned_plain by (simp add: parse_float_def signed_prefix_def)
qed

lemma alpha_end_fraction:
  assumes "list_all is_digit fs" "fs \<noteq> []"
  shows "alpha_end (CHR '','' # CHR ''0'' # CHR ''.'' # fs @ '')'') = Some (CText (CHR ''0'' # CHR ''.'' # fs))"
proof -
  have d: "is_digit CHR ''0''" "\<not> is_space CHR ''0''" by (simp_all add: is_digit_def is_space_def)
  have "fraction_text (CHR ''.'' # fs @ '')'') = (CHR ''.'' # fs, '')'')"
    using digits_split [OF assms(1), of "'')''"] not_digit(2) assms(2) by (simp add: fraction_text_def)
  then show ?thesis using d not_digit(5) by (simp add: alpha_end_def alpha_text_def skip_spaces_def)
qed

lemma alpha_prop_sel [simp]: "p_key alpha_prop = ''alpha''" "p_idx alpha_prop = 3"
  by (simp_all add: alpha_prop_def)

lemma text_bytes:
  assumes "byte_color r g b a cs" "0 < a" "v = CNull \<and> a = 1 \<or> clamp v alpha_prop False = Some a \<and> v \<noteq> CNull"
  shows "set_space Rgba (ArrayArg [CText (show_nat r), CText (show_nat g), CText (show_nat b), v]) color_none =
    \<lparr>c_rgba = cs, c_hsla = None\<rparr>"
proof -
  have rg: "0 \<le> r" "r \<le> 255" "0 \<le> g" "g \<le> 255" "0 \<le> b" "b \<le> 255"
    and cs: "cs = [Some (of_int r), Some (of_int g), Some (of_int b), Some a]"
    using assms(1) by (simp_all add: byte_color_def)
  have c: "clamp (CText (show_nat n)) p False = Some (of_int n)" if "p_type p = Byte" "0 \<le> n" "n \<le> 255" for n p
    using clamp_byte [OF that, of False] number_of_show [OF that(2)] that(1) by (simp add: clamp_def)
  have al: "clamp (if v = CNull then CNull else v) alpha_prop False = Some a"
  proof (cases "v = CNull")
    case True
    then show ?thesis using assms(3) by (simp add: clamp_def alpha_prop_def)
  qed (use assms(3) in simp)
  show ?thesis
    using color_array_bytes [OF assms(1)] c [OF _ rg(1,2)] c [OF _ rg(3,4)] c [OF _ rg(5,6)] al
    by (auto simp: set_space_def color_channels_def color_none_def nth_val_def cval_of_def Let_def cs)
qed

text \<open>C9: The text of a color whose alpha is a millionth or more is read back as the same color: the bytes, and alpha
  with all of its digits (twenty at most).\<close>

theorem text_roundtrip:
  assumes "byte_color r g b a (c_rgba c)" "1 / 10 ^ 6 \<le> a" "decimal 20 a"
  shows "color_text (color_string c) = \<lparr>c_rgba = c_rgba c, c_hsla = None\<rparr>"
proof -
  have rg: "0 \<le> r" "r \<le> 255" "0 \<le> g" "g \<le> 255" "0 \<le> b" "b \<le> 255" "a \<le> 1"
    and cs: "c_rgba c = [Some (of_int r), Some (of_int g), Some (of_int b), Some a]"
    using assms(1) by (simp_all add: byte_color_def)
  have pos: "0 < a" using assms(2) by (rule less_le_trans [rotated]) simp
  have nt: "num_text (of_int n) = show_nat n" if n: "0 \<le> n" "n \<le> 255" for n
  proof -
    consider "n = 0" | "1 \<le> n" using n by linarith
    then have "of_int n = (0 :: rat) \<or> 1 / 10 ^ 6 \<le> (of_int n :: rat) \<and> of_int n < (10 ^ 21 :: rat)"
    proof cases
      case 2
      then have "1 \<le> (of_int n :: rat)" "(of_int n :: rat) \<le> 255" using n(2) by simp_all
      then show ?thesis by simp
    qed simp
    then show ?thesis unfolding num_text_def by (subst if_P) (simp_all add: plain_text_def)
  qed
  note low = lower_digits [OF show_nat_digits]
  obtain n e v where tx: "color_string c = n @ CHR ''('' # show_nat r @ CHR '','' # show_nat g @ CHR '','' # show_nat b @ e"
    "n = ''rgb'' \<or> n = ''rgba''" "to_lower e = e" "e \<noteq> []" "\<not> is_digit (hd e)" "\<not> is_space (hd e)" "alpha_end e = Some v"
    "v = CNull \<and> a = 1 \<or> clamp v alpha_prop False = Some a \<and> v \<noteq> CNull"
  proof (cases "a = 1")
    case True
    then show ?thesis
      using that [of "''rgb''" "'')''" CNull] not_digit
      by (simp add: color_string_def toRgbaString_def cs channel_or_def nt rg Let_def to_lower_def lower_char_def alpha_end_def)
  next
    case False
    then obtain fs where fs: "num_text a = CHR ''0'' # CHR ''.'' # fs" "fs \<noteq> []" "list_all is_digit fs"
      "of_int (digits_val fs) / 10 ^ length fs = a" using alpha_text_shape [OF assms(2) _ assms(3)] rg(7) by fastforce
    let ?e = "CHR '','' # CHR ''0'' # CHR ''.'' # fs @ '')''"
    have "color_string c = ''rgba'' @ CHR ''('' # show_nat r @ CHR '','' # show_nat g @ CHR '','' # show_nat b @ ?e"
      using False pos fs(1) by (simp add: color_string_def toRgbaString_def cs channel_or_def nt rg Let_def)
    moreover have "to_lower ?e = ?e" using lower_digits [OF fs(3)] by (simp add: to_lower_def lower_char_def)
    moreover have "clamp (CText (CHR ''0'' # CHR ''.'' # fs)) alpha_prop False = Some a"
      using clamp_percent [of alpha_prop a False] parse_float_fraction [OF fs(3)] fs(4) pos rg(7)
      by (simp add: clamp_def alpha_prop_def)
    ultimately show ?thesis using that [of "''rgba''" ?e] alpha_end_fraction [OF fs(3,2)] not_digit by simp
  qed
  let ?rest = "show_nat r @ CHR '','' # show_nat g @ CHR '','' # show_nat b @ e"
  have lower: "to_lower (color_string c) = n @ CHR ''('' # ?rest"
    using tx(2,3) low [OF rg(1)] low [OF rg(3)] low [OF rg(5)] unfolding tx(1) by (auto simp: to_lower_def lower_char_def)
  have "open_of ''rgb'' (n @ CHR ''('' # ?rest) = Some ?rest"
    using tx(2) skip_show_nat [OF rg(1)] by (auto simp: open_of_def)
  then have at: "parser_at RgbBytes (n @ CHR ''('' # ?rest) = Some [CText (show_nat r), CText (show_nat g), CText (show_nat b), v]"
    using four_bytes [OF rg(1-6) tx(4-6)] tx(7) by simp
  have "search (parser_at RgbBytes) (n @ CHR ''('' # ?rest) = Some [CText (show_nat r), CText (show_nat g), CText (show_nat b), v]"
    using at tx(2) by (cases "n @ CHR ''('' # ?rest") (auto simp del: parser_at.simps)
  then have "first_color [RgbBytes, RgbPercents, HexLong, HexShort, HslParser] (n @ CHR ''('' # ?rest) =
      Some \<lparr>c_rgba = c_rgba c, c_hsla = None\<rparr>"
    using text_bytes [OF assms(1) pos tx(8)] by (simp add: parser_color_def del: parser_at.simps)
  then show ?thesis using pos by (simp add: color_text_def stringParse_def lower Let_def cs)
qed

theorem text_roundtrip_witness:
  "color_text (color_string \<lparr>c_rgba = [Some 151, Some 87, Some 0, Some (1 / 8)], c_hsla = None\<rparr>) =
    \<lparr>c_rgba = [Some 151, Some 87, Some 0, Some (1 / 8)], c_hsla = None\<rparr>"
proof -
  have "decimal 20 (1 / 8)" unfolding decimal_iff by (rule exI [of _ "12500000000000000000"]) simp
  then show ?thesis
    using text_roundtrip [of 151 87 0 "1 / 8" "\<lparr>c_rgba = [Some 151, Some 87, Some 0, Some (1 / 8)], c_hsla = None\<rparr>"]
    by (simp add: byte_color_def)
qed

text \<open>A smaller alpha is written with an exponent, which the expression does not accept: the text is read as no color.\<close>

lemma tiny_alpha_unread:
  "let c = \<lparr>c_rgba = [Some 151, Some 87, Some 0, Some (1 / 10 ^ 7)], c_hsla = None\<rparr> in
    color_string c = ''rgba(151,87,0,1e-7)'' \<and> color_text (color_string c) \<noteq> \<lparr>c_rgba = c_rgba c, c_hsla = None\<rparr>"
  by code_simp

section \<open>Transitions and blending\<close>

definition between :: "rat \<Rightarrow> rat \<Rightarrow> rat \<Rightarrow> bool" where
  "between s x e \<longleftrightarrow> min s e \<le> x \<and> x \<le> max s e"

lemma mix_between:
  assumes "0 \<le> d" "d \<le> 1"
  shows "between s ((e - s) * d + s) (e :: rat)"
proof (cases "s \<le> e")
  case True
  then have "0 \<le> (e - s) * d" "(e - s) * d \<le> (e - s) * 1" using assms mult_left_mono [of d 1 "e - s"] by simp_all
  then show ?thesis using True by (simp add: between_def min_def max_def)
next
  case False
  then have "0 \<le> (s - e) * d" "(s - e) * d \<le> (s - e) * 1" using assms mult_left_mono [of d 1 "s - e"] by simp_all
  then show ?thesis using False by (simp add: between_def algebra_simps)
qed

lemma floor_between: "between (of_int s) x (of_int e) \<Longrightarrow> between (of_int s) (of_int \<lfloor>x\<rfloor>) (of_int e)"
  by (auto simp: between_def min_def max_def le_floor_iff floor_le_iff split: if_splits)

text \<open>Whole numbers between bytes, and numbers between shares, are in range.\<close>

lemma between_byte:
  assumes "between (of_int s) x (of_int e)" "0 \<le> s" "s \<le> 255" "0 \<le> e" "e \<le> 255" "p_type p = Byte"
  shows "clamp (CNum x) p ae = Some (of_int \<lfloor>x\<rfloor>)" "0 \<le> \<lfloor>x\<rfloor>" "\<lfloor>x\<rfloor> \<le> 255"
proof -
  have x: "0 \<le> x" "x \<le> 255" using assms(1-5) by (auto simp: between_def min_def max_def split: if_splits)
  then show "0 \<le> \<lfloor>x\<rfloor>" "\<lfloor>x\<rfloor> \<le> 255" by (simp_all add: floor_le_iff)
  then have "to_int32 (Some x) = \<lfloor>x\<rfloor>" using x by (simp add: to_int32_def trunc_rat_def)
  then show "clamp (CNum x) p ae = Some (of_int \<lfloor>x\<rfloor>)"
    using assms(6) \<open>0 \<le> \<lfloor>x\<rfloor>\<close> \<open>\<lfloor>x\<rfloor> \<le> 255\<close> by (simp add: clamp_def clamp_num_def Let_def)
qed

lemma set_rgba_bytes:
  assumes "byte_color r g b a cs"
  shows "set_space Rgba (ArrayArg (map cval_of cs)) c = \<lparr>c_rgba = cs, c_hsla = None\<rparr>"
proof -
  have "map (\<lambda>p. clamp (if arg_val (ArrayArg (map cval_of cs)) p = CNull then cval_of (cached Rgba c ! p_idx p)
      else arg_val (ArrayArg (map cval_of cs)) p) p False) (props Rgba) = cs"
    using assms by (simp add: byte_color_def nth_val_def cval_of_def clamp_byte clamp_percent) (simp add: alpha_prop_def clamp_percent)
  then show ?thesis using color_array_bytes [OF assms] by (simp add: set_space_def Let_def color_channels_def)
qed

text \<open> A transition between two colors starts at the one and ends at the other, and at every
  position between them each channel lies between those of the two colors; the bytes stay whole.\<close>

theorem transition_between:
  assumes "byte_color r g b a (c_rgba c)" "byte_color r' g' b' a' (c_rgba other)" "c_hsla c = None" "c_hsla other = None"
    "a \<noteq> 0" "0 \<le> d" "d \<le> 1"
  shows "\<exists>x y z w. c_rgba (color_transition c other d) = [Some (of_int x), Some (of_int y), Some (of_int z), Some w] \<and>
    between (of_int r) (of_int x) (of_int r') \<and> between (of_int g) (of_int y) (of_int g') \<and>
    between (of_int b) (of_int z) (of_int b') \<and> between a w a' \<and>
    (d = 0 \<longrightarrow> c_rgba (color_transition c other d) = c_rgba c) \<and>
    (d = 1 \<longrightarrow> c_rgba (color_transition c other d) = c_rgba other)"
proof -
  have cs: "c_rgba c = [Some (of_int r), Some (of_int g), Some (of_int b), Some a]"
    "c_rgba other = [Some (of_int r'), Some (of_int g'), Some (of_int b'), Some a']"
    and rg: "0 \<le> r" "r \<le> 255" "0 \<le> g" "g \<le> 255" "0 \<le> b" "b \<le> 255" "0 \<le> a" "a \<le> 1"
    "0 \<le> r'" "r' \<le> 255" "0 \<le> g'" "g' \<le> 255" "0 \<le> b'" "b' \<le> 255" "0 \<le> a'" "a' \<le> 1"
    using assms(1,2) by (simp_all add: byte_color_def)
  define mix where "mix = (\<lambda>s e :: rat. (e - s) * d + s)"
  have bt: "between s (mix s e) e" for s e unfolding mix_def using mix_between [OF assms(6,7)] .
  note byte = between_byte [OF bt]
  let ?x = "\<lfloor>mix (of_int r) (of_int r')\<rfloor>" and ?y = "\<lfloor>mix (of_int g) (of_int g')\<rfloor>" and ?z = "\<lfloor>mix (of_int b) (of_int b')\<rfloor>"
  have w: "0 \<le> mix a a'" "mix a a' \<le> 1" using bt [of a a'] rg(7,8,15,16) by (auto simp: between_def min_def max_def split: if_splits)
  let ?cs = "[Some (of_int ?x), Some (of_int ?y), Some (of_int ?z), Some (mix a a')]"
  have bc: "byte_color ?x ?y ?z (mix a a') ?cs"
    using byte(2,3) [OF rg(1,2,9,10)] byte(2,3) [OF rg(3,4,11,12)] byte(2,3) [OF rg(5,6,13,14)] w
    unfolding byte_color_def by (metis channel_prop.select_convs(3))
  have tv: "transition_value p d (Some s) (Some e) = clamp (CNum (mix s e)) p False" if "p_type p \<noteq> Degrees" for p s e
    using that by (simp add: transition_value_def mix_def Let_def)
  have "map (\<lambda>p. transition_value p d (c_rgba c ! p_idx p) (c_rgba other ! p_idx p)) (props Rgba) = ?cs"
    using byte(1) [OF rg(1,2,9,10)] byte(1) [OF rg(3,4,11,12)] byte(1) [OF rg(5,6,13,14)] clamp_percent [OF _ w, of alpha_prop]
    by (simp add: cs tv alpha_prop_def)
  then have t: "c_rgba (color_transition c other d) = ?cs"
    using set_rgba_bytes [OF bc] assms(3,4,5) cs by (simp add: color_transition_def space_of_def get_key_def key_space_def Let_def)
  have "d = 0 \<Longrightarrow> ?cs = c_rgba c" "d = 1 \<Longrightarrow> ?cs = c_rgba other" by (simp_all add: cs mix_def)
  then show ?thesis
    using floor_between [OF bt, of r r'] floor_between [OF bt, of g g'] floor_between [OF bt, of b b'] bt [of a a'] unfolding t by blast
qed

definition teal_half :: color where
  "teal_half = \<lparr>c_rgba = [Some 0, Some 128, Some 128, Some (1 / 2)], c_hsla = None\<rparr>"

theorem transition_between_witness:
  "\<exists>x y z w. c_rgba (color_transition brown teal_half (1 / 4)) = [Some (of_int x), Some (of_int y), Some (of_int z), Some w] \<and>
    between 0 (of_int x) 151 \<and> between (1 / 2) w 1"
  using transition_between [of 151 87 38 1 brown 0 128 128 "1 / 2" teal_half "1 / 4"]
  by (auto simp: brown_def teal_half_def byte_color_def between_def min.commute max.commute)

text \<open>A hue takes the shorter way round the wheel.\<close>

lemma hue_shorter_way:
  assumes "0 \<le> s" "s < 360" "0 \<le> e" "e < 360"
  shows "\<bar>e - (if e - s > 180 then s + 360 else if s - e > 180 then s - 360 else s)\<bar> \<le> (180 :: rat)"
  using assms by (auto simp: abs_le_iff)

text \<open> Blending a color with an opaque background gives an opaque color whose bytes lie between those
  of the two: the background where alpha is 0, the color itself where it is 1.\<close>

theorem blend_between:
  assumes "byte_color r g b a (c_rgba c)" "byte_color r' g' b' 1 (c_rgba other)"
  shows "\<exists>x y z. c_rgba (color_blend c other) = [Some (of_int x), Some (of_int y), Some (of_int z), Some 1] \<and>
    between (of_int r) (of_int x) (of_int r') \<and> between (of_int g) (of_int y) (of_int g') \<and> between (of_int b) (of_int z) (of_int b') \<and>
    (a = 0 \<longrightarrow> c_rgba (color_blend c other) = c_rgba other) \<and> (a = 1 \<longrightarrow> color_blend c other = c)"
proof -
  have cs: "c_rgba c = [Some (of_int r), Some (of_int g), Some (of_int b), Some a]"
    "c_rgba other = [Some (of_int r'), Some (of_int g'), Some (of_int b'), Some 1]"
    and rg: "0 \<le> r" "r \<le> 255" "0 \<le> g" "g \<le> 255" "0 \<le> b" "b \<le> 255" "0 \<le> a" "a \<le> 1"
    "0 \<le> r'" "r' \<le> 255" "0 \<le> g'" "g' \<le> 255" "0 \<le> b'" "b' \<le> 255"
    using assms(1,2) by (simp_all add: byte_color_def)
  show ?thesis
  proof (cases "a = 1")
    case True
    then have "color_blend c other = c" by (simp add: color_blend_def cs)
    then show ?thesis using cs(1) True by (intro exI [of _ r] exI [of _ g] exI [of _ b]) (simp add: between_def)
  next
    case False
    define mix where "mix = (\<lambda>s e :: rat. (1 - a) * e + a * s)"
    have "mix s e = (e - s) * (1 - a) + s" for s e by (simp add: mix_def algebra_simps)
    then have bt: "between s (mix s e) e" for s e using mix_between [of "1 - a" s e] rg(7,8) by simp
    note byte = between_byte [OF bt]
    have m: "(1 - a) * e + a * s = mix s e" for s e by (simp add: mix_def)
    have al: "clamp CNull alpha_prop False = Some 1" by (simp add: clamp_def alpha_prop_def)
    have "c_rgba (color_blend c other) = [Some (of_int \<lfloor>mix (of_int r) (of_int r')\<rfloor>), Some (of_int \<lfloor>mix (of_int g) (of_int g')\<rfloor>),
        Some (of_int \<lfloor>mix (of_int b) (of_int b')\<rfloor>), Some 1]"
      using False byte(1) [OF rg(1,2,9,10)] byte(1) [OF rg(3,4,11,12)] byte(1) [OF rg(5,6,13,14)]
      by (simp add: color_blend_def cs chan_num_def m color_array_def nth_val_def al)
    moreover have "a = 0 \<Longrightarrow> mix s e = e" for s e by (simp add: mix_def)
    ultimately show ?thesis
      using False floor_between [OF bt, of r r'] floor_between [OF bt, of g g'] floor_between [OF bt, of b b'] cs(2) by auto
  qed
qed

theorem blend_between_witness:
  "\<exists>x y z. c_rgba (color_blend teal_half color_default) = [Some (of_int x), Some (of_int y), Some (of_int z), Some 1] \<and>
    between 0 (of_int x) 255 \<and> between 128 (of_int y) 255"
proof -
  have "byte_color 0 128 128 (1 / 2) (c_rgba teal_half)" "byte_color 255 255 255 1 (c_rgba color_default)"
    by (simp add: teal_half_def byte_color_def) code_simp
  from blend_between [OF this] show ?thesis by auto
qed

section \<open>What the code does not promise\<close>

text \<open>Percentages: 100 times the double next to 2.55 is less than 255, so white is read as 254.\<close>

lemma percent_white: "c_rgba (color_text ''rgb(100%,100%,100%)'') = [Some 254, Some 254, Some 254, Some 1]"
  by code_simp

text \<open>A color object with all its channels loses its alpha; without one of them it keeps it.\<close>

definition half_red :: "string \<Rightarrow> cval" where
  "half_red k = (if k = ''red'' then CNum 255 else if k = ''alpha'' then CNum (1 / 2) else if k = ''green'' \<or> k = ''blue'' then CNum 0 else CNull)"

lemma object_alpha_lost:
  "c_rgba (color_object half_red) = [Some 255, Some 0, Some 0, Some 1]"
  "c_rgba (color_object (half_red(''blue'' := CNull))) = [Some 255, Some 0, None, Some (1 / 2)]"
  by code_simp+

text \<open>A hue below -360 stays negative, against the comment at the modulus, and can be drawn as another
  color than the same angle.\<close>

lemma hue_negative:
  "cached Hsla (set_key Hsla (props Hsla ! 0) (KeyValue (CNum (- 1000))) brown) ! 0 = Some (- 280)"
  "c_rgba (set_key Hsla (props Hsla ! 0) (KeyValue (CNum (- 1000))) brown) \<noteq>
   c_rgba (set_key Hsla (props Hsla ! 0) (KeyValue (CNum 80)) brown)"
  by code_simp+

text \<open>Where an ancestor's style throws, the hook of a browser without alpha asks it for ever.\<close>

lemma background_stuck: "hook_set False [None, Some ''white''] (HookColor teal_half) = Inl Diverge"
  by code_simp

end
