(* ===== verification/UI_Mouse.thy ===== *)
theory UI_Mouse
  imports JS_Prelude
begin

text \<open>
  The mouse interaction (\<open>ui.mouse\<close>, jquery-ui.js), the base of the widgets that are dragged. A page has
  widgets, each with its fields; \<open>mouseHandled\<close> is shared. The methods that a widget overrides
  (\<open>_mouseCapture\<close>, \<open>_mouseStart\<close>, \<open>_mouseDrag\<close>, \<open>_mouseStop\<close>) are calls that are logged; what they
  answer is a parameter, and so is what the selector \<open>cancel\<close> finds.
\<close>

section \<open>The data\<close>

record mev =
  ev_which :: nat
  ev_button :: nat
  ev_x :: rat
  ev_y :: rat
  ev_target :: nat

datatype mcall =
    Capture nat mev
  | Start nat mev "mev option" bool
  | Drag nat mev
  | Stop nat mev
  | Prevented

record mouse =
  mo_name :: string
  mo_distance :: rat
  mo_delay :: nat
  m_alive :: bool
  m_started :: bool
  m_moved :: bool
  m_down :: "mev option"
  m_delay_met :: bool
  m_delegate :: "nat option"
  m_bound :: "nat list"

record mworld =
  w_mice :: "mouse list"
  w_handled :: bool
  w_clicks :: "(nat \<times> string) list"
  w_timers :: "(nat \<times> nat) list"
  w_next :: nat
  w_log :: "mcall list"

record mpage =
  pg_old_ie :: bool
  pg_cancels :: "nat \<Rightarrow> nat \<Rightarrow> bool"
  pg_capture :: "mcall list \<Rightarrow> nat \<Rightarrow> mev \<Rightarrow> bool"
  pg_start :: "mcall list \<Rightarrow> nat \<Rightarrow> mev \<Rightarrow> mev option \<Rightarrow> bool"

definition mouse_at :: "nat \<Rightarrow> mworld \<Rightarrow> mouse" where
  "mouse_at i w = w_mice w ! i"

definition on_mouse :: "nat \<Rightarrow> (mouse \<Rightarrow> mouse) \<Rightarrow> mworld \<Rightarrow> mworld" where
  "on_mouse i g w = w\<lparr>w_mice := (w_mice w)[i := g (w_mice w ! i)]\<rparr>"

definition log_call :: "mcall \<Rightarrow> mworld \<Rightarrow> mworld" where
  "log_call c w = w\<lparr>w_log := w_log w @ [c]\<rparr>"

text \<open>\<open>_mouseInit\<close>: a widget with its options.\<close>

definition new_mouse :: "string \<Rightarrow> rat \<Rightarrow> nat \<Rightarrow> mouse" where
  "new_mouse name distance delay = \<lparr>mo_name = name, mo_distance = distance, mo_delay = delay, m_alive = True, m_started = False, m_moved = False, m_down = None,
     m_delay_met = False, m_delegate = None, m_bound = []\<rparr>"

section \<open>Distance and delay\<close>

definition distance_of :: "mev \<Rightarrow> mev \<Rightarrow> rat" where
  "distance_of d e = max \<bar>ev_x d - ev_x e\<bar> \<bar>ev_y d - ev_y e\<bar>"

definition mouseDistanceMet :: "mouse \<Rightarrow> mev \<Rightarrow> bool js" where
  "mouseDistanceMet m e =
     (case m_down m of None \<Rightarrow> Inl (Throw ''TypeError'') | Some d \<Rightarrow> Inr (distance_of d e \<ge> mo_distance m))"

section \<open>Listening on the document\<close>

text \<open>The delegates are functions made for each press; \<open>unbind\<close> removes the one it is given, and all those
  with the name of the widget when there is none.\<close>

definition unbind_delegate :: "nat \<Rightarrow> mworld \<Rightarrow> mworld" where
  "unbind_delegate i w =
     (case m_delegate (mouse_at i w) of
        None \<Rightarrow> w\<lparr>w_mice := map (\<lambda>m. if mo_name m = mo_name (mouse_at i w) then m\<lparr>m_bound := []\<rparr> else m) (w_mice w)\<rparr>
      | Some d \<Rightarrow> on_mouse i (\<lambda>m. m\<lparr>m_bound := filter (\<lambda>x. x \<noteq> d) (m_bound m)\<rparr>) w)"

definition bind_delegate :: "nat \<Rightarrow> mouse \<Rightarrow> mouse" where
  "bind_delegate d m = m\<lparr>m_delegate := Some d, m_bound := m_bound m @ [d]\<rparr>"

section \<open>Handlers\<close>

definition call_stop :: "nat \<Rightarrow> mev \<Rightarrow> mworld \<Rightarrow> mworld js" where
  "call_stop i e w =
     (if m_started (mouse_at i w) then
        case m_down (mouse_at i w) of None \<Rightarrow> Inl (Throw ''TypeError'')
        | Some d \<Rightarrow>
          let w1 = on_mouse i (\<lambda>m. m\<lparr>m_started := False\<rparr>) w; c = (ev_target e, mo_name (mouse_at i w));
              w2 = (if ev_target e = ev_target d \<and> c \<notin> set (w_clicks w1) then w1\<lparr>w_clicks := w_clicks w1 @ [c]\<rparr> else w1)
          in Inr (log_call (Stop i e) w2)
      else Inr w)"

definition mouseUp :: "nat \<Rightarrow> mev \<Rightarrow> mworld \<Rightarrow> (bool \<times> mworld) js" where
  "mouseUp i e w = js_bind (call_stop i e (unbind_delegate i w)) (\<lambda>w1. Inr (False, w1\<lparr>w_handled := False\<rparr>))"

definition drop_click :: "nat \<Rightarrow> nat \<Rightarrow> mworld \<Rightarrow> mworld" where
  "drop_click t i w = w\<lparr>w_clicks := filter (\<lambda>c. c \<noteq> (t, mo_name (mouse_at i w))) (w_clicks w)\<rparr>"

definition start_delay :: "nat \<Rightarrow> mworld \<Rightarrow> mworld" where
  "start_delay i w =
     (let m = mouse_at i w; w1 = on_mouse i (\<lambda>m. m\<lparr>m_delay_met := (mo_delay m = 0)\<rparr>) w in
      if mo_delay m = 0 then w1 else w1\<lparr>w_timers := w_timers w1 @ [(w_next w1, i)], w_next := Suc (w_next w1)\<rparr>)"

definition call_start :: "mpage \<Rightarrow> nat \<Rightarrow> mev \<Rightarrow> mev option \<Rightarrow> mworld \<Rightarrow> mworld" where
  "call_start pg i d e w =
     (let r = pg_start pg (w_log w) i d e in
      on_mouse i (\<lambda>m. m\<lparr>m_started := r\<rparr>) (log_call (Start i d e r) w))"

text \<open>What follows a press that is taken: the widget listens on the document until the release.\<close>

definition listen :: "nat \<Rightarrow> mev \<Rightarrow> mworld \<Rightarrow> mworld" where
  "listen i e w =
     (let w1 = drop_click (ev_target e) i w; w2 = on_mouse i (bind_delegate (w_next w1)) w1
      in log_call Prevented (w2\<lparr>w_next := Suc (w_next w2), w_handled := True\<rparr>))"

definition mouseDown :: "mpage \<Rightarrow> nat \<Rightarrow> mev \<Rightarrow> mworld \<Rightarrow> mworld js" where
  "mouseDown pg i e w =
     (if w_handled w then Inr w
      else js_bind
        (let w1 = on_mouse i (\<lambda>m. m\<lparr>m_moved := False\<rparr>) w in
         if m_started (mouse_at i w1) then js_bind (mouseUp i e w1) (\<lambda>(_, w2). Inr w2) else Inr w1)
        (\<lambda>w1. let w2 = on_mouse i (\<lambda>m. m\<lparr>m_down := Some e\<rparr>) w1 in
          if ev_which e \<noteq> 1 \<or> pg_cancels pg i (ev_target e) then Inr w2
          else if \<not> pg_capture pg (w_log w2) i e then Inr (log_call (Capture i e) w2)
          else let w3 = start_delay i (log_call (Capture i e) w2); m = mouse_at i w3 in
            js_bind (mouseDistanceMet m e)
              (\<lambda>far. if far \<and> m_delay_met m then
                  let w4 = call_start pg i e None w3 in
                  if m_started (mouse_at i w4) then Inr (listen i e w4) else Inr (log_call Prevented w4)
                else Inr (listen i e w3))))"

definition note_move :: "nat \<Rightarrow> mev \<Rightarrow> mworld \<Rightarrow> mworld" where
  "note_move i e w = (if ev_which e \<noteq> 0 \<or> ev_button e \<noteq> 0 then on_mouse i (\<lambda>m. m\<lparr>m_moved := True\<rparr>) w else w)"

definition mouseMove :: "mpage \<Rightarrow> nat \<Rightarrow> mev \<Rightarrow> mworld \<Rightarrow> (bool \<times> mworld) js" where
  "mouseMove pg i e w =
     (if m_moved (mouse_at i w) \<and> (pg_old_ie pg \<and> ev_button e = 0 \<or> ev_which e = 0) then mouseUp i e w
      else let w1 = note_move i e w; m = mouse_at i w1 in
        if m_started m then Inr (True, log_call Prevented (log_call (Drag i e) w1))
        else js_bind (mouseDistanceMet m e)
          (\<lambda>far. js_bind
            (if far \<and> m_delay_met m then
               case m_down m of None \<Rightarrow> Inl (Throw ''TypeError'')
               | Some d \<Rightarrow>
                 let w2 = call_start pg i d (Some e) w1 in
                 if m_started (mouse_at i w2) then Inr (log_call (Drag i e) w2)
                 else js_bind (mouseUp i e w2) (\<lambda>(_, w3). Inr w3)
             else Inr w1)
            (\<lambda>w2. Inr (\<not> m_started (mouse_at i w2), w2))))"

section \<open>The page\<close>

text \<open>An event reaches the widgets of a path, or all that listen on the document; \<open>false\<close> prevents the default.\<close>

primrec press_path :: "mpage \<Rightarrow> nat list \<Rightarrow> mev \<Rightarrow> mworld \<Rightarrow> mworld js" where
  "press_path pg [] e w = Inr w"
| "press_path pg (i # is) e w = js_bind (if m_alive (mouse_at i w) then mouseDown pg i e w else Inr w) (press_path pg is e)"

definition answered :: "(bool \<times> mworld) js \<Rightarrow> mworld js" where
  "answered r = js_bind r (\<lambda>(b, w). Inr (if b then w else log_call Prevented w))"

definition listeners :: "mworld \<Rightarrow> nat list" where
  "listeners w = concat (map (\<lambda>i. replicate (length (m_bound (mouse_at i w))) i) [0..<length (w_mice w)])"

primrec tell :: "(nat \<Rightarrow> mworld \<Rightarrow> (bool \<times> mworld) js) \<Rightarrow> nat list \<Rightarrow> mworld \<Rightarrow> mworld js" where
  "tell h [] w = Inr w"
| "tell h (i # is) w = js_bind (answered (h i w)) (tell h is)"

text \<open>The click after a drag is stopped, once.\<close>

primrec click_path :: "nat list \<Rightarrow> nat \<Rightarrow> mworld \<Rightarrow> bool \<times> mworld" where
  "click_path [] t w = (True, w)"
| "click_path (i # is) t w =
     (if m_alive (mouse_at i w) \<and> (t, mo_name (mouse_at i w)) \<in> set (w_clicks w) then (False, log_call Prevented (drop_click t i w)) else click_path is t w)"

definition mouseDestroy :: "nat \<Rightarrow> mworld \<Rightarrow> mworld" where
  "mouseDestroy i w =
     (let w1 = on_mouse i (\<lambda>m. m\<lparr>m_alive := False\<rparr>) w in
      if m_delegate (mouse_at i w1) = None then w1 else unbind_delegate i w1)"

datatype mstep = Press "nat list" mev | Move mev | Release mev | Elapsed nat | Click "nat list" nat | Destroy nat

definition run_mstep :: "mpage \<Rightarrow> mstep \<Rightarrow> mworld \<Rightarrow> mworld js" where
  "run_mstep pg s w =
     (case s of Press is e \<Rightarrow> press_path pg is e w
      | Move e \<Rightarrow> tell (\<lambda>i. mouseMove pg i e) (listeners w) w
      | Release e \<Rightarrow> tell (\<lambda>i. mouseUp i e) (listeners w) (w\<lparr>w_handled := False\<rparr>)
      | Elapsed t \<Rightarrow>
          Inr (case map_of (w_timers w) t of None \<Rightarrow> w
            | Some i \<Rightarrow> on_mouse i (\<lambda>m. m\<lparr>m_delay_met := True\<rparr>) (w\<lparr>w_timers := filter (\<lambda>(j, _). j \<noteq> t) (w_timers w)\<rparr>))
      | Click is t \<Rightarrow> Inr (snd (click_path is t w))
      | Destroy i \<Rightarrow> Inr (mouseDestroy i w))"

primrec run_msteps :: "mpage \<Rightarrow> mstep list \<Rightarrow> mworld \<Rightarrow> mworld js" where
  "run_msteps pg [] w = Inr w"
| "run_msteps pg (s # ss) w = js_bind (run_mstep pg s w) (run_msteps pg ss)"

definition mouse_page :: "mouse list \<Rightarrow> mworld" where
  "mouse_page ms = \<lparr>w_mice = ms, w_handled = False, w_clicks = [], w_timers = [], w_next = 0, w_log = []\<rparr>"

end
