(* ===== verification/UI_MouseProps.thy ===== *)
theory UI_MouseProps
  imports UI_Mouse
begin

text \<open>
  Whatever is pressed, moved and released on a page of draggable widgets, and whatever the widgets answer:
  each widget is started, dragged and stopped in this order, only one at a time, and a release leaves none.
\<close>

section \<open>The order of the calls\<close>

primrec phase_step :: "nat \<Rightarrow> mcall \<Rightarrow> bool \<Rightarrow> bool option" where
  "phase_step i (Capture j e) s = Some s"
| "phase_step i (Start j d e r) s = (if j = i then if s then None else Some r else Some s)"
| "phase_step i (Drag j e) s = (if j = i \<and> \<not> s then None else Some s)"
| "phase_step i (Stop j e) s = (if j = i then if s then Some False else None else Some s)"
| "phase_step i Prevented s = Some s"

primrec phases :: "nat \<Rightarrow> mcall list \<Rightarrow> bool \<Rightarrow> bool option" where
  "phases i [] s = Some s"
| "phases i (c # cs) s = (case phase_step i c s of None \<Rightarrow> None | Some s1 \<Rightarrow> phases i cs s1)"

lemma phases_append: "phases i (l @ l1) s = (case phases i l s of None \<Rightarrow> None | Some s1 \<Rightarrow> phases i l1 s1)"
  by (induction l arbitrary: s) (auto split: option.split)

primrec about :: "mcall \<Rightarrow> nat option" where
  "about (Capture j e) = None"
| "about (Start j d e r) = Some j"
| "about (Drag j e) = Some j"
| "about (Stop j e) = Some j"
| "about Prevented = None"

lemma phases_others: "(\<forall>c \<in> set l. about c = None \<or> about c = Some j) \<Longrightarrow> i \<noteq> j \<Longrightarrow> phases i l s = Some s"
proof (induction l)
  case (Cons c l)
  then show ?case by (cases c) auto
qed simp

text \<open>The distance a start needs.\<close>

primrec far_enough :: "mouse list \<Rightarrow> mcall \<Rightarrow> bool" where
  "far_enough ms (Capture j e) = True"
| "far_enough ms (Start j d e r) = (case e of None \<Rightarrow> mo_distance (ms ! j) \<le> 0 | Some e1 \<Rightarrow> mo_distance (ms ! j) \<le> distance_of d e1)"
| "far_enough ms (Drag j e) = True"
| "far_enough ms (Stop j e) = True"
| "far_enough ms Prevented = True"

section \<open>The invariant\<close>

definition mouse_ok :: "mouse \<Rightarrow> bool" where
  "mouse_ok m \<longleftrightarrow> (m_bound m = [] \<or> (\<exists>d. m_delegate m = Some d \<and> m_bound m = [d])) \<and>
     (m_bound m \<noteq> [] \<longrightarrow> m_down m \<noteq> None \<and> m_alive m) \<and> (m_started m \<and> m_alive m \<longrightarrow> m_bound m \<noteq> [])"

definition bound_at :: "nat \<Rightarrow> mworld \<Rightarrow> bool" where
  "bound_at i w \<longleftrightarrow> m_bound (mouse_at i w) \<noteq> []"

definition mice_ok :: "mworld \<Rightarrow> bool" where
  "mice_ok w \<longleftrightarrow> (\<forall>i < length (w_mice w). mouse_ok (mouse_at i w) \<and> phases i (w_log w) False = Some (m_started (mouse_at i w))) \<and>
     (\<forall>i < length (w_mice w). \<forall>j < length (w_mice w). bound_at i w \<longrightarrow> bound_at j w \<longrightarrow> i = j) \<and>
     list_all (far_enough (w_mice w)) (w_log w)"

definition held :: "mworld \<Rightarrow> bool" where
  "held w \<longleftrightarrow> (\<forall>i < length (w_mice w). bound_at i w \<longrightarrow> w_handled w)"

definition minv :: "mworld \<Rightarrow> bool" where
  "minv w \<longleftrightarrow> mice_ok w \<and> held w"

lemma far_enough_cong: "length ms1 = length ms \<Longrightarrow> (\<forall>j. mo_distance (ms1 ! j) = mo_distance (ms ! j)) \<Longrightarrow> far_enough ms1 c = far_enough ms c"
  by (cases c) (auto split: option.split)

text \<open>A change of one widget, with calls about it.\<close>

definition one_step :: "nat \<Rightarrow> mworld \<Rightarrow> mworld \<Rightarrow> bool" where
  "one_step i w w1 \<longleftrightarrow> (\<exists>m l. w_mice w1 = (w_mice w)[i := m] \<and> w_log w1 = w_log w @ l \<and> mouse_ok m \<and>
     mo_distance m = mo_distance (mouse_at i w) \<and> (\<forall>c \<in> set l. about c = None \<or> about c = Some i) \<and>
     phases i l (m_started (mouse_at i w)) = Some (m_started m) \<and> list_all (far_enough (w_mice w)) l)"

lemma one_stepI:
  "w_mice w1 = (w_mice w)[i := m] \<Longrightarrow> w_log w1 = w_log w @ l \<Longrightarrow> mouse_ok m \<Longrightarrow> mo_distance m = mo_distance (mouse_at i w) \<Longrightarrow>
    \<forall>c \<in> set l. about c = None \<or> about c = Some i \<Longrightarrow> phases i l (m_started (mouse_at i w)) = Some (m_started m) \<Longrightarrow>
    list_all (far_enough (w_mice w)) l \<Longrightarrow> one_step i w w1"
  unfolding one_step_def by blast

lemma one_step_mice:
  assumes "one_step i w w1" "i < length (w_mice w)"
  shows "map mo_distance (w_mice w1) = map mo_distance (w_mice w)" "\<And>j. j \<noteq> i \<Longrightarrow> mouse_at j w1 = mouse_at j w" "mouse_ok (mouse_at i w1)"
proof -
  obtain m where m: "w_mice w1 = (w_mice w)[i := m]" "mouse_ok m" "mo_distance m = mo_distance (w_mice w ! i)"
    using assms(1) unfolding one_step_def mouse_at_def by blast
  show "map mo_distance (w_mice w1) = map mo_distance (w_mice w)"
    unfolding m(1) by (rule nth_equalityI) (use m(3) assms(2) in \<open>auto simp: nth_list_update\<close>)
  show "\<And>j. j \<noteq> i \<Longrightarrow> mouse_at j w1 = mouse_at j w" "mouse_ok (mouse_at i w1)" using assms(2) m(1,2) by (simp_all add: mouse_at_def)
qed

lemma mice_ok_step:
  assumes "mice_ok w" "i < length (w_mice w)" "one_step i w w1"
    "\<And>j. j < length (w_mice w) \<Longrightarrow> j \<noteq> i \<Longrightarrow> bound_at j w \<Longrightarrow> \<not> bound_at i w1"
  shows "mice_ok w1"
proof -
  obtain m l where m: "w_mice w1 = (w_mice w)[i := m]" "w_log w1 = w_log w @ l" "mouse_ok m" "\<forall>c \<in> set l. about c = None \<or> about c = Some i"
    "phases i l (m_started (mouse_at i w)) = Some (m_started m)" "list_all (far_enough (w_mice w)) l" "mo_distance m = mo_distance (mouse_at i w)"
    using assms(3) unfolding one_step_def by blast
  have len: "length (w_mice w1) = length (w_mice w)" by (simp add: m(1))
  have far: "far_enough (w_mice w1) c = far_enough (w_mice w) c" for c
  proof (rule far_enough_cong [OF len], rule allI)
    show "mo_distance (w_mice w1 ! j) = mo_distance (w_mice w ! j)" for j
      using assms(2) m(7) by (cases "j = i") (simp_all add: m(1) mouse_at_def)
  qed
  have same: "mouse_at j w1 = (if j = i then m else mouse_at j w)" for j
    using assms(2) by (simp add: m(1) mouse_at_def)
  have other: "phases j l s = Some s" if "j \<noteq> i" for j s
    using phases_others [OF m(4)] that by blast
  have "mouse_ok (mouse_at j w1) \<and> phases j (w_log w1) False = Some (m_started (mouse_at j w1))" if j: "j < length (w_mice w)" for j
    using assms(1) m(3,5) j other [of j] unfolding mice_ok_def same m(2) by (auto simp: phases_append)
  moreover have "j = k" if "j < length (w_mice w)" "k < length (w_mice w)" "bound_at j w1" "bound_at k w1" for j k
    using that assms(1,4) unfolding mice_ok_def bound_at_def by (metis same)
  moreover have "list_all (far_enough (w_mice w1)) (w_log w1)"
    using assms(1) m(6) unfolding mice_ok_def m(2) list_all_append list_all_iff far set_append ball_Un by blast
  ultimately show ?thesis unfolding mice_ok_def len by blast
qed

lemma mice_ok_cong: "w_mice w1 = w_mice w \<Longrightarrow> w_log w1 = w_log w \<Longrightarrow> mice_ok w1 = mice_ok w"
  by (simp add: mice_ok_def bound_at_def mouse_at_def)

lemma mice_ok_prevented: "mice_ok (log_call Prevented w) = mice_ok w"
proof -
  have "phases i (w_log w @ [Prevented]) False = phases i (w_log w) False" for i by (simp add: phases_append split: option.split)
  then show ?thesis by (simp add: mice_ok_def bound_at_def mouse_at_def log_call_def)
qed

lemma fresh_ok: "list_all (\<lambda>m. \<exists>s d t. m = new_mouse s d t) ms \<Longrightarrow> minv (mouse_page ms)"
  by (auto simp: minv_def mice_ok_def held_def mouse_page_def bound_at_def mouse_at_def list_all_length new_mouse_def mouse_ok_def)

section \<open>The handlers\<close>

lemma on_mouse_at: "i < length (w_mice w) \<Longrightarrow> mouse_at i (on_mouse i g w) = g (mouse_at i w)"
  by (simp add: mouse_at_def on_mouse_def)

text \<open>A release at the widget that listens.\<close>

lemma mouseUp_result:
  assumes "i < length (w_mice w)" "mouse_ok (mouse_at i w)" "m_down (mouse_at i w) = Some d" "bound_at i w"
  shows "\<exists>w1. mouseUp i e w = Inr (False, w1) \<and> w_mice w1 = (w_mice w)[i := (mouse_at i w)\<lparr>m_bound := [], m_started := False\<rparr>] \<and>
    w_log w1 = w_log w @ (if m_started (mouse_at i w) then [Stop i e] else []) \<and> \<not> w_handled w1"
proof -
  have "unbind_delegate i w = on_mouse i (\<lambda>m. m\<lparr>m_bound := []\<rparr>) w"
    using assms(2,4) by (auto simp: unbind_delegate_def mouse_ok_def bound_at_def on_mouse_def mouse_at_def)
  then show ?thesis
    using assms(1,3)
    by (cases "mouse_at i w") (auto simp: mouseUp_def call_stop_def on_mouse_def mouse_at_def log_call_def Let_def)
qed

lemma mouseUp_step:
  assumes "i < length (w_mice w)" "mouse_ok (mouse_at i w)" "bound_at i w"
  shows "\<exists>w1. mouseUp i e w = Inr (False, w1) \<and> one_step i w w1 \<and> \<not> bound_at i w1 \<and> \<not> w_handled w1 \<and> \<not> m_started (mouse_at i w1) \<and>
    w_log w1 = w_log w @ (if m_started (mouse_at i w) then [Stop i e] else [])"
proof -
  obtain d where "m_down (mouse_at i w) = Some d" using assms(2,3) by (auto simp: mouse_ok_def bound_at_def)
  from mouseUp_result [OF assms(1,2) this assms(3), of e] obtain w1 where w1: "mouseUp i e w = Inr (False, w1)"
    "w_mice w1 = (w_mice w)[i := (mouse_at i w)\<lparr>m_bound := [], m_started := False\<rparr>]"
    "w_log w1 = w_log w @ (if m_started (mouse_at i w) then [Stop i e] else [])" "\<not> w_handled w1" by blast
  have "mouse_at i w1 = (mouse_at i w)\<lparr>m_bound := [], m_started := False\<rparr>" using assms(1) by (simp add: mouse_at_def w1(2))
  moreover have "one_step i w w1" by (rule one_stepI [OF w1(2,3)]) (simp_all add: mouse_ok_def)
  ultimately show ?thesis using w1 by (simp add: bound_at_def)
qed

text \<open>A press that reaches a widget while no widget listens.\<close>

lemma mouseDown_step:
  assumes "i < length (w_mice w)" "mouse_ok (mouse_at i w)" "\<not> bound_at i w" "m_alive (mouse_at i w)" "\<not> w_handled w"
  shows "\<exists>w1. mouseDown pg i e w = Inr w1 \<and> one_step i w w1 \<and> (bound_at i w1 \<longrightarrow> w_handled w1)"
proof -
  let ?m = "(mouse_at i w)\<lparr>m_moved := False, m_down := Some e\<rparr>" and ?c = "Capture i e"
  let ?w = "w\<lparr>w_mice := (w_mice w)[i := ?m]\<rparr>"
  have quiet: "m_bound ?m = []" "\<not> m_started ?m" using assms(2-4) by (auto simp: mouse_ok_def bound_at_def)
  have start: "mouseDown pg i e w =
      (if ev_which e \<noteq> 1 \<or> pg_cancels pg i (ev_target e) then Inr ?w
       else if \<not> pg_capture pg (w_log w) i e then Inr (log_call ?c ?w)
       else let w3 = start_delay i (log_call ?c ?w); m = mouse_at i w3 in
         if 0 \<ge> mo_distance ?m \<and> m_delay_met m then
           let w4 = call_start pg i e None w3 in
           if m_started (mouse_at i w4) then Inr (listen i e w4) else Inr (log_call Prevented w4)
         else Inr (listen i e w3))"
    using assms(1,5) quiet
    by (simp add: mouseDown_def on_mouse_def mouse_at_def Let_def mouseDistanceMet_def distance_of_def start_delay_def log_call_def)
  have ok: "mouse_ok ?m" using quiet by (simp add: mouse_ok_def)
  show ?thesis
  proof (cases "ev_which e \<noteq> 1 \<or> pg_cancels pg i (ev_target e)")
    case True
    have "one_step i w ?w" by (rule one_stepI [where m = ?m and l = "[]"]) (use ok quiet in simp_all)
    then show ?thesis using True start assms(1) quiet by (simp add: bound_at_def mouse_at_def)
  next
    case no_cancel: False
    show ?thesis
    proof (cases "pg_capture pg (w_log w) i e")
      case False
      have "one_step i w (log_call ?c ?w)"
        by (rule one_stepI [where m = ?m and l = "[?c]"]) (use ok quiet in \<open>simp_all add: log_call_def\<close>)
      then show ?thesis using False no_cancel start assms(1) quiet by (simp add: bound_at_def mouse_at_def log_call_def)
    next
      case True
      define w3 where "w3 = start_delay i (log_call ?c ?w)"
      define m3 where "m3 = ?m\<lparr>m_delay_met := (mo_delay ?m = 0)\<rparr>"
      have w3: "w_mice w3 = (w_mice w)[i := m3]" "w_log w3 = w_log w @ [?c]"
        using assms(1) by (simp_all add: w3_def m3_def start_delay_def on_mouse_def mouse_at_def log_call_def Let_def)
      have m3: "mouse_at i w3 = m3" "\<not> m_started m3" "m_bound m3 = []" "m_alive m3" "m_down m3 = Some e" "mo_distance m3 = mo_distance ?m"
        using assms(1,4) quiet by (simp_all add: mouse_at_def w3(1)) (simp_all add: m3_def mouse_at_def)
      have listens: "one_step i w (listen i e w4) \<and> w_handled (listen i e w4)"
        if "w_mice w4 = (w_mice w)[i := m4]" "w_log w4 = w_log w @ l" "m_bound m4 = []" "m_down m4 \<noteq> None" "m_alive m4"
          "mo_distance m4 = mo_distance ?m" "\<forall>c \<in> set l. about c = None \<or> about c = Some i" "phases i l False = Some (m_started m4)"
          "list_all (far_enough (w_mice w)) l" for w4 m4 l
      proof -
        have "one_step i w (listen i e w4)"
          by (rule one_stepI [where m = "bind_delegate (w_next w4) m4" and l = "l @ [Prevented]"])
            (use that assms(1) quiet in \<open>simp_all add: listen_def on_mouse_def drop_click_def log_call_def Let_def bind_delegate_def
               mouse_ok_def phases_append\<close>)
        then show ?thesis by (simp add: listen_def log_call_def Let_def)
      qed
      show ?thesis
      proof (cases "mo_distance ?m \<le> 0 \<and> m_delay_met m3")
        case False
        have "mouseDown pg i e w = Inr (listen i e w3)"
          using start True no_cancel False unfolding w3_def [symmetric] Let_def m3(1) by auto
        moreover have "one_step i w (listen i e w3) \<and> w_handled (listen i e w3)"
          by (rule listens [OF w3]) (use m3 in simp_all)
        ultimately show ?thesis by blast
      next
        case near: True
        let ?r = "pg_start pg (w_log w3) i e None" and ?w4 = "call_start pg i e None w3"
        have w4: "w_mice ?w4 = (w_mice w)[i := m3\<lparr>m_started := ?r\<rparr>]" "w_log ?w4 = w_log w @ [?c, Start i e None ?r]"
          using assms(1) by (simp_all add: call_start_def on_mouse_def log_call_def w3 Let_def)
        have m4: "mouse_at i ?w4 = m3\<lparr>m_started := ?r\<rparr>" using assms(1) by (simp add: mouse_at_def w4(1))
        have far: "list_all (far_enough (w_mice w)) [?c, Start i e None ?r]" using near by (simp add: mouse_at_def)
        have down: "mouseDown pg i e w = (if ?r then Inr (listen i e ?w4) else Inr (log_call Prevented ?w4))"
          using start True no_cancel near unfolding w3_def [symmetric] Let_def m3(1) m4 by simp
        show ?thesis
        proof (cases ?r)
          case True
          have "one_step i w (listen i e ?w4) \<and> w_handled (listen i e ?w4)"
            by (rule listens [OF w4]) (use m3 far True in simp_all)
          then show ?thesis using down True by auto
        next
          case False
          have "one_step i w (log_call Prevented ?w4)"
            by (rule one_stepI [where m = "m3\<lparr>m_started := ?r\<rparr>" and l = "[?c, Start i e None ?r, Prevented]"])
              (use w4 m3 far False quiet in \<open>simp_all add: log_call_def mouse_ok_def\<close>)
          then show ?thesis using down False m4 m3(3) by (simp add: bound_at_def mouse_at_def log_call_def)
        qed
      qed
    qed
  qed
qed

text \<open>A move at the widget that listens.\<close>

lemma mouseMove_step:
  assumes "i < length (w_mice w)" "mouse_ok (mouse_at i w)" "bound_at i w"
  shows "\<exists>b w1. mouseMove pg i e w = Inr (b, w1) \<and> one_step i w w1 \<and> (bound_at i w1 \<longrightarrow> w_handled w1 = w_handled w)"
proof (cases "m_moved (mouse_at i w) \<and> (pg_old_ie pg \<and> ev_button e = 0 \<or> ev_which e = 0)")
  case True
  then show ?thesis using mouseUp_step [OF assms, of e] by (auto simp: mouseMove_def)
next
  case no_up: False
  define m where "m = (if ev_which e \<noteq> 0 \<or> ev_button e \<noteq> 0 then (mouse_at i w)\<lparr>m_moved := True\<rparr> else mouse_at i w)"
  let ?w = "note_move i e w"
  have "m_down m \<noteq> None" using assms(2,3) by (auto simp: mouse_ok_def bound_at_def m_def)
  then obtain d where d: "m_down m = Some d" by blast
  have w: "w_mice ?w = (w_mice w)[i := m]" "w_log ?w = w_log w" "w_handled ?w = w_handled w"
    by (simp_all add: note_move_def on_mouse_def m_def mouse_at_def)
  have m: "mouse_at i ?w = m" "mouse_ok m" "mo_distance m = mo_distance (mouse_at i w)" "m_started m = m_started (mouse_at i w)"
    "m_bound m = m_bound (mouse_at i w)"
    using assms(1,2) by (simp_all add: mouse_at_def w(1)) (simp_all add: m_def mouse_ok_def mouse_at_def)
  show ?thesis
  proof (cases "m_started m")
    case True
    have "mouseMove pg i e w = Inr (True, log_call Prevented (log_call (Drag i e) ?w))"
      unfolding mouseMove_def Let_def m(1) using no_up True by auto
    moreover have "one_step i w (log_call Prevented (log_call (Drag i e) ?w))"
      by (rule one_stepI [where m = m and l = "[Drag i e, Prevented]"]) (use w m True in \<open>simp_all add: log_call_def\<close>)
    moreover have "w_handled (log_call Prevented (log_call (Drag i e) ?w)) = w_handled w" using w by (simp add: log_call_def)
    ultimately show ?thesis by blast
  next
    case still: False
    show ?thesis
    proof (cases "mo_distance m \<le> distance_of d e \<and> m_delay_met m")
      case False
      have "mouseMove pg i e w = Inr (True, ?w)"
        unfolding mouseMove_def Let_def m(1) mouseDistanceMet_def d using no_up still False m(1) by auto
      moreover have "one_step i w ?w" by (rule one_stepI [where m = m and l = "[]"]) (use w m in simp_all)
      ultimately show ?thesis using w by blast
    next
      case far: True
      let ?r = "pg_start pg (w_log ?w) i d (Some e)" and ?w2 = "call_start pg i d (Some e) ?w"
      have w2: "w_mice ?w2 = (w_mice w)[i := m\<lparr>m_started := ?r\<rparr>]" "w_log ?w2 = w_log w @ [Start i d (Some e) ?r]"
        "w_handled ?w2 = w_handled w"
        using assms(1) by (simp_all add: call_start_def on_mouse_def log_call_def w Let_def)
      have m2: "mouse_at i ?w2 = m\<lparr>m_started := ?r\<rparr>" using assms(1) by (simp add: mouse_at_def w2(1))
      have ok2: "mouse_ok (m\<lparr>m_started := ?r\<rparr>)" using m(2,5) assms(3) by (auto simp: mouse_ok_def bound_at_def)
      have far1: "far_enough (w_mice w) (Start i d (Some e) ?r)" using far m(3) by (simp add: mouse_at_def)
      have move: "mouseMove pg i e w = (if ?r then Inr (\<not> m_started (mouse_at i (log_call (Drag i e) ?w2)), log_call (Drag i e) ?w2)
          else js_bind (js_bind (mouseUp i e ?w2) (\<lambda>(_, w3). Inr w3)) (\<lambda>w3. Inr (\<not> m_started (mouse_at i w3), w3)))"
        unfolding mouseMove_def Let_def m(1) mouseDistanceMet_def d using no_up still far m2 by auto
      show ?thesis
      proof (cases ?r)
        case True
        have "one_step i w (log_call (Drag i e) ?w2)"
          by (rule one_stepI [where m = "m\<lparr>m_started := ?r\<rparr>" and l = "[Start i d (Some e) ?r, Drag i e]"])
            (use w2 m ok2 far1 still True in \<open>simp_all add: log_call_def\<close>)
        moreover have "w_handled (log_call (Drag i e) ?w2) = w_handled w" using w2 by (simp add: log_call_def)
        ultimately show ?thesis using move True by auto
      next
        case False
        have len: "i < length (w_mice ?w2)" using assms(1) by (simp add: w2(1))
        have d2: "m_down (mouse_at i ?w2) = Some d" using d m2 by simp
        have ok: "mouse_ok (mouse_at i ?w2)" using m2 ok2 by simp
        have bd: "bound_at i ?w2" using m2 m(5) assms(3) by (simp add: bound_at_def)
        obtain w3 where w3: "mouseUp i e ?w2 = Inr (False, w3)" "w_mice w3 = (w_mice ?w2)[i := (mouse_at i ?w2)\<lparr>m_bound := [], m_started := False\<rparr>]"
          "w_log w3 = w_log ?w2 @ (if m_started (mouse_at i ?w2) then [Stop i e] else [])"
          using mouseUp_result [OF len ok d2 bd, of e] by blast
        have at: "mouse_at i w3 = m\<lparr>m_bound := [], m_started := False\<rparr>"
          using assms(1) by (simp add: mouse_at_def w3(2) w2(1))
        have "one_step i w w3"
          by (rule one_stepI [where m = "m\<lparr>m_bound := [], m_started := False\<rparr>" and l = "[Start i d (Some e) ?r]"])
            (use w2 w3 m m2 far1 still False in \<open>simp_all add: mouse_ok_def\<close>)
        moreover have "mouseMove pg i e w = Inr (True, w3)" using move False w3(1) at by simp
        moreover have "\<not> bound_at i w3" using at by (simp add: bound_at_def)
        ultimately show ?thesis by blast
      qed
    qed
  qed
qed

section \<open>The page\<close>

lemma concat_singles: "concat (map (\<lambda>x. if P x then [x] else []) xs) = filter P xs"
  by (induction xs) simp_all

lemma listeners_filter:
  assumes "mice_ok w"
  shows "listeners w = filter (\<lambda>i. bound_at i w) [0..<length (w_mice w)]"
proof -
  have eq: "replicate (length (m_bound (mouse_at i w))) i = (if bound_at i w then [i] else [])" if "i \<in> set [0..<length (w_mice w)]" for i
    using assms that by (auto simp: mice_ok_def mouse_ok_def bound_at_def)
  have "listeners w = concat (map (\<lambda>i. if bound_at i w then [i] else []) [0..<length (w_mice w)])"
    unfolding listeners_def by (rule arg_cong [OF map_cong [OF refl eq]])
  also have "\<dots> = filter (\<lambda>i. bound_at i w) [0..<length (w_mice w)]"
    by (rule concat_singles)
  finally show ?thesis .
qed

text \<open>At most one widget listens.\<close>

lemma listeners_cases:
  assumes "mice_ok w"
  obtains (none) "listeners w = []" "\<And>i. i < length (w_mice w) \<Longrightarrow> \<not> bound_at i w"
    | (one) i where "i < length (w_mice w)" "listeners w = [i]" "bound_at i w"
        "\<And>j. j < length (w_mice w) \<Longrightarrow> j \<noteq> i \<Longrightarrow> \<not> bound_at j w"
proof (cases "\<exists>i < length (w_mice w). bound_at i w")
  case True
  then obtain i where i: "i < length (w_mice w)" "bound_at i w" by blast
  have only: "\<And>j. j < length (w_mice w) \<Longrightarrow> bound_at j w \<longleftrightarrow> j = i" using assms i unfolding mice_ok_def by blast
  then have "listeners w = filter (\<lambda>j. j = i) [0..<length (w_mice w)]"
    unfolding listeners_filter [OF assms] by (intro filter_cong) auto
  then show thesis using one [OF i(1) _ i(2)] only filter_upt_single [OF i(1)] by simp
next
  case False
  then show thesis using none unfolding listeners_filter [OF assms] by (auto simp: filter_empty_conv)
qed

lemma held_step:
  assumes "held w" "one_step i w w1" "i < length (w_mice w)" "bound_at i w1 \<longrightarrow> w_handled w1"
    "\<And>j. j < length (w_mice w) \<Longrightarrow> j \<noteq> i \<Longrightarrow> \<not> bound_at j w"
  shows "held w1"
proof -
  have len: "length (w_mice w1) = length (w_mice w)" using one_step_mice(1) [OF assms(2,3)] by (metis length_map)
  have "w_handled w1" if "j < length (w_mice w)" "bound_at j w1" for j
    using that assms(4) assms(5) [of j] one_step_mice(2) [OF assms(2,3), of j] unfolding bound_at_def by (cases "j = i") auto
  then show ?thesis unfolding held_def len by blast
qed

text \<open>The distances are options: they stay.\<close>

definition minv_of :: "rat list \<Rightarrow> mworld \<Rightarrow> bool" where
  "minv_of ds w \<longleftrightarrow> minv w \<and> map mo_distance (w_mice w) = ds"

lemma minv_of_length: "minv_of ds w \<Longrightarrow> length (w_mice w) = length ds"
  unfolding minv_of_def by (metis length_map)

lemma minv_of_step:
  assumes "minv_of ds w" "i < length ds" "one_step i w w1" "bound_at i w1 \<longrightarrow> w_handled w1"
    "\<And>j. j < length ds \<Longrightarrow> j \<noteq> i \<Longrightarrow> \<not> bound_at j w"
  shows "minv_of ds w1"
proof -
  note len = minv_of_length [OF assms(1)]
  have i: "i < length (w_mice w)" using assms(2) len by simp
  have "mice_ok w1" by (rule mice_ok_step [OF _ i assms(3)]) (use assms(1,5) len in \<open>auto simp: minv_of_def minv_def\<close>)
  moreover have "held w1" by (rule held_step [OF _ assms(3) i assms(4)]) (use assms(1,5) len in \<open>auto simp: minv_of_def minv_def\<close>)
  ultimately show ?thesis using assms(1) one_step_mice(1) [OF assms(3) i] by (simp add: minv_of_def minv_def)
qed

lemma minv_of_cong:
  "w_mice w1 = w_mice w \<Longrightarrow> w_log w1 = w_log w \<Longrightarrow> w_handled w1 = w_handled w \<Longrightarrow> minv_of ds w1 = minv_of ds w"
  using mice_ok_cong [of w1 w] by (simp add: minv_of_def minv_def held_def bound_at_def mouse_at_def)

lemma minv_of_prevented: "minv_of ds (log_call Prevented w) = minv_of ds w"
  using mice_ok_prevented by (simp add: minv_of_def minv_def held_def bound_at_def mouse_at_def log_call_def)

lemma press_keeps:
  "minv_of ds w \<Longrightarrow> \<forall>i \<in> set is. i < length ds \<Longrightarrow> \<exists>w1. press_path pg is e w = Inr w1 \<and> minv_of ds w1"
proof (induction "is" arbitrary: w)
  case (Cons i "is")
  have i: "i < length ds" "i < length (w_mice w)" using Cons.prems minv_of_length [OF Cons.prems(1)] by auto
  have "\<exists>w1. (if m_alive (mouse_at i w) then mouseDown pg i e w else Inr w) = Inr w1 \<and> minv_of ds w1"
  proof (cases "m_alive (mouse_at i w) \<and> \<not> w_handled w")
    case True
    have nobody: "\<not> bound_at j w" if "j < length ds" for j
      using Cons.prems(1) True that minv_of_length [OF Cons.prems(1)] by (auto simp: minv_of_def minv_def held_def)
    have ok: "mouse_ok (mouse_at i w)" using Cons.prems(1) i by (simp add: minv_of_def minv_def mice_ok_def)
    from mouseDown_step [OF i(2) ok nobody [OF i(1)], of pg e] True obtain w1 where w1: "mouseDown pg i e w = Inr w1" "one_step i w w1" "bound_at i w1 \<longrightarrow> w_handled w1" by blast
    then show ?thesis using minv_of_step [OF Cons.prems(1) i(1) w1(2,3) nobody] True by simp
  next
    case False
    then show ?thesis using Cons.prems(1) by (auto simp: mouseDown_def)
  qed
  then show ?case using Cons.IH Cons.prems(2) by fastforce
qed simp

lemma move_keeps:
  assumes "minv_of ds w"
  shows "\<exists>w1. tell (\<lambda>i. mouseMove pg i e) (listeners w) w = Inr w1 \<and> minv_of ds w1"
proof -
  have ok: "mice_ok w" using assms by (simp add: minv_of_def minv_def)
  note len = minv_of_length [OF assms]
  from ok show ?thesis
  proof (cases rule: listeners_cases)
    case none
    then show ?thesis using assms by simp
  next
    case (one i)
    have "mouse_ok (mouse_at i w)" using ok one(1) by (simp add: mice_ok_def)
    from mouseMove_step [OF one(1) this one(3), of pg e] obtain b w1
      where w1: "mouseMove pg i e w = Inr (b, w1)" "one_step i w w1" "bound_at i w1 \<longrightarrow> w_handled w1 = w_handled w" by blast
    have "w_handled w" using assms one(1,3) by (auto simp: minv_of_def minv_def held_def)
    then have "minv_of ds w1" using minv_of_step [OF assms _ w1(2)] w1(3) one(1,4) len by auto
    then show ?thesis using one(2) w1(1) by (simp add: answered_def minv_of_prevented)
  qed
qed

text \<open>A release reaches the one that listens, and leaves none.\<close>

lemma release_result:
  assumes "minv_of ds w"
  shows "\<exists>w1. tell (\<lambda>i. mouseUp i e) (listeners w) (w\<lparr>w_handled := False\<rparr>) = Inr w1 \<and> minv_of ds w1 \<and> \<not> w_handled w1 \<and>
    (\<forall>i < length ds. \<not> bound_at i w1) \<and> (\<forall>i < length ds. m_started (mouse_at i w) \<and> m_alive (mouse_at i w) \<longrightarrow> w_log w1 = w_log w @ [Stop i e, Prevented])"
proof -
  let ?w = "w\<lparr>w_handled := False\<rparr>"
  have ok: "mice_ok w" using assms by (simp add: minv_of_def minv_def)
  note len = minv_of_length [OF assms]
  have started: "bound_at i w" if "i < length ds" "m_started (mouse_at i w)" "m_alive (mouse_at i w)" for i
    using ok that len by (auto simp: mice_ok_def mouse_ok_def bound_at_def)
  have same: "mouse_at i ?w = mouse_at i w" "bound_at i ?w = bound_at i w" for i by (simp_all add: mouse_at_def bound_at_def)
  have ok1: "mice_ok ?w" using ok mice_ok_cong [of ?w w] by simp
  from ok show ?thesis
  proof (cases rule: listeners_cases)
    case none
    have "minv_of ds ?w" using assms ok1 none(2) same by (simp add: minv_of_def minv_def held_def)
    then show ?thesis using none len same started by auto
  next
    case (one i)
    have i: "i < length (w_mice ?w)" "mouse_ok (mouse_at i ?w)" "bound_at i ?w" using one(1,3) ok by (simp_all add: same mice_ok_def)
    from mouseUp_step [OF i, of e] obtain w1 where w1: "mouseUp i e ?w = Inr (False, w1)" "one_step i ?w w1" "\<not> bound_at i w1"
      "\<not> w_handled w1" "w_log w1 = w_log ?w @ (if m_started (mouse_at i ?w) then [Stop i e] else [])" by blast
    have nobody: "\<not> bound_at j w1" if "j < length ds" for j
      using that one(4) w1(3) len one_step_mice(2) [OF w1(2) i(1)] same by (cases "j = i") (auto simp: bound_at_def)
    have m1: "mice_ok w1" by (rule mice_ok_step [OF ok1 i(1) w1(2)]) (use w1(3) in simp)
    have d1: "map mo_distance (w_mice w1) = ds" using one_step_mice(1) [OF w1(2) i(1)] assms by (simp add: minv_of_def)
    have len1: "length (w_mice w1) = length ds" using arg_cong [OF d1, of length] by simp
    have "minv_of ds w1" unfolding minv_of_def minv_def held_def len1 using m1 d1 nobody by blast
    moreover have "w_log w1 = w_log w @ [Stop j e]" if "j < length ds" "m_started (mouse_at j w)" "m_alive (mouse_at j w)" for j
      using started [OF that] that one(4) len w1(5) same by (cases "j = i") auto
    ultimately show ?thesis
      using one(2) w1(1,4) nobody
      by (auto simp: answered_def minv_of_prevented) (auto simp: log_call_def bound_at_def mouse_at_def)
  qed
qed

section \<open>All events\<close>

primrec valid_mstep :: "nat \<Rightarrow> mstep \<Rightarrow> bool" where
  "valid_mstep n (Press is e) = (\<forall>i \<in> set is. i < n)"
| "valid_mstep n (Move e) = True"
| "valid_mstep n (Release e) = True"
| "valid_mstep n (Elapsed t) = True"
| "valid_mstep n (Click is t) = True"
| "valid_mstep n (Destroy i) = (i < n)"

lemma delay_keeps: "minv_of ds w \<Longrightarrow> minv_of ds (on_mouse i (\<lambda>m. m\<lparr>m_delay_met := True\<rparr>) w)"
proof -
  assume inv: "minv_of ds w"
  let ?w = "on_mouse i (\<lambda>m. m\<lparr>m_delay_met := True\<rparr>) w"
  have at: "mouse_at j ?w = (if j = i \<and> i < length (w_mice w) then (mouse_at j w)\<lparr>m_delay_met := True\<rparr> else mouse_at j w)" for j
    by (cases "i < length (w_mice w)") (auto simp: mouse_at_def on_mouse_def nth_list_update list_update_beyond)
  have dj: "mo_distance (w_mice ?w ! j) = mo_distance (w_mice w ! j)" for j using at [of j] by (simp add: mouse_at_def split: if_splits)
  have dist: "map mo_distance (w_mice ?w) = map mo_distance (w_mice w)"
    by (rule nth_equalityI) (use dj in \<open>simp_all add: on_mouse_def\<close>)
  have len: "length (w_mice ?w) = length (w_mice w)" "w_log ?w = w_log w" "w_handled ?w = w_handled w" by (simp_all add: on_mouse_def)
  have bound: "bound_at j ?w = bound_at j w" "mouse_ok (mouse_at j ?w) = mouse_ok (mouse_at j w)"
    "m_started (mouse_at j ?w) = m_started (mouse_at j w)" for j
    by (simp_all add: bound_at_def at mouse_ok_def)
  have far: "far_enough (w_mice ?w) = far_enough (w_mice w)"
  proof
    show "far_enough (w_mice ?w) c = far_enough (w_mice w) c" for c using far_enough_cong [OF len(1)] dj by blast
  qed
  show ?thesis using inv dist unfolding minv_of_def minv_def mice_ok_def held_def len bound far by blast
qed

lemma destroy_keeps:
  assumes "minv_of ds w" "i < length ds"
  shows "minv_of ds (mouseDestroy i w)"
proof -
  let ?w = "mouseDestroy i w" and ?m = "(mouse_at i w)\<lparr>m_alive := False, m_bound := []\<rparr>"
  note len = minv_of_length [OF assms(1)]
  have ok: "mouse_ok (mouse_at i w)" using assms len by (simp add: minv_of_def minv_def mice_ok_def)
  have w: "w_mice ?w = (w_mice w)[i := ?m]" "w_log ?w = w_log w @ []"
    using ok assms(2) len by (cases "mouse_at i w"; auto simp: mouseDestroy_def on_mouse_def mouse_at_def mouse_ok_def unbind_delegate_def Let_def split: option.split)+
  have "one_step i w ?w" by (rule one_stepI [OF w]) (simp_all add: mouse_ok_def)
  moreover have "\<not> bound_at i ?w" using assms(2) len by (simp add: bound_at_def mouse_at_def w(1))
  ultimately have "mice_ok ?w" using mice_ok_step [of w i ?w] assms len by (simp add: minv_of_def minv_def)
  moreover have "w_handled ?w = w_handled w" by (simp add: mouseDestroy_def on_mouse_def unbind_delegate_def Let_def split: option.split)
  then have "held ?w"
    using assms len \<open>\<not> bound_at i ?w\<close> one_step_mice(2) [OF \<open>one_step i w ?w\<close>] one_step_mice(1) [OF \<open>one_step i w ?w\<close>]
    unfolding held_def minv_of_def minv_def bound_at_def by (metis length_map)
  ultimately show ?thesis using assms len one_step_mice(1) [OF \<open>one_step i w ?w\<close>] by (simp add: minv_of_def minv_def)
qed

lemma click_keeps: "minv_of ds w \<Longrightarrow> minv_of ds (snd (click_path is t w))"
proof (induction "is")
  case (Cons i "is")
  have "minv_of ds (log_call Prevented (drop_click t i w))"
    using Cons.prems minv_of_cong [of "drop_click t i w" w] by (simp add: minv_of_prevented drop_click_def)
  then show ?case using Cons by simp
qed simp

lemma mstep_keeps:
  assumes "minv_of ds w" "valid_mstep (length ds) s"
  shows "\<exists>w1. run_mstep pg s w = Inr w1 \<and> minv_of ds w1"
proof (cases s)
  case (Press "is" e)
  then show ?thesis using press_keeps assms by (simp add: run_mstep_def)
next
  case (Move e)
  then show ?thesis using move_keeps assms by (simp add: run_mstep_def)
next
  case (Release e)
  then show ?thesis using release_result [OF assms(1), of e] by (auto simp: run_mstep_def)
next
  case (Elapsed t)
  have "minv_of ds (w\<lparr>w_timers := ts\<rparr>)" for ts using assms(1) minv_of_cong [of "w\<lparr>w_timers := ts\<rparr>" w] by simp
  then show ?thesis using Elapsed assms(1) delay_keeps by (simp add: run_mstep_def split: option.split)
next
  case (Click "is" t)
  then show ?thesis using click_keeps assms(1) by (simp add: run_mstep_def)
next
  case (Destroy i)
  then show ?thesis using destroy_keeps assms by (simp add: run_mstep_def)
qed

lemma msteps_keep:
  "minv_of ds w \<Longrightarrow> list_all (valid_mstep (length ds)) ss \<Longrightarrow> \<exists>w1. run_msteps pg ss w = Inr w1 \<and> minv_of ds w1"
proof (induction ss arbitrary: w)
  case (Cons s ss)
  from mstep_keeps [OF Cons.prems(1), of s pg] Cons.prems(2) obtain w1 where "run_mstep pg s w = Inr w1" "minv_of ds w1" by auto
  then show ?case using Cons.IH [of w1] Cons.prems(2) by simp
qed simp

definition widgets :: "(string \<times> rat \<times> nat) list \<Rightarrow> mworld" where
  "widgets os = mouse_page (map (\<lambda>(s, d, t). new_mouse s d t) os)"

lemma widgets_inv: "minv_of (map (fst \<circ> snd) os) (widgets os)"
proof -
  have "minv (widgets os)" unfolding widgets_def by (rule fresh_ok) (auto simp: list_all_iff)
  then show ?thesis by (auto simp: minv_of_def widgets_def mouse_page_def new_mouse_def split: prod.split)
qed

lemma minv_started:
  assumes "minv_of ds w"
  shows "i < length ds \<Longrightarrow> phases i (w_log w) False = Some (m_started (mouse_at i w))"
    "i < length ds \<Longrightarrow> j < length ds \<Longrightarrow> m_started (mouse_at i w) \<Longrightarrow> m_alive (mouse_at i w) \<Longrightarrow> m_started (mouse_at j w) \<Longrightarrow>
      m_alive (mouse_at j w) \<Longrightarrow> i = j"
proof -
  note len = minv_of_length [OF assms]
  have ok: "mice_ok w" using assms by (simp add: minv_of_def minv_def)
  show "i < length ds \<Longrightarrow> phases i (w_log w) False = Some (m_started (mouse_at i w))" using ok len by (simp add: mice_ok_def)
  show "i < length ds \<Longrightarrow> j < length ds \<Longrightarrow> m_started (mouse_at i w) \<Longrightarrow> m_alive (mouse_at i w) \<Longrightarrow> m_started (mouse_at j w) \<Longrightarrow>
      m_alive (mouse_at j w) \<Longrightarrow> i = j"
  proof -
    assume h: "i < length ds" "j < length ds" "m_started (mouse_at i w)" "m_alive (mouse_at i w)" "m_started (mouse_at j w)" "m_alive (mouse_at j w)"
    have "mouse_ok (mouse_at i w)" "mouse_ok (mouse_at j w)" using ok len h(1,2) by (simp_all add: mice_ok_def)
    then have "bound_at i w" "bound_at j w" using h by (simp_all add: mouse_ok_def bound_at_def)
    then show "i = j" using ok len h(1,2) by (simp add: mice_ok_def)
  qed
qed

text \<open>C10: On a page of draggable widgets, whatever is pressed, moved, released, clicked and destroyed, in
  any order, and whatever the widgets answer, nothing is thrown; every widget is called in the order start,
  drags, stop; only one is in motion at a time; and none is started before the mouse has gone its distance: by a move only that far
  from the press, and by the press itself only if the distance is 0 (or less).\<close>
theorem mouse_protocol:
  assumes "list_all (valid_mstep (length os)) ss"
  shows "\<exists>w. run_msteps pg ss (widgets os) = Inr w \<and>
    (\<forall>i < length os. phases i (w_log w) False = Some (m_started (mouse_at i w))) \<and>
    (\<forall>i < length os. \<forall>j < length os. m_started (mouse_at i w) \<and> m_alive (mouse_at i w) \<and> m_started (mouse_at j w) \<and> m_alive (mouse_at j w) \<longrightarrow> i = j) \<and>
    (\<forall>i < length os. \<forall>d e r. Start i d (Some e) r \<in> set (w_log w) \<longrightarrow> fst (snd (os ! i)) \<le> distance_of d e) \<and>
    (\<forall>i < length os. \<forall>d r. Start i d None r \<in> set (w_log w) \<longrightarrow> fst (snd (os ! i)) \<le> 0)"
proof -
  obtain w where w: "run_msteps pg ss (widgets os) = Inr w" "minv_of (map (fst \<circ> snd) os) w"
    using msteps_keep [OF widgets_inv, of os ss pg] assms by auto
  note st = minv_started [OF w(2), simplified]
  have far: "case e of None \<Rightarrow> fst (snd (os ! i)) \<le> 0 | Some e1 \<Rightarrow> fst (snd (os ! i)) \<le> distance_of d e1"
    if i: "i < length os" "Start i d e r \<in> set (w_log w)" for i d e r
  proof -
    have "far_enough (w_mice w) (Start i d e r)"
      using w(2) i(2) by (auto simp: minv_of_def minv_def mice_ok_def list_all_iff)
    moreover have "mo_distance (w_mice w ! i) = fst (snd (os ! i))"
    proof -
      have "map mo_distance (w_mice w) ! i = map (fst \<circ> snd) os ! i" using w(2) unfolding minv_of_def by simp
      then show ?thesis using minv_of_length [OF w(2)] i(1) by simp
    qed
    ultimately show ?thesis by (simp split: option.splits)
  qed
  have "\<forall>i < length os. \<forall>d e r. Start i d (Some e) r \<in> set (w_log w) \<longrightarrow> fst (snd (os ! i)) \<le> distance_of d e"
    "\<forall>i < length os. \<forall>d r. Start i d None r \<in> set (w_log w) \<longrightarrow> fst (snd (os ! i)) \<le> 0"
    using far by fastforce+
  moreover have "\<forall>i < length os. \<forall>j < length os. m_started (mouse_at i w) \<and> m_alive (mouse_at i w) \<and> m_started (mouse_at j w) \<and> m_alive (mouse_at j w) \<longrightarrow> i = j"
    by (intro allI impI, elim conjE) (rule st(2))
  ultimately show ?thesis using w(1) st(1) by (intro exI [of _ w]) simp
qed

definition at_point :: "nat \<Rightarrow> rat \<Rightarrow> rat \<Rightarrow> mev" where
  "at_point which x y = \<lparr>ev_which = which, ev_button = 0, ev_x = x, ev_y = y, ev_target = 7\<rparr>"

definition willing_page :: mpage where
  "willing_page = \<lparr>pg_old_ie = False, pg_cancels = (\<lambda>_ _. False), pg_capture = (\<lambda>_ _ _. True), pg_start = (\<lambda>_ _ _ _. True)\<rparr>"

definition two_widgets :: "(string \<times> rat \<times> nat) list" where
  "two_widgets = [(''draggable'', 1, 0), (''resizable'', 5, 0)]"

definition one_drag :: "mstep list" where
  "one_drag = [Press [1, 0] (at_point 1 10 10), Move (at_point 1 10 11), Move (at_point 1 20 10)]"

lemma mouse_protocol_witness:
  "\<exists>w. run_msteps willing_page one_drag (widgets two_widgets) = Inr w \<and> phases 1 (w_log w) False = Some True \<and> m_started (mouse_at 1 w)"
proof -
  have v: "list_all (valid_mstep (length two_widgets)) one_drag" by (simp add: one_drag_def two_widgets_def)
  have r: "case run_msteps willing_page one_drag (widgets two_widgets) of Inl e \<Rightarrow> False | Inr w \<Rightarrow> m_started (mouse_at 1 w)" by code_simp
  show ?thesis using mouse_protocol [OF v, of willing_page] r by (auto simp: two_widgets_def)
qed

text \<open> When the mouse is released over the document nothing is left in motion: the widget that was
  started is told to stop, no widget listens any more and the next press is taken.\<close>
theorem release_settles:
  assumes "list_all (valid_mstep (length os)) ss" "run_msteps pg ss (widgets os) = Inr w"
  shows "\<exists>w1. run_mstep pg (Release e) w = Inr w1 \<and> \<not> w_handled w1 \<and>
    (\<forall>i < length os. m_bound (mouse_at i w1) = [] \<and> \<not> (m_started (mouse_at i w1) \<and> m_alive (mouse_at i w1))) \<and>
    (\<forall>i < length os. m_started (mouse_at i w) \<and> m_alive (mouse_at i w) \<longrightarrow> w_log w1 = w_log w @ [Stop i e, Prevented])"
proof -
  have inv: "minv_of (map (fst \<circ> snd) os) w" using msteps_keep [OF widgets_inv, of os ss pg] assms by auto
  obtain w1 where w1: "run_mstep pg (Release e) w = Inr w1" "minv_of (map (fst \<circ> snd) os) w1" "\<not> w_handled w1" "\<forall>i < length os. \<not> bound_at i w1"
    "\<forall>i < length os. m_started (mouse_at i w) \<and> m_alive (mouse_at i w) \<longrightarrow> w_log w1 = w_log w @ [Stop i e, Prevented]"
    using release_result [OF inv, of e] by (auto simp: run_mstep_def)
  have "m_bound (mouse_at i w1) = [] \<and> \<not> (m_started (mouse_at i w1) \<and> m_alive (mouse_at i w1))" if "i < length os" for i
    using w1(2,4) that minv_of_length [OF w1(2)] by (auto simp: bound_at_def minv_of_def minv_def mice_ok_def mouse_ok_def)
  then show ?thesis using w1 by blast
qed

lemma release_settles_witness:
  "\<exists>w w1. run_msteps willing_page one_drag (widgets two_widgets) = Inr w \<and> run_mstep willing_page (Release (at_point 1 20 10)) w = Inr w1 \<and>
    w_log w1 = w_log w @ [Stop 1 (at_point 1 20 10), Prevented]"
proof -
  have v: "list_all (valid_mstep (length two_widgets)) one_drag" by (simp add: one_drag_def two_widgets_def)
  have r: "case run_msteps willing_page one_drag (widgets two_widgets) of Inl e \<Rightarrow> False
    | Inr w \<Rightarrow> m_started (mouse_at 1 w) \<and> m_alive (mouse_at 1 w)" by code_simp
  obtain w where w: "run_msteps willing_page one_drag (widgets two_widgets) = Inr w"
    using r by (cases "run_msteps willing_page one_drag (widgets two_widgets)") auto
  have "m_started (mouse_at 1 w) \<and> m_alive (mouse_at 1 w)" using r unfolding w by simp
  then show ?thesis using release_settles [OF v w, of "at_point 1 20 10"] w by (auto simp: two_widgets_def)
qed

text \<open>The timer of the delay is not stopped by the release: a second press is taken for old when the timer of
  the first one runs out, and the drag starts though its own has not.\<close>
lemma stale_delay_starts:
  "case run_msteps willing_page [Press [0] (at_point 1 10 10), Release (at_point 1 10 10), Press [0] (at_point 1 10 10), Elapsed 0,
      Move (at_point 1 20 10)] (widgets [(''draggable'', 1, 300)]) of Inl e \<Rightarrow> False
    | Inr w \<Rightarrow> m_started (mouse_at 0 w) \<and> w_timers w \<noteq> []"
  by code_simp

end
