(* ===== verification/UI_Position.thy ===== *)
theory UI_Position
  imports JS_Text
begin

text \<open>
  The placing of elements (\<open>position\<close>, jquery-ui.js): the texts of the options \<open>my\<close>, \<open>at\<close> and
  \<open>collision\<close>, the point they give, and what is done when an element does not fit (\<open>fit\<close>, \<open>flip\<close>,
  \<open>flipfit\<close>). What the browser measures (sizes, offsets, margins, the width of a scrollbar) is the input;
  numbers are exact.
\<close>

section \<open>The texts\<close>

fun split_blank :: "string \<Rightarrow> string list" where
  "split_blank [] = [[]]"
| "split_blank (c # cs) =
     (if c = CHR '' '' then [] # split_blank cs
      else case split_blank cs of [] \<Rightarrow> [[c]] | w # ws \<Rightarrow> (c # w) # ws)"

definition word_char :: "char \<Rightarrow> bool" where
  "word_char c \<longleftrightarrow> is_digit c \<or> c = CHR ''_'' \<or> (65 \<le> (of_char c :: int) \<and> (of_char c :: int) \<le> 90) \<or>
     (97 \<le> (of_char c :: int) \<and> (of_char c :: int) \<le> 122)"

definition occurs :: "string \<Rightarrow> string \<Rightarrow> bool" where
  "occurs w s \<longleftrightarrow> search (lit w) s \<noteq> None"

definition rhorizontal :: "string \<Rightarrow> bool" where
  "rhorizontal s \<longleftrightarrow> occurs ''left'' s \<or> occurs ''center'' s \<or> occurs ''right'' s"

definition rvertical :: "string \<Rightarrow> bool" where
  "rvertical s \<longleftrightarrow> occurs ''top'' s \<or> occurs ''center'' s \<or> occurs ''bottom'' s"

text \<open>\<open>roffset\<close> at the head of a text, \<open>rposition\<close> and \<open>rpercent\<close>.\<close>

definition offset_at :: "string \<Rightarrow> string option" where
  "offset_at s =
     (if s = [] \<or> hd s \<noteq> CHR ''+'' \<and> hd s \<noteq> CHR ''-'' \<or> takeWhile is_digit (tl s) = [] then None
      else let (fs, r) = fraction_text (dropWhile is_digit (tl s)) in
        Some (hd s # takeWhile is_digit (tl s) @ fs @ (if r \<noteq> [] \<and> hd r = CHR ''%'' then ''%'' else [])))"

definition roffset :: "string \<Rightarrow> string option" where
  "roffset s = search offset_at s"

definition rposition :: "string \<Rightarrow> string js" where
  "rposition s = (if takeWhile word_char s = [] then Inl (Throw ''TypeError'') else Inr (takeWhile word_char s))"

definition rpercent :: "string \<Rightarrow> bool" where
  "rpercent s \<longleftrightarrow> s \<noteq> [] \<and> last s = CHR ''%''"

text \<open>An offset as the options give it, in the pixels of a length. The text matched is a number.\<close>

definition getOffset :: "string option \<Rightarrow> rat \<Rightarrow> rat" where
  "getOffset t len =
     (case t of None \<Rightarrow> 0
      | Some s \<Rightarrow> (case parse_float s of None \<Rightarrow> 0 | Some v \<Rightarrow> v * (if rpercent s then len / 100 else 1)))"

definition two_words :: "string list \<Rightarrow> string \<times> string" where
  "two_words pos =
     (case pos of
        [x] \<Rightarrow> if rhorizontal x then (x, ''center'') else if rvertical x then (''center'', x) else (''center'', ''center'')
      | x # y # _ \<Rightarrow> (x, y)
      | [] \<Rightarrow> ([], []))"

record sides =
  s_x :: string
  s_y :: string
  s_dx :: "string option"
  s_dy :: "string option"

definition parse_sides :: "string \<Rightarrow> sides js" where
  "parse_sides t =
     (let (x, y) = two_words (split_blank t); h = (if rhorizontal x then x else ''center''); v = (if rvertical y then y else ''center'') in
      js_bind (rposition h) (\<lambda>px. js_bind (rposition v) (\<lambda>py. Inr \<lparr>s_x = px, s_y = py, s_dx = roffset h, s_dy = roffset v\<rparr>)))"

definition collisions :: "string option \<Rightarrow> string \<times> string" where
  "collisions c =
     (case split_blank (case c of None \<Rightarrow> ''flip'' | Some t \<Rightarrow> if t = [] then ''flip'' else t) of
        [x] \<Rightarrow> (x, x) | x # y # _ \<Rightarrow> (x, y) | [] \<Rightarrow> ([], []))"

section \<open>What is measured\<close>

record within_info =
  in_window :: bool
  in_document :: bool
  in_left :: rat
  in_top :: rat
  in_scrollLeft :: rat
  in_scrollTop :: rat
  in_width :: rat
  in_height :: rat
  in_overflow_x :: string
  in_overflow_y :: string
  in_scrollWidth :: rat
  in_scrollHeight :: rat

definition getScrollInfo :: "rat \<Rightarrow> within_info \<Rightarrow> rat \<times> rat" where
  "getScrollInfo bar wi =
     (let ox = (if in_window wi \<or> in_document wi then [] else in_overflow_x wi);
          oy = (if in_window wi \<or> in_document wi then [] else in_overflow_y wi);
          has_x = (ox = ''scroll'' \<or> ox = ''auto'' \<and> in_width wi < in_scrollWidth wi);
          has_y = (oy = ''scroll'' \<or> oy = ''auto'' \<and> in_height wi < in_scrollHeight wi)
      in (if has_y then bar else 0, if has_x then bar else 0))"

datatype target =
    DocumentTarget rat rat
  | WindowTarget rat rat rat rat
  | EventTarget rat rat
  | ElementTarget rat rat rat rat

record dims =
  d_width :: rat
  d_height :: rat
  d_left :: rat
  d_top :: rat

text \<open>\<open>getDimensions\<close>: a document and a window have a size, the window its scroll, an event its place.\<close>

fun getDimensions :: "target \<Rightarrow> dims" where
  "getDimensions (DocumentTarget w h) = \<lparr>d_width = w, d_height = h, d_left = 0, d_top = 0\<rparr>"
| "getDimensions (WindowTarget w h st sl) = \<lparr>d_width = w, d_height = h, d_left = sl, d_top = st\<rparr>"
| "getDimensions (EventTarget x y) = \<lparr>d_width = 0, d_height = 0, d_left = x, d_top = y\<rparr>"
| "getDimensions (ElementTarget w h l t) = \<lparr>d_width = w, d_height = h, d_left = l, d_top = t\<rparr>"

record elem_size =
  pe_width :: rat
  pe_height :: rat
  pe_marginLeft :: rat
  pe_marginTop :: rat
  pe_marginRight :: rat
  pe_marginBottom :: rat

section \<open>The point\<close>

text \<open>Where a side is in a length: at its end, in its middle or at its start.\<close>

definition side_x :: "string \<Rightarrow> rat \<Rightarrow> rat" where
  "side_x s len = (if s = ''right'' then len else if s = ''center'' then len / 2 else 0)"

definition side_y :: "string \<Rightarrow> rat \<Rightarrow> rat" where
  "side_y s len = (if s = ''bottom'' then len else if s = ''center'' then len / 2 else 0)"

type_synonym point = "rat \<times> rat"

definition base_point :: "dims \<Rightarrow> string \<times> string \<Rightarrow> point \<Rightarrow> point" where
  "base_point d a off = (d_left d + side_x (fst a) (d_width d) + fst off, d_top d + side_y (snd a) (d_height d) + snd off)"

definition start_point :: "elem_size \<Rightarrow> string \<times> string \<Rightarrow> point \<Rightarrow> point \<Rightarrow> point" where
  "start_point e m off b = (fst b - side_x (fst m) (pe_width e) + fst off, snd b - side_y (snd m) (pe_height e) + snd off)"

section \<open>Collisions\<close>

record collision_data =
  cd_target :: dims
  cd_elem :: elem_size
  cd_width :: rat
  cd_height :: rat
  cd_offset :: point
  cd_my :: "string \<times> string"
  cd_at :: "string \<times> string"
  cd_within :: within_info

text \<open>\<open>fit\<close> on one axis: the start and the size of what it must be within, the margin, and the size with margins.\<close>

definition fit_axis :: "rat \<Rightarrow> rat \<Rightarrow> rat \<Rightarrow> rat \<Rightarrow> rat \<Rightarrow> rat" where
  "fit_axis start outer margin len p =
     (let c = p - margin; over1 = start - c; over2 = c + len - outer - start in
      if len > outer then
        if over1 > 0 \<and> over2 \<le> 0 then p + (over1 - (p + over1 + len - outer - start))
        else if over2 > 0 \<and> over1 \<le> 0 then start
        else if over1 > over2 then start + outer - len else start
      else if over1 > 0 then p + over1
      else if over2 > 0 then p - over2
      else max (p - c) p)"

definition within_x :: "within_info \<Rightarrow> rat" where
  "within_x wi = (if in_window wi then in_scrollLeft wi else in_left wi)"

definition within_y :: "within_info \<Rightarrow> rat" where
  "within_y wi = (if in_window wi then in_scrollTop wi else in_top wi)"

definition fit_left :: "collision_data \<Rightarrow> point \<Rightarrow> point" where
  "fit_left d p = (fit_axis (within_x (cd_within d)) (in_width (cd_within d)) (pe_marginLeft (cd_elem d)) (cd_width d) (fst p), snd p)"

definition fit_top :: "collision_data \<Rightarrow> point \<Rightarrow> point" where
  "fit_top d p = (fst p, fit_axis (within_y (cd_within d)) (in_height (cd_within d)) (pe_marginTop (cd_elem d)) (cd_height d) (snd p))"

text \<open>\<open>myOffset + atOffset + offset\<close>: the way to the opposite side.\<close>

definition shift_x :: "collision_data \<Rightarrow> rat" where
  "shift_x d =
     (if fst (cd_my d) = ''left'' then - pe_width (cd_elem d) else if fst (cd_my d) = ''right'' then pe_width (cd_elem d) else 0) +
     (if fst (cd_at d) = ''left'' then d_width (cd_target d) else if fst (cd_at d) = ''right'' then - d_width (cd_target d) else 0) +
     - 2 * fst (cd_offset d)"

definition shift_y :: "collision_data \<Rightarrow> rat" where
  "shift_y d =
     (if snd (cd_my d) = ''top'' then - pe_height (cd_elem d) else if snd (cd_my d) = ''bottom'' then pe_height (cd_elem d) else 0) +
     (if snd (cd_at d) = ''top'' then d_height (cd_target d) else if snd (cd_at d) = ''bottom'' then - d_height (cd_target d) else 0) +
     - 2 * snd (cd_offset d)"

definition flip_left :: "collision_data \<Rightarrow> point \<Rightarrow> point" where
  "flip_left d p =
     (let wi = cd_within d; withinOffset = in_left wi + in_scrollLeft wi; outerWidth = in_width wi; offsetLeft = within_x wi;
          collisionPosLeft = fst p - pe_marginLeft (cd_elem d);
          overLeft = collisionPosLeft - offsetLeft; overRight = collisionPosLeft + cd_width d - outerWidth - offsetLeft
      in if overLeft < 0 then
           let newOverRight = fst p + shift_x d + cd_width d - outerWidth - withinOffset in
           if newOverRight < 0 \<or> newOverRight < \<bar>overLeft\<bar> then (fst p + shift_x d, snd p) else p
         else if overRight > 0 then
           let newOverLeft = fst p - pe_marginLeft (cd_elem d) + shift_x d - offsetLeft in
           if newOverLeft > 0 \<or> \<bar>newOverLeft\<bar> < overRight then (fst p + shift_x d, snd p) else p
         else p)"

definition flip_top :: "collision_data \<Rightarrow> point \<Rightarrow> point" where
  "flip_top d p =
     (let wi = cd_within d; withinOffset = in_top wi + in_scrollTop wi; outerHeight = in_height wi; offsetTop = within_y wi;
          collisionPosTop = snd p - pe_marginTop (cd_elem d);
          overTop = collisionPosTop - offsetTop; overBottom = collisionPosTop + cd_height d - outerHeight - offsetTop
      in if overTop < 0 then
           let newOverBottom = snd p + shift_y d + cd_height d - outerHeight - withinOffset in
           if snd p + shift_y d > overTop \<and> (newOverBottom < 0 \<or> newOverBottom < \<bar>overTop\<bar>)
           then (fst p, snd p + shift_y d) else p
         else if overBottom > 0 then
           let newOverTop = snd p - pe_marginTop (cd_elem d) + shift_y d - offsetTop in
           if snd p + shift_y d > overBottom \<and> (newOverTop > 0 \<or> \<bar>newOverTop\<bar> < overBottom)
           then (fst p, snd p + shift_y d) else p
         else p)"

definition collide_left :: "string \<Rightarrow> collision_data \<Rightarrow> point \<Rightarrow> point" where
  "collide_left c d p =
     (if c = ''fit'' then fit_left d p else if c = ''flip'' then flip_left d p
      else if c = ''flipfit'' then fit_left d (flip_left d p) else p)"

definition collide_top :: "string \<Rightarrow> collision_data \<Rightarrow> point \<Rightarrow> point" where
  "collide_top c d p =
     (if c = ''fit'' then fit_top d p else if c = ''flip'' then flip_top d p
      else if c = ''flipfit'' then fit_top d (flip_top d p) else p)"

section \<open>The feedback\<close>

record feedback =
  fb_horizontal :: string
  fb_vertical :: string
  fb_important :: string

definition feedback_of :: "dims \<Rightarrow> elem_size \<Rightarrow> point \<Rightarrow> feedback" where
  "feedback_of d e p =
     (let left = d_left d - fst p; right = left + d_width d - pe_width e; top = d_top d - snd p; bottom = top + d_height d - pe_height e in
      \<lparr>fb_horizontal = (if d_width d < pe_width e \<and> \<bar>left + right\<bar> < d_width d then ''center''
         else if right < 0 then ''left'' else if left > 0 then ''right'' else ''center''),
       fb_vertical = (if d_height d < pe_height e \<and> \<bar>top + bottom\<bar> < d_height d then ''middle''
         else if bottom < 0 then ''top'' else if top > 0 then ''bottom'' else ''middle''),
       fb_important = (if max \<bar>left\<bar> \<bar>right\<bar> > max \<bar>top\<bar> \<bar>bottom\<bar> then ''horizontal'' else ''vertical'')\<rparr>)"

section \<open>\<open>position\<close>\<close>

record pos_options =
  po_my :: string
  po_at :: string
  po_collision :: "string option"

record browser =
  br_fractions :: bool
  br_scrollbar :: rat

definition at_text :: "target \<Rightarrow> string \<Rightarrow> string" where
  "at_text t a = (case t of EventTarget x y \<Rightarrow> ''left top'' | _ \<Rightarrow> a)"

definition rounded :: "browser \<Rightarrow> point \<Rightarrow> point" where
  "rounded br p = (if br_fractions br then p else (of_int (js_round (fst p)), of_int (js_round (snd p))))"

definition collision_of :: "browser \<Rightarrow> dims \<Rightarrow> within_info \<Rightarrow> sides \<Rightarrow> sides \<Rightarrow> elem_size \<Rightarrow> collision_data" where
  "collision_of br d wi m a e =
     (let (sw, sh) = getScrollInfo (br_scrollbar br) wi in
      \<lparr>cd_target = d, cd_elem = e, cd_width = pe_width e + pe_marginLeft e + pe_marginRight e + sw,
       cd_height = pe_height e + pe_marginTop e + pe_marginBottom e + sh,
       cd_offset = (getOffset (s_dx a) (d_width d) + getOffset (s_dx m) (pe_width e),
         getOffset (s_dy a) (d_height d) + getOffset (s_dy m) (pe_height e)),
       cd_my = (s_x m, s_y m), cd_at = (s_x a, s_y a), cd_within = wi\<rparr>)"

definition aligned_point :: "dims \<Rightarrow> sides \<Rightarrow> sides \<Rightarrow> elem_size \<Rightarrow> point" where
  "aligned_point d m a e =
     start_point e (s_x m, s_y m) (getOffset (s_dx m) (pe_width e), getOffset (s_dy m) (pe_height e))
       (base_point d (s_x a, s_y a) (getOffset (s_dx a) (d_width d), getOffset (s_dy a) (d_height d)))"

definition place_one :: "browser \<Rightarrow> dims \<Rightarrow> within_info \<Rightarrow> string \<times> string \<Rightarrow> sides \<Rightarrow> sides \<Rightarrow> elem_size \<Rightarrow> point" where
  "place_one br d wi c m a e =
     (let cd = collision_of br d wi m a e in
      collide_top (snd c) cd (collide_left (fst c) cd (rounded br (aligned_point d m a e))))"

definition position :: "browser \<Rightarrow> pos_options \<Rightarrow> target \<Rightarrow> within_info \<Rightarrow> elem_size list \<Rightarrow> (point \<times> feedback) list js" where
  "position br op t wi es =
     js_bind (parse_sides (po_my op)) (\<lambda>m. js_bind (parse_sides (at_text t (po_at op))) (\<lambda>a.
       Inr (map (\<lambda>e. let p = place_one br (getDimensions t) wi (collisions (po_collision op)) m a e
         in (p, feedback_of (getDimensions t) e p)) es)))"

end
