(* ===== verification/UI_PositionProps.thy ===== *)
theory UI_PositionProps
  imports UI_Position
begin

text \<open>
  What the collision handling of \<open>position\<close> does: \<open>fit\<close> brings an element inside when it has room and
  lets it cover what is too small; \<open>flip\<close> leaves it where it was aligned or puts it at the mirror image.
  The texts of the options are read as they are written.
\<close>

section \<open>\<open>fit\<close>\<close>

lemma fit_inside:
  assumes "len \<le> outer" "0 \<le> start"
  shows "start \<le> fit_axis start outer margin len p - margin" "fit_axis start outer margin len p - margin + len \<le> start + outer"
proof -
  let ?c = "p - margin"
  consider "start - ?c > 0" | "start - ?c \<le> 0" "?c + len - outer - start > 0" | "start - ?c \<le> 0" "?c + len - outer - start \<le> 0"
    by linarith
  then have "start \<le> fit_axis start outer margin len p - margin \<and> fit_axis start outer margin len p - margin + len \<le> start + outer"
  proof cases
    case 1
    then have "fit_axis start outer margin len p = p + (start - ?c)" using assms(1) by (simp add: fit_axis_def Let_def)
    then show ?thesis using assms by simp
  next
    case 2
    then have "fit_axis start outer margin len p = p - (?c + len - outer - start)" using assms(1) by (simp add: fit_axis_def Let_def)
    then show ?thesis using assms by simp
  next
    case 3
    then have "fit_axis start outer margin len p = max (p - ?c) p" using assms(1) by (simp add: fit_axis_def Let_def)
    moreover have "p - ?c \<le> p" using 3(1) assms(2) by simp
    ultimately have "fit_axis start outer margin len p = p" by (simp add: max_absorb2)
    then show ?thesis using 3 by simp
  qed
  then show "start \<le> fit_axis start outer margin len p - margin" "fit_axis start outer margin len p - margin + len \<le> start + outer"
    by blast+
qed

lemma fit_covers:
  assumes "outer < len"
  shows "fit_axis start outer 0 len p \<le> start" "start + outer \<le> fit_axis start outer 0 len p + len"
  using assms by (simp_all add: fit_axis_def Let_def)

lemma one_of_two:
  "(if b then if b1 then x else y else if c then if c1 then x else y else y) = y \<or>
   (if b then if b1 then x else y else if c then if c1 then x else y else y) = x"
  by simp

lemma flip_cases:
  "flip_left d p = p \<or> flip_left d p = (fst p + shift_x d, snd p)"
  "flip_top d p = p \<or> flip_top d p = (fst p, snd p + shift_y d)"
  unfolding flip_left_def flip_top_def Let_def by (rule one_of_two)+

lemma flip_still:
  "within_x (cd_within d) \<le> fst p - pe_marginLeft (cd_elem d) \<Longrightarrow>
    fst p - pe_marginLeft (cd_elem d) + cd_width d \<le> within_x (cd_within d) + in_width (cd_within d) \<Longrightarrow> flip_left d p = p"
  "within_y (cd_within d) \<le> snd p - pe_marginTop (cd_elem d) \<Longrightarrow>
    snd p - pe_marginTop (cd_elem d) + cd_height d \<le> within_y (cd_within d) + in_height (cd_within d) \<Longrightarrow> flip_top d p = p"
  by (simp_all add: flip_left_def flip_top_def Let_def)

lemma flip_axes: "snd (flip_left d p) = snd p" "fst (flip_top d p) = fst p"
  using flip_cases [of d p] by auto

lemma fit_axes: "snd (fit_left d p) = snd p" "fst (fit_top d p) = fst p"
  by (simp_all add: fit_left_def fit_top_def)

lemma collide_axes:
  "snd (collide_left c d p) = snd p" "fst (collide_top c d p) = fst p"
  by (simp_all add: collide_left_def collide_top_def fit_axes flip_axes)

text \<open>The size of an element with its margins and the scrollbars.\<close>

definition box_width :: "browser \<Rightarrow> within_info \<Rightarrow> elem_size \<Rightarrow> rat" where
  "box_width br wi e = pe_width e + pe_marginLeft e + pe_marginRight e + fst (getScrollInfo (br_scrollbar br) wi)"

definition box_height :: "browser \<Rightarrow> within_info \<Rightarrow> elem_size \<Rightarrow> rat" where
  "box_height br wi e = pe_height e + pe_marginTop e + pe_marginBottom e + snd (getScrollInfo (br_scrollbar br) wi)"

lemma collision_fields:
  "cd_elem (collision_of br d wi m a e) = e" "cd_within (collision_of br d wi m a e) = wi" "cd_target (collision_of br d wi m a e) = d"
  "cd_width (collision_of br d wi m a e) = box_width br wi e" "cd_height (collision_of br d wi m a e) = box_height br wi e"
  "cd_my (collision_of br d wi m a e) = (s_x m, s_y m)" "cd_at (collision_of br d wi m a e) = (s_x a, s_y a)"
  "cd_offset (collision_of br d wi m a e) = (getOffset (s_dx a) (d_width d) + getOffset (s_dx m) (pe_width e),
     getOffset (s_dy a) (d_height d) + getOffset (s_dy m) (pe_height e))"
  by (simp_all add: collision_of_def box_width_def box_height_def split: prod.split)

lemma place_fit:
  assumes "fst c = ''fit'' \<or> fst c = ''flipfit''"
  shows "\<exists>x. fst (place_one br d wi c m a e) = fit_axis (within_x wi) (in_width wi) (pe_marginLeft e) (box_width br wi e) x"
proof -
  let ?cd = "collision_of br d wi m a e" and ?p = "rounded br (aligned_point d m a e)"
  have "fst (place_one br d wi c m a e) = fst (collide_left (fst c) ?cd ?p)" by (simp add: place_one_def Let_def collide_axes)
  then show ?thesis using assms by (auto simp: collide_left_def fit_left_def collision_fields)
qed

lemma place_fit_top:
  assumes "snd c = ''fit'' \<or> snd c = ''flipfit''"
  shows "\<exists>y. snd (place_one br d wi c m a e) = fit_axis (within_y wi) (in_height wi) (pe_marginTop e) (box_height br wi e) y"
  using assms by (auto simp: place_one_def Let_def collide_top_def fit_top_def collision_fields)

text \<open>C11: With the collisions \<open>fit\<close> or \<open>flipfit\<close>, an element that has room (with its margins and the
  scrollbars) is placed inside what it must be within, when that does not start at a negative offset; one
  without margins that has no room covers all of it.\<close>
theorem position_fits:
  assumes "position br op t wi es = Inr ps" "i < length es" "e = es ! i" "p = fst (ps ! i)"
    "\<forall>c \<in> {fst (collisions (po_collision op)), snd (collisions (po_collision op))}. c = ''fit'' \<or> c = ''flipfit''"
  shows "length ps = length es \<and>
    (0 \<le> within_x wi \<and> box_width br wi e \<le> in_width wi \<longrightarrow>
       within_x wi \<le> fst p - pe_marginLeft e \<and> fst p - pe_marginLeft e + box_width br wi e \<le> within_x wi + in_width wi) \<and>
    (0 \<le> within_y wi \<and> box_height br wi e \<le> in_height wi \<longrightarrow>
       within_y wi \<le> snd p - pe_marginTop e \<and> snd p - pe_marginTop e + box_height br wi e \<le> within_y wi + in_height wi) \<and>
    (pe_marginLeft e = 0 \<and> in_width wi < box_width br wi e \<longrightarrow>
       fst p \<le> within_x wi \<and> within_x wi + in_width wi \<le> fst p + box_width br wi e) \<and>
    (pe_marginTop e = 0 \<and> in_height wi < box_height br wi e \<longrightarrow>
       snd p \<le> within_y wi \<and> within_y wi + in_height wi \<le> snd p + box_height br wi e)"
proof -
  obtain m a where ps: "ps = map (\<lambda>e. let p = place_one br (getDimensions t) wi (collisions (po_collision op)) m a e
         in (p, feedback_of (getDimensions t) e p)) es"
    using assms(1) by (auto simp: position_def js_bind_eq_Inr)
  have p: "p = place_one br (getDimensions t) wi (collisions (po_collision op)) m a e"
    using assms(2-4) by (simp add: ps Let_def)
  obtain x where x: "fst p = fit_axis (within_x wi) (in_width wi) (pe_marginLeft e) (box_width br wi e) x"
    using place_fit [of "collisions (po_collision op)"] assms(5) unfolding p by blast
  obtain y where y: "snd p = fit_axis (within_y wi) (in_height wi) (pe_marginTop e) (box_height br wi e) y"
    using place_fit_top [of "collisions (po_collision op)"] assms(5) unfolding p by blast
  show ?thesis unfolding x y using fit_inside fit_covers by (simp add: ps)
qed

definition desktop :: within_info where
  "desktop = \<lparr>in_window = True, in_document = False, in_left = 0, in_top = 0, in_scrollLeft = 0, in_scrollTop = 100,
     in_width = 800, in_height = 600, in_overflow_x = [], in_overflow_y = [], in_scrollWidth = 0, in_scrollHeight = 0\<rparr>"

definition tip_box :: elem_size where
  "tip_box = \<lparr>pe_width = 200, pe_height = 50, pe_marginLeft = 5, pe_marginTop = 5, pe_marginRight = 5, pe_marginBottom = 5\<rparr>"

definition tip_options :: pos_options where
  "tip_options = \<lparr>po_my = ''left+10 top'', po_at = ''right'', po_collision = Some ''flipfit fit''\<rparr>"

lemma position_fits_witness:
  "\<exists>p f. position \<lparr>br_fractions = True, br_scrollbar = 15\<rparr> tip_options (ElementTarget 100 20 700 690) desktop [tip_box] = Inr [(p, f)] \<and>
    fst p - 5 + 210 \<le> 800 \<and> snd p - 5 + 60 \<le> 700"
proof -
  let ?br = "\<lparr>br_fractions = True, br_scrollbar = 15\<rparr>"
  let ?r = "position ?br tip_options (ElementTarget 100 20 700 690) desktop [tip_box]"
  have r: "case ?r of Inl e \<Rightarrow> False | Inr ps \<Rightarrow> length ps = 1" by code_simp
  obtain ps where ps: "?r = Inr ps" using r by (cases ?r) auto
  obtain p f where pf: "ps = [(p, f)]" using r unfolding ps by (cases ps) auto
  have c: "\<forall>c \<in> {fst (collisions (po_collision tip_options)), snd (collisions (po_collision tip_options))}. c = ''fit'' \<or> c = ''flipfit''"
    by code_simp
  have "within_x desktop = 0" "within_y desktop = 100" "box_width ?br desktop tip_box = 210" "box_height ?br desktop tip_box = 60"
    "in_width desktop = 800" "in_height desktop = 600" "pe_marginLeft tip_box = 5" "pe_marginTop tip_box = 5" by code_simp+
  then show ?thesis using position_fits [OF ps _ refl refl c, of 0] pf ps by simp
qed

section \<open>\<open>flip\<close>\<close>

definition opposite_x :: "string \<Rightarrow> string" where
  "opposite_x s = (if s = ''left'' then ''right'' else if s = ''right'' then ''left'' else s)"

definition opposite_y :: "string \<Rightarrow> string" where
  "opposite_y s = (if s = ''top'' then ''bottom'' else if s = ''bottom'' then ''top'' else s)"

text \<open>The element aligned by the opposite sides, with the offsets turned round.\<close>

definition mirrored_point :: "dims \<Rightarrow> sides \<Rightarrow> sides \<Rightarrow> elem_size \<Rightarrow> point" where
  "mirrored_point d m a e =
     start_point e (opposite_x (s_x m), opposite_y (s_y m)) (- getOffset (s_dx m) (pe_width e), - getOffset (s_dy m) (pe_height e))
       (base_point d (opposite_x (s_x a), opposite_y (s_y a)) (- getOffset (s_dx a) (d_width d), - getOffset (s_dy a) (d_height d)))"

lemma side_opposite:
  "side_x (opposite_x s) len = side_x s len + (if s = ''left'' then len else if s = ''right'' then - len else 0)"
  "side_y (opposite_y s) len = side_y s len + (if s = ''top'' then len else if s = ''bottom'' then - len else 0)"
  by (simp_all add: side_x_def side_y_def opposite_x_def opposite_y_def)

lemma mirrored_shift:
  "fst (mirrored_point d m a e) = fst (aligned_point d m a e) + shift_x (collision_of br d wi m a e)"
  "snd (mirrored_point d m a e) = snd (aligned_point d m a e) + shift_y (collision_of br d wi m a e)"
  by (simp_all add: mirrored_point_def aligned_point_def start_point_def base_point_def side_opposite shift_x_def shift_y_def collision_fields)

lemma place_flip:
  assumes "br_fractions br"
  shows "fst (place_one br d wi (''flip'', ''flip'') m a e) = fst (flip_left (collision_of br d wi m a e) (aligned_point d m a e))"
    "snd (place_one br d wi (''flip'', ''flip'') m a e) =
       snd (flip_top (collision_of br d wi m a e) (flip_left (collision_of br d wi m a e) (aligned_point d m a e)))"
  using assms by (simp_all add: place_one_def Let_def collide_left_def collide_top_def flip_axes rounded_def)

text \<open>C12: With the collision \<open>flip\<close> (and a browser that has fractions of pixels) an element is placed where the
  options align it, or, on each axis, where the opposite sides and the opposite offsets would align it; and it stays
  where it was aligned on an axis on which it fits there.\<close>
theorem flip_mirrors:
  assumes "br_fractions br" "q = aligned_point d m a e" "p = place_one br d wi (''flip'', ''flip'') m a e"
  shows "(fst p = fst q \<or> fst p = fst (mirrored_point d m a e)) \<and> (snd p = snd q \<or> snd p = snd (mirrored_point d m a e)) \<and>
    (within_x wi \<le> fst q - pe_marginLeft e \<and> fst q - pe_marginLeft e + box_width br wi e \<le> within_x wi + in_width wi \<longrightarrow> fst p = fst q) \<and>
    (within_y wi \<le> snd q - pe_marginTop e \<and> snd q - pe_marginTop e + box_height br wi e \<le> within_y wi + in_height wi \<longrightarrow> snd p = snd q)"
proof -
  let ?cd = "collision_of br d wi m a e"
  define q1 where "q1 = flip_left ?cd q"
  have px: "fst p = fst q1" and py: "snd p = snd (flip_top ?cd q1)" and q1: "snd q1 = snd q"
    using place_flip [OF assms(1), of d wi m a e] by (simp_all add: assms(2,3) q1_def flip_axes)
  have "fst q1 = fst q \<or> fst q1 = fst (mirrored_point d m a e)"
    using flip_cases(1) [of ?cd q] mirrored_shift(1) [of d m a e br wi] by (auto simp: q1_def assms(2))
  moreover have "snd (flip_top ?cd q1) = snd q \<or> snd (flip_top ?cd q1) = snd (mirrored_point d m a e)"
    using flip_cases(2) [of ?cd q1] mirrored_shift(2) [of d m a e br wi] q1 by (auto simp: assms(2))
  moreover have "within_x wi \<le> fst q - pe_marginLeft e \<Longrightarrow> fst q - pe_marginLeft e + box_width br wi e \<le> within_x wi + in_width wi \<Longrightarrow> fst q1 = fst q"
    using flip_still(1) [of ?cd q] by (simp add: collision_fields q1_def)
  moreover have "within_y wi \<le> snd q - pe_marginTop e \<Longrightarrow> snd q - pe_marginTop e + box_height br wi e \<le> within_y wi + in_height wi \<Longrightarrow>
      snd (flip_top ?cd q1) = snd q"
    using flip_still(2) [of ?cd q1] by (simp add: collision_fields q1)
  ultimately show ?thesis unfolding px py by blast
qed

definition demo_link :: dims where
  "demo_link = \<lparr>d_width = 100, d_height = 20, d_left = 690, d_top = 200\<rparr>"

definition beside :: sides where
  "beside = \<lparr>s_x = ''left'', s_y = ''top'', s_dx = Some ''+10'', s_dy = None\<rparr>"

definition far_side :: sides where
  "far_side = \<lparr>s_x = ''right'', s_y = ''top'', s_dx = None, s_dy = None\<rparr>"

lemma flip_mirrors_witness:
  "fst (place_one \<lparr>br_fractions = True, br_scrollbar = 0\<rparr> demo_link desktop (''flip'', ''flip'') beside far_side tip_box) = 480 \<and>
   snd (place_one \<lparr>br_fractions = True, br_scrollbar = 0\<rparr> demo_link desktop (''flip'', ''flip'') beside far_side tip_box) = 200"
proof -
  let ?br = "\<lparr>br_fractions = True, br_scrollbar = 0\<rparr>" and ?q = "aligned_point demo_link beside far_side tip_box"
    and ?p = "place_one \<lparr>br_fractions = True, br_scrollbar = 0\<rparr> demo_link desktop (''flip'', ''flip'') beside far_side tip_box"
  have f: "br_fractions ?br" by simp
  have q: "?q = (800, 200)" "mirrored_point demo_link beside far_side tip_box = (480, 170)" by code_simp+
  have "fst ?p \<noteq> 800" "within_y desktop = 100" "pe_marginTop tip_box = 5" "box_height ?br desktop tip_box = 60" "in_height desktop = 600" by code_simp+
  then show ?thesis using flip_mirrors [OF f refl refl, where d = demo_link and m = beside and a = far_side and e = tip_box and wi = desktop] unfolding q by simp
qed

section \<open>Where the collisions do not do what they are for\<close>

text \<open>\<open>fit\<close> takes the margin for the least place there is: inside an element that starts at a negative offset it
  moves one that fits out of it.\<close>
lemma fit_leaves_negative: "fit_axis (- 100) 50 0 20 (- 90) = 0"
  by code_simp

text \<open>\<open>flip\<close> to the left does not look where the element goes, as it does at the top: one that is out by 5 goes out by 45.\<close>
lemma flip_goes_further:
  "place_one \<lparr>br_fractions = True, br_scrollbar = 0\<rparr> \<lparr>d_width = 10, d_height = 10, d_left = - 5, d_top = 150\<rparr> desktop (''flip'', ''flip'')
     \<lparr>s_x = ''left'', s_y = ''top'', s_dx = None, s_dy = None\<rparr> \<lparr>s_x = ''left'', s_y = ''bottom'', s_dx = None, s_dy = None\<rparr>
     \<lparr>pe_width = 50, pe_height = 10, pe_marginLeft = 0, pe_marginTop = 0, pe_marginRight = 0, pe_marginBottom = 0\<rparr> = (- 45, 160)"
  by code_simp

section \<open>The texts of the options\<close>

text \<open>An offset as it is written: a sign, a number and a percent sign.\<close>

fun offset_text :: "(bool \<times> int \<times> bool) option \<Rightarrow> string" where
  "offset_text None = []"
| "offset_text (Some (neg, n, pct)) = (if neg then CHR ''-'' else CHR ''+'') # show_nat n @ (if pct then ''%'' else [])"

fun offset_value :: "(bool \<times> int \<times> bool) option \<Rightarrow> rat \<Rightarrow> rat" where
  "offset_value None len = 0"
| "offset_value (Some (neg, n, pct)) len = (if neg then - of_int n else of_int n) * (if pct then len / 100 else 1)"

lemma split_blank_app:
  "CHR '' '' \<notin> set u \<Longrightarrow> split_blank (u @ CHR '' '' # w) = u # split_blank w" "CHR '' '' \<notin> set u \<Longrightarrow> split_blank u = [u]"
  by (induction u) auto

lemma occurs_head: "w \<noteq> [] \<Longrightarrow> occurs w (w @ s)"
  using lit_app [of w s] by (cases w) (simp_all add: occurs_def)

lemma search_skip: "(\<And>c cs. c \<in> set h \<Longrightarrow> f (c # cs) = None) \<Longrightarrow> search f (h @ s) = search f s"
  by (induction h) auto

lemma sign_facts: "\<not> is_digit CHR ''%''" "\<not> is_space CHR ''+''" "\<not> is_space CHR ''-''" "\<not> word_char CHR ''+''" "\<not> word_char CHR ''-''"
  by code_simp+

lemma offset_text_read:
  assumes "0 \<le> n"
  shows "offset_at (offset_text (Some (neg, n, pct))) = Some (offset_text (Some (neg, n, pct)))"
    "getOffset (Some (offset_text (Some (neg, n, pct)))) len = offset_value (Some (neg, n, pct)) len"
proof -
  let ?p = "if pct then ''%'' else []"
  have d: "takeWhile is_digit (show_nat n @ ?p) = show_nat n" "dropWhile is_digit (show_nat n @ ?p) = ?p"
    using digits_split [OF show_nat_digits [OF assms], of ?p] sign_facts(1) by auto
  have f: "fraction_text ?p = ([], ?p)" by (simp add: fraction_text_def)
  show "offset_at (offset_text (Some (neg, n, pct))) = Some (offset_text (Some (neg, n, pct)))"
    using d f show_nat_nonempty [of n] by (simp add: offset_at_def del: takeWhile_append takeWhile_eq_all_conv split: if_splits)
  have dec: "decimal_prefix (show_nat n @ ?p) = Some (of_int n, ?p)"
    unfolding decimal_prefix_def Let_def d using show_nat_nonempty [of n] digits_val_show_nat [OF assms] by (simp add: digits_val_def)
  have "parse_float (offset_text (Some (neg, n, pct))) = Some (if neg then - of_int n else of_int n)"
    using unsigned_plain [OF dec] sign_facts by (simp add: parse_float_def signed_prefix_def)
  moreover have "rpercent (offset_text (Some (neg, n, pct))) = pct"
  proof -
    have "last (show_nat n) \<noteq> CHR ''%''"
      using show_nat_digits [OF assms] show_nat_nonempty [of n] sign_facts(1) by (metis last_in_set list_all_iff)
    then show ?thesis using show_nat_nonempty [of n] by (simp add: rpercent_def)
  qed
  ultimately show "getOffset (Some (offset_text (Some (neg, n, pct)))) len = offset_value (Some (neg, n, pct)) len"
    by (simp add: getOffset_def)
qed

lemma offset_text_head: "offset_text d = [] \<or> (\<exists>c cs. offset_text d = c # cs \<and> \<not> word_char c)"
  using sign_facts by (cases d) (auto split: if_splits)

lemma offset_text_blank: "\<forall>t. d = Some t \<longrightarrow> 0 \<le> fst (snd t) \<Longrightarrow> CHR '' '' \<notin> set (offset_text d)"
proof (cases d)
  case (Some t)
  assume "\<forall>t. d = Some t \<longrightarrow> 0 \<le> fst (snd t)"
  then have n: "0 \<le> fst (snd t)" using Some by simp
  have "\<not> is_digit CHR '' ''" by code_simp
  then have "CHR '' '' \<notin> set (show_nat (fst (snd t)))" using show_nat_digits [OF n] by (auto simp: list_all_iff)
  then show ?thesis using Some by (cases t) auto
qed simp

text \<open>One word: a side with an offset.\<close>

lemma side_word:
  assumes "h \<in> {''left'', ''center'', ''right'', ''top'', ''bottom''}" "\<forall>t. d = Some t \<longrightarrow> 0 \<le> fst (snd t)"
  shows "rposition (h @ offset_text d) = Inr h" "CHR '' '' \<notin> set (h @ offset_text d)"
    "roffset (h @ offset_text d) = (case d of None \<Rightarrow> None | Some t \<Rightarrow> Some (offset_text d))"
proof -
  have w: "list_all word_char h" "h \<noteq> []" "CHR '' '' \<notin> set h" "CHR ''+'' \<notin> set h" "CHR ''-'' \<notin> set h"
    using assms(1) by (auto simp: word_char_def is_digit_def)
  have "takeWhile word_char (h @ offset_text d) = h"
    using w(1) offset_text_head [of d] by (induction h) auto
  then show "rposition (h @ offset_text d) = Inr h" using w(2) by (simp add: rposition_def)
  show "CHR '' '' \<notin> set (h @ offset_text d)" using w(3) offset_text_blank [OF assms(2)] by simp
  have "roffset (h @ offset_text d) = search offset_at (offset_text d)"
    unfolding roffset_def by (rule search_skip) (use w(4,5) in \<open>auto simp: offset_at_def\<close>)
  also have "\<dots> = (case d of None \<Rightarrow> None | Some t \<Rightarrow> Some (offset_text d))"
  proof (cases d)
    case None
    then show ?thesis by (simp add: offset_at_def)
  next
    case (Some t)
    obtain neg n pct where t: "t = (neg, n, pct)" by (cases t)
    then have n: "0 \<le> n" using assms(2) Some by simp
    obtain c cs where "offset_text d = c # cs" using Some t by simp
    then show ?thesis using offset_text_read(1) [OF n, of neg pct] Some t by simp
  qed
  finally show "roffset (h @ offset_text d) = (case d of None \<Rightarrow> None | Some t \<Rightarrow> Some (offset_text d))" .
qed

text \<open>The two sides of an option with offsets in pixels or percent are read as they are written.\<close>
theorem sides_read:
  assumes "h \<in> {''left'', ''center'', ''right''}" "v \<in> {''top'', ''center'', ''bottom''}"
    "\<forall>t. dx = Some t \<longrightarrow> 0 \<le> fst (snd t)" "\<forall>t. dy = Some t \<longrightarrow> 0 \<le> fst (snd t)"
  shows "\<exists>r. parse_sides (h @ offset_text dx @ '' '' @ v @ offset_text dy) = Inr r \<and> s_x r = h \<and> s_y r = v \<and>
    getOffset (s_dx r) len = offset_value dx len \<and> getOffset (s_dy r) len = offset_value dy len"
proof -
  have hv: "h \<in> {''left'', ''center'', ''right'', ''top'', ''bottom''}" "v \<in> {''left'', ''center'', ''right'', ''top'', ''bottom''}"
    using assms(1,2) by auto
  note x = side_word [OF hv(1) assms(3)] and y = side_word [OF hv(2) assms(4)]
  have oc: "occurs h (h @ offset_text dx)" "occurs v (v @ offset_text dy)" by (rule occurs_head; use assms(1,2) in auto)+
  have "split_blank (h @ offset_text dx @ '' '' @ v @ offset_text dy) = [h @ offset_text dx, v @ offset_text dy]"
    using split_blank_app(1) [OF x(2)] split_blank_app(2) [OF y(2)] by simp
  moreover have "rhorizontal (h @ offset_text dx)" "rvertical (v @ offset_text dy)"
    using assms(1,2) oc unfolding rhorizontal_def rvertical_def by fastforce+
  ultimately have r: "parse_sides (h @ offset_text dx @ '' '' @ v @ offset_text dy) =
      Inr \<lparr>s_x = h, s_y = v, s_dx = roffset (h @ offset_text dx), s_dy = roffset (v @ offset_text dy)\<rparr>"
    using x(1) y(1) by (simp add: parse_sides_def two_words_def)
  have read: "getOffset (case d of None \<Rightarrow> None | Some t \<Rightarrow> Some (offset_text d)) len = offset_value d len"
    if "\<forall>t. d = Some t \<longrightarrow> 0 \<le> fst (snd t)" for d
  proof (cases d)
    case None
    then show ?thesis by (simp add: getOffset_def)
  next
    case (Some t)
    obtain neg n pct where t: "t = (neg, n, pct)" by (cases t)
    then show ?thesis using offset_text_read(2) [of n neg pct len] that Some by simp
  qed
  show ?thesis unfolding r x(3) y(3) using read [OF assms(3)] read [OF assms(4)] by simp
qed

end
