(* ===== verification/UI_Spinner.thy ===== *)
theory UI_Spinner
  imports JS_Text
begin

text \<open>
  The spinner (\<open>ui.spinner\<close>, jquery-ui.js): the text of its field, the limits and the step, and the
  keys, buttons, wheel and timers that change it. What the page answers to the events \<open>start\<close> and
  \<open>spin\<close> is a parameter. The page has no Globalize, so that numbers are written as the language does.
  A number that is NaN is \<open>None\<close>.
\<close>

section \<open>The data\<close>

datatype increments = NoIncrement | StandardIncrement | IncrementFn "nat \<Rightarrow> rat"

datatype spin_event = StartEv bool | SpinEv "rat option" bool | StopEv | ChangeEv

datatype later = KeepPrevious "string option" | CheckFocus "string option"

record spinner =
  sp_min :: "rat option"
  sp_max :: "rat option"
  sp_step :: "rat option"
  sp_page :: rat
  sp_incremental :: increments
  sp_disabled :: bool
  sp_text :: string
  sp_aria :: "rat option \<times> rat option \<times> rat option"
  sp_spinning :: bool
  sp_counter :: nat
  sp_previous :: "string option"
  sp_cancelBlur :: bool
  sp_active :: bool
  sp_timer :: "nat option"
  sp_repeats :: "(nat \<times> nat \<times> rat) list"
  sp_wheelTimer :: "nat option"
  sp_wheels :: "nat list"
  sp_later :: "(nat \<times> later) list"
  sp_next :: nat
  sp_log :: "spin_event list"

record spin_page =
  on_start :: "spin_event list \<Rightarrow> bool"
  on_spin :: "spin_event list \<Rightarrow> rat option \<Rightarrow> bool"

definition log_spin :: "spin_event \<Rightarrow> spinner \<Rightarrow> spinner" where
  "log_spin e sp = sp\<lparr>sp_log := sp_log sp @ [e]\<rparr>"

section \<open>Values and texts\<close>

text \<open>\<open>_parse\<close> of a text, \<open>_format\<close> of a number or null, and \<open>String\<close> of a number that may be NaN.\<close>

definition parse_value :: "string \<Rightarrow> rat option" where
  "parse_value t = (if t = [] then None else number_of t)"

definition format_value :: "rat option \<Rightarrow> string" where
  "format_value v = (case v of None \<Rightarrow> [] | Some x \<Rightarrow> num_str x)"

definition nan_text :: "rat option \<Rightarrow> string" where
  "nan_text v = (case v of None \<Rightarrow> ''NaN'' | Some x \<Rightarrow> num_str x)"

definition current_value :: "spinner \<Rightarrow> rat option" where
  "current_value sp = parse_value (sp_text sp)"

definition spin_refresh :: "spinner \<Rightarrow> spinner" where
  "spin_refresh sp = sp\<lparr>sp_aria := (sp_min sp, sp_max sp, current_value sp)\<rparr>"

definition precisionOf :: "rat \<Rightarrow> nat" where
  "precisionOf x = (let t = dropWhile (\<lambda>c. c \<noteq> CHR ''.'') (num_str x) in length t - 1)"

definition precision :: "spinner \<Rightarrow> nat js" where
  "precision sp =
     (case sp_step sp of None \<Rightarrow> Inl (Throw ''TypeError'')
      | Some s \<Rightarrow> Inr (case sp_min sp of None \<Rightarrow> precisionOf s | Some m \<Rightarrow> max (precisionOf s) (precisionOf m)))"

definition limited :: "spinner \<Rightarrow> rat \<Rightarrow> rat" where
  "limited sp v =
     (case sp_max sp of
        Some m \<Rightarrow> if v > m then m else (case sp_min sp of Some m0 \<Rightarrow> if v < m0 then m0 else v | None \<Rightarrow> v)
      | None \<Rightarrow> (case sp_min sp of Some m0 \<Rightarrow> if v < m0 then m0 else v | None \<Rightarrow> v))"

definition adjustValue :: "spinner \<Rightarrow> rat \<Rightarrow> rat option js" where
  "adjustValue sp v =
     (let base = (case sp_min sp of None \<Rightarrow> 0 | Some m \<Rightarrow> m); step = (case sp_step sp of None \<Rightarrow> 0 | Some s \<Rightarrow> s) in
      js_bind (precision sp) (\<lambda>n. Inr (map_option (\<lambda>q. limited sp (to_fixed n (base + of_int (js_round q) * step))) (js_div (v - base) step))))"

definition isValid :: "spinner \<Rightarrow> bool js" where
  "isValid sp = (case current_value sp of None \<Rightarrow> Inr False | Some v \<Rightarrow> js_bind (adjustValue sp v) (\<lambda>r. Inr (r = Some v)))"

datatype value_arg = TextValue string | NumValue "rat option"

text \<open>\<open>_value\<close>: what is no number is written as it is.\<close>

definition set_value :: "value_arg \<Rightarrow> bool \<Rightarrow> spinner \<Rightarrow> spinner js" where
  "set_value a allowAny sp =
     (let parsed = (case a of TextValue t \<Rightarrow> parse_value t | NumValue v \<Rightarrow> v);
          plain = (case a of TextValue t \<Rightarrow> t | NumValue v \<Rightarrow> nan_text v)
      in js_bind (case parsed of None \<Rightarrow> Inr plain
           | Some x \<Rightarrow> if allowAny then Inr (num_str x) else js_bind (adjustValue sp x) (\<lambda>r. Inr (nan_text r)))
         (\<lambda>t. Inr (spin_refresh (sp\<lparr>sp_text := t\<rparr>))))"

text \<open>\<open>spinner_modifier\<close>: the change is told when the text has changed.\<close>

definition modifier :: "(spinner \<Rightarrow> spinner js) \<Rightarrow> spinner \<Rightarrow> spinner js" where
  "modifier f sp =
     js_bind (f sp) (\<lambda>sp1. let sp2 = spin_refresh sp1 in Inr (if sp_text sp \<noteq> sp_text sp2 then log_spin ChangeEv sp2 else sp2))"

section \<open>Spinning\<close>

definition start :: "spin_page \<Rightarrow> spinner \<Rightarrow> bool \<times> spinner" where
  "start pg sp =
     (let r = on_start pg (sp_log sp); sp1 = (if sp_spinning sp then sp else log_spin (StartEv r) sp) in
      if \<not> sp_spinning sp \<and> \<not> r then (False, sp1)
      else (True, sp1\<lparr>sp_counter := (if sp_counter sp1 = 0 then 1 else sp_counter sp1), sp_spinning := True\<rparr>))"

definition increment :: "spinner \<Rightarrow> nat \<Rightarrow> rat" where
  "increment sp i =
     (case sp_incremental sp of NoIncrement \<Rightarrow> 1 | IncrementFn f \<Rightarrow> f i
      | StandardIncrement \<Rightarrow> of_int \<lfloor>(of_nat i * of_nat i * of_nat i / 50000 - of_nat i * of_nat i / 500 + 17 * of_nat i / 200 + 1 :: rat)\<rfloor>)"

definition step_of :: "spinner \<Rightarrow> rat" where
  "step_of sp = (case sp_step sp of None \<Rightarrow> 0 | Some s \<Rightarrow> s)"

definition spin :: "spin_page \<Rightarrow> rat \<Rightarrow> spinner \<Rightarrow> spinner js" where
  "spin pg step sp =
     (let v = (case current_value sp of None \<Rightarrow> 0 | Some v \<Rightarrow> v);
          sp1 = sp\<lparr>sp_counter := (if sp_counter sp = 0 then 1 else sp_counter sp)\<rparr>
      in js_bind (adjustValue sp1 (v + step * increment sp1 (sp_counter sp1)))
        (\<lambda>r. let ok = (\<not> sp_spinning sp1 \<or> on_spin pg (sp_log sp1) r);
                 sp2 = (if sp_spinning sp1 then log_spin (SpinEv r (on_spin pg (sp_log sp1) r)) sp1 else sp1)
          in if ok then js_bind (set_value (NumValue r) False sp2) (\<lambda>sp3. Inr (sp3\<lparr>sp_counter := Suc (sp_counter sp3)\<rparr>))
             else Inr sp2))"

definition clear_repeat :: "spinner \<Rightarrow> spinner" where
  "clear_repeat sp = sp\<lparr>sp_repeats := filter (\<lambda>(i, _). Some i \<noteq> sp_timer sp) (sp_repeats sp)\<rparr>"

definition clear_wheel :: "spinner \<Rightarrow> spinner" where
  "clear_wheel sp = sp\<lparr>sp_wheels := filter (\<lambda>i. Some i \<noteq> sp_wheelTimer sp) (sp_wheels sp)\<rparr>"

definition repeat :: "spin_page \<Rightarrow> nat \<Rightarrow> rat \<Rightarrow> spinner \<Rightarrow> spinner js" where
  "repeat pg ms steps sp =
     (let sp1 = clear_repeat sp; i = (if ms = 0 then 500 else ms);
          sp2 = sp1\<lparr>sp_timer := Some (sp_next sp1), sp_repeats := sp_repeats sp1 @ [(sp_next sp1, i, steps)], sp_next := Suc (sp_next sp1)\<rparr>
      in spin pg (steps * step_of sp2) sp2)"

definition stop :: "spinner \<Rightarrow> spinner" where
  "stop sp =
     (if \<not> sp_spinning sp then sp
      else log_spin StopEv ((clear_wheel (clear_repeat sp))\<lparr>sp_counter := 0, sp_spinning := False\<rparr>))"

section \<open>The events of the field and the buttons\<close>

definition spin_keydown :: "spin_page \<Rightarrow> int \<Rightarrow> spinner \<Rightarrow> spinner js" where
  "spin_keydown pg code sp =
     (let (ok, sp1) = start pg sp in
      if \<not> ok then Inr sp1
      else if code = 38 then repeat pg 0 1 sp1
      else if code = 40 then repeat pg 0 (- 1) sp1
      else if code = 33 then repeat pg 0 (sp_page sp1) sp1
      else if code = 34 then repeat pg 0 (- sp_page sp1) sp1
      else Inr sp1)"

definition focus :: "spinner \<Rightarrow> spinner" where
  "focus sp = sp\<lparr>sp_active := True, sp_previous := Some (sp_text sp)\<rparr>"

definition blur :: "spinner \<Rightarrow> spinner" where
  "blur sp =
     (if sp_cancelBlur sp then sp\<lparr>sp_cancelBlur := False\<rparr>
      else let sp1 = spin_refresh (stop sp) in if sp_previous sp1 \<noteq> Some (sp_text sp1) then log_spin ChangeEv sp1 else sp1)"

definition mousewheel :: "spin_page \<Rightarrow> rat \<Rightarrow> spinner \<Rightarrow> spinner js" where
  "mousewheel pg delta sp =
     (if delta = 0 then Inr sp
      else let (ok, sp1) = (if sp_spinning sp then (True, sp) else start pg sp) in
        if \<not> ok then Inr sp1
        else js_bind (spin pg ((if delta > 0 then 1 else - 1) * step_of sp1) sp1)
          (\<lambda>sp2. let sp3 = clear_wheel sp2 in
            Inr (sp3\<lparr>sp_wheelTimer := Some (sp_next sp3), sp_wheels := sp_wheels sp3 @ [sp_next sp3], sp_next := Suc (sp_next sp3)\<rparr>)))"

definition delay_later :: "later \<Rightarrow> spinner \<Rightarrow> spinner" where
  "delay_later l sp = sp\<lparr>sp_later := sp_later sp @ [(sp_next sp, l)], sp_next := Suc (sp_next sp)\<rparr>"

text \<open>A field that is disabled cannot be focussed.\<close>

definition focus_field :: "spinner \<Rightarrow> spinner" where
  "focus_field sp = (if sp_disabled sp then sp else focus sp)"

definition checkFocus :: "string option \<Rightarrow> spinner \<Rightarrow> spinner" where
  "checkFocus prev sp = (if sp_active sp then sp else delay_later (KeepPrevious prev) ((focus_field sp)\<lparr>sp_previous := prev\<rparr>))"

definition press_button :: "spin_page \<Rightarrow> bool \<Rightarrow> spinner \<Rightarrow> spinner js" where
  "press_button pg up sp =
     (let prev = (if sp_active sp then sp_previous sp else Some (sp_text sp));
          sp1 = delay_later (CheckFocus prev) ((checkFocus prev sp)\<lparr>sp_cancelBlur := True\<rparr>);
          (ok, sp2) = start pg sp1
      in if ok then repeat pg 0 (if up then 1 else - 1) sp2 else Inr sp2)"

definition enter_button :: "spin_page \<Rightarrow> bool \<Rightarrow> bool \<Rightarrow> spinner \<Rightarrow> spinner js" where
  "enter_button pg up active sp =
     (if \<not> active then Inr sp
      else let (ok, sp1) = start pg sp in if ok then repeat pg 0 (if up then 1 else - 1) sp1 else Inr sp1)"

section \<open>The methods\<close>

definition or_one :: "rat \<Rightarrow> rat" where
  "or_one n = (if n = 0 then 1 else n)"

definition step_by :: "spin_page \<Rightarrow> rat \<Rightarrow> spinner \<Rightarrow> spinner js" where
  "step_by pg k sp =
     (let (ok, sp1) = start pg sp in
      if ok then js_bind (spin pg (k * step_of sp1) sp1) (\<lambda>sp2. Inr (stop sp2)) else Inr sp1)"

definition stepUp :: "spin_page \<Rightarrow> rat \<Rightarrow> spinner \<Rightarrow> spinner js" where
  "stepUp pg n = modifier (step_by pg (or_one n))"

definition stepDown :: "spin_page \<Rightarrow> rat \<Rightarrow> spinner \<Rightarrow> spinner js" where
  "stepDown pg n = modifier (step_by pg (- or_one n))"

definition pageUp :: "spin_page \<Rightarrow> rat \<Rightarrow> spinner \<Rightarrow> spinner js" where
  "pageUp pg n = modifier (\<lambda>sp. step_by pg (or_one (or_one n * sp_page sp)) sp)"

definition pageDown :: "spin_page \<Rightarrow> rat \<Rightarrow> spinner \<Rightarrow> spinner js" where
  "pageDown pg n = modifier (\<lambda>sp. step_by pg (- or_one (or_one n * sp_page sp)) sp)"

definition spinner_value :: "value_arg \<Rightarrow> spinner \<Rightarrow> spinner js" where
  "spinner_value a = modifier (set_value a False)"

section \<open>Options\<close>

datatype limit_arg = TextLimit string | NumLimit rat | NullLimit

definition limit_of :: "limit_arg \<Rightarrow> rat option" where
  "limit_of a = (case a of TextLimit t \<Rightarrow> parse_value t | NumLimit x \<Rightarrow> Some x | NullLimit \<Rightarrow> None)"

datatype spinner_option =
  SetMin limit_arg | SetMax limit_arg | SetStep limit_arg | SetPage rat | SetIncremental increments | SetDisabled bool | SetCulture

fun set_spin_option :: "spinner_option \<Rightarrow> spinner \<Rightarrow> spinner" where
  "set_spin_option (SetMin a) sp = sp\<lparr>sp_min := limit_of a\<rparr>"
| "set_spin_option (SetMax a) sp = sp\<lparr>sp_max := limit_of a\<rparr>"
| "set_spin_option (SetStep a) sp = sp\<lparr>sp_step := limit_of a\<rparr>"
| "set_spin_option (SetPage p) sp = sp\<lparr>sp_page := p\<rparr>"
| "set_spin_option (SetIncremental f) sp = sp\<lparr>sp_incremental := f\<rparr>"
| "set_spin_option (SetDisabled b) sp = sp\<lparr>sp_disabled := b\<rparr>"
| "set_spin_option SetCulture sp = sp\<lparr>sp_text := format_value (current_value sp)\<rparr>"

definition set_spin_options :: "spinner_option list \<Rightarrow> spinner \<Rightarrow> spinner js" where
  "set_spin_options os = modifier (\<lambda>sp. Inr (fold set_spin_option os sp))"

text \<open>A field with its text and its attributes becomes a spinner.\<close>

definition create_spinner :: "limit_arg \<Rightarrow> limit_arg \<Rightarrow> limit_arg \<Rightarrow> increments \<Rightarrow> string \<Rightarrow> spinner js" where
  "create_spinner mx mn st inc t =
     (let sp = \<lparr>sp_min = None, sp_max = None, sp_step = None, sp_page = 10, sp_incremental = inc, sp_disabled = False, sp_text = t,
          sp_aria = (None, None, None), sp_spinning = False, sp_counter = 0, sp_previous = None, sp_cancelBlur = False, sp_active = False,
          sp_timer = None, sp_repeats = [], sp_wheelTimer = None, sp_wheels = [], sp_later = [], sp_next = 0, sp_log = []\<rparr>;
          sp1 = fold set_spin_option [SetMax mx, SetMin mn, SetStep st] sp
      in js_bind (set_value (TextValue (sp_text sp1)) True sp1) (\<lambda>sp2. Inr (spin_refresh sp2)))"

definition destroy_spinner :: "spinner \<Rightarrow> spinner" where
  "destroy_spinner sp = sp\<lparr>sp_disabled := False, sp_aria := (None, None, None)\<rparr>"

section \<open>What happens\<close>

datatype spin_step =
    KeyDown int | KeyUp | Focus | Blur | Wheel rat | PressButton bool | ReleaseButton | EnterButton bool bool | LeaveButton
  | RepeatElapsed nat | WheelElapsed nat | LaterElapsed nat
  | StepUp rat | StepDown rat | PageUp rat | PageDown rat | SetValue value_arg | SetOptions "spinner_option list"

text \<open>\<open>_on\<close>: a widget that is disabled does not see events.\<close>

definition seen :: "(spinner \<Rightarrow> spinner js) \<Rightarrow> spinner \<Rightarrow> spinner js" where
  "seen h sp = (if sp_disabled sp then Inr sp else h sp)"

definition run_later :: "later \<Rightarrow> spinner \<Rightarrow> spinner" where
  "run_later l sp =
     (case l of KeepPrevious prev \<Rightarrow> sp\<lparr>sp_previous := prev\<rparr>
      | CheckFocus prev \<Rightarrow> checkFocus prev (sp\<lparr>sp_cancelBlur := False\<rparr>))"

fun run_spin :: "spin_page \<Rightarrow> spin_step \<Rightarrow> spinner \<Rightarrow> spinner js" where
  "run_spin pg (KeyDown code) sp = seen (spin_keydown pg code) sp"
| "run_spin pg KeyUp sp = seen (\<lambda>sp. Inr (stop sp)) sp"
| "run_spin pg Focus sp = seen (\<lambda>sp. Inr (focus sp)) sp"
| "run_spin pg Blur sp = seen (\<lambda>sp. Inr (blur sp)) (sp\<lparr>sp_active := False\<rparr>)"
| "run_spin pg (Wheel d) sp = seen (mousewheel pg d) sp"
| "run_spin pg (PressButton up) sp = seen (press_button pg up) sp"
| "run_spin pg ReleaseButton sp = seen (\<lambda>sp. Inr (stop sp)) sp"
| "run_spin pg (EnterButton up active) sp = seen (enter_button pg up active) sp"
| "run_spin pg LeaveButton sp = seen (\<lambda>sp. Inr (stop sp)) sp"
| "run_spin pg (RepeatElapsed i) sp =
     (case map_of (sp_repeats sp) i of None \<Rightarrow> Inr sp
      | Some (ms, steps) \<Rightarrow> repeat pg 40 steps (sp\<lparr>sp_repeats := filter (\<lambda>(j, _). j \<noteq> i) (sp_repeats sp)\<rparr>))"
| "run_spin pg (WheelElapsed i) sp =
     (if i \<in> set (sp_wheels sp) then
        let sp1 = sp\<lparr>sp_wheels := filter (\<lambda>j. j \<noteq> i) (sp_wheels sp)\<rparr> in Inr (if sp_spinning sp1 then stop sp1 else sp1)
      else Inr sp)"
| "run_spin pg (LaterElapsed i) sp =
     (case map_of (sp_later sp) i of None \<Rightarrow> Inr sp
      | Some l \<Rightarrow> Inr (run_later l (sp\<lparr>sp_later := filter (\<lambda>(j, _). j \<noteq> i) (sp_later sp)\<rparr>)))"
| "run_spin pg (StepUp n) sp = stepUp pg n sp"
| "run_spin pg (StepDown n) sp = stepDown pg n sp"
| "run_spin pg (PageUp n) sp = pageUp pg n sp"
| "run_spin pg (PageDown n) sp = pageDown pg n sp"
| "run_spin pg (SetValue a) sp = spinner_value a sp"
| "run_spin pg (SetOptions os) sp = set_spin_options os sp"

primrec run_spins :: "spin_page \<Rightarrow> spin_step list \<Rightarrow> spinner \<Rightarrow> spinner js" where
  "run_spins pg [] sp = Inr sp"
| "run_spins pg (s # ss) sp = js_bind (run_spin pg s sp) (run_spins pg ss)"

end
