(* ===== verification/UI_SpinnerProps.thy ===== *)
theory UI_SpinnerProps
  imports UI_Spinner
begin

text \<open>
  Whatever happens to a spinner with a step: \<open>start\<close>, \<open>spin\<close> and \<open>stop\<close> are told in this order, one timer
  repeats at most and none when it has stopped; and what it writes is a number within its limits, the
  nearest of its steps.
\<close>

section \<open>The order of the events\<close>

primrec spin_phase :: "spin_event \<Rightarrow> bool \<Rightarrow> bool option" where
  "spin_phase (StartEv r) s = (if s then None else Some r)"
| "spin_phase (SpinEv v r) s = (if s then Some s else None)"
| "spin_phase StopEv s = (if s then Some False else None)"
| "spin_phase ChangeEv s = Some s"

primrec spin_phases :: "spin_event list \<Rightarrow> bool \<Rightarrow> bool option" where
  "spin_phases [] s = Some s"
| "spin_phases (e # es) s = (case spin_phase e s of None \<Rightarrow> None | Some s1 \<Rightarrow> spin_phases es s1)"

lemma spin_phases_snoc: "spin_phases (l @ [e]) s = (case spin_phases l s of None \<Rightarrow> None | Some s1 \<Rightarrow> spin_phase e s1)"
  by (induction l arbitrary: s) (auto split: option.split)

definition sp_ok :: "spinner \<Rightarrow> bool" where
  "sp_ok sp \<longleftrightarrow> spin_phases (sp_log sp) False = Some (sp_spinning sp) \<and> (\<not> sp_spinning sp \<longrightarrow> sp_repeats sp = [] \<and> sp_wheels sp = []) \<and>
     (sp_repeats sp = [] \<or> (\<exists>i r. sp_repeats sp = [(i, r)] \<and> sp_timer sp = Some i)) \<and>
     (sp_wheels sp = [] \<or> (\<exists>i. sp_wheels sp = [i] \<and> sp_wheelTimer sp = Some i)) \<and> sp_step sp \<noteq> None"

text \<open>Changes of the other fields, and of the text.\<close>

definition same_run :: "spinner \<Rightarrow> spinner \<Rightarrow> bool" where
  "same_run sp sp1 \<longleftrightarrow> sp_spinning sp1 = sp_spinning sp \<and> sp_repeats sp1 = sp_repeats sp \<and> sp_wheels sp1 = sp_wheels sp \<and>
     sp_timer sp1 = sp_timer sp \<and> sp_wheelTimer sp1 = sp_wheelTimer sp \<and> sp_step sp1 = sp_step sp"

lemma sp_ok_same: "same_run sp sp1 \<Longrightarrow> sp_log sp1 = sp_log sp \<Longrightarrow> sp_ok sp \<Longrightarrow> sp_ok sp1"
  by (simp add: sp_ok_def same_run_def)

lemma sp_ok_change: "sp_ok sp \<Longrightarrow> sp_ok (log_spin ChangeEv sp)"
  by (simp add: sp_ok_def log_spin_def spin_phases_snoc)

lemma refresh_same: "same_run sp (spin_refresh sp)" "sp_log (spin_refresh sp) = sp_log sp" "sp_text (spin_refresh sp) = sp_text sp"
  by (simp_all add: same_run_def spin_refresh_def)

lemma refresh_ok: "sp_ok sp \<Longrightarrow> sp_ok (spin_refresh sp)"
  using sp_ok_same [OF refresh_same(1,2)] .

lemma adjust_returns: "sp_step sp \<noteq> None \<Longrightarrow> \<exists>r. adjustValue sp v = Inr r"
  by (auto simp: adjustValue_def precision_def Let_def)

lemma set_value_result: "sp_step sp \<noteq> None \<Longrightarrow> \<exists>t. set_value a b sp = Inr (spin_refresh (sp\<lparr>sp_text := t\<rparr>))"
proof -
  assume "sp_step sp \<noteq> None"
  then have adj: "\<exists>r. adjustValue sp x = Inr r" for x by (rule adjust_returns)
  show ?thesis
  proof (cases "case a of TextValue t \<Rightarrow> parse_value t | NumValue v \<Rightarrow> v")
    case (Some x)
    obtain r where "adjustValue sp x = Inr r" using adj by blast
    then show ?thesis using Some unfolding set_value_def Let_def Some by (cases b) auto
  qed (auto simp: set_value_def)
qed

lemma spin_ok:
  assumes "sp_ok sp"
  shows "\<exists>sp1. spin pg k sp = Inr sp1 \<and> sp_ok sp1 \<and> sp_spinning sp1 = sp_spinning sp"
proof -
  let ?c = "if sp_counter sp = 0 then 1 else sp_counter sp"
  let ?sp = "sp\<lparr>sp_counter := ?c\<rparr>" and ?v = "case current_value sp of None \<Rightarrow> 0 | Some v \<Rightarrow> v"
  have st: "sp_step ?sp \<noteq> None" using assms by (simp add: sp_ok_def)
  obtain r where r: "adjustValue ?sp (?v + k * increment ?sp (sp_counter ?sp)) = Inr r" using adjust_returns [OF st] by blast
  define sp2 where "sp2 = (if sp_spinning ?sp then log_spin (SpinEv r (on_spin pg (sp_log ?sp) r)) ?sp else ?sp)"
  have ok2: "sp_ok sp2" "sp_spinning sp2 = sp_spinning sp" "sp_step sp2 \<noteq> None"
    using assms st by (auto simp: sp2_def sp_ok_def log_spin_def spin_phases_snoc)
  have e: "spin pg k sp = (if \<not> sp_spinning ?sp \<or> on_spin pg (sp_log ?sp) r
      then js_bind (set_value (NumValue r) False sp2) (\<lambda>sp3. Inr (sp3\<lparr>sp_counter := Suc (sp_counter sp3)\<rparr>)) else Inr sp2)"
    unfolding spin_def Let_def r js_bind_Inr sp2_def by (rule refl)
  obtain t where t: "set_value (NumValue r) False sp2 = Inr (spin_refresh (sp2\<lparr>sp_text := t\<rparr>))" using set_value_result [OF ok2(3)] by blast
  let ?sp3 = "(spin_refresh (sp2\<lparr>sp_text := t\<rparr>))\<lparr>sp_counter := Suc (sp_counter (spin_refresh (sp2\<lparr>sp_text := t\<rparr>)))\<rparr>"
  have "same_run sp2 ?sp3" "sp_log ?sp3 = sp_log sp2" "sp_spinning ?sp3 = sp_spinning sp2" by (simp_all add: same_run_def spin_refresh_def)
  then have "sp_ok ?sp3" "sp_spinning ?sp3 = sp_spinning sp" using sp_ok_same ok2 by blast+
  then show ?thesis using e t ok2(1,2) by (cases "\<not> sp_spinning ?sp \<or> on_spin pg (sp_log ?sp) r") simp_all
qed

lemma spin_start_ok: "sp_ok sp \<Longrightarrow> sp_ok (snd (start pg sp)) \<and> (fst (start pg sp) \<longrightarrow> sp_spinning (snd (start pg sp)))"
  by (auto simp: start_def Let_def sp_ok_def log_spin_def spin_phases_snoc)

lemma clear_ok:
  "sp_ok sp \<Longrightarrow> sp_repeats (clear_repeat sp) = []" "sp_ok sp \<Longrightarrow> sp_wheels (clear_wheel sp) = []"
  by (auto simp: sp_ok_def clear_repeat_def clear_wheel_def)

lemma stop_ok: "sp_ok sp \<Longrightarrow> sp_ok (stop sp) \<and> \<not> sp_spinning (stop sp)"
  using clear_ok [of sp]
  by (auto simp: stop_def sp_ok_def log_spin_def spin_phases_snoc clear_repeat_def clear_wheel_def)

lemma repeat_ok:
  assumes "sp_ok sp" "sp_spinning sp"
  shows "\<exists>sp1. repeat pg ms k sp = Inr sp1 \<and> sp_ok sp1"
proof -
  let ?sp = "(clear_repeat sp)\<lparr>sp_timer := Some (sp_next (clear_repeat sp)), sp_repeats := sp_repeats (clear_repeat sp) @
    [(sp_next (clear_repeat sp), (if ms = 0 then 500 else ms), k)], sp_next := Suc (sp_next (clear_repeat sp))\<rparr>"
  have "sp_ok ?sp" using assms clear_ok(1) [OF assms(1)] by (simp add: sp_ok_def clear_repeat_def)
  then show ?thesis using spin_ok [of ?sp pg "k * step_of ?sp"] unfolding repeat_def Let_def by blast
qed

lemma modifier_ok:
  assumes "\<exists>sp1. f sp = Inr sp1 \<and> sp_ok sp1"
  shows "\<exists>sp1. modifier f sp = Inr sp1 \<and> sp_ok sp1"
  using assms refresh_ok sp_ok_change by (fastforce simp: modifier_def Let_def)

lemma keydown_ok: "sp_ok sp \<Longrightarrow> \<exists>sp1. spin_keydown pg code sp = Inr sp1 \<and> sp_ok sp1"
  using spin_start_ok [of sp pg] repeat_ok [of "snd (start pg sp)" pg 0] by (auto simp: spin_keydown_def Let_def split: prod.split)

lemma step_by_ok: "sp_ok sp \<Longrightarrow> \<exists>sp1. step_by pg k sp = Inr sp1 \<and> sp_ok sp1"
proof -
  assume ok: "sp_ok sp"
  obtain b sp1 where s: "start pg sp = (b, sp1)" by (cases "start pg sp")
  have ok1: "sp_ok sp1" using spin_start_ok [OF ok, of pg] s by simp
  obtain sp2 where "spin pg (k * step_of sp1) sp1 = Inr sp2" "sp_ok sp2" using spin_ok [OF ok1] by blast
  then show ?thesis using s ok1 stop_ok by (simp add: step_by_def)
qed

lemma mousewheel_ok: "sp_ok sp \<Longrightarrow> \<exists>sp1. mousewheel pg d sp = Inr sp1 \<and> sp_ok sp1"
proof -
  assume ok: "sp_ok sp"
  obtain b sp1 where s: "(if sp_spinning sp then (True, sp) else start pg sp) = (b, sp1)" by (cases "if sp_spinning sp then (True, sp) else start pg sp")
  have ok1: "sp_ok sp1" "b \<longrightarrow> sp_spinning sp1" using spin_start_ok [OF ok, of pg] s ok by (auto split: if_splits)
  show ?thesis
  proof (cases "d = 0 \<or> \<not> b")
    case True
    then show ?thesis using ok ok1(1) s by (auto simp: mousewheel_def)
  next
    case False
    obtain sp2 where sp2: "spin pg ((if d > 0 then 1 else - 1) * step_of sp1) sp1 = Inr sp2" "sp_ok sp2" "sp_spinning sp2"
      using spin_ok [OF ok1(1)] ok1(2) False by blast
    let ?sp3 = "clear_wheel sp2"
    let ?sp = "?sp3\<lparr>sp_wheelTimer := Some (sp_next ?sp3), sp_wheels := sp_wheels ?sp3 @ [sp_next ?sp3], sp_next := Suc (sp_next ?sp3)\<rparr>"
    have "sp_ok ?sp" using sp2(2,3) clear_ok(2) [OF sp2(2)] by (simp add: sp_ok_def clear_wheel_def)
    moreover have "mousewheel pg d sp = Inr ?sp"
      unfolding mousewheel_def using False s sp2(1) by (simp add: Let_def)
    ultimately show ?thesis by blast
  qed
qed

lemma later_same:
  "same_run sp (delay_later l sp)" "sp_log (delay_later l sp) = sp_log sp" "same_run sp (checkFocus p sp)" "sp_log (checkFocus p sp) = sp_log sp"
  "same_run sp (run_later l sp)" "sp_log (run_later l sp) = sp_log sp"
  by (auto simp: same_run_def delay_later_def checkFocus_def focus_field_def focus_def run_later_def split: later.split)

lemma same_run_trans: "same_run sp sp1 \<Longrightarrow> same_run sp1 sp2 \<Longrightarrow> same_run sp sp2"
  by (simp add: same_run_def)

lemma press_ok: "sp_ok sp \<Longrightarrow> \<exists>sp1. press_button pg up sp = Inr sp1 \<and> sp_ok sp1"
proof -
  assume ok: "sp_ok sp"
  let ?p = "if sp_active sp then sp_previous sp else Some (sp_text sp)"
  let ?sp = "delay_later (CheckFocus ?p) ((checkFocus ?p sp)\<lparr>sp_cancelBlur := True\<rparr>)"
  have "same_run sp ?sp" "sp_log ?sp = sp_log sp"
    using later_same by (simp_all add: same_run_def)
  then have ok1: "sp_ok ?sp" using sp_ok_same ok by blast
  obtain b sp1 where s: "start pg ?sp = (b, sp1)" by (cases "start pg ?sp")
  have "sp_ok sp1" "b \<longrightarrow> sp_spinning sp1" using spin_start_ok [OF ok1, of pg] s by simp_all
  then show ?thesis using repeat_ok [of sp1 pg 0] s by (simp add: press_button_def Let_def)
qed

lemma enter_ok: "sp_ok sp \<Longrightarrow> \<exists>sp1. enter_button pg up a sp = Inr sp1 \<and> sp_ok sp1"
  using spin_start_ok [of sp pg] repeat_ok [of "snd (start pg sp)" pg 0] by (auto simp: enter_button_def Let_def split: prod.split)

text \<open>The options given keep a step.\<close>

primrec step_option :: "spinner_option \<Rightarrow> bool" where
  "step_option (SetMin a) = True"
| "step_option (SetMax a) = True"
| "step_option (SetStep a) = (limit_of a \<noteq> None)"
| "step_option (SetPage p) = True"
| "step_option (SetIncremental f) = True"
| "step_option (SetDisabled b) = True"
| "step_option SetCulture = True"

primrec keeps_step :: "spin_step \<Rightarrow> bool" where
  "keeps_step (KeyDown c) = True" | "keeps_step KeyUp = True" | "keeps_step Focus = True" | "keeps_step Blur = True"
| "keeps_step (Wheel d) = True" | "keeps_step (PressButton up) = True" | "keeps_step ReleaseButton = True"
| "keeps_step (EnterButton up a) = True" | "keeps_step LeaveButton = True" | "keeps_step (RepeatElapsed i) = True"
| "keeps_step (WheelElapsed i) = True" | "keeps_step (LaterElapsed i) = True" | "keeps_step (StepUp n) = True"
| "keeps_step (StepDown n) = True" | "keeps_step (PageUp n) = True" | "keeps_step (PageDown n) = True"
| "keeps_step (SetValue a) = True" | "keeps_step (SetOptions os) = list_all step_option os"

lemma setOption_ok: "sp_ok sp \<Longrightarrow> step_option p \<Longrightarrow> sp_ok (set_spin_option p sp)"
  by (cases p) (simp_all add: sp_ok_def)

lemma setOptions_ok: "sp_ok sp \<Longrightarrow> list_all step_option os \<Longrightarrow> sp_ok (fold set_spin_option os sp)"
  by (induction os arbitrary: sp) (simp_all add: setOption_ok)

lemma blur_ok: "sp_ok sp \<Longrightarrow> sp_ok (blur sp)"
proof -
  assume ok: "sp_ok sp"
  have "sp_ok (sp\<lparr>sp_cancelBlur := False\<rparr>)" by (rule sp_ok_same [OF _ _ ok]) (simp_all add: same_run_def)
  moreover have "sp_ok (spin_refresh (stop sp))" using stop_ok [OF ok] refresh_ok by blast
  ultimately show ?thesis using sp_ok_change by (simp add: blur_def Let_def)
qed

lemma seen_ok: "\<exists>sp1. h sp = Inr sp1 \<and> sp_ok sp1 \<Longrightarrow> sp_ok sp \<Longrightarrow> \<exists>sp1. seen h sp = Inr sp1 \<and> sp_ok sp1"
  by (simp add: seen_def)

lemma elapsed_ok:
  assumes "sp_ok sp"
  shows "\<exists>sp1. run_spin pg (RepeatElapsed i) sp = Inr sp1 \<and> sp_ok sp1"
proof (cases "map_of (sp_repeats sp) i")
  case (Some r)
  obtain ms k where r: "r = (ms, k)" by (cases r)
  let ?sp = "sp\<lparr>sp_repeats := filter (\<lambda>(j, _). j \<noteq> i) (sp_repeats sp)\<rparr>"
  have "sp_repeats sp = [(i, r)]" using assms Some by (auto simp: sp_ok_def split: if_splits)
  then have "sp_ok ?sp" "sp_spinning ?sp" using assms by (auto simp: sp_ok_def)
  then show ?thesis using repeat_ok Some r by simp
qed (use assms in simp)

lemma wheel_elapsed_ok:
  assumes "sp_ok sp"
  shows "\<exists>sp1. run_spin pg (WheelElapsed i) sp = Inr sp1 \<and> sp_ok sp1"
proof (cases "i \<in> set (sp_wheels sp)")
  case True
  let ?sp = "sp\<lparr>sp_wheels := filter (\<lambda>j. j \<noteq> i) (sp_wheels sp)\<rparr>"
  have "sp_wheels sp = [i]" using assms True by (auto simp: sp_ok_def)
  then have "sp_ok ?sp" using assms by (auto simp: sp_ok_def)
  then show ?thesis using stop_ok True by (simp add: Let_def)
qed (use assms in simp)

lemma later_elapsed_ok:
  assumes "sp_ok sp"
  shows "\<exists>sp1. run_spin pg (LaterElapsed i) sp = Inr sp1 \<and> sp_ok sp1"
proof (cases "map_of (sp_later sp) i")
  case (Some l)
  let ?sp = "sp\<lparr>sp_later := filter (\<lambda>(j, _). j \<noteq> i) (sp_later sp)\<rparr>"
  have "sp_ok ?sp" by (rule sp_ok_same [OF _ _ assms]) (simp_all add: same_run_def)
  then have "sp_ok (run_later l ?sp)" using sp_ok_same [OF later_same(5,6)] by blast
  then show ?thesis using Some by simp
qed (use assms in simp)

lemma run_spin_ok:
  assumes "sp_ok sp" "keeps_step s"
  shows "\<exists>sp1. run_spin pg s sp = Inr sp1 \<and> sp_ok sp1"
proof (cases s)
  case (KeyDown c)
  then show ?thesis using seen_ok [OF keydown_ok] assms(1) by simp
next
  case KeyUp
  then show ?thesis using seen_ok [of "\<lambda>sp. Inr (stop sp)" sp] stop_ok assms(1) by simp
next
  case Focus
  have "sp_ok (focus sp)" by (rule sp_ok_same [OF _ _ assms(1)]) (simp_all add: same_run_def focus_def)
  then show ?thesis using Focus seen_ok [of "\<lambda>sp. Inr (focus sp)" sp] assms(1) by simp
next
  case Blur
  have "sp_ok (sp\<lparr>sp_active := False\<rparr>)" by (rule sp_ok_same [OF _ _ assms(1)]) (simp_all add: same_run_def)
  then show ?thesis using Blur seen_ok [of "\<lambda>sp. Inr (blur sp)" "sp\<lparr>sp_active := False\<rparr>"] blur_ok by simp
next
  case (Wheel d)
  then show ?thesis using seen_ok [OF mousewheel_ok] assms(1) by simp
next
  case (PressButton up)
  then show ?thesis using seen_ok [OF press_ok] assms(1) by simp
next
  case ReleaseButton
  then show ?thesis using seen_ok [of "\<lambda>sp. Inr (stop sp)" sp] stop_ok assms(1) by simp
next
  case (EnterButton up a)
  then show ?thesis using seen_ok [OF enter_ok] assms(1) by simp
next
  case LeaveButton
  then show ?thesis using seen_ok [of "\<lambda>sp. Inr (stop sp)" sp] stop_ok assms(1) by simp
next
  case (RepeatElapsed i)
  then show ?thesis using elapsed_ok [OF assms(1)] by simp
next
  case (WheelElapsed i)
  then show ?thesis using wheel_elapsed_ok [OF assms(1)] by simp
next
  case (LaterElapsed i)
  then show ?thesis using later_elapsed_ok [OF assms(1)] by simp
next
  case (StepUp n)
  then show ?thesis using modifier_ok [of "step_by pg (or_one n)" sp] step_by_ok [OF assms(1)] by (simp add: stepUp_def)
next
  case (StepDown n)
  then show ?thesis using modifier_ok [of "step_by pg (- or_one n)" sp] step_by_ok [OF assms(1)] by (simp add: stepDown_def)
next
  case (PageUp n)
  then show ?thesis using modifier_ok [of "\<lambda>sp. step_by pg (or_one (or_one n * sp_page sp)) sp" sp] step_by_ok [OF assms(1)] by (simp add: pageUp_def)
next
  case (PageDown n)
  then show ?thesis using modifier_ok [of "\<lambda>sp. step_by pg (- or_one (or_one n * sp_page sp)) sp" sp] step_by_ok [OF assms(1)] by (simp add: pageDown_def)
next
  case (SetValue a)
  obtain t where "set_value a False sp = Inr (spin_refresh (sp\<lparr>sp_text := t\<rparr>))" using set_value_result assms(1) unfolding sp_ok_def by blast
  moreover have "sp_ok (spin_refresh (sp\<lparr>sp_text := t\<rparr>))" by (rule sp_ok_same [OF _ _ assms(1)]) (simp_all add: same_run_def spin_refresh_def)
  ultimately show ?thesis using SetValue modifier_ok [of "set_value a False" sp] by (simp add: spinner_value_def)
next
  case (SetOptions os)
  have "sp_ok (fold set_spin_option os sp)" using setOptions_ok assms SetOptions by simp
  then show ?thesis using SetOptions modifier_ok [of "\<lambda>sp. Inr (fold set_spin_option os sp)" sp] by (simp add: set_spin_options_def)
qed

lemma run_spins_ok: "sp_ok sp \<Longrightarrow> list_all keeps_step ss \<Longrightarrow> \<exists>sp1. run_spins pg ss sp = Inr sp1 \<and> sp_ok sp1"
proof (induction ss arbitrary: sp)
  case (Cons s ss)
  from run_spin_ok [OF Cons.prems(1), of s pg] Cons.prems(2) obtain sp1 where "run_spin pg s sp = Inr sp1" "sp_ok sp1" by auto
  then show ?case using Cons.IH [of sp1] Cons.prems(2) by simp
qed simp

lemma created_ok:
  assumes "limit_of st \<noteq> None"
  shows "\<exists>sp. create_spinner mx mn st inc t = Inr sp \<and> sp_ok sp \<and> sp_step sp = limit_of st"
proof -
  define sp1 where "sp1 = fold set_spin_option [SetMax mx, SetMin mn, SetStep st] \<lparr>sp_min = None, sp_max = None, sp_step = None, sp_page = 10,
    sp_incremental = inc, sp_disabled = False, sp_text = t, sp_aria = (None, None, None), sp_spinning = False, sp_counter = 0, sp_previous = None,
    sp_cancelBlur = False, sp_active = False, sp_timer = None, sp_repeats = [], sp_wheelTimer = None, sp_wheels = [], sp_later = [], sp_next = 0,
    sp_log = []\<rparr>"
  have ok: "sp_ok sp1" "sp_step sp1 = limit_of st" using assms by (simp_all add: sp1_def sp_ok_def)
  obtain u where u: "set_value (TextValue (sp_text sp1)) True sp1 = Inr (spin_refresh (sp1\<lparr>sp_text := u\<rparr>))" using set_value_result assms ok(2) by metis
  have "sp_ok (spin_refresh (spin_refresh (sp1\<lparr>sp_text := u\<rparr>)))" by (rule sp_ok_same [OF _ _ ok(1)]) (simp_all add: same_run_def spin_refresh_def)
  then show ?thesis using u ok(2) unfolding create_spinner_def Let_def sp1_def [symmetric] by (simp add: spin_refresh_def)
qed

text \<open>C13: Whatever keys, buttons, wheel, timers, methods and options change a spinner that has a step, and
  whatever the page answers, nothing is thrown, the page is told start, spins and stop in this order, the timer
  that repeats is one at most, and when the spinner has stopped no timer will change it.\<close>
theorem spinner_protocol:
  assumes "limit_of st \<noteq> None" "list_all keeps_step ss"
  shows "\<exists>sp0 sp. create_spinner mx mn st inc t = Inr sp0 \<and> run_spins pg ss sp0 = Inr sp \<and>
    spin_phases (sp_log sp) False = Some (sp_spinning sp) \<and> length (sp_repeats sp) \<le> 1 \<and>
    (\<not> sp_spinning sp \<longrightarrow> sp_repeats sp = [] \<and> sp_wheels sp = [])"
proof -
  obtain sp0 where sp0: "create_spinner mx mn st inc t = Inr sp0" "sp_ok sp0" using created_ok [OF assms(1)] by blast
  obtain sp where sp: "run_spins pg ss sp0 = Inr sp" "sp_ok sp" using run_spins_ok [OF sp0(2) assms(2)] by blast
  have "spin_phases (sp_log sp) False = Some (sp_spinning sp)" "\<not> sp_spinning sp \<longrightarrow> sp_repeats sp = [] \<and> sp_wheels sp = []"
    using sp(2) unfolding sp_ok_def by blast+
  moreover have "length (sp_repeats sp) \<le> 1" using sp(2) by (auto simp: sp_ok_def)
  ultimately show ?thesis using sp0(1) sp(1) by blast
qed

definition quiet_page :: spin_page where
  "quiet_page = \<lparr>on_start = (\<lambda>_. True), on_spin = (\<lambda>_ _. True)\<rparr>"

definition held_key :: "spin_step list" where
  "held_key = [Focus, KeyDown 38, RepeatElapsed 0, RepeatElapsed 1, KeyUp]"

lemma spinner_protocol_witness:
  "\<exists>sp0 sp. create_spinner (NumLimit 10) (TextLimit ''0'') (TextLimit ''0.5'') StandardIncrement ''7'' = Inr sp0 \<and>
    run_spins quiet_page held_key sp0 = Inr sp \<and> spin_phases (sp_log sp) False = Some (sp_spinning sp)"
proof -
  have st: "limit_of (TextLimit ''0.5'') \<noteq> None" by code_simp
  have k: "list_all keeps_step held_key" by (simp add: held_key_def)
  show ?thesis using spinner_protocol [OF st k, of "NumLimit 10" "TextLimit ''0''" StandardIncrement "''7''" quiet_page] by blast
qed

section \<open>The values\<close>

text \<open>The digits of a number that are counted are all it has.\<close>

lemma decimal_int: "decimal n (of_int k)"
proof -
  have "of_int k = of_int (k * 10 ^ n) / (10 ^ n :: rat)" by simp
  then show ?thesis unfolding decimal_iff by blast
qed

lemma decimal_more: "decimal n x \<Longrightarrow> n \<le> m \<Longrightarrow> decimal m x"
proof -
  assume "decimal n x" "n \<le> m"
  then obtain k where "x = of_int k / 10 ^ n" using decimal_iff by blast
  moreover have "(10 ^ m :: rat) = 10 ^ n * 10 ^ (m - n)" using \<open>n \<le> m\<close> by (simp flip: power_add)
  ultimately have "x = of_int (k * 10 ^ (m - n)) / 10 ^ m" by simp
  then show ?thesis unfolding decimal_iff by blast
qed

lemma length_frac_digits: "length (frac_digits n r) \<le> n"
  by (induction n arbitrary: r) simp_all

lemma digits_no_dot: "list_all is_digit s \<Longrightarrow> dropWhile (\<lambda>c. c \<noteq> CHR ''.'') (s @ e) = dropWhile (\<lambda>c. c \<noteq> CHR ''.'') e"
  using not_digit(3) by (induction s) auto

text \<open>The numbers that are written without an exponent.\<close>

definition plain_number :: "rat \<Rightarrow> bool" where
  "plain_number x \<longleftrightarrow> x = 0 \<or> 1 / 10 ^ 6 \<le> \<bar>x\<bar> \<and> \<bar>x\<bar> < 10 ^ 21"

lemma precision_enough_pos:
  assumes "0 \<le> x" "decimal 20 x" "plain_number x"
  shows "decimal (length (dropWhile (\<lambda>c. c \<noteq> CHR ''.'') (num_text x)) - 1) x" "length (dropWhile (\<lambda>c. c \<noteq> CHR ''.'') (num_text x)) - 1 \<le> 20"
proof -
  define r where "r = x - of_int \<lfloor>x\<rfloor>"
  have r: "0 \<le> r" "r < 1" unfolding r_def by linarith+
  have x: "x = of_int \<lfloor>x\<rfloor> + r" by (simp add: r_def)
  have "decimal 20 r" using decimal_add [OF assms(2) decimal_int [of 20 "- \<lfloor>x\<rfloor>"]] by (simp add: r_def)
  note fs = frac_digits_back [OF r this]
  have dot: "dropWhile (\<lambda>c. c \<noteq> CHR ''.'') (num_text x) = (if r = 0 then [] else CHR ''.'' # frac_digits 20 r)"
    using digits_no_dot [OF show_nat_digits, of "\<lfloor>x\<rfloor>"] assms(1,3) by (simp add: num_text_def plain_number_def plain_text_def Let_def r_def [symmetric])
  show "length (dropWhile (\<lambda>c. c \<noteq> CHR ''.'') (num_text x)) - 1 \<le> 20" unfolding dot using length_frac_digits [of 20 r] by simp
  show "decimal (length (dropWhile (\<lambda>c. c \<noteq> CHR ''.'') (num_text x)) - 1) x"
  proof (cases "r = 0")
    case True
    then show ?thesis using x decimal_int [of _ "\<lfloor>x\<rfloor>"] by simp
  next
    case False
    have "decimal (length (frac_digits 20 r)) r" using fs decimal_iff by metis
    then show ?thesis unfolding dot using decimal_add [OF decimal_int [of _ "\<lfloor>x\<rfloor>"]] x False by fastforce
  qed
qed

lemma precision_enough:
  assumes "decimal 20 x" "plain_number x"
  shows "decimal (precisionOf x) x" "precisionOf x \<le> 20"
proof -
  have t: "dropWhile (\<lambda>c. c \<noteq> CHR ''.'') (num_str x) = dropWhile (\<lambda>c. c \<noteq> CHR ''.'') (num_text \<bar>x\<bar>)" by (simp add: num_str_def)
  have a: "decimal 20 \<bar>x\<bar>" "plain_number \<bar>x\<bar>" using assms decimal_minus by (auto simp: abs_if plain_number_def)
  note e = precision_enough_pos [OF abs_ge_zero a]
  show "precisionOf x \<le> 20" using e(2) by (simp add: precisionOf_def Let_def t)
  have "decimal (precisionOf x) \<bar>x\<bar>" using e(1) by (simp add: precisionOf_def Let_def t)
  then show "decimal (precisionOf x) x" using decimal_minus by (cases "x < 0") fastforce+
qed

text \<open>A spinner with a step and limits that have at most twenty digits, whose step and minimum are written without an
  exponent: the digits of others are not counted right.\<close>

definition spinner_limits :: "spinner \<Rightarrow> rat \<Rightarrow> bool" where
  "spinner_limits sp s \<longleftrightarrow> sp_step sp = Some s \<and> 0 < s \<and> decimal 20 s \<and> plain_number s \<and>
     pred_option plain_number (sp_min sp) \<and> pred_option (decimal 20) (sp_min sp) \<and> pred_option (decimal 20) (sp_max sp) \<and>
     (\<forall>m m1. sp_min sp = Some m \<longrightarrow> sp_max sp = Some m1 \<longrightarrow> m \<le> m1)"

definition within_limits :: "spinner \<Rightarrow> rat \<Rightarrow> bool" where
  "within_limits sp v \<longleftrightarrow> (\<forall>m. sp_min sp = Some m \<longrightarrow> m \<le> v) \<and> (\<forall>m. sp_max sp = Some m \<longrightarrow> v \<le> m)"

definition base_of :: "spinner \<Rightarrow> rat" where
  "base_of sp = (case sp_min sp of None \<Rightarrow> 0 | Some m \<Rightarrow> m)"

definition nearest_step :: "spinner \<Rightarrow> rat \<Rightarrow> rat \<Rightarrow> rat" where
  "nearest_step sp s v = base_of sp + of_int (js_round ((v - base_of sp) / s)) * s"

lemma adjust_nearest:
  assumes "spinner_limits sp s"
  shows "adjustValue sp v = Inr (Some (limited sp (nearest_step sp s v)))" "decimal 20 (nearest_step sp s v)"
proof -
  have s: "sp_step sp = Some s" "0 < s" "decimal 20 s" "plain_number s" using assms by (simp_all add: spinner_limits_def)
  have mn: "decimal 20 (base_of sp)" using assms decimal_int [of 20 0] by (cases "sp_min sp") (simp_all add: spinner_limits_def base_of_def)
  obtain n where n: "precision sp = Inr n" "precisionOf s \<le> n" "n \<le> 20" "decimal n (base_of sp)"
  proof (cases "sp_min sp")
    case None
    then show ?thesis using that [of "precisionOf s"] s precision_enough [OF s(3,4)] decimal_int [of _ 0] by (simp add: precision_def base_of_def)
  next
    case (Some m)
    have m: "decimal 20 m" "plain_number m" using mn Some assms by (simp_all add: base_of_def spinner_limits_def)
    show ?thesis
      using that [of "max (precisionOf s) (precisionOf m)"] s Some precision_enough [OF s(3,4)] precision_enough [OF m]
        decimal_more [OF precision_enough(1) [OF m]] by (simp add: precision_def base_of_def)
  qed
  have "decimal n s" using precision_enough(1) [OF s(3,4)] n(2) decimal_more by blast
  then have d: "decimal n (nearest_step sp s v)"
    unfolding nearest_step_def using n(4) decimal_add decimal_mult_int by (metis mult.commute)
  then show "decimal 20 (nearest_step sp s v)" using n(3) decimal_more by blast
  have "to_fixed n (nearest_step sp s v) = nearest_step sp s v" using to_fixed_decimal [OF d] by blast
  then show "adjustValue sp v = Inr (Some (limited sp (nearest_step sp s v)))"
    using s n(1) by (simp add: adjustValue_def js_div_def nearest_step_def base_of_def Let_def)
qed

lemma nearest_step_near: "0 < s \<Longrightarrow> \<bar>nearest_step sp s v - v\<bar> \<le> s / 2"
proof -
  assume s: "0 < s"
  let ?q = "(v - base_of sp) / s"
  have "\<bar>of_int (js_round ?q) - ?q\<bar> \<le> 1 / 2" unfolding js_round_def by linarith
  then have "\<bar>of_int (js_round ?q) - ?q\<bar> * s \<le> 1 / 2 * s" using s by (intro mult_right_mono) auto
  moreover have "(of_int (js_round ?q) - ?q) * s = nearest_step sp s v - v" using s by (simp add: nearest_step_def field_simps)
  ultimately show ?thesis using s by (metis abs_mult abs_of_pos mult.commute mult.right_neutral times_divide_eq_right)
qed

lemma limited_within:
  assumes "spinner_limits sp s"
  shows "within_limits sp (limited sp v)" "within_limits sp u \<Longrightarrow> \<bar>limited sp v - u\<bar> \<le> \<bar>v - u\<bar>" "decimal 20 v \<Longrightarrow> decimal 20 (limited sp v)"
  using assms by (auto simp: spinner_limits_def within_limits_def limited_def split: option.splits)

section \<open>What is written\<close>

definition same_limits :: "spinner \<Rightarrow> spinner \<Rightarrow> bool" where
  "same_limits sp sp1 \<longleftrightarrow> sp_min sp1 = sp_min sp \<and> sp_max sp1 = sp_max sp \<and> sp_step sp1 = sp_step sp"

definition still :: "spinner \<Rightarrow> spinner \<Rightarrow> bool" where
  "still sp sp1 \<longleftrightarrow> same_limits sp sp1 \<and> sp_text sp1 = sp_text sp"

definition wrote :: "spinner \<Rightarrow> spinner \<Rightarrow> bool" where
  "wrote sp sp1 \<longleftrightarrow> same_limits sp sp1 \<and> (sp_text sp1 = sp_text sp \<or> (\<exists>r. within_limits sp r \<and> decimal 20 r \<and> sp_text sp1 = num_str r))"

lemma limits_cong: "same_limits sp sp1 \<Longrightarrow> spinner_limits sp1 = spinner_limits sp \<and> within_limits sp1 = within_limits sp \<and>
    limited sp1 = limited sp \<and> nearest_step sp1 = nearest_step sp"
  by (auto simp: same_limits_def spinner_limits_def within_limits_def limited_def nearest_step_def base_of_def fun_eq_iff split: option.split)

lemma adjust_cong: "same_limits sp sp1 \<Longrightarrow> adjustValue sp1 v = adjustValue sp v"
proof -
  assume h: "same_limits sp sp1"
  have "precision sp1 = precision sp" using h by (simp add: precision_def same_limits_def split: option.split)
  then show ?thesis using h limits_cong [OF h] by (simp add: adjustValue_def same_limits_def)
qed

lemma still_wrote: "still sp sp1 \<Longrightarrow> wrote sp sp1"
  by (simp add: still_def wrote_def)

lemma wrote_still: "wrote sp sp1 \<Longrightarrow> still sp1 sp2 \<Longrightarrow> wrote sp sp2"
  by (auto simp: still_def wrote_def same_limits_def)

lemma still_then: "still sp sp1 \<Longrightarrow> wrote sp1 sp2 \<Longrightarrow> wrote sp sp2"
  using limits_cong [of sp sp1] by (auto simp: still_def wrote_def same_limits_def)

lemma still_trans: "still sp sp1 \<Longrightarrow> still sp1 sp2 \<Longrightarrow> still sp sp2"
  by (simp add: still_def same_limits_def)

lemma still_limits: "still sp sp1 \<Longrightarrow> spinner_limits sp s \<Longrightarrow> spinner_limits sp1 s"
  using limits_cong [of sp sp1] by (simp add: still_def)

lemma still_steps:
  "still sp (log_spin e sp)" "still sp (spin_refresh sp)" "still sp (snd (start pg sp))" "still sp (stop sp)" "still sp (clear_repeat sp)"
  "still sp (clear_wheel sp)" "still sp (focus sp)" "still sp (blur sp)" "still sp (delay_later l sp)" "still sp (checkFocus p sp)"
  "still sp (run_later l sp)"
  by (auto simp: still_def same_limits_def log_spin_def spin_refresh_def start_def stop_def clear_repeat_def clear_wheel_def focus_def
      blur_def delay_later_def checkFocus_def focus_field_def run_later_def Let_def split: later.split)

lemma set_value_number:
  assumes "spinner_limits sp s" "(case a of TextValue t \<Rightarrow> parse_value t | NumValue v \<Rightarrow> v) = Some x"
  shows "set_value a False sp = Inr (spin_refresh (sp\<lparr>sp_text := num_str (limited sp (nearest_step sp s x))\<rparr>))"
  using assms(2) adjust_nearest(1) [OF assms(1), of x] unfolding set_value_def Let_def by (simp add: nan_text_def)

lemma nearest_within: "spinner_limits sp s \<Longrightarrow> within_limits sp (limited sp (nearest_step sp s x)) \<and> decimal 20 (limited sp (nearest_step sp s x))"
  using limited_within adjust_nearest(2) by blast

lemma set_value_wrote:
  assumes "spinner_limits sp s" "(case a of TextValue t \<Rightarrow> parse_value t | NumValue v \<Rightarrow> v) = Some x" "set_value a False sp = Inr sp1"
  shows "wrote sp sp1"
proof -
  have "sp1 = spin_refresh (sp\<lparr>sp_text := num_str (limited sp (nearest_step sp s x))\<rparr>)" using assms(3) set_value_number [OF assms(1,2)] by simp
  then have "same_limits sp sp1" "sp_text sp1 = num_str (limited sp (nearest_step sp s x))" by (simp_all add: same_limits_def spin_refresh_def)
  then show ?thesis unfolding wrote_def using nearest_within [OF assms(1)] by blast
qed

lemma spin_wrote:
  assumes "spinner_limits sp s" "spin pg k sp = Inr sp1"
  shows "wrote sp sp1"
proof -
  let ?sp = "sp\<lparr>sp_counter := (if sp_counter sp = 0 then 1 else sp_counter sp)\<rparr>"
  let ?v = "(case current_value sp of None \<Rightarrow> 0 | Some v \<Rightarrow> v) + k * increment ?sp (sp_counter ?sp)"
  have l: "spinner_limits ?sp s" using assms(1) by (simp add: spinner_limits_def)
  define r where "r = limited ?sp (nearest_step ?sp s ?v)"
  define sp2 where "sp2 = (if sp_spinning ?sp then log_spin (SpinEv (Some r) (on_spin pg (sp_log ?sp) (Some r))) ?sp else ?sp)"
  have e: "spin pg k sp = (if \<not> sp_spinning ?sp \<or> on_spin pg (sp_log ?sp) (Some r)
      then js_bind (set_value (NumValue (Some r)) False sp2) (\<lambda>sp3. Inr (sp3\<lparr>sp_counter := Suc (sp_counter sp3)\<rparr>)) else Inr sp2)"
    unfolding spin_def Let_def adjust_nearest(1) [OF l] js_bind_Inr sp2_def r_def by (rule refl)
  have st: "still sp sp2" by (simp add: still_def same_limits_def sp2_def log_spin_def)
  show ?thesis
  proof (cases "\<not> sp_spinning ?sp \<or> on_spin pg (sp_log ?sp) (Some r)")
    case True
    then have "js_bind (set_value (NumValue (Some r)) False sp2) (\<lambda>sp3. Inr (sp3\<lparr>sp_counter := Suc (sp_counter sp3)\<rparr>)) = Inr sp1"
      using e assms(2) by simp
    then obtain sp3 where sp3: "set_value (NumValue (Some r)) False sp2 = Inr sp3" "sp1 = sp3\<lparr>sp_counter := Suc (sp_counter sp3)\<rparr>"
      unfolding js_bind_eq_Inr by auto
    have "wrote sp2 sp3" using set_value_wrote [OF still_limits [OF st assms(1)] _ sp3(1)] by simp
    moreover have "still sp3 sp1" by (simp add: sp3(2) still_def same_limits_def)
    ultimately show ?thesis using wrote_still still_then [OF st] by blast
  next
    case False
    then have "sp1 = sp2" using e assms(2) by simp
    then show ?thesis using still_wrote [OF st] by simp
  qed
qed

lemma repeat_wrote:
  assumes "spinner_limits sp s" "repeat pg ms k sp = Inr sp1"
  shows "wrote sp sp1"
proof -
  let ?c = "clear_repeat sp"
  let ?sp = "?c\<lparr>sp_timer := Some (sp_next ?c), sp_repeats := sp_repeats ?c @ [(sp_next ?c, (if ms = 0 then 500 else ms), k)], sp_next := Suc (sp_next ?c)\<rparr>"
  have st: "still sp ?sp" by (simp add: still_def same_limits_def clear_repeat_def)
  have "spin pg (k * step_of ?sp) ?sp = Inr sp1" using assms(2) unfolding repeat_def Let_def by blast
  then show ?thesis using spin_wrote [OF still_limits [OF st assms(1)]] still_then [OF st] by blast
qed

lemma start_then:
  assumes "spinner_limits sp s" "start pg sp = (b, sp1)"
  shows "still sp sp1" "spinner_limits sp1 s"
  using still_steps(3) [of sp pg] still_limits [OF _ assms(1)] assms(2) by simp_all

lemma keydown_wrote: "spinner_limits sp s \<Longrightarrow> spin_keydown pg c sp = Inr sp1 \<Longrightarrow> wrote sp sp1"
proof -
  assume h: "spinner_limits sp s" "spin_keydown pg c sp = Inr sp1"
  obtain b sp0 where st: "start pg sp = (b, sp0)" by (cases "start pg sp")
  note s0 = start_then [OF h(1) st]
  have "sp1 = sp0 \<or> (\<exists>k. repeat pg 0 k sp0 = Inr sp1)" using h(2) st by (auto simp: spin_keydown_def split: if_splits)
  then show ?thesis using still_wrote [OF s0(1)] repeat_wrote [OF s0(2)] still_then [OF s0(1)] by blast
qed

lemma enter_wrote: "spinner_limits sp s \<Longrightarrow> enter_button pg up a sp = Inr sp1 \<Longrightarrow> wrote sp sp1"
proof -
  assume h: "spinner_limits sp s" "enter_button pg up a sp = Inr sp1"
  obtain b sp0 where st: "start pg sp = (b, sp0)" by (cases "start pg sp")
  note s0 = start_then [OF h(1) st]
  have "sp1 = sp \<or> sp1 = sp0 \<or> (\<exists>k. repeat pg 0 k sp0 = Inr sp1)" using h(2) st by (auto simp: enter_button_def split: if_splits)
  moreover have "wrote sp sp" by (rule still_wrote) (simp add: still_def same_limits_def)
  ultimately show ?thesis using still_wrote [OF s0(1)] repeat_wrote [OF s0(2)] still_then [OF s0(1)] by blast
qed

lemma press_wrote: "spinner_limits sp s \<Longrightarrow> press_button pg up sp = Inr sp1 \<Longrightarrow> wrote sp sp1"
proof -
  assume h: "spinner_limits sp s" "press_button pg up sp = Inr sp1"
  let ?p = "if sp_active sp then sp_previous sp else Some (sp_text sp)"
  let ?c = "(checkFocus ?p sp)\<lparr>sp_cancelBlur := True\<rparr>"
  let ?sp = "delay_later (CheckFocus ?p) ?c"
  have "still sp ?c" using still_steps(10) [of sp ?p] by (simp add: still_def same_limits_def)
  then have st0: "still sp ?sp" using still_steps(9) still_trans by blast
  obtain b sp0 where st: "start pg ?sp = (b, sp0)" by (cases "start pg ?sp")
  note s0 = start_then [OF still_limits [OF st0 h(1)] st]
  have "sp1 = sp0 \<or> (\<exists>k. repeat pg 0 k sp0 = Inr sp1)" using h(2) st by (auto simp: press_button_def Let_def split: if_splits)
  then show ?thesis using still_wrote repeat_wrote [OF s0(2)] still_then still_trans [OF st0 s0(1)] by blast
qed

lemma wheel_wrote: "spinner_limits sp s \<Longrightarrow> mousewheel pg d sp = Inr sp1 \<Longrightarrow> wrote sp sp1"
proof -
  assume h: "spinner_limits sp s" "mousewheel pg d sp = Inr sp1"
  obtain b sp0 where st: "(if sp_spinning sp then (True, sp) else start pg sp) = (b, sp0)" by (cases "if sp_spinning sp then (True, sp) else start pg sp")
  have refl: "still sp sp" by (simp add: still_def same_limits_def)
  have s0: "still sp sp0" using still_steps(3) [of sp pg] st refl by (auto split: if_splits)
  show ?thesis
  proof (cases "d = 0 \<or> \<not> b")
    case True
    then have "sp1 = sp \<or> sp1 = sp0" using h(2) unfolding mousewheel_def st by (auto split: if_splits)
    then show ?thesis using s0 refl still_wrote by blast
  next
    case False
    have "js_bind (spin pg ((if d > 0 then 1 else - 1) * step_of sp0) sp0)
      (\<lambda>sp2. let sp3 = clear_wheel sp2 in
        Inr (sp3\<lparr>sp_wheelTimer := Some (sp_next sp3), sp_wheels := sp_wheels sp3 @ [sp_next sp3], sp_next := Suc (sp_next sp3)\<rparr>)) = Inr sp1"
      using h(2) False unfolding mousewheel_def st by simp
    then obtain sp2 where sp2: "spin pg ((if d > 0 then 1 else - 1) * step_of sp0) sp0 = Inr sp2"
      "sp1 = (clear_wheel sp2)\<lparr>sp_wheelTimer := Some (sp_next (clear_wheel sp2)), sp_wheels := sp_wheels (clear_wheel sp2) @ [sp_next (clear_wheel sp2)],
         sp_next := Suc (sp_next (clear_wheel sp2))\<rparr>"
      unfolding js_bind_eq_Inr Let_def by auto
    have "still sp2 sp1" by (simp add: sp2(2) still_def same_limits_def clear_wheel_def)
    then show ?thesis using wrote_still [OF still_then [OF s0 spin_wrote [OF still_limits [OF s0 h(1)] sp2(1)]]] by blast
  qed
qed

lemma modifier_wrote:
  assumes "modifier f sp = Inr sp1" "\<And>sp2. f sp = Inr sp2 \<Longrightarrow> wrote sp sp2"
  shows "wrote sp sp1"
proof -
  obtain sp2 where sp2: "f sp = Inr sp2" "sp1 = spin_refresh sp2 \<or> sp1 = log_spin ChangeEv (spin_refresh sp2)"
    using assms(1) by (auto simp: modifier_def js_bind_eq_Inr Let_def split: if_splits)
  have "still sp2 sp1" using sp2(2) still_steps(1,2) still_trans by metis
  then show ?thesis using wrote_still assms(2) [OF sp2(1)] by blast
qed

lemma step_by_wrote: "spinner_limits sp s \<Longrightarrow> step_by pg k sp = Inr sp1 \<Longrightarrow> wrote sp sp1"
proof -
  assume h: "spinner_limits sp s" "step_by pg k sp = Inr sp1"
  obtain b sp0 where st: "start pg sp = (b, sp0)" by (cases "start pg sp")
  note s0 = start_then [OF h(1) st]
  have "sp1 = sp0 \<or> (\<exists>sp2. spin pg (k * step_of sp0) sp0 = Inr sp2 \<and> sp1 = stop sp2)"
    using h(2) st by (auto simp: step_by_def js_bind_eq_Inr split: if_splits)
  then show ?thesis
    using still_wrote [OF s0(1)] still_then [OF s0(1)] spin_wrote [OF s0(2)] wrote_still still_steps(4) by metis
qed

text \<open>The steps that write numbers: all but other options, and texts and numbers that are none.\<close>

primrec writes_number :: "spin_step \<Rightarrow> bool" where
  "writes_number (KeyDown c) = True" | "writes_number KeyUp = True" | "writes_number Focus = True" | "writes_number Blur = True"
| "writes_number (Wheel d) = True" | "writes_number (PressButton up) = True" | "writes_number ReleaseButton = True"
| "writes_number (EnterButton up a) = True" | "writes_number LeaveButton = True" | "writes_number (RepeatElapsed i) = True"
| "writes_number (WheelElapsed i) = True" | "writes_number (LaterElapsed i) = True" | "writes_number (StepUp n) = True"
| "writes_number (StepDown n) = True" | "writes_number (PageUp n) = True" | "writes_number (PageDown n) = True"
| "writes_number (SetValue a) = ((case a of TextValue t \<Rightarrow> parse_value t | NumValue v \<Rightarrow> v) \<noteq> None)" | "writes_number (SetOptions os) = False"

lemma seen_wrote: "seen h sp = Inr sp1 \<Longrightarrow> (h sp = Inr sp1 \<Longrightarrow> wrote sp sp1) \<Longrightarrow> wrote sp sp1"
  by (auto simp: seen_def still_wrote still_def same_limits_def split: if_splits)

lemma modifier_steps_wrote:
  "spinner_limits sp s \<Longrightarrow> modifier (\<lambda>sp. step_by pg (f sp) sp) sp = Inr sp1 \<Longrightarrow> wrote sp sp1"
  using modifier_wrote step_by_wrote by blast

lemma run_spin_wrote:
  assumes "spinner_limits sp s" "writes_number st" "run_spin pg st sp = Inr sp1"
  shows "wrote sp sp1"
proof -
  have same: "still sp sp" by (simp add: still_def same_limits_def)
  note seen = seen_wrote [of _ sp sp1]
  show ?thesis
  proof (cases st)
    case (KeyDown c)
    then show ?thesis using assms(3) seen [of "spin_keydown pg c"] keydown_wrote [OF assms(1)] by simp
  next
    case Blur
    have "still sp (sp\<lparr>sp_active := False\<rparr>)" by (simp add: still_def same_limits_def)
    then have "still sp (blur (sp\<lparr>sp_active := False\<rparr>))" "still sp (sp\<lparr>sp_active := False\<rparr>)" using still_trans still_steps(8) by blast+
    then show ?thesis using assms(3) Blur still_wrote by (auto simp: seen_def split: if_splits)
  next
    case (Wheel d)
    then show ?thesis using assms(3) seen [of "mousewheel pg d"] wheel_wrote [OF assms(1)] by simp
  next
    case (PressButton up)
    then show ?thesis using assms(3) seen [of "press_button pg up"] press_wrote [OF assms(1)] by simp
  next
    case (EnterButton up a)
    then show ?thesis using assms(3) seen [of "enter_button pg up a"] enter_wrote [OF assms(1)] by simp
  next
    case (RepeatElapsed i)
    show ?thesis
    proof (cases "map_of (sp_repeats sp) i")
      case None
      then show ?thesis using RepeatElapsed assms(3) same still_wrote by simp
    next
      case (Some r)
      obtain ms k where r: "r = (ms, k)" by (cases r)
      let ?sp = "sp\<lparr>sp_repeats := filter (\<lambda>(j, _). j \<noteq> i) (sp_repeats sp)\<rparr>"
      have st: "still sp ?sp" by (simp add: still_def same_limits_def)
      have "repeat pg 40 k ?sp = Inr sp1" using RepeatElapsed assms(3) Some r by simp
      then show ?thesis using repeat_wrote [OF still_limits [OF st assms(1)]] still_then [OF st] by blast
    qed
  next
    case (WheelElapsed i)
    let ?sp = "sp\<lparr>sp_wheels := filter (\<lambda>j. j \<noteq> i) (sp_wheels sp)\<rparr>"
    have "still sp ?sp" by (simp add: still_def same_limits_def)
    then have "still sp ?sp" "still sp (stop ?sp)" using still_trans still_steps(4) by blast+
    then show ?thesis using WheelElapsed assms(3) same still_wrote by (auto simp: Let_def split: if_splits)
  next
    case (LaterElapsed i)
    let ?sp = "sp\<lparr>sp_later := filter (\<lambda>(j, _). j \<noteq> i) (sp_later sp)\<rparr>"
    have "still sp ?sp" by (simp add: still_def same_limits_def)
    then have "still sp (run_later l ?sp)" for l using still_trans still_steps(11) by blast
    then show ?thesis using LaterElapsed assms(3) same still_wrote by (auto split: option.splits)
  next
    case (StepUp n)
    then show ?thesis using assms(3) modifier_steps_wrote [OF assms(1), of pg "\<lambda>_. or_one n"] by (simp add: stepUp_def)
  next
    case (StepDown n)
    then show ?thesis using assms(3) modifier_steps_wrote [OF assms(1), of pg "\<lambda>_. - or_one n"] by (simp add: stepDown_def)
  next
    case (PageUp n)
    then show ?thesis using assms(3) modifier_steps_wrote [OF assms(1), of pg "\<lambda>sp. or_one (or_one n * sp_page sp)"] by (simp add: pageUp_def)
  next
    case (PageDown n)
    then show ?thesis using assms(3) modifier_steps_wrote [OF assms(1), of pg "\<lambda>sp. - or_one (or_one n * sp_page sp)"] by (simp add: pageDown_def)
  next
    case (SetValue a)
    then obtain x where "(case a of TextValue t \<Rightarrow> parse_value t | NumValue v \<Rightarrow> v) = Some x" using assms(2) by auto
    from set_value_wrote [OF assms(1) this] show ?thesis
      using SetValue assms(3) modifier_wrote [of "set_value a False" sp sp1] by (simp add: spinner_value_def)
  next
    case (SetOptions os)
    then show ?thesis using assms(2) by simp
  qed (use assms(3) same still_wrote still_steps(4,7) in \<open>auto simp: seen_def split: if_splits\<close>)
qed

lemma num_str_nonempty: "num_str x \<noteq> []"
  using num_text_head [of "\<bar>x\<bar>"] by (auto simp: num_str_def)

lemma written_value: "decimal 20 r \<Longrightarrow> \<bar>r\<bar> < 10 ^ 21 \<Longrightarrow> sp_text sp = num_str r \<Longrightarrow> current_value sp = Some r"
  using number_of_num_str num_str_nonempty by (simp add: current_value_def parse_value_def)

text \<open>C14: What keys, buttons, the wheel, timers and methods leave in the field of a spinner with a step is
  what was there before or the text of a number within the limits, which is read back as that number unless it is
  a thousand trillion million or more; a number that is set and within the limits is written as one no further than half a step
  away, if that is less than this. The step and the minimum are numbers that are written without an exponent, from a millionth on:
  the digits of smaller ones are not counted (see below).\<close>
theorem spinner_in_range:
  assumes "spinner_limits sp s" "writes_number st" "run_spin pg st sp = Inr sp1"
  shows "(sp_text sp1 = sp_text sp \<or> (\<exists>r. within_limits sp r \<and> sp_text sp1 = num_str r \<and>
        (\<bar>r\<bar> < 10 ^ 21 \<longrightarrow> current_value sp1 = Some r))) \<and>
    (\<forall>x. st = SetValue (NumValue (Some x)) \<longrightarrow> within_limits sp x \<longrightarrow> \<bar>x\<bar> + s / 2 < 10 ^ 21 \<longrightarrow> (\<exists>r. current_value sp1 = Some r \<and> \<bar>r - x\<bar> \<le> s / 2))"
proof (intro conjI allI impI)
  show "sp_text sp1 = sp_text sp \<or> (\<exists>r. within_limits sp r \<and> sp_text sp1 = num_str r \<and> (\<bar>r\<bar> < 10 ^ 21 \<longrightarrow> current_value sp1 = Some r))"
    using run_spin_wrote [OF assms] written_value unfolding wrote_def by blast
  fix x assume x: "st = SetValue (NumValue (Some x))" "within_limits sp x" "\<bar>x\<bar> + s / 2 < 10 ^ 21"
  define r where "r = limited sp (nearest_step sp s x)"
  have "set_value (NumValue (Some x)) False sp = Inr (spin_refresh (sp\<lparr>sp_text := num_str r\<rparr>))"
    unfolding r_def by (rule set_value_number [OF assms(1)]) simp
  then have "sp_text sp1 = num_str r"
    using assms(3) x(1) by (auto simp: spinner_value_def modifier_def Let_def spin_refresh_def log_spin_def split: if_splits)
  moreover have near: "\<bar>r - x\<bar> \<le> s / 2"
    using limited_within(2) [OF assms(1) x(2), of "nearest_step sp s x"] nearest_step_near [of s sp x] assms(1)
    unfolding r_def spinner_limits_def by linarith
  moreover have "\<bar>r\<bar> < 10 ^ 21" using near x(3) by linarith
  ultimately have "current_value sp1 = Some r" using written_value nearest_within [OF assms(1)] unfolding r_def by blast
  then show "\<exists>r. current_value sp1 = Some r \<and> \<bar>r - x\<bar> \<le> s / 2" using near by blast
qed

definition ten_spinner :: spinner where
  "ten_spinner = \<lparr>sp_min = Some 0, sp_max = Some 10, sp_step = Some 3, sp_page = 10, sp_incremental = NoIncrement, sp_disabled = False, sp_text = ''9'',
     sp_aria = (None, None, None), sp_spinning = False, sp_counter = 0, sp_previous = None, sp_cancelBlur = False, sp_active = False,
     sp_timer = None, sp_repeats = [], sp_wheelTimer = None, sp_wheels = [], sp_later = [], sp_next = 0, sp_log = []\<rparr>"

lemma ten_spinner_limits: "spinner_limits ten_spinner 3"
  using decimal_int [of 20 0] decimal_int [of 20 3] decimal_int [of 20 10] by (simp add: spinner_limits_def ten_spinner_def plain_number_def)

lemma spinner_in_range_witness:
  "\<exists>sp1 r. run_spin quiet_page (SetValue (NumValue (Some 7))) ten_spinner = Inr sp1 \<and> current_value sp1 = Some r \<and> \<bar>r - 7\<bar> \<le> 3 / 2"
proof -
  have "sp_ok ten_spinner" by (simp add: sp_ok_def ten_spinner_def)
  from run_spin_ok [OF this, of "SetValue (NumValue (Some 7))" quiet_page]
  obtain sp1 where run: "run_spin quiet_page (SetValue (NumValue (Some 7))) ten_spinner = Inr sp1" by auto
  have "within_limits ten_spinner 7" by (simp add: within_limits_def ten_spinner_def)
  then show ?thesis using spinner_in_range [OF ten_spinner_limits _ run] run by auto
qed

section \<open>Where the spinner does not do what it is for\<close>

text \<open>A value set beyond the limit is written as the limit though it is no step, and found invalid; when spinning
  the page is told the limit, and the value written is adjusted again, to the step below.\<close>
lemma limit_not_valid:
  "\<exists>sp1. spinner_value (NumValue (Some 11)) ten_spinner = Inr sp1 \<and> current_value sp1 = Some 10 \<and> isValid sp1 = Inr False"
  "adjustValue ten_spinner 12 = Inr (Some 10) \<and> adjustValue ten_spinner 10 = Inr (Some 9)"
proof -
  have a: "adjustValue ten_spinner 11 = Inr (Some 10)" by code_simp
  have b: "adjustValue ten_spinner 12 = Inr (Some 10) \<and> adjustValue ten_spinner 10 = Inr (Some 9)" by code_simp
  have ten: "num_str 10 = ''10''" "number_of ''10'' = Some 10" by code_simp+
  define sp1 where "sp1 = log_spin ChangeEv (spin_refresh (spin_refresh (ten_spinner\<lparr>sp_text := ''10''\<rparr>)))"
  have "set_value (NumValue (Some 11)) False ten_spinner = Inr (spin_refresh (ten_spinner\<lparr>sp_text := ''10''\<rparr>))"
    unfolding set_value_def Let_def using a ten(1) by (simp add: nan_text_def)
  then have v: "spinner_value (NumValue (Some 11)) ten_spinner = Inr sp1"
    by (simp add: spinner_value_def modifier_def Let_def sp1_def spin_refresh_def log_spin_def) (simp add: ten_spinner_def)
  have c: "current_value sp1 = Some 10" using ten by (simp add: sp1_def current_value_def parse_value_def spin_refresh_def log_spin_def)
  have "adjustValue sp1 10 = adjustValue ten_spinner 10"
    by (rule adjust_cong) (simp add: same_limits_def sp1_def spin_refresh_def log_spin_def)
  then show "\<exists>sp1. spinner_value (NumValue (Some 11)) ten_spinner = Inr sp1 \<and> current_value sp1 = Some 10 \<and> isValid sp1 = Inr False"
    using v c b by (auto simp: isValid_def)
  show "adjustValue ten_spinner 12 = Inr (Some 10) \<and> adjustValue ten_spinner 10 = Inr (Some 9)" by (rule b)
qed

text \<open>A step below a millionth is written with an exponent, and its digits are not counted: what is set to some steps
  is written as none.\<close>
lemma tiny_step_lost:
  "precisionOf (1 / 10 ^ 7) = 0" "sp_step sp = Some (1 / 10 ^ 7) \<Longrightarrow> sp_min sp = None \<Longrightarrow> sp_max sp = None \<Longrightarrow>
    adjustValue sp (3 / 10 ^ 7) = Inr (Some 0)"
proof -
  show p: "precisionOf (1 / 10 ^ 7) = 0" by code_simp
  show "adjustValue sp (3 / 10 ^ 7) = Inr (Some 0)" if "sp_step sp = Some (1 / 10 ^ 7)" "sp_min sp = None" "sp_max sp = None"
  proof -
    have "js_round 3 = 3" "to_fixed 0 (3 / 10 ^ 7) = 0" by code_simp+
    then show ?thesis using that p by (simp add: adjustValue_def precision_def limited_def js_div_def)
  qed
qed

text \<open>A spinner that is disabled while a key or a button is held does not see the release: its timer repeats for ever.\<close>
lemma disabled_spins_on:
  assumes "sp_disabled sp" "sp_ok sp" "sp_repeats sp = [(i, ms, k)]"
  shows "run_spin pg KeyUp sp = Inr sp \<and> run_spin pg ReleaseButton sp = Inr sp \<and> run_spin pg LeaveButton sp = Inr sp \<and>
    (\<exists>sp1 j. run_spin pg (RepeatElapsed i) sp = Inr sp1 \<and> sp_repeats sp1 = [(j, 40, k)])"
proof -
  let ?sp = "sp\<lparr>sp_repeats := []\<rparr>"
  let ?c = "clear_repeat ?sp"
  let ?s = "?c\<lparr>sp_timer := Some (sp_next ?c), sp_repeats := sp_repeats ?c @ [(sp_next ?c, 40, k)], sp_next := Suc (sp_next ?c)\<rparr>"
  have "sp_ok ?s" using assms(2,3) by (auto simp: sp_ok_def clear_repeat_def)
  then obtain sp1 where sp1: "spin pg (k * step_of ?s) ?s = Inr sp1" using spin_ok by blast
  have "sp_repeats sp1 = sp_repeats ?s"
    using sp1 by (auto simp: spin_def js_bind_eq_Inr set_value_def spin_refresh_def log_spin_def Let_def split: if_splits)
  moreover have "repeat pg 40 k ?sp = Inr sp1" using sp1 unfolding repeat_def Let_def by simp
  ultimately show ?thesis using assms by (auto simp: seen_def clear_repeat_def)
qed

text \<open>A field with the step \<open>any\<close>, which the attribute may have, gives a spinner whose every spin throws.\<close>
lemma step_any_throws: "limit_of (TextLimit ''any'') = None" "sp_step sp = None \<Longrightarrow> spin pg k sp = Inl (Throw ''TypeError'')"
proof -
  show "limit_of (TextLimit ''any'') = None" by code_simp
  show "sp_step sp = None \<Longrightarrow> spin pg k sp = Inl (Throw ''TypeError'')" by (simp add: spin_def adjustValue_def precision_def Let_def)
qed

end
