(* ===== verification/UI_Progress.thy ===== *)
theory UI_Progress
  imports JS_Num
begin

text \<open>
  The progress bar (\<open>ui.progressbar\<close>, jquery-ui.js): its value with its limits, what is shown of it, and
  the events it tells. A value that is \<open>false\<close> means that the progress is not known.
\<close>

section \<open>The data\<close>

datatype progress_value = Amount rat | Unknown | NoNumber

datatype progress_event = ChangeValue | Complete

record progress =
  pb_max :: rat
  pb_value :: progress_value
  pb_indeterminate :: bool
  pb_old :: progress_value
  pb_disabled :: bool
  pb_bar_shown :: bool
  pb_bar_full :: bool
  pb_bar_width :: "rat option"
  pb_class_indeterminate :: bool
  pb_overlay :: bool
  pb_aria_max :: "rat option"
  pb_aria_now :: "rat option"
  pb_log :: "progress_event list"

definition min_value :: rat where
  "min_value = 0"

section \<open>Values\<close>

text \<open>\<open>_constrainedValue\<close>: without an argument it takes the value there is.\<close>

definition constrainedValue :: "progress_value option \<Rightarrow> progress \<Rightarrow> progress_value \<times> progress" where
  "constrainedValue new p =
     (let v = (case new of None \<Rightarrow> pb_value p | Some v \<Rightarrow> v); p1 = p\<lparr>pb_indeterminate := (v = Unknown)\<rparr>;
          n = (case v of Amount x \<Rightarrow> x | _ \<Rightarrow> 0)
      in (if v = Unknown then Unknown else Amount (min (pb_max p) (max min_value n)), p1))"

text \<open>\<open>_percentage\<close>: NaN when there is no room.\<close>

definition percentage :: "progress \<Rightarrow> rat option" where
  "percentage p =
     (if pb_indeterminate p then Some 100
      else case pb_value p of Amount v \<Rightarrow> js_div (100 * (v - min_value)) (pb_max p - min_value) | _ \<Rightarrow> None)"

definition log_progress :: "progress_event \<Rightarrow> progress \<Rightarrow> progress" where
  "log_progress e p = p\<lparr>pb_log := pb_log p @ [e]\<rparr>"

definition show_bar :: "progress \<Rightarrow> progress" where
  "show_bar p =
     p\<lparr>pb_bar_shown := (pb_indeterminate p \<or> (case pb_value p of Amount v \<Rightarrow> v > min_value | _ \<Rightarrow> False)),
       pb_bar_full := (pb_value p = Amount (pb_max p)),
       pb_bar_width := map_option (to_fixed 0) (percentage p),
       pb_class_indeterminate := pb_indeterminate p,
       pb_overlay := pb_indeterminate p,
       pb_aria_max := (if pb_indeterminate p then pb_aria_max p else Some (pb_max p)),
       pb_aria_now := (if pb_indeterminate p then None else case pb_value p of Amount v \<Rightarrow> Some v | _ \<Rightarrow> None)\<rparr>"

definition refresh_progress :: "progress \<Rightarrow> progress" where
  "refresh_progress p =
     (let p1 = show_bar p;
          p2 = (if pb_old p1 \<noteq> pb_value p1 then log_progress ChangeValue (p1\<lparr>pb_old := pb_value p1\<rparr>) else p1)
      in if pb_value p2 = Amount (pb_max p2) then log_progress Complete p2 else p2)"

section \<open>Methods and options\<close>

definition constrain :: "progress_value option \<Rightarrow> progress \<Rightarrow> progress" where
  "constrain new p = (let (v, p1) = constrainedValue new p in p1\<lparr>pb_value := v\<rparr>)"

definition set_progress :: "progress_value \<Rightarrow> progress \<Rightarrow> progress" where
  "set_progress v p = refresh_progress (constrain (Some v) p)"

datatype progress_option = OptMax rat | OptDisabled bool | OptValue progress_value

fun set_progress_option :: "progress_option \<Rightarrow> progress \<Rightarrow> progress" where
  "set_progress_option (OptMax m) p = p\<lparr>pb_max := max min_value m\<rparr>"
| "set_progress_option (OptDisabled b) p = p\<lparr>pb_disabled := b\<rparr>"
| "set_progress_option (OptValue v) p = p"

definition last_value :: "progress_option list \<Rightarrow> progress_value option" where
  "last_value os = fold (\<lambda>o1 r. case o1 of OptValue v \<Rightarrow> Some v | _ \<Rightarrow> r) os None"

text \<open>\<open>_setOptions\<close>: the value after the others.\<close>

definition set_progress_options :: "progress_option list \<Rightarrow> progress \<Rightarrow> progress" where
  "set_progress_options os p = refresh_progress (constrain (last_value os) (fold set_progress_option os p))"

definition create_progress :: "rat \<Rightarrow> progress_value \<Rightarrow> progress" where
  "create_progress m v =
     (let p = constrain None \<lparr>pb_max = m, pb_value = v, pb_indeterminate = False, pb_old = v, pb_disabled = False, pb_bar_shown = True,
          pb_bar_full = False, pb_bar_width = None, pb_class_indeterminate = False, pb_overlay = False, pb_aria_max = None,
          pb_aria_now = None, pb_log = []\<rparr>
      in refresh_progress (p\<lparr>pb_old := pb_value p\<rparr>))"

datatype progress_step = SetProgress progress_value | SetProgressOptions "progress_option list"

primrec run_progress :: "progress_step \<Rightarrow> progress \<Rightarrow> progress" where
  "run_progress (SetProgress v) p = set_progress v p"
| "run_progress (SetProgressOptions os) p = set_progress_options os p"

section \<open>What is shown is the value\<close>

definition progress_ok :: "progress \<Rightarrow> bool" where
  "progress_ok p \<longleftrightarrow> 0 \<le> pb_max p \<and> pb_old p = pb_value p \<and>
     (case pb_value p of NoNumber \<Rightarrow> False
      | Unknown \<Rightarrow> pb_indeterminate p \<and> pb_overlay p \<and> pb_class_indeterminate p \<and> pb_aria_now p = None \<and> pb_bar_shown p \<and> pb_bar_width p = Some 100
      | Amount v \<Rightarrow> \<not> pb_indeterminate p \<and> \<not> pb_overlay p \<and> \<not> pb_class_indeterminate p \<and> 0 \<le> v \<and> v \<le> pb_max p \<and>
          pb_aria_now p = Some v \<and> pb_aria_max p = Some (pb_max p) \<and> (pb_bar_shown p \<longleftrightarrow> 0 < v) \<and> (pb_bar_full p \<longleftrightarrow> v = pb_max p) \<and>
          (if pb_max p = 0 then pb_bar_width p = None else (\<exists>w. pb_bar_width p = Some w \<and> 0 \<le> w \<and> w \<le> 100)))"

lemma to_fixed_hundred: "0 \<le> x \<Longrightarrow> x \<le> 100 \<Longrightarrow> 0 \<le> to_fixed 0 x \<and> to_fixed 0 x \<le> 100"
proof -
  assume x: "0 \<le> x" "x \<le> 100"
  have "0 \<le> \<lfloor>x + 1 / 2\<rfloor>" "\<lfloor>x + 1 / 2\<rfloor> \<le> 100" using x by linarith+
  then show ?thesis using x by (auto simp: to_fixed_def sgn_if)
qed

lemma progress_refresh_ok:
  assumes "0 \<le> pb_max p" "pb_indeterminate p \<longleftrightarrow> pb_value p = Unknown" "pb_value p \<noteq> NoNumber"
    "\<And>v. pb_value p = Amount v \<Longrightarrow> 0 \<le> v \<and> v \<le> pb_max p"
  shows "progress_ok (refresh_progress p)"
proof (cases "pb_value p")
  case (Amount v)
  have v: "0 \<le> v" "v \<le> pb_max p" using assms(4) Amount by auto
  have "js_div (100 * v) (pb_max p) = Some (100 * v / pb_max p) \<and> 0 \<le> to_fixed 0 (100 * v / pb_max p) \<and> to_fixed 0 (100 * v / pb_max p) \<le> 100"
    if "pb_max p \<noteq> 0"
    using that v to_fixed_hundred [of "100 * v / pb_max p"] by (simp add: js_div_def divide_le_eq)
  then show ?thesis
    using Amount v assms(1,2)
    by (auto simp: refresh_progress_def show_bar_def progress_ok_def log_progress_def percentage_def min_value_def js_div_def Let_def)
next
  case Unknown
  have "to_fixed 0 100 = 100" by code_simp
  then show ?thesis
    using assms(1,2) Unknown by (simp add: refresh_progress_def show_bar_def progress_ok_def log_progress_def percentage_def Let_def)
qed (use assms(3) in simp)

lemma constrain_facts:
  assumes "0 \<le> pb_max p"
  shows "pb_max (constrain new p) = pb_max p" "pb_indeterminate (constrain new p) \<longleftrightarrow> pb_value (constrain new p) = Unknown"
    "pb_value (constrain new p) \<noteq> NoNumber" "pb_value (constrain new p) = Amount v \<Longrightarrow> 0 \<le> v \<and> v \<le> pb_max p"
  using assms by (auto simp: constrain_def constrainedValue_def min_value_def Let_def split: if_splits)

lemma options_max: "0 \<le> pb_max p \<Longrightarrow> 0 \<le> pb_max (fold set_progress_option os p)"
proof (induction os arbitrary: p)
  case (Cons a os)
  then show ?case by (cases a) (simp_all add: min_value_def)
qed simp

lemma progress_step_ok: "0 \<le> pb_max p \<Longrightarrow> progress_ok (run_progress s p)"
proof -
  assume m: "0 \<le> pb_max p"
  have "progress_ok (refresh_progress (constrain new q))" if "0 \<le> pb_max q" for new q
    by (rule progress_refresh_ok) (use constrain_facts [OF that, of new] that in auto)
  then show ?thesis using m options_max [OF m] by (cases s) (simp_all add: set_progress_def set_progress_options_def)
qed

lemma progress_created_ok: "0 \<le> m \<Longrightarrow> progress_ok (create_progress m v)"
proof -
  assume m: "0 \<le> m"
  define q where "q = \<lparr>pb_max = m, pb_value = v, pb_indeterminate = False, pb_old = v, pb_disabled = False, pb_bar_shown = True,
    pb_bar_full = False, pb_bar_width = None, pb_class_indeterminate = False, pb_overlay = False, pb_aria_max = None, pb_aria_now = None, pb_log = []\<rparr>"
  note c = constrain_facts [of q None]
  have "progress_ok (refresh_progress ((constrain None q)\<lparr>pb_old := pb_value (constrain None q)\<rparr>))"
    by (rule progress_refresh_ok) (use c m in \<open>auto simp: q_def\<close>)
  then show ?thesis by (simp add: create_progress_def q_def Let_def)
qed

text \<open> A progress bar with a maximum that is not negative: after any methods and options its value is
  unknown or between 0 and the maximum; the bar, its width, classes and attributes show that value; and a step tells a
  change exactly if it changes the value, and the completion exactly if it leaves it at the maximum, in this order.\<close>
theorem progress_shows:
  assumes "0 \<le> m" "p = fold run_progress ss (create_progress m v)"
  shows "progress_ok p \<and>
    pb_log (run_progress s p) = pb_log p @ (if pb_value (run_progress s p) \<noteq> pb_value p then [ChangeValue] else []) @
      (if pb_value (run_progress s p) = Amount (pb_max (run_progress s p)) then [Complete] else [])"
proof
  have "progress_ok (fold run_progress ss q)" if "progress_ok q" for q
    using that
  proof (induction ss arbitrary: q)
    case (Cons s ss)
    have "progress_ok (run_progress s q)" by (rule progress_step_ok) (use Cons.prems in \<open>simp add: progress_ok_def\<close>)
    then show ?case using Cons.IH by simp
  qed simp
  then show ok: "progress_ok p" using progress_created_ok [OF assms(1)] assms(2) by simp
  have refresh: "pb_log (refresh_progress q) = pb_log q @ (if pb_old q \<noteq> pb_value q then [ChangeValue] else []) @
      (if pb_value q = Amount (pb_max q) then [Complete] else [])"
    "pb_value (refresh_progress q) = pb_value q" "pb_max (refresh_progress q) = pb_max q" for q
    by (simp_all add: refresh_progress_def show_bar_def log_progress_def Let_def)
  have keep: "pb_log (constrain new q) = pb_log q" "pb_old (constrain new q) = pb_old q" for new q
    by (simp_all add: constrain_def constrainedValue_def Let_def)
  have opts: "pb_log (fold set_progress_option os q) = pb_log q \<and> pb_old (fold set_progress_option os q) = pb_old q" for os q
  proof (induction os arbitrary: q)
    case (Cons a os)
    then show ?case by (cases a) simp_all
  qed simp
  have "pb_old p = pb_value p" using ok by (simp add: progress_ok_def)
  then show "pb_log (run_progress s p) = pb_log p @ (if pb_value (run_progress s p) \<noteq> pb_value p then [ChangeValue] else []) @
      (if pb_value (run_progress s p) = Amount (pb_max (run_progress s p)) then [Complete] else [])"
    by (cases s) (auto simp: set_progress_def set_progress_options_def refresh keep opts)
qed

lemma progress_shows_witness:
  "pb_log (run_progress (SetProgress (Amount 120)) (fold run_progress [SetProgress (Amount 40)] (create_progress 100 (Amount 0)))) =
    [ChangeValue, ChangeValue, Complete]"
proof -
  have r: "pb_log (fold run_progress [SetProgress (Amount 40)] (create_progress 100 (Amount 0))) = [ChangeValue]"
    "pb_value (fold run_progress [SetProgress (Amount 40)] (create_progress 100 (Amount 0))) = Amount 40"
    "pb_value (run_progress (SetProgress (Amount 120)) (fold run_progress [SetProgress (Amount 40)] (create_progress 100 (Amount 0)))) = Amount 100"
    "pb_max (run_progress (SetProgress (Amount 120)) (fold run_progress [SetProgress (Amount 40)] (create_progress 100 (Amount 0)))) = 100"
    by code_simp+
  have "0 \<le> (100::rat)" by simp
  then show ?thesis using progress_shows [of 100 _ "[SetProgress (Amount 40)]" "Amount 0" "SetProgress (Amount 120)"] r by simp
qed

text \<open>A maximum below 0 is not allowed as an option that is set, but it is when the bar is made: then the value is negative.\<close>
lemma negative_maximum_made: "pb_value (create_progress (- 5) (Amount 3)) = Amount (- 5)"
  by code_simp

end
