(* ===== verification/UI_Widget.thy ===== *)
theory UI_Widget
  imports JS_Text "HOL-Library.AList"
begin

text \<open>
  The base of the widgets (\<open>$.widget\<close>, jquery-ui.js): the options, which are objects in a store, since the code
  copies them so that a widget does not change the defaults it shares with others; the method \<open>option\<close>
  with nested keys; and the plugin that creates instances and calls their methods. Values that are neither
  texts nor objects are a parameter.
\<close>

section \<open>Objects\<close>

datatype 'p jval = Undefined | Null | Text string | Prim 'p | Ref nat

text \<open>A plain object, or another one (an array, a function, an element); both have properties.\<close>

datatype 'p object = Plain "(string \<times> 'p jval) list" | Opaque "(string \<times> 'p jval) list"

type_synonym 'p heap = "'p object list"

primrec object_props :: "'p object \<Rightarrow> (string \<times> 'p jval) list" where
  "object_props (Plain kv) = kv"
| "object_props (Opaque kv) = kv"

definition isPlainObject :: "'p heap \<Rightarrow> 'p jval \<Rightarrow> bool" where
  "isPlainObject h v = (case v of Ref a \<Rightarrow> a < length h \<and> (case h ! a of Plain _ \<Rightarrow> True | Opaque _ \<Rightarrow> False) | _ \<Rightarrow> False)"

text \<open>The properties that \<open>for ( key in v )\<close> finds as its own; a text has its characters.\<close>

definition own_props :: "'p heap \<Rightarrow> 'p jval \<Rightarrow> (string \<times> 'p jval) list" where
  "own_props h v =
     (case v of Ref a \<Rightarrow> if a < length h then object_props (h ! a) else []
      | Text s \<Rightarrow> map (\<lambda>i. (show_nat (int i), Text [s ! i])) [0..<length s]
      | _ \<Rightarrow> [])"

definition get_prop :: "'p heap \<Rightarrow> 'p jval \<Rightarrow> string \<Rightarrow> 'p jval" where
  "get_prop h v k = (case map_of (own_props h v) k of None \<Rightarrow> Undefined | Some x \<Rightarrow> x)"

definition set_prop :: "nat \<Rightarrow> string \<Rightarrow> 'p jval \<Rightarrow> 'p heap \<Rightarrow> 'p heap" where
  "set_prop a k v h =
     h[a := (case h ! a of Plain kv \<Rightarrow> Plain (AList.update k v kv) | Opaque kv \<Rightarrow> Opaque (AList.update k v kv))]"

section \<open>\<open>$.widget.extend\<close>\<close>

primrec extend_props :: "('p heap \<Rightarrow> nat \<Rightarrow> 'p jval list \<Rightarrow> 'p heap js) \<Rightarrow> nat \<Rightarrow> (string \<times> 'p jval) list \<Rightarrow> 'p heap \<Rightarrow> 'p heap js" where
  "extend_props rec t [] h = Inr h"
| "extend_props rec t (kv # kvs) h =
     js_bind
       (let (k, v) = kv; old = get_prop h (Ref t) k in
        if v = Undefined then Inr h
        else if isPlainObject h v then
          js_bind (rec (h @ [Plain []]) (length h) (if isPlainObject h old then [old, v] else [v]))
            (\<lambda>h1. Inr (set_prop t k (Ref (length h)) h1))
        else Inr (set_prop t k v h))
       (extend_props rec t kvs)"

primrec extend_inputs :: "('p heap \<Rightarrow> nat \<Rightarrow> 'p jval list \<Rightarrow> 'p heap js) \<Rightarrow> nat \<Rightarrow> 'p jval list \<Rightarrow> 'p heap \<Rightarrow> 'p heap js" where
  "extend_inputs rec t [] h = Inr h"
| "extend_inputs rec t (i # is) h = js_bind (extend_props rec t (own_props h i) h) (extend_inputs rec t is)"

text \<open>One unit of fuel for each level of nesting; an object that contains itself overflows the stack.\<close>

primrec widget_extend :: "nat \<Rightarrow> 'p heap \<Rightarrow> nat \<Rightarrow> 'p jval list \<Rightarrow> 'p heap js" where
  "widget_extend 0 h t ins = Inl Diverge"
| "widget_extend (Suc n) h t ins = extend_inputs (widget_extend n) t ins h"

text \<open>\<open>$.widget.extend ( {}, ... )\<close>\<close>

definition extend_new :: "nat \<Rightarrow> 'p jval list \<Rightarrow> 'p heap \<Rightarrow> (nat \<times> 'p heap) js" where
  "extend_new n ins h = js_bind (widget_extend n (h @ [Plain []]) (length h) ins) (\<lambda>h1. Inr (length h, h1))"

section \<open>\<open>option\<close>\<close>

record 'p widget =
  wd_options :: nat
  wd_disabled_class :: bool
  wd_heap :: "'p heap"

text \<open>\<open>_setOption\<close> of the base: the property, and the class of a disabled widget.\<close>

definition is_truthy :: "('p \<Rightarrow> bool) \<Rightarrow> 'p jval \<Rightarrow> bool" where
  "is_truthy tp v = (case v of Undefined \<Rightarrow> False | Null \<Rightarrow> False | Text s \<Rightarrow> s \<noteq> [] | Prim p \<Rightarrow> tp p | Ref a \<Rightarrow> True)"

definition base_setOption :: "('p \<Rightarrow> bool) \<Rightarrow> string \<Rightarrow> 'p jval \<Rightarrow> 'p widget \<Rightarrow> 'p widget" where
  "base_setOption tp k v w =
     (let w1 = w\<lparr>wd_heap := set_prop (wd_options w) k v (wd_heap w)\<rparr> in
      if k = ''disabled'' then w1\<lparr>wd_disabled_class := is_truthy tp v\<rparr> else w1)"

definition base_setOptions :: "('p \<Rightarrow> bool) \<Rightarrow> (string \<times> 'p jval) list \<Rightarrow> 'p widget \<Rightarrow> 'p widget" where
  "base_setOptions tp kvs w = fold (\<lambda>(k, v). base_setOption tp k v) kvs w"

fun split_dots :: "string \<Rightarrow> string list" where
  "split_dots [] = [[]]"
| "split_dots (c # cs) = (if c = CHR ''.'' then [] # split_dots cs else (case split_dots cs of [] \<Rightarrow> [[c]] | w # ws \<Rightarrow> (c # w) # ws))"

text \<open>The walk along the keys but the last: what is missing becomes an object. On a value that is no object the
  assignment has no effect, so the walk goes on with what is missing, and throws at the next step.\<close>

fun walk :: "('p \<Rightarrow> bool) \<Rightarrow> string list \<Rightarrow> 'p jval \<Rightarrow> 'p heap \<Rightarrow> ('p jval \<times> 'p heap) js" where
  "walk tp [] cur h = Inr (cur, h)"
| "walk tp (k # ks) cur h =
     (if cur = Undefined \<or> cur = Null then Inl (Throw ''TypeError'')
      else let old = get_prop h cur k in
      if is_truthy tp old then walk tp ks old h
      else case cur of
          Ref a \<Rightarrow> walk tp ks (Ref (length h)) (set_prop a k (Ref (length h)) (h @ [Plain []]))
        | _ \<Rightarrow> walk tp ks old h)"

definition assign :: "'p jval \<Rightarrow> string \<Rightarrow> 'p jval \<Rightarrow> 'p heap \<Rightarrow> 'p heap js" where
  "assign cur k v h =
     (case cur of Ref a \<Rightarrow> Inr (set_prop a k v h) | Undefined \<Rightarrow> Inl (Throw ''TypeError'') | Null \<Rightarrow> Inl (Throw ''TypeError'') | _ \<Rightarrow> Inr h)"

definition read_prop :: "'p jval \<Rightarrow> string \<Rightarrow> 'p heap \<Rightarrow> 'p jval js" where
  "read_prop cur k h = (if cur = Undefined \<or> cur = Null then Inl (Throw ''TypeError'') else Inr (get_prop h cur k))"

definition or_null :: "'p jval \<Rightarrow> 'p jval" where
  "or_null v = (if v = Undefined then Null else v)"

text \<open>\<open>option ( key )\<close> and \<open>option ( key, value )\<close> with a text as the key.\<close>

definition get_option :: "nat \<Rightarrow> ('p \<Rightarrow> bool) \<Rightarrow> string \<Rightarrow> 'p widget \<Rightarrow> ('p jval \<times> 'p widget) js" where
  "get_option n tp key w =
     (let ps = split_dots key; k = hd ps in
      if tl ps = [] then Inr (or_null (get_prop (wd_heap w) (Ref (wd_options w)) k), w)
      else js_bind (extend_new n [get_prop (wd_heap w) (Ref (wd_options w)) k] (wd_heap w))
        (\<lambda>(a, h). js_bind (walk tp (butlast (tl ps)) (Ref a) h)
          (\<lambda>(cur, h1). js_bind (read_prop cur (last ps) h1) (\<lambda>v. Inr (or_null v, w\<lparr>wd_heap := h1\<rparr>)))))"

definition set_option :: "nat \<Rightarrow> ('p \<Rightarrow> bool) \<Rightarrow> string \<Rightarrow> 'p jval \<Rightarrow> 'p widget \<Rightarrow> 'p widget js" where
  "set_option n tp key v w =
     (let ps = split_dots key; k = hd ps in
      if tl ps = [] then Inr (base_setOptions tp [(k, v)] w)
      else js_bind (extend_new n [get_prop (wd_heap w) (Ref (wd_options w)) k] (wd_heap w))
        (\<lambda>(a, h). js_bind (walk tp (butlast (tl ps)) (Ref a) h)
          (\<lambda>(cur, h1). js_bind (assign cur (last ps) v h1)
            (\<lambda>h2. Inr (base_setOptions tp [(k, Ref a)] (w\<lparr>wd_heap := h2\<rparr>))))))"

text \<open>\<open>option ()\<close>, a copy, and \<open>option ( options )\<close> with an object.\<close>

definition all_options :: "nat \<Rightarrow> 'p widget \<Rightarrow> (nat \<times> 'p widget) js" where
  "all_options n w = js_bind (extend_new n [Ref (wd_options w)] (wd_heap w)) (\<lambda>(a, h). Inr (a, w\<lparr>wd_heap := h\<rparr>))"

definition give_options :: "('p \<Rightarrow> bool) \<Rightarrow> 'p jval \<Rightarrow> 'p widget \<Rightarrow> 'p widget" where
  "give_options tp v w = base_setOptions tp (own_props (wd_heap w) v) w"

text \<open>\<open>_createWidget\<close>: the options of the widget, from the defaults, the attributes and the call.\<close>

definition create_options :: "nat \<Rightarrow> 'p jval list \<Rightarrow> 'p heap \<Rightarrow> 'p widget js" where
  "create_options n ins h = js_bind (extend_new n ins h) (\<lambda>(a, h1). Inr \<lparr>wd_options = a, wd_disabled_class = False, wd_heap = h1\<rparr>)"

section \<open>\<open>$.widget.bridge\<close>\<close>

text \<open>What a method gives back: nothing new, a set of elements, or a value.\<close>

datatype 'x reply = Itself | Elements 'x | Value 'x

record 'x wd_instance =
  in_methods :: "string list"
  in_reply :: "string \<Rightarrow> 'x reply"

datatype 'x answer = TheSet | AnswerElements 'x | AnswerValue 'x | TheInstance nat | NoInstance

definition prior_text :: "string \<Rightarrow> string \<Rightarrow> string" where
  "prior_text name m = ''cannot call methods on '' @ name @ '' prior to initialization; attempted to call method '' @ [char_of (39 :: nat)] @ m @ [char_of (39 :: nat)]"

definition no_method_text :: "string \<Rightarrow> string \<Rightarrow> string" where
  "no_method_text name m = ''no such method '' @ [char_of (39 :: nat)] @ m @ [char_of (39 :: nat)] @ '' for '' @ name @ '' widget instance''"

text \<open>A call of a method on the elements of a set, with the calls made: the first value that is new is the answer.\<close>

fun bridge_call :: "string \<Rightarrow> string \<Rightarrow> nat \<Rightarrow> 'x wd_instance option list \<Rightarrow> nat list \<Rightarrow> ('x answer \<times> nat list) js" where
  "bridge_call name m i [] cs = Inr (TheSet, cs)"
| "bridge_call name m i (e # es) cs =
     (if m = ''instance'' then Inr (case e of None \<Rightarrow> NoInstance | Some _ \<Rightarrow> TheInstance i, cs)
      else case e of None \<Rightarrow> Inl (Throw (prior_text name m))
        | Some x \<Rightarrow>
          if m \<notin> set (in_methods x) \<or> m \<noteq> [] \<and> hd m = CHR ''_'' then Inl (Throw (no_method_text name m))
          else case in_reply x m of
              Itself \<Rightarrow> bridge_call name m (Suc i) es (cs @ [i])
            | Elements v \<Rightarrow> Inr (AnswerElements v, cs @ [i])
            | Value v \<Rightarrow> Inr (AnswerValue v, cs @ [i]))"

text \<open>A call with options: instances that are there are given them, the others made.\<close>

datatype made = GivenOptions | MadeNew

definition bridge_make :: "'x wd_instance option list \<Rightarrow> made list" where
  "bridge_make es = map (\<lambda>e. case e of Some _ \<Rightarrow> GivenOptions | None \<Rightarrow> MadeNew) es"

section \<open>Events of a widget\<close>

text \<open>\<open>_on\<close>: a handler runs unless the widget is disabled (exactly \<open>true\<close>) or its element has the class of a
  disabled part.\<close>

definition handler_runs :: "bool \<Rightarrow> 'p jval \<Rightarrow> 'p jval \<Rightarrow> bool \<Rightarrow> bool" where
  "handler_runs suppress true disabled has_class = (suppress \<or> \<not> (disabled = true \<or> has_class))"

definition is_word_char :: "char \<Rightarrow> bool" where
  "is_word_char c = (is_digit c \<or> c = CHR ''_'' \<or> (let k = (of_char (lower_char c) :: int) in 97 \<le> k \<and> k \<le> 122))"

definition is_name_char :: "char \<Rightarrow> bool" where
  "is_name_char c = (is_word_char c \<or> c = CHR '':'' \<or> c = CHR ''-'')"

text \<open>The key of a handler: the name of the event and, after blanks, a selector.\<close>

definition split_event :: "string \<Rightarrow> string \<times> string" where
  "split_event e = (takeWhile is_name_char e, dropWhile is_space (dropWhile is_name_char e))"

datatype event_binding = Delegated string string | Direct string

definition bind_event :: "string \<Rightarrow> string \<Rightarrow> event_binding" where
  "bind_event ns e = (let (nm, sel) = split_event e in if sel \<noteq> [] then Delegated sel (nm @ ns) else Direct (nm @ ns))"

text \<open>\<open>_off\<close>: the names to unbind, each with the namespace of the widget.\<close>

fun join_with :: "string \<Rightarrow> string list \<Rightarrow> string" where
  "join_with d [] = []"
| "join_with d [x] = x"
| "join_with d (x # y # r) = x @ d @ join_with d (y # r)"

fun split_blanks :: "string \<Rightarrow> string list" where
  "split_blanks [] = [[]]"
| "split_blanks (c # cs) = (if c = CHR '' '' then [] # split_blanks cs else (case split_blanks cs of [] \<Rightarrow> [[c]] | w # ws \<Rightarrow> (c # w) # ws))"

definition off_names :: "string \<Rightarrow> string \<Rightarrow> string" where
  "off_names ns names = join_with (ns @ '' '') (split_blanks names) @ ns"

text \<open>\<open>_trigger\<close>: the type of the event, and the answer: whether the default action goes on.\<close>

definition trigger_type :: "string \<Rightarrow> string \<Rightarrow> string" where
  "trigger_type prefix ty = to_lower (if ty = prefix then ty else prefix @ ty)"

definition trigger_goes_on :: "bool option \<Rightarrow> bool \<Rightarrow> bool" where
  "trigger_goes_on callback_answer prevented = (\<not> (callback_answer = Some False \<or> prevented))"

text \<open>\<open>_show\<close> and \<open>_hide\<close>: the effect that is run.\<close>

datatype effect_option = NoEffect | TrueEffect | Duration int | EffectName string
  | EffectObject "string option" bool

datatype effect_call = UiEffect | OwnMethod string | Queued

definition effect_name :: "string \<Rightarrow> string \<Rightarrow> effect_option \<Rightarrow> string" where
  "effect_name meth dflt eo = (case eo of NoEffect \<Rightarrow> meth | TrueEffect \<Rightarrow> dflt | Duration n \<Rightarrow> if n = 0 then meth else dflt
     | EffectName s \<Rightarrow> if s = [] then dflt else s
     | EffectObject e others \<Rightarrow> (case e of Some s \<Rightarrow> if s = [] then dflt else s | None \<Rightarrow> dflt))"

definition has_options :: "effect_option \<Rightarrow> bool" where
  "has_options eo = (case eo of NoEffect \<Rightarrow> False | TrueEffect \<Rightarrow> False | Duration n \<Rightarrow> n \<noteq> 0
     | EffectName s \<Rightarrow> True | EffectObject e others \<Rightarrow> e \<noteq> None \<or> others)"

definition effect_run :: "(string \<Rightarrow> bool) \<Rightarrow> (string \<Rightarrow> bool) \<Rightarrow> string \<Rightarrow> string \<Rightarrow> effect_option \<Rightarrow> effect_call" where
  "effect_run effects methods meth dflt eo =
     (let nm = effect_name meth dflt eo in
      if has_options eo \<and> effects nm then UiEffect
      else if nm \<noteq> meth \<and> methods nm then OwnMethod nm else Queued)"

end
