(* ===== verification/UI_WidgetProps.thy ===== *)
theory UI_WidgetProps
  imports UI_Widget
begin

text \<open>
  The copies that \<open>$.widget.extend\<close> makes: on values that are finite trees it makes what a plain function on trees
  gives, in new objects only. From this, what is set under a nested key is what is read back, and no object
  that was there before changes but the options of the widget.
\<close>

section \<open>Values as trees\<close>

datatype 'p tree = Leaf "'p jval" | Node "(string \<times> 'p tree) list"

text \<open>The reference: properties are put over those that are there, objects are put into objects.\<close>

definition inner :: "(string \<times> 'p tree) list \<Rightarrow> string \<Rightarrow> (string \<times> 'p tree) list" where
  "inner kts k = (case map_of kts k of Some (Node os) \<Rightarrow> os | _ \<Rightarrow> [])"

fun mix :: "(string \<times> 'p tree) list \<Rightarrow> (string \<times> 'p tree) list \<Rightarrow> (string \<times> 'p tree) list" where
  "mix tgt [] = tgt"
| "mix tgt ((k, Leaf v) # r) = mix (if v = Undefined then tgt else AList.update k (Leaf v) tgt) r"
| "mix tgt ((k, Node s) # r) = mix (AList.update k (Node (mix (inner tgt k) s)) tgt) r"

primrec node_props :: "'p tree \<Rightarrow> (string \<times> 'p tree) list" where
  "node_props (Leaf v) = []"
| "node_props (Node kts) = kts"

definition mix_all :: "'p tree list \<Rightarrow> (string \<times> 'p tree) list" where
  "mix_all ts = fold (\<lambda>t acc. mix acc (node_props t)) ts []"

fun deep :: "nat \<Rightarrow> 'p tree \<Rightarrow> bool" where
  "deep n (Leaf v) = True"
| "deep 0 (Node kts) = False"
| "deep (Suc n) (Node kts) = list_all (\<lambda>kt. deep n (snd kt)) kts"

text \<open>A tree with nothing to leave out.\<close>

inductive pruned :: "'p tree \<Rightarrow> bool" where
  pruned_leaf: "v \<noteq> Undefined \<Longrightarrow> pruned (Leaf v)"
| pruned_node: "distinct (map fst kts) \<Longrightarrow> (\<And>kt. kt \<in> set kts \<Longrightarrow> pruned (snd kt)) \<Longrightarrow> pruned (Node kts)"

inductive_simps pruned_leaf_simp [simp]: "pruned (Leaf v)"
inductive_simps pruned_node_simp: "pruned (Node kts)"

lemma set_update: "set (AList.update k v xs) \<subseteq> insert (k, v) (set xs)"
  by (induction xs) auto

lemma map_of_mem: "map_of kts k = Some t \<Longrightarrow> (k, t) \<in> set kts"
  by (rule map_of_SomeD)

lemma pruned_inner: "pruned (Node kts) \<Longrightarrow> pruned (Node (inner kts k))"
proof -
  assume t: "pruned (Node kts)"
  show ?thesis
  proof (cases "map_of kts k")
    case None then show ?thesis by (simp add: inner_def pruned_node_simp)
  next
    case (Some x)
    then have "pruned x" using t map_of_mem [OF Some] by (auto simp: pruned_node_simp)
    then show ?thesis by (cases x) (auto simp: inner_def Some pruned_node_simp)
  qed
qed

lemma pruned_update: "pruned (Node kts) \<Longrightarrow> pruned t \<Longrightarrow> pruned (Node (AList.update k t kts))"
  using set_update [of k t kts] by (auto simp: pruned_node_simp intro: distinct_update)

lemma pruned_mix: "pruned (Node tgt) \<Longrightarrow> pruned (Node (mix tgt s))"
  by (induction tgt s rule: mix.induct) (simp_all add: pruned_update pruned_inner)

lemma update_new: "k \<notin> fst ` set xs \<Longrightarrow> AList.update k v xs = xs @ [(k, v)]"
  by (induction xs) auto

lemma mix_append:
  "pruned (Node os) \<Longrightarrow> fst ` set tgt \<inter> fst ` set os = {} \<Longrightarrow> mix tgt os = tgt @ os"
proof (induction tgt os rule: mix.induct)
  case (2 tgt k v r)
  then show ?case by (auto simp: pruned_node_simp update_new)
next
  case (3 tgt k s r)
  have k: "k \<notin> fst ` set tgt" using "3.prems"(2) by auto
  then have i: "inner tgt k = []" by (simp add: inner_def map_of_eq_None_iff [symmetric])
  have s: "pruned (Node s)" using "3.prems"(1) by (auto simp: pruned_node_simp)
  have "mix (inner tgt k) s = s" using "3.IH"(1) [OF s] i by simp
  then show ?case using 3 k by (auto simp: pruned_node_simp update_new)
qed simp

lemma mix_copy: "pruned (Node os) \<Longrightarrow> mix [] os = os"
  by (simp add: mix_append)

lemma deep_inner: "list_all (\<lambda>kt. deep n (snd kt)) kts \<Longrightarrow> deep n (Node (inner kts k))" if "0 < n"
proof -
  assume d: "list_all (\<lambda>kt. deep n (snd kt)) kts"
  show ?thesis
  proof (cases "map_of kts k")
    case None with that show ?thesis by (cases n) (simp_all add: inner_def)
  next
    case (Some x)
    then have "deep n x" using d map_of_mem [OF Some] by (auto simp: list_all_iff)
    with that Some show ?thesis by (cases n; cases x) (simp_all add: inner_def)
  qed
qed

lemma deep_update:
  "list_all (\<lambda>kt. deep n (snd kt)) kts \<Longrightarrow> deep n t \<Longrightarrow> list_all (\<lambda>kt. deep n (snd kt)) (AList.update k t kts)"
  using set_update [of k t kts] by (auto simp: list_all_iff)

lemma deep_mix:
  "list_all (\<lambda>kt. deep n (snd kt)) tgt \<Longrightarrow> list_all (\<lambda>kt. deep n (snd kt)) s \<Longrightarrow>
   list_all (\<lambda>kt. deep n (snd kt)) (mix tgt s)"
proof (induction tgt s arbitrary: n rule: mix.induct)
  case (2 tgt k v r)
  then show ?case by (simp add: deep_update)
next
  case (3 tgt k s r)
  obtain n' where n: "n = Suc n'" using "3.prems"(2) by (cases n) simp_all
  have "deep n (Node (mix (inner tgt k) s))"
    using "3.IH"(1) [of n'] "3.prems" deep_inner [OF _ "3.prems"(1), of k] by (simp add: n)
  then show ?case using 3 by (simp add: deep_update)
qed simp

section \<open>Trees in the store\<close>

text \<open>\<open>shape m h v t\<close>: the value is the tree, in objects at \<open>m\<close> and later.\<close>

inductive shape :: "nat \<Rightarrow> 'p heap \<Rightarrow> 'p jval \<Rightarrow> 'p tree \<Rightarrow> bool" for m h where
  shape_leaf: "\<not> isPlainObject h v \<Longrightarrow> (\<And>a. v = Ref a \<Longrightarrow> a < length h) \<Longrightarrow> shape m h v (Leaf v)"
| shape_node: "m \<le> a \<Longrightarrow> a < length h \<Longrightarrow> h ! a = Plain kv \<Longrightarrow>
    list_all2 (\<lambda>x y. fst x = fst y \<and> shape m h (snd x) (snd y)) kv kts \<Longrightarrow> shape m h (Ref a) (Node kts)"

inductive_simps shape_leaf_simp: "shape m h v (Leaf x)"
inductive_simps shape_node_simp: "shape m h v (Node kts)"

abbreviation shapes :: "nat \<Rightarrow> 'p heap \<Rightarrow> (string \<times> 'p jval) list \<Rightarrow> (string \<times> 'p tree) list \<Rightarrow> bool" where
  "shapes m h \<equiv> list_all2 (\<lambda>x y. fst x = fst y \<and> shape m h (snd x) (snd y))"

lemma shape_mono: "shape m h v t \<Longrightarrow> m' \<le> m \<Longrightarrow> take (length h) h' = h \<Longrightarrow> shape m' h' v t"
proof (induction rule: shape.induct)
  case (shape_leaf v)
  have "length h \<le> length h'" using shape_leaf.prems(2) by (metis length_take min.absorb_iff2 min.commute nat_le_linear)
  moreover have "h' ! a = h ! a" if "a < length h" for a using shape_leaf.prems(2) that by (metis nth_take)
  ultimately show ?case
    using shape_leaf by (cases v) (auto simp: shape_leaf_simp isPlainObject_def split: object.splits)
next
  case (shape_node a kv kts)
  have "length h \<le> length h'" using shape_node.prems(2) by (metis length_take min.absorb_iff2 min.commute nat_le_linear)
  moreover have "h' ! a = h ! a" using shape_node by (metis nth_take)
  ultimately show ?case
    using shape_node by (auto simp: shape_node_simp elim!: list_all2_mono)
qed

lemma shapes_mono: "shapes m h kv kts \<Longrightarrow> m' \<le> m \<Longrightarrow> take (length h) h' = h \<Longrightarrow> shapes m' h' kv kts"
  by (erule list_all2_mono) (auto intro: shape_mono)

lemma shape_write:
  "shape m h v t \<Longrightarrow> a < m \<Longrightarrow> h ! a = Plain kv \<Longrightarrow> shape m (h[a := Plain kv']) v t"
proof (induction rule: shape.induct)
  case (shape_leaf v)
  then show ?case
    by (cases v; cases "v = Ref a") (auto simp: shape_leaf_simp isPlainObject_def nth_list_update split: object.splits)
next
  case (shape_node b kvb kts)
  then show ?case by (auto simp: shape_node_simp nth_list_update elim!: list_all2_mono)
qed

lemma shapes_write:
  "shapes m h kvs kts \<Longrightarrow> a < m \<Longrightarrow> h ! a = Plain kv \<Longrightarrow> shapes m (h[a := Plain kv']) kvs kts"
  by (erule list_all2_mono) (auto intro: shape_write)

lemma shapes_update:
  "shapes m h kv kts \<Longrightarrow> shape m h v t \<Longrightarrow> shapes m h (AList.update k v kv) (AList.update k t kts)"
  by (induction kv kts rule: list_all2_induct) auto

lemma shapes_lookup:
  "shapes m h kv kts \<Longrightarrow> map_of kts k = None \<and> map_of kv k = None \<or>
    (\<exists>v t. map_of kv k = Some v \<and> map_of kts k = Some t \<and> shape m h v t)"
  by (induction kv kts rule: list_all2_induct) auto

lemma shape_plain: "shape m h v t \<Longrightarrow> isPlainObject h v \<longleftrightarrow> (\<exists>kts. t = Node kts)"
  by (erule shape.cases) (auto simp: isPlainObject_def)

lemma shape_node_props: "shape m h v (Node kts) \<Longrightarrow> shapes m h (own_props h v) kts"
  by (auto simp: shape_node_simp own_props_def)

section \<open>The copy is the reference\<close>

definition makes :: "('p heap \<Rightarrow> nat \<Rightarrow> 'p jval list \<Rightarrow> 'p heap js) \<Rightarrow> nat \<Rightarrow> bool" where
  "makes rec n \<longleftrightarrow> (\<forall>h ins ts. list_all2 (shape 0 h) ins ts \<longrightarrow> ts \<noteq> [] \<longrightarrow> list_all (\<lambda>t. \<exists>kts. t = Node kts) ts \<longrightarrow> list_all (deep n) ts \<longrightarrow>
     (\<exists>h'. rec (h @ [Plain []]) (length h) ins = Inr h' \<and> take (length h) h' = h \<and> length h < length h' \<and>
       shape (length h) h' (Ref (length h)) (Node (mix_all ts))))"

text \<open>The copy as it is made: the objects before it are as they were, its own values come after it.\<close>

definition making :: "'p heap \<Rightarrow> 'p heap \<Rightarrow> (string \<times> 'p tree) list \<Rightarrow> bool" where
  "making h0 h kts \<longleftrightarrow> take (length h0) h = h0 \<and> length h0 < length h \<and>
     (\<exists>kv. h ! length h0 = Plain kv \<and> shapes (Suc (length h0)) h kv kts)"

lemma making_set:
  assumes "making h0 h kts" "shape (Suc (length h0)) h v t"
  shows "making h0 (set_prop (length h0) k v h) (AList.update k t kts)"
proof -
  obtain kv where kv: "h ! length h0 = Plain kv" "shapes (Suc (length h0)) h kv kts"
    using assms(1) by (auto simp: making_def)
  have "shapes (Suc (length h0)) (h[length h0 := Plain (AList.update k v kv)]) (AList.update k v kv) (AList.update k t kts)"
    by (rule shapes_write [OF _ _ kv(1)]) (use kv(2) assms(2) in \<open>simp_all add: shapes_update\<close>)
  then show ?thesis
    using assms(1) by (simp add: making_def set_prop_def kv(1))
qed

lemma making_grow:
  assumes "making h0 h kts" "take (length h) h' = h"
  shows "making h0 h' kts"
proof -
  obtain kv where kv: "h ! length h0 = Plain kv" "shapes (Suc (length h0)) h kv kts" and l: "length h0 < length h"
    using assms(1) by (auto simp: making_def)
  have le: "length h \<le> length h'" using assms(2) by (metis length_take min.absorb_iff2 min.commute nat_le_linear)
  have "h' ! length h0 = h ! length h0" using assms(2) l by (metis nth_take)
  moreover have "take (length h0) h' = h0"
    using assms l by (metis making_def min.absorb1 less_imp_le take_take)
  ultimately show ?thesis
    using kv l le shapes_mono [OF kv(2) le_refl assms(2)] by (simp add: making_def)
qed

lemma making_old:
  assumes "making h0 h kts"
  shows "map_of kts k = None \<and> get_prop h (Ref (length h0)) k = Undefined \<or>
    (\<exists>t. map_of kts k = Some t \<and> shape (Suc (length h0)) h (get_prop h (Ref (length h0)) k) t)"
proof -
  obtain kv where kv: "h ! length h0 = Plain kv" "shapes (Suc (length h0)) h kv kts" and l: "length h0 < length h"
    using assms by (auto simp: making_def)
  show ?thesis using shapes_lookup [OF kv(2), of k] by (auto simp: get_prop_def own_props_def kv(1) l)
qed

lemma not_plain_undefined [simp]: "\<not> isPlainObject h Undefined"
  by (simp add: isPlainObject_def)

lemma nested_made:
  assumes r: "makes rec n" and m: "making h0 h tgt" and d: "list_all (\<lambda>kt. deep n (snd kt)) tgt"
    and v: "shape 0 h v (Node s)" "deep n (Node s)"
  shows "\<exists>h1. rec (h @ [Plain []]) (length h) (if isPlainObject h (get_prop h (Ref (length h0)) k)
      then [get_prop h (Ref (length h0)) k, v] else [v]) = Inr h1 \<and> take (length h) h1 = h \<and> length h < length h1 \<and>
    shape (length h) h1 (Ref (length h)) (Node (mix (mix [] (inner tgt k)) s))"
proof (cases "isPlainObject h (get_prop h (Ref (length h0)) k)")
  case True
  then obtain t where t: "map_of tgt k = Some t" "shape (Suc (length h0)) h (get_prop h (Ref (length h0)) k) t"
    using making_old [OF m, of k] by auto
  then obtain os where os: "t = Node os" using True shape_plain by metis
  have "deep n t" using d map_of_mem [OF t(1)] by (auto simp: list_all_iff)
  moreover have "shape 0 h (get_prop h (Ref (length h0)) k) t" by (rule shape_mono [OF t(2)]) simp_all
  ultimately show ?thesis
    using r [unfolded makes_def, rule_format, of h "[get_prop h (Ref (length h0)) k, v]" "[Node os, Node s]"] v True t(1)
    by (simp add: os inner_def mix_all_def)
next
  case False
  have "inner tgt k = []"
    using making_old [OF m, of k] False shape_plain by (fastforce simp: inner_def split: tree.split option.split)
  then show ?thesis
    using r [unfolded makes_def, rule_format, of h "[v]" "[Node s]"] v False by (simp add: mix_all_def)
qed

lemma extend_props_makes:
  assumes r: "makes rec n" and sh: "shapes 0 h0 kv kts" and d: "list_all (\<lambda>kt. deep n (snd kt)) kts"
    and m: "making h0 h tgt" "list_all (\<lambda>kt. deep n (snd kt)) tgt" "pruned (Node tgt)"
  shows "\<exists>h'. extend_props rec (length h0) kv h = Inr h' \<and> making h0 h' (mix tgt kts)"
  using sh d m
proof (induction kv kts arbitrary: h tgt rule: list_all2_induct)
  case Nil
  then show ?case by simp
next
  case (Cons x kv y kts)
  obtain k v where x: "x = (k, v)" by (cases x)
  obtain t where y: "y = (k, t)" using Cons.hyps(1) x by (cases y) auto
  have h0: "take (length h0) h = h0" using Cons.prems(2) by (simp add: making_def)
  have v: "shape 0 h v t" by (rule shape_mono [OF _ _ h0]) (use Cons.hyps(1) in \<open>simp_all add: x y\<close>)
  show ?case
  proof (cases t)
    case (Leaf w)
    have w: "w = v" "\<not> isPlainObject h v" using v Leaf by (auto simp: shape_leaf_simp)
    have "shape (Suc (length h0)) h v (Leaf v)" using v Leaf w by (simp add: shape_leaf_simp)
    then have "v \<noteq> Undefined \<Longrightarrow> making h0 (set_prop (length h0) k v h) (AList.update k (Leaf v) tgt)"
      using making_set [OF Cons.prems(2)] by blast
    then show ?thesis
      using Cons.IH [of h tgt] Cons.IH [of "set_prop (length h0) k v h" "AList.update k (Leaf v) tgt"] Cons.prems
      by (auto simp: x y Leaf w deep_update pruned_update)
  next
    case (Node s)
    have s: "deep n (Node s)" using Cons.prems(1) by (simp add: y Node)
    have p: "isPlainObject h v" using shape_plain [OF v] Node by simp
    have nu: "v \<noteq> Undefined" using p by auto
    obtain h1 where h1: "rec (h @ [Plain []]) (length h) (if isPlainObject h (get_prop h (Ref (length h0)) k)
        then [get_prop h (Ref (length h0)) k, v] else [v]) = Inr h1" "take (length h) h1 = h"
      "shape (length h) h1 (Ref (length h)) (Node (mix (mix [] (inner tgt k)) s))"
      using nested_made [OF r Cons.prems(2,3) v [unfolded Node] s, of k] by blast
    have copy: "mix [] (inner tgt k) = inner tgt k" using mix_copy pruned_inner [OF Cons.prems(4)] by blast
    let ?t = "Node (mix (inner tgt k) s)"
    have "Suc (length h0) \<le> length h" using Cons.prems(2) by (simp add: making_def)
    then have "shape (Suc (length h0)) h1 (Ref (length h)) ?t"
      using shape_mono [OF h1(3)] by (simp add: copy)
    then have m1: "making h0 (set_prop (length h0) k (Ref (length h)) h1) (AList.update k ?t tgt)"
      using making_set making_grow [OF Cons.prems(2) h1(2)] by blast
    have dt: "deep n ?t"
      using deep_inner [of n tgt k] deep_mix [of _ "inner tgt k" s] Cons.prems(3) s by (cases n) simp_all
    have "pruned ?t" by (rule pruned_mix) (rule pruned_inner [OF Cons.prems(4)])
    then show ?thesis
      using Cons.IH [OF _ m1] Cons.prems p nu h1(1) dt by (auto simp: x y Node deep_update pruned_update)
  qed
qed

lemma node_props_deep: "deep (Suc n) t \<Longrightarrow> list_all (\<lambda>kt. deep n (snd kt)) (node_props t)"
  by (cases t) simp_all

lemma extend_inputs_makes:
  assumes r: "makes rec n" and sh: "list_all2 (shape 0 h0) ins ts" and n: "list_all (\<lambda>t. \<exists>kts. t = Node kts) ts"
    and d: "list_all (deep (Suc n)) ts" and m: "making h0 h tgt" "list_all (\<lambda>kt. deep n (snd kt)) tgt" "pruned (Node tgt)"
  shows "\<exists>h'. extend_inputs rec (length h0) ins h = Inr h' \<and>
    making h0 h' (fold (\<lambda>t acc. mix acc (node_props t)) ts tgt)"
  using sh n d m
proof (induction ins ts arbitrary: h tgt rule: list_all2_induct)
  case Nil
  then show ?case by simp
next
  case (Cons i ins t ts)
  obtain kts where t: "t = Node kts" using Cons.prems(1) by auto
  have h0: "take (length h0) h = h0" using Cons.prems(3) by (simp add: making_def)
  have i: "shape 0 h0 i (Node kts)" using Cons.hyps(1) t by simp
  have m0: "length h0 < length h" using Cons.prems(3) by (simp add: making_def)
  have "own_props (take (length h0) h) i = own_props h i" if "i = Ref a" "a < length h0" for a
    using that m0 by (simp add: own_props_def)
  then have pr: "own_props h i = own_props h0 i" using i h0 by (auto simp: shape_node_simp)
  obtain h1 where h1: "extend_props rec (length h0) (own_props h i) h = Inr h1" "making h0 h1 (mix tgt kts)"
    using extend_props_makes [OF r shape_node_props [OF i] _ Cons.prems(3-5)] Cons.prems(2) by (auto simp: t pr)
  have "list_all (\<lambda>kt. deep n (snd kt)) (mix tgt kts)"
    by (rule deep_mix) (use Cons.prems(2,4) in \<open>simp_all add: t\<close>)
  then show ?case
    using Cons.IH [OF _ _ h1(2) _ pruned_mix [OF Cons.prems(5)]] Cons.prems(1,2) h1(1) by (simp add: t)
qed

lemma making_done:
  assumes "making h0 h kts"
  shows "take (length h0) h = h0 \<and> length h0 < length h \<and> shape (length h0) h (Ref (length h0)) (Node kts)"
proof -
  obtain kv where kv: "h ! length h0 = Plain kv" "shapes (Suc (length h0)) h kv kts"
    using assms by (auto simp: making_def)
  have "shapes (length h0) h kv kts" by (rule shapes_mono [OF kv(2)]) simp_all
  then show ?thesis using assms kv(1) by (simp add: making_def shape_node_simp)
qed

lemma widget_extend_makes: "makes (widget_extend n) n"
proof (induction n)
  case 0
  have "\<not> (\<exists>kts. t = Node kts)" if "deep 0 t" for t :: "'a tree" using that by (cases t) simp_all
  then show ?case by (auto simp: makes_def neq_Nil_conv)
next
  case (Suc n)
  show ?case unfolding makes_def
  proof (intro allI impI)
    fix h :: "'a heap" and ins ts
    assume a: "list_all2 (shape 0 h) ins ts" "list_all (\<lambda>t. \<exists>kts. t = Node kts) ts" "list_all (deep (Suc n)) ts"
    have m: "making h (h @ [Plain []]) []" by (simp add: making_def)
    have "pruned (Node [])" by (simp add: pruned_node_simp)
    then obtain h' where h': "extend_inputs (widget_extend n) (length h) ins (h @ [Plain []]) = Inr h'"
      "making h h' (mix_all ts)"
      using extend_inputs_makes [OF Suc a m] by (auto simp: mix_all_def)
    then show "\<exists>h'. widget_extend (Suc n) (h @ [Plain []]) (length h) ins = Inr h' \<and> take (length h) h' = h \<and>
        length h < length h' \<and> shape (length h) h' (Ref (length h)) (Node (mix_all ts))"
      using making_done [OF h'(2)] by simp
  qed
qed

text \<open>C15: A copy made by \<open>$.widget.extend ( {}, ... )\<close> from objects that are finite trees is
  an object at a new place whose tree is the reference merge of the trees; every object it holds, at any depth, is
  new, and no object that was there before has changed. As much fuel as the trees are deep is enough.\<close>

theorem widget_extend_refines:
  assumes "list_all2 (shape 0 h) ins ts" "ts \<noteq> []" "list_all (\<lambda>t. \<exists>kts. t = Node kts) ts" "list_all (deep n) ts"
  shows "\<exists>a h'. extend_new n ins h = Inr (a, h') \<and> a = length h \<and> take (length h) h' = h \<and>
    shape (length h) h' (Ref a) (Node (mix_all ts))"
proof -
  obtain h' where "widget_extend n (h @ [Plain []]) (length h) ins = Inr h'" "take (length h) h' = h"
    "shape (length h) h' (Ref (length h)) (Node (mix_all ts))"
    using widget_extend_makes [unfolded makes_def, rule_format, OF assms] by blast
  then show ?thesis by (simp add: extend_new_def)
qed

lemma widget_extend_refines_witness:
  "\<exists>a h'. extend_new 2 [Ref 0, Ref 2] [Plain [(''a'', Ref 1), (''disabled'', Prim False)], Plain [(''x'', Prim True)],
       Plain [(''a'', Ref 3), (''b'', Undefined)], Plain [(''y'', Text ''t'')]] = Inr (a, h') \<and> a = 4 \<and>
     take 4 h' = [Plain [(''a'', Ref 1), (''disabled'', Prim False)], Plain [(''x'', Prim True)],
       Plain [(''a'', Ref 3), (''b'', Undefined)], Plain [(''y'', Text ''t'')]] \<and>
     shape 4 h' (Ref a) (Node [(''a'', Node [(''x'', Leaf (Prim True)), (''y'', Leaf (Text ''t''))]),
       (''disabled'', Leaf (Prim False))])"
proof -
  let ?h = "[Plain [(''a'', Ref 1), (''disabled'', Prim False)], Plain [(''x'', Prim True)],
       Plain [(''a'', Ref 3), (''b'', Undefined)], Plain [(''y'', Text ''t'')]]"
  let ?ts = "[Node [(''a'', Node [(''x'', Leaf (Prim True))]), (''disabled'', Leaf (Prim False))],
       Node [(''a'', Node [(''y'', Leaf (Text ''t''))]), (''b'', Leaf Undefined)]]"
  have "list_all2 (shape 0 ?h) [Ref 0, Ref 2] ?ts"
    by (simp add: shape_node_simp shape_leaf_simp isPlainObject_def)
  then show ?thesis
    using widget_extend_refines [of ?h "[Ref 0, Ref 2]" ?ts 2] by (simp add: mix_all_def inner_def eval_nat_numeral)
qed

section \<open>Options under nested keys\<close>

lemma split_dots_plain: "CHR ''.'' \<notin> set s \<Longrightarrow> split_dots s = [s]"
  by (induction s) auto

lemma split_dots_app: "CHR ''.'' \<notin> set k \<Longrightarrow> split_dots (k @ CHR ''.'' # r) = k # split_dots r"
  by (induction k) auto

lemma split_dots_join: "ps \<noteq> [] \<Longrightarrow> \<forall>p \<in> set ps. CHR ''.'' \<notin> set p \<Longrightarrow> split_dots (join_with ''.'' ps) = ps"
  by (induction "''.''" ps rule: join_with.induct) (simp_all add: split_dots_plain split_dots_app)

lemma prop_set [simp]:
  "a < length h \<Longrightarrow> get_prop (set_prop a k v h) (Ref a) j = (if j = k then v else get_prop h (Ref a) j)"
  by (auto simp: get_prop_def own_props_def set_prop_def update_conv' split: object.split)

lemma prop_cong: "h' ! a = h ! a \<Longrightarrow> a < length h \<Longrightarrow> a < length h' \<Longrightarrow> get_prop h' (Ref a) i = get_prop h (Ref a) i"
  by (simp add: get_prop_def own_props_def)

lemma set_prop_length [simp]: "length (set_prop a k v h) = length h"
  by (simp add: set_prop_def)

lemma set_prop_other: "a \<noteq> b \<Longrightarrow> set_prop a k v h ! b = h ! b"
  by (simp add: set_prop_def)

lemma shape_prop:
  assumes "shape m h (Ref a) (Node kts)"
  shows "map_of kts k = None \<and> get_prop h (Ref a) k = Undefined \<or>
    (\<exists>t. map_of kts k = Some t \<and> shape m h (get_prop h (Ref a) k) t)"
  using shapes_lookup [OF shape_node_props [OF assms], of k] by (auto simp: get_prop_def)

text \<open>The copy of one object, with its own values after it; what has no properties is copied as an empty one.\<close>

lemma copy_one:
  assumes "shape 0 h v (Node s) \<and> deep (Suc n) (Node s) \<or> own_props h v = [] \<and> v \<noteq> Ref (length h) \<and> s = []"
  shows "\<exists>h'. extend_new (Suc n) [v] h = Inr (length h, h') \<and> making h h' (mix [] s)"
proof -
  have m: "making h (h @ [Plain []]) []" "pruned (Node [])" by (simp_all add: making_def pruned_node_simp)
  consider (n) "shape 0 h v (Node s)" "deep (Suc n) (Node s)" | (u) "own_props h v = []" "v \<noteq> Ref (length h)" "s = []" using assms by blast
  then show ?thesis
  proof cases
    case n
    have "\<exists>h'. extend_inputs (widget_extend n) (length h) [v] (h @ [Plain []]) = Inr h' \<and> making h h' (mix [] s)"
      using extend_inputs_makes [OF widget_extend_makes [of n], of h "[v]" "[Node s]" "h @ [Plain []]" "[]"] m n
      by (simp del: extend_inputs.simps)
    then obtain h' where "extend_inputs (widget_extend n) (length h) [v] (h @ [Plain []]) = Inr h'"
      "making h h' (mix [] s)" by blast
    then show ?thesis by (simp add: extend_new_def del: extend_inputs.simps)
  next
    case u
    have "own_props (h @ [Plain []]) v = []" using u(1,2) by (cases v) (auto simp: own_props_def nth_append split: if_splits)
    then show ?thesis using m u(3) by (simp add: extend_new_def)
  qed
qed

text \<open>The tree of a value is one, so that no object is inside itself.\<close>

lemma shape_unique: "shape m h v t \<Longrightarrow> shape m' h v t' \<Longrightarrow> t = t'"
proof (induction arbitrary: t' rule: shape.induct)
  case (shape_leaf v)
  then show ?case using shape_plain [OF shape_leaf.prems] by (cases t') (auto simp: shape_leaf_simp)
next
  case (shape_node a kv kts)
  have "isPlainObject h (Ref a)" using shape_node by (simp add: isPlainObject_def)
  then obtain kts' where t: "t' = Node kts'" using shape_plain [OF shape_node.prems] by blast
  have l: "shapes m' h kv kts'" using shape_node.prems shape_node.hyps(3) by (auto simp: t shape_node_simp)
  have "kts = kts'"
  proof (rule nth_equalityI)
    show "length kts = length kts'" using list_all2_lengthD [OF shape_node.IH] list_all2_lengthD [OF l] by simp
    fix i assume i: "i < length kts"
    have len: "length kv = length kts" using shape_node.IH by (simp add: list_all2_lengthD)
    note ih = list_all2_nthD2 [OF shape_node.IH i] and l' = list_all2_nthD [OF l i [folded len]]
    have "snd (kts ! i) = snd (kts' ! i)" using ih l' by blast
    moreover have "fst (kts ! i) = fst (kts' ! i)" using conjunct1 [OF ih] conjunct1 [OF l'] by simp
    ultimately show "kts ! i = kts' ! i" by (rule prod_eqI [rotated])
  qed
  then show ?case by (simp add: t)
qed

lemma size_child: "map_of kts k = Some t \<Longrightarrow> size t < size (Node kts)"
  by (induction kts) (auto split: if_splits)

lemma deep_more: "deep n t \<Longrightarrow> n \<le> m \<Longrightarrow> deep m t"
proof (induction n t arbitrary: m rule: deep.induct)
  case (3 n kts)
  then show ?case by (cases m) (auto simp: list_all_iff)
qed simp_all

text \<open>Finite trees stay finite trees, at most so much deeper.\<close>

definition keeps_trees :: "nat \<Rightarrow> nat \<Rightarrow> 'p heap \<Rightarrow> 'p heap \<Rightarrow> bool" where
  "keeps_trees m d h h' \<longleftrightarrow> (\<forall>x t n. shape m h x t \<longrightarrow> pruned t \<longrightarrow> deep n t \<longrightarrow> (\<exists>t'. shape m h' x t' \<and> pruned t' \<and> deep (n + d) t'))"

lemma keeps_trees_trans: "keeps_trees m d h h1 \<Longrightarrow> keeps_trees m d1 h1 h2 \<Longrightarrow> keeps_trees m (d + d1) h h2"
  unfolding keeps_trees_def by (metis add.assoc)

lemma keeps_trees_more: "keeps_trees m d h h' \<Longrightarrow> d \<le> d' \<Longrightarrow> keeps_trees m d' h h'"
  unfolding keeps_trees_def by (meson add_le_cancel_left deep_more)

lemma list_all2_exI: "\<forall>x \<in> set xs. \<exists>z. Q x z \<Longrightarrow> \<exists>zs. list_all2 Q xs zs"
  by (induction xs) (auto intro: list_all2_Cons [THEN iffD2])

lemma write_keeps_trees:
  assumes b: "b < length h" "h ! b = Plain kv" "length h \<le> length h'" "h' ! b = Plain (AList.update k v kv)"
    and other: "\<And>e. e < length h \<Longrightarrow> e \<noteq> b \<Longrightarrow> h' ! e = h ! e"
    and tv: "shape m h' v tv" "pruned tv" "deep d tv"
  shows "keeps_trees m d h h'"
proof -
  have "shape m h x t \<Longrightarrow> pruned t \<Longrightarrow> deep n t \<Longrightarrow> \<exists>t'. shape m h' x t' \<and> pruned t' \<and> deep (n + d) t'" for x t n
  proof (induction arbitrary: n rule: shape.induct)
    case (shape_leaf v)
    have "\<not> isPlainObject h' v"
    proof (cases v)
      case (Ref a)
      then have "a < length h" "a \<noteq> b" using shape_leaf.hyps b(1,2) by (auto simp: isPlainObject_def)
      then show ?thesis using shape_leaf.hyps(1) other b(3) by (simp add: Ref isPlainObject_def)
    qed (simp_all add: isPlainObject_def)
    moreover have "v = Ref a \<Longrightarrow> a < length h'" for a using shape_leaf.hyps(2) b(3) by fastforce
    ultimately have "shape m h' v (Leaf v)" by (simp add: shape_leaf_simp)
    then show ?case using shape_leaf.prems(1) by fastforce
  next
    case (shape_node a kv0 kts)
    obtain n0 where n: "n = Suc n0" using shape_node.prems(2) by (cases n) simp_all
    let ?Q = "\<lambda>x z. fst x = fst z \<and> shape m h' (snd x) (snd z) \<and> pruned (snd z) \<and> deep (n0 + d) (snd z)"
    have "\<exists>z. ?Q x z" if x: "x \<in> set kv0" for x
    proof -
      obtain i where i: "i < length kv0" "x = kv0 ! i" using x by (auto simp: in_set_conv_nth)
      have y: "kts ! i \<in> set kts" using i(1) list_all2_lengthD [OF shape_node.IH] by simp
      have "pruned (Node kts)" "list_all (\<lambda>kt. deep n0 (snd kt)) kts" using shape_node.prems by (simp_all add: n)
      then have "pruned (snd (kts ! i))" "deep n0 (snd (kts ! i))"
        using y unfolding pruned_node_simp list_all_iff by (metis prod.collapse, blast)
      moreover have "pruned (snd (kts ! i)) \<Longrightarrow> deep n0 (snd (kts ! i)) \<Longrightarrow> \<exists>t'. shape m h' (snd x) t' \<and> pruned t' \<and> deep (n0 + d) t'"
        using shape_node.IH i unfolding list_all2_conv_all_nth by blast
      ultimately obtain t' where "shape m h' (snd x) t' \<and> pruned t' \<and> deep (n0 + d) t'" by blast
      then show ?thesis by (intro exI [of _ "(fst x, t')"]) simp
    qed
    then obtain zs where zs: "list_all2 ?Q kv0 zs" using list_all2_exI [of kv0 ?Q] by blast
    have keys: "map fst zs = map fst kts"
      using zs shape_node.IH by (auto simp: list_all2_conv_all_nth intro!: nth_equalityI)
    have all: "\<And>z. z \<in> set zs \<Longrightarrow> pruned (snd z) \<and> deep (n0 + d) (snd z)"
      using zs by (auto simp: list_all2_conv_all_nth in_set_conv_nth)
    have sh: "shapes m h' kv0 zs" using zs by (rule list_all2_mono) blast
    have p: "pruned (Node zs)" "list_all (\<lambda>kt. deep (n0 + d) (snd kt)) zs"
      using all keys shape_node.prems(1) by (auto simp: pruned_node_simp list_all_iff)
    show ?case
    proof (cases "a = b")
      case True
      then have kv: "kv0 = kv" using shape_node.hyps(3) b(2) by simp
      have "shape m h' (Ref a) (Node (AList.update k tv zs))"
        using shapes_update [OF sh tv(1), of k] True shape_node.hyps(1,2) b(3,4) by (simp add: shape_node_simp kv)
      moreover have "pruned (Node (AList.update k tv zs))" by (rule pruned_update [OF p(1) tv(2)])
      moreover have "deep (n + d) (Node (AList.update k tv zs))"
        using deep_update [OF p(2) deep_more [OF tv(3)], of k] by (simp add: n)
      ultimately show ?thesis by blast
    next
      case False
      then have "shape m h' (Ref a) (Node zs)" using sh shape_node.hyps(1-3) b(3) other by (simp add: shape_node_simp)
      moreover have "deep (n + d) (Node zs)" using p(2) by (simp add: n)
      ultimately show ?thesis using p(1) by blast
    qed
  qed
  then show ?thesis unfolding keeps_trees_def by blast
qed

section \<open>The walk\<close>

text \<open>Nothing on the way is a value other than a plain object that the walk would take for one.\<close>

fun clear_path :: "('p \<Rightarrow> bool) \<Rightarrow> string list \<Rightarrow> (string \<times> 'p tree) list \<Rightarrow> bool" where
  "clear_path tp [] s = True"
| "clear_path tp (k # ks) s = (case map_of s k of None \<Rightarrow> True | Some (Leaf x) \<Rightarrow> \<not> is_truthy tp x | Some (Node os) \<Rightarrow> clear_path tp ks os)"

lemma clear_empty [simp]: "clear_path tp ks []"
  by (cases ks) simp_all

fun leads :: "'p heap \<Rightarrow> nat \<Rightarrow> string list \<Rightarrow> nat \<Rightarrow> bool" where
  "leads h a [] b \<longleftrightarrow> a = b"
| "leads h a (k # ks) b \<longleftrightarrow> (\<exists>c. get_prop h (Ref a) k = Ref c \<and> isPlainObject h (Ref c) \<and> leads h c ks b)"

lemma walk_clear:
  "shape m h (Ref a) (Node s) \<Longrightarrow> pruned (Node s) \<Longrightarrow> clear_path tp ks s \<Longrightarrow>
    \<exists>b h1. walk tp ks (Ref a) h = Inr (Ref b, h1) \<and> length h \<le> length h1 \<and> leads h1 a ks b \<and> keeps_trees m (length ks) h h1 \<and>
      m \<le> b \<and> isPlainObject h1 (Ref b) \<and>
      (\<forall>e < length h. isPlainObject h1 (Ref e) = isPlainObject h (Ref e) \<and>
        (h1 ! e \<noteq> h ! e \<longrightarrow> (\<exists>ts. shape m h (Ref e) (Node ts) \<and> size (Node ts) \<le> size (Node s))))"
proof (induction ks arbitrary: a h s)
  case Nil
  then show ?case using shape_plain [OF Nil.prems(1)] by (auto simp: keeps_trees_def shape_node_simp)
next
  case (Cons k ks)
  have a: "m \<le> a" "a < length h" "isPlainObject h (Ref a)" using Cons.prems(1) shape_plain [OF Cons.prems(1)] by (auto simp: shape_node_simp)
  let ?old = "get_prop h (Ref a) k"
  note old = shape_prop [OF Cons.prems(1), of k]
  show ?case
  proof (cases "is_truthy tp ?old")
    case True
    then obtain t where t: "map_of s k = Some t" "shape m h ?old t" using old by (auto simp: is_truthy_def)
    obtain os where os: "t = Node os" using True t Cons.prems(3) by (cases t) (auto simp: shape_leaf_simp)
    then obtain c where c: "?old = Ref c" using t(2) by (auto simp: shape_node_simp)
    have sc: "shape m h (Ref c) (Node os)" using t(2) by (simp add: os c)
    have "pruned (Node os)" using Cons.prems(2) map_of_mem [OF t(1)] by (auto simp: pruned_node_simp [of s] os)
    moreover have "clear_path tp ks os" using Cons.prems(3) t(1) by (simp add: os)
    ultimately obtain b h1 where h1: "walk tp ks (Ref c) h = Inr (Ref b, h1)" "length h \<le> length h1" "leads h1 c ks b"
      "keeps_trees m (length ks) h h1" "m \<le> b" "isPlainObject h1 (Ref b)"
      "\<forall>e < length h. isPlainObject h1 (Ref e) = isPlainObject h (Ref e) \<and>
        (h1 ! e \<noteq> h ! e \<longrightarrow> (\<exists>ts. shape m h (Ref e) (Node ts) \<and> size (Node ts) \<le> size (Node os)))"
      using Cons.IH [OF sc] by blast
    have smaller: "size (Node os) < size (Node s)" using size_child [OF t(1)] by (simp add: os)
    have "h1 ! a = h ! a"
    proof (rule ccontr)
      assume "h1 ! a \<noteq> h ! a"
      then obtain ts where "shape m h (Ref a) (Node ts)" "size (Node ts) \<le> size (Node os)" using h1(7) a(2) by blast
      then show False using shape_unique [OF Cons.prems(1)] smaller by fastforce
    qed
    then have "get_prop h1 (Ref a) k = Ref c" using prop_cong [of h1 a h k] a(2) h1(2) c by simp
    moreover have "isPlainObject h1 (Ref c)"
      using h1(7) sc shape_plain [OF sc] by (auto simp: shape_node_simp)
    ultimately have "leads h1 a (k # ks) b" using h1(3) by auto
    moreover have "walk tp (k # ks) (Ref a) h = Inr (Ref b, h1)" using True c h1(1) by simp
    moreover have "keeps_trees m (length (k # ks)) h h1"
      by (rule keeps_trees_more [OF h1(4)]) simp
    moreover have "\<forall>e < length h. isPlainObject h1 (Ref e) = isPlainObject h (Ref e) \<and>
        (h1 ! e \<noteq> h ! e \<longrightarrow> (\<exists>ts. shape m h (Ref e) (Node ts) \<and> size (Node ts) \<le> size (Node s)))"
      using h1(7) smaller by (meson less_imp_le order_trans)
    ultimately show ?thesis using h1(2,5,6) by blast
  next
    case False
    let ?c = "length h"
    let ?h = "set_prop a k (Ref ?c) (h @ [Plain []])"
    obtain kv where kv: "h ! a = Plain kv" using Cons.prems(1) by (auto simp: shape_node_simp)
    have ha: "?h ! a = Plain (AList.update k (Ref ?c) kv)" using a kv by (simp add: set_prop_def nth_append)
    have he: "e < length h \<Longrightarrow> e \<noteq> a \<Longrightarrow> ?h ! e = h ! e" for e by (simp add: set_prop_other nth_append)
    have hc: "?h ! ?c = Plain []" using a(2) by (simp add: set_prop_other)
    have plain: "isPlainObject ?h (Ref e) = isPlainObject h (Ref e)" if "e < length h" for e
      using he [OF that] ha kv that by (cases "e = a") (simp_all add: isPlainObject_def)
    have sc: "shape m ?h (Ref ?c) (Node [])" using a hc by (simp add: shape_node_simp)
    have pe: "pruned (Node [])" by (simp add: pruned_node_simp)
    obtain b h1 where h1: "walk tp ks (Ref ?c) ?h = Inr (Ref b, h1)" "length ?h \<le> length h1" "leads h1 ?c ks b"
      "keeps_trees m (length ks) ?h h1" "m \<le> b" "isPlainObject h1 (Ref b)"
      "\<forall>e < length ?h. isPlainObject h1 (Ref e) = isPlainObject ?h (Ref e) \<and>
        (h1 ! e \<noteq> ?h ! e \<longrightarrow> (\<exists>ts. shape m ?h (Ref e) (Node ts) \<and> size (Node ts) \<le> size (Node [] :: 'a tree)))"
      using Cons.IH [OF sc pe] by (metis clear_empty)
    have empty: "?h ! e = Plain []" if e: "e < length ?h" "h1 ! e \<noteq> ?h ! e" for e
    proof -
      obtain ts where ts: "shape m ?h (Ref e) (Node ts)" "size (Node ts) \<le> size (Node [] :: 'a tree)" using h1(7) e by blast
      then have "ts = []" by (cases ts) simp_all
      then show ?thesis using ts(1) by (auto simp: shape_node_simp)
    qed
    have k1: "keeps_trees m 1 h ?h"
      by (rule write_keeps_trees [OF a(2) kv _ ha he sc pe]) simp_all
    have "h1 ! a = ?h ! a"
    proof (rule ccontr)
      assume "h1 ! a \<noteq> ?h ! a"
      then have "AList.update k (Ref ?c) kv = []" using empty [of a] a(2) ha by simp
      then show False by (cases kv) (auto split: if_splits)
    qed
    then have "get_prop h1 (Ref a) k = Ref ?c"
      using prop_cong [of h1 a ?h k] a(2) h1(2) by simp
    moreover have "isPlainObject h1 (Ref ?c)" using h1(7) hc by (simp add: isPlainObject_def)
    ultimately have "leads h1 a (k # ks) b" using h1(3) by auto
    moreover have "walk tp (k # ks) (Ref a) h = Inr (Ref b, h1)" using False h1(1) by simp
    moreover have "keeps_trees m (length (k # ks)) h h1" using keeps_trees_trans [OF k1 h1(4)] by simp
    moreover have "isPlainObject h1 (Ref e) = isPlainObject h (Ref e) \<and>
        (h1 ! e \<noteq> h ! e \<longrightarrow> (\<exists>ts. shape m h (Ref e) (Node ts) \<and> size (Node ts) \<le> size (Node s)))" if e: "e < length h" for e
    proof (intro conjI impI)
      show "isPlainObject h1 (Ref e) = isPlainObject h (Ref e)" using h1(7) plain [OF e] e by simp
      assume ch: "h1 ! e \<noteq> h ! e"
      show "\<exists>ts. shape m h (Ref e) (Node ts) \<and> size (Node ts) \<le> size (Node s)"
      proof (cases "e = a")
        case True
        then show ?thesis using Cons.prems(1) by blast
      next
        case False
        then have "?h ! e = Plain []" "h ! e = Plain []" using empty [of e] e ch he by simp_all
        moreover have "m \<le> e"
        proof -
          have "e < length ?h" "h1 ! e \<noteq> ?h ! e" using e ch he [OF e False] by simp_all
          then obtain ts where "shape m ?h (Ref e) (Node ts)" using h1(7) by blast
          then show ?thesis by (auto simp: shape_node_simp)
        qed
        ultimately have "shape m h (Ref e) (Node [])" using e by (simp add: shape_node_simp)
        then show ?thesis by (intro exI [of _ "[]"]) simp
      qed
    qed
    ultimately show ?thesis using h1(2,5,6) by (intro exI [of _ b] exI [of _ h1]) simp
  qed
qed

section \<open>What is read back\<close>

primrec tree_at :: "string list \<Rightarrow> (string \<times> 'p tree) list \<Rightarrow> (string \<times> 'p tree) list option" where
  "tree_at [] s = Some s"
| "tree_at (k # ks) s = (case map_of s k of Some (Node os) \<Rightarrow> tree_at ks os | _ \<Rightarrow> None)"

text \<open>A step of the way: the object is the tree of its key.\<close>

lemma child_tree:
  assumes "shape m h (Ref a) (Node s)" "get_prop h (Ref a) k = Ref c" "isPlainObject h (Ref c)"
  shows "\<exists>os. map_of s k = Some (Node os) \<and> shape m h (Ref c) (Node os) \<and> size (Node os) < size (Node s)"
proof -
  obtain t where t: "map_of s k = Some t" "shape m h (Ref c) t" using shape_prop [OF assms(1), of k] assms(2) by auto
  then obtain os where "t = Node os" using shape_plain [OF t(2)] assms(3) by blast
  then show ?thesis using t size_child [OF t(1)] by blast
qed

lemma leads_tree:
  "leads h a ks b \<Longrightarrow> shape m h (Ref a) (Node s) \<Longrightarrow>
    \<exists>os. tree_at ks s = Some os \<and> shape m h (Ref b) (Node os) \<and> size (Node os) \<le> size (Node s)"
proof (induction ks arbitrary: a s)
  case (Cons k ks)
  then obtain c os where c: "map_of s k = Some (Node os)" "shape m h (Ref c) (Node os)" "size (Node os) < size (Node s)" "leads h c ks b"
    using child_tree [OF Cons.prems(2)] by (metis leads.simps(2))
  then show ?case using Cons.IH [OF c(4,2)] by fastforce
qed simp

lemma plain_set_prop [simp]: "isPlainObject (set_prop e k v h) x = isPlainObject h x"
proof (cases x)
  case (Ref a)
  then show ?thesis by (cases "e < length h"; cases "a = e"; cases "h ! e") (simp_all add: isPlainObject_def set_prop_def nth_list_update)
qed (simp_all add: isPlainObject_def)

text \<open>Writing at the end of the way, or outside, does not change the way.\<close>

lemma leads_write:
  "leads h a ks b \<Longrightarrow> shape m h (Ref a) (Node s) \<Longrightarrow> e < m \<or> e = b \<Longrightarrow> leads (set_prop e j v h) a ks b"
proof (induction ks arbitrary: a s)
  case (Cons k ks)
  then obtain c where c: "get_prop h (Ref a) k = Ref c" "isPlainObject h (Ref c)" "leads h c ks b" by auto
  obtain os where os: "shape m h (Ref c) (Node os)" "size (Node os) < size (Node s)" using child_tree [OF Cons.prems(2) c(1,2)] by blast
  obtain ob where ob: "shape m h (Ref b) (Node ob)" "size (Node ob) \<le> size (Node os)" using leads_tree [OF c(3) os(1)] by blast
  have "a \<noteq> e"
  proof
    assume "a = e"
    moreover have "m \<le> a" using Cons.prems(2) by (auto simp: shape_node_simp)
    ultimately have "a = b" using Cons.prems(3) by simp
    then show False using shape_unique [OF Cons.prems(2)] ob os(2) by fastforce
  qed
  then have "get_prop (set_prop e j v h) (Ref a) k = Ref c" using c(1) by (auto simp: get_prop_def own_props_def set_prop_def split: if_splits)
  then show ?case using Cons.IH [OF c(3) os(1) Cons.prems(3)] c(2) by auto
qed simp

lemma walk_tree:
  "tree_at ks s = Some os \<Longrightarrow> shape m h (Ref a) (Node s) \<Longrightarrow> \<exists>b. walk tp ks (Ref a) h = Inr (Ref b, h) \<and> shape m h (Ref b) (Node os)"
proof (induction ks arbitrary: a s)
  case (Cons k ks)
  obtain ks' where ks': "map_of s k = Some (Node ks')" "tree_at ks ks' = Some os"
    using Cons.prems(1) by (auto split: option.splits tree.splits)
  then have t: "shape m h (get_prop h (Ref a) k) (Node ks')" using shape_prop [OF Cons.prems(2), of k] by auto
  then obtain c where c: "get_prop h (Ref a) k = Ref c" by (auto simp: shape_node_simp)
  then show ?case using Cons.IH [OF ks'(2), of c] t by (simp add: is_truthy_def)
qed simp

lemma leaf_prefix:
  assumes "\<not> isPlainObject h v" "\<And>e. v = Ref e \<Longrightarrow> e < length h" "length h \<le> length h'" "\<And>e. e < length h \<Longrightarrow> h' ! e = h ! e"
  shows "shape m h' v (Leaf v)"
proof -
  have "\<not> isPlainObject h' v" using assms by (cases v) (auto simp: isPlainObject_def)
  moreover have "v = Ref e \<Longrightarrow> e < length h'" for e using assms(2,3) by fastforce
  ultimately show ?thesis by (simp add: shape_leaf_simp)
qed

text \<open>Setting a value below the options: the store in which the copy is the property of the options, the way to the
  object the value is set on, and a finite tree.\<close>

lemma set_below:
  assumes m: "making h0 h s" "pruned (Node s)" "deep (Suc n) (Node s)" "clear_path tp ks s"
    and v: "v \<noteq> Undefined" "\<not> isPlainObject h0 v" "\<And>e. v = Ref e \<Longrightarrow> e < length h0"
    and o: "ao < length h0" "h0 ! ao = Plain kvo"
  shows "\<exists>b h1 s1. walk tp ks (Ref (length h0)) h = Inr (Ref b, h1) \<and>
    (let h2 = set_prop b j v h1; h3 = set_prop ao k (Ref (length h0)) h2 in
      length h0 < length h2 \<and> (\<forall>e < length h0. h2 ! e = h0 ! e) \<and> shape 0 h3 (Ref (length h0)) (Node s1) \<and> pruned (Node s1) \<and>
      deep (Suc n + length ks) (Node s1) \<and> (\<exists>os. tree_at ks s1 = Some os \<and> map_of os j = Some (Leaf v)))"
proof -
  let ?a = "length h0"
  note md = making_done [OF m(1)]
  obtain b h1 where b: "walk tp ks (Ref ?a) h = Inr (Ref b, h1)" "length h \<le> length h1" "leads h1 ?a ks b"
    "keeps_trees ?a (length ks) h h1" "?a \<le> b" "isPlainObject h1 (Ref b)"
    "\<forall>e < length h. isPlainObject h1 (Ref e) = isPlainObject h (Ref e) \<and>
        (h1 ! e \<noteq> h ! e \<longrightarrow> (\<exists>ts. shape ?a h (Ref e) (Node ts) \<and> size (Node ts) \<le> size (Node s)))"
    using walk_clear [OF conjunct2 [OF conjunct2 [OF md]] m(2,4)] by blast
  let ?h2 = "set_prop b j v h1"
  let ?h3 = "set_prop ao k (Ref ?a) ?h2"
  have bl: "b < length h1" using b(6) by (simp add: isPlainObject_def)
  obtain kvb where kvb: "h1 ! b = Plain kvb" using b(6) by (auto simp: isPlainObject_def split: object.splits)
  have old1: "h1 ! e = h0 ! e" if e: "e < ?a" for e
  proof -
    have "\<not> shape ?a h (Ref e) (Node ts)" for ts using e by (auto simp: shape_node_simp)
    moreover have "e < length h" using e md by simp
    ultimately have "h1 ! e = h ! e" using b(7) by blast
    then show ?thesis using md e by (metis nth_take)
  qed
  have old: "?h2 ! e = h0 ! e" if "e < ?a" for e using old1 [OF that] b(5) that by (simp add: set_prop_other)
  have len: "?a < length ?h2" using md b(2) by simp
  have lv: "shape ?a ?h2 v (Leaf v)" by (rule leaf_prefix [OF v(2,3)]) (use len old in simp_all)
  have k0: "keeps_trees ?a 0 h1 ?h2"
    by (rule write_keeps_trees [OF bl kvb _ _ _ lv]) (use bl kvb v(1) in \<open>simp_all add: set_prop_def\<close>)
  obtain t1 where t1: "shape ?a ?h2 (Ref ?a) t1" "pruned t1" "deep (Suc n + length ks) t1"
    using keeps_trees_trans [OF b(4) k0] md m(2,3) unfolding keeps_trees_def by (metis add_0_right)
  have "isPlainObject h (Ref ?a)" using shape_plain md by blast
  then have "isPlainObject ?h2 (Ref ?a)" using b(7) md by simp
  then obtain s1 where s1: "t1 = Node s1" using shape_plain [OF t1(1)] by blast
  obtain t0 where t0: "shape ?a h1 (Ref ?a) t0" using b(4) md m(2,3) unfolding keeps_trees_def by blast
  have "isPlainObject h1 (Ref ?a)" using \<open>isPlainObject ?h2 (Ref ?a)\<close> by simp
  then obtain s0 where s0: "t0 = Node s0" using shape_plain [OF t0] by blast
  have ld2: "leads ?h2 ?a ks b" by (rule leads_write [OF b(3) t0 [unfolded s0]]) simp
  have kvo: "?h2 ! ao = Plain kvo" using old [OF o(1)] o(2) by simp
  have sh3: "shape ?a ?h3 (Ref ?a) (Node s1)"
    using shape_write [OF t1(1) o(1) kvo, of "AList.update k (Ref ?a) kvo"] kvo by (simp add: s1 set_prop_def [of ao])
  have ld3: "leads ?h3 ?a ks b" by (rule leads_write [OF ld2 t1(1) [unfolded s1]]) (use o(1) in simp)
  obtain os where os: "tree_at ks s1 = Some os" "shape ?a ?h3 (Ref b) (Node os)" using leads_tree [OF ld3 sh3] by blast
  have pv: "get_prop ?h3 (Ref b) j = v"
  proof -
    have "ao \<noteq> b" using o(1) b(5) by simp
    then have "get_prop ?h3 (Ref b) j = get_prop ?h2 (Ref b) j" by (simp add: get_prop_def own_props_def set_prop_def [of ao])
    then show ?thesis using bl by simp
  qed
  obtain t where t: "map_of os j = Some t" "shape ?a ?h3 v t" using shape_prop [OF os(2), of j] v(1) unfolding pv by blast
  have "\<not> isPlainObject ?h3 v" using lv by (simp add: shape_leaf_simp)
  then have "t = Leaf v" using t(2) shape_plain [OF t(2)] by (cases t) (auto simp: shape_leaf_simp)
  moreover have "shape 0 ?h3 (Ref ?a) (Node s1)" by (rule shape_mono [OF sh3]) simp_all
  ultimately show ?thesis
    using b(1) len old t1(2,3) os(1) t(1) unfolding s1 Let_def by (intro exI [of _ b] exI [of _ h1] exI [of _ s1]) simp
qed

text \<open>C16: What is set as an option under a key of any number of parts is what is read back under it; the other
  options are as they were, and no object that existed before the call is changed but the options object of the
  widget: neither the defaults nor an object given to the widget before, since the inner objects are a copy. The
  options are a finite tree, and so is the way: no value stands on it that is truthy and no plain object
  (on such a value what is set is lost or given to others, see below), and the value set is no plain object.\<close>

theorem option_nested:
  fixes w :: "'p widget"
  assumes sh: "shape 0 (wd_heap w) (Ref (wd_options w)) (Node ots)" "deep (Suc (Suc n)) (Node ots)"
    and key: "\<forall>p \<in> set (k # ks @ [j]). CHR ''.'' \<notin> set p"
    and s: "case map_of ots k of None \<Rightarrow> s = [] | Some (Node os) \<Rightarrow> s = os | Some (Leaf x) \<Rightarrow> s = [] \<and> own_props (wd_heap w) x = []"
    and clear: "clear_path tp ks (mix [] s)"
    and v: "v \<noteq> Undefined" "\<not> isPlainObject (wd_heap w) v" "\<And>a. v = Ref a \<Longrightarrow> a < length (wd_heap w)"
  shows "\<exists>w'. set_option (Suc n) tp (join_with ''.'' (k # ks @ [j])) v w = Inr w' \<and>
    (\<exists>w''. get_option (Suc (n + length ks)) tp (join_with ''.'' (k # ks @ [j])) w' = Inr (v, w'')) \<and>
    (\<forall>i. i \<noteq> k \<longrightarrow> get_prop (wd_heap w') (Ref (wd_options w)) i = get_prop (wd_heap w) (Ref (wd_options w)) i) \<and>
    (\<forall>b < length (wd_heap w). b \<noteq> wd_options w \<longrightarrow> wd_heap w' ! b = wd_heap w ! b)"
proof -
  let ?h = "wd_heap w" and ?o = "wd_options w" and ?key = "join_with ''.'' (k # ks @ [j])"
  let ?x = "get_prop ?h (Ref ?o) k" and ?a = "length (wd_heap w)"
  have parts: "split_dots ?key = k # ks @ [j]" using split_dots_join [OF _ key] by simp
  have o: "?o < ?a" using sh(1) by (auto simp: shape_node_simp)
  obtain kvo where kvo: "?h ! ?o = Plain kvo" using sh(1) by (auto simp: shape_node_simp)
  have ds: "deep (Suc n) (Node s)"
  proof (cases "map_of ots k")
    case (Some t)
    then have "deep (Suc n) t" using sh(2) map_of_mem [OF Some] by (auto simp: list_all_iff)
    then show ?thesis using s Some by (cases t) simp_all
  qed (use s in simp)
  have "shape 0 ?h ?x (Node s) \<and> deep (Suc n) (Node s) \<or> own_props ?h ?x = [] \<and> ?x \<noteq> Ref ?a \<and> s = []"
    using shape_prop [OF sh(1), of k] s ds by (fastforce simp: shape_leaf_simp own_props_def split: option.splits tree.splits)
  then obtain h1 where h1: "extend_new (Suc n) [?x] ?h = Inr (?a, h1)" "making ?h h1 (mix [] s)" using copy_one by blast
  have p1: "pruned (Node (mix [] s))" by (rule pruned_mix) (simp add: pruned_node_simp)
  have d1: "deep (Suc n) (Node (mix [] s))" using ds deep_mix [of n "[]" s] by simp
  obtain b h2 s1 where b: "walk tp ks (Ref ?a) h1 = Inr (Ref b, h2)" and B: "let h3 = set_prop b j v h2; H = set_prop ?o k (Ref ?a) h3 in
      ?a < length h3 \<and> (\<forall>e < ?a. h3 ! e = ?h ! e) \<and> shape 0 H (Ref ?a) (Node s1) \<and> pruned (Node s1) \<and>
      deep (Suc n + length ks) (Node s1) \<and> (\<exists>os. tree_at ks s1 = Some os \<and> map_of os j = Some (Leaf v))"
    using set_below [OF h1(2) p1 d1 clear v o kvo] by blast
  define h3 where "h3 = set_prop b j v h2"
  define H where "H = set_prop ?o k (Ref ?a) h3"
  note B = B [folded h3_def, unfolded Let_def, folded H_def]
  let ?w = "base_setOptions tp [(k, Ref ?a)] (w\<lparr>wd_heap := h3\<rparr>)"
  have w: "set_option (Suc n) tp ?key v w = Inr ?w"
    using h1(1) b by (simp add: set_option_def parts assign_def h3_def)
  have w': "wd_heap ?w = H" "wd_options ?w = ?o"
    by (simp_all add: base_setOptions_def base_setOption_def Let_def H_def)
  obtain os where os: "tree_at ks s1 = Some os" "map_of os j = Some (Leaf v)" using B by blast
  obtain h4 where h4: "extend_new (Suc (n + length ks)) [Ref ?a] H = Inr (length H, h4)" "making H h4 (mix [] s1)"
    using copy_one [of H "Ref ?a" s1 "n + length ks"] B by auto
  have "mix [] s1 = s1" using mix_copy B by blast
  then have sh4: "shape (length H) h4 (Ref (length H)) (Node s1)" using making_done [OF h4(2)] by simp
  obtain c where c: "walk tp ks (Ref (length H)) h4 = Inr (Ref c, h4)" "shape (length H) h4 (Ref c) (Node os)"
    using walk_tree [OF os(1) sh4] by blast
  have "get_prop h4 (Ref c) j = v" using shape_prop [OF c(2), of j] os(2) by (auto simp: shape_leaf_simp)
  moreover have "get_prop H (Ref ?o) k = Ref ?a" using B o by (simp add: H_def)
  ultimately have "get_option (Suc (n + length ks)) tp ?key ?w = Inr (v, ?w\<lparr>wd_heap := h4\<rparr>)"
    using h4(1) c(1) v(1) by (simp add: get_option_def parts w' Let_def read_prop_def or_null_def)
  moreover have "get_prop H (Ref ?o) i = get_prop ?h (Ref ?o) i" if "i \<noteq> k" for i
  proof -
    have "get_prop H (Ref ?o) i = get_prop h3 (Ref ?o) i" using that B o by (simp add: H_def)
    also have "\<dots> = get_prop ?h (Ref ?o) i" by (rule prop_cong) (use B o in simp_all)
    finally show ?thesis .
  qed
  moreover have "\<forall>b < ?a. b \<noteq> ?o \<longrightarrow> H ! b = ?h ! b" using B by (simp add: H_def set_prop_other)
  ultimately show ?thesis using w w' by (intro exI [of _ ?w]) (simp only: w', blast)
qed

text \<open>Three parts, of which the object in the middle is there.\<close>

lemma option_nested_witness:
  "\<exists>w'. set_option 3 id ''show.effect.name'' (Prim True)
      \<lparr>wd_options = 0, wd_disabled_class = False,
        wd_heap = [Plain [(''show'', Ref 1), (''disabled'', Prim False)], Plain [(''effect'', Ref 2)], Plain [(''duration'', Null)]]\<rparr> = Inr w' \<and>
    (\<exists>w''. get_option 4 id ''show.effect.name'' w' = Inr (Prim True, w'')) \<and> wd_heap w' ! 2 = Plain [(''duration'', Null)]"
proof -
  let ?w = "\<lparr>wd_options = 0, wd_disabled_class = False,
        wd_heap = [Plain [(''show'', Ref 1), (''disabled'', Prim False)], Plain [(''effect'', Ref 2)], Plain [(''duration'', Null)]]\<rparr>"
  let ?s = "[(''effect'', Node [(''duration'', Leaf Null)])]"
  have sh: "shape 0 (wd_heap ?w) (Ref (wd_options ?w)) (Node [(''show'', Node ?s), (''disabled'', Leaf (Prim False))])"
    by (simp add: shape_node_simp shape_leaf_simp isPlainObject_def)
  have k: "join_with ''.'' (''show'' # [''effect''] @ [''name'']) = ''show.effect.name''" "Suc (2 + length [''effect'']) = 4" by simp_all
  have "\<exists>w'. set_option (Suc 2) id (join_with ''.'' (''show'' # [''effect''] @ [''name''])) (Prim True) ?w = Inr w' \<and>
    (\<exists>w''. get_option (Suc (2 + length [''effect''])) id (join_with ''.'' (''show'' # [''effect''] @ [''name''])) w' = Inr (Prim True, w'')) \<and>
    (\<forall>i. i \<noteq> ''show'' \<longrightarrow> get_prop (wd_heap w') (Ref (wd_options ?w)) i = get_prop (wd_heap ?w) (Ref (wd_options ?w)) i) \<and>
    (\<forall>b < length (wd_heap ?w). b \<noteq> wd_options ?w \<longrightarrow> wd_heap w' ! b = wd_heap ?w ! b)"
    by (rule option_nested [where s = ?s, OF sh]) (simp_all add: isPlainObject_def inner_def eval_nat_numeral)
  then show ?thesis unfolding k by (auto simp: numeral_3_eq_3)
qed

text \<open>Under a value that is no object, what is set is lost, and no error tells it.\<close>

lemma option_lost:
  "\<exists>w'. set_option 2 id ''show.effect.name'' (Prim True)
      \<lparr>wd_options = 0, wd_disabled_class = False,
        wd_heap = [Plain [(''show'', Ref 1)], Plain [(''effect'', Prim True)]]\<rparr> = Inr w' \<and>
    (\<exists>w''. get_option 2 id ''show.effect.name'' w' = Inr (Null, w''))"
  by (simp add: set_option_def get_option_def extend_new_def own_props_def get_prop_def isPlainObject_def set_prop_def
    is_truthy_def assign_def base_setOptions_def base_setOption_def read_prop_def or_null_def eval_nat_numeral Let_def)

text \<open>The instance method is refused for names that begin with an underscore, as for names that are no method.\<close>

lemma private_refused: "bridge_call name (CHR ''_'' # m) i (Some x # es) cs = Inl (Throw (no_method_text name (CHR ''_'' # m)))"
  by simp

end
