(* ===== verification/UI_Plane.thy ===== *)
theory UI_Plane
  imports JS_Num JS_Text
begin

text \<open>Places and sizes on the page (jquery-ui.js), which the interactions share.\<close>

record place =
  pl_left :: rat
  pl_top :: rat

record extent =
  ex_width :: rat
  ex_height :: rat

text \<open>\<open>parseInt ( x, 10 ) || 0\<close> of a style.\<close>

definition num_or_0 :: "int option \<Rightarrow> rat" where
  "num_or_0 n = (case n of Some i \<Rightarrow> of_int i | None \<Rightarrow> 0)"

definition origin :: place where
  "origin = \<lparr>pl_left = 0, pl_top = 0\<rparr>"

end
