(* ===== verification/UI_Resizable.thy ===== *)
theory UI_Resizable
  imports UI_Plane
begin

text \<open>
  \<open>ui.resizable\<close> (jquery-ui.js): the handles, one drag of a handle from the press to the release with the size
  and position it gives at each move, the bounds and the ratio, and the extensions containment, alsoResize, ghost
  and grid. What the browser measures, and the function of the page that is called, are parameters. The
  height and the ratio an element has at the press are taken to be other than 0.
\<close>

section \<open>Sizes and positions\<close>

text \<open>What a move changes; \<open>None\<close> is a field that is missing or null.\<close>

record size_change =
  ch_left :: "rat option"
  ch_top :: "rat option"
  ch_width :: "rat option"
  ch_height :: "rat option"

definition no_change :: size_change where
  "no_change = \<lparr>ch_left = None, ch_top = None, ch_width = None, ch_height = None\<rparr>"

datatype axis = AxisN | AxisE | AxisS | AxisW | AxisSE | AxisSW | AxisNE | AxisNW

definition on_west :: "axis \<Rightarrow> bool" where
  "on_west a = (a \<in> {AxisSW, AxisNW, AxisW})"

definition on_north :: "axis \<Rightarrow> bool" where
  "on_north a = (a \<in> {AxisNW, AxisNE, AxisN})"

datatype aspect = FreeAspect | KeepAspect | Aspect rat

record resize_options =
  ro_aspect :: aspect
  ro_min_width :: "rat option"
  ro_max_width :: "rat option"
  ro_min_height :: "rat option"
  ro_max_height :: "rat option"
  ro_grid :: "(rat \<times> rat) option"
  ro_helper :: bool
  ro_ghost :: bool
  ro_animate :: bool
  ro_also :: bool

definition default_resize :: resize_options where
  "default_resize = \<lparr>ro_aspect = FreeAspect, ro_min_width = Some 10, ro_max_width = None, ro_min_height = Some 10,
     ro_max_height = None, ro_grid = None, ro_helper = False, ro_ghost = False, ro_animate = False, ro_also = False\<rparr>"

text \<open>\<open>_vBoundaries\<close>; no maximum is \<open>Infinity\<close>.\<close>

record boundaries =
  vb_min_width :: rat
  vb_max_width :: "rat option"
  vb_min_height :: rat
  vb_max_height :: "rat option"

text \<open>The containment: the container, its corner in the page, and the room in it.\<close>

record container =
  cn_offset :: place
  cn_static :: bool
  cn_positioned :: bool
  cn_parent :: bool
  cn_width :: rat
  cn_height :: rat

record resizable =
  rz_options :: resize_options
  rz_axis :: "axis option"
  rz_resizing :: bool
  rz_pos :: place
  rz_size :: extent
  rz_prev_pos :: place
  rz_prev_size :: extent
  rz_orig_pos :: place
  rz_orig_size :: extent
  rz_mouse :: place
  rz_diff :: extent
  rz_ratio :: rat
  rz_bounds :: boundaries
  rz_container :: "container option"
  rz_padding :: extent

definition has_helper :: "resize_options \<Rightarrow> bool" where
  "has_helper ro = (ro_helper ro \<or> ro_ghost ro \<or> ro_animate ro)"

definition keeps_aspect :: "resizable \<Rightarrow> bool" where
  "keeps_aspect rz = (case ro_aspect (rz_options rz) of FreeAspect \<Rightarrow> False | KeepAspect \<Rightarrow> True | Aspect r \<Rightarrow> r \<noteq> 0)"

section \<open>The handles\<close>

fun split_commas :: "string \<Rightarrow> string list" where
  "split_commas [] = [[]]"
| "split_commas (c # cs) = (if c = CHR '','' then [] # split_commas cs else (case split_commas cs of [] \<Rightarrow> [[c]] | w # ws \<Rightarrow> (c # w) # ws))"

definition trimmed :: "string \<Rightarrow> string" where
  "trimmed s = rev (dropWhile is_space (rev (dropWhile is_space s)))"

definition handle_names :: "string \<Rightarrow> string list" where
  "handle_names s = map trimmed (split_commas (if s = ''all'' then ''n,e,s,w,se,sw,ne,nw'' else s))"

text \<open>The axis in the class of a handle: two letters before one, in small or capital letters.\<close>

definition axis_after :: "string \<Rightarrow> axis option" where
  "axis_after s =
     (let t = to_lower s in
      case lit ''ui-resizable-'' t of None \<Rightarrow> None
      | Some r \<Rightarrow>
        if lit ''se'' r \<noteq> None then Some AxisSE else if lit ''sw'' r \<noteq> None then Some AxisSW
        else if lit ''ne'' r \<noteq> None then Some AxisNE else if lit ''nw'' r \<noteq> None then Some AxisNW
        else if lit ''n'' r \<noteq> None then Some AxisN else if lit ''e'' r \<noteq> None then Some AxisE
        else if lit ''s'' r \<noteq> None then Some AxisS else if lit ''w'' r \<noteq> None then Some AxisW else None)"

definition handle_axis :: "string \<Rightarrow> axis" where
  "handle_axis cls = (case search axis_after cls of Some a \<Rightarrow> a | None \<Rightarrow> AxisSE)"

definition over_handle :: "string \<Rightarrow> resizable \<Rightarrow> resizable" where
  "over_handle cls rz = (if rz_resizing rz then rz else rz\<lparr>rz_axis := Some (handle_axis cls)\<rparr>)"

section \<open>The press\<close>

text \<open>What is measured at the press: the helper's style, the scroll of the container, and the sizes.\<close>

record press =
  pr_left :: "int option"
  pr_top :: "int option"
  pr_scroll :: place
  pr_helper :: extent
  pr_inner :: extent
  pr_outer :: extent
  pr_page :: place

definition start_ratio :: "aspect \<Rightarrow> extent \<Rightarrow> rat" where
  "start_ratio a os = (case a of Aspect r \<Rightarrow> r | _ \<Rightarrow> let q = ex_width os / ex_height os in if q = 0 then 1 else q)"

definition resize_start :: "press \<Rightarrow> container option \<Rightarrow> resizable \<Rightarrow> resizable" where
  "resize_start p cn rz =
     (let ro = rz_options rz; h = has_helper ro;
          pt = \<lparr>pl_left = num_or_0 (pr_left p) + (if cn \<noteq> None then pl_left (pr_scroll p) else 0),
                pl_top = num_or_0 (pr_top p) + (if cn \<noteq> None then pl_top (pr_scroll p) else 0)\<rparr>;
          os = (if h then pr_outer p else pr_inner p) in
      rz\<lparr>rz_resizing := True, rz_pos := pt, rz_size := (if h then pr_helper p else pr_inner p), rz_orig_size := os,
        rz_diff := \<lparr>ex_width = ex_width (pr_outer p) - ex_width (pr_inner p),
                    ex_height = ex_height (pr_outer p) - ex_height (pr_inner p)\<rparr>,
        rz_orig_pos := pt, rz_mouse := pr_page p, rz_ratio := start_ratio (ro_aspect ro) os, rz_container := cn\<rparr>)"

section \<open>A move\<close>

text \<open>\<open>_change\<close>: the south or north part, then the east or west part over it.\<close>

definition change_e :: "resizable \<Rightarrow> rat \<Rightarrow> size_change" where
  "change_e rz dx = no_change\<lparr>ch_width := Some (ex_width (rz_orig_size rz) + dx)\<rparr>"

definition change_w :: "resizable \<Rightarrow> rat \<Rightarrow> size_change" where
  "change_w rz dx = no_change\<lparr>ch_left := Some (pl_left (rz_orig_pos rz) + dx), ch_width := Some (ex_width (rz_orig_size rz) - dx)\<rparr>"

definition change_n :: "resizable \<Rightarrow> rat \<Rightarrow> size_change" where
  "change_n rz dy = no_change\<lparr>ch_top := Some (pl_top (rz_orig_pos rz) + dy), ch_height := Some (ex_height (rz_orig_size rz) - dy)\<rparr>"

definition change_s :: "resizable \<Rightarrow> rat \<Rightarrow> size_change" where
  "change_s rz dy = no_change\<lparr>ch_height := Some (ex_height (rz_orig_size rz) + dy)\<rparr>"

definition over :: "size_change \<Rightarrow> size_change \<Rightarrow> size_change" where
  "over c d = \<lparr>ch_left = (if ch_left d = None then ch_left c else ch_left d), ch_top = (if ch_top d = None then ch_top c else ch_top d),
     ch_width = (if ch_width d = None then ch_width c else ch_width d),
     ch_height = (if ch_height d = None then ch_height c else ch_height d)\<rparr>"

definition change_of :: "axis \<Rightarrow> resizable \<Rightarrow> rat \<Rightarrow> rat \<Rightarrow> size_change" where
  "change_of a rz dx dy =
     (case a of AxisE \<Rightarrow> change_e rz dx | AxisW \<Rightarrow> change_w rz dx | AxisN \<Rightarrow> change_n rz dy | AxisS \<Rightarrow> change_s rz dy
      | AxisSE \<Rightarrow> over (change_s rz dy) (change_e rz dx) | AxisSW \<Rightarrow> over (change_s rz dy) (change_w rz dx)
      | AxisNE \<Rightarrow> over (change_n rz dy) (change_e rz dx) | AxisNW \<Rightarrow> over (change_n rz dy) (change_w rz dx))"

text \<open>\<open>_updateVirtualBoundaries\<close>\<close>

definition less_max :: "rat \<Rightarrow> rat option \<Rightarrow> bool" where
  "less_max x m = (case m of None \<Rightarrow> True | Some y \<Rightarrow> x < y)"

definition virtual_boundaries :: "resize_options \<Rightarrow> bool \<Rightarrow> rat \<Rightarrow> boundaries" where
  "virtual_boundaries ro keep r =
     (let mw = (case ro_min_width ro of Some x \<Rightarrow> x | None \<Rightarrow> 0); mh = (case ro_min_height ro of Some x \<Rightarrow> x | None \<Rightarrow> 0);
          xw = ro_max_width ro; xh = ro_max_height ro in
      if keep then
        \<lparr>vb_min_width = (if mh * r > mw then mh * r else mw),
         vb_max_width = (case xh of Some h \<Rightarrow> if less_max (h * r) xw then Some (h * r) else xw | None \<Rightarrow> xw),
         vb_min_height = (if mw / r > mh then mw / r else mh),
         vb_max_height = (case xw of Some w \<Rightarrow> if less_max (w / r) xh then Some (w / r) else xh | None \<Rightarrow> xh)\<rparr>
      else \<lparr>vb_min_width = mw, vb_max_width = xw, vb_min_height = mh, vb_max_height = xh\<rparr>)"

text \<open>\<open>_updateRatio\<close>\<close>

definition update_ratio :: "axis \<Rightarrow> resizable \<Rightarrow> size_change \<Rightarrow> size_change" where
  "update_ratio a rz c =
     (let c1 = (case ch_height c of Some h \<Rightarrow> c\<lparr>ch_width := Some (h * rz_ratio rz)\<rparr>
                | None \<Rightarrow> (case ch_width c of Some w \<Rightarrow> c\<lparr>ch_height := Some (w / rz_ratio rz)\<rparr> | None \<Rightarrow> c));
          left = (case ch_width c1 of Some w \<Rightarrow> Some (pl_left (rz_pos rz) + (ex_width (rz_size rz) - w)) | None \<Rightarrow> None);
          top = (case ch_height c1 of Some h \<Rightarrow> Some (pl_top (rz_pos rz) + (ex_height (rz_size rz) - h)) | None \<Rightarrow> None) in
      if a = AxisSW then c1\<lparr>ch_left := left, ch_top := None\<rparr>
      else if a = AxisNW then c1\<lparr>ch_left := left, ch_top := top\<rparr> else c1)"

text \<open>\<open>_respectSize\<close>; a bound that is 0 is no bound.\<close>

definition over_max :: "rat option \<Rightarrow> rat option \<Rightarrow> bool" where
  "over_max v m = (case (v, m) of (Some x, Some y) \<Rightarrow> y \<noteq> 0 \<and> y < x | _ \<Rightarrow> False)"

definition under_min :: "rat option \<Rightarrow> rat \<Rightarrow> bool" where
  "under_min v m = (case v of Some x \<Rightarrow> m \<noteq> 0 \<and> m > x | None \<Rightarrow> False)"

definition is_blank :: "rat option \<Rightarrow> bool" where
  "is_blank v = (v = None \<or> v = Some 0)"

definition respect_size :: "axis \<Rightarrow> resizable \<Rightarrow> size_change \<Rightarrow> size_change" where
  "respect_size a rz c =
     (let vb = rz_bounds rz;
          maxw = over_max (ch_width c) (vb_max_width vb); maxh = over_max (ch_height c) (vb_max_height vb);
          minw = under_min (ch_width c) (vb_min_width vb); minh = under_min (ch_height c) (vb_min_height vb);
          dw = pl_left (rz_orig_pos rz) + ex_width (rz_orig_size rz);
          dh = pl_top (rz_pos rz) + ex_height (rz_size rz);
          w = (if maxw then vb_max_width vb else if minw then Some (vb_min_width vb) else ch_width c);
          h = (if maxh then vb_max_height vb else if minh then Some (vb_min_height vb) else ch_height c);
          left = (if maxw \<and> on_west a then Some (dw - the (vb_max_width vb))
                  else if minw \<and> on_west a then Some (dw - vb_min_width vb) else ch_left c);
          top = (if maxh \<and> on_north a then Some (dh - the (vb_max_height vb))
                 else if minh \<and> on_north a then Some (dh - vb_min_height vb) else ch_top c) in
      \<lparr>ch_left = (if is_blank w \<and> is_blank h \<and> is_blank top \<and> \<not> is_blank left then None else left),
       ch_top = (if is_blank w \<and> is_blank h \<and> is_blank left \<and> \<not> is_blank top then None else top),
       ch_width = w, ch_height = h\<rparr>)"

text \<open>\<open>_updateCache\<close>, \<open>_updatePrevProperties\<close>, \<open>_applyChanges\<close>\<close>

definition or_old :: "rat option \<Rightarrow> rat \<Rightarrow> rat" where
  "or_old v x = (case v of Some y \<Rightarrow> y | None \<Rightarrow> x)"

definition update_cache :: "size_change \<Rightarrow> resizable \<Rightarrow> resizable" where
  "update_cache c rz =
     rz\<lparr>rz_pos := \<lparr>pl_left = or_old (ch_left c) (pl_left (rz_pos rz)), pl_top = or_old (ch_top c) (pl_top (rz_pos rz))\<rparr>,
       rz_size := \<lparr>ex_width = or_old (ch_width c) (ex_width (rz_size rz)), ex_height = or_old (ch_height c) (ex_height (rz_size rz))\<rparr>\<rparr>"

definition update_prev :: "resizable \<Rightarrow> resizable" where
  "update_prev rz = rz\<lparr>rz_prev_pos := rz_pos rz, rz_prev_size := rz_size rz\<rparr>"

definition if_new :: "rat \<Rightarrow> rat \<Rightarrow> rat option" where
  "if_new x y = (if x = y then None else Some x)"

definition apply_changes :: "resizable \<Rightarrow> size_change" where
  "apply_changes rz =
     \<lparr>ch_left = if_new (pl_left (rz_pos rz)) (pl_left (rz_prev_pos rz)), ch_top = if_new (pl_top (rz_pos rz)) (pl_top (rz_prev_pos rz)),
      ch_width = if_new (ex_width (rz_size rz)) (ex_width (rz_prev_size rz)),
      ch_height = if_new (ex_height (rz_size rz)) (ex_height (rz_prev_size rz))\<rparr>"

section \<open>The extensions\<close>

text \<open>containment: with a helper, the corner of the container is in the coordinates of the page.\<close>

definition in_container :: "container \<Rightarrow> bool \<Rightarrow> place \<Rightarrow> resizable \<Rightarrow> resizable" where
  "in_container cn shift measured rz =
     (let ro = rz_options rz; h = has_helper ro; co = cn_offset cn; keep = keeps_aspect rz \<or> shift; r = rz_ratio rz;
          cop = (if cn_static cn then co else \<lparr>pl_left = 0, pl_top = 0\<rparr>);
          p0 = rz_pos rz; s0 = rz_size rz;
          out_left = pl_left p0 < (if h then pl_left co else 0);
          s1 = (if out_left then let w = ex_width s0 + (if h then pl_left p0 - pl_left co else pl_left p0 - pl_left cop) in
                  \<lparr>ex_width = w, ex_height = (if keep then w / r else ex_height s0)\<rparr> else s0);
          p1 = (if out_left then p0\<lparr>pl_left := (if ro_helper ro then pl_left co else 0)\<rparr> else p0);
          out_top = pl_top p1 < (if h then pl_top co else 0);
          s2 = (if out_top then let v = ex_height s1 + (if h then pl_top p1 - pl_top co else pl_top p1) in
                  \<lparr>ex_width = (if keep then v * r else ex_width s1), ex_height = v\<rparr> else s1);
          p2 = (if out_top then p1\<lparr>pl_top := (if h then pl_top co else 0)\<rparr> else p1);
          off = (if cn_parent cn \<and> cn_positioned cn
                 then \<lparr>pl_left = pl_left co + pl_left p2, pl_top = pl_top co + pl_top p2\<rparr> else measured);
          woset = \<bar>ex_width (rz_diff rz) + (if h then pl_left off - pl_left cop else pl_left off - pl_left co)\<bar>;
          hoset = \<bar>ex_height (rz_diff rz) + (if h then pl_top off - pl_top cop else pl_top off - pl_top co)\<bar>;
          out_right = woset + ex_width s2 \<ge> cn_width cn;
          s3 = (if out_right then let w = cn_width cn - woset in
                  \<lparr>ex_width = w, ex_height = (if keep then w / r else ex_height s2)\<rparr> else s2);
          out_bottom = hoset + ex_height s3 \<ge> cn_height cn;
          s4 = (if out_bottom then let v = cn_height cn - hoset in
                  \<lparr>ex_width = (if keep then v * r else ex_width s3), ex_height = v\<rparr> else s3) in
      if keep \<and> (out_left \<or> out_top \<or> out_right \<or> out_bottom)
      then rz\<lparr>rz_pos := rz_prev_pos rz, rz_size := rz_prev_size rz\<rparr> else rz\<lparr>rz_pos := p2, rz_size := s4\<rparr>)"

text \<open>grid\<close>

definition over_bound :: "rat option \<Rightarrow> rat \<Rightarrow> bool" where
  "over_bound m x = (case m of Some y \<Rightarrow> y \<noteq> 0 \<and> y < x | None \<Rightarrow> False)"

definition under_bound :: "rat option \<Rightarrow> rat \<Rightarrow> bool" where
  "under_bound m x = (case m of Some y \<Rightarrow> y \<noteq> 0 \<and> y > x | None \<Rightarrow> False)"

definition to_grid :: "rat \<Rightarrow> rat \<Rightarrow> rat" where
  "to_grid g x = of_int (js_round (x / g)) * g"

definition grid_fit :: "rat option \<Rightarrow> rat option \<Rightarrow> rat \<Rightarrow> rat \<Rightarrow> rat" where
  "grid_fit mn mx g x = x + (if under_bound mn x then g else 0) - (if over_bound mx x then g else 0)"

definition on_grid :: "(rat \<times> rat) \<Rightarrow> resizable \<Rightarrow> resizable" where
  "on_grid grid rz =
     (let ro = rz_options rz; gx = (if fst grid = 0 then 1 else fst grid); gy = (if snd grid = 0 then 1 else snd grid);
          cs = rz_size rz; os = rz_orig_size rz; op = rz_orig_pos rz;
          ox = to_grid gx (ex_width cs - ex_width os); oy = to_grid gy (ex_height cs - ex_height os);
          w = grid_fit (ro_min_width ro) (ro_max_width ro) gx (ex_width os + ox);
          h = grid_fit (ro_min_height ro) (ro_max_height ro) gy (ex_height os + oy) in
      case rz_axis rz of
        Some AxisSE \<Rightarrow> rz\<lparr>rz_size := \<lparr>ex_width = w, ex_height = h\<rparr>\<rparr>
      | Some AxisS \<Rightarrow> rz\<lparr>rz_size := \<lparr>ex_width = w, ex_height = h\<rparr>\<rparr>
      | Some AxisE \<Rightarrow> rz\<lparr>rz_size := \<lparr>ex_width = w, ex_height = h\<rparr>\<rparr>
      | Some AxisNE \<Rightarrow> rz\<lparr>rz_size := \<lparr>ex_width = w, ex_height = h\<rparr>, rz_pos := (rz_pos rz)\<lparr>pl_top := pl_top op - oy\<rparr>\<rparr>
      | Some AxisSW \<Rightarrow> rz\<lparr>rz_size := \<lparr>ex_width = w, ex_height = h\<rparr>, rz_pos := (rz_pos rz)\<lparr>pl_left := pl_left op - ox\<rparr>\<rparr>
      | _ \<Rightarrow>
        let h1 = (if h - gy > 0 then h else gy - ex_height (rz_padding rz));
            top = (if h - gy > 0 then pl_top op - oy else pl_top op + ex_height os - h1);
            w1 = (if w - gx > 0 then w else gy - ex_height (rz_padding rz));
            left = (if w - gx > 0 then pl_left op - ox else pl_left op + ex_width os - w1) in
        rz\<lparr>rz_size := \<lparr>ex_width = w1, ex_height = h1\<rparr>, rz_pos := \<lparr>pl_left = left, pl_top = top\<rparr>\<rparr>)"

text \<open>alsoResize: what an element had at the start, and whether it is inside the element resized.\<close>

record also_elem =
  al_start :: size_change
  al_inside :: bool

definition also_value :: "rat option \<Rightarrow> rat \<Rightarrow> rat option" where
  "also_value start delta = (let sum = (case start of Some x \<Rightarrow> x | None \<Rightarrow> 0) + delta in if sum > 0 then Some sum else None)"

definition also_style :: "resizable \<Rightarrow> also_elem \<Rightarrow> size_change" where
  "also_style rz al =
     \<lparr>ch_left = (if al_inside al then None else also_value (ch_left (al_start al)) (pl_left (rz_pos rz) - pl_left (rz_orig_pos rz))),
      ch_top = (if al_inside al then None else also_value (ch_top (al_start al)) (pl_top (rz_pos rz) - pl_top (rz_orig_pos rz))),
      ch_width = also_value (ch_width (al_start al)) (ex_width (rz_size rz) - ex_width (rz_orig_size rz)),
      ch_height = also_value (ch_height (al_start al)) (ex_height (rz_size rz) - ex_height (rz_orig_size rz))\<rparr>"

text \<open>What a move does: styles of the element (or the helper), of the elements resized with it and of the ghost, and
  the call of the page.\<close>

datatype resize_event = Wrote size_change | AlsoWrote "size_change list" | GhostWrote extent | ToldResize place extent | ToldStop

definition plugins :: "also_elem list \<Rightarrow> bool \<Rightarrow> place \<Rightarrow> resizable \<Rightarrow> resizable \<times> resize_event list" where
  "plugins als shift measured rz =
     (let rz1 = (case rz_container rz of Some cn \<Rightarrow> in_container cn shift measured rz | None \<Rightarrow> rz);
          es1 = (if ro_also (rz_options rz) then [AlsoWrote (map (also_style rz1) als)] else []);
          es2 = (if ro_ghost (rz_options rz) then [GhostWrote (rz_size rz1)] else []);
          rz2 = (case ro_grid (rz_options rz) of Some g \<Rightarrow> on_grid g rz1 | None \<Rightarrow> rz1) in
      (rz2, es1 @ es2))"

text \<open>One event of the mouse while a handle is held.\<close>

record move =
  mv_page :: place
  mv_shift :: bool
  mv_measured :: place

definition resized :: "axis \<Rightarrow> move \<Rightarrow> resizable \<Rightarrow> resizable" where
  "resized a m rz =
     (let dx = pl_left (mv_page m) - pl_left (rz_mouse rz); dy = pl_top (mv_page m) - pl_top (rz_mouse rz);
          rz0 = update_prev rz; keep = keeps_aspect rz \<or> mv_shift m; c = change_of a rz dx dy;
          rz1 = rz0\<lparr>rz_bounds := virtual_boundaries (rz_options rz) keep (rz_ratio rz)\<rparr>;
          c1 = (if keep then update_ratio a rz1 c else c) in
      update_cache (respect_size a rz1 c1) rz1)"

definition resize_drag :: "(place \<Rightarrow> extent \<Rightarrow> place \<times> extent) \<Rightarrow> also_elem list \<Rightarrow> move \<Rightarrow> resizable \<Rightarrow> resizable \<times> resize_event list" where
  "resize_drag page als m rz =
     (case rz_axis rz of None \<Rightarrow> (update_prev rz, [])
      | Some a \<Rightarrow>
        let (rz1, es) = plugins als (mv_shift m) (mv_measured m) (resized a m rz); props = apply_changes rz1 in
        if props = no_change then (rz1, es @ [Wrote props])
        else let rz2 = update_prev rz1; (p, s) = page (rz_pos rz2) (rz_size rz2); rz3 = rz2\<lparr>rz_pos := p, rz_size := s\<rparr> in
          (rz3, es @ [Wrote props, ToldResize (rz_pos rz2) (rz_size rz2), Wrote (apply_changes rz3)]))"

primrec resize_drags :: "(place \<Rightarrow> extent \<Rightarrow> place \<times> extent) \<Rightarrow> also_elem list \<Rightarrow> move list \<Rightarrow> resizable \<Rightarrow> resizable \<times> resize_event list" where
  "resize_drags page als [] rz = (rz, [])"
| "resize_drags page als (m # ms) rz =
     (let (rz1, es) = resize_drag page als m rz; (rz2, es2) = resize_drags page als ms rz1 in (rz2, es @ es2))"

section \<open>The release\<close>

text \<open>The size of the helper, the style of the element, and whether it is a text area, and one that scrolls; the helper's
  place and outer size, where the container is in its own parent, and whether its position is relative. A 0 becomes null,
  and null is not written to the style.\<close>

record release =
  rl_helper :: extent
  rl_left :: "int option"
  rl_top :: "int option"
  rl_area :: bool
  rl_scrolls :: bool
  rl_offset :: place
  rl_outer :: extent
  rl_container :: place
  rl_relative :: bool

definition nonzero :: "rat \<Rightarrow> rat option" where
  "nonzero x = (if x = 0 then None else Some x)"

definition moved_to :: "int option \<Rightarrow> rat \<Rightarrow> rat option" where
  "moved_to css d = (case css of Some i \<Rightarrow> nonzero (of_int i + d) | None \<Rightarrow> None)"

definition stop_style :: "release \<Rightarrow> resizable \<Rightarrow> size_change" where
  "stop_style rl rz =
     \<lparr>ch_left = moved_to (rl_left rl) (pl_left (rz_pos rz) - pl_left (rz_orig_pos rz)),
      ch_top = moved_to (rl_top rl) (pl_top (rz_pos rz) - pl_top (rz_orig_pos rz)),
      ch_width = Some (ex_width (rl_helper rl) - (if rl_area rl then 0 else ex_width (rz_diff rz))),
      ch_height = Some (ex_height (rl_helper rl) - (if rl_area rl \<and> rl_scrolls rl then 0 else ex_height (rz_diff rz)))\<rparr>"

text \<open>containment: the style at the release of a helper.\<close>

definition container_stop :: "release \<Rightarrow> container \<Rightarrow> resizable \<Rightarrow> size_change" where
  "container_stop rl cn rz =
     \<lparr>ch_left = Some (pl_left (rl_offset rl) - pl_left (rl_container rl) - pl_left (cn_offset cn)), ch_top = None,
      ch_width = Some (ex_width (rl_outer rl) - ex_width (rz_diff rz)),
      ch_height = Some (ex_height (rl_outer rl) - ex_height (rz_diff rz))\<rparr>"

definition resize_stop :: "release \<Rightarrow> resizable \<Rightarrow> resizable \<times> resize_event list" where
  "resize_stop rl rz =
     (let ro = rz_options rz in
      (rz\<lparr>rz_resizing := False\<rparr>, (if has_helper ro \<and> \<not> ro_animate ro then [Wrote (stop_style rl rz)] else []) @
        (case rz_container rz of None \<Rightarrow> []
         | Some cn \<Rightarrow> if has_helper ro \<and> \<not> ro_animate ro \<and> (rl_relative rl \<or> cn_static cn) then [Wrote (container_stop rl cn rz)] else []) @
        [ToldStop]))"

text \<open>animate: the style the element is animated to.\<close>

definition animate_style :: "release \<Rightarrow> resizable \<Rightarrow> size_change" where
  "animate_style rl rz =
     (let left = moved_to (rl_left rl) (pl_left (rz_pos rz) - pl_left (rz_orig_pos rz));
          top = moved_to (rl_top rl) (pl_top (rz_pos rz) - pl_top (rz_orig_pos rz)); both = left \<noteq> None \<and> top \<noteq> None in
      \<lparr>ch_left = (if both then left else None), ch_top = (if both then top else None),
       ch_width = Some (ex_width (rz_size rz) - (if rl_area rl then 0 else ex_width (rz_diff rz))),
       ch_height = Some (ex_height (rz_size rz) - (if rl_area rl \<and> rl_scrolls rl then 0 else ex_height (rz_diff rz)))\<rparr>)"

text \<open>containment: where the room of a container is measured, and the style at the release.\<close>

definition container_room :: "extent \<Rightarrow> rat \<Rightarrow> rat \<Rightarrow> (rat option \<times> rat option) \<Rightarrow> extent" where
  "container_room inner padding_right padding_bottom scrolled =
     \<lparr>ex_width = (case fst scrolled of Some w \<Rightarrow> w | None \<Rightarrow> ex_width inner - padding_right),
      ex_height = (case snd scrolled of Some h \<Rightarrow> h | None \<Rightarrow> ex_height inner - padding_bottom)\<rparr>"

text \<open>An element that cannot hold others has a wrapper, and is made as large as the wrapper less its own edges.\<close>

definition proportional :: "extent \<Rightarrow> extent \<Rightarrow> extent" where
  "proportional wrapper edges = \<lparr>ex_width = ex_width wrapper - ex_width edges, ex_height = ex_height wrapper - ex_height edges\<rparr>"

definition edges_of :: "int option list \<Rightarrow> int option list \<Rightarrow> extent" where
  "edges_of borders paddings =
     (let ws = map2 (\<lambda>b p. num_or_0 b + num_or_0 p) borders paddings in
      \<lparr>ex_width = ws ! 1 + ws ! 3, ex_height = ws ! 0 + ws ! 2\<rparr>)"

end
