(* ===== verification/UI_ResizableProps.thy ===== *)
theory UI_ResizableProps
  imports UI_Resizable
begin

text \<open>
  What a drag of a handle keeps: the edges that are not dragged stay where they are, the size stays within its bounds
  and keeps its ratio, and with a containment the element stays inside. And where it does not: at 0, with
  a grid and a bound, for elements resized together on a grid.
\<close>

section \<open>Bounds\<close>

definition bounded :: "rat \<Rightarrow> rat option \<Rightarrow> rat \<Rightarrow> bool" where
  "bounded lo hi x \<longleftrightarrow> lo \<le> x \<and> (\<forall>y. hi = Some y \<longrightarrow> x \<le> y)"

definition clamped :: "rat \<Rightarrow> rat option \<Rightarrow> rat \<Rightarrow> rat" where
  "clamped lo hi x = (if over_max (Some x) hi then the hi else if under_min (Some x) lo then lo else x)"

definition sound :: "boundaries \<Rightarrow> bool" where
  "sound vb \<longleftrightarrow> 0 < vb_min_width vb \<and> 0 < vb_min_height vb \<and>
     (\<forall>y. vb_max_width vb = Some y \<longrightarrow> vb_min_width vb \<le> y) \<and> (\<forall>y. vb_max_height vb = Some y \<longrightarrow> vb_min_height vb \<le> y)"

lemma clamped_bounded: "0 < lo \<Longrightarrow> (\<And>y. hi = Some y \<Longrightarrow> lo \<le> y) \<Longrightarrow> bounded lo hi (clamped lo hi x)"
  by (cases hi) (auto simp: bounded_def clamped_def over_max_def under_min_def)

lemma over_max_None [simp]: "\<not> over_max None m" "\<not> over_max v None"
  by (cases v; simp add: over_max_def)+

lemma under_min_None [simp]: "\<not> under_min None m"
  by (simp add: under_min_def)

text \<open>With the ratio, one dimension is at its bound exactly when the other is.\<close>

lemma ratio_min:
  "0 < r \<Longrightarrow> vb_min_width (virtual_boundaries ro True r) = vb_min_height (virtual_boundaries ro True r) * r"
  by (auto simp: virtual_boundaries_def Let_def field_simps)

lemma ratio_max:
  "0 < r \<Longrightarrow> vb_max_width (virtual_boundaries ro True r) = map_option (\<lambda>y. y * r) (vb_max_height (virtual_boundaries ro True r))"
  by (cases "ro_max_width ro"; cases "ro_max_height ro")
    (auto simp: virtual_boundaries_def Let_def less_max_def field_simps)

lemma clamped_ratio:
  assumes "0 < (r::rat)"
  shows "clamped (lo * r) (map_option (\<lambda>y. y * r) hi) (h * r) = clamped lo hi h * r"
proof -
  have "over_max (Some (h * r)) (map_option (\<lambda>y. y * r) hi) = over_max (Some h) hi"
    using assms by (cases hi) (auto simp: over_max_def)
  moreover have "under_min (Some (h * r)) (lo * r) = under_min (Some h) lo"
    using assms by (auto simp: under_min_def)
  ultimately show ?thesis by (cases hi) (auto simp: clamped_def)
qed

section \<open>Edges\<close>

definition right_edge :: "resizable \<Rightarrow> rat" where
  "right_edge rz = pl_left (rz_orig_pos rz) + ex_width (rz_orig_size rz)"

definition bottom_edge :: "resizable \<Rightarrow> rat" where
  "bottom_edge rz = pl_top (rz_orig_pos rz) + ex_height (rz_orig_size rz)"

definition anchored :: "axis \<Rightarrow> resizable \<Rightarrow> bool" where
  "anchored a rz \<longleftrightarrow>
     (if on_west a then pl_left (rz_pos rz) + ex_width (rz_size rz) = right_edge rz else pl_left (rz_pos rz) = pl_left (rz_orig_pos rz)) \<and>
     (if on_north a then pl_top (rz_pos rz) + ex_height (rz_size rz) = bottom_edge rz else pl_top (rz_pos rz) = pl_top (rz_orig_pos rz))"

text \<open>A change that moves the edges of its axis only.\<close>

definition edgewise :: "axis \<Rightarrow> resizable \<Rightarrow> size_change \<Rightarrow> bool" where
  "edgewise a rz c \<longleftrightarrow>
     ch_left c = (if on_west a then map_option (\<lambda>w. right_edge rz - w) (ch_width c) else None) \<and>
     ch_top c = (if on_north a then map_option (\<lambda>h. bottom_edge rz - h) (ch_height c) else None) \<and>
     (on_west a \<longrightarrow> ch_width c \<noteq> None) \<and> (on_north a \<longrightarrow> ch_height c \<noteq> None) \<and> (ch_width c \<noteq> None \<or> ch_height c \<noteq> None)"

lemmas change_defs = change_of_def change_e_def change_w_def change_n_def change_s_def over_def no_change_def

lemma change_edgewise: "edgewise a rz (change_of a rz dx dy)"
  by (cases a) (simp_all add: edgewise_def change_defs on_west_def on_north_def right_edge_def bottom_edge_def)

lemma ratio_edgewise:
  "anchored a rz \<Longrightarrow> edgewise a rz (update_ratio a rz (change_of a rz dx dy))"
  by (cases a) (simp_all add: edgewise_def anchored_def update_ratio_def change_defs Let_def on_west_def on_north_def
    right_edge_def bottom_edge_def)

lemma respect_width:
  "ch_width (respect_size a rz c) = map_option (clamped (vb_min_width (rz_bounds rz)) (vb_max_width (rz_bounds rz))) (ch_width c)"
  by (cases "ch_width c"; cases "vb_max_width (rz_bounds rz)")
    (auto simp: respect_size_def Let_def clamped_def over_max_def)

lemma respect_height:
  "ch_height (respect_size a rz c) = map_option (clamped (vb_min_height (rz_bounds rz)) (vb_max_height (rz_bounds rz))) (ch_height c)"
  by (cases "ch_height c"; cases "vb_max_height (rz_bounds rz)")
    (auto simp: respect_size_def Let_def clamped_def over_max_def)

lemma clamped_pos: "sound vb \<Longrightarrow> 0 < clamped (vb_min_width vb) (vb_max_width vb) x \<and> 0 < clamped (vb_min_height vb) (vb_max_height vb) y"
  using clamped_bounded [of "vb_min_width vb" "vb_max_width vb" x] clamped_bounded [of "vb_min_height vb" "vb_max_height vb" y]
  by (auto simp: sound_def bounded_def)

lemma clamped_nonzero:
  "sound vb \<Longrightarrow> clamped (vb_min_width vb) (vb_max_width vb) x \<noteq> 0"
  "sound vb \<Longrightarrow> clamped (vb_min_height vb) (vb_max_height vb) x \<noteq> 0"
  using clamped_pos [of vb x x] by simp_all

definition left_of :: "axis \<Rightarrow> resizable \<Rightarrow> size_change \<Rightarrow> rat option" where
  "left_of a rz c =
     (if over_max (ch_width c) (vb_max_width (rz_bounds rz)) \<and> on_west a then Some (right_edge rz - the (vb_max_width (rz_bounds rz)))
      else if under_min (ch_width c) (vb_min_width (rz_bounds rz)) \<and> on_west a then Some (right_edge rz - vb_min_width (rz_bounds rz))
      else ch_left c)"

definition top_of :: "axis \<Rightarrow> resizable \<Rightarrow> size_change \<Rightarrow> rat option" where
  "top_of a rz c =
     (let dh = pl_top (rz_pos rz) + ex_height (rz_size rz) in
      if over_max (ch_height c) (vb_max_height (rz_bounds rz)) \<and> on_north a then Some (dh - the (vb_max_height (rz_bounds rz)))
      else if under_min (ch_height c) (vb_min_height (rz_bounds rz)) \<and> on_north a then Some (dh - vb_min_height (rz_bounds rz))
      else ch_top c)"

lemma respect_place:
  assumes "\<not> (is_blank (ch_width (respect_size a rz c)) \<and> is_blank (ch_height (respect_size a rz c)))"
  shows "ch_left (respect_size a rz c) = left_of a rz c \<and> ch_top (respect_size a rz c) = top_of a rz c"
proof -
  have l: "ch_left (respect_size a rz c) = (if is_blank (ch_width (respect_size a rz c)) \<and> is_blank (ch_height (respect_size a rz c)) \<and>
      is_blank (top_of a rz c) \<and> \<not> is_blank (left_of a rz c) then None else left_of a rz c)"
    and t: "ch_top (respect_size a rz c) = (if is_blank (ch_width (respect_size a rz c)) \<and> is_blank (ch_height (respect_size a rz c)) \<and>
      is_blank (left_of a rz c) \<and> \<not> is_blank (top_of a rz c) then None else top_of a rz c)"
    by (simp_all only: respect_size_def left_of_def top_of_def right_edge_def Let_def size_change.select_convs)
  show ?thesis using assms l t by metis
qed

lemma respect_edgewise:
  assumes e: "edgewise a rz c" and an: "anchored a rz" and s: "sound (rz_bounds rz)"
  shows "edgewise a rz (respect_size a rz c)"
proof -
  have nb: "\<not> (is_blank (ch_width (respect_size a rz c)) \<and> is_blank (ch_height (respect_size a rz c)))"
    using e clamped_nonzero [OF s] by (auto simp: respect_width respect_height is_blank_def edgewise_def)
  have l: "left_of a rz c = (if on_west a then map_option (\<lambda>w. right_edge rz - w) (ch_width (respect_size a rz c)) else None)"
    using e by (auto simp: left_of_def edgewise_def respect_width clamped_def)
  have t: "top_of a rz c = (if on_north a then map_option (\<lambda>w. bottom_edge rz - w) (ch_height (respect_size a rz c)) else None)"
    using e an by (auto simp: top_of_def edgewise_def respect_height clamped_def anchored_def Let_def)
  have "on_west a \<longrightarrow> ch_width (respect_size a rz c) \<noteq> None" "on_north a \<longrightarrow> ch_height (respect_size a rz c) \<noteq> None"
    "ch_width (respect_size a rz c) \<noteq> None \<or> ch_height (respect_size a rz c) \<noteq> None"
    using e by (simp_all add: edgewise_def respect_width respect_height)
  then show ?thesis unfolding edgewise_def using respect_place [OF nb] l t by simp
qed

lemma cache_anchored:
  assumes "edgewise a rz c" "anchored a rz"
  shows "anchored a (update_cache c rz)"
  using assms by (auto simp: edgewise_def anchored_def update_cache_def or_old_def right_edge_def bottom_edge_def split: option.splits)

text \<open>What a move leaves as it is.\<close>

definition same_drag :: "resizable \<Rightarrow> resizable \<Rightarrow> bool" where
  "same_drag rz rz' \<longleftrightarrow> rz_options rz' = rz_options rz \<and> rz_axis rz' = rz_axis rz \<and> rz_orig_pos rz' = rz_orig_pos rz \<and>
     rz_orig_size rz' = rz_orig_size rz \<and> rz_mouse rz' = rz_mouse rz \<and> rz_diff rz' = rz_diff rz \<and> rz_ratio rz' = rz_ratio rz \<and>
     rz_container rz' = rz_container rz"

lemma same_drag_refl [simp]: "same_drag rz rz"
  by (simp add: same_drag_def)

lemma same_drag_trans: "same_drag x y \<Longrightarrow> same_drag y z \<Longrightarrow> same_drag x z"
  by (simp add: same_drag_def)

lemma resized_same: "same_drag rz (resized a m rz)"
  by (simp add: same_drag_def resized_def Let_def update_cache_def update_prev_def)

lemma anchored_cong:
  "same_drag rz rz' \<Longrightarrow> rz_pos rz' = rz_pos rz \<Longrightarrow> rz_size rz' = rz_size rz \<Longrightarrow> anchored a rz' = anchored a rz"
  by (simp add: anchored_def same_drag_def right_edge_def bottom_edge_def)

definition sized :: "axis \<Rightarrow> bool \<Rightarrow> boundaries \<Rightarrow> rat \<Rightarrow> extent \<Rightarrow> bool" where
  "sized a keep vb r s \<longleftrightarrow>
     (keep \<or> a \<notin> {AxisN, AxisS} \<longrightarrow> bounded (vb_min_width vb) (vb_max_width vb) (ex_width s)) \<and>
     (keep \<or> a \<notin> {AxisE, AxisW} \<longrightarrow> bounded (vb_min_height vb) (vb_max_height vb) (ex_height s)) \<and>
     (keep \<longrightarrow> ex_width s = ex_height s * r)"

lemma change_dims:
  "(a \<notin> {AxisN, AxisS} \<longleftrightarrow> ch_width (change_of a rz dx dy) \<noteq> None) \<and> (a \<notin> {AxisE, AxisW} \<longleftrightarrow> ch_height (change_of a rz dx dy) \<noteq> None)"
  by (cases a) (simp_all add: change_defs)

lemma ratio_dims:
  assumes "0 < rz_ratio rz"
  shows "\<exists>h. ch_height (update_ratio a rz (change_of a rz dx dy)) = Some h \<and>
    ch_width (update_ratio a rz (change_of a rz dx dy)) = Some (h * rz_ratio rz)"
  using assms by (cases a) (simp_all add: update_ratio_def change_defs Let_def)

lemma resized_anchored:
  assumes an: "anchored a rz" and r: "0 < rz_ratio rz"
    and s: "sound (virtual_boundaries (rz_options rz) (keeps_aspect rz \<or> mv_shift m) (rz_ratio rz))" (is "sound ?vb")
  shows "anchored a (resized a m rz) \<and> sized a (keeps_aspect rz \<or> mv_shift m) ?vb (rz_ratio rz) (rz_size (resized a m rz))"
proof -
  define k where "k = (keeps_aspect rz \<or> mv_shift m)"
  define dx dy where "dx = pl_left (mv_page m) - pl_left (rz_mouse rz)" and "dy = pl_top (mv_page m) - pl_top (rz_mouse rz)"
  define rz1 where "rz1 = (update_prev rz)\<lparr>rz_bounds := virtual_boundaries (rz_options rz) k (rz_ratio rz)\<rparr>"
  define c where "c = (if k then update_ratio a rz1 (change_of a rz dx dy) else change_of a rz dx dy)"
  have co: "change_of a rz1 dx dy = change_of a rz dx dy"
    by (cases a) (simp_all add: change_defs rz1_def update_prev_def)
  have res: "resized a m rz = update_cache (respect_size a rz1 c) rz1"
    by (simp add: resized_def Let_def k_def dx_def dy_def rz1_def c_def)
  have an1: "anchored a rz1" using an by (simp add: rz1_def update_prev_def anchored_def right_edge_def bottom_edge_def)
  have r1: "0 < rz_ratio rz1" using r by (simp add: rz1_def update_prev_def)
  have s1: "sound (rz_bounds rz1)" using s by (simp add: rz1_def k_def)
  have e: "edgewise a rz1 c" using ratio_edgewise [OF an1, of dx dy] change_edgewise [of a rz1 dx dy] by (simp add: c_def co)
  have "anchored a (resized a m rz)"
    unfolding res by (rule cache_anchored [OF respect_edgewise [OF e an1 s1] an1])
  moreover have "sized a k ?vb (rz_ratio rz) (rz_size (resized a m rz))"
  proof (cases k)
    case True
    obtain h where h: "ch_height c = Some h" "ch_width c = Some (h * rz_ratio rz1)"
      using ratio_dims [OF r1, of a dx dy] True by (auto simp: c_def co)
    have vb: "rz_bounds rz1 = virtual_boundaries (rz_options rz) True (rz_ratio rz)" "?vb = rz_bounds rz1" "rz_ratio rz1 = rz_ratio rz"
      using True by (simp_all add: rz1_def update_prev_def k_def)
    have "bounded (vb_min_width ?vb) (vb_max_width ?vb) (clamped (vb_min_width ?vb) (vb_max_width ?vb) (h * rz_ratio rz))"
      "bounded (vb_min_height ?vb) (vb_max_height ?vb) (clamped (vb_min_height ?vb) (vb_max_height ?vb) h)"
      using s by (auto simp: sound_def intro!: clamped_bounded)
    moreover have "clamped (vb_min_width ?vb) (vb_max_width ?vb) (h * rz_ratio rz) = clamped (vb_min_height ?vb) (vb_max_height ?vb) h * rz_ratio rz"
      unfolding vb(2) unfolding vb(1) ratio_min [OF r] ratio_max [OF r] by (rule clamped_ratio [OF r])
    ultimately show ?thesis
      unfolding sized_def res by (simp add: update_cache_def respect_width respect_height or_old_def h vb(2,3))
  next
    case False
    then show ?thesis
      using change_dims [of a rz dx dy] s1 unfolding sized_def res
      by (auto simp: update_cache_def respect_width respect_height or_old_def sound_def c_def rz1_def k_def
        intro!: clamped_bounded)
  qed
  ultimately show ?thesis by (simp add: k_def)
qed

section \<open>A drag\<close>

lemma plugins_none:
  "rz_container rz = None \<Longrightarrow> ro_grid (rz_options rz) = None \<Longrightarrow> fst (plugins als shift measured rz) = rz"
  by (simp add: plugins_def Let_def)

text \<open>A page that changes nothing.\<close>

abbreviation idle :: "place \<Rightarrow> extent \<Rightarrow> place \<times> extent" where
  "idle \<equiv> Pair"

lemma drag_idle:
  assumes "rz_axis rz = Some a"
  shows "same_drag (fst (plugins als (mv_shift m) (mv_measured m) (resized a m rz))) (fst (resize_drag idle als m rz)) \<and>
    rz_pos (fst (resize_drag idle als m rz)) = rz_pos (fst (plugins als (mv_shift m) (mv_measured m) (resized a m rz))) \<and>
    rz_size (fst (resize_drag idle als m rz)) = rz_size (fst (plugins als (mv_shift m) (mv_measured m) (resized a m rz)))"
  using assms by (auto simp: resize_drag_def Let_def update_prev_def same_drag_def split: prod.splits)

lemma drags_Cons:
  "fst (resize_drags page als (m # ms) rz) = fst (resize_drags page als ms (fst (resize_drag page als m rz)))"
  by (simp add: Let_def split: prod.split)

lemma drags_snoc:
  "fst (resize_drags page als (ms @ [m]) rz) = fst (resize_drag page als m (fst (resize_drags page als ms rz)))"
proof (induction ms arbitrary: rz)
  case Nil
  show ?case by (simp add: drags_Cons del: resize_drags.simps(2))
next
  case (Cons n ms)
  then show ?case by (simp only: append_Cons drags_Cons)
qed

lemma free_drag:
  assumes "rz_axis rz = Some a" "rz_container rz = None" "ro_grid (rz_options rz) = None"
  shows "same_drag rz (fst (resize_drag idle als m rz)) \<and> rz_pos (fst (resize_drag idle als m rz)) = rz_pos (resized a m rz) \<and>
    rz_size (fst (resize_drag idle als m rz)) = rz_size (resized a m rz)"
proof -
  have "fst (plugins als (mv_shift m) (mv_measured m) (resized a m rz)) = resized a m rz"
    using assms resized_same [of rz a m] by (intro plugins_none) (simp_all add: same_drag_def)
  then show ?thesis using drag_idle [OF assms(1), of als m] resized_same [of rz a m] same_drag_trans by metis
qed

lemma start_facts:
  assumes "\<not> has_helper (rz_options rz)"
  shows "rz_axis (resize_start p cn rz) = rz_axis rz \<and> rz_container (resize_start p cn rz) = cn \<and>
    rz_options (resize_start p cn rz) = rz_options rz \<and> rz_ratio (resize_start p cn rz) = start_ratio (ro_aspect (rz_options rz)) (pr_inner p) \<and>
    anchored a (resize_start p cn rz)"
  using assms by (simp add: resize_start_def Let_def anchored_def right_edge_def bottom_edge_def)

text \<open>C17: For an element that is resized without a helper, a grid and a containment, whose bounds are consistent and allow no size of zero
  (\<open>sound\<close>): whatever the moves of a drag, with or without the shift key, the edges of the element that the
  handle does not hold stay where they were at the press; after every move each dimension that the handle changes
  is within its bounds, and with a ratio both are and have this ratio. A grid moves an edge that is not held (\<open>grid_moves_edge\<close>), and so does a
  bound of zero (\<open>zero_height_moves\<close>).\<close>

theorem resize_anchored:
  assumes "rz_axis rz = Some a" "\<not> has_helper (rz_options rz)" "ro_grid (rz_options rz) = None"
    and "r = start_ratio (ro_aspect (rz_options rz)) (pr_inner p)" "0 < r"
    and "\<And>keep. sound (virtual_boundaries (rz_options rz) keep r)"
  shows "anchored a (fst (resize_drags idle als ms (resize_start p None rz))) \<and>
    (ms \<noteq> [] \<longrightarrow> (let keep = keeps_aspect rz \<or> mv_shift (last ms) in
      sized a keep (virtual_boundaries (rz_options rz) keep r) r (rz_size (fst (resize_drags idle als ms (resize_start p None rz))))))"
proof -
  let ?s = "resize_start p None rz"
  have f: "rz_axis ?s = Some a" "rz_container ?s = None" "ro_grid (rz_options ?s) = None" "rz_options ?s = rz_options rz"
    "rz_ratio ?s = r" "anchored a ?s"
    using start_facts [OF assms(2), of p None a] assms by simp_all
  have inv: "same_drag ?s (fst (resize_drags idle als ms ?s)) \<and> anchored a (fst (resize_drags idle als ms ?s)) \<and>
    (ms \<noteq> [] \<longrightarrow> (let keep = keeps_aspect rz \<or> mv_shift (last ms) in
      sized a keep (virtual_boundaries (rz_options rz) keep r) r (rz_size (fst (resize_drags idle als ms ?s)))))"
  proof (induction ms rule: rev_induct)
    case Nil
    then show ?case using f by simp
  next
    case (snoc m ms)
    let ?x = "fst (resize_drags idle als ms ?s)"
    have x: "same_drag ?s ?x" "anchored a ?x" using snoc by simp_all
    have o: "rz_options ?x = rz_options rz" "rz_ratio ?x = r" "rz_axis ?x = Some a" "rz_container ?x = None"
      "ro_grid (rz_options ?x) = None" "keeps_aspect ?x = keeps_aspect rz"
      using x(1) f by (simp_all add: same_drag_def keeps_aspect_def)
    have d: "same_drag ?x (fst (resize_drag idle als m ?x))" "rz_pos (fst (resize_drag idle als m ?x)) = rz_pos (resized a m ?x)"
      "rz_size (fst (resize_drag idle als m ?x)) = rz_size (resized a m ?x)"
      using free_drag [OF o(3-5)] by blast+
    have prem: "0 < rz_ratio ?x" by (simp add: o assms(5))
    have "sound (virtual_boundaries (rz_options ?x) (keeps_aspect ?x \<or> mv_shift m) (rz_ratio ?x))" unfolding o by (rule assms(6))
    note rs = resized_anchored [OF x(2) prem this]
    have "same_drag (resized a m ?x) (fst (resize_drag idle als m ?x))"
      using d(1) resized_same [of ?x a m] by (simp only: same_drag_def)
    then have an: "anchored a (fst (resize_drag idle als m ?x))"
      using conjunct1 [OF rs] anchored_cong [OF _ d(2,3)] by blast
    have "sized a (keeps_aspect rz \<or> mv_shift m) (virtual_boundaries (rz_options rz) (keeps_aspect rz \<or> mv_shift m) r) r
        (rz_size (fst (resize_drag idle als m ?x)))"
      using conjunct2 [OF rs] unfolding o d(3) .
    then show ?case
      unfolding drags_snoc using an same_drag_trans [OF x(1) d(1)] by (simp only: last_snoc Let_def simp_thms)
  qed
  then show ?thesis by blast
qed

definition example :: "resize_options \<Rightarrow> axis \<Rightarrow> resizable" where
  "example ro a = \<lparr>rz_options = ro, rz_axis = Some a, rz_resizing = False, rz_pos = \<lparr>pl_left = 0, pl_top = 0\<rparr>,
     rz_size = \<lparr>ex_width = 0, ex_height = 0\<rparr>, rz_prev_pos = \<lparr>pl_left = 0, pl_top = 0\<rparr>, rz_prev_size = \<lparr>ex_width = 0, ex_height = 0\<rparr>,
     rz_orig_pos = \<lparr>pl_left = 0, pl_top = 0\<rparr>, rz_orig_size = \<lparr>ex_width = 0, ex_height = 0\<rparr>, rz_mouse = \<lparr>pl_left = 0, pl_top = 0\<rparr>,
     rz_diff = \<lparr>ex_width = 0, ex_height = 0\<rparr>, rz_ratio = 1, rz_bounds = virtual_boundaries ro False 1, rz_container = None,
     rz_padding = \<lparr>ex_width = 0, ex_height = 0\<rparr>\<rparr>"

definition example_press :: press where
  "example_press = \<lparr>pr_left = Some 50, pr_top = Some 20, pr_scroll = \<lparr>pl_left = 0, pl_top = 0\<rparr>,
     pr_helper = \<lparr>ex_width = 200, ex_height = 100\<rparr>, pr_inner = \<lparr>ex_width = 200, ex_height = 100\<rparr>,
     pr_outer = \<lparr>ex_width = 200, ex_height = 100\<rparr>, pr_page = \<lparr>pl_left = 0, pl_top = 0\<rparr>\<rparr>"

definition example_move :: "rat \<Rightarrow> rat \<Rightarrow> bool \<Rightarrow> move" where
  "example_move x y shift = \<lparr>mv_page = \<lparr>pl_left = x, pl_top = y\<rparr>, mv_shift = shift, mv_measured = \<lparr>pl_left = 0, pl_top = 0\<rparr>\<rparr>"

lemmas examples = example_def example_press_def example_move_def

lemma resize_anchored_witness:
  "anchored AxisNW (fst (resize_drags idle [] [example_move 30 0 False, example_move 300 (-10) True]
    (resize_start example_press None (example default_resize AxisNW))))"
proof -
  have r: "start_ratio (ro_aspect (rz_options (example default_resize AxisNW))) (pr_inner example_press) = 2"
    by (simp add: start_ratio_def examples default_resize_def)
  have "sound (virtual_boundaries (rz_options (example default_resize AxisNW)) keep 2)" for keep
    by (simp add: sound_def virtual_boundaries_def examples default_resize_def less_max_def Let_def)
  then show ?thesis
    by (intro conjunct1 [OF resize_anchored [OF _ _ _ r [symmetric]]]) (simp_all add: example_def default_resize_def has_helper_def)
qed

section \<open>Containment\<close>

definition inside :: "container \<Rightarrow> resizable \<Rightarrow> bool" where
  "inside cn rz \<longleftrightarrow> 0 \<le> pl_left (rz_pos rz) \<and> 0 \<le> pl_top (rz_pos rz) \<and>
     pl_left (rz_pos rz) + ex_width (rz_diff rz) + ex_width (rz_size rz) \<le> cn_width cn \<and>
     pl_top (rz_pos rz) + ex_height (rz_diff rz) + ex_height (rz_size rz) \<le> cn_height cn"

lemma in_container_inside:
  assumes h: "\<not> has_helper (rz_options rz)" and c: "cn_parent cn" "cn_positioned cn" "\<not> cn_static cn"
    and d: "0 \<le> ex_width (rz_diff rz)" "0 \<le> ex_height (rz_diff rz)"
    and prev: "inside cn (rz\<lparr>rz_pos := rz_prev_pos rz, rz_size := rz_prev_size rz\<rparr>)"
  shows "inside cn (in_container cn shift measured rz)"
proof -
  have ro: "\<not> ro_helper (rz_options rz)" using h by (simp add: has_helper_def)
  show ?thesis
    using h ro c d prev
    by (auto simp: in_container_def inside_def Let_def abs_if)
qed

lemma same_drag_set: "same_drag rz (rz\<lparr>rz_pos := p, rz_size := s\<rparr>)"
  by (simp add: same_drag_def)

lemma in_container_same: "same_drag rz (in_container cn shift measured rz)"
  unfolding in_container_def Let_def by (simp only: if_distrib [where f = "same_drag rz"] same_drag_set if_cancel)

lemma inside_cong:
  "same_drag rz rz' \<Longrightarrow> rz_pos rz' = rz_pos rz \<Longrightarrow> rz_size rz' = rz_size rz \<Longrightarrow> inside cn rz' = inside cn rz"
  by (simp add: inside_def same_drag_def)

lemma contained_drag:
  assumes f: "rz_axis rz = Some a" "rz_container rz = Some cn" "\<not> has_helper (rz_options rz)" "ro_grid (rz_options rz) = None"
    and c: "cn_parent cn" "cn_positioned cn" "\<not> cn_static cn" and d: "0 \<le> ex_width (rz_diff rz)" "0 \<le> ex_height (rz_diff rz)"
    and i: "inside cn rz"
  shows "same_drag rz (fst (resize_drag idle als m rz)) \<and> inside cn (fst (resize_drag idle als m rz))"
proof -
  let ?y = "resized a m rz" and ?z = "in_container cn (mv_shift m) (mv_measured m) (resized a m rz)"
  have s: "same_drag rz ?y" by (rule resized_same)
  have z: "fst (plugins als (mv_shift m) (mv_measured m) ?y) = ?z"
    using f s in_container_same [of ?y] by (simp add: plugins_def Let_def same_drag_def)
  have "inside cn (?y\<lparr>rz_pos := rz_prev_pos ?y, rz_size := rz_prev_size ?y\<rparr>)"
    using i s by (simp add: inside_def same_drag_def) (simp add: resized_def Let_def update_cache_def update_prev_def)
  then have "inside cn ?z"
    by (rule in_container_inside [OF _ c, rotated -1]) (use f d s in \<open>simp_all add: same_drag_def\<close>)
  then show ?thesis
    using drag_idle [OF f(1), of als m] inside_cong [of ?z] same_drag_trans [OF s same_drag_trans [OF in_container_same]]
    unfolding z by blast
qed

text \<open>C18: An element that is resized without a helper and without a grid inside its positioned parent, and is inside it at
  the press, stays inside whatever the moves: it neither leaves it to the left or the top, nor are its outer edges
  beyond the room of the container, with or without a ratio. A grid, which is applied after the containment, can round the size past the parent.\<close>

theorem resize_contained:
  assumes "rz_axis rz = Some a" "\<not> has_helper (rz_options rz)" "ro_grid (rz_options rz) = None"
    and "cn_parent cn" "cn_positioned cn" "\<not> cn_static cn"
    and "ex_width (pr_inner p) \<le> ex_width (pr_outer p)" "ex_height (pr_inner p) \<le> ex_height (pr_outer p)"
    and "inside cn (resize_start p (Some cn) rz)"
  shows "inside cn (fst (resize_drags idle als ms (resize_start p (Some cn) rz)))"
proof -
  let ?s = "resize_start p (Some cn) rz"
  have f: "rz_axis ?s = Some a" "rz_container ?s = Some cn" "rz_options ?s = rz_options rz"
    using start_facts [OF assms(2), of p "Some cn"] assms(1) by simp_all
  have d: "0 \<le> ex_width (rz_diff ?s)" "0 \<le> ex_height (rz_diff ?s)"
    using assms(7,8) by (simp_all add: resize_start_def Let_def)
  have "same_drag ?s (fst (resize_drags idle als ms ?s)) \<and> inside cn (fst (resize_drags idle als ms ?s))"
  proof (induction ms rule: rev_induct)
    case Nil
    then show ?case using assms(9) by simp
  next
    case (snoc m ms)
    let ?x = "fst (resize_drags idle als ms ?s)"
    have x: "same_drag ?s ?x" "inside cn ?x" using snoc by simp_all
    have "same_drag ?x (fst (resize_drag idle als m ?x)) \<and> inside cn (fst (resize_drag idle als m ?x))"
      by (rule contained_drag [where a = a]) (use x f d assms(2-6) in \<open>simp_all add: same_drag_def\<close>)
    then show ?case using same_drag_trans [OF x(1)] by (simp add: drags_snoc)
  qed
  then show ?thesis by blast
qed

definition example_container :: container where
  "example_container = \<lparr>cn_offset = \<lparr>pl_left = 100, pl_top = 100\<rparr>, cn_static = False, cn_positioned = True, cn_parent = True,
     cn_width = 300, cn_height = 300\<rparr>"

lemma resize_contained_witness:
  "inside example_container (fst (resize_drags idle [] [example_move (-90) 0 False, example_move (-300) 10 True]
    (resize_start example_press (Some example_container) (example default_resize AxisW))))"
  by (rule resize_contained [where a = AxisW])
    (simp_all add: examples example_container_def default_resize_def has_helper_def inside_def resize_start_def num_or_0_def Let_def)

section \<open>Where a drag does not keep this\<close>

text \<open>A least size of 0 is no bound: the size becomes negative. At a size of exactly 0 the moved edge is forgotten.\<close>

lemma zero_minimum_negative:
  "ex_width (rz_size (fst (resize_drags idle [] [example_move (-250) 0 False]
     (resize_start example_press None (example (default_resize\<lparr>ro_min_width := Some 0\<rparr>) AxisE))))) = -50"
  by code_simp

lemma zero_height_moves:
  "let rz = fst (resize_drags idle [] [example_move 0 100 False]
     (resize_start example_press None (example (default_resize\<lparr>ro_min_height := Some 0\<rparr>) AxisN)))
   in pl_top (rz_pos rz) = 20 \<and> ex_height (rz_size rz) = 0 \<and> bottom_edge rz = 120"
  by code_simp

text \<open>With a grid, a size under its bound is given one step more, but not the edge: the edge that is not held moves.\<close>

lemma grid_moves_edge:
  "let rz = fst (resize_drags idle [] [example_move 195 0 False]
     (resize_start example_press None (example (default_resize\<lparr>ro_grid := Some (50, 50)\<rparr>) AxisSW)))
   in ex_width (rz_size rz) = 50 \<and> pl_left (rz_pos rz) = 250 \<and> right_edge rz = 250"
  by code_simp

text \<open>Elements resized together with it are given the size from before the grid.\<close>

lemma also_before_grid:
  "let (rz, es) = resize_drags idle [\<lparr>al_start = \<lparr>ch_left = Some 0, ch_top = Some 0, ch_width = Some 200, ch_height = Some 100\<rparr>, al_inside = False\<rparr>]
       [example_move 20 0 False]
       (resize_start example_press None (example (default_resize\<lparr>ro_grid := Some (50, 50), ro_also := True\<rparr>) AxisE))
   in ex_width (rz_size rz) = 200 \<and> (\<exists>c \<in> set es. c = AlsoWrote [\<lparr>ch_left = None, ch_top = None, ch_width = Some 220, ch_height = Some 100\<rparr>])"
  by code_simp

text \<open>A helper that ends at the left edge 0: the 0 becomes null and is not written, the width is.\<close>

lemma stop_zero_kept:
  "snd (resize_stop \<lparr>rl_helper = \<lparr>ex_width = 250, ex_height = 100\<rparr>, rl_left = Some 50, rl_top = Some 20, rl_area = False, rl_scrolls = False,
      rl_offset = \<lparr>pl_left = 0, pl_top = 20\<rparr>, rl_outer = \<lparr>ex_width = 250, ex_height = 100\<rparr>, rl_container = \<lparr>pl_left = 0, pl_top = 0\<rparr>,
      rl_relative = False\<rparr>
     (fst (resize_drags idle [] [example_move (-50) 0 False]
       (resize_start example_press None (example (default_resize\<lparr>ro_helper := True\<rparr>) AxisW))))) =
   [Wrote \<lparr>ch_left = None, ch_top = Some 20, ch_width = Some 250, ch_height = Some 100\<rparr>, ToldStop]"
  by code_simp

text \<open>With a ghost the left edge of the container is 0, not where the container is.\<close>

lemma ghost_container_left:
  "pl_left (rz_pos (fst (resize_drags idle [] [example_move (-10) 0 False]
     (resize_start example_press (Some example_container) (example (default_resize\<lparr>ro_ghost := True\<rparr>) AxisW))))) = 0"
  by code_simp

end
