(* ===== verification/UI_Draggable.thy ===== *)
theory UI_Draggable
  imports UI_Plane
begin

text \<open>
  \<open>ui.draggable\<close> (jquery-ui.js): where an element is while it is dragged (the press, the containment, the grid, the
  axis, snapping, scrolling at the edges) and the life of a drag up to its release, revert and removal. What
  the browser measures and what the functions of the page answer are parameters.
\<close>

section \<open>Offsets\<close>

text \<open>The offsets of a drag: where in the element the mouse holds it, the offset of its relative position, that of its
  offset parent, the scroll kept (\<open>None\<close> before the first position), and its margins and size.\<close>

record drag_geometry =
  gm_click :: place
  gm_relative :: place
  gm_parent :: place
  gm_scroll :: "place option"
  gm_fixed :: bool
  gm_root :: bool
  gm_margin :: place
  gm_helper :: extent
  gm_page :: place

definition scroll_of :: "drag_geometry \<Rightarrow> place" where
  "scroll_of gm = (case gm_scroll gm of Some s \<Rightarrow> s | None \<Rightarrow> origin)"

definition scroll_term :: "drag_geometry \<Rightarrow> rat \<Rightarrow> rat" where
  "scroll_term gm s = (if gm_fixed gm then - s else if gm_root gm then 0 else s)"

text \<open>\<open>_convertPositionTo\<close>\<close>

definition convert :: "drag_geometry \<Rightarrow> rat \<Rightarrow> place \<Rightarrow> place" where
  "convert gm md p =
     \<lparr>pl_left = pl_left p + pl_left (gm_relative gm) * md + pl_left (gm_parent gm) * md - scroll_term gm (pl_left (scroll_of gm)) * md,
      pl_top = pl_top p + pl_top (gm_relative gm) * md + pl_top (gm_parent gm) * md - scroll_term gm (pl_top (scroll_of gm)) * md\<rparr>"

definition to_absolute :: "drag_geometry \<Rightarrow> place \<Rightarrow> place" where
  "to_absolute gm p = convert gm 1 p"

definition to_relative :: "drag_geometry \<Rightarrow> place \<Rightarrow> place" where
  "to_relative gm p = convert gm (-1) p"

text \<open>\<open>_getParentOffset\<close> and \<open>_getRelativeOffset\<close>\<close>

definition parent_offset :: "place \<Rightarrow> place option \<Rightarrow> bool \<Rightarrow> int option \<Rightarrow> int option \<Rightarrow> place" where
  "parent_offset po scrolled at_root border_left border_top =
     (let p = (if at_root then origin else case scrolled of Some s \<Rightarrow>
                 \<lparr>pl_left = pl_left po + pl_left s, pl_top = pl_top po + pl_top s\<rparr> | None \<Rightarrow> po) in
      \<lparr>pl_left = pl_left p + num_or_0 border_left, pl_top = pl_top p + num_or_0 border_top\<rparr>)"

definition relative_offset :: "bool \<Rightarrow> place \<Rightarrow> int option \<Rightarrow> int option \<Rightarrow> place option \<Rightarrow> place" where
  "relative_offset relative p css_left css_top scrolled =
     (if \<not> relative then origin
      else let s = (case scrolled of Some s \<Rightarrow> s | None \<Rightarrow> origin) in
        \<lparr>pl_left = pl_left p - num_or_0 css_left + pl_left s, pl_top = pl_top p - num_or_0 css_top + pl_top s\<rparr>)"

text \<open>\<open>_refreshOffsets\<close> and \<open>_adjustOffsetFromHelper\<close>\<close>

definition refresh_offsets :: "place \<Rightarrow> place \<Rightarrow> place \<Rightarrow> place \<Rightarrow> drag_geometry \<Rightarrow> drag_geometry" where
  "refresh_offsets element parent relative page gm =
     gm\<lparr>gm_parent := parent, gm_relative := relative, gm_scroll := None,
       gm_click := \<lparr>pl_left = pl_left page - (pl_left element - pl_left (gm_margin gm)),
                    pl_top = pl_top page - (pl_top element - pl_top (gm_margin gm))\<rparr>\<rparr>"

record cursor_at =
  ca_left :: "rat option"
  ca_right :: "rat option"
  ca_top :: "rat option"
  ca_bottom :: "rat option"

definition adjust_offset :: "cursor_at \<Rightarrow> drag_geometry \<Rightarrow> drag_geometry" where
  "adjust_offset ca gm =
     (let x = (case ca_left ca of Some l \<Rightarrow> l + pl_left (gm_margin gm) | None \<Rightarrow> pl_left (gm_click gm));
          x1 = (case ca_right ca of Some r \<Rightarrow> ex_width (gm_helper gm) - r + pl_left (gm_margin gm) | None \<Rightarrow> x);
          y = (case ca_top ca of Some t \<Rightarrow> t + pl_top (gm_margin gm) | None \<Rightarrow> pl_top (gm_click gm));
          y1 = (case ca_bottom ca of Some b \<Rightarrow> ex_height (gm_helper gm) - b + pl_top (gm_margin gm) | None \<Rightarrow> y) in
      gm\<lparr>gm_click := \<lparr>pl_left = x1, pl_top = y1\<rparr>\<rparr>)"

section \<open>Containment\<close>

record room =
  rm_left :: rat
  rm_top :: rat
  rm_right :: rat
  rm_bottom :: rat

text \<open>What is measured of a containing element; and of the window and the document.\<close>

record element_box =
  bx_start :: place
  bx_end :: place
  bx_scrolls :: bool
  bx_scroll :: extent
  bx_offset :: extent

datatype confine = InWindow place extent | InDocument extent | InRoom room | InElement element_box

text \<open>\<open>_setContainment\<close>: the room of the top left corner; in an element it is relative to the element's place. The borders and
  paddings at the start and at the end of the element are added up.\<close>

definition room_of :: "drag_geometry \<Rightarrow> place \<Rightarrow> confine \<Rightarrow> room" where
  "room_of gm margin_end cf =
     (case cf of
        InWindow s e \<Rightarrow> \<lparr>rm_left = pl_left s - pl_left (gm_relative gm) - pl_left (gm_parent gm),
            rm_top = pl_top s - pl_top (gm_relative gm) - pl_top (gm_parent gm),
            rm_right = pl_left s + ex_width e - ex_width (gm_helper gm) - pl_left (gm_margin gm),
            rm_bottom = pl_top s + ex_height e - ex_height (gm_helper gm) - pl_top (gm_margin gm)\<rparr>
      | InDocument e \<Rightarrow> \<lparr>rm_left = 0, rm_top = 0, rm_right = ex_width e - ex_width (gm_helper gm) - pl_left (gm_margin gm),
            rm_bottom = ex_height e - ex_height (gm_helper gm) - pl_top (gm_margin gm)\<rparr>
      | InRoom r \<Rightarrow> r
      | InElement b \<Rightarrow>
          let w = (if bx_scrolls b then max (ex_width (bx_scroll b)) (ex_width (bx_offset b)) else ex_width (bx_offset b));
              h = (if bx_scrolls b then max (ex_height (bx_scroll b)) (ex_height (bx_offset b)) else ex_height (bx_offset b)) in
          \<lparr>rm_left = pl_left (bx_start b), rm_top = pl_top (bx_start b),
           rm_right = w - pl_left (bx_end b) - ex_width (gm_helper gm) - pl_left (gm_margin gm) - pl_left margin_end,
           rm_bottom = h - pl_top (bx_end b) - ex_height (gm_helper gm) - pl_top (gm_margin gm) - pl_top margin_end\<rparr>)"

text \<open>The place of the containing element is measured at every move.\<close>

definition shifted :: "room \<Rightarrow> place option \<Rightarrow> room" where
  "shifted r co = (case co of None \<Rightarrow> r | Some c \<Rightarrow>
     \<lparr>rm_left = rm_left r + pl_left c, rm_top = rm_top r + pl_top c, rm_right = rm_right r + pl_left c, rm_bottom = rm_bottom r + pl_top c\<rparr>)"

section \<open>The position\<close>

datatype drag_axis = FreeAxis | AxisX | AxisY

text \<open>One coordinate: into the room, then to the grid of the page's place at the press.\<close>

definition confined :: "(rat \<times> rat) option \<Rightarrow> rat \<Rightarrow> rat \<Rightarrow> rat" where
  "confined r click page =
     (case r of None \<Rightarrow> page
      | Some (lo, hi) \<Rightarrow> if page - click > hi then hi + click else if page - click < lo then lo + click else page)"

definition gridded :: "rat option \<Rightarrow> (rat \<times> rat) option \<Rightarrow> rat \<Rightarrow> rat \<Rightarrow> rat \<Rightarrow> rat" where
  "gridded g r click start page =
     (case g of None \<Rightarrow> page
      | Some d \<Rightarrow>
        let v = (if d \<noteq> 0 then start + of_int (js_round ((page - start) / d)) * d else start) in
        (case r of None \<Rightarrow> v
         | Some (lo, hi) \<Rightarrow> if v - click \<ge> lo \<or> v - click > hi then v else if v - click \<ge> lo then v - d else v + d))"

record drag_rules =
  dr_room :: "room option"
  dr_grid :: "(rat \<times> rat) option"
  dr_axis :: drag_axis

definition page_point :: "drag_rules \<Rightarrow> place option \<Rightarrow> drag_geometry \<Rightarrow> place \<Rightarrow> place" where
  "page_point dr co gm page =
     (let r = map_option (\<lambda>r. shifted r co) (dr_room dr);
          rx = map_option (\<lambda>r. (rm_left r, rm_right r)) r; ry = map_option (\<lambda>r. (rm_top r, rm_bottom r)) r;
          x = gridded (map_option fst (dr_grid dr)) rx (pl_left (gm_click gm)) (pl_left (gm_page gm))
                (confined rx (pl_left (gm_click gm)) (pl_left page));
          y = gridded (map_option snd (dr_grid dr)) ry (pl_top (gm_click gm)) (pl_top (gm_page gm))
                (confined ry (pl_top (gm_click gm)) (pl_top page)) in
      \<lparr>pl_left = (if dr_axis dr = AxisY then pl_left (gm_page gm) else x),
       pl_top = (if dr_axis dr = AxisX then pl_top (gm_page gm) else y)\<rparr>)"

text \<open>\<open>_generatePosition\<close>, with the scroll measured when it has to be.\<close>

definition keep_scroll :: "place \<Rightarrow> drag_geometry \<Rightarrow> drag_geometry" where
  "keep_scroll measured gm = (if \<not> gm_root gm \<or> gm_scroll gm = None then gm\<lparr>gm_scroll := Some measured\<rparr> else gm)"

definition place_for :: "drag_geometry \<Rightarrow> place \<Rightarrow> place" where
  "place_for gm page =
     \<lparr>pl_left = pl_left page - pl_left (gm_click gm) - pl_left (gm_relative gm) - pl_left (gm_parent gm) + scroll_term gm (pl_left (scroll_of gm)),
      pl_top = pl_top page - pl_top (gm_click gm) - pl_top (gm_relative gm) - pl_top (gm_parent gm) + scroll_term gm (pl_top (scroll_of gm))\<rparr>"

definition generate_position :: "drag_rules \<Rightarrow> place option \<Rightarrow> bool \<Rightarrow> place \<Rightarrow> place \<Rightarrow> drag_geometry \<Rightarrow> place \<times> drag_geometry" where
  "generate_position dr co constrain measured page gm =
     (let gm1 = keep_scroll measured gm in
      (place_for gm1 (if constrain then page_point dr co gm1 page else page), gm1))"

section \<open>Snapping\<close>

datatype snap_mode = SnapOuter | SnapInner | SnapBoth

record snap_element =
  se_at :: place
  se_size :: extent
  se_snapping :: bool
  se_attached :: bool

text \<open>The flags of the loop, which the code declares outside it: what one element leaves in them is there for the next.\<close>

record flags =
  fl_top :: bool
  fl_bottom :: bool
  fl_left :: bool
  fl_right :: bool

definition any_flag :: "flags \<Rightarrow> bool" where
  "any_flag f = (fl_top f \<or> fl_bottom f \<or> fl_left f \<or> fl_right f)"

definition snap_to :: "bool \<Rightarrow> rat \<Rightarrow> bool \<Rightarrow> rat \<Rightarrow> rat \<Rightarrow> rat" where
  "snap_to f1 v1 f2 v2 old = (if f2 then v2 else if f1 then v1 else old)"

datatype snap_event = Snapped nat | Released nat

definition outer_flags :: "rat \<Rightarrow> place \<Rightarrow> extent \<Rightarrow> place \<Rightarrow> extent \<Rightarrow> flags" where
  "outer_flags d at_e size_e off hp =
     \<lparr>fl_top = \<bar>pl_top at_e - (pl_top off + ex_height hp)\<bar> \<le> d, fl_bottom = \<bar>pl_top at_e + ex_height size_e - pl_top off\<bar> \<le> d,
      fl_left = \<bar>pl_left at_e - (pl_left off + ex_width hp)\<bar> \<le> d, fl_right = \<bar>pl_left at_e + ex_width size_e - pl_left off\<bar> \<le> d\<rparr>"

definition inner_flags :: "rat \<Rightarrow> place \<Rightarrow> extent \<Rightarrow> place \<Rightarrow> extent \<Rightarrow> flags" where
  "inner_flags d at_e size_e off hp =
     \<lparr>fl_top = \<bar>pl_top at_e - pl_top off\<bar> \<le> d, fl_bottom = \<bar>pl_top at_e + ex_height size_e - (pl_top off + ex_height hp)\<bar> \<le> d,
      fl_left = \<bar>pl_left at_e - pl_left off\<bar> \<le> d, fl_right = \<bar>pl_left at_e + ex_width size_e - (pl_left off + ex_width hp)\<bar> \<le> d\<rparr>"

definition snap_outer :: "drag_geometry \<Rightarrow> flags \<Rightarrow> place \<Rightarrow> extent \<Rightarrow> place \<Rightarrow> place" where
  "snap_outer gm f at_e size_e p =
     \<lparr>pl_left = snap_to (fl_left f) (pl_left (to_relative gm \<lparr>pl_left = pl_left at_e - ex_width (gm_helper gm), pl_top = 0\<rparr>))
                  (fl_right f) (pl_left (to_relative gm \<lparr>pl_left = pl_left at_e + ex_width size_e, pl_top = 0\<rparr>)) (pl_left p),
      pl_top = snap_to (fl_top f) (pl_top (to_relative gm \<lparr>pl_left = 0, pl_top = pl_top at_e - ex_height (gm_helper gm)\<rparr>))
                 (fl_bottom f) (pl_top (to_relative gm \<lparr>pl_left = 0, pl_top = pl_top at_e + ex_height size_e\<rparr>)) (pl_top p)\<rparr>"

definition snap_inner :: "drag_geometry \<Rightarrow> flags \<Rightarrow> place \<Rightarrow> extent \<Rightarrow> place \<Rightarrow> place" where
  "snap_inner gm f at_e size_e p =
     \<lparr>pl_left = snap_to (fl_left f) (pl_left (to_relative gm \<lparr>pl_left = pl_left at_e, pl_top = 0\<rparr>))
                  (fl_right f) (pl_left (to_relative gm \<lparr>pl_left = pl_left at_e + ex_width size_e - ex_width (gm_helper gm), pl_top = 0\<rparr>)) (pl_left p),
      pl_top = snap_to (fl_top f) (pl_top (to_relative gm \<lparr>pl_left = 0, pl_top = pl_top at_e\<rparr>))
                 (fl_bottom f) (pl_top (to_relative gm \<lparr>pl_left = 0, pl_top = pl_top at_e + ex_height size_e - ex_height (gm_helper gm)\<rparr>)) (pl_top p)\<rparr>"

definition out_of_reach :: "rat \<Rightarrow> place \<Rightarrow> extent \<Rightarrow> place \<Rightarrow> extent \<Rightarrow> bool" where
  "out_of_reach d at_e size_e off hp =
     (pl_left off + ex_width hp < pl_left at_e - d \<or> pl_left off > pl_left at_e + ex_width size_e + d \<or>
      pl_top off + ex_height hp < pl_top at_e - d \<or> pl_top off > pl_top at_e + ex_height size_e + d)"

text \<open>One element: what is compared is the offset at the start of the loop, not the position written so far.\<close>

definition snap_one :: "snap_mode \<Rightarrow> rat \<Rightarrow> drag_geometry \<Rightarrow> place \<Rightarrow> nat \<Rightarrow> snap_element \<Rightarrow> place \<times> flags \<Rightarrow>
    (place \<times> flags) \<times> snap_element \<times> snap_event list" where
  "snap_one md d gm off i e pf =
     (let (p, f) = pf; hp = gm_helper gm; sz = se_size e;
          ae = \<lparr>pl_left = pl_left (se_at e) - pl_left (gm_margin gm), pl_top = pl_top (se_at e) - pl_top (gm_margin gm)\<rparr> in
      if out_of_reach d ae sz off hp \<or> \<not> se_attached e
      then ((p, f), e\<lparr>se_snapping := False\<rparr>, if se_snapping e then [Released i] else [])
      else
        let fo = outer_flags d ae sz off hp; fi = inner_flags d ae sz off hp;
            f1 = (if md \<noteq> SnapInner then fo else f);
            p1 = (if md \<noteq> SnapInner then snap_outer gm fo ae sz p else p);
            first = any_flag f1;
            f2 = (if md \<noteq> SnapOuter then fi else f1);
            p2 = (if md \<noteq> SnapOuter then snap_inner gm fi ae sz p1 else p1);
            on = any_flag f2 \<or> first in
        ((p2, f2), e\<lparr>se_snapping := on\<rparr>, if \<not> se_snapping e \<and> on then [Snapped i] else []))"

text \<open>From the last element to the first.\<close>

primrec snap_from :: "snap_mode \<Rightarrow> rat \<Rightarrow> drag_geometry \<Rightarrow> place \<Rightarrow> nat \<Rightarrow> snap_element list \<Rightarrow> place \<times> flags \<Rightarrow>
    (place \<times> flags) \<times> snap_element list \<times> snap_event list" where
  "snap_from md d gm off i [] pf = (pf, [], [])"
| "snap_from md d gm off i (e # es) pf =
     (let (pf1, es1, evs1) = snap_from md d gm off (Suc i) es pf; (pf2, e2, evs2) = snap_one md d gm off i e pf1 in
      (pf2, e2 # es1, evs1 @ evs2))"

definition no_flags :: flags where
  "no_flags = \<lparr>fl_top = False, fl_bottom = False, fl_left = False, fl_right = False\<rparr>"

definition snap_drag :: "snap_mode \<Rightarrow> rat \<Rightarrow> drag_geometry \<Rightarrow> snap_element list \<Rightarrow> place \<Rightarrow> place \<times> snap_element list \<times> snap_event list" where
  "snap_drag md d gm es p =
     (let (pf, es1, evs) = snap_from md d gm (to_absolute gm p) 0 es (p, no_flags) in (fst pf, es1, evs))"

section \<open>Scrolling at the edges\<close>

text \<open>In an element: its end first, then its start. In the document: its start first, then its end. The results are
  the new scroll and whether it was set.\<close>

definition scroll_element :: "rat \<Rightarrow> rat \<Rightarrow> rat \<Rightarrow> rat \<Rightarrow> rat \<Rightarrow> rat \<Rightarrow> rat \<times> bool" where
  "scroll_element sens speed start len page scroll =
     (if start + len - page < sens then (scroll + speed, True)
      else if page - start < sens then (scroll - speed, True) else (scroll, False))"

definition scroll_document :: "rat \<Rightarrow> rat \<Rightarrow> rat \<Rightarrow> rat \<Rightarrow> rat \<Rightarrow> rat \<times> bool" where
  "scroll_document sens speed len page scroll =
     (if page - scroll < sens then (scroll - speed, True)
      else if len - (page - scroll) < sens then (scroll + speed, True) else (scroll, False))"

definition scroll_drag :: "(rat \<Rightarrow> rat \<Rightarrow> rat \<times> bool) \<Rightarrow> (rat \<Rightarrow> rat \<Rightarrow> rat \<times> bool) \<Rightarrow> drag_axis \<Rightarrow> place \<Rightarrow> place \<Rightarrow> place \<times> bool" where
  "scroll_drag along_x along_y ax page s =
     (let (y, by_y) = (if ax \<noteq> AxisX then along_y (pl_top page) (pl_top s) else (pl_top s, False));
          (x, by_x) = (if ax \<noteq> AxisY then along_x (pl_left page) (pl_left s) else (pl_left s, False)) in
      (\<lparr>pl_left = x, pl_top = y\<rparr>, by_x \<or> by_y))"

text \<open>stack: the z-indices of the group in their order, and the one of the element dragged.\<close>

definition stack_z :: "int option list \<Rightarrow> (int list \<times> int) option" where
  "stack_z zs =
     (let vs = sort (map (\<lambda>z. case z of Some i \<Rightarrow> i | None \<Rightarrow> 0) zs) in
      if vs = [] then None else Some (map (\<lambda>i. hd vs + int i) [0..<length vs], hd vs + int (length vs)))"

section \<open>The life of a drag\<close>

datatype revert = RevertNo | RevertInvalid | RevertValid | RevertAlways | RevertAsked "bool \<Rightarrow> bool"

definition reverts :: "revert \<Rightarrow> bool \<Rightarrow> bool" where
  "reverts rv dropped = (case rv of RevertNo \<Rightarrow> False | RevertInvalid \<Rightarrow> \<not> dropped | RevertValid \<Rightarrow> dropped | RevertAlways \<Rightarrow> True
     | RevertAsked f \<Rightarrow> f dropped)"

record draggable =
  dg_geometry :: drag_geometry
  dg_rules :: drag_rules
  dg_confine :: "confine option"
  dg_cursor_at :: "cursor_at option"
  dg_revert :: revert
  dg_snap :: "(snap_mode \<times> rat) option"
  dg_disabled :: bool
  dg_helper :: bool
  dg_started :: bool
  dg_position :: place
  dg_absolute :: place
  dg_original :: place
  dg_snaps :: "snap_element list"
  dg_reverting :: bool
  dg_dropped :: bool
  dg_destroy_on_clear :: bool
  dg_destroyed :: bool

datatype drag_event = ToldStart | ToldDrag place | ToldStop | Styled place | RevertTo place | SnapTold snap_event

text \<open>What the functions of the page answer: whether the drag may start, the position they leave in \<open>ui.position\<close> (\<open>None\<close> to
  stop the drag), and whether the end is accepted.\<close>

record answers =
  an_start :: bool
  an_drag :: "place \<Rightarrow> place option"
  an_stop :: bool

definition drag_capture :: "bool \<Rightarrow> bool \<Rightarrow> draggable \<Rightarrow> bool" where
  "drag_capture on_resize_handle on_handle dg = (\<not> (dg_helper dg \<or> dg_disabled dg \<or> on_resize_handle) \<and> on_handle)"

definition undrag :: "draggable \<Rightarrow> draggable" where
  "undrag dg = (let dg1 = dg\<lparr>dg_helper := False\<rparr> in if dg_destroy_on_clear dg then dg1\<lparr>dg_destroyed := True\<rparr> else dg1)"

definition drag_destroy :: "draggable \<Rightarrow> draggable" where
  "drag_destroy dg = (if dg_helper dg then dg\<lparr>dg_destroy_on_clear := True\<rparr> else dg\<lparr>dg_destroyed := True\<rparr>)"

text \<open>The end of a drag: the page is told, and when it does not object the helper is removed.\<close>

definition drag_end :: "answers \<Rightarrow> draggable \<Rightarrow> draggable \<times> drag_event list" where
  "drag_end an dg =
     (let dg1 = dg\<lparr>dg_absolute := to_absolute (dg_geometry dg) (dg_position dg), dg_reverting := False\<rparr> in
      (if an_stop an then undrag dg1 else dg1, [ToldStop]))"

definition drag_stop :: "answers \<Rightarrow> bool \<Rightarrow> draggable \<Rightarrow> draggable \<times> drag_event list" where
  "drag_stop an dropped_on dg =
     (let dropped = (dg_dropped dg \<or> dropped_on); dg1 = dg\<lparr>dg_dropped := False, dg_started := False\<rparr> in
      if reverts (dg_revert dg) dropped then (dg1\<lparr>dg_reverting := True\<rparr>, [RevertTo (dg_original dg)])
      else drag_end an dg1)"

text \<open>One move. What is measured: the scroll, the offset of the parent when an ancestor is fixed, and the place of the
  containing element.\<close>

record drag_move =
  dm_page :: place
  dm_scroll :: place
  dm_parent :: "place option"
  dm_container :: "place option"

definition moved :: "drag_move \<Rightarrow> draggable \<Rightarrow> draggable" where
  "moved m dg =
     (let gm = (case dm_parent m of Some p \<Rightarrow> (dg_geometry dg)\<lparr>gm_parent := p\<rparr> | None \<Rightarrow> dg_geometry dg);
          (p, gm1) = generate_position (dg_rules dg) (dm_container m) True (dm_scroll m) (dm_page m) gm in
      dg\<lparr>dg_geometry := gm1, dg_position := p, dg_absolute := to_absolute gm1 p\<rparr>)"

definition drag_quiet :: "drag_move \<Rightarrow> draggable \<Rightarrow> draggable \<times> drag_event list" where
  "drag_quiet m dg = (let dg1 = moved m dg in (dg1, [Styled (dg_position dg1)]))"

definition snapped :: "draggable \<Rightarrow> draggable \<times> drag_event list" where
  "snapped dg =
     (case dg_snap dg of None \<Rightarrow> (dg, [])
      | Some (md, d) \<Rightarrow>
        let (p, es, evs) = snap_drag md d (dg_geometry dg) (dg_snaps dg) (dg_position dg) in
        (dg\<lparr>dg_position := p, dg_snaps := es\<rparr>, map SnapTold evs))"

definition drag_tell :: "answers \<Rightarrow> bool \<Rightarrow> drag_move \<Rightarrow> draggable \<Rightarrow> draggable \<times> drag_event list" where
  "drag_tell an dropped_on m dg =
     (let (dg1, evs) = snapped (moved m dg);
          dg2 = dg1\<lparr>dg_absolute := to_absolute (dg_geometry dg1) (dg_position dg1)\<rparr> in
      case an_drag an (dg_position dg2) of
        None \<Rightarrow> let (dg3, evs3) = (if dg_started dg2 then drag_stop an dropped_on dg2 else (dg2, [])) in
          (dg3, evs @ ToldDrag (dg_position dg2) # evs3)
      | Some p \<Rightarrow> (dg2\<lparr>dg_position := p\<rparr>, evs @ [ToldDrag (dg_position dg2), Styled p]))"

text \<open>The press that becomes a drag: the position without rules first, then the cursor's place, the room, the page's
  answer, the snap elements, and the first position.\<close>

definition drag_begin :: "answers \<Rightarrow> drag_geometry \<Rightarrow> place \<Rightarrow> place \<Rightarrow> place \<Rightarrow> snap_element list \<Rightarrow> drag_move \<Rightarrow> draggable \<Rightarrow> draggable \<times> drag_event list" where
  "drag_begin an gm element margin_end scroll snaps m dg =
     (let gm1 = refresh_offsets element (gm_parent gm) (gm_relative gm) (dm_page m) gm;
          (p, gm2) = generate_position (dg_rules dg) None False scroll (dm_page m) gm1;
          gm3 = gm2\<lparr>gm_page := dm_page m\<rparr>;
          gm4 = (case dg_cursor_at dg of Some ca \<Rightarrow> adjust_offset ca gm3 | None \<Rightarrow> gm3);
          dg1 = dg\<lparr>dg_geometry := gm4, dg_helper := True, dg_position := p, dg_original := p,
            dg_rules := (dg_rules dg)\<lparr>dr_room := map_option (room_of gm4 margin_end) (dg_confine dg)\<rparr>,
            dg_snaps := snaps, dg_absolute := to_absolute gm4 p\<rparr> in
      if an_start an
      then let (dg2, evs) = drag_quiet m dg1 in (dg2\<lparr>dg_started := True\<rparr>, ToldStart # evs)
      else (undrag dg1, [ToldStart]))"

definition drag_cancel :: "answers \<Rightarrow> bool \<Rightarrow> draggable \<Rightarrow> (draggable \<times> drag_event list) js" where
  "drag_cancel an dropped_on dg =
     (if \<not> dg_helper dg then Inl (Throw ''TypeError'')
      else if dg_started dg then Inr (drag_stop an dropped_on dg) else Inr (dg, []))"

datatype drag_step = DragPress drag_geometry place place place "snap_element list" drag_move | DragMove drag_move bool | DragRelease bool | DragReverted | DragDestroy

definition drag_run :: "answers \<Rightarrow> drag_step \<Rightarrow> draggable \<Rightarrow> draggable \<times> drag_event list" where
  "drag_run an st dg =
     (case st of
        DragPress gm element margin_end scroll snaps m \<Rightarrow>
          if drag_capture False True dg \<and> \<not> dg_destroyed dg then drag_begin an gm element margin_end scroll snaps m dg else (dg, [])
      | DragMove m d \<Rightarrow> if dg_started dg then drag_tell an d m dg else (dg, [])
      | DragRelease d \<Rightarrow> if dg_started dg then drag_stop an d dg else (dg, [])
      | DragReverted \<Rightarrow> if dg_reverting dg then drag_end an dg else (dg, [])
      | DragDestroy \<Rightarrow> (drag_destroy dg, []))"

primrec drag_runs :: "answers \<Rightarrow> drag_step list \<Rightarrow> draggable \<Rightarrow> draggable \<times> drag_event list" where
  "drag_runs an [] dg = (dg, [])"
| "drag_runs an (st # sts) dg =
     (let (dg1, es1) = drag_run an st dg; (dg2, es2) = drag_runs an sts dg1 in (dg2, es1 @ es2))"

end
