(* ===== verification/UI_DraggableProps.thy ===== *)
theory UI_DraggableProps
  imports UI_Draggable
begin

text \<open>
  Where an element is while it is dragged: in its room at the place nearest to the mouse, on the grid; snapped to an
  edge no further than the tolerance. And where it is not: beyond the room on a grid, or after it has snapped.
\<close>

section \<open>The position\<close>

lemma to_absolute_place_for:
  "to_absolute gm (place_for gm page) = \<lparr>pl_left = pl_left page - pl_left (gm_click gm), pl_top = pl_top page - pl_top (gm_click gm)\<rparr>"
  by (simp add: to_absolute_def convert_def place_for_def)

lemma absolute_relative: "to_absolute gm (to_relative gm p) = p"
  by (simp add: to_absolute_def to_relative_def convert_def)

lemma keep_scroll_same [simp]:
  "gm_click (keep_scroll s gm) = gm_click gm" "gm_page (keep_scroll s gm) = gm_page gm" "gm_helper (keep_scroll s gm) = gm_helper gm"
  by (simp_all add: keep_scroll_def)

lemma page_point_scroll [simp]: "page_point dr co (keep_scroll s gm) page = page_point dr co gm page"
  by (simp add: page_point_def Let_def)

lemma page_point_parent [simp]: "page_point dr co (gm\<lparr>gm_parent := p\<rparr>) page = page_point dr co gm page"
  by (simp add: page_point_def Let_def)

lemma moved_absolute:
  "dg_absolute (moved m dg) = (let p = page_point (dg_rules dg) (dm_container m) (dg_geometry dg) (dm_page m) in
    \<lparr>pl_left = pl_left p - pl_left (gm_click (dg_geometry dg)), pl_top = pl_top p - pl_top (gm_click (dg_geometry dg))\<rparr>)"
  by (simp add: moved_def generate_position_def to_absolute_place_for Let_def split: option.split)

lemma confined_nearest:
  "lo \<le> hi \<Longrightarrow> confined (Some (lo, hi)) click page - click = max lo (min hi (page - click))"
  by (simp add: confined_def)

lemma js_round_near: "\<bar>of_int (js_round x) - x\<bar> \<le> 1 / 2"
  unfolding js_round_def by linarith

lemma gridded_near:
  assumes "0 < d" "lo \<le> hi" "lo \<le> page - click" "page - click \<le> hi"
  shows "lo \<le> gridded (Some d) (Some (lo, hi)) click start page - click \<and>
    gridded (Some d) (Some (lo, hi)) click start page - click < hi + d \<and>
    (\<exists>k. gridded (Some d) (Some (lo, hi)) click start page = start + of_int k * d)"
proof -
  define n where "n = js_round ((page - start) / d)"
  define v where "v = start + of_int n * d"
  have "\<bar>of_int n - (page - start) / d\<bar> * d \<le> 1 / 2 * d"
    using js_round_near [of "(page - start) / d"] assms(1) by (intro mult_right_mono) (simp_all add: n_def)
  moreover have "\<bar>of_int n - (page - start) / d\<bar> * d = \<bar>v - page\<bar>"
    using assms(1) by (simp add: v_def abs_mult [of _ d, symmetric, simplified] abs_mult_pos [symmetric] field_simps)
  ultimately have near: "\<bar>v - page\<bar> \<le> d / 2" by simp
  have g: "gridded (Some d) (Some (lo, hi)) click start page = (if v - click \<ge> lo \<or> v - click > hi then v else v + d)"
    using assms(1) by (auto simp: gridded_def v_def n_def Let_def)
  have "start + of_int (n + 1) * d = v + d" by (simp add: v_def algebra_simps)
  then have "\<exists>k. v = start + of_int k * d" "\<exists>k. v + d = start + of_int k * d" using v_def by (blast, metis)
  moreover have "v - page \<le> d / 2" "page - v \<le> d / 2" using near by linarith+
  then have "lo \<le> (if v - click \<ge> lo \<or> v - click > hi then v else v + d) - click"
    "(if v - click \<ge> lo \<or> v - click > hi then v else v + d) - click < hi + d"
    using assms by auto
  ultimately show ?thesis unfolding g by simp
qed

text \<open>C19: While an element that may move on both axes is dragged with a containment whose room is not empty, the position that a move computes (which plugins like
  snapping may change afterwards, see \<open>snap_leaves_room\<close>) is on each axis the place in the
  room that is nearest to where the mouse holds it; with a grid it is on the grid, not before the room and less
  than one step behind it.\<close>

theorem drag_contained:
  fixes dg :: draggable
  defines "gm \<equiv> dg_geometry dg"
  assumes "dr_room (dg_rules dg) = Some rm" "dr_axis (dg_rules dg) = FreeAxis" "R = shifted rm (dm_container m)"
    and "rm_left R \<le> rm_right R" "rm_top R \<le> rm_bottom R"
  shows "(dr_grid (dg_rules dg) = None \<longrightarrow> dg_absolute (moved m dg) =
      \<lparr>pl_left = max (rm_left R) (min (rm_right R) (pl_left (dm_page m) - pl_left (gm_click gm))),
       pl_top = max (rm_top R) (min (rm_bottom R) (pl_top (dm_page m) - pl_top (gm_click gm)))\<rparr>) \<and>
    (\<forall>gx gy. dr_grid (dg_rules dg) = Some (gx, gy) \<and> 0 < gx \<and> 0 < gy \<longrightarrow>
      (let p = dg_absolute (moved m dg) in
        rm_left R \<le> pl_left p \<and> pl_left p < rm_right R + gx \<and> rm_top R \<le> pl_top p \<and> pl_top p < rm_bottom R + gy \<and>
        (\<exists>i j. pl_left p + pl_left (gm_click gm) = pl_left (gm_page gm) + of_int i * gx \<and>
               pl_top p + pl_top (gm_click gm) = pl_top (gm_page gm) + of_int j * gy)))"
proof -
  define cx where "cx = confined (Some (rm_left R, rm_right R)) (pl_left (gm_click gm)) (pl_left (dm_page m))"
  define cy where "cy = confined (Some (rm_top R, rm_bottom R)) (pl_top (gm_click gm)) (pl_top (dm_page m))"
  have x: "cx - pl_left (gm_click gm) = max (rm_left R) (min (rm_right R) (pl_left (dm_page m) - pl_left (gm_click gm)))"
    and y: "cy - pl_top (gm_click gm) = max (rm_top R) (min (rm_bottom R) (pl_top (dm_page m) - pl_top (gm_click gm)))"
    unfolding cx_def cy_def by (rule confined_nearest [OF assms(5)], rule confined_nearest [OF assms(6)])
  have p: "page_point (dg_rules dg) (dm_container m) gm (dm_page m) =
    \<lparr>pl_left = gridded (map_option fst (dr_grid (dg_rules dg))) (Some (rm_left R, rm_right R)) (pl_left (gm_click gm)) (pl_left (gm_page gm)) cx,
     pl_top = gridded (map_option snd (dr_grid (dg_rules dg))) (Some (rm_top R, rm_bottom R)) (pl_top (gm_click gm)) (pl_top (gm_page gm)) cy\<rparr>"
    using assms(2-4) by (simp add: page_point_def cx_def cy_def Let_def)
  have "dr_grid (dg_rules dg) = None \<longrightarrow> dg_absolute (moved m dg) =
      \<lparr>pl_left = cx - pl_left (gm_click gm), pl_top = cy - pl_top (gm_click gm)\<rparr>"
    by (simp add: moved_absolute p [unfolded gm_def] gridded_def gm_def Let_def)
  moreover have "rm_left R \<le> pl_left (dg_absolute (moved m dg)) \<and> pl_left (dg_absolute (moved m dg)) < rm_right R + gx \<and>
      rm_top R \<le> pl_top (dg_absolute (moved m dg)) \<and> pl_top (dg_absolute (moved m dg)) < rm_bottom R + gy \<and>
      (\<exists>i j. pl_left (dg_absolute (moved m dg)) + pl_left (gm_click gm) = pl_left (gm_page gm) + of_int i * gx \<and>
             pl_top (dg_absolute (moved m dg)) + pl_top (gm_click gm) = pl_top (gm_page gm) + of_int j * gy)"
    if "dr_grid (dg_rules dg) = Some (gx, gy)" "0 < gx" "0 < gy" for gx gy
    using that gridded_near [OF that(2) assms(5), of cx "pl_left (gm_click gm)" "pl_left (gm_page gm)"]
      gridded_near [OF that(3) assms(6), of cy "pl_top (gm_click gm)" "pl_top (gm_page gm)"] x y assms(5,6)
    by (auto simp: moved_absolute p [unfolded gm_def] gm_def Let_def)
  ultimately show ?thesis using x y by (simp add: Let_def)
qed

definition example_geometry :: drag_geometry where
  "example_geometry = \<lparr>gm_click = \<lparr>pl_left = 5, pl_top = 5\<rparr>, gm_relative = origin, gm_parent = \<lparr>pl_left = 100, pl_top = 0\<rparr>,
     gm_scroll = Some origin, gm_fixed = False, gm_root = True, gm_margin = origin, gm_helper = \<lparr>ex_width = 40, ex_height = 20\<rparr>,
     gm_page = \<lparr>pl_left = 105, pl_top = 5\<rparr>\<rparr>"

definition example_drag :: "drag_rules \<Rightarrow> draggable" where
  "example_drag dr = \<lparr>dg_geometry = example_geometry, dg_rules = dr, dg_confine = None, dg_cursor_at = None, dg_revert = RevertNo,
     dg_snap = None, dg_disabled = False, dg_helper = True, dg_started = True, dg_position = origin, dg_absolute = \<lparr>pl_left = 100, pl_top = 0\<rparr>,
     dg_original = origin, dg_snaps = [], dg_reverting = False, dg_dropped = False, dg_destroy_on_clear = False, dg_destroyed = False\<rparr>"

definition example_to :: "rat \<Rightarrow> rat \<Rightarrow> drag_move" where
  "example_to x y = \<lparr>dm_page = \<lparr>pl_left = x, pl_top = y\<rparr>, dm_scroll = origin, dm_parent = None, dm_container = None\<rparr>"

definition example_rules :: "(rat \<times> rat) option \<Rightarrow> drag_rules" where
  "example_rules g = \<lparr>dr_room = Some \<lparr>rm_left = 100, rm_top = 0, rm_right = 190, rm_bottom = 190\<rparr>, dr_grid = g, dr_axis = FreeAxis\<rparr>"

lemma drag_contained_witness:
  "dg_absolute (moved (example_to 999 (-3)) (example_drag (example_rules None))) = \<lparr>pl_left = 190, pl_top = 0\<rparr>"
  using drag_contained [of "example_drag (example_rules None)" _ _ "example_to 999 (-3)"]
  by (simp add: example_drag_def example_rules_def example_to_def example_geometry_def shifted_def)

section \<open>Snapping\<close>

text \<open>Where a left edge can be put by an element: outside of it before and behind, inside at its start and its end.\<close>

definition snaps_left :: "drag_geometry \<Rightarrow> snap_element \<Rightarrow> rat set" where
  "snaps_left gm e =
     (let l = pl_left (se_at e) - pl_left (gm_margin gm); r = l + ex_width (se_size e); w = ex_width (gm_helper gm) in
      {l - w, r, l, r - w})"

definition snaps_top :: "drag_geometry \<Rightarrow> snap_element \<Rightarrow> rat set" where
  "snaps_top gm e =
     (let t = pl_top (se_at e) - pl_top (gm_margin gm); b = t + ex_height (se_size e); h = ex_height (gm_helper gm) in
      {t - h, b, t, b - h})"

definition shift_left :: "drag_geometry \<Rightarrow> rat" where
  "shift_left gm = pl_left (gm_relative gm) + pl_left (gm_parent gm) - scroll_term gm (pl_left (scroll_of gm))"

definition shift_top :: "drag_geometry \<Rightarrow> rat" where
  "shift_top gm = pl_top (gm_relative gm) + pl_top (gm_parent gm) - scroll_term gm (pl_top (scroll_of gm))"

lemma shift_simps:
  "pl_left (to_absolute gm p) = pl_left p + shift_left gm" "pl_top (to_absolute gm p) = pl_top p + shift_top gm"
  "pl_left (to_relative gm p) = pl_left p - shift_left gm" "pl_top (to_relative gm p) = pl_top p - shift_top gm"
  by (simp_all add: to_absolute_def to_relative_def convert_def shift_left_def shift_top_def)

lemma snap_to_cases:
  "(f1 \<Longrightarrow> P v1) \<Longrightarrow> (f2 \<Longrightarrow> P v2) \<Longrightarrow> P old \<Longrightarrow> P (snap_to f1 v1 f2 v2 old)"
  by (simp add: snap_to_def)

abbreviation near_edge :: "rat \<Rightarrow> rat \<Rightarrow> rat set \<Rightarrow> rat \<Rightarrow> bool" where
  "near_edge d x E v \<equiv> \<bar>v - x\<bar> \<le> d \<and> v \<in> E"

definition corner :: "drag_geometry \<Rightarrow> snap_element \<Rightarrow> place" where
  "corner gm e = \<lparr>pl_left = pl_left (se_at e) - pl_left (gm_margin gm), pl_top = pl_top (se_at e) - pl_top (gm_margin gm)\<rparr>"

lemmas snap_defs = outer_flags_def inner_flags_def snap_outer_def snap_inner_def corner_def snaps_left_def snaps_top_def Let_def shift_simps

lemma snap_outer_near:
  "pl_left (snap_outer gm (outer_flags d (corner gm e) (se_size e) off (gm_helper gm)) (corner gm e) (se_size e) p) = pl_left p \<or>
   near_edge d (pl_left off) (snaps_left gm e)
     (pl_left (snap_outer gm (outer_flags d (corner gm e) (se_size e) off (gm_helper gm)) (corner gm e) (se_size e) p) + shift_left gm)"
  "pl_top (snap_outer gm (outer_flags d (corner gm e) (se_size e) off (gm_helper gm)) (corner gm e) (se_size e) p) = pl_top p \<or>
   near_edge d (pl_top off) (snaps_top gm e)
     (pl_top (snap_outer gm (outer_flags d (corner gm e) (se_size e) off (gm_helper gm)) (corner gm e) (se_size e) p) + shift_top gm)"
  by (simp_all add: snap_defs snap_to_def algebra_simps)

lemma snap_inner_near:
  "pl_left (snap_inner gm (inner_flags d (corner gm e) (se_size e) off (gm_helper gm)) (corner gm e) (se_size e) p) = pl_left p \<or>
   near_edge d (pl_left off) (snaps_left gm e)
     (pl_left (snap_inner gm (inner_flags d (corner gm e) (se_size e) off (gm_helper gm)) (corner gm e) (se_size e) p) + shift_left gm)"
  "pl_top (snap_inner gm (inner_flags d (corner gm e) (se_size e) off (gm_helper gm)) (corner gm e) (se_size e) p) = pl_top p \<or>
   near_edge d (pl_top off) (snaps_top gm e)
     (pl_top (snap_inner gm (inner_flags d (corner gm e) (se_size e) off (gm_helper gm)) (corner gm e) (se_size e) p) + shift_top gm)"
  by (simp_all add: snap_defs snap_to_def algebra_simps)

lemma snap_one_place:
  assumes "snap_one md d gm off i e (p, f) = ((p', f'), e', evs)"
  shows "p' = p \<or> se_attached e \<and>
    (pl_left p' = pl_left p \<or> near_edge d (pl_left off) (snaps_left gm e) (pl_left p' + shift_left gm)) \<and>
    (pl_top p' = pl_top p \<or> near_edge d (pl_top off) (snaps_top gm e) (pl_top p' + shift_top gm))"
proof -
  define out where "out q = snap_outer gm (outer_flags d (corner gm e) (se_size e) off (gm_helper gm)) (corner gm e) (se_size e) q" for q
  define inn where "inn q = snap_inner gm (inner_flags d (corner gm e) (se_size e) off (gm_helper gm)) (corner gm e) (se_size e) q" for q
  have "p' = p \<or> se_attached e \<and> (p' = out p \<or> p' = inn p \<or> p' = inn (out p))"
    using assms by (auto simp: snap_one_def Let_def out_def inn_def corner_def split: if_splits)
  then show ?thesis
    using snap_outer_near [where d = d and gm = gm and e = e and off = off, folded out_def]
      snap_inner_near [where d = d and gm = gm and e = e and off = off, folded inn_def] by metis
qed

definition snap_ok :: "rat \<Rightarrow> drag_geometry \<Rightarrow> snap_element list \<Rightarrow> place \<Rightarrow> place \<Rightarrow> bool" where
  "snap_ok d gm es off p \<longleftrightarrow>
     (pl_left (to_absolute gm p) = pl_left off \<or>
       (\<exists>e \<in> set es. se_attached e \<and> near_edge d (pl_left off) (snaps_left gm e) (pl_left (to_absolute gm p)))) \<and>
     (pl_top (to_absolute gm p) = pl_top off \<or>
       (\<exists>e \<in> set es. se_attached e \<and> near_edge d (pl_top off) (snaps_top gm e) (pl_top (to_absolute gm p))))"

lemma snap_from_ok:
  "snap_from md d gm off i es (p, f) = ((p', f'), es', evs) \<Longrightarrow> off = to_absolute gm p \<Longrightarrow> snap_ok d gm es off p'"
proof (induction es arbitrary: i p' f' es' evs)
  case Nil
  then show ?case by (simp add: snap_ok_def)
next
  case (Cons e es)
  obtain p1 f1 es1 evs1 where r: "snap_from md d gm off (Suc i) es (p, f) = ((p1, f1), es1, evs1)"
    by (metis prod.exhaust)
  obtain e2 evs2 where o: "snap_one md d gm off i e (p1, f1) = ((p', f'), e2, evs2)"
    using Cons.prems(1) r by (auto simp: Let_def split: prod.splits)
  show ?case
    using Cons.IH [OF r Cons.prems(2)] snap_one_place [OF o] by (auto simp: snap_ok_def shift_simps)
qed

text \<open>C20: On each axis snapping leaves the element where the mouse has it, or puts it to an edge, inside or
  outside, of one of the elements in the document, which is no further away than the tolerance; whatever the mode,
  the number of elements and what was snapped before.\<close>

theorem snap_aligns:
  "snap_drag md d gm es p = (p', es', evs) \<Longrightarrow> snap_ok d gm es (to_absolute gm p) p'"
  using snap_from_ok [of md d gm "to_absolute gm p" 0 es p no_flags] by (auto simp: snap_drag_def split: prod.splits)

definition example_element :: "rat \<Rightarrow> rat \<Rightarrow> snap_element" where
  "example_element x y = \<lparr>se_at = \<lparr>pl_left = x, pl_top = y\<rparr>, se_size = \<lparr>ex_width = 60, ex_height = 60\<rparr>, se_snapping = False, se_attached = True\<rparr>"

lemma snap_aligns_witness:
  "snap_drag SnapOuter 10 example_geometry [example_element 300 0] \<lparr>pl_left = 155, pl_top = 3\<rparr> =
     (\<lparr>pl_left = 160, pl_top = 3\<rparr>, [(example_element 300 0)\<lparr>se_snapping := True\<rparr>], [Snapped 0]) \<and>
   snap_ok 10 example_geometry [example_element 300 0] (to_absolute example_geometry \<lparr>pl_left = 155, pl_top = 3\<rparr>) \<lparr>pl_left = 160, pl_top = 3\<rparr>"
proof -
  have e: "snap_drag SnapOuter 10 example_geometry [example_element 300 0] \<lparr>pl_left = 155, pl_top = 3\<rparr> =
     (\<lparr>pl_left = 160, pl_top = 3\<rparr>, [(example_element 300 0)\<lparr>se_snapping := True\<rparr>], [Snapped 0])"
    by code_simp
  then show ?thesis using snap_aligns [OF e] by simp
qed

section \<open>Where an element leaves its room\<close>

text \<open>On a grid: the test of the end of the room has no branch of its own.\<close>

lemma grid_leaves_room:
  "pl_left (dg_absolute (moved (example_to 999 5) (example_drag (example_rules (Some (50, 50)))))) = 200"
  by code_simp

text \<open>The room of the window starts before the window by the offset of the parent.\<close>

lemma window_room_early:
  "rm_left (room_of example_geometry origin (InWindow origin \<lparr>ex_width = 800, ex_height = 600\<rparr>)) = -100"
  by code_simp

lemma snap_leaves_room:
  "let dg = (example_drag (example_rules None))\<lparr>dg_snap := Some (SnapInner, 20), dg_snaps := [example_element 205 0]\<rparr>;
       an = \<lparr>an_start = True, an_drag = Some, an_stop = True\<rparr>
   in pl_left (dg_absolute (fst (drag_tell an False (example_to 195 5) dg))) = 205"
  by code_simp

text \<open>What the page puts into \<open>ui.position\<close> is where the element is drawn, but not where droppables look for it.\<close>

lemma page_position_unseen:
  "let dg = example_drag \<lparr>dr_room = None, dr_grid = None, dr_axis = FreeAxis\<rparr>;
       an = \<lparr>an_start = True, an_drag = (\<lambda>p. Some (p\<lparr>pl_left := 0\<rparr>)), an_stop = True\<rparr>;
       (dg1, es) = drag_tell an False (example_to 305 5) dg
   in es = [ToldDrag \<lparr>pl_left = 200, pl_top = 0\<rparr>, Styled \<lparr>pl_left = 0, pl_top = 0\<rparr>] \<and> pl_left (dg_absolute dg1) = 300"
  by code_simp

text \<open>In the inner mode an element that only is in reach is told as snapped after one that did snap.\<close>

lemma inner_flags_stale:
  "snd (snd (snap_drag SnapInner 10 example_geometry [example_element 45 (-25)] origin)) = []"
  "snd (snd (snap_drag SnapInner 10 example_geometry [example_element 45 (-25), example_element 103 3] origin)) = [Snapped 1, Snapped 0]"
  by code_simp+

text \<open>When the page refuses the end of a drag, no drag starts again.\<close>

lemma refused_end_stays:
  assumes "dg_started dg" "dg_revert dg = RevertNo" "dg_helper dg" "\<not> an_stop an"
  shows "\<not> drag_capture r h (fst (drag_run an (DragRelease d) dg))"
  using assms by (simp add: drag_run_def drag_stop_def reverts_def drag_end_def drag_capture_def Let_def)

end
