(* ===== verification/UI_Droppable.thy ===== *)
theory UI_Droppable
  imports UI_Plane
begin

text \<open>
  \<open>ui.droppable\<close> and the manager of drags and drops (\<open>$.ui.ddmanager\<close>, jquery-ui.js): what it is to be over a droppable,
  and what the droppables of one scope are told when a drag starts, moves and ends.
\<close>

section \<open>Being over\<close>

datatype tolerance = TolFit | TolIntersect | TolPointer | TolTouch | TolOther

record dragged =
  dd_at :: place
  dd_size :: extent
  dd_pointer :: place

definition over_axis :: "rat \<Rightarrow> rat \<Rightarrow> rat \<Rightarrow> bool" where
  "over_axis x ref len = (x \<ge> ref \<and> x < ref + len)"

text \<open>\<open>dd_at\<close> is the position with the margins.\<close>

definition intersect :: "dragged \<Rightarrow> place option \<Rightarrow> extent \<Rightarrow> tolerance \<Rightarrow> bool" where
  "intersect dd off pr tol =
     (case off of None \<Rightarrow> False
      | Some f \<Rightarrow>
        let x1 = pl_left (dd_at dd); y1 = pl_top (dd_at dd); w = ex_width (dd_size dd); h = ex_height (dd_size dd);
            x2 = x1 + w; y2 = y1 + h; l = pl_left f; t = pl_top f; r = l + ex_width pr; b = t + ex_height pr in
        (case tol of
           TolFit \<Rightarrow> l \<le> x1 \<and> x2 \<le> r \<and> t \<le> y1 \<and> y2 \<le> b
         | TolIntersect \<Rightarrow> l < x1 + w / 2 \<and> x2 - w / 2 < r \<and> t < y1 + h / 2 \<and> y2 - h / 2 < b
         | TolPointer \<Rightarrow> over_axis (pl_top (dd_pointer dd)) t (ex_height pr) \<and> over_axis (pl_left (dd_pointer dd)) l (ex_width pr)
         | TolTouch \<Rightarrow> (y1 \<ge> t \<and> y1 \<le> b \<or> y2 \<ge> t \<and> y2 \<le> b \<or> y1 < t \<and> y2 > b) \<and>
             (x1 \<ge> l \<and> x1 \<le> r \<or> x2 \<ge> l \<and> x2 \<le> r \<or> x1 < l \<and> x2 > r)
         | TolOther \<Rightarrow> False))"

section \<open>The droppables of a scope\<close>

record droppable =
  dp_disabled :: bool
  dp_greedy :: bool
  dp_tolerance :: tolerance
  dp_visible :: bool
  dp_offset :: "place option"
  dp_size :: extent
  dp_isover :: bool
  dp_isout :: bool
  dp_greedy_child :: bool

text \<open>What the document and the page decide, for the droppable with an index: whether it accepts the element dragged, is it,
  lies in it, the next droppable around it, the droppables inside it, and where it is now.\<close>

record scene =
  sc_accepts :: "nat \<Rightarrow> bool"
  sc_same :: "nat \<Rightarrow> bool"
  sc_within :: "nat \<Rightarrow> bool"
  sc_parent :: "nat \<Rightarrow> nat option"
  sc_inside :: "nat \<Rightarrow> nat list"
  sc_shown :: "nat \<Rightarrow> bool"
  sc_at :: "nat \<Rightarrow> place"
  sc_size :: "nat \<Rightarrow> extent"

datatype told_event = Activated nat | Deactivated nat | WentOver nat | WentOut nat | Dropped nat

definition fresh_droppable :: "bool \<Rightarrow> tolerance \<Rightarrow> extent \<Rightarrow> droppable" where
  "fresh_droppable greedy tol sz = \<lparr>dp_disabled = False, dp_greedy = greedy, dp_tolerance = tol, dp_visible = False, dp_offset = None,
     dp_size = sz, dp_isover = False, dp_isout = True, dp_greedy_child = False\<rparr>"

text \<open>\<open>_over\<close> and \<open>_out\<close>: told when the droppable accepts the element and is another one.\<close>

definition tell_over :: "scene \<Rightarrow> nat \<Rightarrow> told_event list" where
  "tell_over sc i = (if \<not> sc_same sc i \<and> sc_accepts sc i then [WentOver i] else [])"

definition tell_out :: "scene \<Rightarrow> nat \<Rightarrow> told_event list" where
  "tell_out sc i = (if \<not> sc_same sc i \<and> sc_accepts sc i then [WentOut i] else [])"

text \<open>\<open>prepareOffsets\<close>\<close>

definition prepare_one :: "scene \<Rightarrow> bool \<Rightarrow> nat \<Rightarrow> droppable \<Rightarrow> droppable \<times> told_event list" where
  "prepare_one sc press i dp =
     (if dp_disabled dp \<or> \<not> sc_accepts sc i then (dp, [])
      else if sc_within sc i then (dp\<lparr>dp_size := (dp_size dp)\<lparr>ex_height := 0\<rparr>\<rparr>, [])
      else if \<not> sc_shown sc i then (dp\<lparr>dp_visible := False\<rparr>, [])
      else (dp\<lparr>dp_visible := True, dp_offset := Some (sc_at sc i), dp_size := sc_size sc i\<rparr>, if press then [Activated i] else []))"

definition prepare_offsets :: "scene \<Rightarrow> bool \<Rightarrow> droppable list \<Rightarrow> droppable list \<times> told_event list" where
  "prepare_offsets sc press ds =
     (map (\<lambda>i. fst (prepare_one sc press i (ds ! i))) [0..<length ds],
      concat (map (\<lambda>i. snd (prepare_one sc press i (ds ! i))) [0..<length ds]))"

text \<open>\<open>drag\<close>: one droppable, and with a greedy one the next droppable around it.\<close>

definition hits :: "dragged \<Rightarrow> droppable \<Rightarrow> bool" where
  "hits dd dp = intersect dd (dp_offset dp) (dp_size dp) (dp_tolerance dp)"

definition check_one :: "scene \<Rightarrow> dragged \<Rightarrow> nat \<Rightarrow> droppable list \<Rightarrow> droppable list \<times> told_event list" where
  "check_one sc dd i ds =
     (let dp = ds ! i; hit = hits dd dp in
      if dp_disabled dp \<or> dp_greedy_child dp \<or> \<not> dp_visible dp \<or> hit = dp_isover dp then (ds, [])
      else
        let par = (if dp_greedy dp then sc_parent sc i else None);
            ds1 = (case par of None \<Rightarrow> ds | Some j \<Rightarrow> ds[j := (ds ! j)\<lparr>dp_greedy_child := hit\<rparr>]);
            (ds2, es2) = (case par of Some j \<Rightarrow> if hit then (ds1[j := (ds1 ! j)\<lparr>dp_isover := False, dp_isout := True\<rparr>], tell_out sc j) else (ds1, [])
                          | None \<Rightarrow> (ds1, []));
            ds3 = ds2[i := (ds2 ! i)\<lparr>dp_isover := hit, dp_isout := \<not> hit\<rparr>];
            es3 = (if hit then tell_over sc i else tell_out sc i);
            (ds4, es4) = (case par of Some j \<Rightarrow> if \<not> hit then (ds3[j := (ds3 ! j)\<lparr>dp_isover := True, dp_isout := False\<rparr>], tell_over sc j) else (ds3, [])
                          | None \<Rightarrow> (ds3, [])) in
        (ds4, es2 @ es3 @ es4))"

primrec check_from :: "scene \<Rightarrow> dragged \<Rightarrow> nat list \<Rightarrow> droppable list \<Rightarrow> droppable list \<times> told_event list" where
  "check_from sc dd [] ds = (ds, [])"
| "check_from sc dd (i # is) ds =
     (let (ds1, es1) = check_one sc dd i ds; (ds2, es2) = check_from sc dd is ds1 in (ds2, es1 @ es2))"

definition manager_drag :: "scene \<Rightarrow> bool \<Rightarrow> dragged \<Rightarrow> droppable list \<Rightarrow> droppable list \<times> told_event list" where
  "manager_drag sc refresh dd ds =
     (let (ds1, es1) = (if refresh then prepare_offsets sc False ds else (ds, []));
          (ds2, es2) = check_from sc dd [0..<length ds1] ds1 in (ds2, es1 @ es2))"

text \<open>\<open>drop\<close>: the answer of \<open>_drop\<close>, what is told, and the reset of those that accept. The greedy droppables inside are
  asked in their order, up to the first that takes the element; their offsets are measured.\<close>

primrec child_takes :: "scene \<Rightarrow> dragged \<Rightarrow> nat list \<Rightarrow> droppable list \<Rightarrow> droppable list \<times> bool" where
  "child_takes sc dd [] ds = (ds, False)"
| "child_takes sc dd (j # js) ds =
     (if dp_greedy (ds ! j) \<and> \<not> dp_disabled (ds ! j) \<and> sc_accepts sc j then
        let ds1 = ds[j := (ds ! j)\<lparr>dp_offset := Some (sc_at sc j)\<rparr>] in
        if hits dd (ds1 ! j) then (ds1, True) else child_takes sc dd js ds1
      else child_takes sc dd js ds)"

definition drop_on :: "scene \<Rightarrow> dragged \<Rightarrow> nat \<Rightarrow> droppable list \<Rightarrow> droppable list \<times> bool" where
  "drop_on sc dd i ds =
     (if sc_same sc i then (ds, False)
      else let (ds1, c) = child_takes sc dd (sc_inside sc i) ds in (ds1, \<not> c \<and> sc_accepts sc i))"

definition drop_one :: "scene \<Rightarrow> dragged \<Rightarrow> nat \<Rightarrow> droppable list \<Rightarrow> droppable list \<times> told_event list \<times> bool" where
  "drop_one sc dd i ds =
     (let dp = ds ! i; live = (\<not> dp_disabled dp \<and> dp_visible dp);
          (ds1, taken) = (if live \<and> hits dd dp then drop_on sc dd i ds else (ds, False));
          reset = (live \<and> sc_accepts sc i) in
      (if reset then ds1[i := (ds1 ! i)\<lparr>dp_isout := True, dp_isover := False\<rparr>] else ds1,
       (if taken then [Dropped i] else []) @ (if reset then [Deactivated i] else []), taken))"

primrec drop_from :: "scene \<Rightarrow> dragged \<Rightarrow> nat list \<Rightarrow> droppable list \<Rightarrow> droppable list \<times> told_event list \<times> bool" where
  "drop_from sc dd [] ds = (ds, [], False)"
| "drop_from sc dd (i # is) ds =
     (let (ds1, es1, b1) = drop_one sc dd i ds; (ds2, es2, b2) = drop_from sc dd is ds1 in (ds2, es1 @ es2, b1 \<or> b2))"

definition manager_drop :: "scene \<Rightarrow> dragged \<Rightarrow> droppable list \<Rightarrow> droppable list \<times> told_event list \<times> bool" where
  "manager_drop sc dd ds = drop_from sc dd [0..<length ds] ds"

text \<open>Leaving the manager; the loop goes on behind an element it removes, and so does not look at the one that takes its place.\<close>

function splice_from :: "nat \<Rightarrow> 'a \<Rightarrow> 'a list \<Rightarrow> 'a list" where
  "splice_from i x xs = (if i < length xs then splice_from (Suc i) x (if xs ! i = x then take i xs @ drop (Suc i) xs else xs) else xs)"
  by pat_completeness auto
termination by (relation "measure (\<lambda>(i, x, xs). length xs - i)") auto

section \<open>A drag\<close>

datatype drop_step = Prepare bool | DragTo bool dragged | DropAt dragged | SetDisabled nat bool

definition drop_run :: "scene \<Rightarrow> drop_step \<Rightarrow> droppable list \<Rightarrow> droppable list \<times> told_event list" where
  "drop_run sc st ds =
     (case st of
        Prepare press \<Rightarrow> prepare_offsets sc press ds
      | DragTo refresh dd \<Rightarrow> manager_drag sc refresh dd ds
      | DropAt dd \<Rightarrow> (let (ds1, es, b) = manager_drop sc dd ds in (ds1, es))
      | SetDisabled i b \<Rightarrow> (if i < length ds then ds[i := (ds ! i)\<lparr>dp_disabled := b\<rparr>] else ds, []))"

primrec drop_runs :: "scene \<Rightarrow> drop_step list \<Rightarrow> droppable list \<Rightarrow> droppable list \<times> told_event list" where
  "drop_runs sc [] ds = (ds, [])"
| "drop_runs sc (st # sts) ds =
     (let (ds1, es1) = drop_run sc st ds; (ds2, es2) = drop_runs sc sts ds1 in (ds2, es1 @ es2))"

end
