(* ===== verification/UI_DroppableProps.thy ===== *)
theory UI_DroppableProps
  imports UI_Droppable
begin

text \<open>
  What droppables are told of one drag: over and out in turn, and over exactly while the element is over them. With
  greedy droppables, or an element that is not accepted, it is otherwise.
\<close>

section \<open>Over and out\<close>

definition hover_step :: "nat \<Rightarrow> bool \<Rightarrow> told_event \<Rightarrow> bool" where
  "hover_step i b e = (if e = WentOver i then True else if e = WentOut i \<or> e = Deactivated i then False else b)"

definition hovering :: "nat \<Rightarrow> bool \<Rightarrow> told_event list \<Rightarrow> bool" where
  "hovering i b es = foldl (hover_step i) b es"

text \<open>Over is told to a droppable that is out, out to one that is over.\<close>

primrec in_turn :: "nat \<Rightarrow> bool \<Rightarrow> told_event list \<Rightarrow> bool" where
  "in_turn i b [] = True"
| "in_turn i b (e # es) = ((e = WentOver i \<longrightarrow> \<not> b) \<and> (e = WentOut i \<longrightarrow> b) \<and> in_turn i (hover_step i b e) es)"

lemma hovering_simps [simp]: "hovering i b [] = b" "hovering i b (es @ es') = hovering i (hovering i b es) es'"
  by (simp_all add: hovering_def)

lemma in_turn_append [simp]: "in_turn i b (es @ es') \<longleftrightarrow> in_turn i b es \<and> in_turn i (hovering i b es) es'"
  by (induction es arbitrary: b) (simp_all add: hovering_def)

text \<open>Events of other kinds, or of other droppables.\<close>

definition quiet :: "nat \<Rightarrow> told_event list \<Rightarrow> bool" where
  "quiet i es \<longleftrightarrow> WentOver i \<notin> set es \<and> WentOut i \<notin> set es \<and> Deactivated i \<notin> set es"

lemma quiet_turn: "quiet i es \<Longrightarrow> in_turn i b es \<and> hovering i b es = b"
  by (induction es arbitrary: b) (auto simp: quiet_def hovering_def hover_step_def)

definition plain :: "droppable list \<Rightarrow> bool" where
  "plain ds \<longleftrightarrow> (\<forall>d \<in> set ds. \<not> dp_greedy d \<and> \<not> dp_greedy_child d)"

lemma plain_nth: "plain ds \<Longrightarrow> i < length ds \<Longrightarrow> \<not> dp_greedy (ds ! i) \<and> \<not> dp_greedy_child (ds ! i)"
  by (simp add: plain_def)

lemma plain_set: "plain ds \<Longrightarrow> \<not> dp_greedy d \<Longrightarrow> \<not> dp_greedy_child d \<Longrightarrow> plain (ds[i := d])"
  using set_update_subset_insert [of ds i d] by (auto simp: plain_def)

text \<open>An operation that keeps a droppable told of what it is.\<close>

definition tells :: "scene \<Rightarrow> nat \<Rightarrow> bool \<Rightarrow> droppable list \<Rightarrow> droppable list \<Rightarrow> told_event list \<Rightarrow> bool" where
  "tells sc i b ds ds' es \<longleftrightarrow> plain ds' \<and> length ds' = length ds \<and> in_turn i b es \<and>
     (i < length ds \<and> sc_accepts sc i \<and> \<not> sc_same sc i \<longrightarrow> dp_isover (ds' ! i) = hovering i b es)"

definition told :: "scene \<Rightarrow> nat \<Rightarrow> bool \<Rightarrow> droppable list \<Rightarrow> bool" where
  "told sc i b ds \<longleftrightarrow> plain ds \<and> (i < length ds \<and> sc_accepts sc i \<and> \<not> sc_same sc i \<longrightarrow> dp_isover (ds ! i) = b)"

lemma tells_told: "tells sc i b ds ds' es \<Longrightarrow> told sc i (hovering i b es) ds'"
  by (simp add: tells_def told_def)

lemma tells_append: "tells sc i b ds ds1 es1 \<Longrightarrow> tells sc i (hovering i b es1) ds1 ds2 es2 \<Longrightarrow> tells sc i b ds ds2 (es1 @ es2)"
  by (simp add: tells_def)

lemma tells_refl: "told sc i b ds \<Longrightarrow> tells sc i b ds ds []"
  by (simp add: tells_def told_def)

lemma check_plain:
  assumes "plain ds" "k < length ds"
  shows "check_one sc dd k ds =
    (if dp_disabled (ds ! k) \<or> \<not> dp_visible (ds ! k) \<or> hits dd (ds ! k) = dp_isover (ds ! k) then (ds, [])
     else (ds[k := (ds ! k)\<lparr>dp_isover := hits dd (ds ! k), dp_isout := \<not> hits dd (ds ! k)\<rparr>],
       if hits dd (ds ! k) then tell_over sc k else tell_out sc k))"
  using plain_nth [OF assms] by (simp add: check_one_def Let_def)

lemma check_one_tells:
  assumes "told sc i b ds" "k < length ds" "check_one sc dd k ds = (ds', es)"
  shows "tells sc i b ds ds' es"
proof -
  have p: "plain ds" using assms(1) by (simp add: told_def)
  then have "plain (ds[k := (ds ! k)\<lparr>dp_isover := x, dp_isout := y\<rparr>])" for x y
    using plain_nth [OF p assms(2)] by (intro plain_set) simp_all
  then show ?thesis
    using assms p by (auto simp: check_plain tells_def told_def tell_over_def tell_out_def hovering_def hover_step_def nth_list_update
      split: if_splits)
qed

lemma check_from_tells:
  "told sc i b ds \<Longrightarrow> \<forall>k \<in> set ks. k < length ds \<Longrightarrow> check_from sc dd ks ds = (ds', es) \<Longrightarrow> tells sc i b ds ds' es"
proof (induction ks arbitrary: b ds ds' es)
  case Nil
  then show ?case by (simp add: tells_refl)
next
  case (Cons k ks)
  obtain ds1 es1 where o: "check_one sc dd k ds = (ds1, es1)" by fastforce
  obtain ds2 es2 where r: "check_from sc dd ks ds1 = (ds2, es2)" by fastforce
  have t: "tells sc i b ds ds1 es1" by (rule check_one_tells [OF Cons.prems(1) _ o]) (use Cons.prems(2) in simp)
  have "tells sc i (hovering i b es1) ds1 ds2 es2"
    using Cons.IH [OF tells_told [OF t] _ r] Cons.prems(2) t by (simp add: tells_def)
  then show ?case using tells_append [OF t] Cons.prems(3) o r by auto
qed

lemma prepare_one_same:
  "dp_greedy (fst (prepare_one sc press i dp)) = dp_greedy dp" "dp_greedy_child (fst (prepare_one sc press i dp)) = dp_greedy_child dp"
  "dp_isover (fst (prepare_one sc press i dp)) = dp_isover dp"
  by (simp_all add: prepare_one_def)

lemma prepare_tells:
  assumes "told sc i b ds" "prepare_offsets sc press ds = (ds', es)"
  shows "tells sc i b ds ds' es"
proof -
  have "quiet i es" using assms(2) by (auto simp: prepare_offsets_def quiet_def prepare_one_def split: if_splits)
  then show ?thesis
    using assms quiet_turn [of i es b] by (auto simp: prepare_offsets_def tells_def told_def plain_def prepare_one_same)
qed

lemma child_plain: "plain ds \<Longrightarrow> \<forall>j \<in> set js. j < length ds \<Longrightarrow> child_takes sc dd js ds = (ds, False)"
  by (induction js) (simp_all add: plain_nth)

lemma drop_one_tells:
  assumes "told sc i b ds" "k < length ds" "\<forall>j \<in> set (sc_inside sc k). j < length ds" "drop_one sc dd k ds = (ds', es, t)"
  shows "tells sc i b ds ds' es"
proof -
  have p: "plain ds" using assms(1) by (simp add: told_def)
  have c: "drop_on sc dd k ds = (ds, \<not> sc_same sc k \<and> sc_accepts sc k)"
    by (simp add: drop_on_def child_plain [OF p assms(3)])
  have "plain (ds[k := (ds ! k)\<lparr>dp_isout := x, dp_isover := y\<rparr>])" for x y
    using plain_nth [OF p assms(2)] p by (intro plain_set) simp_all
  then show ?thesis
    using assms(1,2,4) p by (auto simp: drop_one_def c tells_def told_def hovering_def hover_step_def nth_list_update Let_def split: if_splits)
qed

lemma drop_from_tells:
  "told sc i b ds \<Longrightarrow> \<forall>k \<in> set ks. k < length ds \<Longrightarrow> \<forall>k < length ds. \<forall>j \<in> set (sc_inside sc k). j < length ds \<Longrightarrow>
   drop_from sc dd ks ds = (ds', es, t) \<Longrightarrow> tells sc i b ds ds' es"
proof (induction ks arbitrary: b ds ds' es t)
  case Nil
  then show ?case by (simp add: tells_refl)
next
  case (Cons k ks)
  obtain ds1 es1 t1 where o: "drop_one sc dd k ds = (ds1, es1, t1)" by (metis prod.exhaust)
  obtain ds2 es2 t2 where r: "drop_from sc dd ks ds1 = (ds2, es2, t2)" by (metis prod.exhaust)
  have t: "tells sc i b ds ds1 es1"
    by (rule drop_one_tells [OF Cons.prems(1) _ _ o]) (use Cons.prems(2,3) in auto)
  have "tells sc i (hovering i b es1) ds1 ds2 es2"
    using Cons.IH [OF tells_told [OF t] _ _ r] Cons.prems(2,3) t by (simp add: tells_def)
  then show ?case using tells_append [OF t] Cons.prems(4) o r by auto
qed

lemma drag_tells:
  assumes "told sc i b ds" "manager_drag sc refresh dd ds = (ds', es)"
  shows "tells sc i b ds ds' es"
proof -
  obtain ds1 es1 where p: "(if refresh then prepare_offsets sc False ds else (ds, [])) = (ds1, es1)" by fastforce
  obtain es2 where c: "check_from sc dd [0..<length ds1] ds1 = (ds', es2)" and es: "es = es1 @ es2"
    using assms(2) p by (auto simp: manager_drag_def split: prod.splits)
  have t: "tells sc i b ds ds1 es1"
    using p prepare_tells [OF assms(1)] tells_refl [OF assms(1)] by (cases refresh) auto
  have "tells sc i (hovering i b es1) ds1 ds' es2"
    by (rule check_from_tells [OF tells_told [OF t] _ c]) simp
  then show ?thesis using tells_append [OF t] es by simp
qed

lemma run_tells:
  assumes "told sc i b ds" "\<forall>k < length ds. \<forall>j \<in> set (sc_inside sc k). j < length ds" "drop_run sc st ds = (ds', es)"
  shows "tells sc i b ds ds' es"
proof (cases st)
  case (Prepare press)
  then show ?thesis using assms prepare_tells by (simp add: drop_run_def)
next
  case (DragTo refresh dd)
  then show ?thesis using assms drag_tells by (simp add: drop_run_def)
next
  case (DropAt dd)
  then obtain t where "manager_drop sc dd ds = (ds', es, t)" using assms(3) by (auto simp: drop_run_def split: prod.splits)
  then have "drop_from sc dd [0..<length ds] ds = (ds', es, t)" by (simp add: manager_drop_def)
  then show ?thesis by (rule drop_from_tells [OF assms(1) _ assms(2), rotated]) simp
next
  case (SetDisabled k d)
  have p: "plain ds" using assms(1) by (simp add: told_def)
  have "plain (ds[k := (ds ! k)\<lparr>dp_disabled := d\<rparr>])" if "k < length ds"
    using plain_nth [OF p that] p by (intro plain_set) simp_all
  then show ?thesis
    using SetDisabled assms(1,3) by (auto simp: drop_run_def tells_def told_def nth_list_update split: if_splits)
qed

lemma runs_tells:
  "told sc i b ds \<Longrightarrow> \<forall>k < length ds. \<forall>j \<in> set (sc_inside sc k). j < length ds \<Longrightarrow> drop_runs sc sts ds = (ds', es) \<Longrightarrow>
   tells sc i b ds ds' es"
proof (induction sts arbitrary: b ds ds' es)
  case Nil
  then show ?case by (simp add: tells_refl)
next
  case (Cons st sts)
  obtain ds1 es1 where o: "drop_run sc st ds = (ds1, es1)" by fastforce
  obtain ds2 es2 where r: "drop_runs sc sts ds1 = (ds2, es2)" by fastforce
  have t: "tells sc i b ds ds1 es1" by (rule run_tells [OF Cons.prems(1,2) o])
  have "tells sc i (hovering i b es1) ds1 ds2 es2"
    using Cons.IH [OF tells_told [OF t] _ r] Cons.prems(2) t by (simp add: tells_def)
  then show ?case using tells_append [OF t] Cons.prems(3) o r by auto
qed

text \<open>After a move each droppable in use is over exactly when the element is over it.\<close>

lemma check_from_matches:
  "plain ds \<Longrightarrow> \<forall>k \<in> set ks. k < length ds \<Longrightarrow> distinct ks \<Longrightarrow> check_from sc dd ks ds = (ds', es) \<Longrightarrow>
   length ds' = length ds \<and> (\<forall>k < length ds. dp_disabled (ds' ! k) = dp_disabled (ds ! k) \<and> dp_visible (ds' ! k) = dp_visible (ds ! k) \<and>
     hits dd (ds' ! k) = hits dd (ds ! k) \<and> (k \<notin> set ks \<longrightarrow> ds' ! k = ds ! k) \<and>
     (k \<in> set ks \<and> \<not> dp_disabled (ds ! k) \<and> dp_visible (ds ! k) \<longrightarrow> dp_isover (ds' ! k) = hits dd (ds ! k)))"
proof (induction ks arbitrary: ds ds' es)
  case Nil
  then show ?case by simp
next
  case (Cons i ks)
  obtain ds1 es1 where o: "check_one sc dd i ds = (ds1, es1)" by fastforce
  obtain es2 where r: "check_from sc dd ks ds1 = (ds', es2)" using Cons.prems(4) o by (auto split: prod.splits)
  have i: "i < length ds" using Cons.prems(2) by simp
  have one: "length ds1 = length ds" "plain ds1"
    using o plain_nth [OF Cons.prems(1) i] Cons.prems(1) by (auto simp: check_plain [OF Cons.prems(1) i] split: if_splits intro!: plain_set)
  have same: "\<forall>k < length ds. dp_disabled (ds1 ! k) = dp_disabled (ds ! k) \<and> dp_visible (ds1 ! k) = dp_visible (ds ! k) \<and>
     hits dd (ds1 ! k) = hits dd (ds ! k) \<and> (k \<noteq> i \<longrightarrow> ds1 ! k = ds ! k) \<and>
     (k = i \<and> \<not> dp_disabled (ds ! k) \<and> dp_visible (ds ! k) \<longrightarrow> dp_isover (ds1 ! k) = hits dd (ds ! k))"
    using o i by (auto simp: check_plain [OF Cons.prems(1) i] nth_list_update hits_def split: if_splits)
  have "\<forall>k \<in> set ks. k < length ds1" "distinct ks" "i \<notin> set ks" using Cons.prems(2,3) one by simp_all
  note ih = Cons.IH [OF one(2) this(1,2) r]
  show ?case using ih same one(1) \<open>i \<notin> set ks\<close> by (auto simp: i)
qed

text \<open>C21: While one element is dragged, whatever the moves, refreshes and options, every droppable of its scope is told over and
  out in turn, beginning with over, when none of them is greedy; and after a move each one in use is over
  exactly when the element is over it in its tolerance.\<close>

theorem over_in_turn:
  assumes "\<forall>d \<in> set ds. \<not> dp_greedy d \<and> \<not> dp_greedy_child d \<and> \<not> dp_isover d"
    and "\<forall>k < length ds. \<forall>j \<in> set (sc_inside sc k). j < length ds"
    and "drop_runs sc sts ds = (ds1, es1)"
  shows "in_turn i False es1 \<and>
    (let ds2 = fst (manager_drag sc False dd ds1) in
     \<forall>k < length ds. \<not> dp_disabled (ds2 ! k) \<and> dp_visible (ds2 ! k) \<longrightarrow> dp_isover (ds2 ! k) = hits dd (ds2 ! k))"
proof -
  have "told sc i False ds" using assms(1) by (simp add: told_def plain_def)
  then have t: "tells sc i False ds ds1 es1" by (rule runs_tells [OF _ assms(2,3)])
  obtain ds2 es2 where c: "check_from sc dd [0..<length ds1] ds1 = (ds2, es2)" by fastforce
  have "fst (manager_drag sc False dd ds1) = ds2" by (simp add: manager_drag_def c)
  moreover have "\<forall>k < length ds. \<not> dp_disabled (ds2 ! k) \<and> dp_visible (ds2 ! k) \<longrightarrow> dp_isover (ds2 ! k) = hits dd (ds2 ! k)"
    using check_from_matches [OF _ _ _ c] t by (simp add: tells_def)
  ultimately show ?thesis using t by (simp add: tells_def Let_def)
qed

definition example_scene :: "(nat \<Rightarrow> bool) \<Rightarrow> (nat \<Rightarrow> nat option) \<Rightarrow> scene" where
  "example_scene acc par = \<lparr>sc_accepts = acc, sc_same = (\<lambda>i. False), sc_within = (\<lambda>i. False), sc_parent = par, sc_inside = (\<lambda>i. []),
     sc_shown = (\<lambda>i. True), sc_at = (\<lambda>i. \<lparr>pl_left = 100 * of_nat i, pl_top = 0\<rparr>), sc_size = (\<lambda>i. \<lparr>ex_width = 50, ex_height = 50\<rparr>)\<rparr>"

definition held :: "rat \<Rightarrow> rat \<Rightarrow> dragged" where
  "held x y = \<lparr>dd_at = \<lparr>pl_left = x, pl_top = y\<rparr>, dd_size = \<lparr>ex_width = 20, ex_height = 20\<rparr>, dd_pointer = \<lparr>pl_left = x, pl_top = y\<rparr>\<rparr>"

definition example_droppables :: "bool list \<Rightarrow> droppable list" where
  "example_droppables gs = map (\<lambda>g. fresh_droppable g TolIntersect \<lparr>ex_width = 50, ex_height = 50\<rparr>) gs"

definition example_steps :: "drop_step list" where
  "example_steps = [Prepare True, DragTo False (held 10 10), DragTo False (held 110 10), DropAt (held 110 10)]"

lemma over_in_turn_witness:
  "in_turn 0 False (snd (drop_runs (example_scene (\<lambda>i. True) (\<lambda>i. None)) example_steps (example_droppables [False, False]))) \<and>
   snd (drop_runs (example_scene (\<lambda>i. True) (\<lambda>i. None)) example_steps (example_droppables [False, False])) =
     [Activated 0, Activated 1, WentOver 0, WentOut 0, WentOver 1, Deactivated 0, Dropped 1, Deactivated 1]"
proof -
  have "snd (drop_runs (example_scene (\<lambda>i. True) (\<lambda>i. None)) example_steps (example_droppables [False, False])) =
     [Activated 0, Activated 1, WentOver 0, WentOut 0, WentOver 1, Deactivated 0, Dropped 1, Deactivated 1]"
    by code_simp
  moreover have "in_turn 0 False (snd (drop_runs (example_scene (\<lambda>i. True) (\<lambda>i. None)) example_steps (example_droppables [False, False])))"
    by (rule conjunct1 [OF over_in_turn [OF _ _ prod.collapse [symmetric]]])
      (simp_all add: example_scene_def example_droppables_def fresh_droppable_def)
  ultimately show ?thesis by blast
qed

section \<open>Where over and out are not in turn\<close>

text \<open>A greedy droppable that is checked before the one around it: when both are entered at once, the outer one is told out
  though it was never over.\<close>

lemma greedy_out_first:
  "snd (drop_runs (example_scene (\<lambda>i. True) (\<lambda>i. if i = 0 then Some 1 else None)) [Prepare True, DragTo False (held 10 10)]
     (example_droppables [True, False])) = [Activated 0, Activated 1, WentOut 1, WentOver 0]"
  by code_simp

text \<open>After a drop on a greedy droppable the one around it stays marked: the next element dragged over it is not seen.\<close>

lemma greedy_drop_marks:
  "let (ds, es) = drop_runs (example_scene (\<lambda>i. True) (\<lambda>i. if i = 1 then Some 0 else None))
       [Prepare True, DragTo False (held 110 10), DropAt (held 110 10)] (example_droppables [False, True])
   in snd (drop_runs (example_scene (\<lambda>i. True) (\<lambda>i. if i = 1 then Some 0 else None)) [Prepare True, DragTo False (held 10 10)] ds) =
      [Activated 0, Activated 1]"
  by code_simp

text \<open>An element that is not accepted, dropped on a droppable, leaves it marked as over: the next one, which is accepted and
  elsewhere, has it told out.\<close>

lemma refused_drop_marks:
  "let (ds, es) = drop_runs (example_scene (\<lambda>i. True) (\<lambda>i. None)) [Prepare True, DropAt (held 300 300)] (example_droppables [False]);
       (ds2, es2) = drop_runs (example_scene (\<lambda>i. False) (\<lambda>i. None)) [Prepare True, DragTo False (held 10 10), DropAt (held 10 10)] ds
   in snd (drop_runs (example_scene (\<lambda>i. True) (\<lambda>i. None)) [Prepare True, DragTo False (held 300 300)] ds2) = [Activated 0, WentOut 0]"
  by code_simp

text \<open>Two references to one droppable that stand together: one is left in the manager.\<close>

lemma splice_skips: "splice_from 0 x [x, x] = [x]"
  by (simp add: splice_from.simps)

end
