(* ===== verification/UI_Accordion.thy ===== *)
theory UI_Accordion
  imports JS_Prelude
begin

text \<open>
  \<open>ui.accordion\<close> (jquery-ui.js): the headers with their panels, which of them is active, the change from one to
  another with its animation, the keys, the options and \<open>refresh\<close>. A header and its panel have one number; the
  answers of the page to \<open>beforeActivate\<close> and the ends of animations are steps of the run. Icons, heights and
  corners are not modelled.
\<close>

section \<open>The data\<close>

record ac_part =
  pn_shown :: bool
  pn_content :: bool
  pn_hidden :: bool
  pn_active :: bool
  pn_selected :: bool
  pn_expanded :: bool
  pn_tab :: bool

text \<open>What a change is about: the header that was active and the one that will be.\<close>

type_synonym ac_change = "nat option \<times> nat option"

datatype ac_event = BeforeActivate ac_change bool | Activated ac_change

text \<open>An animation: the panel that is shown, the one that is hidden, and the change it completes.\<close>

record ac_animation =
  an_show :: "nat option"
  an_hide :: "nat option"
  an_change :: ac_change

record accordion =
  ac_headers :: "nat list"
  ac_part :: "nat \<Rightarrow> ac_part"
  ac_active :: "nat option"
  ac_option :: "int option"
  ac_collapsible :: bool
  ac_animate :: bool
  ac_disabled :: bool
  ac_prev_show :: "nat option"
  ac_prev_hide :: "nat option"
  ac_running :: "ac_animation option"
  ac_log :: "ac_event list"

definition on_part :: "nat option \<Rightarrow> (ac_part \<Rightarrow> ac_part) \<Rightarrow> accordion \<Rightarrow> accordion" where
  "on_part h f ac = (case h of None \<Rightarrow> ac | Some i \<Rightarrow> ac\<lparr>ac_part := (ac_part ac)(i := f (ac_part ac i))\<rparr>)"

definition on_parts :: "nat list \<Rightarrow> (ac_part \<Rightarrow> ac_part) \<Rightarrow> accordion \<Rightarrow> accordion" where
  "on_parts hs f ac = ac\<lparr>ac_part := (\<lambda>i. if i \<in> set hs then f (ac_part ac i) else ac_part ac i)\<rparr>"

text \<open>\<open>index\<close> and \<open>eq\<close>, which counts from the end for a negative number; a value that is no number finds nothing.\<close>

fun index_of :: "nat list \<Rightarrow> nat \<Rightarrow> int" where
  "index_of [] h = -1"
| "index_of (x # xs) h = (if x = h then 0 else let i = index_of xs h in if i = -1 then -1 else i + 1)"

definition element_at :: "nat list \<Rightarrow> int \<Rightarrow> nat option" where
  "element_at hs i =
     (let j = (if i < 0 then i + int (length hs) else i) in
      if 0 \<le> j \<and> j < int (length hs) then Some (hs ! nat j) else None)"

definition find_active :: "accordion \<Rightarrow> int option \<Rightarrow> nat option" where
  "find_active ac v = (case v of None \<Rightarrow> None | Some i \<Rightarrow> element_at (ac_headers ac) i)"

definition log_accordion :: "ac_event \<Rightarrow> accordion \<Rightarrow> accordion" where
  "log_accordion e ac = ac\<lparr>ac_log := ac_log ac @ [e]\<rparr>"

section \<open>A change\<close>

definition toggle_complete :: "ac_change \<Rightarrow> accordion \<Rightarrow> accordion" where
  "toggle_complete ch ac = log_accordion (Activated ch) (on_part (fst ch) (\<lambda>p. p\<lparr>pn_content := False\<rparr>) ac)"

text \<open>The end of an animation, on its own or by \<open>stop ( true, true )\<close>.\<close>

definition finish_animation :: "accordion \<Rightarrow> accordion" where
  "finish_animation ac =
     (case ac_running ac of None \<Rightarrow> ac
      | Some a \<Rightarrow> toggle_complete (an_change a) (on_part (an_hide a) (\<lambda>p. p\<lparr>pn_shown := False\<rparr>) (ac\<lparr>ac_running := None\<rparr>)))"

definition start_animation :: "nat option \<Rightarrow> nat option \<Rightarrow> ac_change \<Rightarrow> accordion \<Rightarrow> accordion" where
  "start_animation sh hi ch ac =
     on_part sh (\<lambda>p. p\<lparr>pn_shown := True\<rparr>) (ac\<lparr>ac_running := Some \<lparr>an_show = sh, an_hide = hi, an_change = ch\<rparr>\<rparr>)"

definition show_now :: "nat option \<Rightarrow> nat option \<Rightarrow> ac_change \<Rightarrow> accordion \<Rightarrow> accordion" where
  "show_now sh hi ch ac =
     toggle_complete ch (on_part sh (\<lambda>p. p\<lparr>pn_shown := True\<rparr>) (on_part hi (\<lambda>p. p\<lparr>pn_shown := False\<rparr>) ac))"

text \<open>When the accordion is opened from the collapsed state the code looks for the headers whose
  \<open>attr ( "tabIndex" ) === 0\<close>: the attribute is a text, so there is none, and no header leaves the tab order.\<close>

definition toggle_attributes :: "nat option \<Rightarrow> nat option \<Rightarrow> accordion \<Rightarrow> accordion" where
  "toggle_attributes sh hi ac =
     (let ac1 = on_part hi (\<lambda>p. p\<lparr>pn_hidden := True, pn_selected := False\<rparr>) ac;
          ac2 = (if sh \<noteq> None \<and> hi \<noteq> None then on_part hi (\<lambda>p. p\<lparr>pn_tab := False, pn_expanded := False\<rparr>) ac1 else ac1) in
      on_part sh (\<lambda>p. p\<lparr>pn_hidden := False, pn_selected := True, pn_tab := True, pn_expanded := True\<rparr>) ac2)"

definition ac_toggle :: "ac_change \<Rightarrow> accordion \<Rightarrow> accordion" where
  "ac_toggle ch ac =
     (let sh = snd ch; hi = (if ac_prev_show ac \<noteq> None then ac_prev_show ac else fst ch);
          ac1 = (finish_animation ac)\<lparr>ac_prev_show := sh, ac_prev_hide := hi\<rparr>;
          ac2 = (if ac_animate ac1 then start_animation sh hi ch ac1 else show_now sh hi ch ac1) in
      toggle_attributes sh hi ac2)"

text \<open>\<open>_eventHandler\<close> on a header, with the answer of the page to \<open>beforeActivate\<close>.\<close>

definition ac_handler :: "bool \<Rightarrow> nat \<Rightarrow> accordion \<Rightarrow> accordion" where
  "ac_handler ok c ac =
     (let same = (ac_active ac = Some c); coll = (same \<and> ac_collapsible ac);
          ch = (ac_active ac, if coll then None else Some c) in
      if same \<and> \<not> ac_collapsible ac then ac
      else if \<not> ok then log_accordion (BeforeActivate ch False) ac
      else
        let ac1 = (log_accordion (BeforeActivate ch True) ac)\<lparr>ac_option := (if coll then None else Some (index_of (ac_headers ac) c)),
              ac_active := (if same then None else Some c)\<rparr>;
            ac2 = on_part (ac_active ac) (\<lambda>p. p\<lparr>pn_active := False\<rparr>) (ac_toggle ch ac1) in
        if same then ac2 else on_part (Some c) (\<lambda>p. p\<lparr>pn_active := True, pn_content := True\<rparr>) ac2)"

definition ac_activate :: "bool \<Rightarrow> int option \<Rightarrow> accordion \<Rightarrow> accordion" where
  "ac_activate ok v ac =
     (let a = find_active ac v in
      if a = ac_active ac then ac
      else case (if a = None then ac_active ac else a) of None \<Rightarrow> ac | Some c \<Rightarrow> ac_handler ok c ac)"

section \<open>Keys and options\<close>

datatype ac_key = KeyNext | KeyPrev | KeyPress | KeyFirst | KeyLast | KeyOther

text \<open>The target is a header, or \<open>None\<close> for an element in it, which has no place among the headers.\<close>

definition move_focus :: "nat option \<Rightarrow> int \<Rightarrow> accordion \<Rightarrow> accordion" where
  "move_focus target i ac =
     on_part (element_at (ac_headers ac) i) (\<lambda>p. p\<lparr>pn_tab := True\<rparr>) (on_part target (\<lambda>p. p\<lparr>pn_tab := False\<rparr>) ac)"

definition ac_keydown :: "bool \<Rightarrow> ac_key \<Rightarrow> nat option \<Rightarrow> nat \<Rightarrow> accordion \<Rightarrow> accordion" where
  "ac_keydown ok k target c ac =
     (let n = int (length (ac_headers ac)); cur = (case target of Some h \<Rightarrow> index_of (ac_headers ac) h | None \<Rightarrow> -1) in
      case k of
        KeyNext \<Rightarrow> move_focus target (js_mod (cur + 1) n) ac
      | KeyPrev \<Rightarrow> move_focus target (js_mod (cur - 1 + n) n) ac
      | KeyPress \<Rightarrow> ac_handler ok c ac
      | KeyFirst \<Rightarrow> move_focus target 0 ac
      | KeyLast \<Rightarrow> move_focus target (n - 1) ac
      | KeyOther \<Rightarrow> ac)"

definition ac_set_collapsible :: "bool \<Rightarrow> bool \<Rightarrow> accordion \<Rightarrow> accordion" where
  "ac_set_collapsible ok b ac =
     (let ac1 = ac\<lparr>ac_collapsible := b\<rparr> in if \<not> b \<and> ac_option ac1 = None then ac_activate ok (Some 0) ac1 else ac1)"

section \<open>Creation and refresh\<close>

text \<open>\<open>_refresh\<close>: the active header by its index, and the attributes of all.\<close>

definition ac_refresh_parts :: "accordion \<Rightarrow> accordion" where
  "ac_refresh_parts ac =
     (let a = find_active ac (ac_option ac);
          ac1 = on_part a (\<lambda>p. p\<lparr>pn_active := True, pn_content := True, pn_shown := True\<rparr>) (ac\<lparr>ac_active := a\<rparr>);
          ac2 = on_parts (filter (\<lambda>h. Some h \<noteq> a) (ac_headers ac1))
            (\<lambda>p. p\<lparr>pn_selected := False, pn_expanded := False, pn_tab := False, pn_hidden := True, pn_shown := False\<rparr>) ac1 in
      case a of
        None \<Rightarrow> on_part (element_at (ac_headers ac2) 0) (\<lambda>p. p\<lparr>pn_tab := True\<rparr>) ac2
      | Some _ \<Rightarrow> on_part a (\<lambda>p. p\<lparr>pn_selected := True, pn_expanded := True, pn_tab := True, pn_hidden := False\<rparr>) ac2)"

text \<open>\<open>_processPanels\<close>: the panels that are not active are hidden.\<close>

definition process_panels :: "nat list \<Rightarrow> accordion \<Rightarrow> accordion" where
  "process_panels hs ac = on_parts hs (\<lambda>p. if pn_content p then p else p\<lparr>pn_shown := False\<rparr>) (ac\<lparr>ac_headers := hs\<rparr>)"

definition plain_part :: ac_part where
  "plain_part = \<lparr>pn_shown = True, pn_content = False, pn_hidden = False, pn_active = False, pn_selected = False, pn_expanded = False, pn_tab = False\<rparr>"

definition create_accordion :: "nat list \<Rightarrow> int option \<Rightarrow> bool \<Rightarrow> bool \<Rightarrow> accordion" where
  "create_accordion hs v coll anim =
     (let v1 = (if \<not> coll \<and> v = None then Some 0 else v);
          v2 = (case v1 of Some i \<Rightarrow> Some (if i < 0 then i + int (length hs) else i) | None \<Rightarrow> None) in
      ac_refresh_parts (process_panels hs
        \<lparr>ac_headers = [], ac_part = (\<lambda>_. plain_part), ac_active = None, ac_option = v2, ac_collapsible = coll, ac_animate = anim,
          ac_disabled = False, ac_prev_show = None, ac_prev_hide = None, ac_running = None, ac_log = []\<rparr>))"

text \<open>\<open>refresh\<close>, with the headers there are now and whether all of them are disabled.\<close>

definition ac_refresh :: "bool \<Rightarrow> nat list \<Rightarrow> bool \<Rightarrow> accordion \<Rightarrow> accordion" where
  "ac_refresh ok hs all_off ac =
     (let ac1 = process_panels hs ac;
          ac2 = (if ac_option ac1 = None \<and> ac_collapsible ac1 \<or> hs = [] then ac1\<lparr>ac_option := None, ac_active := None\<rparr>
                 else if ac_option ac1 = None then ac_activate ok (Some 0) ac1
                 else case ac_active ac1 of
                     Some h \<Rightarrow>
                       if h \<notin> set hs then
                         if all_off then ac1\<lparr>ac_option := None, ac_active := None\<rparr>
                         else ac_activate ok (Some (max 0 (the (ac_option ac1) - 1))) ac1
                       else ac1\<lparr>ac_option := Some (index_of hs h)\<rparr>
                   | None \<Rightarrow> ac1\<lparr>ac_option := Some (-1)\<rparr>) in
      ac_refresh_parts ac2)"

section \<open>Runs\<close>

datatype ac_step =
    ClickHeader bool nat
  | PressKey bool ac_key "nat option" nat
  | SetActive bool "int option"
  | SetCollapsible bool bool
  | SetAnimate bool
  | DisableAll bool
  | AnimationEnds

text \<open>Events of headers are not handled while the accordion is disabled; the options are.\<close>

definition ac_run :: "ac_step \<Rightarrow> accordion \<Rightarrow> accordion" where
  "ac_run st ac =
     (case st of
        ClickHeader ok c \<Rightarrow> if ac_disabled ac \<or> c \<notin> set (ac_headers ac) then ac else ac_handler ok c ac
      | PressKey ok k t c \<Rightarrow> if ac_disabled ac \<or> c \<notin> set (ac_headers ac) then ac else ac_keydown ok k t c ac
      | SetActive ok v \<Rightarrow> ac_activate ok v ac
      | SetCollapsible ok b \<Rightarrow> ac_set_collapsible ok b ac
      | SetAnimate b \<Rightarrow> ac\<lparr>ac_animate := b\<rparr>
      | DisableAll b \<Rightarrow> ac\<lparr>ac_disabled := b\<rparr>
      | AnimationEnds \<Rightarrow> finish_animation ac)"

definition ac_runs :: "ac_step list \<Rightarrow> accordion \<Rightarrow> accordion" where
  "ac_runs sts ac = fold ac_run sts ac"

end
