(* ===== verification/UI_AccordionProps.thy ===== *)
theory UI_AccordionProps
  imports UI_Accordion
begin

text \<open>
  An accordion over every sequence of clicks, keys, options and ends of animations: at most two panels are in motion, and
  when nothing moves the panel of the active header is the one that is open, and each change that was begun
  has been told as done.
\<close>

section \<open>Parts\<close>

lemma part_simps [simp]:
  "ac_part (on_part t f ac) h = (if t = Some h then f (ac_part ac h) else ac_part ac h)"
  "ac_part (on_parts hs f ac) h = (if h \<in> set hs then f (ac_part ac h) else ac_part ac h)"
  by (simp_all add: on_part_def on_parts_def split: option.split)

lemma on_part_None [simp]: "on_part None f ac = ac"
  by (simp add: on_part_def)

lemma on_part_simps [simp]:
  "ac_headers (on_part t f ac) = ac_headers ac" "ac_active (on_part t f ac) = ac_active ac" "ac_option (on_part t f ac) = ac_option ac"
  "ac_collapsible (on_part t f ac) = ac_collapsible ac" "ac_animate (on_part t f ac) = ac_animate ac"
  "ac_prev_show (on_part t f ac) = ac_prev_show ac" "ac_running (on_part t f ac) = ac_running ac" "ac_log (on_part t f ac) = ac_log ac"
  by (simp_all add: on_part_def split: option.split)

lemma on_parts_simps [simp]:
  "ac_headers (on_parts hs f ac) = ac_headers ac" "ac_active (on_parts hs f ac) = ac_active ac" "ac_option (on_parts hs f ac) = ac_option ac"
  "ac_collapsible (on_parts hs f ac) = ac_collapsible ac" "ac_animate (on_parts hs f ac) = ac_animate ac"
  "ac_prev_show (on_parts hs f ac) = ac_prev_show ac" "ac_running (on_parts hs f ac) = ac_running ac" "ac_log (on_parts hs f ac) = ac_log ac"
  by (simp_all add: on_parts_def)

lemma log_simps [simp]:
  "ac_part (log_accordion e ac) = ac_part ac" "ac_headers (log_accordion e ac) = ac_headers ac" "ac_active (log_accordion e ac) = ac_active ac"
  "ac_option (log_accordion e ac) = ac_option ac" "ac_collapsible (log_accordion e ac) = ac_collapsible ac"
  "ac_animate (log_accordion e ac) = ac_animate ac" "ac_prev_show (log_accordion e ac) = ac_prev_show ac"
  "ac_running (log_accordion e ac) = ac_running ac" "ac_log (log_accordion e ac) = ac_log ac @ [e]"
  by (simp_all add: log_accordion_def)

section \<open>The invariant\<close>

fun begun :: "ac_event \<Rightarrow> ac_change list" where
  "begun (BeforeActivate ch ok) = (if ok then [ch] else [])"
| "begun (Activated ch) = []"

fun done_with :: "ac_event \<Rightarrow> ac_change list" where
  "done_with (BeforeActivate ch ok) = []"
| "done_with (Activated ch) = [ch]"

definition in_motion :: "accordion \<Rightarrow> nat option" where
  "in_motion ac = (case ac_running ac of None \<Rightarrow> None | Some a \<Rightarrow> an_hide a)"

definition open_part :: "accordion \<Rightarrow> nat \<Rightarrow> bool" where
  "open_part ac h \<longleftrightarrow> ac_active ac = Some h \<or> in_motion ac = Some h"

definition part_ok :: "accordion \<Rightarrow> nat \<Rightarrow> bool" where
  "part_ok ac h \<longleftrightarrow> (let p = ac_part ac h; on = (ac_active ac = Some h) in
     pn_active p = on \<and> pn_selected p = on \<and> pn_hidden p = (\<not> on) \<and> (on \<longrightarrow> pn_expanded p) \<and>
     pn_shown p = open_part ac h \<and> pn_content p = open_part ac h)"

definition ac_ok :: "accordion \<Rightarrow> bool" where
  "ac_ok ac \<longleftrightarrow> (\<forall>h. ac_active ac = Some h \<longrightarrow> h \<in> set (ac_headers ac)) \<and>
     ac_option ac = map_option (index_of (ac_headers ac)) (ac_active ac) \<and>
     (ac_prev_show ac = None \<or> ac_prev_show ac = ac_active ac) \<and>
     (\<forall>h \<in> set (ac_headers ac). part_ok ac h) \<and>
     (\<forall>a. ac_running ac = Some a \<longrightarrow> an_change a = (an_hide a, ac_active ac) \<and> an_hide a \<noteq> ac_active ac) \<and>
     concat (map begun (ac_log ac)) = concat (map done_with (ac_log ac)) @ (case ac_running ac of None \<Rightarrow> [] | Some a \<Rightarrow> [an_change a])"

lemma finish_running [simp]: "ac_running (finish_animation ac) = None"
  by (simp add: finish_animation_def toggle_complete_def split: option.split)

lemma finish_simps [simp]:
  "ac_headers (finish_animation ac) = ac_headers ac" "ac_active (finish_animation ac) = ac_active ac"
  "ac_option (finish_animation ac) = ac_option ac" "ac_collapsible (finish_animation ac) = ac_collapsible ac"
  "ac_animate (finish_animation ac) = ac_animate ac" "ac_prev_show (finish_animation ac) = ac_prev_show ac"
  by (simp_all add: finish_animation_def toggle_complete_def split: option.split)

lemma finish_keeps_ok: "ac_ok ac \<Longrightarrow> ac_ok (finish_animation ac)"
proof (cases "ac_running ac")
  case None
  then show "ac_ok ac \<Longrightarrow> ac_ok (finish_animation ac)" by (simp add: finish_animation_def)
next
  case (Some a)
  assume ok: "ac_ok ac"
  have a: "an_change a = (an_hide a, ac_active ac)" "an_hide a \<noteq> ac_active ac" using ok Some by (auto simp: ac_ok_def)
  have "part_ok (finish_animation ac) h" if "h \<in> set (ac_headers ac)" for h
  proof -
    have p: "part_ok ac h" using ok that by (simp add: ac_ok_def)
    show ?thesis
      using p a Some by (auto simp: part_ok_def finish_animation_def toggle_complete_def open_part_def in_motion_def Let_def)
  qed
  moreover have "concat (map begun (ac_log (finish_animation ac))) = concat (map done_with (ac_log (finish_animation ac)))"
    using ok Some by (simp add: ac_ok_def finish_animation_def toggle_complete_def)
  ultimately show "ac_ok (finish_animation ac)"
    using ok by (simp add: ac_ok_def)
qed

text \<open>A change that is begun: the header that was active is the one whose panel is hidden.\<close>

lemma toggle_hides: "ac_ok ac \<Longrightarrow> (if ac_prev_show ac \<noteq> None then ac_prev_show ac else ac_active ac) = ac_active ac"
  by (auto simp: ac_ok_def)

definition settled :: "accordion \<Rightarrow> nat option \<Rightarrow> accordion \<Rightarrow> bool" where
  "settled ac old ac' \<longleftrightarrow> (\<forall>h \<in> set (ac_headers ac).
     let p = ac_part ac' h; on = (old = Some h) in
     pn_active p = on \<and> pn_selected p = on \<and> pn_hidden p = (\<not> on) \<and> pn_shown p = on \<and> pn_content p = on)"

lemma finish_settled:
  assumes "ac_ok ac" "ac_part ac1 = ac_part ac" "ac_running ac1 = ac_running ac"
  shows "settled ac (ac_active ac) (finish_animation ac1)"
proof -
  have "pn_active (ac_part (finish_animation ac1) h) = (ac_active ac = Some h) \<and>
    pn_selected (ac_part (finish_animation ac1) h) = (ac_active ac = Some h) \<and>
    pn_hidden (ac_part (finish_animation ac1) h) = (ac_active ac \<noteq> Some h) \<and>
    pn_shown (ac_part (finish_animation ac1) h) = (ac_active ac = Some h) \<and>
    pn_content (ac_part (finish_animation ac1) h) = (ac_active ac = Some h)" if "h \<in> set (ac_headers ac)" for h
  proof (cases "ac_running ac")
    case None
    have "part_ok ac h" using assms(1) that by (simp add: ac_ok_def)
    then show ?thesis
      using None assms(2,3) by (simp add: part_ok_def finish_animation_def open_part_def in_motion_def Let_def)
  next
    case (Some a)
    have "part_ok ac h" "an_change a = (an_hide a, ac_active ac)" "an_hide a \<noteq> ac_active ac"
      using assms(1) that Some by (auto simp: ac_ok_def)
    then show ?thesis
      using Some assms(2,3)
      by (auto simp: part_ok_def finish_animation_def toggle_complete_def open_part_def in_motion_def Let_def)
  qed
  then show ?thesis by (simp add: settled_def Let_def)
qed

lemma finish_log:
  assumes "ac_ok ac" "ac_log ac1 = ac_log ac @ [BeforeActivate ch True]" "ac_running ac1 = ac_running ac"
  shows "concat (map begun (ac_log (finish_animation ac1))) = concat (map done_with (ac_log (finish_animation ac1))) @ [ch]"
  using assms by (auto simp: ac_ok_def finish_animation_def toggle_complete_def split: option.splits)

lemma attributes_part:
  "pn_active (ac_part (toggle_attributes sh hi ac) h) = pn_active (ac_part ac h)"
  "pn_shown (ac_part (toggle_attributes sh hi ac) h) = pn_shown (ac_part ac h)"
  "pn_content (ac_part (toggle_attributes sh hi ac) h) = pn_content (ac_part ac h)"
  "pn_hidden (ac_part (toggle_attributes sh hi ac) h) = (if sh = Some h then False else hi = Some h \<or> pn_hidden (ac_part ac h))"
  "pn_selected (ac_part (toggle_attributes sh hi ac) h) = (sh = Some h \<or> hi \<noteq> Some h \<and> pn_selected (ac_part ac h))"
  "sh = Some h \<Longrightarrow> pn_expanded (ac_part (toggle_attributes sh hi ac) h)"
  by (auto simp: toggle_attributes_def Let_def)

lemma motion_part:
  "ac_part (start_animation sh hi ch ac) h = (if sh = Some h then (ac_part ac h)\<lparr>pn_shown := True\<rparr> else ac_part ac h)"
  "pn_active (ac_part (show_now sh hi ch ac) h) = pn_active (ac_part ac h)"
  "pn_selected (ac_part (show_now sh hi ch ac) h) = pn_selected (ac_part ac h)"
  "pn_hidden (ac_part (show_now sh hi ch ac) h) = pn_hidden (ac_part ac h)"
  "pn_shown (ac_part (show_now sh hi ch ac) h) = (sh = Some h \<or> hi \<noteq> Some h \<and> pn_shown (ac_part ac h))"
  "pn_content (ac_part (show_now sh hi ch ac) h) = (fst ch \<noteq> Some h \<and> pn_content (ac_part ac h))"
  by (auto simp: start_animation_def show_now_def toggle_complete_def)

lemma change_ok:
  assumes ok: "ac_ok ac" and c: "c \<in> set (ac_headers ac)" and go: "ac_active ac \<noteq> Some c \<or> ac_collapsible ac"
  shows "ac_ok (ac_handler True c ac)"
proof -
  define same where "same = (ac_active ac = Some c)"
  define ch where "ch = (ac_active ac, if same then None else Some c)"
  define ac1 where "ac1 = (log_accordion (BeforeActivate ch True) ac)\<lparr>ac_option := (if same then None else Some (index_of (ac_headers ac) c)),
      ac_active := (if same then None else Some c)\<rparr>"
  define G where "G = finish_animation ac1"
  define hi where "hi = ac_active ac"
  have f: "ac_part ac1 = ac_part ac" "ac_running ac1 = ac_running ac" "ac_headers ac1 = ac_headers ac" "ac_active ac1 = snd ch"
    "ac_option ac1 = map_option (index_of (ac_headers ac)) (snd ch)" "ac_prev_show ac1 = ac_prev_show ac"
    "ac_log ac1 = ac_log ac @ [BeforeActivate ch True]"
    by (simp_all add: ac1_def ch_def log_accordion_def)
  have st: "settled ac hi G" unfolding G_def hi_def by (rule finish_settled [OF ok f(1,2)])
  have lg: "concat (map begun (ac_log G)) = concat (map done_with (ac_log G)) @ [ch]"
    unfolding G_def by (rule finish_log [OF ok f(7,2)])
  have g: "ac_headers G = ac_headers ac" "ac_active G = snd ch" "ac_option G = map_option (index_of (ac_headers ac)) (snd ch)" "ac_running G = None"
    by (simp_all add: G_def f)
  have ne: "snd ch \<noteq> hi" by (auto simp: ch_def same_def hi_def)
  have hd: "(if ac_prev_show ac1 \<noteq> None then ac_prev_show ac1 else fst ch) = hi"
    unfolding f ch_def fst_conv hi_def by (rule toggle_hides [OF ok])
  define T where "T = toggle_attributes (snd ch) hi
    (if ac_animate G then start_animation (snd ch) hi ch (G\<lparr>ac_prev_show := snd ch, ac_prev_hide := hi\<rparr>)
     else show_now (snd ch) hi ch (G\<lparr>ac_prev_show := snd ch, ac_prev_hide := hi\<rparr>))"
  have T: "ac_toggle ch ac1 = T" unfolding ac_toggle_def Let_def hd T_def G_def by simp
  have res: "ac_handler True c ac = on_part (snd ch) (\<lambda>p. p\<lparr>pn_active := True, pn_content := True\<rparr>) (on_part hi (\<lambda>p. p\<lparr>pn_active := False\<rparr>) T)"
    unfolding T [symmetric] ac1_def ch_def hi_def same_def using go by (cases "ac_active ac = Some c") (simp_all add: ac_handler_def Let_def)
  have tf: "ac_headers T = ac_headers ac" "ac_active T = snd ch" "ac_option T = map_option (index_of (ac_headers ac)) (snd ch)"
    "ac_prev_show T = snd ch"
    "ac_running T = (if ac_animate G then Some \<lparr>an_show = snd ch, an_hide = hi, an_change = ch\<rparr> else None)"
    "ac_log T = (if ac_animate G then ac_log G else ac_log G @ [Activated ch])"
    by (simp_all add: T_def toggle_attributes_def start_animation_def show_now_def toggle_complete_def Let_def g)
  have c2: "fst ch = hi" by (simp add: ch_def hi_def)
  have part: "part_ok (ac_handler True c ac) h" if h: "h \<in> set (ac_headers ac)" for h
  proof -
    have s: "pn_active (ac_part G h) = (hi = Some h)" "pn_selected (ac_part G h) = (hi = Some h)" "pn_hidden (ac_part G h) = (hi \<noteq> Some h)"
      "pn_shown (ac_part G h) = (hi = Some h)" "pn_content (ac_part G h) = (hi = Some h)"
      using st h by (simp_all add: settled_def Let_def)
    define sh where "sh = snd ch"
    have d: "sh = Some h \<Longrightarrow> hi \<noteq> Some h" using ne by (auto simp: sh_def)
    have tp: "pn_active (ac_part T h) = (hi = Some h)" "pn_selected (ac_part T h) = (sh = Some h)" "pn_hidden (ac_part T h) = (sh \<noteq> Some h)"
      "pn_shown (ac_part T h) = (sh = Some h \<or> ac_animate G \<and> hi = Some h)" "pn_content (ac_part T h) = (ac_animate G \<and> hi = Some h)"
      "sh = Some h \<longrightarrow> pn_expanded (ac_part T h)"
      using d by (auto simp: T_def attributes_part motion_part s c2 sh_def [symmetric])
    show ?thesis
      unfolding res part_ok_def open_part_def in_motion_def Let_def
      using d tp by (cases "sh = Some h") (auto simp: tf sh_def [symmetric])
  qed
  have c1: "\<forall>h. snd ch = Some h \<longrightarrow> h \<in> set (ac_headers ac)" using c by (simp add: ch_def)
  show ?thesis
    unfolding ac_ok_def using part c1 c2 ne lg
    by (simp add: res tf) (cases ch; auto)
qed

lemma refused_ok: "ac_ok ac \<Longrightarrow> ac_ok (log_accordion (BeforeActivate ch False) ac)"
  by (simp add: ac_ok_def part_ok_def open_part_def in_motion_def)

lemma handler_ok: "ac_ok ac \<Longrightarrow> c \<in> set (ac_headers ac) \<Longrightarrow> ac_ok (ac_handler ok c ac)"
  using change_ok [of ac c] refused_ok [of ac] by (cases ok) (auto simp: ac_handler_def Let_def)

lemma element_at_mem: "element_at hs i = Some h \<Longrightarrow> h \<in> set hs"
  by (auto simp: element_at_def Let_def split: if_splits)

lemma activate_ok: "ac_ok ac \<Longrightarrow> ac_ok (ac_activate ok v ac)"
  by (auto simp: ac_activate_def find_active_def Let_def ac_ok_def [of ac] split: option.splits intro!: handler_ok dest!: element_at_mem)

lemma part_ok_same:
  "pn_shown (ac_part ac' h) = pn_shown (ac_part ac h) \<Longrightarrow> pn_content (ac_part ac' h) = pn_content (ac_part ac h) \<Longrightarrow>
   pn_hidden (ac_part ac' h) = pn_hidden (ac_part ac h) \<Longrightarrow> pn_active (ac_part ac' h) = pn_active (ac_part ac h) \<Longrightarrow>
   pn_selected (ac_part ac' h) = pn_selected (ac_part ac h) \<Longrightarrow> pn_expanded (ac_part ac' h) = pn_expanded (ac_part ac h) \<Longrightarrow>
   ac_active ac' = ac_active ac \<Longrightarrow> ac_running ac' = ac_running ac \<Longrightarrow> part_ok ac' h = part_ok ac h"
  by (simp add: part_ok_def open_part_def in_motion_def Let_def)

lemma focus_ok: "ac_ok ac \<Longrightarrow> ac_ok (move_focus t i ac)"
proof -
  assume ok: "ac_ok ac"
  have "part_ok (move_focus t i ac) h = part_ok ac h" for h by (rule part_ok_same) (simp_all add: move_focus_def)
  then show ?thesis using ok by (simp add: ac_ok_def) (simp add: move_focus_def)
qed

lemma set_ok:
  assumes "ac_ok ac"
  shows "ac_ok (ac\<lparr>ac_animate := b\<rparr>)" "ac_ok (ac\<lparr>ac_disabled := b\<rparr>)" "ac_ok (ac\<lparr>ac_collapsible := b\<rparr>)"
  using assms by (simp_all add: ac_ok_def part_ok_def open_part_def in_motion_def Let_def)

lemma ac_run_ok: "ac_ok ac \<Longrightarrow> ac_ok (ac_run st ac)"
  by (cases st) (auto simp: ac_run_def ac_keydown_def ac_set_collapsible_def Let_def finish_keeps_ok set_ok
    intro: handler_ok activate_ok focus_ok split: ac_key.split)

lemma ac_runs_ok: "ac_ok ac \<Longrightarrow> ac_ok (ac_runs sts ac)"
  unfolding ac_runs_def by (induction sts arbitrary: ac) (simp_all add: ac_run_ok)

lemma index_nth: "distinct hs \<Longrightarrow> i < length hs \<Longrightarrow> index_of hs (hs ! i) = int i"
proof (induction hs arbitrary: i)
  case (Cons x hs)
  then show ?case by (cases i) (auto simp: Let_def)
qed simp

lemma element_at_nth: "0 \<le> i \<Longrightarrow> i < int (length hs) \<Longrightarrow> element_at hs i = Some (hs ! nat i)"
  by (simp add: element_at_def)

lemma refresh_fields:
  "ac_headers (ac_refresh_parts ac) = ac_headers ac" "ac_active (ac_refresh_parts ac) = find_active ac (ac_option ac)"
  "ac_option (ac_refresh_parts ac) = ac_option ac" "ac_prev_show (ac_refresh_parts ac) = ac_prev_show ac"
  "ac_running (ac_refresh_parts ac) = ac_running ac" "ac_log (ac_refresh_parts ac) = ac_log ac"
  by (cases "find_active ac (ac_option ac)"; simp add: ac_refresh_parts_def Let_def)+

lemma refresh_part:
  assumes "h \<in> set (ac_headers ac)"
  shows "let p = ac_part (ac_refresh_parts ac) h; on = (find_active ac (ac_option ac) = Some h) in
    pn_shown p = on \<and> pn_hidden p = (\<not> on) \<and> pn_selected p = on \<and> pn_expanded p = on \<and>
    pn_active p = (on \<or> pn_active (ac_part ac h)) \<and> pn_content p = (on \<or> pn_content (ac_part ac h))"
  using assms by (cases "find_active ac (ac_option ac)") (auto simp: ac_refresh_parts_def Let_def)

text \<open>An accordion as it is made, with a number for its active header that is one, from the start or from the end.\<close>

lemma create_ok:
  assumes "distinct hs" "\<And>i. v = Some i \<Longrightarrow> - int (length hs) \<le> i \<and> i < int (length hs)" "v = None \<Longrightarrow> \<not> coll \<Longrightarrow> hs \<noteq> []"
  shows "ac_ok (create_accordion hs v coll anim)"
proof -
  define v1 where "v1 = (if \<not> coll \<and> v = None then Some 0 else v)"
  define v2 where "v2 = (case v1 of Some i \<Rightarrow> Some (if i < 0 then i + int (length hs) else i) | None \<Rightarrow> None)"
  define a where "a = (case v2 of None \<Rightarrow> None | Some i \<Rightarrow> element_at hs i)"
  have v2: "\<And>i. v2 = Some i \<Longrightarrow> 0 \<le> i \<and> i < int (length hs)"
    using assms(2,3) by (auto simp: v2_def v1_def split: option.splits if_splits)
  have o: "v2 = map_option (index_of hs) a"
    using v2 assms(1) by (cases v2) (auto simp: a_def element_at_nth index_nth)
  have mem: "a = Some h \<Longrightarrow> h \<in> set hs" for h by (auto simp: a_def element_at_mem split: option.splits)
  define B where "B = process_panels hs
        \<lparr>ac_headers = [], ac_part = (\<lambda>_. plain_part), ac_active = None, ac_option = v2, ac_collapsible = coll, ac_animate = anim,
          ac_disabled = False, ac_prev_show = None, ac_prev_hide = None, ac_running = None, ac_log = []\<rparr>"
  have c: "create_accordion hs v coll anim = ac_refresh_parts B"
    by (simp only: create_accordion_def Let_def B_def v1_def v2_def)
  have B: "ac_headers B = hs" "find_active B (ac_option B) = a" "ac_option B = v2" "ac_prev_show B = None" "ac_running B = None" "ac_log B = []"
    by (simp_all add: B_def process_panels_def find_active_def a_def split: option.split)
  have bp: "\<not> pn_active (ac_part B h)" "\<not> pn_content (ac_part B h)" for h
    by (simp_all add: B_def process_panels_def plain_part_def)
  have "part_ok (ac_refresh_parts B) h" if "h \<in> set hs" for h
    using refresh_part [of h B] that by (simp add: B bp part_ok_def open_part_def in_motion_def refresh_fields Let_def)
  then show ?thesis unfolding ac_ok_def c refresh_fields B B(2) [unfolded B(3)] using mem o by simp
qed

text \<open>C22: Whatever is clicked, pressed and set, and whatever the page answers, when the animations have ended the
  panel of the active header is the only one that is open, the attributes say so, the option is its number, and the
  changes that were begun have been told as done, each once and in their order.\<close>

theorem accordion_settles:
  assumes "distinct hs" "\<And>i. v = Some i \<Longrightarrow> - int (length hs) \<le> i \<and> i < int (length hs)" "v = None \<Longrightarrow> \<not> coll \<Longrightarrow> hs \<noteq> []"
    and "ac = finish_animation (ac_runs sts (create_accordion hs v coll anim))"
  shows "(\<forall>h \<in> set (ac_headers ac). let p = ac_part ac h; on = (ac_active ac = Some h) in
      pn_shown p = on \<and> pn_content p = on \<and> pn_hidden p = (\<not> on) \<and> pn_selected p = on \<and> pn_active p = on) \<and>
    ac_option ac = map_option (index_of (ac_headers ac)) (ac_active ac) \<and>
    concat (map done_with (ac_log ac)) = concat (map begun (ac_log ac))"
proof -
  have ok: "ac_ok ac" unfolding assms(4) by (intro finish_keeps_ok ac_runs_ok create_ok assms(1-3))
  have r: "ac_running ac = None" by (simp add: assms(4))
  have "\<forall>h \<in> set (ac_headers ac). part_ok ac h" using ok by (simp add: ac_ok_def)
  then show ?thesis using ok r by (simp add: ac_ok_def part_ok_def open_part_def in_motion_def Let_def)
qed

definition example_accordion :: accordion where
  "example_accordion = finish_animation (ac_runs [ClickHeader True 12, ClickHeader True 11, ClickHeader False 10, SetActive True (Some (-1))]
     (create_accordion [10, 11, 12] (Some 0) False True))"

lemma accordion_settles_witness:
  "pn_shown (ac_part example_accordion 12) \<and> \<not> pn_shown (ac_part example_accordion 11) \<and> ac_active example_accordion = Some 12 \<and>
   concat (map done_with (ac_log example_accordion)) = [(Some 10, Some 12), (Some 12, Some 11), (Some 11, Some 12)]"
proof -
  have "ac_active example_accordion = Some 12" "ac_headers example_accordion = [10, 11, 12]"
    "concat (map begun (ac_log example_accordion)) = [(Some 10, Some 12), (Some 12, Some 11), (Some 11, Some 12)]"
    by code_simp+
  then show ?thesis
    using accordion_settles [OF _ _ _ example_accordion_def] by (auto simp: Let_def)
qed

section \<open>Attributes that do not follow\<close>

text \<open>A panel that is collapsed keeps its header marked as expanded.\<close>

lemma collapsed_still_expanded:
  "let ac = finish_animation (ac_run (ClickHeader True 10) (create_accordion [10, 11] (Some 0) True False))
   in ac_active ac = None \<and> \<not> pn_shown (ac_part ac 10) \<and> pn_expanded (ac_part ac 10)"
  by code_simp

text \<open>After the focus was moved by a key, a click leaves two headers in the order of tabs.\<close>

lemma two_in_tab_order:
  "let ac = ac_runs [PressKey True KeyNext (Some 10) 10, ClickHeader True 12] (create_accordion [10, 11, 12] (Some 0) False False)
   in pn_tab (ac_part ac 11) \<and> pn_tab (ac_part ac 12)"
  by code_simp

text \<open>So does opening another panel from the collapsed state.\<close>

lemma two_after_reopening:
  "let ac = ac_runs [ClickHeader True 10, ClickHeader True 11] (create_accordion [10, 11] (Some 0) True False)
   in pn_tab (ac_part ac 10) \<and> pn_tab (ac_part ac 11) \<and> ac_active ac = Some 11"
  by code_simp

text \<open>A page that refuses the opening leaves an accordion that must not be collapsed collapsed.\<close>

lemma refused_stays_collapsed:
  "let ac = ac_run (SetCollapsible False False) (create_accordion [10, 11] None True False)
   in \<not> ac_collapsible ac \<and> ac_active ac = None"
  by code_simp

end
