(* ===== verification/UI_Tabs.thy ===== *)
theory UI_Tabs
  imports JS_Prelude
begin

text \<open>
  \<open>ui.tabs\<close> (jquery-ui.js): the tab that is active at the start, the change from one tab to another with its effects, the
  keys with the activation they delay, the tabs disabled, and the options. Tabs and their panels are numbered; the
  answers of the page to \<open>beforeActivate\<close>, the ends of effects and of the delay are steps of a run. Requests for
  remote panels are only present as the mark of a tab that is being loaded.
\<close>

section \<open>The tabs disabled\<close>

datatype tabs_off = NoneOff | AllOff | SomeOff "int list"

definition off_list :: "tabs_off \<Rightarrow> int list" where
  "off_list d = (case d of SomeOff is \<Rightarrow> is | _ \<Rightarrow> [])"

text \<open>\<open>_setupDisabled\<close>: no number is \<open>false\<close>, as many numbers as tabs are \<open>true\<close>.\<close>

definition setup_off :: "nat \<Rightarrow> tabs_off \<Rightarrow> tabs_off" where
  "setup_off n d = (case d of SomeOff is \<Rightarrow> if is = [] then NoneOff else if length is = n then AllOff else d | _ \<Rightarrow> d)"

definition is_off :: "tabs_off \<Rightarrow> nat \<Rightarrow> bool" where
  "is_off d i = (d = AllOff \<or> int i \<in> set (off_list d))"

definition enable_tab :: "nat \<Rightarrow> int option \<Rightarrow> tabs_off \<Rightarrow> tabs_off" where
  "enable_tab n index d =
     (if d = NoneOff then NoneOff
      else case index of
        None \<Rightarrow> NoneOff
      | Some i \<Rightarrow> setup_off n (SomeOff (case d of SomeOff is \<Rightarrow> filter (\<lambda>j. j \<noteq> i) is | _ \<Rightarrow> filter (\<lambda>j. j \<noteq> i) (map int [0..<n]))))"

text \<open>The code sorts the numbers, as texts; their order has no use.\<close>

definition disable_tab :: "nat \<Rightarrow> int option \<Rightarrow> tabs_off \<Rightarrow> tabs_off" where
  "disable_tab n index d =
     (if d = AllOff then AllOff
      else case index of
        None \<Rightarrow> AllOff
      | Some i \<Rightarrow> if i \<in> set (off_list d) then d
          else setup_off n (SomeOff (case d of SomeOff is \<Rightarrow> i # is | _ \<Rightarrow> [i])))"

section \<open>The next tab\<close>

definition constrain_index :: "nat \<Rightarrow> int \<Rightarrow> int" where
  "constrain_index n i = (let j = (if i > int n - 1 then 0 else i) in if j < 0 then int n - 1 else j)"

text \<open>\<open>_findNextTab\<close>; the loop has no other end than a tab that is not in the list.\<close>

partial_function (option) find_next :: "nat \<Rightarrow> int list \<Rightarrow> bool \<Rightarrow> int \<Rightarrow> int option" where
  "find_next n offs forward i =
     (let j = constrain_index n i in
      if j \<in> set offs then find_next n offs forward (if forward then j + 1 else j - 1) else Some j)"

declare find_next.simps [code]

section \<open>The data\<close>

record tab_part =
  tp_shown :: bool
  tp_hidden :: bool
  tp_active :: bool
  tp_selected :: bool
  tp_expanded :: bool
  tp_tab :: bool
  tp_loading :: bool

type_synonym tab_change = "nat option \<times> nat option"

datatype tab_event = BeforeTab tab_change bool | ToldTab tab_change | FocusTab int

text \<open>A change on its way: the old panel is hidden by an effect, or the new one shown.\<close>

datatype tab_motion = HidingPanel tab_change | ShowingPanel tab_change

record tabset =
  tb_count :: nat
  tb_part :: "nat \<Rightarrow> tab_part"
  tb_active :: "nat option"
  tb_option :: "int option"
  tb_collapsible :: bool
  tb_hide :: bool
  tb_show :: bool
  tb_off :: tabs_off
  tb_running :: bool
  tb_motion :: "tab_motion option"
  tb_delayed :: "int option"
  tb_log :: "tab_event list"

definition on_tab :: "nat option \<Rightarrow> (tab_part \<Rightarrow> tab_part) \<Rightarrow> tabset \<Rightarrow> tabset" where
  "on_tab t f tb = (case t of None \<Rightarrow> tb | Some i \<Rightarrow> tb\<lparr>tb_part := (tb_part tb)(i := f (tb_part tb i))\<rparr>)"

definition log_tabs :: "tab_event \<Rightarrow> tabset \<Rightarrow> tabset" where
  "log_tabs e tb = tb\<lparr>tb_log := tb_log tb @ [e]\<rparr>"

definition tab_at :: "nat \<Rightarrow> int \<Rightarrow> nat option" where
  "tab_at n i = (let j = (if i < 0 then i + int n else i) in if 0 \<le> j \<and> j < int n then Some (nat j) else None)"

section \<open>A change\<close>

definition complete_tab :: "tab_change \<Rightarrow> tabset \<Rightarrow> tabset" where
  "complete_tab ch tb = log_tabs (ToldTab ch) (tb\<lparr>tb_running := False, tb_motion := None\<rparr>)"

definition show_tab :: "tab_change \<Rightarrow> tabset \<Rightarrow> tabset" where
  "show_tab ch tb =
     (let tb1 = on_tab (snd ch) (\<lambda>p. p\<lparr>tp_active := True\<rparr>) tb in
      if snd ch \<noteq> None \<and> tb_show tb1
      then on_tab (snd ch) (\<lambda>p. p\<lparr>tp_shown := True\<rparr>) (tb1\<lparr>tb_motion := Some (ShowingPanel ch)\<rparr>)
      else complete_tab ch (on_tab (snd ch) (\<lambda>p. p\<lparr>tp_shown := True\<rparr>) tb1))"

definition hidden_tab :: "tab_change \<Rightarrow> tabset \<Rightarrow> tabset" where
  "hidden_tab ch tb = show_tab ch (on_tab (fst ch) (\<lambda>p. p\<lparr>tp_active := False, tp_shown := False\<rparr>) tb)"

text \<open>When the tabs are opened from the collapsed state the code looks for the tabs whose \<open>attr ( "tabIndex" ) === 0\<close>: the
  attribute is a text, so there is none, and no tab leaves the tab order.\<close>

definition tab_attributes :: "tab_change \<Rightarrow> tabset \<Rightarrow> tabset" where
  "tab_attributes ch tb =
     (let tb1 = on_tab (fst ch) (\<lambda>p. p\<lparr>tp_hidden := True, tp_selected := False, tp_expanded := False\<rparr>) tb;
          tb2 = (if snd ch \<noteq> None \<and> fst ch \<noteq> None then on_tab (fst ch) (\<lambda>p. p\<lparr>tp_tab := False\<rparr>) tb1 else tb1) in
      on_tab (snd ch) (\<lambda>p. p\<lparr>tp_hidden := False, tp_selected := True, tp_expanded := True, tp_tab := True\<rparr>) tb2)"

definition tab_toggle :: "tab_change \<Rightarrow> tabset \<Rightarrow> tabset" where
  "tab_toggle ch tb =
     (let tb1 = tb\<lparr>tb_running := True\<rparr>;
          tb2 = (if fst ch \<noteq> None \<and> tb_hide tb1 then tb1\<lparr>tb_motion := Some (HidingPanel ch)\<rparr> else hidden_tab ch tb1) in
      tab_attributes ch tb2)"

text \<open>\<open>_eventHandler\<close>\<close>

definition tab_handler :: "bool \<Rightarrow> nat \<Rightarrow> tabset \<Rightarrow> tabset" where
  "tab_handler ok c tb =
     (let same = (tb_active tb = Some c); coll = (same \<and> tb_collapsible tb);
          ch = (tb_active tb, if coll then None else Some c) in
      if is_off (tb_off tb) c \<or> tp_loading (tb_part tb c) \<or> tb_running tb \<or> same \<and> \<not> tb_collapsible tb then tb
      else if \<not> ok then log_tabs (BeforeTab ch False) tb
      else tab_toggle ch ((log_tabs (BeforeTab ch True) tb)\<lparr>tb_option := (if coll then None else Some (int c)),
              tb_active := (if same then None else Some c)\<rparr>))"

definition tab_activate :: "bool \<Rightarrow> int option \<Rightarrow> tabset \<Rightarrow> tabset" where
  "tab_activate ok v tb =
     (let a = (case v of None \<Rightarrow> None | Some i \<Rightarrow> tab_at (tb_count tb) i) in
      if a = tb_active tb then tb
      else case (if a = None then tb_active tb else a) of None \<Rightarrow> tb | Some c \<Rightarrow> tab_handler ok c tb)"

section \<open>Keys\<close>

datatype tab_key = TabNext | TabPrev | TabEnd | TabHome | TabSpace | TabEnter | TabOther

text \<open>\<open>_tabKeydown\<close> on the tab that has the focus, with the control key or not. \<open>None\<close>: the search for a tab does not end.\<close>

definition focus_next :: "int \<Rightarrow> bool \<Rightarrow> tabset \<Rightarrow> (int \<times> tabset) option" where
  "focus_next i forward tb =
     (case find_next (tb_count tb) (off_list (tb_off tb)) forward i of
        None \<Rightarrow> None | Some j \<Rightarrow> Some (j, log_tabs (FocusTab j) tb))"

definition tab_keydown :: "bool \<Rightarrow> tab_key \<Rightarrow> nat \<Rightarrow> bool \<Rightarrow> tabset \<Rightarrow> tabset option" where
  "tab_keydown ok k focused ctrl tb =
     (let go = (\<lambda>i forward. case focus_next i forward (tb\<lparr>tb_delayed := None\<rparr>) of
            None \<Rightarrow> None
          | Some (j, tb1) \<Rightarrow> Some (if ctrl then tb1
              else (on_tab (tab_at (tb_count tb1) j) (\<lambda>p. p\<lparr>tp_selected := True\<rparr>)
                     (on_tab (Some focused) (\<lambda>p. p\<lparr>tp_selected := False\<rparr>) tb1))\<lparr>tb_delayed := Some j\<rparr>)) in
      case k of
        TabNext \<Rightarrow> go (int focused + 1) True
      | TabPrev \<Rightarrow> go (int focused - 1) False
      | TabEnd \<Rightarrow> go (int (tb_count tb) - 1) True
      | TabHome \<Rightarrow> go 0 True
      | TabSpace \<Rightarrow> Some (tab_activate ok (Some (int focused)) (tb\<lparr>tb_delayed := None\<rparr>))
      | TabEnter \<Rightarrow> Some (tab_activate ok (if tb_option tb = Some (int focused) then None else Some (int focused)) (tb\<lparr>tb_delayed := None\<rparr>))
      | TabOther \<Rightarrow> Some tb)"

text \<open>\<open>_handlePageNav\<close>; \<open>false\<close> counts as 0.\<close>

definition page_nav :: "bool \<Rightarrow> bool \<Rightarrow> tabset \<Rightarrow> tabset option" where
  "page_nav ok up tb =
     (let a = (case tb_option tb of Some i \<Rightarrow> i | None \<Rightarrow> 0) in
      case focus_next (if up then a - 1 else a + 1) (\<not> up) tb of None \<Rightarrow> None | Some (j, tb1) \<Rightarrow> Some (tab_activate ok (Some j) tb1))"

section \<open>Creation, options and runs\<close>

text \<open>\<open>_initialActive\<close>: the option (\<open>None\<close> is null), the tab the address names, the tab marked in the markup.\<close>

definition initial_active :: "int option option \<Rightarrow> int option \<Rightarrow> int \<Rightarrow> bool \<Rightarrow> nat \<Rightarrow> int option" where
  "initial_active v hash marked coll n =
     (let a = (case v of Some x \<Rightarrow> x
               | None \<Rightarrow> (case hash of Some i \<Rightarrow> Some i | None \<Rightarrow> if marked = -1 then (if n > 0 then Some 0 else None) else Some marked));
          b = (case a of None \<Rightarrow> None | Some i \<Rightarrow> (case tab_at n i of Some j \<Rightarrow> Some (int j) | None \<Rightarrow> if coll then None else Some 0)) in
      if \<not> coll \<and> b = None \<and> n > 0 then Some 0 else b)"

definition create_tabs :: "nat \<Rightarrow> int option \<Rightarrow> bool \<Rightarrow> bool \<Rightarrow> bool \<Rightarrow> tabs_off \<Rightarrow> tabset" where
  "create_tabs n v coll he se d =
     (let a = (case v of None \<Rightarrow> None | Some i \<Rightarrow> tab_at n i) in
      \<lparr>tb_count = n,
       tb_part = (\<lambda>i. let on = (a = Some i) in \<lparr>tp_shown = on, tp_hidden = (\<not> on), tp_active = on, tp_selected = on, tp_expanded = on,
          tp_tab = (on \<or> a = None \<and> i = 0), tp_loading = False\<rparr>),
       tb_active = a, tb_option = v, tb_collapsible = coll, tb_hide = he, tb_show = se, tb_off = setup_off n d, tb_running = False,
       tb_motion = None, tb_delayed = None, tb_log = []\<rparr>)"

definition set_tabs_collapsible :: "bool \<Rightarrow> bool \<Rightarrow> tabset \<Rightarrow> tabset" where
  "set_tabs_collapsible ok b tb =
     (let tb1 = tb\<lparr>tb_collapsible := b\<rparr> in if \<not> b \<and> tb_option tb1 = None then tab_activate ok (Some 0) tb1 else tb1)"

definition motion_ends :: "tabset \<Rightarrow> tabset" where
  "motion_ends tb =
     (case tb_motion tb of None \<Rightarrow> tb
      | Some (HidingPanel ch) \<Rightarrow> hidden_tab ch tb
      | Some (ShowingPanel ch) \<Rightarrow> complete_tab ch tb)"

datatype tab_step =
    ClickTab bool nat
  | TabKey bool tab_key nat bool
  | PageNav bool bool
  | DelayOver bool
  | MotionEnds
  | OptionActive bool "int option"
  | OptionCollapsible bool bool
  | OptionEffects bool bool
  | OptionDisabled tabs_off
  | EnableTab "int option"
  | DisableTab "int option"
  | LoadingTab nat bool

text \<open>Events of tabs are not handled while all are disabled.\<close>

definition tab_run :: "tab_step \<Rightarrow> tabset \<Rightarrow> tabset option" where
  "tab_run st tb =
     (case st of
        ClickTab ok c \<Rightarrow> Some (if tb_off tb = AllOff \<or> c \<ge> tb_count tb then tb else tab_handler ok c tb)
      | TabKey ok k f ctrl \<Rightarrow> if tb_off tb = AllOff \<or> is_off (tb_off tb) f \<or> f \<ge> tb_count tb then Some tb else tab_keydown ok k f ctrl tb
      | PageNav ok up \<Rightarrow> if tb_off tb = AllOff then Some tb else page_nav ok up tb
      | DelayOver ok \<Rightarrow> (case tb_delayed tb of None \<Rightarrow> Some tb | Some i \<Rightarrow> Some (tab_activate ok (Some i) (tb\<lparr>tb_delayed := None\<rparr>)))
      | MotionEnds \<Rightarrow> Some (motion_ends tb)
      | OptionActive ok v \<Rightarrow> Some (tab_activate ok v tb)
      | OptionCollapsible ok b \<Rightarrow> Some (set_tabs_collapsible ok b tb)
      | OptionEffects he se \<Rightarrow> Some (tb\<lparr>tb_hide := he, tb_show := se\<rparr>)
      | OptionDisabled d \<Rightarrow> Some (tb\<lparr>tb_off := setup_off (tb_count tb) d\<rparr>)
      | EnableTab i \<Rightarrow> Some (tb\<lparr>tb_off := enable_tab (tb_count tb) i (tb_off tb)\<rparr>)
      | DisableTab i \<Rightarrow> Some (tb\<lparr>tb_off := disable_tab (tb_count tb) i (tb_off tb)\<rparr>)
      | LoadingTab c b \<Rightarrow> Some (on_tab (if c < tb_count tb then Some c else None) (\<lambda>p. p\<lparr>tp_loading := b\<rparr>) tb))"

primrec tab_runs :: "tab_step list \<Rightarrow> tabset \<Rightarrow> tabset option" where
  "tab_runs [] tb = Some tb"
| "tab_runs (st # sts) tb = (case tab_run st tb of None \<Rightarrow> None | Some tb1 \<Rightarrow> tab_runs sts tb1)"

end
