(* ===== verification/UI_TabsProps.thy ===== *)
theory UI_TabsProps
  imports UI_Tabs
begin

text \<open>
  The search for the next tab ends at the nearest one that is not disabled, and does not end when there is none. Over every
  sequence of clicks, keys, delays and effects the tabs come to rest with the panel of the active tab shown.
\<close>

section \<open>The next tab\<close>

lemma constrain_range: "0 < n \<Longrightarrow> 0 \<le> constrain_index n i \<and> constrain_index n i < int n"
  by (simp add: constrain_index_def Let_def)

lemma constrain_step:
  assumes "0 \<le> c" "c < int n"
  shows "constrain_index n (c + 1) = (c + 1) mod int n" "constrain_index n (c - 1) = (c - 1) mod int n"
proof -
  show "constrain_index n (c + 1) = (c + 1) mod int n" using assms by (cases "c + 1 = int n") (simp_all add: constrain_index_def Let_def)
  have "(c - 1) mod int n = int n - 1" if "c = 0" using that assms zmod_minus1 [of "int n"] by simp
  then show "constrain_index n (c - 1) = (c - 1) mod int n" using assms by (cases "c = 0") (simp_all add: constrain_index_def Let_def)
qed

definition way :: "bool \<Rightarrow> int" where
  "way forward = (if forward then 1 else -1)"

lemma find_next_reaches:
  "0 \<le> c \<Longrightarrow> c < int n \<Longrightarrow> constrain_index n i = c \<Longrightarrow> \<forall>l < k. (c + way f * int l) mod int n \<in> set offs \<Longrightarrow>
   (c + way f * int k) mod int n \<notin> set offs \<Longrightarrow> find_next n offs f i = Some ((c + way f * int k) mod int n)"
proof (induction k arbitrary: c i)
  case 0
  then show ?case by (simp add: find_next.simps Let_def)
next
  case (Suc k)
  define c' where "c' = (c + way f) mod int n"
  have c: "c \<in> set offs" using Suc.prems(1,2,4) by (metis mod_pos_pos_trivial mult_zero_right of_nat_0 zero_less_Suc add_0_right)
  have shift: "(c' + way f * int l) mod int n = (c + way f * int (Suc l)) mod int n" for l
    by (simp add: c'_def mod_simps algebra_simps)
  have "constrain_index n (if f then c + 1 else c - 1) = c'"
    using constrain_step [OF Suc.prems(1,2)] by (simp add: c'_def way_def)
  moreover have "0 \<le> c'" "c' < int n" using Suc.prems(1,2) by (simp_all add: c'_def)
  moreover have "\<forall>l < k. (c' + way f * int l) mod int n \<in> set offs" "(c' + way f * int k) mod int n \<notin> set offs"
    using Suc.prems(4,5) unfolding shift by auto
  ultimately have "find_next n offs f (if f then c + 1 else c - 1) = Some ((c' + way f * int k) mod int n)"
    using Suc.IH by blast
  then show ?case using c Suc.prems(3) by (simp add: find_next.simps [of n offs f i] Let_def shift)
qed

text \<open>C24: When some tab is not disabled the search for the next tab returns, and finds the first one from where it starts, in its
  direction and round the ends, that is not disabled.\<close>

theorem next_tab:
  assumes "0 \<le> j" "j < int n" "j \<notin> set offs"
  shows "\<exists>k < n. let t = (\<lambda>l. (constrain_index n i + way f * int l) mod int n) in
    find_next n offs f i = Some (t k) \<and> t k \<notin> set offs \<and> (\<forall>l < k. t l \<in> set offs)"
proof -
  define c where "c = constrain_index n i"
  define t where "t l = (c + way f * int l) mod int n" for l
  have c: "0 \<le> c" "c < int n" using constrain_range [of n i] assms(1,2) by (simp_all add: c_def)
  define m where "m = nat ((way f * (j - c)) mod int n)"
  have "int m = (way f * (j - c)) mod int n" using assms(1,2) by (simp add: m_def)
  then have "t m = (c + way f * ((way f * (j - c)) mod int n)) mod int n" by (simp only: t_def)
  also have "\<dots> = (c + way f * (way f * (j - c))) mod int n"
    by (metis mod_add_right_eq mod_mult_right_eq)
  also have "c + way f * (way f * (j - c)) = j" by (simp add: way_def)
  finally have tm: "t m \<notin> set offs" using assms by simp
  define k where "k = (LEAST l. t l \<notin> set offs)"
  have k: "t k \<notin> set offs" unfolding k_def by (rule LeastI [of "\<lambda>l. t l \<notin> set offs" m, OF tm])
  have k': "\<forall>l < k. t l \<in> set offs" unfolding k_def using not_less_Least by blast
  have "k \<le> m" unfolding k_def by (rule Least_le [of "\<lambda>l. t l \<notin> set offs" m, OF tm])
  moreover have "m < n" using assms(1,2) by (simp add: m_def nat_less_iff)
  moreover have "find_next n offs f i = Some (t k)"
    using find_next_reaches [OF c _ k' [unfolded t_def] k [unfolded t_def]] by (simp add: c_def t_def)
  ultimately have "k < n" "find_next n offs f i = Some (t k)" by simp_all
  then show ?thesis using k k' unfolding t_def c_def Let_def by blast
qed

lemma next_tab_witness: "find_next 4 [0, 3] True 3 = Some 1"
proof -
  obtain k where k: "k < 4" "find_next 4 [0, 3] True 3 = Some ((3 + int k) mod 4)" "(3 + int k) mod 4 \<notin> set [0, 3]"
    "\<forall>l < k. (3 + int l) mod 4 \<in> set [0, 3]"
    using next_tab [of 1 4 "[0, 3]" 3 True] by (auto simp: Let_def constrain_index_def way_def)
  from k(1) consider "k = 0" | "k = 1" | "k = 2" | "k = 3" by linarith
  then show ?thesis
  proof cases
    case 4
    then show ?thesis using k(4) [rule_format, of 2] by simp
  qed (use k in simp_all)
qed

text \<open>When all are disabled it does not return.\<close>

lemma next_tab_endless:
  assumes "0 < n" "\<And>j. 0 \<le> j \<Longrightarrow> j < int n \<Longrightarrow> j \<in> set offs"
  shows "find_next n offs f i = None"
proof -
  have "n' = n \<longrightarrow> offs' = offs \<longrightarrow> False" if "find_next n' offs' f' i' = Some y" for n' offs' f' i' y
  proof (rule find_next.raw_induct [OF _ that])
    fix g n' offs' f' i' y
    assume IH: "\<And>n' offs' f' i' y. g n' offs' f' i' = Some y \<Longrightarrow> n' = n \<longrightarrow> offs' = offs \<longrightarrow> False"
      and y: "(let j = constrain_index n' i' in if j \<in> set offs' then g n' offs' f' (if f' then j + 1 else j - 1) else Some j) = Some y"
    have "constrain_index n i' \<in> set offs" using constrain_range [OF assms(1), of i'] assms(2) by blast
    then have "n' = n \<Longrightarrow> offs' = offs \<Longrightarrow> \<exists>i. g n offs f' i = Some y" using y by (auto simp: Let_def)
    then show "n' = n \<longrightarrow> offs' = offs \<longrightarrow> False" using IH by blast
  qed
  then show ?thesis by (cases "find_next n offs f i") blast+
qed

section \<open>Parts\<close>

lemma tab_part_simps [simp]:
  "tb_part (on_tab t f tb) h = (if t = Some h then f (tb_part tb h) else tb_part tb h)"
  by (simp add: on_tab_def split: option.split)

lemma on_tab_simps [simp]:
  "on_tab None f tb = tb" "tb_count (on_tab t f tb) = tb_count tb" "tb_active (on_tab t f tb) = tb_active tb" "tb_option (on_tab t f tb) = tb_option tb"
  "tb_hide (on_tab t f tb) = tb_hide tb" "tb_show (on_tab t f tb) = tb_show tb" "tb_running (on_tab t f tb) = tb_running tb"
  "tb_motion (on_tab t f tb) = tb_motion tb" "tb_log (on_tab t f tb) = tb_log tb"
  by (simp_all add: on_tab_def split: option.split)

lemma log_tabs_simps [simp]:
  "tb_part (log_tabs e tb) = tb_part tb" "tb_count (log_tabs e tb) = tb_count tb" "tb_active (log_tabs e tb) = tb_active tb"
  "tb_option (log_tabs e tb) = tb_option tb" "tb_hide (log_tabs e tb) = tb_hide tb" "tb_show (log_tabs e tb) = tb_show tb"
  "tb_running (log_tabs e tb) = tb_running tb" "tb_motion (log_tabs e tb) = tb_motion tb" "tb_log (log_tabs e tb) = tb_log tb @ [e]"
  by (simp_all add: log_tabs_def)

lemma show_tab_simps [simp]:
  "tb_count (show_tab ch tb) = tb_count tb" "tb_active (show_tab ch tb) = tb_active tb" "tb_option (show_tab ch tb) = tb_option tb"
  "tb_motion (show_tab ch tb) = (if snd ch \<noteq> None \<and> tb_show tb then Some (ShowingPanel ch) else None)"
  "tb_running (show_tab ch tb) = (snd ch \<noteq> None \<and> tb_show tb \<and> tb_running tb)"
  "tb_log (show_tab ch tb) = (if snd ch \<noteq> None \<and> tb_show tb then tb_log tb else tb_log tb @ [ToldTab ch])"
  "tb_part (show_tab ch tb) h = (if snd ch = Some h then (tb_part tb h)\<lparr>tp_active := True, tp_shown := True\<rparr> else tb_part tb h)"
  by (auto simp: show_tab_def complete_tab_def Let_def)

lemma hidden_tab_simps [simp]:
  "tb_count (hidden_tab ch tb) = tb_count tb" "tb_active (hidden_tab ch tb) = tb_active tb" "tb_option (hidden_tab ch tb) = tb_option tb"
  "tb_motion (hidden_tab ch tb) = (if snd ch \<noteq> None \<and> tb_show tb then Some (ShowingPanel ch) else None)"
  "tb_running (hidden_tab ch tb) = (snd ch \<noteq> None \<and> tb_show tb \<and> tb_running tb)"
  "tb_log (hidden_tab ch tb) = (if snd ch \<noteq> None \<and> tb_show tb then tb_log tb else tb_log tb @ [ToldTab ch])"
  "tp_shown (tb_part (hidden_tab ch tb) h) = (snd ch = Some h \<or> fst ch \<noteq> Some h \<and> tp_shown (tb_part tb h))"
  "tp_active (tb_part (hidden_tab ch tb) h) = (snd ch = Some h \<or> fst ch \<noteq> Some h \<and> tp_active (tb_part tb h))"
  "tp_hidden (tb_part (hidden_tab ch tb) h) = tp_hidden (tb_part tb h)"
  "tp_expanded (tb_part (hidden_tab ch tb) h) = tp_expanded (tb_part tb h)"
  "tp_tab (tb_part (hidden_tab ch tb) h) = tp_tab (tb_part tb h)"
  by (auto simp: hidden_tab_def)

lemma attributes_simps [simp]:
  "tb_count (tab_attributes ch tb) = tb_count tb" "tb_active (tab_attributes ch tb) = tb_active tb" "tb_option (tab_attributes ch tb) = tb_option tb"
  "tb_motion (tab_attributes ch tb) = tb_motion tb" "tb_running (tab_attributes ch tb) = tb_running tb" "tb_log (tab_attributes ch tb) = tb_log tb"
  "tp_shown (tb_part (tab_attributes ch tb) h) = tp_shown (tb_part tb h)"
  "tp_active (tb_part (tab_attributes ch tb) h) = tp_active (tb_part tb h)"
  "tp_hidden (tb_part (tab_attributes ch tb) h) = (snd ch \<noteq> Some h \<and> (fst ch = Some h \<or> tp_hidden (tb_part tb h)))"
  "tp_expanded (tb_part (tab_attributes ch tb) h) = (snd ch = Some h \<or> fst ch \<noteq> Some h \<and> tp_expanded (tb_part tb h))"
  "tp_tab (tb_part (tab_attributes ch tb) h) =
     (snd ch = Some h \<or> (snd ch = None \<or> fst ch \<noteq> Some h) \<and> tp_tab (tb_part tb h))"
  by (auto simp: tab_attributes_def Let_def)

section \<open>The invariant\<close>

fun tab_begun :: "tab_event \<Rightarrow> tab_change list" where
  "tab_begun (BeforeTab ch ok) = (if ok then [ch] else [])"
| "tab_begun _ = []"

fun tab_told :: "tab_event \<Rightarrow> tab_change list" where
  "tab_told (ToldTab ch) = [ch]"
| "tab_told _ = []"

definition seen_tab :: "tabset \<Rightarrow> nat option" where
  "seen_tab tb = (case tb_motion tb of Some (HidingPanel ch) \<Rightarrow> fst ch | _ \<Rightarrow> tb_active tb)"

definition motion_change :: "tabset \<Rightarrow> tab_change list" where
  "motion_change tb = (case tb_motion tb of None \<Rightarrow> [] | Some (HidingPanel ch) \<Rightarrow> [ch] | Some (ShowingPanel ch) \<Rightarrow> [ch])"

definition tabs_part_ok :: "tabset \<Rightarrow> nat \<Rightarrow> bool" where
  "tabs_part_ok tb h \<longleftrightarrow> (let p = tb_part tb h in
     tp_expanded p = (tb_active tb = Some h) \<and> tp_hidden p = (tb_active tb \<noteq> Some h) \<and>
     tp_shown p = (seen_tab tb = Some h) \<and> tp_active p = (seen_tab tb = Some h))"

text \<open>A tab in the tab order, the active one if there is one: the only one as long as no change has opened the
  tabs from the collapsed state.\<close>

definition reopened :: "tab_event list \<Rightarrow> bool" where
  "reopened l \<longleftrightarrow> (\<exists>ch \<in> set (concat (map tab_begun l)). fst ch = None)"

lemma reopened_simps [simp]:
  "reopened [] = False" "reopened (l @ l') = (reopened l \<or> reopened l')"
  "reopened (e # l) = ((\<exists>ch \<in> set (tab_begun e). fst ch = None) \<or> reopened l)"
  by (auto simp: reopened_def)

definition in_order :: "tabset \<Rightarrow> nat \<Rightarrow> bool" where
  "in_order tb i \<longleftrightarrow> i < tb_count tb \<and> tp_tab (tb_part tb i) \<and> (\<forall>j. tb_active tb = Some j \<longrightarrow> j = i) \<and>
     (\<not> reopened (tb_log tb) \<longrightarrow> (\<forall>h < tb_count tb. tp_tab (tb_part tb h) \<longrightarrow> h = i))"

definition tb_ok :: "tabset \<Rightarrow> bool" where
  "tb_ok tb \<longleftrightarrow> tb_option tb = map_option int (tb_active tb) \<and>
     (\<forall>h < tb_count tb. tabs_part_ok tb h) \<and> (\<exists>i. in_order tb i) \<and>
     tb_running tb = (tb_motion tb \<noteq> None) \<and> (\<forall>ch \<in> set (motion_change tb). snd ch = tb_active tb) \<and>
     concat (map tab_begun (tb_log tb)) = concat (map tab_told (tb_log tb)) @ motion_change tb"

lemma active_range: "tb_ok tb \<Longrightarrow> tb_active tb = Some j \<Longrightarrow> j < tb_count tb"
  by (auto simp: tb_ok_def in_order_def)

lemma toggle_part_ok:
  assumes "tabs_part_ok tb h" "tb_motion tb = None" "fst ch = tb_active tb" "snd ch \<noteq> fst ch"
    "tb1 = tb\<lparr>tb_log := l, tb_option := v, tb_active := snd ch\<rparr>"
  shows "tabs_part_ok (tab_toggle ch tb1) h"
  using assms by (cases "fst ch"; cases "snd ch") (auto simp: tabs_part_ok_def tab_toggle_def seen_tab_def Let_def)

lemma toggle_order:
  assumes "in_order tb i" "fst ch = tb_active tb" "\<And>j. snd ch = Some j \<Longrightarrow> j < tb_count tb"
    "tb1 = tb\<lparr>tb_log := tb_log tb @ [BeforeTab ch True], tb_option := v, tb_active := snd ch\<rparr>"
  shows "in_order (tab_toggle ch tb1) (case snd ch of None \<Rightarrow> i | Some j \<Rightarrow> j)"
proof -
  have l: "reopened (tb_log (tab_toggle ch tb1)) \<longleftrightarrow> reopened (tb_log tb) \<or> fst ch = None"
    by (simp add: tab_toggle_def Let_def assms(4))
  show ?thesis using assms unfolding in_order_def l by (cases "snd ch"; cases "fst ch") (simp_all add: tab_toggle_def Let_def, (metis option.sel)?)
qed

lemma tab_toggle_ok:
  assumes "tb_ok tb" "tb_motion tb = None" "fst ch = tb_active tb" "snd ch \<noteq> fst ch" "\<And>j. snd ch = Some j \<Longrightarrow> j < tb_count tb"
    "tb1 = tb\<lparr>tb_log := tb_log tb @ [BeforeTab ch True], tb_option := map_option int (snd ch), tb_active := snd ch\<rparr>"
  shows "tb_ok (tab_toggle ch tb1)"
proof -
  obtain i where i: "in_order tb i" using assms(1) by (auto simp: tb_ok_def)
  have f: "tb_count (tab_toggle ch tb1) = tb_count tb" "tb_active (tab_toggle ch tb1) = snd ch"
    "tb_option (tab_toggle ch tb1) = map_option int (snd ch)"
    by (simp_all add: tab_toggle_def Let_def assms(6))
  have part: "\<forall>h < tb_count tb. tabs_part_ok (tab_toggle ch tb1) h"
    using assms(1) toggle_part_ok [OF _ assms(2,3,4,6)] by (simp add: tb_ok_def)
  have order: "\<exists>i. in_order (tab_toggle ch tb1) i" using toggle_order [OF i assms(3,5,6)] by blast
  have log: "concat (map tab_begun (tb_log tb)) = concat (map tab_told (tb_log tb))"
    using assms(1,2) by (simp add: tb_ok_def motion_change_def)
  have "tb_running (tab_toggle ch tb1) = (tb_motion (tab_toggle ch tb1) \<noteq> None)"
    "\<forall>ch' \<in> set (motion_change (tab_toggle ch tb1)). snd ch' = snd ch"
    "concat (map tab_begun (tb_log (tab_toggle ch tb1))) = concat (map tab_told (tb_log (tab_toggle ch tb1))) @ motion_change (tab_toggle ch tb1)"
    using log by (auto simp: tab_toggle_def Let_def assms(6) motion_change_def)
  then show ?thesis using part order f by (simp add: tb_ok_def)
qed

lemmas tb_ok_defs = tb_ok_def tabs_part_ok_def in_order_def seen_tab_def motion_change_def

lemma seen_aside [simp]:
  "seen_tab (tb\<lparr>tb_off := d\<rparr>) = seen_tab tb" "seen_tab (tb\<lparr>tb_delayed := x\<rparr>) = seen_tab tb" "seen_tab (tb\<lparr>tb_collapsible := b\<rparr>) = seen_tab tb"
  "seen_tab (tb\<lparr>tb_hide := b, tb_show := b'\<rparr>) = seen_tab tb" "seen_tab (on_tab t f tb) = seen_tab tb" "seen_tab (log_tabs e tb) = seen_tab tb"
  by (simp_all add: seen_tab_def split: option.split tab_motion.split)

lemma in_order_cong:
  "tb_count tb1 = tb_count tb \<Longrightarrow> tb_active tb1 = tb_active tb \<Longrightarrow> (\<And>h. tp_tab (tb_part tb1 h) = tp_tab (tb_part tb h)) \<Longrightarrow>
    reopened (tb_log tb1) = reopened (tb_log tb) \<Longrightarrow> in_order tb1 i = in_order tb i"
  by (simp add: in_order_def)

lemma in_order_aside [simp]:
  "in_order (tb\<lparr>tb_off := d\<rparr>) i = in_order tb i" "in_order (tb\<lparr>tb_delayed := x\<rparr>) i = in_order tb i"
  "in_order (tb\<lparr>tb_collapsible := b\<rparr>) i = in_order tb i" "in_order (tb\<lparr>tb_hide := b, tb_show := b'\<rparr>) i = in_order tb i"
  "in_order (on_tab t (\<lambda>p. p\<lparr>tp_loading := b\<rparr>) tb) i = in_order tb i" "in_order (on_tab t (\<lambda>p. p\<lparr>tp_selected := b\<rparr>) tb) i = in_order tb i"
  "in_order (log_tabs (FocusTab j) tb) i = in_order tb i" "in_order (log_tabs (BeforeTab ch False) tb) i = in_order tb i"
  by (rule in_order_cong; simp)+

lemma aside_ok [simp]:
  "tb_ok (tb\<lparr>tb_off := d\<rparr>) = tb_ok tb" "tb_ok (tb\<lparr>tb_delayed := x\<rparr>) = tb_ok tb" "tb_ok (tb\<lparr>tb_collapsible := b\<rparr>) = tb_ok tb"
  "tb_ok (tb\<lparr>tb_hide := b, tb_show := b'\<rparr>) = tb_ok tb"
  "tb_ok (on_tab t (\<lambda>p. p\<lparr>tp_loading := b\<rparr>) tb) = tb_ok tb" "tb_ok (on_tab t (\<lambda>p. p\<lparr>tp_selected := b\<rparr>) tb) = tb_ok tb"
  "tb_ok (log_tabs (FocusTab j) tb) = tb_ok tb" "tb_ok (log_tabs (BeforeTab ch False) tb) = tb_ok tb"
  by (simp_all add: tb_ok_def tabs_part_ok_def motion_change_def Let_def cong: if_cong)

lemma tab_handler_ok:
  assumes "tb_ok tb" "c < tb_count tb"
  shows "tb_ok (tab_handler ok c tb)"
proof -
  define ch where "ch = (tb_active tb, if tb_active tb = Some c then None else Some c)"
  have "tb_ok (tab_toggle ch (tb\<lparr>tb_log := tb_log tb @ [BeforeTab ch True], tb_option := map_option int (snd ch), tb_active := snd ch\<rparr>))"
    if "\<not> tb_running tb"
    using that assms by (intro tab_toggle_ok) (auto simp: tb_ok_def ch_def motion_change_def split: if_splits)
  moreover have "tab_handler ok c tb \<in> {tb, log_tabs (BeforeTab ch False) tb,
      tab_toggle ch (tb\<lparr>tb_log := tb_log tb @ [BeforeTab ch True], tb_option := map_option int (snd ch), tb_active := snd ch\<rparr>)}"
    "tb_running tb \<Longrightarrow> tab_handler ok c tb = tb"
    by (auto simp: tab_handler_def ch_def log_tabs_def Let_def)
  ultimately show ?thesis using assms(1) by (cases "tb_running tb") auto
qed

lemma tab_at_range: "tab_at n i = Some j \<Longrightarrow> j < n"
  by (auto simp: tab_at_def Let_def split: if_splits)

lemma tab_activate_ok: "tb_ok tb \<Longrightarrow> tb_ok (tab_activate ok v tb)"
  by (auto simp: tab_activate_def Let_def dest: tab_at_range active_range intro!: tab_handler_ok split: option.splits)

lemma motion_ends_ok:
  assumes "tb_ok tb"
  shows "tb_ok (motion_ends tb)"
proof (cases "tb_motion tb")
  case None
  then show ?thesis using assms by (simp add: motion_ends_def)
next
  case (Some m)
  show ?thesis
  proof (cases m)
    case (HidingPanel ch)
    then have "snd ch = tb_active tb" using assms Some by (simp add: tb_ok_defs)
    then show ?thesis using assms Some HidingPanel by (auto simp: motion_ends_def tb_ok_defs Let_def)
  next
    case (ShowingPanel ch)
    then show ?thesis using assms Some by (auto simp: motion_ends_def complete_tab_def tb_ok_defs Let_def)
  qed
qed

lemma tab_keydown_ok: "tb_ok tb \<Longrightarrow> tab_keydown ok k f ctrl tb = Some tb' \<Longrightarrow> tb_ok tb'"
  by (cases k) (auto simp: tab_keydown_def focus_next_def Let_def intro!: tab_activate_ok split: option.splits if_splits)

lemma tab_run_ok: "tb_ok tb \<Longrightarrow> tab_run st tb = Some tb' \<Longrightarrow> tb_ok tb'"
  by (cases st)
    (auto simp: tab_run_def page_nav_def focus_next_def set_tabs_collapsible_def Let_def
       intro: tab_handler_ok tab_activate_ok motion_ends_ok tab_keydown_ok split: option.splits if_splits)

lemma tab_runs_ok: "tb_ok tb \<Longrightarrow> tab_runs sts tb = Some tb' \<Longrightarrow> tb_ok tb'"
  by (induction sts arbitrary: tb) (auto intro: tab_run_ok split: option.splits)

lemma initial_range: "0 < n \<Longrightarrow> initial_active v hash marked coll n = Some i \<Longrightarrow> 0 \<le> i \<and> i < int n"
  by (auto simp: initial_active_def Let_def tab_at_def split: option.splits if_splits)

lemma create_tabs_ok:
  assumes "0 < n"
  shows "tb_ok (create_tabs n (initial_active v hash marked coll n) coll he se d)"
proof (cases "initial_active v hash marked coll n")
  case None
  then show ?thesis using assms by (auto simp: create_tabs_def tb_ok_defs Let_def intro!: exI [of _ 0])
next
  case (Some i)
  then obtain j where "j < n" "i = int j" using initial_range [OF assms] by (metis nat_less_iff nat_0_le)
  then show ?thesis using Some by (auto simp: create_tabs_def tb_ok_defs tab_at_def Let_def intro!: exI [of _ j])
qed

text \<open>C23: Over every sequence of clicks, keys, delays, options and ends of effects, when the effects that are
  left have ended the panel of the active tab is the only one shown, the marks and the options follow the active tab, and each change that was begun
  has been told once. The active tab can be reached with the tab key, when there is none some tab can, and it is
  the only one as long as no change has opened the tabs from the collapsed state.\<close>

theorem tabs_settle:
  assumes "0 < n" "tab_runs sts (create_tabs n (initial_active v hash marked coll n) coll he se d) = Some tb"
  shows "let r = motion_ends (motion_ends tb) in
    \<not> tb_running r \<and> tb_active r = tb_active tb \<and> tb_option r = map_option int (tb_active r) \<and>
    (\<forall>i < tb_count r. let p = tb_part r i; on = (tb_active r = Some i) in
       tp_shown p = on \<and> tp_hidden p = (\<not> on) \<and> tp_active p = on \<and> tp_expanded p = on) \<and>
    (\<exists>i < tb_count r. tp_tab (tb_part r i) \<and> (\<forall>j. tb_active r = Some j \<longrightarrow> j = i) \<and>
       (\<not> reopened (tb_log r) \<longrightarrow> (\<forall>h < tb_count r. tp_tab (tb_part r h) \<longrightarrow> h = i))) \<and>
    concat (map tab_begun (tb_log r)) = concat (map tab_told (tb_log r))"
proof -
  define r where "r = motion_ends (motion_ends tb)"
  have ok: "tb_ok r" using tab_runs_ok [OF create_tabs_ok [OF assms(1)] assms(2)] by (simp add: r_def motion_ends_ok)
  have m: "tb_motion r = None" "tb_active r = tb_active tb"
    by (auto simp: r_def motion_ends_def complete_tab_def split: option.splits tab_motion.splits)
  obtain i where "in_order r i" using ok by (auto simp: tb_ok_def)
  then have "\<exists>i < tb_count r. tp_tab (tb_part r i) \<and> (\<forall>j. tb_active r = Some j \<longrightarrow> j = i) \<and>
       (\<not> reopened (tb_log r) \<longrightarrow> (\<forall>h < tb_count r. tp_tab (tb_part r h) \<longrightarrow> h = i))" unfolding in_order_def by blast
  then show ?thesis using ok m unfolding r_def [symmetric] by (simp add: tb_ok_def tabs_part_ok_def seen_tab_def motion_change_def Let_def)
qed

definition three_tabs :: tabset where
  "three_tabs = create_tabs 3 (initial_active None None (-1) False 3) False True True NoneOff"

lemma tabs_settle_witness:
  "\<exists>tb. tab_runs [ClickTab True 1, MotionEnds] three_tabs = Some tb \<and> tb_running tb \<and> \<not> tb_running (motion_ends (motion_ends tb)) \<and>
    (\<exists>!i. i < 3 \<and> tp_tab (tb_part (motion_ends (motion_ends tb)) i))"
proof -
  have "case tab_runs [ClickTab True 1, MotionEnds] three_tabs of None \<Rightarrow> False
    | Some tb \<Rightarrow> tb_running tb \<and> tb_count (motion_ends (motion_ends tb)) = 3 \<and> \<not> reopened (tb_log (motion_ends (motion_ends tb)))" by code_simp
  then obtain tb where tb: "tab_runs [ClickTab True 1, MotionEnds] three_tabs = Some tb" "tb_running tb"
    "tb_count (motion_ends (motion_ends tb)) = 3" "\<not> reopened (tb_log (motion_ends (motion_ends tb)))"
    by (auto split: option.splits)
  have t: "tab_runs [ClickTab True 1, MotionEnds] (create_tabs 3 (initial_active None None (-1) False 3) False True True NoneOff) = Some tb"
    using tb(1) by (simp add: three_tabs_def)
  note r = tabs_settle [OF _ t, unfolded Let_def tb(3)]
  have "\<exists>i < 3. tp_tab (tb_part (motion_ends (motion_ends tb)) i) \<and> (\<forall>h < 3. tp_tab (tb_part (motion_ends (motion_ends tb)) h) \<longrightarrow> h = i)"
    using r tb(4) by (auto simp del: ex_simps)
  then have "\<exists>!i. i < 3 \<and> tp_tab (tb_part (motion_ends (motion_ends tb)) i)" by blast
  moreover have "\<not> tb_running (motion_ends (motion_ends tb))" using r by simp
  ultimately show ?thesis using tb(1,2) by blast
qed

section \<open>What the code does besides\<close>

text \<open>An arrow key marks a tab as selected, and a second one with the control key drops the activation that was on its way: the mark stays on
  a tab that is not active, beside the one of the active tab lost.\<close>

lemma selected_not_active:
  "case tab_runs [TabKey True TabNext 0 False, TabKey True TabNext 1 True, DelayOver True, MotionEnds, MotionEnds] three_tabs of
     None \<Rightarrow> False
   | Some tb \<Rightarrow> tb_active tb = Some 0 \<and> tp_selected (tb_part tb 1) \<and> \<not> tp_selected (tb_part tb 0)"
  by code_simp

text \<open>Tabs that were collapsed and opened at another tab have two tabs in the tab order.\<close>

lemma two_tabs_in_order:
  "case tab_runs [ClickTab True 0, ClickTab True 1] (create_tabs 3 (Some 0) True False False NoneOff) of None \<Rightarrow> False
   | Some tb \<Rightarrow> tp_tab (tb_part tb 0) \<and> tp_tab (tb_part tb 1) \<and> tb_active tb = Some 1"
  by code_simp

text \<open>Two tabs, both disabled, in a list that is longer than the tabs: a page key does not return.\<close>

lemma page_key_endless: "tab_run (PageNav True False) (create_tabs 2 (Some 0) False False False (SomeOff [0, 1, 7])) = None"
proof -
  have "j \<in> set [0, 1, 7]" if "0 \<le> j" "j < int 2" for j :: int using that by auto
  then have "find_next 2 [0, 1, 7] True i = None" for i by (intro next_tab_endless) simp_all
  then show ?thesis by (simp add: tab_run_def page_nav_def create_tabs_def setup_off_def focus_next_def off_list_def Let_def)
qed

end
