(* ===== verification/BS_Transition.thy ===== *)
theory BS_Transition
  imports JS_Prelude "HOL-Library.Multiset"
begin

text \<open>
  The end of a CSS transition (bootstrap.js, transition.js): handlers bound with
  \<open>one ('bsTransitionEnd', h)\<close>, the browser's event, and \<open>emulateTransitionEnd\<close>, which triggers
  the event after a delay unless it has happened. Every animated widget keeps such a record for each
  element it animates; a handler is a value the widget interprets.
\<close>

section \<open>Support\<close>

text \<open>\<open>transitionEnd\<close>: the first style property that the browser knows names the event.\<close>

definition transition_names :: "(string \<times> string) list" where
  "transition_names =
     [(''WebkitTransition'', ''webkitTransitionEnd''), (''MozTransition'', ''transitionend''),
      (''OTransition'', ''oTransitionEnd otransitionend''), (''transition'', ''transitionend'')]"

definition transitionEnd :: "(string \<Rightarrow> bool) \<Rightarrow> string option" where
  "transitionEnd known = map_option snd (find (\<lambda>(n, ev). known n) transition_names)"

section \<open>Handlers and timers\<close>

datatype 'h bound = Do 'h | Mark nat

record 'h trans =
  bound :: "'h bound list"
  called :: "nat set"
  timers :: "nat list"
  next_id :: nat

definition no_trans :: "'h trans" where
  "no_trans = \<lparr>bound = [], called = {}, timers = [], next_id = 0\<rparr>"

definition one :: "'h \<Rightarrow> 'h trans \<Rightarrow> 'h trans" where
  "one h T = T\<lparr>bound := bound T @ [Do h]\<rparr>"

text \<open>\<open>emulateTransitionEnd\<close>: a flag set by the event, and a timer that triggers the event while the
  flag is not set.\<close>

definition emulate :: "'h trans \<Rightarrow> 'h trans" where
  "emulate T = T\<lparr>bound := bound T @ [Mark (next_id T)], timers := timers T @ [next_id T],
     next_id := next_id T + 1\<rparr>"

definition marks :: "'h bound list \<Rightarrow> nat set" where
  "marks bs = {k. Mark k \<in> set bs}"

lemma marks_simps [simp]: "marks [] = {}" "marks (Do h # bs) = marks bs" "marks (Mark k # bs) = insert k (marks bs)"
  "marks (as @ bs) = marks as \<union> marks bs"
  by (auto simp: marks_def)

lemma marks_code [code]:
  "marks bs = set (List.map_filter (\<lambda>b. case b of Mark k \<Rightarrow> Some k | Do h \<Rightarrow> None) bs)"
  by (auto simp: marks_def map_filter_def image_iff split: bound.splits intro: bexI [rotated])

definition dos :: "'h bound list \<Rightarrow> 'h list" where
  "dos bs = List.map_filter (\<lambda>b. case b of Do h \<Rightarrow> Some h | Mark k \<Rightarrow> None) bs"

lemma dos_simps [simp]: "dos [] = []" "dos (Do h # bs) = h # dos bs" "dos (Mark k # bs) = dos bs"
  "dos (as @ bs) = dos as @ dos bs"
  by (simp_all add: dos_def map_filter_def)

text \<open>The event: all the handlers bound run, in order, each for the last time.\<close>

definition fire :: "'h trans \<Rightarrow> 'h trans \<times> 'h list" where
  "fire T = (T\<lparr>bound := [], called := called T \<union> marks (bound T)\<rparr>, dos (bound T))"

definition timeout :: "nat \<Rightarrow> 'h trans \<Rightarrow> 'h trans \<times> 'h list" where
  "timeout k T =
     (if k \<notin> set (timers T) then (T, [])
      else (let T' = T\<lparr>timers := remove1 k (timers T)\<rparr> in if k \<in> called T then (T', []) else fire T'))"

section \<open>Runs\<close>

datatype tstep = End | Timeout nat

definition tstep :: "tstep \<Rightarrow> 'h trans \<Rightarrow> 'h trans \<times> 'h list" where
  "tstep s T = (case s of End \<Rightarrow> fire T | Timeout k \<Rightarrow> timeout k T)"

fun truns :: "tstep list \<Rightarrow> 'h trans \<Rightarrow> 'h trans \<times> 'h list" where
  "truns [] T = (T, [])"
| "truns (s # ss) T = (let (T1, hs) = tstep s T; (T2, hs') = truns ss T1 in (T2, hs @ hs'))"

text \<open>The identifiers given out are the only ones in use; each open mark belongs to a timer or has been called.\<close>

definition trans_ok :: "'h trans \<Rightarrow> bool" where
  "trans_ok T \<longleftrightarrow> (\<forall>k \<in> called T \<union> set (timers T) \<union> marks (bound T). k < next_id T) \<and>
     marks (bound T) \<inter> called T = {} \<and> distinct (timers T)"

named_theorems trans_simps "the effect of the transition operations on their fields"

lemma trans_ok_no_trans [simp]: "trans_ok no_trans"
  by (simp add: trans_ok_def no_trans_def)

lemma trans_ok_one [simp]: "trans_ok (one h T) = trans_ok T"
  by (simp add: trans_ok_def one_def)

lemma trans_ok_emulate [simp]: "trans_ok T \<Longrightarrow> trans_ok (emulate T)"
proof -
  assume ok: "trans_ok T"
  have "next_id T \<notin> called T" "next_id T \<notin> set (timers T)"
    using ok by (auto simp: trans_ok_def dest: bspec [of _ _ "next_id T"])
  with ok show ?thesis by (auto simp: trans_ok_def emulate_def less_Suc_eq)
qed

lemma trans_ok_fire: "trans_ok T \<Longrightarrow> trans_ok (fst (fire T))"
  by (auto simp: trans_ok_def fire_def)

lemma trans_ok_timeout: "trans_ok T \<Longrightarrow> trans_ok (fst (timeout k T))"
proof -
  assume ok: "trans_ok T"
  then have "trans_ok (T\<lparr>timers := remove1 k (timers T)\<rparr>)"
    by (auto simp: trans_ok_def dest: notin_set_remove1)
  then show ?thesis using ok trans_ok_fire by (auto simp: timeout_def Let_def)
qed

lemma trans_ok_tstep: "trans_ok T \<Longrightarrow> trans_ok (fst (tstep s T))"
  by (cases s) (simp_all add: tstep_def trans_ok_fire trans_ok_timeout)

text \<open>What is bound runs when the flag's timer expires, or earlier, and never twice: the handlers that
  have run and those still bound together stay the same.\<close>

lemma tstep_conserves: "mset (snd (tstep s T)) + mset (dos (bound (fst (tstep s T)))) = mset (dos (bound T))"
  by (cases s) (auto simp: tstep_def fire_def timeout_def Let_def)

lemma tstep_all_or_none:
  obtains "snd (tstep s T) = []" "dos (bound (fst (tstep s T))) = dos (bound T)"
  | "snd (tstep s T) = dos (bound T)" "dos (bound (fst (tstep s T))) = []"
proof -
  have "snd (tstep s T) = [] \<and> dos (bound (fst (tstep s T))) = dos (bound T) \<or>
      snd (tstep s T) = dos (bound T) \<and> dos (bound (fst (tstep s T))) = []"
    by (cases s) (auto simp: tstep_def fire_def timeout_def Let_def)
  then show thesis using that by blast
qed

lemma tstep_End [simp]: "snd (tstep End T) = dos (bound T)" "dos (bound (fst (tstep End T))) = []"
  by (simp_all add: tstep_def fire_def)

lemma dos_start [simp]: "dos (bound (emulate (one h T))) = dos (bound T) @ [h]"
  by (simp add: one_def emulate_def)

lemma truns_conserves: "mset (snd (truns ss T)) + mset (dos (bound (fst (truns ss T)))) = mset (dos (bound T))"
proof (induction ss arbitrary: T)
  case (Cons s ss)
  obtain T1 hs where 1: "tstep s T = (T1, hs)" by (cases "tstep s T")
  obtain T2 hs' where 2: "truns ss T1 = (T2, hs')" by (cases "truns ss T1")
  show ?case using Cons [of T1] tstep_conserves [of s T] 1 2 by (simp add: add.assoc)
qed simp

text \<open>While the flag \<open>k\<close> is not set, its mark and its timer are there; once either fires, nothing is bound.\<close>

definition waiting :: "nat \<Rightarrow> 'h trans \<Rightarrow> bool" where
  "waiting k T \<longleftrightarrow> k \<notin> called T \<longrightarrow> k \<in> set (timers T)"

lemma fire_empty: "bound (fst (fire T)) = []"
  by (simp add: fire_def)

lemma bound_stays_empty: "bound T = [] \<Longrightarrow> bound (fst (tstep s T)) = []"
  by (cases s) (auto simp: tstep_def fire_def timeout_def Let_def)

lemma truns_stays_empty: "bound T = [] \<Longrightarrow> bound (fst (truns ss T)) = []"
proof (induction ss arbitrary: T)
  case (Cons s ss)
  obtain T1 hs where 1: "tstep s T = (T1, hs)" by (cases "tstep s T")
  have "bound T1 = []" using bound_stays_empty [OF Cons.prems, of s] 1 by simp
  from Cons.IH [OF this] 1 show ?case by (cases "truns ss T1") simp
qed simp

lemma waiting_tstep:
  assumes "k \<in> set (timers T)" "k \<notin> called T" "distinct (timers T)" "s \<noteq> Timeout k"
  shows "bound (fst (tstep s T)) = [] \<or>
    k \<in> set (timers (fst (tstep s T))) \<and> k \<notin> called (fst (tstep s T)) \<and> distinct (timers (fst (tstep s T)))"
  using assms by (cases s) (auto simp: tstep_def fire_def timeout_def Let_def)

lemma timeout_empties:
  assumes "k \<in> set (timers T)" "k \<notin> called T" "distinct (timers T)" "Timeout k \<in> set ss"
  shows "bound (fst (truns ss T)) = []"
  using assms
proof (induction ss arbitrary: T)
  case (Cons s ss)
  obtain T1 hs where 1: "tstep s T = (T1, hs)" by (cases "tstep s T")
  have "bound (fst (truns ss T1)) = []"
  proof (cases "s = Timeout k")
    case True
    then have "bound T1 = []" using 1 Cons.prems by (auto simp: tstep_def timeout_def fire_def)
    then show ?thesis by (rule truns_stays_empty)
  next
    case False
    then show ?thesis
      using waiting_tstep [OF Cons.prems(1-3) False] 1 Cons.IH [of T1] Cons.prems(4) truns_stays_empty [of T1 ss]
      by auto
  qed
  then show ?case using 1 by (cases "truns ss T1") simp
qed simp

text \<open>C25: A handler bound for the end of a transition runs exactly once, whichever way the browser's
  events and the timers are interleaved, as soon as the timer of \<open>emulateTransitionEnd\<close> has expired.\<close>

theorem transition_end_once:
  assumes "trans_ok T" "dos (bound T) = []" "Timeout (next_id T) \<in> set ss"
  shows "snd (truns ss (emulate (one h T))) = [h]"
proof -
  define T' where "T' = emulate (one h T)"
  have b: "dos (bound T') = [h]" using assms(2) by (simp add: T'_def one_def emulate_def)
  have "next_id T \<in> set (timers T')" "next_id T \<notin> called T'" "distinct (timers T')"
    using assms(1) by (auto simp: T'_def one_def emulate_def trans_ok_def)
  from timeout_empties [OF this assms(3)] have "mset (snd (truns ss T')) = {#h#}"
    using truns_conserves [of ss T'] b by simp
  then show ?thesis by (simp add: T'_def)
qed

theorem transition_end_once_witness:
  "snd (truns [Timeout 3, End, Timeout 0, End] (emulate (one ''h'' no_trans))) = [''h'']"
  using transition_end_once [of no_trans "[Timeout 3, End, Timeout 0, End]" "''h''"]
  by (simp add: no_trans_def trans_ok_def)

section \<open>The interface the widgets use\<close>

text \<open>An animated change of an element: \<open>begin\<close> binds the handler that finishes it; when the transition
  is not supported the change is finished at once. What the clients rely on: nothing is left bound
  by a finished change, and the first event runs exactly what was bound.\<close>

locale transition_end =
  fixes bind_end :: "'h \<Rightarrow> 's \<Rightarrow> 's"
    and happen :: "'s \<Rightarrow> 's \<times> 'h list"
    and pending :: "'s \<Rightarrow> 'h list"
  assumes bind_pending: "pending (bind_end h s) = pending s @ [h]"
    and happen_runs: "snd (happen s) = pending s"
    and happen_clears: "pending (fst (happen s)) = []"

context transition_end
begin

lemma bind_then_happen:
  assumes "pending s = []"
  shows "snd (happen (bind_end h s)) = [h]" "pending (fst (happen (bind_end h s))) = []"
    "snd (happen (fst (happen (bind_end h s)))) = []"
  using assms by (simp_all add: bind_pending happen_runs happen_clears)

end

interpretation bs_transition: transition_end "\<lambda>h T. emulate (one h T)" fire "\<lambda>T. dos (bound T)"
  by unfold_locales (simp_all add: one_def emulate_def fire_def)

end
