(* ===== verification/BS_Carousel.thy ===== *)
theory BS_Carousel
  imports BS_Transition
begin

text \<open>
  The carousel (bootstrap.js, carousel.js): which item is shown, the classes that animate the change,
  the timer that advances it, and the requests queued while it slides. An item is the record of its
  classes. Whether a \<open>slide\<close> event is prevented is a parameter of the operations. A carousel without
  an active item fails on the missing element and is an exception here.
\<close>

section \<open>State\<close>

datatype slide_type = Next | Prev

record item =
  it_active :: bool
  it_next :: bool
  it_prev :: bool
  it_left :: bool
  it_right :: bool

datatype finish = Finish "nat list" nat slide_type

datatype car_event = Slide nat slide_type | Slid nat slide_type

record carousel =
  items :: "item list"
  indicators :: "bool list option"
  paused :: bool
  sliding :: bool
  interval :: bool
  o_interval :: int
  o_wrap :: bool
  o_keyboard :: bool
  slide_class :: bool
  support :: bool
  ends :: "finish trans"
  slid_due :: "(nat \<times> slide_type) list"
  queued :: "int list"
  car_events :: "car_event list"

definition active_items :: "carousel \<Rightarrow> nat list" where
  "active_items c = [i \<leftarrow> [0..<length (items c)]. it_active (items c ! i)]"

definition modify :: "nat \<Rightarrow> (item \<Rightarrow> item) \<Rightarrow> item list \<Rightarrow> item list" where
  "modify i f xs = (if i < length xs then xs[i := f (xs ! i)] else xs)"

definition modify_all :: "nat list \<Rightarrow> (item \<Rightarrow> item) \<Rightarrow> item list \<Rightarrow> item list" where
  "modify_all is f xs = foldl (\<lambda>ys i. modify i f ys) xs is"

text \<open>The classes \<open>next\<close> or \<open>prev\<close>, and \<open>left\<close> or \<open>right\<close>, of a slide.\<close>

definition set_type :: "slide_type \<Rightarrow> bool \<Rightarrow> item \<Rightarrow> item" where
  "set_type t b it = (case t of Next \<Rightarrow> it\<lparr>it_next := b\<rparr> | Prev \<Rightarrow> it\<lparr>it_prev := b\<rparr>)"

definition set_direction :: "slide_type \<Rightarrow> bool \<Rightarrow> item \<Rightarrow> item" where
  "set_direction t b it = (case t of Next \<Rightarrow> it\<lparr>it_left := b\<rparr> | Prev \<Rightarrow> it\<lparr>it_right := b\<rparr>)"

section \<open>Cycling\<close>

text \<open>\<open>cycle (e)\<close>: \<open>given\<close> tells that it is called with an event.\<close>

definition cycle :: "bool \<Rightarrow> carousel \<Rightarrow> carousel" where
  "cycle given c =
     (let p = (given \<and> paused c)
      in c\<lparr>paused := p, interval := (o_interval c \<noteq> 0 \<and> \<not> p)\<rparr>)"

text \<open>\<open>pause\<close> triggers the transition event on the carousel itself, where nothing waits for it: the
  handlers are bound to the items.\<close>

definition pause :: "bool \<Rightarrow> carousel \<Rightarrow> carousel" where
  "pause given c =
     (let c1 = c\<lparr>paused := (\<not> given \<or> paused c)\<rparr>;
          c2 = (if (\<exists>it \<in> set (items c). it_next it \<or> it_prev it) \<and> support c then cycle True c1 else c1)
      in c2\<lparr>interval := False\<rparr>)"

section \<open>Choosing the item\<close>

text \<open>\<open>eq (i)\<close> counts from the end for a negative index; the remainder of the language is negative for one.\<close>

definition item_for_direction :: "carousel \<Rightarrow> slide_type \<Rightarrow> nat \<Rightarrow> nat" where
  "item_for_direction c t active =
     (let n = length (items c);
          willWrap = (t = Prev \<and> active = 0 \<or> t = Next \<and> active = n - 1)
      in if willWrap \<and> \<not> o_wrap c then active
         else
           (let i = js_mod (int active + (if t = Prev then -1 else 1)) (int n)
            in nat (if i < 0 then i + int n else i)))"

section \<open>Sliding\<close>

definition mark_indicator :: "nat \<Rightarrow> carousel \<Rightarrow> carousel" where
  "mark_indicator i c =
     c\<lparr>indicators := map_option (\<lambda>bs. (map (\<lambda>b. False) bs)[i := True]) (indicators c)\<rparr>"

definition finish_slide :: "finish \<Rightarrow> carousel \<Rightarrow> carousel" where
  "finish_slide f c =
     (case f of Finish acts nxt t \<Rightarrow>
        c\<lparr>items := modify_all acts (\<lambda>it. set_direction t False (it\<lparr>it_active := False\<rparr>))
             (modify nxt (\<lambda>it. (set_direction t False (set_type t False it))\<lparr>it_active := True\<rparr>) (items c)),
          sliding := False, slid_due := slid_due c @ [(nxt, t)]\<rparr>)"

text \<open>Up to the marking of the indicator; and the change of the classes, animated where transitions are
  supported. Without them nothing is ever queued, as a slide is finished at once.\<close>

definition begin_slide :: "nat \<Rightarrow> carousel \<Rightarrow> carousel" where
  "begin_slide x c =
     mark_indicator x (if interval c then pause False (c\<lparr>sliding := True\<rparr>) else c\<lparr>sliding := True\<rparr>)"

definition change_classes :: "nat list \<Rightarrow> nat \<Rightarrow> slide_type \<Rightarrow> carousel \<Rightarrow> carousel" where
  "change_classes acts x t c =
     (if support c \<and> slide_class c
      then c\<lparr>items := modify x (set_direction t True)
                (modify_all acts (set_direction t True) (modify x (set_type t True) (items c))),
             ends := emulate (one (Finish acts x t) (ends c))\<rparr>
      else c\<lparr>items := modify x (\<lambda>it. it\<lparr>it_active := True\<rparr>)
                (modify_all acts (\<lambda>it. it\<lparr>it_active := False\<rparr>) (items c)),
             sliding := False, car_events := car_events c @ [Slid x t]\<rparr>)"

definition slide :: "(nat \<Rightarrow> bool) \<Rightarrow> slide_type \<Rightarrow> nat option \<Rightarrow> carousel \<Rightarrow> carousel js" where
  "slide prevented t target c =
     (case active_items c of
        [] \<Rightarrow> Inl (Throw ''TypeError'')
      | a # as \<Rightarrow>
          (let x = (case target of Some i \<Rightarrow> i | None \<Rightarrow> item_for_direction c t a);
               c1 = c\<lparr>car_events := car_events c @ [Slide x t]\<rparr>
           in if it_active (items c ! x) then Inr (c\<lparr>sliding := False\<rparr>)
              else if prevented x then Inr c1
              else (let c2 = change_classes (a # as) x t (begin_slide x c1)
                    in Inr (if interval c then cycle False c2 else c2))))"

definition next_item :: "(nat \<Rightarrow> bool) \<Rightarrow> carousel \<Rightarrow> carousel js" where
  "next_item prevented c = (if sliding c then Inr c else slide prevented Next None c)"

definition prev_item :: "(nat \<Rightarrow> bool) \<Rightarrow> carousel \<Rightarrow> carousel js" where
  "prev_item prevented c = (if sliding c then Inr c else slide prevented Prev None c)"

definition to_item :: "(nat \<Rightarrow> bool) \<Rightarrow> int \<Rightarrow> carousel \<Rightarrow> carousel js" where
  "to_item prevented pos c =
     (case active_items c of
        [] \<Rightarrow> Inl (Throw ''TypeError'')
      | a # as \<Rightarrow>
          if pos > int (length (items c)) - 1 \<or> pos < 0 then Inr c
          else if sliding c then Inr (c\<lparr>queued := queued c @ [pos]\<rparr>)
          else if int a = pos then Inr (cycle False (pause False c))
          else slide prevented (if pos > int a then Next else Prev) (Some (nat pos)) c)"

definition carousel_key :: "(nat \<Rightarrow> bool) \<Rightarrow> bool \<Rightarrow> int \<Rightarrow> carousel \<Rightarrow> carousel js" where
  "carousel_key prevented in_field code c =
     (if in_field \<or> \<not> o_keyboard c then Inr c
      else if code = 37 then prev_item prevented c
      else if code = 39 then next_item prevented c else Inr c)"

section \<open>What happens later\<close>

fun run_finishes :: "finish list \<Rightarrow> carousel \<Rightarrow> carousel" where
  "run_finishes [] c = c"
| "run_finishes (f # fs) c = run_finishes fs (finish_slide f c)"

definition transition_ends :: "tstep \<Rightarrow> carousel \<Rightarrow> carousel" where
  "transition_ends s c = (let (T, fs) = tstep s (ends c) in run_finishes fs (c\<lparr>ends := T\<rparr>))"

fun run_queue :: "(nat \<Rightarrow> bool) \<Rightarrow> int list \<Rightarrow> carousel \<Rightarrow> carousel js" where
  "run_queue prevented [] c = Inr c"
| "run_queue prevented (p # ps) c = js_bind (to_item prevented p c) (run_queue prevented ps)"

text \<open>The \<open>slid\<close> event, after a transition from a timer of delay 0; the queued requests are its one-shot handlers.\<close>

definition slid_timer :: "(nat \<Rightarrow> bool) \<Rightarrow> carousel \<Rightarrow> carousel js" where
  "slid_timer prevented c =
     (case slid_due c of
        [] \<Rightarrow> Inr c
      | (i, t) # due \<Rightarrow>
          run_queue prevented (queued c)
            (c\<lparr>slid_due := due, queued := [], car_events := car_events c @ [Slid i t]\<rparr>))"

definition interval_tick :: "(nat \<Rightarrow> bool) \<Rightarrow> carousel \<Rightarrow> carousel js" where
  "interval_tick prevented c = (if interval c then next_item prevented c else Inr c)"

section \<open>The plugin\<close>

text \<open>\<open>Plugin\<close>: a number goes to that item, a name calls the method, options alone start the cycle.\<close>

datatype car_call = ToItem int | CallNext | CallPrev | CallPause | CallCycle | Options

definition carousel_plugin :: "(nat \<Rightarrow> bool) \<Rightarrow> car_call \<Rightarrow> carousel \<Rightarrow> carousel js" where
  "carousel_plugin prevented call c =
     (case call of
        ToItem p \<Rightarrow> to_item prevented p c
      | CallNext \<Rightarrow> next_item prevented c
      | CallPrev \<Rightarrow> prev_item prevented c
      | CallPause \<Rightarrow> Inr (pause False c)
      | CallCycle \<Rightarrow> Inr (cycle False c)
      | Options \<Rightarrow> Inr (if o_interval c \<noteq> 0 then cycle False (pause False c) else c))"

inductive car_step :: "carousel \<Rightarrow> carousel \<Rightarrow> bool" where
  call: "carousel_plugin prevented k c = Inr c' \<Longrightarrow> car_step c c'"
| key: "carousel_key prevented f code c = Inr c' \<Longrightarrow> car_step c c'"
| mouse_enter: "car_step c (pause True c)"
| mouse_leave: "car_step c (cycle True c)"
| tick: "interval_tick prevented c = Inr c' \<Longrightarrow> car_step c c'"
| ended: "car_step c (transition_ends s c)"
| slid: "slid_timer prevented c = Inr c' \<Longrightarrow> car_step c c'"

end
