(* ===== verification/BS_CarouselProps.thy ===== *)
theory BS_CarouselProps
  imports BS_Carousel
begin

text \<open>
  The carousel's invariant over every sequence of calls, keys, timers and transition ends, and where
  \<open>next\<close>, \<open>prev\<close> and \<open>to\<close> lead.
\<close>

definition resting :: "nat \<Rightarrow> nat \<Rightarrow> item list" where
  "resting n a = map (\<lambda>i. \<lparr>it_active = (i = a), it_next = False, it_prev = False, it_left = False,
     it_right = False\<rparr>) [0..<n]"

definition moving :: "nat \<Rightarrow> nat \<Rightarrow> nat \<Rightarrow> slide_type \<Rightarrow> item list" where
  "moving n a x t = map (\<lambda>i. \<lparr>it_active = (i = a), it_next = (i = x \<and> t = Next), it_prev = (i = x \<and> t = Prev),
     it_left = (t = Next \<and> (i = a \<or> i = x)), it_right = (t = Prev \<and> (i = a \<or> i = x))\<rparr>) [0..<n]"

definition indicator_on :: "nat \<Rightarrow> carousel \<Rightarrow> bool" where
  "indicator_on a c = (case indicators c of None \<Rightarrow> True
     | Some bs \<Rightarrow> bs = map (\<lambda>i. i = a) [0..<length (items c)])"

text \<open>At rest on item \<open>a\<close>; and sliding from \<open>a\<close> to \<open>x\<close>, with the handler bound that finishes it.\<close>

definition at_rest :: "nat \<Rightarrow> carousel \<Rightarrow> bool" where
  "at_rest a c \<longleftrightarrow> \<not> sliding c \<and> a < length (items c) \<and> items c = resting (length (items c)) a \<and>
     dos (bound (ends c)) = [] \<and> trans_ok (ends c) \<and> indicator_on a c"

definition in_motion :: "nat \<Rightarrow> nat \<Rightarrow> slide_type \<Rightarrow> carousel \<Rightarrow> bool" where
  "in_motion a x t c \<longleftrightarrow> sliding c \<and> a < length (items c) \<and> x < length (items c) \<and> x \<noteq> a \<and>
     items c = moving (length (items c)) a x t \<and> dos (bound (ends c)) = [Finish [a] x t] \<and>
     trans_ok (ends c) \<and> indicator_on x c"

definition car_ok :: "carousel \<Rightarrow> bool" where
  "car_ok c \<longleftrightarrow> (\<exists>a. at_rest a c) \<or> (\<exists>a x t. in_motion a x t c)"

lemma length_resting [simp]: "length (resting n a) = n" "length (moving n a x t) = n"
  by (simp_all add: resting_def moving_def)

lemma nth_resting [simp]: "i < n \<Longrightarrow> it_active (resting n a ! i) \<longleftrightarrow> i = a"
  "i < n \<Longrightarrow> it_active (moving n a x t ! i) \<longleftrightarrow> i = a"
  by (simp_all add: resting_def moving_def)

lemma active_items_single:
  "a < length (items c) \<Longrightarrow> items c = resting (length (items c)) a \<Longrightarrow> active_items c = [a]"
  "a < length (items c) \<Longrightarrow> items c = moving (length (items c)) a x t \<Longrightarrow> active_items c = [a]"
proof -
  have *: "active_items c = [a]" if "a < length (items c)" "\<And>i. i < length (items c) \<Longrightarrow> it_active (items c ! i) \<longleftrightarrow> i = a"
    using that filter_upt_single [of a "length (items c)"] unfolding active_items_def
    by (metis (mono_tags, lifting) atLeastLessThan_iff filter_cong set_upt)
  show "a < length (items c) \<Longrightarrow> items c = resting (length (items c)) a \<Longrightarrow> active_items c = [a]"
    by (rule *) (simp, metis nth_resting(1))
  show "a < length (items c) \<Longrightarrow> items c = moving (length (items c)) a x t \<Longrightarrow> active_items c = [a]"
    by (rule *) (simp, metis nth_resting(2))
qed

section \<open>One slide\<close>

text \<open>Only these fields matter for the invariant.\<close>

lemma at_rest_cong:
  "items c = items d \<Longrightarrow> sliding c = sliding d \<Longrightarrow> ends c = ends d \<Longrightarrow> indicators c = indicators d \<Longrightarrow>
     at_rest a c = at_rest a d"
  "items c = items d \<Longrightarrow> sliding c = sliding d \<Longrightarrow> ends c = ends d \<Longrightarrow> indicators c = indicators d \<Longrightarrow>
     in_motion a x t c = in_motion a x t d"
  by (auto simp: at_rest_def in_motion_def indicator_on_def split: option.splits)

lemma cycle_fields [simp]:
  "items (cycle g c) = items c" "sliding (cycle g c) = sliding c" "ends (cycle g c) = ends c"
  "indicators (cycle g c) = indicators c" "support (cycle g c) = support c" "slide_class (cycle g c) = slide_class c"
  "o_wrap (cycle g c) = o_wrap c" "queued (cycle g c) = queued c"
  by (simp_all add: cycle_def Let_def)

lemma pause_fields [simp]:
  "items (pause g c) = items c" "sliding (pause g c) = sliding c" "ends (pause g c) = ends c"
  "indicators (pause g c) = indicators c" "support (pause g c) = support c" "slide_class (pause g c) = slide_class c"
  "o_wrap (pause g c) = o_wrap c" "queued (pause g c) = queued c"
  by (simp_all add: pause_def Let_def)

lemma at_rest_frame [simp]:
  "at_rest a (cycle g c) = at_rest a c" "at_rest a (pause g c) = at_rest a c"
  "in_motion a x t (cycle g c) = in_motion a x t c" "in_motion a x t (pause g c) = in_motion a x t c"
  "at_rest a (c\<lparr>queued := q\<rparr>) = at_rest a c" "in_motion a x t (c\<lparr>queued := q\<rparr>) = in_motion a x t c"
  "at_rest a (c\<lparr>car_events := ev\<rparr>) = at_rest a c" "in_motion a x t (c\<lparr>car_events := ev\<rparr>) = in_motion a x t c"
  "at_rest a (c\<lparr>slid_due := sd\<rparr>) = at_rest a c" "in_motion a x t (c\<lparr>slid_due := sd\<rparr>) = in_motion a x t c"
  by (rule at_rest_cong; simp)+

lemma start_moving:
  "a < n \<Longrightarrow> x < n \<Longrightarrow> x \<noteq> a \<Longrightarrow>
   modify x (set_direction t True) (modify_all [a] (set_direction t True) (modify x (set_type t True) (resting n a)))
     = moving n a x t"
  by (rule nth_equalityI) (auto simp: modify_def modify_all_def resting_def moving_def set_type_def
      set_direction_def nth_list_update split: slide_type.splits)

lemma finish_moving:
  "a < n \<Longrightarrow> x < n \<Longrightarrow> x \<noteq> a \<Longrightarrow>
   modify_all [a] (\<lambda>it. set_direction t False (it\<lparr>it_active := False\<rparr>))
     (modify x (\<lambda>it. (set_direction t False (set_type t False it))\<lparr>it_active := True\<rparr>) (moving n a x t)) = resting n x"
  by (rule nth_equalityI) (auto simp: modify_def modify_all_def resting_def moving_def set_type_def
      set_direction_def nth_list_update split: slide_type.splits)

lemma switch_resting:
  "a < n \<Longrightarrow> x < n \<Longrightarrow> x \<noteq> a \<Longrightarrow>
   modify x (\<lambda>it. it\<lparr>it_active := True\<rparr>) (modify_all [a] (\<lambda>it. it\<lparr>it_active := False\<rparr>) (resting n a)) = resting n x"
  by (rule nth_equalityI) (auto simp: modify_def modify_all_def resting_def nth_list_update)

lemma indicator_mark:
  "indicator_on a c \<Longrightarrow> x < length (items c) \<Longrightarrow> length (items d) = length (items c) \<Longrightarrow>
   indicators d = map_option (\<lambda>bs. (map (\<lambda>b. False) bs)[x := True]) (indicators c) \<Longrightarrow> indicator_on x d"
  by (auto simp: indicator_on_def intro!: nth_equalityI simp: nth_list_update o_def split: option.splits if_splits)

lemma length_modify [simp]: "length (modify i f xs) = length xs"
  by (simp add: modify_def)

lemma length_modify_all [simp]: "length (modify_all is f xs) = length xs"
  by (induction "is" arbitrary: xs) (simp_all add: modify_all_def)

definition moves_to :: "nat \<Rightarrow> nat \<Rightarrow> slide_type \<Rightarrow> carousel \<Rightarrow> carousel \<Rightarrow> bool" where
  "moves_to a x t c c' \<longleftrightarrow> (if support c \<and> slide_class c then in_motion a x t c' else at_rest x c')"

lemma begin_slide_fields [simp]:
  "items (begin_slide x c) = items c" "ends (begin_slide x c) = ends c" "support (begin_slide x c) = support c"
  "slide_class (begin_slide x c) = slide_class c" "sliding (begin_slide x c)" "o_wrap (begin_slide x c) = o_wrap c"
  "indicators (begin_slide x c) = map_option (\<lambda>bs. (map (\<lambda>b. False) bs)[x := True]) (indicators c)"
  "queued (begin_slide x c) = queued c"
  by (simp_all add: begin_slide_def mark_indicator_def)

lemma change_classes_fields [simp]:
  "length (items (change_classes as x t c)) = length (items c)"
  "indicators (change_classes as x t c) = indicators c" "o_wrap (change_classes as x t c) = o_wrap c"
  "support (change_classes as x t c) = support c" "slide_class (change_classes as x t c) = slide_class c"
  "queued (change_classes as x t c) = queued c"
  by (simp_all add: change_classes_def)

lemma slide_eq:
  assumes "active_items c = [a]" "x = (case target of Some i \<Rightarrow> i | None \<Rightarrow> item_for_direction c t a)"
  shows "slide prevented t target c =
    (if it_active (items c ! x) then Inr (c\<lparr>sliding := False\<rparr>)
     else if prevented x then Inr (c\<lparr>car_events := car_events c @ [Slide x t]\<rparr>)
     else Inr ((if interval c then cycle False else id)
       (change_classes [a] x t (begin_slide x (c\<lparr>car_events := car_events c @ [Slide x t]\<rparr>)))))"
  unfolding slide_def Let_def assms(1) assms(2) [symmetric] list.case by simp

lemma classes_change:
  assumes "at_rest a c" "x < length (items c)" "x \<noteq> a"
  shows "moves_to a x t c (change_classes [a] x t (begin_slide x (c\<lparr>car_events := ev\<rparr>)))"
proof -
  obtain n where n: "length (items c) = n" by simp
  define d where "d = change_classes [a] x t (begin_slide x (c\<lparr>car_events := ev\<rparr>))"
  have r: "a < n" "items c = resting n a" "dos (bound (ends c)) = []" "trans_ok (ends c)" "indicator_on a c" "x < n"
    using assms n by (simp_all add: at_rest_def)
  have len: "length (items d) = n" using n by (simp add: d_def)
  have ind: "indicator_on x d" by (rule indicator_mark [OF r(5)]) (use r(6) n in \<open>simp_all add: d_def\<close>)
  show ?thesis
  proof (cases "support c \<and> slide_class c")
    case True
    then have "items d = moving n a x t"
      using start_moving [OF r(1,6) assms(3), of t] r(2) by (simp add: d_def change_classes_def)
    moreover have "ends d = emulate (one (Finish [a] x t) (ends c))" "sliding d"
      using True by (simp_all add: d_def change_classes_def)
    moreover have "dos (bound (emulate (one (Finish [a] x t) (ends c)))) = [Finish [a] x t]"
      using r(3) by (simp add: one_def emulate_def)
    ultimately have "in_motion a x t d" using ind len r(1,4,6) assms(3) by (simp add: in_motion_def)
    then show ?thesis using True by (simp add: moves_to_def d_def)
  next
    case False
    then have "items d = resting n x" "ends d = ends c" "\<not> sliding d"
      using switch_resting [OF r(1,6) assms(3)] r(2) by (auto simp: d_def change_classes_def)
    then have "at_rest x d" using ind len r(3,4,6) by (simp add: at_rest_def)
    then show ?thesis using False unfolding moves_to_def d_def by presburger
  qed
qed

lemma slide_rest:
  assumes "at_rest a c" "x = (case target of Some i \<Rightarrow> i | None \<Rightarrow> item_for_direction c t a)" "x < length (items c)"
  shows "\<exists>c'. slide prevented t target c = Inr c' \<and> length (items c') = length (items c) \<and>
    (if x = a \<or> prevented x then at_rest a c' else moves_to a x t c c')"
proof -
  have act: "active_items c = [a]" using assms(1) active_items_single(1) [of a c] by (simp add: at_rest_def)
  obtain n where n: "length (items c) = n" by simp
  have xact: "it_active (items c ! x) \<longleftrightarrow> x = a"
    using assms(1,3) n nth_resting(1) [of x n a] by (simp add: at_rest_def)
  have still: "at_rest a (c\<lparr>sliding := False\<rparr>)"
    using assms(1) at_rest_cong(1) [of "c\<lparr>sliding := False\<rparr>" c a] by (simp add: at_rest_def)
  have frame: "moves_to a x t c (cycle False d) = moves_to a x t c d" for d by (simp add: moves_to_def)
  show ?thesis
    unfolding slide_eq [OF act assms(2)] xact
    using still assms(1) classes_change [OF assms(1,3)] frame by auto
qed

section \<open>The next item\<close>

definition step_target :: "slide_type \<Rightarrow> nat \<Rightarrow> nat \<Rightarrow> bool \<Rightarrow> nat" where
  "step_target t a n wrap =
     (case t of Next \<Rightarrow> if a + 1 < n then a + 1 else if wrap then 0 else a
              | Prev \<Rightarrow> if 0 < a then a - 1 else if wrap then n - 1 else a)"

lemma item_for_direction_eq:
  assumes "a < length (items c)"
  shows "item_for_direction c t a = step_target t a (length (items c)) (o_wrap c)"
proof -
  obtain n where n: "length (items c) = n" by simp
  have *: "js_mod x (int n) = x" if "\<bar>x\<bar> < int n" for x
    using that by (cases "x < 0") (simp_all add: js_mod_def trunc_div_def div_pos_pos_trivial)
  have e: "js_mod (int n) (int n) = 0" by (simp add: js_mod_def trunc_div_def)
  have "a < n" using assms n by simp
  show ?thesis
  proof (cases t)
    case Next
    show ?thesis
    proof (cases "a + 1 = n")
      case True
      then have "js_mod (int a + 1) (int n) = 0" "a = n - 1" using e by (auto simp: add.commute)
      then show ?thesis using True Next n by (simp add: item_for_direction_def step_target_def)
    next
      case False
      then have "js_mod (int a + 1) (int n) = int a + 1" "a \<noteq> n - 1" using * [of "int a + 1"] \<open>a < n\<close> by auto
      then show ?thesis using False Next n \<open>a < n\<close>
        by (simp add: item_for_direction_def step_target_def nat_add_distrib)
    qed
  next
    case Prev
    then show ?thesis
    proof (cases a)
      case 0
      have "js_mod (-1) (int n) = -1 \<or> n = 1" using * [of "-1"] \<open>a < n\<close> by auto
      moreover have "n = 1 \<Longrightarrow> js_mod (-1) (int n) = 0" by (simp add: js_mod_def trunc_div_def)
      ultimately show ?thesis using 0 Prev n \<open>a < n\<close>
        by (auto simp: item_for_direction_def step_target_def Let_def)
    next
      case (Suc b)
      then have "js_mod (int b) (int n) = int b" using * [of "int b"] \<open>a < n\<close> by simp
      then show ?thesis using Suc Prev n by (simp add: item_for_direction_def step_target_def)
    qed
  qed
qed

lemma step_target_less: "a < n \<Longrightarrow> step_target t a n w < n"
  by (cases t) (auto simp: step_target_def)

section \<open>The end of the transition\<close>

lemma frame_ends:
  "at_rest a c \<Longrightarrow> dos (bound T) = [] \<Longrightarrow> trans_ok T \<Longrightarrow> at_rest a (c\<lparr>ends := T\<rparr>)"
  "in_motion a x t c \<Longrightarrow> dos (bound T) = [Finish [a] x t] \<Longrightarrow> trans_ok T \<Longrightarrow> in_motion a x t (c\<lparr>ends := T\<rparr>)"
  by (auto simp: at_rest_def in_motion_def indicator_on_def split: option.splits)

lemma tstep_none: "dos (bound T) = [] \<Longrightarrow> snd (tstep s T) = [] \<and> dos (bound (fst (tstep s T))) = []"
  by (rule tstep_all_or_none [of s T]) auto

lemma tstep_some:
  "dos (bound T) = [f] \<Longrightarrow>
     (snd (tstep s T) = [] \<and> dos (bound (fst (tstep s T))) = [f]) \<or>
     (snd (tstep s T) = [f] \<and> dos (bound (fst (tstep s T))) = [])"
  by (rule tstep_all_or_none [of s T]) auto

lemma transition_ends_eq:
  "transition_ends s c = run_finishes (snd (tstep s (ends c))) (c\<lparr>ends := fst (tstep s (ends c))\<rparr>)"
  by (simp add: transition_ends_def case_prod_beta)

lemma at_rest_transition:
  assumes "at_rest a c"
  shows "at_rest a (transition_ends s c)"
proof -
  have "dos (bound (ends c)) = []" "trans_ok (ends c)" using assms by (simp_all add: at_rest_def)
  then have "snd (tstep s (ends c)) = []" "dos (bound (fst (tstep s (ends c)))) = []"
    "trans_ok (fst (tstep s (ends c)))"
    using tstep_none [of "ends c" s] by (auto intro: trans_ok_tstep)
  then show ?thesis
    using frame_ends(1) [OF assms, of "fst (tstep s (ends c))"] by (simp add: transition_ends_eq)
qed

lemma finish_in_motion:
  assumes "in_motion a x t c" "dos (bound T) = []" "trans_ok T"
  shows "at_rest x (finish_slide (Finish [a] x t) (c\<lparr>ends := T\<rparr>))"
proof -
  obtain n where n: "length (items c) = n" by simp
  have r: "a < n" "x < n" "x \<noteq> a" "items c = moving n a x t" "indicator_on x c"
    using assms n by (simp_all add: in_motion_def)
  have "items (finish_slide (Finish [a] x t) (c\<lparr>ends := T\<rparr>)) = resting n x"
    using finish_moving [OF r(1-3), of t] r(4) by (simp add: finish_slide_def)
  then show ?thesis
    using assms(2,3) r(2,5) n by (simp add: at_rest_def finish_slide_def indicator_on_def split: option.splits)
qed

lemma in_motion_transition:
  assumes "in_motion a x t c"
  shows "in_motion a x t (transition_ends s c) \<or> at_rest x (transition_ends s c)"
    and "at_rest x (transition_ends End c)"
proof -
  have d: "dos (bound (ends c)) = [Finish [a] x t]" and ok: "trans_ok (ends c)"
    using assms by (simp_all add: in_motion_def)
  have ok': "trans_ok (fst (tstep s (ends c)))" for s using ok by (rule trans_ok_tstep)
  have fin: "at_rest x (transition_ends s c)"
    if "snd (tstep s (ends c)) = [Finish [a] x t]" "dos (bound (fst (tstep s (ends c)))) = []" for s
    using finish_in_motion [OF assms that(2) ok'] that(1) by (simp add: transition_ends_eq)
  from tstep_some [OF d, of s] show "in_motion a x t (transition_ends s c) \<or> at_rest x (transition_ends s c)"
  proof (elim disjE conjE)
    assume "snd (tstep s (ends c)) = []" "dos (bound (fst (tstep s (ends c)))) = [Finish [a] x t]"
    then show ?thesis
      using frame_ends(2) [OF assms _ ok'] by (simp add: transition_ends_eq)
  qed (use fin in blast)
  show "at_rest x (transition_ends End c)"
    by (rule fin) (use d in \<open>simp_all add: tstep_def fire_def\<close>)
qed

section \<open>The operations from a state at rest or in motion\<close>

lemma moves_to_ok: "moves_to a x t c c' \<Longrightarrow> car_ok c'"
  by (auto simp: moves_to_def car_ok_def split: if_splits)

lemma moves_to_ends: "moves_to a x t c c' \<Longrightarrow> at_rest x (transition_ends End c')"
  by (auto simp: moves_to_def at_rest_transition in_motion_transition(2) split: if_splits)

lemma step_rest:
  assumes "at_rest a c"
  shows "\<exists>c'. slide prevented t None c = Inr c' \<and> length (items c') = length (items c) \<and>
    (let x = step_target t a (length (items c)) (o_wrap c)
     in if x = a \<or> prevented x then at_rest a c' else moves_to a x t c c')"
proof -
  have a: "a < length (items c)" using assms by (simp add: at_rest_def)
  show ?thesis
    using slide_rest [OF assms, where x = "step_target t a (length (items c)) (o_wrap c)" and target = None and t = t
        and prevented = prevented]
      item_for_direction_eq [OF a, of t] step_target_less [OF a, of t "o_wrap c"]
    by (simp add: Let_def)
qed

lemma to_rest:
  assumes "at_rest a c"
  shows "\<exists>c'. to_item prevented pos c = Inr c' \<and> length (items c') = length (items c) \<and>
    (if pos < 0 \<or> int (length (items c)) \<le> pos \<or> nat pos = a \<or> prevented (nat pos) then at_rest a c'
     else moves_to a (nat pos) (if pos > int a then Next else Prev) c c')"
proof -
  have act: "active_items c = [a]" using assms active_items_single(1) [of a c] by (simp add: at_rest_def)
  have ns: "\<not> sliding c" using assms by (simp add: at_rest_def)
  consider "pos > int (length (items c)) - 1 \<or> pos < 0" | "int a = pos"
    | "0 \<le> pos" "pos < int (length (items c))" "int a \<noteq> pos" by linarith
  then show ?thesis
  proof cases
    case 1 then show ?thesis using assms act by (auto simp: to_item_def)
  next
    case 2 then show ?thesis using assms act ns by (auto simp: to_item_def)
  next
    case 3
    then show ?thesis
      using slide_rest [OF assms, where x = "nat pos" and target = "Some (nat pos)"
          and t = "if pos > int a then Next else Prev" and prevented = prevented] act ns
      by (auto simp: to_item_def)
  qed
qed

lemma to_moving:
  assumes "in_motion a x t c"
  shows "to_item prevented pos c =
    Inr (if pos < 0 \<or> int (length (items c)) \<le> pos then c else c\<lparr>queued := queued c @ [pos]\<rparr>)"
proof -
  have "active_items c = [a]" using assms active_items_single(2) [of a c x t] by (simp add: in_motion_def)
  then show ?thesis using assms by (auto simp: to_item_def in_motion_def)
qed

lemma car_ok_cases:
  assumes "car_ok c"
  obtains a where "at_rest a c" | a x t where "in_motion a x t c"
  using assms by (auto simp: car_ok_def)

lemma rest_or_moves_ok: "(if p then at_rest a c' else moves_to a x t c c') \<Longrightarrow> car_ok c'"
  using moves_to_ok by (auto simp: car_ok_def split: if_splits)

lemma to_ok:
  assumes "car_ok c"
  shows "\<exists>c'. to_item prevented pos c = Inr c' \<and> car_ok c'"
  using assms
proof (cases rule: car_ok_cases)
  case (1 a)
  show ?thesis using to_rest [OF 1, of prevented pos] rest_or_moves_ok by blast
next
  case (2 a x t)
  then have "in_motion a x t (c\<lparr>queued := queued c @ [pos]\<rparr>)" by simp
  then show ?thesis using to_moving [OF 2, of prevented pos] 2 unfolding car_ok_def by (metis (full_types))
qed

lemma step_ok:
  assumes "car_ok c"
  shows "\<exists>c'. next_item prevented c = Inr c' \<and> car_ok c'" "\<exists>c'. prev_item prevented c = Inr c' \<and> car_ok c'"
proof -
  have "\<exists>c'. (if sliding c then Inr c else slide prevented t None c) = Inr c' \<and> car_ok c'" for t
    using assms
  proof (cases rule: car_ok_cases)
    case (1 a)
    then show ?thesis using step_rest [OF 1, of prevented t] rest_or_moves_ok unfolding Let_def at_rest_def
      by (metis (no_types))
  next
    case (2 a x u)
    then show ?thesis using assms by (simp add: in_motion_def)
  qed
  then show "\<exists>c'. next_item prevented c = Inr c' \<and> car_ok c'" "\<exists>c'. prev_item prevented c = Inr c' \<and> car_ok c'"
    by (simp_all add: next_item_def prev_item_def)
qed

lemma frame_ok [simp]: "car_ok (cycle g c) = car_ok c" "car_ok (pause g c) = car_ok c"
  "car_ok (c\<lparr>slid_due := due, queued := q, car_events := ev\<rparr>) = car_ok c"
proof -
  have "at_rest a (c\<lparr>slid_due := due, queued := q, car_events := ev\<rparr>) = at_rest a c" for a
    by (rule at_rest_cong(1)) simp_all
  moreover have "in_motion a x t (c\<lparr>slid_due := due, queued := q, car_events := ev\<rparr>) = in_motion a x t c" for a x t
    by (rule at_rest_cong(2)) simp_all
  ultimately show "car_ok (c\<lparr>slid_due := due, queued := q, car_events := ev\<rparr>) = car_ok c" by (simp add: car_ok_def)
qed (simp_all add: car_ok_def)

lemma queue_ok: "car_ok c \<Longrightarrow> \<exists>c'. run_queue prevented ps c = Inr c' \<and> car_ok c'"
proof (induction ps arbitrary: c)
  case (Cons p ps)
  obtain c1 where "to_item prevented p c = Inr c1" "car_ok c1" using to_ok [OF Cons.prems] by blast
  then show ?case using Cons.IH by simp
qed simp

section \<open>Every step\<close>

inductive_cases car_stepE: "car_step c c'"

lemma transition_ok: "car_ok c \<Longrightarrow> car_ok (transition_ends s c)"
  using at_rest_transition in_motion_transition(1) by (fastforce simp: car_ok_def)

lemma plugin_ok: "car_ok c \<Longrightarrow> \<exists>c'. carousel_plugin prevented k c = Inr c' \<and> car_ok c'"
  by (cases k) (simp_all add: carousel_plugin_def to_ok step_ok)

lemma key_ok: "car_ok c \<Longrightarrow> \<exists>c'. carousel_key prevented f code c = Inr c' \<and> car_ok c'"
  by (simp add: carousel_key_def step_ok)

lemma tick_ok: "car_ok c \<Longrightarrow> \<exists>c'. interval_tick prevented c = Inr c' \<and> car_ok c'"
  by (simp add: interval_tick_def step_ok)

lemma slid_ok: "car_ok c \<Longrightarrow> \<exists>c'. slid_timer prevented c = Inr c' \<and> car_ok c'"
  by (simp add: slid_timer_def queue_ok split: list.split prod.split)

lemma car_step_ok: "car_step c c' \<Longrightarrow> car_ok c \<Longrightarrow> car_ok c'"
proof (erule car_stepE)
  fix prevented k assume "carousel_plugin prevented k c = Inr c'" "car_ok c"
  then show "car_ok c'" using plugin_ok [of c prevented k] by auto
next
  fix prevented f code assume "carousel_key prevented f code c = Inr c'" "car_ok c"
  then show "car_ok c'" using key_ok [of c prevented f code] by auto
next
  fix prevented assume "interval_tick prevented c = Inr c'" "car_ok c"
  then show "car_ok c'" using tick_ok [of c prevented] by auto
next
  fix prevented assume "slid_timer prevented c = Inr c'" "car_ok c"
  then show "car_ok c'" using slid_ok [of c prevented] by auto
qed (simp_all add: transition_ok)

lemma car_reach_ok: "car_step\<^sup>*\<^sup>* c c' \<Longrightarrow> car_ok c \<Longrightarrow> car_ok c'"
  by (induction rule: rtranclp_induct) (auto intro: car_step_ok)

definition shown_items :: "carousel \<Rightarrow> nat" where
  "shown_items c = length (active_items c)"

lemma car_ok_shown: "car_ok c \<Longrightarrow> shown_items c = 1"
  by (auto simp: car_ok_def at_rest_def in_motion_def shown_items_def active_items_single)

text \<open>C26: Whatever calls, keys, mouse events, timers and ends of transitions happen, in whatever order, a carousel
  that starts at rest shows exactly one item, is at rest or sliding between two of its items with the
  finishing handler bound, marks the indicator of the item it is going to, and no call fails.\<close>

theorem carousel_one_shown:
  assumes "at_rest a c" "car_step\<^sup>*\<^sup>* c c'"
  shows "shown_items c' = 1 \<and> ((\<exists>b. at_rest b c') \<or> (\<exists>b x t. in_motion b x t c')) \<and>
    (\<forall>prevented k f code. carousel_plugin prevented k c' \<noteq> Inl e \<and> carousel_key prevented f code c' \<noteq> Inl e \<and>
       interval_tick prevented c' \<noteq> Inl e \<and> slid_timer prevented c' \<noteq> Inl e)"
proof -
  have ok: "car_ok c'" using car_reach_ok [OF assms(2)] assms(1) by (auto simp: car_ok_def)
  have "\<exists>d. carousel_plugin prevented k c' = Inr d" "\<exists>d. carousel_key prevented f code c' = Inr d"
    "\<exists>d. interval_tick prevented c' = Inr d" "\<exists>d. slid_timer prevented c' = Inr d" for prevented k f code
    using plugin_ok [OF ok, of prevented k] key_ok [OF ok, of prevented f code] tick_ok [OF ok, of prevented]
      slid_ok [OF ok, of prevented] by auto
  then show ?thesis using car_ok_shown [OF ok] ok unfolding car_ok_def by (metis Inl_Inr_False)
qed

definition demo_carousel :: carousel where
  "demo_carousel = \<lparr>items = resting 3 2, indicators = Some [False, False, True], paused = False, sliding = False,
     interval = True, o_interval = 5000, o_wrap = True, o_keyboard = True, slide_class = True, support = True,
     ends = no_trans, slid_due = [], queued = [], car_events = []\<rparr>"

lemma demo_at_rest: "at_rest 2 demo_carousel"
  by (simp add: at_rest_def demo_carousel_def indicator_on_def no_trans_def trans_ok_def upt_rec)

theorem carousel_one_shown_witness:
  "shown_items (cycle True (pause True demo_carousel)) = 1"
proof -
  have "car_step\<^sup>*\<^sup>* demo_carousel (cycle True (pause True demo_carousel))"
    by (meson car_step.mouse_enter car_step.mouse_leave rtranclp.rtrancl_into_rtrancl rtranclp.rtrancl_refl)
  from carousel_one_shown [OF demo_at_rest this] show ?thesis by simp
qed

section \<open>Where the calls lead\<close>

definition leads_to :: "(carousel \<Rightarrow> carousel js) \<Rightarrow> carousel \<Rightarrow> nat \<Rightarrow> bool" where
  "leads_to f c b \<longleftrightarrow> (case f c of Inl e \<Rightarrow> False | Inr c' \<Rightarrow> at_rest b (transition_ends End c'))"

text \<open> From rest on item \<open>a\<close>, once the transition is over, \<open>next\<close> and \<open>prev\<close> rest on the neighbouring item,
  around the end only with \<open>wrap\<close>, and \<open>to\<close> rests on the item asked for, or stays for an index out of range.\<close>

theorem carousel_moves:
  assumes "at_rest a c"
  shows "leads_to (next_item (\<lambda>x. False)) c (step_target Next a (length (items c)) (o_wrap c)) \<and>
    leads_to (prev_item (\<lambda>x. False)) c (step_target Prev a (length (items c)) (o_wrap c)) \<and>
    leads_to (to_item (\<lambda>x. False) pos) c (if 0 \<le> pos \<and> pos < int (length (items c)) then nat pos else a)"
proof -
  have ns: "\<not> sliding c" using assms by (simp add: at_rest_def)
  have step: "leads_to (slide (\<lambda>x. False) t None) c (step_target t a (length (items c)) (o_wrap c))" for t
    using step_rest [OF assms, of "\<lambda>x. False" t] moves_to_ends at_rest_transition
    unfolding Let_def leads_to_def by (metis (no_types, lifting) old.sum.simps(6))
  have "leads_to (to_item (\<lambda>x. False) pos) c (if 0 \<le> pos \<and> pos < int (length (items c)) then nat pos else a)"
    using to_rest [OF assms, of "\<lambda>x. False" pos] moves_to_ends at_rest_transition
    unfolding leads_to_def by (smt (verit) old.sum.simps(6))
  then show ?thesis using step [of Next] step [of Prev] ns by (simp add: leads_to_def next_item_def prev_item_def)
qed

theorem carousel_moves_witness: "leads_to (next_item (\<lambda>x. False)) demo_carousel 0"
  using carousel_moves [OF demo_at_rest, of 0] by (simp add: step_target_def demo_carousel_def)

text \<open> A request made while the carousel slides is not lost: it is carried out when the slide is over, whatever
  item that slide ends on.\<close>

theorem carousel_queue:
  assumes "in_motion a x t c" "queued c = []" "slid_due c = []" "0 \<le> pos" "pos < int (length (items c))"
  shows "leads_to (\<lambda>c. js_bind (to_item (\<lambda>x. False) pos c) (\<lambda>c1. slid_timer (\<lambda>x. False) (transition_ends End c1))) c
    (nat pos)"
proof -
  define d where "d = c\<lparr>queued := [pos]\<rparr>"
  have d: "in_motion a x t d" using assms(1) by (simp add: d_def)
  have to: "to_item (\<lambda>x. False) pos c = Inr d"
    using to_moving [OF assms(1), of "\<lambda>x. False" pos] assms(2,4,5) by (simp add: d_def)
  have fin: "snd (tstep End (ends d)) = [Finish [a] x t]" using d by (simp add: in_motion_def tstep_def fire_def)
  define e where "e = transition_ends End d"
  have e: "at_rest x e" using in_motion_transition(2) [OF d] by (simp add: e_def)
  have eq: "queued e = [pos]" "slid_due e = [(x, t)]" "length (items e) = length (items c)"
    using fin assms(3) by (simp_all add: e_def transition_ends_eq finish_slide_def d_def)
  define g where "g = e\<lparr>slid_due := [], queued := [], car_events := car_events e @ [Slid x t]\<rparr>"
  have g: "at_rest x g" "length (items g) = length (items c)"
    using e at_rest_cong(1) [of g e x] eq(3) by (simp_all add: g_def)
  have "slid_timer (\<lambda>x. False) e = to_item (\<lambda>x. False) pos g"
    using eq by (simp add: slid_timer_def g_def js_bind_def split: sum.split)
  moreover have "leads_to (to_item (\<lambda>x. False) pos) g (nat pos)"
    using to_rest [OF g(1), of "\<lambda>x. False" pos] moves_to_ends at_rest_transition assms(4,5) g(2)
    unfolding leads_to_def by (smt (verit) old.sum.simps(6))
  ultimately show ?thesis using to by (simp add: leads_to_def e_def)
qed

definition sliding_carousel :: carousel where
  "sliding_carousel = demo_carousel\<lparr>items := moving 3 2 0 Next, indicators := None, sliding := True,
     ends := emulate (one (Finish [2] 0 Next) no_trans)\<rparr>"

theorem carousel_queue_witness:
  "leads_to (\<lambda>c. js_bind (to_item (\<lambda>x. False) 1 c) (\<lambda>c1. slid_timer (\<lambda>x. False) (transition_ends End c1)))
     sliding_carousel 1"
  using carousel_queue [of 2 0 Next sliding_carousel 1]
  by (simp add: in_motion_def sliding_carousel_def demo_carousel_def indicator_on_def one_def emulate_def
      no_trans_def trans_ok_def)

end
