(* ===== verification/BS_Collapse.thy ===== *)
theory BS_Collapse
  imports BS_Transition
begin

text \<open>
  Collapsible panels and accordions (bootstrap.js, collapse.js). A panel's classes are fields of its record;
  its \<open>Collapse\<close> object, if \<open>$.data\<close> has one, is an index into the page's objects, so that a handler keeps
  the object it was bound for when the data have been reset. The triggers that name a panel are taken
  together. \<open>accordion\<close> is what \<open>this.$parent.children ('.panel').children ()\<close> finds; the panels themselves
  carry no \<open>data-parent\<close>, only their links do. Whether an event is prevented is a parameter.
\<close>

section \<open>State\<close>

datatype psize = Auto | Zero | Natural

datatype completion = ShowDone nat | HideDone nat

datatype collapse_event = ShowEv | ShownEv | HideEv | HiddenEv

record panel =
  p_collapse :: bool
  p_collapsing :: bool
  p_in :: bool
  p_size :: psize
  p_aria :: "bool option"
  t_collapsed :: bool
  t_aria :: "bool option"
  p_data :: "nat option"
  p_ends :: "completion trans"
  p_events :: "collapse_event list"

record collapse_obj =
  transitioning :: bool
  c_group :: "nat list option"

record panels =
  pan :: "nat \<Rightarrow> panel"
  objs :: "collapse_obj list"
  c_support :: bool

definition set_panel :: "nat \<Rightarrow> (panel \<Rightarrow> panel) \<Rightarrow> panels \<Rightarrow> panels" where
  "set_panel i f P = P\<lparr>pan := (pan P)(i := f (pan P i))\<rparr>"

definition set_transitioning :: "nat \<Rightarrow> bool \<Rightarrow> panels \<Rightarrow> panels" where
  "set_transitioning obj b P = P\<lparr>objs := (objs P)[obj := (objs P ! obj)\<lparr>transitioning := b\<rparr>]\<rparr>"

definition add_event :: "collapse_event \<Rightarrow> panel \<Rightarrow> panel" where
  "add_event ev p = p\<lparr>p_events := p_events p @ [ev]\<rparr>"

section \<open>The ends of the transitions\<close>

definition show_done :: "panel \<Rightarrow> panel" where
  "show_done p = add_event ShownEv (p\<lparr>p_collapsing := False, p_collapse := True, p_in := True, p_size := Auto\<rparr>)"

definition hide_done :: "panel \<Rightarrow> panel" where
  "hide_done p = add_event HiddenEv (p\<lparr>p_collapsing := False, p_collapse := True\<rparr>)"

definition complete_panel :: "nat \<Rightarrow> completion \<Rightarrow> panels \<Rightarrow> panels" where
  "complete_panel i h P =
     (case h of ShowDone obj \<Rightarrow> set_transitioning obj False (set_panel i show_done P)
              | HideDone obj \<Rightarrow> set_panel i hide_done (set_transitioning obj False P))"

definition finish :: "nat \<Rightarrow> completion \<Rightarrow> panels \<Rightarrow> panels" where
  "finish i h P =
     (if c_support P then set_panel i (\<lambda>p. p\<lparr>p_ends := emulate (one h (p_ends p))\<rparr>) P else complete_panel i h P)"

definition collapse_transition :: "nat \<Rightarrow> tstep \<Rightarrow> panels \<Rightarrow> panels" where
  "collapse_transition i s P =
     (let (T, hs) = tstep s (p_ends (pan P i))
      in foldl (\<lambda>Q h. complete_panel i h Q) (set_panel i (\<lambda>p. p\<lparr>p_ends := T\<rparr>) P) hs)"

section \<open>Hiding and showing\<close>

definition hide_classes :: "panel \<Rightarrow> panel" where
  "hide_classes p = p\<lparr>p_size := Natural, p_collapsing := True, p_collapse := False, p_in := False, p_aria := Some False,
     t_collapsed := True, t_aria := Some False\<rparr>"

definition show_classes :: "panel \<Rightarrow> panel" where
  "show_classes p = p\<lparr>p_collapse := False, p_collapsing := True, p_size := Zero, p_aria := Some True,
     t_collapsed := False, t_aria := Some True\<rparr>"

definition resize :: "psize \<Rightarrow> panels \<Rightarrow> panel \<Rightarrow> panel" where
  "resize sz P p = (if c_support P then p\<lparr>p_size := sz\<rparr> else p)"

definition hide_panel :: "(collapse_event \<Rightarrow> nat \<Rightarrow> bool) \<Rightarrow> nat \<Rightarrow> nat \<Rightarrow> panels \<Rightarrow> panels" where
  "hide_panel prevented i obj P =
     (if transitioning (objs P ! obj) \<or> \<not> p_in (pan P i) then P
      else
        (let P1 = set_panel i (add_event HideEv) P
         in if prevented HideEv i then P1
            else finish i (HideDone obj)
                   (set_panel i (resize Zero P) (set_transitioning obj True (set_panel i hide_classes P1)))))"

definition start_show :: "nat \<Rightarrow> nat \<Rightarrow> panels \<Rightarrow> panels" where
  "start_show i obj P =
     finish i (ShowDone obj) (set_panel i (resize Natural P) (set_transitioning obj True (set_panel i show_classes P)))"

definition show_single :: "(collapse_event \<Rightarrow> nat \<Rightarrow> bool) \<Rightarrow> nat \<Rightarrow> nat \<Rightarrow> panels \<Rightarrow> panels" where
  "show_single prevented i obj P =
     (if transitioning (objs P ! obj) \<or> p_in (pan P i) then P
      else
        (let P1 = set_panel i (add_event ShowEv) P
         in if prevented ShowEv i then P1 else start_show i obj P1))"

section \<open>Objects\<close>

definition add_aria :: "panel \<Rightarrow> panel" where
  "add_aria p = p\<lparr>p_aria := Some (p_in p), t_collapsed := (\<not> p_in p), t_aria := Some (p_in p)\<rparr>"

definition new_obj :: "nat \<Rightarrow> nat list option \<Rightarrow> panels \<Rightarrow> nat \<times> panels" where
  "new_obj i accordion P =
     (let P1 = P\<lparr>objs := objs P @ [\<lparr>transitioning = False, c_group = accordion\<rparr>]\<rparr>
      in (length (objs P),
          case accordion of None \<Rightarrow> set_panel i add_aria P1
          | Some js \<Rightarrow> foldl (\<lambda>Q j. set_panel j add_aria Q) P1 js))"

text \<open>\<open>Plugin.call (actives, 'hide')\<close>: a panel without an object gets one, and the constructor toggles it.\<close>

definition plugin_hide :: "(collapse_event \<Rightarrow> nat \<Rightarrow> bool) \<Rightarrow> panels \<Rightarrow> nat \<Rightarrow> panels" where
  "plugin_hide prevented P i =
     (case p_data (pan P i) of
        Some obj \<Rightarrow> hide_panel prevented i obj P
      | None \<Rightarrow>
          (let (obj, P1) = new_obj i None P;
               P2 = (if p_in (pan P1 i) then hide_panel prevented i obj P1 else show_single prevented i obj P1)
           in hide_panel prevented i obj (set_panel i (\<lambda>p. p\<lparr>p_data := Some obj\<rparr>) P2)))"

definition actives :: "nat \<Rightarrow> panels \<Rightarrow> nat list" where
  "actives obj P =
     (case c_group (objs P ! obj) of None \<Rightarrow> []
      | Some js \<Rightarrow> filter (\<lambda>j. p_in (pan P j) \<or> p_collapsing (pan P j)) js)"

definition hide_actives :: "(collapse_event \<Rightarrow> nat \<Rightarrow> bool) \<Rightarrow> nat list \<Rightarrow> panels \<Rightarrow> panels" where
  "hide_actives prevented js P =
     (case js of
        [] \<Rightarrow> P
      | j # _ \<Rightarrow>
          (let P1 = foldl (plugin_hide prevented) P js
           in if p_data (pan P j) = None
              then foldl (\<lambda>Q k. set_panel k (\<lambda>p. p\<lparr>p_data := None\<rparr>) Q) P1 js else P1))"

definition first_busy :: "nat list \<Rightarrow> panels \<Rightarrow> bool" where
  "first_busy js P =
     (case js of [] \<Rightarrow> False
      | j # _ \<Rightarrow> (case p_data (pan P j) of None \<Rightarrow> False | Some obj \<Rightarrow> transitioning (objs P ! obj)))"

definition show_panel :: "(collapse_event \<Rightarrow> nat \<Rightarrow> bool) \<Rightarrow> nat \<Rightarrow> nat \<Rightarrow> panels \<Rightarrow> panels" where
  "show_panel prevented i obj P =
     (if transitioning (objs P ! obj) \<or> p_in (pan P i) then P
      else if first_busy (actives obj P) P then P
      else
        (let P1 = set_panel i (add_event ShowEv) P
         in if prevented ShowEv i then P1
            else start_show i obj (hide_actives prevented (actives obj P) P1)))"

definition toggle_panel :: "(collapse_event \<Rightarrow> nat \<Rightarrow> bool) \<Rightarrow> nat \<Rightarrow> nat \<Rightarrow> panels \<Rightarrow> panels" where
  "toggle_panel prevented i obj P = (if p_in (pan P i) then hide_panel prevented i obj P else show_panel prevented i obj P)"

definition construct :: "(collapse_event \<Rightarrow> nat \<Rightarrow> bool) \<Rightarrow> nat \<Rightarrow> nat list option \<Rightarrow> bool \<Rightarrow> panels \<Rightarrow>
    nat \<times> panels" where
  "construct prevented i accordion tog P =
     (let (obj, P1) = new_obj i accordion P;
          P2 = (if tog then toggle_panel prevented i obj P1 else P1)
      in (obj, set_panel i (\<lambda>p. p\<lparr>p_data := Some obj\<rparr>) P2))"

section \<open>The plugin\<close>

datatype collapse_call = ShowCall | HideCall | ToggleCall | OptionsCall bool "nat list option"

definition call_group :: "collapse_call \<Rightarrow> nat list option" where
  "call_group k = (case k of OptionsCall tog g \<Rightarrow> g | _ \<Rightarrow> None)"

definition call_toggle :: "collapse_call \<Rightarrow> bool" where
  "call_toggle k = (case k of OptionsCall tog g \<Rightarrow> tog | ShowCall \<Rightarrow> False | _ \<Rightarrow> True)"

definition collapse_plugin :: "(collapse_event \<Rightarrow> nat \<Rightarrow> bool) \<Rightarrow> nat \<Rightarrow> collapse_call \<Rightarrow> panels \<Rightarrow> panels" where
  "collapse_plugin prevented i k P =
     (let (obj, P1) = (case p_data (pan P i) of Some obj \<Rightarrow> (obj, P)
                       | None \<Rightarrow> construct prevented i (call_group k) (call_toggle k) P)
      in case k of ShowCall \<Rightarrow> show_panel prevented i obj P1
         | HideCall \<Rightarrow> hide_panel prevented i obj P1
         | ToggleCall \<Rightarrow> toggle_panel prevented i obj P1
         | OptionsCall tog g \<Rightarrow> P1)"

text \<open>A click on a link with \<open>data-toggle="collapse"\<close>; \<open>accordion\<close> is the accordion its \<open>data-parent\<close> names.\<close>

definition collapse_click :: "(collapse_event \<Rightarrow> nat \<Rightarrow> bool) \<Rightarrow> nat \<Rightarrow> nat list option \<Rightarrow> panels \<Rightarrow> panels" where
  "collapse_click prevented i accordion P =
     collapse_plugin prevented i (if p_data (pan P i) \<noteq> None then ToggleCall else OptionsCall True accordion) P"

inductive collapse_step :: "panels \<Rightarrow> panels \<Rightarrow> bool" where
  call: "collapse_step P (collapse_plugin prevented i k P)"
| click: "collapse_step P (collapse_click prevented i accordion P)"
| ended: "collapse_step P (collapse_transition i s P)"

end
