(* ===== verification/BS_CollapseProps.thy ===== *)
theory BS_CollapseProps
  imports BS_Collapse
begin

text \<open>
  Collapsible panels: every panel is closed, open, or on its way with the handler bound that ends it; and
  opening a panel of an accordion closes the others.
\<close>

section \<open>The invariant\<close>

definition settled :: "panel \<Rightarrow> bool" where
  "settled p \<longleftrightarrow> p_collapse p \<and> \<not> p_collapsing p \<and> dos (bound (p_ends p)) = []"

definition on_its_way :: "panel \<Rightarrow> bool" where
  "on_its_way p \<longleftrightarrow> \<not> p_collapse p \<and> p_collapsing p \<and> \<not> p_in p"

definition panel_ok :: "bool \<Rightarrow> panel \<Rightarrow> bool" where
  "panel_ok anim p \<longleftrightarrow> settled p \<or> (anim \<and> on_its_way p \<and> dos (bound (p_ends p)) \<noteq> [])"

definition panels_ok :: "panels \<Rightarrow> bool" where
  "panels_ok P \<longleftrightarrow> (\<forall>i. panel_ok (c_support P) (pan P i))"

lemma set_panel_fields [simp]:
  "pan (set_panel i f P) j = (if j = i then f (pan P i) else pan P j)" "objs (set_panel i f P) = objs P"
  "c_support (set_panel i f P) = c_support P"
  by (simp_all add: set_panel_def)

lemma set_transitioning_fields [simp]:
  "pan (set_transitioning obj b P) = pan P" "c_support (set_transitioning obj b P) = c_support P"
  by (simp_all add: set_transitioning_def)

lemma ok_keeps [simp]:
  "panel_ok anim (add_event e p) = panel_ok anim p" "panel_ok anim (add_aria p) = panel_ok anim p"
  "panel_ok anim (p\<lparr>p_data := d\<rparr>) = panel_ok anim p"
  by (simp_all add: panel_ok_def settled_def on_its_way_def add_event_def add_aria_def)

lemma set_panel_ok [simp]: "panels_ok P \<Longrightarrow> (\<And>anim p. panel_ok anim (f p) = panel_ok anim p) \<Longrightarrow> panels_ok (set_panel i f P)"
  by (simp add: panels_ok_def)

lemma complete_ok:
  assumes "\<forall>j. j \<noteq> i \<longrightarrow> panel_ok (c_support P) (pan P j)" "dos (bound (p_ends (pan P i))) = []"
  shows "panels_ok (complete_panel i h P)" "settled (pan (complete_panel i h P) i)" "pan (complete_panel i h P) j = (if j = i then
    (case h of ShowDone x \<Rightarrow> show_done (pan P i) | HideDone x \<Rightarrow> hide_done (pan P i)) else pan P j)"
  using assms
  by (auto simp: complete_panel_def panels_ok_def panel_ok_def settled_def show_done_def hide_done_def add_event_def
      split: completion.split)

lemma finish_ok:
  assumes "\<forall>j. j \<noteq> i \<longrightarrow> panel_ok (c_support P) (pan P j)" "on_its_way (pan P i)"
    "c_support P \<or> dos (bound (p_ends (pan P i))) = []"
  shows "panels_ok (finish i h P)"
proof (cases "c_support P")
  case True
  then show ?thesis using assms by (auto simp: finish_def panels_ok_def panel_ok_def on_its_way_def)
next
  case False
  then show ?thesis using assms complete_ok(1) [of i P h] by (simp add: finish_def)
qed

lemma class_changes [simp]:
  "p_ends (resize z P p) = p_ends p" "p_ends (hide_classes p) = p_ends p" "p_ends (show_classes p) = p_ends p"
  "p_ends (add_event e p) = p_ends p" "p_in (add_event e p) = p_in p"
  "on_its_way (resize z P p) = on_its_way p" "on_its_way (hide_classes p)" "on_its_way (show_classes p) = (\<not> p_in p)"
  by (simp_all add: resize_def hide_classes_def show_classes_def add_event_def on_its_way_def)

lemma panels_ok_others: "panels_ok P \<Longrightarrow> panel_ok (c_support P) (pan P j)"
  by (simp add: panels_ok_def)

lemma panels_ok_still: "panels_ok P \<Longrightarrow> c_support P \<or> dos (bound (p_ends (pan P i))) = []"
  by (auto simp: panels_ok_def panel_ok_def settled_def)

lemma hide_ok: "panels_ok P \<Longrightarrow> panels_ok (hide_panel prevented i obj P)"
  using panels_ok_still [of P i] panels_ok_others [of P]
  by (auto simp: hide_panel_def Let_def intro!: finish_ok)

lemma start_show_ok: "panels_ok P \<Longrightarrow> \<not> p_in (pan P i) \<Longrightarrow> panels_ok (start_show i obj P)"
  using panels_ok_still [of P i] panels_ok_others [of P]
  by (auto simp: start_show_def intro!: finish_ok)

lemma show_single_ok: "panels_ok P \<Longrightarrow> panels_ok (show_single prevented i obj P)"
  by (auto simp: show_single_def Let_def intro!: start_show_ok)

lemma foldl_ok: "panels_ok P \<Longrightarrow> (\<And>Q x. panels_ok Q \<Longrightarrow> panels_ok (g Q x)) \<Longrightarrow> panels_ok (foldl g P xs)"
  by (induction xs arbitrary: P) simp_all

lemma new_obj_ok: "panels_ok P \<Longrightarrow> panels_ok (snd (new_obj i g P))"
proof -
  assume "panels_ok P"
  then have "panels_ok (P\<lparr>objs := objs P @ [\<lparr>transitioning = False, c_group = g\<rparr>]\<rparr>)" by (simp add: panels_ok_def)
  then show ?thesis by (auto simp: new_obj_def Let_def intro!: foldl_ok split: option.split)
qed

lemma plugin_hide_ok: "panels_ok P \<Longrightarrow> panels_ok (plugin_hide prevented P i)"
  using new_obj_ok [of P i None]
  by (auto simp: plugin_hide_def Let_def split: option.split prod.split intro!: hide_ok show_single_ok set_panel_ok)

lemma hide_actives_ok: "panels_ok P \<Longrightarrow> panels_ok (hide_actives prevented js P)"
  by (auto simp: hide_actives_def Let_def intro!: foldl_ok plugin_hide_ok set_panel_ok split: list.split)

section \<open>Hiding the other panels leaves a closed panel closed\<close>

lemma complete_support [simp]: "c_support (complete_panel i h P) = c_support P"
  by (simp add: complete_panel_def split: completion.split)

lemma finish_support [simp]: "c_support (finish i h P) = c_support P"
  by (simp add: finish_def)

lemma complete_other [simp]: "j \<noteq> i \<Longrightarrow> pan (complete_panel i h P) j = pan P j"
  by (simp add: complete_panel_def split: completion.split)

lemma finish_other [simp]: "j \<noteq> i \<Longrightarrow> pan (finish i h P) j = pan P j"
  by (simp add: finish_def)

lemma ops_support [simp]:
  "c_support (hide_panel prevented i obj P) = c_support P" "c_support (start_show i obj P) = c_support P"
  "c_support (show_single prevented i obj P) = c_support P"
  by (simp_all add: hide_panel_def start_show_def show_single_def Let_def)

lemma ops_other [simp]:
  "j \<noteq> i \<Longrightarrow> pan (hide_panel prevented i obj P) j = pan P j" "j \<noteq> i \<Longrightarrow> pan (start_show i obj P) j = pan P j"
  "j \<noteq> i \<Longrightarrow> pan (show_single prevented i obj P) j = pan P j"
  by (simp_all add: hide_panel_def start_show_def show_single_def Let_def)

lemma new_obj_single [simp]:
  "new_obj i None P = (length (objs P),
     set_panel i add_aria (P\<lparr>objs := objs P @ [\<lparr>transitioning = False, c_group = None\<rparr>]\<rparr>))"
  by (simp add: new_obj_def Let_def)

lemma plugin_hide_support [simp]: "c_support (plugin_hide prevented P k) = c_support P"
  by (simp add: plugin_hide_def Let_def split: option.split)

lemma plugin_hide_other [simp]: "j \<noteq> k \<Longrightarrow> pan (plugin_hide prevented P k) j = pan P j"
  by (simp add: plugin_hide_def Let_def split: option.split)

lemma add_aria_in [simp]: "p_in (add_aria p) = p_in p" "p_ends (add_aria p) = p_ends p" "p_data (add_aria p) = p_data p"
  "p_collapsing (add_aria p) = p_collapsing p"
  by (simp_all add: add_aria_def)

lemma classes_in [simp]: "p_in (show_classes p) = p_in p" "\<not> p_in (hide_classes p)" "p_in (resize z P p) = p_in p"
  by (simp_all add: show_classes_def hide_classes_def resize_def)

lemma hide_not_in: "\<not> p_in (pan P i) \<Longrightarrow> hide_panel prevented i obj P = P"
  by (simp add: hide_panel_def)

lemma finish_in: "c_support P \<Longrightarrow> p_in (pan (finish i h P) j) = p_in (pan P j)"
  by (simp add: finish_def)

lemma plugin_hide_not_in:
  "\<not> p_in (pan P i) \<Longrightarrow> c_support P \<or> k \<noteq> i \<Longrightarrow> \<not> p_in (pan (plugin_hide prevented P k) i)"
  by (cases "k = i")
     (auto simp: plugin_hide_def Let_def hide_not_in show_single_def start_show_def finish_in split: option.split)

lemma foldl_plugin_hide_not_in:
  "\<not> p_in (pan P i) \<Longrightarrow> c_support P \<or> i \<notin> set js \<Longrightarrow> \<not> p_in (pan (foldl (plugin_hide prevented) P js) i)"
proof (induction js arbitrary: P)
  case (Cons k js)
  then have "\<not> p_in (pan (plugin_hide prevented P k) i)" using plugin_hide_not_in [of P i k prevented] by auto
  moreover have "c_support (plugin_hide prevented P k) \<or> i \<notin> set js" using Cons.prems(2) by auto
  ultimately show ?case using Cons.IH [of "plugin_hide prevented P k"] by simp
qed simp

lemma reset_data_fields: "p_in (pan (foldl (\<lambda>Q k. set_panel k (\<lambda>p. p\<lparr>p_data := None\<rparr>) Q) P js) i) = p_in (pan P i)"
  "p_ends (pan (foldl (\<lambda>Q k. set_panel k (\<lambda>p. p\<lparr>p_data := None\<rparr>) Q) P js) i) = p_ends (pan P i)"
  by (induction js arbitrary: P) simp_all

lemma hide_actives_not_in:
  "\<not> p_in (pan P i) \<Longrightarrow> c_support P \<or> i \<notin> set js \<Longrightarrow> \<not> p_in (pan (hide_actives prevented js P) i)"
  using foldl_plugin_hide_not_in [of P i js prevented]
  by (cases js) (auto simp: hide_actives_def Let_def reset_data_fields split: option.splits if_splits)

lemma actives_still: "panels_ok P \<Longrightarrow> \<not> p_in (pan P i) \<Longrightarrow> c_support P \<or> i \<notin> set (actives obj P)"
  by (auto simp: actives_def panels_ok_def panel_ok_def settled_def split: option.split)

lemma show_ok: "panels_ok P \<Longrightarrow> panels_ok (show_panel prevented i obj P)"
  using actives_still [of P i obj] hide_actives_not_in [of "set_panel i (add_event ShowEv) P" i "actives obj P" prevented]
  by (auto simp: show_panel_def Let_def intro!: hide_actives_ok start_show_ok set_panel_ok)

section \<open>Every step\<close>

lemma toggle_ok: "panels_ok P \<Longrightarrow> panels_ok (toggle_panel prevented i obj P)"
  by (simp add: toggle_panel_def hide_ok show_ok)

lemma construct_ok: "panels_ok P \<Longrightarrow> panels_ok (snd (construct prevented i g tog P))"
  using new_obj_ok [of P i g] by (auto simp: construct_def Let_def intro!: toggle_ok set_panel_ok split: prod.split)

lemma collapse_plugin_ok: "panels_ok P \<Longrightarrow> panels_ok (collapse_plugin prevented i k P)"
  using construct_ok [of P prevented i "call_group k" "call_toggle k"]
  by (auto simp: collapse_plugin_def Let_def hide_ok show_ok toggle_ok split: option.split prod.split collapse_call.split)

lemma foldl_complete:
  assumes "\<forall>j. j \<noteq> i \<longrightarrow> panel_ok (c_support P) (pan P j)" "dos (bound (p_ends (pan P i))) = []" "hs \<noteq> []"
  shows "panels_ok (foldl (\<lambda>Q h. complete_panel i h Q) P hs) \<and> settled (pan (foldl (\<lambda>Q h. complete_panel i h Q) P hs) i)"
  using assms
proof (induction hs arbitrary: P)
  case (Cons h hs)
  have c: "panels_ok (complete_panel i h P)" "settled (pan (complete_panel i h P) i)"
    using complete_ok(1,2) [OF Cons.prems(1,2)] .
  show ?case
  proof (cases "hs = []")
    case False
    have "dos (bound (p_ends (pan (complete_panel i h P) i))) = []" using c(2) by (simp add: settled_def)
    moreover have "\<forall>j. j \<noteq> i \<longrightarrow> panel_ok (c_support (complete_panel i h P)) (pan (complete_panel i h P) j)"
      using panels_ok_others [OF c(1)] by blast
    ultimately show ?thesis using Cons.IH [of "complete_panel i h P"] False unfolding foldl_Cons by blast
  qed (use c in simp)
qed simp

lemma transition_panels:
  assumes "panels_ok P"
  shows "panels_ok (collapse_transition i s P)" "settled (pan (collapse_transition i End P) i)"
proof -
  define Q where "Q s = set_panel i (\<lambda>p. p\<lparr>p_ends := fst (tstep s (p_ends (pan P i)))\<rparr>) P" for s
  have eq: "collapse_transition i s P = foldl (\<lambda>Q h. complete_panel i h Q) (Q s) (snd (tstep s (p_ends (pan P i))))" for s
    by (simp add: collapse_transition_def Q_def case_prod_beta)
  have others: "\<forall>j. j \<noteq> i \<longrightarrow> panel_ok (c_support (Q s)) (pan (Q s) j)" for s
    using assms by (simp add: Q_def panels_ok_def)
  have main: "panels_ok (collapse_transition i s P) \<and> (hs \<noteq> [] \<longrightarrow> settled (pan (collapse_transition i s P) i))"
    if "snd (tstep s (p_ends (pan P i))) = hs" "hs = dos (bound (p_ends (pan P i)))"
      "dos (bound (fst (tstep s (p_ends (pan P i))))) = []" for s hs
  proof (cases "hs = []")
    case True
    then show ?thesis using that assms by (auto simp: eq Q_def panels_ok_def panel_ok_def settled_def on_its_way_def)
  next
    case False
    then show ?thesis using foldl_complete [OF others [of s] _ False] that by (simp add: eq) (simp add: Q_def)
  qed
  show "panels_ok (collapse_transition i s P)"
  proof (cases rule: tstep_all_or_none [of s "p_ends (pan P i)"])
    case 1
    then show ?thesis using assms by (auto simp: eq Q_def panels_ok_def panel_ok_def settled_def on_its_way_def)
  next
    case 2
    then show ?thesis using main by blast
  qed
  show "settled (pan (collapse_transition i End P) i)"
  proof (cases "dos (bound (p_ends (pan P i))) = []")
    case True
    then show ?thesis using assms by (auto simp: eq Q_def panels_ok_def panel_ok_def settled_def)
  next
    case False
    then show ?thesis using main [of End] by simp
  qed
qed

inductive_cases collapse_stepE: "collapse_step P Q"

lemma collapse_step_ok: "collapse_step P Q \<Longrightarrow> panels_ok P \<Longrightarrow> panels_ok Q"
  by (elim collapse_stepE) (simp_all add: collapse_plugin_ok collapse_click_def transition_panels(1))

lemma collapse_reach_ok: "collapse_step\<^sup>*\<^sup>* P Q \<Longrightarrow> panels_ok P \<Longrightarrow> panels_ok Q"
  by (induction rule: rtranclp_induct) (auto intro: collapse_step_ok)

text \<open>C27: Whatever calls and clicks there are on the panels of a page, with whatever events prevented and however
  the ends of their transitions are interleaved: each panel is settled (closed or open) or on its way with the
  handler bound that ends it, and the end of the transition settles it.\<close>

theorem collapse_settles:
  assumes "collapse_step\<^sup>*\<^sup>* P Q" "\<forall>j. settled (pan P j)"
  shows "panel_ok (c_support Q) (pan Q i) \<and> settled (pan (collapse_transition i End Q) i)"
proof -
  have "panels_ok P" using assms(2) by (simp add: panels_ok_def panel_ok_def)
  then have "panels_ok Q" using collapse_reach_ok [OF assms(1)] by blast
  then show ?thesis using transition_panels(2) panels_ok_others by blast
qed

definition closed_panel :: panel where
  "closed_panel = \<lparr>p_collapse = True, p_collapsing = False, p_in = False, p_size = Auto, p_aria = None, t_collapsed = True,
     t_aria = None, p_data = None, p_ends = no_trans, p_events = []\<rparr>"

definition demo_panels :: panels where
  "demo_panels = \<lparr>pan = (\<lambda>i. if i = 1 then closed_panel\<lparr>p_in := True\<rparr> else closed_panel), objs = [], c_support = True\<rparr>"

lemma demo_settled: "settled (pan demo_panels j)"
  by (simp add: demo_panels_def settled_def closed_panel_def no_trans_def)

theorem collapse_settles_witness:
  "settled (pan (collapse_transition 0 End (collapse_click (\<lambda>e i. False) 0 (Some [0, 1, 2]) demo_panels)) 0)"
  using collapse_settles [OF r_into_rtranclp [where r = collapse_step, OF collapse_step.click [of demo_panels "\<lambda>e i. False" 0 "Some [0, 1, 2]"]]]
    demo_settled by blast

section \<open>An accordion\<close>

definition data_ok :: "panels \<Rightarrow> bool" where
  "data_ok P \<longleftrightarrow> (\<forall>k x. p_data (pan P k) = Some x \<longrightarrow> x < length (objs P) \<and> (\<forall>l. l \<noteq> k \<longrightarrow> p_data (pan P l) \<noteq> Some x))"

definition free_panel :: "panels \<Rightarrow> nat \<Rightarrow> bool" where
  "free_panel P k \<longleftrightarrow> (\<forall>x. p_data (pan P k) = Some x \<longrightarrow> \<not> transitioning (objs P ! x))"

definition closing :: "panel \<Rightarrow> bool" where
  "closing p \<longleftrightarrow> \<not> p_in p \<and> (\<forall>h \<in> set (dos (bound (p_ends p))). \<exists>x. h = HideDone x)"

lemma complete_objs: "length (objs (complete_panel i h P)) = length (objs P)"
  "x \<noteq> (case h of ShowDone y \<Rightarrow> y | HideDone y \<Rightarrow> y) \<Longrightarrow> objs (complete_panel i h P) ! x = objs P ! x"
  "p_data (pan (complete_panel i h P) k) = p_data (pan P k)"
  by (auto simp: complete_panel_def set_transitioning_def show_done_def hide_done_def add_event_def split: completion.split)

lemma hide_objs: "length (objs (hide_panel prevented i obj P)) = length (objs P)"
  "x \<noteq> obj \<Longrightarrow> objs (hide_panel prevented i obj P) ! x = objs P ! x"
  "p_data (pan (hide_panel prevented i obj P) k) = p_data (pan P k)"
  by (auto simp: hide_panel_def Let_def finish_def complete_objs set_transitioning_def hide_classes_def resize_def
      add_event_def)

lemma hide_closes:
  assumes "p_in (pan P i)" "dos (bound (p_ends (pan P i))) = []" "\<not> transitioning (objs P ! obj)" "\<not> prevented HideEv i"
  shows "closing (pan (hide_panel prevented i obj P) i)"
  using assms
  by (auto simp: hide_panel_def Let_def finish_def closing_def complete_panel_def hide_done_def add_event_def)

lemma closing_keeps [simp]: "closing (p\<lparr>p_data := d\<rparr>) = closing p"
  by (simp add: closing_def)

lemma add_obj_fields [simp]: "pan (P\<lparr>objs := l\<rparr>) = pan P" "c_support (P\<lparr>objs := l\<rparr>) = c_support P"
  by simp_all

lemma plugin_hide_effect:
  assumes "data_ok P" "p_in (pan P k)" "dos (bound (p_ends (pan P k))) = []" "free_panel P k" "\<not> prevented HideEv k"
  shows "closing (pan (plugin_hide prevented P k) k)" "data_ok (plugin_hide prevented P k)"
    "l \<noteq> k \<Longrightarrow> free_panel P l \<Longrightarrow> free_panel (plugin_hide prevented P k) l"
proof -
  define P1 where "P1 = snd (new_obj k None P)"
  have P1: "p_in (pan P1 k)" "dos (bound (p_ends (pan P1 k))) = []" "\<not> transitioning (objs P1 ! length (objs P))"
    "objs P1 = objs P @ [\<lparr>transitioning = False, c_group = None\<rparr>]" "p_data (pan P1 j) = p_data (pan P j)" for j
    using assms(2,3) by (simp_all add: P1_def)
  define H where "H = hide_panel prevented k (length (objs P)) P1"
  have H: "closing (pan H k)" using hide_closes [where prevented = prevented, OF P1(1-3) assms(5)] by (simp add: H_def)
  have none: "plugin_hide prevented P k = set_panel k (\<lambda>p. p\<lparr>p_data := Some (length (objs P))\<rparr>) H"
    if "p_data (pan P k) = None"
    using that P1(1) H by (simp add: plugin_hide_def Let_def P1_def H_def hide_not_in closing_def)
  have HO: "length (objs H) = Suc (length (objs P))" "p_data (pan H j) = p_data (pan P j)"
    "x < length (objs P) \<Longrightarrow> objs H ! x = objs P ! x" for j x
    using hide_objs [where prevented = prevented and i = k and obj = "length (objs P)" and P = P1] P1(4,5) by (simp_all add: H_def nth_append)
  have "closing (pan (plugin_hide prevented P k) k) \<and> data_ok (plugin_hide prevented P k) \<and>
      (l \<noteq> k \<longrightarrow> free_panel P l \<longrightarrow> free_panel (plugin_hide prevented P k) l)"
  proof (cases "p_data (pan P k)")
    case None
    show ?thesis
      unfolding none [OF None] using assms(1) H
      by (fastforce simp: data_ok_def free_panel_def HO less_Suc_eq)
  next
    case (Some x)
    then have eq: "plugin_hide prevented P k = hide_panel prevented k x P" by (simp add: plugin_hide_def)
    have "\<not> transitioning (objs P ! x)" using assms(4) Some by (simp add: free_panel_def)
    then show ?thesis
      unfolding eq using hide_closes [where prevented = prevented, OF assms(2,3) _ assms(5)] assms(1) Some
        hide_objs(2) [where prevented = prevented and obj = x and i = k and P = P]
      by (auto simp: data_ok_def free_panel_def hide_objs(1,3)) metis
  qed
  then show "closing (pan (plugin_hide prevented P k) k)" "data_ok (plugin_hide prevented P k)"
    "l \<noteq> k \<Longrightarrow> free_panel P l \<Longrightarrow> free_panel (plugin_hide prevented P k) l" by blast+
qed

lemma foldl_plugin_hide_other: "l \<notin> set js \<Longrightarrow> pan (foldl (plugin_hide prevented) P js) l = pan P l"
  by (induction js arbitrary: P) simp_all

lemma foldl_plugin_hide_effect:
  assumes "data_ok P" "distinct js" "\<forall>k \<in> set js. p_in (pan P k) \<and> dos (bound (p_ends (pan P k))) = [] \<and> free_panel P k"
    "\<forall>k. \<not> prevented HideEv k" "k \<in> set js"
  shows "closing (pan (foldl (plugin_hide prevented) P js) k)"
  using assms
proof (induction js arbitrary: P)
  case (Cons j js)
  have j: "p_in (pan P j)" "dos (bound (p_ends (pan P j))) = []" "free_panel P j" using Cons.prems(3) by auto
  note e = plugin_hide_effect [OF Cons.prems(1) j]
  show ?case
  proof (cases "k \<in> set js")
    case True
    have "\<forall>k \<in> set js. p_in (pan (plugin_hide prevented P j) k) \<and>
        dos (bound (p_ends (pan (plugin_hide prevented P j) k))) = [] \<and> free_panel (plugin_hide prevented P j) k"
    proof
      fix l assume "l \<in> set js"
      moreover have "l \<noteq> j" using \<open>l \<in> set js\<close> Cons.prems(2) by auto
      ultimately show "p_in (pan (plugin_hide prevented P j) l) \<and>
          dos (bound (p_ends (pan (plugin_hide prevented P j) l))) = [] \<and> free_panel (plugin_hide prevented P j) l"
        using Cons.prems(3,4) e(3) [of prevented l] by simp
    qed
    then show ?thesis using Cons.IH [of "plugin_hide prevented P j"] e(2) [of prevented] Cons.prems(2,4) True by simp
  next
    case False
    then have "k = j" using Cons.prems(5) by simp
    then show ?thesis using e(1) [of prevented] False Cons.prems(4) foldl_plugin_hide_other [of k js prevented] by simp
  qed
qed simp

lemma reset_data_other: "closing (pan (foldl (\<lambda>Q k. set_panel k (\<lambda>p. p\<lparr>p_data := None\<rparr>) Q) P js) i) = closing (pan P i)"
  by (simp add: closing_def reset_data_fields)

lemma hide_actives_closes:
  assumes "data_ok P" "distinct js" "\<forall>k \<in> set js. p_in (pan P k) \<and> dos (bound (p_ends (pan P k))) = [] \<and> free_panel P k"
    "\<forall>k. \<not> prevented HideEv k" "k \<in> set js"
  shows "closing (pan (hide_actives prevented js P) k)"
  using foldl_plugin_hide_effect [where prevented = prevented, OF assms] assms(5)
  by (cases js) (auto simp: hide_actives_def Let_def reset_data_other split: option.split)

lemma hide_actives_other:
  "l \<notin> set js \<Longrightarrow> p_in (pan (hide_actives prevented js P) l) = p_in (pan P l) \<and>
     p_ends (pan (hide_actives prevented js P) l) = p_ends (pan P l)"
  by (cases js) (auto simp: hide_actives_def Let_def reset_data_fields foldl_plugin_hide_other split: option.split)

lemma hide_actives_support [simp]: "c_support (hide_actives prevented js P) = c_support P"
proof -
  have a: "c_support (foldl (plugin_hide prevented) P xs) = c_support P" for xs P by (induction xs arbitrary: P) simp_all
  have b: "c_support (foldl (\<lambda>Q k. set_panel k (\<lambda>p. p\<lparr>p_data := None\<rparr>) Q) P xs) = c_support P" for xs P
    by (induction xs arbitrary: P) simp_all
  show ?thesis using a [of P js] b by (cases js) (simp_all add: hide_actives_def Let_def split: option.split)
qed

section \<open>The end of the transitions of an accordion\<close>

lemma ends_eq:
  "pan (collapse_transition k End Q) k =
     pan (foldl (\<lambda>Q h. complete_panel k h Q) (set_panel k (\<lambda>p. p\<lparr>p_ends := fst (tstep End (p_ends (pan Q k)))\<rparr>) Q)
       (dos (bound (p_ends (pan Q k))))) k"
  by (simp add: collapse_transition_def case_prod_beta)

lemma closing_ends: "closing (pan Q k) \<Longrightarrow> \<not> p_in (pan (collapse_transition k End Q) k)"
proof -
  have *: "\<not> p_in (pan (foldl (\<lambda>Q h. complete_panel k h Q) R hs) k)"
    if "\<not> p_in (pan R k)" "\<forall>h \<in> set hs. \<exists>x. h = HideDone x" for R hs
    using that by (induction hs arbitrary: R) (auto simp: complete_panel_def hide_done_def add_event_def)
  assume "closing (pan Q k)"
  then show ?thesis unfolding ends_eq by (intro *) (simp_all add: closing_def)
qed

lemma start_show_ends:
  "dos (bound (p_ends (pan P i))) = [] \<Longrightarrow> p_in (pan (collapse_transition i End (start_show i obj P)) i)"
  unfolding ends_eq by (auto simp: start_show_def finish_def complete_panel_def show_done_def add_event_def)

section \<open>Opening a panel of an accordion\<close>

definition quiet :: "panels \<Rightarrow> bool" where
  "quiet P \<longleftrightarrow> (\<forall>k. settled (pan P k)) \<and> data_ok P \<and> (\<forall>x < length (objs P). \<not> transitioning (objs P ! x))"

lemma quiet_free: "quiet P \<Longrightarrow> free_panel P k"
  by (auto simp: quiet_def free_panel_def data_ok_def)

lemma quiet_ends: "quiet P \<Longrightarrow> dos (bound (p_ends (pan P k))) = []"
  by (simp add: quiet_def settled_def)

lemma show_panel_opens:
  assumes "quiet P" "\<not> p_in (pan P i)" "i \<in> set G" "distinct G" "c_group (objs P ! x) = Some G"
    "\<not> transitioning (objs P ! x)" "k \<in> set G"
  shows "p_in (pan (collapse_transition k End (show_panel (\<lambda>e k. False) i x P)) k) \<longleftrightarrow> k = i"
proof -
  define js where "js = actives x P"
  have act: "js = filter (\<lambda>j. p_in (pan P j)) G" using assms(1,5) by (simp add: js_def actives_def quiet_def settled_def)
  have "\<not> first_busy js P" using quiet_free [OF assms(1)] by (simp add: first_busy_def free_panel_def split: list.split option.split)
  then have eq: "show_panel (\<lambda>e k. False) i x P
      = start_show i x (hide_actives (\<lambda>e k. False) js (set_panel i (add_event ShowEv) P))"
    using assms(2,6) by (simp add: show_panel_def Let_def js_def)
  define R where "R = set_panel i (add_event ShowEv) P"
  define H where "H = hide_actives (\<lambda>e k. False) js R"
  have data: "p_data (pan R l) = p_data (pan P l)" for l by (simp add: R_def add_event_def)
  have R: "data_ok R" "free_panel R l" for l
    using assms(1) quiet_free [OF assms(1), of l] data by (simp_all add: data_ok_def quiet_def free_panel_def R_def)
  have i: "i \<notin> set js" using act assms(2) by simp
  show ?thesis
  proof (cases "k = i")
    case True
    have "dos (bound (p_ends (pan H i))) = []"
      using hide_actives_other [OF i, of "\<lambda>e k. False" R] quiet_ends [OF assms(1)] by (simp add: H_def R_def)
    then show ?thesis using True start_show_ends [of H i x] by (simp add: eq H_def R_def)
  next
    case False
    have "closing (pan H k)"
    proof (cases "k \<in> set js")
      case True
      then show ?thesis
        unfolding H_def using act assms(4) R quiet_ends [OF assms(1)]
        by (intro hide_actives_closes) (auto simp: R_def)
    next
      case False
      then have "\<not> p_in (pan P k)" using act assms(7) by simp
      then show ?thesis
        using hide_actives_other [OF False, of "\<lambda>e k. False" R] quiet_ends [OF assms(1), of k] \<open>k \<noteq> i\<close>
        by (simp add: closing_def H_def R_def)
    qed
    then have "closing (pan (start_show i x H) k)" using False by simp
    from closing_ends [OF this] show ?thesis using False by (simp add: eq H_def R_def)
  qed
qed

lemma foldl_add_aria: "objs (foldl (\<lambda>Q j. set_panel j add_aria Q) P js) = objs P"
  "c_support (foldl (\<lambda>Q j. set_panel j add_aria Q) P js) = c_support P"
  "p_in (pan (foldl (\<lambda>Q j. set_panel j add_aria Q) P js) l) = p_in (pan P l)"
  "p_data (pan (foldl (\<lambda>Q j. set_panel j add_aria Q) P js) l) = p_data (pan P l)"
  "settled (pan (foldl (\<lambda>Q j. set_panel j add_aria Q) P js) l) = settled (pan P l)"
  by (induction js arbitrary: P) (simp_all add: settled_def add_aria_def)

lemma new_obj_quiet:
  assumes "quiet P" "new_obj i (Some G) P = (x, P1)"
  shows "quiet P1" "p_in (pan P1 l) = p_in (pan P l)" "c_group (objs P1 ! x) = Some G" "\<not> transitioning (objs P1 ! x)"
proof -
  define Q where "Q = P\<lparr>objs := objs P @ [\<lparr>transitioning = False, c_group = Some G\<rparr>]\<rparr>"
  have x: "x = length (objs P)" "P1 = foldl (\<lambda>Q j. set_panel j add_aria Q) Q G"
    using assms(2) by (simp_all add: new_obj_def Let_def Q_def)
  have o: "objs P1 = objs P @ [\<lparr>transitioning = False, c_group = Some G\<rparr>]" by (simp add: x foldl_add_aria Q_def)
  show "c_group (objs P1 ! x) = Some G" "\<not> transitioning (objs P1 ! x)" by (simp_all add: o x(1))
  show "p_in (pan P1 l) = p_in (pan P l)" by (simp add: x foldl_add_aria Q_def)
  have d: "p_data (pan P1 l) = p_data (pan P l)" "settled (pan P1 l) = settled (pan P l)" for l
    by (simp_all add: x foldl_add_aria Q_def)
  show "quiet P1" using assms(1) unfolding quiet_def data_ok_def d o
    by (auto simp: nth_append less_Suc_eq)
qed

lemma transition_data: "p_in (pan (collapse_transition k End (set_panel i (\<lambda>p. p\<lparr>p_data := d\<rparr>) Q)) k)
    = p_in (pan (collapse_transition k End Q) k)"
proof -
  have *: "p_in (pan (foldl (\<lambda>Q h. complete_panel k h Q) A hs) k) = p_in (pan (foldl (\<lambda>Q h. complete_panel k h Q) B hs) k)"
    if "p_in (pan A k) = p_in (pan B k)" for A B hs
    using that
  proof (induction hs arbitrary: A B)
    case (Cons h hs)
    have "p_in (pan (complete_panel k h A) k) = p_in (pan (complete_panel k h B) k)"
      using Cons.prems by (cases h) (simp_all add: complete_panel_def show_done_def hide_done_def add_event_def)
    from Cons.IH [OF this] show ?case by simp
  qed simp
  have e: "p_ends (pan (set_panel i (\<lambda>p. p\<lparr>p_data := d\<rparr>) Q) k) = p_ends (pan Q k)" by simp
  show ?thesis unfolding ends_eq e by (rule *) simp
qed

text \<open> A click on the link of a closed panel of an accordion that is at rest: once the transitions have ended, that
  panel is open and all the others of the accordion are closed.\<close>

theorem accordion_one_open:
  assumes "quiet P" "\<not> p_in (pan P i)" "i \<in> set G" "distinct G"
    "\<forall>x. p_data (pan P i) = Some x \<longrightarrow> c_group (objs P ! x) = Some G"
  shows "filter (\<lambda>k. p_in (pan (collapse_transition k End (collapse_click (\<lambda>e k. False) i (Some G) P)) k)) G = [i]"
proof -
  have main: "p_in (pan (collapse_transition k End (collapse_click (\<lambda>e k. False) i (Some G) P)) k) \<longleftrightarrow> k = i"
    if k: "k \<in> set G" for k
  proof (cases "p_data (pan P i)")
    case None
    obtain x P1 where n: "new_obj i (Some G) P = (x, P1)" by (cases "new_obj i (Some G) P")
    note q = new_obj_quiet [OF assms(1) n]
    have "p_in (pan (collapse_transition k End (show_panel (\<lambda>e k. False) i x P1)) k) \<longleftrightarrow> k = i"
      using show_panel_opens [OF q(1) _ assms(3,4) q(3,4) k] q(2) [of i] assms(2) by simp
    then show ?thesis
      using None n assms(2) q(2) [of i]
      by (simp add: collapse_click_def collapse_plugin_def call_group_def call_toggle_def construct_def toggle_panel_def
          transition_data)
  next
    case (Some x)
    have "\<not> transitioning (objs P ! x)" using assms(1) Some by (auto simp: quiet_def data_ok_def)
    then show ?thesis
      using show_panel_opens [OF assms(1-4) _ _ k, of x] assms(2,5) Some
      by (simp add: collapse_click_def collapse_plugin_def toggle_panel_def)
  qed
  then have "filter (\<lambda>k. p_in (pan (collapse_transition k End (collapse_click (\<lambda>e k. False) i (Some G) P)) k)) G
      = filter (\<lambda>k. k = i) G" by (auto intro: filter_cong)
  also have "\<dots> = [i]" using assms(3,4) by (induction G) (auto simp: filter_empty_conv)
  finally show ?thesis .
qed

theorem accordion_one_open_witness:
  "filter (\<lambda>k. p_in (pan (collapse_transition k End (collapse_click (\<lambda>e k. False) 0 (Some [0, 1, 2]) demo_panels)) k))
     [0, 1, 2] = [0]"
proof -
  have d: "p_data (pan demo_panels k) = None" "objs demo_panels = []" "p_in (pan demo_panels k) \<longleftrightarrow> k = 1" for k
    by (simp_all add: demo_panels_def closed_panel_def)
  then have "quiet demo_panels" using demo_settled by (simp add: quiet_def data_ok_def)
  then show ?thesis by (rule accordion_one_open) (simp_all add: d)
qed

text \<open>A finding: \<open>hide\<close> on a closed panel that has no object yet opens it, as the constructor toggles.\<close>

lemma hide_opens_closed:
  "p_in (pan (collapse_transition 0 End (collapse_plugin (\<lambda>e k. False) 0 HideCall demo_panels)) 0)"
  by code_simp

end
