(* ===== verification/BS_Simple.thy ===== *)
theory BS_Simple
  imports BS_Transition
begin

text \<open>
  The targets of Bootstrap's links, the alerts and the buttons (bootstrap.js, alert.js and button.js).
  The elements a selector finds are a parameter, \<open>query\<close>; the model covers selectors that find at most one
  element. A class of an element is a field of its record.
\<close>

section \<open>The target of a link\<close>

text \<open>\<open>replace (/.*(?=#[^\s]*$)/, '')\<close>: what stands before the last hash that nothing but visible characters
  follow is cut off, as far back as the line begins; some components ask for at least one such character.\<close>

fun last_hash :: "nat \<Rightarrow> string \<Rightarrow> string option" where
  "last_hash n [] = None"
| "last_hash n (c # cs) =
     (case last_hash n cs of
        Some r \<Rightarrow> Some r
      | None \<Rightarrow> if c = CHR ''#'' \<and> n \<le> length cs \<and> list_all (\<lambda>d. \<not> is_space d) cs then Some (c # cs) else None)"

definition line_start :: "string \<Rightarrow> string" where
  "line_start s = rev (dropWhile (\<lambda>c. c \<noteq> CHR 0x0A) (rev s))"

definition strip_href :: "nat \<Rightarrow> string \<Rightarrow> string" where
  "strip_href n s = (case last_hash n s of None \<Rightarrow> s | Some r \<Rightarrow> line_start s @ r)"

record link_el =
  data_target :: "string option"
  href :: "string option"

definition or_empty :: "string option \<Rightarrow> string" where
  "or_empty v = (case v of None \<Rightarrow> [] | Some s \<Rightarrow> s)"

text \<open>Alert and tab: \<open>data-target\<close>, or the stripped \<open>href\<close>; an absent or empty selector finds nothing.\<close>

definition selector_of :: "nat \<Rightarrow> link_el \<Rightarrow> string" where
  "selector_of n l =
     (if or_empty (data_target l) \<noteq> [] then or_empty (data_target l) else strip_href n (or_empty (href l)))"

definition find_target :: "(string \<Rightarrow> nat option) \<Rightarrow> string \<Rightarrow> nat option" where
  "find_target query s = (if s = [] then None else query s)"

section \<open>Alerts\<close>

datatype alert_event = CloseAlert | ClosedAlert

record alert =
  al_in :: bool
  al_fade :: bool
  al_attached :: bool
  al_ends :: "unit trans"
  al_events :: "alert_event list"

definition close_target :: "(string \<Rightarrow> nat option) \<Rightarrow> link_el \<Rightarrow> nat option \<Rightarrow> nat option" where
  "close_target query l closest =
     (case find_target query (selector_of 0 l) of Some i \<Rightarrow> Some i | None \<Rightarrow> closest)"

definition remove_element :: "alert \<Rightarrow> alert" where
  "remove_element a = a\<lparr>al_attached := False, al_events := al_events a @ [ClosedAlert]\<rparr>"

definition close_alert :: "bool \<Rightarrow> bool \<Rightarrow> alert \<Rightarrow> alert" where
  "close_alert support prevented a =
     (let a1 = a\<lparr>al_events := al_events a @ [CloseAlert]\<rparr>
      in if prevented then a1
         else let a2 = a1\<lparr>al_in := False\<rparr>
              in if support \<and> al_fade a then a2\<lparr>al_ends := emulate (one () (al_ends a))\<rparr> else remove_element a2)"

definition alert_close :: "bool \<Rightarrow> (nat \<Rightarrow> bool) \<Rightarrow> (string \<Rightarrow> nat option) \<Rightarrow> link_el \<Rightarrow> nat option \<Rightarrow>
    (nat \<Rightarrow> alert) \<Rightarrow> (nat \<Rightarrow> alert)" where
  "alert_close support prevented query l closest page =
     (case close_target query l closest of
        None \<Rightarrow> page
      | Some i \<Rightarrow> page(i := close_alert support (prevented i) (page i)))"

definition alert_transition :: "tstep \<Rightarrow> alert \<Rightarrow> alert" where
  "alert_transition s a =
     (let (T, hs) = tstep s (al_ends a) in foldl (\<lambda>b h. remove_element b) (a\<lparr>al_ends := T\<rparr>) hs)"

lemma alert_closes:
  assumes "dos (bound (al_ends a)) = []"
  shows "\<not> al_attached (alert_transition End (close_alert support False a))"
    "al_attached a \<Longrightarrow> al_attached (close_alert support True a)"
  using assms
  by (simp_all add: close_alert_def Let_def alert_transition_def tstep_def fire_def one_def emulate_def remove_element_def)

section \<open>Buttons\<close>

record button =
  b_input :: bool
  b_text :: string
  b_data :: "string \<rightharpoonup> string"
  b_options :: "string \<rightharpoonup> string"
  isLoading :: bool
  b_disabled :: bool
  b_timers :: "string list"

definition button_defaults :: "string \<rightharpoonup> string" where
  "button_defaults = [''loadingText'' \<mapsto> ''loading...'']"

definition new_button :: "bool \<Rightarrow> string \<Rightarrow> (string \<rightharpoonup> string) \<Rightarrow> (string \<rightharpoonup> string) \<Rightarrow> button" where
  "new_button is_input txt data options =
     \<lparr>b_input = is_input, b_text = txt, b_data = data, b_options = button_defaults ++ options, isLoading = False,
      b_disabled = False, b_timers = []\<rparr>"

definition setState :: "string \<Rightarrow> button \<Rightarrow> button" where
  "setState state b =
     b\<lparr>b_data := (if b_data b ''resetText'' = None then (b_data b)(''resetText'' \<mapsto> b_text b) else b_data b),
       b_timers := b_timers b @ [state @ ''Text'']\<rparr>"

text \<open>An undefined text empties an input (\<open>val\<close>) and leaves other elements as they are (\<open>html\<close>).\<close>

definition state_timer :: "button \<Rightarrow> button" where
  "state_timer b =
     (case b_timers b of
        [] \<Rightarrow> b
      | st # sts \<Rightarrow>
          (let v = (case b_data b st of Some s \<Rightarrow> Some s | None \<Rightarrow> b_options b st);
               b1 = b\<lparr>b_timers := sts,
                      b_text := (case v of Some s \<Rightarrow> s | None \<Rightarrow> if b_input b then [] else b_text b)\<rparr>
           in if st = ''loadingText'' then b1\<lparr>isLoading := True, b_disabled := True\<rparr>
              else if isLoading b1 then b1\<lparr>isLoading := False, b_disabled := False\<rparr> else b1))"

lemma loading_then_reset:
  assumes "b_timers b = []" "b_data b ''resetText'' = None" "\<not> b_disabled b"
  shows "b_text (state_timer (setState ''reset'' (state_timer (setState ''loading'' b)))) = b_text b"
    "\<not> b_disabled (state_timer (setState ''reset'' (state_timer (setState ''loading'' b))))"
    "b_disabled (state_timer (setState ''loading'' b))"
  using assms by (simp_all add: setState_def state_timer_def Let_def split: option.splits)

text \<open>A button of a group: the label's class \<open>active\<close> and its input, if it has one. \<open>toggle\<close> of the button \<open>i\<close>;
  \<open>grouped\<close> tells that the labels stand in an element with \<open>data-toggle="buttons"\<close>.\<close>

record label =
  lb_active :: bool
  lb_input :: bool
  lb_radio :: bool
  lb_checked :: bool
  lb_pressed :: "bool option"
  lb_focus :: bool
  lb_changes :: nat

definition toggle_label :: "bool \<Rightarrow> nat \<Rightarrow> label list \<Rightarrow> label list" where
  "toggle_label grouped i ls =
     (let b = ls ! i;
          held = (grouped \<and> lb_input b \<and> lb_radio b \<and> lb_checked b \<and> lb_active b);
          ls1 = (if grouped \<and> lb_input b \<and> lb_radio b \<and> \<not> held then map (\<lambda>l. l\<lparr>lb_active := False\<rparr>) ls else ls);
          b1 = ls1 ! i;
          b2 = (if \<not> grouped then b1\<lparr>lb_pressed := Some (\<not> lb_active b1)\<rparr>
                else if lb_input b \<and> \<not> held then b1\<lparr>lb_checked := (\<not> lb_active b1), lb_changes := lb_changes b1 + 1\<rparr> else b1)
      in ls1[i := (if held then b2 else b2\<lparr>lb_active := (\<not> lb_active b2)\<rparr>)])"

lemma radio_one_active:
  assumes "i < length ls" "lb_input (ls ! i)" "lb_radio (ls ! i)" "\<forall>j < length ls. lb_active (ls ! j) \<longrightarrow> j = k"
    "lb_active (ls ! i) \<longrightarrow> lb_checked (ls ! i)" "j < length ls"
  shows "lb_active (toggle_label True i ls ! j) \<longleftrightarrow> j = i"
  using assms by (auto simp: toggle_label_def Let_def nth_list_update)

text \<open>The class \<open>focus\<close> is on while the event's name is \<open>focus\<close> or \<open>focusin\<close>.\<close>

definition button_focus :: "string \<Rightarrow> label \<Rightarrow> label" where
  "button_focus e l = l\<lparr>lb_focus := (e = ''focus'' \<or> e = ''focusin'')\<rparr>"

datatype button_call = Toggle | SetState string

definition button_plugin :: "bool \<Rightarrow> nat \<Rightarrow> button_call \<Rightarrow> label list \<times> button \<Rightarrow> label list \<times> button" where
  "button_plugin grouped i call s =
     (case call of Toggle \<Rightarrow> (toggle_label grouped i (fst s), snd s)
      | SetState st \<Rightarrow> (fst s, if st = [] then snd s else setState st (snd s)))"

text \<open>The document's click handler toggles the button that was clicked, or the one around it.\<close>

definition button_click :: "bool \<Rightarrow> bool \<Rightarrow> nat \<Rightarrow> nat \<Rightarrow> label list \<Rightarrow> label list" where
  "button_click grouped is_btn target around ls = toggle_label grouped (if is_btn then target else around) ls"

end
