(* ===== verification/BS_Menus.thy ===== *)
theory BS_Menus
  imports BS_Simple
begin

text \<open>
  Dropdown menus and tabs (bootstrap.js, dropdown.js and tab.js). The elements \<open>getParent\<close> can find are
  numbered; the toggles are in document order. The navigation of the tabs is a list of items, each with the
  items of its dropdown menu; a pane is a record of its classes. Whether an event is prevented is a parameter.
\<close>

section \<open>Dropdowns\<close>

text \<open>\<open>getParent\<close>: the pattern \<open>/#[A-Za-z]/\<close> must occur in an \<open>href\<close> for it to name an element.\<close>

definition is_letter :: "char \<Rightarrow> bool" where
  "is_letter c \<longleftrightarrow> (65 \<le> (of_char c :: nat) \<and> (of_char c :: nat) \<le> 90) \<or> (97 \<le> (of_char c :: nat) \<and> (of_char c :: nat) \<le> 122)"

fun hash_letter :: "string \<Rightarrow> bool" where
  "hash_letter (a # b # s) = (a = CHR ''#'' \<and> is_letter b \<or> hash_letter (b # s))"
| "hash_letter s = False"

definition getParent :: "(string \<Rightarrow> nat option) \<Rightarrow> link_el \<Rightarrow> nat \<Rightarrow> nat" where
  "getParent query l parent =
     (let selector = (if or_empty (data_target l) \<noteq> [] then or_empty (data_target l)
                      else if hash_letter (or_empty (href l)) then strip_href 0 (or_empty (href l)) else [])
      in case find_target query selector of Some p \<Rightarrow> p | None \<Rightarrow> parent)"

datatype drop_event = ShowMenu nat | ShownMenu nat | HideMenu nat | HiddenMenu nat

record drop_toggle =
  dt_parent :: nat
  dt_disabled :: bool
  dt_expanded :: bool

record menus =
  toggles :: "drop_toggle list"
  opened :: "nat list"
  backdrops :: nat
  focus_on :: "nat option"
  focus_item :: "(nat \<times> nat) option"
  menu_events :: "drop_event list"

definition say :: "drop_event \<Rightarrow> menus \<Rightarrow> menus" where
  "say ev M = M\<lparr>menu_events := menu_events M @ [ev]\<rparr>"

definition set_expanded :: "nat \<Rightarrow> bool \<Rightarrow> menus \<Rightarrow> menus" where
  "set_expanded i b M = M\<lparr>toggles := (toggles M)[i := (toggles M ! i)\<lparr>dt_expanded := b\<rparr>]\<rparr>"

definition clear_menu :: "(drop_event \<Rightarrow> bool) \<Rightarrow> menus \<Rightarrow> nat \<Rightarrow> menus" where
  "clear_menu prevented M i =
     (let p = dt_parent (toggles M ! i)
      in if p \<notin> set (opened M) then M
         else let M1 = say (HideMenu p) M
              in if prevented (HideMenu p) then M1
                 else let M2 = set_expanded i False M1
                      in say (HiddenMenu p) (M2\<lparr>opened := filter (\<lambda>q. q \<noteq> p) (opened M2)\<rparr>))"

text \<open>\<open>which\<close> is that of the click the menus are cleared for, if it is one.\<close>

definition clearMenus :: "(drop_event \<Rightarrow> bool) \<Rightarrow> int option \<Rightarrow> menus \<Rightarrow> menus" where
  "clearMenus prevented which M =
     (if which = Some 3 then M
      else foldl (clear_menu prevented) (M\<lparr>backdrops := 0\<rparr>) [0..<length (toggles M)])"

definition toggle_menu :: "(drop_event \<Rightarrow> bool) \<Rightarrow> bool \<Rightarrow> nat \<Rightarrow> menus \<Rightarrow> menus" where
  "toggle_menu prevented touch i M =
     (if dt_disabled (toggles M ! i) then M
      else
        (let p = dt_parent (toggles M ! i); isActive = (p \<in> set (opened M)); M1 = clearMenus prevented None M
         in if isActive then M1
            else
              (let M2 = say (ShowMenu p) (if touch then M1\<lparr>backdrops := backdrops M1 + 1\<rparr> else M1)
               in if prevented (ShowMenu p) then M2
                  else let M3 = set_expanded i True (M2\<lparr>focus_on := Some i\<rparr>)
                       in say (ShownMenu p) (M3\<lparr>opened := (if p \<in> set (opened M3) then filter (\<lambda>q. q \<noteq> p) (opened M3)
                                                        else opened M3 @ [p])\<rparr>))))"

text \<open>A click on a toggle: where \<open>toggle\<close> does not return false, at a disabled toggle or when the page keeps the menu
  from being shown, the click goes on to the handler \<open>clearMenus\<close> of the document itself.\<close>

definition click_goes_on :: "(drop_event \<Rightarrow> bool) \<Rightarrow> nat \<Rightarrow> menus \<Rightarrow> bool" where
  "click_goes_on prevented i M \<longleftrightarrow>
     (let p = dt_parent (toggles M ! i) in dt_disabled (toggles M ! i) \<or> p \<notin> set (opened M) \<and> prevented (ShowMenu p))"

definition click_toggle :: "(drop_event \<Rightarrow> bool) \<Rightarrow> bool \<Rightarrow> nat \<Rightarrow> menus \<Rightarrow> menus" where
  "click_toggle prevented touch i M =
     (let M1 = toggle_menu prevented touch i M
      in if click_goes_on prevented i M then clearMenus prevented None M1 else M1)"

text \<open>The pattern \<open>/(38|40|27|32)/\<close> is looked for anywhere in the decimal text of the code.\<close>

fun substring_at :: "string \<Rightarrow> string \<Rightarrow> bool" where
  "substring_at p s = (take (length p) s = p \<or> (case s of [] \<Rightarrow> False | c # cs \<Rightarrow> substring_at p cs))"

definition menu_key :: "int \<Rightarrow> bool" where
  "menu_key code \<longleftrightarrow> (\<exists>p \<in> set [''38'', ''40'', ''27'', ''32'']. substring_at p (show_int code))"

text \<open>The index of the focussed item among \<open>n\<close> items; \<open>-1\<close> if the key was not pressed on an item.\<close>

definition next_index :: "int \<Rightarrow> nat \<Rightarrow> int \<Rightarrow> int" where
  "next_index code n index =
     (let a = (if code = 38 \<and> index > 0 then index - 1 else index);
          b = (if code = 40 \<and> a < int n - 1 then a + 1 else a)
      in if b = -1 then 0 else b)"

definition menu_keydown :: "(drop_event \<Rightarrow> bool) \<Rightarrow> bool \<Rightarrow> bool \<Rightarrow> int \<Rightarrow> nat \<Rightarrow> int \<Rightarrow> nat \<Rightarrow> menus \<Rightarrow> menus" where
  "menu_keydown prevented touch in_field code n index i M =
     (if \<not> menu_key code \<or> in_field \<or> dt_disabled (toggles M ! i) then M
      else
        (let p = dt_parent (toggles M ! i); isActive = (p \<in> set (opened M))
         in if (\<not> isActive \<and> code \<noteq> 27) \<or> (isActive \<and> code = 27)
            then click_toggle prevented touch i (if code = 27 then M\<lparr>focus_on := Some i\<rparr> else M)
            else if n = 0 then M
            else M\<lparr>focus_item := Some (p, nat (next_index code n index))\<rparr>))"

inductive menu_step :: "(drop_event \<Rightarrow> bool) \<Rightarrow> menus \<Rightarrow> menus \<Rightarrow> bool" for prevented where
  click: "i < length (toggles M) \<Longrightarrow> menu_step prevented M (click_toggle prevented touch i M)"
| called: "i < length (toggles M) \<Longrightarrow> menu_step prevented M (toggle_menu prevented touch i M)"
| outside: "menu_step prevented M (clearMenus prevented which M)"
| key: "i < length (toggles M) \<Longrightarrow> menu_step prevented M (menu_keydown prevented touch in_field code n index i M)"

section \<open>Tabs\<close>

record nav_item =
  ni_active :: bool
  ni_dropdown :: bool
  ni_expanded :: bool
  ni_children :: "bool list"

datatype next_tab = NextTab "nat list" nat

record pane =
  pn_active :: bool
  pn_fade :: bool
  pn_in :: bool
  pn_ends :: "next_tab trans"

record tabs =
  nav_items :: "nav_item list"
  panes :: "pane list"
  t_support :: bool

text \<open>The link of a tab: of an item, or of an item of a dropdown menu.\<close>

type_synonym tab_link = "nat \<times> nat option"

definition link_active :: "tab_link \<Rightarrow> tabs \<Rightarrow> bool" where
  "link_active l t =
     (case l of (i, None) \<Rightarrow> ni_active (nav_items t ! i) | (i, Some k) \<Rightarrow> ni_children (nav_items t ! i) ! k)"

text \<open>\<open>activate\<close> on the navigation, where no callback is given: the items change at once. \<open>element.parent (...)\<close>
  is an object and so always true.\<close>

definition clear_item :: "nav_item \<Rightarrow> nav_item" where
  "clear_item it =
     (if ni_active it then it\<lparr>ni_active := False, ni_children := map (\<lambda>b. False) (ni_children it), ni_expanded := False\<rparr>
      else it)"

definition mark_item :: "nat option \<Rightarrow> nav_item \<Rightarrow> nav_item" where
  "mark_item k it =
     (case k of
        None \<Rightarrow> it\<lparr>ni_active := True, ni_expanded := True\<rparr>
      | Some c \<Rightarrow> it\<lparr>ni_active := (ni_active it \<or> ni_dropdown it), ni_children := (ni_children it)[c := True]\<rparr>)"

definition activate_nav :: "tab_link \<Rightarrow> nav_item list \<Rightarrow> nav_item list" where
  "activate_nav l its =
     (let cleared = map clear_item its in cleared[fst l := mark_item (snd l) (cleared ! fst l)])"

definition set_pane :: "nat \<Rightarrow> (pane \<Rightarrow> pane) \<Rightarrow> pane list \<Rightarrow> pane list" where
  "set_pane i f ps = (if i < length ps then ps[i := f (ps ! i)] else ps)"

definition next_pane :: "bool \<Rightarrow> next_tab \<Rightarrow> pane list \<Rightarrow> pane list" where
  "next_pane transition h ps =
     (case h of NextTab acts x \<Rightarrow>
        set_pane x (\<lambda>p. (if transition then p\<lparr>pn_active := True, pn_in := True\<rparr> else p\<lparr>pn_active := True, pn_fade := False\<rparr>))
          (foldl (\<lambda>qs a. set_pane a (\<lambda>p. p\<lparr>pn_active := False\<rparr>) qs) ps acts))"

definition active_panes :: "pane list \<Rightarrow> nat list" where
  "active_panes ps = filter (\<lambda>i. pn_active (ps ! i)) [0..<length ps]"

definition activate_pane :: "bool \<Rightarrow> nat \<Rightarrow> pane list \<Rightarrow> pane list" where
  "activate_pane support x ps =
     (let acts = active_panes ps;
          transition = (support \<and> (\<exists>p \<in> set ps. pn_fade p));
          qs = (if acts \<noteq> [] \<and> transition
                then foldl (\<lambda>qs a. set_pane a (\<lambda>p. p\<lparr>pn_ends := emulate (one (NextTab acts x) (pn_ends p))\<rparr>) qs) ps acts
                else next_pane transition (NextTab acts x) ps)
      in foldl (\<lambda>qs a. set_pane a (\<lambda>p. p\<lparr>pn_in := False\<rparr>) qs) qs acts)"

definition tab_show :: "bool \<Rightarrow> tab_link \<Rightarrow> nat \<Rightarrow> tabs \<Rightarrow> tabs" where
  "tab_show prevented l x t =
     (if link_active l t \<or> prevented then t
      else t\<lparr>nav_items := activate_nav l (nav_items t), panes := activate_pane (t_support t) x (panes t)\<rparr>)"

definition tab_transition :: "nat \<Rightarrow> tstep \<Rightarrow> tabs \<Rightarrow> tabs" where
  "tab_transition i s t =
     (let (T, hs) = tstep s (pn_ends (panes t ! i))
      in t\<lparr>panes := foldl (\<lambda>ps h. next_pane True h ps) (set_pane i (\<lambda>p. p\<lparr>pn_ends := T\<rparr>) (panes t)) hs\<rparr>)"

end
