(* ===== verification/BS_MenusProps.thy ===== *)
theory BS_MenusProps
  imports BS_Menus
begin

text \<open>
  At most one dropdown menu is open, and one tab is active once its transition is over.
\<close>

section \<open>Dropdowns\<close>

definition parents :: "menus \<Rightarrow> nat list" where
  "parents M = map dt_parent (toggles M)"

lemma parents_keep [simp]:
  "parents (say ev M) = parents M" "parents (set_expanded i b M) = parents M" "parents (M\<lparr>opened := l\<rparr>) = parents M"
  "parents (M\<lparr>backdrops := n\<rparr>) = parents M" "parents (M\<lparr>focus_on := f\<rparr>) = parents M"
  "parents (M\<lparr>focus_item := g\<rparr>) = parents M"
proof -
  have "(map dt_parent (toggles M))[i := dt_parent (toggles M ! i)] = map dt_parent (toggles M)"
    by (metis list_update_beyond list_update_id map_update not_le)
  then show "parents (set_expanded i b M) = parents M" by (simp add: parents_def set_expanded_def map_update)
qed (simp_all add: parents_def say_def)

lemma opened_keep [simp]:
  "opened (say ev M) = opened M" "opened (set_expanded i b M) = opened M"
  by (simp_all add: say_def set_expanded_def)

lemma length_toggles: "length (toggles M) = length (parents M)"
  by (simp add: parents_def)

lemma clear_menu_effect:
  assumes "i < length (toggles M)" "\<forall>p. \<not> prevented (HideMenu p)"
  shows "parents (clear_menu prevented M i) = parents M"
    "opened (clear_menu prevented M i) = filter (\<lambda>q. q \<noteq> parents M ! i) (opened M)"
  using assms by (auto simp: clear_menu_def Let_def parents_def [of M] intro!: filter_True [symmetric])

lemma clear_all:
  assumes "\<forall>p. \<not> prevented (HideMenu p)" "k \<le> length (toggles M)"
  shows "parents (foldl (clear_menu prevented) M [0..<k]) = parents M \<and>
    opened (foldl (clear_menu prevented) M [0..<k]) = filter (\<lambda>q. q \<notin> set (take k (parents M))) (opened M)"
  using assms(2)
proof (induction k)
  case (Suc k)
  let ?N = "foldl (clear_menu prevented) M [0..<k]"
  have IH: "parents ?N = parents M" "opened ?N = filter (\<lambda>q. q \<notin> set (take k (parents M))) (opened M)"
    using Suc by simp_all
  have k: "k < length (toggles ?N)" using Suc.prems IH(1) by (metis length_toggles Suc_le_eq)
  have t: "set (take (Suc k) (parents M)) = insert (parents M ! k) (set (take k (parents M)))"
    using Suc.prems by (simp add: take_Suc_conv_app_nth length_toggles)
  show ?case
    using clear_menu_effect [OF k assms(1)] IH unfolding t by (auto simp: filter_filter intro!: filter_cong)
qed simp

definition one_open :: "menus \<Rightarrow> bool" where
  "one_open M \<longleftrightarrow> length (opened M) \<le> 1 \<and> set (opened M) \<subseteq> set (parents M)"

lemma clearMenus_effect:
  assumes "\<forall>p. \<not> prevented (HideMenu p)" "one_open M"
  shows "parents (clearMenus prevented which M) = parents M" "one_open (clearMenus prevented which M)"
    "which \<noteq> Some 3 \<Longrightarrow> opened (clearMenus prevented which M) = []"
proof -
  let ?M = "M\<lparr>backdrops := 0\<rparr>"
  have "opened (foldl (clear_menu prevented) ?M [0..<length (toggles M)]) = []" and
    p: "parents (foldl (clear_menu prevented) ?M [0..<length (toggles M)]) = parents M"
    using clear_all [OF assms(1), of "length (toggles M)" ?M] assms(2)
    by (auto simp: one_open_def length_toggles filter_empty_conv)
  then show "parents (clearMenus prevented which M) = parents M" "one_open (clearMenus prevented which M)"
    "which \<noteq> Some 3 \<Longrightarrow> opened (clearMenus prevented which M) = []"
    using assms(2) by (auto simp: clearMenus_def one_open_def)
qed

lemma toggle_menu_one:
  assumes "\<forall>p. \<not> prevented (HideMenu p)" "one_open M" "i < length (toggles M)"
  shows "one_open (toggle_menu prevented touch i M)"
    "\<not> dt_disabled (toggles M ! i) \<Longrightarrow> \<not> prevented (ShowMenu (parents M ! i)) \<Longrightarrow>
       opened (toggle_menu prevented touch i M) = (if opened M = [parents M ! i] then [] else [parents M ! i])"
proof -
  note c = clearMenus_effect [OF assms(1,2), of None]
  have p: "dt_parent (toggles M ! i) = parents M ! i" "parents M ! i \<in> set (parents M)"
    using assms(3) by (simp_all add: parents_def)
  have o: "parents M ! i \<in> set (opened M) \<longleftrightarrow> opened M = [parents M ! i]"
    using assms(2) by (cases "opened M") (auto simp: one_open_def)
  show "one_open (toggle_menu prevented touch i M)"
    "\<not> dt_disabled (toggles M ! i) \<Longrightarrow> \<not> prevented (ShowMenu (parents M ! i)) \<Longrightarrow>
       opened (toggle_menu prevented touch i M) = (if opened M = [parents M ! i] then [] else [parents M ! i])"
    using assms(2) c p o by (auto simp: toggle_menu_def Let_def one_open_def)
qed

lemma click_toggle_one:
  assumes "\<forall>p. \<not> prevented (HideMenu p)" "one_open M" "i < length (toggles M)"
  shows "one_open (click_toggle prevented touch i M)"
  using toggle_menu_one(1) [OF assms] clearMenus_effect(2) [OF assms(1)] by (simp add: click_toggle_def Let_def)

text \<open>A click on an enabled toggle that the page does not prevent is the method \<open>toggle\<close>.\<close>

lemma click_is_toggle:
  "\<not> dt_disabled (toggles M ! i) \<Longrightarrow> \<forall>p. \<not> prevented (ShowMenu p) \<Longrightarrow> click_toggle prevented touch i M = toggle_menu prevented touch i M"
  by (simp add: click_toggle_def click_goes_on_def Let_def)

inductive_cases menu_stepE: "menu_step prevented M N"

lemma menu_step_one: "menu_step prevented M N \<Longrightarrow> \<forall>p. \<not> prevented (HideMenu p) \<Longrightarrow> one_open M \<Longrightarrow> one_open N"
proof (elim menu_stepE)
  fix i touch in_field code n index
  assume a: "\<forall>p. \<not> prevented (HideMenu p)" "one_open M" "i < length (toggles M)"
    and N: "N = menu_keydown prevented touch in_field code n index i M"
  have f: "one_open (M\<lparr>focus_on := g\<rparr>)" "one_open (M\<lparr>focus_item := f\<rparr>)" for f g using a(2) by (simp_all add: one_open_def)
  then show "one_open N" using a click_toggle_one [OF a(1)] by (auto simp: N menu_keydown_def Let_def)
qed (simp_all add: toggle_menu_one click_toggle_one clearMenus_effect(2))

text \<open>C28: As long as no page handler prevents a menu from being hidden: whatever sequence of clicks on the toggles,
  clicks elsewhere and keys there is, at most one menu is open; and a click on an enabled toggle
  then opens its menu alone, or closes it if it was open.\<close>

theorem dropdown_one_open:
  assumes "(menu_step prevented)\<^sup>*\<^sup>* M N" "opened M = []" "\<forall>p. \<not> prevented (HideMenu p) \<and> \<not> prevented (ShowMenu p)"
    "i < length (toggles N)" "\<not> dt_disabled (toggles N ! i)"
  shows "length (opened N) \<le> 1 \<and> click_toggle prevented touch i N = toggle_menu prevented touch i N \<and>
    opened (toggle_menu prevented touch i N)
      = (if opened N = [dt_parent (toggles N ! i)] then [] else [dt_parent (toggles N ! i)])"
proof -
  have h: "\<forall>p. \<not> prevented (HideMenu p)" using assms(3) by blast
  have "one_open M" using assms(2) by (simp add: one_open_def)
  with assms(1) have "one_open N" by (induction rule: rtranclp_induct) (use h menu_step_one in blast)+
  then show ?thesis
    using toggle_menu_one(2) [OF h _ assms(4,5), of touch] assms(3,4) click_is_toggle [OF assms(5)] by (simp add: one_open_def parents_def)
qed

definition demo_menus :: menus where
  "demo_menus = \<lparr>toggles = [\<lparr>dt_parent = 7, dt_disabled = False, dt_expanded = False\<rparr>,
       \<lparr>dt_parent = 8, dt_disabled = False, dt_expanded = False\<rparr>],
     opened = [], backdrops = 0, focus_on = None, focus_item = None, menu_events = []\<rparr>"

theorem dropdown_one_open_witness:
  "opened (toggle_menu (\<lambda>e. False) False 1 (toggle_menu (\<lambda>e. False) True 0 demo_menus)) = [8]"
proof -
  have s: "(menu_step (\<lambda>e. False))\<^sup>*\<^sup>* demo_menus (toggle_menu (\<lambda>e. False) True 0 demo_menus)"
    by (rule r_into_rtranclp, rule menu_step.called) (simp add: demo_menus_def)
  have t: "toggles (toggle_menu (\<lambda>e. False) True 0 demo_menus) = [\<lparr>dt_parent = 7, dt_disabled = False, dt_expanded = True\<rparr>,
       \<lparr>dt_parent = 8, dt_disabled = False, dt_expanded = False\<rparr>]" "opened (toggle_menu (\<lambda>e. False) True 0 demo_menus) = [7]"
    by code_simp+
  from dropdown_one_open [OF s, of 1 False] show ?thesis by (simp add: t) (simp add: demo_menus_def)
qed

text \<open>Two toggles of one menu: closing it leaves the attribute \<open>aria-expanded\<close> of the second one set.\<close>

lemma second_toggle_stays_expanded:
  "map dt_expanded (toggles (clearMenus (\<lambda>e. False) None (toggle_menu (\<lambda>e. False) False 1
     (demo_menus\<lparr>toggles := [\<lparr>dt_parent = 7, dt_disabled = False, dt_expanded = False\<rparr>,
       \<lparr>dt_parent = 7, dt_disabled = False, dt_expanded = False\<rparr>]\<rparr>)))) = [False, True]"
  by code_simp

section \<open>Tabs\<close>

definition one_pane :: "nat \<Rightarrow> pane list \<Rightarrow> bool" where
  "one_pane x ps \<longleftrightarrow> active_panes ps = [x] \<and> (\<forall>p \<in> set ps. dos (bound (pn_ends p)) = [])"

lemma length_set_pane [simp]: "length (set_pane i f ps) = length ps"
  by (simp add: set_pane_def)

lemma nth_set_pane: "j < length ps \<Longrightarrow> set_pane i f ps ! j = (if j = i then f (ps ! i) else ps ! j)"
  by (simp add: set_pane_def nth_list_update)

lemma active_panes_single:
  "active_panes ps = [x] \<longleftrightarrow> x < length ps \<and> (\<forall>j < length ps. pn_active (ps ! j) \<longleftrightarrow> j = x)"
proof
  assume a: "active_panes ps = [x]"
  then have "set (active_panes ps) = {x}" by simp
  then show "x < length ps \<and> (\<forall>j < length ps. pn_active (ps ! j) \<longleftrightarrow> j = x)"
    by (auto simp: active_panes_def set_eq_iff)
next
  assume r: "x < length ps \<and> (\<forall>j < length ps. pn_active (ps ! j) \<longleftrightarrow> j = x)"
  then have "active_panes ps = filter (\<lambda>j. j = x) [0..<length ps]" by (auto simp: active_panes_def intro!: filter_cong)
  also have "\<dots> = [x]" using r filter_upt_single by blast
  finally show "active_panes ps = [x]" .
qed

text \<open>The items a tab belongs to, before and after.\<close>

definition nav_ok :: "nav_item list \<Rightarrow> bool" where
  "nav_ok its \<longleftrightarrow> (\<forall>it \<in> set its. True \<in> set (ni_children it) \<longrightarrow> ni_active it)"

definition valid_link :: "tab_link \<Rightarrow> nav_item list \<Rightarrow> bool" where
  "valid_link l its \<longleftrightarrow> fst l < length its \<and>
     (\<forall>c. snd l = Some c \<longrightarrow> ni_dropdown (its ! fst l) \<and> c < length (ni_children (its ! fst l)))"

definition shown_links :: "nav_item list \<Rightarrow> tab_link set" where
  "shown_links its = {(i, None) | i. i < length its \<and> ni_active (its ! i)} \<union>
     {(i, Some c) | i c. i < length its \<and> c < length (ni_children (its ! i)) \<and> ni_children (its ! i) ! c}"

lemma clear_item_clear:
  assumes "nav_ok its" "j < length its"
  shows "\<not> ni_active (clear_item (its ! j))" "c < length (ni_children (its ! j)) \<Longrightarrow> \<not> ni_children (clear_item (its ! j)) ! c"
    "length (ni_children (clear_item (its ! j))) = length (ni_children (its ! j))"
    "ni_dropdown (clear_item (its ! j)) = ni_dropdown (its ! j)"
  using assms by (auto simp: clear_item_def nav_ok_def all_set_conv_all_nth) (metis nth_mem)+

lemma activate_nav_links:
  assumes "nav_ok its" "valid_link l its"
  shows "shown_links (activate_nav l its) = (case l of (i, None) \<Rightarrow> {(i, None)} | (i, Some c) \<Rightarrow> {(i, None), (i, Some c)})"
proof -
  obtain i k where l: "l = (i, k)" by (cases l)
  have i: "i < length its" using assms(2) l by (simp add: valid_link_def)
  define new where "new j = (if j = i then mark_item k (clear_item (its ! i)) else clear_item (its ! j))" for j
  have nth: "activate_nav l its ! j = new j" if "j < length its" for j
    using that by (simp add: activate_nav_def Let_def l new_def nth_list_update)
  have len: "length (activate_nav l its) = length its" by (simp add: activate_nav_def Let_def)
  note cl = clear_item_clear [OF assms(1)]
  have act: "ni_active (new j) \<longleftrightarrow> j = i" if "j < length its" for j
    using cl [OF that] cl [OF i] assms(2) l
    by (cases k) (auto simp: new_def mark_item_def valid_link_def)
  have ch: "length (ni_children (new j)) = length (ni_children (its ! j))"
    "c < length (ni_children (its ! j)) \<Longrightarrow> ni_children (new j) ! c \<longleftrightarrow> j = i \<and> k = Some c" if "j < length its" for j c
    using cl [OF that] cl [OF i] assms(2) l
    by (cases k; auto simp: new_def mark_item_def valid_link_def nth_list_update)+
  have "shown_links (activate_nav l its) = {(j, None) | j. j < length its \<and> j = i} \<union>
      {(j, Some c) | j c. j < length its \<and> c < length (ni_children (its ! j)) \<and> j = i \<and> k = Some c}"
    unfolding shown_links_def len by (auto simp: nth act ch)
  also have "\<dots> = (case l of (i, None) \<Rightarrow> {(i, None)} | (i, Some c) \<Rightarrow> {(i, None), (i, Some c)})"
    using i assms(2) l by (cases k) (auto simp: valid_link_def)
  finally show ?thesis .
qed

lemma next_pane_single:
  assumes "\<forall>j < length ps. pn_active (ps ! j) \<longrightarrow> j = a" "x < length ps"
  shows "active_panes (next_pane tr (NextTab [a] x) ps) = [x]"
  using assms by (auto simp: active_panes_single next_pane_def nth_set_pane)

lemma activate_pane_transition:
  assumes "one_pane a (panes t)" "x < length (panes t)"
  shows "active_panes (panes (tab_transition a End (t\<lparr>panes := activate_pane (t_support t) x (panes t)\<rparr>))) = [x]"
proof -
  let ?ps = "panes t"
  have a: "a < length ?ps" "\<forall>j < length ?ps. pn_active (?ps ! j) \<longleftrightarrow> j = a" "dos (bound (pn_ends (?ps ! j))) = []"
    if "j < length ?ps" for j
    using assms that by (auto simp: one_pane_def active_panes_single)
  have acts: "active_panes ?ps = [a]" using assms(1) by (simp add: one_pane_def)
  show ?thesis
  proof (cases "t_support t \<and> (\<exists>p \<in> set ?ps. pn_fade p)")
    case True
    define qs where "qs = activate_pane (t_support t) x ?ps"
    have qs: "length qs = length ?ps" "\<forall>j < length ?ps. pn_active (qs ! j) \<longleftrightarrow> j = a"
      "pn_ends (qs ! a) = emulate (one (NextTab [a] x) (pn_ends (?ps ! a)))"
      using True acts a [OF assms(2)] by (auto simp: qs_def activate_pane_def Let_def nth_set_pane)
    have d: "dos (bound (pn_ends (qs ! a))) = [NextTab [a] x]" using qs(3) a(3) a(1) [OF assms(2)] by simp
    have "active_panes (next_pane True (NextTab [a] x) (set_pane a (\<lambda>p. p\<lparr>pn_ends := T\<rparr>) qs)) = [x]" for T
      using assms(2) qs a(1) [OF assms(2)] by (intro next_pane_single) (auto simp: nth_set_pane)
    then show ?thesis by (simp add: tab_transition_def case_prod_beta d flip: qs_def)
  next
    case False
    define qs where "qs = activate_pane (t_support t) x ?ps"
    define ns where "ns = next_pane False (NextTab [a] x) ?ps"
    have ns: "length ns = length ?ps" "\<forall>j < length ?ps. pn_active (ns ! j) \<longleftrightarrow> j = x" "\<forall>j < length ?ps. pn_ends (ns ! j) = pn_ends (?ps ! j)"
      using a [OF assms(2)] assms(2) by (auto simp: ns_def next_pane_def nth_set_pane)
    have "qs = set_pane a (\<lambda>p. p\<lparr>pn_in := False\<rparr>) ns"
      using False acts by (auto simp: qs_def activate_pane_def Let_def ns_def)
    then have qs: "length qs = length ?ps" "\<forall>j < length ?ps. pn_active (qs ! j) \<longleftrightarrow> j = x" "pn_ends (qs ! a) = pn_ends (?ps ! a)"
      using ns a(1) [OF assms(2)] by (auto simp: nth_set_pane)
    have d: "dos (bound (pn_ends (qs ! a))) = []" using qs(3) a(3) a(1) [OF assms(2)] by simp
    have "active_panes (set_pane a (\<lambda>p. p\<lparr>pn_ends := T\<rparr>) qs) = [x]" for T
      using assms(2) qs a(1) [OF assms(2)] by (auto simp: active_panes_single nth_set_pane)
    then show ?thesis by (simp add: tab_transition_def case_prod_beta d flip: qs_def)
  qed
qed

text \<open> Showing a tab that is not active, from a state with one active pane and no transition running: when the
  transition is over, the tab's link (with the item of its dropdown menu, if it stands in one) and its
  pane are the only active ones.\<close>

theorem tab_one_active:
  assumes "nav_ok (nav_items t)" "valid_link l (nav_items t)" "\<not> link_active l t" "one_pane a (panes t)"
    "x < length (panes t)"
  shows "shown_links (nav_items (tab_transition a End (tab_show False l x t)))
      = (case l of (i, None) \<Rightarrow> {(i, None)} | (i, Some c) \<Rightarrow> {(i, None), (i, Some c)}) \<and>
    active_panes (panes (tab_transition a End (tab_show False l x t))) = [x]"
proof -
  let ?t = "t\<lparr>nav_items := activate_nav l (nav_items t)\<rparr>"
  have e: "tab_show False l x t = ?t\<lparr>panes := activate_pane (t_support ?t) x (panes ?t)\<rparr>" using assms(3) by (simp add: tab_show_def)
  have n: "nav_items (tab_transition a End u) = nav_items u" for u by (simp add: tab_transition_def case_prod_beta)
  show ?thesis
    using activate_nav_links [OF assms(1,2)] activate_pane_transition [of a ?t x] assms(4,5) unfolding e n by simp
qed

definition demo_tabs :: tabs where
  "demo_tabs = \<lparr>nav_items = [\<lparr>ni_active = True, ni_dropdown = False, ni_expanded = True, ni_children = []\<rparr>,
      \<lparr>ni_active = False, ni_dropdown = True, ni_expanded = False, ni_children = [False, False]\<rparr>],
    panes = [\<lparr>pn_active = True, pn_fade = True, pn_in = True, pn_ends = no_trans\<rparr>,
      \<lparr>pn_active = False, pn_fade = True, pn_in = False, pn_ends = no_trans\<rparr>,
      \<lparr>pn_active = False, pn_fade = True, pn_in = False, pn_ends = no_trans\<rparr>],
    t_support = True\<rparr>"

theorem tab_one_active_witness:
  "active_panes (panes (tab_transition 0 End (tab_show False (1, Some 1) 2 demo_tabs))) = [2]"
proof -
  have "nav_ok (nav_items demo_tabs)" "\<not> link_active (1, Some 1) demo_tabs" "one_pane 0 (panes demo_tabs)"
    "2 < length (panes demo_tabs)" by code_simp+
  moreover have "valid_link (1, Some 1) (nav_items demo_tabs)" by (simp add: valid_link_def demo_tabs_def)
  ultimately show ?thesis using tab_one_active [of demo_tabs "(1, Some 1)" 0 2] by blast
qed

text \<open>Two tabs shown before the first transition is over leave two panes active.\<close>

lemma two_panes_active:
  "active_panes (panes (tab_transition 0 End (tab_show False (1, Some 1) 2 (tab_show False (1, Some 0) 1 demo_tabs)))) = [1, 2]"
  by code_simp

end
