(* ===== verification/BS_Modal.thy ===== *)
theory BS_Modal
  imports BS_Transition
begin

text \<open>
  The modal dialog (bootstrap.js, modal.js). The state holds the dialog's classes and styles, the backdrops in
  the document, the handlers bound on the element, the window and the document, the body's class and
  padding, and what is bound on the three elements that are animated: the modal, its dialog, a backdrop.
  What the page's layout yields (overflow, the width of the scrollbar, the body's own padding) and
  whether an event is prevented are parameters.
\<close>

section \<open>State\<close>

datatype backdrop_option = NoBackdrop | Backdrop | StaticBackdrop

datatype modal_callback = OnShown | OnHidden

datatype modal_handler = TriggerShown | HideModal | BackdropIn modal_callback | BackdropOut modal_callback

datatype modal_event = ShowModal | ShownModal | HideEvent | HiddenModal

record modal =
  o_backdrop :: backdrop_option
  o_keyboard :: bool
  fade :: bool
  isShown :: bool
  backdrop_el :: "nat option"
  backdrops :: "nat list"
  visible :: bool
  in_class :: bool
  aria_hidden :: "bool option"
  on_escape :: nat
  on_dismiss :: nat
  on_resize :: nat
  on_focusin :: bool
  in_dom :: bool
  modal_open :: bool
  body_padding :: "int option"
  bodyIsOverflowing :: bool
  scrollbarWidth :: int
  paddingLeft :: "int option"
  paddingRight :: "int option"
  focus_count :: nat
  el_ends :: "modal_handler trans"
  dialog_ends :: "modal_handler trans"
  backdrop_ends :: "nat \<Rightarrow> modal_handler trans"
  new_backdrop :: nat
  m_events :: "modal_event list"

record layout =
  support :: bool
  body_overflows :: bool
  modal_overflows :: bool
  scrollbar :: int
  css_padding :: int

definition trigger_event :: "modal_event \<Rightarrow> modal \<Rightarrow> modal" where
  "trigger_event ev m = m\<lparr>m_events := m_events m @ [ev]\<rparr>"

section \<open>The scrollbar\<close>

definition checkScrollbar :: "layout \<Rightarrow> modal \<Rightarrow> modal" where
  "checkScrollbar e m = m\<lparr>bodyIsOverflowing := body_overflows e, scrollbarWidth := scrollbar e\<rparr>"

text \<open>The computed padding of the body is the style set on it, or the style sheet's.\<close>

definition setScrollbar :: "layout \<Rightarrow> modal \<Rightarrow> modal" where
  "setScrollbar e m =
     (let bodyPad = (case body_padding m of Some p \<Rightarrow> p | None \<Rightarrow> css_padding e)
      in if bodyIsOverflowing m then m\<lparr>body_padding := Some (bodyPad + scrollbarWidth m)\<rparr> else m)"

definition resetScrollbar :: "modal \<Rightarrow> modal" where
  "resetScrollbar m = m\<lparr>body_padding := None\<rparr>"

definition adjustDialog :: "layout \<Rightarrow> modal \<Rightarrow> modal" where
  "adjustDialog e m =
     m\<lparr>paddingLeft := (if \<not> bodyIsOverflowing m \<and> modal_overflows e then Some (scrollbarWidth m) else None),
       paddingRight := (if bodyIsOverflowing m \<and> \<not> modal_overflows e then Some (scrollbarWidth m) else None)\<rparr>"

definition resetAdjustments :: "modal \<Rightarrow> modal" where
  "resetAdjustments m = m\<lparr>paddingLeft := None, paddingRight := None\<rparr>"

text \<open>\<open>adjustBackdrop\<close> only sets a height; it fails when there is no backdrop.\<close>

definition adjustBackdrop :: "modal \<Rightarrow> modal js" where
  "adjustBackdrop m = (if backdrop_el m = None then Inl (Throw ''TypeError'') else Inr m)"

definition handleUpdate :: "layout \<Rightarrow> modal \<Rightarrow> modal js" where
  "handleUpdate e m =
     js_bind (if o_backdrop m \<noteq> NoBackdrop then adjustBackdrop m else Inr m) (\<lambda>m. Inr (adjustDialog e m))"

section \<open>Handlers\<close>

definition escape :: "modal \<Rightarrow> modal" where
  "escape m =
     (if isShown m \<and> o_keyboard m then m\<lparr>on_escape := on_escape m + 1\<rparr>
      else if \<not> isShown m then m\<lparr>on_escape := 0\<rparr> else m)"

definition resize :: "modal \<Rightarrow> modal" where
  "resize m = (if isShown m then m\<lparr>on_resize := on_resize m + 1\<rparr> else m\<lparr>on_resize := 0\<rparr>)"

section \<open>The callbacks of the backdrop\<close>

definition shown_callback :: "layout \<Rightarrow> modal \<Rightarrow> modal js" where
  "shown_callback e m =
     (let m1 = m\<lparr>in_dom := True, visible := True\<rparr>
      in js_bind (if o_backdrop m1 \<noteq> NoBackdrop then adjustBackdrop m1 else Inr m1) (\<lambda>m2.
           let m3 = (adjustDialog e m2)\<lparr>in_class := True, aria_hidden := Some False, on_focusin := True\<rparr>
           in Inr (if support e \<and> fade m3 then m3\<lparr>dialog_ends := emulate (one TriggerShown (dialog_ends m3))\<rparr>
                   else trigger_event ShownModal (m3\<lparr>focus_count := focus_count m3 + 1\<rparr>))))"

definition hidden_callback :: "modal \<Rightarrow> modal" where
  "hidden_callback m = trigger_event HiddenModal (resetScrollbar (resetAdjustments (m\<lparr>modal_open := False\<rparr>)))"

definition run_callback :: "layout \<Rightarrow> modal_callback \<Rightarrow> modal \<Rightarrow> modal js" where
  "run_callback e cb m = (case cb of OnShown \<Rightarrow> shown_callback e m | OnHidden \<Rightarrow> Inr (hidden_callback m))"

text \<open>\<open>removeBackdrop\<close>: the handlers of a removed element go with it.\<close>

definition removeBackdrop :: "modal \<Rightarrow> modal" where
  "removeBackdrop m =
     (case backdrop_el m of None \<Rightarrow> m
      | Some b \<Rightarrow> m\<lparr>backdrops := filter (\<lambda>c. c \<noteq> b) (backdrops m), backdrop_el := None,
                    backdrop_ends := (backdrop_ends m)(b := no_trans)\<rparr>)"

definition bind_backdrop :: "nat \<Rightarrow> modal_handler \<Rightarrow> modal \<Rightarrow> modal" where
  "bind_backdrop b h m = m\<lparr>backdrop_ends := (backdrop_ends m)(b := emulate (one h (backdrop_ends m b)))\<rparr>"

definition backdrop :: "layout \<Rightarrow> modal_callback \<Rightarrow> modal \<Rightarrow> modal js" where
  "backdrop e cb m =
     (if isShown m \<and> o_backdrop m \<noteq> NoBackdrop then
        (let b = new_backdrop m;
             m1 = m\<lparr>backdrop_el := Some b, backdrops := b # backdrops m, new_backdrop := b + 1\<rparr>
         in if support e \<and> fade m then Inr (bind_backdrop b (BackdropIn cb) m1) else run_callback e cb m1)
      else
        (case (isShown m, backdrop_el m) of
           (False, Some b) \<Rightarrow>
             if support e \<and> fade m then Inr (bind_backdrop b (BackdropOut cb) m)
             else run_callback e cb (removeBackdrop m)
         | _ \<Rightarrow> run_callback e cb m))"

section \<open>Showing and hiding\<close>

definition show_modal :: "layout \<Rightarrow> bool \<Rightarrow> modal \<Rightarrow> modal js" where
  "show_modal e prevented m =
     (let m1 = trigger_event ShowModal m
      in if isShown m1 \<or> prevented then Inr m1
         else
           (let m2 = (setScrollbar e (checkScrollbar e (m1\<lparr>isShown := True\<rparr>)))\<lparr>modal_open := True\<rparr>;
                m3 = resize (escape m2)
            in backdrop e OnShown (m3\<lparr>on_dismiss := on_dismiss m3 + 1\<rparr>)))"

definition hideModal :: "layout \<Rightarrow> modal \<Rightarrow> modal js" where
  "hideModal e m = backdrop e OnHidden (m\<lparr>visible := False\<rparr>)"

definition hide_modal :: "layout \<Rightarrow> bool \<Rightarrow> modal \<Rightarrow> modal js" where
  "hide_modal e prevented m =
     (let m1 = trigger_event HideEvent m
      in if \<not> isShown m1 \<or> prevented then Inr m1
         else
           (let m2 = (resize (escape (m1\<lparr>isShown := False\<rparr>)))\<lparr>on_focusin := False, in_class := False,
                       aria_hidden := Some True, on_dismiss := 0\<rparr>
            in if support e \<and> fade m then Inr (m2\<lparr>el_ends := emulate (one HideModal (el_ends m2))\<rparr>)
               else hideModal e m2))"

definition toggle_modal :: "layout \<Rightarrow> bool \<Rightarrow> modal \<Rightarrow> modal js" where
  "toggle_modal e prevented m = (if isShown m then hide_modal e prevented m else show_modal e prevented m)"

section \<open>Events\<close>

definition run_handler :: "layout \<Rightarrow> modal_handler \<Rightarrow> modal \<Rightarrow> modal js" where
  "run_handler e h m =
     (case h of
        TriggerShown \<Rightarrow> Inr (trigger_event ShownModal (m\<lparr>focus_count := focus_count m + 1\<rparr>))
      | HideModal \<Rightarrow> hideModal e m
      | BackdropIn cb \<Rightarrow> run_callback e cb m
      | BackdropOut cb \<Rightarrow> run_callback e cb (removeBackdrop m))"

fun run_handlers :: "layout \<Rightarrow> modal_handler list \<Rightarrow> modal \<Rightarrow> modal js" where
  "run_handlers e [] m = Inr m"
| "run_handlers e (h # hs) m = js_bind (run_handler e h m) (run_handlers e hs)"

definition el_transition :: "layout \<Rightarrow> tstep \<Rightarrow> modal \<Rightarrow> modal js" where
  "el_transition e s m = (let (T, hs) = tstep s (el_ends m) in run_handlers e hs (m\<lparr>el_ends := T\<rparr>))"

definition dialog_transition :: "layout \<Rightarrow> tstep \<Rightarrow> modal \<Rightarrow> modal js" where
  "dialog_transition e s m = (let (T, hs) = tstep s (dialog_ends m) in run_handlers e hs (m\<lparr>dialog_ends := T\<rparr>))"

definition backdrop_transition :: "layout \<Rightarrow> nat \<Rightarrow> tstep \<Rightarrow> modal \<Rightarrow> modal js" where
  "backdrop_transition e b s m =
     (let (T, hs) = tstep s (backdrop_ends m b)
      in run_handlers e hs (m\<lparr>backdrop_ends := (backdrop_ends m)(b := T)\<rparr>))"

text \<open>A click on the backdrop itself, a key on the modal while it listens, a click on an element that dismisses it,
  and a focus elsewhere in the document.\<close>

definition backdrop_click :: "layout \<Rightarrow> bool \<Rightarrow> bool \<Rightarrow> modal \<Rightarrow> modal js" where
  "backdrop_click e prevented on_it m =
     (if \<not> on_it then Inr m
      else if o_backdrop m = StaticBackdrop then Inr (m\<lparr>focus_count := focus_count m + 1\<rparr>)
      else hide_modal e prevented m)"

fun times :: "nat \<Rightarrow> ('a \<Rightarrow> 'a js) \<Rightarrow> 'a \<Rightarrow> 'a js" where
  "times 0 f x = Inr x"
| "times (Suc n) f x = js_bind (f x) (times n f)"

definition modal_key :: "layout \<Rightarrow> bool \<Rightarrow> int \<Rightarrow> modal \<Rightarrow> modal js" where
  "modal_key e prevented code m = (if code = 27 then times (on_escape m) (hide_modal e prevented) m else Inr m)"

definition dismiss_click :: "layout \<Rightarrow> bool \<Rightarrow> modal \<Rightarrow> modal js" where
  "dismiss_click e prevented m = times (on_dismiss m) (hide_modal e prevented) m"

definition enforceFocus :: "bool \<Rightarrow> modal \<Rightarrow> modal" where
  "enforceFocus inside m = (if on_focusin m \<and> \<not> inside then m\<lparr>focus_count := focus_count m + 1\<rparr> else m)"

definition window_resize :: "layout \<Rightarrow> modal \<Rightarrow> modal js" where
  "window_resize e m = times (on_resize m) (handleUpdate e) m"

section \<open>The plugin\<close>

definition modal_defaults :: "backdrop_option \<times> bool \<times> bool" where
  "modal_defaults = (Backdrop, True, True)"

datatype modal_call = CallModal string | ModalOptions bool

definition modal_plugin :: "layout \<Rightarrow> bool \<Rightarrow> modal_call \<Rightarrow> modal \<Rightarrow> modal js" where
  "modal_plugin e prevented k m =
     (case k of
        CallModal name \<Rightarrow>
          if name = ''show'' then show_modal e prevented m
          else if name = ''hide'' then hide_modal e prevented m
          else if name = ''toggle'' then toggle_modal e prevented m
          else if name = ''handleUpdate'' then handleUpdate e m else Inl (Throw ''TypeError'')
      | ModalOptions sh \<Rightarrow> if sh then show_modal e prevented m else Inr m)"

end
