(* ===== verification/BS_ModalProps.thy ===== *)
theory BS_ModalProps
  imports BS_Modal
begin

text \<open>
  A modal that is shown and hidden again, each time left alone until its transitions are over, leaves
  nothing behind; and what happens when it is not left alone.
\<close>

definition nothing_pending :: "modal \<Rightarrow> bool" where
  "nothing_pending m \<longleftrightarrow> dos (bound (el_ends m)) = [] \<and> dos (bound (dialog_ends m)) = [] \<and>
     (\<forall>b. dos (bound (backdrop_ends m b)) = [])"

definition modal_rest :: "modal \<Rightarrow> bool" where
  "modal_rest m \<longleftrightarrow> \<not> isShown m \<and> backdrop_el m = None \<and> backdrops m = [] \<and> \<not> visible m \<and> \<not> in_class m \<and>
     on_escape m = 0 \<and> on_dismiss m = 0 \<and> on_resize m = 0 \<and> \<not> on_focusin m \<and> \<not> modal_open m \<and> body_padding m = None \<and>
     paddingLeft m = None \<and> paddingRight m = None \<and> nothing_pending m"

definition modal_shown :: "layout \<Rightarrow> modal \<Rightarrow> bool" where
  "modal_shown e m \<longleftrightarrow> isShown m \<and> visible m \<and> in_class m \<and> modal_open m \<and> on_dismiss m = 1 \<and> on_resize m = 1 \<and>
     on_escape m = (if o_keyboard m then 1 else 0) \<and> on_focusin m \<and>
     backdrops m = (case backdrop_el m of None \<Rightarrow> [] | Some b \<Rightarrow> [b]) \<and>
     (backdrop_el m = None \<longleftrightarrow> o_backdrop m = NoBackdrop) \<and>
     body_padding m = (if body_overflows e then Some (css_padding e + scrollbar e) else None) \<and> nothing_pending m"

text \<open>The ends of all the transitions: of a backdrop coming in, the dialog, the modal, a backdrop going out.\<close>

definition settle_backdrop :: "layout \<Rightarrow> modal \<Rightarrow> modal js" where
  "settle_backdrop e m = (case backdrop_el m of None \<Rightarrow> Inr m | Some b \<Rightarrow> backdrop_transition e b End m)"

definition settle :: "layout \<Rightarrow> modal \<Rightarrow> modal js" where
  "settle e m =
     js_bind (settle_backdrop e m) (\<lambda>m. js_bind (dialog_transition e End m) (\<lambda>m.
     js_bind (el_transition e End m) (settle_backdrop e)))"

lemmas modal_defs = trigger_event_def checkScrollbar_def setScrollbar_def resetScrollbar_def adjustDialog_def
  resetAdjustments_def adjustBackdrop_def escape_def resize_def Let_def

lemma End_eq: "tstep End T = (fst (fire T), dos (bound T))"
  by (simp add: tstep_def fire_def)

lemma fired [simp]: "dos (bound (fst (fire T))) = []"
  by (simp add: fire_def)

lemma transition_simps:
  "dialog_transition e End m = run_handlers e (dos (bound (dialog_ends m))) (m\<lparr>dialog_ends := fst (fire (dialog_ends m))\<rparr>)"
  "el_transition e End m = run_handlers e (dos (bound (el_ends m))) (m\<lparr>el_ends := fst (fire (el_ends m))\<rparr>)"
  "backdrop_transition e b End m = run_handlers e (dos (bound (backdrop_ends m b)))
     (m\<lparr>backdrop_ends := (backdrop_ends m)(b := fst (fire (backdrop_ends m b)))\<rparr>)"
  by (simp_all add: dialog_transition_def el_transition_def backdrop_transition_def End_eq)

lemma no_trans_nothing [simp]: "dos (bound no_trans) = []"
  by (simp add: no_trans_def)

lemma show_settles:
  assumes "modal_rest m"
  shows "\<exists>s. js_bind (show_modal e False m) (settle e) = Inr s \<and> modal_shown e s"
proof -
  note r = assms [unfolded modal_rest_def nothing_pending_def]
  show ?thesis
  proof (cases "support e \<and> fade m")
    case True
    show ?thesis
      using r True
      by (cases "o_backdrop m = NoBackdrop")
         (simp_all add: show_modal_def backdrop_def modal_defs bind_backdrop_def run_callback_def shown_callback_def
           settle_def settle_backdrop_def transition_simps run_handler_def modal_shown_def nothing_pending_def)
  next
    case False
    show ?thesis
      using r False
      by (cases "o_backdrop m = NoBackdrop")
         (auto simp: show_modal_def backdrop_def modal_defs bind_backdrop_def run_callback_def shown_callback_def
           settle_def settle_backdrop_def transition_simps run_handler_def modal_shown_def nothing_pending_def)
  qed
qed

lemma hide_settles:
  assumes "modal_shown e m"
  shows "\<exists>h. js_bind (hide_modal e False m) (settle e) = Inr h \<and> modal_rest h"
proof -
  note r = assms [unfolded modal_shown_def nothing_pending_def]
  show ?thesis
  proof (cases "support e \<and> fade m")
    case True
    show ?thesis
      using r True
      by (cases "backdrop_el m")
         (simp_all add: hide_modal_def hideModal_def backdrop_def modal_defs bind_backdrop_def run_callback_def
           hidden_callback_def removeBackdrop_def settle_def settle_backdrop_def transition_simps run_handler_def
           modal_rest_def nothing_pending_def)
  next
    case False
    show ?thesis
      using r False
      by (cases "backdrop_el m")
         (auto simp: hide_modal_def hideModal_def backdrop_def modal_defs bind_backdrop_def run_callback_def
           hidden_callback_def removeBackdrop_def settle_def settle_backdrop_def transition_simps run_handler_def
           modal_rest_def nothing_pending_def)
  qed
qed

text \<open>C29: From rest, showing the modal and letting every transition end shows it: the dialog visible over one backdrop
  (none with \<open>backdrop: false\<close>), the body kept from scrolling and padded for the lost scrollbar, each handler
  bound once; hiding it then, and letting every transition end, is back at rest, with nothing left in the
  document, on the body or bound. This holds with and without animation.\<close>

theorem modal_cycle:
  assumes "modal_rest m"
  shows "case js_bind (show_modal e False m) (settle e) of Inl x \<Rightarrow> False
    | Inr s \<Rightarrow> modal_shown e s \<and>
        (case js_bind (hide_modal e False s) (settle e) of Inl x \<Rightarrow> False | Inr h \<Rightarrow> modal_rest h)"
proof -
  obtain s where s: "js_bind (show_modal e False m) (settle e) = Inr s" "modal_shown e s"
    using show_settles [OF assms] by blast
  moreover obtain h where "js_bind (hide_modal e False s) (settle e) = Inr h" "modal_rest h"
    using hide_settles [OF s(2)] by blast
  ultimately show ?thesis by simp
qed

definition demo_modal :: modal where
  "demo_modal = \<lparr>o_backdrop = Backdrop, o_keyboard = True, fade = True, isShown = False, backdrop_el = None, backdrops = [],
     visible = False, in_class = False, aria_hidden = None, on_escape = 0, on_dismiss = 0, on_resize = 0, on_focusin = False,
     in_dom = True, modal_open = False, body_padding = None, bodyIsOverflowing = False, scrollbarWidth = 0,
     paddingLeft = None, paddingRight = None, focus_count = 0, el_ends = no_trans, dialog_ends = no_trans,
     backdrop_ends = (\<lambda>b. no_trans), new_backdrop = 0, m_events = []\<rparr>"

definition demo_layout :: layout where
  "demo_layout = \<lparr>support = True, body_overflows = True, modal_overflows = False, scrollbar = 17, css_padding = 5\<rparr>"

lemma demo_rest: "modal_rest demo_modal"
  by (simp add: modal_rest_def demo_modal_def nothing_pending_def)

theorem modal_cycle_witness:
  "case js_bind (show_modal demo_layout False demo_modal) (settle demo_layout) of Inl x \<Rightarrow> False
    | Inr s \<Rightarrow> body_padding s = Some 22"
  using modal_cycle [OF demo_rest, of demo_layout]
  by (auto simp: modal_shown_def demo_layout_def split: sum.splits)

section \<open>A modal that is not left alone\<close>

definition state_of :: "modal js \<Rightarrow> (bool \<times> bool \<times> bool \<times> nat) option" where
  "state_of r = (case r of Inl x \<Rightarrow> None | Inr m \<Rightarrow> Some (isShown m, visible m, modal_open m, length (backdrops m)))"

text \<open>Shown again while it is being hidden, it ends up counted as shown but invisible, over two more backdrops.\<close>

lemma shown_again_while_hiding:
  "state_of (js_bind (js_bind (show_modal demo_layout False demo_modal) (settle demo_layout)) (\<lambda>m.
     js_bind (hide_modal demo_layout False m) (\<lambda>m. js_bind (show_modal demo_layout False m) (settle demo_layout))))
   = Some (True, False, False, 3)"
  by code_simp

text \<open>Hidden while its backdrop comes in, it keeps the class \<open>in\<close>.\<close>

lemma hidden_while_showing:
  "(case js_bind (show_modal demo_layout False demo_modal) (\<lambda>m. js_bind (hide_modal demo_layout False m) (settle demo_layout)) of
     Inl x \<Rightarrow> False | Inr m \<Rightarrow> in_class m \<and> \<not> visible m)"
  by code_simp

text \<open>A padding that the page has set on the body itself is lost.\<close>

lemma body_padding_lost:
  "(case js_bind (js_bind (show_modal demo_layout False (demo_modal\<lparr>body_padding := Some 40\<rparr>)) (settle demo_layout))
       (\<lambda>m. js_bind (hide_modal demo_layout False m) (settle demo_layout)) of
     Inl x \<Rightarrow> False | Inr m \<Rightarrow> body_padding m = None)"
  by code_simp

end
