(* ===== verification/BS_Tooltip.thy ===== *)
theory BS_Tooltip
  imports BS_Transition JS_Num
begin

text \<open>
  Tooltips and popovers (bootstrap.js, tooltip.js and popover.js). The state is one \<open>Tooltip\<close> object with its
  element and its tip. Lengths are rational numbers; the boxes the browser lays out, the random identifier, the
  title an option's function computes and whether an event is prevented are parameters.
\<close>

section \<open>Where the tip is placed\<close>

datatype placement = PTop | PBottom | PLeft | PRight

text \<open>\<open>getPosition\<close>: the element's box in the window, its offset in the document, and how far it is scrolled. The
  body's offset is the origin, and its size that of the window.\<close>

record rect =
  rc_top :: rat
  rc_left :: rat
  rc_bottom :: rat
  rc_right :: rat
  rc_width :: rat
  rc_height :: rat
  rc_scroll :: rat

record box =
  bx_client :: "rat \<times> rat \<times> rat \<times> rat"
  bx_offset :: "rat \<times> rat"
  bx_scroll :: rat
  bx_body :: bool

definition getPosition :: "rat \<times> rat \<Rightarrow> rat \<Rightarrow> box \<Rightarrow> rect" where
  "getPosition window page_scroll b =
     (let (t, l, bt, r) = bx_client b
      in \<lparr>rc_top = (if bx_body b then 0 else fst (bx_offset b)), rc_left = (if bx_body b then 0 else snd (bx_offset b)),
          rc_bottom = bt, rc_right = r,
          rc_width = (if bx_body b then fst window else r - l),
          rc_height = (if bx_body b then snd window else bt - t),
          rc_scroll = (if bx_body b then page_scroll else bx_scroll b)\<rparr>)"

definition getCalculatedOffset :: "placement \<Rightarrow> rect \<Rightarrow> rat \<Rightarrow> rat \<Rightarrow> rat \<times> rat" where
  "getCalculatedOffset p pos w h =
     (case p of
        PBottom \<Rightarrow> (rc_top pos + rc_height pos, rc_left pos + rc_width pos / 2 - w / 2)
      | PTop \<Rightarrow> (rc_top pos - h, rc_left pos + rc_width pos / 2 - w / 2)
      | PLeft \<Rightarrow> (rc_top pos + rc_height pos / 2 - h / 2, rc_left pos - w)
      | PRight \<Rightarrow> (rc_top pos + rc_height pos / 2 - h / 2, rc_left pos + rc_width pos))"

text \<open>The placement \<open>auto\<close> turns to the other side when there is no room in the container.\<close>

definition auto_place :: "placement \<Rightarrow> rect \<Rightarrow> rect \<Rightarrow> rat \<Rightarrow> rat \<Rightarrow> placement" where
  "auto_place p pos room w h =
     (if p = PBottom \<and> rc_bottom pos + h > rc_bottom room then PTop
      else if p = PTop \<and> rc_top pos - h < rc_top room then PBottom
      else if p = PRight \<and> rc_right pos + w > rc_width room then PLeft
      else if p = PLeft \<and> rc_left pos - w < rc_left room then PRight
      else p)"

definition getViewportAdjustedDelta :: "rect option \<Rightarrow> rat \<Rightarrow> placement \<Rightarrow> rat \<times> rat \<Rightarrow> rat \<Rightarrow> rat \<Rightarrow> rat \<times> rat" where
  "getViewportAdjustedDelta viewport pad p pos w h =
     (case viewport of
        None \<Rightarrow> (0, 0)
      | Some v \<Rightarrow>
          if p = PRight \<or> p = PLeft then
            (let topEdge = fst pos - pad - rc_scroll v; bottomEdge = fst pos + pad - rc_scroll v + h
             in (if topEdge < rc_top v then rc_top v - topEdge
                 else if bottomEdge > rc_top v + rc_height v then rc_top v + rc_height v - bottomEdge else 0, 0))
          else
            (let leftEdge = snd pos - pad; rightEdge = snd pos + pad + w
             in (0, if leftEdge < rc_left v then rc_left v - leftEdge
                    else if rightEdge > rc_width v then rc_left v + rc_width v - rightEdge else 0)))"

text \<open>What \<open>applyPlacement\<close> sets: the offset, and the arrow's position in percent along one side. \<open>w0, h0\<close> is the
  size of the tip before it is placed, \<open>w, h\<close> its size at the place.\<close>

record placed =
  at_top :: rat
  at_left :: rat
  arrow_percent :: "rat option"
  arrow_horizontal :: bool

definition replaceArrow :: "rat \<Rightarrow> rat \<Rightarrow> rat option" where
  "replaceArrow delta dimension = map_option (\<lambda>q. 50 * (1 - q)) (js_div delta dimension)"

definition applyPlacement :: "rect option \<Rightarrow> rat \<Rightarrow> int option \<times> int option \<Rightarrow> rat \<times> rat \<Rightarrow> rat \<times> rat \<Rightarrow> rat \<times> rat \<Rightarrow>
    placement \<Rightarrow> placed" where
  "applyPlacement viewport pad margins before after offset p =
     (let marginTop = (case fst margins of None \<Rightarrow> 0 | Some m \<Rightarrow> of_int m);
          marginLeft = (case snd margins of None \<Rightarrow> 0 | Some m \<Rightarrow> of_int m);
          (w0, h0) = before; (w, h) = after;
          top1 = fst offset + marginTop; left1 = snd offset + marginLeft;
          top2 = (if p = PTop \<and> h \<noteq> h0 then top1 + h0 - h else top1);
          (dt, dl) = getViewportAdjustedDelta viewport pad p (top2, left1) w h;
          isVertical = (p = PTop \<or> p = PBottom)
      in \<lparr>at_top = (if dl \<noteq> 0 then top2 else top2 + dt), at_left = (if dl \<noteq> 0 then left1 + dl else left1),
          arrow_percent = replaceArrow (if isVertical then dl * 2 - w0 + w else dt * 2 - h0 + h)
                            (if isVertical then w else h),
          arrow_horizontal = isVertical\<rparr>)"

section \<open>State\<close>

datatype hover = HoverIn | HoverOut

datatype tip_timer = EnterTimer | LeaveTimer

datatype tip_handler = ShowComplete | HideComplete bool

datatype tip_event = TipShow | TipShown | TipHide | TipHidden

record tip =
  popover :: bool
  enabled :: bool
  timeout_set :: "tip_timer option"
  hoverState :: "hover option"
  created :: bool
  attached :: bool
  tip_in :: bool
  tip_fade :: bool
  side :: "placement option"
  placed_at :: "placed option"
  described_by :: "string option"
  attr_title :: "string option"
  original_title :: "string option"
  data_content :: "string option"
  opt_title :: string
  opt_content :: string
  opt_animation :: bool
  opt_delay :: "nat \<times> nat"
  opt_place :: placement
  opt_auto :: bool
  shown_title :: string
  shown_content :: string
  bound_events :: "(string \<times> string) list"
  has_data :: bool
  tip_ends :: "tip_handler trans"
  tip_events :: "tip_event list"

text \<open>What an operation is told by the page: whether transitions are supported, whether the events are prevented, whether the
  element stands in the document, a fresh identifier, and the boxes.\<close>

record tip_env =
  te_support :: bool
  te_prevented :: "tip_event \<Rightarrow> bool"
  te_in_document :: bool
  te_uid :: string
  te_pos :: rect
  te_container :: rect
  te_viewport :: "rect option"
  te_padding :: rat
  te_margins :: "int option \<times> int option"
  te_before :: "rat \<times> rat"
  te_after :: "rat \<times> rat"

definition tip_say :: "tip_event \<Rightarrow> tip \<Rightarrow> tip" where
  "tip_say ev t = t\<lparr>tip_events := tip_events t @ [ev]\<rparr>"

section \<open>Options and titles\<close>

definition numeric_delay :: "nat + nat \<times> nat \<Rightarrow> nat \<times> nat" where
  "numeric_delay d = (case d of Inl n \<Rightarrow> (n, n) | Inr p \<Rightarrow> p)"

definition getOptions :: "(string \<rightharpoonup> 'v) \<Rightarrow> (string \<rightharpoonup> 'v) \<Rightarrow> (string \<rightharpoonup> 'v) \<Rightarrow> (string \<rightharpoonup> 'v)" where
  "getOptions defaults data options = defaults ++ data ++ options"

definition getDelegateOptions :: "(string \<rightharpoonup> 'v) \<Rightarrow> (string \<rightharpoonup> 'v) \<Rightarrow> (string \<rightharpoonup> 'v)" where
  "getDelegateOptions defaults own =
     (\<lambda>k. case own k of None \<Rightarrow> None | Some v \<Rightarrow> if defaults k = Some v then None else Some v)"

text \<open>The events bound for the triggers, the last trigger first; \<open>manual\<close> binds nothing.\<close>

definition trigger_binding :: "string \<Rightarrow> (string \<times> string) list" where
  "trigger_binding t =
     (if t = ''click'' then [(''click'', ''toggle'')]
      else if t \<noteq> ''manual'' then
        [(if t = ''hover'' then ''mouseenter'' else ''focusin'', ''enter''),
         (if t = ''hover'' then ''mouseleave'' else ''focusout'', ''leave'')]
      else [])"

definition bind_triggers :: "string list \<Rightarrow> (string \<times> string) list" where
  "bind_triggers ts = concat (map trigger_binding (rev ts))"

definition nonempty :: "string option \<Rightarrow> bool" where
  "nonempty s \<longleftrightarrow> s \<noteq> None \<and> s \<noteq> Some []"

definition fixTitle :: "tip \<Rightarrow> tip" where
  "fixTitle t =
     (if nonempty (attr_title t) \<or> original_title t = None
      then t\<lparr>original_title := Some (case attr_title t of None \<Rightarrow> [] | Some s \<Rightarrow> s), attr_title := Some []\<rparr> else t)"

definition init_tip :: "string list \<Rightarrow> bool \<Rightarrow> tip \<Rightarrow> tip" where
  "init_tip triggers selector t =
     (let t1 = t\<lparr>enabled := True, bound_events := bound_events t @ bind_triggers triggers\<rparr>
      in if selector then t1 else fixTitle t1)"

definition getTitle :: "tip \<Rightarrow> string" where
  "getTitle t = (if nonempty (original_title t) then the (original_title t) else opt_title t)"

definition getContent :: "tip \<Rightarrow> string" where
  "getContent t = (if nonempty (data_content t) then the (data_content t) else opt_content t)"

definition hasContent :: "tip \<Rightarrow> bool" where
  "hasContent t = (if popover t then getTitle t \<noteq> [] \<or> getContent t \<noteq> [] else getTitle t \<noteq> [])"

definition setContent :: "tip \<Rightarrow> tip" where
  "setContent t =
     t\<lparr>shown_title := getTitle t, shown_content := (if popover t then getContent t else shown_content t),
       tip_fade := False, tip_in := False, side := None\<rparr>"

section \<open>Showing and hiding\<close>

definition hide_complete :: "bool \<Rightarrow> tip \<Rightarrow> tip" where
  "hide_complete destroy t =
     (let t1 = (if hoverState t \<noteq> Some HoverIn then t\<lparr>attached := False\<rparr> else t);
          t2 = tip_say TipHidden (t1\<lparr>described_by := None\<rparr>)
      in if destroy then t2\<lparr>bound_events := [], has_data := False\<rparr> else t2)"

definition hide_tip :: "tip_env \<Rightarrow> bool \<Rightarrow> tip \<Rightarrow> tip" where
  "hide_tip e destroy t =
     (let t1 = tip_say TipHide (t\<lparr>created := True\<rparr>)
      in if te_prevented e TipHide then t1
         else
           (let t2 = t1\<lparr>tip_in := False\<rparr>;
                t3 = (if te_support e \<and> tip_fade t2 then t2\<lparr>tip_ends := emulate (one (HideComplete destroy) (tip_ends t2))\<rparr>
                      else hide_complete destroy t2)
            in t3\<lparr>hoverState := None\<rparr>))"

definition leave :: "tip_env \<Rightarrow> tip \<Rightarrow> tip" where
  "leave e t =
     (let t1 = t\<lparr>timeout_set := None, hoverState := Some HoverOut\<rparr>
      in if snd (opt_delay t1) = 0 then hide_tip e False t1 else t1\<lparr>timeout_set := Some LeaveTimer\<rparr>)"

definition show_complete :: "tip_env \<Rightarrow> tip \<Rightarrow> tip" where
  "show_complete e t =
     (let prev = hoverState t; t1 = (tip_say TipShown t)\<lparr>hoverState := None\<rparr>
      in if prev = Some HoverOut then leave e t1 else t1)"

definition place_tip :: "tip_env \<Rightarrow> tip \<Rightarrow> tip" where
  "place_tip e t =
     (let (w, h) = te_before e;
          p = (if opt_auto t then auto_place (opt_place t) (te_pos e) (te_container e) w h else opt_place t)
      in t\<lparr>side := Some p, tip_in := True,
           placed_at := Some (applyPlacement (te_viewport e) (te_padding e) (te_margins e) (te_before e) (te_after e)
             (getCalculatedOffset p (te_pos e) w h) p)\<rparr>)"

definition show_tip :: "tip_env \<Rightarrow> tip \<Rightarrow> tip" where
  "show_tip e t =
     (if \<not> (hasContent t \<and> enabled t) then t
      else
        (let t1 = tip_say TipShow t
         in if te_prevented e TipShow \<or> \<not> te_in_document e then t1
            else
              (let t2 = (setContent (t1\<lparr>created := True\<rparr>))\<lparr>described_by := Some (te_uid e)\<rparr>;
                   t3 = place_tip e (t2\<lparr>tip_fade := opt_animation t2, attached := True\<rparr>)
               in if te_support e \<and> tip_fade t3 then t3\<lparr>tip_ends := emulate (one ShowComplete (tip_ends t3))\<rparr>
                  else show_complete e t3)))"

definition enter :: "tip_env \<Rightarrow> tip \<Rightarrow> tip" where
  "enter e t =
     (if created t \<and> attached t then t\<lparr>hoverState := Some HoverIn\<rparr>
      else
        (let t1 = t\<lparr>timeout_set := None, hoverState := Some HoverIn\<rparr>
         in if fst (opt_delay t1) = 0 then show_tip e t1 else t1\<lparr>timeout_set := Some EnterTimer\<rparr>))"

definition toggle_tip :: "tip_env \<Rightarrow> tip \<Rightarrow> tip" where
  "toggle_tip e t = (let t1 = t\<lparr>created := True\<rparr> in if tip_in t1 then leave e t1 else enter e t1)"

definition tip_timer :: "tip_env \<Rightarrow> tip \<Rightarrow> tip" where
  "tip_timer e t =
     (case timeout_set t of
        None \<Rightarrow> t
      | Some EnterTimer \<Rightarrow>
          (let t1 = t\<lparr>timeout_set := None\<rparr> in if hoverState t1 = Some HoverIn then show_tip e t1 else t1)
      | Some LeaveTimer \<Rightarrow>
          (let t1 = t\<lparr>timeout_set := None\<rparr> in if hoverState t1 = Some HoverOut then hide_tip e False t1 else t1))"

definition tip_handle :: "tip_env \<Rightarrow> tip_handler \<Rightarrow> tip \<Rightarrow> tip" where
  "tip_handle e h t = (case h of ShowComplete \<Rightarrow> show_complete e t | HideComplete d \<Rightarrow> hide_complete d t)"

definition tip_transition :: "tip_env \<Rightarrow> tstep \<Rightarrow> tip \<Rightarrow> tip" where
  "tip_transition e s t =
     (let (T, hs) = tstep s (tip_ends t) in foldl (\<lambda>u h. tip_handle e h u) (t\<lparr>tip_ends := T\<rparr>) hs)"

definition toggleEnabled :: "tip \<Rightarrow> tip" where
  "toggleEnabled t = t\<lparr>enabled := (\<not> enabled t)\<rparr>"

definition destroy_tip :: "tip_env \<Rightarrow> tip \<Rightarrow> tip" where
  "destroy_tip e t = hide_tip e True (t\<lparr>timeout_set := None\<rparr>)"

text \<open>The plugin does nothing for \<open>destroy\<close> on an element without the widget.\<close>

definition tip_plugin :: "tip_env \<Rightarrow> string \<Rightarrow> tip \<Rightarrow> tip js" where
  "tip_plugin e name t =
     (if \<not> has_data t \<and> name = ''destroy'' then Inr t
      else
        (let t1 = t\<lparr>has_data := True\<rparr>
         in if name = ''show'' then Inr (show_tip e t1)
            else if name = ''hide'' then Inr (hide_tip e False t1)
            else if name = ''toggle'' then Inr (toggle_tip e t1)
            else if name = ''enable'' then Inr (t1\<lparr>enabled := True\<rparr>)
            else if name = ''disable'' then Inr (t1\<lparr>enabled := False\<rparr>)
            else if name = ''toggleEnabled'' then Inr (toggleEnabled t1)
            else if name = ''destroy'' then Inr (destroy_tip e t1)
            else Inl (Throw ''TypeError'')))"

end
