(* ===== verification/BS_TooltipProps.thy ===== *)
theory BS_TooltipProps
  imports BS_Tooltip
begin

text \<open>
  The tip stays inside the viewport it fits, and goes away when its element is left; and where it does not.
\<close>

section \<open>Inside the viewport\<close>

definition inside :: "rect \<Rightarrow> rat \<Rightarrow> placement \<Rightarrow> rat \<times> rat \<Rightarrow> placed \<Rightarrow> bool" where
  "inside v pad p sz a \<longleftrightarrow>
     (if p = PTop \<or> p = PBottom
      then rc_left v + pad \<le> at_left a \<and> at_left a + fst sz + pad \<le> rc_left v + rc_width v
      else rc_top v + rc_scroll v + pad \<le> at_top a \<and> at_top a + snd sz + pad \<le> rc_top v + rc_scroll v + rc_height v)"

lemma delta_horizontal:
  assumes "0 \<le> rc_left v" "w + 2 * pad \<le> rc_width v" "p = PTop \<or> p = PBottom"
  shows "fst (getViewportAdjustedDelta (Some v) pad p (t, l) w h) = 0"
    "rc_left v + pad \<le> l + snd (getViewportAdjustedDelta (Some v) pad p (t, l) w h)"
    "l + snd (getViewportAdjustedDelta (Some v) pad p (t, l) w h) + w + pad \<le> rc_left v + rc_width v"
  using assms by (auto simp: getViewportAdjustedDelta_def Let_def)

lemma delta_vertical:
  assumes "h + 2 * pad \<le> rc_height v" "p = PLeft \<or> p = PRight"
  shows "snd (getViewportAdjustedDelta (Some v) pad p (t, l) w h) = 0"
    "rc_top v + rc_scroll v + pad \<le> t + fst (getViewportAdjustedDelta (Some v) pad p (t, l) w h)"
    "t + fst (getViewportAdjustedDelta (Some v) pad p (t, l) w h) + h + pad \<le> rc_top v + rc_scroll v + rc_height v"
  using assms by (auto simp: getViewportAdjustedDelta_def Let_def)

text \<open>What a shift does on its axis and not on the other.\<close>

lemma apply_shift:
  assumes "a0 = applyPlacement None pad margins before after offset p"
  shows "at_top (applyPlacement (Some v) pad margins before after offset p) =
      at_top a0 + fst (getViewportAdjustedDelta (Some v) pad p (at_top a0, at_left a0) (fst after) (snd after))"
    "at_left (applyPlacement (Some v) pad margins before after offset p) =
      at_left a0 + snd (getViewportAdjustedDelta (Some v) pad p (at_top a0, at_left a0) (fst after) (snd after))"
  by (cases after; cases before; simp add: assms applyPlacement_def getViewportAdjustedDelta_def Let_def case_prod_beta)+

lemma delta_still:
  "p = PTop \<or> p = PBottom \<Longrightarrow> rc_left v = 0 \<Longrightarrow> rc_left v + pad \<le> l \<Longrightarrow> l + w + pad \<le> rc_left v + rc_width v \<Longrightarrow>
    snd (getViewportAdjustedDelta (Some v) pad p (t, l) w h) = 0"
  "p = PLeft \<or> p = PRight \<Longrightarrow> rc_top v + rc_scroll v + pad \<le> t \<Longrightarrow> t + h + pad \<le> rc_top v + rc_scroll v + rc_height v \<Longrightarrow>
    fst (getViewportAdjustedDelta (Some v) pad p (t, l) w h) = 0"
  by (auto simp: getViewportAdjustedDelta_def Let_def)

text \<open>C30: Wherever the element is: a tip above or below it is shifted to the left or right only, one beside it up or down only.
  Along this axis, if it fits there with its padding (and, above or below, the viewport does not begin left of the document), the placed tip lies inside the
  viewport, at the padding's distance from its edges; and it stays where it would be without a viewport if it lies inside there (above or below: of
  a viewport at the left edge of the document, see \<open>viewport_further_right\<close>). Across it nothing keeps it inside.\<close>

theorem tooltip_in_viewport:
  assumes "(p = PTop \<or> p = PBottom) \<longrightarrow> 0 \<le> rc_left v \<and> fst after + 2 * pad \<le> rc_width v"
    "(p = PLeft \<or> p = PRight) \<longrightarrow> snd after + 2 * pad \<le> rc_height v"
    and "a0 = applyPlacement None pad margins before after offset p"
    and "a = applyPlacement (Some v) pad margins before after offset p"
  shows "inside v pad p after a \<and>
    (if p = PTop \<or> p = PBottom then at_top a = at_top a0 else at_left a = at_left a0) \<and>
    (inside v pad p after a0 \<and> (p = PTop \<or> p = PBottom \<longrightarrow> rc_left v = 0) \<longrightarrow> at_top a = at_top a0 \<and> at_left a = at_left a0)"
proof (cases "p = PTop \<or> p = PBottom")
  case True
  then have h: "0 \<le> rc_left v" "fst after + 2 * pad \<le> rc_width v" using assms(1) by auto
  note d = delta_horizontal [OF h True, where t = "at_top a0" and l = "at_left a0" and h = "snd after"] delta_still(1) [OF True, of v pad "at_left a0" "fst after" "at_top a0" "snd after"]
  show ?thesis using True d unfolding inside_def assms(4) apply_shift [OF assms(3)] by auto
next
  case False
  then have p: "p = PLeft \<or> p = PRight" by (cases p) auto
  then have h: "snd after + 2 * pad \<le> rc_height v" using assms(2) by auto
  note d = delta_vertical [OF h p, where t = "at_top a0" and l = "at_left a0" and w = "fst after"] delta_still(2) [OF p, of v pad "at_top a0" "snd after" "at_left a0" "fst after"]
  show ?thesis using False d unfolding inside_def assms(4) apply_shift [OF assms(3)] by auto
qed

definition demo_view :: rect where
  "demo_view = \<lparr>rc_top = 0, rc_left = 0, rc_bottom = 600, rc_right = 800, rc_width = 800, rc_height = 600, rc_scroll = 0\<rparr>"

theorem tooltip_in_viewport_witness:
  "inside demo_view 5 PTop (200, 30) (applyPlacement (Some demo_view) 5 (Some (-3), None) (200, 30) (200, 30) (100, 750) PTop)"
  using tooltip_in_viewport [of PTop demo_view "(200, 30)" 5 _ "(Some (-3), None)" "(200, 30)" "(100, 750)" _, OF _ _ refl refl]
  by (simp add: demo_view_def)

text \<open>In a viewport that begins further right a tip that lies inside is moved all the same: the right edge is
  compared with the width alone.\<close>

lemma viewport_further_right:
  "inside (demo_view\<lparr>rc_left := 300, rc_width := 300\<rparr>) 0 PTop (100, 30)
     \<lparr>at_top = 100, at_left = 350, arrow_percent = None, arrow_horizontal = True\<rparr> \<and>
   at_left (applyPlacement (Some (demo_view\<lparr>rc_left := 300, rc_width := 300\<rparr>)) 0 (None, None) (100, 30) (100, 30) (100, 350) PTop)
     = 500"
  by code_simp

section \<open>Leaving\<close>

lemma hide_complete_attached: "hoverState t \<noteq> Some HoverIn \<Longrightarrow> \<not> attached (hide_complete d t)"
  "hoverState (hide_complete d t) = hoverState t" "tip_ends (hide_complete d t) = tip_ends t"
  "timeout_set (hide_complete d t) = timeout_set t" "\<not> attached t \<Longrightarrow> \<not> attached (hide_complete d t)"
  "opt_delay (hide_complete d t) = opt_delay t"
  by (simp_all add: hide_complete_def Let_def tip_say_def)

lemma handlers_after_hide:
  assumes "hoverState t = None"
  shows "hoverState (foldl (\<lambda>u h. tip_handle e h u) t hs) = None \<and>
    (attached (foldl (\<lambda>u h. tip_handle e h u) t hs) \<longrightarrow> attached t \<and> (\<forall>d. HideComplete d \<notin> set hs))"
  using assms
proof (induction hs arbitrary: t)
  case (Cons h hs)
  show ?case
  proof (cases h)
    case ShowComplete
    then have *: "hoverState (tip_handle e h t) = None" "attached (tip_handle e h t) = attached t"
      using Cons.prems by (simp_all add: tip_handle_def show_complete_def Let_def tip_say_def)
    from Cons.IH [OF *(1)] show ?thesis using *(2) ShowComplete by simp
  next
    case (HideComplete d)
    then have *: "hoverState (tip_handle e h t) = None" "\<not> attached (tip_handle e h t)"
      using Cons.prems hide_complete_attached(1) [of t d] hide_complete_attached(2) [of d t] by (simp_all add: tip_handle_def)
    from Cons.IH [OF *(1)] show ?thesis using *(2) by simp
  qed
qed simp

lemma hide_then_end:
  assumes "\<not> te_prevented e TipHide" "hoverState t = Some HoverOut"
  shows "\<not> attached (tip_transition e End (hide_tip e d t))" "timeout_set (hide_tip e d t) = timeout_set t"
proof -
  define u where "u = hide_tip e d t"
  have u: "hoverState u = None" using assms(1) by (simp add: u_def hide_tip_def Let_def)
  have gone: "attached u \<longrightarrow> HideComplete d \<in> set (dos (bound (tip_ends u)))"
    using assms by (auto simp: u_def hide_tip_def Let_def hide_complete_def tip_say_def)
  show "timeout_set (hide_tip e d t) = timeout_set t"
    using assms by (simp add: hide_tip_def Let_def tip_say_def hide_complete_attached)
  show "\<not> attached (tip_transition e End (hide_tip e d t))"
    using handlers_after_hide [of "u\<lparr>tip_ends := fst (tstep End (tip_ends u))\<rparr>" e "dos (bound (tip_ends u))"] u gone
    by (auto simp: tip_transition_def case_prod_beta simp flip: u_def)
qed

text \<open> Whatever the state of a tip and whatever transitions and timers are under way: when its element is left and
  hiding is not prevented, then after the delay and the end of the transition the tip is out of the document.\<close>

theorem tooltip_leaves:
  assumes "\<not> te_prevented e TipHide"
  shows "\<not> attached (tip_transition e End (tip_timer e (leave e t)))"
proof (cases "snd (opt_delay t) = 0")
  case True
  then have "leave e t = hide_tip e False (t\<lparr>timeout_set := None, hoverState := Some HoverOut\<rparr>)" by (simp add: leave_def)
  then show ?thesis
    using hide_then_end [OF assms, of "t\<lparr>timeout_set := None, hoverState := Some HoverOut\<rparr>" False]
    by (simp add: tip_timer_def)
next
  case False
  define u where "u = t\<lparr>hoverState := Some HoverOut, timeout_set := None\<rparr>"
  have "tip_timer e (leave e t) = hide_tip e False u"
    using False by (simp add: leave_def tip_timer_def Let_def u_def)
  moreover have "hoverState u = Some HoverOut" by (simp add: u_def)
  ultimately show ?thesis using hide_then_end(1) [OF assms, of u False] by simp
qed

definition demo_tip :: tip where
  "demo_tip = \<lparr>popover = False, enabled = True, timeout_set = None, hoverState = None, created = False, attached = False,
     tip_in = False, tip_fade = False, side = None, placed_at = None, described_by = None, attr_title = None,
     original_title = Some ''a tip'', data_content = None, opt_title = [], opt_content = [], opt_animation = True,
     opt_delay = (0, 0), opt_place = PTop, opt_auto = False, shown_title = [], shown_content = [], bound_events = [],
     has_data = True, tip_ends = no_trans, tip_events = []\<rparr>"

definition demo_tip_env :: tip_env where
  "demo_tip_env = \<lparr>te_support = True, te_prevented = (\<lambda>ev. False), te_in_document = True, te_uid = ''tooltip7'', te_pos = demo_view,
     te_container = demo_view, te_viewport = Some demo_view, te_padding = 0, te_margins = (None, None),
     te_before = (100, 30), te_after = (100, 30)\<rparr>"

theorem tooltip_leaves_witness:
  "\<not> attached (tip_transition demo_tip_env End (tip_timer demo_tip_env (leave demo_tip_env (enter demo_tip_env demo_tip))))"
  using tooltip_leaves [of demo_tip_env "enter demo_tip_env demo_tip"] by (simp add: demo_tip_env_def)

text \<open>Entered again while the tip is being hidden, the element keeps a tip that stays in the document without the class
  \<open>in\<close> and is not shown again as long as the pointer stays.\<close>

lemma entered_while_hiding:
  "(let t = tip_transition demo_tip_env End (enter demo_tip_env (leave demo_tip_env
        (tip_transition demo_tip_env End (enter demo_tip_env demo_tip))))
    in attached t \<and> \<not> tip_in t \<and> \<not> tip_in (enter demo_tip_env t))"
  by code_simp

end
