(* ===== verification/BS_Scroll.thy ===== *)
theory BS_Scroll
  imports BS_Simple
begin

text \<open>
  The plugins that follow scrolling (bootstrap.js, scrollspy.js and affix.js). What the browser measures (scroll
  positions, heights, where an element lies) is a parameter; lengths are rational numbers.
\<close>

section \<open>The scroll spy\<close>

record spy_link =
  sl_target :: "string option"
  sl_href :: "string option"
  sl_top :: "rat option"

record spy =
  offsets :: "rat list"
  targets :: "string list"
  activeTarget :: "string option"
  scrollHeight :: rat
  spy_offset :: rat
  marked :: "string option"
  activations :: "string option list"

record spy_env =
  se_links :: "spy_link list"
  se_window :: bool
  se_scrollTop :: rat
  se_scrollHeight :: rat
  se_height :: rat

text \<open>The pattern \<open>/^#./\<close>; \<open>sl_top\<close> is the place of the element the name finds, if it is visible.\<close>

definition is_anchor :: "string \<Rightarrow> bool" where
  "is_anchor s = (case s of a # b # r \<Rightarrow> a = CHR ''#'' \<and> b \<noteq> CHR 0x0A | _ \<Rightarrow> False)"

definition link_name :: "spy_link \<Rightarrow> string" where
  "link_name l = (if or_empty (sl_target l) \<noteq> [] then or_empty (sl_target l) else or_empty (sl_href l))"

definition spied :: "spy_env \<Rightarrow> (rat \<times> string) list" where
  "spied e =
     (let base = (if se_window e then 0 else se_scrollTop e)
      in List.map_filter (\<lambda>l. if is_anchor (link_name l) then map_option (\<lambda>t. (t + base, link_name l)) (sl_top l) else None)
           (se_links e))"

definition refresh_spy :: "spy_env \<Rightarrow> spy \<Rightarrow> spy" where
  "refresh_spy e s =
     (let ps = sort_key fst (spied e)
      in s\<lparr>offsets := map fst ps, targets := map snd ps, scrollHeight := se_scrollHeight e\<rparr>)"

definition clear_spy :: "spy \<Rightarrow> spy" where
  "clear_spy s = s\<lparr>marked := None\<rparr>"

definition activate :: "string option \<Rightarrow> spy \<Rightarrow> spy" where
  "activate t s = (clear_spy (s\<lparr>activeTarget := t\<rparr>))\<lparr>marked := t, activations := activations s @ [t]\<rparr>"

text \<open>The loop over the offsets, from the last to the first; it works on the offsets, the targets and the active target read
  before, and a following offset of 0 counts as missing.\<close>

fun spy_loop :: "nat \<Rightarrow> rat list \<Rightarrow> string list \<Rightarrow> string option \<Rightarrow> rat \<Rightarrow> spy \<Rightarrow> spy" where
  "spy_loop 0 os ts act pos s = s"
| "spy_loop (Suc i) os ts act pos s =
     spy_loop i os ts act pos
       (if act \<noteq> Some (ts ! i) \<and> pos \<ge> os ! i \<and> (Suc i \<ge> length os \<or> os ! Suc i = 0 \<or> pos \<le> os ! Suc i)
        then activate (Some (ts ! i)) s else s)"

definition process :: "spy_env \<Rightarrow> spy \<Rightarrow> spy" where
  "process e s =
     (let pos = se_scrollTop e + spy_offset s;
          maxScroll = spy_offset s + se_scrollHeight e - se_height e;
          os = offsets s; ts = targets s; act = activeTarget s;
          s1 = (if scrollHeight s \<noteq> se_scrollHeight e then refresh_spy e s else s)
      in if pos \<ge> maxScroll then
           (let i = (if ts = [] then None else Some (last ts)) in if act \<noteq> i then activate i s1 else s1)
         else if act \<noteq> None \<and> act \<noteq> Some [] \<and> os \<noteq> [] \<and> pos < hd os then clear_spy (s1\<lparr>activeTarget := None\<rparr>)
         else spy_loop (length os) os ts act pos s1)"

definition new_spy :: "spy_env \<Rightarrow> rat option \<Rightarrow> spy" where
  "new_spy e off =
     process e (refresh_spy e \<lparr>offsets = [], targets = [], activeTarget = None, scrollHeight = 0,
       spy_offset = (case off of Some n \<Rightarrow> n | None \<Rightarrow> 10), marked = None, activations = []\<rparr>)"

section \<open>The affix\<close>

datatype affix_state = Unset | Free | Top | Bottom

record affix =
  offsetTop :: "rat option"
  offsetBottom :: "rat option"
  affixed :: affix_state
  unpin :: "rat option"
  pinnedOffset :: "rat option"
  affix_class :: string
  css_top :: "rat option"
  affix_events :: "string list"

record affix_env =
  ae_scrollTop :: rat
  ae_position :: rat
  ae_pinned :: rat
  ae_targetHeight :: rat
  ae_height :: rat
  ae_scrollHeight :: rat
  ae_visible :: bool

definition getState :: "affix_env \<Rightarrow> affix \<Rightarrow> affix_state" where
  "getState e a =
     (case (offsetTop a, affixed a) of
        (Some t, Top) \<Rightarrow> if ae_scrollTop e < t then Top else Free
      | (Some t, Bottom) \<Rightarrow>
          if ae_scrollTop e + (case unpin a of Some u \<Rightarrow> u | None \<Rightarrow> 0) \<le> ae_position e then Free else Bottom
      | (None, Bottom) \<Rightarrow>
          if ae_scrollTop e + ae_targetHeight e \<le> ae_scrollHeight e - (case offsetBottom a of Some b \<Rightarrow> b | None \<Rightarrow> 0)
          then Free else Bottom
      | _ \<Rightarrow>
          (let collider = (if affixed a = Unset then ae_scrollTop e + ae_targetHeight e else ae_position e + ae_height e)
           in if (case offsetTop a of Some t \<Rightarrow> ae_scrollTop e \<le> t | None \<Rightarrow> False) then Top
              else if (case offsetBottom a of Some b \<Rightarrow> collider \<ge> ae_scrollHeight e - b | None \<Rightarrow> False) then Bottom
              else Free))"

definition affix_type :: "affix_state \<Rightarrow> string" where
  "affix_type s = (case s of Top \<Rightarrow> ''affix-top'' | Bottom \<Rightarrow> ''affix-bottom'' | _ \<Rightarrow> ''affix'')"

text \<open>A pinned offset of 0 is taken again; the element's place under the class \<open>affix\<close> is \<open>ae_pinned\<close>.\<close>

definition getPinnedOffset :: "affix_env \<Rightarrow> affix \<Rightarrow> affix \<times> rat" where
  "getPinnedOffset e a =
     (case pinnedOffset a of
        Some p \<Rightarrow> if p \<noteq> 0 then (a, p)
                  else (a\<lparr>affix_class := ''affix'', pinnedOffset := Some (ae_pinned e - ae_scrollTop e)\<rparr>, ae_pinned e - ae_scrollTop e)
      | None \<Rightarrow> (a\<lparr>affix_class := ''affix'', pinnedOffset := Some (ae_pinned e - ae_scrollTop e)\<rparr>, ae_pinned e - ae_scrollTop e))"

definition place_bottom :: "affix_env \<Rightarrow> affix_state \<Rightarrow> affix \<Rightarrow> affix" where
  "place_bottom e st a =
     (if st = Bottom then a\<lparr>css_top := Some (ae_scrollHeight e - ae_height e - (case offsetBottom a of Some b \<Rightarrow> b | None \<Rightarrow> 0))\<rparr>
      else a)"

definition checkPosition :: "(string \<Rightarrow> bool) \<Rightarrow> affix_env \<Rightarrow> affix \<Rightarrow> affix" where
  "checkPosition prevented e a =
     (if \<not> ae_visible e then a
      else
        (let st = getState e a
         in if affixed a = st then place_bottom e st a
            else
              (let a1 = (if unpin a \<noteq> None then a\<lparr>css_top := None\<rparr> else a);
                   a2 = a1\<lparr>affix_events := affix_events a1 @ [affix_type st]\<rparr>
               in if prevented (affix_type st) then a2
                  else
                    (let a3 = a2\<lparr>affixed := st\<rparr>;
                         (a4, p) = (if st = Bottom then getPinnedOffset e a3 else (a3, 0));
                         a5 = a4\<lparr>unpin := (if st = Bottom then Some p else None), affix_class := affix_type st,
                                affix_events := affix_events a4 @ [''affixed'' @ drop 5 (affix_type st)]\<rparr>
                     in place_bottom e st a5))))"

definition new_affix :: "(string \<Rightarrow> bool) \<Rightarrow> affix_env \<Rightarrow> rat option \<Rightarrow> rat option \<Rightarrow> affix" where
  "new_affix prevented e pos bottom =
     checkPosition prevented e \<lparr>offsetTop = pos, offsetBottom = bottom, affixed = Unset, unpin = None, pinnedOffset = None,
       affix_class = [], css_top = None, affix_events = []\<rparr>"

text \<open>The option \<open>offset\<close>: one number stands for both, the default is 0.\<close>

definition affix_offsets :: "rat + rat option \<times> rat option \<Rightarrow> rat option \<times> rat option" where
  "affix_offsets off = (case off of Inl n \<Rightarrow> (Some n, Some n) | Inr p \<Rightarrow> p)"

end
