(* ===== verification/BS_ScrollProps.thy ===== *)
theory BS_ScrollProps
  imports BS_Scroll
begin

text \<open>
  The scroll spy finds the section that is scrolled to; and the positions where it and the affix waver.
\<close>

section \<open>The target at a position\<close>

definition target_at :: "rat list \<Rightarrow> string list \<Rightarrow> rat \<Rightarrow> string option" where
  "target_at os ts y =
     (case filter (\<lambda>p. fst p \<le> y) (zip os ts) of [] \<Rightarrow> None | ps \<Rightarrow> Some (snd (last ps)))"

definition hit :: "rat list \<Rightarrow> rat \<Rightarrow> nat \<Rightarrow> bool" where
  "hit os y i \<longleftrightarrow> y \<ge> os ! i \<and> (Suc i \<ge> length os \<or> os ! Suc i = 0 \<or> y \<le> os ! Suc i)"

lemma spy_loop_none:
  "(\<And>j. j < i \<Longrightarrow> act \<noteq> Some (ts ! j) \<Longrightarrow> \<not> hit os y j) \<Longrightarrow> spy_loop i os ts act y s = s"
  by (induction i arbitrary: s) (auto simp: hit_def less_Suc_eq)

lemma activate_target [simp]: "activeTarget (activate t s) = t"
  by (simp add: activate_def clear_spy_def)

lemma spy_loop_one:
  assumes "\<And>j. j < i \<Longrightarrow> hit os y j \<longleftrightarrow> j = k" "k < i"
  shows "activeTarget (spy_loop i os ts act y s) = (if act = Some (ts ! k) then activeTarget s else Some (ts ! k))"
  using assms
proof (induction i arbitrary: s)
  case (Suc i)
  show ?case
  proof (cases "k = i")
    case True
    have "hit os y i" using Suc.prems(1) [of i] True by simp
    moreover have "\<not> hit os y j" if "j < i" for j using Suc.prems(1) [of j] that True by simp
    ultimately show ?thesis using True by (auto simp: spy_loop_none hit_def)
  next
    case False
    then have "\<not> hit os y i" using Suc.prems(1) [of i] by simp
    then show ?thesis using Suc.IH [of s] Suc.prems False by (auto simp: hit_def)
  qed
qed simp

lemma hit_unique:
  assumes "sorted_wrt (<) os" "y \<notin> set os" "0 \<notin> set os" "k < length os" "os ! k < y" "Suc k < length os \<Longrightarrow> y < os ! Suc k"
    "j < length os"
  shows "hit os y j \<longleftrightarrow> j = k"
proof -
  have mono: "os ! a < os ! b" if "a < b" "b < length os" for a b
    using sorted_wrt_nth_less [OF assms(1)] that by blast
  have ne: "os ! a \<noteq> 0" "os ! a \<noteq> y" if "a < length os" for a using assms(2,3) that nth_mem by metis+
  consider "j < k" | "j = k" | "k < j" by linarith
  then show ?thesis
  proof cases
    case 1
    then have "os ! Suc j \<le> os ! k" using mono [of "Suc j" k] assms(4) by (cases "Suc j = k") auto
    then show ?thesis using 1 ne [of "Suc j"] assms(4,5) by (auto simp: hit_def)
  next
    case 2
    then show ?thesis using assms(5,6) by (cases "Suc k < length os") (auto simp: hit_def)
  next
    case 3
    then have "Suc k < length os" using assms(7) by simp
    moreover have "os ! Suc k \<le> os ! j" using mono [of "Suc k" j] 3 assms(7) by (cases "Suc k = j") auto
    ultimately show ?thesis using 3 assms(6) by (auto simp: hit_def)
  qed
qed

lemma in_take: "p \<in> set (take m xs) \<Longrightarrow> \<exists>a < m. a < length xs \<and> p = xs ! a"
  by (auto simp: in_set_conv_nth)

lemma in_drop: "p \<in> set (drop m xs) \<Longrightarrow> \<exists>a. m + a < length xs \<and> p = xs ! (m + a)"
  by (auto simp: in_set_conv_nth less_diff_conv add.commute)

lemma last_below:
  fixes os :: "rat list"
  assumes "sorted_wrt (<) os" "os \<noteq> []" "hd os < y" "y \<notin> set os"
  obtains k where "k < length os" "os ! k < y" "Suc k < length os \<Longrightarrow> y < os ! Suc k"
proof -
  define k where "k = Max {i. i < length os \<and> os ! i < y}"
  have ne: "{i. i < length os \<and> os ! i < y} \<noteq> {}" using assms(2,3) by (auto simp: hd_conv_nth intro!: exI [of _ 0])
  have fin: "finite {i. i < length os \<and> os ! i < y}" by simp
  have k: "k < length os" "os ! k < y" using Max_in [OF fin ne] by (simp_all add: k_def)
  have "\<not> os ! Suc k < y" if "Suc k < length os" using Max_ge [OF fin, of "Suc k"] that unfolding k_def [symmetric] by auto
  moreover have "os ! Suc k \<noteq> y" if "Suc k < length os" using assms(4) that nth_mem by metis
  ultimately have "y < os ! Suc k" if "Suc k < length os" using that by (metis not_less_iff_gr_or_eq)
  then show thesis using that [OF k] by blast
qed

lemma target_at_index:
  assumes "sorted_wrt (<) os" "length ts = length os" "k < length os" "os ! k < y" "Suc k < length os \<Longrightarrow> y < os ! Suc k"
  shows "target_at os ts y = Some (ts ! k)"
proof -
  have mono: "os ! a < os ! b" if "a < b" "b < length os" for a b
    using sorted_wrt_nth_less [OF assms(1)] that by blast
  have split: "zip os ts = take (Suc k) (zip os ts) @ drop (Suc k) (zip os ts)" by simp
  have le: "fst p \<le> y" if "p \<in> set (take (Suc k) (zip os ts))" for p
  proof -
    obtain a where a: "a < Suc k" "a < length (zip os ts)" "p = zip os ts ! a" using in_take [of p "Suc k" "zip os ts"] \<open>p \<in> set (take (Suc k) (zip os ts))\<close> by blast
    then have "fst p = os ! a" using assms(2) by simp
    moreover have "os ! a \<le> os ! k" using mono [of a k] a(1) assms(3) by (cases "a = k") auto
    ultimately show ?thesis using assms(4) by simp
  qed
  have gt: "\<not> fst p \<le> y" if "p \<in> set (drop (Suc k) (zip os ts))" for p
  proof -
    obtain a where a: "Suc k + a < length (zip os ts)" "p = zip os ts ! (Suc k + a)" using in_drop [of p "Suc k" "zip os ts"] \<open>p \<in> set (drop (Suc k) (zip os ts))\<close> by blast
    then have "fst p = os ! (Suc k + a)" "Suc k < length os" using assms(2) by simp_all
    moreover have "os ! Suc k \<le> os ! (Suc k + a)" using mono [of "Suc k" "Suc k + a"] a(1) by (cases "a = 0") auto
    ultimately show ?thesis using assms(5) by simp
  qed
  have "filter (\<lambda>p. fst p \<le> y) (take (Suc k) (zip os ts)) = take (Suc k) (zip os ts)" using le by (simp add: filter_id_conv)
  moreover have "filter (\<lambda>p. fst p \<le> y) (drop (Suc k) (zip os ts)) = []" using gt by (simp add: filter_empty_conv)
  ultimately have f: "filter (\<lambda>p. fst p \<le> y) (zip os ts) = take (Suc k) (zip os ts)"
    using split by (metis append_Nil2 filter_append)
  have "take (Suc k) (zip os ts) = take k (zip os ts) @ [(os ! k, ts ! k)]"
    using assms(2,3) by (simp add: take_Suc_conv_app_nth)
  then have "take (Suc k) (zip os ts) \<noteq> []" "last (take (Suc k) (zip os ts)) = (os ! k, ts ! k)" by simp_all
  then show ?thesis unfolding target_at_def f by (cases "take (Suc k) (zip os ts)") (auto simp del: take_Suc)
qed

lemma target_at_before:
  "sorted_wrt (<) os \<Longrightarrow> os = [] \<or> y < hd os \<Longrightarrow> target_at os ts y = None"
proof -
  assume s: "sorted_wrt (<) os" "os = [] \<or> y < hd os"
  have "hd os \<le> z" if "z \<in> set os" for z using s(1) that by (cases os) auto
  then have "filter (\<lambda>p. fst p \<le> y) (zip os ts) = []"
    using s(2) by (auto simp: filter_empty_conv dest!: set_zip_leftD)  fastforce
  then show ?thesis by (simp add: target_at_def)
qed

text \<open>C31: When the page's height has not changed and it is not scrolled to its end: after a scroll event the active
  target is that of the last section that begins above the position, and there is none above the first section;
  for sections at different places other than 0, and a position between them.\<close>

theorem scrollspy_active:
  assumes "sorted_wrt (<) (offsets s)" "0 \<notin> set (offsets s)" "length (targets s) = length (offsets s)" "[] \<notin> set (targets s)"
    "activeTarget s = None \<or> (\<exists>t \<in> set (targets s). activeTarget s = Some t)"
    "scrollHeight s = se_scrollHeight e" "y = se_scrollTop e + spy_offset s"
    "y < spy_offset s + se_scrollHeight e - se_height e" "y \<notin> set (offsets s)"
  shows "activeTarget (process e s) = target_at (offsets s) (targets s) y"
proof (cases "offsets s = [] \<or> y < hd (offsets s)")
  case True
  have none: "\<not> hit (offsets s) y j" if "j < length (offsets s)" for j
  proof -
    have "hd (offsets s) \<le> offsets s ! j"
      using assms(1) that by (cases "offsets s") (auto simp: nth_Cons less_imp_le split: nat.split)
    then show ?thesis using True that by (auto simp: hit_def)
  qed
  have t: "target_at (offsets s) (targets s) y = None" by (rule target_at_before [OF assms(1) True])
  show ?thesis
  proof (cases "activeTarget s = None")
    case True
    then have "process e s = s" using assms(6-8) none by (simp add: process_def Let_def spy_loop_none)
    then show ?thesis using t True by simp
  next
    case False
    then have "offsets s \<noteq> []" "activeTarget s \<noteq> Some []" using assms(3-5) by auto
    then show ?thesis using assms(6-8) False True t by (simp add: process_def Let_def clear_spy_def)
  qed
next
  case False
  then have "offsets s \<noteq> []" "hd (offsets s) < y"
    using assms(9) by (auto simp: not_less le_less)
  then obtain k where k: "k < length (offsets s)" "offsets s ! k < y" "Suc k < length (offsets s) \<Longrightarrow> y < offsets s ! Suc k"
    using last_below [OF assms(1) _ _ assms(9)] by metis
  have "process e s = spy_loop (length (offsets s)) (offsets s) (targets s) (activeTarget s) y s"
    using assms(6-8) False by (simp add: process_def Let_def)
  moreover have "hit (offsets s) y j \<longleftrightarrow> j = k" if "j < length (offsets s)" for j
    by (rule hit_unique [OF assms(1,9,2) k(1,2) _ that]) (use k(3) in blast)
  ultimately show ?thesis
    using spy_loop_one [where i = "length (offsets s)" and os = "offsets s" and y = y and k = k and act = "activeTarget s"
        and ts = "targets s" and s = s] k(1)
      target_at_index [OF assms(1,3) k(1,2)] k(3) by auto
qed

definition demo_spy :: spy where
  "demo_spy = \<lparr>offsets = [100, 500, 900], targets = [''#a'', ''#b'', ''#c''], activeTarget = Some ''#a'', scrollHeight = 2000,
     spy_offset = 10, marked = Some ''#a'', activations = []\<rparr>"

definition demo_spy_env :: "rat \<Rightarrow> spy_env" where
  "demo_spy_env y = \<lparr>se_links = [], se_window = True, se_scrollTop = y, se_scrollHeight = 2000, se_height = 600\<rparr>"

theorem scrollspy_active_witness: "activeTarget (process (demo_spy_env 600) demo_spy) = Some ''#b''"
  using scrollspy_active [of demo_spy "demo_spy_env 600" 610]
  by (simp add: demo_spy_def demo_spy_env_def target_at_def)

text \<open>Exactly where a section begins two sections are hit, and the active target alternates with every scroll event.\<close>

lemma scrollspy_wavers:
  "activeTarget (process (demo_spy_env 490) demo_spy) = Some ''#b''"
  "activeTarget (process (demo_spy_env 490) (process (demo_spy_env 490) demo_spy)) = Some ''#a''"
  by code_simp+

text \<open>When the height has changed, the first event still works on the old offsets.\<close>

lemma scrollspy_stale:
  "(let e = (demo_spy_env 600)\<lparr>se_scrollHeight := 3000, se_links := [\<lparr>sl_target = None, sl_href = Some ''#z'', sl_top = Some 300\<rparr>]\<rparr>
    in targets (process e demo_spy) = [''#z''] \<and> activeTarget (process e demo_spy) = Some ''#b'')"
  by code_simp

section \<open>The affix\<close>

lemma affix_top:
  assumes "offsetTop a = Some t" "offsetBottom a = None" "affixed a \<noteq> Bottom" "ae_visible e" "ae_scrollTop e \<noteq> t"
    "\<And>ev. \<not> prevented ev"
  shows "affixed (checkPosition prevented e a) = (if ae_scrollTop e < t then Top else Free)"
  using assms by (cases "affixed a") (auto simp: checkPosition_def getState_def Let_def place_bottom_def)

text \<open>Exactly at the offset the state alternates: it is left for a position not below, and entered for one not above.\<close>

lemma affix_wavers:
  assumes "offsetTop a = Some t" "offsetBottom a = None" "ae_visible e" "ae_scrollTop e = t" "\<And>ev. \<not> prevented ev"
  shows "affixed a = Top \<Longrightarrow> affixed (checkPosition prevented e a) = Free"
    "affixed a = Free \<Longrightarrow> affixed (checkPosition prevented e a) = Top"
  using assms by (auto simp: checkPosition_def getState_def Let_def place_bottom_def)

end
