(* ===== verification/Page.thy ===== *)
theory Page
  imports JS_Prelude
begin

text \<open>
  The script of the test page (js/scripts.js): the time the page takes to load, the images it adds,
  and the redirection that starts the next measurement. The clock is a parameter of each event, in
  milliseconds; \<open>Date.now\<close> never yields a fraction.
\<close>

section \<open>State\<close>

record page =
  loadTimeStart :: int
  redirect_interval :: int
  img_container :: "string list"
  loadTime :: string
  redirects :: "(int \<times> string) list"
  location :: string

definition script :: "int \<Rightarrow> page" where
  "script now = \<lparr>loadTimeStart = now, redirect_interval = 2, img_container = [], loadTime = [], redirects = [],
     location = ''index.html''\<rparr>"

section \<open>The load time\<close>

text \<open>The text of the number \<open>n / 1000\<close>: its decimals without the zeros at the end.\<close>

definition decimals :: "int \<Rightarrow> string" where
  "decimals r =
     (if r mod 100 = 0 then [digit_char (r div 100)]
      else if r mod 10 = 0 then [digit_char (r div 100), digit_char (r div 10 mod 10)]
      else [digit_char (r div 100), digit_char (r div 10 mod 10), digit_char (r mod 10)])"

definition show_thousandth :: "int \<Rightarrow> string" where
  "show_thousandth n =
     (let s = (if n < 0 then ''-'' else ''''); q = \<bar>n\<bar> div 1000; r = \<bar>n\<bar> mod 1000
      in s @ show_int q @ (if r = 0 then [] else ''.'' @ decimals r))"

definition window_load :: "int \<Rightarrow> page \<Rightarrow> page" where
  "window_load now p =
     p\<lparr>loadTime := show_thousandth (now - loadTimeStart p) @ ''s'',
       redirects := redirects p @ [(now + redirect_interval p * 1000, ''blank.html'')]\<rparr>"

section \<open>The images\<close>

definition img_tag :: "nat \<Rightarrow> string" where
  "img_tag i = ''<img src='./img/ml/ml'' @ show_int (int i) @ ''.png' />''"

fun add_images :: "nat \<Rightarrow> nat \<Rightarrow> page \<Rightarrow> page" where
  "add_images i 0 p = p"
| "add_images i (Suc n) p = add_images (Suc i) n (p\<lparr>img_container := img_container p @ [img_tag i]\<rparr>)"

definition dom_ready :: "page \<Rightarrow> page" where
  "dom_ready p = (let count = 100 in add_images 0 count p)"

section \<open>The redirection\<close>

text \<open>The timers that are due at a time run in the order they were set; the last one decides the location.\<close>

definition timers_at :: "int \<Rightarrow> page \<Rightarrow> page" where
  "timers_at now p =
     (let due = filter (\<lambda>(t, u). t \<le> now) (redirects p)
      in p\<lparr>redirects := filter (\<lambda>(t, u). \<not> t \<le> now) (redirects p),
           location := (if due = [] then location p else snd (last due))\<rparr>)"

datatype page_event = Ready | Load int | Clock int

fun page_step :: "page_event \<Rightarrow> page \<Rightarrow> page" where
  "page_step Ready p = dom_ready p"
| "page_step (Load now) p = window_load now p"
| "page_step (Clock now) p = timers_at now p"

definition page_run :: "int \<Rightarrow> page_event list \<Rightarrow> page" where
  "page_run start es = foldl (\<lambda>p e. page_step e p) (script start) es"

section \<open>What the page shows\<close>

text \<open>The number a decimal text stands for.\<close>

definition dec_value :: "string \<Rightarrow> rat" where
  "dec_value s =
     (let a = takeWhile is_digit s; b = takeWhile is_digit (tl (dropWhile is_digit s))
      in of_int (digits_val a) + of_int (digits_val b) / 10 ^ length b)"

lemma decimals_value:
  assumes "0 \<le> r" "r < 1000"
  shows "of_int (digits_val (decimals r)) / 10 ^ length (decimals r) = (of_int r / 1000 :: rat)"
    and "\<forall>c \<in> set (decimals r). is_digit c"
proof -
  define a b c where "a = r div 100" and "b = r div 10 mod 10" and "c = r mod 10"
  have "r div 10 = 10 * a + b" using div_mult_mod_eq [of "r div 10" 10] by (simp add: a_def b_def zdiv_zmult2_eq [symmetric])
  then have r: "r = 100 * a + 10 * b + c" using div_mult_mod_eq [of r 10] unfolding c_def by linarith
  have d: "0 \<le> a" "a \<le> 9" "0 \<le> b" "b \<le> 9" "0 \<le> c" "c \<le> 9" using assms by (auto simp: a_def b_def c_def)
  have m: "r mod 100 = 10 * b + c"
    using d mod_mult_self4 [of 100 a "10 * b + c"] by (simp add: r add.assoc)
  have m10: "r mod 10 = c" by (simp add: c_def)
  have e: "decimals r = (if 10 * b + c = 0 then [digit_char a] else if c = 0 then [digit_char a, digit_char b]
      else [digit_char a, digit_char b, digit_char c])"
    unfolding decimals_def m m10 by (simp add: a_def b_def c_def)
  have v: "digits_val [digit_char a] = a" "digits_val [digit_char a, digit_char b] = 10 * a + b"
    "digits_val [digit_char a, digit_char b, digit_char c] = 100 * a + 10 * b + c"
    using d by (simp_all add: digits_val_def)
  show "of_int (digits_val (decimals r)) / 10 ^ length (decimals r) = (of_int r / 1000 :: rat)"
    unfolding e using v r by (simp split: if_splits)
  show "\<forall>c \<in> set (decimals r). is_digit c"
    unfolding e using d by (simp split: if_splits)
qed

lemma dec_value_show:
  assumes "0 \<le> n"
  shows "dec_value (show_thousandth n @ ''s'') = of_int n / 1000"
proof -
  define q r where "q = n div 1000" and "r = n mod 1000"
  have n: "n = 1000 * q + r" and q: "0 \<le> q" and r: "0 \<le> r" "r < 1000"
    using assms by (simp_all add: q_def r_def)
  have show_q: "show_int q = show_nat q" using q by (simp add: show_int_def)
  have dot: "\<not> is_digit (CHR ''.'')" "\<not> is_digit (CHR ''s'')" by (simp_all add: is_digit_def)
  have all_q: "\<And>c. c \<in> set (show_nat q) \<Longrightarrow> is_digit c" using show_nat_digits [OF q] by (simp add: list_all_iff)
  have tw: "takeWhile is_digit (show_nat q @ c # cs) = show_nat q" "dropWhile is_digit (show_nat q @ c # cs) = c # cs"
    if "\<not> is_digit c" for c cs
    using that all_q by (simp_all add: takeWhile_append2 dropWhile_append2)
  show ?thesis
  proof (cases "r = 0")
    case True
    then have "show_thousandth n = show_nat q"
      using assms show_q by (simp add: show_thousandth_def Let_def q_def r_def)
    then show ?thesis using True n q dot tw by (simp add: dec_value_def Let_def digits_val_show_nat)
  next
    case False
    then have t: "show_thousandth n = show_nat q @ CHR ''.'' # decimals r"
      using assms show_q by (simp add: show_thousandth_def Let_def q_def r_def)
    have "takeWhile is_digit (decimals r @ ''s'') = decimals r"
      using decimals_value(2) [OF r] dot(2) by (simp add: takeWhile_append2)
    then have "dec_value (show_thousandth n @ ''s'') = of_int q + of_int r / 1000"
      using decimals_value(1) [OF r] q dot tw by (simp add: dec_value_def Let_def t digits_val_show_nat)
    then show ?thesis using n by (simp add: field_simps)
  qed
qed

lemma add_images_eq: "add_images i n p = p\<lparr>img_container := img_container p @ map img_tag [i..<i + n]\<rparr>"
  by (induction n arbitrary: i p) (simp_all add: upt_rec del: upt_Suc)

text \<open> The page measures one load: after it is ready it holds the hundred images once each, in order;
  once loaded, after \<open>d\<close> milliseconds, it shows a text that denotes exactly \<open>d\<close> thousandths of a second;
  and it is left for blank.html by the first look at the clock two seconds or more after the load, not earlier.\<close>

theorem page_measures:
  assumes "0 \<le> d" "0 \<le> w"
  shows "(let p = page_run start [Ready, Load (start + d), Clock (start + d + w)]
          in img_container p = map img_tag [0..<100] \<and> dec_value (loadTime p) = of_int d / 1000 \<and>
             location p = (if 2000 \<le> w then ''blank.html'' else ''index.html''))"
proof -
  define p where "p = window_load (start + d) (dom_ready (script start))"
  have p: "img_container p = map img_tag [0..<100]" "loadTime p = show_thousandth d @ ''s''"
    "redirects p = [(start + d + 2000, ''blank.html'')]" "location p = ''index.html''"
    by (simp_all add: p_def window_load_def dom_ready_def Let_def add_images_eq script_def)
  have "page_run start [Ready, Load (start + d), Clock (start + d + w)] = timers_at (start + d + w) p"
    by (simp add: page_run_def p_def)
  moreover have "img_container (timers_at t p) = img_container p" "loadTime (timers_at t p) = loadTime p" for t
    by (simp_all add: timers_at_def Let_def)
  moreover have "location (timers_at (start + d + w) p) = (if 2000 \<le> w then ''blank.html'' else ''index.html'')"
    using p(3,4) by (simp add: timers_at_def Let_def)
  ultimately show ?thesis using dec_value_show [OF assms(1)] p by (simp add: Let_def)
qed

theorem page_measures_witness:
  "dec_value (loadTime (page_run 5000 [Ready, Load 6234, Clock 8234])) = 1234 / 1000 \<and>
   location (page_run 5000 [Ready, Load 6234, Clock 8234]) = ''blank.html''"
  using page_measures [of 1234 2000 5000] by (simp add: Let_def)

end
