(* ===== verification/JQ_Core.thy ===== *)
theory JQ_Core
  imports JS_Prelude
begin

text \<open>
  The small functions of jQuery (jquery.js) and of the language that its components share: the words
  of a string, the search in an array, trimming, and the search and replacement of a string in
  another.
\<close>

section \<open>Words\<close>

text \<open>\<open>s.match(/\S+/g) || []\<close>: the words of a string.\<close>

fun rnotwhite_from :: "string \<Rightarrow> string \<Rightarrow> string list" where
  "rnotwhite_from w [] = (if w = [] then [] else [w])"
| "rnotwhite_from w (c # cs) =
     (if is_space c then (if w = [] then [] else [w]) @ rnotwhite_from [] cs
      else rnotwhite_from (w @ [c]) cs)"

definition match_rnotwhite :: "string \<Rightarrow> string list" where
  "match_rnotwhite s = rnotwhite_from [] s"

text \<open>The words read from an accumulated word, and words of a concatenation.\<close>

lemma rnotwhite_from_app:
  "rnotwhite_from w (a @ c # b) = rnotwhite_from w a @ rnotwhite_from [] b" if "is_space c"
  using that by (induction a arbitrary: w) auto

lemma match_append_space: "is_space c \<Longrightarrow> match_rnotwhite (a @ c # b) = match_rnotwhite a @ match_rnotwhite b"
  by (simp add: match_rnotwhite_def rnotwhite_from_app)

lemma rnotwhite_from_word: "\<forall>c \<in> set v. \<not> is_space c \<Longrightarrow> rnotwhite_from w v = (if w @ v = [] then [] else [w @ v])"
  by (induction v arbitrary: w) auto

lemma match_word: "v \<noteq> [] \<Longrightarrow> \<forall>c \<in> set v. \<not> is_space c \<Longrightarrow> match_rnotwhite v = [v]"
  by (simp add: match_rnotwhite_def rnotwhite_from_word)

lemma match_Nil [simp]: "match_rnotwhite [] = []"
  by (simp add: match_rnotwhite_def)

lemma rnotwhite_from_words:
  "v \<in> set (rnotwhite_from w s) \<Longrightarrow> \<forall>c \<in> set w. \<not> is_space c \<Longrightarrow> v \<noteq> [] \<and> (\<forall>c \<in> set v. \<not> is_space c)"
  by (induction w s rule: rnotwhite_from.induct) (auto split: if_splits)

lemma match_words: "v \<in> set (match_rnotwhite s) \<Longrightarrow> v \<noteq> [] \<and> (\<forall>c \<in> set v. \<not> is_space c)"
  using rnotwhite_from_words [of v "[]" s] by (simp add: match_rnotwhite_def)

section \<open>Arrays\<close>

text \<open>\<open>jQuery.inArray\<close>: the first position from \<open>i\<close> on, or -1.\<close>

function index_from :: "'a \<Rightarrow> 'a list \<Rightarrow> nat \<Rightarrow> int" where
  "index_from x xs i =
     (if i < length xs then if xs ! i = x then int i else index_from x xs (Suc i) else - 1)"
  by pat_completeness auto
termination by (relation "measure (\<lambda>(x, xs, i). length xs - i)") auto

declare index_from.simps [simp del]

definition inArray :: "'a \<Rightarrow> 'a list \<Rightarrow> int \<Rightarrow> int" where
  "inArray x xs i =
     index_from x xs (nat (if i < 0 then max 0 (int (length xs) + i) else i))"

lemma index_from_bounds: "index_from x xs i \<noteq> - 1 \<Longrightarrow>
    int i \<le> index_from x xs i \<and> index_from x xs i < int (length xs) \<and> xs ! nat (index_from x xs i) = x"
  by (induction x xs i rule: index_from.induct) (subst (asm) (2) index_from.simps, subst (1 2 3) index_from.simps, auto split: if_splits)

lemma inArray_bounds: "0 \<le> i \<Longrightarrow> inArray x xs i > - 1 \<Longrightarrow>
    i \<le> inArray x xs i \<and> inArray x xs i < int (length xs) \<and> xs ! nat (inArray x xs i) = x"
  using index_from_bounds [of x xs "nat i"] by (simp add: inArray_def)

lemma index_from_least:
  "index_from x xs i = int k \<Longrightarrow> x \<notin> set (drop i (take k xs))"
proof (induction x xs i rule: index_from.induct)
  case (1 x xs i)
  show ?case
  proof (cases "i < length xs \<and> xs ! i \<noteq> x")
    case True
    then have "index_from x xs (Suc i) = int k" using 1(2) by (subst (asm) index_from.simps) simp
    moreover then have "Suc i \<le> k" using index_from_bounds [of x xs "Suc i"] by simp
    ultimately show ?thesis
      using 1(1) True by (subst Cons_nth_drop_Suc [symmetric]) auto
  next
    case False
    then show ?thesis using 1(2) by (subst (asm) index_from.simps) (auto split: if_splits)
  qed
qed

lemma index_from_none: "index_from x xs i = - 1 \<longleftrightarrow> x \<notin> set (drop i xs)"
proof (induction x xs i rule: index_from.induct)
  case (1 x xs i)
  then show ?case
    by (subst index_from.simps) (auto simp: Cons_nth_drop_Suc [symmetric] simp del: drop_Suc)
qed

lemma index_from_cases:
  obtains "index_from x xs i = - 1" "x \<notin> set (drop i xs)"
  | k where "index_from x xs i = int k" "i \<le> k" "k < length xs" "xs ! k = x" "x \<notin> set (drop i (take k xs))"
proof (cases "index_from x xs i = - 1")
  case True
  then show ?thesis using that(1) index_from_none by metis
next
  case False
  from index_from_bounds [OF this] have "index_from x xs i = int (nat (index_from x xs i))" by simp
  then show ?thesis
    using that(2) [of "nat (index_from x xs i)"] index_from_bounds [OF False]
      index_from_least [of x xs i "nat (index_from x xs i)"] by auto
qed

lemma inArray_0: "inArray x xs 0 > - 1 \<longleftrightarrow> x \<in> set xs"
  by (cases rule: index_from_cases [of x xs 0]) (auto simp: inArray_def)

section \<open>Strings\<close>

text \<open>\<open>hay.indexOf(needle)\<close> and \<open>hay.replace(needle, by)\<close> for a string \<open>needle\<close>: the first
  occurrence.\<close>

fun begins_with :: "string \<Rightarrow> string \<Rightarrow> bool" where
  "begins_with [] s \<longleftrightarrow> True"
| "begins_with (c # cs) [] \<longleftrightarrow> False"
| "begins_with (c # cs) (d # ds) \<longleftrightarrow> c = d \<and> begins_with cs ds"

fun string_index_from :: "nat \<Rightarrow> string \<Rightarrow> string \<Rightarrow> int" where
  "string_index_from i v [] = (if v = [] then int i else - 1)"
| "string_index_from i v (c # cs) = (if begins_with v (c # cs) then int i else string_index_from (Suc i) v cs)"

definition string_index :: "string \<Rightarrow> string \<Rightarrow> int" where
  "string_index hay v = string_index_from 0 v hay"

definition replace_first :: "string \<Rightarrow> string \<Rightarrow> string \<Rightarrow> string" where
  "replace_first v by hay =
     (let k = string_index hay v in
      if k < 0 then hay else take (nat k) hay @ by @ drop (nat k + length v) hay)"

definition trim :: "string \<Rightarrow> string" where
  "trim s = rev (dropWhile is_space (rev (dropWhile is_space s)))"

lemma begins_with_iff: "begins_with v s \<longleftrightarrow> (\<exists>b. s = v @ b)"
  by (induction v s rule: begins_with.induct) auto

lemma string_index_from_split:
  "string_index_from i v s \<noteq> - 1 \<Longrightarrow>
    \<exists>a b. s = a @ v @ b \<and> string_index_from i v s = int (i + length a)"
proof (induction i v s rule: string_index_from.induct)
  case (2 i v c cs)
  show ?case
  proof (cases "begins_with v (c # cs)")
    case True
    then show ?thesis by (auto simp: begins_with_iff intro: exI [of _ "[]"])
  next
    case False
    then obtain a b where "cs = a @ v @ b" "string_index_from (Suc i) v cs = int (Suc i + length a)"
      using 2 by auto
    then have "c # cs = (c # a) @ v @ b \<and> string_index_from i v (c # cs) = int (i + length (c # a))"
      using False by simp
    then show ?thesis by blast
  qed
qed (auto split: if_splits)

lemma string_index_from_none: "string_index_from i v s = - 1 \<Longrightarrow> s \<noteq> a @ v @ b"
proof (induction i v s arbitrary: a rule: string_index_from.induct)
  case (2 i v c cs)
  then have "\<not> begins_with v (c # cs)" "string_index_from (Suc i) v cs = - 1" by (auto split: if_splits)
  with 2(1) [OF this, of "tl a"] show ?case by (cases a) (auto simp: begins_with_iff)
qed (auto split: if_splits)

lemma string_index_from_cases:
  obtains "string_index hay v = - 1" "\<And>a b. hay \<noteq> a @ v @ b"
  | a b where "hay = a @ v @ b" "string_index hay v = int (length a)"
proof (cases "string_index hay v = - 1")
  case True
  then show ?thesis using that(1) string_index_from_none by (metis string_index_def)
next
  case False
  then show ?thesis using that(2) string_index_from_split [of 0 v hay] by (auto simp: string_index_def)
qed

lemma dropWhile_spaces_match: "match_rnotwhite (dropWhile is_space s) = match_rnotwhite s"
  by (induction s) (use match_append_space [of _ "[]"] in auto)

lemma rev_dropWhile_match: "match_rnotwhite (rev (dropWhile is_space (rev s))) = match_rnotwhite s"
  by (induction s rule: rev_induct) (use match_append_space [of _ _ "[]"] in auto)

lemma match_trim [simp]: "match_rnotwhite (trim s) = match_rnotwhite s"
  by (simp add: trim_def rev_dropWhile_match dropWhile_spaces_match)

end
