(* ===== verification/JQ_Callbacks.thy ===== *)
theory JQ_Callbacks
  imports JQ_Core
begin

text \<open>
  The callback lists of jQuery (\<open>jQuery.Callbacks\<close>, jquery.js). A list fires its functions in
  order and may be changed by them while it does so: a function can add others to the running
  batch, remove some, empty, disable or lock the list, and fire it again, which queues the call on
  \<open>stack\<close>. The variables of the closure are the fields of \<open>cb\<close>; \<open>list\<close> and \<open>stack\<close> are
  \<open>None\<close> where the code makes them undefined, and \<open>memory\<close> is \<open>None\<close> where it is falsy.
  The functions of a list live in the world of a client, so \<open>fire\<close>, \<open>add\<close> and
  \<open>fireWith\<close> take the way a function is called and the place of the list in that world.
  They run on fuel; \<open>Inl Diverge\<close> says that it was not enough.
\<close>

section \<open>Options\<close>

record cb_options =
  once :: bool
  memory_opt :: bool
  unique :: bool
  stopOnFalse :: bool

definition createOptions :: "string \<Rightarrow> cb_options" where
  "createOptions s =
     (let flags = match_rnotwhite s in
      \<lparr>once = (''once'' \<in> set flags), memory_opt = (''memory'' \<in> set flags),
       unique = (''unique'' \<in> set flags), stopOnFalse = (''stopOnFalse'' \<in> set flags)\<rparr>)"

section \<open>The state of a list\<close>

record ('f, 'd) cb =
  cb_options :: cb_options
  firing :: bool
  memory :: "'d option"
  fired :: bool
  firingLength :: int
  firingIndex :: int
  firingStart :: int
  cb_list :: "'f list option"
  cb_stack :: "'d list option"

definition callbacks :: "cb_options \<Rightarrow> ('f, 'd) cb" where
  "callbacks os = \<lparr>cb_options = os, firing = False, memory = None, fired = False, firingLength = 0,
     firingIndex = 0, firingStart = 0, cb_list = Some [], cb_stack = (if once os then None else Some [])\<rparr>"

section \<open>Operations that call nothing\<close>

text \<open>What \<open>add\<close> is given: functions, array-likes of them, and values it skips.\<close>

datatype 'f arg = Fn 'f | Args "'f arg list" | NoFn

fun add_args :: "bool \<Rightarrow> 'f arg list \<Rightarrow> 'f list \<Rightarrow> 'f list" where
  "add_args u [] l = l"
| "add_args u (Fn f # as) l = add_args u as (if \<not> u \<or> inArray f l 0 \<le> - 1 then l @ [f] else l)"
| "add_args u (Args bs # as) l = add_args u as (add_args u bs l)"
| "add_args u (NoFn # as) l = add_args u as l"

definition splice_one :: "nat \<Rightarrow> 'a list \<Rightarrow> 'a list" where
  "splice_one k l = take k l @ drop (Suc k) l"

definition remove_at :: "nat \<Rightarrow> 'f list \<Rightarrow> ('f, 'd) cb \<Rightarrow> ('f, 'd) cb" where
  "remove_at k l c = c\<lparr>cb_list := Some (splice_one k l),
     firingLength := (if firing c \<and> int k \<le> firingLength c then firingLength c - 1 else firingLength c),
     firingIndex := (if firing c \<and> int k \<le> firingIndex c then firingIndex c - 1 else firingIndex c)\<rparr>"

definition list_length :: "('f, 'd) cb \<Rightarrow> nat" where
  "list_length c = (case cb_list c of None \<Rightarrow> 0 | Some l \<Rightarrow> length l)"

lemma length_splice_one: "k < length l \<Longrightarrow> length (splice_one k l) = length l - 1"
  by (simp add: splice_one_def)

function remove_loop :: "'f \<Rightarrow> nat \<Rightarrow> ('f, 'd) cb \<Rightarrow> ('f, 'd) cb" where
  "remove_loop f i c =
     (case cb_list c of None \<Rightarrow> c
      | Some l \<Rightarrow>
        (let k = inArray f l (int i) in
         if k > - 1 then remove_loop f (nat k) (remove_at (nat k) l c) else c))"
  by pat_completeness auto
termination
proof (relation "measure (\<lambda>(f, i, c). list_length c)", simp)
  fix f i and c :: "('f, 'd) cb" and l k
  assume a: "cb_list c = Some l" "k = inArray f l (int i)" "k > - 1"
  then have "nat k < length l" using inArray_bounds [of "int i" f l] by auto
  then show "((f, nat k, remove_at (nat k) l c), f, i, c) \<in> measure (\<lambda>(f, i, c). list_length c)"
    using a(1) by (auto simp: list_length_def remove_at_def length_splice_one)
qed

declare remove_loop.simps [simp del]

fun cb_remove :: "'f list \<Rightarrow> ('f, 'd) cb \<Rightarrow> ('f, 'd) cb" where
  "cb_remove [] c = c"
| "cb_remove (f # fs) c = cb_remove fs (remove_loop f 0 c)"

definition cb_has :: "'f \<Rightarrow> ('f, 'd) cb \<Rightarrow> bool" where
  "cb_has f c = (case cb_list c of None \<Rightarrow> False | Some l \<Rightarrow> inArray f l 0 > - 1)"

definition cb_has_any :: "('f, 'd) cb \<Rightarrow> bool" where
  "cb_has_any c = (case cb_list c of None \<Rightarrow> False | Some l \<Rightarrow> l \<noteq> [])"

definition cb_empty :: "('f, 'd) cb \<Rightarrow> ('f, 'd) cb" where
  "cb_empty c = c\<lparr>cb_list := Some [], firingLength := 0\<rparr>"

definition cb_disable :: "('f, 'd) cb \<Rightarrow> ('f, 'd) cb" where
  "cb_disable c = c\<lparr>cb_list := None, cb_stack := None, memory := None\<rparr>"

definition cb_disabled :: "('f, 'd) cb \<Rightarrow> bool" where
  "cb_disabled c \<longleftrightarrow> cb_list c = None"

definition cb_lock :: "('f, 'd) cb \<Rightarrow> ('f, 'd) cb" where
  "cb_lock c = (let c1 = c\<lparr>cb_stack := None\<rparr> in if memory c1 = None then cb_disable c1 else c1)"

definition cb_locked :: "('f, 'd) cb \<Rightarrow> bool" where
  "cb_locked c \<longleftrightarrow> cb_stack c = None"

section \<open>Firing\<close>

text \<open>A call gives the new world and whether the function returned false.\<close>

type_synonym ('f, 'd, 'w) caller = "'f \<Rightarrow> 'd \<Rightarrow> 'w \<Rightarrow> ('w \<times> bool) js"

primrec fire_loop :: "nat \<Rightarrow> ('f, 'd, 'w) caller \<Rightarrow> ('w \<Rightarrow> ('f, 'd) cb) \<Rightarrow>
    (('f, 'd) cb \<Rightarrow> 'w \<Rightarrow> 'w) \<Rightarrow> 'd \<Rightarrow> 'w \<Rightarrow> 'w js" where
  "fire_loop 0 call get put data w = Inl Diverge"
| "fire_loop (Suc n) call get put data w =
     (let c = get w in
      case cb_list c of None \<Rightarrow> Inr w
      | Some l \<Rightarrow>
        if \<not> firingIndex c < firingLength c then Inr w
        else if firingIndex c < 0 \<or> int (length l) \<le> firingIndex c then Inl (Throw ''TypeError'')
        else js_bind (call (l ! nat (firingIndex c)) data w) (\<lambda>(w1, is_false).
          let c1 = get w1 in
          if is_false \<and> stopOnFalse (cb_options c1) then Inr (put (c1\<lparr>memory := None\<rparr>) w1)
          else fire_loop n call get put data (put (c1\<lparr>firingIndex := firingIndex c1 + 1\<rparr>) w1)))"

definition fire_start :: "'d \<Rightarrow> 'f list \<Rightarrow> ('f, 'd) cb \<Rightarrow> ('f, 'd) cb" where
  "fire_start data l c = c\<lparr>memory := (if memory_opt (cb_options c) then Some data else None), fired := True,
     firingIndex := firingStart c, firingStart := 0, firingLength := int (length l), firing := True\<rparr>"

text \<open>What follows the loop: a queued call is fired next; a list that can fire only once is emptied
  or disabled.\<close>

definition fire_end :: "('d \<Rightarrow> 'w \<Rightarrow> 'w js) \<Rightarrow> ('w \<Rightarrow> ('f, 'd) cb) \<Rightarrow> (('f, 'd) cb \<Rightarrow> 'w \<Rightarrow> 'w) \<Rightarrow>
    'w \<Rightarrow> 'w js" where
  "fire_end again get put w =
     (let c = (get w)\<lparr>firing := False\<rparr> in
      if cb_list c = None then Inr (put c w)
      else (case cb_stack c of
          Some (d # ds) \<Rightarrow> again d (put (c\<lparr>cb_stack := Some ds\<rparr>) w)
        | Some [] \<Rightarrow> Inr (put c w)
        | None \<Rightarrow> Inr (put (if memory c \<noteq> None then c\<lparr>cb_list := Some []\<rparr> else cb_disable c) w)))"

primrec cb_fire :: "nat \<Rightarrow> ('f, 'd, 'w) caller \<Rightarrow> ('w \<Rightarrow> ('f, 'd) cb) \<Rightarrow>
    (('f, 'd) cb \<Rightarrow> 'w \<Rightarrow> 'w) \<Rightarrow> 'd \<Rightarrow> 'w \<Rightarrow> 'w js" where
  "cb_fire 0 call get put data w = Inl Diverge"
| "cb_fire (Suc n) call get put data w =
     (case cb_list (get w) of None \<Rightarrow> Inl (Throw ''TypeError'')
      | Some l \<Rightarrow>
        js_bind (fire_loop n call get put data (put (fire_start data l (get w)) w))
          (fire_end (cb_fire n call get put) get put))"

definition cb_add :: "nat \<Rightarrow> ('f, 'd, 'w) caller \<Rightarrow> ('w \<Rightarrow> ('f, 'd) cb) \<Rightarrow>
    (('f, 'd) cb \<Rightarrow> 'w \<Rightarrow> 'w) \<Rightarrow> 'f arg list \<Rightarrow> 'w \<Rightarrow> 'w js" where
  "cb_add n call get put as w =
     (let c = get w in
      case cb_list c of None \<Rightarrow> Inr w
      | Some l \<Rightarrow>
        (let l1 = add_args (unique (cb_options c)) as l; c1 = c\<lparr>cb_list := Some l1\<rparr> in
         if firing c then Inr (put (c1\<lparr>firingLength := int (length l1)\<rparr>) w)
         else (case memory c of None \<Rightarrow> Inr (put c1 w)
               | Some d \<Rightarrow> cb_fire n call get put d (put (c1\<lparr>firingStart := int (length l)\<rparr>) w))))"

definition fireWith :: "nat \<Rightarrow> ('f, 'd, 'w) caller \<Rightarrow> ('w \<Rightarrow> ('f, 'd) cb) \<Rightarrow>
    (('f, 'd) cb \<Rightarrow> 'w \<Rightarrow> 'w) \<Rightarrow> 'd \<Rightarrow> 'w \<Rightarrow> 'w js" where
  "fireWith n call get put data w =
     (let c = get w in
      if cb_list c \<noteq> None \<and> (\<not> fired c \<or> cb_stack c \<noteq> None) then
        if firing c then
          (case cb_stack c of None \<Rightarrow> Inl (Throw ''TypeError'')
           | Some s \<Rightarrow> Inr (put (c\<lparr>cb_stack := Some (s @ [data])\<rparr>) w))
        else cb_fire n call get put data w
      else Inr w)"

section \<open>A list of its own\<close>

text \<open>
  A world that holds one list and the calls it has made. What a function does to the list it is in
  depends on the calls so far: \<open>behave\<close> gives the operations it performs and whether it returns
  false.
\<close>

datatype ('f, 'd) cb_op = Add "'f arg list" | Remove "'f list" | Empty | Disable | Lock | FireWith 'd

record ('f, 'd) cb_world =
  w_cb :: "('f, 'd) cb"
  w_calls :: "('f \<times> 'd) list"

type_synonym ('f, 'd) behaviour = "('f \<times> 'd) list \<Rightarrow> 'f \<Rightarrow> 'd \<Rightarrow> ('f, 'd) cb_op list \<times> bool"

definition put_cb :: "('f, 'd) cb \<Rightarrow> ('f, 'd) cb_world \<Rightarrow> ('f, 'd) cb_world" where
  "put_cb c w = w\<lparr>w_cb := c\<rparr>"

fun run_op :: "nat \<Rightarrow> ('f, 'd, ('f, 'd) cb_world) caller \<Rightarrow> ('f, 'd) cb_op \<Rightarrow>
    ('f, 'd) cb_world \<Rightarrow> ('f, 'd) cb_world js" where
  "run_op n call (Add as) w = cb_add n call w_cb put_cb as w"
| "run_op n call (Remove fs) w = Inr (put_cb (cb_remove fs (w_cb w)) w)"
| "run_op n call Empty w = Inr (put_cb (cb_empty (w_cb w)) w)"
| "run_op n call Disable w = Inr (put_cb (cb_disable (w_cb w)) w)"
| "run_op n call Lock w = Inr (put_cb (cb_lock (w_cb w)) w)"
| "run_op n call (FireWith d) w = fireWith n call w_cb put_cb d w"

primrec run_ops :: "nat \<Rightarrow> ('f, 'd, ('f, 'd) cb_world) caller \<Rightarrow> ('f, 'd) cb_op list \<Rightarrow>
    ('f, 'd) cb_world \<Rightarrow> ('f, 'd) cb_world js" where
  "run_ops n call [] w = Inr w"
| "run_ops n call (p # ps) w = js_bind (run_op n call p w) (run_ops n call ps)"

primrec invoke :: "nat \<Rightarrow> ('f, 'd) behaviour \<Rightarrow> ('f, 'd, ('f, 'd) cb_world) caller" where
  "invoke 0 b f d w = Inl Diverge"
| "invoke (Suc n) b f d w =
     (case b (w_calls w) f d of (ps, r) \<Rightarrow>
      js_bind (run_ops n (invoke n b) ps (w\<lparr>w_calls := w_calls w @ [(f, d)]\<rparr>)) (\<lambda>w1. Inr (w1, r)))"

definition cb_run :: "nat \<Rightarrow> ('f, 'd) behaviour \<Rightarrow> ('f, 'd) cb_op list \<Rightarrow> ('f, 'd) cb_world \<Rightarrow>
    ('f, 'd) cb_world js" where
  "cb_run n b = run_ops n (invoke n b)"

definition cb_new :: "string \<Rightarrow> ('f, 'd) cb_world" where
  "cb_new s = \<lparr>w_cb = callbacks (createOptions s), w_calls = []\<rparr>"

end
