(* ===== verification/JQ_CallbacksProps.thy ===== *)
theory JQ_CallbacksProps
  imports JQ_Callbacks
begin

text \<open>
  What holds of a callback list whatever its functions do to it. \<open>cb_trans\<close> collects the changes
  a list makes to itself while it is fired or added to. The locale \<open>fired_list\<close> is the contract
  between a list and the world its functions live in: the world keeps an invariant under these
  changes and under each call, and then it keeps it under \<open>fire\<close>, \<open>add\<close> and
  \<open>fireWith\<close>, none of which throws.
\<close>

section \<open>Searching and removing\<close>

lemma cb_has_iff: "cb_has f c \<longleftrightarrow> (\<exists>l. cb_list c = Some l \<and> f \<in> set l)"
  by (auto simp: cb_has_def inArray_0 split: option.split)

text \<open>The functions the current batch has still to call, seen from within a call.\<close>

definition pending :: "('f, 'd) cb \<Rightarrow> 'f list" where
  "pending c = (case cb_list c of None \<Rightarrow> [] | Some l \<Rightarrow> drop (nat (firingIndex c + 1)) (take (nat (firingLength c)) l))"

definition cb_ok :: "('f, 'd) cb \<Rightarrow> bool" where
  "cb_ok c \<longleftrightarrow> 0 \<le> firingStart c \<and> (firing c \<longrightarrow> fired c \<and> - 1 \<le> firingIndex c \<and>
     (\<forall>l. cb_list c = Some l \<longrightarrow> firingLength c = int (length l))) \<and>
     (cb_list c = None \<longrightarrow> cb_stack c = None \<and> memory c = None) \<and> (memory c \<noteq> None \<longrightarrow> fired c)"

lemma splice_parts:
  assumes "k < length l" "l ! k = f"
  shows "l = take k l @ f # drop (Suc k) l"
  using assms id_take_nth_drop by metis

lemma filter_splice:
  assumes "k < length l" "l ! k = f"
  shows "filter (\<lambda>g. g \<noteq> f) (splice_one k l) = filter (\<lambda>g. g \<noteq> f) l"
  using arg_cong [OF splice_parts [OF assms], of "filter (\<lambda>g. g \<noteq> f)"] by (simp add: splice_one_def)

lemma drop_splice_before:
  assumes "k < length l" "l ! k = f" "n \<le> k"
  shows "filter (\<lambda>g. g \<noteq> f) (drop n (splice_one k l)) = filter (\<lambda>g. g \<noteq> f) (drop n l)"
  using arg_cong [OF splice_parts [OF assms(1,2)], of "\<lambda>m. filter (\<lambda>g. g \<noteq> f) (drop n m)"] assms(1,3)
  by (simp add: splice_one_def)

lemma drop_splice_after:
  assumes "k < length l" "k \<le> n"
  shows "drop n (splice_one k l) = drop (Suc n) l"
  using assms by (simp add: splice_one_def)

lemma remove_at_pending:
  assumes "cb_ok c" "firing c" "cb_list c = Some l" "k < length l" "l ! k = f"
  shows "filter (\<lambda>g. g \<noteq> f) (pending (remove_at k l c)) = filter (\<lambda>g. g \<noteq> f) (pending c)"
proof (cases "int k \<le> firingIndex c")
  case True
  then have "nat (firingIndex c + 1) = Suc (nat (firingIndex c))" "k \<le> nat (firingIndex c)" by auto
  then show ?thesis
    using assms True drop_splice_after [of k l "nat (firingIndex c)"] length_splice_one [of k l]
    by (simp add: pending_def remove_at_def cb_ok_def)
next
  case False
  then have "nat (firingIndex c + 1) \<le> k" by simp
  then show ?thesis
    using assms False drop_splice_before [of k l f] length_splice_one [of k l]
    by (simp add: pending_def remove_at_def cb_ok_def)
qed

lemma remove_at_ok:
  assumes "cb_ok c" "cb_list c = Some l" "k < length l"
  shows "cb_ok (remove_at k l c)" "firing (remove_at k l c) = firing c"
    "cb_list (remove_at k l c) = Some (splice_one k l)"
  using assms by (auto simp: cb_ok_def remove_at_def length_splice_one)

lemma filter_no_member: "f \<notin> set l \<Longrightarrow> filter (\<lambda>g. g \<noteq> f) l = l"
  by (auto simp: filter_id_conv)

lemma remove_loop_correct:
  assumes "cb_ok c" "cb_list c = Some l" "f \<notin> set (take i l)"
  shows "cb_list (remove_loop f i c) = Some (filter (\<lambda>g. g \<noteq> f) l) \<and> cb_ok (remove_loop f i c) \<and>
    firing (remove_loop f i c) = firing c \<and>
    (firing c \<longrightarrow> pending (remove_loop f i c) = filter (\<lambda>g. g \<noteq> f) (pending c))"
  using assms
proof (induction f i c arbitrary: l rule: remove_loop.induct)
  case (1 f i c)
  show ?case
  proof (cases rule: index_from_cases [of f l i])
    case 1
    then have n: "f \<notin> set l" using "1.prems"(3) append_take_drop_id [of i l] by (metis Un_iff set_append)
    moreover have "remove_loop f i c = c"
      using 1 "1.prems" by (subst remove_loop.simps) (simp add: inArray_def)
    moreover have "f \<notin> set (pending c)"
      using n "1.prems" by (auto simp: pending_def dest!: in_set_dropD in_set_takeD)
    ultimately show ?thesis using "1.prems" by (simp add: filter_no_member)
  next
    case (2 k)
    have r: "remove_loop f i c = remove_loop f k (remove_at k l c)"
      using 2 "1.prems" by (subst remove_loop.simps) (simp add: inArray_def)
    have "take k l = take i l @ drop i (take k l)"
      using 2(2) by (metis append_take_drop_id min.absorb1 take_take)
    then have "f \<notin> set (take k l)" using 2(5) "1.prems"(3) by (metis Un_iff set_append)
    then have "f \<notin> set (take k (splice_one k l))" using 2(3) by (simp add: splice_one_def)
    then show ?thesis
      using "1.IH" [OF "1.prems"(2) refl, of "splice_one k l"] 2 r "1.prems"(1,2)
        remove_at_ok [OF "1.prems"(1,2) 2(3)] filter_splice [OF 2(3,4)]
        remove_at_pending [OF "1.prems"(1) _ "1.prems"(2) 2(3,4)]
      by (simp add: inArray_def)
  qed
qed

lemma cb_remove_correct:
  assumes "cb_ok c" "cb_list c = Some l"
  shows "cb_list (cb_remove fs c) = Some (filter (\<lambda>g. g \<notin> set fs) l) \<and> cb_ok (cb_remove fs c) \<and>
    firing (cb_remove fs c) = firing c \<and>
    (firing c \<longrightarrow> pending (cb_remove fs c) = filter (\<lambda>g. g \<notin> set fs) (pending c))"
  using assms
proof (induction fs c arbitrary: l rule: cb_remove.induct)
  case (2 f fs c)
  then show ?case
    using remove_loop_correct [OF 2(2,3), of f 0] by (simp add: conj_commute)
qed simp

lemma cb_remove_ok: "cb_ok c \<Longrightarrow> cb_ok (cb_remove fs c) \<and> firing (cb_remove fs c) = firing c"
proof (cases "cb_list c")
  case None
  then have "remove_loop f 0 c = c" for f by (subst remove_loop.simps) simp
  then have "cb_remove fs c = c" by (induction fs) simp_all
  then show "cb_ok c \<Longrightarrow> ?thesis" by simp
qed (use cb_remove_correct in blast)

section \<open>The contract of a list\<close>

text \<open>The changes a list makes to itself in \<open>fire\<close>, \<open>add\<close> and \<open>fireWith\<close>, the start of a
  batch excepted; \<open>P\<close> holds of the functions added.\<close>

inductive cb_trans :: "('f \<Rightarrow> bool) \<Rightarrow> ('f, 'd) cb \<Rightarrow> ('f, 'd) cb \<Rightarrow> bool" for P where
  trans_next: "firing c \<Longrightarrow> cb_trans P c (c\<lparr>firingIndex := firingIndex c + 1\<rparr>)"
| trans_stop: "firing c \<Longrightarrow> stopOnFalse (cb_options c) \<Longrightarrow> cb_trans P c (c\<lparr>memory := None\<rparr>)"
| trans_gone: "firing c \<Longrightarrow> cb_list c = None \<Longrightarrow> cb_trans P c (c\<lparr>firing := False\<rparr>)"
| trans_shift: "firing c \<Longrightarrow> cb_stack c = Some (d # ds) \<Longrightarrow>
    cb_trans P c (c\<lparr>firing := False, cb_stack := Some ds\<rparr>)"
| trans_done: "firing c \<Longrightarrow> cb_stack c = Some [] \<Longrightarrow> cb_trans P c (c\<lparr>firing := False\<rparr>)"
| trans_once: "firing c \<Longrightarrow> cb_list c \<noteq> None \<Longrightarrow> cb_stack c = None \<Longrightarrow> memory c \<noteq> None \<Longrightarrow>
    cb_trans P c (c\<lparr>firing := False, cb_list := Some []\<rparr>)"
| trans_disable: "firing c \<Longrightarrow> cb_stack c = None \<Longrightarrow> memory c = None \<Longrightarrow>
    cb_trans P c (cb_disable (c\<lparr>firing := False\<rparr>))"
| trans_join: "firing c \<Longrightarrow> cb_list c = Some l \<Longrightarrow> l1 = l @ fs \<Longrightarrow> list_all P fs \<Longrightarrow>
    cb_trans P c (c\<lparr>cb_list := Some l1, firingLength := int (length l1)\<rparr>)"
| trans_add: "\<not> firing c \<Longrightarrow> cb_list c = Some l \<Longrightarrow> memory c = None \<Longrightarrow> l1 = l @ fs \<Longrightarrow> list_all P fs \<Longrightarrow>
    cb_trans P c (c\<lparr>cb_list := Some l1\<rparr>)"
| trans_add_fire: "\<not> firing c \<Longrightarrow> cb_list c = Some l \<Longrightarrow> memory c = Some d \<Longrightarrow> l1 = l @ fs \<Longrightarrow> list_all P fs \<Longrightarrow>
    cb_trans P c (c\<lparr>cb_list := Some l1, firingStart := int (length l)\<rparr>)"
| trans_push: "firing c \<Longrightarrow> cb_stack c = Some s \<Longrightarrow> cb_trans P c (c\<lparr>cb_stack := Some (s @ [d])\<rparr>)"

definition can_start :: "'d \<Rightarrow> ('f, 'd) cb \<Rightarrow> bool" where
  "can_start d c \<longleftrightarrow> \<not> firing c \<and> cb_list c \<noteq> None \<and> (\<not> fired c \<or> cb_stack c \<noteq> None \<or> memory c = Some d)"

definition in_call :: "('f, 'd) cb \<Rightarrow> 'f \<Rightarrow> bool" where
  "in_call c f \<longleftrightarrow> firing c \<and> (\<exists>l. cb_list c = Some l \<and> 0 \<le> firingIndex c \<and>
     firingIndex c < int (length l) \<and> f = l ! nat (firingIndex c))"

fun args_all :: "('f \<Rightarrow> bool) \<Rightarrow> 'f arg list \<Rightarrow> bool" where
  "args_all P [] \<longleftrightarrow> True"
| "args_all P (Fn f # as) \<longleftrightarrow> P f \<and> args_all P as"
| "args_all P (Args bs # as) \<longleftrightarrow> args_all P bs \<and> args_all P as"
| "args_all P (NoFn # as) \<longleftrightarrow> args_all P as"

lemma add_args_append: "args_all P as \<Longrightarrow> \<exists>fs. add_args u as l = l @ fs \<and> list_all P fs"
proof (induction u as l rule: add_args.induct)
  case (2 u f as l)
  then show ?case by (cases "\<not> u \<or> inArray f l 0 \<le> - 1") (auto intro: exI [of _ "f # _"])
next
  case (3 u bs as l)
  from 3(3) have "args_all P bs" "args_all P as" by simp_all
  with 3(1,2) obtain fs gs where "add_args u bs l = l @ fs" "list_all P fs"
    "add_args u as (add_args u bs l) = add_args u bs l @ gs" "list_all P gs" by blast
  then show ?case by (auto intro: exI [of _ "fs @ gs"])
qed simp_all

text \<open>A result that is an allowed exception or a world with a property.\<close>

definition keeps :: "(js_exn \<Rightarrow> bool) \<Rightarrow> ('w \<Rightarrow> bool) \<Rightarrow> 'w js \<Rightarrow> bool" where
  "keeps E I r \<longleftrightarrow> (case r of Inl e \<Rightarrow> E e | Inr w \<Rightarrow> I w)"

lemma keeps_simps [simp]: "keeps E I (Inl e) = E e" "keeps E I (Inr w) = I w"
  by (simp_all add: keeps_def)

lemma keeps_bind: "keeps E I r \<Longrightarrow> (\<And>w. I w \<Longrightarrow> keeps E J (k w)) \<Longrightarrow> keeps E J (js_bind r k)"
  by (cases r) simp_all

text \<open>
  The contract: an invariant of the world that says whether the list is being fired, that is kept
  by the changes above, by the start of a batch where \<open>startable\<close> allows it, and by the calls;
  \<open>E\<close> holds of the exceptions of the calls.
\<close>

locale fired_list =
  fixes call :: "('f, 'd, 'w) caller" and get :: "'w \<Rightarrow> ('f, 'd) cb"
    and put :: "('f, 'd) cb \<Rightarrow> 'w \<Rightarrow> 'w" and Inv :: "bool \<Rightarrow> 'w \<Rightarrow> bool"
    and P :: "'f \<Rightarrow> bool" and startable :: "('f, 'd) cb \<Rightarrow> bool" and E :: "js_exn \<Rightarrow> bool"
  assumes get_put: "Inv b w \<Longrightarrow> get (put c w) = c"
    and inv_ok: "Inv b w \<Longrightarrow> cb_ok (get w) \<and> firing (get w) = b"
    and put_inv: "Inv b w \<Longrightarrow> cb_trans P (get w) c \<Longrightarrow> Inv (firing c) (put c w)"
    and start_inv: "Inv False w \<Longrightarrow> startable (get w) \<Longrightarrow> can_start d (get w) \<Longrightarrow> cb_list (get w) = Some l \<Longrightarrow>
      Inv True (put (fire_start d l (get w)) w)"
    and fired_startable: "Inv b w \<Longrightarrow> fired (get w) \<Longrightarrow> startable (get w)"
    and call_inv: "Inv True w \<Longrightarrow> in_call (get w) f \<Longrightarrow> call f d w = Inr (w1, r) \<Longrightarrow> Inv True w1"
    and call_exn: "Inv True w \<Longrightarrow> in_call (get w) f \<Longrightarrow> call f d w = Inl e \<Longrightarrow> E e"
    and diverge: "E Diverge"
begin

text \<open>Between two calls the next index is a position of the list.\<close>

lemma loop_inv: "Inv True w \<Longrightarrow> 0 \<le> firingIndex (get w) \<Longrightarrow> keeps E (Inv True) (fire_loop n call get put d w)"
proof (induction n arbitrary: w)
  case (Suc n)
  have ok: "cb_ok (get w)" "firing (get w)" using inv_ok [OF Suc.prems(1)] by simp_all
  show ?case
  proof (cases "cb_list (get w)")
    case (Some l)
    have len: "firingLength (get w) = int (length l)" using ok Some by (simp add: cb_ok_def)
    show ?thesis
    proof (cases "firingIndex (get w) < int (length l)")
      case True
      let ?f = "l ! nat (firingIndex (get w))"
      have ic: "in_call (get w) ?f" using ok Some True Suc.prems(2) by (auto simp: in_call_def)
      show ?thesis
      proof (cases "call ?f d w")
        case (Inl e)
        then show ?thesis using Some True len Suc.prems call_exn [OF Suc.prems(1) ic Inl] by simp
      next
        case (Inr p)
        then obtain w1 r where r: "call ?f d w = Inr (w1, r)" by (cases p) simp
        note c = call_inv [OF Suc.prems(1) ic r]
        let ?next = "put (get w1\<lparr>firingIndex := firingIndex (get w1) + 1\<rparr>) w1"
        have ok1: "firing (get w1)" "0 \<le> firingIndex (get w1) + 1" using inv_ok [OF c] by (auto simp: cb_ok_def)
        have "stopOnFalse (cb_options (get w1)) \<Longrightarrow> Inv True (put (get w1\<lparr>memory := None\<rparr>) w1)" "Inv True ?next"
          using put_inv [OF c trans_stop] put_inv [OF c trans_next] ok1 by simp_all
        then show ?thesis
          using Some True len Suc.prems r Suc.IH [of ?next] ok1(2) get_put [OF c]
          by (simp add: Let_def split: if_split)
      qed
    qed (use Some len Suc.prems in simp)
  qed (use Suc.prems in simp)
qed (simp add: diverge)

lemma end_inv:
  assumes "Inv True w" "\<And>w1 d. Inv False w1 \<Longrightarrow> fired (get w1) \<Longrightarrow> can_start d (get w1) \<Longrightarrow> keeps E (Inv False) (again d w1)"
  shows "keeps E (Inv False) (fire_end again get put w)"
proof -
  have f: "firing (get w)" "fired (get w)" using inv_ok [OF assms(1)] by (simp_all add: cb_ok_def)
  have last: "Inv False (put c w)" if "cb_trans P (get w) c" "\<not> firing c" for c
    using put_inv [OF assms(1) that(1)] that(2) by simp
  show ?thesis
    using f last [OF trans_gone] last [OF trans_done] last [OF trans_once] last [OF trans_disable]
      assms(2) [OF last [OF trans_shift]] get_put [OF assms(1)]
    by (auto simp: fire_end_def Let_def cb_disable_def can_start_def split: option.split list.split)
qed

lemma fire_inv:
  "Inv False w \<Longrightarrow> startable (get w) \<Longrightarrow> can_start d (get w) \<Longrightarrow> keeps E (Inv False) (cb_fire n call get put d w)"
proof (induction n arbitrary: w d)
  case (Suc n)
  obtain l where l: "cb_list (get w) = Some l" using Suc.prems(3) by (auto simp: can_start_def)
  let ?w = "put (fire_start d l (get w)) w"
  have w: "Inv True ?w" using start_inv [OF Suc.prems l] .
  have "0 \<le> firingIndex (get ?w)"
    using inv_ok [OF Suc.prems(1)] get_put [OF Suc.prems(1)] by (simp add: fire_start_def cb_ok_def)
  then have "keeps E (Inv True) (fire_loop n call get put d ?w)" using loop_inv [OF w] by simp
  then show ?case
    using l by (auto intro!: keeps_bind end_inv Suc.IH fired_startable)
qed (simp add: diverge)

lemma add_inv:
  assumes "Inv b w" "args_all P as"
  shows "keeps E (Inv b) (cb_add n call get put as w)"
proof (cases "cb_list (get w)")
  case (Some l)
  have ok: "firing (get w) = b" "cb_ok (get w)" using inv_ok [OF assms(1)] by simp_all
  obtain fs where fs: "add_args (unique (cb_options (get w))) as l = l @ fs" "list_all P fs"
    using add_args_append [OF assms(2)] by blast
  let ?w = "put (get w\<lparr>cb_list := Some (l @ fs), firingStart := int (length l)\<rparr>) w"
  have fire: "keeps E (Inv b) (cb_fire n call get put d ?w)" if "\<not> b" "memory (get w) = Some d" for d
  proof -
    have i: "Inv False ?w" using put_inv [OF assms(1) trans_add_fire [OF _ Some that(2) refl fs(2)]] ok that by simp
    moreover have "fired (get ?w)" "can_start d (get ?w)"
      using ok that get_put [OF assms(1)] by (auto simp: cb_ok_def can_start_def)
    ultimately show ?thesis using fire_inv [of ?w d n] fired_startable [OF i] that(1) by simp
  qed
  show ?thesis
    using put_inv [OF assms(1) trans_join [OF _ Some refl fs(2)]] put_inv [OF assms(1) trans_add [OF _ Some _ refl fs(2)]]
      fire ok Some fs(1)
    by (cases "memory (get w)") (auto simp: cb_add_def Let_def)
qed (use assms in \<open>simp add: cb_add_def\<close>)

lemma fireWith_inv:
  assumes "Inv b w" "\<not> b \<Longrightarrow> startable (get w)"
  shows "keeps E (Inv b) (fireWith n call get put d w)"
proof (cases b)
  case True
  then have "firing (get w)" "fired (get w)" using inv_ok [OF assms(1)] by (simp_all add: cb_ok_def)
  then show ?thesis
    using put_inv [OF assms(1) trans_push] True assms(1)
    by (auto simp: fireWith_def Let_def split: option.split)
next
  case False
  then show ?thesis
    using fire_inv [of w d n] inv_ok [OF assms(1)] assms by (auto simp: fireWith_def Let_def can_start_def)
qed

end

lemma trans_ok: "cb_trans P c c1 \<Longrightarrow> cb_ok c \<Longrightarrow> cb_ok c1"
  by (induction rule: cb_trans.induct) (auto simp: cb_ok_def cb_disable_def)

lemma start_ok: "cb_ok c \<Longrightarrow> cb_list c = Some l \<Longrightarrow> cb_ok (fire_start d l c) \<and> firing (fire_start d l c)"
  by (auto simp: cb_ok_def fire_start_def)

section \<open>Lists whose functions leave them alone\<close>

text \<open>
  Here each function of \<open>F\<close> has an effect on the world that does not touch the list: then firing
  the list performs these effects in order, once each. \<open>D\<close> says that the list exists.
\<close>

definition after_fire :: "'d \<Rightarrow> 'f list \<Rightarrow> ('f, 'd) cb \<Rightarrow> ('f, 'd) cb" where
  "after_fire d l c =
     (let c1 = (fire_start d l c)\<lparr>firingIndex := int (length l), firing := False\<rparr> in
      if cb_stack c = None then if memory_opt (cb_options c) then c1\<lparr>cb_list := Some []\<rparr> else cb_disable c1
      else c1)"

locale passive_list =
  fixes call :: "('f, 'd, 'w) caller" and get :: "'w \<Rightarrow> ('f, 'd) cb"
    and put :: "('f, 'd) cb \<Rightarrow> 'w \<Rightarrow> 'w" and D :: "'w \<Rightarrow> bool" and eff :: "'f \<Rightarrow> 'd \<Rightarrow> 'w \<Rightarrow> 'w"
    and F :: "'f set"
  assumes get_put: "D w \<Longrightarrow> get (put c w) = c"
    and put_put: "put c (put c1 w) = put c w"
    and D_put: "D w \<Longrightarrow> D (put c w)"
    and D_eff: "D w \<Longrightarrow> f \<in> F \<Longrightarrow> D (eff f d w)"
    and eff_get: "D w \<Longrightarrow> f \<in> F \<Longrightarrow> get (eff f d w) = get w"
    and eff_put: "D w \<Longrightarrow> f \<in> F \<Longrightarrow> eff f d (put c w) = put c (eff f d w)"
    and call_eff: "D w \<Longrightarrow> f \<in> F \<Longrightarrow> call f d w = Inr (eff f d w, False)"
begin

lemma fold_eff:
  "D w \<Longrightarrow> set fs \<subseteq> F \<Longrightarrow> D (fold (\<lambda>f. eff f d) fs w) \<and> get (fold (\<lambda>f. eff f d) fs w) = get w \<and>
    fold (\<lambda>f. eff f d) fs (put c w) = put c (fold (\<lambda>f. eff f d) fs w)"
  by (induction fs arbitrary: w) (simp_all add: D_eff eff_get eff_put)

lemma loop_step:
  assumes "D w" "cb_list c = Some l" "firingLength c = int (length l)" "firingIndex c = int i"
    "i < length l" "l ! i \<in> F"
  shows "fire_loop (Suc n) call get put d (put c w) =
    fire_loop n call get put d (put (c\<lparr>firingIndex := int (Suc i)\<rparr>) (eff (l ! i) d w))"
  using assms call_eff [OF D_put [OF assms(1)] assms(6)] eff_put [OF assms(1,6)]
    get_put [OF assms(1)] get_put [OF D_eff [OF assms(1,6)]]
  by (simp add: Let_def put_put add.commute)

lemma loop_prefix:
  "D w \<Longrightarrow> cb_list c = Some l \<Longrightarrow> firingLength c = int (length l) \<Longrightarrow> firingIndex c = int i \<Longrightarrow>
    i + k \<le> length l \<Longrightarrow> set (take k (drop i l)) \<subseteq> F \<Longrightarrow>
    fire_loop (k + n) call get put d (put c w) =
      fire_loop n call get put d (put (c\<lparr>firingIndex := int (i + k)\<rparr>) (fold (\<lambda>f. eff f d) (take k (drop i l)) w))"
proof (induction k arbitrary: w c i)
  case 0
  then have "c\<lparr>firingIndex := int (i + 0)\<rparr> = c" by simp
  then show ?case by simp
next
  case (Suc k)
  have d: "drop i l = l ! i # drop (Suc i) l" using Suc.prems(5) by (simp add: Cons_nth_drop_Suc)
  then have f: "l ! i \<in> F" "set (take k (drop (Suc i) l)) \<subseteq> F" using Suc.prems(6) by auto
  then show ?case
    using loop_step [OF Suc.prems(1-4), of "k + n" d] Suc.prems Suc.IH [of "eff (l ! i) d w" "c\<lparr>firingIndex := int (Suc i)\<rparr>" "Suc i"]
      D_eff by (simp add: d del: fire_loop.simps)
qed

lemma loop_short:
  "D w \<Longrightarrow> cb_list c = Some l \<Longrightarrow> firingLength c = int (length l) \<Longrightarrow> firingIndex c = int i \<Longrightarrow>
    i + n \<le> length l \<Longrightarrow> set (take n (drop i l)) \<subseteq> F \<Longrightarrow>
    fire_loop n call get put d (put c w) = Inl Diverge"
  using loop_prefix [of w c l i n 0 d] by simp

lemma loop_passive:
  assumes "D w" "cb_list c = Some l" "firingLength c = int (length l)" "firingIndex c = int i"
    "i \<le> length l" "set (drop i l) \<subseteq> F" "length l - i < n"
  shows "fire_loop n call get put d (put c w) =
      Inr (put (c\<lparr>firingIndex := int (length l)\<rparr>) (fold (\<lambda>f. eff f d) (drop i l) w))"
proof -
  obtain m where n: "n = (length l - i) + Suc m" using assms(7) less_imp_Suc_add by (metis add_Suc_right)
  have "D (fold (\<lambda>f. eff f d) (drop i l) w)" using fold_eff assms(1,6) by blast
  then show ?thesis
    using assms loop_prefix [OF assms(1-4), of "length l - i" "Suc m" d] get_put by (simp add: n)
qed

lemma fire_passive:
  assumes "D w" "get w = c" "cb_list c = Some l" "firingStart c = int i" "i \<le> length l"
    "set (drop i l) \<subseteq> F" "length l - i + 1 < n" "cb_stack c = None \<or> cb_stack c = Some []"
  shows "cb_fire n call get put d w = Inr (put (after_fire d l c) (fold (\<lambda>f. eff f d) (drop i l) w))"
proof -
  obtain m where n: "n = Suc m" using assms(7) by (cases n) auto
  let ?c = "fire_start d l c"
  let ?w = "put ?c w" and ?w1 = "fold (\<lambda>f. eff f d) (drop i l) w"
  have D: "D ?w" "D ?w1" using assms(1,6) D_put fold_eff by auto
  have "fire_loop m call get put d (put ?c ?w) = Inr (put (?c\<lparr>firingIndex := int (length l)\<rparr>)
      (fold (\<lambda>f. eff f d) (drop i l) ?w))"
    using D(1) get_put [OF assms(1)] assms(3-7) n by (intro loop_passive) (auto simp: fire_start_def)
  then have "fire_loop m call get put d ?w = Inr (put (?c\<lparr>firingIndex := int (length l)\<rparr>) ?w1)"
    using fold_eff [OF assms(1,6)] by (simp add: put_put)
  then show ?thesis
    using assms(2,3,8) get_put [OF D(2)] by (auto simp: n Let_def put_put after_fire_def fire_start_def fire_end_def)
qed

lemma add_passive:
  assumes "D w" "get w = c" "cb_list c = Some l" "\<not> firing c" "memory c = Some d"
    "add_args (unique (cb_options c)) as l = l @ fs" "set fs \<subseteq> F" "length fs + 1 < n" "cb_stack c = None \<or> cb_stack c = Some []"
  shows "cb_add n call get put as w =
    Inr (put (after_fire d (l @ fs) (c\<lparr>cb_list := Some (l @ fs)\<rparr>)) (fold (\<lambda>f. eff f d) fs w))"
proof -
  let ?c = "c\<lparr>cb_list := Some (l @ fs), firingStart := int (length l)\<rparr>"
  have "cb_fire n call get put d (put ?c w) =
      Inr (put (after_fire d (l @ fs) ?c) (fold (\<lambda>f. eff f d) (drop (length l) (l @ fs)) (put ?c w)))"
    using assms get_put D_put by (intro fire_passive) auto
  moreover have "after_fire d (l @ fs) ?c = after_fire d (l @ fs) (c\<lparr>cb_list := Some (l @ fs)\<rparr>)"
    by (simp add: after_fire_def fire_start_def cb_disable_def Let_def)
  ultimately show ?thesis
    using assms fold_eff [OF assms(1,7)] get_put
    by (simp add: cb_add_def Let_def put_put)
qed

end

section \<open>No list ever reads beside its functions\<close>

definition list_inv :: "bool \<Rightarrow> ('f, 'd) cb_world \<Rightarrow> bool" where
  "list_inv b w \<longleftrightarrow> cb_ok (w_cb w) \<and> firing (w_cb w) = b"

lemma w_cb_put [simp]: "w_cb (put_cb c w) = c"
  by (simp add: put_cb_def)

abbreviation lone_list :: "('f, 'd, ('f, 'd) cb_world) caller \<Rightarrow> bool" where
  "lone_list call \<equiv> fired_list call w_cb put_cb list_inv (\<lambda>_. True) (\<lambda>_. True) (\<lambda>e. e = Diverge)"

lemma args_any: "args_all (\<lambda>_::'a. True) as"
  by (induction "\<lambda>_::'a. True" as rule: args_all.induct) simp_all

lemma op_inv: "lone_list call \<Longrightarrow> list_inv b w \<Longrightarrow> keeps (\<lambda>e. e = Diverge) (list_inv b) (run_op n call p w)"
proof (cases p)
  case (Remove fs)
  then show "list_inv b w \<Longrightarrow> ?thesis" using cb_remove_ok [of "w_cb w" fs] by (simp add: list_inv_def)
qed (auto simp: fired_list.add_inv [OF _ _ args_any] fired_list.fireWith_inv
    list_inv_def cb_ok_def cb_empty_def cb_disable_def cb_lock_def Let_def)

lemma ops_inv: "lone_list call \<Longrightarrow> list_inv b w \<Longrightarrow> keeps (\<lambda>e. e = Diverge) (list_inv b) (run_ops n call ps w)"
proof (induction ps arbitrary: w)
  case (Cons p ps)
  then show ?case using op_inv [OF Cons.prems, of n p] by (cases "run_op n call p w") simp_all
qed simp

lemma invoke_contract: "lone_list (invoke n b)"
proof (induction n)
  case 0
  show ?case
    by unfold_locales (auto simp: list_inv_def start_ok dest: trans_ok)
next
  case (Suc n)
  have body: "keeps (\<lambda>e. e = Diverge) (list_inv True) (run_ops n (invoke n b) ps (w\<lparr>w_calls := cs\<rparr>))" if "list_inv True w" for ps w cs
    using ops_inv [OF Suc, of True "w\<lparr>w_calls := cs\<rparr>"] that by (simp add: list_inv_def)
  show ?case
  proof (unfold_locales, goal_cases)
    case (6 w f d w1 r)
    then show ?case using body [OF 6(1)] by (auto simp: js_bind_eq_Inr split: prod.splits) (metis keeps_simps(2))
  next
    case (7 w f d e)
    then show ?case using body [OF 7(1)] by (auto simp: js_bind_eq_Inl split: prod.splits) (metis keeps_simps(1))
  qed (auto simp: list_inv_def start_ok dest: trans_ok)
qed

interpretation lone: fired_list "invoke n b" w_cb put_cb list_inv "\<lambda>_. True" "\<lambda>_. True" "\<lambda>e. e = Diverge" for n b
  by (rule invoke_contract)

text \<open>C32: Whatever the functions of a list do to it while it is fired (add, remove, empty,
  disable, lock, fire again), the loop of \<open>fire\<close> never reads beside the list and nothing throws.\<close>

theorem callbacks_never_throw: "cb_run n b ps (cb_new s) \<noteq> Inl (Throw e)"
proof
  assume throw: "cb_run n b ps (cb_new s) = Inl (Throw e)"
  have "list_inv False (cb_new s)"
    by (simp add: list_inv_def cb_new_def callbacks_def cb_ok_def)
  from ops_inv [OF invoke_contract [of n b] this, of n ps] throw show False
    by (simp only: cb_run_def keeps_simps js_exn.distinct)
qed

text \<open> Removing functions from a list that is being fired takes them out of the list and out
  of the calls still to come, and no other call is lost or repeated: the functions the batch has
  still to call are those it had, in their order, without the removed ones.\<close>

theorem remove_while_firing:
  assumes "cb_ok c" "firing c" "cb_list c = Some l"
  shows "pending (cb_remove fs c) = filter (\<lambda>g. g \<notin> set fs) (pending c) \<and>
    cb_list (cb_remove fs c) = Some (filter (\<lambda>g. g \<notin> set fs) l)"
  using cb_remove_correct [OF assms(1,3)] assms(2) by simp

definition midway :: "(int, int) cb" where
  "midway = (callbacks (createOptions ''memory''))
     \<lparr>cb_list := Some [1, 2, 3, 2, 4], firing := True, fired := True, firingIndex := 1, firingLength := 5\<rparr>"

theorem remove_while_firing_witness: "pending midway = [3, 2, 4] \<and> pending (cb_remove [2, 1, 7] midway) = [3, 4]"
proof -
  have "pending midway = [3, 2, 4]" by code_simp
  moreover have "cb_ok midway" "firing midway" "cb_list midway = Some [1, 2, 3, 2, 4]"
    by (simp_all add: midway_def callbacks_def cb_ok_def)
  ultimately show ?thesis using remove_while_firing [of midway _ "[2, 1, 7]"] by simp
qed

text \<open>A function that empties its list while it is fired and adds others loses those that come to
  stand before the index of the loop: \<open>empty\<close> resets \<open>firingLength\<close> but not
  \<open>firingIndex\<close>. Here the first of the two functions added is never called, although the list
  has a memory.\<close>

definition refill :: "(nat, int) behaviour" where
  "refill calls f d = (if f = 4 then [Empty, Add [Fn 1, Fn 9]] else [], False)"

lemma emptied_while_firing:
  "map_sum (\<lambda>_. ()) w_calls (cb_run 20 refill [Add [Fn 4], FireWith 5] (cb_new ''memory'')) =
   Inr [(4, 5), (9, 5)]"
  by code_simp

end
