(* ===== verification/JQ_Deferred.thy ===== *)
theory JQ_Deferred
  imports JQ_Callbacks
begin

text \<open>
  Deferred objects (\<open>jQuery.Deferred\<close>, \<open>jQuery.when\<close>, jquery.js). A deferred has a state and
  three callback lists; resolving fires the first, whose first functions set the state, disable the
  list of the failures and lock that of the notifications. All deferreds of a page live in one
  world, as functions of one may resolve another: \<open>then\<close> and \<open>when\<close> are built on that.
  A deferred and its promise are named by the number of the deferred. What a user's function does
  is a parameter, \<open>user\<close>: from the calls made so far and the number of deferreds it
  gives the operations performed and the value returned.
\<close>

section \<open>Values and functions\<close>

datatype action = Resolve | Reject | Notify

datatype dstate = Pending | Resolved | Rejected

text \<open>\<open>Contexts i p\<close> is the array of contexts that the \<open>i\<close>-th call of \<open>when\<close> collects, of its
  notifications if \<open>p\<close>, handed on by reference.\<close>

datatype 'a val = Undefined | Atom 'a | DeferredObj nat | PromiseObj nat | Arr "'a val list" | Contexts nat bool

type_synonym 'a data = "'a val \<times> 'a val list"

text \<open>What a user can hand to a deferred: functions of their own and the methods
  \<open>resolve\<close>, \<open>reject\<close> and \<open>notify\<close> of deferreds.\<close>

datatype 'f ufn = UserFn 'f | Method nat action

text \<open>The functions in the lists: those, the three that a deferred puts into its lists, the function
  \<open>then\<close> adds (old deferred, index of the tuple, function given, new deferred), and that of
  \<open>when\<close> (which call of \<open>when\<close>, index of the subordinate, whether it notifies).\<close>

datatype 'f fn = Public "'f ufn" | SetState nat dstate | DisableList nat action | LockList nat action |
  Forward nat action "'f ufn option" nat | Update nat nat bool

type_synonym ('f, 'a) dcb = "('f fn, 'a data) cb"

record ('f, 'a) deferred =
  d_state :: dstate
  d_done :: "('f, 'a) dcb"
  d_fail :: "('f, 'a) dcb"
  d_progress :: "('f, 'a) dcb"

record 'a when_call =
  wh_master :: nat
  wh_remaining :: int
  wh_resolveContexts :: "'a val list"
  wh_resolveValues :: "'a val list"
  wh_progressContexts :: "'a val list"
  wh_progressValues :: "'a val list"

record ('f, 'a) dworld =
  w_defs :: "('f, 'a) deferred list"
  w_whens :: "'a when_call list"
  w_log :: "('f \<times> 'a data) list"

datatype ('f, 'a) dop =
    DNew
  | DAdd nat action "'f ufn arg list"
  | DAlways nat "'f ufn arg list"
  | DAct nat action "'a val list"
  | DActWith nat action "'a val" "'a val list"
  | DThen nat "'f ufn option" "'f ufn option" "'f ufn option"
  | DWhen "'a val list"

type_synonym ('f, 'a) user = "('f \<times> 'a data) list \<Rightarrow> nat \<Rightarrow> 'f \<Rightarrow> 'a data \<Rightarrow> ('f, 'a) dop list \<times> 'a val"

section \<open>The lists of a deferred\<close>

definition dlist :: "action \<Rightarrow> ('f, 'a) deferred \<Rightarrow> ('f, 'a) dcb" where
  "dlist a d = (case a of Resolve \<Rightarrow> d_done d | Reject \<Rightarrow> d_fail d | Notify \<Rightarrow> d_progress d)"

definition set_dlist :: "action \<Rightarrow> ('f, 'a) dcb \<Rightarrow> ('f, 'a) deferred \<Rightarrow> ('f, 'a) deferred" where
  "set_dlist a c d = (case a of Resolve \<Rightarrow> d\<lparr>d_done := c\<rparr> | Reject \<Rightarrow> d\<lparr>d_fail := c\<rparr>
     | Notify \<Rightarrow> d\<lparr>d_progress := c\<rparr>)"

definition get_list :: "nat \<Rightarrow> action \<Rightarrow> ('f, 'a) dworld \<Rightarrow> ('f, 'a) dcb" where
  "get_list i a w = dlist a (w_defs w ! i)"

definition put_list :: "nat \<Rightarrow> action \<Rightarrow> ('f, 'a) dcb \<Rightarrow> ('f, 'a) dworld \<Rightarrow> ('f, 'a) dworld" where
  "put_list i a c w = w\<lparr>w_defs := (w_defs w)[i := set_dlist a c (w_defs w ! i)]\<rparr>"

text \<open>The tuples of \<open>jQuery.Deferred\<close>: the final state of an action, and \<open>i ^ 1\<close>.\<close>

fun state_string :: "action \<Rightarrow> dstate" where
  "state_string Resolve = Resolved"
| "state_string Reject = Rejected"
| "state_string Notify = Pending"

fun other_action :: "action \<Rightarrow> action" where
  "other_action Resolve = Reject"
| "other_action Reject = Resolve"
| "other_action Notify = Notify"

definition state_handlers :: "nat \<Rightarrow> action \<Rightarrow> 'f fn list" where
  "state_handlers i a = [SetState i (state_string a), DisableList i (other_action a), LockList i Notify]"

definition settle_list :: "nat \<Rightarrow> action \<Rightarrow> ('f, 'a) dcb" where
  "settle_list i a = (callbacks (createOptions ''once memory''))
     \<lparr>cb_list := Some (add_args False (map Fn (state_handlers i a)) [])\<rparr>"

definition new_deferred :: "nat \<Rightarrow> ('f, 'a) deferred" where
  "new_deferred i = \<lparr>d_state = Pending, d_done = settle_list i Resolve, d_fail = settle_list i Reject,
     d_progress = callbacks (createOptions ''memory'')\<rparr>"

definition alloc :: "('f, 'a) dworld \<Rightarrow> ('f, 'a) dworld" where
  "alloc w = w\<lparr>w_defs := w_defs w @ [new_deferred (length (w_defs w))]\<rparr>"

section \<open>Operations of a deferred\<close>

type_synonym ('f, 'a) dcaller = "('f fn, 'a data, ('f, 'a) dworld) caller"

definition add_to :: "nat \<Rightarrow> ('f, 'a) dcaller \<Rightarrow> nat \<Rightarrow> action \<Rightarrow> 'f fn arg list \<Rightarrow>
    ('f, 'a) dworld \<Rightarrow> ('f, 'a) dworld js" where
  "add_to n call i a as w =
     (if i < length (w_defs w) then cb_add n call (get_list i a) (put_list i a) as w
      else Inl (Throw ''TypeError''))"

definition act_with :: "nat \<Rightarrow> ('f, 'a) dcaller \<Rightarrow> nat \<Rightarrow> action \<Rightarrow> 'a data \<Rightarrow>
    ('f, 'a) dworld \<Rightarrow> ('f, 'a) dworld js" where
  "act_with n call i a data w =
     (if i < length (w_defs w) then fireWith n call (get_list i a) (put_list i a) data w
      else Inl (Throw ''TypeError''))"

text \<open>\<open>deferred[ tuple[0] ]\<close>: the method called on the deferred passes its promise on.\<close>

definition act_method :: "nat \<Rightarrow> ('f, 'a) dcaller \<Rightarrow> nat \<Rightarrow> action \<Rightarrow> 'a data \<Rightarrow>
    ('f, 'a) dworld \<Rightarrow> ('f, 'a) dworld js" where
  "act_method n call i a data w =
     act_with n call i a (if fst data = DeferredObj i then PromiseObj i else fst data, snd data) w"

fun has_promise :: "'a val \<Rightarrow> nat option" where
  "has_promise (DeferredObj i) = Some i"
| "has_promise (PromiseObj i) = Some i"
| "has_promise _ = None"

definition method_fn :: "nat \<Rightarrow> action \<Rightarrow> 'f fn" where
  "method_fn i a = Public (Method i a)"

text \<open>\<open>promise.then\<close>: a new deferred, and a function in each list of the old one.\<close>

definition add_then :: "nat \<Rightarrow> ('f, 'a) dcaller \<Rightarrow> nat \<Rightarrow> 'f ufn option \<Rightarrow> 'f ufn option \<Rightarrow> 'f ufn option \<Rightarrow>
    ('f, 'a) dworld \<Rightarrow> ('f, 'a) dworld js" where
  "add_then n call i fd ff fp w =
     (let m = length (w_defs w); w0 = alloc w in
      js_bind (add_to n call i Resolve [Fn (Forward i Resolve fd m)] w0) (\<lambda>w1.
      js_bind (add_to n call i Reject [Fn (Forward i Reject ff m)] w1) (\<lambda>w2.
      add_to n call i Notify [Fn (Forward i Notify fp m)] w2)))"

text \<open>The function \<open>then\<close> adds, after the given function has been called: its result, when there
  was one, and what the new deferred does with it.\<close>

definition forward_result :: "nat \<Rightarrow> ('f, 'a) dcaller \<Rightarrow> nat \<Rightarrow> action \<Rightarrow> nat \<Rightarrow> 'a data \<Rightarrow>
    'a val option \<Rightarrow> ('f, 'a) dworld \<Rightarrow> ('f, 'a) dworld js" where
  "forward_result n call i a m data returned w =
     (case Option.bind returned has_promise of
        Some j \<Rightarrow>
          js_bind (add_to n call j Resolve [Fn (method_fn m Resolve)] w) (\<lambda>w1.
          js_bind (add_to n call j Reject [Fn (method_fn m Reject)] w1) (\<lambda>w2.
          add_to n call j Notify [Fn (method_fn m Notify)] w2))
      | None \<Rightarrow>
          act_with n call m a
            (if fst data = PromiseObj i then PromiseObj m else fst data,
             case returned of Some v \<Rightarrow> [v] | None \<Rightarrow> snd data) w)"

section \<open>\<open>when\<close>\<close>

definition set_when :: "nat \<Rightarrow> 'a when_call \<Rightarrow> ('f, 'a) dworld \<Rightarrow> ('f, 'a) dworld" where
  "set_when k c w = w\<lparr>w_whens := (w_whens w)[k := c]\<rparr>"

text \<open>\<open>updateFunc\<close>: the function of subordinate \<open>i\<close>; the value is the list of the arguments when
  there are several.\<close>

definition update_value :: "'a val list \<Rightarrow> 'a val" where
  "update_value args = (if 1 < length args then Arr args else case args of [] \<Rightarrow> Undefined | v # _ \<Rightarrow> v)"

definition update_when :: "nat \<Rightarrow> ('f, 'a) dcaller \<Rightarrow> nat \<Rightarrow> nat \<Rightarrow> bool \<Rightarrow> 'a data \<Rightarrow>
    ('f, 'a) dworld \<Rightarrow> ('f, 'a) dworld js" where
  "update_when n call k i p data w =
     (let c = w_whens w ! k; v = update_value (snd data) in
      if p then
        let c1 = c\<lparr>wh_progressContexts := (wh_progressContexts c)[i := fst data],
                   wh_progressValues := (wh_progressValues c)[i := v]\<rparr>
        in act_with n call (wh_master c) Notify (Contexts k True, wh_progressValues c1) (set_when k c1 w)
      else
        let c1 = c\<lparr>wh_resolveContexts := (wh_resolveContexts c)[i := fst data],
                   wh_resolveValues := (wh_resolveValues c)[i := v],
                   wh_remaining := wh_remaining c - 1\<rparr>
        in if wh_remaining c1 = 0
           then act_with n call (wh_master c) Resolve (Contexts k False, wh_resolveValues c1) (set_when k c1 w)
           else Inr (set_when k c1 w))"

fun when_loop :: "nat \<Rightarrow> ('f, 'a) dcaller \<Rightarrow> nat \<Rightarrow> nat \<Rightarrow> 'a val list \<Rightarrow> ('f, 'a) dworld \<Rightarrow>
    ('f, 'a) dworld js" where
  "when_loop n call k i [] w = Inr w"
| "when_loop n call k i (v # vs) w =
     js_bind (case has_promise v of
        Some j \<Rightarrow>
          js_bind (add_to n call j Resolve [Fn (Update k i False)] w) (\<lambda>w1.
          js_bind (add_to n call j Reject [Fn (method_fn (wh_master (w_whens w ! k)) Reject)] w1) (\<lambda>w2.
          add_to n call j Notify [Fn (Update k i True)] w2))
      | None \<Rightarrow>
          let c = w_whens w ! k in Inr (set_when k (c\<lparr>wh_remaining := wh_remaining c - 1\<rparr>) w))
     (when_loop n call k (Suc i) vs)"

definition run_when :: "nat \<Rightarrow> ('f, 'a) dcaller \<Rightarrow> 'a val list \<Rightarrow> ('f, 'a) dworld \<Rightarrow> ('f, 'a) dworld js" where
  "run_when n call args w =
     (let len = length args;
          remaining = (if len \<noteq> 1 \<or> has_promise (hd args) \<noteq> None then len else 0)
      in if remaining = 1 then Inr w
         else
           let m = length (w_defs w); k = length (w_whens w); arrays = replicate len Undefined;
               c = \<lparr>wh_master = m, wh_remaining = int remaining, wh_resolveContexts = arrays,
                     wh_resolveValues = args, wh_progressContexts = arrays, wh_progressValues = arrays\<rparr>;
               w0 = (alloc w)\<lparr>w_whens := w_whens w @ [c]\<rparr>
           in js_bind (if 1 < len then when_loop n call k 0 args w0 else Inr w0) (\<lambda>w1.
              let c1 = w_whens w1 ! k in
              if wh_remaining c1 = 0
              then act_with n call m Resolve
                     (if 1 < len then Contexts k False else Undefined, wh_resolveValues c1) w1
              else Inr w1))"

section \<open>Calls\<close>

definition public_args :: "'f ufn arg list \<Rightarrow> 'f fn arg list" where
  "public_args = map (map_arg Public)"

fun run_dop :: "nat \<Rightarrow> ('f, 'a) dcaller \<Rightarrow> ('f, 'a) dop \<Rightarrow> ('f, 'a) dworld \<Rightarrow> ('f, 'a) dworld js" where
  "run_dop n call DNew w = Inr (alloc w)"
| "run_dop n call (DAdd i a as) w = add_to n call i a (public_args as) w"
| "run_dop n call (DAlways i as) w =
     js_bind (add_to n call i Resolve [Args (public_args as)] w)
             (add_to n call i Reject [Args (public_args as)])"
| "run_dop n call (DAct i a vs) w = act_method n call i a (DeferredObj i, vs) w"
| "run_dop n call (DActWith i a v vs) w = act_with n call i a (v, vs) w"
| "run_dop n call (DThen i fd ff fp) w =
     (if i < length (w_defs w) then add_then n call i fd ff fp w else Inl (Throw ''TypeError''))"
| "run_dop n call (DWhen vs) w = run_when n call vs w"

primrec run_dops :: "nat \<Rightarrow> ('f, 'a) dcaller \<Rightarrow> ('f, 'a) dop list \<Rightarrow> ('f, 'a) dworld \<Rightarrow> ('f, 'a) dworld js" where
  "run_dops n call [] w = Inr w"
| "run_dops n call (p # ps) w = js_bind (run_dop n call p w) (run_dops n call ps)"

text \<open>A call of a function a user has given, with the value it returns; the methods return
  \<open>this\<close>.\<close>

fun call_public :: "nat \<Rightarrow> ('f, 'a) dcaller \<Rightarrow> ('f, 'a) user \<Rightarrow> 'f ufn \<Rightarrow> 'a data \<Rightarrow> ('f, 'a) dworld \<Rightarrow>
    (('f, 'a) dworld \<times> 'a val) js" where
  "call_public n call user (UserFn f) data w =
     (case user (w_log w) (length (w_defs w)) f data of (ps, v) \<Rightarrow>
      js_bind (run_dops n call ps (w\<lparr>w_log := w_log w @ [(f, data)]\<rparr>)) (\<lambda>w1. Inr (w1, v)))"
| "call_public n call user (Method i a) data w =
     js_bind (act_method n call i a data w) (\<lambda>w1. Inr (w1, fst data))"

fun call_fn :: "nat \<Rightarrow> ('f, 'a) dcaller \<Rightarrow> ('f, 'a) user \<Rightarrow> 'f fn \<Rightarrow> 'a data \<Rightarrow> ('f, 'a) dworld \<Rightarrow>
    ('f, 'a) dworld js" where
  "call_fn n call user (Public f) data w = js_bind (call_public n call user f data w) (\<lambda>(w1, _). Inr w1)"
| "call_fn n call user (SetState i s) data w =
     Inr (w\<lparr>w_defs := (w_defs w)[i := (w_defs w ! i)\<lparr>d_state := s\<rparr>]\<rparr>)"
| "call_fn n call user (DisableList i a) data w = Inr (put_list i a (cb_disable (get_list i a w)) w)"
| "call_fn n call user (LockList i a) data w = Inr (put_list i a (cb_lock (get_list i a w)) w)"
| "call_fn n call user (Forward i a f m) data w =
     (case f of
        None \<Rightarrow> forward_result n call i a m data None w
      | Some g \<Rightarrow> js_bind (call_public n call user g data w) (\<lambda>(w1, v).
          forward_result n call i a m data (Some v) w1))"
| "call_fn n call user (Update k i p) data w = update_when n call k i p data w"

primrec dcall :: "nat \<Rightarrow> ('f, 'a) user \<Rightarrow> ('f, 'a) dcaller" where
  "dcall 0 user f data w = Inl Diverge"
| "dcall (Suc n) user f data w = js_bind (call_fn n (dcall n user) user f data w) (\<lambda>w1. Inr (w1, False))"

definition d_run :: "nat \<Rightarrow> ('f, 'a) user \<Rightarrow> ('f, 'a) dop list \<Rightarrow> ('f, 'a) dworld \<Rightarrow> ('f, 'a) dworld js" where
  "d_run n user = run_dops n (dcall n user)"

definition d_world :: "('f, 'a) dworld" where
  "d_world = \<lparr>w_defs = [], w_whens = [], w_log = []\<rparr>"

end
