(* ===== verification/JQ_DeferredProps.thy ===== *)
theory JQ_DeferredProps
  imports JQ_CallbacksProps JQ_Deferred
begin

text \<open>
  A deferred implements a promise. \<open>promise\<close> is the abstract specification: a state with its value,
  the last notification, the functions waiting and the calls made. The three lists of a deferred
  with their state handlers, flags and indices represent it, and every operation of the code on a
  deferred is the operation of the specification on what it represents. The functions here perform
  no operations themselves; what they return is arbitrary.
\<close>

section \<open>The specification\<close>

record ('f, 'a) promise =
  p_state :: dstate
  p_value :: "'a data option"
  p_note :: "'a data option"
  p_done :: "'f list"
  p_fail :: "'f list"
  p_progress :: "'f list"
  p_calls :: "('f \<times> 'a data) list"

definition new_promise :: "('f, 'a) promise" where
  "new_promise = \<lparr>p_state = Pending, p_value = None, p_note = None, p_done = [], p_fail = [],
     p_progress = [], p_calls = []\<rparr>"

definition p_call :: "'a data \<Rightarrow> 'f list \<Rightarrow> ('f, 'a) promise \<Rightarrow> ('f, 'a) promise" where
  "p_call d fs p = p\<lparr>p_calls := p_calls p @ map (\<lambda>f. (f, d)) fs\<rparr>"

definition p_call_with :: "'a data option \<Rightarrow> 'f list \<Rightarrow> ('f, 'a) promise \<Rightarrow> ('f, 'a) promise" where
  "p_call_with v fs p = (case v of None \<Rightarrow> p | Some d \<Rightarrow> p_call d fs p)"

fun p_add :: "action \<Rightarrow> 'f list \<Rightarrow> ('f, 'a) promise \<Rightarrow> ('f, 'a) promise" where
  "p_add Resolve fs p = (case p_state p of
     Pending \<Rightarrow> p\<lparr>p_done := p_done p @ fs\<rparr> | Resolved \<Rightarrow> p_call_with (p_value p) fs p | Rejected \<Rightarrow> p)"
| "p_add Reject fs p = (case p_state p of
     Pending \<Rightarrow> p\<lparr>p_fail := p_fail p @ fs\<rparr> | Rejected \<Rightarrow> p_call_with (p_value p) fs p | Resolved \<Rightarrow> p)"
| "p_add Notify fs p = p_call_with (p_note p) fs
     (if p_state p = Pending then p\<lparr>p_progress := p_progress p @ fs\<rparr> else p)"

fun p_act :: "action \<Rightarrow> 'a data \<Rightarrow> ('f, 'a) promise \<Rightarrow> ('f, 'a) promise" where
  "p_act Resolve d p = (if p_state p = Pending
     then p_call d (p_done p) (p\<lparr>p_state := Resolved, p_value := Some d\<rparr>) else p)"
| "p_act Reject d p = (if p_state p = Pending
     then p_call d (p_fail p) (p\<lparr>p_state := Rejected, p_value := Some d\<rparr>) else p)"
| "p_act Notify d p = (if p_state p = Pending
     then p_call d (p_progress p) (p\<lparr>p_note := Some d\<rparr>) else p)"

text \<open>The operations of a client on deferred \<open>i\<close>, with functions of their own.\<close>

fun user_fns :: "'f ufn arg list \<Rightarrow> 'f list" where
  "user_fns [] = []"
| "user_fns (Fn (UserFn f) # as) = f # user_fns as"
| "user_fns (Fn (Method i a) # as) = user_fns as"
| "user_fns (Args bs # as) = user_fns bs @ user_fns as"
| "user_fns (NoFn # as) = user_fns as"

fun own_fns :: "'f ufn arg list \<Rightarrow> bool" where
  "own_fns [] \<longleftrightarrow> True"
| "own_fns (Fn (UserFn f) # as) \<longleftrightarrow> own_fns as"
| "own_fns (Fn (Method i a) # as) \<longleftrightarrow> False"
| "own_fns (Args bs # as) \<longleftrightarrow> own_fns bs \<and> own_fns as"
| "own_fns (NoFn # as) \<longleftrightarrow> own_fns as"

fun on_deferred :: "nat \<Rightarrow> ('f, 'a) dop \<Rightarrow> bool" where
  "on_deferred i (DAdd j a as) \<longleftrightarrow> j = i \<and> own_fns as"
| "on_deferred i (DAlways j as) \<longleftrightarrow> j = i \<and> own_fns as"
| "on_deferred i (DAct j a vs) \<longleftrightarrow> j = i"
| "on_deferred i (DActWith j a v vs) \<longleftrightarrow> j = i"
| "on_deferred i _ \<longleftrightarrow> False"

fun fns_of :: "('f, 'a) dop \<Rightarrow> 'f list" where
  "fns_of (DAdd j a as) = user_fns as"
| "fns_of (DAlways j as) = user_fns as"
| "fns_of _ = []"

fun p_op :: "('f, 'a) dop \<Rightarrow> ('f, 'a) promise \<Rightarrow> ('f, 'a) promise" where
  "p_op (DAdd i a as) p = p_add a (user_fns as) p"
| "p_op (DAlways i as) p = p_add Reject (user_fns as) (p_add Resolve (user_fns as) p)"
| "p_op (DAct i a vs) p = p_act a (PromiseObj i, vs) p"
| "p_op (DActWith i a v vs) p = p_act a (v, vs) p"
| "p_op _ p = p"

section \<open>What a deferred represents\<close>

abbreviation pub :: "'f \<Rightarrow> 'f fn" where
  "pub f \<equiv> Public (UserFn f)"

lemma options_settle: "createOptions ''once memory'' = \<lparr>once = True, memory_opt = True, unique = False, stopOnFalse = False\<rparr>"
  by code_simp

lemma options_progress: "createOptions ''memory'' = \<lparr>once = False, memory_opt = True, unique = False, stopOnFalse = False\<rparr>"
  by code_simp

definition idle_list :: "('f, 'd) cb \<Rightarrow> bool" where
  "idle_list c \<longleftrightarrow> \<not> firing c \<and> firingStart c = 0 \<and> memory_opt (cb_options c) \<and> \<not> unique (cb_options c)"

definition waiting :: "nat \<Rightarrow> action \<Rightarrow> 'f list \<Rightarrow> ('f, 'a) dcb \<Rightarrow> bool" where
  "waiting i a fs c \<longleftrightarrow> idle_list c \<and> memory c = None \<and> \<not> fired c \<and>
     cb_list c = Some (state_handlers i a @ map pub fs) \<and> cb_stack c = None"

definition settled :: "'a data \<Rightarrow> ('f, 'a) dcb \<Rightarrow> bool" where
  "settled v c \<longleftrightarrow> idle_list c \<and> memory c = Some v \<and> fired c \<and> cb_list c = Some [] \<and> cb_stack c = None"

definition dead :: "('f, 'a) dcb \<Rightarrow> bool" where
  "dead c \<longleftrightarrow> cb_list c = None"

definition noting :: "'a data option \<Rightarrow> 'f list \<Rightarrow> ('f, 'a) dcb \<Rightarrow> bool" where
  "noting v fs c \<longleftrightarrow> idle_list c \<and> memory c = v \<and> (v \<noteq> None \<longrightarrow> fired c) \<and>
     cb_list c = Some (map pub fs) \<and> cb_stack c = Some []"

definition locked :: "'a data option \<Rightarrow> ('f, 'a) dcb \<Rightarrow> bool" where
  "locked v c \<longleftrightarrow> (case v of None \<Rightarrow> cb_list c = None
     | Some d \<Rightarrow> idle_list c \<and> memory c = Some d \<and> fired c \<and> cb_list c \<noteq> None \<and> cb_stack c = None)"

fun waiters :: "action \<Rightarrow> ('f, 'a) promise \<Rightarrow> 'f list" where
  "waiters Resolve p = p_done p"
| "waiters Reject p = p_fail p"
| "waiters Notify p = p_progress p"

definition list_rep :: "nat \<Rightarrow> ('f, 'a) promise \<Rightarrow> action \<Rightarrow> ('f, 'a) dcb \<Rightarrow> bool" where
  "list_rep i p a c \<longleftrightarrow>
     (if a = Notify then
        if p_state p = Pending then noting (p_note p) (p_progress p) c else locked (p_note p) c
      else if p_state p = Pending then waiting i a (waiters a p) c
      else if p_state p = state_string a then \<exists>v. p_value p = Some v \<and> settled v c
      else dead c)"

definition represents :: "nat \<Rightarrow> ('f, 'a) dworld \<Rightarrow> ('f, 'a) promise \<Rightarrow> bool" where
  "represents i w p \<longleftrightarrow> i < length (w_defs w) \<and> w_log w = p_calls p \<and>
     d_state (w_defs w ! i) = p_state p \<and> (\<forall>a. list_rep i p a (get_list i a w))"

section \<open>Calls that only report\<close>

definition silent :: "(('f \<times> 'a data) list \<Rightarrow> nat \<Rightarrow> 'f \<Rightarrow> 'a data \<Rightarrow> 'a val) \<Rightarrow> ('f, 'a) user" where
  "silent r calls k f d = ([], r calls k f d)"

fun effect :: "'f fn \<Rightarrow> 'a data \<Rightarrow> ('f, 'a) dworld \<Rightarrow> ('f, 'a) dworld" where
  "effect (Public (UserFn f)) d w = w\<lparr>w_log := w_log w @ [(f, d)]\<rparr>"
| "effect (SetState i s) d w = w\<lparr>w_defs := (w_defs w)[i := (w_defs w ! i)\<lparr>d_state := s\<rparr>]\<rparr>"
| "effect (DisableList i a) d w = put_list i a (cb_disable (get_list i a w)) w"
| "effect (LockList i a) d w = put_list i a (cb_lock (get_list i a w)) w"
| "effect _ d w = w"

definition listed :: "nat \<Rightarrow> action \<Rightarrow> 'f fn set" where
  "listed i a = range pub \<union> (if a = Notify then {} else set (state_handlers i a))"

lemma set_dlist_laws:
  "set_dlist a c (set_dlist a c1 d) = set_dlist a c d"
  "a \<noteq> b \<Longrightarrow> set_dlist a c (set_dlist b c1 d) = set_dlist b c1 (set_dlist a c d)"
  "set_dlist a c (d\<lparr>d_state := s\<rparr>) = (set_dlist a c d)\<lparr>d_state := s\<rparr>"
  "dlist a (set_dlist b c d) = (if a = b then c else dlist a d)"
  "dlist a (d\<lparr>d_state := s\<rparr>) = dlist a d"
  by (cases d; cases a; cases b; simp add: set_dlist_def dlist_def)+

lemma get_put_list [simp]:
  "i < length (w_defs w) \<Longrightarrow> get_list i a (put_list i b c w) = (if a = b then c else get_list i a w)"
  by (simp add: get_list_def put_list_def set_dlist_laws)

lemma put_put_list: "put_list i a c (put_list i a c1 w) = put_list i a c w"
  by (cases "i < length (w_defs w)") (auto simp: put_list_def set_dlist_laws list_update_beyond)

lemma put_list_swap:
  "a \<noteq> b \<Longrightarrow> put_list i a c (put_list i b c1 w) = put_list i b c1 (put_list i a c w)"
  by (cases "i < length (w_defs w)") (auto simp: put_list_def set_dlist_laws(2) [of a b] list_update_beyond)

lemma put_list_fields [simp]: "length (w_defs (put_list i a c w)) = length (w_defs w)"
  "w_log (put_list i a c w) = w_log w" "w_whens (put_list i a c w) = w_whens w"
  "i < length (w_defs w) \<Longrightarrow> d_state (w_defs (put_list i a c w) ! i) = d_state (w_defs w ! i)"
  by (cases a; simp add: put_list_def set_dlist_def)+

lemma effect_fields: "f \<in> listed i a \<Longrightarrow> length (w_defs (effect f d w)) = length (w_defs w)"
  by (auto simp: listed_def state_handlers_def split: if_splits)

interpretation silent: passive_list "dcall (Suc n) (silent r)" "get_list i a" "put_list i a"
  "\<lambda>w. i < length (w_defs w)" effect "listed i a" for n r i a
proof (unfold_locales, goal_cases)
  case (5 w f d)
  then show ?case
    by (cases a) (auto simp: listed_def state_handlers_def get_list_def put_list_def set_dlist_laws)
next
  case (6 w f d c)
  then show ?case
    by (cases a) (auto simp: listed_def state_handlers_def put_list_swap,
      auto simp: put_list_def set_dlist_laws list_update_swap)
next
  case (7 w f d)
  then show ?case by (auto simp: listed_def state_handlers_def silent_def split: if_splits)
qed (auto simp: put_put_list effect_fields)

section \<open>Operations on each kind of list\<close>

definition logged :: "'a data \<Rightarrow> 'f list \<Rightarrow> ('f, 'a) dworld \<Rightarrow> ('f, 'a) dworld" where
  "logged d fs w = w\<lparr>w_log := w_log w @ map (\<lambda>f. (f, d)) fs\<rparr>"

definition appends :: "'f fn arg list \<Rightarrow> 'f list \<Rightarrow> bool" where
  "appends as fs \<longleftrightarrow> (\<forall>l. add_args False as l = l @ map pub fs)"

lemma appends_public: "own_fns as \<Longrightarrow> appends (public_args as) (user_fns as)"
proof -
  have "own_fns as \<Longrightarrow> add_args False (public_args as) l = l @ map pub (user_fns as)" for l
    by (induction as arbitrary: l rule: own_fns.induct) (simp_all add: public_args_def)
  then show "own_fns as \<Longrightarrow> ?thesis" by (simp add: appends_def)
qed

lemma appends_nested: "appends as fs \<Longrightarrow> appends [Args as] fs"
  by (simp add: appends_def)

lemma fold_pub: "fold (\<lambda>f. effect f d) (map pub fs) w = logged d fs w"
  by (induction fs arbitrary: w) (simp_all add: logged_def)

lemma pub_listed [simp]: "pub f \<in> listed i a"
  by (simp add: listed_def)

lemma logged_fields [simp]: "w_defs (logged d fs w) = w_defs w" "get_list i a (logged d fs w) = get_list i a w"
  "w_log (logged d fs w) = w_log w @ map (\<lambda>f. (f, d)) fs"
  by (simp_all add: logged_def get_list_def)

lemmas list_kinds = idle_list_def waiting_def settled_def dead_def noting_def locked_def

lemma add_waiting:
  assumes "i < length (w_defs w)" "waiting i a gs (get_list i a w)" "appends as fs"
  shows "\<exists>c. add_to n call i a as w = Inr (put_list i a c w) \<and> waiting i a (gs @ fs) c"
  using assms by (auto simp: add_to_def cb_add_def Let_def list_kinds appends_def)

lemma add_settled:
  assumes "i < length (w_defs w)" "settled v (get_list i a w)" "appends as fs" "length fs + 1 < n"
  shows "\<exists>c. add_to n (dcall (Suc m) (silent r)) i a as w = Inr (put_list i a c (logged v fs w)) \<and> settled v c"
proof -
  have "cb_add n (dcall (Suc m) (silent r)) (get_list i a) (put_list i a) as w =
      Inr (put_list i a (after_fire v ([] @ map pub fs) ((get_list i a w)\<lparr>cb_list := Some ([] @ map pub fs)\<rparr>))
        (fold (\<lambda>f. effect f v) (map pub fs) w))"
    using assms by (intro silent.add_passive) (auto simp: list_kinds appends_def)
  then show ?thesis
    using assms(1,2) by (auto simp: add_to_def fold_pub after_fire_def fire_start_def Let_def list_kinds)
qed

lemma add_dead:
  "i < length (w_defs w) \<Longrightarrow> cb_list (get_list i a w) = None \<Longrightarrow> add_to n call i a as w = Inr w"
  by (simp add: add_to_def cb_add_def Let_def)

definition logged_with :: "'a data option \<Rightarrow> 'f list \<Rightarrow> ('f, 'a) dworld \<Rightarrow> ('f, 'a) dworld" where
  "logged_with v fs w = (case v of None \<Rightarrow> w | Some d \<Rightarrow> logged d fs w)"

lemma add_noting:
  assumes "i < length (w_defs w)" "noting v gs (get_list i Notify w)" "appends as fs" "length fs + 1 < n"
  shows "\<exists>c. add_to n (dcall (Suc m) (silent r)) i Notify as w = Inr (put_list i Notify c (logged_with v fs w)) \<and>
    noting v (gs @ fs) c"
proof (cases v)
  case None
  then show ?thesis
    using assms by (auto simp: add_to_def cb_add_def Let_def list_kinds appends_def logged_with_def)
next
  case (Some d)
  have "cb_add n (dcall (Suc m) (silent r)) (get_list i Notify) (put_list i Notify) as w =
      Inr (put_list i Notify (after_fire d (map pub gs @ map pub fs)
          ((get_list i Notify w)\<lparr>cb_list := Some (map pub gs @ map pub fs)\<rparr>))
        (fold (\<lambda>f. effect f d) (map pub fs) w))"
    using assms Some by (intro silent.add_passive) (auto simp: list_kinds appends_def)
  then show ?thesis
    using assms(1,2) Some
    by (auto simp: add_to_def fold_pub after_fire_def fire_start_def Let_def list_kinds logged_with_def)
qed

lemma add_locked:
  assumes "i < length (w_defs w)" "locked v (get_list i Notify w)" "appends as fs" "length fs + 1 < n"
  shows "\<exists>w1. add_to n (dcall (Suc m) (silent r)) i Notify as w = Inr w1 \<and>
    (w1 = w \<and> v = None \<or> (\<exists>c. w1 = put_list i Notify c (logged_with v fs w) \<and> locked v c))"
proof (cases v)
  case None
  then show ?thesis using assms(1,2) by (simp add: add_dead locked_def)
next
  case (Some d)
  obtain l where l: "cb_list (get_list i Notify w) = Some l" using assms(2) Some by (auto simp: locked_def)
  have "cb_add n (dcall (Suc m) (silent r)) (get_list i Notify) (put_list i Notify) as w =
      Inr (put_list i Notify (after_fire d (l @ map pub fs) ((get_list i Notify w)\<lparr>cb_list := Some (l @ map pub fs)\<rparr>))
        (fold (\<lambda>f. effect f d) (map pub fs) w))"
    using assms Some l by (intro silent.add_passive) (auto simp: list_kinds appends_def)
  then show ?thesis
    using assms(1,2) Some l
    by (auto simp: add_to_def fold_pub after_fire_def fire_start_def Let_def list_kinds logged_with_def)
qed

lemma act_waiting:
  assumes "i < length (w_defs w)" "waiting i a fs (get_list i a w)" "a \<noteq> Notify" "length fs + 4 < n"
  shows "\<exists>c. act_with n (dcall (Suc m) (silent r)) i a d w = Inr (put_list i a c (logged d fs
      (effect (LockList i Notify) d (effect (DisableList i (other_action a)) d
        (effect (SetState i (state_string a)) d w))))) \<and> settled d c"
proof -
  have "cb_fire n (dcall (Suc m) (silent r)) (get_list i a) (put_list i a) d w =
      Inr (put_list i a (after_fire d (state_handlers i a @ map pub fs) (get_list i a w))
        (fold (\<lambda>f. effect f d) (drop 0 (state_handlers i a @ map pub fs)) w))"
    using assms by (intro silent.fire_passive) (auto simp: list_kinds state_handlers_def listed_def)
  then show ?thesis
    using assms(1,2)
    by (auto simp: act_with_def fireWith_def fold_pub after_fire_def fire_start_def Let_def list_kinds
        state_handlers_def)
qed

lemma act_noting:
  assumes "i < length (w_defs w)" "noting v fs (get_list i Notify w)" "length fs + 1 < n"
  shows "\<exists>c. act_with n (dcall (Suc m) (silent r)) i Notify d w = Inr (put_list i Notify c (logged d fs w)) \<and>
    noting (Some d) fs c"
proof -
  have "cb_fire n (dcall (Suc m) (silent r)) (get_list i Notify) (put_list i Notify) d w =
      Inr (put_list i Notify (after_fire d (map pub fs) (get_list i Notify w))
        (fold (\<lambda>f. effect f d) (drop 0 (map pub fs)) w))"
    using assms by (intro silent.fire_passive) (auto simp: list_kinds)
  then show ?thesis
    using assms(1,2)
    by (auto simp: act_with_def fireWith_def fold_pub after_fire_def fire_start_def Let_def list_kinds)
qed

lemma act_closed:
  assumes "i < length (w_defs w)"
    "(\<exists>v. settled v (get_list i a w)) \<or> dead (get_list i a w) \<or> (\<exists>u. locked u (get_list i a w))"
  shows "act_with n call i a d w = Inr w"
  using assms by (auto simp: act_with_def fireWith_def list_kinds Let_def split: option.splits)

section \<open>Each operation refines that of the promise\<close>

lemma p_call_fields [simp]:
  "p_state (p_call d fs p) = p_state p" "p_value (p_call d fs p) = p_value p"
  "p_note (p_call d fs p) = p_note p" "waiters a (p_call d fs p) = waiters a p"
  "p_done (p_call d fs p) = p_done p" "p_fail (p_call d fs p) = p_fail p"
  "p_progress (p_call d fs p) = p_progress p"
  "p_calls (p_call d fs p) = p_calls p @ map (\<lambda>f. (f, d)) fs"
  by (cases a; simp add: p_call_def)+

lemma list_rep_call [simp]: "list_rep i (p_call d fs p) a c = list_rep i p a c"
  by (simp add: list_rep_def)

lemma p_add_other: "b \<noteq> a \<Longrightarrow> list_rep i (p_add a fs p) b c = list_rep i p b c"
  by (cases a; cases b) (auto simp: list_rep_def p_call_with_def split: dstate.splits option.splits)

lemma p_add_state [simp]: "p_state (p_add a fs p) = p_state p"
  by (cases a) (auto simp: p_call_with_def split: dstate.splits option.splits)

text \<open>One list: its representation, the calls made, and everything else left alone.\<close>

definition add_one :: "nat \<Rightarrow> action \<Rightarrow> 'f list \<Rightarrow> ('f, 'a) promise \<Rightarrow> ('f, 'a) dworld \<Rightarrow> ('f, 'a) dworld \<Rightarrow> bool" where
  "add_one i a fs p w w1 \<longleftrightarrow> list_rep i (p_add a fs p) a (get_list i a w1) \<and>
     w_log w1 = w_log w @ drop (length (p_calls p)) (p_calls (p_add a fs p)) \<and>
     length (w_defs w1) = length (w_defs w) \<and> d_state (w_defs w1 ! i) = d_state (w_defs w ! i) \<and>
     (\<forall>b. b \<noteq> a \<longrightarrow> get_list i b w1 = get_list i b w)"

lemma add_one_settling:
  assumes "i < length (w_defs w)" "list_rep i p a (get_list i a w)" "appends as fs" "length fs + 1 < n" "a \<noteq> Notify"
  shows "\<exists>w1. add_to n (dcall (Suc m) (silent r)) i a as w = Inr w1 \<and> add_one i a fs p w w1"
proof -
  consider "waiting i a (waiters a p) (get_list i a w)" "p_state p = Pending"
    | v where "settled v (get_list i a w)" "p_state p = state_string a" "p_value p = Some v"
    | "dead (get_list i a w)" "p_state p \<noteq> Pending" "p_state p \<noteq> state_string a"
    using assms(2,5) by (auto simp: list_rep_def split: if_splits)
  then show ?thesis
  proof cases
    case 1
    then show ?thesis
      using add_waiting [OF assms(1) 1(1) assms(3), of n "dcall (Suc m) (silent r)"] assms(1,5)
      by (cases a) (auto simp: add_one_def list_rep_def)
  next
    case 2
    then show ?thesis
      using add_settled [OF assms(1) 2(1) assms(3,4), of m r] assms(1,5)
      by (cases a) (auto simp: add_one_def list_rep_def p_call_with_def)
  next
    case 3
    then show ?thesis
      using add_dead [OF assms(1), of a n _ as] assms(1,5)
      by (cases a; cases "p_state p") (auto simp: add_one_def list_rep_def dead_def)
  qed
qed

lemma add_one_noting:
  assumes "i < length (w_defs w)" "list_rep i p Notify (get_list i Notify w)" "appends as fs" "length fs + 1 < n"
  shows "\<exists>w1. add_to n (dcall (Suc m) (silent r)) i Notify as w = Inr w1 \<and> add_one i Notify fs p w w1"
proof (cases "p_state p = Pending")
  case True
  then have "noting (p_note p) (p_progress p) (get_list i Notify w)" using assms(2) by (simp add: list_rep_def)
  from add_noting [OF assms(1) this assms(3,4), of m r] show ?thesis
    using assms(1) True
    by (cases "p_note p") (auto simp: add_one_def list_rep_def p_call_with_def logged_with_def)
next
  case False
  then have "locked (p_note p) (get_list i Notify w)" using assms(2) by (simp add: list_rep_def)
  from add_locked [OF assms(1) this assms(3,4), of m r] show ?thesis
    using assms(1,2) False
    by (cases "p_note p") (auto simp: add_one_def list_rep_def p_call_with_def logged_with_def)
qed

lemma p_add_calls: "p_calls p @ drop (length (p_calls p)) (p_calls (p_add a fs p)) = p_calls (p_add a fs p)"
  by (cases a) (auto simp: p_call_with_def split: dstate.splits option.splits)

lemma add_refines:
  assumes "represents i w p" "appends as fs" "length fs + 1 < n"
  shows "\<exists>w1. add_to n (dcall (Suc m) (silent r)) i a as w = Inr w1 \<and> represents i w1 (p_add a fs p)"
proof -
  have i: "i < length (w_defs w)" and rep: "list_rep i p b (get_list i b w)" for b
    using assms(1) by (simp_all add: represents_def)
  obtain w1 where "add_to n (dcall (Suc m) (silent r)) i a as w = Inr w1" and o: "add_one i a fs p w w1"
    using add_one_settling [OF i rep assms(2,3), where m = m and r = r]
      add_one_noting [OF i rep assms(2,3), where m = m and r = r]
    by (cases "a = Notify") blast+
  moreover have "list_rep i (p_add a fs p) b (get_list i b w1)" for b
    using o rep [of b] p_add_other [of b a i fs p] by (cases "b = a") (auto simp: add_one_def)
  then have "represents i w1 (p_add a fs p)"
    using o assms(1) p_add_calls [of p a fs] by (simp add: represents_def add_one_def)
  ultimately show ?thesis by blast
qed

lemma lock_noting: "noting v fs c \<Longrightarrow> locked v (cb_lock c)"
  by (auto simp: list_kinds cb_lock_def cb_disable_def Let_def split: option.splits)

lemma waiters_fields [simp]: "waiters a (p\<lparr>p_note := x\<rparr>) = waiters a p"
  by (cases a) simp_all

lemma get_list_state [simp]:
  "get_list j a (w\<lparr>w_defs := (w_defs w)[i := (w_defs w ! i)\<lparr>d_state := s\<rparr>]\<rparr>) = get_list j a w"
  by (cases "i < length (w_defs w)"; cases "i = j") (auto simp: get_list_def set_dlist_laws list_update_beyond)

lemma settle_refines:
  assumes "represents i w p" "a \<noteq> Notify" "p_state p = Pending" "length (waiters a p) + 4 < n"
  shows "\<exists>w1. act_with n (dcall (Suc m) (silent r)) i a d w = Inr w1 \<and> represents i w1 (p_act a d p)"
proof -
  let ?w = "put_list i Notify (cb_lock (get_list i Notify w)) (put_list i (other_action a)
      (cb_disable (get_list i (other_action a) w)) (effect (SetState i (state_string a)) d w))"
  have i: "i < length (w_defs w)" and rep: "list_rep i p b (get_list i b w)" for b
    using assms(1) by (simp_all add: represents_def)
  have o: "other_action a \<noteq> Notify" "other_action a \<noteq> a" using assms(2) by (cases a; simp)+
  have wt: "waiting i a (waiters a p) (get_list i a w)" using rep [of a] assms(2,3) by (simp add: list_rep_def)
  obtain c where c: "act_with n (dcall (Suc m) (silent r)) i a d w = Inr (put_list i a c (logged d (waiters a p) ?w))"
    "settled d c"
    using act_waiting [OF i wt assms(2,4), of m r d] i o by auto
  have lk: "locked (p_note p) (cb_lock (get_list i Notify w))"
    using rep [of Notify] assms(3) lock_noting by (auto simp: list_rep_def)
  have "represents i (put_list i a c (logged d (waiters a p) ?w)) (p_act a d p)"
    using i o assms(1-3) c(2) lk
    by (cases a) (auto simp: represents_def list_rep_def dead_def cb_disable_def, (case_tac aa; simp)+)
  then show ?thesis using c(1) by blast
qed

lemma act_refines:
  assumes "represents i w p" "length (waiters a p) + 4 < n"
  shows "\<exists>w1. act_with n (dcall (Suc m) (silent r)) i a d w = Inr w1 \<and> represents i w1 (p_act a d p)"
proof -
  have i: "i < length (w_defs w)" and rep: "list_rep i p b (get_list i b w)" for b
    using assms(1) by (simp_all add: represents_def)
  consider "p_state p = Pending" "a \<noteq> Notify" | "p_state p = Pending" "a = Notify" | "p_state p \<noteq> Pending" by blast
  then show ?thesis
  proof cases
    case 1
    then show ?thesis using settle_refines [OF assms(1) 1(2,1) assms(2)] by blast
  next
    case 2
    then have "noting (p_note p) (p_progress p) (get_list i Notify w)"
      using rep [of Notify] by (simp add: list_rep_def)
    from act_noting [OF i this, of n m r d] obtain c where
      c: "act_with n (dcall (Suc m) (silent r)) i a d w = Inr (put_list i Notify c (logged d (p_progress p) w))"
        "noting (Some d) (p_progress p) c"
      using assms(2) 2 by auto
    have "represents i (put_list i Notify c (logged d (p_progress p) w)) (p_act a d p)"
      using i 2 assms(1) c(2) by (auto simp: represents_def list_rep_def)
    then show ?thesis using c(1) by blast
  next
    case 3
    then have "act_with n (dcall (Suc m) (silent r)) i a d w = Inr w"
      using rep [of a] by (intro act_closed [OF i]) (auto simp: list_rep_def split: if_splits)
    moreover have "p_act a d p = p" using 3 by (cases a) simp_all
    ultimately show ?thesis using assms(1) by simp
  qed
qed

text \<open>The functions waiting are among those given.\<close>

lemma p_add_waiters: "length (waiters b (p_add a fs p)) \<le> length (waiters b p) + length fs"
  by (cases a; cases b) (auto simp: p_call_with_def split: dstate.splits option.splits)

lemma p_act_waiters [simp]: "waiters b (p_act a d p) = waiters b p"
  by (cases a; cases b) simp_all

lemma op_refines:
  assumes "represents i w p" "on_deferred i q" "\<forall>a. length (waiters a p) + length (fns_of q) + 4 < n"
  shows "\<exists>w1. run_dop n (dcall (Suc m) (silent r)) q w = Inr w1 \<and> represents i w1 (p_op q p)"
proof (cases q)
  case (DAdd j a as)
  have "4 + length (user_fns as) < n" using assms(3) [rule_format, of Resolve] DAdd by simp
  then show ?thesis
    using DAdd assms(2) add_refines [OF assms(1) appends_public, of as n m r a] by simp
next
  case (DAlways j as)
  let ?as = "[Args (public_args as)]"
  have ap: "appends ?as (user_fns as)" and j: "j = i" and n: "length (user_fns as) + 1 < n"
    using assms(2) assms(3) [rule_format, of Resolve] DAlways by (simp_all add: appends_nested appends_public)
  obtain w1 where "add_to n (dcall (Suc m) (silent r)) i Resolve ?as w = Inr w1"
      "represents i w1 (p_add Resolve (user_fns as) p)"
    using add_refines [OF assms(1) ap n, of m r Resolve] by blast
  then show ?thesis
    using add_refines [of i w1 _ ?as, OF _ ap n, of _ m r Reject] DAlways j by simp
next
  case (DAct j a vs)
  then show ?thesis
    using assms act_refines [OF assms(1), of a n m r] by (auto simp: act_method_def)
next
  case (DActWith j a v vs)
  then show ?thesis using assms act_refines [OF assms(1), of a n m r] by auto
qed (use assms(2) in auto)

lemma p_op_waiters: "length (waiters b (p_op q p)) \<le> length (waiters b p) + 2 * length (fns_of q)"
proof (cases q)
  case (DAlways j as)
  then show ?thesis
    using p_add_waiters [of b Reject "user_fns as" "p_add Resolve (user_fns as) p"]
      p_add_waiters [of b Resolve "user_fns as" p] by (simp del: p_add.simps)
next
  case (DAdd j a as)
  then show ?thesis using p_add_waiters [of b a "user_fns as" p] by (simp del: p_add.simps)
qed simp_all

lemma ops_refine:
  assumes "represents i w p" "\<forall>q \<in> set qs. on_deferred i q"
    "\<forall>a. length (waiters a p) + 2 * length (concat (map fns_of qs)) + 4 < n"
  shows "\<exists>w1. run_dops n (dcall (Suc m) (silent r)) qs w = Inr w1 \<and> represents i w1 (fold p_op qs p)"
  using assms
proof (induction qs arbitrary: w p)
  case (Cons q qs)
  have "\<forall>a. length (waiters a p) + length (fns_of q) + 4 < n"
  proof
    fix a show "length (waiters a p) + length (fns_of q) + 4 < n" using Cons.prems(3) [rule_format, of a] by simp
  qed
  then obtain w1 where w1: "run_dop n (dcall (Suc m) (silent r)) q w = Inr w1" "represents i w1 (p_op q p)"
    using op_refines [OF Cons.prems(1), of q n m r] Cons.prems(2) by auto
  have "length (waiters a (p_op q p)) + 2 * length (concat (map fns_of qs)) + 4 < n" for a
    using Cons.prems(3) [rule_format, of a] p_op_waiters [of a q p] by simp
  then show ?case using Cons.IH [OF w1(2)] Cons.prems(2) w1(1) by (simp del: dcall.simps)
qed simp

lemma new_represents: "represents 0 (alloc d_world :: ('f, 'a) dworld) new_promise"
proof -
  have "list_rep 0 new_promise a (get_list 0 a (alloc d_world :: ('f, 'a) dworld))" for a
    by (cases a) (simp_all add: list_rep_def list_kinds new_promise_def get_list_def dlist_def alloc_def d_world_def
        new_deferred_def settle_list_def callbacks_def options_settle options_progress state_handlers_def inArray_def)
  moreover have "w_log (alloc d_world :: ('f, 'a) dworld) = p_calls (new_promise :: ('f, 'a) promise)"
    "d_state (w_defs (alloc d_world :: ('f, 'a) dworld) ! 0) = p_state (new_promise :: ('f, 'a) promise)"
    "0 < length (w_defs (alloc d_world :: ('f, 'a) dworld))"
    by (simp_all add: new_promise_def alloc_def d_world_def new_deferred_def)
  ultimately show ?thesis unfolding represents_def by blast
qed

text \<open>C33: A deferred refines a promise, for functions that perform no operation on deferreds themselves (one that notifies its own deferred
  may never return): whatever a client does with one deferred but chaining it (add functions in any
  form, resolve, reject, notify, in any order), the functions are called in the order and with the
  context and the arguments the specification says, the state is the specified one, and the run
  returns: fuel beyond four and twice the number of functions is enough.\<close>

theorem deferred_refines_promise:
  assumes "\<forall>q \<in> set qs. on_deferred 0 q" "2 * length (concat (map fns_of qs)) + 4 < n"
  shows "\<exists>w. d_run n (silent r) (DNew # qs) d_world = Inr w \<and> represents 0 w (fold p_op qs new_promise)"
proof -
  obtain m where n: "n = Suc m" using assms(2) by (cases n) auto
  have "\<forall>a. length (waiters a new_promise) + 2 * length (concat (map fns_of qs)) + 4 < n"
  proof
    fix a show "length (waiters a new_promise) + 2 * length (concat (map fns_of qs)) + 4 < n"
      using assms(2) by (cases a) (simp_all add: new_promise_def)
  qed
  then show ?thesis
    using ops_refine [OF new_represents assms(1), of n m r] by (simp add: d_run_def n)
qed

text \<open>A client that adds functions of every kind, notifies, resolves, then tries to reject and adds more.\<close>

definition sample_client :: "(nat, int) dop list" where
  "sample_client = [DAdd 0 Resolve [Fn (UserFn 1), Args [Fn (UserFn 2), NoFn]], DAdd 0 Reject [Fn (UserFn 3)],
     DAdd 0 Notify [Fn (UserFn 4)], DAct 0 Notify [Atom 10], DAdd 0 Notify [Fn (UserFn 5)],
     DActWith 0 Resolve (Atom 7) [Atom 20, Atom 21], DAct 0 Reject [Atom 30], DAct 0 Notify [Atom 40],
     DAlways 0 [Fn (UserFn 6)], DAdd 0 Notify [Fn (UserFn 8)]]"

theorem deferred_refines_promise_witness:
  "\<exists>w. d_run 30 (silent (\<lambda>_ _ _ _. Undefined)) (DNew # sample_client) d_world = Inr w \<and>
    w_log w = [(4, PromiseObj 0, [Atom 10]), (5, PromiseObj 0, [Atom 10]), (1, Atom 7, [Atom 20, Atom 21]),
      (2, Atom 7, [Atom 20, Atom 21]), (6, Atom 7, [Atom 20, Atom 21]), (8, PromiseObj 0, [Atom 10])]"
proof -
  have on: "\<forall>q \<in> set sample_client. on_deferred 0 q" by code_simp
  have fuel: "2 * length (concat (map fns_of sample_client)) + 4 < 30" by code_simp
  have "p_calls (fold p_op sample_client new_promise) =
    [(4, PromiseObj 0, [Atom 10]), (5, PromiseObj 0, [Atom 10]), (1, Atom 7, [Atom 20, Atom 21]),
      (2, Atom 7, [Atom 20, Atom 21]), (6, Atom 7, [Atom 20, Atom 21]), (8, PromiseObj 0, [Atom 10])]"
    by code_simp
  then show ?thesis
    using deferred_refines_promise [OF on fuel, of "\<lambda>_ _ _ _. Undefined"] unfolding represents_def by auto
qed

end
