(* ===== verification/JQ_Settled.thy ===== *)
theory JQ_Settled
  imports JQ_DeferredProps
begin

text \<open>
  A deferred settles once, whatever the functions do: they may resolve, reject, notify and add to
  any deferred, the one being settled included, and call \<open>then\<close> and \<open>when\<close>. \<open>w_inv S w\<close> is
  the invariant of the world, where \<open>S\<close> holds the lists being fired; the contract of a callback
  list is met by every list of every deferred for it.
\<close>

section \<open>The invariant\<close>

fun ordinary :: "'f fn \<Rightarrow> bool" where
  "ordinary (SetState i s) \<longleftrightarrow> False"
| "ordinary (DisableList i a) \<longleftrightarrow> False"
| "ordinary (LockList i a) \<longleftrightarrow> False"
| "ordinary _ \<longleftrightarrow> True"

definition list_wf :: "action \<Rightarrow> ('f, 'a) dcb \<Rightarrow> bool" where
  "list_wf a c \<longleftrightarrow> cb_ok c \<and> memory_opt (cb_options c) \<and> \<not> stopOnFalse (cb_options c) \<and>
     (once (cb_options c) \<longleftrightarrow> a \<noteq> Notify)"

definition fresh :: "nat \<Rightarrow> action \<Rightarrow> ('f, 'a) dcb \<Rightarrow> bool" where
  "fresh i a c \<longleftrightarrow> \<not> firing c \<and> \<not> fired c \<and> memory c = None \<and> cb_stack c = None \<and> firingStart c = 0 \<and>
     (\<exists>fs. cb_list c = Some (state_handlers i a @ fs) \<and> list_all ordinary fs)"

definition held :: "'a data \<Rightarrow> ('f, 'a) dcb \<Rightarrow> bool" where
  "held v c \<longleftrightarrow> memory c = Some v \<and> fired c \<and> cb_stack c = None \<and>
     (\<exists>l. cb_list c = Some l \<and> (\<forall>j < length l. (firing c \<longrightarrow> firingIndex c \<le> int j) \<longrightarrow> ordinary (l ! j)))"

definition shut :: "('f, 'a) dcb \<Rightarrow> bool" where
  "shut c \<longleftrightarrow> cb_list c = None \<and> \<not> firing c"

definition plain :: "('f, 'a) dcb \<Rightarrow> bool" where
  "plain c \<longleftrightarrow> (\<forall>l. cb_list c = Some l \<longrightarrow> list_all ordinary l)"

definition list_role :: "dstate \<Rightarrow> nat \<Rightarrow> action \<Rightarrow> ('f, 'a) dcb \<Rightarrow> bool" where
  "list_role s i a c \<longleftrightarrow> list_wf a c \<and>
     (if a = Notify then plain c
      else if s = Pending then fresh i a c
      else if s = state_string a then \<exists>v. held v c
      else shut c)"

definition w_inv :: "(nat \<times> action) set \<Rightarrow> ('f, 'a) dworld \<Rightarrow> bool" where
  "w_inv S w \<longleftrightarrow> (\<forall>i a. (i, a) \<in> S \<longrightarrow> i < length (w_defs w)) \<and>
     (\<forall>i < length (w_defs w). \<forall>a. list_role (d_state (w_defs w ! i)) i a (get_list i a w) \<and>
        firing (get_list i a w) = ((i, a) \<in> S))"

definition settled_as :: "('f, 'a) dworld \<Rightarrow> nat \<Rightarrow> action \<Rightarrow> 'a data \<Rightarrow> bool" where
  "settled_as w i a v \<longleftrightarrow> i < length (w_defs w) \<and> a \<noteq> Notify \<and> d_state (w_defs w ! i) = state_string a \<and>
     memory (get_list i a w) = Some v"

definition w_keeps :: "('f, 'a) dworld \<Rightarrow> ('f, 'a) dworld \<Rightarrow> bool" where
  "w_keeps w w1 \<longleftrightarrow> length (w_defs w) \<le> length (w_defs w1) \<and>
     (\<forall>i a v. settled_as w i a v \<longrightarrow> settled_as w1 i a v)"

lemma w_invD:
  assumes "w_inv S w" "i < length (w_defs w)"
  shows "list_role (d_state (w_defs w ! i)) i a (get_list i a w)" "firing (get_list i a w) = ((i, a) \<in> S)"
  using assms by (auto simp: w_inv_def)

lemma w_keeps_refl [simp]: "w_keeps w w"
  by (simp add: w_keeps_def)

lemma w_keeps_trans: "w_keeps w w1 \<Longrightarrow> w_keeps w1 w2 \<Longrightarrow> w_keeps w w2"
  by (auto simp: w_keeps_def)

lemma w_keeps_defs: "w_defs w1 = w_defs w \<Longrightarrow> w_keeps w w1 \<and> w_inv S w1 = w_inv S w"
  by (simp add: w_keeps_def w_inv_def settled_as_def get_list_def)

section \<open>Changes of one list\<close>

lemma held_trans: "cb_trans ordinary c c1 \<Longrightarrow> held v c \<Longrightarrow> \<not> stopOnFalse (cb_options c) \<Longrightarrow> held v c1"
  by (induction rule: cb_trans.induct)
    (auto simp: held_def nth_append list_all_length split: if_splits)

lemma fresh_trans: "cb_trans ordinary c c1 \<Longrightarrow> fresh i a c \<Longrightarrow> fresh i a c1"
  by (induction rule: cb_trans.induct) (auto simp: fresh_def)

lemma shut_trans: "cb_trans ordinary c c1 \<Longrightarrow> shut c \<Longrightarrow> False"
  by (induction rule: cb_trans.induct) (auto simp: shut_def)

lemma plain_trans: "cb_trans ordinary c c1 \<Longrightarrow> plain c \<Longrightarrow> plain c1"
  by (induction rule: cb_trans.induct) (auto simp: plain_def cb_disable_def)

lemma wf_trans: "cb_trans ordinary c c1 \<Longrightarrow> list_wf a c \<Longrightarrow> list_wf a c1"
  using trans_ok [of ordinary c c1]
  by (auto simp: list_wf_def cb_disable_def elim!: cb_trans.cases)

lemma state_string_pending [simp]: "state_string a = Pending \<longleftrightarrow> a = Notify" "Pending = state_string a \<longleftrightarrow> a = Notify"
  by (cases a; simp)+

lemma role_trans:
  assumes "cb_trans ordinary c c1" "list_role s i a c"
  shows "list_role s i a c1 \<and> (a \<noteq> Notify \<longrightarrow> s = state_string a \<longrightarrow> memory c1 = memory c)"
proof -
  have "(\<exists>v. held v c1) \<and> memory c1 = memory c" if "\<exists>v. held v c"
    using held_trans [OF assms(1)] assms(2) that by (auto simp: list_role_def list_wf_def held_def)
  then show ?thesis
    using assms(2) wf_trans [OF assms(1), of a] fresh_trans [OF assms(1), of i a] shut_trans [OF assms(1)]
      plain_trans [OF assms(1)]
    unfolding list_role_def by (simp split: if_splits)
qed

text \<open>A list is put back with a role of its deferred: the invariant holds and settled deferreds stay.\<close>

lemma put_inv:
  assumes "w_inv S w" "i < length (w_defs w)" "list_role (d_state (w_defs w ! i)) i a c"
    "a \<noteq> Notify \<Longrightarrow> d_state (w_defs w ! i) = state_string a \<Longrightarrow> memory c = memory (get_list i a w)"
  shows "w_inv (if firing c then insert (i, a) S else S - {(i, a)}) (put_list i a c w) \<and>
    w_keeps w (put_list i a c w)"
proof -
  have d: "d_state (w_defs (put_list i a c w) ! j) = d_state (w_defs w ! j)"
    "get_list j b (put_list i a c w) = (if j = i \<and> b = a then c else get_list j b w)" for j b
    using assms(2) by (auto simp: put_list_def get_list_def nth_list_update set_dlist_laws)
      (cases a; simp add: set_dlist_def)
  show ?thesis
    using assms by (auto simp: w_inv_def w_keeps_def settled_as_def d)
qed

section \<open>Every list meets its contract\<close>

definition w_startable :: "('f, 'a) dcb \<Rightarrow> bool" where
  "w_startable c \<longleftrightarrow> fired c \<or> \<not> once (cb_options c)"

lemma role_start:
  assumes "list_role s i a c" "w_startable c" "can_start d c" "cb_list c = Some l"
  shows "list_role s i a (fire_start d l c) \<and> (a \<noteq> Notify \<longrightarrow> s = state_string a \<longrightarrow> memory (fire_start d l c) = memory c)"
proof (cases "a = Notify")
  case True
  then show ?thesis
    using assms start_ok [of c l d] by (auto simp: list_role_def list_wf_def plain_def fire_start_def)
next
  case False
  then have "fired c" "s \<noteq> Pending" "s = state_string a"
    using assms by (auto simp: list_role_def list_wf_def w_startable_def fresh_def shut_def split: if_splits)
  moreover then have "held d c"
    using assms(1,3) False by (auto simp: list_role_def can_start_def held_def)
  ultimately show ?thesis
    using assms start_ok [of c l d] False
    by (auto simp: list_role_def list_wf_def held_def fire_start_def can_start_def)
qed

lemma role_call:
  assumes "list_role s i a c" "in_call c f"
  shows "ordinary f"
  using assms
  by (auto simp: list_role_def in_call_def fresh_def held_def shut_def plain_def list_all_length split: if_splits)

definition one_list :: "('f, 'a) dworld \<Rightarrow> (nat \<times> action) set \<Rightarrow> nat \<Rightarrow> action \<Rightarrow> bool \<Rightarrow> ('f, 'a) dworld \<Rightarrow> bool" where
  "one_list w0 S i a b w \<longleftrightarrow> i < length (w_defs w) \<and> (i, a) \<notin> S \<and>
     w_inv (if b then insert (i, a) S else S) w \<and> w_keeps w0 w"

definition call_keeps :: "('f, 'a) dcaller \<Rightarrow> bool" where
  "call_keeps call \<longleftrightarrow> (\<forall>S w f d w1 r. w_inv S w \<longrightarrow> ordinary f \<longrightarrow> call f d w = Inr (w1, r) \<longrightarrow>
     w_inv S w1 \<and> w_keeps w w1)"

lemma one_list_role:
  assumes "one_list w0 S i a b w"
  shows "list_role (d_state (w_defs w ! i)) i a (get_list i a w)" "firing (get_list i a w) = b"
    "i < length (w_defs w)"
  using assms by (auto simp: one_list_def w_inv_def split: if_splits)

lemma one_list_put:
  assumes "one_list w0 S i a b w" "list_role (d_state (w_defs w ! i)) i a c"
    "a \<noteq> Notify \<longrightarrow> d_state (w_defs w ! i) = state_string a \<longrightarrow> memory c = memory (get_list i a w)"
  shows "one_list w0 S i a (firing c) (put_list i a c w)"
proof -
  have "(if firing c then insert (i, a) (if b then insert (i, a) S else S)
      else (if b then insert (i, a) S else S) - {(i, a)}) = (if firing c then insert (i, a) S else S)"
    using assms(1) by (auto simp: one_list_def)
  then show ?thesis
    using put_inv [of "if b then insert (i, a) S else S" w i a c] assms w_keeps_trans
    by (auto simp: one_list_def simp del: if_split_asm)
qed

lemma list_contract:
  assumes "call_keeps call"
  shows "fired_list call (get_list i a) (put_list i a) (one_list w0 S i a) ordinary w_startable (\<lambda>_. True)"
proof (unfold_locales, goal_cases)
  case (1 b w c)
  then show ?case by (simp add: one_list_def)
next
  case (2 b w)
  then show ?case using one_list_role [OF 2] by (auto simp: list_role_def list_wf_def)
next
  case (3 b w c)
  then show ?case using one_list_put [OF 3(1)] role_trans [OF 3(2) one_list_role(1) [OF 3(1)]] by blast
next
  case (4 w d l)
  have "firing (fire_start d l (get_list i a w))" by (simp add: fire_start_def)
  then show ?case
    using one_list_put [OF 4(1), of "fire_start d l (get_list i a w)"]
      role_start [OF one_list_role(1) [OF 4(1)] 4(2-4)] by simp
next
  case (6 w f d w1 r)
  have "w_inv (insert (i, a) S) w" "ordinary f"
    using 6(1) role_call [OF one_list_role(1) [OF 6(1)] 6(2)] by (simp_all add: one_list_def)
  then have "w_inv (insert (i, a) S) w1 \<and> w_keeps w w1" using assms 6(3) unfolding call_keeps_def by blast
  then show ?case using 6(1) w_keeps_trans by (auto simp: one_list_def w_keeps_def)
qed (auto simp: w_startable_def)

section \<open>Settling\<close>

interpretation handlers: passive_list "dcall (Suc n) user" "get_list i a" "put_list i a"
  "\<lambda>w. i < length (w_defs w)" effect "if a = Notify then {} else set (state_handlers i a)" for n user i a
proof (unfold_locales, goal_cases)
  case (5 w f d)
  then show ?case using silent.eff_get [of i w f a d] by (auto simp: listed_def split: if_splits)
next
  case (6 w f d c)
  then show ?case using silent.eff_put [of i w f a d c] by (auto simp: listed_def split: if_splits)
next
  case (4 w f d)
  then show ?case using silent.D_eff [of i w f a d] by (auto simp: listed_def split: if_splits)
next
  case (7 w f d)
  then show ?case by (auto simp: state_handlers_def split: if_splits)
qed (auto simp: put_put_list)

text \<open>The world after the three state handlers.\<close>

definition after_handlers :: "nat \<Rightarrow> action \<Rightarrow> 'a data \<Rightarrow> ('f, 'a) dworld \<Rightarrow> ('f, 'a) dworld" where
  "after_handlers i a d w = fold (\<lambda>f. effect f d) (state_handlers i a) w"

lemma after_handlers_lists:
  assumes "i < length (w_defs w)" "a \<noteq> Notify"
  shows "d_state (w_defs (after_handlers i a d w) ! i) = state_string a" "j \<noteq> i \<Longrightarrow> w_defs (after_handlers i a d w) ! j = w_defs w ! j"
    "get_list i a (after_handlers i a d w) = get_list i a w"
    "get_list i (other_action a) (after_handlers i a d w) = cb_disable (get_list i (other_action a) w)"
    "get_list i Notify (after_handlers i a d w) = cb_lock (get_list i Notify w)"
    "length (w_defs (after_handlers i a d w)) = length (w_defs w)"
  using assms
  by (cases a; auto simp: after_handlers_def state_handlers_def put_list_def nth_list_update get_list_def set_dlist_laws;
      simp add: set_dlist_def)+

lemma action_cases: "a \<noteq> Notify \<Longrightarrow> b = a \<or> b = other_action a \<or> b = Notify"
  by (cases a; cases b) simp_all

lemma length_state_handlers [simp]: "length (state_handlers i a) = 3"
  by (simp add: state_handlers_def)

lemma fresh_started:
  assumes "list_wf a c" "fresh i a c" "cb_list c = Some l" "c1 = (fire_start d l c)\<lparr>firingIndex := 3\<rparr>"
  shows "list_wf a c1 \<and> held d c1 \<and> firing c1"
  using assms
  by (auto simp: list_wf_def cb_ok_def fresh_def held_def fire_start_def nth_append list_all_length)

lemma fresh_disabled: "list_wf a c \<Longrightarrow> fresh i a c \<Longrightarrow> list_wf a (cb_disable c) \<and> shut (cb_disable c)"
  by (auto simp: list_wf_def cb_ok_def fresh_def cb_disable_def shut_def)

lemma plain_locked:
  "list_wf a c \<Longrightarrow> plain c \<Longrightarrow> list_wf a (cb_lock c) \<and> plain (cb_lock c) \<and> firing (cb_lock c) = firing c"
  by (auto simp: list_wf_def cb_ok_def cb_lock_def cb_disable_def plain_def Let_def)

lemma after_handlers_inv:
  assumes "w_inv S w" "i < length (w_defs w)" "a \<noteq> Notify" "d_state (w_defs w ! i) = Pending"
    "cb_list (get_list i a w) = Some l" "c = (fire_start d l (get_list i a w))\<lparr>firingIndex := 3\<rparr>"
  shows "w_inv (insert (i, a) S) (put_list i a c (after_handlers i a d w)) \<and> w_keeps w (put_list i a c (after_handlers i a d w))"
proof -
  define w1 where "w1 = put_list i a c (after_handlers i a d w)"
  have role: "list_role Pending i b (get_list i b w)" "firing (get_list i b w) = ((i, b) \<in> S)" for b
    using assms(1,2,4) by (auto simp: w_inv_def)
  have o: "other_action a \<noteq> a" "other_action a \<noteq> Notify" using assms(3) by (cases a; simp)+
  note h = after_handlers_lists [OF assms(2,3), where d = d]
  have g: "get_list i a w1 = c" "get_list i (other_action a) w1 = cb_disable (get_list i (other_action a) w)"
    "get_list i Notify w1 = cb_lock (get_list i Notify w)" "d_state (w_defs w1 ! i) = state_string a"
    "length (w_defs w1) = length (w_defs w)"
    using assms(2,3) h o by (auto simp: w1_def)
  have other: "w_defs w1 ! j = w_defs w ! j" "get_list j b w1 = get_list j b w" if "j \<noteq> i" for j b
    using that h(2) by (auto simp: w1_def put_list_def get_list_def)
  have "list_wf a c \<and> held d c \<and> firing c"
    using role [of a] assms(3,5,6) by (intro fresh_started [of a _ i l c d]) (auto simp: list_role_def)
  moreover have "list_wf (other_action a) (cb_disable (get_list i (other_action a) w)) \<and>
      shut (cb_disable (get_list i (other_action a) w)) \<and> (i, other_action a) \<notin> S"
    using role [of "other_action a"] o fresh_disabled by (auto simp: list_role_def fresh_def)
  moreover have "list_wf Notify (cb_lock (get_list i Notify w)) \<and> plain (cb_lock (get_list i Notify w)) \<and>
      firing (cb_lock (get_list i Notify w)) = ((i, Notify) \<in> S)"
    using role [of Notify] plain_locked by (auto simp: list_role_def)
  moreover have "state_string (other_action a) \<noteq> state_string a" using assms(3) by (cases a) simp_all
  ultimately have i: "list_role (state_string a) i b (get_list i b w1) \<and>
      firing (get_list i b w1) = ((i, b) \<in> insert (i, a) S)" for b
    using action_cases [OF assms(3), of b] g(1-3) o assms(3)
    by (elim disjE) (auto simp: list_role_def shut_def simp del: split_paired_Ex)
  have "w_inv (insert (i, a) S) w1"
    unfolding w_inv_def
  proof (intro conjI allI impI)
    fix j b assume "(j, b) \<in> insert (i, a) S"
    then show "j < length (w_defs w1)" using assms(1,2) g(5) by (auto simp: w_inv_def)
  next
    fix j b assume j: "j < length (w_defs w1)"
    show "list_role (d_state (w_defs w1 ! j)) j b (get_list j b w1)"
      using j i [of b] g(4,5) other [of j] assms(1) by (cases "j = i") (auto simp: w_inv_def)
    show "firing (get_list j b w1) = ((j, b) \<in> insert (i, a) S)"
      using j i [of b] g(5) other [of j] assms(1) by (cases "j = i") (auto simp: w_inv_def)
  qed
  moreover have "w_keeps w w1"
    using other g(5) assms(4) by (auto simp: w_keeps_def settled_as_def) (metis state_string_pending(2))+
  ultimately show ?thesis by (simp add: w1_def)
qed

section \<open>Every operation keeps the invariant\<close>

text \<open>The result, where there is one, keeps the invariant and the deferreds settled before.\<close>

definition result_ok :: "(nat \<times> action) set \<Rightarrow> ('f, 'a) dworld \<Rightarrow> ('f, 'a) dworld js \<Rightarrow> bool" where
  "result_ok S w r \<longleftrightarrow> keeps (\<lambda>_. True) (\<lambda>w1. w_inv S w1 \<and> w_keeps w w1) r"

lemma result_ok_simps [simp]: "result_ok S w (Inl e)" "result_ok S w (Inr w1) \<longleftrightarrow> w_inv S w1 \<and> w_keeps w w1"
  by (simp_all add: result_ok_def)

lemma result_ok_bind:
  "result_ok S w r \<Longrightarrow> (\<And>w1. w_inv S w1 \<Longrightarrow> w_keeps w w1 \<Longrightarrow> result_ok S w1 (k w1)) \<Longrightarrow> result_ok S w (js_bind r k)"
proof (cases r)
  case (Inr w1)
  assume r: "result_ok S w r" "\<And>w1. w_inv S w1 \<Longrightarrow> w_keeps w w1 \<Longrightarrow> result_ok S w1 (k w1)"
  then have w1: "w_inv S w1" "w_keeps w w1" by (simp_all add: Inr)
  have "result_ok S w1 (k w1)" using r(2) w1 by blast
  then show ?thesis using Inr w1 by (cases "k w1") (auto intro: w_keeps_trans)
qed simp

lemma result_ok_contract:
  assumes "keeps (\<lambda>_. True) (one_list w (S - {(i, a)}) i a ((i, a) \<in> S)) r"
  shows "result_ok S w r"
  using assms by (cases r) (auto simp: one_list_def insert_absorb split: if_splits)

lemma one_list_self:
  "w_inv S w \<Longrightarrow> i < length (w_defs w) \<Longrightarrow> one_list w (S - {(i, a)}) i a ((i, a) \<in> S) w"
  by (auto simp: one_list_def insert_absorb)

lemma add_ok:
  assumes "call_keeps call" "w_inv S w" "args_all ordinary as"
  shows "result_ok S w (add_to n call i a as w)"
proof (cases "i < length (w_defs w)")
  case True
  then show ?thesis
    using fired_list.add_inv [OF list_contract [OF assms(1)] one_list_self [OF assms(2) True] assms(3), where n = n]
    by (auto simp: add_to_def intro: result_ok_contract)
qed (simp add: add_to_def)

text \<open>The loop over a list that has not been fired: the handlers, then the functions of the users.\<close>

lemma settle_loop_ok:
  assumes "call_keeps (dcall m user)" "w_inv S w" "i < length (w_defs w)" "a \<noteq> Notify"
    "d_state (w_defs w ! i) = Pending" "cb_list (get_list i a w) = Some l"
  shows "keeps (\<lambda>_. True) (one_list w S i a True)
    (fire_loop n (dcall m user) (get_list i a) (put_list i a) d (put_list i a (fire_start d l (get_list i a w)) w))"
proof -
  let ?c = "fire_start d l (get_list i a w)"
  have fr: "fresh i a (get_list i a w)" "(i, a) \<notin> S"
    using w_invD [OF assms(2,3), of a] assms(4,5) by (auto simp: list_role_def fresh_def)
  obtain fs where l: "l = state_handlers i a @ fs" using fr(1) assms(6) by (auto simp: fresh_def)
  have c: "cb_list ?c = Some l" "firingLength ?c = int (length l)" "firingIndex ?c = int 0"
    using fr(1) assms(6) by (auto simp: fire_start_def fresh_def)
  show ?thesis
  proof (cases m)
    case 0
    have "0 < length l" by (simp add: l)
    then have "fire_loop n (dcall 0 user) (get_list i a) (put_list i a) d (put_list i a ?c w) = Inl Diverge"
      using c assms(3) by (cases n) (simp_all add: Let_def)
    then show ?thesis by (simp only: 0 keeps_simps)
  next
    case (Suc m1)
    show ?thesis
    proof (cases "n \<le> 3")
      case True
      then have "fire_loop n (dcall (Suc m1) user) (get_list i a) (put_list i a) d (put_list i a ?c w) = Inl Diverge"
        using assms(3,4) l by (intro handlers.loop_short [OF _ c]) (auto dest: in_set_takeD)
      then show ?thesis by (simp only: Suc keeps_simps)
    next
      case False
      then obtain k where n: "n = 3 + k" by (metis le_add_diff_inverse nat_le_linear)
      let ?w = "put_list i a (?c\<lparr>firingIndex := 3\<rparr>) (after_handlers i a d w)"
      have eq: "fire_loop n (dcall m user) (get_list i a) (put_list i a) d (put_list i a ?c w) =
          fire_loop k (dcall m user) (get_list i a) (put_list i a) d ?w"
        using handlers.loop_prefix [OF assms(3) c, where k = 3 and n = k and user = user and na = m1 and d = d and a = a] assms(4) l
        by (simp add: n Suc after_handlers_def del: dcall.simps)
      have w: "one_list w S i a True ?w" "0 \<le> firingIndex (get_list i a ?w)"
        using after_handlers_inv [OF assms(2-6) refl, of d] fr(2) assms(3,4) after_handlers_lists(6) [OF assms(3,4), of d]
        by (simp_all add: one_list_def)
      show ?thesis unfolding eq by (rule fired_list.loop_inv [OF list_contract [OF assms(1)] w])
    qed
  qed
qed

lemma settle_ok:
  assumes "call_keeps (dcall m user)" "w_inv S w" "i < length (w_defs w)" "a \<noteq> Notify"
    "d_state (w_defs w ! i) = Pending" "cb_list (get_list i a w) = Some l"
  shows "result_ok S w (cb_fire n (dcall m user) (get_list i a) (put_list i a) d w)"
proof (cases n)
  case (Suc n1)
  note contract = list_contract [OF assms(1), of i a w S]
  let ?fire = "cb_fire n1 (dcall m user) (get_list i a) (put_list i a)"
  have again: "keeps (\<lambda>_. True) (one_list w S i a False) (?fire d1 w1)"
    if "one_list w S i a False w1" "fired (get_list i a w1)" "can_start d1 (get_list i a w1)" for d1 w1
    by (rule fired_list.fire_inv [OF contract that(1) _ that(3)]) (simp add: w_startable_def that(2))
  have last: "keeps (\<lambda>_. True) (one_list w S i a False) (fire_end ?fire (get_list i a) (put_list i a) w1)"
    if "one_list w S i a True w1" for w1
    by (rule fired_list.end_inv [OF contract that again])
  have "keeps (\<lambda>_. True) (one_list w S i a False) (cb_fire n (dcall m user) (get_list i a) (put_list i a) d w)"
    unfolding Suc cb_fire.simps assms(6) option.case by (rule keeps_bind [OF settle_loop_ok [OF assms] last])
  then show ?thesis
    by (cases "cb_fire n (dcall m user) (get_list i a) (put_list i a) d w") (simp_all add: one_list_def)
qed simp

lemma act_ok:
  assumes "call_keeps (dcall m user)" "w_inv S w"
  shows "result_ok S w (act_with n (dcall m user) i a d w)"
proof (cases "i < length (w_defs w)")
  case True
  note role = w_invD [OF assms(2) True, of a]
  show ?thesis
  proof (cases "a \<noteq> Notify \<and> d_state (w_defs w ! i) = Pending")
    case True
    then have "fresh i a (get_list i a w)" using role by (simp add: list_role_def)
    then show ?thesis
      using settle_ok [OF assms \<open>i < length (w_defs w)\<close>, of a _ n d] True
      by (auto simp: act_with_def fireWith_def Let_def fresh_def)
  next
    case False
    then consider "cb_list (get_list i a w) = None" | "w_startable (get_list i a w)"
      using role by (auto simp: list_role_def list_wf_def w_startable_def held_def shut_def split: if_splits)
    then show ?thesis
    proof cases
      case 2
      have "keeps (\<lambda>_. True) (one_list w (S - {(i, a)}) i a ((i, a) \<in> S))
          (fireWith n (dcall m user) (get_list i a) (put_list i a) d w)"
        using 2 by (intro fired_list.fireWith_inv [OF list_contract [OF assms(1)] one_list_self [OF assms(2) True]])
      then show ?thesis using True by (auto simp: act_with_def intro: result_ok_contract)
    qed (use True assms(2) in \<open>simp add: act_with_def fireWith_def\<close>)
  qed
qed (simp add: act_with_def)

lemma alloc_ok:
  fixes w :: "('f, 'a) dworld"
  assumes w: "w_inv S w"
  shows "w_inv S (alloc w) \<and> w_keeps w (alloc w)"
proof -
  have old: "w_defs (alloc w) ! i = w_defs w ! i" "get_list i a (alloc w) = get_list i a w"
    if "i < length (w_defs w)" for i a
    using that by (simp_all add: alloc_def get_list_def nth_append)
  have new: "w_defs (alloc w) ! length (w_defs w) = new_deferred (length (w_defs w))"
    "length (w_defs (alloc w)) = Suc (length (w_defs w))" by (simp_all add: alloc_def)
  have role: "list_role Pending i a (dlist a (new_deferred i :: ('f, 'a) deferred))"
    "\<not> firing (dlist a (new_deferred i :: ('f, 'a) deferred))" for i a
    by (cases a; simp add: list_role_def list_wf_def cb_ok_def fresh_def plain_def dlist_def new_deferred_def settle_list_def
        callbacks_def options_settle options_progress state_handlers_def inArray_def)+
  have "list_role (d_state (w_defs (alloc w) ! i)) i a (get_list i a (alloc w)) \<and>
      firing (get_list i a (alloc w)) = ((i, a) \<in> S)" if "i < Suc (length (w_defs w))" for i a
  proof (cases "i = length (w_defs w)")
    case True
    then have "(i, a) \<notin> S" using w by (auto simp: w_inv_def)
    then show ?thesis using True new role by (simp add: get_list_def) (simp add: new_deferred_def)
  next
    case False
    then show ?thesis using that old [of i] w_invD [OF w, of i a] by simp
  qed
  then show ?thesis using w new(2) old by (auto simp: w_inv_def w_keeps_def settled_as_def less_SucI)
qed

lemma same_defs_ok: "w_inv S w \<Longrightarrow> w_defs w1 = w_defs w \<Longrightarrow> w_inv S w1 \<and> w_keeps w w1"
  using w_keeps_defs by blast

lemma result_ok_defs: "result_ok S w1 r \<Longrightarrow> w_defs w1 = w_defs w \<Longrightarrow> result_ok S w r"
  by (cases r) (auto intro: w_keeps_trans dest: w_keeps_defs)

lemma result_ok_after: "w_keeps w w1 \<Longrightarrow> result_ok S w1 r \<Longrightarrow> result_ok S w r"
  by (cases r) (auto intro: w_keeps_trans)

lemma set_when_defs [simp]: "w_defs (set_when k c w) = w_defs w"
  by (simp add: set_when_def)

lemma public_ordinary: "args_all ordinary (public_args (as :: 'f ufn arg list))"
  unfolding public_args_def
  by (induction "\<lambda>_ :: 'f ufn. True" as rule: args_all.induct) simp_all

text \<open>One call deeper: the calls of \<open>dcall m user\<close> keep the invariant, and so does all that uses
  them.\<close>

locale kept_calls =
  fixes m :: nat and user :: "('f, 'a) user"
  assumes deeper: "call_keeps (dcall m user)"
begin

lemma method_ok: "w_inv S w \<Longrightarrow> result_ok S w (act_method n (dcall m user) i a d w)"
  by (simp add: act_method_def act_ok [OF deeper])

lemma add_fn_ok: "w_inv S w \<Longrightarrow> ordinary f \<Longrightarrow> result_ok S w (add_to n (dcall m user) i a [Fn f] w)"
  by (simp add: add_ok [OF deeper])

lemma then_ok: "w_inv S w \<Longrightarrow> result_ok S w (add_then n (dcall m user) i fd ff fp w)"
  unfolding add_then_def Let_def using alloc_ok [of S w]
  by (auto intro!: result_ok_after [of w "alloc w"] result_ok_bind add_fn_ok)

lemma forward_ok: "w_inv S w \<Longrightarrow> result_ok S w (forward_result n (dcall m user) i a j d r w)"
  by (auto simp: forward_result_def method_fn_def intro!: result_ok_bind add_fn_ok act_ok [OF deeper] split: option.split)

lemma update_ok:
  assumes "w_inv S w"
  shows "result_ok S w (update_when n (dcall m user) k i p d w)"
proof -
  have set: "w_inv S (set_when k c w) \<and> w_keeps w (set_when k c w)" for c
    using same_defs_ok [OF assms, of "set_when k c w"] by simp
  then have "result_ok S w (act_with n (dcall m user) j b e (set_when k c w))" for j b e c
    using result_ok_after act_ok [OF deeper] by blast
  then show ?thesis using set by (simp add: update_when_def Let_def)
qed

lemma when_loop_ok: "w_inv S w \<Longrightarrow> result_ok S w (when_loop n (dcall m user) k i vs w)"
proof (induction n "dcall m user" k i vs w rule: when_loop.induct)
  case (2 n k i v vs w)
  have set: "w_inv S (set_when k c w) \<and> w_keeps w (set_when k c w)" for c
    using same_defs_ok [OF 2(2), of "set_when k c w"] by simp
  then have "result_ok S w (when_loop n (dcall m user) k (Suc i) vs (set_when k c w))" for c
    using result_ok_after [of w "set_when k c w"] 2(1) by blast
  then show ?case
    using set 2 by (auto simp: Let_def method_fn_def intro!: result_ok_bind add_fn_ok split: option.split)
qed simp

lemma when_ok: "w_inv S w \<Longrightarrow> result_ok S w (run_when n (dcall m user) vs w)"
proof -
  assume w: "w_inv S w"
  have al: "w_inv S ((alloc w)\<lparr>w_whens := x\<rparr>)" "w_keeps w ((alloc w)\<lparr>w_whens := x\<rparr>)" for x
    using alloc_ok [OF w] same_defs_ok [of S "alloc w" "(alloc w)\<lparr>w_whens := x\<rparr>"] w_keeps_trans by auto
  show ?thesis
    unfolding run_when_def Let_def using w al
    by (auto intro!: result_ok_bind result_ok_after [OF al(2)] when_loop_ok act_ok [OF deeper])
qed

lemma dop_ok: "w_inv S w \<Longrightarrow> result_ok S w (run_dop n (dcall m user) p w)"
  using alloc_ok [of S w] public_ordinary
  by (cases p) (auto intro!: result_ok_bind add_ok [OF deeper] method_ok act_ok [OF deeper] then_ok when_ok)

lemma dops_ok: "w_inv S w \<Longrightarrow> result_ok S w (run_dops n (dcall m user) ps w)"
  by (induction ps arbitrary: w) (auto intro!: result_ok_bind dop_ok)

end

lemma call_public_ok:
  assumes "kept_calls m user" "w_inv S w" "call_public n (dcall m user) user f d w = Inr (w1, v)"
  shows "w_inv S w1 \<and> w_keeps w w1"
proof (cases f)
  case (UserFn g)
  obtain ps u where b: "user (w_log w) (length (w_defs w)) g d = (ps, u)"
    by (cases "user (w_log w) (length (w_defs w)) g d") simp
  let ?w = "w\<lparr>w_log := w_log w @ [(g, d)]\<rparr>"
  have "w_inv S ?w" using same_defs_ok [OF assms(2), of ?w] by simp
  then have "result_ok S w (run_dops n (dcall m user) ps ?w)"
    by (rule result_ok_defs [OF kept_calls.dops_ok [OF assms(1)]]) simp
  moreover have "run_dops n (dcall m user) ps ?w = Inr w1"
    using assms(3) unfolding UserFn call_public.simps b prod.case js_bind_eq_Inr by auto
  ultimately show ?thesis by simp
next
  case (Method i a)
  then have "act_method n (dcall m user) i a d w = Inr w1" using assms(3) by (simp add: js_bind_eq_Inr)
  then show ?thesis using kept_calls.method_ok [OF assms(1,2), of n i a d] by simp
qed

lemma call_fn_ok:
  assumes "kept_calls m user" "w_inv S w" "ordinary f"
  shows "result_ok S w (call_fn n (dcall m user) user f d w)"
proof (cases f)
  case (Public g)
  then show ?thesis
    using call_public_ok [OF assms(1,2), of n g d] by (cases "call_public n (dcall m user) user g d w") auto
next
  case (Forward i a g j)
  show ?thesis
  proof (cases g)
    case (Some h)
    then show ?thesis
      using Forward call_public_ok [OF assms(1,2), of n h d] kept_calls.forward_ok [OF assms(1)] result_ok_after
      by (cases "call_public n (dcall m user) user h d w") fastforce+
  qed (use Forward kept_calls.forward_ok [OF assms(1,2)] in simp)
qed (use assms(3) kept_calls.update_ok [OF assms(1,2)] in auto)

text \<open>Calls of any depth keep the invariant.\<close>

lemma dcall_keeps: "call_keeps (dcall n user)"
proof (induction n)
  case (Suc n)
  then have "kept_calls n user" by unfold_locales
  then have "result_ok S w (call_fn n (dcall n user) user f d w)" if "w_inv S w" "ordinary f" for S w f d
    using call_fn_ok that by blast
  note ok = this
  show ?case
    unfolding call_keeps_def
  proof (intro allI impI)
    fix S w f d w1 r
    assume a: "w_inv S w" "ordinary f" "dcall (Suc n) user f d w = Inr (w1, r)"
    from a(3) have "call_fn n (dcall n user) user f d w = Inr w1" by (auto simp: js_bind_eq_Inr)
    then show "w_inv S w1 \<and> w_keeps w w1" using ok [OF a(1,2), of d] by simp
  qed
qed (simp add: call_keeps_def)

interpretation kept: kept_calls m user for m user
  by unfold_locales (rule dcall_keeps)

interpretation contract: fired_list "dcall n user" "get_list i a" "put_list i a" "one_list w0 S i a" ordinary
  w_startable "\<lambda>_. True" for n user i a w0 S
  by (rule list_contract [OF dcall_keeps])

lemma run_ok: "w_inv {} w \<Longrightarrow> d_run n user ps w = Inr w1 \<Longrightarrow> w_inv {} w1 \<and> w_keeps w w1"
  using kept.dops_ok [of "{}" w n n user ps] by (simp add: d_run_def)

lemma world_inv: "w_inv {} d_world"
  by (simp add: w_inv_def d_world_def)

text \<open> A deferred settles once and for all: once it is resolved or rejected, its state and its value
  never change again, its other list stays disabled and the list of its state holds the value, which
  every function added later is called with, whatever any function does and whatever operations
  follow.\<close>

theorem settled_once:
  assumes "d_run n user ps d_world = Inr w" "d_run k user qs w = Inr w1"
    "i < length (w_defs w)" "a \<noteq> Notify" "d_state (w_defs w ! i) = state_string a"
  shows "d_state (w_defs w1 ! i) = state_string a \<and>
    (\<exists>v. memory (get_list i a w) = Some v \<and> memory (get_list i a w1) = Some v) \<and>
    cb_list (get_list i (other_action a) w1) = None \<and> cb_list (get_list i a w1) \<noteq> None"
proof -
  have w: "w_inv {} w" "w_inv {} w1" "w_keeps w w1"
    using run_ok [OF world_inv assms(1)] run_ok [OF _ assms(2)] by auto
  obtain v where v: "memory (get_list i a w) = Some v"
    using w_invD(1) [OF w(1) assms(3), of a] assms(4,5) by (auto simp: list_role_def held_def)
  then have "settled_as w i a v" using assms(3-5) by (simp add: settled_as_def)
  then have s: "settled_as w1 i a v" using w(3) unfolding w_keeps_def by blast
  then have "i < length (w_defs w1)" by (simp add: settled_as_def)
  then have role: "list_role (state_string a) i b (get_list i b w1)" for b
    using w_invD(1) [OF w(2), of i b] s by (simp add: settled_as_def)
  then have "(\<exists>v. held v (get_list i a w1)) \<and> shut (get_list i (other_action a) w1)"
    using assms(4) role [of a] role [of "other_action a"] unfolding list_role_def
    by (cases a) (simp_all only: other_action.simps state_string.simps action.distinct dstate.distinct if_True if_False simp_thms)
  then show ?thesis using s v by (auto simp: settled_as_def held_def shut_def)
qed

text \<open>A function that tries to settle the deferred again while it is being settled, and adds others.\<close>

definition busy :: "(nat, int) user" where
  "busy calls k f d =
     (if f = 1 then ([DAct 0 Reject [Atom 9], DAct 0 Resolve [Atom 8], DAdd 0 Resolve [Fn (UserFn 2)],
        DThen 0 None None None], Undefined)
      else ([], Undefined))"

definition first_world :: "(nat, int) dworld" where
  "first_world = projr (d_run 20 busy [DNew, DAdd 0 Resolve [Fn (UserFn 1)], DAct 0 Resolve [Atom 5]] d_world)"

definition second_world :: "(nat, int) dworld" where
  "second_world = projr (d_run 20 busy [DAct 0 Reject [Atom 7], DAct 0 Resolve [Atom 6],
     DAdd 0 Resolve [Fn (UserFn 3)]] first_world)"

theorem settled_once_witness:
  "d_state (w_defs second_world ! 0) = Resolved \<and> memory (get_list 0 Resolve second_world) = Some (PromiseObj 0, [Atom 5]) \<and>
   cb_list (get_list 0 Reject second_world) = None \<and>
   w_log second_world = [(1, PromiseObj 0, [Atom 5]), (2, PromiseObj 0, [Atom 5]), (3, PromiseObj 0, [Atom 5])]"
proof -
  have r: "d_run 20 busy [DNew, DAdd 0 Resolve [Fn (UserFn 1)], DAct 0 Resolve [Atom 5]] d_world = Inr first_world"
    "d_run 20 busy [DAct 0 Reject [Atom 7], DAct 0 Resolve [Atom 6], DAdd 0 Resolve [Fn (UserFn 3)]] first_world =
      Inr second_world"
    by code_simp+
  have "0 < length (w_defs first_world)" "d_state (w_defs first_world ! 0) = state_string Resolve"
    "memory (get_list 0 Resolve first_world) = Some (PromiseObj 0, [Atom 5])"
    "w_log second_world = [(1, PromiseObj 0, [Atom 5]), (2, PromiseObj 0, [Atom 5]), (3, PromiseObj 0, [Atom 5])]"
    by code_simp+
  then show ?thesis using settled_once [OF r, of 0 Resolve] by auto
qed

end
