(* ===== verification/JQ_Queue.thy ===== *)
theory JQ_Queue
  imports JQ_Callbacks
begin

text \<open>
  The queues of jQuery (\<open>queue\<close>, \<open>dequeue\<close>, \<open>delay\<close>, \<open>clearQueue\<close>, \<open>promise\<close>, jquery.js). An element
  has a queue of functions for each type; the functions of the type \<open>fx\<close> are called one after the
  other, the next one when the function called asks for it, and a sentinel marks the queue as in
  progress. When a queue runs empty, its hooks fire a callback list that removes the data and
  counts down the promises. A key is an element with a type. What a function does when it is called
  is a parameter: the operations it performs; it may also ask for the next one later.
\<close>

section \<open>The data\<close>

type_synonym key = "nat \<times> string"

datatype 'f qitem = InProgress | QFn 'f | QDelay nat

text \<open>The functions in the callback list \<open>empty\<close> of the hooks.\<close>

datatype hook_fn = RemoveData key | ResolveOne nat

record hooks =
  h_empty :: "(hook_fn, unit) cb"
  h_stop :: "nat option"

record count_down =
  pr_count :: int
  pr_resolved :: bool

text \<open>What happens to a queue: something is queued, called, or asks for the next.\<close>

datatype 'f qevent = Queued key "'f qitem" | Started key "'f qitem" | Asked key

record 'f qworld =
  q_queue :: "key \<Rightarrow> 'f qitem list option"
  q_hooks :: "key \<Rightarrow> nat option"
  q_objs :: "hooks list"
  q_timers :: "(nat \<times> key) list"
  q_timer_id :: nat
  q_proms :: "count_down list"
  q_log :: "'f qevent list"

definition log_event :: "'f qevent \<Rightarrow> 'f qworld \<Rightarrow> 'f qworld" where
  "log_event v w = w\<lparr>q_log := q_log w @ [v]\<rparr>"

definition set_queue :: "key \<Rightarrow> 'f qitem list option \<Rightarrow> 'f qworld \<Rightarrow> 'f qworld" where
  "set_queue k q w = w\<lparr>q_queue := (q_queue w)(k := q)\<rparr>"

definition get_queue :: "key \<Rightarrow> 'f qworld \<Rightarrow> 'f qitem list" where
  "get_queue k w = (case q_queue w k of None \<Rightarrow> [] | Some q \<Rightarrow> q)"

section \<open>The hooks\<close>

definition get_empty :: "nat \<Rightarrow> 'f qworld \<Rightarrow> (hook_fn, unit) cb" where
  "get_empty j w = h_empty (q_objs w ! j)"

definition put_empty :: "nat \<Rightarrow> (hook_fn, unit) cb \<Rightarrow> 'f qworld \<Rightarrow> 'f qworld" where
  "put_empty j c w = w\<lparr>q_objs := (q_objs w)[j := (q_objs w ! j)\<lparr>h_empty := c\<rparr>]\<rparr>"

definition set_stop :: "nat \<Rightarrow> nat option \<Rightarrow> 'f qworld \<Rightarrow> 'f qworld" where
  "set_stop j t w = w\<lparr>q_objs := (q_objs w)[j := (q_objs w ! j)\<lparr>h_stop := t\<rparr>]\<rparr>"

definition new_hooks :: "key \<Rightarrow> hooks" where
  "new_hooks k = \<lparr>h_empty = (callbacks (createOptions ''once memory''))\<lparr>cb_list := Some (add_args False [Fn (RemoveData k)] [])\<rparr>,
     h_stop = None\<rparr>"

text \<open>\<open>_queueHooks\<close>: the hooks there are, or new ones.\<close>

definition queueHooks :: "key \<Rightarrow> 'f qworld \<Rightarrow> nat \<times> 'f qworld" where
  "queueHooks k w =
     (case q_hooks w k of Some j \<Rightarrow> (j, w)
      | None \<Rightarrow> (length (q_objs w),
          w\<lparr>q_objs := q_objs w @ [new_hooks k], q_hooks := (q_hooks w)(k := Some (length (q_objs w)))\<rparr>))"

text \<open>\<open>resolve\<close> of \<open>promise\<close>.\<close>

definition resolve_one :: "nat \<Rightarrow> 'f qworld \<Rightarrow> 'f qworld" where
  "resolve_one p w =
     (let c = q_proms w ! p; n = pr_count c - 1 in
      w\<lparr>q_proms := (q_proms w)[p := \<lparr>pr_count = n, pr_resolved = (pr_resolved c \<or> n = 0)\<rparr>]\<rparr>)"

fun hook_effect :: "hook_fn \<Rightarrow> unit \<Rightarrow> 'f qworld \<Rightarrow> 'f qworld" where
  "hook_effect (RemoveData k) d w = w\<lparr>q_queue := (q_queue w)(k := None), q_hooks := (q_hooks w)(k := None)\<rparr>"
| "hook_effect (ResolveOne p) d w = resolve_one p w"

definition hook_call :: "(hook_fn, unit, 'f qworld) caller" where
  "hook_call f d w = Inr (hook_effect f d w, False)"

text \<open>The functions of the hooks call no others, so that the length of the list is enough fuel.\<close>

definition hook_fuel :: "nat \<Rightarrow> 'f qworld \<Rightarrow> nat" where
  "hook_fuel j w = list_length (get_empty j w) + 4"

definition fire_empty :: "nat \<Rightarrow> 'f qworld \<Rightarrow> 'f qworld js" where
  "fire_empty j w = fireWith (hook_fuel j w) hook_call (get_empty j) (put_empty j) () w"

section \<open>\<open>dequeue\<close>\<close>

text \<open>\<open>queue.shift ()\<close>, on the array that is kept.\<close>

definition shift_queue :: "key \<Rightarrow> 'f qworld \<Rightarrow> 'f qitem option \<times> 'f qworld" where
  "shift_queue k w =
     (case q_queue w k of Some (x # q) \<Rightarrow> (Some x, set_queue k (Some q) w) | _ \<Rightarrow> (None, w))"

type_synonym 'f qrun = "'f qitem \<Rightarrow> key \<Rightarrow> nat \<Rightarrow> 'f qworld \<Rightarrow> 'f qworld js"

definition dequeue_with :: "'f qrun \<Rightarrow> key \<Rightarrow> 'f qworld \<Rightarrow> 'f qworld js" where
  "dequeue_with call k w =
     (let n0 = length (get_queue k w); (x0, w0) = shift_queue k w; (j, w1) = queueHooks k w0;
          (n, x, w2) = (if x0 = Some InProgress then let (x1, w1') = shift_queue k w1 in (n0 - 1, x1, w1') else (n0, x0, w1))
      in js_bind (case x of None \<Rightarrow> Inr w2
           | Some f \<Rightarrow>
             let w3 = (if snd k = ''fx'' then set_queue k (Some (InProgress # get_queue k w2)) w2 else w2)
             in call f k j (log_event (Started k f) (set_stop j None w3)))
         (\<lambda>w4. if n = 0 then fire_empty j w4 else Inr w4))"

section \<open>The operations\<close>

datatype 'f qop = Enqueue key "'f qitem" | Next key | ClearQueue key | Promise "nat list" string | StopHook key

definition add_item :: "key \<Rightarrow> 'f qitem \<Rightarrow> 'f qworld \<Rightarrow> 'f qworld" where
  "add_item k x w = log_event (Queued k x) (set_queue k (Some (get_queue k w @ [x])) w)"

text \<open>What follows the change of a queue: hooks, and the first function of an idle \<open>fx\<close> queue.\<close>

definition after_queue :: "('f qworld \<Rightarrow> 'f qworld js) \<Rightarrow> key \<Rightarrow> 'f qworld \<Rightarrow> 'f qworld js" where
  "after_queue deq k w =
     (let (j, w1) = queueHooks k w in
      if snd k = ''fx'' \<and> (get_queue k w1 = [] \<or> hd (get_queue k w1) \<noteq> InProgress) then deq w1 else Inr w1)"

definition begin_promise :: "'f qworld \<Rightarrow> 'f qworld" where
  "begin_promise w = w\<lparr>q_proms := q_proms w @ [\<lparr>pr_count = 1, pr_resolved = False\<rparr>]\<rparr>"

primrec promise_loop :: "nat \<Rightarrow> string \<Rightarrow> nat list \<Rightarrow> 'f qworld \<Rightarrow> 'f qworld js" where
  "promise_loop p ty [] w = Inr w"
| "promise_loop p ty (e # es) w =
     js_bind (case q_hooks w (e, ty) of None \<Rightarrow> Inr w
         | Some j \<Rightarrow>
           cb_add (hook_fuel j w) hook_call (get_empty j) (put_empty j) [Fn (ResolveOne p)]
             (w\<lparr>q_proms := (q_proms w)[p := (q_proms w ! p)\<lparr>pr_count := pr_count (q_proms w ! p) + 1\<rparr>]\<rparr>))
       (promise_loop p ty es)"

definition run_promise :: "nat list \<Rightarrow> string \<Rightarrow> 'f qworld \<Rightarrow> 'f qworld js" where
  "run_promise es ty w =
     js_bind (promise_loop (length (q_proms w)) ty (rev es) (begin_promise w))
       (\<lambda>w1. Inr (resolve_one (length (q_proms w)) w1))"

definition clear_timer :: "nat \<Rightarrow> 'f qworld \<Rightarrow> 'f qworld" where
  "clear_timer t w = w\<lparr>q_timers := filter (\<lambda>(i, _). i \<noteq> t) (q_timers w)\<rparr>"

fun run_qop :: "'f qrun \<Rightarrow> 'f qop \<Rightarrow> 'f qworld \<Rightarrow> 'f qworld js" where
  "run_qop call (Enqueue k x) w = after_queue (dequeue_with call k) k (add_item k x w)"
| "run_qop call (Next k) w = dequeue_with call k (log_event (Asked k) w)"
| "run_qop call (ClearQueue k) w = after_queue (dequeue_with call k) k (set_queue k (Some []) w)"
| "run_qop call (Promise es ty) w = run_promise es ty w"
| "run_qop call (StopHook k) w =
     (case q_hooks w k of None \<Rightarrow> Inr w
      | Some j \<Rightarrow> (case h_stop (q_objs w ! j) of None \<Rightarrow> Inr w | Some t \<Rightarrow> Inr (clear_timer t w)))"

primrec run_qops :: "'f qrun \<Rightarrow> 'f qop list \<Rightarrow> 'f qworld \<Rightarrow> 'f qworld js" where
  "run_qops call [] w = Inr w"
| "run_qops call (p # ps) w = js_bind (run_qop call p w) (run_qops call ps)"

section \<open>Calls\<close>

text \<open>A function of the user performs its operations; the function of \<open>delay\<close> starts a timer and
  makes it the hook that stops it. The sentinel is not a function.\<close>

definition start_timer :: "key \<Rightarrow> nat \<Rightarrow> 'f qworld \<Rightarrow> 'f qworld" where
  "start_timer k j w = set_stop j (Some (q_timer_id w))
     (w\<lparr>q_timers := q_timers w @ [(q_timer_id w, k)], q_timer_id := Suc (q_timer_id w)\<rparr>)"

primrec qcall :: "nat \<Rightarrow> ('f qevent list \<Rightarrow> key \<Rightarrow> 'f \<Rightarrow> 'f qop list) \<Rightarrow> 'f qrun" where
  "qcall 0 user x k j w = Inl Diverge"
| "qcall (Suc n) user x k j w =
     (case x of InProgress \<Rightarrow> Inl (Throw ''TypeError'')
      | QDelay t \<Rightarrow> Inr (start_timer k j w)
      | QFn f \<Rightarrow> run_qops (qcall n user) (user (q_log w) k f) w)"

text \<open>What happens from outside: operations, and timers that run out.\<close>

datatype 'f qstep = Do "'f qop" | Timeout nat

definition run_step :: "nat \<Rightarrow> ('f qevent list \<Rightarrow> key \<Rightarrow> 'f \<Rightarrow> 'f qop list) \<Rightarrow> 'f qstep \<Rightarrow> 'f qworld \<Rightarrow> 'f qworld js" where
  "run_step n user s w =
     (case s of Do p \<Rightarrow> run_qop (qcall n user) p w
      | Timeout t \<Rightarrow> (case map_of (q_timers w) t of None \<Rightarrow> Inr w
          | Some k \<Rightarrow> run_qop (qcall n user) (Next k) (clear_timer t w)))"

primrec run_steps :: "nat \<Rightarrow> ('f qevent list \<Rightarrow> key \<Rightarrow> 'f \<Rightarrow> 'f qop list) \<Rightarrow> 'f qstep list \<Rightarrow> 'f qworld \<Rightarrow> 'f qworld js" where
  "run_steps n user [] w = Inr w"
| "run_steps n user (s # ss) w = js_bind (run_step n user s w) (run_steps n user ss)"

definition no_queues :: "'f qworld" where
  "no_queues = \<lparr>q_queue = (\<lambda>_. None), q_hooks = (\<lambda>_. None), q_objs = [], q_timers = [], q_timer_id = 0, q_proms = [], q_log = []\<rparr>"

end
