(* ===== verification/JQ_QueueProps.thy ===== *)
theory JQ_QueueProps
  imports JQ_Queue JQ_CallbacksProps
begin

text \<open>
  The queues keep their order whatever their functions do: they are called in the order they were
  queued, each once, an \<open>fx\<close> queue never has functions waiting while none is in progress, and
  never calls the next one unasked. A promise is resolved exactly when the queues it waits for are
  gone, and they go when they are asked often enough. The contract of the functions called is a locale.
\<close>

section \<open>Observations\<close>

definition started :: "key \<Rightarrow> 'f qevent list \<Rightarrow> 'f qitem list" where
  "started k l = concat (map (\<lambda>v. case v of Started k' x \<Rightarrow> if k' = k then [x] else [] | _ \<Rightarrow> []) l)"

definition queued :: "key \<Rightarrow> 'f qevent list \<Rightarrow> 'f qitem list" where
  "queued k l = concat (map (\<lambda>v. case v of Queued k' x \<Rightarrow> if k' = k then [x] else [] | _ \<Rightarrow> []) l)"

definition asked :: "key \<Rightarrow> 'f qevent list \<Rightarrow> nat" where
  "asked k l = length (filter (\<lambda>v. v = Asked k) l)"

definition waiting :: "key \<Rightarrow> 'f qworld \<Rightarrow> 'f qitem list" where
  "waiting k w = filter (\<lambda>x. x \<noteq> InProgress) (get_queue k w)"

definition in_progress :: "key \<Rightarrow> 'f qworld \<Rightarrow> bool" where
  "in_progress k w \<longleftrightarrow> get_queue k w \<noteq> [] \<and> hd (get_queue k w) = InProgress"

lemma log_snoc [simp]:
  "started k (l @ [v]) = started k l @ (case v of Started k' x \<Rightarrow> if k' = k then [x] else [] | _ \<Rightarrow> [])"
  "queued k (l @ [v]) = queued k l @ (case v of Queued k' x \<Rightarrow> if k' = k then [x] else [] | _ \<Rightarrow> [])"
  "asked k (l @ [v]) = asked k l + (if v = Asked k then 1 else 0)"
  by (simp_all add: started_def queued_def asked_def)

section \<open>The invariant\<close>

text \<open>One queue: the sentinel stands in front only, in \<open>fx\<close> queues only, and nothing waits there without it.\<close>

definition shape :: "key \<Rightarrow> 'f qitem list \<Rightarrow> bool" where
  "shape k q \<longleftrightarrow> InProgress \<notin> set (tl q) \<and> (q \<noteq> [] \<longrightarrow> hd q = InProgress \<longrightarrow> snd k = ''fx'')"

definition busy :: "key \<Rightarrow> 'f qitem list \<Rightarrow> bool" where
  "busy k q \<longleftrightarrow> (snd k = ''fx'' \<longrightarrow> q = [] \<or> hd q = InProgress)"

definition log_ok :: "key \<Rightarrow> 'f qworld \<Rightarrow> bool" where
  "log_ok k w \<longleftrightarrow> started k (q_log w) @ waiting k w = queued k (q_log w) \<and>
     (snd k = ''fx'' \<longrightarrow> length (started k (q_log w)) \<le> asked k (q_log w) + (if in_progress k w then 1 else 0))"

text \<open>The hooks: those of a key are live and remove its data; the others have fired and are empty.\<close>

definition live :: "key \<Rightarrow> nat list \<Rightarrow> (hook_fn, unit) cb" where
  "live k ps = (callbacks (createOptions ''once memory''))\<lparr>cb_list := Some (RemoveData k # map ResolveOne ps)\<rparr>"

definition hook_list :: "hooks \<Rightarrow> hook_fn list" where
  "hook_list h = (case cb_list (h_empty h) of None \<Rightarrow> [] | Some l \<Rightarrow> l)"

definition hooks_ok :: "'f qworld \<Rightarrow> bool" where
  "hooks_ok w \<longleftrightarrow>
     (\<forall>k j. q_hooks w k = Some j \<longrightarrow> j < length (q_objs w) \<and> (\<exists>ps. h_empty (q_objs w ! j) = live k ps \<and> (\<forall>p \<in> set ps. p < length (q_proms w)))) \<and>
     (\<forall>j < length (q_objs w). (\<exists>k. q_hooks w k = Some j) \<or> hook_list (q_objs w ! j) = [])"

text \<open>How often a promise is waited for.\<close>

definition pending_hooks :: "nat \<Rightarrow> 'f qworld \<Rightarrow> nat" where
  "pending_hooks p w = sum_list (map (\<lambda>h. count_list (hook_list h) (ResolveOne p)) (q_objs w))"

text \<open>The queues a promise waits for: it is among the functions their hooks call.\<close>

definition waits_for :: "nat \<Rightarrow> 'f qworld \<Rightarrow> key set" where
  "waits_for p w = {k. \<exists>j. q_hooks w k = Some j \<and> ResolveOne p \<in> set (hook_list (q_objs w ! j))}"

definition proms_ok :: "'f qworld \<Rightarrow> bool" where
  "proms_ok w \<longleftrightarrow> (\<forall>p < length (q_proms w). pr_count (q_proms w ! p) = int (pending_hooks p w) \<and>
     (pr_resolved (q_proms w ! p) \<longleftrightarrow> pending_hooks p w = 0))"

definition qinv :: "'f qworld \<Rightarrow> bool" where
  "qinv w \<longleftrightarrow> (\<forall>k. shape k (get_queue k w) \<and> busy k (get_queue k w) \<and> log_ok k w \<and> (q_queue w k = None \<longleftrightarrow> q_hooks w k = None)) \<and>
     hooks_ok w \<and> proms_ok w"

section \<open>Firing the hooks\<close>

interpretation hook: passive_list hook_call "get_empty j" "put_empty j" "\<lambda>w. j < length (q_objs w)" hook_effect UNIV for j
proof
  fix f :: hook_fn and d :: unit and w :: "'f qworld" and c
  show "j < length (q_objs w) \<Longrightarrow> hook_effect f d (put_empty j c w) = put_empty j c (hook_effect f d w)"
    by (cases f) (simp_all add: put_empty_def resolve_one_def Let_def)
  show "j < length (q_objs w) \<Longrightarrow> j < length (q_objs (hook_effect f d w))"
    "j < length (q_objs w) \<Longrightarrow> get_empty j (hook_effect f d w) = get_empty j w"
    by (cases f; simp add: get_empty_def resolve_one_def Let_def)+
  show "put_empty j c (put_empty j c1 w) = put_empty j c w" for c1
    by (cases "j < length (q_objs w)") (simp_all add: put_empty_def list_update_beyond not_less)
qed (simp_all add: get_empty_def put_empty_def hook_call_def)

lemma options_once: "createOptions ''once memory'' = \<lparr>once = True, memory_opt = True, unique = False, stopOnFalse = False\<rparr>"
  by code_simp

definition spent :: "nat \<Rightarrow> (hook_fn, unit) cb" where
  "spent n = (callbacks (createOptions ''once memory''))\<lparr>memory := Some (), fired := True, cb_list := Some [],
     firingLength := int n, firingIndex := int n\<rparr>"

text \<open>The effects of a list of resolutions.\<close>

definition resolve_all :: "nat list \<Rightarrow> 'f qworld \<Rightarrow> 'f qworld" where
  "resolve_all ps w = fold (\<lambda>f. hook_effect f ()) (map ResolveOne ps) w"

lemma resolve_all_simps [simp]: "resolve_all [] w = w" "resolve_all (p # ps) w = resolve_all ps (resolve_one p w)"
  by (simp_all add: resolve_all_def)

lemma resolve_one_fields [simp]:
  "q_queue (resolve_one p w) = q_queue w" "q_hooks (resolve_one p w) = q_hooks w" "q_objs (resolve_one p w) = q_objs w"
  "q_timers (resolve_one p w) = q_timers w" "q_timer_id (resolve_one p w) = q_timer_id w" "q_log (resolve_one p w) = q_log w"
  "length (q_proms (resolve_one p w)) = length (q_proms w)"
  by (simp_all add: resolve_one_def Let_def)

lemma resolve_all_fields [simp]:
  "q_queue (resolve_all ps w) = q_queue w" "q_hooks (resolve_all ps w) = q_hooks w" "q_objs (resolve_all ps w) = q_objs w"
  "q_timers (resolve_all ps w) = q_timers w" "q_timer_id (resolve_all ps w) = q_timer_id w" "q_log (resolve_all ps w) = q_log w"
  "length (q_proms (resolve_all ps w)) = length (q_proms w)"
  by (induction ps arbitrary: w) simp_all

lemma resolve_one_nth:
  "p < length (q_proms w) \<Longrightarrow> q_proms (resolve_one q w) ! p =
    (if p = q then \<lparr>pr_count = pr_count (q_proms w ! p) - 1,
      pr_resolved = (pr_resolved (q_proms w ! p) \<or> pr_count (q_proms w ! p) = 1)\<rparr> else q_proms w ! p)"
  by (simp add: resolve_one_def Let_def nth_list_update)

lemma resolve_all_count:
  "p < length (q_proms w) \<Longrightarrow> int (count_list ps p) \<le> pr_count (q_proms w ! p) \<Longrightarrow>
    pr_count (q_proms (resolve_all ps w) ! p) = pr_count (q_proms w ! p) - int (count_list ps p) \<and>
    (pr_resolved (q_proms (resolve_all ps w) ! p) \<longleftrightarrow> pr_resolved (q_proms w ! p) \<or>
       count_list ps p > 0 \<and> pr_count (q_proms w ! p) = int (count_list ps p))"
proof (induction ps arbitrary: w)
  case (Cons q ps)
  then show ?case using resolve_one_nth [OF Cons.prems(1), of q] Cons.IH [of "resolve_one q w"] by (auto split: if_splits)
qed simp

text \<open>Firing live hooks removes the data of the key and counts down its promises, once.\<close>

lemma fire_empty_live:
  fixes w :: "'f qworld"
  assumes "j < length (q_objs w)" "h_empty (q_objs w ! j) = live k ps"
  shows "fire_empty j w = Inr (put_empty j (spent (Suc (length ps))) (resolve_all ps (w\<lparr>q_queue := (q_queue w)(k := None), q_hooks := (q_hooks w)(k := None)\<rparr>)))"
proof -
  let ?l = "RemoveData k # map ResolveOne ps"
  have g: "get_empty j w = live k ps" using assms(2) by (simp add: get_empty_def)
  have l: "cb_list (live k ps) = Some ?l" "\<not> fired (live k ps)" "\<not> firing (live k ps)" "firingStart (live k ps) = int 0"
    "cb_stack (live k ps) = None"
    by (simp_all add: live_def callbacks_def options_once)
  have after: "after_fire () ?l (live k ps) = spent (Suc (length ps))"
    by (simp add: after_fire_def fire_start_def live_def spent_def callbacks_def options_once Let_def)
  have "fire_empty j w = cb_fire (hook_fuel j w) hook_call (get_empty j) (put_empty j) () w"
    unfolding fire_empty_def fireWith_def g Let_def using l by simp
  also have "\<dots> = Inr (put_empty j (after_fire () ?l (live k ps)) (fold (\<lambda>f. hook_effect f ()) (drop 0 ?l) w))"
    by (rule hook.fire_passive [OF assms(1) g l(1,4)]) (use l(5) in \<open>simp_all add: hook_fuel_def list_length_def g l(1)\<close>)
  finally show ?thesis unfolding after by (simp add: resolve_all_def)
qed

section \<open>Changes that keep the hooks and the promises\<close>

definition queues_ok :: "key \<Rightarrow> 'f qworld \<Rightarrow> bool" where
  "queues_ok k w \<longleftrightarrow> shape k (get_queue k w) \<and> busy k (get_queue k w) \<and> log_ok k w \<and> (q_queue w k = None \<longleftrightarrow> q_hooks w k = None)"

lemma qinv_iff: "qinv w \<longleftrightarrow> (\<forall>k. queues_ok k w) \<and> hooks_ok w \<and> proms_ok w"
  by (auto simp: qinv_def queues_ok_def)

lemma qinvD:
  assumes "qinv w"
  shows "queues_ok k w" "hooks_ok w" "proms_ok w"
  using assms unfolding qinv_iff by blast+

lemma qinvI: "(\<And>k. queues_ok k w) \<Longrightarrow> hooks_ok w \<Longrightarrow> proms_ok w \<Longrightarrow> qinv w"
  unfolding qinv_iff by blast

text \<open>Two worlds with the same callback lists, and hooks and promises.\<close>

definition same_hooks :: "'f qworld \<Rightarrow> 'f qworld \<Rightarrow> bool" where
  "same_hooks w w1 \<longleftrightarrow> q_hooks w1 = q_hooks w \<and> map h_empty (q_objs w1) = map h_empty (q_objs w) \<and> q_proms w1 = q_proms w"

lemma same_hooks_lists: "same_hooks w w1 \<Longrightarrow> map hook_list (q_objs w1) = map hook_list (q_objs w)"
proof -
  assume "same_hooks w w1"
  then have "map (\<lambda>c. case cb_list c of None \<Rightarrow> [] | Some l \<Rightarrow> l) (map h_empty (q_objs w1)) =
      map (\<lambda>c. case cb_list c of None \<Rightarrow> [] | Some l \<Rightarrow> l) (map h_empty (q_objs w))" by (simp add: same_hooks_def)
  then show ?thesis by (simp add: hook_list_def [abs_def] comp_def)
qed

lemma pending_lists: "pending_hooks p w = sum_list (map (\<lambda>l. count_list l (ResolveOne p)) (map hook_list (q_objs w)))"
  by (simp add: pending_hooks_def comp_def)

lemma same_hooks_ok:
  assumes "same_hooks w w1"
  shows "hooks_ok w \<Longrightarrow> hooks_ok w1" "proms_ok w \<Longrightarrow> proms_ok w1"
proof -
  have len: "length (q_objs w1) = length (q_objs w)" using assms unfolding same_hooks_def by (metis length_map)
  have e: "j < length (q_objs w) \<Longrightarrow> h_empty (q_objs w1 ! j) = h_empty (q_objs w ! j)"
    and l: "j < length (q_objs w) \<Longrightarrow> hook_list (q_objs w1 ! j) = hook_list (q_objs w ! j)" for j
    using assms same_hooks_lists [OF assms] len unfolding same_hooks_def by (metis nth_map)+
  show "hooks_ok w \<Longrightarrow> hooks_ok w1" using assms e l len unfolding hooks_ok_def same_hooks_def by simp
  show "proms_ok w \<Longrightarrow> proms_ok w1"
    using assms same_hooks_lists [OF assms] unfolding proms_ok_def pending_lists same_hooks_def by simp
qed

lemma map_update_nth: "(map f xs)[j := f (xs ! j)] = map f xs"
  by (metis list_update_id map_update)

lemma same_hooks_steps:
  "same_hooks w (set_queue k q w)" "same_hooks w (log_event v w)" "same_hooks w (set_stop j t w)"
  "same_hooks w (clear_timer t' w)" "same_hooks w (start_timer k j w)"
  by (simp_all add: same_hooks_def set_queue_def log_event_def set_stop_def clear_timer_def start_timer_def map_update map_update_nth)

lemma same_hooks_trans: "same_hooks w w1 \<Longrightarrow> same_hooks w1 w2 \<Longrightarrow> same_hooks w w2"
  by (simp add: same_hooks_def)

lemma hooks_live:
  "hooks_ok w \<Longrightarrow> q_hooks w k = Some j \<Longrightarrow> j < length (q_objs w) \<and> (\<exists>ps. h_empty (q_objs w ! j) = live k ps \<and> (\<forall>p \<in> set ps. p < length (q_proms w)))"
  unfolding hooks_ok_def by blast

lemma hooks_spent: "hooks_ok w \<Longrightarrow> j < length (q_objs w) \<Longrightarrow> (\<exists>k. q_hooks w k = Some j) \<or> hook_list (q_objs w ! j) = []"
  unfolding hooks_ok_def by blast

text \<open>The hooks of a key, made when there are none.\<close>

lemma queueHooks_ok:
  assumes "hooks_ok w" "proms_ok w" "queueHooks k w = (j, w1)"
  shows "hooks_ok w1" "proms_ok w1" "q_hooks w1 k = Some j" "k' \<noteq> k \<Longrightarrow> q_hooks w1 k' = q_hooks w k'"
    "q_queue w1 = q_queue w" "q_log w1 = q_log w"
proof -
  have "hooks_ok w1 \<and> proms_ok w1 \<and> q_hooks w1 k = Some j \<and> (k' \<noteq> k \<longrightarrow> q_hooks w1 k' = q_hooks w k') \<and>
      q_queue w1 = q_queue w \<and> q_log w1 = q_log w"
  proof (cases "q_hooks w k")
    case None
    have new: "h_empty (new_hooks k) = live k []" by (simp add: new_hooks_def live_def)
    have w1: "w1 = w\<lparr>q_objs := q_objs w @ [new_hooks k], q_hooks := (q_hooks w)(k := Some (length (q_objs w)))\<rparr>" "j = length (q_objs w)"
      using assms(3) None by (auto simp: queueHooks_def)
    have "hooks_ok w1"
      unfolding hooks_ok_def
    proof (intro conjI allI impI)
      fix k'' j'' assume h: "q_hooks w1 k'' = Some j''"
      have "j'' < length (q_objs w1) \<and> (\<exists>ps. h_empty (q_objs w1 ! j'') = live k'' ps \<and> (\<forall>p \<in> set ps. p < length (q_proms w1)))"
      proof (cases "k'' = k")
        case True
        then show ?thesis using h new by (auto simp: w1 intro: exI [of _ "[]"])
      next
        case False
        then have "q_hooks w k'' = Some j''" using h by (simp add: w1)
        from hooks_live [OF assms(1) this] show ?thesis by (auto simp: w1 nth_append)
      qed
      then show "j'' < length (q_objs w1)" "\<exists>ps. h_empty (q_objs w1 ! j'') = live k'' ps \<and> (\<forall>p \<in> set ps. p < length (q_proms w1))"
        by blast+
    next
      fix j'' assume j: "j'' < length (q_objs w1)"
      show "(\<exists>k''. q_hooks w1 k'' = Some j'') \<or> hook_list (q_objs w1 ! j'') = []"
      proof (cases "j'' = length (q_objs w)")
        case True
        then have "q_hooks w1 k = Some j''" by (simp add: w1)
        then show ?thesis by blast
      next
        case False
        then have j: "j'' < length (q_objs w)" using j by (simp add: w1)
        consider k'' where "q_hooks w k'' = Some j''" | "hook_list (q_objs w ! j'') = []" using hooks_spent [OF assms(1) j] by blast
        then show ?thesis
        proof cases
          case 1
          then have "q_hooks w1 k'' = Some j''" using None by (auto simp: w1)
          then show ?thesis by blast
        qed (use j in \<open>simp add: w1 nth_append\<close>)
      qed
    qed
    moreover have "pending_hooks p w1 = pending_hooks p w" for p
      using new by (simp add: pending_hooks_def w1 hook_list_def live_def)
    ultimately show ?thesis using assms(2) by (simp add: proms_ok_def w1)
  qed (use assms in \<open>auto simp: queueHooks_def\<close>)
  then show "hooks_ok w1" "proms_ok w1" "q_hooks w1 k = Some j" "k' \<noteq> k \<Longrightarrow> q_hooks w1 k' = q_hooks w k'"
    "q_queue w1 = q_queue w" "q_log w1 = q_log w" by blast+
qed

section \<open>\<open>dequeue\<close>\<close>

fun front_item :: "'f qitem list \<Rightarrow> ('f qitem \<times> 'f qitem list) option" where
  "front_item [] = None"
| "front_item (x # q) = (if x = InProgress then case q of [] \<Rightarrow> None | f # r \<Rightarrow> Some (f, r) else Some (x, q))"

definition emptied :: "key \<Rightarrow> 'f qworld \<Rightarrow> 'f qworld" where
  "emptied k w = set_queue k (case q_queue w k of None \<Rightarrow> None | Some _ \<Rightarrow> Some []) w"

definition started_world :: "key \<Rightarrow> nat \<Rightarrow> 'f qitem \<Rightarrow> 'f qitem list \<Rightarrow> 'f qworld \<Rightarrow> 'f qworld" where
  "started_world k j f r w = log_event (Started k f)
     (set_stop j None (set_queue k (Some (if snd k = ''fx'' then InProgress # r else r)) w))"

lemma set_queue_twice [simp]: "set_queue k q (set_queue k q1 w) = set_queue k q w"
  by (simp add: set_queue_def)

lemma queueHooks_set_queue: "queueHooks k w = (j, w1) \<Longrightarrow> queueHooks k (set_queue k q w) = (j, set_queue k q w1)"
  by (auto simp: queueHooks_def set_queue_def split: option.splits)

lemma get_set_queue [simp]: "get_queue k (set_queue k (Some q) w) = q" "k' \<noteq> k \<Longrightarrow> get_queue k' (set_queue k q' w) = get_queue k' w"
  by (simp_all add: get_queue_def set_queue_def)

lemma dequeue_eq:
  assumes "shape k (get_queue k w)" "queueHooks k w = (j, w1)"
  shows "dequeue_with call k w =
    (case front_item (get_queue k w) of None \<Rightarrow> fire_empty j (emptied k w1)
     | Some (f, r) \<Rightarrow> call f k j (started_world k j f r w1))"
proof -
  have q1: "q_queue w1 k = q_queue w k" using assms(2) by (auto simp: queueHooks_def split: option.splits)
  have id: "js_bind r Inr = r" for r :: "'a qworld js" by (cases r) simp_all
  show ?thesis
  proof (cases "q_queue w k")
    case None
    then show ?thesis using assms(2) q1 by (simp add: dequeue_with_def get_queue_def shift_queue_def emptied_def set_queue_def fun_upd_idem)
  next
    case (Some q)
    then have g: "get_queue k w = q" by (simp add: get_queue_def)
    consider "q = []" | "q = [InProgress]" | f r where "q = InProgress # f # r" "f \<noteq> InProgress" | f r where "q = f # r" "f \<noteq> InProgress"
      using assms(1) unfolding g shape_def by (cases q; cases "tl q"; cases "hd q") auto
    then show ?thesis
    proof cases
      case 1
      then show ?thesis using Some assms(2) q1 g
        by (simp add: dequeue_with_def shift_queue_def emptied_def set_queue_def fun_upd_idem)
    next
      case 2
      have s: "shift_queue k w = (Some InProgress, set_queue k (Some []) w)" using Some 2 by (simp add: shift_queue_def)
      have s1: "shift_queue k (set_queue k (Some []) w1) = (None, set_queue k (Some []) w1)" by (simp add: shift_queue_def set_queue_def)
      have "emptied k w1 = set_queue k (Some []) w1" using q1 Some by (simp add: emptied_def)
      then show ?thesis using 2 g s s1 queueHooks_set_queue [OF assms(2), of "Some []"] by (simp add: dequeue_with_def)
    next
      case 3
      have s: "shift_queue k w = (Some InProgress, set_queue k (Some (f # r)) w)" using Some 3 by (simp add: shift_queue_def)
      have s1: "shift_queue k (set_queue k (Some (f # r)) w1) = (Some f, set_queue k (Some r) w1)" by (simp add: shift_queue_def set_queue_def)
      show ?thesis using 3 g s s1 queueHooks_set_queue [OF assms(2), of "Some (f # r)"]
        by (simp add: dequeue_with_def started_world_def Let_def id)
    next
      case 4
      have s: "shift_queue k w = (Some f, set_queue k (Some r) w)" using Some 4 by (simp add: shift_queue_def)
      show ?thesis using 4 g s queueHooks_set_queue [OF assms(2), of "Some r"]
        by (simp add: dequeue_with_def started_world_def Let_def id)
    qed
  qed
qed

text \<open>The hooks of a key fired: its data are gone, and the promises are counted down.\<close>

lemma hook_list_live [simp]: "h_empty h = live k ps \<Longrightarrow> hook_list h = RemoveData k # map ResolveOne ps"
  by (simp add: hook_list_def live_def)

lemma live_key: "live k ps = live k' ps' \<Longrightarrow> k = k'"
  by (drule arg_cong [of _ _ cb_list]) (simp add: live_def)

lemma count_resolve [simp]: "count_list (map ResolveOne ps) (ResolveOne p) = count_list ps p"
  by (induction ps) auto

lemma pending_update:
  assumes "j < length (q_objs w)" "q_objs w1 = (q_objs w)[j := h]"
  shows "pending_hooks p w1 + count_list (hook_list (q_objs w ! j)) (ResolveOne p) =
    pending_hooks p w + count_list (hook_list h) (ResolveOne p)"
proof -
  let ?f = "\<lambda>h. count_list (hook_list h) (ResolveOne p)"
  have split: "q_objs w = take j (q_objs w) @ q_objs w ! j # drop (Suc j) (q_objs w)" using assms(1) by (simp add: id_take_nth_drop)
  have "sum_list (map ?f (q_objs w)) = sum_list (map ?f (take j (q_objs w))) + ?f (q_objs w ! j) + sum_list (map ?f (drop (Suc j) (q_objs w)))"
    by (subst split) simp
  moreover have "q_objs w1 = take j (q_objs w) @ h # drop (Suc j) (q_objs w)" using assms upd_conv_take_nth_drop by metis
  then have "sum_list (map ?f (q_objs w1)) = sum_list (map ?f (take j (q_objs w))) + ?f h + sum_list (map ?f (drop (Suc j) (q_objs w)))"
    by simp
  ultimately show ?thesis by (simp add: pending_hooks_def)
qed

lemma fired_ok:
  fixes w :: "'f qworld"
  assumes "hooks_ok w" "proms_ok w" "q_hooks w k = Some j"
  shows "\<exists>w1. fire_empty j w = Inr w1 \<and> hooks_ok w1 \<and> proms_ok w1 \<and> q_queue w1 = (q_queue w)(k := None) \<and>
    q_hooks w1 = (q_hooks w)(k := None) \<and> q_log w1 = q_log w \<and> length (q_proms w1) = length (q_proms w) \<and>
    (\<forall>p. waits_for p w1 \<subseteq> waits_for p w)"
proof -
  obtain ps where j: "j < length (q_objs w)" "h_empty (q_objs w ! j) = live k ps" "\<forall>p \<in> set ps. p < length (q_proms w)"
    using hooks_live [OF assms(1,3)] by blast
  define w0 where "w0 = w\<lparr>q_queue := (q_queue w)(k := None), q_hooks := (q_hooks w)(k := None)\<rparr>"
  define w1 where "w1 = put_empty j (spent (Suc (length ps))) (resolve_all ps w0)"
  have f: "fire_empty j w = Inr w1" using fire_empty_live [OF j(1,2)] by (simp add: w1_def w0_def)
  have fields: "q_queue w1 = (q_queue w)(k := None)" "q_hooks w1 = (q_hooks w)(k := None)" "q_log w1 = q_log w"
    "q_objs w1 = (q_objs w)[j := (q_objs w ! j)\<lparr>h_empty := spent (Suc (length ps))\<rparr>]" "q_proms w1 = q_proms (resolve_all ps w0)"
    "length (q_proms w1) = length (q_proms w)"
    by (simp_all add: w1_def w0_def put_empty_def)
  have other: "j' \<noteq> j" if "q_hooks w k' = Some j'" "k' \<noteq> k" for k' j'
    using hooks_live [OF assms(1) that(1)] j(2) that(2) by (auto dest: live_key)
  have nil: "hook_list ((q_objs w ! j)\<lparr>h_empty := spent (Suc (length ps))\<rparr>) = []" by (simp add: hook_list_def spent_def)
  have "hooks_ok w1"
    unfolding hooks_ok_def
  proof (intro conjI allI impI)
    fix k' j' assume h: "q_hooks w1 k' = Some j'"
    then have k': "q_hooks w k' = Some j'" "k' \<noteq> k" by (auto simp: fields split: if_splits)
    show "j' < length (q_objs w1)" using hooks_live [OF assms(1) k'(1)] by (simp add: fields)
    show "\<exists>ps. h_empty (q_objs w1 ! j') = live k' ps \<and> (\<forall>p \<in> set ps. p < length (q_proms w1))"
      using hooks_live [OF assms(1) k'(1)] other [OF k'] by (simp add: fields(4,6))
  next
    fix j' assume h: "j' < length (q_objs w1)"
    show "(\<exists>k'. q_hooks w1 k' = Some j') \<or> hook_list (q_objs w1 ! j') = []"
    proof (cases "j' = j")
      case True
      then show ?thesis using nil j(1) by (simp add: fields)
    next
      case False
      consider k' where "q_hooks w k' = Some j'" | "hook_list (q_objs w ! j') = []"
        using hooks_spent [OF assms(1), of j'] h by (auto simp: fields)
      then show ?thesis
      proof cases
        case 1
        then have "q_hooks w1 k' = Some j'" using assms(3) False by (auto simp: fields)
        then show ?thesis by blast
      qed (use False in \<open>simp add: fields\<close>)
    qed
  qed
  moreover have "proms_ok w1"
    unfolding proms_ok_def
  proof (intro allI impI)
    fix p assume p: "p < length (q_proms w1)"
    let ?c = "count_list ps p"
    have pend: "pending_hooks p w1 + ?c = pending_hooks p w"
      using pending_update [OF j(1) fields(4), of p] j(2) nil by simp
    have old: "pr_count (q_proms w ! p) = int (pending_hooks p w)" "pr_resolved (q_proms w ! p) \<longleftrightarrow> pending_hooks p w = 0"
      using assms(2) p fields(6) by (simp_all add: proms_ok_def)
    have w0: "q_proms w0 = q_proms w" by (simp add: w0_def)
    have "pr_count (q_proms w1 ! p) = pr_count (q_proms w ! p) - int ?c \<and>
      (pr_resolved (q_proms w1 ! p) \<longleftrightarrow> pr_resolved (q_proms w ! p) \<or> ?c > 0 \<and> pr_count (q_proms w ! p) = int ?c)"
      using resolve_all_count [of p w0 ps] p fields(6) pend old(1) unfolding w0 fields(5) by simp
    then show "pr_count (q_proms w1 ! p) = int (pending_hooks p w1) \<and> (pr_resolved (q_proms w1 ! p) \<longleftrightarrow> pending_hooks p w1 = 0)"
      using old pend by auto
  qed
  moreover have "waits_for p w1 \<subseteq> waits_for p w" for p
  proof
    fix k' assume "k' \<in> waits_for p w1"
    then obtain j' where j': "q_hooks w k' = Some j'" "k' \<noteq> k" "ResolveOne p \<in> set (hook_list (q_objs w1 ! j'))"
      by (auto simp: waits_for_def fields(2) split: if_splits)
    then show "k' \<in> waits_for p w" using other [OF j'(1,2)] by (auto simp: waits_for_def fields(4))
  qed
  ultimately show ?thesis using f fields by blast
qed

text \<open>What \<open>dequeue\<close> needs of its queue: the order, and that it has been asked or that nothing is in
  progress.\<close>

definition dequeue_ready :: "key \<Rightarrow> 'f qworld \<Rightarrow> bool" where
  "dequeue_ready k w \<longleftrightarrow> (\<forall>k'. k' \<noteq> k \<longrightarrow> queues_ok k' w) \<and> hooks_ok w \<and> proms_ok w \<and> shape k (get_queue k w) \<and>
     started k (q_log w) @ waiting k w = queued k (q_log w) \<and>
     (snd k = ''fx'' \<longrightarrow> length (started k (q_log w)) \<le> asked k (q_log w))"

lemma front_item_waiting:
  "shape k q \<Longrightarrow> filter (\<lambda>x. x \<noteq> InProgress) q = (case front_item q of None \<Rightarrow> [] | Some (f, r) \<Rightarrow> f # r) \<and>
    (\<forall>f r. front_item q = Some (f, r) \<longrightarrow> f \<noteq> InProgress \<and> InProgress \<notin> set r)"
  by (cases q; cases "tl q"; auto simp: shape_def filter_id_conv split: if_splits)

lemma queues_ok_cong:
  "get_queue k w1 = get_queue k w \<Longrightarrow> (q_queue w1 k = None \<longleftrightarrow> q_queue w k = None) \<Longrightarrow> q_hooks w1 k = q_hooks w k \<Longrightarrow>
    started k (q_log w1) = started k (q_log w) \<Longrightarrow> queued k (q_log w1) = queued k (q_log w) \<Longrightarrow>
    asked k (q_log w1) = asked k (q_log w) \<Longrightarrow> queues_ok k w \<Longrightarrow> queues_ok k w1"
  by (simp add: queues_ok_def log_ok_def waiting_def in_progress_def)

lemma enqueue_ready:
  assumes "qinv w" "x \<noteq> InProgress" "queueHooks k (add_item k x w) = (j, w1)"
  shows "if snd k = ''fx'' \<and> get_queue k w = [] then dequeue_ready k w1 \<and> after_queue deq k (add_item k x w) = deq w1
    else qinv w1 \<and> after_queue deq k (add_item k x w) = Inr w1"
proof -
  let ?w = "add_item k x w"
  have inv: "\<And>k'. queues_ok k' w" "hooks_ok w" "proms_ok w" using qinvD [OF assms(1)] by blast+
  have sh: "same_hooks w ?w" unfolding add_item_def by (meson same_hooks_steps same_hooks_trans)
  note h = queueHooks_ok [OF same_hooks_ok(1) [OF sh inv(2)] same_hooks_ok(2) [OF sh inv(3)] assms(3)]
  have fields: "q_queue w1 = (q_queue w)(k := Some (get_queue k w @ [x]))" "q_log w1 = q_log w @ [Queued k x]"
    by (simp_all add: h(5,6) add_item_def log_event_def set_queue_def)
  have hooks: "k' \<noteq> k \<Longrightarrow> q_hooks w1 k' = q_hooks w k'" for k'
    using h(4) sh by (simp add: same_hooks_def)
  have g: "get_queue k w1 = get_queue k w @ [x]" by (simp add: get_queue_def fields(1))
  have others: "queues_ok k' w1" if "k' \<noteq> k" for k'
    by (rule queues_ok_cong [OF _ _ _ _ _ _ inv(1) [of k']])
      (use that in \<open>simp_all add: get_queue_def fields hooks [OF that]\<close>)
  have k: "shape k (get_queue k w)" "busy k (get_queue k w)" "log_ok k w" using inv(1) [of k] by (simp_all add: queues_ok_def)
  have sp: "shape k (get_queue k w1)" using k(1) assms(2) by (cases "get_queue k w") (auto simp: g shape_def)
  have lg: "started k (q_log w1) @ waiting k w1 = queued k (q_log w1)"
    using k(3) assms(2) by (simp add: log_ok_def waiting_def g fields(2))
  show ?thesis
  proof (cases "snd k = ''fx'' \<and> get_queue k w = []")
    case True
    then have "dequeue_ready k w1"
      using others h(1,2) sp lg k(3) by (simp add: dequeue_ready_def log_ok_def in_progress_def fields(2))
    then show ?thesis using assms(2,3) True g by (simp add: after_queue_def)
  next
    case False
    have "\<not> (snd k = ''fx'' \<and> (get_queue k w1 = [] \<or> hd (get_queue k w1) \<noteq> InProgress))"
      using False k(2) by (auto simp: g busy_def)
    then have "after_queue deq k ?w = Inr w1" unfolding after_queue_def assms(3) Let_def prod.case by (rule if_not_P)
    moreover have "queues_ok k w1"
      using False k sp lg h(3) by (auto simp: queues_ok_def busy_def log_ok_def in_progress_def g fields)
    then have "queues_ok k' w1" for k' using others by (cases "k' = k") auto
    then have "qinv w1" using h(1,2) by (simp add: qinv_iff)
    ultimately show ?thesis by (subst if_not_P [OF False]) blast
  qed
qed

lemma next_ready:
  assumes "qinv w"
  shows "dequeue_ready k (log_event (Asked k) w)"
proof -
  let ?w = "log_event (Asked k) w"
  have inv: "\<And>k'. queues_ok k' w" "hooks_ok w" "proms_ok w" using qinvD [OF assms] by blast+
  have g: "get_queue k' ?w = get_queue k' w" for k' by (simp add: get_queue_def log_event_def)
  have "queues_ok k' ?w" if "k' \<noteq> k" for k'
    by (rule queues_ok_cong [OF g _ _ _ _ _ inv(1)]) (use that in \<open>simp_all add: log_event_def\<close>)
  moreover have "hooks_ok ?w" "proms_ok ?w" using same_hooks_ok [OF same_hooks_steps(2)] inv(2,3) by blast+
  moreover have "shape k (get_queue k w)" "started k (q_log ?w) @ waiting k w = queued k (q_log ?w)"
    "snd k = ''fx'' \<Longrightarrow> length (started k (q_log ?w)) \<le> asked k (q_log ?w)"
    using inv(1) [of k] by (auto simp: queues_ok_def log_ok_def log_event_def split: if_splits)
  ultimately show ?thesis unfolding dequeue_ready_def waiting_def g by blast
qed

section \<open>The contract of the functions called\<close>

abbreviation qkeeps :: "(js_exn \<Rightarrow> bool) \<Rightarrow> 'f qworld js \<Rightarrow> bool" where
  "qkeeps bad \<equiv> keeps bad qinv"

locale queue_calls =
  fixes call :: "'f qrun" and bad :: "js_exn \<Rightarrow> bool"
  assumes call_keeps: "qinv w \<Longrightarrow> x \<noteq> InProgress \<Longrightarrow> j < length (q_objs w) \<Longrightarrow> qkeeps bad (call x k j w)"
begin

lemma dequeue_keeps:
  assumes "dequeue_ready k w"
  shows "qkeeps bad (dequeue_with call k w)"
proof -
  have ready: "\<And>k'. k' \<noteq> k \<Longrightarrow> queues_ok k' w" "hooks_ok w" "proms_ok w" "shape k (get_queue k w)"
    "started k (q_log w) @ waiting k w = queued k (q_log w)" "snd k = ''fx'' \<Longrightarrow> length (started k (q_log w)) \<le> asked k (q_log w)"
    using assms by (auto simp: dequeue_ready_def)
  obtain j w1 where hk: "queueHooks k w = (j, w1)" by (cases "queueHooks k w")
  note h = queueHooks_ok [OF ready(2,3) hk]
  have g: "get_queue k' w1 = get_queue k' w" for k' by (simp add: get_queue_def h(5))
  note wt = front_item_waiting [OF ready(4)]
  show ?thesis
  proof (cases "front_item (get_queue k w)")
    case None
    have sh: "same_hooks w1 (emptied k w1)" by (simp add: emptied_def same_hooks_steps)
    obtain w2 where w2: "fire_empty j (emptied k w1) = Inr w2" "hooks_ok w2" "proms_ok w2" "q_queue w2 = (q_queue (emptied k w1))(k := None)"
      "q_hooks w2 = (q_hooks (emptied k w1))(k := None)" "q_log w2 = q_log (emptied k w1)"
      using fired_ok [of "emptied k w1" k j] same_hooks_ok [OF sh] h(1,2,3) sh unfolding same_hooks_def by auto
    have "queues_ok k' w2" for k'
    proof (cases "k' = k")
      case True
      have "get_queue k w2 = []" by (simp add: get_queue_def w2(4))
      moreover have "q_log w2 = q_log w" by (simp add: w2(6) emptied_def set_queue_def h(6))
      ultimately show ?thesis using True wt None ready(5,6) w2(4,5)
        by (simp add: queues_ok_def shape_def busy_def log_ok_def waiting_def in_progress_def)
    next
      case False
      show ?thesis
        by (rule queues_ok_cong [OF _ _ _ _ _ _ ready(1) [OF False]])
          (use False in \<open>simp_all add: get_queue_def w2 emptied_def set_queue_def h(5,6) h(4) [OF False]\<close>)
    qed
    then show ?thesis using dequeue_eq [OF ready(4) hk, of call] None w2 by (simp add: qinv_iff)
  next
    case (Some p)
    obtain f r where n: "front_item (get_queue k w) = Some (f, r)" using Some by (cases p) auto
    let ?w = "started_world k j f r w1"
    have fr: "f \<noteq> InProgress" "InProgress \<notin> set r" "waiting k w = f # r" using wt n by (auto simp: waiting_def)
    have fl: "filter (\<lambda>x. x \<noteq> InProgress) r = r" using fr(2) by (auto simp: filter_id_conv)
    have sh: "same_hooks w1 ?w" unfolding started_world_def by (meson same_hooks_steps same_hooks_trans)
    have fields: "q_queue ?w = (q_queue w)(k := Some (if snd k = ''fx'' then InProgress # r else r))" "q_hooks ?w = q_hooks w1"
      "q_log ?w = q_log w @ [Started k f]" "length (q_objs ?w) = length (q_objs w1)"
      by (simp_all add: started_world_def log_event_def set_stop_def set_queue_def h(5,6))
    have "queues_ok k' ?w" for k'
    proof (cases "k' = k")
      case True
      have "get_queue k ?w = (if snd k = ''fx'' then InProgress # r else r)" by (simp add: get_queue_def fields)
      moreover have "r = [] \<or> hd r \<noteq> InProgress" using fr(2) by (cases r) auto
      moreover have "InProgress \<notin> set (tl r)" using fr(2) by (cases r) auto
      ultimately show ?thesis using True fr ready(5,6) fl h(3)
        by (auto simp: queues_ok_def shape_def busy_def log_ok_def waiting_def in_progress_def fields)
    next
      case False
      show ?thesis
        by (rule queues_ok_cong [OF _ _ _ _ _ _ ready(1) [OF False]])
          (use False in \<open>simp_all add: get_queue_def fields h(4) [OF False]\<close>)
    qed
    then have "qinv ?w" using same_hooks_ok [OF sh] h(1,2) by (simp add: qinv_iff)
    moreover have "j < length (q_objs ?w)" using hooks_live [OF h(1,3)] fields(4) by simp
    ultimately show ?thesis using call_keeps [OF _ fr(1)] dequeue_eq [OF ready(4) hk, of call] n by simp
  qed
qed

lemma enqueue_keeps:
  assumes "qinv w" "x \<noteq> InProgress"
  shows "qkeeps bad (after_queue (dequeue_with call k) k (add_item k x w))"
proof -
  obtain j w1 where hk: "queueHooks k (add_item k x w) = (j, w1)" by (cases "queueHooks k (add_item k x w)")
  show ?thesis using enqueue_ready [OF assms hk, of "dequeue_with call k"] dequeue_keeps [of k w1]
    by (cases "snd k = ''fx'' \<and> get_queue k w = []") auto
qed

lemma next_keeps: "qinv w \<Longrightarrow> qkeeps bad (dequeue_with call k (log_event (Asked k) w))"
  by (rule dequeue_keeps [OF next_ready])

end

text \<open>While \<open>promise\<close> adds its function to the hooks, its count is one more than what it waits for.\<close>

definition counting :: "nat \<Rightarrow> 'f qworld \<Rightarrow> bool" where
  "counting p w \<longleftrightarrow> p < length (q_proms w) \<and> pr_count (q_proms w ! p) = int (pending_hooks p w) + 1 \<and> \<not> pr_resolved (q_proms w ! p) \<and>
     (\<forall>p' < length (q_proms w). p' \<noteq> p \<longrightarrow> pr_count (q_proms w ! p') = int (pending_hooks p' w) \<and>
        (pr_resolved (q_proms w ! p') \<longleftrightarrow> pending_hooks p' w = 0))"

lemma add_to_live:
  assumes "j < length (q_objs w)" "h_empty (q_objs w ! j) = live k ps"
  shows "cb_add n hook_call (get_empty j) (put_empty j) [Fn (ResolveOne p)] w = Inr (put_empty j (live k (ps @ [p])) w)"
  using assms by (simp add: cb_add_def get_empty_def live_def callbacks_def options_once Let_def)

lemma promise_loop_keeps:
  assumes "\<forall>k. queues_ok k w" "hooks_ok w" "counting p w"
  shows "\<exists>w1. promise_loop p ty es w = Inr w1 \<and> (\<forall>k. queues_ok k w1) \<and> hooks_ok w1 \<and> counting p w1 \<and>
    length (q_proms w1) = length (q_proms w) \<and> pending_hooks p w1 = pending_hooks p w + length (filter (\<lambda>e. q_hooks w (e, ty) \<noteq> None) es) \<and>
    q_queue w1 = q_queue w \<and> (\<forall>p'. p' \<noteq> p \<longrightarrow> waits_for p' w1 \<subseteq> waits_for p' w)"
  using assms
proof (induction es arbitrary: w)
  case (Cons e es)
  show ?case
  proof (cases "q_hooks w (e, ty)")
    case None
    then show ?thesis using Cons by simp
  next
    case (Some j)
    obtain ps where j: "j < length (q_objs w)" "h_empty (q_objs w ! j) = live (e, ty) ps" "\<forall>p \<in> set ps. p < length (q_proms w)"
      using hooks_live [OF Cons.prems(2) Some] by blast
    define w0 where "w0 = w\<lparr>q_proms := (q_proms w)[p := (q_proms w ! p)\<lparr>pr_count := pr_count (q_proms w ! p) + 1\<rparr>]\<rparr>"
    define w1 where "w1 = put_empty j (live (e, ty) (ps @ [p])) w0"
    have add: "cb_add (hook_fuel j w) hook_call (get_empty j) (put_empty j) [Fn (ResolveOne p)] w0 = Inr w1"
      unfolding w1_def by (rule add_to_live) (use j in \<open>simp_all add: w0_def\<close>)
    have fields: "q_queue w1 = q_queue w" "q_hooks w1 = q_hooks w" "q_log w1 = q_log w" "length (q_proms w1) = length (q_proms w)"
      "q_objs w1 = (q_objs w)[j := (q_objs w ! j)\<lparr>h_empty := live (e, ty) (ps @ [p])\<rparr>]" "q_proms w1 = q_proms w0"
      by (simp_all add: w1_def w0_def put_empty_def)
    have p: "p < length (q_proms w)" using Cons.prems(3) by (simp add: counting_def)
    have "queues_ok k w1" for k
      by (rule queues_ok_cong [OF _ _ _ _ _ _ Cons.prems(1) [rule_format]]) (simp_all add: fields get_queue_def)
    moreover have "hooks_ok w1"
      unfolding hooks_ok_def
    proof (intro conjI allI impI)
      fix k j' assume h: "q_hooks w1 k = Some j'"
      note l = hooks_live [OF Cons.prems(2) h [unfolded fields]]
      show "j' < length (q_objs w1)" using l by (simp add: fields(5))
      show "\<exists>ps. h_empty (q_objs w1 ! j') = live k ps \<and> (\<forall>p \<in> set ps. p < length (q_proms w1))"
      proof (cases "j' = j")
        case True
        then have "k = (e, ty)" using l j(2) live_key by metis
        then have "h_empty (q_objs w1 ! j') = live k (ps @ [p])" using True j(1) by (simp add: fields(5))
        moreover have "\<forall>p' \<in> set (ps @ [p]). p' < length (q_proms w1)" using j(3) p by (simp add: fields(4))
        ultimately show ?thesis by blast
      qed (use l in \<open>simp add: fields(4,5)\<close>)
    next
      fix j' assume h: "j' < length (q_objs w1)"
      show "(\<exists>k. q_hooks w1 k = Some j') \<or> hook_list (q_objs w1 ! j') = []"
        using hooks_spent [OF Cons.prems(2), of j'] h Some by (cases "j' = j") (auto simp: fields(2,5))
    qed
    moreover have pend: "pending_hooks p' w1 = pending_hooks p' w + (if p' = p then 1 else 0)" for p'
      using pending_update [OF j(1) fields(5), of p'] j(2) by simp
    have "counting p w1"
      using Cons.prems(3) p unfolding counting_def pend fields(4) fields(6) by (simp add: w0_def nth_list_update)
    moreover have wf: "waits_for p' w1 \<subseteq> waits_for p' w" if "p' \<noteq> p" for p'
    proof
      fix k assume "k \<in> waits_for p' w1"
      then obtain j' where j': "q_hooks w k = Some j'" "ResolveOne p' \<in> set (hook_list (q_objs w1 ! j'))" by (auto simp: waits_for_def fields(2))
      have "ResolveOne p' \<in> set (hook_list (q_objs w ! j'))"
        using j'(2) j(1,2) that by (cases "j' = j") (auto simp: fields(5))
      then show "k \<in> waits_for p' w" using j'(1) by (auto simp: waits_for_def)
    qed
    ultimately obtain w2 where w2: "promise_loop p ty es w1 = Inr w2" "\<forall>k. queues_ok k w2" "hooks_ok w2" "counting p w2"
      "length (q_proms w2) = length (q_proms w1)"
      "pending_hooks p w2 = pending_hooks p w1 + length (filter (\<lambda>e. q_hooks w1 (e, ty) \<noteq> None) es)"
      "q_queue w2 = q_queue w1" "\<forall>p'. p' \<noteq> p \<longrightarrow> waits_for p' w2 \<subseteq> waits_for p' w1" using Cons.IH [of w1] by blast
    have "waits_for p' w2 \<subseteq> waits_for p' w" if "p' \<noteq> p" for p' using w2(8) wf [OF that] that by blast
    then show ?thesis using w2(1-7) Some add fields(1,2,4) pend [of p] by (simp add: w0_def)
  qed
qed simp

lemma promise_made:
  assumes "qinv w"
  shows "\<exists>w1. run_promise es ty w = Inr w1 \<and> qinv w1 \<and> length (q_proms w1) = Suc (length (q_proms w)) \<and>
    pending_hooks (length (q_proms w)) w1 = length (filter (\<lambda>e. q_hooks w (e, ty) \<noteq> None) es) \<and>
    q_queue w1 = q_queue w \<and> (\<forall>p < length (q_proms w). waits_for p w1 \<subseteq> waits_for p w)"
proof -
  have inv: "\<And>k. queues_ok k w" "hooks_ok w" "proms_ok w" using qinvD [OF assms] by blast+
  let ?w = "begin_promise w" and ?p = "length (q_proms w)"
  have "queues_ok k ?w" for k
    by (rule queues_ok_cong [OF _ _ _ _ _ _ inv(1)]) (simp_all add: begin_promise_def get_queue_def)
  moreover have "hooks_ok ?w" using inv(2) unfolding hooks_ok_def by (fastforce simp: begin_promise_def)
  moreover have none: "pending_hooks ?p w = 0"
  proof -
    have "ResolveOne ?p \<notin> set (hook_list h)" if "h \<in> set (q_objs w)" for h
    proof -
      note mem = that
      obtain j where j: "j < length (q_objs w)" "h = q_objs w ! j" using mem unfolding in_set_conv_nth by blast
      show ?thesis using hooks_spent [OF inv(2) j(1)] hooks_live [OF inv(2)] j by fastforce
    qed
    then show ?thesis by (simp add: pending_hooks_def count_list_0_iff)
  qed
  have "counting ?p ?w"
    using inv(3) none unfolding counting_def proms_ok_def
    by (auto simp: begin_promise_def nth_append less_Suc_eq pending_hooks_def)
  ultimately obtain w1 where w1: "promise_loop ?p ty (rev es) ?w = Inr w1" "\<forall>k. queues_ok k w1" "hooks_ok w1" "counting ?p w1"
    "length (q_proms w1) = length (q_proms ?w)"
    "pending_hooks ?p w1 = pending_hooks ?p ?w + length (filter (\<lambda>e. q_hooks ?w (e, ty) \<noteq> None) (rev es))"
    "q_queue w1 = q_queue ?w" "\<forall>p'. p' \<noteq> ?p \<longrightarrow> waits_for p' w1 \<subseteq> waits_for p' ?w"
    using promise_loop_keeps [of ?w ?p ty "rev es"] by blast
  let ?w2 = "resolve_one ?p w1"
  have "queues_ok k ?w2" for k
    by (rule queues_ok_cong [OF _ _ _ _ _ _ w1(2) [rule_format]]) (simp_all add: get_queue_def)
  moreover have "hooks_ok ?w2" using w1(3) by (simp add: hooks_ok_def)
  moreover have "proms_ok ?w2"
    using w1(4) unfolding proms_ok_def counting_def by (auto simp: resolve_one_nth pending_hooks_def)
  ultimately have "qinv ?w2" by (rule qinvI)
  moreover have "pending_hooks ?p ?w2 = length (filter (\<lambda>e. q_hooks w (e, ty) \<noteq> None) es)"
    using w1(6) none by (simp add: pending_hooks_def begin_promise_def rev_filter [symmetric])
  moreover have "waits_for p ?w2 \<subseteq> waits_for p w" if "p < ?p" for p
    using w1(8) [rule_format, of p] that by (simp add: waits_for_def begin_promise_def)
  ultimately show ?thesis using w1(1,5,7) by (simp add: run_promise_def begin_promise_def)
qed

lemma promise_keeps: "qinv w \<Longrightarrow> qkeeps bad (run_promise es ty w)"
  using promise_made [of w es ty] by auto

section \<open>All operations\<close>

text \<open>Everything but \<open>clearQueue\<close>.\<close>

primrec ordinary_qop :: "'f qop \<Rightarrow> bool" where
  "ordinary_qop (Enqueue k x) \<longleftrightarrow> x \<noteq> InProgress"
| "ordinary_qop (Next k) \<longleftrightarrow> True"
| "ordinary_qop (ClearQueue k) \<longleftrightarrow> False"
| "ordinary_qop (Promise es ty) \<longleftrightarrow> True"
| "ordinary_qop (StopHook k) \<longleftrightarrow> True"

lemma timer_keeps:
  assumes "qinv w" "same_hooks w w1" "q_queue w1 = q_queue w" "q_log w1 = q_log w"
  shows "qinv w1"
proof -
  have inv: "\<And>k. queues_ok k w" "hooks_ok w" "proms_ok w" using qinvD [OF assms(1)] by blast+
  have "queues_ok k w1" for k
    by (rule queues_ok_cong [OF _ _ _ _ _ _ inv(1)]) (use assms(2-4) in \<open>simp_all add: get_queue_def same_hooks_def\<close>)
  then show ?thesis using same_hooks_ok [OF assms(2)] inv(2,3) by (simp add: qinv_iff)
qed

lemma clear_timer_keeps: "qinv w \<Longrightarrow> qinv (clear_timer t w)"
  by (erule timer_keeps [OF _ same_hooks_steps(4)]) (simp_all add: clear_timer_def)

lemma start_timer_keeps: "qinv w \<Longrightarrow> qinv (start_timer k j w)"
  by (erule timer_keeps [OF _ same_hooks_steps(5)]) (simp_all add: start_timer_def set_stop_def)

context queue_calls
begin

lemma op_keeps: "qinv w \<Longrightarrow> ordinary_qop p \<Longrightarrow> qkeeps bad (run_qop call p w)"
  by (cases p) (auto simp: enqueue_keeps next_keeps promise_keeps clear_timer_keeps split: option.splits)

lemma ops_keeps: "qinv w \<Longrightarrow> list_all ordinary_qop ps \<Longrightarrow> qkeeps bad (run_qops call ps w)"
proof (induction ps arbitrary: w)
  case (Cons p ps)
  then show ?case using op_keeps [of w p] by (cases "run_qop call p w") auto
qed simp

end

definition ordinary_user :: "('f qevent list \<Rightarrow> key \<Rightarrow> 'f \<Rightarrow> 'f qop list) \<Rightarrow> bool" where
  "ordinary_user user \<longleftrightarrow> (\<forall>l k f. list_all ordinary_qop (user l k f))"

lemma qcall_contract: "ordinary_user user \<Longrightarrow> queue_calls (qcall n user) (\<lambda>e. e = Diverge)"
proof (induction n)
  case 0
  show ?case by unfold_locales simp
next
  case (Suc n)
  note ops = queue_calls.ops_keeps [OF Suc.IH [OF Suc.prems]]
  show ?case
    using ops Suc.prems by unfold_locales (auto simp: start_timer_keeps ordinary_user_def split: qitem.split)
qed

text \<open>Every ordinary user meets the contract, up to the fuel; a user whose functions ask for the next one
  later, as the animations do, meets it without.\<close>

definition later_user :: "'f qevent list \<Rightarrow> key \<Rightarrow> 'f \<Rightarrow> 'f qop list" where
  "later_user l k f = []"

interpretation later: queue_calls "qcall (Suc n) later_user" "\<lambda>_. False" for n
  by unfold_locales (auto simp: start_timer_keeps later_user_def split: qitem.split)

definition chain_user :: "'f qevent list \<Rightarrow> key \<Rightarrow> 'f \<Rightarrow> 'f qop list" where
  "chain_user l k f = [Next k]"

lemma chain_user_ordinary: "ordinary_user chain_user"
  by (simp add: ordinary_user_def chain_user_def)

interpretation chain: queue_calls "qcall n chain_user" "\<lambda>e. e = Diverge" for n
  by (rule qcall_contract [OF chain_user_ordinary])

primrec ordinary_step :: "'f qstep \<Rightarrow> bool" where
  "ordinary_step (Do p) \<longleftrightarrow> ordinary_qop p"
| "ordinary_step (Timeout t) \<longleftrightarrow> True"

lemma step_keeps:
  assumes "queue_calls (qcall n user) bad" "qinv w" "ordinary_step s"
  shows "qkeeps bad (run_step n user s w)"
proof (cases s)
  case (Do p)
  then show ?thesis using queue_calls.op_keeps [OF assms(1,2)] assms(3) by (simp add: run_step_def)
next
  case (Timeout t)
  then show ?thesis
    using queue_calls.op_keeps [OF assms(1) clear_timer_keeps [OF assms(2)], of "Next _"] assms(2)
    by (auto simp: run_step_def split: option.split simp del: run_qop.simps)
qed

lemma steps_keep:
  "queue_calls (qcall n user) bad \<Longrightarrow> qinv w \<Longrightarrow> list_all ordinary_step ss \<Longrightarrow> qkeeps bad (run_steps n user ss w)"
proof (induction ss arbitrary: w)
  case (Cons s ss)
  have "qkeeps bad (run_step n user s w)" using step_keeps [OF Cons.prems(1,2)] Cons.prems(3) by simp
  then show ?case using Cons by (cases "run_step n user s w") auto
qed simp

lemma no_queues_inv: "qinv no_queues"
  by (simp add: qinv_def no_queues_def shape_def busy_def log_ok_def started_def queued_def waiting_def get_queue_def
      hooks_ok_def proms_ok_def)

section \<open>The order of the queues\<close>

lemma reached_inv:
  assumes "ordinary_user user" "list_all ordinary_step ss" "run_steps n user ss no_queues = Inr w"
  shows "qinv w"
  using steps_keep [OF qcall_contract [OF assms(1)] no_queues_inv assms(2), of n] assms(3) by simp

text \<open>C39: Whatever ordinary functions are queued and whenever they ask for the next one: the functions of
  each queue are called in the order they were queued, each once and none lost, no sentinel is ever
  called as one and nothing is thrown. In an \<open>fx\<close> queue functions wait only while one is in progress, and the
  next is called only when asked for.\<close>
theorem fx_queue_fifo:
  assumes "ordinary_user user" "list_all ordinary_step ss"
  shows "case run_steps n user ss no_queues of Inl e \<Rightarrow> e = Diverge
    | Inr w \<Rightarrow> (\<forall>k. started k (q_log w) @ waiting k w = queued k (q_log w) \<and>
        (snd k = ''fx'' \<longrightarrow> (waiting k w \<noteq> [] \<longrightarrow> in_progress k w) \<and>
           length (started k (q_log w)) \<le> asked k (q_log w) + (if in_progress k w then 1 else 0)))"
proof (cases "run_steps n user ss no_queues")
  case (Inl e)
  then show ?thesis using steps_keep [OF qcall_contract [OF assms(1)] no_queues_inv assms(2), of n] by simp
next
  case (Inr w)
  have q: "queues_ok k w" for k by (rule qinvD(1) [OF reached_inv [OF assms Inr]])
  have w: "waiting k w \<noteq> [] \<Longrightarrow> snd k = ''fx'' \<Longrightarrow> in_progress k w" for k
    using q [of k] by (auto simp: queues_ok_def busy_def waiting_def in_progress_def)
  show ?thesis using q w unfolding Inr sum.case queues_ok_def log_ok_def by blast
qed

text \<open>Two animations queued on an element, the first one done, and a third: the second is in progress.\<close>

definition three_animations :: "nat qstep list" where
  "three_animations = [Do (Enqueue (1, ''fx'') (QFn 10)), Do (Enqueue (1, ''fx'') (QFn 20)), Do (Next (1, ''fx'')),
     Do (Enqueue (1, ''fx'') (QDelay 30))]"

lemma fx_queue_fifo_witness:
  "case run_steps 2 later_user three_animations no_queues of Inl e \<Rightarrow> False
    | Inr w \<Rightarrow> started (1, ''fx'') (q_log w) = [QFn 10, QFn 20] \<and>
        started (1, ''fx'') (q_log w) @ waiting (1, ''fx'') w = [QFn 10, QFn 20, QDelay 30] \<and> in_progress (1, ''fx'') w"
proof -
  have r: "case run_steps 2 later_user three_animations no_queues of Inl e \<Rightarrow> False
    | Inr w \<Rightarrow> started (1, ''fx'') (q_log w) = [QFn 10, QFn 20] \<and> queued (1, ''fx'') (q_log w) = [QFn 10, QFn 20, QDelay 30] \<and>
        waiting (1, ''fx'') w \<noteq> []"
    by code_simp
  have "ordinary_user (later_user :: nat qevent list \<Rightarrow> _)" "list_all ordinary_step three_animations"
    by (simp_all add: ordinary_user_def later_user_def three_animations_def)
  note t = fx_queue_fifo [OF this, of 2]
  obtain w where w: "run_steps 2 later_user three_animations no_queues = Inr w"
    using r by (cases "run_steps 2 later_user three_animations no_queues") auto
  show ?thesis
    using t [unfolded w sum.case, THEN spec [of _ "(1, ''fx'')"]] r unfolding w sum.case snd_conv by metis
qed

text \<open>When the functions ask for the next one later, two calls deep is enough.\<close>
lemma later_returns:
  assumes "list_all ordinary_step ss"
  shows "\<exists>w. run_steps (Suc n) later_user ss no_queues = Inr w \<and> qinv w"
  using steps_keep [OF later.queue_calls_axioms no_queues_inv assms, of n] by (cases "run_steps (Suc n) later_user ss no_queues") auto

section \<open>How far a queue is\<close>

text \<open>How often a queue has still to be asked for the next one until it is gone, when its functions queue no
  others. Every ordinary step that does not queue for it leaves this number or lowers it, and asking lowers it.\<close>

definition asks_left :: "key \<Rightarrow> 'f qworld \<Rightarrow> nat" where
  "asks_left k w = (if q_queue w k = None then 0 else Suc (length (waiting k w)))"

lemma asks_left_cong: "q_queue w1 k = q_queue w k \<Longrightarrow> asks_left k w1 = asks_left k w"
  by (simp add: asks_left_def waiting_def get_queue_def)

text \<open>What a step leaves: the queues but one are not further from their end, the promises wait for no more.\<close>

definition no_further :: "key \<Rightarrow> 'f qworld \<Rightarrow> 'f qworld \<Rightarrow> bool" where
  "no_further k w w1 \<longleftrightarrow> (\<forall>k'. k' \<noteq> k \<longrightarrow> asks_left k' w1 = asks_left k' w) \<and> length (q_proms w) \<le> length (q_proms w1) \<and>
     (\<forall>p < length (q_proms w). waits_for p w1 \<subseteq> waits_for p w)"

lemma no_further_trans: "no_further k w w1 \<Longrightarrow> no_further k w1 w2 \<Longrightarrow> no_further k w w2"
  unfolding no_further_def by (metis order_trans subset_trans order_less_le_trans)

lemma same_hooks_waits: "same_hooks w w1 \<Longrightarrow> hooks_ok w \<Longrightarrow> waits_for p w1 = waits_for p w"
proof -
  assume sh: "same_hooks w w1" and ok: "hooks_ok w"
  have "hook_list (q_objs w1 ! j) = hook_list (q_objs w ! j)" if "j < length (q_objs w)" for j
    using same_hooks_lists [OF sh] that by (metis length_map nth_map)
  then show ?thesis using sh hooks_live [OF ok] by (fastforce simp: waits_for_def same_hooks_def)
qed

lemma same_hooks_further:
  "same_hooks w w1 \<Longrightarrow> hooks_ok w \<Longrightarrow> (\<And>k'. k' \<noteq> k \<Longrightarrow> q_queue w1 k' = q_queue w k') \<Longrightarrow> no_further k w w1"
  unfolding no_further_def using same_hooks_waits [of w w1] asks_left_cong [of w1 _ w] by (simp add: same_hooks_def)

lemma queueHooks_further: "hooks_ok w \<Longrightarrow> queueHooks k w = (j, w1) \<Longrightarrow> no_further k w w1 \<and> length (q_proms w1) = length (q_proms w)"
proof (cases "q_hooks w k")
  case None
  assume ok: "hooks_ok w" and h: "queueHooks k w = (j, w1)"
  have w1: "w1 = w\<lparr>q_objs := q_objs w @ [new_hooks k], q_hooks := (q_hooks w)(k := Some (length (q_objs w)))\<rparr>"
    using h None by (auto simp: queueHooks_def)
  have "hook_list (new_hooks k) = [RemoveData k]" by (simp add: hook_list_def new_hooks_def)
  then have "waits_for p w1 \<subseteq> waits_for p w" for p
    using hooks_live [OF ok] by (fastforce simp: waits_for_def w1 nth_append split: if_splits)
  then show ?thesis by (simp add: no_further_def w1 asks_left_def waiting_def get_queue_def)
qed (auto simp: queueHooks_def no_further_def)

lemma later_call:
  assumes "x \<noteq> InProgress"
  shows "\<exists>w1. qcall (Suc n) later_user x k j w = Inr w1 \<and> same_hooks w w1 \<and> q_queue w1 = q_queue w"
  using assms same_hooks_steps(5) [of w k j]
  by (cases x) (simp_all add: later_user_def same_hooks_def start_timer_def set_stop_def)

lemma later_dequeue:
  assumes "dequeue_ready k w"
  shows "\<exists>w1. dequeue_with (qcall (Suc n) later_user) k w = Inr w1 \<and> asks_left k w1 = asks_left k w - 1 \<and> no_further k w w1"
proof -
  have ready: "hooks_ok w" "proms_ok w" "shape k (get_queue k w)" using assms by (auto simp: dequeue_ready_def)
  obtain j w1 where hk: "queueHooks k w = (j, w1)" by (cases "queueHooks k w")
  note h = queueHooks_ok [OF ready(1,2) hk]
  note nf = queueHooks_further [OF ready(1) hk]
  note wt = front_item_waiting [OF ready(3)]
  show ?thesis
  proof (cases "front_item (get_queue k w)")
    case None
    have sh: "same_hooks w1 (emptied k w1)" by (simp add: emptied_def same_hooks_steps)
    have nf1: "no_further k w1 (emptied k w1)"
      by (rule same_hooks_further [OF sh h(1)]) (simp add: emptied_def set_queue_def)
    obtain w2 where w2: "fire_empty j (emptied k w1) = Inr w2" "q_queue w2 = (q_queue (emptied k w1))(k := None)"
      "length (q_proms w2) = length (q_proms (emptied k w1))" "\<forall>p. waits_for p w2 \<subseteq> waits_for p (emptied k w1)"
      using fired_ok [of "emptied k w1" k j] same_hooks_ok [OF sh] h(1,2,3) sh unfolding same_hooks_def by auto
    have nf2: "no_further k (emptied k w1) w2"
      using w2(2-4) by (simp add: no_further_def asks_left_def waiting_def get_queue_def)
    have "asks_left k w \<le> 1" "asks_left k w2 = 0" using wt None by (auto simp: asks_left_def waiting_def w2(2))
    then show ?thesis using dequeue_eq [OF ready(3) hk, of "qcall (Suc n) later_user"] None w2(1)
        no_further_trans [OF no_further_trans [OF conjunct1 [OF nf] nf1] nf2] by simp
  next
    case (Some q)
    obtain f r where n: "front_item (get_queue k w) = Some (f, r)" using Some by (cases q) auto
    let ?w = "started_world k j f r w1"
    have fr: "f \<noteq> InProgress" "InProgress \<notin> set r" "waiting k w = f # r" using wt n by (auto simp: waiting_def)
    have fl: "filter (\<lambda>x. x \<noteq> InProgress) r = r" using fr(2) by (auto simp: filter_id_conv)
    have sh: "same_hooks w1 ?w" unfolding started_world_def by (meson same_hooks_steps same_hooks_trans)
    obtain w2 where w2: "qcall (Suc n) later_user f k j ?w = Inr w2" "same_hooks ?w w2" "q_queue w2 = q_queue ?w"
      using later_call [OF fr(1), of n k j ?w] by blast
    have q: "q_queue w2 = (q_queue w1)(k := Some (if snd k = ''fx'' then InProgress # r else r))"
      by (simp add: w2(3) started_world_def log_event_def set_stop_def set_queue_def)
    have nf1: "no_further k w1 w2"
      by (rule same_hooks_further [OF same_hooks_trans [OF sh w2(2)] h(1)]) (simp add: q)
    have "q_queue w k \<noteq> None" using fr(3) by (cases "q_queue w k") (simp_all add: waiting_def get_queue_def)
    then have "asks_left k w = Suc (Suc (length r))" "asks_left k w2 = Suc (length r)"
      using fr(3) fl by (simp_all add: asks_left_def waiting_def get_queue_def q)
    then show ?thesis using dequeue_eq [OF ready(3) hk, of "qcall (Suc n) later_user"] n w2(1)
        no_further_trans [OF conjunct1 [OF nf] nf1] by simp
  qed
qed

text \<open>The same for a step that queues for some keys only, and asks others so often.\<close>

definition closer :: "key set \<Rightarrow> (key \<Rightarrow> nat) \<Rightarrow> 'f qworld \<Rightarrow> 'f qworld \<Rightarrow> bool" where
  "closer K a w w1 \<longleftrightarrow> length (q_proms w) \<le> length (q_proms w1) \<and> (\<forall>p < length (q_proms w). waits_for p w1 \<subseteq> waits_for p w) \<and>
     (\<forall>k. k \<notin> K \<longrightarrow> asks_left k w1 \<le> asks_left k w - a k)"

lemma closer_further:
  assumes "no_further k w w1" "k \<notin> K \<Longrightarrow> asks_left k w1 \<le> asks_left k w - a k" "\<And>k'. k' \<noteq> k \<Longrightarrow> a k' = 0"
  shows "closer K a w w1"
proof -
  have "asks_left k' w1 \<le> asks_left k' w - a k'" if "k' \<notin> K" for k'
  proof (cases "k' = k")
    case False
    then have "asks_left k' w1 = asks_left k' w" using assms(1) unfolding no_further_def by blast
    then show ?thesis using assms(3) [OF False] by simp
  qed (use assms(2) that in simp)
  then show ?thesis using assms(1) unfolding no_further_def closer_def by blast
qed

lemma closer_trans:
  assumes "closer K a w w1" "closer K1 a1 w1 w2"
  shows "closer (K \<union> K1) (\<lambda>k. a k + a1 k) w w2"
proof -
  have "asks_left k w2 \<le> asks_left k w - (a k + a1 k)" if "k \<notin> K \<union> K1" for k
  proof -
    have "asks_left k w1 \<le> asks_left k w - a k" "asks_left k w2 \<le> asks_left k w1 - a1 k"
      using assms that unfolding closer_def by blast+
    then show ?thesis by simp
  qed
  moreover have "waits_for p w2 \<subseteq> waits_for p w" if "p < length (q_proms w)" for p
  proof -
    have "p < length (q_proms w1)" using assms(1) that unfolding closer_def by simp
    then show ?thesis using assms that unfolding closer_def by blast
  qed
  moreover have "length (q_proms w) \<le> length (q_proms w2)"
    using assms order_trans unfolding closer_def by blast
  ultimately show ?thesis unfolding closer_def by blast
qed

definition op_queues :: "'f qop \<Rightarrow> key set" where
  "op_queues p = (case p of Enqueue k x \<Rightarrow> {k} | _ \<Rightarrow> {})"

definition op_asks :: "'f qop \<Rightarrow> key \<Rightarrow> nat" where
  "op_asks p k = (case p of Next k' \<Rightarrow> (if k' = k then 1 else 0) | _ \<Rightarrow> 0)"

lemma clear_timer_same:
  "asks_left k (clear_timer t w) = asks_left k w" "waits_for p (clear_timer t w) = waits_for p w" "q_proms (clear_timer t w) = q_proms w"
  by (simp_all add: asks_left_def waiting_def get_queue_def clear_timer_def waits_for_def)

lemma later_op:
  assumes "qinv w" "ordinary_qop p"
  shows "\<exists>w1. run_qop (qcall (Suc n) later_user) p w = Inr w1 \<and> closer (op_queues p) (op_asks p) w w1"
proof -
  note ok = qinvD(2) [OF assms(1)]
  show ?thesis
  proof (cases p)
    case (Enqueue k x)
    let ?w = "add_item k x w"
    obtain j w1 where hk: "queueHooks k ?w = (j, w1)" by (cases "queueHooks k ?w")
    have sh: "same_hooks w ?w" unfolding add_item_def by (meson same_hooks_steps same_hooks_trans)
    have nf: "no_further k w w1"
      using no_further_trans [OF same_hooks_further [OF sh ok] conjunct1 [OF queueHooks_further [OF same_hooks_ok(1) [OF sh ok] hk]]]
      by (simp add: add_item_def log_event_def set_queue_def)
    have x: "x \<noteq> InProgress" using assms(2) by (simp add: Enqueue)
    note ready = enqueue_ready [OF assms(1) x hk, of "dequeue_with (qcall (Suc n) later_user) k"]
    have "\<exists>w2. after_queue (dequeue_with (qcall (Suc n) later_user) k) k ?w = Inr w2 \<and> no_further k w1 w2"
    proof (cases "snd k = ''fx'' \<and> get_queue k w = []")
      case True
      then show ?thesis using ready later_dequeue [of k w1 n] by auto
    next
      case False
      have "after_queue (dequeue_with (qcall (Suc n) later_user) k) k ?w = Inr w1" using ready unfolding if_not_P [OF False] by blast
      then show ?thesis by (auto simp: no_further_def)
    qed
    then obtain w2 where w2: "run_qop (qcall (Suc n) later_user) p w = Inr w2" "no_further k w1 w2" by (auto simp: Enqueue)
    have "closer (op_queues p) (op_asks p) w w2"
      by (rule closer_further [OF no_further_trans [OF nf w2(2)]]) (simp_all add: op_queues_def op_asks_def Enqueue)
    then show ?thesis using w2(1) by blast
  next
    case (Next k)
    let ?w = "log_event (Asked k) w"
    have nf: "no_further k w ?w" by (rule same_hooks_further [OF same_hooks_steps(2) ok]) (simp add: log_event_def)
    have l: "asks_left k ?w = asks_left k w" by (rule asks_left_cong) (simp add: log_event_def)
    obtain w1 where w1: "run_qop (qcall (Suc n) later_user) p w = Inr w1" "asks_left k w1 = asks_left k w - 1" "no_further k ?w w1"
      using later_dequeue [OF next_ready [OF assms(1)], where n = n and k = k] l by (auto simp: Next)
    have "closer (op_queues p) (op_asks p) w w1"
      by (rule closer_further [OF no_further_trans [OF nf w1(3)]]) (simp_all add: op_queues_def op_asks_def Next w1(2))
    then show ?thesis using w1(1) by blast
  next
    case (Promise es ty)
    obtain w1 where w1: "run_promise es ty w = Inr w1" "length (q_proms w1) = Suc (length (q_proms w))" "q_queue w1 = q_queue w"
      "\<forall>p < length (q_proms w). waits_for p w1 \<subseteq> waits_for p w" using promise_made [OF assms(1)] by blast
    have "asks_left k w1 = asks_left k w" for k by (rule asks_left_cong) (simp add: w1(3))
    then show ?thesis using w1 by (simp add: Promise closer_def op_queues_def op_asks_def)
  next
    case (StopHook k)
    then show ?thesis by (simp add: closer_def op_asks_def clear_timer_same split: option.split)
  qed (use assms(2) in simp)
qed

primrec step_queues :: "'f qstep \<Rightarrow> key set" where
  "step_queues (Do p) = op_queues p"
| "step_queues (Timeout t) = {}"

primrec step_asks :: "'f qstep \<Rightarrow> key \<Rightarrow> nat" where
  "step_asks (Do p) k = op_asks p k"
| "step_asks (Timeout t) k = 0"

lemma later_step:
  assumes "qinv w" "ordinary_step s"
  shows "\<exists>w1. run_step (Suc n) later_user s w = Inr w1 \<and> qinv w1 \<and> closer (step_queues s) (step_asks s) w w1"
proof -
  have keep: "qkeeps (\<lambda>_. False) (run_step (Suc n) later_user s w)" by (rule step_keeps [OF later.queue_calls_axioms assms])
  have "\<exists>w1. run_step (Suc n) later_user s w = Inr w1 \<and> closer (step_queues s) (step_asks s) w w1"
  proof (cases s)
    case (Do p)
    then show ?thesis using later_op [OF assms(1), of p n] assms(2) by (simp add: run_step_def closer_def del: run_qop.simps)
  next
    case (Timeout t)
    show ?thesis
    proof (cases "map_of (q_timers w) t")
      case None
      then show ?thesis by (simp add: Timeout run_step_def closer_def)
    next
      case (Some k)
      obtain w1 where w1: "run_qop (qcall (Suc n) later_user) (Next k) (clear_timer t w) = Inr w1"
        "closer {} (op_asks (Next k :: 'a qop)) (clear_timer t w) w1"
        using later_op [OF clear_timer_keeps [where t = t, OF assms(1)], where n = n and p = "Next k"]
        by (auto simp: op_queues_def simp del: run_qop.simps)
      have "closer {} (\<lambda>_. 0) w w1"
        using w1(2) order_trans [OF _ diff_le_self] unfolding closer_def clear_timer_same by (metis (no_types, lifting) diff_zero)
      then show ?thesis using w1(1) Some by (simp add: Timeout run_step_def closer_def del: run_qop.simps)
    qed
  qed
  then show ?thesis using keep by auto
qed

definition steps_queue :: "'f qstep list \<Rightarrow> key set" where
  "steps_queue ss = \<Union> (set (map step_queues ss))"

definition steps_ask :: "'f qstep list \<Rightarrow> key \<Rightarrow> nat" where
  "steps_ask ss k = sum_list (map (\<lambda>s. step_asks s k) ss)"

lemma later_steps:
  "qinv w \<Longrightarrow> list_all ordinary_step ss \<Longrightarrow>
    \<exists>w1. run_steps (Suc n) later_user ss w = Inr w1 \<and> qinv w1 \<and> closer (steps_queue ss) (steps_ask ss) w w1"
proof (induction ss arbitrary: w)
  case Nil
  then show ?case by (simp add: closer_def steps_ask_def)
next
  case (Cons s ss)
  obtain w1 where w1: "run_step (Suc n) later_user s w = Inr w1" "qinv w1" "closer (step_queues s) (step_asks s) w w1"
    using later_step [OF Cons.prems(1), of s n] Cons.prems(2) by auto
  obtain w2 where w2: "run_steps (Suc n) later_user ss w1 = Inr w2" "qinv w2" "closer (steps_queue ss) (steps_ask ss) w1 w2"
    using Cons.IH [OF w1(2)] Cons.prems(2) by auto
  have "closer (steps_queue (s # ss)) (steps_ask (s # ss)) w w2"
    using closer_trans [OF w1(3) w2(3)] by (simp add: steps_queue_def steps_ask_def closer_def)
  then show ?case using w1(1) w2(1,2) by simp
qed

section \<open>Promises\<close>

lemma pending_none:
  assumes "qinv w"
  shows "pending_hooks p w = 0 \<longleftrightarrow> (\<forall>k j. q_hooks w k = Some j \<longrightarrow> ResolveOne p \<notin> set (hook_list (q_objs w ! j)))"
proof -
  note ok = qinvD(2) [OF assms]
  have "pending_hooks p w = 0 \<longleftrightarrow> (\<forall>j < length (q_objs w). ResolveOne p \<notin> set (hook_list (q_objs w ! j)))"
    by (simp add: pending_hooks_def count_list_0_iff all_set_conv_all_nth)
  also have "\<dots> \<longleftrightarrow> (\<forall>k j. q_hooks w k = Some j \<longrightarrow> ResolveOne p \<notin> set (hook_list (q_objs w ! j)))"
  proof
    show "\<forall>j < length (q_objs w). ResolveOne p \<notin> set (hook_list (q_objs w ! j)) \<Longrightarrow>
      \<forall>k j. q_hooks w k = Some j \<longrightarrow> ResolveOne p \<notin> set (hook_list (q_objs w ! j))" using hooks_live [OF ok] by blast
    assume no: "\<forall>k j. q_hooks w k = Some j \<longrightarrow> ResolveOne p \<notin> set (hook_list (q_objs w ! j))"
    show "\<forall>j < length (q_objs w). ResolveOne p \<notin> set (hook_list (q_objs w ! j))"
    proof (intro allI impI)
      fix j assume "j < length (q_objs w)"
      then consider k where "q_hooks w k = Some j" | "hook_list (q_objs w ! j) = []" using hooks_spent [OF ok] by blast
      then show "ResolveOne p \<notin> set (hook_list (q_objs w ! j))" using no by cases auto
    qed
  qed
  finally show ?thesis .
qed

lemma resolved_iff: "qinv w \<Longrightarrow> p < length (q_proms w) \<Longrightarrow> pr_resolved (q_proms w ! p) \<longleftrightarrow> waits_for p w = {}"
  using qinvD(3) [of w] pending_none [of w p] unfolding proms_ok_def waits_for_def by fastforce

text \<open>A promise waits no longer for queues that were asked often enough.\<close>

lemma asked_enough:
  assumes "qinv w1" "closer (steps_queue ss) (steps_ask ss) w w1" "p < length (q_proms w)"
    "\<forall>k \<in> waits_for p w. k \<notin> steps_queue ss \<and> Suc (length (waiting k w)) \<le> steps_ask ss k"
  shows "waits_for p w1 = {}"
proof -
  have False if "k \<in> waits_for p w1" for k
  proof -
    have k: "k \<in> waits_for p w" using assms(2,3) that unfolding closer_def by blast
    then have "asks_left k w1 \<le> asks_left k w - steps_ask ss k" "Suc (length (waiting k w)) \<le> steps_ask ss k"
      using assms(2,4) unfolding closer_def by blast+
    then have "q_queue w1 k = None" by (simp add: asks_left_def split: if_splits)
    then have "q_hooks w1 k = None" using qinvD(1) [OF assms(1), of k] by (simp add: queues_ok_def)
    then show False using that by (simp add: waits_for_def)
  qed
  then show ?thesis by blast
qed

text \<open>C40: A promise made by \<open>promise ()\<close> is resolved at once exactly when none of the elements has a queue
  of the type, and one made before is resolved exactly when no queue that is left has it among the functions to
  call when it runs empty, so never early. And it is resolved in the end: when from then on the functions called
  ask for the next one later (as animations and \<open>delay\<close> do), whatever ordinary operations and timers follow in
  whatever order, as soon as each queue the promise waits for has been asked for the next one as often as it has
  functions waiting and once more, and nothing was queued for it meanwhile. Not in the model, and so not in the
  statement: animations with \<open>queue: false\<close>, which count themselves in the hooks of a queue without one; ordinary
  operations are all but \<open>clearQueue\<close>.\<close>
theorem promise_waits:
  assumes "ordinary_user user" "list_all ordinary_step ss" "run_steps n user ss no_queues = Inr w"
  shows "(\<exists>w1. run_promise es ty w = Inr w1 \<and>
      (pr_resolved (q_proms w1 ! length (q_proms w)) \<longleftrightarrow> (\<forall>e \<in> set es. q_queue w (e, ty) = None))) \<and>
    (\<forall>p < length (q_proms w). (pr_resolved (q_proms w ! p) \<longleftrightarrow> waits_for p w = {}) \<and>
      (\<forall>ss1. list_all ordinary_step ss1 \<longrightarrow>
        (\<forall>k \<in> waits_for p w. k \<notin> steps_queue ss1 \<and> Suc (length (waiting k w)) \<le> steps_ask ss1 k) \<longrightarrow>
        (\<exists>w1. run_steps (Suc m) later_user ss1 w = Inr w1 \<and> pr_resolved (q_proms w1 ! p))))"
proof -
  have inv: "qinv w" by (rule reached_inv [OF assms])
  obtain w1 where w1: "run_promise es ty w = Inr w1" "qinv w1" "length (q_proms w1) = Suc (length (q_proms w))"
    "pending_hooks (length (q_proms w)) w1 = length (filter (\<lambda>e. q_hooks w (e, ty) \<noteq> None) es)"
    using promise_made [OF inv] by blast
  have "q_queue w k = None \<longleftrightarrow> q_hooks w k = None" for k using qinvD(1) [OF inv, of k] by (simp add: queues_ok_def)
  then have "pr_resolved (q_proms w1 ! length (q_proms w)) \<longleftrightarrow> (\<forall>e \<in> set es. q_queue w (e, ty) = None)"
    using qinvD(3) [OF w1(2)] w1(3,4) by (simp add: proms_ok_def filter_empty_conv)
  moreover have "\<exists>w1. run_steps (Suc m) later_user ss1 w = Inr w1 \<and> pr_resolved (q_proms w1 ! p)"
    if p: "p < length (q_proms w)" and ss1: "list_all ordinary_step ss1"
      and asks: "\<forall>k \<in> waits_for p w. k \<notin> steps_queue ss1 \<and> Suc (length (waiting k w)) \<le> steps_ask ss1 k" for p ss1
  proof -
    obtain w1 where w1: "run_steps (Suc m) later_user ss1 w = Inr w1" "qinv w1" "closer (steps_queue ss1) (steps_ask ss1) w w1"
      using later_steps [OF inv ss1] by blast
    have "p < length (q_proms w1)" using w1(3) p unfolding closer_def by simp
    moreover have "waits_for p w1 = {}" by (rule asked_enough [OF w1(2,3) p asks])
    ultimately show ?thesis using w1(1) resolved_iff [OF w1(2)] by blast
  qed
  ultimately show ?thesis using w1(1) resolved_iff [OF inv] by blast
qed

lemma promise_waits_witness:
  "case run_steps 2 later_user (three_animations @ [Do (Promise [1, 2] ''fx'')]) no_queues of Inl e \<Rightarrow> False
    | Inr w \<Rightarrow> \<not> pr_resolved (q_proms w ! 0) \<and> (\<exists>w1. run_promise [2] ''fx'' w = Inr w1 \<and> pr_resolved (q_proms w1 ! 1)) \<and>
        (\<exists>w1. run_steps 2 later_user [Do (Next (1, ''fx'')), Do (Enqueue (2, ''fx'') (QFn 40)), Do (Next (1, ''fx''))] w = Inr w1 \<and>
          pr_resolved (q_proms w1 ! 0))"
proof -
  let ?ss = "three_animations @ [Do (Promise [1, 2] ''fx'')]"
  let ?ss1 = "[Do (Next (1, ''fx'')), Do (Enqueue (2, ''fx'') (QFn 40)), Do (Next (1, ''fx''))] :: nat qstep list"
  have ss: "list_all ordinary_step ?ss" "list_all ordinary_step ?ss1" by (simp_all add: three_animations_def)
  have user: "ordinary_user (later_user :: nat qevent list \<Rightarrow> _)" by (simp add: ordinary_user_def later_user_def)
  have r: "case run_steps 2 later_user ?ss no_queues of Inl e \<Rightarrow> False
    | Inr w \<Rightarrow> length (q_proms w) = 1 \<and> q_hooks w (1, ''fx'') = Some 0 \<and> ResolveOne 0 \<in> set (hook_list (q_objs w ! 0)) \<and>
      q_queue w (2, ''fx'') = None \<and> length (waiting (1, ''fx'') w) = 1 \<and> length (q_objs w) = 1"
    by code_simp
  obtain w where w: "run_steps 2 later_user ?ss no_queues = Inr w" using r by (cases "run_steps 2 later_user ?ss no_queues") auto
  note f = r [unfolded w sum.case]
  have two: "Suc 1 = 2" by simp
  note t = promise_waits [OF user ss(1) w, of "[2]" "''fx''" 1, unfolded two]
  have here: "(1, ''fx'') \<in> waits_for 0 w" using f by (simp add: waits_for_def)
  have live: "q_hooks w k = Some j \<Longrightarrow> j = 0 \<and> (\<exists>ps. h_empty (q_objs w ! 0) = live k ps)" for k j
    using hooks_live [OF qinvD(2) [OF reached_inv [OF user ss(1) w]], of k j] f by auto
  have "k = (1, ''fx'')" if k: "k \<in> waits_for 0 w" for k
  proof -
    obtain ps where "h_empty (q_objs w ! 0) = live k ps" using k live [of k] by (auto simp: waits_for_def)
    moreover obtain ps' where "h_empty (q_objs w ! 0) = live (1, ''fx'') ps'" using live [of "(1, ''fx'')" 0] f by blast
    ultimately have "live k ps = live (1, ''fx'') ps'" by simp
    then show ?thesis by (rule live_key)
  qed
  then have only: "waits_for 0 w = {(1, ''fx'')}" using here by blast
  have "steps_queue ?ss1 = {(2, ''fx'')}" "steps_ask ?ss1 (1, ''fx'') = 2"
    by (simp_all add: steps_queue_def steps_ask_def op_queues_def op_asks_def)
  then have "\<forall>k \<in> waits_for 0 w. k \<notin> steps_queue ?ss1 \<and> Suc (length (waiting k w)) \<le> steps_ask ?ss1 k" using f only by simp
  then have "\<exists>w1. run_steps 2 later_user ?ss1 w = Inr w1 \<and> pr_resolved (q_proms w1 ! 0)"
    using conjunct2 [OF t, THEN spec, of 0] f ss(2) by (metis less_numeral_extra(1))
  moreover have "\<not> pr_resolved (q_proms w ! 0)" using t f only by simp
  moreover have "\<exists>w1. run_promise [2] ''fx'' w = Inr w1 \<and> pr_resolved (q_proms w1 ! 1)" using t f by auto
  ultimately show ?thesis unfolding w sum.case by blast
qed

section \<open>\<open>clearQueue\<close>\<close>

text \<open>\<open>clearQueue\<close> drops the sentinel with the functions that wait: a promise is resolved while the function
  that was called is still in progress, and the next function queued is called beside it, unasked.\<close>
lemma clear_drops_sentinel:
  "case run_steps 2 later_user [Do (Enqueue (1, ''fx'') (QFn 10)), Do (Promise [1] ''fx''), Do (ClearQueue (1, ''fx'')),
      Do (Enqueue (1, ''fx'') (QFn (20::nat)))] no_queues of Inl e \<Rightarrow> False
    | Inr w \<Rightarrow> pr_resolved (q_proms w ! 0) \<and> started (1, ''fx'') (q_log w) = [QFn 10, QFn 20] \<and> asked (1, ''fx'') (q_log w) = 0"
  by code_simp

end
