(* ===== verification/JQ_Classes.thy ===== *)
theory JQ_Classes
  imports JQ_Core
begin

text \<open>
  The class names of elements (\<open>addClass\<close>, \<open>removeClass\<close>, \<open>toggleClass\<close>, \<open>hasClass\<close>,
  jquery.js). The code works on the text of \<open>className\<close>, padded with blanks; the theorem says that
  it computes with sets of names. An element has its node type, its \<open>className\<close> and what
  \<open>toggleClass\<close> has saved of it; \<open>this\<close> is a list of elements.
\<close>

section \<open>Elements and arguments\<close>

record class_elem =
  nodeType :: int
  className :: string
  saved_class :: "string option"

text \<open>The argument: a text, a function of the index and the class name, or another value.\<close>

datatype class_arg = Names string | NameFn "nat \<Rightarrow> string \<Rightarrow> string option" | NoNames | BoolArg bool

definition rclass :: "string \<Rightarrow> string" where
  "rclass s = map (\<lambda>c. if (of_char c :: int) \<in> {9, 10, 12, 13} then CHR '' '' else c) s"

definition spaced :: "string \<Rightarrow> string" where
  "spaced v = '' '' @ v @ '' ''"

section \<open>The loops over the names\<close>

primrec add_names :: "string list \<Rightarrow> string \<Rightarrow> string" where
  "add_names [] cur = cur"
| "add_names (v # vs) cur = add_names vs (if string_index cur (spaced v) < 0 then cur @ v @ '' '' else cur)"

lemma replace_first_shorter:
  assumes "string_index cur (spaced v) \<ge> 0" "v \<noteq> []"
  shows "length (replace_first (spaced v) '' '' cur) < length cur"
proof (cases rule: string_index_from_cases [of cur "spaced v"])
  case (2 a b)
  then show ?thesis using assms by (simp add: replace_first_def spaced_def)
qed (use assms in simp)

function remove_name :: "string \<Rightarrow> string \<Rightarrow> string" where
  "remove_name v cur =
     (if v \<noteq> [] \<and> string_index cur (spaced v) \<ge> 0 then remove_name v (replace_first (spaced v) '' '' cur) else cur)"
  by pat_completeness auto
termination
  by (relation "measure (\<lambda>(v, cur). length cur)") (use replace_first_shorter in auto)

declare remove_name.simps [simp del]

section \<open>The methods on one element\<close>

definition cur_add :: "class_elem \<Rightarrow> string option" where
  "cur_add e = (if nodeType e \<noteq> 1 then None
     else Some (if className e \<noteq> [] then rclass (spaced (className e)) else '' ''))"

definition cur_remove :: "class_elem \<Rightarrow> string option" where
  "cur_remove e = (if nodeType e \<noteq> 1 \<or> className e = [] then None else Some (rclass (spaced (className e))))"

definition add_to_elem :: "string \<Rightarrow> class_elem \<Rightarrow> class_elem" where
  "add_to_elem value e =
     (case cur_add e of None \<Rightarrow> e
      | Some cur \<Rightarrow> e\<lparr>className := trim (add_names (match_rnotwhite value) cur)\<rparr>)"

definition remove_from_elem :: "string \<Rightarrow> class_elem \<Rightarrow> class_elem" where
  "remove_from_elem value e =
     (case cur_remove e of None \<Rightarrow> e
      | Some cur \<Rightarrow> e\<lparr>className :=
          (if value \<noteq> [] then trim (fold remove_name (match_rnotwhite value) cur) else [])\<rparr>)"

definition elem_has :: "string \<Rightarrow> class_elem \<Rightarrow> bool" where
  "elem_has selector e \<longleftrightarrow> nodeType e = 1 \<and> string_index (rclass (spaced (className e))) (spaced selector) \<ge> 0"

definition hasClass :: "string \<Rightarrow> class_elem list \<Rightarrow> bool" where
  "hasClass selector es = list_ex (elem_has selector) es"

section \<open>The methods on a list of elements\<close>

definition each_index :: "(nat \<Rightarrow> class_elem \<Rightarrow> class_elem) \<Rightarrow> class_elem list \<Rightarrow> class_elem list" where
  "each_index f es = map (\<lambda>(i, e). f i e) (zip [0..<length es] es)"

definition add_text :: "string option \<Rightarrow> class_elem \<Rightarrow> class_elem" where
  "add_text value e = (case value of Some v \<Rightarrow> if v \<noteq> [] then add_to_elem v e else e | None \<Rightarrow> e)"

fun addClass :: "class_arg \<Rightarrow> class_elem list \<Rightarrow> class_elem list" where
  "addClass (NameFn f) es = each_index (\<lambda>i e. add_text (f i (className e)) e) es"
| "addClass (Names v) es = map (add_text (Some v)) es"
| "addClass _ es = es"

text \<open>\<open>NoNames\<close> stands for a missing argument, which removes every class; a function that
  returns no text removes nothing.\<close>

definition remove_text :: "string option \<Rightarrow> class_elem \<Rightarrow> class_elem" where
  "remove_text value e = (case value of Some v \<Rightarrow> if v \<noteq> [] then remove_from_elem v e else e | None \<Rightarrow> e)"

fun removeClass :: "class_arg \<Rightarrow> class_elem list \<Rightarrow> class_elem list" where
  "removeClass (NameFn f) es = each_index (\<lambda>i e. remove_text (f i (className e)) e) es"
| "removeClass (Names v) es = map (remove_text (Some v)) es"
| "removeClass NoNames es = map (remove_from_elem []) es"
| "removeClass (BoolArg b) es = es"

definition toggle_name :: "string \<Rightarrow> class_elem \<Rightarrow> class_elem" where
  "toggle_name v e = (if elem_has v e then remove_from_elem v e else add_to_elem v e)"

definition toggle_whole :: "bool option \<Rightarrow> class_elem \<Rightarrow> class_elem" where
  "toggle_whole value e =
     (let e1 = (if className e \<noteq> [] then e\<lparr>saved_class := Some (className e)\<rparr> else e) in
      e1\<lparr>className := (if className e1 \<noteq> [] \<or> value = Some False then []
                        else case saved_class e1 of Some s \<Rightarrow> s | None \<Rightarrow> [])\<rparr>)"

definition toggle_text :: "bool option \<Rightarrow> string option \<Rightarrow> class_elem \<Rightarrow> class_elem" where
  "toggle_text stateVal value e =
     (case (value, stateVal) of
        (Some v, Some True) \<Rightarrow> add_text (Some v) e
      | (Some v, Some False) \<Rightarrow> remove_text (Some v) e
      | (Some v, None) \<Rightarrow> fold toggle_name (match_rnotwhite v) e
      | (None, _) \<Rightarrow> toggle_whole None e)"

fun toggleClass :: "class_arg \<Rightarrow> bool option \<Rightarrow> class_elem list \<Rightarrow> class_elem list" where
  "toggleClass (Names v) s es = map (toggle_text s (Some v)) es"
| "toggleClass (NameFn f) s es = each_index (\<lambda>i e. toggle_text s (f i (className e)) e) es"
| "toggleClass (BoolArg b) s es = map (toggle_whole (Some b)) es"
| "toggleClass NoNames s es = map (toggle_whole None) es"

section \<open>The names of a padded text\<close>

text \<open>A text as the loops work on it: blanks are its only white space, and it begins and ends with
  one.\<close>

definition padded :: "string \<Rightarrow> bool" where
  "padded s \<longleftrightarrow> (\<forall>c \<in> set s. is_space c \<longrightarrow> c = CHR '' '') \<and> s \<noteq> [] \<and> hd s = CHR '' '' \<and> last s = CHR '' ''"

definition is_name :: "string \<Rightarrow> bool" where
  "is_name v \<longleftrightarrow> v \<noteq> [] \<and> (\<forall>c \<in> set v. \<not> is_space c)"

lemma space_blank [simp]: "is_space CHR '' ''"
  by (simp add: is_space_def)

lemma match_spaced: "is_name v \<Longrightarrow> match_rnotwhite (a @ spaced v @ b) = match_rnotwhite a @ v # match_rnotwhite b"
  using match_append_space [of "CHR '' ''" a "v @ '' '' @ b"] match_append_space [of "CHR '' ''" v b]
  by (simp add: spaced_def is_name_def match_word)

lemma match_blank: "match_rnotwhite (a @ '' '' @ b) = match_rnotwhite a @ match_rnotwhite b"
  using match_append_space [of "CHR '' ''" a b] by simp

text \<open>A word of an accumulating match is delimited on both sides.\<close>

lemma rnotwhite_from_delimited:
  "v \<in> set (rnotwhite_from w s) \<Longrightarrow> \<forall>c \<in> set w. \<not> is_space c \<Longrightarrow>
    \<exists>a b. w @ s = a @ v @ b \<and> (a = [] \<or> is_space (last a)) \<and> (b = [] \<or> is_space (hd b))"
proof (induction w s rule: rnotwhite_from.induct)
  case (1 w)
  then show ?case by (auto split: if_splits intro: exI [of _ "[]"])
next
  case (2 w c cs)
  show ?case
  proof (cases "is_space c")
    case True
    consider "v = w" "w \<noteq> []" | "v \<in> set (rnotwhite_from [] cs)" using 2(3) True by (auto split: if_splits)
    then show ?thesis
    proof cases
      case 1
      then show ?thesis using True by (intro exI [of _ "[]"] exI [of _ "c # cs"]) simp
    next
      case 2
      then obtain a b where "cs = a @ v @ b" "a = [] \<or> is_space (last a)" "b = [] \<or> is_space (hd b)"
        using "2.IH"(1) True by auto
      then show ?thesis using True by (intro exI [of _ "w @ c # a"] exI [of _ b]) auto
    qed
  next
    case False
    then show ?thesis using 2 by simp
  qed
qed

lemma padded_contains:
  assumes "padded s" "is_name v"
  shows "string_index s (spaced v) \<ge> 0 \<longleftrightarrow> v \<in> set (match_rnotwhite s)"
proof
  assume "string_index s (spaced v) \<ge> 0"
  then obtain a b where "s = a @ spaced v @ b"
    by (cases rule: string_index_from_cases [of s "spaced v"]) auto
  then show "v \<in> set (match_rnotwhite s)" using match_spaced [OF assms(2)] by simp
next
  assume "v \<in> set (match_rnotwhite s)"
  then obtain a b where s: "s = a @ v @ b" "a = [] \<or> is_space (last a)" "b = [] \<or> is_space (hd b)"
    using rnotwhite_from_delimited [of v "[]" s] by (auto simp: match_rnotwhite_def)
  have "hd v \<noteq> CHR '' ''" "last v \<noteq> CHR '' ''"
    using assms(2) space_blank hd_in_set last_in_set unfolding is_name_def by metis+
  then have "a \<noteq> []" "b \<noteq> []"
    using s(1) assms by (auto simp: padded_def is_name_def hd_append last_append split: if_splits)
  then have "last a = CHR '' ''" "hd b = CHR '' ''"
    using s assms(1) by (auto simp: padded_def)
  then have "s = butlast a @ spaced v @ tl b"
    using s(1) \<open>a \<noteq> []\<close> \<open>b \<noteq> []\<close> by (simp add: spaced_def) (metis append_butlast_last_id append.assoc append_Cons append_Nil list.collapse)
  then show "string_index s (spaced v) \<ge> 0"
    by (cases rule: string_index_from_cases [of s "spaced v"]) auto
qed

lemma padded_add: "padded s \<Longrightarrow> is_name v \<Longrightarrow> padded (s @ v @ '' '') \<and> match_rnotwhite (s @ v @ '' '') = match_rnotwhite s @ [v]"
proof
  assume a: "padded s" "is_name v"
  then show "padded (s @ v @ '' '')" by (auto simp: padded_def is_name_def)
  have "s = butlast s @ '' ''" using a(1) by (metis append_butlast_last_id padded_def)
  then have "s @ v @ '' '' = butlast s @ spaced v @ []" by (simp add: spaced_def)
  moreover have "match_rnotwhite s = match_rnotwhite (butlast s)"
    using match_blank [of "butlast s" "[]"] \<open>s = butlast s @ '' ''\<close> by simp
  ultimately show "match_rnotwhite (s @ v @ '' '') = match_rnotwhite s @ [v]"
    using match_spaced [OF a(2), of "butlast s" "[]"] by simp
qed

text \<open>One step of the loop of \<open>removeClass\<close>: the text before and after, and the names.\<close>

lemma padded_replace:
  assumes "padded s" "is_name v" "string_index s (spaced v) \<ge> 0"
  shows "padded (replace_first (spaced v) '' '' s) \<and>
    filter (\<lambda>w. w \<noteq> v) (match_rnotwhite (replace_first (spaced v) '' '' s)) = filter (\<lambda>w. w \<noteq> v) (match_rnotwhite s)"
proof (cases rule: string_index_from_cases [of s "spaced v"])
  case (2 a b)
  then have r: "replace_first (spaced v) '' '' s = a @ '' '' @ b" by (simp add: replace_first_def)
  have p: "padded (a @ '' '' @ v @ '' '' @ b)" using assms(1) 2(1) by (simp add: spaced_def)
  have "padded (a @ '' '' @ b)"
    unfolding padded_def
  proof (intro conjI)
    show "\<forall>c \<in> set (a @ '' '' @ b). is_space c \<longrightarrow> c = CHR '' ''" using p by (auto simp: padded_def)
    show "hd (a @ '' '' @ b) = CHR '' ''" using p by (auto simp: padded_def hd_append split: if_splits)
    show "last (a @ '' '' @ b) = CHR '' ''" using p by (simp add: padded_def)
  qed simp
  then show ?thesis
    unfolding r using match_spaced [OF assms(2), of a b] match_blank [of a b] 2(1) by simp
qed (use assms in simp)

lemma remove_name_correct:
  "padded s \<Longrightarrow> is_name v \<Longrightarrow> padded (remove_name v s) \<and>
    match_rnotwhite (remove_name v s) = filter (\<lambda>w. w \<noteq> v) (match_rnotwhite s)"
proof (induction v s rule: remove_name.induct)
  case (1 v s)
  show ?case
  proof (cases "string_index s (spaced v) \<ge> 0")
    case True
    then have "remove_name v s = remove_name v (replace_first (spaced v) '' '' s)"
      using 1(3) by (subst remove_name.simps) (simp add: is_name_def)
    moreover have "v \<noteq> []" using 1(3) by (simp add: is_name_def)
    ultimately show ?thesis
      using "1.IH" [OF conjI, OF _ True _ 1(3)] padded_replace [OF 1(2,3) True] by simp
  next
    case False
    then have "remove_name v s = s" by (subst remove_name.simps) simp
    moreover have "filter (\<lambda>w. w \<noteq> v) (match_rnotwhite s) = match_rnotwhite s"
      using False padded_contains [OF 1(2,3)] by (auto simp: filter_id_conv)
    ultimately show ?thesis using 1(2) by simp
  qed
qed

section \<open>Sets of names\<close>

definition names :: "class_elem \<Rightarrow> string list" where
  "names e = match_rnotwhite (className e)"

definition tidy :: "class_elem \<Rightarrow> bool" where
  "tidy e \<longleftrightarrow> nodeType e = 1 \<and>
     (\<forall>c \<in> set (className e). is_space c \<longrightarrow> (of_char c :: int) \<in> {9, 10, 12, 13, 32})"

definition insert_name :: "string \<Rightarrow> string list \<Rightarrow> string list" where
  "insert_name v vs = (if v \<in> set vs then vs else vs @ [v])"

lemma rclass_blank: "(of_char c :: int) = 32 \<longleftrightarrow> c = CHR '' ''"
proof
  assume "(of_char c :: int) = 32"
  then have "char_of (of_char c :: int) = (char_of (32 :: int) :: char)" by simp
  moreover have "char_of (32 :: int) = CHR '' ''" by code_simp
  ultimately show "c = CHR '' ''" by simp
qed simp

lemma rclass_spaces: "rnotwhite_from w (rclass s) = rnotwhite_from w s"
  by (induction s arbitrary: w) (auto simp: rclass_def is_space_def)

lemma padded_rclass:
  "tidy e \<Longrightarrow> padded (rclass (spaced (className e))) \<and> match_rnotwhite (rclass (spaced (className e))) = names e"
proof
  assume t: "tidy e"
  have "\<forall>c \<in> set (rclass (spaced (className e))). is_space c \<longrightarrow> c = CHR '' ''"
    using t by (auto simp: tidy_def rclass_def spaced_def rclass_blank)
  then show "padded (rclass (spaced (className e)))"
    by (simp add: padded_def rclass_def spaced_def last_map)
  show "match_rnotwhite (rclass (spaced (className e))) = names e"
    using match_blank [of "[]" "className e @ '' ''"] match_blank [of "className e" "[]"]
    by (simp add: match_rnotwhite_def rclass_spaces names_def spaced_def)
qed

lemma trim_tidy: "padded s \<Longrightarrow> \<forall>c \<in> set (trim s). is_space c \<longrightarrow> c = CHR '' ''"
  by (auto simp: padded_def trim_def dest!: set_dropWhileD)

lemma add_names_correct:
  "padded s \<Longrightarrow> \<forall>v \<in> set vs. is_name v \<Longrightarrow> padded (add_names vs s) \<and>
    match_rnotwhite (add_names vs s) = fold insert_name vs (match_rnotwhite s)"
proof (induction vs arbitrary: s)
  case (Cons v vs)
  then show ?case
    using padded_contains [of s v] padded_add [of s v] by (auto simp: insert_name_def not_le)
qed simp

lemma remove_names_correct:
  "padded s \<Longrightarrow> \<forall>v \<in> set vs. is_name v \<Longrightarrow> padded (fold remove_name vs s) \<and>
    match_rnotwhite (fold remove_name vs s) = filter (\<lambda>w. w \<notin> set vs) (match_rnotwhite s)"
proof (induction vs arbitrary: s)
  case (Cons v vs)
  then show ?case using remove_name_correct [of s v] by (simp add: conj_commute)
qed simp

lemma match_is_name: "\<forall>v \<in> set (match_rnotwhite s). is_name v"
  using match_words by (auto simp: is_name_def)

lemma tidy_update: "tidy e \<Longrightarrow> padded s \<Longrightarrow> tidy (e\<lparr>className := trim s\<rparr>) \<and> names (e\<lparr>className := trim s\<rparr>) = match_rnotwhite s"
  using trim_tidy [of s] by (auto simp: tidy_def names_def)

lemma cur_add_padded: "tidy e \<Longrightarrow> \<exists>cur. cur_add e = Some cur \<and> padded cur \<and> match_rnotwhite cur = names e"
  using padded_rclass [of e] match_blank [of "[]" "[]"]
  by (auto simp: cur_add_def tidy_def names_def padded_def)

lemma add_to_elem_correct:
  "tidy e \<Longrightarrow> tidy (add_to_elem v e) \<and> names (add_to_elem v e) = fold insert_name (match_rnotwhite v) (names e)"
proof -
  assume t: "tidy e"
  obtain cur where c: "cur_add e = Some cur" "padded cur" "match_rnotwhite cur = names e" using cur_add_padded [OF t] by blast
  then show ?thesis
    using tidy_update [OF t] add_names_correct [OF c(2) match_is_name, of v] by (simp add: add_to_elem_def)
qed

lemma remove_from_elem_correct:
  assumes "tidy e" "v \<noteq> []"
  shows "tidy (remove_from_elem v e) \<and> names (remove_from_elem v e) = filter (\<lambda>w. w \<notin> set (match_rnotwhite v)) (names e)"
proof (cases "className e = []")
  case False
  note p = padded_rclass [OF assms(1)]
  have "cur_remove e = Some (rclass (spaced (className e)))" using False assms(1) by (simp add: cur_remove_def tidy_def)
  then show ?thesis
    using tidy_update [OF assms(1)] remove_names_correct [OF conjunct1 [OF p] match_is_name, of v] p assms(2)
    by (simp add: remove_from_elem_def)
qed (use assms in \<open>simp add: remove_from_elem_def cur_remove_def names_def\<close>)

lemma elem_has_correct: "tidy e \<Longrightarrow> is_name v \<Longrightarrow> elem_has v e \<longleftrightarrow> v \<in> set (names e)"
  using padded_rclass [of e] padded_contains [of "rclass (spaced (className e))" v]
  by (simp add: elem_has_def tidy_def)

lemma fold_insert_set: "set (fold insert_name vs ws) = set ws \<union> set vs"
  by (induction vs arbitrary: ws) (auto simp: insert_name_def)

lemma toggle_name_correct:
  assumes "tidy e" "is_name v"
  shows "tidy (toggle_name v e) \<and>
    set (names (toggle_name v e)) = (if v \<in> set (names e) then set (names e) - {v} else insert v (set (names e)))"
proof -
  have "match_rnotwhite v = [v]" using assms(2) by (simp add: is_name_def match_word)
  then show ?thesis
    using add_to_elem_correct [OF assms(1), of v] remove_from_elem_correct [OF assms(1), of v] assms
    by (auto simp: toggle_name_def elem_has_correct is_name_def insert_name_def)
qed

lemma toggle_names_correct:
  "tidy e \<Longrightarrow> \<forall>v \<in> set vs. is_name v \<Longrightarrow> distinct vs \<Longrightarrow> tidy (fold toggle_name vs e) \<and>
    set (names (fold toggle_name vs e)) = (set (names e) - set vs) \<union> (set vs - set (names e))"
proof (induction vs arbitrary: e)
  case (Cons v vs)
  then show ?case using toggle_name_correct [of e v] by (cases "v \<in> set (names e)") auto
qed simp

text \<open>C38: On elements (nodes of that kind, \<open>tidy\<close>) whose \<open>className\<close> has no white space other than that of HTML (a no-break space is a separator to one method and
  not to another), adding, removing, toggling and testing class names refines the
  operations on sets of names: \<open>addClass\<close> appends the new names to those of each element in order,
  \<open>removeClass\<close> takes out exactly the given ones and keeps the order of the others,
  \<open>toggleClass\<close> without a state, given distinct names (one given twice is toggled twice), is the symmetric difference, and \<open>hasClass\<close> is membership,
  never fooled by a name that is part of another one.\<close>

theorem classes_are_sets:
  assumes "\<forall>e \<in> set es. tidy e" "is_name w" "distinct (match_rnotwhite v)"
  shows "map names (addClass (Names v) es) = map (\<lambda>e. fold insert_name (match_rnotwhite v) (names e)) es \<and>
    map names (removeClass (Names v) es) = map (\<lambda>e. filter (\<lambda>u. u \<notin> set (match_rnotwhite v)) (names e)) es \<and>
    map (set \<circ> names) (toggleClass (Names v) None es) =
      map (\<lambda>e. (set (names e) - set (match_rnotwhite v)) \<union> (set (match_rnotwhite v) - set (names e))) es \<and>
    (hasClass w es \<longleftrightarrow> (\<exists>e \<in> set es. w \<in> set (names e)))"
proof (intro conjI)
  show "map names (addClass (Names v) es) = map (\<lambda>e. fold insert_name (match_rnotwhite v) (names e)) es"
    using assms(1) add_to_elem_correct by (auto simp: add_text_def)
  show "map names (removeClass (Names v) es) = map (\<lambda>e. filter (\<lambda>u. u \<notin> set (match_rnotwhite v)) (names e)) es"
    using assms(1) remove_from_elem_correct by (auto simp: remove_text_def)
  show "map (set \<circ> names) (toggleClass (Names v) None es) =
      map (\<lambda>e. (set (names e) - set (match_rnotwhite v)) \<union> (set (match_rnotwhite v) - set (names e))) es"
    using assms(1,3) toggle_names_correct match_is_name by (auto simp: toggle_text_def)
  show "hasClass w es \<longleftrightarrow> (\<exists>e \<in> set es. w \<in> set (names e))"
    using assms(1,2) elem_has_correct by (auto simp: hasClass_def list_ex_iff)
qed

definition page_elems :: "class_elem list" where
  "page_elems = [\<lparr>nodeType = 1, className = ''item  active'', saved_class = None\<rparr>,
     \<lparr>nodeType = 1, className = [], saved_class = None\<rparr>]"

theorem classes_are_sets_witness:
  "map names (removeClass (Names ''active'') page_elems) = [[''item''], []] \<and>
   map names (addClass (Names '' act active'') page_elems) = [[''item'', ''active'', ''act''], [''act'', ''active'']] \<and>
   \<not> hasClass ''act'' page_elems"
proof -
  have t: "\<forall>e \<in> set page_elems. tidy e" "is_name ''act''" by code_simp+
  have d: "distinct (match_rnotwhite ''active'')" "distinct (match_rnotwhite '' act active'')" by code_simp+
  have "map (\<lambda>e. filter (\<lambda>u. u \<notin> set (match_rnotwhite ''active'')) (names e)) page_elems = [[''item''], []]"
    "map (\<lambda>e. fold insert_name (match_rnotwhite '' act active'') (names e)) page_elems =
      [[''item'', ''active'', ''act''], [''act'', ''active'']]"
    "\<not> (\<exists>e \<in> set page_elems. ''act'' \<in> set (names e))"
    by code_simp+
  then show ?thesis using classes_are_sets [OF t d(1)] classes_are_sets [OF t d(2)] by simp
qed

text \<open>\<open>toggleClass\<close> without a name puts away all names and brings them back.\<close>

lemma toggle_whole_twice:
  "className e \<noteq> [] \<Longrightarrow> className (toggle_whole None (toggle_whole None e)) = className e"
  by (simp add: toggle_whole_def Let_def)

text \<open>The no-break space is white space for \<open>\S\<close> but not for HTML: a class name that holds one
  is added as two, and \<open>hasClass\<close> does not find it.\<close>

lemma no_break_space_splits:
  "map names (addClass (Names [CHR ''a'', CHR 0xA0, CHR ''b'']) [\<lparr>nodeType = 1, className = [], saved_class = None\<rparr>]) =
    [[''a'', ''b'']]"
  by code_simp

end
