(* ===== verification/JQ_Event.thy ===== *)
theory JQ_Event
  imports JQ_Core "HOL-Library.List_Lexorder"
begin

text \<open>
  The events of jQuery (\<open>jQuery.event\<close>, \<open>on\<close>, \<open>one\<close> and \<open>off\<close>, jquery.js). The handlers of an
  element are kept by type, those with a selector in front; an event calls, from its target
  upwards, the handlers whose selector matches, then those bound to the element itself. Types may
  carry namespaces, which are compared by a regular expression.
\<close>

section \<open>Types and namespaces\<close>

fun split_dot_from :: "string \<Rightarrow> string \<Rightarrow> string list" where
  "split_dot_from w [] = [w]"
| "split_dot_from w (c # cs) = (if c = CHR ''.'' then w # split_dot_from [] cs else split_dot_from (w @ [c]) cs)"

definition split_dot :: "string \<Rightarrow> string list" where
  "split_dot s = split_dot_from [] s"

fun join_dot :: "string list \<Rightarrow> string" where
  "join_dot [] = []"
| "join_dot [v] = v"
| "join_dot (v # vs) = v @ ''.'' @ join_dot vs"

text \<open>\<open>rtypenamespace\<close>, \<open>/^([^.]*)(?:\.(.+)|)$/\<close>: the type and the namespaces, or no match at all
  for a text that ends in its first dot.\<close>

definition parse_type :: "string \<Rightarrow> (string \<times> string option) option" where
  "parse_type s =
     (let t = takeWhile (\<lambda>c. c \<noteq> CHR ''.'') s; r = dropWhile (\<lambda>c. c \<noteq> CHR ''.'') s in
      if r = [] then Some (t, None)
      else if tl r = [] \<or> CHR 0x0A \<in> set (tl r) \<or> CHR 0x0D \<in> set (tl r) then None
      else Some (t, Some (tl r)))"

definition namespaces_of :: "string option \<Rightarrow> string list" where
  "namespaces_of r = sort (split_dot (case r of Some s \<Rightarrow> s | None \<Rightarrow> []))"

text \<open>The expression \<open>(^|\.)n1\.(?:.*\.|)n2 ... (\.|$)\<close>, for names without the special characters of
  expressions: the first name at the start or after a dot, each other after a later dot.\<close>

fun after_dots :: "string \<Rightarrow> string list" where
  "after_dots [] = []"
| "after_dots (c # cs) = (if c = CHR ''.'' then [cs] else []) @ after_dots cs"

fun ns_match :: "string list \<Rightarrow> string \<Rightarrow> bool" where
  "ns_match [] s \<longleftrightarrow> True"
| "ns_match [v] s \<longleftrightarrow> begins_with v s \<and> (drop (length v) s = [] \<or> hd (drop (length v) s) = CHR ''.'')"
| "ns_match (v # vs) s \<longleftrightarrow> begins_with v s \<and> drop (length v) s \<noteq> [] \<and> hd (drop (length v) s) = CHR ''.'' \<and>
     (let r = tl (drop (length v) s) in list_ex (ns_match vs) (r # after_dots r))"

definition ns_test :: "string list \<Rightarrow> string \<Rightarrow> bool" where
  "ns_test ns s \<longleftrightarrow> list_ex (ns_match ns) (s # after_dots s)"

section \<open>Handlers\<close>

text \<open>A selector is a text, empty where there is none. \<open>Once h\<close> is the function that \<open>one\<close> wraps
  around \<open>h\<close>; it has the number (\<open>guid\<close>) of \<open>h\<close>.\<close>

datatype 'h handler = Plain 'h | Once 'h

record 'h handle_obj =
  ho_type :: string
  ho_origType :: string
  ho_handler :: "'h handler"
  ho_guid :: nat
  ho_selector :: string
  ho_namespace :: string

record 'h handlers =
  hs_list :: "'h handle_obj list"
  hs_delegateCount :: nat

text \<open>The data of an element: its handlers by type in the order of their insertion, whether it has
  a handle, and the types the handle listens to.\<close>

record 'h elem_data =
  ed_events :: "(string \<times> 'h handlers) list option"
  ed_handle :: bool
  ed_native :: "string list"

text \<open>The special types: what they are changed to, and whether their \<open>setup\<close> and \<open>teardown\<close> leave
  listening to jQuery (there is none, or it returns false). In a browser whose \<open>focus\<close> and \<open>blur\<close> have no
  bubbling twins (\<open>support.focusinBubbles\<close> is false in all but old ones of Microsoft, where alone
  \<open>submit\<close> and \<open>change\<close> are special as well) \<open>focusin\<close> and \<open>focusout\<close> have both: nothing listens at
  the element, they count how many elements want the type and listen at the document, in the
  capturing phase. That count and that listener are no data of an element, and not modelled.\<close>

record special =
  sp_delegateType :: string
  sp_bindType :: string
  sp_listen :: bool

definition no_special :: special where
  "no_special = \<lparr>sp_delegateType = [], sp_bindType = [], sp_listen = True\<rparr>"

definition special_of :: "string \<Rightarrow> special" where
  "special_of t =
     (if t = ''focus'' then no_special\<lparr>sp_delegateType := ''focusin''\<rparr>
      else if t = ''blur'' then no_special\<lparr>sp_delegateType := ''focusout''\<rparr>
      else if t = ''mouseenter'' then no_special\<lparr>sp_delegateType := ''mouseover'', sp_bindType := ''mouseover''\<rparr>
      else if t = ''mouseleave'' then no_special\<lparr>sp_delegateType := ''mouseout'', sp_bindType := ''mouseout''\<rparr>
      else if t = ''focusin'' \<or> t = ''focusout'' then no_special\<lparr>sp_listen := False\<rparr>
      else no_special)"

definition mapped_type :: "string \<Rightarrow> string \<Rightarrow> string" where
  "mapped_type selector t =
     (let m = (if selector \<noteq> [] then sp_delegateType (special_of t) else sp_bindType (special_of t)) in
      if m \<noteq> [] then m else t)"

section \<open>\<open>jQuery.event.add\<close>\<close>

fun lookup_type :: "string \<Rightarrow> (string \<times> 'h handlers) list \<Rightarrow> 'h handlers option" where
  "lookup_type t [] = None"
| "lookup_type t ((u, hs) # es) = (if u = t then Some hs else lookup_type t es)"

fun set_handlers :: "string \<Rightarrow> 'h handlers \<Rightarrow> (string \<times> 'h handlers) list \<Rightarrow> (string \<times> 'h handlers) list" where
  "set_handlers t hs [] = [(t, hs)]"
| "set_handlers t hs ((u, gs) # es) = (if u = t then (t, hs) # es else (u, gs) # set_handlers t hs es)"

definition delete_type :: "string \<Rightarrow> (string \<times> 'h handlers) list \<Rightarrow> (string \<times> 'h handlers) list" where
  "delete_type t es = filter (\<lambda>(u, _). u \<noteq> t) es"

definition insert_handler :: "'h handle_obj \<Rightarrow> 'h handlers \<Rightarrow> 'h handlers" where
  "insert_handler h hs =
     (if ho_selector h \<noteq> [] then
        \<lparr>hs_list = take (hs_delegateCount hs) (hs_list hs) @ h # drop (hs_delegateCount hs) (hs_list hs),
         hs_delegateCount = hs_delegateCount hs + 1\<rparr>
      else hs\<lparr>hs_list := hs_list hs @ [h]\<rparr>)"

definition add_type :: "'h handler \<Rightarrow> nat \<Rightarrow> string \<Rightarrow> string \<Rightarrow> 'h elem_data \<Rightarrow> 'h elem_data" where
  "add_type handler guid selector s d =
     (case parse_type s of None \<Rightarrow> d
      | Some (origType, ns) \<Rightarrow>
        if origType = [] then d
        else
          let t = mapped_type selector origType;
              h = \<lparr>ho_type = t, ho_origType = origType, ho_handler = handler, ho_guid = guid,
                   ho_selector = selector, ho_namespace = join_dot (namespaces_of ns)\<rparr>;
              es = (case ed_events d of None \<Rightarrow> [] | Some es \<Rightarrow> es);
              d1 = (if lookup_type t es = None \<and> sp_listen (special_of t)
                    then d\<lparr>ed_native := ed_native d @ [t]\<rparr> else d);
              hs = (case lookup_type t es of None \<Rightarrow> \<lparr>hs_list = [], hs_delegateCount = 0\<rparr> | Some hs \<Rightarrow> hs)
          in d1\<lparr>ed_events := Some (set_handlers t (insert_handler h hs) es)\<rparr>)"

definition type_list :: "string \<Rightarrow> string list" where
  "type_list s = (if match_rnotwhite s = [] then [[]] else match_rnotwhite s)"

definition event_add :: "string \<Rightarrow> 'h handler \<Rightarrow> nat \<Rightarrow> string \<Rightarrow> 'h elem_data \<Rightarrow> 'h elem_data" where
  "event_add types handler guid selector d =
     fold (add_type handler guid selector) (rev (type_list types))
       (d\<lparr>ed_events := Some (case ed_events d of None \<Rightarrow> [] | Some es \<Rightarrow> es), ed_handle := True\<rparr>)"

section \<open>\<open>jQuery.event.remove\<close>\<close>

text \<open>The handler to remove: none given, or one with its number, which it has only if it has been
  bound.\<close>

type_synonym handler_arg = "nat option option"

definition handle_matches :: "bool \<Rightarrow> string \<Rightarrow> handler_arg \<Rightarrow> string list option \<Rightarrow> string \<Rightarrow> 'h handle_obj \<Rightarrow> bool" where
  "handle_matches mapped origType handler ns selector h \<longleftrightarrow>
     (mapped \<or> origType = ho_origType h) \<and>
     (handler = None \<or> handler = Some (Some (ho_guid h))) \<and>
     (case ns of None \<Rightarrow> True | Some vs \<Rightarrow> ns_test vs (ho_namespace h)) \<and>
     (selector = [] \<or> selector = ho_selector h \<or> selector = ''**'' \<and> ho_selector h \<noteq> [])"

primrec remove_handlers :: "('h handle_obj \<Rightarrow> bool) \<Rightarrow> nat \<Rightarrow> 'h handlers \<Rightarrow> 'h handlers" where
  "remove_handlers P 0 hs = hs"
| "remove_handlers P (Suc j) hs =
     (let h = hs_list hs ! j in
      remove_handlers P j
        (if P h then \<lparr>hs_list = take j (hs_list hs) @ drop (Suc j) (hs_list hs),
                      hs_delegateCount = (if ho_selector h \<noteq> [] then hs_delegateCount hs - 1 else hs_delegateCount hs)\<rparr>
         else hs))"

definition remove_type :: "bool \<Rightarrow> handler_arg \<Rightarrow> string \<Rightarrow> string \<Rightarrow> string option \<Rightarrow> 'h elem_data \<Rightarrow> 'h elem_data" where
  "remove_type mapped handler selector origType ns d =
     (case ed_events d of None \<Rightarrow> d
      | Some es \<Rightarrow>
        let t = mapped_type selector origType in
        (case lookup_type t es of None \<Rightarrow> d
         | Some hs \<Rightarrow>
           let hs1 = remove_handlers (handle_matches mapped origType handler (map_option (\<lambda>s. namespaces_of (Some s)) ns) selector)
                 (length (hs_list hs)) hs
           in if hs_list hs \<noteq> [] \<and> hs_list hs1 = [] then
                d\<lparr>ed_events := Some (delete_type t es),
                  ed_native := (if sp_listen (special_of origType) then filter (\<lambda>u. u \<noteq> t) (ed_native d) else ed_native d)\<rparr>
              else d\<lparr>ed_events := Some (set_handlers t hs1 es)\<rparr>))"

text \<open>After the loop over the types: no events, no handle and no data.\<close>

definition remove_unused :: "'h elem_data \<Rightarrow> 'h elem_data" where
  "remove_unused d = (if ed_events d = Some [] then d\<lparr>ed_events := None, ed_handle := False\<rparr> else d)"

text \<open>\<open>remove\<close>, with fuel for the recursion over the types when only a namespace is given; a text
  that \<open>parse_type\<close> refuses recurses for ever when the element has events.\<close>

primrec js_fold :: "('b \<Rightarrow> 'a \<Rightarrow> 'a js) \<Rightarrow> 'b list \<Rightarrow> 'a \<Rightarrow> 'a js" where
  "js_fold f [] x = Inr x"
| "js_fold f (y # ys) x = js_bind (f y x) (js_fold f ys)"

primrec event_remove :: "nat \<Rightarrow> bool \<Rightarrow> string \<Rightarrow> handler_arg \<Rightarrow> string \<Rightarrow> 'h elem_data \<Rightarrow> 'h elem_data js" where
  "event_remove 0 mapped types handler selector d = Inl Diverge"
| "event_remove (Suc n) mapped types handler selector d =
     (case ed_events d of None \<Rightarrow> Inr d
      | Some _ \<Rightarrow>
        js_bind
          (js_fold (\<lambda>s d.
             case parse_type s of
               Some (t # ts, ns) \<Rightarrow> Inr (remove_type mapped handler selector (t # ts) ns d)
             | _ \<Rightarrow> js_fold (\<lambda>u. event_remove n True (u @ s) handler selector)
                      (case ed_events d of None \<Rightarrow> [] | Some es \<Rightarrow> map fst es) d)
            (rev (type_list types)) d)
          (\<lambda>d1. Inr (remove_unused d1)))"

section \<open>Events and the document\<close>

text \<open>What a function returns: nothing, false, or another value.\<close>

datatype ret = RUndefined | RFalse | RValue int

record event =
  e_type :: string
  e_target :: nat
  e_namespaces :: "string list"
  e_button :: int
  e_related :: "nat option"
  e_stopped :: bool
  e_immediate :: bool
  e_prevented :: bool
  e_result :: ret

definition preventDefault :: "event \<Rightarrow> event" where
  "preventDefault e = e\<lparr>e_prevented := True\<rparr>"

definition stopPropagation :: "event \<Rightarrow> event" where
  "stopPropagation e = e\<lparr>e_stopped := True\<rparr>"

definition stopImmediatePropagation :: "event \<Rightarrow> event" where
  "stopImmediatePropagation e = stopPropagation (e\<lparr>e_immediate := True\<rparr>)"

text \<open>A node has the chain of its parents, the innermost first.\<close>

record 'h node =
  n_nodeType :: int
  n_disabled :: bool
  n_parents :: "nat list"
  n_data :: "'h elem_data"

type_synonym 'h dom = "nat \<Rightarrow> 'h node"

text \<open>The calls made: the node the handler is called on, the handler and the type of the event; and the
  methods of the browser that \<open>trigger\<close> calls as the default action.\<close>

record 'h world =
  w_dom :: "'h dom"
  w_calls :: "(nat \<times> 'h \<times> string) list"
  w_native :: "(nat \<times> string) list"

text \<open>What a user's function does: the event methods it calls, the handlers it adds and removes, and
  what it returns.\<close>

datatype 'h dom_op = On nat string 'h string | One nat string 'h string | Off nat string "'h option" string

record 'h reaction =
  re_ret :: ret
  re_stop :: bool
  re_immediate :: bool
  re_prevent :: bool
  re_ops :: "'h dom_op list"

text \<open>The page: the numbers of the functions, what they do, which nodes a selector finds below a
  node, and what \<open>trigger\<close> asks of the browser: the \<open>on...\<close> properties and what they return, the nodes
  at which the \<open>trigger\<close> hook of a special type (\<open>focus\<close>, \<open>blur\<close>, \<open>click\<close>) does the whole
  work, the links, and the nodes that have a method with the name of the type.\<close>

record 'h ev_page =
  pg_guid :: "'h \<Rightarrow> nat"
  pg_bound :: "'h \<Rightarrow> bool"
  pg_react :: "'h \<Rightarrow> nat \<Rightarrow> event \<Rightarrow> (nat \<times> 'h \<times> string) list \<Rightarrow> 'h reaction"
  pg_matches :: "string \<Rightarrow> nat \<Rightarrow> nat \<Rightarrow> bool"
  pg_onprop :: "nat \<Rightarrow> string \<Rightarrow> bool option"
  pg_hook :: "nat \<Rightarrow> string \<Rightarrow> bool"
  pg_link :: "nat \<Rightarrow> bool"
  pg_method :: "nat \<Rightarrow> string \<Rightarrow> bool"
  pg_document :: nat
  pg_window :: nat

definition data_of :: "nat \<Rightarrow> 'h world \<Rightarrow> 'h elem_data" where
  "data_of i w = n_data (w_dom w i)"

definition set_data :: "nat \<Rightarrow> 'h elem_data \<Rightarrow> 'h world \<Rightarrow> 'h world" where
  "set_data i d w = w\<lparr>w_dom := (w_dom w)(i := (w_dom w i)\<lparr>n_data := d\<rparr>)\<rparr>"

section \<open>\<open>on\<close>, \<open>one\<close> and \<open>off\<close>\<close>

text \<open>A function has a number once it has been bound; \<open>pg_bound\<close> tells of the functions
  \<open>off\<close> is called with.\<close>

definition guid_arg :: "'h ev_page \<Rightarrow> 'h option \<Rightarrow> handler_arg" where
  "guid_arg pg h = (case h of None \<Rightarrow> None
     | Some f \<Rightarrow> Some (if pg_bound pg f then Some (pg_guid pg f) else None))"

fun run_dom_op :: "nat \<Rightarrow> 'h ev_page \<Rightarrow> 'h dom_op \<Rightarrow> 'h world \<Rightarrow> 'h world js" where
  "run_dom_op n pg (On i types h selector) w =
     Inr (set_data i (event_add types (Plain h) (pg_guid pg h) selector (data_of i w)) w)"
| "run_dom_op n pg (One i types h selector) w =
     Inr (set_data i (event_add types (Once h) (pg_guid pg h) selector (data_of i w)) w)"
| "run_dom_op n pg (Off i types h selector) w =
     js_bind (event_remove n False types (guid_arg pg h) selector (data_of i w)) (\<lambda>d. Inr (set_data i d w))"

text \<open>\<open>off( event )\<close>: the handler object that is being called, at the element it is bound to.\<close>

definition off_event :: "nat \<Rightarrow> nat \<Rightarrow> 'h handle_obj \<Rightarrow> 'h world \<Rightarrow> 'h world js" where
  "off_event n this h w =
     js_bind (event_remove n False
         (if ho_namespace h \<noteq> [] then ho_origType h @ ''.'' @ ho_namespace h else ho_origType h)
         (Some (Some (ho_guid h))) (ho_selector h) (data_of this w))
       (\<lambda>d. Inr (set_data this d w))"

section \<open>\<open>jQuery.event.handlers\<close>\<close>

definition below :: "'h world \<Rightarrow> nat \<Rightarrow> nat \<Rightarrow> nat list" where
  "below w target this = takeWhile (\<lambda>i. i \<noteq> this) (target # n_parents (w_dom w target))"

definition delegated_at :: "'h ev_page \<Rightarrow> event \<Rightarrow> nat \<Rightarrow> 'h handlers \<Rightarrow> 'h world \<Rightarrow> nat \<Rightarrow> (nat \<times> 'h handle_obj list) list" where
  "delegated_at pg e this hs w cur =
     (if n_nodeType (w_dom w cur) = 1 \<and> (\<not> n_disabled (w_dom w cur) \<or> e_type e \<noteq> ''click'') then
        let ms = filter (\<lambda>h. pg_matches pg (ho_selector h) this cur) (take (hs_delegateCount hs) (hs_list hs))
        in if ms \<noteq> [] then [(cur, ms)] else []
      else [])"

definition handler_queue :: "'h ev_page \<Rightarrow> event \<Rightarrow> nat \<Rightarrow> 'h handlers \<Rightarrow> 'h world \<Rightarrow> (nat \<times> 'h handle_obj list) list" where
  "handler_queue pg e this hs w =
     (if hs_delegateCount hs \<noteq> 0 \<and> n_nodeType (w_dom w (e_target e)) \<noteq> 0 \<and> (e_button e = 0 \<or> e_type e \<noteq> ''click'')
      then concat (map (delegated_at pg e this hs w) (below w (e_target e) this)) else []) @
     (if hs_delegateCount hs < length (hs_list hs)
      then [(this, drop (hs_delegateCount hs) (hs_list hs))] else [])"

section \<open>\<open>jQuery.event.dispatch\<close>\<close>

definition node_contains :: "'h world \<Rightarrow> nat \<Rightarrow> nat \<Rightarrow> bool" where
  "node_contains w i j \<longleftrightarrow> i \<in> set (n_parents (w_dom w j))"

text \<open>\<open>mouseenter\<close> and \<open>mouseleave\<close> call their handler only when the mouse comes from or goes to a
  node outside.\<close>

definition crosses :: "nat \<Rightarrow> event \<Rightarrow> 'h world \<Rightarrow> bool" where
  "crosses i e w = (case e_related e of None \<Rightarrow> True | Some r \<Rightarrow> r \<noteq> i \<and> \<not> node_contains w i r)"

fun run_dom_ops :: "nat \<Rightarrow> 'h ev_page \<Rightarrow> 'h dom_op list \<Rightarrow> 'h world \<Rightarrow> 'h world js" where
  "run_dom_ops n pg [] w = Inr w"
| "run_dom_ops n pg (p # ps) w = js_bind (run_dom_op n pg p w) (run_dom_ops n pg ps)"

definition call_user :: "nat \<Rightarrow> 'h ev_page \<Rightarrow> 'h \<Rightarrow> nat \<Rightarrow> event \<Rightarrow> 'h world \<Rightarrow> ('h world \<times> event \<times> ret) js" where
  "call_user n pg h i e w =
     (let r = pg_react pg h i e (w_calls w);
          e1 = (if re_prevent r then preventDefault e else e);
          e2 = (if re_immediate r then stopImmediatePropagation e1 else if re_stop r then stopPropagation e1 else e1)
      in js_bind (run_dom_ops n pg (re_ops r) (w\<lparr>w_calls := w_calls w @ [(i, h, e_type e)]\<rparr>))
           (\<lambda>w1. Inr (w1, e2, re_ret r)))"

definition call_handler :: "nat \<Rightarrow> 'h ev_page \<Rightarrow> nat \<Rightarrow> 'h handle_obj \<Rightarrow> nat \<Rightarrow> event \<Rightarrow> 'h world \<Rightarrow>
    ('h world \<times> event \<times> ret) js" where
  "call_handler n pg this ho i e w =
     (case ho_handler ho of
        Plain h \<Rightarrow> call_user n pg h i e w
      | Once h \<Rightarrow> js_bind (off_event n this ho w) (call_user n pg h i e))"

definition call_special :: "nat \<Rightarrow> 'h ev_page \<Rightarrow> nat \<Rightarrow> 'h handle_obj \<Rightarrow> nat \<Rightarrow> event \<Rightarrow> 'h world \<Rightarrow>
    ('h world \<times> event \<times> ret) js" where
  "call_special n pg this ho i e w =
     (if ho_origType ho = ''mouseenter'' \<or> ho_origType ho = ''mouseleave'' then
        if crosses i e w then
          js_bind (call_handler n pg this ho i (e\<lparr>e_type := ho_origType ho\<rparr>) w) (\<lambda>(w1, e1, r).
          Inr (w1, e1\<lparr>e_type := mapped_type [] (ho_origType ho)\<rparr>, r))
        else Inr (w, e, RUndefined)
      else call_handler n pg this ho i e w)"

definition ns_allows :: "event \<Rightarrow> 'h handle_obj \<Rightarrow> bool" where
  "ns_allows e ho \<longleftrightarrow> join_dot (e_namespaces e) = [] \<or> ns_test (e_namespaces e) (ho_namespace ho)"

definition after_call :: "ret \<Rightarrow> event \<Rightarrow> event" where
  "after_call r e =
     (if r = RUndefined then e
      else let e1 = e\<lparr>e_result := r\<rparr> in
        if r = RFalse then stopPropagation (preventDefault e1) else e1)"

primrec dispatch_handlers :: "nat \<Rightarrow> 'h ev_page \<Rightarrow> nat \<Rightarrow> nat \<Rightarrow> 'h handle_obj list \<Rightarrow> event \<times> 'h world \<Rightarrow>
    (event \<times> 'h world) js" where
  "dispatch_handlers n pg this i [] s = Inr s"
| "dispatch_handlers n pg this i (ho # hos) s =
     (case s of (e, w) \<Rightarrow>
      if e_immediate e then Inr (e, w)
      else if ns_allows e ho then
        js_bind (call_special n pg this ho i e w) (\<lambda>(w1, e1, r).
        dispatch_handlers n pg this i hos (after_call r e1, w1))
      else dispatch_handlers n pg this i hos (e, w))"

primrec dispatch_queue :: "nat \<Rightarrow> 'h ev_page \<Rightarrow> nat \<Rightarrow> (nat \<times> 'h handle_obj list) list \<Rightarrow> event \<times> 'h world \<Rightarrow>
    (event \<times> 'h world) js" where
  "dispatch_queue n pg this [] s = Inr s"
| "dispatch_queue n pg this (q # qs) s =
     (if e_stopped (fst s) then Inr s
      else js_bind (dispatch_handlers n pg this (fst q) (snd q) s) (dispatch_queue n pg this qs))"

definition dispatch :: "nat \<Rightarrow> 'h ev_page \<Rightarrow> nat \<Rightarrow> event \<times> 'h world \<Rightarrow> (event \<times> 'h world) js" where
  "dispatch n pg this s =
     (case s of (e, w) \<Rightarrow>
      let hs = (case lookup_type (e_type e) (case ed_events (data_of this w) of None \<Rightarrow> [] | Some es \<Rightarrow> es) of
                  None \<Rightarrow> \<lparr>hs_list = [], hs_delegateCount = 0\<rparr> | Some hs \<Rightarrow> hs)
      in dispatch_queue n pg this (handler_queue pg e this hs w) s)"

section \<open>\<open>jQuery.event.trigger\<close>\<close>

definition new_event :: "string \<Rightarrow> nat \<Rightarrow> string list \<Rightarrow> event" where
  "new_event t i ns = \<lparr>e_type = t, e_target = i, e_namespaces = ns, e_button = 0, e_related = None,
     e_stopped = False, e_immediate = False, e_prevented = False, e_result = RUndefined\<rparr>"

text \<open>\<open>rfocusMorph\<close> tells \<open>focus\<close> and \<open>blur\<close> from the types they are delegated as.\<close>

definition focusMorph :: "string \<Rightarrow> bool" where
  "focusMorph s \<longleftrightarrow> s = ''focusinfocus'' \<or> s = ''focusoutblur''"

definition event_path :: "'h ev_page \<Rightarrow> bool \<Rightarrow> string \<Rightarrow> nat \<Rightarrow> 'h world \<Rightarrow> nat list" where
  "event_path pg onlyHandlers t i w =
     (if \<not> onlyHandlers \<and> t \<noteq> ''load'' \<and> i \<noteq> pg_window pg then
        let bubbleType = (if sp_delegateType (special_of t) \<noteq> [] then sp_delegateType (special_of t) else t);
            up = (if focusMorph (bubbleType @ t) then [i] else []) @ n_parents (w_dom w i)
        in [i] @ up @ (if last (i # up) = pg_document pg then [pg_window pg] else [])
      else [i])"

definition trigger_step :: "nat \<Rightarrow> 'h ev_page \<Rightarrow> bool \<Rightarrow> string \<Rightarrow> nat \<Rightarrow> nat \<Rightarrow> event \<times> 'h world \<Rightarrow> (event \<times> 'h world) js" where
  "trigger_step n pg onlyHandlers t k cur s =
     (case s of (e, w) \<Rightarrow>
      let sp = special_of t;
          ty = (if k > 0 then if sp_delegateType sp \<noteq> [] then sp_delegateType sp else t
                else if sp_bindType sp \<noteq> [] then sp_bindType sp else t);
          e1 = e\<lparr>e_type := ty\<rparr>;
          has = (ed_handle (data_of cur w) \<and>
            lookup_type ty (case ed_events (data_of cur w) of None \<Rightarrow> [] | Some es \<Rightarrow> es) \<noteq> None)
      in js_bind (if has then dispatch n pg cur (e1, w) else Inr (e1, w)) (\<lambda>(e2, w2).
         Inr (if CHR '':'' \<notin> set t \<and> pg_onprop pg cur (''on'' @ t) = Some False then preventDefault e2 else e2, w2)))"

fun trigger_path :: "nat \<Rightarrow> 'h ev_page \<Rightarrow> bool \<Rightarrow> string \<Rightarrow> nat \<Rightarrow> nat list \<Rightarrow> event \<times> 'h world \<Rightarrow> (event \<times> 'h world) js" where
  "trigger_path n pg oh t k [] s = Inr s"
| "trigger_path n pg oh t k (cur # path) s =
     (if e_stopped (fst s) then Inr s
      else js_bind (trigger_step n pg oh t k cur s) (trigger_path n pg oh t (Suc k) path))"

text \<open>The default action: the method with the name of the type, but not for links that are clicked,
  and never at the window.\<close>

definition default_action :: "'h ev_page \<Rightarrow> bool \<Rightarrow> string \<Rightarrow> nat \<Rightarrow> event \<Rightarrow> 'h world \<Rightarrow> 'h world" where
  "default_action pg onlyHandlers t i e w =
     (if \<not> onlyHandlers \<and> \<not> e_prevented e \<and> \<not> (t = ''click'' \<and> pg_link pg (e_target e)) \<and>
         CHR '':'' \<notin> set t \<and> pg_method pg i t \<and> i \<noteq> pg_window pg
      then w\<lparr>w_native := w_native w @ [(i, t)]\<rparr> else w)"

text \<open>\<open>trigger\<close> with a text for the event, while no other event is being triggered.\<close>

definition trigger :: "nat \<Rightarrow> 'h ev_page \<Rightarrow> bool \<Rightarrow> string \<Rightarrow> nat \<Rightarrow> 'h world \<Rightarrow> (event \<times> 'h world) js" where
  "trigger n pg onlyHandlers typ i w =
     (let parts = split_dot typ; t = hd parts; e = new_event t i (sort (tl parts)) in
      if n_nodeType (w_dom w i) = 3 \<or> n_nodeType (w_dom w i) = 8 then Inr (e, w)
      else if \<not> onlyHandlers \<and> pg_hook pg i t then Inr (e, w)
      else
        js_bind (trigger_path n pg onlyHandlers t 0 (event_path pg onlyHandlers t i w) (e, w)) (\<lambda>(e1, w1).
        let e2 = e1\<lparr>e_type := t\<rparr> in Inr (e2, default_action pg onlyHandlers t i e2 w1)))"

end
