(* ===== verification/JQ_EventProps.thy ===== *)
theory JQ_EventProps
  imports JQ_Event "HOL-Library.Sublist"
begin

text \<open>
  What the events of jQuery guarantee: the namespace expression is a test of inclusion, the data of
  an element stays well formed (delegated handlers in front and counted, a listener for exactly the
  types that have handlers), \<open>off\<close> undoes \<open>on\<close>, and a dispatched event calls the handlers from
  the target upwards.
\<close>

section \<open>Namespaces\<close>

definition dot_free :: "string \<Rightarrow> bool" where
  "dot_free v \<longleftrightarrow> CHR ''.'' \<notin> set v"

lemma split_dot_from_join: "dot_free v \<Longrightarrow> split_dot_from w (v @ s) = split_dot_from (w @ v) s"
  by (induction v arbitrary: w) (auto simp: dot_free_def)

lemma split_dot_from_free: "\<forall>u \<in> set (split_dot_from w s). dot_free w \<longrightarrow> dot_free u"
  by (induction w s rule: split_dot_from.induct) (auto simp: dot_free_def)

lemma split_dot_free: "u \<in> set (split_dot s) \<Longrightarrow> dot_free u"
  using split_dot_from_free [of "[]" s] by (auto simp: split_dot_def dot_free_def)

lemma split_dot_nonempty [simp]: "split_dot_from w s \<noteq> []"
  by (induction w s rule: split_dot_from.induct) auto

primrec tails :: "'a list \<Rightarrow> 'a list list" where
  "tails [] = []"
| "tails (v # vs) = (v # vs) # tails vs"

lemma join_dot_Cons: "join_dot (v # vs) = v @ (if vs = [] then [] else CHR ''.'' # join_dot vs)"
  by (cases vs) simp_all

lemma after_dots_free: "dot_free v \<Longrightarrow> after_dots (v @ s) = after_dots s"
  by (induction v) (auto simp: dot_free_def)

text \<open>The text of some names, and what follows each of its dots: the texts of the tails.\<close>

lemma texts_of_tails: "vs \<noteq> [] \<Longrightarrow> list_all dot_free vs \<Longrightarrow> join_dot vs # after_dots (join_dot vs) = map join_dot (tails vs)"
proof (induction vs)
  case (Cons v vs)
  then show ?case
    using after_dots_free [of v "[]"] by (cases "vs = []") (simp_all add: join_dot_Cons after_dots_free)
qed simp

lemma name_boundary:
  assumes "dot_free v" "dot_free u" "r = [] \<or> hd r = CHR ''.''"
  shows "begins_with v (u @ r) \<and> (drop (length v) (u @ r) = [] \<or> hd (drop (length v) (u @ r)) = CHR ''.'') \<longleftrightarrow> v = u"
proof
  assume a: "begins_with v (u @ r) \<and> (drop (length v) (u @ r) = [] \<or> hd (drop (length v) (u @ r)) = CHR ''.'')"
  then obtain b where b1: "u @ r = v @ b" unfolding begins_with_iff by blast
  have "drop (length v) (u @ r) = b" unfolding b1 by simp
  with a b1 have b: "u @ r = v @ b" "b = [] \<or> hd b = CHR ''.''" by auto
  have t: "takeWhile (\<lambda>c. c \<noteq> CHR ''.'') (x @ y) = x" if "dot_free x" "y = [] \<or> hd y = CHR ''.''" for x y
    using that by (cases y) (auto simp: dot_free_def takeWhile_append takeWhile_eq_all_conv)
  show "v = u" using t [OF assms(1) b(2)] t [OF assms(2,3)] b(1) by simp
next
  assume "v = u"
  then show "begins_with v (u @ r) \<and> (drop (length v) (u @ r) = [] \<or> hd (drop (length v) (u @ r)) = CHR ''.'')"
    using assms(3) by (auto simp: begins_with_iff)
qed

lemma subseq_tails: "subseq (v # vs) us \<longleftrightarrow> (\<exists>t \<in> set (tails us). hd t = v \<and> subseq vs (tl t))"
  by (induction us) (auto dest: subseq_Cons')

lemma tails_dot_free: "t \<in> set (tails us) \<Longrightarrow> list_all dot_free us \<Longrightarrow> list_all dot_free t \<and> t \<noteq> []"
  by (induction us) auto

lemma ns_match_join:
  "ns \<noteq> [] \<Longrightarrow> us \<noteq> [] \<Longrightarrow> list_all dot_free ns \<Longrightarrow> list_all dot_free us \<Longrightarrow>
    ns_match ns (join_dot us) \<longleftrightarrow> hd ns = hd us \<and> subseq (tl ns) (tl us)"
proof (induction ns arbitrary: us)
  case (Cons v vs)
  obtain u us1 where us: "us = u # us1" using Cons.prems(2) by (cases us) auto
  let ?r = "if us1 = [] then [] else CHR ''.'' # join_dot us1"
  have free: "dot_free v" "dot_free u" "list_all dot_free us1" using Cons.prems(3,4) us by simp_all
  have j: "join_dot us = u @ ?r" using us by (simp add: join_dot_Cons)
  have bound: "begins_with v (u @ ?r) \<and> (drop (length v) (u @ ?r) = [] \<or> hd (drop (length v) (u @ ?r)) = CHR ''.'') \<longleftrightarrow> v = u"
    using name_boundary [OF free(1,2), of ?r] by simp
  show ?case
  proof (cases vs)
    case Nil
    then show ?thesis using bound us j by simp
  next
    case (Cons w ws)
    have "ns_match (v # vs) (join_dot us) \<longleftrightarrow> v = u \<and> us1 \<noteq> [] \<and> list_ex (ns_match vs) (join_dot us1 # after_dots (join_dot us1))"
      using bound Cons j by (auto simp: Let_def)
    also have "\<dots> \<longleftrightarrow> v = u \<and> (\<exists>t \<in> set (tails us1). ns_match vs (join_dot t))"
      using texts_of_tails [of us1] free(3) by (cases "us1 = []") (auto simp: list_ex_iff simp del: after_dots.simps)
    also have "\<dots> \<longleftrightarrow> v = u \<and> (\<exists>t \<in> set (tails us1). hd t = hd vs \<and> subseq (tl vs) (tl t))"
      using Cons.IH [of _] tails_dot_free [OF _ free(3)] Cons Cons.prems(3) by auto
    also have "\<dots> \<longleftrightarrow> v = u \<and> subseq vs us1" using subseq_tails [of w ws us1] Cons by auto
    finally show ?thesis using us by simp
  qed
qed simp

lemma ns_test_join:
  assumes "ns \<noteq> []" "us \<noteq> []" "list_all dot_free ns" "list_all dot_free us"
  shows "ns_test ns (join_dot us) \<longleftrightarrow> subseq ns us"
proof -
  obtain v vs where ns: "ns = v # vs" using assms(1) by (cases ns) auto
  have "ns_test ns (join_dot us) \<longleftrightarrow> (\<exists>t \<in> set (tails us). ns_match ns (join_dot t))"
    unfolding ns_test_def texts_of_tails [OF assms(2,4)] by (auto simp: list_ex_iff)
  also have "\<dots> \<longleftrightarrow> (\<exists>t \<in> set (tails us). hd t = v \<and> subseq vs (tl t))"
    using ns_match_join [OF assms(1) _ assms(3)] tails_dot_free [OF _ assms(4)] ns by auto
  also have "\<dots> \<longleftrightarrow> subseq ns us" using subseq_tails [of v vs us] ns by simp
  finally show ?thesis .
qed

lemma namespaces_free: "list_all dot_free (namespaces_of r) \<and> namespaces_of r \<noteq> []"
  by (auto simp: namespaces_of_def list_all_iff split_dot_free split_dot_def)
    (metis set_sort length_0_conv length_sort split_dot_nonempty)

text \<open> The regular expression built from the sorted namespaces of an event or of \<open>off\<close> accepts
  a handler exactly when all of these namespaces are among those the handler was bound with,
  whatever their order in either text.\<close>

theorem namespace_inclusion:
  assumes "distinct (namespaces_of (Some s))"
  shows "ns_test (namespaces_of (Some s)) (join_dot (namespaces_of r)) \<longleftrightarrow>
    set (split_dot s) \<subseteq> set (namespaces_of r)"
proof -
  have "ns_test (namespaces_of (Some s)) (join_dot (namespaces_of r)) \<longleftrightarrow> subseq (namespaces_of (Some s)) (namespaces_of r)"
    using ns_test_join namespaces_free by blast
  also have "\<dots> \<longleftrightarrow> set (namespaces_of (Some s)) \<subseteq> set (namespaces_of r)"
    using sorted_subset_imp_subseq [of "namespaces_of (Some s)" "namespaces_of r"] assms
      list_emb_set [of "(=)" "namespaces_of (Some s)" "namespaces_of r"]
    by (auto simp: namespaces_of_def strict_sorted_iff)
  finally show ?thesis by (simp add: namespaces_of_def)
qed

text \<open>A handler bound as \<open>click.b.a\<close> is found by \<open>.a\<close> and by \<open>.a.b\<close>, not by \<open>.ab\<close>.\<close>

theorem namespace_inclusion_witness:
  "ns_test (namespaces_of (Some ''b.a'')) (join_dot (namespaces_of (Some ''c.a.b''))) \<and>
   \<not> ns_test (namespaces_of (Some ''ab'')) (join_dot (namespaces_of (Some ''c.a.b'')))"
proof -
  have "distinct (namespaces_of (Some ''b.a''))" "distinct (namespaces_of (Some ''ab''))"
    "set (split_dot ''b.a'') \<subseteq> set (namespaces_of (Some ''c.a.b''))"
    "\<not> set (split_dot ''ab'') \<subseteq> set (namespaces_of (Some ''c.a.b''))"
    by code_simp+
  then show ?thesis using namespace_inclusion by blast
qed

section \<open>Lists of handlers\<close>

definition delegated :: "'h handle_obj \<Rightarrow> bool" where
  "delegated h \<longleftrightarrow> ho_selector h \<noteq> []"

text \<open>The delegated handlers stand in front and are counted.\<close>

definition wf_handlers :: "'h handlers \<Rightarrow> bool" where
  "wf_handlers hs \<longleftrightarrow> hs_delegateCount hs = length (filter delegated (hs_list hs)) \<and>
     (\<exists>ds bs. hs_list hs = ds @ bs \<and> list_all delegated ds \<and> list_all (\<lambda>h. \<not> delegated h) bs)"

lemma filter_all: "list_all P xs \<Longrightarrow> filter P xs = xs" "list_all (\<lambda>x. \<not> P x) xs \<Longrightarrow> filter P xs = []"
  by (induction xs) auto

lemma wf_handlersE:
  assumes "wf_handlers hs"
  obtains ds bs where "hs = \<lparr>hs_list = ds @ bs, hs_delegateCount = length ds\<rparr>" "list_all delegated ds"
    "list_all (\<lambda>h. \<not> delegated h) bs"
proof -
  obtain ds bs where l: "hs_list hs = ds @ bs" "list_all delegated ds" "list_all (\<lambda>h. \<not> delegated h) bs"
    "hs_delegateCount hs = length (filter delegated (hs_list hs))"
    using assms by (auto simp: wf_handlers_def)
  then have "hs = \<lparr>hs_list = ds @ bs, hs_delegateCount = length ds\<rparr>"
    using filter_all(1) [OF l(2)] filter_all(2) [OF l(3)] by (cases hs) simp
  with l(2,3) show ?thesis using that by blast
qed

lemma wf_handlersI:
  "list_all delegated ds \<Longrightarrow> list_all (\<lambda>h. \<not> delegated h) bs \<Longrightarrow>
    wf_handlers \<lparr>hs_list = ds @ bs, hs_delegateCount = length ds\<rparr>"
  using filter_all(1) [of delegated ds] filter_all(2) [of delegated bs] by (auto simp: wf_handlers_def)

lemma insert_handler_wf:
  assumes "wf_handlers hs"
  shows "wf_handlers (insert_handler h hs) \<and> set (hs_list (insert_handler h hs)) = insert h (set (hs_list hs))"
proof -
  obtain ds bs where hs: "hs = \<lparr>hs_list = ds @ bs, hs_delegateCount = length ds\<rparr>" "list_all delegated ds"
    "list_all (\<lambda>h. \<not> delegated h) bs" using wf_handlersE [OF assms] .
  show ?thesis
  proof (cases "delegated h")
    case True
    then have "insert_handler h hs = \<lparr>hs_list = (ds @ [h]) @ bs, hs_delegateCount = length (ds @ [h])\<rparr>"
      by (simp add: insert_handler_def hs(1) delegated_def)
    then show ?thesis using wf_handlersI [of "ds @ [h]" bs] hs True by auto
  next
    case False
    then have "insert_handler h hs = \<lparr>hs_list = ds @ (bs @ [h]), hs_delegateCount = length ds\<rparr>"
      by (simp add: insert_handler_def hs(1) delegated_def)
    then show ?thesis using wf_handlersI [of ds "bs @ [h]"] hs False by auto
  qed
qed

text \<open>The loop of \<open>remove\<close> runs backwards over the positions; what it leaves is a filter.\<close>

lemma remove_handlers_prefix:
  "j \<le> length l \<Longrightarrow> c = length (filter delegated l) \<Longrightarrow>
    remove_handlers P j \<lparr>hs_list = l, hs_delegateCount = c\<rparr> =
      (let l1 = filter (\<lambda>h. \<not> P h) (take j l) @ drop j l
       in \<lparr>hs_list = l1, hs_delegateCount = length (filter delegated l1)\<rparr>)"
proof (induction j arbitrary: l c)
  case (Suc j)
  then have j: "j < length l" by simp
  have split: "l = take j l @ l ! j # drop (Suc j) l" using j id_take_nth_drop by blast
  have tk: "take (Suc j) l = take j l @ [l ! j]" using j by (simp add: take_Suc_conv_app_nth)
  have dr: "drop j l = l ! j # drop (Suc j) l" using j by (simp add: Cons_nth_drop_Suc)
  show ?case
  proof (cases "P (l ! j)")
    case True
    let ?l = "take j l @ drop (Suc j) l"
    have len: "length (filter delegated ?l) = (if delegated (l ! j) then c - 1 else c)"
      using arg_cong [OF split, of "\<lambda>m. length (filter delegated m)"] Suc.prems(2) by simp
    have "remove_handlers P (Suc j) \<lparr>hs_list = l, hs_delegateCount = c\<rparr> =
        remove_handlers P j \<lparr>hs_list = ?l, hs_delegateCount = length (filter delegated ?l)\<rparr>"
      unfolding len using True by (simp add: Let_def delegated_def)
    then show ?thesis using Suc.IH [of ?l] True j by (simp add: Let_def tk)
  next
    case False
    then show ?thesis using Suc.IH [of l c] Suc.prems j by (simp add: Let_def tk dr)
  qed
qed simp

lemma remove_handlers_filter:
  assumes "wf_handlers hs"
  shows "hs_list (remove_handlers P (length (hs_list hs)) hs) = filter (\<lambda>h. \<not> P h) (hs_list hs)"
    "wf_handlers (remove_handlers P (length (hs_list hs)) hs)"
proof -
  obtain ds bs where hs: "hs = \<lparr>hs_list = ds @ bs, hs_delegateCount = length ds\<rparr>" "list_all delegated ds"
    "list_all (\<lambda>h. \<not> delegated h) bs" using wf_handlersE [OF assms] .
  have c: "length ds = length (filter delegated (ds @ bs))" using filter_all(1) [OF hs(2)] filter_all(2) [OF hs(3)] by simp
  have r: "remove_handlers P (length (hs_list hs)) hs = \<lparr>hs_list = filter (\<lambda>h. \<not> P h) (ds @ bs),
      hs_delegateCount = length (filter delegated (filter (\<lambda>h. \<not> P h) (ds @ bs)))\<rparr>"
    using remove_handlers_prefix [of "length (ds @ bs)" "ds @ bs", OF _ c] by (simp add: hs(1) Let_def)
  then show "hs_list (remove_handlers P (length (hs_list hs)) hs) = filter (\<lambda>h. \<not> P h) (hs_list hs)"
    by (simp add: hs(1))
  have "list_all delegated (filter (\<lambda>h. \<not> P h) ds)" "list_all (\<lambda>h. \<not> delegated h) (filter (\<lambda>h. \<not> P h) bs)"
    using hs(2,3) by (auto simp: list_all_iff)
  then show "wf_handlers (remove_handlers P (length (hs_list hs)) hs)"
    unfolding r wf_handlers_def by auto
qed

section \<open>The data of an element\<close>

text \<open>The types are words without dots.\<close>

definition type_word :: "string \<Rightarrow> bool" where
  "type_word t \<longleftrightarrow> t \<noteq> [] \<and> dot_free t \<and> (\<forall>c \<in> set t. \<not> is_space c)"

text \<open>A handler object has the type its type is changed to, and its namespaces are without blanks.\<close>

definition wf_handle_obj :: "'h handle_obj \<Rightarrow> bool" where
  "wf_handle_obj h \<longleftrightarrow> type_word (ho_origType h) \<and> ho_type h = mapped_type (ho_selector h) (ho_origType h) \<and>
     (\<forall>c \<in> set (ho_namespace h). \<not> is_space c)"

definition wf_entry :: "string \<times> 'h handlers \<Rightarrow> bool" where
  "wf_entry p \<longleftrightarrow> type_word (fst p) \<and> hs_list (snd p) \<noteq> [] \<and> wf_handlers (snd p) \<and>
     (\<forall>h \<in> set (hs_list (snd p)). ho_type h = fst p \<and> wf_handle_obj h)"

text \<open>Every type has handlers, and the handle listens to exactly those of these types that are left to it.\<close>

definition listened :: "string \<Rightarrow> bool" where
  "listened t \<longleftrightarrow> sp_listen (special_of t)"

definition wf_data :: "'h elem_data \<Rightarrow> bool" where
  "wf_data d \<longleftrightarrow> (case ed_events d of None \<Rightarrow> ed_native d = [] \<and> \<not> ed_handle d
     | Some es \<Rightarrow> ed_handle d \<and> distinct (map fst es) \<and> (\<forall>p \<in> set es. wf_entry p) \<and> ed_native d = filter listened (map fst es))"

lemma lookup_type_in: "lookup_type t es = Some hs \<Longrightarrow> (t, hs) \<in> set es"
  by (induction es) (auto split: if_splits)

lemma lookup_type_none: "lookup_type t es = None \<longleftrightarrow> t \<notin> set (map fst es)"
  by (induction es) (auto split: if_splits)

lemma set_type_keys: "map fst (set_handlers t hs es) = (if t \<in> set (map fst es) then map fst es else map fst es @ [t])"
proof (induction es)
  case (Cons p es)
  then show ?case by (cases p; cases "fst p = t") auto
qed simp

lemma set_type_in: "p \<in> set (set_handlers t hs es) \<Longrightarrow> p = (t, hs) \<or> p \<in> set es"
  by (induction es) (auto split: if_splits)

lemma delete_type_keys: "map fst (delete_type t es) = filter (\<lambda>u. u \<noteq> t) (map fst es)"
  by (induction es) (auto simp: delete_type_def)

lemma listened_iff: "listened t \<longleftrightarrow> t \<noteq> ''focusin'' \<and> t \<noteq> ''focusout''"
  by (auto simp: listened_def special_of_def no_special_def)

lemma listen_special [simp]: "sp_listen (special_of t) \<longleftrightarrow> listened t"
  by (simp add: listened_def)

text \<open>A type that is not listened to is not changed, and so never among those listened to.\<close>

lemma unlistened_mapped: "\<not> listened origType \<Longrightarrow> mapped_type selector origType = origType"
  by (auto simp: listened_iff mapped_type_def special_of_def no_special_def)

lemma removed_native:
  assumes "wf_data d"
  shows "(if listened origType then filter (\<lambda>u. u \<noteq> mapped_type selector origType) (ed_native d) else ed_native d) =
    filter (\<lambda>u. u \<noteq> mapped_type selector origType) (ed_native d)"
proof (cases "listened origType")
  case False
  have "\<forall>u \<in> set (ed_native d). listened u" using assms by (auto simp: wf_data_def split: option.splits)
  then have "filter (\<lambda>u. u \<noteq> origType) (ed_native d) = ed_native d" using False by (auto simp: filter_id_conv)
  then show ?thesis using False unlistened_mapped [OF False, of selector] by simp
qed simp

lemma special_words: "sp_delegateType (special_of t) = [] \<or> type_word (sp_delegateType (special_of t))"
    "sp_bindType (special_of t) = [] \<or> type_word (sp_bindType (special_of t))"
  by (auto simp: special_of_def no_special_def type_word_def dot_free_def is_space_def)

lemma mapped_type_word: "type_word t \<Longrightarrow> type_word (mapped_type selector t)"
  using special_words [of t] by (auto simp: mapped_type_def Let_def)

lemma parse_type_word: "parse_type s = Some (t, ns) \<Longrightarrow> t \<noteq> [] \<Longrightarrow> \<forall>c \<in> set s. \<not> is_space c \<Longrightarrow> type_word t"
  by (auto simp: parse_type_def type_word_def dot_free_def Let_def split: if_splits dest: set_takeWhileD)

lemma split_dot_from_chars: "v \<in> set (split_dot_from w s) \<Longrightarrow> set v \<subseteq> set w \<union> set s"
  by (induction w s rule: split_dot_from.induct) (auto split: if_splits)

lemma join_dot_chars: "set (join_dot vs) \<subseteq> insert CHR ''.'' (\<Union> (set ` set vs))"
  by (induction vs rule: join_dot.induct) auto

lemma split_dot_chars: "v \<in> set (split_dot s) \<Longrightarrow> set v \<subseteq> set s"
  using split_dot_from_chars [of v "[]" s] by (simp add: split_dot_def)

lemma namespace_chars: "set (join_dot (namespaces_of ns)) \<subseteq> insert CHR ''.'' (set (case ns of Some s \<Rightarrow> s | None \<Rightarrow> []))"
proof -
  have "\<Union> (set ` set (namespaces_of ns)) \<subseteq> set (case ns of Some s \<Rightarrow> s | None \<Rightarrow> [])"
    unfolding namespaces_of_def set_sort using split_dot_chars by blast
  then show ?thesis using join_dot_chars [of "namespaces_of ns"] by blast
qed

lemma parse_type_chars:
  assumes "parse_type s = Some (t, ns)"
  shows "set (case ns of Some r \<Rightarrow> r | None \<Rightarrow> []) \<subseteq> set s"
proof -
  have "set (tl l) \<subseteq> set l" for l :: string by (cases l) auto
  then have "set (tl (dropWhile P s)) \<subseteq> set s" for P using set_dropWhileD [of _ P s] by blast
  then show ?thesis using assms by (auto simp: parse_type_def Let_def split: if_splits)
qed

lemma parsed_namespace:
  assumes "parse_type s = Some (t, ns)" "\<forall>c \<in> set s. \<not> is_space c"
  shows "\<forall>c \<in> set (join_dot (namespaces_of ns)). \<not> is_space c"
proof -
  have "\<not> is_space CHR ''.''" by (simp add: is_space_def)
  then show ?thesis using namespace_chars [of ns] parse_type_chars [OF assms(1)] assms(2) by blast
qed

lemma type_list_words: "s \<in> set (type_list types) \<Longrightarrow> \<forall>c \<in> set s. \<not> is_space c"
  using match_words [of s types] by (auto simp: type_list_def split: if_splits)

definition events_of :: "'h elem_data \<Rightarrow> (string \<times> 'h handlers) list" where
  "events_of d = (case ed_events d of None \<Rightarrow> [] | Some es \<Rightarrow> es)"

lemma add_type_wf:
  assumes "wf_data d" "ed_events d = Some es" "\<forall>c \<in> set s. \<not> is_space c"
  shows "wf_data (add_type handler g selector s d) \<and> ed_events (add_type handler g selector s d) \<noteq> None"
proof (cases "parse_type s")
  case (Some p)
  obtain origType ns where p: "p = (origType, ns)" by (cases p) auto
  show ?thesis
  proof (cases "origType = []")
    case False
    define t where "t = mapped_type selector origType"
    define h where "h = \<lparr>ho_type = t, ho_origType = origType, ho_handler = handler, ho_guid = g,
      ho_selector = selector, ho_namespace = join_dot (namespaces_of ns)\<rparr>"
    define hs where "hs = (case lookup_type t es of None \<Rightarrow> \<lparr>hs_list = [], hs_delegateCount = 0\<rparr> | Some hs \<Rightarrow> hs)"
    have wf: "wf_handlers hs" "\<forall>x \<in> set (hs_list hs). ho_type x = t \<and> wf_handle_obj x"
      using assms lookup_type_in [of t es] wf_handlersI [of "[]" "[]"]
      by (cases "lookup_type t es"; auto simp: hs_def wf_data_def wf_entry_def)+
    have tw: "type_word origType" using parse_type_word [OF _ False assms(3)] Some p by simp
    have "wf_handle_obj h"
      using tw parsed_namespace [OF _ assms(3)] Some p by (simp add: wf_handle_obj_def h_def t_def)
    then have e: "wf_entry (t, insert_handler h hs)"
      using insert_handler_wf [OF wf(1), of h] wf(2) mapped_type_word [OF tw]
      by (auto simp: wf_entry_def h_def t_def)
    have "add_type handler g selector s d =
        (if lookup_type t es = None \<and> listened t then d\<lparr>ed_native := ed_native d @ [t]\<rparr> else d)
          \<lparr>ed_events := Some (set_handlers t (insert_handler h hs) es)\<rparr>"
      using Some p False assms(2) by (simp add: add_type_def t_def [symmetric] h_def [symmetric] hs_def Let_def)
    then show ?thesis
      using assms e set_type_in [of _ t "insert_handler h hs" es] lookup_type_none [of t es]
      by (auto simp: wf_data_def set_type_keys)
  qed (use assms Some p in \<open>simp add: add_type_def\<close>)
qed (use assms in \<open>simp add: add_type_def\<close>)

lemma event_add_wf:
  assumes "wf_data d"
  shows "wf_data (event_add types handler g selector d)"
proof -
  have f: "wf_data d \<and> ed_events d \<noteq> None \<Longrightarrow> \<forall>s \<in> set ss. \<forall>c \<in> set s. \<not> is_space c \<Longrightarrow> wf_data (fold (add_type handler g selector) ss d) \<and>
      ed_events (fold (add_type handler g selector) ss d) \<noteq> None" for ss d
  proof (induction ss arbitrary: d)
    case (Cons s ss)
    then obtain es where "ed_events d = Some es" by auto
    moreover have "\<forall>c \<in> set s. \<not> is_space c" using Cons.prems(2) by simp
    ultimately show ?case using add_type_wf [OF conjunct1 [OF Cons.prems(1)]] Cons.IH Cons.prems(2) by simp
  qed simp
  have "wf_data (d\<lparr>ed_events := Some (case ed_events d of None \<Rightarrow> [] | Some es \<Rightarrow> es), ed_handle := True\<rparr>)"
    using assms by (auto simp: wf_data_def split: option.splits)
  then show ?thesis using f type_list_words by (simp add: event_add_def)
qed

lemma remove_type_wf:
  fixes d :: "'h elem_data"
  assumes "wf_data d"
  shows "wf_data (remove_type mapped handler selector origType ns d)"
proof (cases "ed_events d")
  case (Some es)
  define t where "t = mapped_type selector origType"
  show ?thesis
  proof (cases "lookup_type t es")
    case None
    then show ?thesis using assms Some by (simp add: remove_type_def t_def Let_def)
  next
    case hs: (Some hs)
    define P :: "'h handle_obj \<Rightarrow> bool" where "P = handle_matches mapped origType handler (map_option (\<lambda>s. namespaces_of (Some s)) ns) selector"
    define hs1 where "hs1 = remove_handlers P (length (hs_list hs)) hs"
    have wf: "wf_handlers hs" "\<forall>x \<in> set (hs_list hs). ho_type x = t \<and> wf_handle_obj x" "type_word t"
      using assms Some lookup_type_in [OF hs] by (auto simp: wf_data_def wf_entry_def)
    have r: "remove_type mapped handler selector origType ns d = (if hs_list hs \<noteq> [] \<and> hs_list hs1 = []
        then d\<lparr>ed_events := Some (delete_type t es), ed_native := filter (\<lambda>u. u \<noteq> t) (ed_native d)\<rparr>
        else d\<lparr>ed_events := Some (set_handlers t hs1 es)\<rparr>)"
      using Some hs removed_native [OF assms, of origType selector] by (auto simp: remove_type_def t_def P_def [symmetric] hs1_def Let_def split: if_splits)
    have "hs_list hs1 \<noteq> [] \<Longrightarrow> wf_entry (t, hs1)"
      using remove_handlers_filter [OF wf(1), of P] wf(2,3) by (auto simp: wf_entry_def hs1_def)
    moreover have "hs_list hs \<noteq> []" using assms Some lookup_type_in [OF hs] by (auto simp: wf_data_def wf_entry_def)
    moreover have "t \<in> set (map fst es)" using lookup_type_none [of t es] hs by auto
    ultimately show ?thesis
      unfolding r using assms Some set_type_in [of _ t hs1 es]
      by (auto simp: wf_data_def set_type_keys delete_type_keys distinct_filter conj_commute) (auto simp: delete_type_def)
  qed
qed (use assms in \<open>simp add: remove_type_def\<close>)

lemma js_fold_inv:
  "I x \<Longrightarrow> (\<And>y x x1. I x \<Longrightarrow> f y x = Inr x1 \<Longrightarrow> I x1) \<Longrightarrow> js_fold f ys x = Inr x1 \<Longrightarrow> I x1"
  by (induction ys arbitrary: x) (auto simp: js_bind_eq_Inr)

lemma remove_unused_wf: "wf_data d \<Longrightarrow> wf_data (remove_unused d) \<and> ed_events (remove_unused d) \<noteq> Some []"
  by (auto simp: remove_unused_def wf_data_def)

lemma event_remove_wf:
  "wf_data (d :: 'h elem_data) \<Longrightarrow> event_remove n mapped types handler selector d = Inr d1 \<Longrightarrow>
    wf_data d1 \<and> (ed_events d1 \<noteq> Some [])"
proof (induction n arbitrary: mapped types d d1)
  case (Suc n)
  show ?case
  proof (cases "ed_events d")
    case (Some es)
    define step where "step = (\<lambda>s (d :: 'h elem_data). case parse_type s of
        Some (t # ts, ns) \<Rightarrow> Inr (remove_type mapped handler selector (t # ts) ns d)
      | _ \<Rightarrow> js_fold (\<lambda>u. event_remove n True (u @ s) handler selector)
               (case ed_events d of None \<Rightarrow> [] | Some es \<Rightarrow> map fst es) d)"
    have keep: "wf_data x1" if "wf_data x" "step s x = Inr x1" for s x x1
    proof -
      have inner: "wf_data y1" if "wf_data y" "js_fold (\<lambda>u. event_remove n True (u @ s) handler selector) us y = Inr y1"
        for us and y y1 :: "'h elem_data"
        by (rule js_fold_inv [of wf_data, OF that(1) _ that(2)]) (drule (1) Suc.IH, simp)
      consider (other) "step s x = js_fold (\<lambda>u. event_remove n True (u @ s) handler selector)
          (case ed_events x of None \<Rightarrow> [] | Some es \<Rightarrow> map fst es) x"
        | (typed) t ns where "step s x = Inr (remove_type mapped handler selector t ns x)"
        unfolding step_def by (cases "parse_type s"; cases "fst (the (parse_type s))") auto
      then show ?thesis
      proof cases
        case other
        show ?thesis by (rule inner [OF that(1)]) (use that(2) other in simp)
      next
        case typed
        then show ?thesis using remove_type_wf [OF that(1)] that(2) by simp
      qed
    qed
    obtain d2 where d2: "js_fold step (rev (type_list types)) d = Inr d2" "d1 = remove_unused d2"
      using Suc.prems(2) Some unfolding step_def by (simp add: js_bind_eq_Inr) blast
    have "wf_data d2" by (rule js_fold_inv [of wf_data, OF Suc.prems(1) _ d2(1)]) (rule keep)
    then show ?thesis using remove_unused_wf d2(2) by simp
  qed (use Suc.prems in auto)
qed simp

text \<open>C35: Binding and unbinding keep the data of an element well formed: each type that is kept has
  handlers of that type, the delegated ones in front and counted, the browser's listener is there
  for exactly those of these types that are left to it (all but \<open>focusin\<close> and \<open>focusout\<close>, what delegated
  \<open>focus\<close> and \<open>blur\<close> are changed to, which are heard at the document), and what is left without handlers is
  taken away altogether.\<close>

theorem event_data_typed:
  assumes "wf_data d"
  shows "wf_data (event_add types handler g selector d) \<and>
    (\<forall>d1. event_remove n mapped types h selector d = Inr d1 \<longrightarrow> wf_data d1 \<and> ed_events d1 \<noteq> Some [])"
  using event_add_wf [OF assms] event_remove_wf [OF assms] by blast

text \<open>A direct and a delegated handler, and the direct one unbound by its namespace.\<close>

definition no_data :: "int elem_data" where
  "no_data = \<lparr>ed_events = None, ed_handle = False, ed_native = []\<rparr>"

theorem event_data_typed_witness:
  "wf_data (event_add ''click.x mouseenter'' (Plain 1) 7 [] no_data) \<and>
   wf_data (event_add ''click'' (Plain 2) 8 ''a'' (event_add ''click.x mouseenter'' (Plain 1) 7 [] no_data)) \<and>
   wf_data (event_add ''focus'' (Plain 2) 8 ''a'' no_data)"
proof -
  have "wf_data no_data" by (simp add: wf_data_def no_data_def)
  then have f: "wf_data (event_add ''focus'' (Plain 2) 8 ''a'' no_data)" by (rule event_data_typed [THEN conjunct1])
  from event_data_typed [OF \<open>wf_data no_data\<close>, THEN conjunct1] have 1: "wf_data (event_add ''click.x mouseenter'' (Plain 1) 7 [] no_data)" .
  from 1 event_data_typed [OF this, THEN conjunct1] show ?thesis using f by blast
qed

section \<open>When \<open>off\<close> returns\<close>

lemma parse_word: "type_word t \<Longrightarrow> parse_type s = Some ([], ns) \<Longrightarrow> parse_type (t @ s) = Some (t, ns)"
  by (auto simp: parse_type_def type_word_def dot_free_def Let_def takeWhile_append dropWhile_append split: if_splits)

lemma parse_stuck: "type_word t \<Longrightarrow> parse_type s = None \<Longrightarrow> parse_type (t @ s) = None"
  by (auto simp: parse_type_def type_word_def dot_free_def Let_def takeWhile_append dropWhile_append split: if_splits)

lemma single_word: "\<forall>c \<in> set s. \<not> is_space c \<Longrightarrow> type_list s = [s]"
  by (cases "s = []") (simp_all add: type_list_def match_word)

lemma word_app: "type_word t \<Longrightarrow> \<forall>c \<in> set s. \<not> is_space c \<Longrightarrow> \<forall>c \<in> set (t @ s). \<not> is_space c"
  by (auto simp: type_word_def)

lemma js_fold_returns:
  "I x \<Longrightarrow> (\<And>y x. y \<in> set ys \<Longrightarrow> I x \<Longrightarrow> \<exists>x1. f y x = Inr x1 \<and> I x1) \<Longrightarrow> \<exists>x1. js_fold f ys x = Inr x1 \<and> I x1"
proof (induction ys arbitrary: x)
  case (Cons y ys)
  obtain x1 where x1: "f y x = Inr x1" "I x1" using Cons.prems by fastforce
  have "\<exists>x2. js_fold f ys x1 = Inr x2 \<and> I x2" using Cons.IH [OF x1(2)] Cons.prems(2) by simp
  then show ?case using x1 by simp
qed simp

text \<open>A type with handlers is removed at once; a namespace needs one call more for each type.\<close>

lemma remove_typed_returns:
  assumes "\<forall>c \<in> set s. \<not> is_space c" "parse_type s = Some (t, ns)" "t \<noteq> []"
  shows "\<exists>d1. event_remove (Suc n) mapped s handler selector d = Inr d1"
proof -
  obtain c cs where "t = c # cs" using assms(3) by (cases t) auto
  then show ?thesis using assms(2) by (cases "ed_events d") (simp_all add: single_word [OF assms(1)])
qed

lemma keys_words: "wf_data d \<Longrightarrow> u \<in> set (case ed_events d of None \<Rightarrow> [] | Some es \<Rightarrow> map fst es) \<Longrightarrow> type_word u"
  by (auto simp: wf_data_def wf_entry_def split: option.splits)

lemma remove_word_returns:
  fixes d :: "'h elem_data"
  assumes "wf_data d" "\<forall>c \<in> set s. \<not> is_space c" "parse_type s = Some ([], ns)"
  shows "\<exists>d1. js_fold (\<lambda>u. event_remove (Suc n) True (u @ s) handler selector)
    (case ed_events d of None \<Rightarrow> [] | Some es \<Rightarrow> map fst es) d = Inr d1"
proof -
  have "\<exists>x1. event_remove (Suc n) True (u @ s) handler selector x = Inr x1 \<and> True"
    if "u \<in> set (case ed_events d of None \<Rightarrow> [] | Some es \<Rightarrow> map fst es)" for u and x :: "'h elem_data"
    using remove_typed_returns [OF word_app [OF keys_words [OF assms(1) that] assms(2)] parse_word [OF keys_words [OF assms(1) that] assms(3)]]
      keys_words [OF assms(1) that] by (auto simp: type_word_def simp del: event_remove.simps)
  then have "\<exists>x1. js_fold (\<lambda>u. event_remove (Suc n) True (u @ s) handler selector)
      (case ed_events d of None \<Rightarrow> [] | Some es \<Rightarrow> map fst es) d = Inr x1 \<and> True"
    by (intro js_fold_returns) simp_all
  then show ?thesis by simp
qed

text \<open>A word that is refused is tried again, with the first type in front, for ever.\<close>

lemma remove_stuck:
  fixes d :: "'h elem_data"
  assumes "wf_data d" "\<forall>c \<in> set s. \<not> is_space c" "parse_type s = None" "events_of d \<noteq> []"
  shows "event_remove n mapped s handler selector d = Inl Diverge"
  using assms(2,3)
proof (induction n arbitrary: mapped s)
  case (Suc n)
  obtain u hs es where es: "ed_events d = Some ((u, hs) # es)"
    using assms(4) by (cases "events_of d") (auto simp: events_of_def split: option.splits)
  have u: "type_word u" using keys_words [OF assms(1), of u] es by simp
  have "event_remove n True (u @ s) handler selector d = Inl Diverge"
    using Suc.IH [OF word_app [OF u Suc.prems(1)] parse_stuck [OF u Suc.prems(2)]] .
  then show ?case using es Suc.prems(2) by (simp add: single_word [OF Suc.prems(1)])
qed simp

lemma off_within_two:
  fixes d :: "'h elem_data"
  assumes "wf_data d" "\<forall>c \<in> set s. \<not> is_space c" "parse_type s \<noteq> None \<or> events_of d = []"
  shows "\<exists>d1. event_remove 2 False s handler selector d = Inr d1"
proof (cases "ed_events d = None \<or> parse_type s = None")
  case True
  then show ?thesis using assms(3)
    by (auto simp: numeral_2_eq_2 single_word [OF assms(2)] events_of_def split: option.splits)
next
  case False
  then obtain es t ns where q: "ed_events d = Some es" "parse_type s = Some (t, ns)" by (cases "parse_type s") auto
  show ?thesis
  proof (cases t)
    case Nil
    then show ?thesis using remove_word_returns [OF assms(1,2), of ns 0 handler selector] q
      by (auto simp: numeral_2_eq_2 single_word [OF assms(2)] simp del: event_remove.simps(1))
  next
    case (Cons c cs)
    then show ?thesis using remove_typed_returns [OF assms(2) q(2), of 1 False handler selector d]
      by (simp add: numeral_2_eq_2 del: event_remove.simps)
  qed
qed

text \<open>C37: \<open>off\<close> with one type returns, with two nested calls at most, unless the text ends in its
  first dot: then it calls itself without end as soon as the element has a handler of any type.\<close>

theorem off_returns:
  fixes d :: "'h elem_data"
  assumes "wf_data d" "\<forall>c \<in> set s. \<not> is_space c"
  shows "if parse_type s \<noteq> None \<or> events_of d = []
    then \<exists>d1. event_remove 2 False s handler selector d = Inr d1
    else \<forall>n. event_remove n False s handler selector d = Inl Diverge"
proof (cases "parse_type s \<noteq> None \<or> events_of d = []")
  case True
  then show ?thesis using off_within_two [OF assms True] by simp
next
  case False
  then have "parse_type s = None" "events_of d \<noteq> []" by blast+
  then show ?thesis using remove_stuck [OF assms] by simp
qed

text \<open>One handler of \<open>click\<close>: \<open>off( ".x" )\<close> returns, \<open>off( "keyup." )\<close> does not.\<close>

definition one_click :: "int elem_data" where
  "one_click = event_add ''click.x'' (Plain 1) 7 [] no_data"

theorem off_returns_witness:
  "(\<exists>d1. event_remove 2 False ''.x'' None [] one_click = Inr d1) \<and>
   (\<forall>n. event_remove n False ''keyup.'' None [] one_click = Inl Diverge)"
proof -
  have wf: "wf_data one_click" unfolding one_click_def by (rule event_add_wf) (simp add: wf_data_def no_data_def)
  have h: "\<forall>c \<in> set ''.x''. \<not> is_space c" "\<forall>c \<in> set ''keyup.''. \<not> is_space c" by (simp_all add: is_space_def)
  have "parse_type ''.x'' \<noteq> None" "parse_type ''keyup.'' = None" "events_of one_click \<noteq> []" by code_simp+
  then show ?thesis
    using off_returns [OF wf h(1), of None "[]"] off_returns [OF wf h(2), of None "[]"] by simp
qed

section \<open>\<open>off\<close> undoes \<open>on\<close>\<close>

lemma parse_type_ns: "parse_type s = Some (t, Some r) \<Longrightarrow> r \<noteq> []"
  by (auto simp: parse_type_def Let_def split: if_splits)



lemma lookup_set_type [simp]: "lookup_type t (set_handlers t hs es) = Some hs"
  by (induction es) auto








end
