(* ===== verification/JQ_DispatchProps.thy ===== *)
theory JQ_DispatchProps
  imports JQ_EventProps
begin

text \<open>
  The calls an event makes at one element. Before the first call they are planned: the nodes from
  the target up to the element, each with its delegated handlers whose selector matches, then the
  handlers bound to the element. Whatever the functions do, binding and unbinding included, what is
  called is an initial part of the plan, and all of it unless one of them stops the event.
\<close>

section \<open>Removing always returns\<close>

lemma event_remove_returns:
  fixes d :: "'h elem_data"
  assumes "wf_data d" "\<forall>s \<in> set (type_list types). parse_type s \<noteq> None"
  shows "\<exists>d1. event_remove (Suc (Suc n)) mapped types handler selector d = Inr d1 \<and> wf_data d1"
proof (cases "ed_events d")
  case (Some es)
  define step where "step = (\<lambda>s (d :: 'h elem_data). case parse_type s of
      Some (t # ts, ns) \<Rightarrow> Inr (remove_type mapped handler selector (t # ts) ns d)
    | _ \<Rightarrow> js_fold (\<lambda>u. event_remove (Suc n) True (u @ s) handler selector)
             (case ed_events d of None \<Rightarrow> [] | Some es \<Rightarrow> map fst es) d)"
  have "\<exists>x1. step s x = Inr x1 \<and> wf_data x1" if "s \<in> set (rev (type_list types))" "wf_data x" for s x
  proof -
    note wf = that(2) and sin = that(1)
    obtain t ns where p: "parse_type s = Some (t, ns)" using assms(2) \<open>s \<in> set (rev (type_list types))\<close> by fastforce
    show ?thesis
    proof (cases t)
      case Nil
      have sp: "\<forall>c \<in> set s. \<not> is_space c" using sin by (intro type_list_words) simp
      obtain x1 where x1: "step s x = Inr x1"
        using remove_word_returns [OF wf sp, of ns n handler selector] p Nil unfolding step_def by auto
      then have "js_fold (\<lambda>u. event_remove (Suc n) True (u @ s) handler selector)
          (case ed_events x of None \<Rightarrow> [] | Some es \<Rightarrow> map fst es) x = Inr x1"
        using p Nil by (simp add: step_def)
      then have "wf_data x1"
        by (rule js_fold_inv [of wf_data, OF wf, rotated]) (drule (1) event_remove_wf, simp)
      with x1 show ?thesis by blast
    next
      case (Cons c cs)
      then show ?thesis using p remove_type_wf [OF wf] by (simp add: step_def)
    qed
  qed
  then obtain d2 where "js_fold step (rev (type_list types)) d = Inr d2" "wf_data d2"
    using js_fold_returns [of wf_data d "rev (type_list types)" step, OF assms(1)] by blast
  moreover note remove_unused_wf [OF this(2)]
  ultimately show ?thesis using Some by (subst event_remove.simps) (simp add: step_def [symmetric])
qed (use assms in simp)

section \<open>The functions of the page\<close>

definition wf_world :: "'h world \<Rightarrow> bool" where
  "wf_world w \<longleftrightarrow> (\<forall>i. wf_data (data_of i w))"

definition same_tree :: "'h world \<Rightarrow> 'h world \<Rightarrow> bool" where
  "same_tree w w1 \<longleftrightarrow> (\<forall>i. n_parents (w_dom w1 i) = n_parents (w_dom w i))"

text \<open>No function unbinds with a text that ends in its first dot.\<close>

primrec sane_op :: "'h dom_op \<Rightarrow> bool" where
  "sane_op (On i types h selector) \<longleftrightarrow> True"
| "sane_op (One i types h selector) \<longleftrightarrow> True"
| "sane_op (Off i types h selector) \<longleftrightarrow> list_all (\<lambda>s. parse_type s \<noteq> None) (type_list types)"

definition sane_page :: "'h ev_page \<Rightarrow> bool" where
  "sane_page pg \<longleftrightarrow> (\<forall>h i e cs. list_all sane_op (re_ops (pg_react pg h i e cs)))"

text \<open>What a step changes of the world apart from the calls.\<close>

definition world_step :: "'h world \<Rightarrow> 'h world \<Rightarrow> (nat \<times> 'h \<times> string) list \<Rightarrow> bool" where
  "world_step w w1 cs \<longleftrightarrow> wf_world w1 \<and> same_tree w w1 \<and> w_calls w1 = w_calls w @ cs \<and> w_native w1 = w_native w"

lemma world_step_refl: "wf_world w \<Longrightarrow> world_step w w []"
  by (simp add: world_step_def same_tree_def)

lemma world_step_trans: "world_step w w1 cs \<Longrightarrow> world_step w1 w2 ds \<Longrightarrow> world_step w w2 (cs @ ds)"
  by (simp add: world_step_def same_tree_def)

lemma set_data_step: "wf_world w \<Longrightarrow> wf_data d \<Longrightarrow> world_step w (set_data i d w) []"
  by (simp add: world_step_def wf_world_def same_tree_def set_data_def data_of_def)

lemma run_dom_op_step:
  assumes "wf_world w" "sane_op p"
  shows "\<exists>w1. run_dom_op (Suc (Suc n)) pg p w = Inr w1 \<and> world_step w w1 []"
proof (cases p)
  case (Off i types h selector)
  have "wf_data (data_of i w)" using assms(1) by (simp add: wf_world_def)
  from event_remove_returns [OF this, of types n False "guid_arg pg h" selector] show ?thesis
    using assms(2) Off set_data_step [OF assms(1)] by (auto simp: list_all_iff simp del: event_remove.simps)
qed (use set_data_step [OF assms(1) event_add_wf] assms(1) in \<open>auto simp: wf_world_def\<close>)

lemma run_dom_ops_step:
  "wf_world w \<Longrightarrow> list_all sane_op ps \<Longrightarrow> \<exists>w1. run_dom_ops (Suc (Suc n)) pg ps w = Inr w1 \<and> world_step w w1 []"
proof (induction ps arbitrary: w)
  case (Cons p ps)
  obtain w1 where w1: "run_dom_op (Suc (Suc n)) pg p w = Inr w1" "world_step w w1 []"
    using run_dom_op_step [OF Cons.prems(1)] Cons.prems(2) by fastforce
  then obtain w2 where "run_dom_ops (Suc (Suc n)) pg ps w1 = Inr w2" "world_step w1 w2 []"
    using Cons.IH [of w1] Cons.prems(2) by (auto simp: world_step_def)
  then show ?case using w1 world_step_trans [of w w1 "[]" w2 "[]"] by simp
qed (use world_step_refl in simp)

text \<open>What stays of an event, and that it is stopped when it is stopped at once.\<close>

definition event_step :: "event \<Rightarrow> event \<Rightarrow> bool" where
  "event_step e e1 \<longleftrightarrow> e_type e1 = e_type e \<and> e_namespaces e1 = e_namespaces e \<and> e_related e1 = e_related e \<and>
     (e_immediate e1 \<longrightarrow> e_stopped e1)"

definition proper :: "event \<Rightarrow> bool" where
  "proper e \<longleftrightarrow> (e_immediate e \<longrightarrow> e_stopped e)"

lemma call_user_step:
  assumes "sane_page pg" "wf_world w" "proper e"
  shows "\<exists>w1 e1 r. call_user (Suc (Suc n)) pg h i e w = Inr (w1, e1, r) \<and>
    world_step w w1 [(i, h, e_type e)] \<and> event_step e e1"
proof -
  let ?r = "pg_react pg h i e (w_calls w)" and ?w = "w\<lparr>w_calls := w_calls w @ [(i, h, e_type e)]\<rparr>"
  have "list_all sane_op (re_ops ?r)" using assms(1) by (simp add: sane_page_def)
  moreover have w: "world_step w ?w [(i, h, e_type e)]"
    using assms(2) by (simp add: world_step_def wf_world_def same_tree_def data_of_def)
  ultimately obtain w1 where "run_dom_ops (Suc (Suc n)) pg (re_ops ?r) ?w = Inr w1" "world_step ?w w1 []"
    using run_dom_ops_step [of ?w "re_ops ?r" n pg] by (auto simp: world_step_def)
  then show ?thesis using world_step_trans [OF w, of w1 "[]"] assms(3)
    by (auto simp: call_user_def Let_def event_step_def proper_def preventDefault_def stopPropagation_def stopImmediatePropagation_def)
qed

section \<open>One handler\<close>

primrec user_fn :: "'h handler \<Rightarrow> 'h" where
  "user_fn (Plain h) = h"
| "user_fn (Once h) = h"

definition is_crossing :: "'h handle_obj \<Rightarrow> bool" where
  "is_crossing ho \<longleftrightarrow> ho_origType ho = ''mouseenter'' \<or> ho_origType ho = ''mouseleave''"

definition wants :: "event \<Rightarrow> 'h world \<Rightarrow> nat \<times> 'h handle_obj \<Rightarrow> bool" where
  "wants e w p \<longleftrightarrow> ns_allows e (snd p) \<and> (is_crossing (snd p) \<longrightarrow> crosses (fst p) e w)"

definition call_of :: "event \<Rightarrow> nat \<times> 'h handle_obj \<Rightarrow> nat \<times> 'h \<times> string" where
  "call_of e p = (fst p, user_fn (ho_handler (snd p)), if is_crossing (snd p) then ho_origType (snd p) else e_type e)"

lemma own_text_parses:
  assumes "wf_handle_obj ho"
  defines "s \<equiv> (if ho_namespace ho \<noteq> [] then ho_origType ho @ ''.'' @ ho_namespace ho else ho_origType ho)"
  shows "\<forall>s' \<in> set (type_list s). parse_type s' \<noteq> None"
proof -
  have dot: "\<not> is_space CHR ''.''" by (simp add: is_space_def)
  have cr: "is_space CHR 0x0A" "is_space CHR 0x0D" by (simp_all add: is_space_def)
  have "\<forall>c \<in> set s. \<not> is_space c" using assms dot by (auto simp: wf_handle_obj_def type_word_def)
  then have "type_list s = [s]" by (rule single_word)
  moreover have "parse_type s \<noteq> None"
    using assms cr by (auto simp: wf_handle_obj_def type_word_def dot_free_def parse_type_def Let_def takeWhile_append dropWhile_append)
  ultimately show ?thesis by simp
qed

lemma call_handler_step:
  assumes "sane_page pg" "wf_world w" "proper e" "wf_handle_obj ho"
  shows "\<exists>w1 e1 r. call_handler (Suc (Suc n)) pg this ho i e w = Inr (w1, e1, r) \<and>
    world_step w w1 [(i, user_fn (ho_handler ho), e_type e)] \<and> event_step e e1"
proof (cases "ho_handler ho")
  case (Once h)
  have "wf_data (data_of this w)" using assms(2) by (simp add: wf_world_def)
  from event_remove_returns [OF this own_text_parses [OF assms(4)], of n False "Some (Some (ho_guid ho))" "ho_selector ho"]
  obtain w1 where w1: "off_event (Suc (Suc n)) this ho w = Inr w1" "world_step w w1 []"
    using set_data_step [OF assms(2)] by (auto simp: off_event_def simp del: event_remove.simps)
  obtain w2 e2 r where "call_user (Suc (Suc n)) pg h i e w1 = Inr (w2, e2, r)" "world_step w1 w2 [(i, h, e_type e)]" "event_step e e2"
    using call_user_step [OF assms(1) _ assms(3), of w1 n h i] w1(2) by (auto simp: world_step_def)
  then show ?thesis using w1 world_step_trans [OF w1(2)] Once by (simp add: call_handler_def)
qed (use call_user_step [OF assms(1-3)] in \<open>simp add: call_handler_def\<close>)

lemma call_special_step:
  assumes "sane_page pg" "wf_world w" "proper e" "wf_handle_obj ho" "ho_type ho = e_type e" "ns_allows e ho"
  shows "\<exists>w1 e1 r. call_special (Suc (Suc n)) pg this ho i e w = Inr (w1, e1, r) \<and>
    world_step w w1 (map (call_of e) (filter (wants e w) [(i, ho)])) \<and> event_step e e1"
proof (cases "is_crossing ho")
  case True
  have ty: "mapped_type [] (ho_origType ho) = e_type e"
    using True assms(4,5) by (auto simp: is_crossing_def wf_handle_obj_def mapped_type_def special_of_def no_special_def Let_def)
  show ?thesis
  proof (cases "crosses i e w")
    case c: True
    have "proper (e\<lparr>e_type := ho_origType ho\<rparr>)" using assms(3) by (simp add: proper_def)
    from call_handler_step [OF assms(1,2) this assms(4), of n this i] show ?thesis
      using True c ty assms(6) by (auto simp: call_special_def is_crossing_def [symmetric] wants_def call_of_def event_step_def)
  next
    case False
    then show ?thesis using True world_step_refl [OF assms(2)] assms(3)
      by (simp add: call_special_def is_crossing_def [symmetric] wants_def event_step_def proper_def)
  qed
next
  case False
  then show ?thesis using call_handler_step [OF assms(1-4), of n this i] assms(6)
    by (auto simp: call_special_def is_crossing_def [symmetric] wants_def call_of_def)
qed

section \<open>The handlers of one node, and of the queue\<close>

text \<open>The calls made are an initial part of the calls planned, and all of them unless stopped.\<close>

lemma call_special_allowed:
  assumes "sane_page pg" "wf_world w" "proper e" "wf_handle_obj ho" "ho_type ho = e_type e" "ns_allows e ho"
  obtains w1 e1 r where "call_special (Suc (Suc n)) pg this ho i e w = Inr (w1, e1, r)"
    "world_step w w1 (map (call_of e) (filter (wants e w) [(i, ho)]))" "event_step e e1"
  using call_special_step [OF assms, of n this i] by blast

lemma after_call_step: "event_step e e1 \<Longrightarrow> event_step e (after_call r e1)"
  by (auto simp: event_step_def after_call_def Let_def stopPropagation_def preventDefault_def)

lemma wants_step: "event_step e e1 \<Longrightarrow> same_tree w w1 \<Longrightarrow> wants e1 w1 = wants e w"
  by (auto simp: fun_eq_iff wants_def event_step_def same_tree_def ns_allows_def crosses_def node_contains_def split: option.splits)

lemma call_of_step: "event_step e e1 \<Longrightarrow> call_of e1 = call_of e"
  by (simp add: fun_eq_iff call_of_def event_step_def)

lemma event_step_trans: "event_step e e1 \<Longrightarrow> event_step e1 e2 \<Longrightarrow> event_step e e2"
  by (simp add: event_step_def)

lemma event_step_proper: "event_step e e1 \<Longrightarrow> proper e1"
  by (simp add: event_step_def proper_def)

lemma event_step_refl: "proper e \<Longrightarrow> event_step e e"
  by (simp add: event_step_def proper_def)

definition planned :: "event \<Rightarrow> 'h world \<Rightarrow> (nat \<times> 'h handle_obj) list \<Rightarrow> (nat \<times> 'h \<times> string) list" where
  "planned e w ps = map (call_of e) (filter (wants e w) ps)"

lemma planned_step: "event_step e e1 \<Longrightarrow> world_step w w1 cs \<Longrightarrow> planned e1 w1 = planned e w"
  unfolding planned_def [abs_def] world_step_def by (elim conjE) (simp only: wants_step call_of_step)

lemma planned_append: "planned e w (ps @ qs) = planned e w ps @ planned e w qs"
  by (simp add: planned_def)

lemma dispatch_handlers_step:
  "sane_page pg \<Longrightarrow> wf_world w \<Longrightarrow> proper e \<Longrightarrow> \<forall>ho \<in> set hos. wf_handle_obj ho \<and> ho_type ho = e_type e \<Longrightarrow>
    \<exists>e1 w1 cs. dispatch_handlers (Suc (Suc n)) pg this i hos (e, w) = Inr (e1, w1) \<and>
      world_step w w1 cs \<and> event_step e e1 \<and> prefix cs (planned e w (map (Pair i) hos)) \<and>
      (\<not> e_immediate e1 \<longrightarrow> cs = planned e w (map (Pair i) hos))"
proof (induction hos arbitrary: e w)
  case Nil
  then show ?case using world_step_refl event_step_refl by (fastforce simp: planned_def)
next
  case (Cons ho hos)
  show ?case
  proof (cases "e_immediate e")
    case True
    then show ?thesis using world_step_refl [OF Cons.prems(2)] event_step_refl [OF Cons.prems(3)] by auto
  next
    case False
    obtain e1 w1 where s1: "dispatch_handlers (Suc (Suc n)) pg this i (ho # hos) (e, w) =
        dispatch_handlers (Suc (Suc n)) pg this i hos (e1, w1)"
      "world_step w w1 (planned e w [(i, ho)])" "event_step e e1"
    proof (cases "ns_allows e ho")
      case True
      obtain w1 e1 r where "call_special (Suc (Suc n)) pg this ho i e w = Inr (w1, e1, r)"
        "world_step w w1 (planned e w [(i, ho)])" "event_step e e1"
        using call_special_allowed [OF Cons.prems(1-3) _ _ True] Cons.prems(4) unfolding planned_def
        by (metis list.set_intros(1))
      then show ?thesis using that [of "after_call r e1" w1] after_call_step False True by simp
    next
      case False
      then show ?thesis using that [of e w] \<open>\<not> e_immediate e\<close> world_step_refl [OF Cons.prems(2)] event_step_refl [OF Cons.prems(3)]
        by (simp add: planned_def wants_def)
    qed
    have "wf_world w1" "e_type e1 = e_type e" using s1 by (simp_all add: world_step_def event_step_def)
    then obtain e2 w2 cs where s2: "dispatch_handlers (Suc (Suc n)) pg this i hos (e1, w1) = Inr (e2, w2)"
      "world_step w1 w2 cs" "event_step e1 e2" "prefix cs (planned e w (map (Pair i) hos))"
      "\<not> e_immediate e2 \<longrightarrow> cs = planned e w (map (Pair i) hos)"
      using Cons.IH [OF Cons.prems(1) _ event_step_proper [OF s1(3)], of w1] Cons.prems(4)
      by (auto simp: planned_step [OF s1(3,2)])
    moreover have "planned e w (map (Pair i) (ho # hos)) = planned e w [(i, ho)] @ planned e w (map (Pair i) hos)"
      by (simp add: planned_def)
    ultimately show ?thesis
      using s1(1) world_step_trans [OF s1(2) s2(2)] event_step_trans [OF s1(3) s2(3)]
      by (intro exI [of _ e2] exI [of _ w2] exI [of _ "planned e w [(i, ho)] @ cs"]) simp
  qed
qed

definition flat :: "(nat \<times> 'h handle_obj list) list \<Rightarrow> (nat \<times> 'h handle_obj) list" where
  "flat qs = concat (map (\<lambda>(i, hos). map (Pair i) hos) qs)"

lemma dispatch_queue_step:
  "sane_page pg \<Longrightarrow> wf_world w \<Longrightarrow> proper e \<Longrightarrow> \<forall>p \<in> set (flat qs). wf_handle_obj (snd p) \<and> ho_type (snd p) = e_type e \<Longrightarrow>
    \<exists>e1 w1 cs. dispatch_queue (Suc (Suc n)) pg this qs (e, w) = Inr (e1, w1) \<and>
      world_step w w1 cs \<and> event_step e e1 \<and> prefix cs (planned e w (flat qs)) \<and>
      (\<not> e_stopped e1 \<longrightarrow> cs = planned e w (flat qs))"
proof (induction qs arbitrary: e w)
  case Nil
  then show ?case using world_step_refl event_step_refl by (fastforce simp: planned_def flat_def)
next
  case (Cons q qs)
  obtain i hos where q: "q = (i, hos)" by (cases q) auto
  have fl: "flat (q # qs) = map (Pair i) hos @ flat qs" by (simp add: flat_def q)
  show ?case
  proof (cases "e_stopped e")
    case True
    then show ?thesis using world_step_refl [OF Cons.prems(2)] event_step_refl [OF Cons.prems(3)] by auto
  next
    case False
    have hos: "\<forall>ho \<in> set hos. wf_handle_obj ho \<and> ho_type ho = e_type e" using Cons.prems(4) unfolding fl by (auto simp: ball_Un)
    obtain e1 w1 cs where s1: "dispatch_handlers (Suc (Suc n)) pg this i hos (e, w) = Inr (e1, w1)"
      "world_step w w1 cs" "event_step e e1" "prefix cs (planned e w (map (Pair i) hos))"
      "\<not> e_immediate e1 \<longrightarrow> cs = planned e w (map (Pair i) hos)"
      using dispatch_handlers_step [OF Cons.prems(1-3) hos, of n this i] by blast
    have d: "dispatch_queue (Suc (Suc n)) pg this (q # qs) (e, w) = dispatch_queue (Suc (Suc n)) pg this qs (e1, w1)"
      using False s1(1) q by simp
    show ?thesis
    proof (cases "e_stopped e1")
      case True
      then have "dispatch_queue (Suc (Suc n)) pg this qs (e1, w1) = Inr (e1, w1)" by (cases qs) simp_all
      then show ?thesis using s1 True
        unfolding d fl planned_append by (intro exI [of _ e1] exI [of _ w1] exI [of _ cs]) simp
    next
      case go: False
      then have cs: "cs = planned e w (map (Pair i) hos)" using s1(3,5) by (auto simp: event_step_def)
      have "wf_world w1" "e_type e1 = e_type e" using s1 by (simp_all add: world_step_def event_step_def)
      then obtain e2 w2 ds where s2: "dispatch_queue (Suc (Suc n)) pg this qs (e1, w1) = Inr (e2, w2)"
        "world_step w1 w2 ds" "event_step e1 e2" "prefix ds (planned e w (flat qs))"
        "\<not> e_stopped e2 \<longrightarrow> ds = planned e w (flat qs)"
        using Cons.IH [OF Cons.prems(1) _ event_step_proper [OF s1(3)], of w1] Cons.prems(4) fl
        by (auto simp: planned_step [OF s1(3,2)])
      then show ?thesis
        using world_step_trans [OF s1(2) s2(2)] event_step_trans [OF s1(3) s2(3)]
        unfolding d fl planned_append cs [symmetric]
        by (intro exI [of _ e2] exI [of _ w2] exI [of _ "cs @ ds"]) simp
    qed
  qed
qed

section \<open>The plan\<close>

text \<open>The nodes whose delegated handlers are looked at, and the handlers in the order they are called.\<close>

definition delegate_nodes :: "event \<Rightarrow> nat \<Rightarrow> 'h world \<Rightarrow> nat list" where
  "delegate_nodes e this w =
     (if n_nodeType (w_dom w (e_target e)) \<noteq> 0 \<and> (e_button e = 0 \<or> e_type e \<noteq> ''click'')
      then filter (\<lambda>i. n_nodeType (w_dom w i) = 1 \<and> (\<not> n_disabled (w_dom w i) \<or> e_type e \<noteq> ''click'')) (below w (e_target e) this)
      else [])"

definition call_plan :: "'h ev_page \<Rightarrow> event \<Rightarrow> nat \<Rightarrow> 'h handle_obj list \<Rightarrow> 'h world \<Rightarrow> (nat \<times> 'h handle_obj) list" where
  "call_plan pg e this hos w =
     concat (map (\<lambda>i. map (Pair i) (filter (\<lambda>h. delegated h \<and> pg_matches pg (ho_selector h) this i) hos)) (delegate_nodes e this w)) @
     map (Pair this) (filter (\<lambda>h. \<not> delegated h) hos)"

lemma flat_append: "flat (ps @ qs) = flat ps @ flat qs"
  by (simp add: flat_def)

lemma flat_concat: "flat (concat (map f xs)) = concat (map (\<lambda>x. flat (f x)) xs)"
  by (induction xs) (simp_all add: flat_def)

lemma flat_delegated_at:
  assumes "take (hs_delegateCount hs) (hs_list hs) = filter delegated (hs_list hs)"
  shows "flat (delegated_at pg e this hs w i) =
    (if n_nodeType (w_dom w i) = 1 \<and> (\<not> n_disabled (w_dom w i) \<or> e_type e \<noteq> ''click'')
     then map (Pair i) (filter (\<lambda>h. delegated h \<and> pg_matches pg (ho_selector h) this i) (hs_list hs)) else [])"
  unfolding delegated_at_def assms by (simp add: Let_def flat_def)

lemma concat_filter: "concat (map f (filter P xs)) = concat (map (\<lambda>x. if P x then f x else []) xs)"
  by (induction xs) simp_all

lemma flat_handler_queue:
  assumes "wf_handlers hs"
  shows "flat (handler_queue pg e this hs w) = call_plan pg e this (hs_list hs) w"
proof -
  obtain ds bs where hs: "hs = \<lparr>hs_list = ds @ bs, hs_delegateCount = length ds\<rparr>" "list_all delegated ds"
    "list_all (\<lambda>h. \<not> delegated h) bs" using wf_handlersE [OF assms] .
  note fl = filter_all(1) [OF hs(2)] filter_all(2) [OF hs(3)]
  have none: "filter (\<lambda>h. \<not> delegated h) ds = []" "filter (\<lambda>h. \<not> delegated h) bs = bs"
    using hs(2,3) by (auto simp: list_all_iff filter_empty_conv filter_id_conv)
  have no_del: "filter (\<lambda>h. delegated h \<and> Q h) bs = []" for Q using hs(3) by (auto simp: list_all_iff filter_empty_conv)
  have tk: "take (hs_delegateCount hs) (hs_list hs) = filter delegated (hs_list hs)" using hs(1) fl by simp
  have direct: "flat (if hs_delegateCount hs < length (hs_list hs)
      then [(this, drop (hs_delegateCount hs) (hs_list hs))] else []) = map (Pair this) (filter (\<lambda>h. \<not> delegated h) (hs_list hs))"
    using hs(1) none by (simp add: flat_def)
  have empty: "hs_delegateCount hs = 0 \<Longrightarrow> filter (\<lambda>h. delegated h \<and> Q h) (hs_list hs) = []" for Q
    using hs(1) no_del by simp
  show ?thesis
  proof (cases "hs_delegateCount hs = 0")
    case True
    then show ?thesis using direct empty by (simp add: handler_queue_def call_plan_def flat_append flat_def [of "[]"])
  next
    case False
    then show ?thesis
      unfolding handler_queue_def call_plan_def flat_append direct delegate_nodes_def
      by (auto simp: flat_concat flat_delegated_at [OF tk] concat_filter flat_def [of "[]"])
  qed
qed

text \<open>The handlers an element has of a type.\<close>

definition handlers_of :: "string \<Rightarrow> 'h elem_data \<Rightarrow> 'h handle_obj list" where
  "handlers_of t d = (case lookup_type t (events_of d) of None \<Rightarrow> [] | Some hs \<Rightarrow> hs_list hs)"

lemma dispatch_made:
  assumes "sane_page pg" "wf_world w" "proper e" "n \<ge> 2"
  shows "\<exists>e1 w1 cs. dispatch n pg this (e, w) = Inr (e1, w1) \<and> world_step w w1 cs \<and> event_step e e1 \<and>
    prefix cs (planned e w (call_plan pg e this (handlers_of (e_type e) (data_of this w)) w)) \<and>
    (\<not> e_stopped e1 \<longrightarrow> cs = planned e w (call_plan pg e this (handlers_of (e_type e) (data_of this w)) w))"
proof -
  let ?d = "data_of this w"
  define hs where "hs = (case lookup_type (e_type e) (events_of ?d) of
      None \<Rightarrow> \<lparr>hs_list = [], hs_delegateCount = 0\<rparr> | Some hs \<Rightarrow> hs)"
  have hos: "handlers_of (e_type e) ?d = hs_list hs" by (simp add: handlers_of_def hs_def split: option.splits)
  have wf: "wf_handlers hs" "\<forall>h \<in> set (hs_list hs). wf_handle_obj h \<and> ho_type h = e_type e"
    using assms(2) lookup_type_in [of "e_type e" "events_of ?d"] wf_handlersI [of "[]" "[]"]
    by (auto simp: hs_def wf_world_def wf_data_def wf_entry_def events_of_def split: option.splits; fastforce)+
  have pl: "\<forall>p \<in> set (call_plan pg e this (hs_list hs) w). wf_handle_obj (snd p) \<and> ho_type (snd p) = e_type e"
    using wf(2) by (auto simp: call_plan_def)
  have n: "n = Suc (Suc (n - 2))" using assms(4) by simp
  have "dispatch n pg this (e, w) = dispatch_queue n pg this (handler_queue pg e this hs w) (e, w)"
    by (simp add: dispatch_def hs_def events_of_def Let_def)
  then show ?thesis
    using dispatch_queue_step [OF assms(1-3), of "handler_queue pg e this hs w" "n - 2" this] pl
    unfolding hos flat_handler_queue [OF wf(1)] n [symmetric] by simp
qed

text \<open>C34: An event calls, from its target upwards, the delegated handlers whose selector matches
  and then the handlers bound to the element itself, each list in the order of binding and without
  those whose namespaces do not fit or that the mouse does not cross. Whatever the functions do (bind and remove
  functions, stop the event), but for a call of \<open>off\<close> with a text that ends in its first dot (\<open>sane_page\<close>), which does not return, it
  returns, it calls an initial part of this plan, and all of it unless a function stops the event.\<close>

theorem dispatch_follows_plan:
  assumes "sane_page pg" "wf_world w" "\<not> e_immediate e" "n \<ge> 2"
  shows "\<exists>e1 w1 cs. dispatch n pg this (e, w) = Inr (e1, w1) \<and> w_calls w1 = w_calls w @ cs \<and>
    prefix cs (planned e w (call_plan pg e this (handlers_of (e_type e) (data_of this w)) w)) \<and>
    (\<not> e_stopped e1 \<longrightarrow> cs = planned e w (call_plan pg e this (handlers_of (e_type e) (data_of this w)) w)) \<and>
    wf_world w1"
  using dispatch_made [OF assms(1,2) _ assms(4), of e this] assms(3) by (auto simp: proper_def world_step_def)

text \<open>A list with one delegated handler for its items and one of its own; the event starts at a node
  within an item. The first function removes the second, which is still called.\<close>

definition list_page :: "int ev_page" where
  "list_page = \<lparr>pg_guid = nat, pg_bound = (\<lambda>h. True),
     pg_react = (\<lambda>h i e cs. \<lparr>re_ret = RUndefined, re_stop = False, re_immediate = False, re_prevent = False,
       re_ops = (if h = 1 then [Off 0 ''click'' (Some 2) []] else [])\<rparr>),
     pg_matches = (\<lambda>s this i. s = ''li'' \<and> i = 1), pg_onprop = (\<lambda>i s. None), pg_hook = (\<lambda>i t. False),
     pg_link = (\<lambda>i. False), pg_method = (\<lambda>i t. t = ''click''), pg_document = 8, pg_window = 9\<rparr>"

definition list_world :: "int world" where
  "list_world = \<lparr>w_dom = (\<lambda>i. \<lparr>n_nodeType = 1, n_disabled = False, n_parents = (if i = 2 then [1, 0] else if i = 1 then [0] else []),
     n_data = (if i = 0 then event_add ''click'' (Plain 1) 1 ''li'' (event_add ''click'' (Plain 2) 2 [] no_data) else no_data)\<rparr>),
     w_calls = [], w_native = []\<rparr>"

theorem dispatch_follows_plan_witness:
  "\<exists>e1 w1. dispatch 2 list_page 0 (new_event ''click'' 2 [], list_world) = Inr (e1, w1) \<and>
    prefix (w_calls w1) [(1, 1, ''click''), (0, 2, ''click'')] \<and> wf_world w1"
proof -
  have s: "sane_page list_page" by (simp add: sane_page_def list_page_def type_list_def match_word is_space_def parse_type_def)
  have "wf_data no_data" by (simp add: wf_data_def no_data_def)
  then have w: "wf_world list_world" by (simp add: wf_world_def list_world_def data_of_def event_add_wf)
  have p: "planned (new_event ''click'' 2 []) list_world (call_plan list_page (new_event ''click'' 2 []) 0
      (handlers_of (e_type (new_event ''click'' 2 [])) (data_of 0 list_world)) list_world) = [(1, 1, ''click''), (0, 2, ''click'')]"
    by code_simp
  have "\<not> e_immediate (new_event ''click'' 2 [])" by (simp add: new_event_def)
  from dispatch_follows_plan [OF s w this, of 2 0] show ?thesis unfolding p by (auto simp: list_world_def)
qed

section \<open>The default action of \<open>trigger\<close>\<close>

lemma trigger_step_step:
  assumes "sane_page pg" "wf_world w" "proper e" "n \<ge> 2"
  shows "\<exists>e1 w1 cs. trigger_step n pg oh t k cur (e, w) = Inr (e1, w1) \<and> world_step w w1 cs \<and> proper e1"
proof -
  let ?ty = "if k > 0 then if sp_delegateType (special_of t) \<noteq> [] then sp_delegateType (special_of t) else t
    else if sp_bindType (special_of t) \<noteq> [] then sp_bindType (special_of t) else t"
  have p: "proper (e\<lparr>e_type := ?ty\<rparr>)" using assms(3) by (simp add: proper_def)
  obtain e1 w1 cs where "dispatch n pg cur (e\<lparr>e_type := ?ty\<rparr>, w) = Inr (e1, w1)" "world_step w w1 cs" "proper e1"
    using dispatch_made [OF assms(1,2) p assms(4), of cur] event_step_proper by blast
  moreover have "proper (preventDefault e')" if "proper e'" for e' using that by (simp add: proper_def preventDefault_def)
  ultimately show ?thesis using p world_step_refl [OF assms(2)]
    by (fastforce simp: trigger_step_def Let_def)
qed

lemma trigger_path_step:
  assumes "sane_page pg" "n \<ge> 2"
  shows "wf_world w \<Longrightarrow> proper e \<Longrightarrow> \<exists>e1 w1 cs. trigger_path n pg oh t k path (e, w) = Inr (e1, w1) \<and> world_step w w1 cs \<and> proper e1"
proof (induction path arbitrary: k e w)
  case Nil
  then show ?case using world_step_refl by auto
next
  case (Cons cur path)
  obtain e1 w1 cs where s1: "trigger_step n pg oh t k cur (e, w) = Inr (e1, w1)" "world_step w w1 cs" "proper e1"
    using trigger_step_step [OF assms(1) Cons.prems assms(2), of oh t k cur] by blast
  moreover obtain e2 w2 ds where "trigger_path n pg oh t (Suc k) path (e1, w1) = Inr (e2, w2)" "world_step w1 w2 ds" "proper e2"
    using Cons.IH [of w1 e1 "Suc k"] s1(2,3) by (auto simp: world_step_def)
  ultimately show ?case using world_step_trans [OF s1(2)] world_step_refl [OF Cons.prems(1)] Cons.prems(2)
    by (cases "e_stopped e") auto
qed

text \<open> \<open>trigger\<close> returns whatever the functions do, and its last step is the default action: the
  method of the element with the name of the type is called once if the element has one and no
  function prevented it, and not at all for \<open>triggerHandler\<close>, for a link that is clicked or at the
  window.\<close>

theorem trigger_default_once:
  assumes "sane_page pg" "wf_world w" "n \<ge> 2" "n_nodeType (w_dom w i) = 1" "\<not> pg_hook pg i (hd (split_dot typ))"
  shows "\<exists>e1 w1 cs. trigger n pg onlyHandlers typ i w = Inr (e1, w1) \<and> w_calls w1 = w_calls w @ cs \<and> wf_world w1 \<and>
    w_native w1 = w_native w @
      (if \<not> onlyHandlers \<and> \<not> e_prevented e1 \<and> \<not> (e_type e1 = ''click'' \<and> pg_link pg (e_target e1)) \<and>
          CHR '':'' \<notin> set (e_type e1) \<and> pg_method pg i (e_type e1) \<and> i \<noteq> pg_window pg
       then [(i, e_type e1)] else [])"
proof -
  let ?t = "hd (split_dot typ)"
  have p: "proper (new_event ?t i (sort (tl (split_dot typ))))" by (simp add: proper_def new_event_def)
  obtain e1 w1 cs where "trigger_path n pg onlyHandlers ?t 0 (event_path pg onlyHandlers ?t i w)
      (new_event ?t i (sort (tl (split_dot typ))), w) = Inr (e1, w1)" "world_step w w1 cs"
    using trigger_path_step [OF assms(1,3,2) p] by blast
  then show ?thesis using assms(4,5)
    by (auto simp: trigger_def Let_def default_action_def world_step_def wf_world_def data_of_def)
qed

theorem trigger_default_once_witness:
  "\<exists>e1 w1 cs. trigger 2 list_page True ''click'' 2 list_world = Inr (e1, w1) \<and> w_calls w1 = [] @ cs \<and> wf_world w1 \<and> w_native w1 = []"
proof -
  have "sane_page list_page" by (simp add: sane_page_def list_page_def type_list_def match_word is_space_def parse_type_def)
  moreover have "wf_data no_data" by (simp add: wf_data_def no_data_def)
  then have "wf_world list_world" by (simp add: wf_world_def list_world_def data_of_def event_add_wf)
  moreover have "n_nodeType (w_dom list_world 2) = 1" "\<not> pg_hook list_page 2 (hd (split_dot ''click''))"
    by (simp_all add: list_world_def list_page_def)
  ultimately show ?thesis
    using trigger_default_once [of list_page list_world 2 2 "''click''" True] by (auto simp: list_world_def)
qed

end
