(* ===== verification/Spec2Isabelle.thy ===== *)
theory Spec2Isabelle
  imports DP_SelectProps DP_GridProps DP_UseProps UI_SliderProps UI_ColorProps UI_MouseProps UI_PositionProps UI_SpinnerProps UI_Progress UI_WidgetProps
    UI_ResizableProps UI_DraggableProps UI_DroppableProps UI_AccordionProps UI_TabsProps BS_CarouselProps BS_CollapseProps BS_MenusProps BS_ModalProps BS_TooltipProps BS_ScrollProps Page
    JQ_Settled JQ_QueueProps JQ_Classes JQ_DispatchProps
begin

text \<open>
  A verification library of the JavaScript of perfbench.

  \<^bold>\<open>The program.\<close> perfbench is a benchmarking tool for SDN controllers, switches and hypervisors. The
  tool itself is C++ (src/, with the OpenFlow library under src/base and src/switch); its data-plane
  tests load a test page, scripts/dataplane/testpage, through the network under test. The JavaScript
  of the repository is that page: its own script js/scripts.js, which measures the time a load
  takes, adds a hundred images and redirects, and the libraries the page ships and runs: jQuery
  (jquery.js), jQuery UI 1.11.2 (jquery-ui.js) and Bootstrap 3.3.2 (bootstrap.js). They are part of the
  repository's sources, 28700 lines of its JavaScript, and this library verifies the parts of them
  with a state and a contract of their own. The C++ of the tool is not modelled here.

  \<^bold>\<open>How the parts interact.\<close> The page script binds one handler to the load of the page. Bootstrap's
  plugins bind theirs to the document, and each animated one asks the transition plugin for the end
  of an animation. The date picker and the slider of jQuery UI keep their state in records and call
  functions of the page. jQuery's events call the handlers, its class methods change the classes the
  plugins test, its callback lists are what its deferred objects consist of.

  \<^bold>\<open>Conventions.\<close> The theory JS_Prelude has the language: strings are lists of characters, one for each
  code unit; a number the code keeps integral is an \<open>int\<close>, a fraction a \<open>rat\<close> (JS_Num), NaN is \<open>None\<close>,
  and JS_Text has the texts of numbers, with exponents where the language writes and reads them;
  an exception is \<open>Inl (Throw m)\<close>, a loop or recursion without end \<open>Inl Diverge\<close>, of the sum \<open>js\<close>. An
  object with fields is a record, and an operation takes it and returns it changed. Code the sources
  only call (the host's time zone, what the browser measures, the functions of the page) is a
  parameter; what is assumed of it is a named locale or hypothesis, and is met by an instance.

  \<^bold>\<open>Dates and the date picker\<close> (jquery-ui.js, \<open>$.datepicker\<close>). JS_Date has the dates of the language:
  time values, the civil calendar, local fields, with the zone as a parameter and its laws as the
  locale \<open>zone_laws\<close>, interpreted on every fixed zone and on central European time with its summer
  time. DP_Format has the texts (\<open>parseDate\<close>, \<open>formatDate\<close>, \<open>_possibleChars\<close>, \<open>iso8601Week\<close>), DP_Inst one
  instance (settings, selection, relative dates, bounds), DP_Html the calendar as the code writes it,
  DP_Manager the singleton (attaching, options, the popup, keys). DP_Calendar, DP_Roundtrip and
  DP_Props show what a format and its parser promise: round trips, no roll-over of impossible days, the
  week numbers, the loop over the months. DP_Select states the operations on a selection as arithmetic
  of day numbers in the locale \<open>dp_host\<close>, which extends to \<open>zone_laws\<close>; DP_SelectProps, DP_GridProps and
  DP_UseProps show bounds, the drawn grid, that a date set is read back, the links, the popup's place.

  \<^bold>\<open>The slider\<close> (jquery-ui.js, \<open>ui.slider\<close>): UI_Slider has its values, mouse and keys over rationals;
  UI_SliderProps shows the alignment to be the nearest step (locale \<open>range_rounding\<close>, given by
  \<open>stepped_slider\<close>), the order of two handles, the agreement of mouse and drawing, one change for a drag.

  \<^bold>\<open>The mouse\<close> (jquery-ui.js, \<open>ui.mouse\<close>): UI_Mouse has the press, the moves and the release that the
  draggable widgets share, several of them on a page; UI_MouseProps shows the order of the calls and that a
  release leaves nothing in motion.

  \<^bold>\<open>The base of the widgets\<close> (jquery-ui.js, \<open>$.widget\<close>): UI_Widget has the options of a widget as objects in a store, the
  copies \<open>$.widget.extend\<close> makes of them, \<open>option\<close> with nested keys, and the plugin that calls methods; UI_WidgetProps
  shows that a copy is a reference merge of trees in new objects, and that what is set under a key of any number of
  parts is read back.

  \<^bold>\<open>Interactions\<close> (jquery-ui.js): UI_Plane has places and sizes. UI_Resizable has the drag of a handle with its bounds,
  ratio, containment and grid, UI_Draggable the position of a dragged element, snapping and the life of a drag,
  UI_Droppable the manager that tells droppables what is over them. UI_ResizableProps, UI_DraggableProps and
  UI_DroppableProps show which edges stay, what stays inside, where an element snaps, and that over and out are
  told in turn; and where the code does not keep this.

  \<^bold>\<open>Accordion and tabs\<close> (jquery-ui.js, \<open>ui.accordion\<close>, \<open>ui.tabs\<close>): UI_Accordion and UI_Tabs have the change from one panel
  to another with its animation, the keys, disabled tabs and the options, the answers of the page and the ends of
  animations as steps; UI_AccordionProps and UI_TabsProps show over every run that they settle with the panel of the active
  header open and no other, each change told once, which tabs stay in the tab order, and where the search for the next
  tab ends.

  \<^bold>\<open>Placing\<close> (jquery-ui.js, \<open>position\<close>): UI_Position reads the texts of the options and places elements over
  what the browser measures; UI_PositionProps shows what \<open>fit\<close> and \<open>flip\<close> reach and that the texts are read
  as they are written.

  \<^bold>\<open>The spinner\<close> (jquery-ui.js, \<open>ui.spinner\<close>): UI_Spinner has its field, timers, events and methods;
  UI_SpinnerProps shows the order of its events, its timers, and the values it writes, the texts of which are read back. UI_Progress has the
  progress bar, and shows that what is seen and told of it is its value.

  \<^bold>\<open>Colors\<close> (jquery-ui.js, \<open>jQuery.Color\<close>): UI_Color has channels, the texts and their parsers, the two spaces,
  transitions, blending and the hooks of style properties; UI_ColorProps shows the texts to be read back,
  that the other space moves no byte by more than two, and that transitions and blends stay between colors.

  \<^bold>\<open>Bootstrap\<close> (bootstrap.js). BS_Transition has one-shot handlers, the event and its emulation by a timer;
  the locale \<open>transition_end\<close> is the contract the animated plugins use: a handler runs exactly once under
  every interleaving. BS_Carousel, BS_Simple (alert, button), BS_Collapse, BS_Menus (dropdown, tab), BS_Modal,
  BS_Tooltip (tooltip, popover) and BS_Scroll (scrollspy, affix) have one plugin each; the theories named
  after them with Props show invariants over every sequence of calls, clicks and transition ends (one item
  shown, each panel settled or about to be, one menu open), what the operations lead to (one panel of an
  accordion open, one tab active, nothing left behind by a dialog) and where things are placed.

  \<^bold>\<open>The page\<close>: Page has js/scripts.js, and shows what is displayed and added, and where it redirects.

  \<^bold>\<open>jQuery\<close> (jquery.js). JQ_Core has the functions the others share (words, search, trimming). JQ_Callbacks
  has \<open>jQuery.Callbacks\<close> with its re-entrant changes; the locale \<open>fired_list\<close> of JQ_CallbacksProps is the
  contract between a list and the world its functions live in, \<open>passive_list\<close> the special case of functions
  that leave the list alone. JQ_Deferred has \<open>Deferred\<close>, \<open>then\<close> and \<open>when\<close>; JQ_DeferredProps shows that a
  deferred refines the specification of a promise, JQ_Settled that it settles once whatever the functions
  do (locale \<open>kept_calls\<close>). JQ_Queue has the queues with \<open>delay\<close> and \<open>promise\<close>, their hooks being callback lists of
  JQ_Callbacks; JQ_QueueProps shows their order and what the promises wait for, for all functions that meet
  the contract \<open>queue_calls\<close>, and that a promise is resolved once its queues are asked to their end; animations
  with \<open>queue: false\<close>, which use the hooks without a queue, are left out. JQ_Classes has the class methods on the text of \<open>className\<close> and shows that they
  refine sets of names. JQ_Event has \<open>jQuery.event\<close>, \<open>on\<close>, \<open>one\<close> and \<open>off\<close>; JQ_EventProps shows the
  namespaces to be inclusion, the data of an element well formed and listened to by type, \<open>off\<close> the inverse of \<open>on\<close>, and
  where \<open>off\<close> does not return; JQ_DispatchProps shows the plan of calls an event follows and that
  \<open>trigger\<close> returns.

  \<^bold>\<open>Loops and fuel.\<close> Loops that are recursions over a list or towards a bound are functions with a measure.
  The loop of the calendar that goes back to \<open>maxDate\<close> is a \<open>partial_function\<close>, and shown to return; the
  search for the next tab is one too, and shown to return when there is one (\<open>next_tab\<close>). The
  re-entrant calls of a callback list and of the functions of deferreds take fuel, one unit for each
  nested call, and so do the functions of queues: \<open>callbacks_never_throw\<close>, \<open>settled_once\<close> and \<open>fx_queue_fifo\<close>
  hold for every fuel, and where a result is
  claimed (\<open>deferred_refines_promise\<close>) it is shown to be reached. \<open>event_remove\<close> takes fuel for its
  recursion over the types; \<open>off_returns\<close> shows that two units are enough, except in the one case in which
  no fuel is, and there the code overflows the stack.

  \<^bold>\<open>Not modelled.\<close> The numbers are exact: rounding of doubles and the range of integers beyond 2 to the 53
  are not modelled, nor the infinite numbers, nor code units above 255. Of jQuery: selectors (Sizzle), the document (manipulation,
  CSS, dimensions, offset), animation, the event object's normalisation and the repairs for old browsers,
  and requests: they compute with the browser's document or wait for it, and a model of them would be a
  model of a browser. Of jQuery UI: the building of constructors by \<open>$.widget\<close>, the interactions selectable and sortable and the
  effects, which rearrange and animate the browser's document, and the widgets that
  mostly build markup (dialog, menu, autocomplete, selectmenu, button, tooltip). The
  minified copies repeat the same code. The C++ of the tool is outside the language this library covers.
\<close>

end
